(* ===== verification/Prelude.thy ===== *)
theory Prelude
  imports Complex_Main "HOL-Library.AList" "HOL-Library.Char_ord" "HOL-Library.List_Lexorder"
    "HOL-Library.Product_Lexorder"
begin

text \<open>
  What every component of the development shares: the exceptions the Python code raises as
  values of a sum type, timezone-naive and timezone-aware datetimes, insertion-ordered
  dictionaries as association lists, the zero-padded sequence numbers used in identifiers,
  and the collections the component proofs draw on.
\<close>

named_theorems dec_sign \<open>sign of a rounded decimal operation\<close>
named_theorems inv_intros \<open>preservation of component invariants\<close>

section \<open>Exceptions\<close>

text \<open>
  A raised exception is \<open>Inl\<close> of its class and message. A method that may mutate its object
  before it raises returns the object beside the sum (\<open>('a, 's) outcome\<close>), so that what an
  error leaves behind is part of the model.
\<close>

datatype error =
    ValueError string
  | KeyError string
  | IndexError string
  | RuntimeError string
  | TypeError string
  | ExecutionAdapterError string
  | ExternalError string
  | DuplicateFillError string
  | CollectorLeaseConflict string

text \<open>
  \<open>ExternalError\<close> is an exception of code outside the repository, known by the name of its class;
  \<open>error_name\<close> is \<open>type(exc).__name__\<close>.
\<close>

fun error_name :: "error \<Rightarrow> string" where
  "error_name (ValueError _) = ''ValueError''"
| "error_name (KeyError _) = ''KeyError''"
| "error_name (IndexError _) = ''IndexError''"
| "error_name (RuntimeError _) = ''RuntimeError''"
| "error_name (TypeError _) = ''TypeError''"
| "error_name (ExecutionAdapterError _) = ''ExecutionAdapterError''"
| "error_name (DuplicateFillError _) = ''DuplicateFillError''"
| "error_name (CollectorLeaseConflict _) = ''CollectorLeaseConflict''"
| "error_name (ExternalError name) = name"

text \<open>\<open>str(exc)\<close>: the message.\<close>

definition error_message :: "error \<Rightarrow> string" where
  "error_message e = (case e of ValueError m \<Rightarrow> m | KeyError m \<Rightarrow> m | IndexError m \<Rightarrow> m
     | RuntimeError m \<Rightarrow> m | TypeError m \<Rightarrow> m | DuplicateFillError m \<Rightarrow> m
     | CollectorLeaseConflict m \<Rightarrow> m | ExecutionAdapterError m \<Rightarrow> m | ExternalError m \<Rightarrow> m)"

type_synonym 'a result = "error + 'a"
type_synonym ('a, 's) outcome = "(error + 'a) \<times> 's"

definition bindE :: "'a result \<Rightarrow> ('a \<Rightarrow> 'b result) \<Rightarrow> 'b result" where
  "bindE m f = (case m of Inl e \<Rightarrow> Inl e | Inr x \<Rightarrow> f x)"

text \<open>Sequencing of calls that may raise: an exception ends the sequence and keeps the state.\<close>

definition bindS :: "('s \<Rightarrow> ('a, 's) outcome) \<Rightarrow> ('a \<Rightarrow> 's \<Rightarrow> ('b, 's) outcome) \<Rightarrow> 's \<Rightarrow> ('b, 's) outcome" where
  "bindS m f s = (case m s of (Inl e, s') \<Rightarrow> (Inl e, s') | (Inr x, s') \<Rightarrow> f x s')"

definition raise_if :: "bool \<Rightarrow> error \<Rightarrow> unit result" where
  "raise_if c e = (if c then Inl e else Inr ())"

lemma bindE_simps [simp]: "bindE (Inl e) f = Inl e" "bindE (Inr x) f = f x"
  by (simp_all add: bindE_def)

lemma bindE_Inr_iff [simp]: "bindE m f = Inr y \<longleftrightarrow> (\<exists>x. m = Inr x \<and> f x = Inr y)"
  by (cases m) auto

lemma bindE_Inl_iff: "bindE m f = Inl e \<longleftrightarrow> m = Inl e \<or> (\<exists>x. m = Inr x \<and> f x = Inl e)"
  by (cases m) auto

lemma raise_if_Inr_iff [simp]: "raise_if c e = Inr u \<longleftrightarrow> \<not> c"
  by (simp add: raise_if_def)

lemma raise_if_Inl_iff [simp]: "raise_if c e = Inl e' \<longleftrightarrow> c \<and> e' = e"
  by (auto simp: raise_if_def)

lemma raise_if_simps [simp]: "raise_if True e = Inl e" "raise_if False e = Inr ()"
  by (simp_all add: raise_if_def)

section \<open>Datetimes\<close>

text \<open>
  A \<open>datetime\<close> is naive (its \<open>tzinfo\<close> is \<open>None\<close>) or aware; an aware one is identified with
  its UTC instant in microseconds, which is what \<open>astimezone(UTC)\<close> and every comparison and
  difference of aware datetimes depend on. A \<open>timedelta\<close> is its length in microseconds.
\<close>

type_synonym instant = int
type_synonym timedelta = int

datatype datetime = Naive int | Aware instant

definition as_utc :: "string \<Rightarrow> datetime \<Rightarrow> instant result" where
  "as_utc msg d = (case d of Naive _ \<Rightarrow> Inl (ValueError msg) | Aware t \<Rightarrow> Inr t)"

definition seconds :: "int \<Rightarrow> timedelta" where
  "seconds n = n * 1000000"

lemma as_utc_simps [simp]:
  "as_utc msg (Naive t) = Inl (ValueError msg)"
  "as_utc msg (Aware t) = Inr t"
  by (simp_all add: as_utc_def)

lemma as_utc_Inr_iff: "as_utc msg d = Inr t \<longleftrightarrow> d = Aware t"
  by (cases d) auto

section \<open>Dictionaries\<close>

text \<open>
  A Python dictionary keeps insertion order and overwrites in place. \<open>AList.update\<close> does
  exactly that on an association list with distinct keys; \<open>map_of\<close> is lookup.
\<close>

type_synonym ('k, 'v) dict = "('k \<times> 'v) list"

abbreviation dict_set :: "'k \<Rightarrow> 'v \<Rightarrow> ('k, 'v) dict \<Rightarrow> ('k, 'v) dict" where
  "dict_set \<equiv> AList.update"

abbreviation dict_del :: "'k \<Rightarrow> ('k, 'v) dict \<Rightarrow> ('k, 'v) dict" where
  "dict_del \<equiv> AList.delete"

definition dict_values :: "('k, 'v) dict \<Rightarrow> 'v list" where
  "dict_values d = map snd d"

definition dict_ok :: "('k, 'v) dict \<Rightarrow> bool" where
  "dict_ok d \<longleftrightarrow> distinct (map fst d)"

lemma map_of_dict_set [simp]: "map_of (dict_set k v d) = (map_of d)(k \<mapsto> v)"
  by (rule update_conv')

lemma dict_ok_set [simp, intro]: "dict_ok d \<Longrightarrow> dict_ok (dict_set k v d)"
  by (simp add: dict_ok_def distinct_update)

lemma dict_ok_Nil [simp]: "dict_ok []"
  by (simp add: dict_ok_def)

lemma dict_keys_set: "fst ` set (dict_set k v d) = insert k (fst ` set d)"
  by (simp add: dom_update)

lemma dict_set_new: "k \<notin> fst ` set d \<Longrightarrow> dict_set k v d = d @ [(k, v)]"
  by (induction d) auto

lemma dict_set_keys_present:
  "k \<in> fst ` set d \<Longrightarrow> map fst (dict_set k v d) = map fst d"
  by (induction d) auto

lemma dict_in_set_iff: "dict_ok d \<Longrightarrow> (k, v) \<in> set d \<longleftrightarrow> map_of d k = Some v"
  by (simp add: dict_ok_def)

lemma dict_set_mem: "(k', v') \<in> set (dict_set k v d) \<Longrightarrow> (k', v') = (k, v) \<or> (k', v') \<in> set d"
  by (induction d) (auto split: if_splits)

lemma dict_set_mem_iff:
  "dict_ok d \<Longrightarrow> (k', v') \<in> set (dict_set k v d) \<longleftrightarrow>
     (k' = k \<and> v' = v) \<or> (k' \<noteq> k \<and> (k', v') \<in> set d)"
  using dict_in_set_iff [of "dict_set k v d" k' v'] dict_in_set_iff [of d k' v'] by auto

lemma dict_set_all:
  "\<forall>(k', v') \<in> set d. P k' v' \<Longrightarrow> P k v \<Longrightarrow> \<forall>(k', v') \<in> set (dict_set k v d). P k' v'"
  using dict_set_mem by fastforce

section \<open>Sequence numbers in identifiers\<close>

text \<open>Python's \<open>f"{n:012d}"\<close>: decimal digits, padded with zeros on the left to width 12.\<close>

definition digit_char :: "nat \<Rightarrow> char" where
  "digit_char n = char_of (48 + n)"

fun str_nat :: "nat \<Rightarrow> string" where
  "str_nat n = (if n < 10 then [digit_char n] else str_nat (n div 10) @ [digit_char (n mod 10)])"

declare str_nat.simps [simp del]

definition zfill :: "nat \<Rightarrow> string \<Rightarrow> string" where
  "zfill w s = replicate (w - length s) CHR ''0'' @ s"

definition fmt12 :: "nat \<Rightarrow> string" where
  "fmt12 n = zfill 12 (str_nat n)"

definition nat_of_digits :: "string \<Rightarrow> nat" where
  "nat_of_digits = foldl (\<lambda>a c. 10 * a + (of_char c - 48)) 0"

lemma of_char_digit: "n < 10 \<Longrightarrow> (of_char (digit_char n) :: nat) = 48 + n"
  by (simp add: digit_char_def of_char_of)

lemma nat_of_digits_str_nat: "nat_of_digits (str_nat n) = n"
proof (induction n rule: str_nat.induct)
  case (1 n)
  then show ?case
    by (cases "n < 10") (auto simp: str_nat.simps [of n] nat_of_digits_def of_char_digit)
qed

lemma foldl_zeros:
  "foldl (\<lambda>a c. 10 * a + (of_char c - 48)) (0::nat) (replicate k CHR ''0'') = 0"
  by (induction k) auto

lemma nat_of_digits_fmt12: "nat_of_digits (fmt12 n) = n"
  using nat_of_digits_str_nat [of n]
  by (simp add: fmt12_def zfill_def nat_of_digits_def foldl_zeros)

lemma fmt12_inj [simp]: "fmt12 m = fmt12 n \<longleftrightarrow> m = n"
  by (metis nat_of_digits_fmt12)

section \<open>Machines with an invariant\<close>

text \<open>
  The contract a stateful component offers its clients: every admissible operation keeps the invariant;
  a latched machine also has final states that no operation leaves. The run lemmas are
  proved once here and reach each component through an interpretation.
\<close>

locale invariant_machine =
  fixes step :: "'op \<Rightarrow> 's \<Rightarrow> 's" and ok :: "'op \<Rightarrow> bool" and inv :: "'s \<Rightarrow> bool"
  assumes inv_step: "ok a \<Longrightarrow> inv s \<Longrightarrow> inv (step a s)"
begin

lemma inv_run: "list_all ok ops \<Longrightarrow> inv s \<Longrightarrow> inv (fold step ops s)"
  by (induction ops arbitrary: s) (auto intro: inv_step)

lemma rel_run:
  assumes rel: "\<And>a t. ok a \<Longrightarrow> inv t \<Longrightarrow> R t (step a t)" and refl: "\<And>t. R t t"
    and trans: "\<And>x y z. R x y \<Longrightarrow> R y z \<Longrightarrow> R x z"
  shows "list_all ok ops \<Longrightarrow> inv s \<Longrightarrow> R s (fold step ops s)"
proof (induction ops arbitrary: s)
  case (Cons a ops)
  have "R s (step a s)" "R (step a s) (fold step ops (step a s))"
    using Cons by (auto intro: rel inv_step)
  then show ?case using trans by auto
qed (simp add: refl)

end

locale latched_machine = invariant_machine +
  fixes final :: "'s \<Rightarrow> bool"
  assumes final_step: "final s \<Longrightarrow> step a s = s"
begin

lemma final_run: "final s \<Longrightarrow> fold step ops s = s"
  by (induction ops) (simp_all add: final_step)

end

end
