(* ===== verification/Decimal_Arith.thy ===== *)
theory Decimal_Arith
  imports Prelude
begin

text \<open>
  Python's \<open>decimal.Decimal\<close> under the default context: 28 significant digits,
  \<open>ROUND_HALF_EVEN\<close>. A finite decimal is its rational value, and every arithmetic
  operation (unary minus and \<open>abs\<close> included) rounds its exact result to 28 digits;
  comparisons, \<open>min\<close>, \<open>max\<close> and \<open>to_integral_value\<close> do not round. Literals and
  constructor arguments are exact, so an input may carry more than 28 digits.
  Not modelled: infinities and NaNs, the sign of zero, the trailing zeros of a coefficient
  (which no comparison sees) and the exponent limits of \<open>10\<^sup>9\<^sup>9\<^sup>9\<^sup>9\<^sup>9\<^sup>9\<close>.

  The locale \<open>rounding\<close> states what the component proofs use of the context: monotonicity,
  oddness, idempotence, and that only zero rounds to zero; \<open>rounding_error\<close> adds the relative
  error. Both are interpreted on the 28-digit rounding below.
\<close>

section \<open>Rounding\<close>

type_synonym dec = rat

definition round_half_even :: "rat \<Rightarrow> int" where
  "round_half_even x =
     (let f = \<lfloor>x\<rfloor>; d = x - of_int f in
      if d < 1/2 then f
      else if d > 1/2 then f + 1
      else if even f then f else f + 1)"

fun num_digits :: "nat \<Rightarrow> nat" where
  "num_digits n = (if n = 0 then 0 else Suc (num_digits (n div 10)))"

declare num_digits.simps [simp del]

definition adj_exp :: "rat \<Rightarrow> int" where
  "adj_exp x =
     (let a = \<bar>x\<bar> in
      if 1 \<le> a then int (num_digits (nat \<lfloor>a\<rfloor>)) - 1
      else - int (num_digits (nat (\<lceil>1 / a\<rceil> - 1))))"

definition ulp :: "nat \<Rightarrow> rat \<Rightarrow> rat" where
  "ulp p x = 10 powi (adj_exp x - int p + 1)"

definition dround :: "nat \<Rightarrow> rat \<Rightarrow> rat" where
  "dround p x = (if x = 0 then 0 else of_int (round_half_even (x / ulp p x)) * ulp p x)"

subsection \<open>Rounding to the nearest integer\<close>

lemma round_half_even_of_int [simp]: "round_half_even (of_int n) = n"
  by (simp add: round_half_even_def)

lemma round_half_even_error: "\<bar>of_int (round_half_even x) - x\<bar> \<le> 1/2"
proof -
  have "of_int \<lfloor>x\<rfloor> \<le> x" "x < of_int \<lfloor>x\<rfloor> + 1" by linarith+
  then show ?thesis unfolding round_half_even_def Let_def by (auto simp: abs_le_iff)
qed

lemma round_half_even_mono:
  assumes "x \<le> y" shows "round_half_even x \<le> round_half_even y"
proof -
  have f: "\<lfloor>x\<rfloor> \<le> \<lfloor>y\<rfloor>" using assms by (rule floor_mono)
  show ?thesis
  proof (cases "\<lfloor>x\<rfloor> = \<lfloor>y\<rfloor>")
    case True
    then show ?thesis using assms unfolding round_half_even_def Let_def by auto
  next
    case False
    with f have "\<lfloor>x\<rfloor> + 1 \<le> \<lfloor>y\<rfloor>" by simp
    then show ?thesis unfolding round_half_even_def Let_def by auto
  qed
qed

lemma round_half_even_minus: "round_half_even (- x) = - round_half_even x"
proof (cases "x = of_int \<lfloor>x\<rfloor>")
  case True
  then obtain n where "x = of_int n" by blast
  then show ?thesis using round_half_even_of_int [of "- n"] by simp
next
  case False
  have "\<lfloor>- x\<rfloor> = - \<lfloor>x\<rfloor> - 1"
    using False by linarith
  then show ?thesis unfolding round_half_even_def Let_def by (auto; simp)
qed

subsection \<open>The adjusted exponent\<close>

lemma num_digits_bounds: "0 < n \<Longrightarrow> 10 ^ (num_digits n - 1) \<le> n \<and> n < 10 ^ num_digits n"
proof (induction n rule: num_digits.induct)
  case (1 n)
  show ?case
  proof (cases "n < 10")
    case True
    then have "num_digits n = 1" using 1 by (simp add: num_digits.simps [of n] num_digits.simps [of 0])
    then show ?thesis using 1 True by simp
  next
    case False
    then have pos: "0 < n div 10" by simp
    obtain k where k: "num_digits (n div 10) = Suc k"
      using pos by (metis num_digits.simps not_gr_zero)
    have "10 ^ k \<le> n div 10" "n div 10 < 10 ^ Suc k" using 1 pos k by simp_all
    moreover have "num_digits n = Suc (Suc k)" using 1 k by (simp add: num_digits.simps [of n])
    moreover have "10 * (n div 10) \<le> n" "n < 10 * (n div 10) + 10" by linarith+
    ultimately show ?thesis by simp
  qed
qed

lemma num_digits_pos: "0 < n \<Longrightarrow> 0 < num_digits n"
  by (simp add: num_digits.simps)

lemma powi10_pos [simp]: "(0::rat) < 10 powi e" "(10::rat) powi e \<noteq> 0"
  by (simp_all add: zero_less_power_int)

lemma powi10_mono: "a \<le> b \<Longrightarrow> (10::rat) powi a \<le> 10 powi b"
  by (simp add: power_int_increasing)

lemma powi10_less_iff: "(10::rat) powi a < 10 powi b \<longleftrightarrow> a < b"
  by (meson linorder_not_le powi10_mono power_int_strict_increasing one_less_numeral_iff semiring_norm(76))

lemma adj_exp_bounds:
  assumes "x \<noteq> 0"
  shows "10 powi adj_exp x \<le> \<bar>x\<bar>" "\<bar>x\<bar> < 10 powi (adj_exp x + 1)"
proof -
  have *: "10 powi adj_exp x \<le> \<bar>x\<bar> \<and> \<bar>x\<bar> < 10 powi (adj_exp x + 1)"
  proof (cases "1 \<le> \<bar>x\<bar>")
    case True
    define n where "n = nat \<lfloor>\<bar>x\<bar>\<rfloor>"
    have n: "0 < n" using True by (simp add: n_def)
    have e: "adj_exp x = int (num_digits n - 1)" "adj_exp x + 1 = int (num_digits n)"
      using True num_digits_pos [OF n] by (simp_all add: adj_exp_def n_def of_nat_diff)
    have fl: "of_nat n \<le> \<bar>x\<bar>" "\<bar>x\<bar> < of_nat (Suc n)"
      using True unfolding n_def by linarith+
    have "(10::rat) ^ (num_digits n - 1) \<le> of_nat n"
      using num_digits_bounds [OF n] by (metis of_nat_le_iff of_nat_numeral of_nat_power)
    moreover have "of_nat (Suc n) \<le> (10::rat) ^ num_digits n"
      using num_digits_bounds [OF n] by (metis of_nat_le_iff of_nat_numeral of_nat_power Suc_leI)
    moreover have "10 powi adj_exp x = (10::rat) ^ (num_digits n - 1)"
      by (simp only: e(1) power_int_of_nat)
    moreover have "10 powi (adj_exp x + 1) = (10::rat) ^ num_digits n"
      by (simp only: e(2) power_int_of_nat)
    ultimately show ?thesis using fl by linarith
  next
    case False
    define n where "n = nat (\<lceil>1 / \<bar>x\<bar>\<rceil> - 1)"
    have a: "0 < \<bar>x\<bar>" "\<bar>x\<bar> < 1" using assms False by auto
    then have inv: "1 < 1 / \<bar>x\<bar>" by simp
    have n: "0 < n" using inv unfolding n_def by linarith
    have e: "adj_exp x = - int (num_digits n)" using False by (simp add: adj_exp_def n_def)
    have fl: "of_nat n < 1 / \<bar>x\<bar>" "1 / \<bar>x\<bar> \<le> of_nat (Suc n)"
      using inv unfolding n_def by linarith+
    have lo: "(10::rat) ^ (num_digits n - 1) \<le> of_nat n"
      using num_digits_bounds [OF n] by (metis of_nat_le_iff of_nat_numeral of_nat_power)
    have hi: "of_nat (Suc n) \<le> (10::rat) ^ num_digits n"
      using num_digits_bounds [OF n] by (metis of_nat_le_iff of_nat_numeral of_nat_power Suc_leI)
    have "1 / \<bar>x\<bar> \<le> 10 ^ num_digits n" using fl hi by linarith
    then have l: "10 powi adj_exp x \<le> \<bar>x\<bar>"
      using a by (simp add: e power_int_minus field_simps)
    have "10 ^ (num_digits n - 1) < 1 / \<bar>x\<bar>" using fl lo by linarith
    then have u: "\<bar>x\<bar> < 1 / 10 ^ (num_digits n - 1)"
      using a by (simp add: field_simps)
    have "adj_exp x + 1 = - int (num_digits n - 1)"
      using num_digits_pos [OF n] by (simp add: e of_nat_diff)
    then have "10 powi (adj_exp x + 1) = (1::rat) / 10 ^ (num_digits n - 1)"
      by (simp add: power_int_minus field_simps)
    with u l show ?thesis by simp
  qed
  then show "10 powi adj_exp x \<le> \<bar>x\<bar>" "\<bar>x\<bar> < 10 powi (adj_exp x + 1)" by simp_all
qed

lemma adj_exp_unique:
  assumes "10 powi e \<le> \<bar>x\<bar>" "\<bar>x\<bar> < 10 powi (e + 1)"
  shows "adj_exp x = e"
proof -
  have nz: "x \<noteq> 0" using assms(1) powi10_pos(1) [of e] by (metis abs_zero linorder_not_le)
  note b = adj_exp_bounds [OF nz]
  have "(10::rat) powi e < 10 powi (adj_exp x + 1)" using assms b by linarith
  moreover have "(10::rat) powi adj_exp x < 10 powi (e + 1)" using assms b by linarith
  ultimately show ?thesis by (simp add: powi10_less_iff)
qed

lemma adj_exp_mono: "x \<noteq> 0 \<Longrightarrow> \<bar>x\<bar> \<le> \<bar>y\<bar> \<Longrightarrow> adj_exp x \<le> adj_exp y"
proof -
  assume a: "x \<noteq> 0" "\<bar>x\<bar> \<le> \<bar>y\<bar>"
  then have "y \<noteq> 0" by auto
  then have "(10::rat) powi adj_exp x < 10 powi (adj_exp y + 1)"
    using adj_exp_bounds [of x] adj_exp_bounds [of y] a by linarith
  then show ?thesis by (simp add: powi10_less_iff)
qed

lemma adj_exp_minus [simp]: "adj_exp (- x) = adj_exp x"
  by (simp add: adj_exp_def)

lemma ulp_minus [simp]: "ulp p (- x) = ulp p x"
  by (simp add: ulp_def)

lemma ulp_pos [simp]: "0 < ulp p x" "ulp p x \<noteq> 0"
  by (simp_all add: ulp_def)

subsection \<open>Rounding to a number of significant digits\<close>

lemma dround_0 [simp]: "dround p 0 = 0"
  by (simp add: dround_def)

lemma dround_minus: "dround p (- x) = - dround p x"
proof -
  have "- x / ulp p x = - (x / ulp p x)" by simp
  then show ?thesis by (simp add: dround_def round_half_even_minus del: minus_divide_left)
qed

definition representable :: "nat \<Rightarrow> rat \<Rightarrow> bool" where
  "representable p x \<longleftrightarrow> (\<exists>m e. \<bar>m\<bar> \<le> 10 ^ p \<and> x = of_int m * 10 powi e)"

lemma representableI: "\<bar>m\<bar> \<le> 10 ^ p \<Longrightarrow> representable p (of_int m * 10 powi e)"
  unfolding representable_def by blast

lemma scaled_bounds:
  assumes "x \<noteq> 0" "0 < p"
  shows "10 ^ (p - 1) \<le> \<bar>x\<bar> / ulp p x" "\<bar>x\<bar> / ulp p x < 10 ^ p"
proof -
  have u: "ulp p x * 10 ^ (p - 1) = 10 powi adj_exp x" "ulp p x * 10 ^ p = 10 powi (adj_exp x + 1)"
    using assms(2) by (simp_all add: ulp_def of_nat_diff flip: power_int_of_nat power_int_add)
  show "10 ^ (p - 1) \<le> \<bar>x\<bar> / ulp p x" "\<bar>x\<bar> / ulp p x < 10 ^ p"
    using adj_exp_bounds [OF assms(1)] u by (simp_all add: field_simps)
qed

lemma round_scaled_bounds:
  assumes "0 < x" "0 < p"
  shows "10 ^ (p - 1) \<le> round_half_even (x / ulp p x)" "round_half_even (x / ulp p x) \<le> 10 ^ p"
proof -
  have b: "of_int (10 ^ (p - 1)) \<le> x / ulp p x" "x / ulp p x \<le> of_int (10 ^ p)"
    using scaled_bounds [of x p] assms by simp_all
  show "10 ^ (p - 1) \<le> round_half_even (x / ulp p x)"
    using round_half_even_mono [OF b(1)] by (simp only: round_half_even_of_int)
  show "round_half_even (x / ulp p x) \<le> 10 ^ p"
    using round_half_even_mono [OF b(2)] by (simp only: round_half_even_of_int)
qed

lemma dround_bounds:
  assumes "0 < x" "0 < p"
  shows "10 powi adj_exp x \<le> dround p x" "dround p x \<le> 10 powi (adj_exp x + 1)"
proof -
  have u: "10 powi adj_exp x = of_int (10 ^ (p - 1)) * ulp p x"
      "10 powi (adj_exp x + 1) = of_int (10 ^ p) * ulp p x"
    using assms(2) by (simp_all add: ulp_def of_nat_diff flip: power_int_of_nat power_int_add)
  have d: "dround p x = of_int (round_half_even (x / ulp p x)) * ulp p x"
    using assms by (simp add: dround_def)
  show "10 powi adj_exp x \<le> dround p x" "dround p x \<le> 10 powi (adj_exp x + 1)"
    unfolding u d using round_scaled_bounds [OF assms]
    by (simp_all only: mult_le_cancel_right_pos ulp_pos of_int_le_iff)
qed

lemma dround_pos: "0 < x \<Longrightarrow> 0 < p \<Longrightarrow> 0 < dround p x"
  using dround_bounds [of x p] powi10_pos(1) [of "adj_exp x"] by linarith

lemma dround_mono_pos:
  assumes "0 < x" "x \<le> y" "0 < p"
  shows "dround p x \<le> dround p y"
proof (cases "adj_exp x = adj_exp y")
  case True
  then have u: "ulp p x = ulp p y" by (simp add: ulp_def)
  have "x / ulp p y \<le> y / ulp p y" using assms by (simp add: divide_right_mono less_imp_le)
  then have "round_half_even (x / ulp p y) \<le> round_half_even (y / ulp p y)"
    by (rule round_half_even_mono)
  then show ?thesis using assms u by (simp add: dround_def)
next
  case False
  then have "adj_exp x + 1 \<le> adj_exp y" using adj_exp_mono [of x y] assms by simp
  then have "(10::rat) powi (adj_exp x + 1) \<le> 10 powi adj_exp y" by (rule powi10_mono)
  then show ?thesis using dround_bounds [of x p] dround_bounds [of y p] assms by linarith
qed

lemma dround_mono:
  assumes "x \<le> y" "0 < p" shows "dround p x \<le> dround p y"
proof -
  consider "0 < x" | "x \<le> 0" "0 \<le> y" | "y < 0" using assms by linarith
  then show ?thesis
  proof cases
    case 1 then show ?thesis using assms dround_mono_pos by blast
  next
    case 2
    have "dround p x \<le> 0" using 2 dround_pos [of "- x" p] assms(2) dround_minus [of p x]
      by (cases "x = 0") auto
    moreover have "0 \<le> dround p y" using 2 dround_pos [of y p] assms(2) by (cases "y = 0") auto
    ultimately show ?thesis by linarith
  next
    case 3
    have "dround p (- y) \<le> dround p (- x)" using 3 assms by (intro dround_mono_pos) auto
    then show ?thesis by (simp add: dround_minus)
  qed
qed

lemma dround_error: "\<bar>dround p x - x\<bar> \<le> ulp p x / 2"
proof (cases "x = 0")
  case False
  let ?u = "ulp p x"
  have "dround p x - x = (of_int (round_half_even (x / ?u)) - x / ?u) * ?u"
    using False by (simp add: dround_def algebra_simps)
  then have "\<bar>dround p x - x\<bar> = \<bar>of_int (round_half_even (x / ?u)) - x / ?u\<bar> * ?u"
    by (simp add: abs_mult less_imp_le)
  also have "\<dots> \<le> 1/2 * ?u"
    using round_half_even_error [of "x / ?u"] by (intro mult_right_mono) (auto simp: less_imp_le)
  finally show ?thesis by simp
qed (simp add: less_imp_le)

lemma dround_rel_error:
  assumes "0 < p" shows "\<bar>dround p x - x\<bar> \<le> \<bar>x\<bar> * (5 / 10 ^ p)"
proof (cases "x = 0")
  case False
  have "ulp p x * 10 ^ (p - 1) \<le> \<bar>x\<bar>"
    using scaled_bounds(1) [OF False assms] by (simp add: field_simps)
  moreover obtain q where "p = Suc q" using assms by (cases p) auto
  ultimately have "ulp p x / 2 \<le> \<bar>x\<bar> * (5 / 10 ^ p)" by (simp add: field_simps)
  then show ?thesis using dround_error [of p x] by linarith
qed simp

lemma dround_representable:
  assumes "representable p x" "0 < p" shows "dround p x = x"
proof (cases "x = 0")
  case False
  obtain m e where m: "\<bar>m\<bar> \<le> 10 ^ p" and x: "x = of_int m * 10 powi e"
    using assms(1) unfolding representable_def by blast
  have ex: "\<exists>n::int. x / ulp p x = of_int n"
  proof (cases "\<bar>m\<bar> = 10 ^ p")
    case True
    then have "\<bar>x\<bar> = 10 powi (int p + e)"
      by (simp add: x abs_mult power_int_add flip: of_int_abs)
    then have "adj_exp x = int p + e" by (intro adj_exp_unique) (simp_all add: power_int_add)
    then have "ulp p x = 10 powi (e + 1)" by (simp add: ulp_def)
    moreover have "\<exists>n::int. of_int m = (of_int n :: rat) * 10"
    proof -
      obtain q where q: "p = Suc q" using assms(2) by (cases p) auto
      have "10 dvd \<bar>m\<bar>" using True q by simp
      then have "10 dvd m" by simp
      then obtain n where "m = n * 10" by (auto elim: dvdE simp: mult.commute)
      then show ?thesis by (intro exI [of _ n]) simp
    qed
    ultimately show ?thesis by (auto simp: x power_int_add)
  next
    case False2: False
    have "\<bar>x\<bar> < 10 powi (int p + e)"
    proof -
      have "(of_int \<bar>m\<bar> :: rat) < of_int (10 ^ p)" using m False2 by (simp only: of_int_less_iff)
      then show ?thesis by (simp add: x abs_mult power_int_add)
    qed
    then have "(10::rat) powi adj_exp x < 10 powi (int p + e)"
      using adj_exp_bounds(1) [OF False] by linarith
    then have le: "adj_exp x - int p + 1 \<le> e" by (simp add: powi10_less_iff)
    define k where "k = nat (e - (adj_exp x - int p + 1))"
    have "e = (adj_exp x - int p + 1) + int k" using le by (simp add: k_def)
    then have "10 powi e = ulp p x * 10 ^ k"
      unfolding ulp_def by (metis power_int_add power_int_of_nat powi10_pos(2) zero_neq_numeral)
    with x have "x = of_int m * (ulp p x * 10 ^ k)" by metis
    also have "\<dots> = of_int (m * 10 ^ k) * ulp p x" by simp
    finally have "x / ulp p x = of_int (m * 10 ^ k)" by (metis nonzero_divide_eq_eq ulp_pos(2))
    then show ?thesis by blast
  qed
  then obtain n where "x / ulp p x = of_int n" by blast
  then have "dround p x = (x / ulp p x) * ulp p x" using False by (simp add: dround_def)
  then show ?thesis by simp
qed simp

lemma representable_dround:
  assumes "0 < p" shows "representable p (dround p x)"
proof -
  have pos: "representable p (dround p x)" if "0 < x" for x
  proof -
    have "0 \<le> round_half_even (x / ulp p x)"
      using round_scaled_bounds(1) [OF that assms] by (rule order_trans [rotated]) simp
    then have "\<bar>round_half_even (x / ulp p x)\<bar> \<le> 10 ^ p"
      using round_scaled_bounds(2) [OF that assms] by simp
    then show ?thesis using that unfolding dround_def ulp_def by (simp add: representableI)
  qed
  have neg: "representable p (- y)" if "representable p y" for y
    using that unfolding representable_def by (metis abs_minus_cancel minus_mult_left of_int_minus)
  consider "0 < x" | "x = 0" | "x < 0" by linarith
  then show ?thesis
  proof cases
    case 2 then show ?thesis using representableI [of 0 p 0] by simp
  next
    case 3 then show ?thesis using neg [OF pos [of "- x"]] by (simp add: dround_minus)
  qed (rule pos)
qed

lemma dround_idem: "0 < p \<Longrightarrow> dround p (dround p x) = dround p x"
  by (simp add: dround_representable representable_dround)

section \<open>The contract of a decimal context\<close>

locale rounding =
  fixes rnd :: "rat \<Rightarrow> rat"
  assumes rnd_mono: "x \<le> y \<Longrightarrow> rnd x \<le> rnd y"
    and rnd_minus: "rnd (- x) = - rnd x"
    and rnd_idem: "rnd (rnd x) = rnd x"
    and rnd_eq_0: "rnd x = 0 \<Longrightarrow> x = 0"
begin

lemma rnd_0 [simp]: "rnd 0 = 0"
  using rnd_minus [of 0] by simp

lemma rnd_nonneg_iff: "0 \<le> rnd x \<longleftrightarrow> 0 \<le> x"
proof
  assume "0 \<le> rnd x"
  then show "0 \<le> x" using rnd_mono [of x 0] rnd_eq_0 [of x] by (cases "x \<le> 0") auto
qed (use rnd_mono [of 0 x] in simp)

lemma rnd_pos_iff: "0 < rnd x \<longleftrightarrow> 0 < x"
  using rnd_nonneg_iff [of x] rnd_eq_0 [of x] by (auto simp: less_le)

lemma rnd_neg_iff: "rnd x < 0 \<longleftrightarrow> x < 0"
  using rnd_nonneg_iff [of x] by linarith

lemma rnd_nonpos_iff: "rnd x \<le> 0 \<longleftrightarrow> x \<le> 0"
  using rnd_pos_iff [of x] by linarith

lemma rnd_eq_0_iff: "rnd x = 0 \<longleftrightarrow> x = 0"
  using rnd_eq_0 by auto

lemma rnd_abs: "rnd \<bar>x\<bar> = \<bar>rnd x\<bar>"
  using rnd_nonneg_iff [of x] rnd_neg_iff [of x] by (cases "0 \<le> x") (auto simp: rnd_minus)

lemma rnd_le_fixed: "rnd y = y \<Longrightarrow> x \<le> y \<Longrightarrow> rnd x \<le> y"
  using rnd_mono by fastforce

lemma rnd_ge_fixed: "rnd y = y \<Longrightarrow> y \<le> x \<Longrightarrow> y \<le> rnd x"
  using rnd_mono by fastforce

end

locale rounding_error = rounding +
  fixes u :: rat
  assumes rnd_error: "\<bar>rnd x - x\<bar> \<le> \<bar>x\<bar> * u"
    and u_nonneg: "0 \<le> u"
begin

lemma rnd_upper: "0 \<le> x \<Longrightarrow> rnd x \<le> x * (1 + u)"
  using rnd_error [of x] by (simp add: algebra_simps)

lemma rnd_lower: "0 \<le> x \<Longrightarrow> x * (1 - u) \<le> rnd x"
  using rnd_error [of x] by (simp add: algebra_simps)

text \<open>A rounded quotient multiplied back, rounded again: the error compounds once.\<close>

lemma rnd_div_mul_upper:
  assumes "0 \<le> x" "0 < y" "0 \<le> z" "z \<le> rnd (x / y)"
  shows "rnd (z * y) \<le> x * (1 + u) * (1 + u)"
proof -
  have "z \<le> x / y * (1 + u)" using assms rnd_upper [of "x / y"] by simp
  then have "z * y \<le> x * (1 + u)" using assms by (simp add: field_simps)
  moreover have "rnd (z * y) \<le> z * y * (1 + u)" using assms by (intro rnd_upper) simp
  moreover have "0 \<le> 1 + u" using u_nonneg by simp
  ultimately show ?thesis using mult_right_mono by fastforce
qed

end

section \<open>The default context\<close>

definition drnd :: "rat \<Rightarrow> rat" where
  "drnd = dround 28"

interpretation d28: rounding_error drnd "5 / 10 ^ 28"
proof unfold_locales
  show "\<bar>drnd x - x\<bar> \<le> \<bar>x\<bar> * (5 / 10 ^ 28)" for x
    using dround_rel_error [of 28 x] by (simp add: drnd_def)
  show "drnd x \<le> drnd y" if "x \<le> y" for x y
    using that by (simp add: drnd_def dround_mono)
  show "x = 0" if "drnd x = 0" for x
    using that dround_pos [of x 28] dround_pos [of "- x" 28] dround_minus [of 28 x]
    by (simp add: drnd_def) (metis less_irrefl neg_0_less_iff_less neg_equal_0_iff_equal linorder_neqE)
qed (simp_all add: drnd_def dround_minus dround_idem)

text \<open>\<open>is_dec x\<close>: \<open>x\<close> is the value of a decimal of at most 28 digits.\<close>

definition is_dec :: "rat \<Rightarrow> bool" where
  "is_dec x \<longleftrightarrow> drnd x = x"

lemma is_dec_drnd [simp]: "is_dec (drnd x)"
  by (simp add: is_dec_def d28.rnd_idem)

lemma is_dec_0 [simp]: "is_dec 0"
  by (simp add: is_dec_def)

lemma is_dec_minus [simp]: "is_dec (- x) \<longleftrightarrow> is_dec x"
  by (simp add: is_dec_def d28.rnd_minus)

lemma is_dec_drnd_id: "is_dec x \<Longrightarrow> drnd x = x"
  by (simp add: is_dec_def)

lemma is_dec_integer: "\<bar>n\<bar> \<le> 10 ^ 28 \<Longrightarrow> is_dec (of_int n)"
  using dround_representable [of 28 "of_int n"] representableI [of n 28 0]
  by (simp add: is_dec_def drnd_def)

section \<open>Arithmetic\<close>

definition dadd :: "dec \<Rightarrow> dec \<Rightarrow> dec" where
  "dadd a b = drnd (a + b)"

definition dsub :: "dec \<Rightarrow> dec \<Rightarrow> dec" where
  "dsub a b = drnd (a - b)"

definition dmul :: "dec \<Rightarrow> dec \<Rightarrow> dec" where
  "dmul a b = drnd (a * b)"

text \<open>Division by zero raises; callers below divide only where the divisor is not zero.\<close>

definition ddiv :: "dec \<Rightarrow> dec \<Rightarrow> dec" where
  "ddiv a b = drnd (a / b)"

definition dneg :: "dec \<Rightarrow> dec" where
  "dneg a = drnd (- a)"

definition dabs :: "dec \<Rightarrow> dec" where
  "dabs a = drnd \<bar>a\<bar>"

text \<open>\<open>sum(xs, Decimal("0"))\<close>: left to right, rounding after every addition.\<close>

definition dsum :: "dec list \<Rightarrow> dec" where
  "dsum xs = foldl dadd 0 xs"

lemmas dec_ops = dadd_def dsub_def dmul_def ddiv_def dneg_def dabs_def

text \<open>
  Integer powers as the decimal library computes them: left-to-right binary exponentiation in
  a working context with \<open>digits n + 2\<close> extra digits, rounded to 28 digits at the end.
\<close>

fun bits_msb :: "nat \<Rightarrow> bool list" where
  "bits_msb n = (if n = 0 then [] else bits_msb (n div 2) @ [odd n])"

declare bits_msb.simps [simp del]

definition dpow :: "dec \<Rightarrow> nat \<Rightarrow> dec" where
  "dpow b n =
     (let p = 28 + num_digits n + 2;
          step = (\<lambda>r bit. let s = dround p (r * r) in if bit then dround p (s * b) else s)
      in drnd (foldl step b (tl (bits_msb n))))"

section \<open>Rounding to integers\<close>

definition round_down :: "rat \<Rightarrow> rat" where
  "round_down x = of_int (if 0 \<le> x then \<lfloor>x\<rfloor> else \<lceil>x\<rceil>)"

definition round_up :: "rat \<Rightarrow> rat" where
  "round_up x = of_int (if 0 \<le> x then \<lceil>x\<rceil> else \<lfloor>x\<rfloor>)"

definition round_floor :: "rat \<Rightarrow> rat" where
  "round_floor x = of_int \<lfloor>x\<rfloor>"

lemma round_down_bounds: "0 \<le> x \<Longrightarrow> 0 \<le> round_down x \<and> round_down x \<le> x \<and> x < round_down x + 1"
  unfolding round_down_def by (auto; linarith)

lemma round_up_bounds: "0 \<le> x \<Longrightarrow> x \<le> round_up x \<and> round_up x < x + 1"
  unfolding round_up_def by auto linarith

lemma round_floor_bounds: "round_floor x \<le> x \<and> x < round_floor x + 1"
  unfolding round_floor_def by linarith

lemma round_up_ge_of_int: "0 \<le> n \<Longrightarrow> of_int n \<le> x \<Longrightarrow> of_int n \<le> round_up x"
  using round_up_bounds [of x] order_trans [of 0 "of_int n" x] by (auto simp: order_trans)

section \<open>Signs and orders of the operations\<close>

lemma dec_is_dec [simp]:
  "is_dec (dadd a b)" "is_dec (dsub a b)" "is_dec (dmul a b)" "is_dec (ddiv a b)"
  "is_dec (dneg a)" "is_dec (dabs a)"
  by (simp_all add: dec_ops)

lemma dmul_sign [dec_sign]:
  "0 < dmul a b \<longleftrightarrow> 0 < a * b" "0 \<le> dmul a b \<longleftrightarrow> 0 \<le> a * b"
  "dmul a b < 0 \<longleftrightarrow> a * b < 0" "dmul a b \<le> 0 \<longleftrightarrow> a * b \<le> 0" "dmul a b = 0 \<longleftrightarrow> a * b = 0"
  by (simp_all only: dmul_def d28.rnd_pos_iff d28.rnd_nonneg_iff d28.rnd_neg_iff d28.rnd_nonpos_iff
      d28.rnd_eq_0_iff)

lemma ddiv_sign [dec_sign]:
  "0 < ddiv a b \<longleftrightarrow> 0 < a / b" "0 \<le> ddiv a b \<longleftrightarrow> 0 \<le> a / b"
  "ddiv a b < 0 \<longleftrightarrow> a / b < 0" "ddiv a b \<le> 0 \<longleftrightarrow> a / b \<le> 0" "ddiv a b = 0 \<longleftrightarrow> a / b = 0"
  by (simp_all only: ddiv_def d28.rnd_pos_iff d28.rnd_nonneg_iff d28.rnd_neg_iff d28.rnd_nonpos_iff
      d28.rnd_eq_0_iff)

lemma dadd_sign [dec_sign]:
  "0 < dadd a b \<longleftrightarrow> 0 < a + b" "0 \<le> dadd a b \<longleftrightarrow> 0 \<le> a + b"
  "dadd a b < 0 \<longleftrightarrow> a + b < 0" "dadd a b \<le> 0 \<longleftrightarrow> a + b \<le> 0" "dadd a b = 0 \<longleftrightarrow> a + b = 0"
  by (simp_all only: dadd_def d28.rnd_pos_iff d28.rnd_nonneg_iff d28.rnd_neg_iff d28.rnd_nonpos_iff
      d28.rnd_eq_0_iff)

lemma dsub_sign [dec_sign]:
  "0 < dsub a b \<longleftrightarrow> b < a" "0 \<le> dsub a b \<longleftrightarrow> b \<le> a"
  "dsub a b < 0 \<longleftrightarrow> a < b" "dsub a b \<le> 0 \<longleftrightarrow> a \<le> b" "dsub a b = 0 \<longleftrightarrow> a = b"
  by (simp_all add: dsub_def d28.rnd_pos_iff d28.rnd_nonneg_iff d28.rnd_neg_iff d28.rnd_nonpos_iff
      d28.rnd_eq_0_iff)

lemma dneg_sign [dec_sign]:
  "0 < dneg a \<longleftrightarrow> a < 0" "0 \<le> dneg a \<longleftrightarrow> a \<le> 0" "dneg a < 0 \<longleftrightarrow> 0 < a" "dneg a = 0 \<longleftrightarrow> a = 0"
  by (simp_all add: dneg_def d28.rnd_pos_iff d28.rnd_nonneg_iff d28.rnd_neg_iff d28.rnd_eq_0_iff)

lemma dabs_sign [dec_sign]:
  "0 \<le> dabs a" "0 < dabs a \<longleftrightarrow> a \<noteq> 0" "dabs a = 0 \<longleftrightarrow> a = 0" "\<not> dabs a < 0"
  by (simp_all add: dabs_def d28.rnd_pos_iff d28.rnd_nonneg_iff d28.rnd_neg_iff d28.rnd_eq_0_iff)

lemma dabs_is_dec: "is_dec a \<Longrightarrow> dabs a = \<bar>a\<bar>"
  by (simp add: dabs_def is_dec_def d28.rnd_abs)

lemma dneg_is_dec: "is_dec a \<Longrightarrow> dneg a = - a"
  by (simp add: dneg_def is_dec_def d28.rnd_minus)

lemma dsub_le: "is_dec a \<Longrightarrow> 0 \<le> b \<Longrightarrow> dsub a b \<le> a"
  unfolding dsub_def is_dec_def by (rule d28.rnd_le_fixed) auto

lemma dsub_less: "is_dec a \<Longrightarrow> 0 \<le> b \<Longrightarrow> b \<le> a \<Longrightarrow> 0 \<le> dsub a b \<and> dsub a b \<le> a"
  by (simp add: dsub_le dec_sign)

lemma dadd_ge: "is_dec a \<Longrightarrow> 0 \<le> b \<Longrightarrow> a \<le> dadd a b"
  unfolding dadd_def is_dec_def by (rule d28.rnd_ge_fixed) auto

lemma dadd_le: "is_dec a \<Longrightarrow> b \<le> 0 \<Longrightarrow> dadd a b \<le> a"
  unfolding dadd_def is_dec_def by (rule d28.rnd_le_fixed) auto

lemma dec_mono:
  "a \<le> a' \<Longrightarrow> dadd a b \<le> dadd a' b" "b \<le> b' \<Longrightarrow> dadd a b \<le> dadd a b'"
  "a \<le> a' \<Longrightarrow> dsub a b \<le> dsub a' b" "b \<le> b' \<Longrightarrow> dsub a b' \<le> dsub a b"
  "a \<le> a' \<Longrightarrow> 0 \<le> b \<Longrightarrow> dmul a b \<le> dmul a' b" "b \<le> b' \<Longrightarrow> 0 \<le> a \<Longrightarrow> dmul a b \<le> dmul a b'"
  "a \<le> a' \<Longrightarrow> 0 < b \<Longrightarrow> ddiv a b \<le> ddiv a' b"
  unfolding dec_ops
  by (auto intro!: d28.rnd_mono mult_right_mono mult_left_mono divide_right_mono)

lemma ddiv_mul_upper:
  "0 \<le> x \<Longrightarrow> 0 < y \<Longrightarrow> 0 \<le> z \<Longrightarrow> z \<le> ddiv x y \<Longrightarrow> dmul z y \<le> x * (1 + 2 / 10 ^ 27)"
proof -
  assume a: "0 \<le> x" "0 < y" "0 \<le> z" "z \<le> ddiv x y"
  then have "dmul z y \<le> x * (1 + 5 / 10 ^ 28) * (1 + 5 / 10 ^ 28)"
    unfolding dmul_def ddiv_def by (rule d28.rnd_div_mul_upper)
  also have "\<dots> = x * ((1 + 5 / 10 ^ 28) * (1 + 5 / 10 ^ 28))" by simp
  also have "\<dots> \<le> x * (1 + 2 / 10 ^ 27)" using a(1) by (intro mult_left_mono) simp_all
  finally show ?thesis .
qed

lemma dsum_Nil [simp]: "dsum [] = 0"
  by (simp add: dsum_def)

lemma dsum_snoc [simp]: "dsum (xs @ [x]) = dadd (dsum xs) x"
  by (simp add: dsum_def)

lemma is_dec_dsum [simp]: "is_dec (dsum xs)"
  by (induction xs rule: rev_induct) simp_all

lemma foldl_dadd_ge: "is_dec a \<Longrightarrow> \<forall>x \<in> set xs. 0 \<le> x \<Longrightarrow> a \<le> foldl dadd a xs"
proof (induction xs arbitrary: a)
  case (Cons x xs)
  then have "a \<le> dadd a x" by (simp add: dadd_ge)
  also have "\<dots> \<le> foldl dadd (dadd a x) xs" using Cons by simp
  finally show ?case by simp
qed simp

lemma dsum_nonneg: "\<forall>x \<in> set xs. 0 \<le> x \<Longrightarrow> 0 \<le> dsum xs"
  unfolding dsum_def using foldl_dadd_ge [of 0 xs] by simp

lemma foldl_dround_pow_pos:
  assumes "0 < p" "0 < b"
  shows "0 < r \<Longrightarrow>
    0 < foldl (\<lambda>r bit. let s = dround p (r * r) in if bit then dround p (s * b) else s) r bs"
proof (induction bs arbitrary: r)
  case (Cons bit bs)
  have "0 < dround p (r * r)" using Cons.prems assms by (simp add: dround_pos)
  moreover have "0 < dround p (dround p (r * r) * b)"
    using calculation assms by (simp add: dround_pos)
  ultimately show ?case using Cons.IH by (simp add: Let_def)
qed simp

lemma dpow_pos: "0 < b \<Longrightarrow> 0 < dpow b n"
  using foldl_dround_pow_pos [of "28 + num_digits n + 2" b b "tl (bits_msb n)"]
  unfolding dpow_def Let_def d28.rnd_pos_iff by simp

section \<open>Evaluation on concrete inputs\<close>

text \<open>
  On integers and short decimal fractions the operations are exact; these rules let the
  simplifier compute with them without unfolding the rounding.
\<close>

lemma drnd_exact_frac:
  assumes "n * 10 ^ 12 mod d = 0" "\<bar>n * 10 ^ 12 div d\<bar> \<le> 10 ^ 28" "d \<noteq> 0"
  shows "drnd (of_int n / of_int d) = of_int n / of_int d"
proof -
  have "n * 10 ^ 12 = (n * 10 ^ 12 div d) * d" using assms(1) by (metis add.right_neutral div_mult_mod_eq)
  then have "(of_int n * 10 ^ 12 :: rat) = of_int (n * 10 ^ 12 div d) * of_int d"
    by (metis of_int_mult of_int_numeral of_int_power)
  then have eq: "of_int n / of_int d = (of_int (n * 10 ^ 12 div d) * 10 powi (- 12) :: rat)"
    using assms(3) by (simp add: power_int_minus field_simps)
  show ?thesis
    unfolding eq drnd_def by (intro dround_representable representableI assms(2)) simp
qed

lemma drnd_numeral [simp]:
  "numeral a \<le> (10::int) ^ 28 \<Longrightarrow> drnd (numeral a) = numeral a"
  "numeral a \<le> (10::int) ^ 28 \<Longrightarrow> drnd (- numeral a) = - numeral a"
  "drnd 1 = 1" "drnd (- 1) = - 1"
  using is_dec_integer [of "numeral a"] is_dec_integer [of 1] by (simp_all add: is_dec_def d28.rnd_minus)

lemma drnd_fraction [simp]:
  assumes "numeral a * 10 ^ 12 mod numeral b = (0::int)" "\<bar>numeral a * 10 ^ 12 div numeral b\<bar> \<le> (10::int) ^ 28"
  shows "drnd (numeral a / numeral b) = numeral a / numeral b"
    "drnd (- (numeral a / numeral b)) = - (numeral a / numeral b)"
  using drnd_exact_frac [of "numeral a" "numeral b"] assms by (simp_all add: d28.rnd_minus)

lemma drnd_unit_fraction [simp]:
  assumes "10 ^ 12 mod numeral b = (0::int)" "\<bar>10 ^ 12 div numeral b\<bar> \<le> (10::int) ^ 28"
  shows "drnd (1 / numeral b) = 1 / numeral b" "drnd (- (1 / numeral b)) = - (1 / numeral b)"
  using drnd_exact_frac [of 1 "numeral b"] assms by (simp_all add: d28.rnd_minus)

lemma floor_rat_fraction [simp]: "\<lfloor>numeral a / numeral b :: rat\<rfloor> = numeral a div numeral b"
  using floor_divide_of_int_eq [of "numeral a" "numeral b", where 'a = rat] by simp

lemma ceiling_rat_fraction [simp]:
  "\<lceil>numeral a / numeral b :: rat\<rceil> = - (- numeral a div numeral b)"
  using ceiling_divide_eq_div [of "numeral a" "numeral b", where 'a = rat] by simp

lemma dpow_1 [simp]: "dpow b (Suc 0) = drnd b"
  by (simp add: dpow_def Let_def bits_msb.simps)

lemmas dec_eval = dec_ops round_down_def round_up_def round_floor_def dsum_def

end
