(* ===== verification/Execution_Models.thy ===== *)
theory Execution_Models
  imports Decimal_Arith
begin

text \<open>
  \<open>src/app/domain/execution/models.py\<close>: instrument rules and their quantisation of prices and
  quantities, market snapshots, orders with their life cycle, and fills. A dataclass is a
  record; its \<open>__post_init__\<close> is a definition that validates a record and normalises its
  timestamps. The life cycle of an order is stated once as the locale \<open>order_lifecycle\<close> and
  interpreted on the order methods.
\<close>

section \<open>Enumerations\<close>

datatype Side = BUY | SELL

datatype OrderType = MARKET | LIMIT

datatype TimeInForce = GTC | IOC | FOK

datatype OrderStatus =
  CREATED | SUBMITTED | PARTIALLY_FILLED | FILLED | CANCELLED | REJECTED | EXPIRED

datatype LiquidityRole = MAKER | TAKER

definition terminal :: "OrderStatus \<Rightarrow> bool" where
  "terminal s \<longleftrightarrow> s \<in> {FILLED, CANCELLED, REJECTED, EXPIRED}"

type_synonym InstrumentKey = "string \<times> string"

section \<open>Instrument rules\<close>

record InstrumentRules =
  tick_size :: dec
  lot_size :: dec
  minimum_notional :: dec
  maker_fee_rate :: dec
  taker_fee_rate :: dec
  maintenance_margin_rate :: dec

definition InstrumentRules_post_init :: "InstrumentRules \<Rightarrow> InstrumentRules result" where
  "InstrumentRules_post_init r =
     bindE (raise_if (tick_size r \<le> 0 \<or> lot_size r \<le> 0)
       (ValueError ''tick_size and lot_size must be positive'')) (\<lambda>_.
     bindE (raise_if (minimum_notional r < 0)
       (ValueError ''minimum_notional cannot be negative'')) (\<lambda>_.
     bindE (raise_if (maker_fee_rate r < - 1 / 100 \<or> taker_fee_rate r < 0)
       (ValueError ''maker rebate is capped at 1% and taker fee cannot be negative'')) (\<lambda>_.
     bindE (raise_if (\<not> (0 \<le> maintenance_margin_rate r \<and> maintenance_margin_rate r < 1))
       (ValueError ''maintenance_margin_rate must be in [0, 1)'')) (\<lambda>_.
     Inr r))))"

definition quantize_quantity :: "InstrumentRules \<Rightarrow> dec \<Rightarrow> dec" where
  "quantize_quantity r quantity =
     (if quantity \<le> 0 then 0
      else dmul (round_down (ddiv quantity (lot_size r))) (lot_size r))"

definition quantize_price :: "InstrumentRules \<Rightarrow> dec \<Rightarrow> dec result" where
  "quantize_price r price =
     (if price \<le> 0 then Inl (ValueError ''price must be positive'')
      else Inr (dmul (round_down (ddiv price (tick_size r))) (tick_size r)))"

definition quantize_limit_price :: "InstrumentRules \<Rightarrow> dec \<Rightarrow> Side \<Rightarrow> dec result" where
  "quantize_limit_price r price side =
     (if price \<le> 0 then Inl (ValueError ''price must be positive'')
      else let rounding = (if side = BUY then round_down else round_up)
           in Inr (dmul (rounding (ddiv price (tick_size r))) (tick_size r)))"

definition quantize_execution_price :: "InstrumentRules \<Rightarrow> dec \<Rightarrow> Side \<Rightarrow> dec result" where
  "quantize_execution_price r price side =
     (if price \<le> 0 then Inl (ValueError ''price must be positive'')
      else let rounding = (if side = BUY then round_up else round_down)
           in Inr (dmul (rounding (ddiv price (tick_size r))) (tick_size r)))"

definition validate_notional :: "InstrumentRules \<Rightarrow> dec \<Rightarrow> dec \<Rightarrow> bool" where
  "validate_notional r quantity price \<longleftrightarrow> minimum_notional r \<le> dmul quantity price"

section \<open>Market snapshots\<close>

record MarketSnapshot =
  s_exchange :: string
  s_symbol :: string
  s_timestamp :: instant
  s_bid :: dec
  s_ask :: dec
  s_bid_quantity :: dec
  s_ask_quantity :: dec
  s_last_price :: "dec option"
  s_trade_quantity :: "dec option"
  s_mark_price :: "dec option"

definition nonpositive :: "dec option \<Rightarrow> bool" where
  "nonpositive v = (case v of None \<Rightarrow> False | Some x \<Rightarrow> x \<le> 0)"

text \<open>\<open>__post_init__\<close>: the timestamp argument replaces the field once it is normalised.\<close>

definition MarketSnapshot_post_init :: "MarketSnapshot \<Rightarrow> datetime \<Rightarrow> MarketSnapshot result" where
  "MarketSnapshot_post_init s timestamp =
     bindE (as_utc ''timestamp must be timezone-aware'' timestamp) (\<lambda>ts.
     bindE (raise_if (s_bid s \<le> 0 \<or> s_ask s \<le> 0 \<or> s_bid s \<ge> s_ask s)
       (ValueError ''snapshot requires positive, non-crossed bid/ask'')) (\<lambda>_.
     bindE (raise_if (s_bid_quantity s < 0 \<or> s_ask_quantity s < 0)
       (ValueError ''book quantities cannot be negative'')) (\<lambda>_.
     bindE (raise_if (nonpositive (s_last_price s) \<or> nonpositive (s_mark_price s))
       (ValueError ''last and mark prices must be positive'')) (\<lambda>_.
     bindE (raise_if (case s_trade_quantity s of None \<Rightarrow> False | Some q \<Rightarrow> q < 0)
       (ValueError ''trade_quantity cannot be negative'')) (\<lambda>_.
     Inr (s\<lparr>s_timestamp := ts\<rparr>))))))"

definition mid :: "MarketSnapshot \<Rightarrow> dec" where
  "mid s = ddiv (dadd (s_bid s) (s_ask s)) 2"

text \<open>Python's \<open>a or b\<close> on an optional decimal: \<open>None\<close> and zero are falsy.\<close>

definition dec_or :: "dec option \<Rightarrow> dec \<Rightarrow> dec" where
  "dec_or v d = (case v of None \<Rightarrow> d | Some x \<Rightarrow> if x = 0 then d else x)"

definition valuation_price :: "MarketSnapshot \<Rightarrow> dec" where
  "valuation_price s = dec_or (s_mark_price s) (dec_or (s_last_price s) (mid s))"

section \<open>Orders\<close>

record Order =
  o_order_id :: string
  o_signal_id :: string
  o_exchange :: string
  o_symbol :: string
  o_side :: Side
  o_quantity :: dec
  o_order_type :: OrderType
  o_time_in_force :: TimeInForce
  o_signal_at :: instant
  o_created_at :: instant
  o_submitted_at :: instant
  o_limit_price :: "dec option"
  o_post_only :: bool
  o_reduce_only :: bool
  o_expires_at :: "instant option"
  o_stop_loss :: "dec option"
  o_take_profit :: "dec option"
  o_status :: OrderStatus
  o_remaining_quantity :: dec
  o_rejection_reason :: "string option"

definition Order_post_init ::
  "Order \<Rightarrow> datetime \<Rightarrow> datetime \<Rightarrow> datetime \<Rightarrow> datetime option \<Rightarrow> Order result" where
  "Order_post_init ord signal_at created_at submitted_at expires_at =
     bindE (as_utc ''signal_at must be timezone-aware'' signal_at) (\<lambda>sig.
     bindE (as_utc ''created_at must be timezone-aware'' created_at) (\<lambda>cre.
     bindE (as_utc ''submitted_at must be timezone-aware'' submitted_at) (\<lambda>sub.
     bindE (raise_if (\<not> (sig \<le> cre \<and> cre \<le> sub))
       (ValueError ''order timestamps must be signal <= created <= submitted'')) (\<lambda>_.
     bindE (raise_if (o_quantity ord \<le> 0)
       (ValueError ''order quantity must be positive'')) (\<lambda>_.
     bindE (raise_if (o_order_type ord = LIMIT \<and> o_limit_price ord = None)
       (ValueError ''limit order requires limit_price'')) (\<lambda>_.
     bindE (raise_if (o_order_type ord = MARKET \<and> o_limit_price ord \<noteq> None)
       (ValueError ''market order cannot have limit_price'')) (\<lambda>_.
     bindE (raise_if (nonpositive (o_limit_price ord) \<or> nonpositive (o_stop_loss ord) \<or>
         nonpositive (o_take_profit ord))
       (ValueError ''order prices must be positive'')) (\<lambda>_.
     bindE (case expires_at of
         None \<Rightarrow> Inr None
       | Some d \<Rightarrow>
           bindE (as_utc ''expires_at must be timezone-aware'' d) (\<lambda>ex.
           bindE (raise_if (ex \<le> sub)
             (ValueError ''expires_at must follow submitted_at'')) (\<lambda>_. Inr (Some ex)))) (\<lambda>ex.
     Inr (ord\<lparr>o_signal_at := sig, o_created_at := cre, o_submitted_at := sub,
       o_expires_at := ex, o_remaining_quantity := o_quantity ord\<rparr>))))))))))"

definition filled_quantity :: "Order \<Rightarrow> dec" where
  "filled_quantity ord = dsub (o_quantity ord) (o_remaining_quantity ord)"

definition reject :: "string \<Rightarrow> Order \<Rightarrow> Order" where
  "reject reason ord =
     (if terminal (o_status ord) then ord
      else ord\<lparr>o_status := REJECTED, o_rejection_reason := Some reason\<rparr>)"

definition cancel :: "string \<Rightarrow> bool \<Rightarrow> Order \<Rightarrow> Order" where
  "cancel reason expired ord =
     (if terminal (o_status ord) then ord
      else ord\<lparr>o_status := (if expired then EXPIRED else CANCELLED),
               o_rejection_reason := Some reason\<rparr>)"

definition record_fill :: "dec \<Rightarrow> Order \<Rightarrow> Order result" where
  "record_fill quantity ord =
     bindE (raise_if (terminal (o_status ord))
       (ValueError ''cannot fill a terminal order'')) (\<lambda>_.
     bindE (raise_if (quantity \<le> 0 \<or> quantity > o_remaining_quantity ord)
       (ValueError ''invalid fill quantity'')) (\<lambda>_.
     let rest = dsub (o_remaining_quantity ord) quantity
     in Inr (ord\<lparr>o_remaining_quantity := rest,
                 o_status := (if rest = 0 then FILLED else PARTIALLY_FILLED)\<rparr>)))"

section \<open>Fills\<close>

record Fill =
  f_fill_id :: string
  f_order_id :: string
  f_signal_id :: string
  f_exchange :: string
  f_symbol :: string
  f_side :: Side
  f_quantity :: dec
  f_price :: dec
  f_liquidity :: LiquidityRole
  f_signal_at :: instant
  f_order_created_at :: instant
  f_submitted_at :: instant
  f_filled_at :: instant
  f_fee :: dec
  f_spread_cost :: dec
  f_slippage_cost :: dec
  f_market_impact_cost :: dec

definition Fill_post_init ::
  "Fill \<Rightarrow> datetime \<Rightarrow> datetime \<Rightarrow> datetime \<Rightarrow> datetime \<Rightarrow> Fill result" where
  "Fill_post_init f signal_at order_created_at submitted_at filled_at =
     bindE (as_utc ''signal_at must be timezone-aware'' signal_at) (\<lambda>sig.
     bindE (as_utc ''order_created_at must be timezone-aware'' order_created_at) (\<lambda>cre.
     bindE (as_utc ''submitted_at must be timezone-aware'' submitted_at) (\<lambda>sub.
     bindE (as_utc ''filled_at must be timezone-aware'' filled_at) (\<lambda>fil.
     bindE (raise_if (\<not> (sig \<le> cre \<and> cre \<le> sub \<and> sub < fil))
       (ValueError ''fill timestamps must preserve causality and use a later market event'')) (\<lambda>_.
     bindE (raise_if (f_quantity f \<le> 0 \<or> f_price f \<le> 0)
       (ValueError ''fill quantity and price must be positive'')) (\<lambda>_.
     bindE (raise_if (min (min (f_spread_cost f) (f_slippage_cost f)) (f_market_impact_cost f) < 0)
       (ValueError ''spread, slippage and impact costs cannot be negative'')) (\<lambda>_.
     Inr (f\<lparr>f_signal_at := sig, f_order_created_at := cre, f_submitted_at := sub,
       f_filled_at := fil\<rparr>))))))))"

definition fill_notional :: "Fill \<Rightarrow> dec" where
  "fill_notional f = dmul (f_quantity f) (f_price f)"

section \<open>Well-formedness\<close>

definition rules_ok :: "InstrumentRules \<Rightarrow> bool" where
  "rules_ok r \<longleftrightarrow> 0 < tick_size r \<and> 0 < lot_size r \<and> 0 \<le> minimum_notional r \<and>
     - 1 / 100 \<le> maker_fee_rate r \<and> 0 \<le> taker_fee_rate r \<and>
     0 \<le> maintenance_margin_rate r \<and> maintenance_margin_rate r < 1"

definition snapshot_ok :: "MarketSnapshot \<Rightarrow> bool" where
  "snapshot_ok s \<longleftrightarrow> 0 < s_bid s \<and> s_bid s < s_ask s \<and> 0 \<le> s_bid_quantity s \<and>
     0 \<le> s_ask_quantity s \<and> \<not> nonpositive (s_last_price s) \<and> \<not> nonpositive (s_mark_price s) \<and>
     (case s_trade_quantity s of None \<Rightarrow> True | Some q \<Rightarrow> 0 \<le> q)"

text \<open>
  The invariant of an order that has been constructed: a positive quantity, the remainder
  within it, \<open>FILLED\<close> exactly when nothing remains, causal timestamps, and a limit price
  exactly on limit orders.
\<close>

definition order_inv :: "Order \<Rightarrow> bool" where
  "order_inv ord \<longleftrightarrow> 0 < o_quantity ord \<and> 0 \<le> o_remaining_quantity ord \<and>
     (o_status ord = FILLED \<longleftrightarrow> o_remaining_quantity ord = 0) \<and>
     o_signal_at ord \<le> o_created_at ord \<and> o_created_at ord \<le> o_submitted_at ord \<and>
     (o_order_type ord = LIMIT \<longleftrightarrow> o_limit_price ord \<noteq> None) \<and>
     (\<forall>ex \<in> set_option (o_expires_at ord). o_submitted_at ord < ex)"

definition fill_ok :: "Fill \<Rightarrow> bool" where
  "fill_ok f \<longleftrightarrow> f_signal_at f \<le> f_order_created_at f \<and> f_order_created_at f \<le> f_submitted_at f \<and>
     f_submitted_at f < f_filled_at f \<and> 0 < f_quantity f \<and> 0 < f_price f \<and>
     0 \<le> f_spread_cost f \<and> 0 \<le> f_slippage_cost f \<and> 0 \<le> f_market_impact_cost f"

lemma rules_ok_post_init: "InstrumentRules_post_init r = Inr r' \<longleftrightarrow> r' = r \<and> rules_ok r"
  unfolding InstrumentRules_post_init_def rules_ok_def by auto

lemma snapshot_ok_post_init: "MarketSnapshot_post_init s d = Inr s' \<Longrightarrow> snapshot_ok s'"
  unfolding MarketSnapshot_post_init_def snapshot_ok_def
  by (cases "s_trade_quantity s") auto

lemma fill_ok_post_init: "Fill_post_init f a b c d = Inr f' \<Longrightarrow> fill_ok f'"
  unfolding Fill_post_init_def fill_ok_def by (auto simp: min_def split: if_splits)

lemma order_inv_post_init:
  assumes "Order_post_init ord a b c d = Inr ord'" "o_status ord \<noteq> FILLED"
  shows "order_inv ord'"
proof -
  obtain sig cre sub ex where
    o: "ord' = ord\<lparr>o_signal_at := sig, o_created_at := cre, o_submitted_at := sub,
       o_expires_at := ex, o_remaining_quantity := o_quantity ord\<rparr>"
    and t: "sig \<le> cre" "cre \<le> sub" and q: "0 < o_quantity ord"
    and l: "\<not> (o_order_type ord = LIMIT \<and> o_limit_price ord = None)"
      "\<not> (o_order_type ord = MARKET \<and> o_limit_price ord \<noteq> None)"
    and e: "\<forall>x. ex = Some x \<longrightarrow> sub < x"
    using assms(1) unfolding Order_post_init_def bindE_Inr_iff raise_if_Inr_iff
    by (elim exE conjE) (auto split: option.splits)
  have "o_order_type ord = LIMIT \<longleftrightarrow> o_limit_price ord \<noteq> None"
    using l by (cases "o_order_type ord") simp_all
  then show ?thesis using t q e assms(2) by (simp add: o order_inv_def)
qed

section \<open>Quantisation\<close>

lemma quantize_quantity_nonneg [simp]: "rules_ok r \<Longrightarrow> 0 \<le> quantize_quantity r q"
  using round_down_bounds [of "ddiv q (lot_size r)"]
  by (auto simp: quantize_quantity_def rules_ok_def dec_sign)

lemma is_dec_quantize_quantity [simp]: "is_dec (quantize_quantity r q)"
  by (simp add: quantize_quantity_def)

lemma quantize_quantity_mono:
  assumes "rules_ok r" "q \<le> q'" shows "quantize_quantity r q \<le> quantize_quantity r q'"
proof (cases "q \<le> 0")
  case True
  then show ?thesis using assms quantize_quantity_nonneg [of r q'] by (simp add: quantize_quantity_def)
next
  case False
  have lot: "0 < lot_size r" using assms by (simp add: rules_ok_def)
  have "ddiv q (lot_size r) \<le> ddiv q' (lot_size r)" using assms lot by (simp add: dec_mono)
  moreover have "0 \<le> ddiv q (lot_size r)" using False lot by (simp add: dec_sign)
  ultimately have "round_down (ddiv q (lot_size r)) \<le> round_down (ddiv q' (lot_size r))"
    by (simp add: round_down_def floor_mono)
  then show ?thesis using False assms lot by (simp add: quantize_quantity_def dec_mono)
qed

text \<open>
  Quantising a quantity never yields more than the quantity beyond the rounding error of
  two decimal operations: the result lies between zero and the quantity times
  \<open>1 + 2 / 10\<^sup>2\<^sup>7\<close>.
\<close>

theorem quantize_quantity_bounds:
  assumes "rules_ok r" "0 \<le> q"
  shows "0 \<le> quantize_quantity r q \<and> quantize_quantity r q \<le> q * (1 + 2 / 10 ^ 27)"
proof (cases "q = 0")
  case False
  have lot: "0 < lot_size r" using assms by (simp add: rules_ok_def)
  have "0 \<le> ddiv q (lot_size r)" using assms lot by (simp add: dec_sign)
  then have "dmul (round_down (ddiv q (lot_size r))) (lot_size r) \<le> q * (1 + 2 / 10 ^ 27)"
    using assms(2) lot round_down_bounds [of "ddiv q (lot_size r)"] by (intro ddiv_mul_upper) auto
  then show ?thesis
    using False assms quantize_quantity_nonneg [OF assms(1), of q] by (simp add: quantize_quantity_def)
qed (simp add: quantize_quantity_def)

definition demo_rules :: InstrumentRules where
  "demo_rules = \<lparr>tick_size = 1, lot_size = 1 / 10, minimum_notional = 0, maker_fee_rate = 0,
     taker_fee_rate = 0, maintenance_margin_rate = 0\<rparr>"

lemma demo_rules_ok: "rules_ok demo_rules"
  by (simp add: demo_rules_def rules_ok_def)

theorem quantize_quantity_bounds_witness:
  "rules_ok demo_rules \<and> 0 \<le> quantize_quantity demo_rules (37 / 100) \<and>
     quantize_quantity demo_rules (37 / 100) \<le> 37 / 100 * (1 + 2 / 10 ^ 27)"
  using demo_rules_ok quantize_quantity_bounds [OF demo_rules_ok, of "37 / 100"] by simp

text \<open>
  Where the quotient by the lot size and the product fit the 28-digit context, quantising is
  exactly rounding down to a whole number of lots: the result does not exceed the quantity and is
  less than one lot below it.
\<close>

theorem quantize_quantity_exact:
  assumes "rules_ok r" "0 < q" "is_dec (q / lot_size r)"
    "is_dec (round_down (q / lot_size r) * lot_size r)"
  shows "quantize_quantity r q \<le> q \<and> q < quantize_quantity r q + lot_size r \<and>
    (\<exists>n. quantize_quantity r q = of_nat n * lot_size r)"
proof -
  have lot: "0 < lot_size r" using assms by (simp add: rules_ok_def)
  have eq: "quantize_quantity r q = round_down (q / lot_size r) * lot_size r"
    using assms by (simp add: quantize_quantity_def dmul_def ddiv_def is_dec_def)
  have b: "0 \<le> q / lot_size r" using assms lot by simp
  note rd = round_down_bounds [OF b]
  have "round_down (q / lot_size r) = of_nat (nat \<lfloor>q / lot_size r\<rfloor>)"
    using b by (simp add: round_down_def)
  then show ?thesis unfolding eq using rd lot by (auto simp: field_simps)
qed

theorem quantize_quantity_exact_witness:
  "quantize_quantity demo_rules (37 / 100) \<le> 37 / 100 \<and>
     37 / 100 < quantize_quantity demo_rules (37 / 100) + lot_size demo_rules \<and>
     (\<exists>n. quantize_quantity demo_rules (37 / 100) = of_nat n * lot_size demo_rules)"
proof (rule quantize_quantity_exact [OF demo_rules_ok])
  have lot: "lot_size demo_rules = 1 / 10" by (simp add: demo_rules_def)
  have "is_dec (37 / 10)" "is_dec (round_down (37 / 10) / 10)" by code_simp+
  then show "is_dec (37 / 100 / lot_size demo_rules)"
    "is_dec (round_down (37 / 100 / lot_size demo_rules) * lot_size demo_rules)"
    by (simp_all add: lot)
qed simp

text \<open>
  Rounding down can exceed the quantity: the division is rounded to 28 digits before the
  floor is taken, so a valid lot size and a representable quantity exist for which
  \<open>quantize_quantity\<close> returns more than the quantity it was given.
\<close>

theorem quantize_quantity_can_exceed:
  "\<exists>r q. rules_ok r \<and> is_dec q \<and> is_dec (lot_size r) \<and> q < quantize_quantity r q"
proof -
  let ?r = "\<lparr>tick_size = 1, lot_size = 9, minimum_notional = 0, maker_fee_rate = 0,
    taker_fee_rate = 0, maintenance_margin_rate = 0\<rparr>"
  let ?q = "9899999999999999999999999999 / 10 ^ 26 :: rat"
  have "rules_ok ?r" by (simp add: rules_ok_def)
  moreover have "is_dec ?q" by code_simp
  moreover have "is_dec 9" by code_simp
  moreover have "quantize_quantity ?r ?q = 99" by code_simp
  ultimately show ?thesis by (intro exI [of _ ?r] exI [of _ ?q]) simp
qed

lemma quantize_execution_price_BUY:
  assumes "rules_ok r" "0 < price" "is_dec (of_int k)" "0 \<le> k" "is_dec (of_int k * tick_size r)"
    "of_int k * tick_size r \<le> price"
  shows "\<exists>p. quantize_execution_price r price BUY = Inr p \<and> of_int k * tick_size r \<le> p"
proof -
  have tick: "0 < tick_size r" using assms by (simp add: rules_ok_def)
  have "of_int k \<le> price / tick_size r" using assms tick by (simp add: field_simps)
  then have "of_int k \<le> ddiv price (tick_size r)"
    unfolding ddiv_def using assms(3) by (intro d28.rnd_ge_fixed) (simp_all add: is_dec_def)
  then have "of_int k \<le> round_up (ddiv price (tick_size r))"
    using assms(4) by (rule round_up_ge_of_int [rotated])
  then have "of_int k * tick_size r \<le> round_up (ddiv price (tick_size r)) * tick_size r"
    using tick by (simp add: mult_right_mono)
  then have "of_int k * tick_size r \<le> dmul (round_up (ddiv price (tick_size r))) (tick_size r)"
    unfolding dmul_def using assms(5) by (intro d28.rnd_ge_fixed) (simp_all add: is_dec_def)
  then show ?thesis using assms(2) by (simp add: quantize_execution_price_def Let_def)
qed

lemma quantize_execution_price_SELL:
  assumes "rules_ok r" "0 < price" "is_dec (of_int k)" "is_dec (of_int k * tick_size r)"
    "price \<le> of_int k * tick_size r"
  shows "\<exists>p. quantize_execution_price r price SELL = Inr p \<and> p \<le> of_int k * tick_size r"
proof -
  have tick: "0 < tick_size r" using assms by (simp add: rules_ok_def)
  have pos: "0 \<le> ddiv price (tick_size r)" using assms tick by (simp add: dec_sign)
  have "price / tick_size r \<le> of_int k" using assms tick by (simp add: field_simps)
  then have "ddiv price (tick_size r) \<le> of_int k"
    unfolding ddiv_def using assms(3) by (intro d28.rnd_le_fixed) (simp_all add: is_dec_def)
  then have "round_down (ddiv price (tick_size r)) \<le> of_int k"
    using round_down_bounds [OF pos] by linarith
  then have "round_down (ddiv price (tick_size r)) * tick_size r \<le> of_int k * tick_size r"
    using tick by (simp add: mult_right_mono)
  then have "dmul (round_down (ddiv price (tick_size r))) (tick_size r) \<le> of_int k * tick_size r"
    unfolding dmul_def using assms(4) by (intro d28.rnd_le_fixed) (simp_all add: is_dec_def)
  then show ?thesis using assms(2) by (simp add: quantize_execution_price_def Let_def)
qed

section \<open>The life cycle of an order\<close>

datatype OrderOp = Op_reject string | Op_cancel string bool | Op_fill dec

text \<open>A method that raises leaves the order as it was: \<open>record_fill\<close> checks before it writes.\<close>

fun order_step :: "OrderOp \<Rightarrow> Order \<Rightarrow> Order" where
  "order_step (Op_reject reason) ord = reject reason ord"
| "order_step (Op_cancel reason expired) ord = cancel reason expired ord"
| "order_step (Op_fill quantity) ord =
     (case record_fill quantity ord of Inl _ \<Rightarrow> ord | Inr ord' \<Rightarrow> ord')"

lemma record_fill_Inr_iff:
  "record_fill q ord = Inr ord' \<longleftrightarrow>
     \<not> terminal (o_status ord) \<and> 0 < q \<and> q \<le> o_remaining_quantity ord \<and>
     ord' = ord\<lparr>o_remaining_quantity := dsub (o_remaining_quantity ord) q,
       o_status := (if q = o_remaining_quantity ord then FILLED else PARTIALLY_FILLED)\<rparr>"
  by (auto simp: record_fill_def Let_def dec_sign)

lemma reject_inv [inv_intros]: "order_inv ord \<Longrightarrow> order_inv (reject reason ord)"
  by (auto simp: reject_def order_inv_def terminal_def)

lemma cancel_inv [inv_intros]: "order_inv ord \<Longrightarrow> order_inv (cancel reason expired ord)"
  by (auto simp: cancel_def order_inv_def terminal_def)

lemma record_fill_inv [inv_intros]:
  "order_inv ord \<Longrightarrow> record_fill q ord = Inr ord' \<Longrightarrow> order_inv ord'"
  by (auto simp: record_fill_Inr_iff order_inv_def dec_sign)

lemma terminal_order_step: "terminal (o_status ord) \<Longrightarrow> order_step a ord = ord"
  by (cases a) (auto simp: reject_def cancel_def record_fill_def)

interpretation order_lifecycle: latched_machine order_step "\<lambda>_. True" order_inv "\<lambda>ord. terminal (o_status ord)"
proof unfold_locales
  show "order_inv (order_step a s)" if "order_inv s" for a s
    using that by (cases a) (auto intro: inv_intros split: sum.splits)
qed (rule terminal_order_step)

lemma order_step_remaining:
  "is_dec (o_remaining_quantity ord) \<Longrightarrow>
   is_dec (o_remaining_quantity (order_step a ord)) \<and>
   o_remaining_quantity (order_step a ord) \<le> o_remaining_quantity ord \<and>
   o_quantity (order_step a ord) = o_quantity ord"
  by (cases a) (auto simp: reject_def cancel_def record_fill_Inr_iff dsub_le split: sum.splits)

text \<open>
  The life cycle of an order: through any sequence of rejections, cancellations and fills,
  calls that raise included, the order invariant is kept, the ordered quantity never changes, the
  remaining quantity never grows, and an order in a terminal status never changes again.
\<close>

theorem order_run_correct:
  assumes "order_inv ord" "is_dec (o_remaining_quantity ord)"
  shows "order_inv (fold order_step ops ord) \<and>
    o_quantity (fold order_step ops ord) = o_quantity ord \<and>
    o_remaining_quantity (fold order_step ops ord) \<le> o_remaining_quantity ord \<and>
    (terminal (o_status ord) \<longrightarrow> fold order_step ops ord = ord)"
proof -
  have "is_dec (o_remaining_quantity (fold order_step ops ord)) \<and>
    o_remaining_quantity (fold order_step ops ord) \<le> o_remaining_quantity ord \<and>
    o_quantity (fold order_step ops ord) = o_quantity ord"
    using assms(2)
  proof (induction ops arbitrary: ord)
    case (Cons a ops)
    then show ?case using order_step_remaining [of ord a] by fastforce
  qed simp
  then show ?thesis
    using order_lifecycle.inv_run [OF _ assms(1), of ops] order_lifecycle.final_run [of ord] by (simp add: list_all_iff)
qed

definition demo_order_new :: Order where
  "demo_order_new = \<lparr>o_order_id = ''o'', o_signal_id = ''s'', o_exchange = ''x'', o_symbol = ''BTC'',
     o_side = BUY, o_quantity = 3, o_order_type = MARKET, o_time_in_force = GTC, o_signal_at = 0,
     o_created_at = 0, o_submitted_at = 1, o_limit_price = None, o_post_only = False, o_reduce_only = False,
     o_expires_at = None, o_stop_loss = None, o_take_profit = None, o_status = SUBMITTED,
     o_remaining_quantity = 3, o_rejection_reason = None\<rparr>"

theorem order_run_correct_witness:
  "let ops = [Op_fill 1, Op_fill 5, Op_fill 2, Op_cancel ''late'' False] in
     o_status (fold order_step ops demo_order_new) = FILLED \<and>
     order_inv (fold order_step ops demo_order_new) \<and>
     o_remaining_quantity (fold order_step ops demo_order_new) \<le> 3"
proof -
  let ?ops = "[Op_fill 1, Op_fill 5, Op_fill 2, Op_cancel ''late'' False]"
  have "order_inv demo_order_new" "is_dec (o_remaining_quantity demo_order_new)"
    by (simp_all add: demo_order_new_def order_inv_def is_dec_def)
  moreover have "o_status (fold order_step ?ops demo_order_new) = FILLED"
    by (simp add: demo_order_new_def record_fill_def cancel_def terminal_def dec_eval Let_def)
  moreover have "o_remaining_quantity demo_order_new = 3" by (simp add: demo_order_new_def)
  ultimately show ?thesis using order_run_correct [of demo_order_new ?ops] by (simp only: Let_def)
qed

end
