(* ===== verification/Execution_Simulator.thy ===== *)
theory Execution_Simulator
  imports Execution_Models
begin

text \<open>
  \<open>src/app/domain/execution/simulator.py\<close>: the order book of the backtester. \<open>submit\<close>
  normalises and registers an order, \<open>cancel_all\<close> cancels every live order, and
  \<open>match_snapshot\<close> (the method \<open>match\<close>) runs the registered orders against one market
  snapshot. The two callbacks of \<open>match\<close> (the quantity cap and the fill consumer) act on a
  client state that is threaded through the loop; what the loop needs of them is the locale
  \<open>fill_client\<close>.
\<close>

section \<open>Configuration and state\<close>

record ExecutionModelConfig =
  participation_rate :: dec
  passive_fill_fraction :: dec
  slippage_bps :: dec
  impact_coefficient_bps :: dec
  impact_power :: int
  maximum_impact_bps :: dec

definition ExecutionModelConfig_post_init ::
  "ExecutionModelConfig \<Rightarrow> ExecutionModelConfig result" where
  "ExecutionModelConfig_post_init c =
     bindE (raise_if (\<not> (0 < participation_rate c \<and> participation_rate c \<le> 1))
       (ValueError ''participation_rate must be in (0, 1]'')) (\<lambda>_.
     bindE (raise_if (\<not> (0 \<le> passive_fill_fraction c \<and> passive_fill_fraction c \<le> 1))
       (ValueError ''passive_fill_fraction must be in [0, 1]'')) (\<lambda>_.
     bindE (raise_if
         (min (min (slippage_bps c) (impact_coefficient_bps c)) (maximum_impact_bps c) < 0)
       (ValueError ''cost assumptions cannot be negative'')) (\<lambda>_.
     bindE (raise_if (impact_power c < 1)
       (ValueError ''impact_power must be at least one'')) (\<lambda>_.
     Inr c))))"

definition default_config :: ExecutionModelConfig where
  "default_config = \<lparr>participation_rate = 25 / 100, passive_fill_fraction = 10 / 100,
     slippage_bps = 1, impact_coefficient_bps = 5, impact_power = 1, maximum_impact_bps = 50\<rparr>"

record ExecutionSimulator =
  sim_rules :: "(InstrumentKey, InstrumentRules) dict"
  sim_config :: ExecutionModelConfig
  sim_orders :: "(string, Order) dict"
  sim_fills :: "Fill list"
  sim_fill_sequence :: nat

definition ExecutionSimulator_init ::
  "(InstrumentKey, InstrumentRules) dict \<Rightarrow> ExecutionModelConfig option \<Rightarrow> ExecutionSimulator" where
  "ExecutionSimulator_init rules config =
     \<lparr>sim_rules = rules,
      sim_config = (case config of None \<Rightarrow> default_config | Some c \<Rightarrow> c),
      sim_orders = [], sim_fills = [], sim_fill_sequence = 0\<rparr>"

text \<open>An order is mutated in place: the dictionary entry of its identifier is replaced.\<close>

definition store_order :: "Order \<Rightarrow> ExecutionSimulator \<Rightarrow> ExecutionSimulator" where
  "store_order ord sim = sim\<lparr>sim_orders := dict_set (o_order_id ord) ord (sim_orders sim)\<rparr>"

section \<open>Submission and cancellation\<close>

definition quantise_limit :: "InstrumentRules \<Rightarrow> Order \<Rightarrow> Order result" where
  "quantise_limit rules ord =
     (case o_limit_price ord of
        None \<Rightarrow> Inr ord
      | Some price \<Rightarrow>
          bindE (quantize_limit_price rules price (o_side ord))
            (\<lambda>p. Inr (ord\<lparr>o_limit_price := Some p\<rparr>)))"

text \<open>From the assignment of the quantised quantity on: the result and the order as mutated.\<close>

definition admit_order :: "InstrumentRules \<Rightarrow> dec \<Rightarrow> Order \<Rightarrow> (Order, Order) outcome" where
  "admit_order rules quantity ord =
     (let o1 = ord\<lparr>o_quantity := quantity, o_remaining_quantity := quantity\<rparr> in
      case quantise_limit rules o1 of
        Inl e \<Rightarrow> (Inl e, o1)
      | Inr o2 \<Rightarrow>
          let o3 = (if o_post_only o2 \<and> o_order_type o2 \<noteq> LIMIT
                    then reject ''post-only requires a limit order'' o2
                    else o2\<lparr>o_status := SUBMITTED\<rparr>)
          in (Inr o3, o3))"

definition submit :: "Order \<Rightarrow> ExecutionSimulator \<Rightarrow> (Order, ExecutionSimulator) outcome" where
  "submit ord sim =
     (if map_of (sim_orders sim) (o_order_id ord) \<noteq> None
      then (Inl (ValueError (''duplicate order_id: '' @ o_order_id ord)), sim)
      else case map_of (sim_rules sim) (o_exchange ord, o_symbol ord) of
        None \<Rightarrow>
          (let o1 = reject ''instrument rules unavailable'' ord in (Inr o1, store_order o1 sim))
      | Some rules \<Rightarrow>
          let quantity = quantize_quantity rules (o_quantity ord) in
          if quantity \<le> 0 then
            (let o1 = reject ''quantity is below lot size'' ord in (Inr o1, store_order o1 sim))
          else
            let (res, o1) = admit_order rules quantity ord in (res, store_order o1 sim))"

definition cancel_all :: "string \<Rightarrow> ExecutionSimulator \<Rightarrow> ExecutionSimulator" where
  "cancel_all reason sim =
     sim\<lparr>sim_orders := map (\<lambda>(k, ord). (k, cancel reason False ord)) (sim_orders sim)\<rparr>"

section \<open>Matching one order\<close>

definition is_marketable :: "Order \<Rightarrow> MarketSnapshot \<Rightarrow> bool" where
  "is_marketable ord snapshot =
     (if o_order_type ord = MARKET then True
      else case o_limit_price ord of
        None \<Rightarrow> False
      | Some limit \<Rightarrow>
          if o_side ord = BUY then limit \<ge> s_ask snapshot else limit \<le> s_bid snapshot)"

definition passive_trade_reached :: "Order \<Rightarrow> MarketSnapshot \<Rightarrow> bool" where
  "passive_trade_reached ord snapshot =
     (case (o_limit_price ord, s_last_price snapshot) of
        (Some limit, Some traded) \<Rightarrow> if o_side ord = BUY then traded \<le> limit else traded \<ge> limit
      | _ \<Rightarrow> False)"

definition impact_bps :: "ExecutionModelConfig \<Rightarrow> dec \<Rightarrow> dec \<Rightarrow> dec" where
  "impact_bps c quantity depth =
     (if depth \<le> 0 then maximum_impact_bps c
      else let ratio = ddiv quantity depth;
               impact = dmul (impact_coefficient_bps c) (dpow ratio (nat (impact_power c)))
           in min impact (maximum_impact_bps c))"

record MatchDetails =
  m_quantity :: dec
  m_price :: dec
  m_liquidity :: LiquidityRole
  m_spread :: dec
  m_slippage :: dec
  m_impact :: dec

text \<open>
  \<open>_match_details\<close>: the order comes back because a post-only order that would take liquidity
  is cancelled here.
\<close>

definition taker_details ::
  "ExecutionModelConfig \<Rightarrow> Order \<Rightarrow> MarketSnapshot \<Rightarrow> InstrumentRules \<Rightarrow> dec \<Rightarrow>
   MatchDetails option result" where
  "taker_details c ord snapshot rules cap =
     (let depth = (if o_side ord = BUY then s_ask_quantity snapshot else s_bid_quantity snapshot);
          available = quantize_quantity rules (dmul depth (participation_rate c));
          quantity = quantize_quantity rules (min cap available)
      in if quantity \<le> 0 then Inr None
      else let top = (if o_side ord = BUY then s_ask snapshot else s_bid snapshot);
               slippage_rate = ddiv (slippage_bps c) 10000;
               impact_rate = ddiv (impact_bps c quantity depth) 10000;
               direction = (if o_side ord = BUY then 1 else - 1);
               raw_price = dmul top (dadd 1 (dmul direction (dadd slippage_rate impact_rate)))
      in bindE (quantize_execution_price rules raw_price (o_side ord)) (\<lambda>price.
         if (case o_limit_price ord of
               None \<Rightarrow> False
             | Some limit \<Rightarrow> (o_side ord = BUY \<and> price > limit) \<or> (o_side ord = SELL \<and> price < limit))
         then Inr None
         else Inr (Some \<lparr>m_quantity = quantity, m_price = price, m_liquidity = TAKER,
                m_spread = dmul (dabs (dsub top (mid snapshot))) quantity,
                m_slippage = dmul (dmul top slippage_rate) quantity,
                m_impact = dmul (dmul top impact_rate) quantity\<rparr>)))"

definition maker_details ::
  "ExecutionModelConfig \<Rightarrow> Order \<Rightarrow> MarketSnapshot \<Rightarrow> InstrumentRules \<Rightarrow> dec \<Rightarrow>
   MatchDetails option" where
  "maker_details c ord snapshot rules cap =
     (if \<not> passive_trade_reached ord snapshot then None
      else let trade_quantity = dec_or (s_trade_quantity snapshot) 0;
               available = quantize_quantity rules (dmul trade_quantity (passive_fill_fraction c));
               quantity = quantize_quantity rules (min cap available)
      in if quantity \<le> 0 then None
         else case o_limit_price ord of
           None \<Rightarrow> None
         | Some limit \<Rightarrow> Some \<lparr>m_quantity = quantity, m_price = limit, m_liquidity = MAKER,
             m_spread = 0, m_slippage = 0, m_impact = 0\<rparr>)"

definition match_details ::
  "ExecutionModelConfig \<Rightarrow> Order \<Rightarrow> MarketSnapshot \<Rightarrow> InstrumentRules \<Rightarrow> dec \<Rightarrow>
   (MatchDetails option, Order) outcome" where
  "match_details c ord snapshot rules cap =
     (let marketable = is_marketable ord snapshot in
      if o_post_only ord \<and> marketable then
        (Inr None, cancel ''post-only order would take liquidity'' False ord)
      else if o_order_type ord = MARKET \<or> marketable then
        (taker_details c ord snapshot rules cap, ord)
      else (Inr (maker_details c ord snapshot rules cap), ord))"

text \<open>\<open>_make_fill\<close>: the sequence number is consumed even when the fill is refused.\<close>

definition make_fill ::
  "Order \<Rightarrow> MarketSnapshot \<Rightarrow> InstrumentRules \<Rightarrow> MatchDetails \<Rightarrow> ExecutionSimulator \<Rightarrow>
   (Fill, ExecutionSimulator) outcome" where
  "make_fill ord snapshot rules m sim =
     (let n = Suc (sim_fill_sequence sim);
          fee_rate = (if m_liquidity m = MAKER then maker_fee_rate rules else taker_fee_rate rules);
          f = \<lparr>f_fill_id = ''fill-'' @ fmt12 n, f_order_id = o_order_id ord,
               f_signal_id = o_signal_id ord, f_exchange = o_exchange ord, f_symbol = o_symbol ord,
               f_side = o_side ord, f_quantity = m_quantity m, f_price = m_price m,
               f_liquidity = m_liquidity m, f_signal_at = o_signal_at ord,
               f_order_created_at = o_created_at ord, f_submitted_at = o_submitted_at ord,
               f_filled_at = s_timestamp snapshot,
               f_fee = dmul (dmul (m_quantity m) (m_price m)) fee_rate,
               f_spread_cost = m_spread m, f_slippage_cost = m_slippage m,
               f_market_impact_cost = m_impact m\<rparr>
      in (Fill_post_init f (Aware (o_signal_at ord)) (Aware (o_created_at ord))
            (Aware (o_submitted_at ord)) (Aware (s_timestamp snapshot)),
          sim\<lparr>sim_fill_sequence := n\<rparr>))"

section \<open>The matching loop\<close>

type_synonym 'p quantity_cap = "'p \<Rightarrow> Order \<Rightarrow> dec"
type_synonym 'p fill_consumer = "Order \<Rightarrow> Fill \<Rightarrow> 'p \<Rightarrow> (unit, 'p) outcome"

text \<open>The end of the loop body: a fill is made, booked on the order, recorded and consumed.\<close>

definition execute_match ::
  "MarketSnapshot \<Rightarrow> InstrumentRules \<Rightarrow> 'p fill_consumer option \<Rightarrow> Order \<Rightarrow> MatchDetails \<Rightarrow>
   ExecutionSimulator \<times> 'p \<Rightarrow> (Fill option, ExecutionSimulator \<times> 'p) outcome" where
  "execute_match snapshot rules on_fill ord m st =
     (let (sim, p) = st in
      case make_fill ord snapshot rules m sim of
        (Inl e, sim1) \<Rightarrow> (Inl e, (sim1, p))
      | (Inr fill, sim1) \<Rightarrow>
          case record_fill (m_quantity m) ord of
            Inl e \<Rightarrow> (Inl e, (sim1, p))
          | Inr o1 \<Rightarrow>
              let sim2 = (store_order o1 sim1)\<lparr>sim_fills := sim_fills sim1 @ [fill]\<rparr>;
                  (r, p') = (case on_fill of None \<Rightarrow> (Inr (), p) | Some consume \<Rightarrow> consume o1 fill p)
              in case r of
                Inl e \<Rightarrow> (Inl e, (sim2, p'))
              | Inr _ \<Rightarrow>
                  (Inr (Some fill),
                   (if o_time_in_force o1 = IOC \<and> o_remaining_quantity o1 > 0
                    then store_order (cancel ''IOC remainder cancelled'' False o1) sim2
                    else sim2, p')))"

definition expired_at :: "Order \<Rightarrow> instant \<Rightarrow> bool" where
  "expired_at ord t = (case o_expires_at ord of None \<Rightarrow> False | Some ex \<Rightarrow> t \<ge> ex)"

text \<open>From the call of \<open>_match_details\<close> to the end of the loop body.\<close>

definition settle_order ::
  "MarketSnapshot \<Rightarrow> InstrumentRules \<Rightarrow> 'p fill_consumer option \<Rightarrow> dec \<Rightarrow> Order \<Rightarrow>
   ExecutionSimulator \<times> 'p \<Rightarrow> (Fill option, ExecutionSimulator \<times> 'p) outcome" where
  "settle_order snapshot rules on_fill cap ord st =
     (let (sim, p) = st in
      case match_details (sim_config sim) ord snapshot rules cap of
        (Inl e, _) \<Rightarrow> (Inl e, st)
      | (Inr None, o1) \<Rightarrow>
          (Inr None,
           (store_order
              (if o_time_in_force o1 \<in> {IOC, FOK}
               then cancel ''time in force could not be satisfied'' False o1 else o1) sim, p))
      | (Inr (Some m), o1) \<Rightarrow>
          if o_time_in_force o1 = FOK \<and> m_quantity m < o_remaining_quantity o1 then
            (Inr None,
             (store_order (cancel ''fill-or-kill quantity unavailable'' False o1) sim, p))
          else execute_match snapshot rules on_fill o1 m st)"

text \<open>The loop body of \<open>match\<close>: each \<open>continue\<close> is a branch that yields no fill.\<close>

definition match_one ::
  "MarketSnapshot \<Rightarrow> InstrumentRules \<Rightarrow> 'p quantity_cap option \<Rightarrow> 'p fill_consumer option \<Rightarrow>
   Order \<Rightarrow> ExecutionSimulator \<times> 'p \<Rightarrow> (Fill option, ExecutionSimulator \<times> 'p) outcome" where
  "match_one snapshot rules quantity_cap on_fill ord st =
     (let (sim, p) = st in
      if terminal (o_status ord) \<or> o_exchange ord \<noteq> s_exchange snapshot \<or>
         o_symbol ord \<noteq> s_symbol snapshot then (Inr None, st)
      else if s_timestamp snapshot \<le> o_submitted_at ord then (Inr None, st)
      else if expired_at ord (s_timestamp snapshot) then
        (Inr None, (store_order (cancel ''order expired'' True ord) sim, p))
      else
        let cap = (case quantity_cap of
             None \<Rightarrow> o_remaining_quantity ord
           | Some f \<Rightarrow> min (o_remaining_quantity ord) (max 0 (f p ord))) in
        if cap \<le> 0 then
          (Inr None,
           (if o_reduce_only ord
            then store_order (cancel ''reduce-only order no longer reduces a position'' False ord) sim
            else sim, p))
        else if filled_quantity ord = 0 \<and> \<not> validate_notional rules (o_quantity ord) (mid snapshot)
        then (Inr None, (store_order (reject ''order is below minimum notional'' ord) sim, p))
        else settle_order snapshot rules on_fill cap ord st)"

fun match_loop ::
  "(Order \<Rightarrow> 'st \<Rightarrow> (Fill option, 'st) outcome) \<Rightarrow> Order list \<Rightarrow> Fill list \<Rightarrow> 'st \<Rightarrow>
   (Fill list, 'st) outcome" where
  "match_loop body [] produced st = (Inr produced, st)"
| "match_loop body (ord # rest) produced st =
     (case body ord st of
        (Inl e, st') \<Rightarrow> (Inl e, st')
      | (Inr None, st') \<Rightarrow> match_loop body rest produced st'
      | (Inr (Some fill), st') \<Rightarrow> match_loop body rest (produced @ [fill]) st')"

definition candidates :: "ExecutionSimulator \<Rightarrow> Order list" where
  "candidates sim =
     sort_key (\<lambda>ord. (o_submitted_at ord, o_order_id ord)) (dict_values (sim_orders sim))"

definition match_snapshot ::
  "MarketSnapshot \<Rightarrow> 'p quantity_cap option \<Rightarrow> 'p fill_consumer option \<Rightarrow>
   ExecutionSimulator \<times> 'p \<Rightarrow> (Fill list, ExecutionSimulator \<times> 'p) outcome" where
  "match_snapshot snapshot quantity_cap on_fill st =
     (case map_of (sim_rules (fst st)) (s_exchange snapshot, s_symbol snapshot) of
        None \<Rightarrow> (Inr [], st)
      | Some rules \<Rightarrow>
          match_loop (match_one snapshot rules quantity_cap on_fill) (candidates (fst st)) [] st)"

section \<open>The simulator's invariant\<close>

definition live_order_ok :: "Order \<Rightarrow> bool" where
  "live_order_ok ord \<longleftrightarrow> order_inv ord \<and>
     (\<not> terminal (o_status ord) \<longrightarrow> is_dec (o_remaining_quantity ord))"

definition fill_id :: "nat \<Rightarrow> string" where
  "fill_id n = ''fill-'' @ fmt12 n"

text \<open>
  The fill log carries strictly increasing sequence numbers, every fill is causal and has
  positive quantity and price, and the order dictionary is keyed by order identifiers.
\<close>

definition fill_log_ok :: "nat \<Rightarrow> Fill list \<Rightarrow> bool" where
  "fill_log_ok n fs \<longleftrightarrow> list_all fill_ok fs \<and>
     (\<exists>ns. sorted_wrt (<) ns \<and> list_all (\<lambda>k. k \<le> n) ns \<and> map f_fill_id fs = map fill_id ns)"

definition sim_inv :: "ExecutionSimulator \<Rightarrow> bool" where
  "sim_inv sim \<longleftrightarrow> dict_ok (sim_orders sim) \<and>
     list_all (\<lambda>(k, ord). k = o_order_id ord \<and> live_order_ok ord) (sim_orders sim) \<and>
     fill_log_ok (sim_fill_sequence sim) (sim_fills sim)"

lemma fill_id_inj [simp]: "fill_id m = fill_id n \<longleftrightarrow> m = n"
  by (simp add: fill_id_def)

lemma fill_log_ok_Nil [simp]: "fill_log_ok n []"
  unfolding fill_log_ok_def by (auto intro: exI [of _ "[]"])

lemma fill_log_ok_Suc: "fill_log_ok n fs \<Longrightarrow> fill_log_ok (Suc n) fs"
  unfolding fill_log_ok_def by (auto simp: list_all_iff le_SucI)

lemma fill_log_ok_snoc:
  assumes "fill_log_ok n fs" "fill_ok f" "f_fill_id f = fill_id (Suc n)"
  shows "fill_log_ok (Suc n) (fs @ [f]) \<and> f_fill_id f \<notin> f_fill_id ` set fs"
proof -
  obtain ns where ns: "sorted_wrt (<) ns" "list_all (\<lambda>k. k \<le> n) ns"
      "map f_fill_id fs = map fill_id ns"
    using assms(1) unfolding fill_log_ok_def by blast
  have img: "f_fill_id ` set fs = fill_id ` set ns" using ns(3) by (metis list.set_map)
  have "sorted_wrt (<) (ns @ [Suc n])" "list_all (\<lambda>k. k \<le> Suc n) (ns @ [Suc n])"
    using ns by (auto simp: sorted_wrt_append list_all_iff le_imp_less_Suc)
  moreover have "map f_fill_id (fs @ [f]) = map fill_id (ns @ [Suc n])" using ns assms by simp
  moreover have "fill_id (Suc n) \<notin> fill_id ` set ns" using ns(2) by (auto simp: list_all_iff)
  ultimately show ?thesis using assms img unfolding fill_log_ok_def by auto
qed

lemma fill_log_ok_distinct:
  assumes "fill_log_ok n fs" shows "distinct (map f_fill_id fs)"
proof -
  obtain ns where "sorted_wrt (<) ns" and eq: "map f_fill_id fs = map fill_id ns"
    using assms unfolding fill_log_ok_def by blast
  then have "distinct (map fill_id ns)" by (simp add: distinct_map inj_on_def strict_sorted_iff)
  then show ?thesis by (simp only: eq)
qed

lemma sim_inv_init: "sim_inv (ExecutionSimulator_init rules config)"
  by (simp add: sim_inv_def ExecutionSimulator_init_def)

lemma store_order_simps [simp]:
  "sim_rules (store_order ord sim) = sim_rules sim"
  "sim_config (store_order ord sim) = sim_config sim"
  "sim_fills (store_order ord sim) = sim_fills sim"
  "sim_fill_sequence (store_order ord sim) = sim_fill_sequence sim"
  "sim_orders (store_order ord sim) = dict_set (o_order_id ord) ord (sim_orders sim)"
  by (simp_all add: store_order_def)

lemma sim_inv_store [inv_intros]:
  "sim_inv sim \<Longrightarrow> live_order_ok ord \<Longrightarrow> sim_inv (store_order ord sim)"
  using dict_set_all [of "sim_orders sim" "\<lambda>k ord. k = o_order_id ord \<and> live_order_ok ord"]
  by (auto simp: sim_inv_def list_all_iff)

lemma live_reject [inv_intros]: "live_order_ok ord \<Longrightarrow> live_order_ok (reject reason ord)"
  using reject_inv by (auto simp: live_order_ok_def reject_def terminal_def)

lemma live_cancel [inv_intros]: "live_order_ok ord \<Longrightarrow> live_order_ok (cancel reason ex ord)"
  using cancel_inv by (auto simp: live_order_ok_def cancel_def terminal_def)

lemma live_record_fill [inv_intros]:
  "live_order_ok ord \<Longrightarrow> record_fill q ord = Inr ord' \<Longrightarrow> live_order_ok ord'"
  using record_fill_inv by (auto simp: live_order_ok_def record_fill_Inr_iff)

lemma reject_order_id [simp]: "o_order_id (reject reason ord) = o_order_id ord"
  by (simp add: reject_def)

lemma cancel_order_id [simp]: "o_order_id (cancel reason ex ord) = o_order_id ord"
  by (simp add: cancel_def)

lemma record_fill_order_id: "record_fill q ord = Inr ord' \<Longrightarrow> o_order_id ord' = o_order_id ord"
  by (auto simp: record_fill_Inr_iff)

lemma sim_inv_order: "sim_inv sim \<Longrightarrow> ord \<in> set (dict_values (sim_orders sim)) \<Longrightarrow> live_order_ok ord"
  by (auto simp: sim_inv_def dict_values_def list_all_iff)

section \<open>What a match yields\<close>

definition respects_limit :: "Order \<Rightarrow> dec \<Rightarrow> bool" where
  "respects_limit ord price \<longleftrightarrow>
     (\<forall>limit \<in> set_option (o_limit_price ord).
        if o_side ord = BUY then price \<le> limit else limit \<le> price)"

lemma taker_details_Some:
  assumes "taker_details c ord snap r cap = Inr (Some m)"
  shows "0 < m_quantity m \<and> is_dec (m_quantity m) \<and> m_liquidity m = TAKER \<and>
    respects_limit ord (m_price m)"
  using assms
  by (cases "o_limit_price ord"; cases "o_side ord")
     (auto simp: taker_details_def Let_def respects_limit_def split: if_splits)

lemma maker_details_Some:
  assumes "maker_details c ord snap r cap = Some m"
  shows "0 < m_quantity m \<and> is_dec (m_quantity m) \<and> m_liquidity m = MAKER \<and> o_limit_price ord = Some (m_price m)"
  using assms by (auto simp: maker_details_def Let_def split: if_splits option.splits)

lemma match_details_Some:
  assumes "match_details c ord snap r cap = (Inr (Some m), ord')"
  shows "ord' = ord \<and> 0 < m_quantity m \<and> is_dec (m_quantity m) \<and> respects_limit ord (m_price m)"
  using assms taker_details_Some [of c ord snap r cap m] maker_details_Some [of c ord snap r cap m]
  by (auto simp: match_details_def Let_def respects_limit_def split: if_splits)

lemma match_details_order:
  "match_details c ord snap r cap = (res, ord') \<Longrightarrow>
   ord' = ord \<or> ord' = cancel ''post-only order would take liquidity'' False ord"
  by (auto simp: match_details_def Let_def split: if_splits)

text \<open>A fill as \<open>_make_fill\<close> builds it from an order, a snapshot and the match details.\<close>

definition fill_of :: "Order \<Rightarrow> MarketSnapshot \<Rightarrow> MatchDetails \<Rightarrow> nat \<Rightarrow> Fill \<Rightarrow> bool" where
  "fill_of ord snap m n f \<longleftrightarrow> fill_ok f \<and> f_fill_id f = fill_id n \<and> f_order_id f = o_order_id ord \<and>
     f_exchange f = o_exchange ord \<and> f_symbol f = o_symbol ord \<and> f_side f = o_side ord \<and>
     f_quantity f = m_quantity m \<and> f_price f = m_price m \<and>
     f_submitted_at f = o_submitted_at ord \<and> f_filled_at f = s_timestamp snap"

lemma make_fill_Inr:
  assumes "make_fill ord snap r m sim = (Inr f, sim')"
  shows "fill_of ord snap m (Suc (sim_fill_sequence sim)) f"
proof -
  have "fill_ok f"
    using assms unfolding make_fill_def Let_def by (auto dest: fill_ok_post_init)
  then show ?thesis
    using assms by (auto simp: make_fill_def Let_def Fill_post_init_def fill_of_def fill_id_def)
qed

lemma make_fill_state:
  "make_fill ord snap r m sim = (res, sim') \<Longrightarrow>
   sim' = sim\<lparr>sim_fill_sequence := Suc (sim_fill_sequence sim)\<rparr>"
  by (auto simp: make_fill_def Let_def)

lemma sim_inv_tick: "sim_inv sim \<Longrightarrow> sim_inv (sim\<lparr>sim_fill_sequence := Suc (sim_fill_sequence sim)\<rparr>)"
  by (auto simp: sim_inv_def fill_log_ok_Suc)

text \<open>The two ways out of a booked match: an exception, or a fill with the order updated.\<close>

lemma execute_match_Inr:
  assumes "execute_match snap r on_fill ord m (sim, p) = (Inr res, (sim', p'))"
  obtains f o1 where "res = Some f" "fill_of ord snap m (Suc (sim_fill_sequence sim)) f"
    "record_fill (m_quantity m) ord = Inr o1"
    "on_fill = None \<and> p' = p \<or> (\<exists>g. on_fill = Some g \<and> g o1 f p = (Inr (), p'))"
    "sim' = (store_order (if o_time_in_force o1 = IOC \<and> o_remaining_quantity o1 > 0
               then cancel ''IOC remainder cancelled'' False o1 else o1)
             (store_order o1 (sim\<lparr>sim_fill_sequence := Suc (sim_fill_sequence sim)\<rparr>)))
             \<lparr>sim_fills := sim_fills sim @ [f]\<rparr>"
proof -
  obtain mres sim1 where mk: "make_fill ord snap r m sim = (mres, sim1)" by fastforce
  note s1 = make_fill_state [OF mk]
  obtain f where f: "mres = Inr f"
    using assms mk by (cases mres) (auto simp: execute_match_def)
  obtain o1 where o1: "record_fill (m_quantity m) ord = Inr o1"
    using assms mk f by (cases "record_fill (m_quantity m) ord") (auto simp: execute_match_def)
  obtain cr cp where c: "(case on_fill of None \<Rightarrow> (Inr (), p) | Some g \<Rightarrow> g o1 f p) = (cr, cp)"
    by fastforce
  have cr: "cr = Inr ()" and cp: "cp = p'" and res: "res = Some f"
    using assms mk f o1 c by (auto simp: execute_match_def Let_def split: sum.splits)
  have twice: "store_order o1 (store_order o1 s) = store_order o1 s" for s
    by (simp add: store_order_def)
  show ?thesis
  proof (rule that [of f o1])
    show "fill_of ord snap m (Suc (sim_fill_sequence sim)) f"
      using mk f make_fill_Inr by blast
    show "on_fill = None \<and> p' = p \<or> (\<exists>g. on_fill = Some g \<and> g o1 f p = (Inr (), p'))"
      using c cr cp by (auto split: option.splits)
    show "sim' = (store_order (if o_time_in_force o1 = IOC \<and> o_remaining_quantity o1 > 0
               then cancel ''IOC remainder cancelled'' False o1 else o1)
             (store_order o1 (sim\<lparr>sim_fill_sequence := Suc (sim_fill_sequence sim)\<rparr>)))
             \<lparr>sim_fills := sim_fills sim @ [f]\<rparr>"
      using assms mk f o1 c cr s1 twice
      by (auto simp: execute_match_def Let_def store_order_def split: if_splits)
  qed (use res o1 in auto)
qed

text \<open>
  The loop body on one order: it leaves everything alone, or replaces the order by the result
  of one life-cycle step, or books a match within the cap.
\<close>

definition eligible :: "Order \<Rightarrow> MarketSnapshot \<Rightarrow> bool" where
  "eligible ord snap \<longleftrightarrow> \<not> terminal (o_status ord) \<and> o_exchange ord = s_exchange snap \<and>
     o_symbol ord = s_symbol snap \<and> o_submitted_at ord < s_timestamp snap"

definition books :: "MarketSnapshot \<Rightarrow> InstrumentRules \<Rightarrow> 'p fill_consumer option \<Rightarrow> dec \<Rightarrow> Order \<Rightarrow>
    MatchDetails \<Rightarrow> ExecutionSimulator \<times> 'p \<Rightarrow> Fill option \<Rightarrow> ExecutionSimulator \<times> 'p \<Rightarrow> bool" where
  "books snap r on_fill c ord m st res st' \<longleftrightarrow>
     execute_match snap r on_fill ord m st = (Inr res, st') \<and>
     match_details (sim_config (fst st)) ord snap r c = (Inr (Some m), ord) \<and>
     (o_time_in_force ord = FOK \<longrightarrow> o_remaining_quantity ord \<le> m_quantity m)"

lemma settle_order_cases:
  assumes "settle_order snap r on_fill c ord (sim, p) = (Inr res, (sim', p'))"
    "\<not> terminal (o_status ord)"
  obtains (rested) "res = None" "sim' = store_order ord sim" "p' = p"
  | (closed) a where "res = None" "sim' = store_order (order_step a ord) sim" "p' = p"
  | (executed) m where "books snap r on_fill c ord m (sim, p) res (sim', p')"
proof -
  obtain dres o1 where d: "match_details (sim_config sim) ord snap r c = (dres, o1)" by fastforce
  obtain mo where mo: "dres = Inr mo"
    using assms d by (cases dres) (auto simp: settle_order_def)
  show ?thesis
  proof (cases mo)
    case None
    have step: "sim' = store_order o1 sim \<or> sim' = store_order (order_step (Op_cancel
        ''time in force could not be satisfied'' False) o1) sim" and res: "res = None" "p' = p"
      using assms d mo None by (auto simp: settle_order_def split: if_splits)
    have again: "cancel a b (cancel a' b' ord) = cancel a' b' ord" for a b a' b'
      using assms(2) by (simp add: cancel_def terminal_def)
    from match_details_order [OF d] show ?thesis
      using step res rested closed [of "Op_cancel ''post-only order would take liquidity'' False"]
        closed [of "Op_cancel ''time in force could not be satisfied'' False"] again
      by auto
  next
    case (Some m)
    have o1: "o1 = ord" using d mo Some match_details_Some by blast
    show ?thesis
      using assms d mo Some o1 executed [of m]
        closed [of "Op_cancel ''fill-or-kill quantity unavailable'' False"]
      by (cases "o_time_in_force ord = FOK \<and> m_quantity m < o_remaining_quantity ord")
         (auto simp: settle_order_def books_def)
  qed
qed

lemma match_one_cases:
  assumes "match_one snap r qcap on_fill ord (sim, p) = (Inr res, (sim', p'))"
  obtains (untouched) "res = None" "sim' = sim" "p' = p"
  | (rested) "eligible ord snap" "res = None" "sim' = store_order ord sim" "p' = p"
  | (closed) a where "eligible ord snap" "res = None" "sim' = store_order (order_step a ord) sim"
      "p' = p"
  | (executed) m c where "eligible ord snap" "books snap r on_fill c ord m (sim, p) res (sim', p')"
      "0 < c" "c \<le> o_remaining_quantity ord" "\<forall>f. qcap = Some f \<longrightarrow> c \<le> max 0 (f p ord)"
proof (cases "eligible ord snap")
  case False
  then show ?thesis
    using assms untouched by (auto simp: match_one_def eligible_def Let_def not_le split: if_splits)
next
  case live: True
  define c where "c = (case qcap of None \<Rightarrow> o_remaining_quantity ord
           | Some f \<Rightarrow> min (o_remaining_quantity ord) (max 0 (f p ord)))"
  have cb: "c \<le> o_remaining_quantity ord" "\<forall>f. qcap = Some f \<longrightarrow> c \<le> max 0 (f p ord)"
    by (auto simp: c_def split: option.splits)
  have body: "(if expired_at ord (s_timestamp snap) then
        (Inr None, (store_order (order_step (Op_cancel ''order expired'' True) ord) sim, p))
      else if c \<le> 0 then
        (Inr None, (if o_reduce_only ord then store_order (order_step (Op_cancel
           ''reduce-only order no longer reduces a position'' False) ord) sim else sim, p))
      else if filled_quantity ord = 0 \<and> \<not> validate_notional r (o_quantity ord) (mid snap)
      then (Inr None,
        (store_order (order_step (Op_reject ''order is below minimum notional'') ord) sim, p))
      else settle_order snap r on_fill c ord (sim, p)) = (Inr res, (sim', p'))"
    using assms live
    by (simp only: match_one_def eligible_def c_def [symmetric] Let_def prod.case order_step.simps
        if_False simp_thms not_le [symmetric])
  consider "res = None" "sim' = sim" "p' = p"
    | a where "res = None" "sim' = store_order (order_step a ord) sim" "p' = p"
    | "0 < c" "settle_order snap r on_fill c ord (sim, p) = (Inr res, (sim', p'))"
    using body by (auto simp del: order_step.simps split: if_splits)
  then show ?thesis
  proof cases
    case 3
    then show ?thesis
      using live cb rested closed executed
      by (elim settle_order_cases) (auto simp: eligible_def)
  qed (use live untouched closed in auto)
qed

text \<open>What holds of every fill that a match of \<open>ord\<close> against \<open>snap\<close> produces.\<close>

definition good_fill :: "MarketSnapshot \<Rightarrow> Order \<Rightarrow> Fill \<Rightarrow> bool" where
  "good_fill snap ord f \<longleftrightarrow> eligible ord snap \<and> fill_ok f \<and> f_order_id f = o_order_id ord \<and>
     f_side f = o_side ord \<and> f_exchange f = s_exchange snap \<and> f_symbol f = s_symbol snap \<and>
     f_filled_at f = s_timestamp snap \<and> f_submitted_at f = o_submitted_at ord \<and>
     is_dec (f_quantity f) \<and> f_quantity f \<le> o_remaining_quantity ord \<and>
     (o_time_in_force ord = FOK \<longrightarrow> f_quantity f = o_remaining_quantity ord) \<and>
     respects_limit ord (f_price f)"

lemma live_order_step: "live_order_ok ord \<Longrightarrow> live_order_ok (order_step a ord)"
  by (cases a) (auto intro: inv_intros split: sum.splits)

lemma books_sim:
  assumes "books snap r on_fill c ord m (sim, p) res (sim', p')" "sim_inv sim" "live_order_ok ord"
    "eligible ord snap"
  obtains f where "res = Some f" "good_fill snap ord f" "sim_inv sim'"
    "sim_fills sim' = sim_fills sim @ [f]" "f_fill_id f \<notin> f_fill_id ` set (sim_fills sim)"
    "sim_rules sim' = sim_rules sim" "sim_config sim' = sim_config sim"
    "\<And>k. k \<noteq> o_order_id ord \<Longrightarrow> map_of (sim_orders sim') k = map_of (sim_orders sim) k"
    "on_fill = None \<and> p' = p \<or> (\<exists>g o1. on_fill = Some g \<and> g o1 f p = (Inr (), p'))"
proof -
  have ex: "execute_match snap r on_fill ord m (sim, p) = (Inr res, (sim', p'))"
    and md: "match_details (sim_config sim) ord snap r c = (Inr (Some m), ord)"
    and fok: "o_time_in_force ord = FOK \<longrightarrow> o_remaining_quantity ord \<le> m_quantity m"
    using assms(1) by (auto simp: books_def)
  from ex obtain f o1 where f: "res = Some f" "fill_of ord snap m (Suc (sim_fill_sequence sim)) f"
    and o1: "record_fill (m_quantity m) ord = Inr o1"
    and cl: "on_fill = None \<and> p' = p \<or> (\<exists>g. on_fill = Some g \<and> g o1 f p = (Inr (), p'))"
    and sim': "sim' = (store_order (if o_time_in_force o1 = IOC \<and> o_remaining_quantity o1 > 0
               then cancel ''IOC remainder cancelled'' False o1 else o1)
             (store_order o1 (sim\<lparr>sim_fill_sequence := Suc (sim_fill_sequence sim)\<rparr>)))
             \<lparr>sim_fills := sim_fills sim @ [f]\<rparr>"
    by (rule execute_match_Inr)
  have id: "o_order_id o1 = o_order_id ord" using o1 by (rule record_fill_order_id)
  have live: "live_order_ok o1" using assms(3) o1 by (rule live_record_fill)
  let ?o2 = "if o_time_in_force o1 = IOC \<and> o_remaining_quantity o1 > 0
               then cancel ''IOC remainder cancelled'' False o1 else o1"
  let ?sim2 = "store_order ?o2 (store_order o1 (sim\<lparr>sim_fill_sequence := Suc (sim_fill_sequence sim)\<rparr>))"
  have "sim_inv ?sim2" using live assms(2) by (intro sim_inv_store sim_inv_tick) (auto intro: inv_intros)
  moreover have log: "fill_log_ok (Suc (sim_fill_sequence sim)) (sim_fills sim @ [f]) \<and>
      f_fill_id f \<notin> f_fill_id ` set (sim_fills sim)"
    using assms(2) f(2) by (intro fill_log_ok_snoc) (auto simp: sim_inv_def fill_of_def)
  ultimately have inv: "sim_inv sim'" by (simp add: sim' sim_inv_def)
  have good: "good_fill snap ord f"
    using f(2) match_details_Some [OF md] o1 fok assms(4)
    by (auto simp: good_fill_def fill_of_def record_fill_Inr_iff eligible_def)
  show ?thesis
    by (rule that [of f]) (use f(1) good inv log cl id in \<open>auto simp: sim'\<close>)
qed

definition opt_fill :: "Fill option \<Rightarrow> Fill list" where
  "opt_fill res = (case res of None \<Rightarrow> [] | Some f \<Rightarrow> [f])"

lemma opt_fill_simps [simp]: "opt_fill None = []" "opt_fill (Some f) = [f]"
  by (simp_all add: opt_fill_def)

lemma match_one_sim:
  assumes "match_one snap r qcap on_fill ord (sim, p) = (Inr res, (sim', p'))"
    "sim_inv sim" "live_order_ok ord"
  shows "sim_inv sim' \<and> sim_fills sim' = sim_fills sim @ opt_fill res \<and>
    sim_rules sim' = sim_rules sim \<and> sim_config sim' = sim_config sim \<and>
    (\<forall>f \<in> set (opt_fill res). good_fill snap ord f) \<and>
    (\<forall>k. k \<noteq> o_order_id ord \<or> \<not> eligible ord snap \<longrightarrow>
       map_of (sim_orders sim') k = map_of (sim_orders sim) k)"
  using assms(1)
proof (cases rule: match_one_cases)
  case (executed m c)
  from executed(2) assms(2,3) executed(1) show ?thesis
    by (rule books_sim) (use executed(1) in auto)
next
  case (closed a)
  have "o_order_id (order_step a ord) = o_order_id ord"
    by (cases a) (auto dest: record_fill_order_id split: sum.splits)
  then show ?thesis using closed assms live_order_step [of ord a] by (auto intro: inv_intros)
qed (use assms in \<open>auto intro: inv_intros\<close>)

lemma match_loop_sim:
  assumes "match_loop (match_one snap r qcap on_fill) ords produced (sim, p) = (Inr fs, (sim', p'))"
    "sim_inv sim" "\<forall>ord \<in> set ords. live_order_ok ord"
  shows "sim_inv sim' \<and> sim_rules sim' = sim_rules sim \<and> sim_config sim' = sim_config sim \<and>
    (\<exists>new. fs = produced @ new \<and> sim_fills sim' = sim_fills sim @ new \<and>
      (\<forall>f \<in> set new. \<exists>ord \<in> set ords. good_fill snap ord f)) \<and>
    (\<forall>k. (\<forall>ord \<in> set ords. o_order_id ord = k \<longrightarrow> \<not> eligible ord snap) \<longrightarrow>
       map_of (sim_orders sim') k = map_of (sim_orders sim) k)"
  using assms
proof (induction ords arbitrary: produced sim p)
  case (Cons ord ords)
  obtain res sim1 p1 where one: "match_one snap r qcap on_fill ord (sim, p) = (Inr res, (sim1, p1))"
    and rest: "match_loop (match_one snap r qcap on_fill) ords (produced @ opt_fill res) (sim1, p1) =
      (Inr fs, (sim', p'))"
    using Cons.prems(1) by (auto split: prod.splits sum.splits option.splits) 
  note step = match_one_sim [OF one Cons.prems(2)]
  have ok: "sim_inv sim1" "\<forall>ord \<in> set ords. live_order_ok ord" using step Cons.prems(3) by auto
  obtain new where new: "fs = (produced @ opt_fill res) @ new" "sim_fills sim' = sim_fills sim1 @ new"
    "\<forall>f \<in> set new. \<exists>ord \<in> set ords. good_fill snap ord f"
    using Cons.IH [OF rest ok] by blast
  show ?case
  proof (intro conjI)
    show "\<exists>new. fs = produced @ new \<and> sim_fills sim' = sim_fills sim @ new \<and>
      (\<forall>f \<in> set new. \<exists>x \<in> set (ord # ords). good_fill snap x f)"
      using new step Cons.prems(3) by (intro exI [of _ "opt_fill res @ new"]) auto
  qed (use Cons.IH [OF rest ok] step Cons.prems(3) in auto)
qed auto

lemma candidates_set: "set (candidates sim) = set (dict_values (sim_orders sim))"
  by (simp add: candidates_def)

lemma match_snapshot_sim:
  assumes "match_snapshot snap qcap on_fill (sim, p) = (Inr fs, (sim', p'))" "sim_inv sim"
  shows "sim_inv sim' \<and> sim_rules sim' = sim_rules sim \<and> sim_config sim' = sim_config sim \<and>
    sim_fills sim' = sim_fills sim @ fs \<and>
    (\<forall>f \<in> set fs. \<exists>ord \<in> set (candidates sim). good_fill snap ord f) \<and>
    (\<forall>k. (\<forall>ord \<in> set (candidates sim). o_order_id ord = k \<longrightarrow> \<not> eligible ord snap) \<longrightarrow>
       map_of (sim_orders sim') k = map_of (sim_orders sim) k)"
proof (cases "map_of (sim_rules sim) (s_exchange snap, s_symbol snap)")
  case None
  then show ?thesis using assms by (auto simp: match_snapshot_def)
next
  case (Some r)
  have "\<forall>ord \<in> set (candidates sim). live_order_ok ord"
    using assms(2) sim_inv_order by (auto simp: candidates_set)
  then show ?thesis
    using match_loop_sim [of snap r qcap on_fill "candidates sim" "[]" sim p fs sim' p'] assms Some
    by (auto simp: match_snapshot_def)
qed

section \<open>The interface to the client of a match\<close>

locale fill_client =
  fixes snap :: MarketSnapshot and cap :: "'p quantity_cap" and consume :: "'p fill_consumer"
    and client_inv :: "Fill list \<Rightarrow> 'p \<Rightarrow> bool"
  assumes consume_inv:
    "client_inv fs p \<Longrightarrow> fill_ok f \<Longrightarrow> is_dec (f_quantity f) \<Longrightarrow> f_exchange f = s_exchange snap \<Longrightarrow>
     f_symbol f = s_symbol snap \<Longrightarrow> f_fill_id f \<notin> f_fill_id ` set fs \<Longrightarrow>
     consume ord f p = (Inr (), p') \<Longrightarrow> client_inv (fs @ [f]) p'"
begin

lemma match_one_client:
  assumes "match_one snap r (Some cap) (Some consume) ord (sim, p) = (Inr res, (sim', p'))"
    "sim_inv sim" "live_order_ok ord" "client_inv (sim_fills sim) p"
  shows "client_inv (sim_fills sim') p'"
  using assms(1)
proof (cases rule: match_one_cases)
  case (executed m c)
  show ?thesis
    using executed(2) assms(2,3) executed(1)
  proof (rule books_sim)
    fix f assume f: "good_fill snap ord f" "sim_fills sim' = sim_fills sim @ [f]"
      "f_fill_id f \<notin> f_fill_id ` set (sim_fills sim)"
      and c: "Some consume = None \<and> p' = p \<or> (\<exists>g o1. Some consume = Some g \<and> g o1 f p = (Inr (), p'))"
    from c obtain o1 where "consume o1 f p = (Inr (), p')" by auto
    with f assms(4) show ?thesis using consume_inv by (auto simp: good_fill_def)
  qed
qed (use assms(4) in auto)

lemma match_loop_client:
  assumes "match_loop (match_one snap r (Some cap) (Some consume)) ords produced (sim, p) =
      (Inr fs, (sim', p'))"
    "sim_inv sim" "\<forall>ord \<in> set ords. live_order_ok ord" "client_inv (sim_fills sim) p"
  shows "client_inv (sim_fills sim') p'"
  using assms
proof (induction ords arbitrary: produced sim p)
  case (Cons ord ords)
  obtain res sim1 p1 where
    one: "match_one snap r (Some cap) (Some consume) ord (sim, p) = (Inr res, (sim1, p1))"
    and rest: "match_loop (match_one snap r (Some cap) (Some consume)) ords
      (produced @ opt_fill res) (sim1, p1) = (Inr fs, (sim', p'))"
    using Cons.prems(1) by (auto split: prod.splits sum.splits option.splits)
  show ?case
    using Cons.IH [OF rest] match_one_sim [OF one Cons.prems(2)] match_one_client [OF one Cons.prems(2)]
      Cons.prems(3,4) by auto
qed auto

lemma match_snapshot_client:
  assumes "match_snapshot snap (Some cap) (Some consume) (sim, p) = (Inr fs, (sim', p'))"
    "sim_inv sim" "client_inv (sim_fills sim) p"
  shows "client_inv (sim_fills sim') p'"
  using assms match_loop_client [of _ "candidates sim" "[]" sim p fs sim' p'] sim_inv_order
  by (auto simp: match_snapshot_def candidates_set split: option.splits)

end

section \<open>Submission\<close>

lemma admit_order_live:
  assumes "order_inv ord" "\<not> terminal (o_status ord)" "0 < q" "is_dec q"
  shows "live_order_ok (snd (admit_order rules q ord))"
proof -
  let ?o1 = "ord\<lparr>o_quantity := q, o_remaining_quantity := q\<rparr>"
  have o1: "order_inv ?o1" using assms by (auto simp: order_inv_def terminal_def)
  show ?thesis
  proof (cases "quantise_limit rules ?o1")
    case (Inl e)
    then show ?thesis using o1 assms by (simp add: admit_order_def Let_def live_order_ok_def)
  next
    case (Inr o2)
    then have "order_inv o2" "o_status o2 = o_status ord" "o_remaining_quantity o2 = q"
      using o1 by (auto simp: quantise_limit_def order_inv_def split: option.splits)
    then show ?thesis using Inr assms
      by (auto simp: admit_order_def Let_def live_order_ok_def order_inv_def terminal_def reject_def)
  qed
qed

lemma submit_inv [inv_intros]:
  assumes "submit ord sim = (res, sim')" "sim_inv sim" "order_inv ord" "\<not> terminal (o_status ord)"
  shows "sim_inv sim'"
proof -
  have rej: "live_order_ok (reject reason ord)" for reason
    using assms(3,4) reject_inv [of ord] by (simp add: live_order_ok_def reject_def terminal_def)
  show ?thesis
  proof (cases "map_of (sim_orders sim) (o_order_id ord)")
    case fresh: None
    show ?thesis
    proof (cases "map_of (sim_rules sim) (o_exchange ord, o_symbol ord)")
      case None
      then show ?thesis
        using assms(1,2) fresh rej by (auto simp: submit_def Let_def intro: sim_inv_store)
    next
      case (Some rules)
      let ?q = "quantize_quantity rules (o_quantity ord)"
      have "live_order_ok (snd (admit_order rules ?q ord))" if "0 < ?q"
        using that assms by (intro admit_order_live) simp_all
      then show ?thesis
        using assms(1,2) fresh Some rej
        by (cases "?q \<le> 0") (auto simp: submit_def Let_def split_beta intro: sim_inv_store)
    qed
  qed (use assms in \<open>simp add: submit_def\<close>)
qed

section \<open>Properties of the simulator\<close>

definition config_ok :: "ExecutionModelConfig \<Rightarrow> bool" where
  "config_ok c \<longleftrightarrow> 0 < participation_rate c \<and> participation_rate c \<le> 1 \<and>
     0 \<le> passive_fill_fraction c \<and> passive_fill_fraction c \<le> 1 \<and> 0 \<le> slippage_bps c \<and>
     0 \<le> impact_coefficient_bps c \<and> 0 \<le> maximum_impact_bps c \<and> 1 \<le> impact_power c"

lemma config_ok_post_init: "ExecutionModelConfig_post_init c = Inr c' \<longleftrightarrow> c' = c \<and> config_ok c"
  unfolding ExecutionModelConfig_post_init_def config_ok_def by auto

text \<open>A market order of four lots against a book with depth for one quarter of it.\<close>

definition sample_rules :: InstrumentRules where
  "sample_rules = \<lparr>tick_size = 1 / 10, lot_size = 1 / 1000, minimum_notional = 5,
     maker_fee_rate = 2 / 10000, taker_fee_rate = 6 / 10000, maintenance_margin_rate = 5 / 1000\<rparr>"

definition sample_snapshot :: MarketSnapshot where
  "sample_snapshot = \<lparr>s_exchange = ''x'', s_symbol = ''BTC'', s_timestamp = 2000, s_bid = 100,
     s_ask = 101, s_bid_quantity = 8, s_ask_quantity = 8, s_last_price = None,
     s_trade_quantity = None, s_mark_price = None\<rparr>"

definition sample_order :: Order where
  "sample_order = \<lparr>o_order_id = ''order-1'', o_signal_id = ''s1'', o_exchange = ''x'',
     o_symbol = ''BTC'', o_side = BUY, o_quantity = 4, o_order_type = MARKET,
     o_time_in_force = GTC, o_signal_at = 1000, o_created_at = 1000, o_submitted_at = 1000,
     o_limit_price = None, o_post_only = False, o_reduce_only = False, o_expires_at = None,
     o_stop_loss = None, o_take_profit = None, o_status = CREATED, o_remaining_quantity = 4,
     o_rejection_reason = None\<rparr>"

definition sample_sim :: ExecutionSimulator where
  "sample_sim = snd (submit sample_order
     (ExecutionSimulator_init [((''x'', ''BTC''), sample_rules)] None))"

lemma sample_sim_inv: "sim_inv sample_sim"
proof -
  have "order_inv sample_order" "\<not> terminal (o_status sample_order)"
    by (simp_all add: sample_order_def order_inv_def terminal_def)
  then show ?thesis
    unfolding sample_sim_def by (intro submit_inv [OF prod.collapse [symmetric] sim_inv_init])
qed

text \<open>
  C3. Every fill that matching a snapshot produces is justified: it is recorded, happens at the
  snapshot's time and strictly after the order's submission, belongs to a live order of the
  snapshot's instrument, is positive and within what remained of it, respects the order's limit
  price, and completes the order when it is fill-or-kill.
\<close>

theorem match_fills_sound:
  assumes "match_snapshot snap quantity_cap on_fill (sim, p) = (Inr fs, (sim', p'))" "sim_inv sim"
  shows "sim_fills sim' = sim_fills sim @ fs \<and>
    (\<forall>f \<in> set fs. f_filled_at f = s_timestamp snap \<and> f_submitted_at f < f_filled_at f \<and>
      (\<exists>ord \<in> set (dict_values (sim_orders sim)). o_order_id ord = f_order_id f \<and>
         \<not> terminal (o_status ord) \<and> o_exchange ord = s_exchange snap \<and>
         o_symbol ord = s_symbol snap \<and> 0 < f_quantity f \<and>
         f_quantity f \<le> o_remaining_quantity ord \<and> respects_limit ord (f_price f) \<and>
         (o_time_in_force ord = FOK \<longrightarrow> f_quantity f = o_remaining_quantity ord)))"
  using match_snapshot_sim [OF assms]
  by (fastforce simp: good_fill_def eligible_def fill_ok_def candidates_set)

lemmas sample_defs = sample_snapshot_def sample_rules_def sample_order_def sample_sim_def
  ExecutionSimulator_init_def default_config_def

lemma sample_match:
  "\<exists>fs sim'. match_snapshot sample_snapshot None None (sample_sim, ()) = (Inr fs, (sim', ())) \<and>
     map f_quantity fs = [2]"
  by (simp add: sample_defs match_snapshot_def submit_def admit_order_def quantise_limit_def
      quantize_quantity_def candidates_def dict_values_def match_one_def terminal_def expired_at_def
      filled_quantity_def validate_notional_def mid_def settle_order_def match_details_def
      is_marketable_def taker_details_def impact_bps_def quantize_execution_price_def
      execute_match_def make_fill_def Fill_post_init_def record_fill_def store_order_def dec_eval Let_def)

theorem match_fills_sound_witness:
  "\<exists>fs sim'. match_snapshot sample_snapshot None None (sample_sim, ()) = (Inr fs, (sim', ())) \<and>
     map f_quantity fs = [2] \<and> list_all (\<lambda>f. f_submitted_at f < f_filled_at f) fs"
  using sample_match match_fills_sound [OF _ sample_sim_inv] unfolding list_all_iff by metis

text \<open>
  Matching a snapshot keeps the simulator's invariant and the fill identifiers distinct, and
  leaves every order that was not eligible for the snapshot exactly as it was.
\<close>

theorem match_snapshot_invariant:
  assumes "match_snapshot snap quantity_cap on_fill (sim, p) = (Inr fs, (sim', p'))" "sim_inv sim"
  shows "sim_inv sim' \<and> distinct (map f_fill_id (sim_fills sim')) \<and>
    (\<forall>k ord. map_of (sim_orders sim) k = Some ord \<longrightarrow> \<not> eligible ord snap \<longrightarrow>
       map_of (sim_orders sim') k = Some ord)"
proof (intro conjI allI impI)
  note m = match_snapshot_sim [OF assms]
  show "sim_inv sim'" using m by blast
  then show "distinct (map f_fill_id (sim_fills sim'))"
    using fill_log_ok_distinct by (auto simp: sim_inv_def)
  fix k ord assume k: "map_of (sim_orders sim) k = Some ord" "\<not> eligible ord snap"
  have "\<not> eligible x snap" if "x \<in> set (candidates sim)" "o_order_id x = k" for x
  proof -
    have "(o_order_id x, x) \<in> set (sim_orders sim)"
      using that(1) assms(2)
      by (auto simp: candidates_set dict_values_def sim_inv_def list_all_iff)
    then have "map_of (sim_orders sim) (o_order_id x) = Some x"
      using assms(2) dict_in_set_iff [of "sim_orders sim"] by (simp add: sim_inv_def)
    then show ?thesis using k that(2) by simp
  qed
  then show "map_of (sim_orders sim') k = Some ord" using m k(1) by metis
qed

theorem match_snapshot_invariant_witness:
  "\<exists>fs sim'. match_snapshot sample_snapshot None None (sample_sim, ()) = (Inr fs, (sim', ())) \<and>
     map f_quantity fs = [2] \<and> sim_inv sim' \<and> distinct (map f_fill_id (sim_fills sim'))"
  using sample_match match_snapshot_invariant [OF _ sample_sim_inv] by metis

lemma impact_bps_nonneg:
  "config_ok c \<Longrightarrow> 0 < quantity \<Longrightarrow> 0 \<le> impact_bps c quantity depth"
  using dpow_pos [of "ddiv quantity depth" "nat (impact_power c)"]
  by (auto simp: impact_bps_def config_ok_def Let_def dec_sign)

text \<open>
  Costs are conservative: a taker never pays less than the ask nor receives more than the bid.
  Slippage and impact move the price against the order and rounding to the tick moves it no
  further than the (tick-aligned) touch.
\<close>

theorem taker_price_conservative:
  assumes "config_ok c" "rules_ok r" "snapshot_ok snap"
    "taker_details c ord snap r cap = Inr (Some m)"
    "(if o_side ord = BUY then s_ask snap else s_bid snap) = of_int k * tick_size r"
    "is_dec (of_int k)" "is_dec (of_int k * tick_size r)"
  shows "if o_side ord = BUY then s_ask snap \<le> m_price m else m_price m \<le> s_bid snap"
proof -
  let ?top = "if o_side ord = BUY then s_ask snap else s_bid snap"
  let ?depth = "if o_side ord = BUY then s_ask_quantity snap else s_bid_quantity snap"
  let ?q = "quantize_quantity r (min cap (quantize_quantity r (dmul ?depth (participation_rate c))))"
  let ?cost = "dadd (ddiv (slippage_bps c) 10000) (ddiv (impact_bps c ?q ?depth) 10000)"
  let ?raw = "dmul ?top (dadd 1 (dmul (if o_side ord = BUY then 1 else - 1) ?cost))"
  have q: "0 < ?q" and price: "quantize_execution_price r ?raw (o_side ord) = Inr (m_price m)"
    using assms(4) by (auto simp: taker_details_def Let_def split: if_splits)
  have cost: "0 \<le> ?cost"
    using assms(1) impact_bps_nonneg [OF assms(1) q, of ?depth] by (simp add: dec_sign config_ok_def)
  have top: "0 < ?top" "is_dec ?top"
    using assms(3) assms(7) [folded assms(5)] by (auto simp: snapshot_ok_def)
  have k: "0 \<le> k" using top(1) assms(2,5) by (simp add: zero_less_mult_iff rules_ok_def)
  have one: "is_dec 1" by (simp add: is_dec_def)
  have pos: "0 < ?raw" using price by (auto simp: quantize_execution_price_def split: if_splits)
  show ?thesis
  proof (cases "o_side ord")
    case BUY
    have "1 \<le> dadd 1 (dmul 1 ?cost)" using cost by (intro dadd_ge one) (simp add: dec_sign)
    then have "?top \<le> ?raw"
      using top BUY unfolding dmul_def [of ?top] by (intro d28.rnd_ge_fixed) (auto simp: is_dec_def)
    then show ?thesis
      using quantize_execution_price_BUY [OF assms(2) pos assms(6) k assms(7)] assms(5) price BUY by auto
  next
    case SELL
    have "dadd 1 (dmul (- 1) ?cost) \<le> 1"
      using cost by (intro dadd_le one) (simp add: dec_sign)
    then have "?raw \<le> ?top"
      using top SELL unfolding dmul_def [of ?top]
      by (intro d28.rnd_le_fixed) (auto simp: is_dec_def mult_left_le)
    then show ?thesis
      using quantize_execution_price_SELL [OF assms(2) pos assms(6,7)] assms(5) price SELL by auto
  qed
qed

theorem taker_price_conservative_witness:
  "\<exists>m. taker_details default_config sample_order sample_snapshot sample_rules 4 = Inr (Some m) \<and>
     s_ask sample_snapshot \<le> m_price m"
proof -
  obtain m where m: "taker_details default_config sample_order sample_snapshot sample_rules 4 = Inr (Some m)"
    by (simp add: sample_defs taker_details_def quantize_quantity_def impact_bps_def
        quantize_execution_price_def mid_def dec_eval Let_def)
  have "config_ok default_config" "rules_ok sample_rules" "snapshot_ok sample_snapshot"
    by (simp_all add: config_ok_def default_config_def rules_ok_def sample_defs snapshot_ok_def
        nonpositive_def)
  moreover have "(if o_side sample_order = BUY then s_ask sample_snapshot else s_bid sample_snapshot) =
      of_int 1010 * tick_size sample_rules"
    by (simp add: sample_defs)
  moreover have "is_dec (of_int 1010)" "is_dec (of_int 1010 * tick_size sample_rules)"
    by (simp_all add: is_dec_def sample_defs)
  ultimately have "s_ask sample_snapshot \<le> m_price m"
    using taker_price_conservative [OF _ _ _ m, of 1010] by (simp add: sample_order_def)
  then show ?thesis using m by blast
qed

text \<open>
  Submission: a duplicate identifier raises and changes nothing; otherwise exactly one order is
  stored under the given identifier, no fill is produced, the invariant is kept, and an order that
  is returned is either submitted with its positive quantised quantity entirely open, or rejected.
\<close>

theorem submit_correct:
  assumes "sim_inv sim" "order_inv ord" "\<not> terminal (o_status ord)"
  shows "case submit ord sim of (res, sim') \<Rightarrow>
    sim_inv sim' \<and> sim_fills sim' = sim_fills sim \<and>
    (if map_of (sim_orders sim) (o_order_id ord) \<noteq> None
     then res = Inl (ValueError (''duplicate order_id: '' @ o_order_id ord)) \<and> sim' = sim
     else \<exists>ord'. sim' = store_order ord' sim \<and> o_order_id ord' = o_order_id ord \<and>
       (\<forall>x. res = Inr x \<longrightarrow> x = ord' \<and>
          (o_status ord' = SUBMITTED \<and> is_dec (o_quantity ord') \<and> 0 < o_quantity ord' \<and>
             o_remaining_quantity ord' = o_quantity ord' \<or> o_status ord' = REJECTED)))"
proof (cases "map_of (sim_orders sim) (o_order_id ord)")
  case None
  obtain res sim' where s: "submit ord sim = (res, sim')" by fastforce
  have ids: "o_order_id (snd (admit_order rules q ord)) = o_order_id ord" for rules q
    by (auto simp: admit_order_def Let_def quantise_limit_def split: sum.splits option.splits)
  have adm: "fst (admit_order rules q ord) = Inr x \<Longrightarrow>
      x = snd (admit_order rules q ord) \<and> (o_status x = SUBMITTED \<and> o_quantity x = q \<and>
      o_remaining_quantity x = q \<or> o_status x = REJECTED)" for rules q x
    using assms(3)
    by (auto simp: admit_order_def Let_def quantise_limit_def reject_def split: sum.splits option.splits)
  have "\<exists>ord'. sim' = store_order ord' sim \<and> o_order_id ord' = o_order_id ord \<and>
       (\<forall>x. res = Inr x \<longrightarrow> x = ord' \<and>
          (o_status ord' = SUBMITTED \<and> is_dec (o_quantity ord') \<and> 0 < o_quantity ord' \<and>
             o_remaining_quantity ord' = o_quantity ord' \<or> o_status ord' = REJECTED))"
  proof (cases "map_of (sim_rules sim) (o_exchange ord, o_symbol ord)")
    case n: None
    then show ?thesis
      using s None assms(3)
      by (intro exI [of _ "reject ''instrument rules unavailable'' ord"])
         (auto simp: submit_def Let_def reject_def)
  next
    case (Some rules)
    let ?q = "quantize_quantity rules (o_quantity ord)"
    show ?thesis
    proof (cases "?q \<le> 0")
      case True
      then show ?thesis
        using s None Some assms(3)
        by (intro exI [of _ "reject ''quantity is below lot size'' ord"])
           (auto simp: submit_def Let_def reject_def)
    next
      case False
      then show ?thesis
        using s None Some ids [of rules ?q] adm [of rules ?q]
        by (intro exI [of _ "snd (admit_order rules ?q ord)"])
           (auto simp: submit_def Let_def split_beta)
    qed
  qed
  then show ?thesis using s submit_inv [OF s assms] None by auto
qed (use assms in \<open>auto simp: submit_def\<close>)

theorem submit_correct_witness:
  "\<exists>ord'. sample_sim = store_order ord' (ExecutionSimulator_init [((''x'', ''BTC''), sample_rules)] None) \<and>
     sim_inv sample_sim"
proof -
  have "order_inv sample_order" "\<not> terminal (o_status sample_order)"
    by (simp_all add: sample_order_def order_inv_def terminal_def)
  note submit_correct [OF sim_inv_init this,
      of "[((''x'', ''BTC''), sample_rules)]" None]
  then show ?thesis
    by (auto simp: sample_sim_def split_beta ExecutionSimulator_init_def split: if_splits)
qed

text \<open>
  An immediate-or-cancel order survives a snapshot when the caller's quantity cap is zero:
  \<open>match\<close> skips it before the branch that would cancel it, and it stays live.
\<close>

theorem ioc_survives_zero_cap:
  "\<exists>snap sim sim' k ord. sim_inv sim \<and> map_of (sim_orders sim) k = Some ord \<and>
     o_time_in_force ord = IOC \<and> eligible ord snap \<and>
     match_snapshot snap (Some (\<lambda>_ _. 0)) None (sim, ()) = (Inr [], (sim', ())) \<and>
     map_of (sim_orders sim') k = Some ord \<and> \<not> terminal (o_status ord)"
proof -
  let ?ord = "sample_order\<lparr>o_time_in_force := IOC\<rparr>"
  let ?sim = "snd (submit ?ord (ExecutionSimulator_init [((''x'', ''BTC''), sample_rules)] None))"
  have "order_inv ?ord" "\<not> terminal (o_status ?ord)"
    by (simp_all add: sample_order_def order_inv_def terminal_def)
  then have inv: "sim_inv ?sim" by (intro submit_inv [OF prod.collapse [symmetric] sim_inv_init])
  have sim: "sim_orders ?sim = [(''order-1'', ?ord\<lparr>o_status := SUBMITTED\<rparr>)]"
    "sim_rules ?sim = [((''x'', ''BTC''), sample_rules)]"
    by (simp_all add: sample_defs submit_def admit_order_def quantise_limit_def quantize_quantity_def
        store_order_def dec_eval Let_def)
  have "match_snapshot sample_snapshot (Some (\<lambda>_ _. 0)) None (?sim, ()) = (Inr [], (?sim, ()))"
    by (simp add: match_snapshot_def candidates_def dict_values_def sim match_one_def Let_def)
       (simp add: sample_defs terminal_def expired_at_def)
  then show ?thesis
    using inv sim by (intro exI [of _ sample_snapshot] exI [of _ ?sim] exI [of _ "''order-1''"])
      (auto simp: eligible_def sample_defs terminal_def)
qed

end
