(* ===== verification/Portfolio_Models.thy ===== *)
theory Portfolio_Models
  imports Execution_Models
begin

text \<open>
  \<open>src/app/domain/portfolio/models.py\<close>: a linear perpetual position with its average entry
  price, realised result and protective levels, and the records the ledger keeps. The
  quantity is signed: positive long, negative short.
\<close>

section \<open>Positions\<close>

record Position =
  p_exchange :: string
  p_symbol :: string
  p_quantity :: dec
  p_average_entry_price :: dec
  p_mark_price :: dec
  p_realized_pnl :: dec
  p_funding_pnl :: dec
  p_fees :: dec
  p_stop_loss :: "dec option"
  p_take_profit :: "dec option"
  p_opened_at :: "instant option"
  p_updated_at :: "instant option"

definition new_position :: "string \<Rightarrow> string \<Rightarrow> Position" where
  "new_position exchange symbol =
     \<lparr>p_exchange = exchange, p_symbol = symbol, p_quantity = 0, p_average_entry_price = 0,
      p_mark_price = 0, p_realized_pnl = 0, p_funding_pnl = 0, p_fees = 0, p_stop_loss = None,
      p_take_profit = None, p_opened_at = None, p_updated_at = None\<rparr>"

definition is_open :: "Position \<Rightarrow> bool" where
  "is_open pos \<longleftrightarrow> p_quantity pos \<noteq> 0"

definition position_unrealized_pnl :: "Position \<Rightarrow> dec" where
  "position_unrealized_pnl pos =
     (if \<not> is_open pos \<or> p_mark_price pos \<le> 0 then 0
      else dmul (p_quantity pos) (dsub (p_mark_price pos) (p_average_entry_price pos)))"

definition position_notional :: "Position \<Rightarrow> dec" where
  "position_notional pos =
     (if \<not> is_open pos \<or> p_mark_price pos \<le> 0 then 0
      else dmul (dabs (p_quantity pos)) (p_mark_price pos))"

definition fill_delta :: "Fill \<Rightarrow> dec" where
  "fill_delta f = (if f_side f = BUY then f_quantity f else dneg (f_quantity f))"

text \<open>The three branches of \<open>apply_fill\<close>: open, add to, or close (and possibly reverse).\<close>

definition trade_position :: "Fill \<Rightarrow> Position \<Rightarrow> dec \<times> Position" where
  "trade_position f pos =
     (let delta = fill_delta f; previous = p_quantity pos in
      if previous = 0 then
        (0, pos\<lparr>p_quantity := delta, p_average_entry_price := f_price f,
               p_opened_at := Some (f_filled_at f)\<rparr>)
      else if dmul previous delta > 0 then
        let total = dadd (dabs previous) (dabs delta) in
        (0, pos\<lparr>p_average_entry_price :=
                 ddiv (dadd (dmul (dabs previous) (p_average_entry_price pos))
                            (dmul (dabs delta) (f_price f))) total,
               p_quantity := dadd previous delta\<rparr>)
      else
        let closing_quantity = min (dabs previous) (dabs delta);
            direction = (if previous > 0 then 1 else - 1);
            realized = dmul (dmul closing_quantity (dsub (f_price f) (p_average_entry_price pos)))
                         direction;
            quantity = dadd previous delta
        in (realized,
            if quantity = 0 then
              pos\<lparr>p_quantity := quantity, p_average_entry_price := 0, p_stop_loss := None,
                  p_take_profit := None, p_opened_at := None\<rparr>
            else if dmul previous quantity < 0 then
              pos\<lparr>p_quantity := quantity, p_average_entry_price := f_price f,
                  p_opened_at := Some (f_filled_at f)\<rparr>
            else pos\<lparr>p_quantity := quantity\<rparr>))"

definition position_apply_fill :: "Fill \<Rightarrow> Position \<Rightarrow> dec \<times> Position" where
  "position_apply_fill f pos =
     (let (realized, pos1) = trade_position f pos
      in (realized,
          pos1\<lparr>p_mark_price := f_price f,
               p_realized_pnl := dadd (p_realized_pnl pos1) realized,
               p_fees := dadd (p_fees pos1) (f_fee f),
               p_updated_at := Some (f_filled_at f)\<rparr>))"

definition set_protection :: "dec option \<Rightarrow> dec option \<Rightarrow> Position \<Rightarrow> Position result" where
  "set_protection stop_loss take_profit pos =
     (if \<not> is_open pos then Inr pos
      else let reference = p_average_entry_price pos in
        bindE (raise_if
            (case stop_loss of None \<Rightarrow> False
             | Some s \<Rightarrow> \<not> (if p_quantity pos > 0 then s < reference else s > reference))
          (ValueError ''stop loss is on the non-protective side of entry'')) (\<lambda>_.
        bindE (raise_if
            (case take_profit of None \<Rightarrow> False
             | Some t \<Rightarrow> \<not> (if p_quantity pos > 0 then t > reference else t < reference))
          (ValueError ''take profit is on the non-profitable side of entry'')) (\<lambda>_.
        Inr (pos\<lparr>p_stop_loss := stop_loss, p_take_profit := take_profit\<rparr>))))"

datatype Trigger = Stop_loss | Take_profit

definition protection_trigger :: "MarketSnapshot \<Rightarrow> Position \<Rightarrow> Trigger option" where
  "protection_trigger snapshot pos =
     (if \<not> is_open pos then None
      else let executable = (if p_quantity pos > 0 then s_bid snapshot else s_ask snapshot) in
        if (case p_stop_loss pos of None \<Rightarrow> False
            | Some s \<Rightarrow> (p_quantity pos > 0 \<and> executable \<le> s) \<or>
                        (p_quantity pos < 0 \<and> executable \<ge> s)) then Some Stop_loss
        else if (case p_take_profit pos of None \<Rightarrow> False
            | Some t \<Rightarrow> (p_quantity pos > 0 \<and> executable \<ge> t) \<or>
                        (p_quantity pos < 0 \<and> executable \<le> t)) then Some Take_profit
        else None)"

section \<open>Ledger records\<close>

record FundingRecord =
  fr_exchange :: string
  fr_symbol :: string
  fr_timestamp :: instant
  fr_rate :: dec
  fr_mark_price :: dec
  fr_position_quantity :: dec
  fr_amount :: dec

record PortfolioSnapshot =
  ps_timestamp :: instant
  ps_cash :: dec
  ps_equity :: dec
  ps_unrealized_pnl :: dec
  ps_gross_exposure :: dec
  ps_net_exposure :: dec
  ps_margin_used :: dec
  ps_maintenance_margin :: dec
  ps_available_margin :: dec

record LiquidationDecision =
  ld_timestamp :: instant
  ld_equity :: dec
  ld_maintenance_margin :: dec
  ld_instruments :: "InstrumentKey list"

section \<open>The position invariant\<close>

text \<open>
  A flat position carries no entry price, no protection and no opening time; an open one has
  a positive entry price and an opening time. The quantity is a 28-digit decimal.
\<close>

definition position_inv :: "Position \<Rightarrow> bool" where
  "position_inv pos \<longleftrightarrow> is_dec (p_quantity pos) \<and>
     (if p_quantity pos = 0
      then p_average_entry_price pos = 0 \<and> p_stop_loss pos = None \<and> p_take_profit pos = None \<and>
           p_opened_at pos = None
      else 0 < p_average_entry_price pos \<and> p_opened_at pos \<noteq> None)"

lemma new_position_inv [simp]: "position_inv (new_position e s)"
  by (simp add: position_inv_def new_position_def)

lemma fill_delta_sign [dec_sign]:
  "0 < f_quantity f \<Longrightarrow> 0 < fill_delta f \<longleftrightarrow> f_side f = BUY"
  "0 < f_quantity f \<Longrightarrow> fill_delta f < 0 \<longleftrightarrow> f_side f = SELL"
  "0 < f_quantity f \<Longrightarrow> fill_delta f \<noteq> 0"
  by (cases "f_side f"; auto simp: fill_delta_def dec_sign)+

lemma is_dec_fill_delta: "is_dec (f_quantity f) \<Longrightarrow> is_dec (fill_delta f)"
  by (simp add: fill_delta_def)

lemma abs_fill_delta: "is_dec (f_quantity f) \<Longrightarrow> 0 < f_quantity f \<Longrightarrow> \<bar>fill_delta f\<bar> = f_quantity f"
  by (auto simp: fill_delta_def dneg_is_dec)

text \<open>The signed quantity after a fill is the rounded sum, whichever branch ran.\<close>

lemma trade_position_quantity:
  "is_dec (f_quantity f) \<Longrightarrow>
   p_quantity (snd (trade_position f pos)) = dadd (p_quantity pos) (fill_delta f)"
  using is_dec_fill_delta [of f]
  by (auto simp: trade_position_def Let_def dadd_def is_dec_def)

lemma average_entry_pos:
  assumes "0 < avg" "0 < price" "prev \<noteq> 0" "delta \<noteq> 0"
  shows "0 < ddiv (dadd (dmul (dabs prev) avg) (dmul (dabs delta) price)) (dadd (dabs prev) (dabs delta))"
proof -
  have "0 < dmul (dabs prev) avg" "0 < dmul (dabs delta) price" "0 < dabs prev" "0 < dabs delta"
    using assms by (simp_all add: dec_sign)
  then have "0 < dadd (dmul (dabs prev) avg) (dmul (dabs delta) price)" "0 < dadd (dabs prev) (dabs delta)"
    unfolding dadd_sign by simp_all
  then show ?thesis by (simp add: dec_sign divide_pos_pos)
qed

lemma trade_position_inv:
  assumes "position_inv pos" "is_dec (f_quantity f)" "0 < f_quantity f" "0 < f_price f"
  shows "position_inv (snd (trade_position f pos))"
proof -
  note d = is_dec_fill_delta [OF assms(2)] fill_delta_sign(3) [OF assms(3)]
  consider "p_quantity pos = 0" | "p_quantity pos \<noteq> 0" "0 < dmul (p_quantity pos) (fill_delta f)"
    | "p_quantity pos \<noteq> 0" "\<not> 0 < dmul (p_quantity pos) (fill_delta f)" by blast
  then show ?thesis
  proof cases
    case 1
    then show ?thesis using assms d by (simp add: trade_position_def position_inv_def Let_def)
  next
    case 2
    then have "0 < p_quantity pos * fill_delta f" by (simp add: dec_sign)
    then have "dadd (p_quantity pos) (fill_delta f) \<noteq> 0"
      by (auto simp: dec_sign zero_less_mult_iff)
    then show ?thesis
      using 2 assms d average_entry_pos [of "p_average_entry_price pos" "f_price f"]
      by (auto simp: trade_position_def position_inv_def Let_def)
  next
    case 3
    then show ?thesis using assms by (auto simp: trade_position_def position_inv_def Let_def)
  qed
qed

lemma position_apply_fill_inv [inv_intros]:
  assumes "position_inv pos" "is_dec (f_quantity f)" "0 < f_quantity f" "0 < f_price f"
  shows "position_inv (snd (position_apply_fill f pos))"
  using trade_position_inv [OF assms] by (simp add: position_apply_fill_def split_beta position_inv_def)

lemma position_apply_fill_simps:
  "p_quantity (snd (position_apply_fill f pos)) = p_quantity (snd (trade_position f pos))"
  "fst (position_apply_fill f pos) = fst (trade_position f pos)"
  "p_exchange (snd (position_apply_fill f pos)) = p_exchange pos"
  "p_symbol (snd (position_apply_fill f pos)) = p_symbol pos"
  "p_mark_price (snd (position_apply_fill f pos)) = f_price f"
  "p_average_entry_price (snd (position_apply_fill f pos)) =
     p_average_entry_price (snd (trade_position f pos))"
  "p_stop_loss (snd (position_apply_fill f pos)) = p_stop_loss (snd (trade_position f pos))"
  by (auto simp: position_apply_fill_def split_beta trade_position_def Let_def)

lemma set_protection_inv [inv_intros]:
  "position_inv pos \<Longrightarrow> set_protection sl tp pos = Inr pos' \<Longrightarrow> position_inv pos'"
  by (auto simp: set_protection_def position_inv_def is_open_def Let_def split: if_splits)

lemma set_protection_simps:
  "set_protection sl tp pos = Inr pos' \<Longrightarrow> p_quantity pos' = p_quantity pos \<and>
     p_exchange pos' = p_exchange pos \<and> p_symbol pos' = p_symbol pos"
  by (auto simp: set_protection_def Let_def split: if_splits)

section \<open>Properties of a position\<close>

text \<open>
  The intermediate results of a fill that the code would have to round: on the branch taken,
  each of them fits in 28 digits.
\<close>

definition exact_fill :: "Fill \<Rightarrow> Position \<Rightarrow> bool" where
  "exact_fill f pos \<longleftrightarrow>
     (let q = p_quantity pos; d = fill_delta f; a = p_average_entry_price pos; p = f_price f in
      is_dec (q + d) \<and>
      (if q * d > 0 then
         is_dec (\<bar>q\<bar> * a) \<and> is_dec (\<bar>d\<bar> * p) \<and> is_dec (\<bar>q\<bar> * a + \<bar>d\<bar> * p) \<and>
         is_dec (\<bar>q\<bar> + \<bar>d\<bar>) \<and> is_dec ((\<bar>q\<bar> * a + \<bar>d\<bar> * p) / (\<bar>q\<bar> + \<bar>d\<bar>))
       else is_dec (p - a) \<and> is_dec (min \<bar>q\<bar> \<bar>d\<bar> * (p - a))))"

lemma dec_exact:
  "is_dec (a + b) \<Longrightarrow> dadd a b = a + b" "is_dec (a - b) \<Longrightarrow> dsub a b = a - b"
  "is_dec (a * b) \<Longrightarrow> dmul a b = a * b" "is_dec (a / b) \<Longrightarrow> ddiv a b = a / b"
  by (simp_all add: dec_ops is_dec_def)

lemma trade_adds:
  assumes "0 < p_quantity pos * fill_delta f" "is_dec (p_quantity pos)" "is_dec (fill_delta f)"
    "exact_fill f pos"
  shows "trade_position f pos =
    (0, pos\<lparr>p_average_entry_price := (\<bar>p_quantity pos\<bar> * p_average_entry_price pos +
              \<bar>fill_delta f\<bar> * f_price f) / (\<bar>p_quantity pos\<bar> + \<bar>fill_delta f\<bar>),
           p_quantity := p_quantity pos + fill_delta f\<rparr>)"
proof -
  have nz: "p_quantity pos \<noteq> 0" "0 < dmul (p_quantity pos) (fill_delta f)"
    using assms(1) by (auto simp: dmul_sign)
  have e: "dmul \<bar>p_quantity pos\<bar> (p_average_entry_price pos) = \<bar>p_quantity pos\<bar> * p_average_entry_price pos"
    "dmul \<bar>fill_delta f\<bar> (f_price f) = \<bar>fill_delta f\<bar> * f_price f"
    "dadd (p_quantity pos) (fill_delta f) = p_quantity pos + fill_delta f"
    "dadd \<bar>p_quantity pos\<bar> \<bar>fill_delta f\<bar> = \<bar>p_quantity pos\<bar> + \<bar>fill_delta f\<bar>"
    using assms(1,4) by (simp_all add: exact_fill_def Let_def dec_exact)
  show ?thesis
    using nz assms unfolding trade_position_def Let_def dabs_is_dec [OF assms(2)] dabs_is_dec [OF assms(3)] e
    by (simp add: exact_fill_def Let_def dec_exact)
qed

lemma trade_closes:
  assumes "p_quantity pos * fill_delta f < 0" "is_dec (p_quantity pos)" "is_dec (fill_delta f)"
    "exact_fill f pos"
  shows "fst (trade_position f pos) = min \<bar>p_quantity pos\<bar> \<bar>fill_delta f\<bar> *
      (f_price f - p_average_entry_price pos) * sgn (p_quantity pos)"
    "p_quantity (snd (trade_position f pos)) = p_quantity pos + fill_delta f"
    "p_quantity pos + fill_delta f \<noteq> 0 \<Longrightarrow> p_average_entry_price (snd (trade_position f pos)) =
      (if p_quantity pos * (p_quantity pos + fill_delta f) < 0 then f_price f
       else p_average_entry_price pos)"
proof -
  have nz: "p_quantity pos \<noteq> 0" "\<not> 0 < p_quantity pos * fill_delta f" using assms(1) by auto
  have m: "is_dec (min \<bar>p_quantity pos\<bar> \<bar>fill_delta f\<bar> * (f_price f - p_average_entry_price pos))"
    "is_dec (f_price f - p_average_entry_price pos)" "is_dec (p_quantity pos + fill_delta f)"
    using assms(4) nz by (auto simp: exact_fill_def Let_def)
  then show "fst (trade_position f pos) = min \<bar>p_quantity pos\<bar> \<bar>fill_delta f\<bar> *
      (f_price f - p_average_entry_price pos) * sgn (p_quantity pos)"
    using nz assms(2,3) by (auto simp: trade_position_def Let_def dec_exact dabs_is_dec dec_sign sgn_if)
  show "p_quantity (snd (trade_position f pos)) = p_quantity pos + fill_delta f"
    using nz m by (auto simp: trade_position_def Let_def dec_exact dec_sign)
  show "p_quantity pos + fill_delta f \<noteq> 0 \<Longrightarrow> p_average_entry_price (snd (trade_position f pos)) =
      (if p_quantity pos * (p_quantity pos + fill_delta f) < 0 then f_price f
       else p_average_entry_price pos)"
    using nz m by (auto simp: trade_position_def Let_def dec_exact dec_sign)
qed

lemma close_value:
  fixes q d p a :: rat
  assumes "q * d < 0" "q + d = 0 \<Longrightarrow> v = 0"
    "q + d \<noteq> 0 \<Longrightarrow> v = (if q * (q + d) < 0 then 0 else (q + d) * (p - a))"
  shows "min \<bar>q\<bar> \<bar>d\<bar> * (p - a) * sgn q + v = q * (p - a)"
proof -
  consider "0 < q" "d < 0" | "q < 0" "0 < d" using assms(1) by (auto simp: mult_less_0_iff)
  then show ?thesis
  proof cases
    case 1
    then have "q * (q + d) < 0 \<longleftrightarrow> q + d < 0" by (simp add: mult_less_0_iff)
    then show ?thesis using assms(2,3) 1
      by (cases "q + d" "0::rat" rule: linorder_cases) (auto simp: min_def left_diff_distrib' algebra_simps)
  next
    case 2
    then have "q * (q + d) < 0 \<longleftrightarrow> 0 < q + d" by (simp add: mult_less_0_iff)
    then show ?thesis using assms(2,3) 2
      by (cases "q + d" "0::rat" rule: linorder_cases) (auto simp: min_def algebra_simps)
  qed
qed

text \<open>
  A fill neither creates nor destroys value at its own price. Whether it opens, adds to,
  reduces, closes or reverses the position, the realised result it returns plus the
  unrealised result of the new position at the fill price equals the unrealised result of the
  old position at that price, whenever the intermediate results fit in 28 digits.
\<close>

theorem fill_conserves_value:
  assumes "position_inv pos" "is_dec (f_quantity f)" "0 < f_quantity f" "exact_fill f pos"
    "position_apply_fill f pos = (realized, pos')"
  shows "realized + p_quantity pos' * (f_price f - p_average_entry_price pos') =
         p_quantity pos * (f_price f - p_average_entry_price pos)"
proof -
  let ?q = "p_quantity pos" and ?d = "fill_delta f" and ?t = "trade_position f pos"
  have dec: "is_dec ?q" "is_dec ?d" "?d \<noteq> 0"
    using assms(1) is_dec_fill_delta [OF assms(2)] fill_delta_sign(3) [OF assms(3)]
    by (simp_all add: position_inv_def)
  have "fst ?t + p_quantity (snd ?t) * (f_price f - p_average_entry_price (snd ?t)) =
      ?q * (f_price f - p_average_entry_price pos)"
  proof (cases "?q * ?d" "0::rat" rule: linorder_cases)
    case less
    show ?thesis
      unfolding trade_closes(1) [OF less dec(1,2) assms(4)]
      by (rule close_value [OF less]) (auto simp: trade_closes(2,3) [OF less dec(1,2) assms(4)])
  next
    case equal
    then show ?thesis using dec by (auto simp: trade_position_def Let_def)
  next
    case greater
    then have "?q + ?d \<noteq> 0" "\<bar>?q\<bar> + \<bar>?d\<bar> \<noteq> 0" by (auto simp: zero_less_mult_iff)
    moreover have "0 < ?q \<and> 0 < ?d \<or> ?q < 0 \<and> ?d < 0" using greater by (auto simp: zero_less_mult_iff)
    ultimately show ?thesis
      unfolding trade_adds [OF greater dec(1,2) assms(4)] by (auto simp: field_simps)
  qed
  then show ?thesis
    using position_apply_fill_simps(1,2,6) [of f pos] assms(5) by simp
qed

text \<open>A long position of two bought at 100, and a sale of three at 110 that reverses it.\<close>

definition sample_position :: Position where
  "sample_position = (new_position ''x'' ''BTC'')\<lparr>p_quantity := 2, p_average_entry_price := 100,
     p_mark_price := 100, p_stop_loss := Some 90, p_take_profit := Some 120,
     p_opened_at := Some 0, p_updated_at := Some 0\<rparr>"

definition sample_fill :: "string \<Rightarrow> Side \<Rightarrow> dec \<Rightarrow> dec \<Rightarrow> Fill" where
  "sample_fill fid side quantity price =
     \<lparr>f_fill_id = fid, f_order_id = ''o1'', f_signal_id = ''s1'', f_exchange = ''x'',
      f_symbol = ''BTC'', f_side = side, f_quantity = quantity, f_price = price,
      f_liquidity = TAKER, f_signal_at = 0, f_order_created_at = 0, f_submitted_at = 0,
      f_filled_at = 10, f_fee = 1, f_spread_cost = 0, f_slippage_cost = 0,
      f_market_impact_cost = 0\<rparr>"

lemmas sample_position_defs = sample_position_def new_position_def sample_fill_def

theorem fill_conserves_value_witness:
  "\<exists>pos'. position_apply_fill (sample_fill ''f1'' SELL 3 110) sample_position = (20, pos') \<and>
     p_quantity pos' = - 1 \<and> 20 + p_quantity pos' * (110 - p_average_entry_price pos') = 2 * (110 - 100)"
proof -
  let ?f = "sample_fill ''f1'' SELL 3 110"
  obtain pos' where pos': "position_apply_fill ?f sample_position = (20, pos')" "p_quantity pos' = - 1"
    by (simp add: position_apply_fill_def trade_position_def fill_delta_def sample_position_defs
        dec_eval Let_def)
  have "position_inv sample_position" "is_dec (f_quantity ?f)" "0 < f_quantity ?f" "exact_fill ?f sample_position"
    by (simp_all add: position_inv_def sample_position_defs is_dec_def exact_fill_def fill_delta_def
        dec_eval Let_def)
  from fill_conserves_value [OF this pos'(1)] pos' show ?thesis
    by (simp add: sample_position_defs)
qed

text \<open>
  The quantity of a position after a fill is the (rounded) signed sum, and the position
  invariant survives every fill: a flat position has no entry price, protection or opening
  time, an open one has a positive entry price.
\<close>

theorem position_fill_correct:
  assumes "position_inv pos" "is_dec (f_quantity f)" "0 < f_quantity f" "0 < f_price f"
    "position_apply_fill f pos = (realized, pos')"
  shows "position_inv pos' \<and> p_quantity pos' = dadd (p_quantity pos) (fill_delta f) \<and>
    p_mark_price pos' = f_price f \<and> p_realized_pnl pos' = dadd (p_realized_pnl pos) realized \<and>
    p_fees pos' = dadd (p_fees pos) (f_fee f) \<and>
    (p_quantity pos * fill_delta f \<ge> 0 \<longrightarrow> realized = 0)"
proof -
  have "p_realized_pnl (snd (trade_position f pos)) = p_realized_pnl pos"
    "p_fees (snd (trade_position f pos)) = p_fees pos"
    by (auto simp: trade_position_def Let_def)
  then have "p_realized_pnl pos' = dadd (p_realized_pnl pos) realized" "p_fees pos' = dadd (p_fees pos) (f_fee f)"
    using assms(5) by (auto simp: position_apply_fill_def split_beta)
  moreover have "realized = 0" if "p_quantity pos * fill_delta f \<ge> 0"
    using that assms(5) fill_delta_sign(3) [OF assms(3)] position_apply_fill_simps(2) [of f pos]
    by (auto simp: trade_position_def Let_def dec_sign)
  ultimately show ?thesis
    using position_apply_fill_inv [OF assms(1-4)] position_apply_fill_simps(1,5) [of f pos] assms(5)
      trade_position_quantity [OF assms(2), of pos] by simp
qed

theorem position_fill_correct_witness:
  "\<exists>pos'. position_apply_fill (sample_fill ''f1'' SELL 2 110) sample_position = (20, pos') \<and>
     position_inv pos' \<and> p_quantity pos' = 0"
proof -
  let ?f = "sample_fill ''f1'' SELL 2 110"
  obtain pos' where pos': "position_apply_fill ?f sample_position = (20, pos')"
    by (simp add: position_apply_fill_def trade_position_def fill_delta_def sample_position_defs
        dec_eval Let_def)
  have "position_inv sample_position" "is_dec (f_quantity ?f)" "0 < f_quantity ?f" "0 < f_price ?f"
    by (simp_all add: position_inv_def sample_position_defs is_dec_def)
  from position_fill_correct [OF this pos'] pos' show ?thesis
    by (simp add: sample_position_defs fill_delta_def dec_eval)
qed

text \<open>
  Protective levels accepted by \<open>set_protection\<close> are consistent with the entry price: as
  long as the position is unchanged, a stop-loss trigger means the executable price is on the
  losing side of the entry and a take-profit trigger means it is on the winning side.
\<close>

theorem protection_sides:
  assumes "set_protection sl tp pos = Inr pos'" "is_open pos"
    "protection_trigger snap pos' = Some t"
  shows "let gain = p_quantity pos *
       ((if p_quantity pos > 0 then s_bid snap else s_ask snap) - p_average_entry_price pos)
     in if t = Stop_loss then gain < 0 else gain > 0"
proof -
  have pos': "pos' = pos\<lparr>p_stop_loss := sl, p_take_profit := tp\<rparr>"
    and sides: "\<And>s. sl = Some s \<Longrightarrow>
        if p_quantity pos > 0 then s < p_average_entry_price pos else s > p_average_entry_price pos"
      "\<And>x. tp = Some x \<Longrightarrow>
        if p_quantity pos > 0 then x > p_average_entry_price pos else x < p_average_entry_price pos"
    using assms(1,2) by (auto simp: set_protection_def Let_def)
  consider "0 < p_quantity pos" | "p_quantity pos < 0"
    using assms(2) linorder_less_linear by (auto simp: is_open_def)
  then show ?thesis
  proof cases
    case 1
    then show ?thesis using assms(3) sides
      by (fastforce simp: protection_trigger_def pos' Let_def zero_less_mult_iff mult_less_0_iff
          split: if_splits option.splits)
  next
    case 2
    then show ?thesis using assms(3) sides
      by (fastforce simp: protection_trigger_def pos' Let_def zero_less_mult_iff mult_less_0_iff
          split: if_splits option.splits)
  qed
qed

theorem protection_sides_witness:
  "\<exists>pos'. set_protection (Some 95) (Some 105) sample_position = Inr pos' \<and>
     (let snap = \<lparr>s_exchange = ''x'', s_symbol = ''BTC'', s_timestamp = 5, s_bid = 94, s_ask = 96,
        s_bid_quantity = 1, s_ask_quantity = 1, s_last_price = None, s_trade_quantity = None,
        s_mark_price = None\<rparr>
      in protection_trigger snap pos' = Some Stop_loss \<and> 2 * (s_bid snap - 100) < (0::rat))"
proof -
  let ?snap = "\<lparr>s_exchange = ''x'', s_symbol = ''BTC'', s_timestamp = 5, s_bid = 94, s_ask = 96,
     s_bid_quantity = 1, s_ask_quantity = 1, s_last_price = None, s_trade_quantity = None,
     s_mark_price = None\<rparr>"
  obtain pos' where pos': "set_protection (Some 95) (Some 105) sample_position = Inr pos'"
      "protection_trigger ?snap pos' = Some Stop_loss"
    by (simp add: set_protection_def is_open_def protection_trigger_def sample_position_defs Let_def)
  have "is_open sample_position" by (simp add: is_open_def sample_position_defs)
  from protection_sides [OF pos'(1) this pos'(2)] pos' show ?thesis
    by (simp add: sample_position_defs Let_def)
qed

text \<open>
  A fill that reverses a position keeps the old protective levels: \<open>apply_fill\<close> clears them
  only when the position becomes flat. There is a long position with a valid stop, and a sale
  that turns it short, after which the inherited stop is below the new entry and triggers at
  once although the short position has lost nothing.
\<close>

theorem reversal_keeps_stale_stop:
  "\<exists>pos f snap realized pos'. position_inv pos \<and> 0 < p_quantity pos \<and>
     set_protection (p_stop_loss pos) (p_take_profit pos) pos = Inr pos \<and>
     position_apply_fill f pos = (realized, pos') \<and> p_quantity pos' < 0 \<and>
     p_stop_loss pos' = p_stop_loss pos \<and> s_ask snap = p_average_entry_price pos' \<and>
     protection_trigger snap pos' = Some Stop_loss"
proof -
  let ?f = "sample_fill ''f1'' SELL 3 110"
  let ?snap = "\<lparr>s_exchange = ''x'', s_symbol = ''BTC'', s_timestamp = 20, s_bid = 109, s_ask = 110,
     s_bid_quantity = 1, s_ask_quantity = 1, s_last_price = None, s_trade_quantity = None,
     s_mark_price = None\<rparr>"
  have "position_inv sample_position"
    by (simp add: position_inv_def sample_position_defs is_dec_def)
  moreover have "set_protection (p_stop_loss sample_position) (p_take_profit sample_position)
      sample_position = Inr sample_position"
    by (simp add: set_protection_def is_open_def sample_position_defs Let_def)
  moreover have "\<exists>realized pos'. position_apply_fill ?f sample_position = (realized, pos') \<and>
      p_quantity pos' < 0 \<and> p_stop_loss pos' = p_stop_loss sample_position \<and>
      110 = p_average_entry_price pos' \<and> protection_trigger ?snap pos' = Some Stop_loss"
    by (simp add: position_apply_fill_def trade_position_def fill_delta_def protection_trigger_def
        is_open_def sample_position_defs dec_eval Let_def)
  moreover have "0 < p_quantity sample_position" by (simp add: sample_position_defs)
  ultimately show ?thesis
    by (intro exI [of _ sample_position] exI [of _ ?f] exI [of _ ?snap]) simp
qed

end
