(* ===== verification/Portfolio_Ledger.thy ===== *)
theory Portfolio_Ledger
  imports Portfolio_Models
begin

text \<open>
  \<open>src/app/domain/portfolio/ledger.py\<close>: cash, positions, margin, funding and liquidation
  accounting. Every method is a function on the \<open>PortfolioLedger\<close> record; a method that may
  raise returns the ledger it leaves behind beside the sum.
\<close>

section \<open>State\<close>

record PortfolioLedger =
  l_initial_cash :: dec
  l_cash :: dec
  l_leverage :: dec
  l_rules :: "(InstrumentKey, InstrumentRules) dict"
  l_positions :: "(InstrumentKey, Position) dict"
  l_fills :: "Fill list"
  l_funding_records :: "FundingRecord list"
  l_snapshots :: "PortfolioSnapshot list"
  l_processed_fill_ids :: "string set"

definition PortfolioLedger_init ::
  "dec \<Rightarrow> (InstrumentKey, InstrumentRules) dict \<Rightarrow> dec \<Rightarrow> PortfolioLedger result" where
  "PortfolioLedger_init initial_cash rules leverage =
     bindE (raise_if (initial_cash \<le> 0) (ValueError ''initial_cash must be positive'')) (\<lambda>_.
     bindE (raise_if (leverage \<le> 0) (ValueError ''leverage must be positive'')) (\<lambda>_.
     Inr \<lparr>l_initial_cash = initial_cash, l_cash = initial_cash, l_leverage = leverage,
          l_rules = rules, l_positions = [], l_fills = [], l_funding_records = [],
          l_snapshots = [], l_processed_fill_ids = {}\<rparr>))"

definition set_position :: "InstrumentKey \<Rightarrow> Position \<Rightarrow> PortfolioLedger \<Rightarrow> PortfolioLedger" where
  "set_position key pos l = l\<lparr>l_positions := dict_set key pos (l_positions l)\<rparr>"

text \<open>\<open>position\<close> registers an empty position for an instrument that has none.\<close>

definition position :: "string \<Rightarrow> string \<Rightarrow> PortfolioLedger \<Rightarrow> Position \<times> PortfolioLedger" where
  "position exchange symbol l =
     (let key = (exchange, symbol) in
      case map_of (l_positions l) key of
        Some pos \<Rightarrow> (pos, l)
      | None \<Rightarrow> let pos = new_position exchange symbol in (pos, set_position key pos l))"

section \<open>Valuation\<close>

definition unrealized_pnl :: "PortfolioLedger \<Rightarrow> dec" where
  "unrealized_pnl l = dsum (map position_unrealized_pnl (dict_values (l_positions l)))"

definition equity :: "PortfolioLedger \<Rightarrow> dec" where
  "equity l = dadd (l_cash l) (unrealized_pnl l)"

definition gross_exposure :: "PortfolioLedger \<Rightarrow> dec" where
  "gross_exposure l = dsum (map position_notional (dict_values (l_positions l)))"

definition net_exposure :: "PortfolioLedger \<Rightarrow> dec" where
  "net_exposure l =
     dsum (map (\<lambda>pos. dmul (p_quantity pos) (p_mark_price pos)) (dict_values (l_positions l)))"

definition margin_used :: "PortfolioLedger \<Rightarrow> dec" where
  "margin_used l = ddiv (gross_exposure l) (l_leverage l)"

definition maintenance_margin :: "PortfolioLedger \<Rightarrow> dec" where
  "maintenance_margin l =
     dsum (concat (map (\<lambda>(key, pos).
       case map_of (l_rules l) key of
         None \<Rightarrow> []
       | Some rules \<Rightarrow> [dmul (position_notional pos) (maintenance_margin_rate rules)])
       (l_positions l)))"

definition available_margin :: "PortfolioLedger \<Rightarrow> dec" where
  "available_margin l = max 0 (dsub (equity l) (margin_used l))"

section \<open>Fills\<close>

definition reduces :: "Side \<Rightarrow> Position \<Rightarrow> bool" where
  "reduces side pos \<longleftrightarrow>
     (p_quantity pos > 0 \<and> side = SELL) \<or> (p_quantity pos < 0 \<and> side = BUY)"

definition check_reduce_only :: "Fill \<Rightarrow> Position \<Rightarrow> unit result" where
  "check_reduce_only fill pos =
     bindE (raise_if (\<not> is_open pos) (ValueError ''reduce-only fill has no open position'')) (\<lambda>_.
     raise_if (\<not> reduces (f_side fill) pos \<or> f_quantity fill > dabs (p_quantity pos))
       (ValueError ''reduce-only fill would increase or reverse a position''))"

text \<open>
  The fill and its protection on one position. The code runs it twice, on a copy to validate
  and then on the position itself; being a function, both runs agree.
\<close>

definition fill_and_protect ::
  "Fill \<Rightarrow> dec option \<Rightarrow> dec option \<Rightarrow> Position \<Rightarrow> (dec \<times> Position) result" where
  "fill_and_protect fill stop_loss take_profit pos =
     (let (realized, candidate) = position_apply_fill fill pos in
      if is_open candidate \<and> (stop_loss \<noteq> None \<or> take_profit \<noteq> None)
      then bindE (set_protection stop_loss take_profit candidate) (\<lambda>p. Inr (realized, p))
      else Inr (realized, candidate))"

definition ledger_apply_fill ::
  "Fill \<Rightarrow> bool \<Rightarrow> dec option \<Rightarrow> dec option \<Rightarrow> PortfolioLedger \<Rightarrow>
   (dec, PortfolioLedger) outcome" where
  "ledger_apply_fill fill reduce_only stop_loss take_profit l =
     (if f_fill_id fill \<in> l_processed_fill_ids l
      then (Inl (DuplicateFillError (''duplicate fill: '' @ f_fill_id fill)), l)
      else let (pos, l1) = position (f_exchange fill) (f_symbol fill) l in
        case bindE (if reduce_only then check_reduce_only fill pos else Inr ())
               (\<lambda>_. fill_and_protect fill stop_loss take_profit pos) of
          Inl e \<Rightarrow> (Inl e, l1)
        | Inr (realized, pos') \<Rightarrow>
            let l2 = set_position (f_exchange fill, f_symbol fill) pos' l1
            in (Inr realized,
                l2\<lparr>l_cash := dadd (l_cash l2) (dsub realized (f_fee fill)),
                   l_processed_fill_ids := insert (f_fill_id fill) (l_processed_fill_ids l2),
                   l_fills := l_fills l2 @ [fill]\<rparr>))"

section \<open>Marking, funding, limits and liquidation\<close>

definition mark :: "MarketSnapshot \<Rightarrow> PortfolioLedger \<Rightarrow> PortfolioLedger" where
  "mark snapshot l =
     (let key = (s_exchange snapshot, s_symbol snapshot) in
      case map_of (l_positions l) key of
        None \<Rightarrow> l
      | Some pos \<Rightarrow>
          if is_open pos
          then set_position key (pos\<lparr>p_mark_price := valuation_price snapshot,
                                     p_updated_at := Some (s_timestamp snapshot)\<rparr>) l
          else l)"

definition funding_amount :: "dec \<Rightarrow> dec \<Rightarrow> dec \<Rightarrow> dec" where
  "funding_amount quantity mark_price rate = dneg (dmul (dmul quantity mark_price) rate)"

definition apply_funding ::
  "string \<Rightarrow> string \<Rightarrow> datetime \<Rightarrow> dec \<Rightarrow> dec \<Rightarrow> PortfolioLedger \<Rightarrow>
   (FundingRecord option, PortfolioLedger) outcome" where
  "apply_funding exchange symbol timestamp rate mark_price l =
     (case as_utc ''funding timestamp must be timezone-aware'' timestamp of
        Inl e \<Rightarrow> (Inl e, l)
      | Inr utc \<Rightarrow>
          if mark_price \<le> 0 then (Inl (ValueError ''funding mark price must be positive''), l)
          else case map_of (l_positions l) (exchange, symbol) of
            None \<Rightarrow> (Inr None, l)
          | Some pos \<Rightarrow>
              if \<not> is_open pos then (Inr None, l)
              else let amount = funding_amount (p_quantity pos) mark_price rate;
                       l1 = set_position (exchange, symbol)
                              (pos\<lparr>p_funding_pnl := dadd (p_funding_pnl pos) amount\<rparr>)
                              (l\<lparr>l_cash := dadd (l_cash l) amount\<rparr>);
                       rec = \<lparr>fr_exchange = exchange, fr_symbol = symbol, fr_timestamp = utc,
                              fr_rate = rate, fr_mark_price = mark_price,
                              fr_position_quantity = p_quantity pos, fr_amount = amount\<rparr>
                   in (Inr (Some rec), l1\<lparr>l_funding_records := l_funding_records l1 @ [rec]\<rparr>))"

definition current_quantity :: "InstrumentKey \<Rightarrow> PortfolioLedger \<Rightarrow> dec" where
  "current_quantity key l = (case map_of (l_positions l) key of Some pos \<Rightarrow> p_quantity pos | None \<Rightarrow> 0)"

definition maximum_fill_quantity :: "Order \<Rightarrow> dec \<Rightarrow> PortfolioLedger \<Rightarrow> dec" where
  "maximum_fill_quantity ord price l =
     (if price \<le> 0 then 0
      else let current = current_quantity (o_exchange ord, o_symbol ord) l;
               side_reduces = (current > 0 \<and> o_side ord = SELL) \<or> (current < 0 \<and> o_side ord = BUY);
               closing_capacity = (if side_reduces then dabs current else 0)
      in if o_reduce_only ord then min (o_remaining_quantity ord) closing_capacity
      else let fee_rate = (case map_of (l_rules l) (o_exchange ord, o_symbol ord) of
                   Some rules \<Rightarrow> taker_fee_rate rules | None \<Rightarrow> 0);
               per_unit = dadd (ddiv price (l_leverage l)) (dmul price fee_rate);
               opening_capacity = (if per_unit > 0 then ddiv (available_margin l) per_unit else 0)
      in min (o_remaining_quantity ord) (dadd closing_capacity opening_capacity))"

definition open_keys :: "PortfolioLedger \<Rightarrow> InstrumentKey list" where
  "open_keys l = sort (map fst (filter (\<lambda>(key, pos). is_open pos) (l_positions l)))"

definition liquidation_decision :: "instant \<Rightarrow> PortfolioLedger \<Rightarrow> LiquidationDecision option" where
  "liquidation_decision timestamp l =
     (if open_keys l = [] \<or> equity l > maintenance_margin l then None
      else Some \<lparr>ld_timestamp = timestamp, ld_equity = equity l,
                 ld_maintenance_margin = maintenance_margin l, ld_instruments = open_keys l\<rparr>)"

definition capture :: "instant \<Rightarrow> PortfolioLedger \<Rightarrow> PortfolioSnapshot \<times> PortfolioLedger" where
  "capture timestamp l =
     (let snapshot = \<lparr>ps_timestamp = timestamp, ps_cash = l_cash l, ps_equity = equity l,
            ps_unrealized_pnl = unrealized_pnl l, ps_gross_exposure = gross_exposure l,
            ps_net_exposure = net_exposure l, ps_margin_used = margin_used l,
            ps_maintenance_margin = maintenance_margin l,
            ps_available_margin = available_margin l\<rparr>
      in (snapshot, l\<lparr>l_snapshots := l_snapshots l @ [snapshot]\<rparr>))"

section \<open>The ledger's invariant\<close>

text \<open>
  The accounts are reconstructible: the quantity and the fees of every position are the
  (rounded) running sums over the recorded fills of its instrument, its funding result is the
  running sum over the funding records, and the processed identifiers are exactly those of the
  recorded fills, each recorded once.
\<close>

definition fill_key :: "Fill \<Rightarrow> InstrumentKey" where
  "fill_key f = (f_exchange f, f_symbol f)"

definition fills_of :: "InstrumentKey \<Rightarrow> PortfolioLedger \<Rightarrow> Fill list" where
  "fills_of key l = filter (\<lambda>f. fill_key f = key) (l_fills l)"

definition funding_of :: "InstrumentKey \<Rightarrow> PortfolioLedger \<Rightarrow> FundingRecord list" where
  "funding_of key l = filter (\<lambda>r. (fr_exchange r, fr_symbol r) = key) (l_funding_records l)"

definition account_ok :: "PortfolioLedger \<Rightarrow> InstrumentKey \<Rightarrow> Position \<Rightarrow> bool" where
  "account_ok l key pos \<longleftrightarrow> key = (p_exchange pos, p_symbol pos) \<and> position_inv pos \<and>
     0 \<le> p_mark_price pos \<and>
     p_quantity pos = dsum (map fill_delta (fills_of key l)) \<and>
     p_fees pos = dsum (map f_fee (fills_of key l)) \<and>
     p_funding_pnl pos = dsum (map fr_amount (funding_of key l))"

definition ledger_inv :: "PortfolioLedger \<Rightarrow> bool" where
  "ledger_inv l \<longleftrightarrow> dict_ok (l_positions l) \<and> 0 < l_leverage l \<and>
     (\<forall>(key, pos) \<in> set (l_positions l). account_ok l key pos) \<and>
     (\<forall>f \<in> set (l_fills l). fill_key f \<in> fst ` set (l_positions l)) \<and>
     (\<forall>r \<in> set (l_funding_records l). (fr_exchange r, fr_symbol r) \<in> fst ` set (l_positions l)) \<and>
     l_processed_fill_ids l = f_fill_id ` set (l_fills l) \<and> distinct (map f_fill_id (l_fills l))"

lemma ledger_inv_init:
  "PortfolioLedger_init cash rules leverage = Inr l \<Longrightarrow> ledger_inv l"
  by (auto simp: PortfolioLedger_init_def ledger_inv_def)

lemma set_position_simps [simp]:
  "l_positions (set_position k p l) = dict_set k p (l_positions l)"
  "l_cash (set_position k p l) = l_cash l" "l_fills (set_position k p l) = l_fills l"
  "l_leverage (set_position k p l) = l_leverage l" "l_rules (set_position k p l) = l_rules l"
  "l_funding_records (set_position k p l) = l_funding_records l"
  "l_snapshots (set_position k p l) = l_snapshots l"
  "l_processed_fill_ids (set_position k p l) = l_processed_fill_ids l"
  "l_initial_cash (set_position k p l) = l_initial_cash l"
  "fills_of k' (set_position k p l) = fills_of k' l"
  "funding_of k' (set_position k p l) = funding_of k' l"
  by (simp_all add: set_position_def fills_of_def funding_of_def)

lemma account_ok_set [simp]: "account_ok (set_position k p l) = account_ok l"
  by (simp add: fun_eq_iff account_ok_def)

text \<open>
  The recurring step: one account is rewritten, the rest of the ledger may have grown by
  entries of that instrument only.
\<close>

lemma ledger_inv_rewrite:
  assumes "ledger_inv l" "account_ok l' key pos"
    "l_positions l' = dict_set key pos (l_positions l)" "l_leverage l' = l_leverage l"
    "\<And>k. k \<noteq> key \<Longrightarrow> fills_of k l' = fills_of k l" "\<And>k. k \<noteq> key \<Longrightarrow> funding_of k l' = funding_of k l"
    "l_processed_fill_ids l' = f_fill_id ` set (l_fills l')" "distinct (map f_fill_id (l_fills l'))"
  shows "ledger_inv l'"
proof -
  have ok: "dict_ok (l_positions l)" using assms(1) by (simp add: ledger_inv_def)
  have "account_ok l' k p" if "(k, p) \<in> set (l_positions l')" for k p
    using that assms(1,2,5,6) dict_set_mem_iff [OF ok, of k p key pos]
    unfolding assms(3) by (cases "k = key") (auto simp: ledger_inv_def account_ok_def)
  moreover have "fill_key f \<in> insert key (fst ` set (l_positions l))" if "f \<in> set (l_fills l')" for f
  proof (cases "fill_key f = key")
    case False
    then have "f \<in> set (fills_of (fill_key f) l)"
      using that assms(5) [OF False, symmetric] by (simp add: fills_of_def)
    then show ?thesis using assms(1) by (auto simp: fills_of_def ledger_inv_def)
  qed simp
  moreover have "(fr_exchange r, fr_symbol r) \<in> insert key (fst ` set (l_positions l))"
    if "r \<in> set (l_funding_records l')" for r
  proof (cases "(fr_exchange r, fr_symbol r) = key")
    case False
    then have "r \<in> set (funding_of (fr_exchange r, fr_symbol r) l)"
      using that assms(6) [OF False, symmetric] by (simp add: funding_of_def)
    then show ?thesis using assms(1) by (auto simp: funding_of_def ledger_inv_def)
  qed simp
  ultimately show ?thesis
    using assms ok unfolding ledger_inv_def by (auto simp: dict_keys_set)
qed

lemma ledger_inv_set_position:
  "ledger_inv l \<Longrightarrow> account_ok l key pos \<Longrightarrow> ledger_inv (set_position key pos l)"
  by (rule ledger_inv_rewrite [of l _ key pos]) (auto simp: ledger_inv_def)

lemma ledger_inv_account: "ledger_inv l \<Longrightarrow> map_of (l_positions l) k = Some pos \<Longrightarrow> account_ok l k pos"
  using map_of_SomeD [of "l_positions l" k pos] by (auto simp: ledger_inv_def)

lemma current_quantity_dec: "ledger_inv l \<Longrightarrow> is_dec (current_quantity k l)"
  using ledger_inv_account [of l k]
  by (auto simp: current_quantity_def account_ok_def split: option.splits)

lemma account_ok_new:
  assumes "ledger_inv l" "map_of (l_positions l) (e, s) = None"
  shows "account_ok l (e, s) (new_position e s)"
proof -
  have none: "(e, s) \<notin> fst ` set (l_positions l)" using assms(2) by (simp add: map_of_eq_None_iff)
  have "fills_of (e, s) l = []" "funding_of (e, s) l = []"
    unfolding fills_of_def funding_of_def filter_empty_conv
    using assms(1) none unfolding ledger_inv_def by metis+
  then show ?thesis by (simp add: account_ok_def) (simp add: new_position_def)
qed

lemma current_quantity_sum:
  assumes "ledger_inv l" shows "current_quantity key l = dsum (map fill_delta (fills_of key l))"
proof (cases "map_of (l_positions l) key")
  case None
  then have "account_ok l key (new_position (fst key) (snd key))"
    using account_ok_new [OF assms, of "fst key" "snd key"] by simp
  then show ?thesis using None by (simp add: current_quantity_def account_ok_def new_position_def)
next
  case (Some pos)
  then show ?thesis using ledger_inv_account [OF assms Some] by (simp add: current_quantity_def account_ok_def)
qed

lemma position_correct:
  assumes "ledger_inv l" "position e s l = (pos, l')"
  shows "ledger_inv l' \<and> account_ok l' (e, s) pos \<and> map_of (l_positions l') (e, s) = Some pos \<and>
    p_quantity pos = current_quantity (e, s) l \<and>
    l' = l\<lparr>l_positions := l_positions l'\<rparr> \<and>
    (\<forall>k. k \<noteq> (e, s) \<longrightarrow> map_of (l_positions l') k = map_of (l_positions l) k)"
proof (cases "map_of (l_positions l) (e, s)")
  case None
  then have "pos = new_position e s" "l' = set_position (e, s) pos l"
    using assms(2) by (auto simp: position_def Let_def)
  then show ?thesis
    using None account_ok_new [OF assms(1) None] ledger_inv_set_position [OF assms(1), of "(e, s)" pos]
    by (auto simp: current_quantity_def new_position_def)
next
  case (Some p)
  then show ?thesis
    using assms ledger_inv_account by (auto simp: position_def Let_def current_quantity_def)
qed

section \<open>Fills keep the accounts\<close>

definition fill_valid :: "Fill \<Rightarrow> bool" where
  "fill_valid f \<longleftrightarrow> is_dec (f_quantity f) \<and> 0 < f_quantity f \<and> 0 < f_price f"

lemma fill_and_protect_account:
  assumes "fill_and_protect f sl tp pos = Inr (realized, pos')" "position_inv pos" "fill_valid f"
  shows "position_inv pos' \<and> p_quantity pos' = dadd (p_quantity pos) (fill_delta f) \<and>
    p_fees pos' = dadd (p_fees pos) (f_fee f) \<and> p_funding_pnl pos' = p_funding_pnl pos \<and>
    p_exchange pos' = p_exchange pos \<and> p_symbol pos' = p_symbol pos \<and> p_mark_price pos' = f_price f \<and>
    realized = fst (position_apply_fill f pos)"
proof -
  let ?c = "snd (position_apply_fill f pos)"
  have v: "is_dec (f_quantity f)" "0 < f_quantity f" "0 < f_price f"
    using assms(3) by (simp_all add: fill_valid_def)
  have c: "position_inv ?c" "p_quantity ?c = dadd (p_quantity pos) (fill_delta f)"
    "p_fees ?c = dadd (p_fees pos) (f_fee f)" "p_funding_pnl ?c = p_funding_pnl pos"
    using position_apply_fill_inv [OF assms(2) v] trade_position_quantity [OF v(1), of pos]
    by (auto simp: position_apply_fill_simps)
       (auto simp: position_apply_fill_def split_beta trade_position_def Let_def)
  have "realized = fst (position_apply_fill f pos)" "pos' = ?c \<or> set_protection sl tp ?c = Inr pos'"
    using assms(1) by (auto simp: fill_and_protect_def split_beta split: if_splits)
  moreover have "p_fees p = p_fees ?c \<and> p_funding_pnl p = p_funding_pnl ?c \<and> p_mark_price p = p_mark_price ?c"
    if "set_protection sl tp ?c = Inr p" for p
    using that by (auto simp: set_protection_def Let_def split: if_splits)
  ultimately show ?thesis
    using c set_protection_inv [OF c(1), of sl tp pos'] set_protection_simps [of sl tp ?c pos']
    by (auto simp: position_apply_fill_simps)
qed

lemma ledger_apply_fill_Inr:
  assumes "ledger_apply_fill f ro sl tp l = (Inr realized, l')"
  obtains pos l1 pos' where "f_fill_id f \<notin> l_processed_fill_ids l"
    "position (f_exchange f) (f_symbol f) l = (pos, l1)" "ro \<Longrightarrow> check_reduce_only f pos = Inr ()"
    "fill_and_protect f sl tp pos = Inr (realized, pos')"
    "l' = (set_position (fill_key f) pos' l1)\<lparr>l_cash := dadd (l_cash l1) (dsub realized (f_fee f)),
            l_processed_fill_ids := insert (f_fill_id f) (l_processed_fill_ids l1),
            l_fills := l_fills l1 @ [f]\<rparr>"
proof -
  obtain pos l1 where p: "position (f_exchange f) (f_symbol f) l = (pos, l1)" by fastforce
  have "f_fill_id f \<notin> l_processed_fill_ids l"
    using assms by (auto simp: ledger_apply_fill_def split: if_splits)
  moreover obtain pos' where "bindE (if ro then check_reduce_only f pos else Inr ())
        (\<lambda>_. fill_and_protect f sl tp pos) = Inr (realized, pos')"
      "l' = (set_position (fill_key f) pos' l1)\<lparr>l_cash := dadd (l_cash l1) (dsub realized (f_fee f)),
            l_processed_fill_ids := insert (f_fill_id f) (l_processed_fill_ids l1),
            l_fills := l_fills l1 @ [f]\<rparr>"
    using assms p
    by (auto simp: ledger_apply_fill_def fill_key_def Let_def split: if_splits sum.splits prod.splits)
  ultimately show thesis using p that by (auto split: if_splits)
qed

lemma ledger_apply_fill_Inl:
  assumes "ledger_apply_fill f ro sl tp l = (Inl e, l')"
  shows "l' = l \<or> l' = snd (position (f_exchange f) (f_symbol f) l)"
  using assms by (auto simp: ledger_apply_fill_def Let_def split: if_splits sum.splits prod.splits)

lemma ledger_apply_fill_inv [inv_intros]:
  assumes "ledger_inv l" "fill_valid f" "ledger_apply_fill f ro sl tp l = (res, l')"
  shows "ledger_inv l'"
proof (cases res)
  case (Inl e)
  then show ?thesis
    using assms(1,3) ledger_apply_fill_Inl [of f ro sl tp l e l'] position_correct [OF assms(1) prod.collapse [symmetric]]
    by auto
next
  case (Inr realized)
  obtain pos l1 pos' where new: "f_fill_id f \<notin> l_processed_fill_ids l"
    and p: "position (f_exchange f) (f_symbol f) l = (pos, l1)"
    and fp: "fill_and_protect f sl tp pos = Inr (realized, pos')"
    and l': "l' = (set_position (fill_key f) pos' l1)\<lparr>l_cash := dadd (l_cash l1) (dsub realized (f_fee f)),
            l_processed_fill_ids := insert (f_fill_id f) (l_processed_fill_ids l1),
            l_fills := l_fills l1 @ [f]\<rparr>"
    using assms(3) Inr by (auto elim: ledger_apply_fill_Inr)
  note pc = position_correct [OF assms(1) p]
  then have l1: "ledger_inv l1" "account_ok l1 (fill_key f) pos" "l_fills l1 = l_fills l"
    "l_processed_fill_ids l1 = l_processed_fill_ids l"
    by (auto simp: fill_key_def) (metis PortfolioLedger.select_convs PortfolioLedger.surjective
        PortfolioLedger.update_convs(5))+
  note acc = fill_and_protect_account [OF fp _ assms(2)]
  have "0 \<le> f_price f" using assms(2) by (simp add: fill_valid_def)
  then have "account_ok l' (fill_key f) pos'"
    using l1(2) acc by (auto simp: account_ok_def l' fills_of_def funding_of_def)
  then show ?thesis
    using l1 new by (intro ledger_inv_rewrite [OF l1(1)])
      (auto simp: l' fills_of_def funding_of_def ledger_inv_def)
qed

lemma position_inv_updates [simp]:
  "position_inv (pos\<lparr>p_mark_price := x, p_updated_at := y\<rparr>) = position_inv pos"
  "position_inv (pos\<lparr>p_funding_pnl := z\<rparr>) = position_inv pos"
  by (simp_all add: position_inv_def)

lemma mark_inv [inv_intros]:
  assumes "ledger_inv l" "snapshot_ok snap" shows "ledger_inv (mark snap l)"
proof (cases "map_of (l_positions l) (s_exchange snap, s_symbol snap)")
  case (Some pos)
  have v: "0 \<le> valuation_price snap"
    using assms(2) by (auto simp: valuation_price_def dec_or_def snapshot_ok_def nonpositive_def mid_def
        dec_sign add_nonneg_nonneg split: option.splits)
  have a: "account_ok l (s_exchange snap, s_symbol snap) pos" by (rule ledger_inv_account [OF assms(1) Some])
  show ?thesis
  proof (cases "is_open pos")
    case True
    let ?p = "pos\<lparr>p_mark_price := valuation_price snap, p_updated_at := Some (s_timestamp snap)\<rparr>"
    have "mark snap l = set_position (s_exchange snap, s_symbol snap) ?p l"
      using Some True by (simp add: mark_def)
    moreover have "account_ok l (s_exchange snap, s_symbol snap) ?p"
      using a v by (simp add: account_ok_def)
    ultimately show ?thesis
      by (simp add: ledger_inv_set_position [OF assms(1)])
  qed (use assms Some in \<open>simp add: mark_def\<close>)
qed (use assms in \<open>simp add: mark_def\<close>)

lemma apply_funding_cases:
  assumes "apply_funding e s t rate price l = (res, l')"
  obtains (none) "l' = l" "\<And>r. res \<noteq> Inr (Some r)"
  | (paid) pos r where "map_of (l_positions l) (e, s) = Some pos" "is_open pos" "0 < price"
      "t = Aware (fr_timestamp r)" "res = Inr (Some r)" "fr_exchange r = e" "fr_symbol r = s"
      "fr_amount r = funding_amount (p_quantity pos) price rate"
      "fr_position_quantity r = p_quantity pos" "fr_mark_price r = price" "fr_rate r = rate"
      "l' = (set_position (e, s) (pos\<lparr>p_funding_pnl := dadd (p_funding_pnl pos) (fr_amount r)\<rparr>) l)
         \<lparr>l_cash := dadd (l_cash l) (fr_amount r), l_funding_records := l_funding_records l @ [r]\<rparr>"
proof (cases "\<exists>u pos. t = Aware u \<and> 0 < price \<and> map_of (l_positions l) (e, s) = Some pos \<and> is_open pos")
  case True
  then obtain u pos where g: "t = Aware u" "0 < price" "map_of (l_positions l) (e, s) = Some pos" "is_open pos"
    by blast
  let ?r = "\<lparr>fr_exchange = e, fr_symbol = s, fr_timestamp = u, fr_rate = rate, fr_mark_price = price,
    fr_position_quantity = p_quantity pos, fr_amount = funding_amount (p_quantity pos) price rate\<rparr>"
  show thesis
    by (rule paid [of pos ?r]) (use assms g in \<open>auto simp: apply_funding_def Let_def set_position_def\<close>)
next
  case False
  then show thesis
    using assms by (intro none; cases t; cases "map_of (l_positions l) (e, s)")
      (auto simp: apply_funding_def split: if_splits)
qed

lemma apply_funding_inv [inv_intros]:
  assumes "ledger_inv l" "apply_funding e s t rate price l = (res, l')"
  shows "ledger_inv l'"
  using assms(2)
proof (cases rule: apply_funding_cases)
  case (paid pos r)
  have "account_ok l (e, s) pos" by (rule ledger_inv_account [OF assms(1) paid(1)])
  then have "account_ok l' (e, s) (pos\<lparr>p_funding_pnl := dadd (p_funding_pnl pos) (fr_amount r)\<rparr>)"
    using paid by (simp add: account_ok_def fills_of_def funding_of_def)
  then show ?thesis
    using assms(1) paid
    by (intro ledger_inv_rewrite [OF assms(1)]) (auto simp: fills_of_def funding_of_def ledger_inv_def)
qed (use assms(1) in simp)

lemma capture_inv [inv_intros]: "ledger_inv l \<Longrightarrow> ledger_inv (snd (capture t l))"
  by (auto simp: capture_def Let_def ledger_inv_def account_ok_def fills_of_def funding_of_def)

section \<open>Sequences of ledger operations\<close>

datatype LedgerOp =
    L_fill Fill bool "dec option" "dec option"
  | L_mark MarketSnapshot
  | L_funding string string datetime dec dec
  | L_capture instant
  | L_position string string

fun ledger_step :: "LedgerOp \<Rightarrow> PortfolioLedger \<Rightarrow> PortfolioLedger" where
  "ledger_step (L_fill f ro sl tp) l = snd (ledger_apply_fill f ro sl tp l)"
| "ledger_step (L_mark snap) l = mark snap l"
| "ledger_step (L_funding e s t rate price) l = snd (apply_funding e s t rate price l)"
| "ledger_step (L_capture t) l = snd (capture t l)"
| "ledger_step (L_position e s) l = snd (position e s l)"

fun ledger_op_ok :: "LedgerOp \<Rightarrow> bool" where
  "ledger_op_ok (L_fill f ro sl tp) = fill_valid f"
| "ledger_op_ok (L_mark snap) = snapshot_ok snap"
| "ledger_op_ok _ = True"

interpretation ledger: invariant_machine ledger_step ledger_op_ok ledger_inv
proof unfold_locales
  show "ledger_inv (ledger_step a l)" if "ledger_op_ok a" "ledger_inv l" for a l
    using that position_correct [OF that(2) prod.collapse [symmetric]]
    by (cases a) (auto intro: inv_intros prod.collapse [symmetric])
qed

text \<open>
  The reference the ledger is compared with: a journal of fills and funding payments, replayed
  on the cash and, for every instrument, the signed quantity held and its average entry price
  alone. A trade on the side of the holding moves the average, one against it realises the
  difference to the average on the quantity it closes, and one past zero starts afresh at its
  own price; cash takes the realised result less the fee. Funding is paid on the quantity held
  at that moment.
\<close>

datatype journal_entry = J_fill Fill | J_funding FundingRecord

type_synonym holding = "dec \<times> dec"

definition reference_trade :: "Fill \<Rightarrow> holding \<Rightarrow> dec \<times> holding" where
  "reference_trade f h =
     (let (q, a) = h; p = f_price f;
          d = (if f_side f = BUY then f_quantity f else - f_quantity f); q' = dadd q d in
      if q = 0 then (0, (q', p))
      else if 0 < q \<longleftrightarrow> 0 < d then
        (0, (q', ddiv (dadd (dmul \<bar>q\<bar> a) (dmul \<bar>d\<bar> p)) (dadd \<bar>q\<bar> \<bar>d\<bar>)))
      else (dmul (dmul (min \<bar>q\<bar> \<bar>d\<bar>) (dsub p a)) (sgn q),
            (q', if q' = 0 then 0 else if 0 < q \<longleftrightarrow> 0 < q' then a else p)))"

fun replay_entry :: "journal_entry \<Rightarrow> dec \<times> (InstrumentKey \<Rightarrow> holding) \<Rightarrow>
    dec \<times> (InstrumentKey \<Rightarrow> holding)" where
  "replay_entry (J_fill f) (cash, book) =
     (let (realized, h) = reference_trade f (book (fill_key f))
      in (dadd cash (dsub realized (f_fee f)), book(fill_key f := h)))"
| "replay_entry (J_funding r) (cash, book) =
     (dadd cash (dneg (dmul (dmul (fst (book (fr_exchange r, fr_symbol r))) (fr_mark_price r)) (fr_rate r))), book)"

definition holdings :: "PortfolioLedger \<Rightarrow> InstrumentKey \<Rightarrow> holding" where
  "holdings l key = (case map_of (l_positions l) key of
     Some pos \<Rightarrow> (p_quantity pos, p_average_entry_price pos) | None \<Rightarrow> (0, 0))"

fun journal_fills :: "journal_entry list \<Rightarrow> Fill list" where
  "journal_fills [] = []"
| "journal_fills (J_fill f # js) = f # journal_fills js"
| "journal_fills (J_funding r # js) = journal_fills js"

fun journal_funding :: "journal_entry list \<Rightarrow> FundingRecord list" where
  "journal_funding [] = []"
| "journal_funding (J_fill f # js) = journal_funding js"
| "journal_funding (J_funding r # js) = r # journal_funding js"

lemma journal_append [simp]:
  "journal_fills (js @ js') = journal_fills js @ journal_fills js'"
  "journal_funding (js @ js') = journal_funding js @ journal_funding js'"
  by (induction js rule: journal_fills.induct) simp_all

text \<open>How an operation may change the accounts: by a journal of new entries.\<close>

definition booked_amount :: "FundingRecord \<Rightarrow> bool" where
  "booked_amount r \<longleftrightarrow>
     fr_amount r = dneg (dmul (dmul (fr_position_quantity r) (fr_mark_price r)) (fr_rate r))"

definition journal_rel :: "PortfolioLedger \<Rightarrow> PortfolioLedger \<Rightarrow> bool" where
  "journal_rel l l' \<longleftrightarrow> (\<exists>journal. l_fills l' = l_fills l @ journal_fills journal \<and>
     l_funding_records l' = l_funding_records l @ journal_funding journal \<and>
     list_all booked_amount (journal_funding journal) \<and>
     (l_cash l', holdings l') = fold replay_entry journal (l_cash l, holdings l))"

lemma journal_rel_frame:
  "l_fills l' = l_fills l \<Longrightarrow> l_funding_records l' = l_funding_records l \<Longrightarrow> l_cash l' = l_cash l \<Longrightarrow>
   holdings l' = holdings l \<Longrightarrow> journal_rel l l'"
  unfolding journal_rel_def by (intro exI [of _ "[]"]) simp

lemma journal_rel_refl [simp]: "journal_rel l l"
  by (simp add: journal_rel_frame)

lemma journal_rel_trans:
  assumes "journal_rel x y" "journal_rel y z" shows "journal_rel x z"
proof -
  let ?replay = "\<lambda>js l. fold replay_entry js (l_cash l, holdings l)"
  obtain js where x: "l_fills y = l_fills x @ journal_fills js"
    "l_funding_records y = l_funding_records x @ journal_funding js"
    "list_all booked_amount (journal_funding js)" "(l_cash y, holdings y) = ?replay js x"
    using assms(1) unfolding journal_rel_def by blast
  obtain js' where y: "l_fills z = l_fills y @ journal_fills js'"
    "l_funding_records z = l_funding_records y @ journal_funding js'"
    "list_all booked_amount (journal_funding js')" "(l_cash z, holdings z) = ?replay js' y"
    using assms(2) unfolding journal_rel_def by blast
  have "?replay (js @ js') x = fold replay_entry js' (?replay js x)" by simp
  also have "\<dots> = (l_cash z, holdings z)" by (simp only: x(4) [symmetric] y(4) [symmetric])
  finally show ?thesis unfolding journal_rel_def
    using x(1-3) y(1-3) by (intro exI [of _ "js @ js'"]) simp
qed

lemma position_frame:
  "l_cash (snd (position e s l)) = l_cash l" "l_fills (snd (position e s l)) = l_fills l"
  "l_funding_records (snd (position e s l)) = l_funding_records l"
  "l_processed_fill_ids (snd (position e s l)) = l_processed_fill_ids l"
  by (auto simp: position_def Let_def split: option.splits)

lemma position_holdings [simp]: "holdings (snd (position e s l)) = holdings l"
  by (auto simp: holdings_def position_def new_position_def Let_def fun_eq_iff split: option.splits)

lemma position_holding:
  "position e s l = (pos, l1) \<Longrightarrow> holdings l (e, s) = (p_quantity pos, p_average_entry_price pos)"
  by (auto simp: holdings_def position_def new_position_def Let_def split: option.splits)

lemma holdings_set [simp]:
  "holdings (set_position key pos l) = (holdings l)(key := (p_quantity pos, p_average_entry_price pos))"
  by (auto simp: holdings_def fun_eq_iff)

lemma holdings_update [simp]:
  "holdings (l\<lparr>l_cash := c\<rparr>) = holdings l" "holdings (l\<lparr>l_fills := fs\<rparr>) = holdings l"
  "holdings (l\<lparr>l_processed_fill_ids := ids\<rparr>) = holdings l"
  "holdings (l\<lparr>l_funding_records := rs\<rparr>) = holdings l" "holdings (l\<lparr>l_snapshots := ss\<rparr>) = holdings l"
  by (simp_all add: holdings_def fun_eq_iff)

text \<open>The branches of the position's own bookkeeping agree with the reference.\<close>

lemma trade_position_reference:
  assumes "fill_valid f" "position_inv pos"
  shows "reference_trade f (p_quantity pos, p_average_entry_price pos) =
    (fst (trade_position f pos),
     (p_quantity (snd (trade_position f pos)), p_average_entry_price (snd (trade_position f pos))))"
proof -
  let ?q = "p_quantity pos" and ?d = "fill_delta f"
  have d: "is_dec ?d" "?d \<noteq> 0" "?d = (if f_side f = BUY then f_quantity f else - f_quantity f)"
    using assms(1) by (auto simp: fill_valid_def is_dec_fill_delta fill_delta_sign) (auto simp: fill_delta_def dneg_is_dec)
  have q: "is_dec ?q" using assms(2) by (simp add: position_inv_def)
  have same: "0 < dmul x y \<longleftrightarrow> (0 < x \<longleftrightarrow> 0 < y)" if "x \<noteq> 0" "y \<noteq> 0" for x y
    using that by (auto simp: dec_sign zero_less_mult_iff)
  have opposite: "dmul x y < 0 \<longleftrightarrow> (0 < x) \<noteq> (0 < y)" if "x \<noteq> 0" "y \<noteq> 0" for x y
    using that by (auto simp: dec_sign mult_less_0_iff)
  have zero: "dadd 0 ?d = ?d" using d(1) by (simp add: dadd_def is_dec_def)
  show ?thesis
    using q d(1,2) same [of ?q ?d] opposite [of ?q "dadd ?q ?d"]
    by (auto simp: reference_trade_def trade_position_def Let_def d(3) [symmetric] dabs_is_dec sgn_if zero)
qed

lemma fill_and_protect_reference:
  assumes "fill_and_protect f sl tp pos = Inr (realized, pos')" "fill_valid f" "position_inv pos"
  shows "reference_trade f (p_quantity pos, p_average_entry_price pos) =
    (realized, (p_quantity pos', p_average_entry_price pos'))"
proof -
  have keep: "p_quantity p = p_quantity c \<and> p_average_entry_price p = p_average_entry_price c"
    if "set_protection sl tp c = Inr p" for c p
    using that by (auto simp: set_protection_def Let_def split: if_splits)
  show ?thesis
    using assms(1) unfolding trade_position_reference [OF assms(2,3)]
    by (auto simp: fill_and_protect_def split_beta position_apply_fill_simps dest!: keep split: if_splits)
qed

lemma journal_rel_fill:
  assumes "ledger_inv l" "fill_valid f"
  shows "journal_rel l (snd (ledger_apply_fill f ro sl tp l))"
proof (cases "ledger_apply_fill f ro sl tp l")
  case (Pair res l')
  show ?thesis
  proof (cases res)
    case (Inl e)
    then show ?thesis using Pair ledger_apply_fill_Inl [of f ro sl tp l e l']
      by (auto intro!: journal_rel_frame simp: position_frame)
  next
    case (Inr realized)
    obtain pos l1 pos' where p: "position (f_exchange f) (f_symbol f) l = (pos, l1)"
      and fp: "fill_and_protect f sl tp pos = Inr (realized, pos')"
      and l': "l' = (set_position (fill_key f) pos' l1)\<lparr>l_cash := dadd (l_cash l1) (dsub realized (f_fee f)),
            l_processed_fill_ids := insert (f_fill_id f) (l_processed_fill_ids l1),
            l_fills := l_fills l1 @ [f]\<rparr>"
      using Pair Inr by (auto elim: ledger_apply_fill_Inr)
    have "position_inv pos" using position_correct [OF assms(1) p] by (simp add: account_ok_def)
    note ref = fill_and_protect_reference [OF fp assms(2) this]
    have h: "holdings l (fill_key f) = (p_quantity pos, p_average_entry_price pos)"
      "holdings l1 = holdings l"
      using position_holding [OF p] position_holdings [of "f_exchange f" "f_symbol f" l] p
      by (simp_all add: fill_key_def)
    show ?thesis unfolding journal_rel_def
      using Pair position_frame [of "f_exchange f" "f_symbol f" l] p
      by (intro exI [of _ "[J_fill f]"]) (simp add: l' h ref)
  qed
qed

lemma journal_rel_funding: "journal_rel l (snd (apply_funding e s t rate price l))"
proof -
  obtain res l' where a: "apply_funding e s t rate price l = (res, l')" by fastforce
  then show ?thesis
  proof (cases rule: apply_funding_cases)
    case (paid pos r)
    have "holdings l (e, s) = (p_quantity pos, p_average_entry_price pos)"
      using paid(1) by (simp add: holdings_def)
    then show ?thesis using paid unfolding journal_rel_def a
      by (intro exI [of _ "[J_funding r]"]) (auto simp: booked_amount_def funding_amount_def)
  qed (simp add: a)
qed

lemma mark_holdings [simp]: "holdings (mark snap l) = holdings l"
  by (auto simp: mark_def Let_def holdings_def fun_eq_iff split: option.splits)

lemma journal_rel_step:
  assumes "ledger_op_ok a" "ledger_inv l" shows "journal_rel l (ledger_step a l)"
proof (cases a)
  case (L_mark snap)
  then show ?thesis
    by (auto intro!: journal_rel_frame) (auto simp: mark_def Let_def split: option.splits)
qed (use assms in \<open>auto simp: journal_rel_fill journal_rel_funding capture_def Let_def position_frame
    intro!: journal_rel_frame\<close>)

text \<open>What each operation leaves alone: the rules, and the registered instruments.\<close>

definition position_keys :: "PortfolioLedger \<Rightarrow> InstrumentKey set" where
  "position_keys l = fst ` set (l_positions l)"

lemma position_keys_frame:
  "position_keys (snd (position e s l)) = insert (e, s) (position_keys l)"
  "l_rules (snd (position e s l)) = l_rules l"
  using map_of_SomeD [of "l_positions l" "(e, s)"]
  by (force simp: position_def position_keys_def Let_def dict_keys_set split: option.splits)+

lemma ledger_fill_frame:
  assumes "ledger_apply_fill f ro sl tp l = (Inr r, l')"
  shows "l_fills l' = l_fills l @ [f] \<and> l_rules l' = l_rules l \<and>
    position_keys l' = insert (fill_key f) (position_keys l) \<and>
    map_of (l_positions l') (fill_key f) \<noteq> None"
proof -
  obtain pos l1 pos' where "position (f_exchange f) (f_symbol f) l = (pos, l1)"
    "l' = (set_position (fill_key f) pos' l1)\<lparr>l_cash := dadd (l_cash l1) (dsub r (f_fee f)),
        l_processed_fill_ids := insert (f_fill_id f) (l_processed_fill_ids l1),
        l_fills := l_fills l1 @ [f]\<rparr>"
    using assms by (auto elim: ledger_apply_fill_Inr)
  then show ?thesis
    using position_frame(2) [of "f_exchange f" "f_symbol f" l] position_keys_frame [of "f_exchange f" "f_symbol f" l]
    by (simp add: position_keys_def dict_keys_set fill_key_def)
qed

lemma mark_frame:
  "l_fills (mark snap l) = l_fills l" "l_rules (mark snap l) = l_rules l"
  "position_keys (mark snap l) = position_keys l"
  using map_of_SomeD [of "l_positions l" "(s_exchange snap, s_symbol snap)"]
  by (force simp: mark_def position_keys_def Let_def dict_keys_set split: option.splits)+

lemma capture_frame:
  "l_fills (snd (capture t l)) = l_fills l" "l_rules (snd (capture t l)) = l_rules l"
  "position_keys (snd (capture t l)) = position_keys l"
  by (simp_all add: capture_def Let_def position_keys_def)

lemma apply_funding_frame:
  assumes "apply_funding e s t rate price l = (res, l')"
  shows "l_fills l' = l_fills l \<and> l_rules l' = l_rules l \<and> position_keys l' = position_keys l"
  using assms
proof (cases rule: apply_funding_cases)
  case (paid pos r)
  then show ?thesis using map_of_SomeD [OF paid(1)] by (force simp: position_keys_def dict_keys_set)
qed simp

text \<open>
  C2. The ledger is reconstructible after any sequence of operations, failing ones included.
  The invariant holds: each position's quantity, fees and funding are the running sums over the
  recorded fills and funding records of its instrument, and no fill is recorded twice. Beyond
  that there is a journal that consists of exactly the newly recorded fills and funding
  payments, each log in its order, such that the final cash and the final quantity and average
  entry price of every instrument are the replay of that journal by the reference rules from the
  cash and the holdings at the start: nothing else ever changes cash or a holding. Every funding
  record carries the amount of its own quantity, mark price and rate.
\<close>

theorem ledger_run_reconstructible:
  assumes "ledger_inv l" "list_all ledger_op_ok ops"
  shows "let l' = fold ledger_step ops l in
    ledger_inv l' \<and> distinct (map f_fill_id (l_fills l')) \<and>
    (\<forall>key. current_quantity key l' = dsum (map fill_delta (fills_of key l'))) \<and>
    (\<exists>journal. l_fills l' = l_fills l @ journal_fills journal \<and>
       l_funding_records l' = l_funding_records l @ journal_funding journal \<and>
       (\<forall>r \<in> set (journal_funding journal).
          fr_amount r = dneg (dmul (dmul (fr_position_quantity r) (fr_mark_price r)) (fr_rate r))) \<and>
       (l_cash l', holdings l') = fold replay_entry journal (l_cash l, holdings l))"
proof -
  let ?l = "fold ledger_step ops l"
  have inv: "ledger_inv ?l" by (rule ledger.inv_run [OF assms(2,1)])
  have "journal_rel l ?l"
    by (rule ledger.rel_run [where R = journal_rel, OF journal_rel_step journal_rel_refl journal_rel_trans assms(2,1)])
  then have "\<exists>journal. l_fills ?l = l_fills l @ journal_fills journal \<and>
       l_funding_records ?l = l_funding_records l @ journal_funding journal \<and>
       (\<forall>r \<in> set (journal_funding journal).
          fr_amount r = dneg (dmul (dmul (fr_position_quantity r) (fr_mark_price r)) (fr_rate r))) \<and>
       (l_cash ?l, holdings ?l) = fold replay_entry journal (l_cash l, holdings l)"
    unfolding journal_rel_def list_all_iff booked_amount_def .
  then show ?thesis
    using inv current_quantity_sum [OF inv] unfolding Let_def ledger_inv_def by blast
qed

text \<open>A ledger of 1000 at leverage two, long two at 100 with one unit of fees paid.\<close>

definition sample_ledger_rules :: InstrumentRules where
  "sample_ledger_rules = \<lparr>tick_size = 1 / 10, lot_size = 1 / 1000, minimum_notional = 5,
     maker_fee_rate = 0, taker_fee_rate = 0, maintenance_margin_rate = 1 / 10\<rparr>"

definition fresh_ledger :: PortfolioLedger where
  "fresh_ledger = \<lparr>l_initial_cash = 1000, l_cash = 1000, l_leverage = 2,
     l_rules = [((''x'', ''BTC''), sample_ledger_rules)], l_positions = [], l_fills = [],
     l_funding_records = [], l_snapshots = [], l_processed_fill_ids = {}\<rparr>"

definition sample_ledger :: PortfolioLedger where
  "sample_ledger = snd (ledger_apply_fill (sample_fill ''f1'' BUY 2 100) False None None fresh_ledger)"

lemma fresh_ledger_inv: "ledger_inv fresh_ledger"
  by (simp add: ledger_inv_def fresh_ledger_def)

lemma sample_fill_valid: "is_dec q \<Longrightarrow> 0 < q \<Longrightarrow> 0 < p \<Longrightarrow> fill_valid (sample_fill i sd q p)"
  by (simp add: fill_valid_def sample_fill_def)

lemma sample_ledger_inv: "ledger_inv sample_ledger"
  unfolding sample_ledger_def
  by (rule ledger_apply_fill_inv [OF fresh_ledger_inv sample_fill_valid prod.collapse [symmetric]])
     (simp_all add: is_dec_def)

lemmas ledger_fill_defs = ledger_apply_fill_def position_def set_position_def fill_and_protect_def
  position_apply_fill_def trade_position_def fill_delta_def check_reduce_only_def reduces_def

lemma sample_ledger_eq:
  "sample_ledger = fresh_ledger\<lparr>l_cash := 999,
     l_positions := [((''x'', ''BTC''), (new_position ''x'' ''BTC'')\<lparr>p_quantity := 2,
       p_average_entry_price := 100, p_mark_price := 100, p_fees := 1, p_opened_at := Some 10,
       p_updated_at := Some 10\<rparr>)],
     l_fills := [sample_fill ''f1'' BUY 2 100], l_processed_fill_ids := {''f1''}\<rparr>"
  by (simp add: sample_ledger_def ledger_fill_defs fresh_ledger_def new_position_def sample_fill_def
      is_open_def dec_eval Let_def)

theorem ledger_run_reconstructible_witness:
  "let l' = fold ledger_step [L_fill (sample_fill ''f1'' BUY 2 100) False None None,
       L_fill (sample_fill ''f1'' BUY 2 100) False None None, L_capture 20] fresh_ledger
   in l_cash l' = 999 \<and> length (l_fills l') = 1 \<and>
      current_quantity (''x'', ''BTC'') l' = dsum (map fill_delta (fills_of (''x'', ''BTC'') l')) \<and>
      (\<exists>journal. l_fills l' = l_fills fresh_ledger @ journal_fills journal \<and>
         (l_cash l', holdings l') = fold replay_entry journal (l_cash fresh_ledger, holdings fresh_ledger))"
proof -
  let ?ops = "[L_fill (sample_fill ''f1'' BUY 2 100) False None None,
       L_fill (sample_fill ''f1'' BUY 2 100) False None None, L_capture 20]"
  have ok: "list_all ledger_op_ok ?ops" by (simp add: sample_fill_valid is_dec_def)
  have "fold ledger_step ?ops fresh_ledger = snd (capture 20 sample_ledger)"
    by (simp add: sample_ledger_def [symmetric]) (simp add: sample_ledger_eq ledger_apply_fill_def sample_fill_def)
  then have "l_cash (fold ledger_step ?ops fresh_ledger) = 999 \<and>
      length (l_fills (fold ledger_step ?ops fresh_ledger)) = 1"
    by (simp add: capture_def Let_def sample_ledger_eq)
  then show ?thesis
    using ledger_run_reconstructible [OF fresh_ledger_inv ok] unfolding Let_def by blast
qed

section \<open>Properties of the ledger\<close>

text \<open>
  An error in \<open>apply_fill\<close> (a duplicate identifier, a reduce-only violation, an invalid
  protective level) leaves the accounting untouched: cash, logs, processed identifiers and every
  registered position are as before; at most an empty position is registered for the
  instrument. A fill whose identifier was already processed is always refused, with the ledger
  unchanged.
\<close>

theorem ledger_fill_error_atomic:
  assumes "ledger_inv l" "ledger_apply_fill f ro sl tp l = (Inl e, l')"
  shows "l_cash l' = l_cash l \<and> l_fills l' = l_fills l \<and> l_funding_records l' = l_funding_records l \<and>
    l_processed_fill_ids l' = l_processed_fill_ids l \<and>
    (\<forall>key pos. map_of (l_positions l) key = Some pos \<longrightarrow> map_of (l_positions l') key = Some pos) \<and>
    (\<forall>key. current_quantity key l' = current_quantity key l) \<and>
    (f_fill_id f \<in> f_fill_id ` set (l_fills l) \<longrightarrow> l' = l \<and> e = DuplicateFillError (''duplicate fill: '' @ f_fill_id f))"
proof -
  let ?p = "snd (position (f_exchange f) (f_symbol f) l)"
  have "l' = l \<or> l' = ?p" by (rule ledger_apply_fill_Inl [OF assms(2)])
  moreover have "map_of (l_positions l) key = Some pos \<Longrightarrow> map_of (l_positions ?p) key = Some pos" for key pos
    by (auto simp: position_def Let_def split: option.splits)
  moreover have "current_quantity key ?p = current_quantity key l" for key
    by (auto simp: current_quantity_def position_def new_position_def Let_def split: option.splits)
  moreover have "f_fill_id f \<in> f_fill_id ` set (l_fills l) \<Longrightarrow>
      l' = l \<and> e = DuplicateFillError (''duplicate fill: '' @ f_fill_id f)"
    using assms by (auto simp: ledger_apply_fill_def ledger_inv_def)
  ultimately show ?thesis by (auto simp: position_frame)
qed

theorem ledger_fill_error_atomic_witness:
  "\<exists>l'. ledger_apply_fill (sample_fill ''f1'' BUY 2 100) False None None sample_ledger =
       (Inl (DuplicateFillError ''duplicate fill: f1''), l') \<and> l' = sample_ledger"
proof -
  let ?f = "sample_fill ''f1'' BUY 2 100"
  have d: "ledger_apply_fill ?f False None None sample_ledger =
      (Inl (DuplicateFillError ''duplicate fill: f1''), sample_ledger)"
    by (simp add: ledger_apply_fill_def sample_ledger_eq sample_fill_def)
  from ledger_fill_error_atomic [OF sample_ledger_inv d] d show ?thesis by blast
qed

text \<open>
  A reduce-only fill that the ledger accepts strictly reduces the position and never
  reverses it: the new quantity is exactly the old one moved towards zero by the fill, up to
  the rounding of the sum, keeps the sign and vanishes exactly when the fill closes it all.
\<close>

theorem reduce_only_reduces:
  assumes "ledger_inv l" "fill_valid f" "ledger_apply_fill f True sl tp l = (Inr realized, l')"
  shows "let q = current_quantity (fill_key f) l; q' = current_quantity (fill_key f) l' in
    q \<noteq> 0 \<and> f_quantity f \<le> \<bar>q\<bar> \<and> q' = dadd q (fill_delta f) \<and> 0 \<le> q * q' \<and> \<bar>q'\<bar> \<le> \<bar>q\<bar> \<and>
    (q' = 0 \<longleftrightarrow> f_quantity f = \<bar>q\<bar>)"
proof -
  obtain pos l1 pos' where p: "position (f_exchange f) (f_symbol f) l = (pos, l1)"
    and ck: "check_reduce_only f pos = Inr ()" and fp: "fill_and_protect f sl tp pos = Inr (realized, pos')"
    and l': "l' = (set_position (fill_key f) pos' l1)\<lparr>l_cash := dadd (l_cash l1) (dsub realized (f_fee f)),
            l_processed_fill_ids := insert (f_fill_id f) (l_processed_fill_ids l1),
            l_fills := l_fills l1 @ [f]\<rparr>"
    using assms(3) by (auto elim: ledger_apply_fill_Inr)
  have pos: "position_inv pos" and q: "current_quantity (fill_key f) l = p_quantity pos"
    using position_correct [OF assms(1) p] unfolding account_ok_def fill_key_def by metis+
  have dec: "is_dec (p_quantity pos)" "is_dec (f_quantity f)" "0 < f_quantity f"
    using pos assms(2) by (simp_all add: position_inv_def fill_valid_def)
  have q': "current_quantity (fill_key f) l' = dadd (p_quantity pos) (fill_delta f)"
    using fill_and_protect_account [OF fp pos assms(2)] by (simp add: l' current_quantity_def)
  have le: "f_quantity f \<le> \<bar>p_quantity pos\<bar>" and red: "reduces (f_side f) pos" and nz: "p_quantity pos \<noteq> 0"
    using ck dec(1) by (auto simp: check_reduce_only_def bindE_Inr_iff is_open_def dabs_is_dec)
  consider "0 < p_quantity pos" "fill_delta f = - f_quantity f"
    | "p_quantity pos < 0" "fill_delta f = f_quantity f"
    using red dec by (auto simp: reduces_def fill_delta_def dneg_is_dec)
  then show ?thesis
  proof cases
    case 1
    then have "0 \<le> dadd (p_quantity pos) (fill_delta f)" "dadd (p_quantity pos) (fill_delta f) \<le> p_quantity pos"
      using le dec by (simp_all add: dec_sign dadd_le)
    then show ?thesis using 1 le dec by (auto simp: q q' Let_def dec_sign)
  next
    case 2
    then have "dadd (p_quantity pos) (fill_delta f) \<le> 0" "p_quantity pos \<le> dadd (p_quantity pos) (fill_delta f)"
      using le dec by (simp_all add: dec_sign dadd_ge)
    then show ?thesis using 2 le dec by (auto simp: q q' Let_def dec_sign zero_le_mult_iff)
  qed
qed

theorem reduce_only_reduces_witness:
  "\<exists>l'. ledger_apply_fill (sample_fill ''f2'' SELL 2 110) True None None sample_ledger = (Inr 20, l') \<and>
     current_quantity (''x'', ''BTC'') l' = 0"
proof -
  let ?f = "sample_fill ''f2'' SELL 2 110"
  obtain l' where l': "ledger_apply_fill ?f True None None sample_ledger = (Inr 20, l')"
    by (simp add: sample_ledger_eq ledger_fill_defs fresh_ledger_def new_position_def sample_fill_def
        is_open_def dec_eval Let_def)
  have "current_quantity (''x'', ''BTC'') sample_ledger = 2"
    by (simp add: current_quantity_def sample_ledger_eq)
  moreover have "fill_key ?f = (''x'', ''BTC'')" "f_quantity ?f = 2" by (simp_all add: fill_key_def sample_fill_def)
  moreover have "fill_valid ?f" by (simp add: sample_fill_valid is_dec_def)
  ultimately show ?thesis
    using reduce_only_reduces [OF sample_ledger_inv _ l'] l' by (auto simp: Let_def)
qed

text \<open>
  The cap on a fill is never above what remains of the order and never negative; a
  reduce-only order is capped by the open quantity on the other side, so that a capped fill
  passes the ledger's reduce-only check; an order that closes nothing is capped so that margin
  and taker fee of the capped quantity stay within the available margin, up to the relative
  error of two decimal operations.
\<close>

theorem maximum_fill_quantity_bounds:
  fixes ord :: Order and l :: PortfolioLedger
  defines "key \<equiv> (o_exchange ord, o_symbol ord)"
  assumes "ledger_inv l" "0 \<le> o_remaining_quantity ord" "0 < price"
    "\<forall>r \<in> set_option (map_of (l_rules l) key). 0 \<le> taker_fee_rate r"
  shows "let cap = maximum_fill_quantity ord price l; q = current_quantity key l;
      fee = (case map_of (l_rules l) key of Some r \<Rightarrow> taker_fee_rate r | None \<Rightarrow> 0);
      closes = (q > 0 \<and> o_side ord = SELL \<or> q < 0 \<and> o_side ord = BUY) in
    0 \<le> cap \<and> cap \<le> o_remaining_quantity ord \<and>
    (o_reduce_only ord \<longrightarrow> (if closes then cap \<le> \<bar>q\<bar> else cap = 0)) \<and>
    (\<not> o_reduce_only ord \<and> \<not> closes \<longrightarrow>
       dmul cap (dadd (ddiv price (l_leverage l)) (dmul price fee)) \<le> available_margin l * (1 + 2 / 10 ^ 27))"
proof -
  let ?q = "current_quantity key l"
  let ?fee = "case map_of (l_rules l) key of Some r \<Rightarrow> taker_fee_rate r | None \<Rightarrow> 0"
  let ?unit = "dadd (ddiv price (l_leverage l)) (dmul price ?fee)"
  let ?closes = "?q > 0 \<and> o_side ord = SELL \<or> ?q < 0 \<and> o_side ord = BUY"
  let ?open = "if ?unit > 0 then ddiv (available_margin l) ?unit else 0"
  have lev: "0 < l_leverage l" using assms(2) by (simp add: ledger_inv_def)
  have fee: "0 \<le> ?fee" using assms(5) by (auto split: option.splits)
  have "0 < ddiv price (l_leverage l)" "0 \<le> dmul price ?fee"
    using lev assms(4) fee by (simp_all add: dec_sign)
  then have unit: "0 < ?unit" unfolding dadd_sign by linarith
  have avail: "0 \<le> available_margin l" by (simp add: available_margin_def)
  have opn: "0 \<le> ?open" using unit avail by (simp add: dec_sign)
  have qdec: "is_dec ?q"
    by (rule current_quantity_dec [OF assms(2)])
  have cap: "maximum_fill_quantity ord price l =
      (if o_reduce_only ord then min (o_remaining_quantity ord) (if ?closes then dabs ?q else 0)
       else min (o_remaining_quantity ord) (dadd (if ?closes then dabs ?q else 0) ?open))"
    using assms(4) by (simp add: maximum_fill_quantity_def Let_def key_def)
  have "0 \<le> dadd (if ?closes then dabs ?q else 0) ?open"
    by (rule dadd_sign(2) [THEN iffD2], rule add_nonneg_nonneg [OF _ opn]) (simp add: dec_sign)
  moreover have "dmul (min (o_remaining_quantity ord) (dadd 0 ?open)) ?unit \<le> available_margin l * (1 + 2 / 10 ^ 27)"
  proof (rule ddiv_mul_upper [OF avail unit])
    have "dadd 0 ?open = ?open" using unit by (simp add: dadd_def is_dec_drnd_id)
    then show "min (o_remaining_quantity ord) (dadd 0 ?open) \<le> ddiv (available_margin l) ?unit" using unit by simp
    show "0 \<le> min (o_remaining_quantity ord) (dadd 0 ?open)" using opn assms(3) by (simp add: dadd_sign)
  qed
  ultimately show ?thesis
    using assms(3) qdec unfolding Let_def cap by (auto simp: dabs_is_dec)
qed

definition sample_exit_order :: Order where
  "sample_exit_order = \<lparr>o_order_id = ''exit-1'', o_signal_id = ''s1'', o_exchange = ''x'',
     o_symbol = ''BTC'', o_side = SELL, o_quantity = 5, o_order_type = MARKET,
     o_time_in_force = IOC, o_signal_at = 20, o_created_at = 20, o_submitted_at = 20,
     o_limit_price = None, o_post_only = False, o_reduce_only = True, o_expires_at = None,
     o_stop_loss = None, o_take_profit = None, o_status = SUBMITTED, o_remaining_quantity = 5,
     o_rejection_reason = None\<rparr>"

theorem maximum_fill_quantity_bounds_witness:
  "maximum_fill_quantity sample_exit_order 100 sample_ledger \<le> \<bar>current_quantity (''x'', ''BTC'') sample_ledger\<bar> \<and>
   maximum_fill_quantity sample_exit_order 100 sample_ledger = 2"
proof -
  have "maximum_fill_quantity sample_exit_order 100 sample_ledger = 2"
    by (simp add: maximum_fill_quantity_def sample_exit_order_def current_quantity_def sample_ledger_eq
        dec_eval Let_def)
  moreover have "0 \<le> o_remaining_quantity sample_exit_order" "(0::rat) < 100" by (simp_all add: sample_exit_order_def)
  moreover have "\<forall>r \<in> set_option (map_of (l_rules sample_ledger) (o_exchange sample_exit_order, o_symbol sample_exit_order)).
      0 \<le> taker_fee_rate r"
    by (simp add: sample_exit_order_def sample_ledger_eq fresh_ledger_def sample_ledger_rules_def)
  moreover note maximum_fill_quantity_bounds [OF sample_ledger_inv, of sample_exit_order 100]
  ultimately show ?thesis
    by (simp add: Let_def sample_exit_order_def current_quantity_def sample_ledger_eq)
qed

text \<open>
  Liquidation is decided exactly when some position is open and the equity does not exceed
  the maintenance margin; the decision lists every open instrument exactly once, in order.
\<close>

theorem liquidation_decision_exact:
  assumes "ledger_inv l"
  shows "(case liquidation_decision t l of
      None \<Rightarrow> (\<forall>key. current_quantity key l = 0) \<or> maintenance_margin l < equity l
    | Some d \<Rightarrow> equity l \<le> maintenance_margin l \<and> ld_timestamp d = t \<and>
        ld_equity d = equity l \<and> ld_maintenance_margin d = maintenance_margin l \<and>
        ld_instruments d \<noteq> [] \<and> sorted (ld_instruments d) \<and> distinct (ld_instruments d) \<and>
        set (ld_instruments d) = {key. current_quantity key l \<noteq> 0})"
proof -
  have ok: "dict_ok (l_positions l)" using assms by (simp add: ledger_inv_def)
  have "set (open_keys l) = {key. \<exists>pos. (key, pos) \<in> set (l_positions l) \<and> is_open pos}"
    by (force simp: open_keys_def)
  also have "\<dots> = {key. current_quantity key l \<noteq> 0}"
    by (auto simp: dict_in_set_iff [OF ok] current_quantity_def is_open_def split: option.splits)
  finally have keys: "set (open_keys l) = {key. current_quantity key l \<noteq> 0}" .
  moreover have "distinct (open_keys l)"
    using ok by (simp add: open_keys_def dict_ok_def distinct_map_filter)
  moreover have "sorted (open_keys l)" by (simp add: open_keys_def)
  moreover have "open_keys l = [] \<longleftrightarrow> (\<forall>key. current_quantity key l = 0)"
    using keys by (metis (mono_tags, lifting) empty_Collect_eq set_empty)
  ultimately show ?thesis by (auto simp: liquidation_decision_def)
qed

theorem liquidation_decision_exact_witness:
  "liquidation_decision 30 (sample_ledger\<lparr>l_cash := 20\<rparr>) =
     Some \<lparr>ld_timestamp = 30, ld_equity = 20, ld_maintenance_margin = 20,
           ld_instruments = [(''x'', ''BTC'')]\<rparr> \<and>
   set [(''x'', ''BTC'')] = {key. current_quantity key (sample_ledger\<lparr>l_cash := 20\<rparr>) \<noteq> 0}"
proof -
  let ?l = "sample_ledger\<lparr>l_cash := 20\<rparr>"
  have d: "liquidation_decision 30 ?l = Some \<lparr>ld_timestamp = 30, ld_equity = 20,
      ld_maintenance_margin = 20, ld_instruments = [(''x'', ''BTC'')]\<rparr>"
    by (simp add: liquidation_decision_def open_keys_def equity_def unrealized_pnl_def dict_values_def
        maintenance_margin_def position_notional_def position_unrealized_pnl_def is_open_def
        sample_ledger_eq fresh_ledger_def sample_ledger_rules_def new_position_def dec_eval)
  have "ledger_inv ?l" using sample_ledger_inv
    by (simp add: ledger_inv_def account_ok_def fills_of_def funding_of_def)
  from liquidation_decision_exact [OF this, of 30] d show ?thesis by simp
qed

text \<open>
  Funding: a payment is booked only for an open position, on cash and on the position
  alike; with a positive rate a long position pays and a short one receives, and the payments
  of opposite positions cancel exactly.
\<close>

lemma funding_amount_odd: "funding_amount (- q) price rate = - funding_amount q price rate"
  by (simp add: funding_amount_def dec_ops d28.rnd_minus)

theorem funding_correct:
  assumes "apply_funding e s t rate price l = (Inr (Some r), l')"
  shows "let q = current_quantity (e, s) l in q \<noteq> 0 \<and> fr_position_quantity r = q \<and>
    current_quantity (e, s) l' = q \<and> l_cash l' = dadd (l_cash l) (fr_amount r) \<and>
    l_funding_records l' = l_funding_records l @ [r] \<and>
    fr_amount r = - funding_amount (- q) price rate \<and>
    (fr_amount r < 0 \<longleftrightarrow> 0 < q * rate) \<and> (0 < fr_amount r \<longleftrightarrow> q * rate < 0)"
proof -
  have 0: "fr_position_quantity r = current_quantity (e, s) l"
    using assms by (cases t; cases "map_of (l_positions l) (e, s)")
      (auto simp: apply_funding_def Let_def current_quantity_def split: if_splits)
  from assms show ?thesis
  proof (cases rule: apply_funding_cases)
    case (paid pos r')
    have sgn: "fr_amount r < 0 \<longleftrightarrow> 0 < p_quantity pos * rate" "0 < fr_amount r \<longleftrightarrow> p_quantity pos * rate < 0"
      using paid(3,5,8)
      by (auto simp: funding_amount_def dec_sign zero_less_mult_iff mult_less_0_iff)
    show ?thesis using paid sgn 0
      by (simp add: Let_def current_quantity_def is_open_def funding_amount_odd)
  qed blast
qed

theorem funding_correct_witness:
  "\<exists>r l'. apply_funding ''x'' ''BTC'' (Aware 50) (1 / 1000) 100 sample_ledger = (Inr (Some r), l') \<and>
     fr_amount r < 0 \<and> l_cash l' = dadd 999 (fr_amount r)"
proof -
  have q: "current_quantity (''x'', ''BTC'') sample_ledger = 2" "l_cash sample_ledger = 999"
    by (simp_all add: current_quantity_def sample_ledger_eq)
  obtain r l' where f: "apply_funding ''x'' ''BTC'' (Aware 50) (1 / 1000) 100 sample_ledger = (Inr (Some r), l')"
    by (simp add: apply_funding_def sample_ledger_eq is_open_def Let_def)
  show ?thesis using funding_correct [OF f] f by (auto simp: Let_def q)
qed

lemma foldl_dadd_abs:
  "list_all2 (\<lambda>x y. \<bar>x\<bar> \<le> y) xs ys \<Longrightarrow> \<bar>a\<bar> \<le> b \<Longrightarrow> \<bar>foldl dadd a xs\<bar> \<le> foldl dadd b ys"
proof (induction xs ys arbitrary: a b rule: list_all2_induct)
  case (Cons x xs y ys)
  have "\<bar>dadd a x\<bar> = drnd \<bar>a + x\<bar>" by (simp add: dadd_def d28.rnd_abs)
  also have "\<dots> \<le> dadd b y" unfolding dadd_def using Cons by (intro d28.rnd_mono) linarith
  finally show ?case using Cons.IH by simp
qed simp

lemma maintenance_le_gross:
  assumes "\<forall>(key, pos) \<in> set ps. 0 \<le> position_notional pos \<and> is_dec (position_notional pos)"
    "\<forall>key r. rules key = Some r \<longrightarrow> 0 \<le> maintenance_margin_rate r \<and> maintenance_margin_rate r < 1"
  shows "b \<le> c \<Longrightarrow> is_dec c \<Longrightarrow> foldl dadd b (concat (map (\<lambda>(key, pos). case rules key of None \<Rightarrow> []
       | Some r \<Rightarrow> [dmul (position_notional pos) (maintenance_margin_rate r)]) ps))
     \<le> foldl dadd c (map (\<lambda>kp. position_notional (snd kp)) ps)"
  using assms(1)
proof (induction ps arbitrary: b c)
  case (Cons kp ps)
  obtain key pos where kp: "kp = (key, pos)" by fastforce
  have nn: "0 \<le> position_notional pos" "is_dec (position_notional pos)" using Cons.prems kp by auto
  show ?case
  proof (cases "rules key")
    case None
    have "b \<le> dadd c (position_notional pos)"
      using Cons.prems(1) dadd_ge [OF Cons.prems(2) nn(1)] by linarith
    then show ?thesis using Cons.IH [of b "dadd c (position_notional pos)"] Cons.prems None kp by simp
  next
    case (Some r)
    have "position_notional pos * maintenance_margin_rate r \<le> position_notional pos"
      using assms(2) Some nn by (intro mult_left_le) (auto simp: less_imp_le)
    then have "dmul (position_notional pos) (maintenance_margin_rate r) \<le> position_notional pos"
      using nn unfolding dmul_def by (intro d28.rnd_le_fixed) (simp_all add: is_dec_def)
    then have "dadd b (dmul (position_notional pos) (maintenance_margin_rate r)) \<le> dadd c (position_notional pos)"
      using Cons.prems(1) unfolding dadd_def by (intro d28.rnd_mono) linarith
    then show ?thesis using Cons.IH Cons.prems Some kp by simp
  qed
qed simp

text \<open>
  Exposure and margin figures are consistent whatever the rounding: the gross exposure is
  never below the absolute net exposure, and with maintenance rates below one the maintenance
  margin lies between zero and the gross exposure; margin in use and available margin are never
  negative.
\<close>

theorem exposure_consistent:
  assumes "ledger_inv l" "\<forall>(key, r) \<in> set (l_rules l). rules_ok r"
  shows "\<bar>net_exposure l\<bar> \<le> gross_exposure l \<and> 0 \<le> maintenance_margin l \<and>
    maintenance_margin l \<le> gross_exposure l \<and> 0 \<le> margin_used l \<and> 0 \<le> available_margin l"
proof -
  have acc: "0 \<le> p_mark_price pos" "is_dec (p_quantity pos)" if "(key, pos) \<in> set (l_positions l)" for key pos
    using that assms(1) by (auto simp: ledger_inv_def account_ok_def)
  have nn: "0 \<le> position_notional pos \<and> is_dec (position_notional pos)"
    if "(key, pos) \<in> set (l_positions l)" for key pos
    using acc [OF that] by (simp add: position_notional_def dec_sign)
  have "\<bar>dmul (p_quantity pos) (p_mark_price pos)\<bar> \<le> position_notional pos"
    if "(key, pos) \<in> set (l_positions l)" for key pos
    using acc [OF that]
    by (auto simp: position_notional_def is_open_def dmul_def dabs_is_dec d28.rnd_abs [symmetric] abs_mult)
  then have "list_all2 (\<lambda>x y. \<bar>x\<bar> \<le> y)
      (map (\<lambda>pos. dmul (p_quantity pos) (p_mark_price pos)) (dict_values (l_positions l)))
      (map position_notional (dict_values (l_positions l)))"
    by (auto simp: list_all2_conv_all_nth dict_values_def in_set_conv_nth) (metis nth_mem prod.collapse)
  then have net: "\<bar>net_exposure l\<bar> \<le> gross_exposure l"
    unfolding net_exposure_def gross_exposure_def dsum_def by (intro foldl_dadd_abs) simp_all
  have rates: "0 \<le> maintenance_margin_rate r \<and> maintenance_margin_rate r < 1"
    if "map_of (l_rules l) key = Some r" for key r
    using map_of_SomeD [OF that] assms(2) by (auto simp: rules_ok_def)
  have "maintenance_margin l \<le> gross_exposure l"
    using maintenance_le_gross [OF _ _ order_refl is_dec_0, of "l_positions l" "map_of (l_rules l)"] nn rates
    unfolding maintenance_margin_def gross_exposure_def dsum_def dict_values_def map_map comp_def by blast
  moreover have "0 \<le> maintenance_margin l"
    unfolding maintenance_margin_def using nn rates
    by (intro dsum_nonneg) (auto simp: dec_sign split: option.splits)
  moreover have "0 \<le> margin_used l"
    using net assms(1) by (auto simp: margin_used_def dec_sign ledger_inv_def)
  ultimately show ?thesis using net by (simp add: available_margin_def)
qed

theorem exposure_consistent_witness:
  "\<bar>net_exposure sample_ledger\<bar> \<le> gross_exposure sample_ledger \<and>
   maintenance_margin sample_ledger \<le> gross_exposure sample_ledger"
proof -
  have "\<forall>(key, r) \<in> set (l_rules sample_ledger). rules_ok r"
    by (simp add: sample_ledger_eq fresh_ledger_def sample_ledger_rules_def rules_ok_def)
  from exposure_consistent [OF sample_ledger_inv this] show ?thesis by simp
qed

end
