(* ===== verification/Backtest_Events.thy ===== *)
theory Backtest_Events
  imports Execution_Models "HOL-Library.Multiset"
begin

text \<open>
  \<open>src/app/services/backtest/events.py\<close>: the events of a backtest and their queue. The queue
  is a \<open>heapq\<close> heap ordered by timestamp, priority and insertion sequence; since the sequence
  number makes keys unique, a heap is observed only through its contents and its least
  element, and it is modelled by the list in key order. What the engine may rely on is the
  locale \<open>event_queue\<close>.
\<close>

section \<open>Events\<close>

record SignalEvent =
  g_timestamp :: instant
  g_signal_id :: string
  g_exchange :: string
  g_symbol :: string
  g_side :: Side
  g_quantity :: dec
  g_order_type :: OrderType
  g_time_in_force :: TimeInForce
  g_limit_price :: "dec option"
  g_calculation_delay :: timedelta
  g_submission_delay :: timedelta
  g_post_only :: bool
  g_reduce_only :: bool
  g_expires_at :: "instant option"
  g_stop_loss :: "dec option"
  g_take_profit :: "dec option"
  g_reason :: string

definition SignalEvent_post_init ::
  "SignalEvent \<Rightarrow> datetime \<Rightarrow> datetime option \<Rightarrow> SignalEvent result" where
  "SignalEvent_post_init g timestamp expires_at =
     bindE (as_utc ''event timestamp must be timezone-aware'' timestamp) (\<lambda>ts.
     bindE (raise_if (g_signal_id g = []) (ValueError ''signal_id is required'')) (\<lambda>_.
     bindE (raise_if (g_quantity g \<le> 0) (ValueError ''signal quantity must be positive'')) (\<lambda>_.
     bindE (raise_if (g_calculation_delay g < 0 \<or> g_submission_delay g < 0)
       (ValueError ''delays cannot be negative'')) (\<lambda>_.
     bindE (raise_if (g_order_type g = LIMIT \<and> g_limit_price g = None)
       (ValueError ''limit signal requires limit_price'')) (\<lambda>_.
     bindE (raise_if (g_order_type g = MARKET \<and> g_limit_price g \<noteq> None)
       (ValueError ''market signal cannot include limit_price'')) (\<lambda>_.
     bindE (case expires_at of
         None \<Rightarrow> Inr None
       | Some d \<Rightarrow>
           bindE (as_utc ''event timestamp must be timezone-aware'' d) (\<lambda>ex.
           bindE (raise_if (ex \<le> ts + g_calculation_delay g + g_submission_delay g)
             (ValueError ''signal expiry must follow submission'')) (\<lambda>_. Inr (Some ex)))) (\<lambda>ex.
     Inr (g\<lparr>g_timestamp := ts, g_expires_at := ex\<rparr>))))))))"

record FundingEvent =
  fe_timestamp :: instant
  fe_exchange :: string
  fe_symbol :: string
  fe_rate :: dec
  fe_mark_price :: dec

definition FundingEvent_post_init :: "FundingEvent \<Rightarrow> datetime \<Rightarrow> FundingEvent result" where
  "FundingEvent_post_init fe timestamp =
     bindE (as_utc ''event timestamp must be timezone-aware'' timestamp) (\<lambda>ts.
     bindE (raise_if (fe_mark_price fe \<le> 0)
       (ValueError ''funding mark price must be positive'')) (\<lambda>_.
     Inr (fe\<lparr>fe_timestamp := ts\<rparr>)))"

datatype BacktestEvent =
    Signal_event SignalEvent
  | Order_creation_event instant SignalEvent
  | Order_submission_event instant Order
  | Market_event MarketSnapshot
  | Funding_event FundingEvent

fun event_timestamp :: "BacktestEvent \<Rightarrow> instant" where
  "event_timestamp (Signal_event g) = g_timestamp g"
| "event_timestamp (Order_creation_event t g) = t"
| "event_timestamp (Order_submission_event t ord) = t"
| "event_timestamp (Market_event s) = s_timestamp s"
| "event_timestamp (Funding_event fe) = fe_timestamp fe"

fun event_name :: "BacktestEvent \<Rightarrow> string" where
  "event_name (Signal_event g) = ''SignalEvent''"
| "event_name (Order_creation_event t g) = ''OrderCreationEvent''"
| "event_name (Order_submission_event t ord) = ''OrderSubmissionEvent''"
| "event_name (Market_event s) = ''MarketEvent''"
| "event_name (Funding_event fe) = ''FundingEvent''"

fun event_priority :: "BacktestEvent \<Rightarrow> nat" where
  "event_priority (Market_event s) = 10"
| "event_priority (Funding_event fe) = 20"
| "event_priority (Signal_event g) = 30"
| "event_priority (Order_creation_event t g) = 40"
| "event_priority (Order_submission_event t ord) = 50"

definition event_rank :: "BacktestEvent \<Rightarrow> instant \<times> nat" where
  "event_rank ev = (event_timestamp ev, event_priority ev)"

section \<open>The queue\<close>

record QueuedEvent =
  qe_timestamp :: instant
  qe_priority :: nat
  qe_sequence :: nat
  qe_event :: BacktestEvent

type_synonym event_key = "instant \<times> nat \<times> nat"

definition qe_key :: "QueuedEvent \<Rightarrow> event_key" where
  "qe_key qe = (qe_timestamp qe, qe_priority qe, qe_sequence qe)"

definition queued :: "BacktestEvent \<Rightarrow> nat \<Rightarrow> QueuedEvent" where
  "queued ev n = \<lparr>qe_timestamp = event_timestamp ev, qe_priority = event_priority ev,
     qe_sequence = n, qe_event = ev\<rparr>"

record EventQueue =
  eq_heap :: "QueuedEvent list"
  eq_sequence :: nat

definition EventQueue_init :: EventQueue where
  "EventQueue_init = \<lparr>eq_heap = [], eq_sequence = 0\<rparr>"

definition push :: "BacktestEvent \<Rightarrow> EventQueue \<Rightarrow> EventQueue" where
  "push ev q =
     (let n = Suc (eq_sequence q)
      in q\<lparr>eq_sequence := n, eq_heap := insort_key qe_key (queued ev n) (eq_heap q)\<rparr>)"

definition pop :: "EventQueue \<Rightarrow> (BacktestEvent, EventQueue) outcome" where
  "pop q =
     (case eq_heap q of
        [] \<Rightarrow> (Inl (IndexError ''event queue is empty''), q)
      | qe # rest \<Rightarrow> (Inr (qe_event qe), q\<lparr>eq_heap := rest\<rparr>))"

definition queue_nonempty :: "EventQueue \<Rightarrow> bool" where
  "queue_nonempty q \<longleftrightarrow> eq_heap q \<noteq> []"

definition queue_length :: "EventQueue \<Rightarrow> nat" where
  "queue_length q = length (eq_heap q)"

section \<open>The contract of an event queue\<close>

text \<open>
  A queue holds a multiset of queued events. \<open>push\<close> adds one whose sequence number is larger
  than any before; \<open>pop\<close> removes the least by key and fails exactly on the empty queue.
\<close>

fun drain :: "('q \<Rightarrow> (BacktestEvent, 'q) outcome) \<Rightarrow> nat \<Rightarrow> 'q \<Rightarrow> BacktestEvent list" where
  "drain pop_op 0 q = []"
| "drain pop_op (Suc n) q =
     (case pop_op q of (Inl e, q') \<Rightarrow> [] | (Inr ev, q') \<Rightarrow> ev # drain pop_op n q')"

definition not_before :: "instant \<times> nat \<Rightarrow> QueuedEvent multiset \<Rightarrow> bool" where
  "not_before k M \<longleftrightarrow> (\<forall>x \<in># M. k \<le> (qe_timestamp x, qe_priority x))"

locale event_queue =
  fixes push_op :: "BacktestEvent \<Rightarrow> 'q \<Rightarrow> 'q"
    and pop_op :: "'q \<Rightarrow> (BacktestEvent, 'q) outcome"
    and items :: "'q \<Rightarrow> QueuedEvent multiset" and counter :: "'q \<Rightarrow> nat" and ok :: "'q \<Rightarrow> bool"
  assumes push_items: "ok q \<Longrightarrow> items (push_op ev q) = add_mset (queued ev (Suc (counter q))) (items q)"
    and push_counter: "ok q \<Longrightarrow> counter (push_op ev q) = Suc (counter q)"
    and push_ok: "ok q \<Longrightarrow> ok (push_op ev q)"
    and pop_items: "ok q \<Longrightarrow> pop_op q = (Inr ev, q') \<Longrightarrow>
      \<exists>n. items q = add_mset (queued ev n) (items q') \<and>
          (\<forall>x \<in># items q'. qe_key (queued ev n) < qe_key x)"
    and pop_ok: "ok q \<Longrightarrow> pop_op q = (Inr ev, q') \<Longrightarrow> ok q' \<and> counter q' = counter q"
    and pop_empty: "ok q \<Longrightarrow> (\<exists>e. fst (pop_op q) = Inl e) \<longleftrightarrow> items q = {#}"
    and pop_error: "ok q \<Longrightarrow> fst (pop_op q) = Inl e \<Longrightarrow> snd (pop_op q) = q"
begin

lemma pop_next: "ok q \<Longrightarrow> items q \<noteq> {#} \<Longrightarrow> \<exists>ev q'. pop_op q = (Inr ev, q')"
  using pop_empty [of q] by (cases "pop_op q"; cases "fst (pop_op q)") auto

lemma pop_size: "ok q \<Longrightarrow> pop_op q = (Inr ev, q') \<Longrightarrow> size (items q) = Suc (size (items q'))"
  using pop_items [of q ev q'] by auto

lemma not_before_pop:
  assumes "ok q" "pop_op q = (Inr ev, q')"
  shows "not_before (event_rank ev) (items q')"
proof -
  obtain n where n: "\<forall>x \<in># items q'. qe_key (queued ev n) < qe_key x"
    using pop_items [OF assms] by blast
  have "event_rank ev \<le> (qe_timestamp x, qe_priority x)" if "x \<in># items q'" for x
  proof -
    have "qe_key (queued ev n) < qe_key x" using n that by blast
    then show ?thesis by (auto simp: qe_key_def queued_def event_rank_def less_prod_def)
  qed
  then show ?thesis by (simp add: not_before_def)
qed

lemma not_before_popped:
  assumes "ok q" "pop_op q = (Inr ev, q')" "not_before k (items q)"
  shows "k \<le> event_rank ev"
  using pop_items [OF assms(1,2)] assms(3) by (auto simp: not_before_def queued_def event_rank_def)

lemma not_before_push:
  assumes "ok q" "not_before k (items q)" "k \<le> event_rank ev"
  shows "not_before k (items (push_op ev q))"
  using assms by (auto simp: not_before_def push_items queued_def event_rank_def)

text \<open>Pushing a batch and draining it again returns every event, in key order.\<close>

lemma drain_contents:
  "ok q \<Longrightarrow> mset (drain pop_op (size (items q)) q) = image_mset qe_event (items q)"
proof (induction "size (items q)" arbitrary: q)
  case (Suc n)
  then have "items q \<noteq> {#}" by auto
  then obtain ev q' where p: "pop_op q = (Inr ev, q')" using pop_next Suc.prems by blast
  obtain k where k: "items q = add_mset (queued ev k) (items q')" using pop_items [OF Suc.prems p] by blast
  then have "mset (drain pop_op (size (items q')) q') = image_mset qe_event (items q')"
    using Suc pop_ok [OF Suc.prems p] by auto
  then show ?case using p k by (simp add: queued_def)
qed simp

lemma drain_sorted:
  "ok q \<Longrightarrow> sorted_wrt (\<le>) (map event_rank (drain pop_op n q)) \<and>
   (\<forall>k. not_before k (items q) \<longrightarrow> (\<forall>ev \<in> set (drain pop_op n q). k \<le> event_rank ev))"
proof (induction n arbitrary: q)
  case (Suc n)
  show ?case
  proof (cases "pop_op q")
    case (Pair r q')
    show ?thesis
    proof (cases r)
      case (Inr ev)
      then have p: "pop_op q = (Inr ev, q')" using Pair by simp
      note IH = Suc.IH [OF conjunct1 [OF pop_ok [OF Suc.prems p]]]
      have "event_rank ev \<le> event_rank x"
        if "x \<in> set (drain pop_op n q')" for x
        using IH not_before_pop [OF Suc.prems p] that by blast
      then show ?thesis
        using IH p not_before_popped [OF Suc.prems p] by (auto intro: order_trans simp del: less_eq_prod_simp)
    qed (use Pair in simp)
  qed
qed simp

end

section \<open>The list queue fulfils the contract\<close>

definition queue_ok :: "EventQueue \<Rightarrow> bool" where
  "queue_ok q \<longleftrightarrow> sorted (map qe_key (eq_heap q)) \<and>
     (\<forall>x \<in> set (eq_heap q). qe_sequence x \<le> eq_sequence q \<and> x = queued (qe_event x) (qe_sequence x)) \<and>
     distinct (map qe_sequence (eq_heap q))"

definition queue_items :: "EventQueue \<Rightarrow> QueuedEvent multiset" where
  "queue_items q = mset (eq_heap q)"

lemma queue_ok_init [simp]: "queue_ok EventQueue_init" "queue_items EventQueue_init = {#}"
  by (simp_all add: queue_ok_def EventQueue_init_def queue_items_def)

lemma queue_ok_push: "queue_ok q \<Longrightarrow> queue_ok (push ev q)"
proof -
  assume ok: "queue_ok q"
  let ?x = "queued ev (Suc (eq_sequence q))"
  have "mset (map qe_sequence (insort_key qe_key ?x (eq_heap q))) = mset (map qe_sequence (?x # eq_heap q))"
    by simp
  then have "distinct (map qe_sequence (insort_key qe_key ?x (eq_heap q))) \<longleftrightarrow> distinct (map qe_sequence (?x # eq_heap q))"
    by (rule mset_eq_imp_distinct_iff)
  moreover have "qe_sequence ?x \<notin> qe_sequence ` set (eq_heap q)"
    using ok by (fastforce simp: queue_ok_def queued_def)
  ultimately show ?thesis using ok
    by (auto simp: queue_ok_def push_def Let_def sorted_insort_key set_insort_key le_SucI) (simp_all add: queued_def)
qed

interpretation eq: event_queue push pop queue_items eq_sequence queue_ok
proof unfold_locales
  fix q ev q' assume ok: "queue_ok q" and p: "pop q = (Inr ev, q')"
  obtain qe rest where h: "eq_heap q = qe # rest" and ev: "ev = qe_event qe" and q': "q' = q\<lparr>eq_heap := rest\<rparr>"
    using p by (auto simp: pop_def split: list.splits)
  have qe: "qe = queued ev (qe_sequence qe)" using ok h ev by (simp add: queue_ok_def)
  have "qe_key qe < qe_key x" if "x \<in> set rest" for x
  proof -
    have "qe_key qe \<le> qe_key x" "qe_sequence qe \<noteq> qe_sequence x"
      using ok h that by (auto simp: queue_ok_def)
    then show ?thesis by (metis qe_key_def order_le_imp_less_or_eq prod.inject)
  qed
  then show "\<exists>n. queue_items q = add_mset (queued ev n) (queue_items q') \<and>
      (\<forall>x \<in># queue_items q'. qe_key (queued ev n) < qe_key x)"
    using h q' qe by (intro exI [of _ "qe_sequence qe"]) (simp add: queue_items_def)
  show "queue_ok q' \<and> eq_sequence q' = eq_sequence q" using ok h q' by (auto simp: queue_ok_def)
qed (auto simp: queue_ok_push, auto simp: push_def pop_def Let_def queue_items_def split: list.splits)

text \<open>The queue as a multiset of events, and the two operations on it.\<close>

definition queue_events :: "EventQueue \<Rightarrow> BacktestEvent multiset" where
  "queue_events q = image_mset qe_event (queue_items q)"

lemma queue_push_events:
  "queue_ok q \<Longrightarrow> queue_ok (fold push evs q) \<and> queue_events (fold push evs q) = queue_events q + mset evs"
proof (induction evs arbitrary: q)
  case (Cons ev evs)
  have "queue_events (push ev q) = add_mset ev (queue_events q)"
    using Cons.prems by (simp add: queue_events_def eq.push_items queued_def)
  then show ?case using Cons.IH [OF queue_ok_push [OF Cons.prems], of ev] by simp
qed simp

lemma queue_pop_events:
  assumes "queue_ok q" "pop q = (Inr ev, q')"
  shows "queue_ok q' \<and> queue_events q = add_mset ev (queue_events q') \<and>
    (\<forall>x \<in># queue_events q'. event_rank ev \<le> event_rank x)"
proof -
  obtain n where n: "queue_items q = add_mset (queued ev n) (queue_items q')"
    using eq.pop_items [OF assms] by blast
  have ok: "queue_ok q'" using eq.pop_ok [OF assms] by blast
  have "event_rank (qe_event x) = (qe_timestamp x, qe_priority x)" if "x \<in># queue_items q'" for x
  proof -
    have "x = queued (qe_event x) (qe_sequence x)" using ok that by (simp add: queue_ok_def queue_items_def)
    then show ?thesis by (metis QueuedEvent.select_convs(1,2) event_rank_def queued_def)
  qed
  then show ?thesis
    using ok n eq.not_before_pop [OF assms] by (auto simp: queue_events_def queued_def not_before_def)
qed

lemma queue_pop_nonempty: "queue_ok q \<Longrightarrow> queue_nonempty q \<Longrightarrow> \<exists>ev q'. pop q = (Inr ev, q')"
  using eq.pop_next [of q] by (simp add: queue_items_def queue_nonempty_def)

text \<open>Events of equal rank keep the order in which they were pushed.\<close>

lemma insort_key_last: "\<forall>y \<in> set ys. f y < f x \<Longrightarrow> insort_key f x ys = ys @ [x]"
  by (induction ys) (auto simp: not_le)

lemma drain_heap: "drain pop (length (eq_heap q)) q = map qe_event (eq_heap q)"
proof (induction "eq_heap q" arbitrary: q)
  case (Cons x xs)
  then show ?case using Cons.hyps(1) [of "q\<lparr>eq_heap := xs\<rparr>"] by (simp add: pop_def flip: Cons.hyps(2))
qed simp

lemma push_class:
  assumes "queue_ok q"
  shows "map qe_event (filter (\<lambda>x. (qe_timestamp x, qe_priority x) = k) (eq_heap (push ev q))) =
    map qe_event (filter (\<lambda>x. (qe_timestamp x, qe_priority x) = k) (eq_heap q)) @ (if event_rank ev = k then [ev] else [])"
proof -
  let ?x = "queued ev (Suc (eq_sequence q))" and ?P = "\<lambda>x. (qe_timestamp x, qe_priority x) = k"
  have h: "eq_heap (push ev q) = insort_key qe_key ?x (eq_heap q)" by (simp add: push_def Let_def)
  have x: "?P ?x \<longleftrightarrow> event_rank ev = k" "qe_event ?x = ev" by (simp_all add: queued_def event_rank_def)
  have srt: "sorted (map qe_key (eq_heap q))" using assms by (simp add: queue_ok_def)
  show ?thesis
  proof (cases "event_rank ev = k")
    case True
    have "qe_key y < qe_key ?x" if "y \<in> set (filter ?P (eq_heap q))" for y
    proof -
      have "qe_sequence y \<le> eq_sequence q" using assms that by (simp add: queue_ok_def)
      then show ?thesis using that True by (auto simp: qe_key_def queued_def event_rank_def)
    qed
    then have "insort_key qe_key ?x (filter ?P (eq_heap q)) = filter ?P (eq_heap q) @ [?x]"
      by (intro insort_key_last) blast
    then show ?thesis using True x by (simp only: h filter_insort [OF srt, of ?P ?x]) simp
  next
    case False
    then have "filter ?P (insort_key qe_key ?x (eq_heap q)) = filter ?P (eq_heap q)"
      using x(1) by (intro filter_insort_triv) blast
    then show ?thesis using False by (simp only: h) simp
  qed
qed

lemma push_all_class:
  "queue_ok q \<Longrightarrow> map qe_event (filter (\<lambda>x. (qe_timestamp x, qe_priority x) = k) (eq_heap (fold push evs q))) =
    map qe_event (filter (\<lambda>x. (qe_timestamp x, qe_priority x) = k) (eq_heap q)) @ filter (\<lambda>ev. event_rank ev = k) evs"
  by (induction evs arbitrary: q) (simp_all add: push_class queue_ok_push)

lemma heap_rank:
  assumes "queue_ok q"
  shows "map (\<lambda>x. event_rank (qe_event x)) (eq_heap q) = map (\<lambda>x. (qe_timestamp x, qe_priority x)) (eq_heap q)"
proof (rule map_cong [OF refl])
  fix x assume "x \<in> set (eq_heap q)"
  then have "x = queued (qe_event x) (qe_sequence x)" using assms by (simp add: queue_ok_def)
  then show "event_rank (qe_event x) = (qe_timestamp x, qe_priority x)"
    by (metis QueuedEvent.select_convs(1,2) event_rank_def queued_def)
qed

text \<open>
  C40. The event queue is a stable priority queue: pushing any batch of events and popping until
  the queue is empty is the stable sort of the batch by timestamp and, at equal timestamps, market
  data before funding before signals before order creation before submission; events of the same
  kind and time come out in the order in which they were pushed.
\<close>

theorem queue_drains_in_order:
  "drain pop (length evs) (fold push evs EventQueue_init) = sort_key event_rank evs"
proof -
  let ?q = "fold push evs EventQueue_init"
  have q: "queue_ok ?q" "queue_events ?q = mset evs"
    using queue_push_events [of EventQueue_init evs] by (simp_all add: queue_events_def)
  then have "length (eq_heap ?q) = length evs"
    by (metis queue_events_def queue_items_def size_image_mset size_mset)
  then have out: "drain pop (length evs) ?q = map qe_event (eq_heap ?q)" using drain_heap [of ?q] by simp
  have "sort_key event_rank evs = map qe_event (eq_heap ?q)"
  proof (rule properties_for_sort_key)
    show "mset (map qe_event (eq_heap ?q)) = mset evs" using q(2) by (simp add: queue_events_def queue_items_def)
    show "filter (\<lambda>x. event_rank k = event_rank x) (map qe_event (eq_heap ?q)) = filter (\<lambda>x. event_rank k = event_rank x) evs"
      for k
    proof -
      have "filter (\<lambda>x. event_rank k = event_rank (qe_event x)) (eq_heap ?q) =
          filter (\<lambda>x. (qe_timestamp x, qe_priority x) = event_rank k) (eq_heap ?q)"
        using heap_rank [OF q(1)] by (intro filter_cong) (auto simp del: prod.inject)
      then show ?thesis
        using push_all_class [of EventQueue_init "event_rank k" evs]
        by (simp add: filter_map o_def EventQueue_init_def eq_commute [of "event_rank k"] queue_ok_def)
    qed
    show "sorted (map event_rank (map qe_event (eq_heap ?q)))"
      using eq.drain_sorted [OF q(1), of "length evs"] by (simp add: out sorted_wrt_map del: map_map)
  qed
  then show ?thesis by (simp add: out)
qed

end
