(* ===== verification/Backtest_Engine.thy ===== *)
theory Backtest_Engine
  imports Execution_Simulator Portfolio_Ledger Backtest_Events
begin

text \<open>
  \<open>src/app/services/backtest/engine.py\<close>: the event loop that ties queue, simulator and ledger
  together. A handler that raises returns the engine as the exception leaves it. The one
  thing the source leaves open is the iteration order of a Python set of instruments; it is the
  parameter \<open>set_iter\<close>, of which only \<open>set_iter_ok\<close> (each element once) is used.
\<close>

section \<open>State\<close>

record RejectedSignal =
  rs_signal_id :: string
  rs_timestamp :: instant
  rs_reason :: string

record BacktestEngine =
  en_queue :: EventQueue
  en_execution :: ExecutionSimulator
  en_portfolio :: PortfolioLedger
  en_order_sequence :: nat
  en_exit_sequence :: nat
  en_seen_signals :: "string set"
  en_exit_pending :: "InstrumentKey set"
  en_liquidation_pending :: "InstrumentKey set"
  en_trace :: "(instant \<times> string) list"
  en_liquidations :: "LiquidationDecision list"
  en_rejected_signals :: "RejectedSignal list"
  en_run_id :: string
  en_data_snapshot_id :: string

record BacktestResult =
  br_processed_events :: nat
  br_event_trace :: "(instant \<times> string) list"
  br_orders :: "Order list"
  br_fills :: "Fill list"
  br_snapshots :: "PortfolioSnapshot list"
  br_funding :: "FundingRecord list"
  br_liquidations :: "LiquidationDecision list"
  br_rejected_signals :: "RejectedSignal list"
  br_final_cash :: dec
  br_final_equity :: dec
  br_run_id :: string
  br_data_snapshot_id :: string

definition BacktestEngine_init ::
  "dec \<Rightarrow> (InstrumentKey, InstrumentRules) dict \<Rightarrow> dec \<Rightarrow> ExecutionModelConfig option \<Rightarrow>
   string \<Rightarrow> string \<Rightarrow> BacktestEngine result" where
  "BacktestEngine_init initial_cash rules leverage execution_config run_id data_snapshot_id =
     bindE (PortfolioLedger_init initial_cash rules leverage) (\<lambda>portfolio.
     Inr \<lparr>en_queue = EventQueue_init, en_execution = ExecutionSimulator_init rules execution_config,
          en_portfolio = portfolio, en_order_sequence = 0, en_exit_sequence = 0,
          en_seen_signals = {}, en_exit_pending = {}, en_liquidation_pending = {}, en_trace = [],
          en_liquidations = [], en_rejected_signals = [], en_run_id = run_id,
          en_data_snapshot_id = data_snapshot_id\<rparr>)"

definition push_event :: "BacktestEvent \<Rightarrow> BacktestEngine \<Rightarrow> BacktestEngine" where
  "push_event ev en = en\<lparr>en_queue := push ev (en_queue en)\<rparr>"

definition add_event :: "BacktestEvent \<Rightarrow> BacktestEngine \<Rightarrow> BacktestEngine" where
  "add_event ev en = push_event ev en"

definition add_events :: "BacktestEvent list \<Rightarrow> BacktestEngine \<Rightarrow> BacktestEngine" where
  "add_events evs en = fold add_event evs en"

section \<open>Signals and orders\<close>

definition on_signal :: "SignalEvent \<Rightarrow> BacktestEngine \<Rightarrow> BacktestEngine" where
  "on_signal g en =
     (if g_signal_id g \<in> en_seen_signals en
      then en\<lparr>en_rejected_signals := en_rejected_signals en @
             [\<lparr>rs_signal_id = g_signal_id g, rs_timestamp = g_timestamp g,
               rs_reason = ''duplicate signal_id''\<rparr>]\<rparr>
      else push_event (Order_creation_event (g_timestamp g + g_calculation_delay g) g)
             (en\<lparr>en_seen_signals := insert (g_signal_id g) (en_seen_signals en)\<rparr>))"

definition order_of_signal :: "nat \<Rightarrow> instant \<Rightarrow> SignalEvent \<Rightarrow> Order result" where
  "order_of_signal n created_at g =
     (let submitted_at = created_at + g_submission_delay g;
          ord = \<lparr>o_order_id = ''order-'' @ fmt12 n, o_signal_id = g_signal_id g,
                 o_exchange = g_exchange g, o_symbol = g_symbol g, o_side = g_side g,
                 o_quantity = g_quantity g, o_order_type = g_order_type g,
                 o_time_in_force = g_time_in_force g, o_signal_at = g_timestamp g,
                 o_created_at = created_at, o_submitted_at = submitted_at,
                 o_limit_price = g_limit_price g, o_post_only = g_post_only g,
                 o_reduce_only = g_reduce_only g, o_expires_at = g_expires_at g,
                 o_stop_loss = g_stop_loss g, o_take_profit = g_take_profit g,
                 o_status = CREATED, o_remaining_quantity = 0, o_rejection_reason = None\<rparr>
      in Order_post_init ord (Aware (g_timestamp g)) (Aware created_at) (Aware submitted_at)
           (map_option Aware (g_expires_at g)))"

definition on_order_creation ::
  "instant \<Rightarrow> SignalEvent \<Rightarrow> BacktestEngine \<Rightarrow> (unit, BacktestEngine) outcome" where
  "on_order_creation t g en =
     (let en1 = en\<lparr>en_order_sequence := Suc (en_order_sequence en)\<rparr> in
      case order_of_signal (en_order_sequence en1) t g of
        Inl e \<Rightarrow> (Inl e, en1)
      | Inr ord \<Rightarrow> (Inr (), push_event (Order_submission_event (t + g_submission_delay g) ord) en1))"

definition on_order_submission :: "Order \<Rightarrow> BacktestEngine \<Rightarrow> (unit, BacktestEngine) outcome" where
  "on_order_submission ord en =
     (let (res, sim) = submit ord (en_execution en)
      in (map_sum id (\<lambda>_. ()) res, en\<lparr>en_execution := sim\<rparr>))"

section \<open>Market events\<close>

definition engine_cap :: "MarketSnapshot \<Rightarrow> BacktestEngine \<Rightarrow> Order \<Rightarrow> dec" where
  "engine_cap snapshot en ord =
     (let price = (if o_side ord = BUY then s_ask snapshot else s_bid snapshot)
      in maximum_fill_quantity ord price (en_portfolio en))"

definition engine_consume :: "Order \<Rightarrow> Fill \<Rightarrow> BacktestEngine \<Rightarrow> (unit, BacktestEngine) outcome" where
  "engine_consume ord fill en =
     (case ledger_apply_fill fill (o_reduce_only ord) (o_stop_loss ord) (o_take_profit ord)
             (en_portfolio en) of
        (Inl e, l1) \<Rightarrow> (Inl e, en\<lparr>en_portfolio := l1\<rparr>)
      | (Inr realized, l1) \<Rightarrow>
          let (pos, l2) = position (f_exchange fill) (f_symbol fill) l1;
              closed_key = (f_exchange fill, f_symbol fill);
              en1 = en\<lparr>en_portfolio := l2\<rparr>
          in (Inr (),
              if is_open pos then en1
              else en1\<lparr>en_exit_pending := en_exit_pending en1 - {closed_key},
                       en_liquidation_pending := en_liquidation_pending en1 - {closed_key}\<rparr>))"

text \<open>The signal that \<open>_schedule_exit\<close> queues; \<open>exit_signal_valid\<close> shows it passes validation.\<close>

definition exit_signal :: "string \<Rightarrow> nat \<Rightarrow> instant \<Rightarrow> Position \<Rightarrow> SignalEvent" where
  "exit_signal reason n timestamp pos =
     \<lparr>g_timestamp = timestamp, g_signal_id = reason @ ''-'' @ fmt12 n,
      g_exchange = p_exchange pos, g_symbol = p_symbol pos,
      g_side = (if p_quantity pos > 0 then SELL else BUY), g_quantity = dabs (p_quantity pos),
      g_order_type = MARKET, g_time_in_force = GTC, g_limit_price = None,
      g_calculation_delay = 0, g_submission_delay = 0, g_post_only = False, g_reduce_only = True,
      g_expires_at = None, g_stop_loss = None, g_take_profit = None, g_reason = reason\<rparr>"

definition schedule_exit :: "Position \<Rightarrow> instant \<Rightarrow> string \<Rightarrow> BacktestEngine \<Rightarrow> BacktestEngine" where
  "schedule_exit pos timestamp reason en =
     (let n = Suc (en_exit_sequence en);
          en1 = en\<lparr>en_exit_pending := insert (p_exchange pos, p_symbol pos) (en_exit_pending en),
                   en_exit_sequence := n\<rparr>
      in push_event (Signal_event (exit_signal reason n timestamp pos)) en1)"

fun trigger_name :: "Trigger \<Rightarrow> string" where
  "trigger_name Stop_loss = ''stop_loss''"
| "trigger_name Take_profit = ''take_profit''"

definition check_protection :: "MarketSnapshot \<Rightarrow> BacktestEngine \<Rightarrow> BacktestEngine" where
  "check_protection snapshot en =
     (let key = (s_exchange snapshot, s_symbol snapshot) in
      case map_of (l_positions (en_portfolio en)) key of
        None \<Rightarrow> en
      | Some pos \<Rightarrow>
          if is_open pos \<and> key \<notin> en_exit_pending en
          then (case protection_trigger snapshot pos of
                  None \<Rightarrow> en
                | Some t \<Rightarrow> schedule_exit pos (s_timestamp snapshot) (trigger_name t) en)
          else en)"

text \<open>
  One turn of the loop over the newly liquidated instruments. They come from the ledger's open
  positions, so the lookup of the code cannot fail (\<open>liquidation_decision_keys\<close>).
\<close>

lemma liquidation_decision_keys:
  "liquidation_decision t l = Some d \<Longrightarrow> k \<in> set (ld_instruments d) \<Longrightarrow> map_of (l_positions l) k \<noteq> None"
proof -
  assume "liquidation_decision t l = Some d" "k \<in> set (ld_instruments d)"
  then have "k \<in> set (open_keys l)" by (auto simp: liquidation_decision_def split: if_splits)
  then have "k \<in> fst ` set (l_positions l)" by (force simp: open_keys_def)
  then show ?thesis by (simp add: map_of_eq_None_iff)
qed

definition liquidate_key :: "instant \<Rightarrow> InstrumentKey \<Rightarrow> BacktestEngine \<Rightarrow> BacktestEngine" where
  "liquidate_key timestamp key en =
     (case map_of (l_positions (en_portfolio en)) key of
        None \<Rightarrow> en
      | Some pos \<Rightarrow>
          if is_open pos \<and> key \<notin> en_exit_pending en
          then schedule_exit pos timestamp ''liquidation'' en else en)"

definition cancel_openings :: "ExecutionSimulator \<Rightarrow> ExecutionSimulator" where
  "cancel_openings sim =
     sim\<lparr>sim_orders := map (\<lambda>(k, ord). (k, if o_reduce_only ord then ord
                             else cancel ''portfolio liquidation'' False ord)) (sim_orders sim)\<rparr>"

type_synonym set_iter = "InstrumentKey list \<Rightarrow> InstrumentKey list"

definition check_liquidation :: "set_iter \<Rightarrow> instant \<Rightarrow> BacktestEngine \<Rightarrow> BacktestEngine" where
  "check_liquidation set_iter timestamp en =
     (case liquidation_decision timestamp (en_portfolio en) of
        None \<Rightarrow> en
      | Some decision \<Rightarrow>
          let new = filter (\<lambda>k. k \<notin> en_liquidation_pending en) (ld_instruments decision);
              en1 = (if new \<noteq> []
                     then en\<lparr>en_liquidations := en_liquidations en @ [decision],
                             en_liquidation_pending := en_liquidation_pending en \<union> set new\<rparr>
                     else en);
              en2 = en1\<lparr>en_execution := cancel_openings (en_execution en1)\<rparr>
          in fold (liquidate_key timestamp) (set_iter new) en2)"

definition on_market :: "set_iter \<Rightarrow> MarketSnapshot \<Rightarrow> BacktestEngine \<Rightarrow> (unit, BacktestEngine) outcome" where
  "on_market set_iter snapshot en =
     (let en1 = en\<lparr>en_portfolio := mark snapshot (en_portfolio en)\<rparr> in
      case match_snapshot snapshot (Some (engine_cap snapshot)) (Some engine_consume)
             (en_execution en1, en1) of
        (Inl e, (sim, en2)) \<Rightarrow> (Inl e, en2\<lparr>en_execution := sim\<rparr>)
      | (Inr fills, (sim, en2)) \<Rightarrow>
          let en3 = en2\<lparr>en_execution := sim, en_portfolio := mark snapshot (en_portfolio en2)\<rparr>;
              en4 = check_protection snapshot en3;
              en5 = check_liquidation set_iter (s_timestamp snapshot) en4
          in (Inr (), en5\<lparr>en_portfolio := snd (capture (s_timestamp snapshot) (en_portfolio en5))\<rparr>))"

section \<open>Funding events and the loop\<close>

definition on_funding :: "FundingEvent \<Rightarrow> BacktestEngine \<Rightarrow> (unit, BacktestEngine) outcome" where
  "on_funding fe en =
     (case apply_funding (fe_exchange fe) (fe_symbol fe) (Aware (fe_timestamp fe)) (fe_rate fe)
             (fe_mark_price fe) (en_portfolio en) of
        (Inl e, l) \<Rightarrow> (Inl e, en\<lparr>en_portfolio := l\<rparr>)
      | (Inr r, l) \<Rightarrow> (Inr (), en\<lparr>en_portfolio := snd (capture (fe_timestamp fe) l)\<rparr>))"

fun dispatch :: "set_iter \<Rightarrow> BacktestEvent \<Rightarrow> BacktestEngine \<Rightarrow> (unit, BacktestEngine) outcome" where
  "dispatch set_iter (Market_event s) en = on_market set_iter s en"
| "dispatch set_iter (Funding_event fe) en = on_funding fe en"
| "dispatch set_iter (Signal_event g) en = (Inr (), on_signal g en)"
| "dispatch set_iter (Order_creation_event t g) en = on_order_creation t g en"
| "dispatch set_iter (Order_submission_event t ord) en = on_order_submission ord en"

text \<open>One turn of the loop of \<open>run\<close>: pop, record in the trace, dispatch.\<close>

definition run_step :: "set_iter \<Rightarrow> BacktestEngine \<Rightarrow> (unit, BacktestEngine) outcome" where
  "run_step set_iter en =
     (case pop (en_queue en) of
        (Inl e, q) \<Rightarrow> (Inl e, en\<lparr>en_queue := q\<rparr>)
      | (Inr ev, q) \<Rightarrow>
          dispatch set_iter ev
            (en\<lparr>en_queue := q, en_trace := en_trace en @ [(event_timestamp ev, event_name ev)]\<rparr>))"

function run_loop ::
  "set_iter \<Rightarrow> nat \<Rightarrow> nat \<Rightarrow> BacktestEngine \<Rightarrow> (nat, BacktestEngine) outcome" where
  "run_loop set_iter maximum processed en =
     (if \<not> queue_nonempty (en_queue en) then (Inr processed, en)
      else if processed \<ge> maximum then (Inl (RuntimeError ''maximum event count exceeded''), en)
      else case run_step set_iter en of
        (Inl e, en') \<Rightarrow> (Inl e, en')
      | (Inr _, en') \<Rightarrow> run_loop set_iter maximum (Suc processed) en')"
  by pat_completeness auto
termination by (relation "measure (\<lambda>(si, maximum, processed, en). maximum - processed)") auto

declare run_loop.simps [simp del]

definition run :: "set_iter \<Rightarrow> nat \<Rightarrow> BacktestEngine \<Rightarrow> (BacktestResult, BacktestEngine) outcome" where
  "run set_iter maximum_events en =
     (case run_loop set_iter maximum_events 0 en of
        (Inl e, en') \<Rightarrow> (Inl e, en')
      | (Inr processed, en') \<Rightarrow>
          (Inr \<lparr>br_processed_events = processed, br_event_trace = en_trace en',
                br_orders = dict_values (sim_orders (en_execution en')),
                br_fills = sim_fills (en_execution en'),
                br_snapshots = l_snapshots (en_portfolio en'),
                br_funding = l_funding_records (en_portfolio en'),
                br_liquidations = en_liquidations en',
                br_rejected_signals = en_rejected_signals en',
                br_final_cash = l_cash (en_portfolio en'),
                br_final_equity = equity (en_portfolio en'),
                br_run_id = en_run_id en', br_data_snapshot_id = en_data_snapshot_id en'\<rparr>, en'))"

section \<open>Well-formed events\<close>

definition signal_ok :: "SignalEvent \<Rightarrow> bool" where
  "signal_ok g \<longleftrightarrow> 0 < g_quantity g \<and> 0 \<le> g_calculation_delay g \<and> 0 \<le> g_submission_delay g \<and>
     (g_order_type g = LIMIT \<longleftrightarrow> g_limit_price g \<noteq> None) \<and>
     (\<forall>ex \<in> set_option (g_expires_at g). g_timestamp g + g_calculation_delay g + g_submission_delay g < ex)"

lemma signal_ok_post_init: "SignalEvent_post_init g d ex = Inr g' \<Longrightarrow> signal_ok g'"
  unfolding SignalEvent_post_init_def signal_ok_def
  by (cases "g_order_type g"; cases ex) auto

lemma exit_signal_valid:
  assumes "is_open pos" "reason \<noteq> []"
  shows "SignalEvent_post_init (exit_signal reason n t pos) (Aware t) None = Inr (exit_signal reason n t pos)"
    "signal_ok (exit_signal reason n t pos)"
  using assms by (simp_all add: SignalEvent_post_init_def signal_ok_def exit_signal_def is_open_def dec_sign not_le)

text \<open>
  What a client may put in the queue, and the wider notion that covers the events the engine
  itself queues.
\<close>

fun client_event :: "BacktestEvent \<Rightarrow> bool" where
  "client_event (Signal_event g) = signal_ok g"
| "client_event (Market_event s) = snapshot_ok s"
| "client_event (Funding_event fe) = (0 < fe_mark_price fe)"
| "client_event _ = False"

fun event_ok :: "BacktestEvent \<Rightarrow> bool" where
  "event_ok (Order_creation_event t g) = (signal_ok g \<and> t = g_timestamp g + g_calculation_delay g)"
| "event_ok (Order_submission_event t ord) =
     (order_inv ord \<and> o_status ord = CREATED \<and> t = o_submitted_at ord)"
| "event_ok ev = client_event ev"

lemma client_event_ok: "client_event ev \<Longrightarrow> event_ok ev"
  by (cases ev) auto

lemma order_of_signal_Inr:
  assumes "order_of_signal n t g = Inr ord"
  shows "order_inv ord \<and> o_status ord = CREATED \<and> o_submitted_at ord = t + g_submission_delay g \<and>
    o_order_id ord = ''order-'' @ fmt12 n \<and> o_signal_id ord = g_signal_id g \<and>
    o_signal_at ord = g_timestamp g \<and> o_created_at ord = t"
proof -
  have "order_inv ord"
    using assms unfolding order_of_signal_def Let_def by (rule order_inv_post_init) simp
  moreover have "Order_post_init o' (Aware a) (Aware b) (Aware c) d = Inr ord \<Longrightarrow>
      o_status ord = o_status o' \<and> o_order_id ord = o_order_id o' \<and> o_signal_id ord = o_signal_id o' \<and>
      o_submitted_at ord = c \<and> o_created_at ord = b \<and> o_signal_at ord = a" for o' a b c d
    unfolding Order_post_init_def by auto
  ultimately show ?thesis using assms unfolding order_of_signal_def Let_def by fastforce
qed

section \<open>What exits do to the engine\<close>

text \<open>
  \<open>exits t m\<close> relates an engine to the one after at most \<open>m\<close> exit signals were scheduled at
  \<open>t\<close>: they are pushed on the queue, and accounts, trace, order counter and signals seen are
  as before.
\<close>

definition exit_event :: "instant \<Rightarrow> BacktestEvent \<Rightarrow> bool" where
  "exit_event t ev \<longleftrightarrow> (\<exists>g. ev = Signal_event g \<and> signal_ok g \<and> g_timestamp g = t \<and> g_reduce_only g)"

definition exits :: "instant \<Rightarrow> nat \<Rightarrow> BacktestEngine \<Rightarrow> BacktestEngine \<Rightarrow> bool" where
  "exits t m en en' \<longleftrightarrow>
     (\<exists>evs. length evs \<le> m \<and> list_all (exit_event t) evs \<and> en_queue en' = fold push evs (en_queue en)) \<and>
     en_portfolio en' = en_portfolio en \<and> en_order_sequence en' = en_order_sequence en \<and>
     en_seen_signals en' = en_seen_signals en \<and> en_trace en' = en_trace en"

lemma exits_refl [simp]: "exits t m en en"
  unfolding exits_def by (auto intro: exI [of _ "[]"])

lemma exits_trans:
  assumes "exits t m x y" "exits t n y z" shows "exits t (m + n) x z"
proof -
  obtain a b where "length a \<le> m" "list_all (exit_event t) a" "en_queue y = fold push a (en_queue x)"
    "length b \<le> n" "list_all (exit_event t) b" "en_queue z = fold push b (en_queue y)"
    using assms by (auto simp: exits_def)
  then have "\<exists>evs. length evs \<le> m + n \<and> list_all (exit_event t) evs \<and> en_queue z = fold push evs (en_queue x)"
    by (intro exI [of _ "a @ b"]) simp
  then show ?thesis using assms by (simp add: exits_def)
qed

lemma exits_schedule:
  assumes "is_open pos" "reason \<noteq> []"
  shows "exits t (Suc 0) en (schedule_exit pos t reason en)"
    "en_execution (schedule_exit pos t reason en) = en_execution en"
proof -
  let ?g = "exit_signal reason (Suc (en_exit_sequence en)) t pos"
  have "exit_event t (Signal_event ?g)"
    using exit_signal_valid(2) [OF assms] by (simp add: exit_event_def) (simp add: exit_signal_def)
  then show "exits t (Suc 0) en (schedule_exit pos t reason en)"
    by (auto simp: exits_def schedule_exit_def push_event_def Let_def intro!: exI [of _ "[Signal_event ?g]"])
  show "en_execution (schedule_exit pos t reason en) = en_execution en"
    by (simp add: schedule_exit_def push_event_def Let_def)
qed

lemma exits_protection:
  "exits (s_timestamp snap) (Suc 0) en (check_protection snap en)"
  "en_execution (check_protection snap en) = en_execution en"
proof -
  have "trigger_name tr \<noteq> []" for tr by (cases tr) simp_all
  then show "exits (s_timestamp snap) (Suc 0) en (check_protection snap en)"
    "en_execution (check_protection snap en) = en_execution en"
    by (auto simp: check_protection_def Let_def exits_schedule split: option.splits)
qed

lemma exits_liquidations:
  "exits t (length keys) en (fold (liquidate_key t) keys en) \<and>
   en_execution (fold (liquidate_key t) keys en) = en_execution en"
proof (induction keys arbitrary: en)
  case (Cons k keys)
  have "exits t (Suc 0) en (liquidate_key t k en) \<and> en_execution (liquidate_key t k en) = en_execution en"
    by (auto simp: liquidate_key_def exits_schedule split: option.splits)
  then show ?case using exits_trans [of t "Suc 0" en "liquidate_key t k en" "length keys"] Cons.IH by auto
qed simp

definition set_iter_ok :: "set_iter \<Rightarrow> bool" where
  "set_iter_ok set_iter \<longleftrightarrow> (\<forall>xs. mset (set_iter xs) = mset xs)"

lemma exits_check_liquidation:
  assumes "set_iter_ok si"
  shows "exits t (length (open_keys (en_portfolio en))) en (check_liquidation si t en)"
    "en_execution (check_liquidation si t en) \<in> {en_execution en, cancel_openings (en_execution en)}"
proof -
  let ?goal = "exits t (length (open_keys (en_portfolio en))) en (check_liquidation si t en) \<and>
    en_execution (check_liquidation si t en) \<in> {en_execution en, cancel_openings (en_execution en)}"
  have ?goal
  proof (cases "liquidation_decision t (en_portfolio en)")
    case (Some d)
    let ?new = "filter (\<lambda>k. k \<notin> en_liquidation_pending en) (ld_instruments d)"
    let ?en1 = "if ?new \<noteq> [] then en\<lparr>en_liquidations := en_liquidations en @ [d],
        en_liquidation_pending := en_liquidation_pending en \<union> set ?new\<rparr> else en"
    let ?en2 = "?en1\<lparr>en_execution := cancel_openings (en_execution ?en1)\<rparr>"
    have "length (si ?new) = length ?new" using assms by (metis set_iter_ok_def size_mset)
    moreover have "ld_instruments d = open_keys (en_portfolio en)"
      using Some by (auto simp: liquidation_decision_def split: if_splits)
    ultimately have len: "length (si ?new) \<le> length (open_keys (en_portfolio en))"
      using length_filter_le by metis
    have "check_liquidation si t en = fold (liquidate_key t) (si ?new) ?en2"
      using Some by (simp add: check_liquidation_def Let_def)
    moreover have "en_queue ?en2 = en_queue en" "en_portfolio ?en2 = en_portfolio en" "en_trace ?en2 = en_trace en"
      "en_order_sequence ?en2 = en_order_sequence en" "en_seen_signals ?en2 = en_seen_signals en"
      "en_execution ?en2 = cancel_openings (en_execution en)" by simp_all
    ultimately show ?thesis
      using exits_liquidations [of t "si ?new" ?en2] len unfolding exits_def by (auto dest: order_trans)
  qed (simp add: check_liquidation_def)
  then show "exits t (length (open_keys (en_portfolio en))) en (check_liquidation si t en)"
    "en_execution (check_liquidation si t en) \<in> {en_execution en, cancel_openings (en_execution en)}"
    by blast+
qed

section \<open>The ledger as the client of a match\<close>

definition book_ok :: "BacktestEngine \<Rightarrow> bool" where
  "book_ok en \<longleftrightarrow> sim_inv (en_execution en) \<and> ledger_inv (en_portfolio en) \<and>
     l_fills (en_portfolio en) = sim_fills (en_execution en) \<and>
     l_rules (en_portfolio en) = sim_rules (en_execution en) \<and>
     position_keys (en_portfolio en) \<subseteq> fst ` set (sim_rules (en_execution en))"

text \<open>The part of the engine that the fills of a match leave alone.\<close>

definition engine_rest where
  "engine_rest en = (en_queue en, en_order_sequence en, en_seen_signals en, en_trace en)"

definition booked :: "MarketSnapshot \<Rightarrow> BacktestEngine \<Rightarrow> Fill list \<Rightarrow> BacktestEngine \<Rightarrow> bool" where
  "booked snap en0 fs en \<longleftrightarrow> ledger_inv (en_portfolio en) \<and> l_fills (en_portfolio en) = fs \<and>
     l_rules (en_portfolio en) = l_rules (en_portfolio en0) \<and>
     position_keys (en_portfolio en) \<subseteq>
       insert (s_exchange snap, s_symbol snap) (position_keys (en_portfolio en0)) \<and>
     engine_rest en = engine_rest en0"

lemma engine_consume_booked:
  assumes "booked snap en0 fs en" "fill_ok f" "is_dec (f_quantity f)"
    "f_exchange f = s_exchange snap" "f_symbol f = s_symbol snap" "engine_consume ord f en = (Inr (), en')"
  shows "booked snap en0 (fs @ [f]) en'"
proof -
  obtain r l1 where a: "ledger_apply_fill f (o_reduce_only ord) (o_stop_loss ord) (o_take_profit ord)
      (en_portfolio en) = (Inr r, l1)"
    using assms(6) by (auto simp: engine_consume_def split: prod.splits sum.splits)
  let ?l2 = "snd (position (f_exchange f) (f_symbol f) l1)"
  have pf: "en_portfolio en' = ?l2" and fr: "engine_rest en' = engine_rest en"
    using assms(6) a by (auto simp: engine_consume_def engine_rest_def Let_def split: prod.splits if_splits)
  have "fill_valid f" using assms(2,3) by (simp add: fill_valid_def fill_ok_def)
  then have "ledger_inv l1" using assms(1) a by (auto simp: booked_def intro: ledger_apply_fill_inv)
  then have "ledger_inv ?l2" using position_correct [OF _ prod.collapse [symmetric]] by blast
  then show ?thesis
    using assms(1,4,5) ledger_fill_frame [OF a] position_frame(2) [of "f_exchange f" "f_symbol f" l1]
      position_keys_frame [of "f_exchange f" "f_symbol f" l1] fr pf
    by (auto simp: booked_def fill_key_def)
qed

interpretation engine_client: fill_client snap "engine_cap snap" engine_consume "booked snap en0" for snap en0
  by unfold_locales (rule engine_consume_booked)

lemma cancel_openings_inv: "sim_inv sim \<Longrightarrow> sim_inv (cancel_openings sim)"
  by (force simp: sim_inv_def cancel_openings_def dict_ok_def list_all_iff comp_def split_beta intro: live_cancel)

lemma cancel_openings_simps [simp]:
  "sim_fills (cancel_openings sim) = sim_fills sim" "sim_rules (cancel_openings sim) = sim_rules sim"
  by (simp_all add: cancel_openings_def)

text \<open>A market event, when it succeeds: at most one exit plus one per open instrument is queued.\<close>

lemma on_market_match:
  assumes "on_market si snap en = (Inr (), en')" "book_ok en" "snapshot_ok snap"
  obtains en3 where "book_ok en3" "engine_rest en3 = engine_rest en"
    "sim_rules (en_execution en3) = sim_rules (en_execution en)"
    "\<exists>fs p p'. match_snapshot snap (Some (engine_cap snap)) (Some engine_consume) (en_execution en, p) =
       (Inr fs, (en_execution en3, p'))"
    "en' = (let en5 = check_liquidation si (s_timestamp snap) (check_protection snap en3)
            in en5\<lparr>en_portfolio := snd (capture (s_timestamp snap) (en_portfolio en5))\<rparr>)"
proof -
  let ?en1 = "en\<lparr>en_portfolio := mark snap (en_portfolio en)\<rparr>"
  obtain fs sim en2 where m: "match_snapshot snap (Some (engine_cap snap)) (Some engine_consume)
      (en_execution en, ?en1) = (Inr fs, (sim, en2))"
    and en': "en' = (let en5 = check_liquidation si (s_timestamp snap) (check_protection snap
        (en2\<lparr>en_execution := sim, en_portfolio := mark snap (en_portfolio en2)\<rparr>))
       in en5\<lparr>en_portfolio := snd (capture (s_timestamp snap) (en_portfolio en5))\<rparr>)"
    using assms(1) by (auto simp: on_market_def Let_def split: prod.splits sum.splits)
  let ?en3 = "en2\<lparr>en_execution := sim, en_portfolio := mark snap (en_portfolio en2)\<rparr>"
  note si = match_snapshot_sim [OF m]
  have inv: "sim_inv (en_execution en)" using assms(2) by (simp add: book_ok_def)
  have b1: "booked snap ?en1 (sim_fills (en_execution en)) ?en1"
    using assms(2,3) by (auto simp: booked_def book_ok_def mark_frame intro: mark_inv)
  then have b2: "booked snap ?en1 (sim_fills sim) en2" by (rule engine_client.match_snapshot_client [OF m inv])
  have keys: "position_keys (en_portfolio en2) \<subseteq> fst ` set (sim_rules (en_execution en))"
  proof (cases "map_of (sim_rules (en_execution en)) (s_exchange snap, s_symbol snap)")
    case None
    then have "en2 = ?en1" using m by (simp add: match_snapshot_def)
    then show ?thesis using assms(2) by (simp add: book_ok_def mark_frame)
  next
    case (Some r)
    then have "(s_exchange snap, s_symbol snap) \<in> fst ` set (sim_rules (en_execution en))"
      by (force dest: map_of_SomeD)
    then show ?thesis using b2 assms(2) by (auto simp: booked_def book_ok_def mark_frame)
  qed
  show thesis
  proof (rule that [of ?en3])
    show "book_ok ?en3"
      using b2 si inv keys assms(2,3) by (auto simp: book_ok_def booked_def mark_frame intro: mark_inv)
    show "engine_rest ?en3 = engine_rest en" using b2 by (simp add: booked_def engine_rest_def)
  qed (use m si inv en' in auto)
qed

section \<open>The engine's invariant\<close>

definition engine_inv :: "BacktestEngine \<Rightarrow> bool" where
  "engine_inv en \<longleftrightarrow> queue_ok (en_queue en) \<and> (\<forall>ev \<in># queue_events (en_queue en). event_ok ev) \<and> book_ok en"

text \<open>
  Each event is given a weight that bounds how many events it can cause, itself included: a
  signal causes a creation and a submission, a market event at most one exit signal plus one
  per instrument with rules.
\<close>

fun event_weight :: "nat \<Rightarrow> BacktestEvent \<Rightarrow> nat" where
  "event_weight r (Signal_event g) = 3"
| "event_weight r (Order_creation_event t g) = 2"
| "event_weight r (Order_submission_event t ord) = 1"
| "event_weight r (Funding_event fe) = 1"
| "event_weight r (Market_event s) = 1 + 3 * (1 + r)"

definition instruments :: "BacktestEngine \<Rightarrow> nat" where
  "instruments en = card (fst ` set (sim_rules (en_execution en)))"

definition engine_weight :: "BacktestEngine \<Rightarrow> nat" where
  "engine_weight en = (\<Sum>ev \<in># queue_events (en_queue en). event_weight (instruments en) ev)"

text \<open>The fills an event adds are those of a market event at that event's timestamp.\<close>

definition filled_by :: "BacktestEvent \<Rightarrow> BacktestEngine \<Rightarrow> BacktestEngine \<Rightarrow> bool" where
  "filled_by ev en en' \<longleftrightarrow> (\<exists>fs. sim_fills (en_execution en') = sim_fills (en_execution en) @ fs \<and>
     (\<forall>f \<in> set fs. event_name ev = ''MarketEvent'' \<and> f_filled_at f = event_timestamp ev))"

lemma filled_by_none: "sim_fills (en_execution en') = sim_fills (en_execution en) \<Longrightarrow> filled_by ev en en'"
  by (simp add: filled_by_def)

definition caused :: "BacktestEvent \<Rightarrow> nat \<Rightarrow> BacktestEvent list \<Rightarrow> bool" where
  "caused ev r evs \<longleftrightarrow> (\<forall>x \<in> set evs. event_ok x \<and> event_rank ev \<le> event_rank x) \<and>
     (\<Sum>x \<leftarrow> evs. event_weight r x) < event_weight r ev"

lemma open_keys_bound:
  assumes "book_ok en" shows "length (open_keys (en_portfolio en)) \<le> instruments en"
proof -
  let ?ps = "l_positions (en_portfolio en)"
  have "distinct (map fst ?ps)" using assms by (simp add: book_ok_def ledger_inv_def dict_ok_def)
  then have "length ?ps = card (fst ` set ?ps)" by (metis distinct_card length_map list.set_map)
  also have "\<dots> \<le> instruments en"
    using assms unfolding instruments_def by (intro card_mono) (auto simp: book_ok_def position_keys_def)
  finally have "length (filter (\<lambda>(key, pos). is_open pos) ?ps) \<le> instruments en"
    by (rule order_trans [OF length_filter_le])
  then show ?thesis by (simp add: open_keys_def)
qed

lemma exits_caused:
  assumes "exits t m en en'" "m \<le> Suc r" "s_timestamp snap = t"
  shows "\<exists>evs. en_queue en' = fold push evs (en_queue en) \<and> caused (Market_event snap) r evs \<and>
    list_all (exit_event t) evs"
proof -
  obtain evs where evs: "length evs \<le> m" "en_queue en' = fold push evs (en_queue en)" "list_all (exit_event t) evs"
    using assms(1) by (auto simp: exits_def)
  have "list_all (exit_event t) xs \<Longrightarrow> (\<Sum>x \<leftarrow> xs. event_weight r x) = 3 * length xs" for xs
    by (induction xs) (auto simp: exit_event_def)
  then have "(\<Sum>x \<leftarrow> evs. event_weight r x) < event_weight r (Market_event snap)"
    using evs(1,3) assms(2) by simp
  moreover have "\<forall>x \<in> set evs. event_ok x \<and> event_rank (Market_event snap) \<le> event_rank x"
    using evs(3) assms(3) by (auto simp: event_rank_def list_all_iff exit_event_def)
  ultimately show ?thesis using evs by (auto simp: caused_def)
qed

lemma on_market_step:
  assumes "on_market si snap en = (Inr (), en')" "book_ok en" "snapshot_ok snap" "set_iter_ok si"
  shows "book_ok en' \<and> en_trace en' = en_trace en \<and> instruments en' = instruments en \<and>
    en_order_sequence en' = en_order_sequence en \<and> en_seen_signals en' = en_seen_signals en \<and>
    (\<exists>evs. en_queue en' = fold push evs (en_queue en) \<and> caused (Market_event snap) (instruments en) evs \<and>
       list_all (exit_event (s_timestamp snap)) evs) \<and> filled_by (Market_event snap) en en'"
proof -
  let ?t = "s_timestamp snap"
  obtain en3 fs p p' where 3: "book_ok en3" "engine_rest en3 = engine_rest en"
      "sim_rules (en_execution en3) = sim_rules (en_execution en)"
    and m: "match_snapshot snap (Some (engine_cap snap)) (Some engine_consume) (en_execution en, p) =
       (Inr fs, (en_execution en3, p'))"
    and en': "en' = (let en5 = check_liquidation si ?t (check_protection snap en3)
            in en5\<lparr>en_portfolio := snd (capture ?t (en_portfolio en5))\<rparr>)"
    using on_market_match [OF assms(1-3)] by metis
  let ?en4 = "check_protection snap en3" let ?en5 = "check_liquidation si ?t ?en4"
  have p4: "en_portfolio ?en4 = en_portfolio en3" using exits_protection(1) [of snap en3] by (simp add: exits_def)
  have ex: "exits ?t (Suc 0 + length (open_keys (en_portfolio ?en4))) en3 ?en5"
    by (rule exits_trans [OF exits_protection(1) exits_check_liquidation(1) [OF assms(4)]])
  have sim: "en_execution ?en5 \<in> {en_execution en3, cancel_openings (en_execution en3)}"
    using exits_check_liquidation(2) [OF assms(4), of ?t ?en4] by (simp add: exits_protection(2))
  have ins: "instruments en3 = instruments en" "instruments ?en5 = instruments en"
    using 3(3) sim by (auto simp: instruments_def)
  have "book_ok en'"
    using 3(1) sim ex en'
    by (auto simp: book_ok_def exits_def Let_def capture_frame intro: cancel_openings_inv capture_inv)
  moreover have "\<exists>evs. en_queue ?en5 = fold push evs (en_queue en3) \<and>
      caused (Market_event snap) (instruments en) evs \<and> list_all (exit_event ?t) evs"
    using open_keys_bound [OF 3(1)] p4 ins by (intro exits_caused [OF ex]) simp_all
  moreover have "instruments en' = instruments ?en5" "en_queue en' = en_queue ?en5"
    by (simp_all add: en' Let_def instruments_def)
  moreover have "filled_by (Market_event snap) en en'"
    using match_snapshot_sim [OF m] assms(2) sim
    by (fastforce simp: filled_by_def en' Let_def book_ok_def good_fill_def)
  ultimately show ?thesis
    using ex 3(2) ins by (auto simp: en' Let_def exits_def engine_rest_def)
qed

section \<open>One turn of the loop\<close>

lemma submit_rules: "sim_rules (snd (submit ord sim)) = sim_rules sim" "sim_fills (snd (submit ord sim)) = sim_fills sim"
  by (auto simp: submit_def Let_def split: option.splits prod.splits)

lemma on_order_submission_step:
  assumes "on_order_submission ord en = (r, en')" "book_ok en" "order_inv ord" "o_status ord = CREATED"
  shows "book_ok en' \<and> instruments en' = instruments en \<and> en_queue en' = en_queue en \<and>
    en_trace en' = en_trace en \<and> sim_fills (en_execution en') = sim_fills (en_execution en)"
  using assms submit_inv [OF prod.collapse [symmetric], of "en_execution en" ord] submit_rules [of ord "en_execution en"]
  by (auto simp: on_order_submission_def split_beta Let_def book_ok_def instruments_def terminal_def)

lemma on_funding_step:
  assumes "on_funding fe en = (Inr (), en')" "book_ok en"
  shows "book_ok en' \<and> instruments en' = instruments en \<and> en_queue en' = en_queue en \<and>
    en_trace en' = en_trace en \<and> sim_fills (en_execution en') = sim_fills (en_execution en)"
proof -
  obtain r l where a: "apply_funding (fe_exchange fe) (fe_symbol fe) (Aware (fe_timestamp fe)) (fe_rate fe)
      (fe_mark_price fe) (en_portfolio en) = (Inr r, l)"
    and en': "en' = en\<lparr>en_portfolio := snd (capture (fe_timestamp fe) l)\<rparr>"
    using assms(1) by (auto simp: on_funding_def split: prod.splits sum.splits)
  have "ledger_inv l" using assms(2) a by (auto simp: book_ok_def intro: apply_funding_inv)
  then show ?thesis
    using assms(2) apply_funding_frame [OF a] en'
    by (auto simp: book_ok_def instruments_def capture_frame intro: capture_inv)
qed

lemma dispatch_step:
  assumes "dispatch si ev en = (Inr (), en')" "book_ok en" "event_ok ev" "set_iter_ok si"
  shows "book_ok en' \<and> instruments en' = instruments en \<and> en_trace en' = en_trace en \<and>
    (\<exists>evs. en_queue en' = fold push evs (en_queue en) \<and> caused ev (instruments en) evs) \<and> filled_by ev en en'"
proof (cases ev)
  case (Market_event snap)
  then show ?thesis using on_market_step [of si snap en en'] assms by auto
next
  case (Funding_event fe)
  then show ?thesis using on_funding_step [of fe en en'] assms
    by (auto simp: caused_def filled_by_none intro: exI [of _ "[]"])
next
  case (Order_submission_event t ord)
  then show ?thesis using on_order_submission_step [of ord en "Inr ()" en'] assms
    by (auto simp: caused_def filled_by_none intro: exI [of _ "[]"])
next
  case (Signal_event g)
  let ?c = "Order_creation_event (g_timestamp g + g_calculation_delay g) g"
  have en': "en' = on_signal g en" using assms(1) Signal_event by simp
  have "caused ev (instruments en) [?c]" "caused ev (instruments en) []"
    using assms(3) Signal_event by (auto simp: caused_def event_rank_def signal_ok_def)
  then have "\<exists>evs. en_queue en' = fold push evs (en_queue en) \<and> caused ev (instruments en) evs"
    by (cases "g_signal_id g \<in> en_seen_signals en")
       (auto simp: en' on_signal_def push_event_def intro: exI [of _ "[]"] exI [of _ "[?c]"])
  then show ?thesis using assms(2) by (auto simp: en' on_signal_def push_event_def book_ok_def instruments_def filled_by_none)
next
  case (Order_creation_event t g)
  then obtain ord where ord: "order_of_signal (Suc (en_order_sequence en)) t g = Inr ord"
    and en': "en' = push_event (Order_submission_event (t + g_submission_delay g) ord)
        (en\<lparr>en_order_sequence := Suc (en_order_sequence en)\<rparr>)"
    using assms(1) by (auto simp: on_order_creation_def Let_def split: sum.splits)
  have "caused ev (instruments en) [Order_submission_event (t + g_submission_delay g) ord]"
    using assms(3) Order_creation_event order_of_signal_Inr [OF ord]
    by (auto simp: caused_def event_rank_def signal_ok_def)
  then show ?thesis using assms(2)
    by (auto simp: en' push_event_def book_ok_def instruments_def filled_by_none
        intro!: exI [of _ "[Order_submission_event (t + g_submission_delay g) ord]"])
qed

lemma run_step_correct:
  assumes "run_step si en = (Inr (), en')" "engine_inv en" "set_iter_ok si"
  obtains ev where "engine_inv en'" "engine_weight en' < engine_weight en" "instruments en' = instruments en"
    "en_trace en' = en_trace en @ [(event_timestamp ev, event_name ev)]" "ev \<in># queue_events (en_queue en)"
    "\<forall>x \<in># queue_events (en_queue en'). event_rank ev \<le> event_rank x" "filled_by ev en en'"
proof -
  obtain ev q where p: "pop (en_queue en) = (Inr ev, q)"
    and d: "dispatch si ev (en\<lparr>en_queue := q, en_trace := en_trace en @ [(event_timestamp ev, event_name ev)]\<rparr>) = (Inr (), en')"
    using assms(1) by (auto simp: run_step_def split: prod.splits sum.splits)
  let ?en1 = "en\<lparr>en_queue := q, en_trace := en_trace en @ [(event_timestamp ev, event_name ev)]\<rparr>"
  have qo: "queue_ok q" and qe: "queue_events (en_queue en) = add_mset ev (queue_events q)"
    and rank: "\<forall>x \<in># queue_events q. event_rank ev \<le> event_rank x"
    using queue_pop_events [OF _ p] assms(2) by (auto simp: engine_inv_def)
  have ok: "\<forall>x \<in># queue_events q. event_ok x" "event_ok ev" "book_ok ?en1"
    using assms(2) qe by (auto simp: engine_inv_def book_ok_def)
  have ins: "instruments ?en1 = instruments en" by (simp add: instruments_def)
  obtain evs where st: "book_ok en'" "instruments en' = instruments en" "en_trace en' = en_trace ?en1"
    "en_queue en' = fold push evs q" "caused ev (instruments en) evs" "filled_by ev en en'"
    using dispatch_step [OF d ok(3,2) assms(3)] ins by (auto simp: filled_by_def)
  have qe': "queue_ok (en_queue en')" "queue_events (en_queue en') = queue_events q + mset evs"
    using queue_push_events [OF qo, of evs] st(4) by simp_all
  show thesis
  proof (rule that [of ev])
    show "engine_inv en'" using qe' ok st by (auto simp: engine_inv_def caused_def)
    show "engine_weight en' < engine_weight en"
      using qe' qe st(2,5) by (simp add: engine_weight_def caused_def sum_mset_sum_list [symmetric])
  qed (use st qe qe' rank in \<open>auto simp: caused_def\<close>)
qed

section \<open>Whole runs\<close>

lemma run_loop_invariant:
  assumes step: "\<And>x y. P x \<Longrightarrow> run_step si x = (Inr (), y) \<Longrightarrow> P y"
  shows "run_loop si m n en = (Inr k, en') \<Longrightarrow> P en \<Longrightarrow> P en' \<and> \<not> queue_nonempty (en_queue en') \<and> n \<le> k"
proof (induction "m - n" arbitrary: n en)
  case 0
  then show ?case by (auto simp: run_loop.simps [of si m n en] split: if_splits)
next
  case (Suc d)
  obtain r y where s: "run_step si en = (r, y)" by fastforce
  show ?case
  proof (cases "queue_nonempty (en_queue en)")
    case True
    then obtain u where r: "r = Inr u"
      using Suc.prems(1) Suc.hyps(2) s by (cases r) (auto simp: run_loop.simps [of si m n en] split: if_splits)
    then have "P y" using step Suc.prems(2) s by auto
    moreover have "run_loop si m (Suc n) y = (Inr k, en')"
      using Suc.prems(1) Suc.hyps(2) s r True by (auto simp: run_loop.simps [of si m n en] split: if_splits)
    moreover have "d = m - Suc n" using Suc.hyps(2) by simp
    ultimately show ?thesis using Suc.hyps(1) [of "Suc n" y] by simp
  qed (use Suc in \<open>auto simp: run_loop.simps [of si m n en]\<close>)
qed

lemma run_Inr:
  assumes "run si m en = (Inr r, en')"
  shows "\<exists>k. run_loop si m 0 en = (Inr k, en') \<and> br_processed_events r = k \<and>
    br_event_trace r = en_trace en' \<and> br_fills r = sim_fills (en_execution en') \<and>
    br_orders r = dict_values (sim_orders (en_execution en')) \<and> br_final_cash r = l_cash (en_portfolio en')"
  using assms by (auto simp: run_def split: prod.splits sum.splits)

lemma engine_inv_start:
  assumes "BacktestEngine_init cash rules leverage config rid did = Inr en0" "list_all client_event evs"
  shows "engine_inv (add_events evs en0) \<and> en_trace (add_events evs en0) = [] \<and>
    sim_fills (en_execution (add_events evs en0)) = [] \<and> sim_orders (en_execution (add_events evs en0)) = [] \<and>
    en_seen_signals (add_events evs en0) = {} \<and> en_order_sequence (add_events evs en0) = 0 \<and>
    queue_events (en_queue (add_events evs en0)) = mset evs \<and>
    sim_rules (en_execution (add_events evs en0)) = rules"
proof -
  obtain l where l: "PortfolioLedger_init cash rules leverage = Inr l"
    and en0: "en0 = \<lparr>en_queue = EventQueue_init, en_execution = ExecutionSimulator_init rules config,
          en_portfolio = l, en_order_sequence = 0, en_exit_sequence = 0, en_seen_signals = {}, en_exit_pending = {},
          en_liquidation_pending = {}, en_trace = [], en_liquidations = [], en_rejected_signals = [],
          en_run_id = rid, en_data_snapshot_id = did\<rparr>"
    using assms(1) by (auto simp: BacktestEngine_init_def)
  have add: "fold add_event evs en = en\<lparr>en_queue := fold push evs (en_queue en)\<rparr>" for en
    by (induction evs arbitrary: en) (simp_all add: add_event_def push_event_def)
  have "book_ok en0" using l ledger_inv_init [OF l] sim_inv_init [of rules config]
    by (auto simp: book_ok_def en0 PortfolioLedger_init_def ExecutionSimulator_init_def position_keys_def)
  moreover have "queue_ok (fold push evs EventQueue_init) \<and> queue_events (fold push evs EventQueue_init) = mset evs"
    using queue_push_events [of EventQueue_init evs] by (simp add: queue_events_def)
  moreover have "\<forall>ev \<in> set evs. event_ok ev" using assms(2) client_event_ok by (auto simp: list_all_iff)
  ultimately show ?thesis
    unfolding add_events_def add
    by (simp add: engine_inv_def book_ok_def) (simp add: en0 ExecutionSimulator_init_def)
qed

text \<open>The rank of a trace entry: its timestamp, then the priority of its kind of event.\<close>

definition name_priority :: "string \<Rightarrow> nat" where
  "name_priority nm = (if nm = ''MarketEvent'' then 10 else if nm = ''FundingEvent'' then 20
     else if nm = ''SignalEvent'' then 30 else if nm = ''OrderCreationEvent'' then 40 else 50)"

definition trace_rank :: "instant \<times> string \<Rightarrow> instant \<times> nat" where
  "trace_rank e = (fst e, name_priority (snd e))"

lemma trace_rank_event: "trace_rank (event_timestamp ev, event_name ev) = event_rank ev"
  by (cases ev) (simp_all add: trace_rank_def name_priority_def event_rank_def)

definition run_inv :: "BacktestEngine \<Rightarrow> bool" where
  "run_inv en \<longleftrightarrow> engine_inv en \<and> sorted (map trace_rank (en_trace en)) \<and>
     (\<forall>e \<in> set (en_trace en). \<forall>ev \<in># queue_events (en_queue en). trace_rank e \<le> event_rank ev) \<and>
     (\<forall>f \<in> set (sim_fills (en_execution en)). (f_filled_at f, ''MarketEvent'') \<in> set (en_trace en))"

lemma run_inv_step:
  assumes "run_inv en" "set_iter_ok si" "run_step si en = (Inr (), en')" shows "run_inv en'"
proof -
  have inv: "engine_inv en" using assms(1) by (simp add: run_inv_def)
  obtain ev where 1: "engine_inv en'" "en_trace en' = en_trace en @ [(event_timestamp ev, event_name ev)]"
      "ev \<in># queue_events (en_queue en)" "\<forall>x \<in># queue_events (en_queue en'). event_rank ev \<le> event_rank x"
      "filled_by ev en en'"
    by (rule run_step_correct [OF assms(3) inv assms(2)]) blast
  have before: "trace_rank e \<le> event_rank ev" if "e \<in> set (en_trace en)" for e
    using assms(1) 1(3) that by (auto simp: run_inv_def)
  then have "sorted (map trace_rank (en_trace en'))"
    using assms(1) 1(2) by (auto simp: run_inv_def sorted_append trace_rank_event simp del: less_eq_prod_simp)
  moreover have "\<forall>e \<in> set (en_trace en'). \<forall>x \<in># queue_events (en_queue en'). trace_rank e \<le> event_rank x"
  proof (intro ballI)
    fix e x assume e: "e \<in> set (en_trace en')" and x: "x \<in># queue_events (en_queue en')"
    have "trace_rank e \<le> event_rank ev" using e before 1(2) trace_rank_event [of ev] by fastforce
    then show "trace_rank e \<le> event_rank x" using 1(4) x by (blast intro: order_trans)
  qed
  moreover have "\<forall>f \<in> set (sim_fills (en_execution en')). (f_filled_at f, ''MarketEvent'') \<in> set (en_trace en')"
    using assms(1) 1(2,5) by (auto simp: run_inv_def filled_by_def)
  ultimately show ?thesis using 1(1) by (simp add: run_inv_def)
qed

lemma run_inv_final:
  assumes "BacktestEngine_init cash rules leverage config rid did = Inr en0" "list_all client_event evs"
    "set_iter_ok si" "run si m (add_events evs en0) = (Inr r, en')"
  shows "run_inv en'"
proof -
  have "run_inv (add_events evs en0)" using engine_inv_start [OF assms(1,2)] by (simp add: run_inv_def)
  then show ?thesis
    using run_Inr [OF assms(4)] run_loop_invariant [of run_inv si] run_inv_step [OF _ assms(3)] by blast
qed

text \<open>
  A backtest that returns has processed its events in chronological order: the trace is
  sorted by timestamp and, at equal timestamps, by kind (market data, funding, signal, order
  creation, submission), including the events the engine queued itself.
\<close>

theorem run_chronological:
  assumes "BacktestEngine_init cash rules leverage config rid did = Inr en0" "list_all client_event evs"
    "set_iter_ok si" "run si m (add_events evs en0) = (Inr r, en')"
  shows "sorted (map trace_rank (br_event_trace r)) \<and> sorted (map fst (br_event_trace r))"
proof -
  have "sorted (map trace_rank (br_event_trace r))"
    using run_inv_final [OF assms] run_Inr [OF assms(4)] by (auto simp: run_inv_def)
  moreover have "fst a \<le> fst b" if "trace_rank a \<le> trace_rank b" for a b :: "instant \<times> string"
    using that by (auto simp: trace_rank_def)
  ultimately show ?thesis
    using sorted_wrt_mono_rel [of "br_event_trace r" "\<lambda>a b. trace_rank a \<le> trace_rank b" "\<lambda>a b. fst a \<le> fst b"]
    unfolding sorted_map by blast
qed

text \<open>
  C4. The ledger books every simulated fill exactly once and in order: the fills of the result
  are the ledger's fills, with distinct identifiers, and the open quantity of every instrument
  is the running sum of the signed quantities of its fills.
\<close>

theorem run_books_every_fill:
  assumes "BacktestEngine_init cash rules leverage config rid did = Inr en0" "list_all client_event evs"
    "set_iter_ok si" "run si m (add_events evs en0) = (Inr r, en')"
  shows "l_fills (en_portfolio en') = br_fills r \<and> distinct (map f_fill_id (br_fills r)) \<and>
    (\<forall>key. current_quantity key (en_portfolio en') =
       dsum (map fill_delta (filter (\<lambda>f. fill_key f = key) (br_fills r))))"
proof -
  have bk: "book_ok en'" using run_inv_final [OF assms] by (simp add: run_inv_def engine_inv_def)
  then have inv: "ledger_inv (en_portfolio en')" by (simp add: book_ok_def)
  show ?thesis
    using bk run_Inr [OF assms(4)] current_quantity_sum [OF inv]
    by (auto simp: book_ok_def ledger_inv_def fills_of_def)
qed

lemma run_loop_budget:
  assumes "set_iter_ok si"
  shows "engine_inv en \<Longrightarrow> n + engine_weight en \<le> m \<Longrightarrow> (case run_loop si m n en of
      (Inr k, en') \<Rightarrow> k \<le> n + engine_weight en \<and> \<not> queue_nonempty (en_queue en')
    | (Inl e, en') \<Rightarrow> \<exists>en1. engine_inv en1 \<and> queue_nonempty (en_queue en1) \<and> run_step si en1 = (Inl e, en'))"
proof (induction "engine_weight en" arbitrary: n en rule: less_induct)
  case less
  show ?case
  proof (cases "queue_nonempty (en_queue en)")
    case False
    then show ?thesis by (simp add: run_loop.simps [of si m n en])
  next
    case True
    have "0 < event_weight r ev" for r ev by (cases ev) simp_all
    moreover obtain ev q where "pop (en_queue en) = (Inr ev, q)"
      using queue_pop_nonempty [OF _ True] less.prems(1) unfolding engine_inv_def by blast
    then have "queue_events (en_queue en) = add_mset ev (queue_events q)"
      using queue_pop_events less.prems(1) by (auto simp: engine_inv_def)
    ultimately have pos: "0 < engine_weight en" by (simp add: engine_weight_def)
    obtain r en1 where s: "run_step si en = (r, en1)" by fastforce
    show ?thesis
    proof (cases r)
      case (Inl e)
      then show ?thesis using True pos less.prems s by (auto simp: run_loop.simps [of si m n en])
    next
      case (Inr u)
      then have s1: "run_step si en = (Inr (), en1)" using s by simp
      have st: "engine_inv en1" "engine_weight en1 < engine_weight en"
        using run_step_correct [OF s1 less.prems(1) assms] by blast+
      then show ?thesis
        using less.hyps [OF st(2,1), of "Suc n"] less.prems(2) True pos s1
        by (auto simp: run_loop.simps [of si m n en] split: sum.splits prod.splits)
    qed
  qed
qed

text \<open>
  C39. The event loop ends: if the limit on processed events is at least the total weight of
  the initial events (three per signal, one per funding event, and four plus three per
  instrument for each market event), the run does not hit the limit. It returns after at most
  that many events, or it propagates the exception of the handler of one event.
\<close>

theorem run_terminates_within_budget:
  assumes "BacktestEngine_init cash rules leverage config rid did = Inr en0" "list_all client_event evs"
    "set_iter_ok si" "(\<Sum>ev \<leftarrow> evs. event_weight (card (fst ` set rules)) ev) \<le> m"
  shows "case run si m (add_events evs en0) of
      (Inr r, en') \<Rightarrow> br_processed_events r \<le> (\<Sum>ev \<leftarrow> evs. event_weight (card (fst ` set rules)) ev) \<and>
        \<not> queue_nonempty (en_queue en')
    | (Inl e, en') \<Rightarrow> \<exists>en1. engine_inv en1 \<and> queue_nonempty (en_queue en1) \<and> run_step si en1 = (Inl e, en')"
proof -
  note start = engine_inv_start [OF assms(1,2)]
  have w: "engine_weight (add_events evs en0) = (\<Sum>ev \<leftarrow> evs. event_weight (card (fst ` set rules)) ev)"
    using start by (simp add: engine_weight_def instruments_def) (simp flip: sum_mset_sum_list)
  show ?thesis
    using run_loop_budget [OF assms(3), of "add_events evs en0" 0 m] start assms(4) w
    by (auto simp: run_def split: prod.splits sum.splits)
qed

section \<open>A concrete backtest\<close>

text \<open>A market buy of four, filled for two at the next market event.\<close>

definition demo_signal :: SignalEvent where
  "demo_signal = \<lparr>g_timestamp = 1000, g_signal_id = ''s1'', g_exchange = ''x'', g_symbol = ''BTC'',
     g_side = BUY, g_quantity = 4, g_order_type = MARKET, g_time_in_force = GTC, g_limit_price = None,
     g_calculation_delay = 0, g_submission_delay = 0, g_post_only = False, g_reduce_only = False,
     g_expires_at = None, g_stop_loss = None, g_take_profit = None, g_reason = ''strategy''\<rparr>"

definition demo_snapshot :: MarketSnapshot where
  "demo_snapshot = \<lparr>s_exchange = ''x'', s_symbol = ''BTC'', s_timestamp = 2000, s_bid = 99,
     s_ask = 100, s_bid_quantity = 8, s_ask_quantity = 8, s_last_price = None,
     s_trade_quantity = None, s_mark_price = None\<rparr>"

definition demo_events :: "BacktestEvent list" where
  "demo_events = [Market_event demo_snapshot, Signal_event demo_signal]"

definition demo_engine :: BacktestEngine where
  "demo_engine = \<lparr>en_queue = EventQueue_init,
     en_execution = ExecutionSimulator_init [((''x'', ''BTC''), sample_ledger_rules)] None,
     en_portfolio = fresh_ledger\<lparr>l_leverage := 1\<rparr>, en_order_sequence = 0, en_exit_sequence = 0,
     en_seen_signals = {}, en_exit_pending = {}, en_liquidation_pending = {}, en_trace = [],
     en_liquidations = [], en_rejected_signals = [], en_run_id = [], en_data_snapshot_id = []\<rparr>"

definition demo_order :: Order where
  "demo_order = \<lparr>o_order_id = ''order-000000000001'', o_signal_id = ''s1'', o_exchange = ''x'',
     o_symbol = ''BTC'', o_side = BUY, o_quantity = 4, o_order_type = MARKET, o_time_in_force = GTC,
     o_signal_at = 1000, o_created_at = 1000, o_submitted_at = 1000, o_limit_price = None,
     o_post_only = False, o_reduce_only = False, o_expires_at = None, o_stop_loss = None,
     o_take_profit = None, o_status = CREATED, o_remaining_quantity = 4, o_rejection_reason = None\<rparr>"

lemma demo_init:
  "BacktestEngine_init 1000 [((''x'', ''BTC''), sample_ledger_rules)] 1 None [] [] = Inr demo_engine"
  by (simp add: BacktestEngine_init_def PortfolioLedger_init_def demo_engine_def fresh_ledger_def)

lemma demo_client: "list_all client_event demo_events"
  by (simp add: demo_events_def demo_snapshot_def snapshot_ok_def nonpositive_def demo_signal_def signal_ok_def)

lemma run_loop_step:
  "queue_nonempty (en_queue en) \<Longrightarrow> n < m \<Longrightarrow> run_step si en = (Inr (), y) \<Longrightarrow>
   run_loop si m n en = run_loop si m (Suc n) y"
  by (simp add: run_loop.simps [of si m n en])

lemma fmt12_1: "fmt12 (Suc 0) = ''000000000001''"
  by code_simp

lemmas demo_defs = add_events_def add_event_def push_event_def demo_events_def EventQueue_init_def
  push_def Let_def queued_def qe_key_def queue_nonempty_def pop_def on_signal_def on_order_creation_def
  order_of_signal_def Order_post_init_def demo_signal_def demo_snapshot_def demo_order_def nonpositive_def fmt12_1

definition demo_queue :: "BacktestEvent \<Rightarrow> nat \<Rightarrow> EventQueue" where
  "demo_queue ev n = \<lparr>eq_heap = [queued ev n, queued (Market_event demo_snapshot) 1], eq_sequence = n\<rparr>"

definition demo_submitted :: BacktestEngine where
  "demo_submitted = demo_engine\<lparr>
     en_queue := \<lparr>eq_heap = [queued (Market_event demo_snapshot) 1], eq_sequence = 4\<rparr>,
     en_execution := store_order (demo_order\<lparr>o_status := SUBMITTED\<rparr>) (en_execution demo_engine),
     en_order_sequence := Suc 0, en_seen_signals := {''s1''},
     en_trace := [(1000, ''SignalEvent''), (1000, ''OrderCreationEvent''), (1000, ''OrderSubmissionEvent'')]\<rparr>"

lemma demo_signal_step:
  "run_step si (add_events demo_events demo_engine) = (Inr (), demo_engine\<lparr>
     en_queue := demo_queue (Order_creation_event 1000 demo_signal) 3,
     en_seen_signals := {''s1''}, en_trace := [(1000, ''SignalEvent'')]\<rparr>)"
  by (simp add: run_step_def demo_defs demo_engine_def demo_queue_def)

lemma demo_creation_step:
  "run_step si (demo_engine\<lparr>en_queue := demo_queue (Order_creation_event 1000 demo_signal) 3,
     en_seen_signals := {''s1''}, en_trace := [(1000, ''SignalEvent'')]\<rparr>) =
   (Inr (), demo_engine\<lparr>en_queue := demo_queue (Order_submission_event 1000 demo_order) 4,
     en_order_sequence := Suc 0, en_seen_signals := {''s1''},
     en_trace := [(1000, ''SignalEvent''), (1000, ''OrderCreationEvent'')]\<rparr>)"
  by (simp add: run_step_def demo_defs demo_engine_def demo_queue_def)

lemma demo_submission_step:
  "run_step si (demo_engine\<lparr>en_queue := demo_queue (Order_submission_event 1000 demo_order) 4,
     en_order_sequence := Suc 0, en_seen_signals := {''s1''},
     en_trace := [(1000, ''SignalEvent''), (1000, ''OrderCreationEvent'')]\<rparr>) = (Inr (), demo_submitted)"
  by (simp add: run_step_def pop_def demo_queue_def queued_def on_order_submission_def demo_engine_def
      demo_submitted_def submit_def demo_order_def ExecutionSimulator_init_def sample_ledger_rules_def
      quantize_quantity_def admit_order_def quantise_limit_def store_order_def dec_eval Let_def)

lemma demo_loop:
  "run_loop si 40 0 (add_events demo_events demo_engine) = run_loop si 40 3 demo_submitted"
proof -
  have q: "queue_nonempty (demo_queue ev n)" for ev n by (simp add: queue_nonempty_def demo_queue_def)
  have "queue_nonempty (en_queue (add_events demo_events demo_engine))"
    by (simp add: demo_defs demo_engine_def)
  then have "run_loop si 40 0 (add_events demo_events demo_engine) = run_loop si 40 (Suc 0) (demo_engine\<lparr>
     en_queue := demo_queue (Order_creation_event 1000 demo_signal) 3,
     en_seen_signals := {''s1''}, en_trace := [(1000, ''SignalEvent'')]\<rparr>)"
    by (rule run_loop_step) (simp_all add: demo_signal_step)
  also have "\<dots> = run_loop si 40 (Suc (Suc 0)) (demo_engine\<lparr>
     en_queue := demo_queue (Order_submission_event 1000 demo_order) 4, en_order_sequence := Suc 0, en_seen_signals := {''s1''},
     en_trace := [(1000, ''SignalEvent''), (1000, ''OrderCreationEvent'')]\<rparr>)"
    by (rule run_loop_step) (simp_all add: demo_creation_step q)
  also have "\<dots> = run_loop si 40 (Suc (Suc (Suc 0))) demo_submitted"
    by (rule run_loop_step) (simp_all add: demo_submission_step q)
  finally show ?thesis by (simp add: numeral_3_eq_3)
qed

text \<open>The market event: a fill of two at 100.1, no protection, no liquidation.\<close>

definition demo_ledger :: "Fill \<Rightarrow> PortfolioLedger" where
  "demo_ledger f = fresh_ledger\<lparr>l_leverage := 1,
     l_positions := [((''x'', ''BTC''), (new_position ''x'' ''BTC'')\<lparr>p_quantity := 2,
       p_average_entry_price := 1001 / 10, p_mark_price := 1001 / 10, p_opened_at := Some 2000,
       p_updated_at := Some 2000\<rparr>)],
     l_fills := [f], l_processed_fill_ids := {f_fill_id f}\<rparr>"

lemma demo_match:
  assumes "en_portfolio en = fresh_ledger\<lparr>l_leverage := 1\<rparr>"
  shows "\<exists>f sim. match_snapshot demo_snapshot (Some (engine_cap demo_snapshot)) (Some engine_consume)
     (en_execution demo_submitted, en) = (Inr [f], (sim, en\<lparr>en_portfolio := demo_ledger f\<rparr>)) \<and>
     sim_fills sim = [f] \<and> f_quantity f = 2"
proof -
  let ?o = "demo_order\<lparr>o_status := SUBMITTED\<rparr>" and ?r = sample_ledger_rules
  have cap: "engine_cap demo_snapshot en ?o = 4"
    using assms by (simp add: engine_cap_def maximum_fill_quantity_def available_margin_def current_quantity_def
        equity_def unrealized_pnl_def margin_used_def gross_exposure_def dict_values_def fresh_ledger_def
        sample_ledger_rules_def demo_order_def demo_snapshot_def dec_eval Let_def)
  have td: "taker_details default_config ?o demo_snapshot ?r 4 = Inr (Some \<lparr>m_quantity = 2, m_price = 1001 / 10,
      m_liquidity = TAKER, m_spread = 1, m_slippage = 2 / 100, m_impact = 25 / 1000\<rparr>)"
    by (simp add: taker_details_def demo_order_def demo_snapshot_def default_config_def sample_ledger_rules_def
        quantize_quantity_def impact_bps_def quantize_execution_price_def mid_def dec_eval Let_def)
  let ?m = "\<lparr>m_quantity = 2, m_price = 1001 / 10, m_liquidity = TAKER, m_spread = 1,
      m_slippage = 2 / 100, m_impact = 25 / 1000\<rparr>"
  let ?st = "(en_execution demo_submitted, en)"
  have conf: "sim_config (en_execution demo_submitted) = default_config"
    "sim_orders (en_execution demo_submitted) = [(o_order_id ?o, ?o)]"
    "sim_rules (en_execution demo_submitted) = [((''x'', ''BTC''), ?r)]"
    by (simp_all add: demo_submitted_def demo_engine_def ExecutionSimulator_init_def store_order_def)
  have "match_one demo_snapshot ?r (Some (engine_cap demo_snapshot)) (Some engine_consume) ?o ?st =
      settle_order demo_snapshot ?r (Some engine_consume) 4 ?o ?st"
    using cap by (simp add: match_one_def terminal_def expired_at_def filled_quantity_def validate_notional_def
        mid_def demo_order_def demo_snapshot_def sample_ledger_rules_def dec_eval)
  also have "\<dots> = execute_match demo_snapshot ?r (Some engine_consume) ?o ?m ?st"
    using td conf by (simp add: settle_order_def match_details_def is_marketable_def demo_order_def)
  finally have one: "match_one demo_snapshot ?r (Some (engine_cap demo_snapshot)) (Some engine_consume) ?o ?st =
      execute_match demo_snapshot ?r (Some engine_consume) ?o ?m ?st" .
  have fills: "sim_fills (en_execution demo_submitted) = []" "sim_fill_sequence (en_execution demo_submitted) = 0"
    by (simp_all add: demo_submitted_def demo_engine_def ExecutionSimulator_init_def)
  have "\<exists>f sim. execute_match demo_snapshot ?r (Some engine_consume) ?o ?m ?st =
      (Inr (Some f), (sim, en\<lparr>en_portfolio := demo_ledger f\<rparr>)) \<and> sim_fills sim = [f] \<and> f_quantity f = 2"
    using assms fills
    by (simp add: execute_match_def make_fill_def Fill_post_init_def record_fill_def terminal_def demo_order_def
        demo_snapshot_def engine_consume_def ledger_fill_defs is_open_def sample_ledger_rules_def demo_ledger_def
        fresh_ledger_def new_position_def dec_eval Let_def)
  then show ?thesis
    using one by (auto simp: match_snapshot_def candidates_def dict_values_def conf demo_snapshot_def)
qed

lemma demo_quiet:
  assumes "en_portfolio en = mark demo_snapshot (demo_ledger f)"
  shows "check_liquidation si 2000 (check_protection demo_snapshot en) = en"
proof -
  have m: "mark demo_snapshot (demo_ledger f) = (demo_ledger f)\<lparr>l_positions :=
      [((''x'', ''BTC''), (new_position ''x'' ''BTC'')\<lparr>p_quantity := 2, p_average_entry_price := 1001 / 10,
        p_mark_price := 995 / 10, p_opened_at := Some 2000, p_updated_at := Some 2000\<rparr>)]\<rparr>"
    by (simp add: mark_def demo_snapshot_def demo_ledger_def set_position_def is_open_def valuation_price_def
        dec_or_def mid_def new_position_def dec_eval)
  have "check_protection demo_snapshot en = en"
    using assms m by (simp add: check_protection_def demo_snapshot_def protection_trigger_def new_position_def)
  moreover have "liquidation_decision 2000 (en_portfolio en) = None"
    using assms m by (simp add: liquidation_decision_def equity_def unrealized_pnl_def dict_values_def
        maintenance_margin_def position_notional_def position_unrealized_pnl_def is_open_def demo_ledger_def
        fresh_ledger_def sample_ledger_rules_def new_position_def dec_eval)
  ultimately show ?thesis by (simp add: check_liquidation_def)
qed

lemma demo_run:
  "\<exists>r en'. run si 40 (add_events demo_events demo_engine) = (Inr r, en') \<and> map f_quantity (br_fills r) = [2] \<and>
     length (br_event_trace r) = 4"
proof -
  let ?en = "demo_submitted\<lparr>en_queue := \<lparr>eq_heap = [], eq_sequence = 4\<rparr>,
     en_trace := en_trace demo_submitted @ [(2000, ''MarketEvent'')]\<rparr>"
  let ?en1 = "?en\<lparr>en_portfolio := mark demo_snapshot (en_portfolio ?en)\<rparr>"
  have pf: "en_portfolio ?en1 = fresh_ledger\<lparr>l_leverage := 1\<rparr>"
    by (simp add: demo_submitted_def demo_engine_def mark_def fresh_ledger_def)
  obtain f sim where m: "match_snapshot demo_snapshot (Some (engine_cap demo_snapshot)) (Some engine_consume)
     (en_execution demo_submitted, ?en1) = (Inr [f], (sim, ?en1\<lparr>en_portfolio := demo_ledger f\<rparr>))"
     "sim_fills sim = [f]" "f_quantity f = 2"
    using demo_match [OF pf] by blast
  let ?en3 = "?en1\<lparr>en_execution := sim, en_portfolio := mark demo_snapshot (demo_ledger f)\<rparr>"
  have t: "s_timestamp demo_snapshot = 2000" by (simp add: demo_snapshot_def)
  have step: "run_step si demo_submitted = (Inr (), ?en3\<lparr>en_portfolio := snd (capture 2000 (en_portfolio ?en3))\<rparr>)"
    using m(1) demo_quiet [of ?en3 f si] t
    by (simp add: run_step_def pop_def queued_def on_market_def Let_def demo_submitted_def)
  have "run_loop si 40 3 demo_submitted = (Inr 4, ?en3\<lparr>en_portfolio := snd (capture 2000 (en_portfolio ?en3))\<rparr>)"
    using run_loop_step [OF _ _ step, of 3 40]
    by (simp add: queue_nonempty_def demo_submitted_def run_loop.simps [of si 40 4])
  then show ?thesis
    using m(2,3) by (simp add: run_def demo_loop) (simp add: demo_submitted_def)
qed

lemma demo_set_iter: "set_iter_ok (\<lambda>xs. xs)"
  by (simp add: set_iter_ok_def)

theorem run_chronological_witness:
  "\<exists>r en'. run (\<lambda>xs. xs) 40 (add_events demo_events demo_engine) = (Inr r, en') \<and>
     length (br_event_trace r) = 4 \<and> sorted (map fst (br_event_trace r))"
  using demo_run [of "\<lambda>xs. xs"] run_chronological [OF demo_init demo_client demo_set_iter] by metis

theorem run_books_every_fill_witness:
  "\<exists>r en'. run (\<lambda>xs. xs) 40 (add_events demo_events demo_engine) = (Inr r, en') \<and>
     map f_quantity (br_fills r) = [2] \<and> l_fills (en_portfolio en') = br_fills r"
  using demo_run [of "\<lambda>xs. xs"] run_books_every_fill [OF demo_init demo_client demo_set_iter] by metis

theorem run_terminates_within_budget_witness:
  "\<exists>r en'. run (\<lambda>xs. xs) 40 (add_events demo_events demo_engine) = (Inr r, en') \<and>
     br_processed_events r \<le> 10 \<and> \<not> queue_nonempty (en_queue en')"
proof -
  have w: "(\<Sum>ev \<leftarrow> demo_events. event_weight (card (fst ` set [((''x'', ''BTC''), sample_ledger_rules)])) ev) = 10"
    by (simp add: demo_events_def)
  have "(\<Sum>ev \<leftarrow> demo_events. event_weight (card (fst ` set [((''x'', ''BTC''), sample_ledger_rules)])) ev) \<le> 40"
    using w by simp
  from run_terminates_within_budget [OF demo_init demo_client demo_set_iter this] show ?thesis
    using demo_run [of "\<lambda>xs. xs"] unfolding w by auto
qed

end
