(* ===== verification/Backtest_Causality.thy ===== *)
theory Backtest_Causality
  imports Backtest_Engine "HOL-Library.Sublist"
begin

text \<open>
  No look-ahead in \<open>src/app/services/backtest/engine.py\<close>: every fill of a backtest is traced back
  through its order to one signal, and the trace of the run holds the signal, the creation, the
  submission and the market event of that fill in this order.
\<close>

section \<open>Where orders and fills come from\<close>

text \<open>What an order takes over from its signal and a fill from its order.\<close>

record provenance =
  v_order_id :: string
  v_signal_id :: string
  v_exchange :: string
  v_symbol :: string
  v_side :: Side
  v_signal_at :: instant
  v_created_at :: instant
  v_submitted_at :: instant

definition order_origin :: "Order \<Rightarrow> provenance" where
  "order_origin ord = \<lparr>v_order_id = o_order_id ord, v_signal_id = o_signal_id ord, v_exchange = o_exchange ord,
     v_symbol = o_symbol ord, v_side = o_side ord, v_signal_at = o_signal_at ord,
     v_created_at = o_created_at ord, v_submitted_at = o_submitted_at ord\<rparr>"

definition fill_origin :: "Fill \<Rightarrow> provenance" where
  "fill_origin f = \<lparr>v_order_id = f_order_id f, v_signal_id = f_signal_id f, v_exchange = f_exchange f,
     v_symbol = f_symbol f, v_side = f_side f, v_signal_at = f_signal_at f,
     v_created_at = f_order_created_at f, v_submitted_at = f_submitted_at f\<rparr>"

definition from_signal :: "SignalEvent \<Rightarrow> provenance \<Rightarrow> bool" where
  "from_signal g k \<longleftrightarrow> v_signal_id k = g_signal_id g \<and> v_exchange k = g_exchange g \<and> v_symbol k = g_symbol g \<and>
     v_side k = g_side g \<and> v_signal_at k = g_timestamp g \<and>
     v_created_at k = g_timestamp g + g_calculation_delay g \<and>
     v_submitted_at k = v_created_at k + g_submission_delay g"

text \<open>
  A signal comes from the client, or it is a reduce-only exit that the engine raised while it
  processed a market event of that very time.
\<close>

definition raised_by :: "BacktestEvent list \<Rightarrow> SignalEvent \<Rightarrow> (instant \<times> string) list \<Rightarrow> bool" where
  "raised_by evs g cause \<longleftrightarrow> Signal_event g \<in> set evs \<and> cause = [] \<or>
     g_reduce_only g \<and> (\<exists>s. Market_event s \<in> set evs \<and> s_timestamp s = g_timestamp g) \<and>
     cause = [(g_timestamp g, ''MarketEvent'')]"

text \<open>The trace holds the cause of the signal and then the given steps, in this order.\<close>

definition descends :: "BacktestEvent list \<Rightarrow> SignalEvent \<Rightarrow> (instant \<times> string) list \<Rightarrow>
    (instant \<times> string) list \<Rightarrow> bool" where
  "descends evs g steps tr \<longleftrightarrow> (\<exists>cause. raised_by evs g cause \<and> subseq (cause @ steps) tr)"

definition submission_path :: "provenance \<Rightarrow> (instant \<times> string) list" where
  "submission_path k = [(v_signal_at k, ''SignalEvent''), (v_created_at k, ''OrderCreationEvent''),
     (v_submitted_at k, ''OrderSubmissionEvent'')]"

lemma descends_later: "descends evs g steps tr \<Longrightarrow> descends evs g steps (tr @ later)"
  unfolding descends_def using subseq_rev_drop_many by (metis append_Nil2 list_emb_append_mono list_emb_Nil)

lemma descends_next: "descends evs g steps tr \<Longrightarrow> descends evs g (steps @ [e]) (tr @ [e])"
  unfolding descends_def by (metis append.assoc list_emb_append_mono subseq_order.refl)

section \<open>Matching keeps the provenance of every order\<close>

definition origins :: "ExecutionSimulator \<Rightarrow> provenance set" where
  "origins sim = order_origin ` set (dict_values (sim_orders sim))"

lemma origins_iff: "k \<in> origins sim \<longleftrightarrow> (\<exists>i ord. (i, ord) \<in> set (sim_orders sim) \<and> order_origin ord = k)"
  by (force simp: origins_def dict_values_def)

lemma order_origin_step [simp]:
  "order_origin (reject reason ord) = order_origin ord" "order_origin (cancel reason ex ord) = order_origin ord"
  by (simp_all add: order_origin_def reject_def cancel_def)

lemma order_origin_record: "record_fill q ord = Inr ord' \<Longrightarrow> order_origin ord' = order_origin ord"
  by (auto simp: order_origin_def record_fill_Inr_iff)

lemma order_origin_order_step: "order_origin (order_step a ord) = order_origin ord"
  by (cases a) (auto dest: order_origin_record split: sum.splits)

lemma order_origin_id: "order_origin a = order_origin b \<Longrightarrow> o_order_id a = o_order_id b"
  by (simp add: order_origin_def)

lemma origins_store:
  assumes "sim_inv sim" "order_origin ord \<in> origins sim"
  shows "origins (store_order ord sim) = origins sim"
proof -
  have ok: "dict_ok (sim_orders sim)" and key: "\<And>i x. (i, x) \<in> set (sim_orders sim) \<Longrightarrow> i = o_order_id x"
    using assms(1) by (auto simp: sim_inv_def list_all_iff)
  obtain x where x: "(o_order_id ord, x) \<in> set (sim_orders sim)" "order_origin x = order_origin ord"
    using assms(2) key order_origin_id unfolding origins_iff by metis
  have "y = x" if "(o_order_id ord, y) \<in> set (sim_orders sim)" for y
    using that x(1) ok by (metis dict_in_set_iff option.inject)
  then have other: "i \<noteq> o_order_id ord" if "(i, y) \<in> set (sim_orders sim)" "order_origin y \<noteq> order_origin ord" for i y
    using that x(2) by blast
  show ?thesis
  proof (intro set_eqI iffI)
    fix k assume "k \<in> origins (store_order ord sim)"
    then show "k \<in> origins sim" using assms(2) by (auto simp: origins_iff dict_set_mem_iff [OF ok])
  next
    fix k assume "k \<in> origins sim"
    then obtain i y where y: "(i, y) \<in> set (sim_orders sim)" "order_origin y = k" by (auto simp: origins_iff)
    show "k \<in> origins (store_order ord sim)"
    proof (cases "k = order_origin ord")
      case True
      then show ?thesis unfolding origins_iff by (auto simp: dict_set_mem_iff [OF ok])
    next
      case False
      then show ?thesis using y other [OF y(1)] unfolding origins_iff by (auto simp: dict_set_mem_iff [OF ok])
    qed
  qed
qed

lemma execute_match_origin:
  assumes "execute_match snap r on_fill ord m st = (Inr (Some f), st')"
  shows "fill_origin f = order_origin ord"
proof -
  obtain sim p where st: "st = (sim, p)" by fastforce
  obtain sim1 where "make_fill ord snap r m sim = (Inr f, sim1)"
    using assms by (auto simp: execute_match_def st Let_def split: prod.splits sum.splits)
  then show ?thesis
    by (auto simp: make_fill_def Let_def Fill_post_init_def fill_origin_def order_origin_def)
qed

lemma match_one_origins:
  assumes "match_one snap r qcap on_fill ord (sim, p) = (Inr res, (sim', p'))"
    "sim_inv sim" "live_order_ok ord" "order_origin ord \<in> origins sim"
  shows "origins sim' = origins sim \<and> (\<forall>f \<in> set (opt_fill res). fill_origin f = order_origin ord)"
  using assms(1)
proof (cases rule: match_one_cases)
  case (executed m c)
  then have ex: "execute_match snap r on_fill ord m (sim, p) = (Inr res, (sim', p'))" by (simp add: books_def)
  then show ?thesis
  proof (rule execute_match_Inr)
    fix f o1
    assume f: "res = Some f" and o1: "record_fill (m_quantity m) ord = Inr o1"
      and sim': "sim' = (store_order (if o_time_in_force o1 = IOC \<and> o_remaining_quantity o1 > 0
               then cancel ''IOC remainder cancelled'' False o1 else o1)
             (store_order o1 (sim\<lparr>sim_fill_sequence := Suc (sim_fill_sequence sim)\<rparr>)))
             \<lparr>sim_fills := sim_fills sim @ [f]\<rparr>"
    let ?o2 = "if o_time_in_force o1 = IOC \<and> o_remaining_quantity o1 > 0
               then cancel ''IOC remainder cancelled'' False o1 else o1"
    let ?sim0 = "sim\<lparr>sim_fill_sequence := Suc (sim_fill_sequence sim)\<rparr>"
    have k: "order_origin o1 = order_origin ord" "order_origin ?o2 = order_origin ord"
      using order_origin_record [OF o1] by auto
    have "sim_inv (store_order o1 ?sim0)"
      by (rule sim_inv_store [OF sim_inv_tick [OF assms(2)] live_record_fill [OF assms(3) o1]])
    moreover have "origins ?sim0 = origins sim" by (simp add: origins_def)
    moreover from this have "origins (store_order o1 ?sim0) = origins sim"
      using k(1) assms(2,4) sim_inv_tick origins_store [of ?sim0 o1] by simp
    ultimately have "origins (store_order ?o2 (store_order o1 ?sim0)) = origins sim"
      using k(2) assms(4) origins_store [of "store_order o1 ?sim0" ?o2] by simp
    then have "origins sim' = origins sim" by (simp add: sim' origins_def)
    then show ?thesis using execute_match_origin ex f by auto
  qed
qed (use assms(2,4) in \<open>auto simp: origins_store order_origin_order_step\<close>)

lemma match_loop_origins:
  assumes "match_loop (match_one snap r qcap on_fill) ords produced (sim, p) = (Inr fs, (sim', p'))"
    "sim_inv sim" "\<forall>ord \<in> set ords. live_order_ok ord \<and> order_origin ord \<in> origins sim"
    "fill_origin ` set produced \<subseteq> origins sim"
  shows "origins sim' = origins sim \<and> fill_origin ` set fs \<subseteq> origins sim"
  using assms
proof (induction ords arbitrary: produced sim p)
  case (Cons ord ords)
  obtain res sim1 p1 where one: "match_one snap r qcap on_fill ord (sim, p) = (Inr res, (sim1, p1))"
    and rest: "match_loop (match_one snap r qcap on_fill) ords (produced @ opt_fill res) (sim1, p1) =
      (Inr fs, (sim', p'))"
    using Cons.prems(1) by (auto split: prod.splits sum.splits option.splits)
  have same: "origins sim1 = origins sim" and f: "\<forall>f \<in> set (opt_fill res). fill_origin f = order_origin ord"
    using match_one_origins [OF one Cons.prems(2)] Cons.prems(3) by auto
  have "fill_origin ` set (produced @ opt_fill res) \<subseteq> origins sim1"
    using f same Cons.prems(3,4) by auto
  moreover have "sim_inv sim1" using match_one_sim [OF one Cons.prems(2)] Cons.prems(3) by auto
  moreover have "\<forall>x \<in> set ords. live_order_ok x \<and> order_origin x \<in> origins sim1" using same Cons.prems(3) by auto
  ultimately show ?case using Cons.IH [OF rest] same by simp
qed auto

lemma match_snapshot_origins:
  assumes "match_snapshot snap qcap on_fill (sim, p) = (Inr fs, (sim', p'))" "sim_inv sim"
  shows "origins sim' = origins sim \<and> fill_origin ` set fs \<subseteq> origins sim"
proof -
  have "\<forall>ord \<in> set (candidates sim). live_order_ok ord \<and> order_origin ord \<in> origins sim"
    using assms(2) sim_inv_order by (auto simp: candidates_set origins_def)
  then show ?thesis
    using assms match_loop_origins [of snap _ qcap on_fill "candidates sim" "[]" sim p fs sim' p']
    by (auto simp: match_snapshot_def split: option.splits)
qed

lemma origins_cancel_openings [simp]: "origins (cancel_openings sim) = origins sim"
proof -
  have "map (order_origin \<circ> snd) (sim_orders (cancel_openings sim)) = map (order_origin \<circ> snd) (sim_orders sim)"
    by (auto simp: cancel_openings_def)
  then have "(order_origin \<circ> snd) ` set (sim_orders (cancel_openings sim)) = (order_origin \<circ> snd) ` set (sim_orders sim)"
    by (metis list.set_map)
  then show ?thesis by (simp add: origins_def dict_values_def image_comp)
qed

lemma origins_submit: "origins (snd (submit ord sim)) \<subseteq> insert (order_origin ord) (origins sim)"
proof -
  have "order_origin (snd (admit_order rules q ord)) = order_origin ord" for rules q
    by (auto simp: admit_order_def quantise_limit_def order_origin_def reject_def Let_def split: option.splits sum.splits)
  then have "\<exists>o1. order_origin o1 = order_origin ord \<and> snd (submit ord sim) \<in> {sim, store_order o1 sim}"
    unfolding submit_def Let_def split_beta
    by (cases "map_of (sim_rules sim) (o_exchange ord, o_symbol ord)") (auto intro: order_origin_step)
  then obtain o1 where o1: "order_origin o1 = order_origin ord" "snd (submit ord sim) \<in> {sim, store_order o1 sim}"
    by blast
  have "origins (store_order o1 sim) \<subseteq> insert (order_origin o1) (origins sim)"
  proof
    fix k assume "k \<in> origins (store_order o1 sim)"
    then obtain i y where "(i, y) \<in> set (dict_set (o_order_id o1) o1 (sim_orders sim))" "order_origin y = k"
      by (auto simp: origins_iff)
    then show "k \<in> insert (order_origin o1) (origins sim)"
      using dict_set_mem [of i y "o_order_id o1" o1 "sim_orders sim"] by (auto simp: origins_iff)
  qed
  then show ?thesis using o1 by auto
qed

section \<open>The run\<close>

text \<open>What is known of a queued event, and of the orders and fills of the simulator, at a trace.\<close>

fun accounted :: "BacktestEvent list \<Rightarrow> (instant \<times> string) list \<Rightarrow> BacktestEvent \<Rightarrow> bool" where
  "accounted evs tr (Market_event s) = (Market_event s \<in> set evs)"
| "accounted evs tr (Signal_event g) = descends evs g [] tr"
| "accounted evs tr (Order_creation_event t g) = descends evs g [(g_timestamp g, ''SignalEvent'')] tr"
| "accounted evs tr (Order_submission_event t ord) = (\<exists>g. from_signal g (order_origin ord) \<and>
     descends evs g [(g_timestamp g, ''SignalEvent''), (o_created_at ord, ''OrderCreationEvent'')] tr)"
| "accounted evs tr (Funding_event fe) = True"

definition order_accounted :: "BacktestEvent list \<Rightarrow> (instant \<times> string) list \<Rightarrow> provenance \<Rightarrow> bool" where
  "order_accounted evs tr k \<longleftrightarrow> (\<exists>g. from_signal g k \<and> descends evs g (submission_path k) tr)"

definition fill_accounted :: "BacktestEvent list \<Rightarrow> (instant \<times> string) list \<Rightarrow> Fill \<Rightarrow> bool" where
  "fill_accounted evs tr f \<longleftrightarrow>
     (\<exists>g. from_signal g (fill_origin f) \<and>
       descends evs g (submission_path (fill_origin f) @ [(f_filled_at f, ''MarketEvent'')]) tr) \<and>
     (\<exists>s. Market_event s \<in> set evs \<and> s_timestamp s = f_filled_at f \<and> s_exchange s = f_exchange f \<and>
       s_symbol s = f_symbol f)"

definition causal :: "BacktestEvent list \<Rightarrow> BacktestEngine \<Rightarrow> bool" where
  "causal evs en \<longleftrightarrow> (\<forall>ev \<in># queue_events (en_queue en). accounted evs (en_trace en) ev) \<and>
     (\<forall>k \<in> origins (en_execution en). order_accounted evs (en_trace en) k) \<and>
     (\<forall>f \<in> set (sim_fills (en_execution en)). fill_accounted evs (en_trace en) f \<and>
        fill_origin f \<in> origins (en_execution en))"

lemma accounted_later: "accounted evs tr ev \<Longrightarrow> accounted evs (tr @ later) ev"
  by (cases ev) (auto intro: descends_later)

lemma order_accounted_later: "order_accounted evs tr k \<Longrightarrow> order_accounted evs (tr @ later) k"
  by (auto simp: order_accounted_def intro: descends_later)

lemma fill_accounted_later: "fill_accounted evs tr f \<Longrightarrow> fill_accounted evs (tr @ later) f"
  by (auto simp: fill_accounted_def intro: descends_later)

lemma order_of_signal_origin:
  assumes "order_of_signal n t g = Inr ord" "t = g_timestamp g + g_calculation_delay g"
  shows "from_signal g (order_origin ord)"
  using assms
  by (auto simp: order_of_signal_def Order_post_init_def Let_def from_signal_def order_origin_def split: if_splits option.splits)

text \<open>
  One event, after its entry was appended to the trace: what it queues is accounted for, an order
  it stores has been submitted by it, and a fill it makes is one of a stored order at this
  market event.
\<close>

definition accounts :: "BacktestEvent list \<Rightarrow> BacktestEvent \<Rightarrow> BacktestEngine \<Rightarrow> BacktestEngine \<Rightarrow> bool" where
  "accounts evs ev en en' \<longleftrightarrow>
     (\<exists>new. en_queue en' = fold push new (en_queue en) \<and> (\<forall>x \<in> set new. accounted evs (en_trace en) x)) \<and>
     (\<forall>k \<in> origins (en_execution en'). k \<in> origins (en_execution en) \<or> order_accounted evs (en_trace en) k) \<and>
     origins (en_execution en) \<subseteq> origins (en_execution en') \<and>
     (\<exists>fs. sim_fills (en_execution en') = sim_fills (en_execution en) @ fs \<and>
       (\<forall>f \<in> set fs. fill_origin f \<in> origins (en_execution en) \<and>
          (\<exists>s. ev = Market_event s \<and> s_timestamp s = f_filled_at f \<and> s_exchange s = f_exchange f \<and>
            s_symbol s = f_symbol f)))"

lemma on_market_accounts:
  assumes "on_market si snap en = (Inr (), en')" "book_ok en" "snapshot_ok snap" "set_iter_ok si"
    "Market_event snap \<in> set evs" "en_trace en = tr @ [(s_timestamp snap, ''MarketEvent'')]"
  shows "accounts evs (Market_event snap) en en'"
proof -
  let ?t = "s_timestamp snap"
  obtain en3 fs p p' where m: "match_snapshot snap (Some (engine_cap snap)) (Some engine_consume) (en_execution en, p) =
       (Inr fs, (en_execution en3, p'))"
    and en': "en' = (let en5 = check_liquidation si ?t (check_protection snap en3)
            in en5\<lparr>en_portfolio := snd (capture ?t (en_portfolio en5))\<rparr>)"
    using on_market_match [OF assms(1-3)] by metis
  have inv: "sim_inv (en_execution en)" using assms(2) by (simp add: book_ok_def)
  have sim: "en_execution en' \<in> {en_execution en3, cancel_openings (en_execution en3)}"
    using exits_check_liquidation(2) [OF assms(4), of ?t "check_protection snap en3"]
    by (simp add: exits_protection(2) en' Let_def)
  have orig: "origins (en_execution en') = origins (en_execution en)" "fill_origin ` set fs \<subseteq> origins (en_execution en)"
    using match_snapshot_origins [OF m inv] sim by auto
  have fills: "sim_fills (en_execution en') = sim_fills (en_execution en) @ fs"
    "\<forall>f \<in> set fs. \<exists>ord. good_fill snap ord f"
    using match_snapshot_sim [OF m inv] sim by auto
  obtain new where new: "en_queue en' = fold push new (en_queue en)" "list_all (exit_event ?t) new"
    using on_market_step [OF assms(1-4)] by blast
  have "accounted evs (en_trace en) x" if x: "x \<in> set new" for x
  proof -
    obtain g where g: "x = Signal_event g" "g_timestamp g = ?t" "g_reduce_only g"
      using new(2) x by (auto simp: list_all_iff exit_event_def)
    have "raised_by evs g [(?t, ''MarketEvent'')]" using g(2,3) assms(5) unfolding raised_by_def by metis
    moreover have "subseq [(?t, ''MarketEvent'')] (en_trace en)" by (simp add: assms(6) subseq_singleton_left)
    ultimately show ?thesis by (auto simp: g(1) descends_def)
  qed
  then show ?thesis using new(1) orig fills by (fastforce simp: accounts_def good_fill_def)
qed

lemma origins_submit_keep:
  assumes "sim_inv sim" shows "origins sim \<subseteq> origins (snd (submit ord sim))"
proof -
  have "origins sim \<subseteq> origins (store_order o1 sim)" if "map_of (sim_orders sim) (o_order_id o1) = None" for o1
    using that by (simp add: origins_def dict_values_def map_of_eq_None_iff dict_set_new subset_insertI)
  moreover have "o_order_id (snd (admit_order rules q ord)) = o_order_id ord" for rules q
    by (auto simp: admit_order_def quantise_limit_def reject_def Let_def split: option.splits sum.splits)
  ultimately show ?thesis
    unfolding submit_def Let_def split_beta
    by (cases "map_of (sim_rules sim) (o_exchange ord, o_symbol ord)") auto
qed

lemma dispatch_accounts:
  assumes d: "dispatch si ev en = (Inr (), en')" and ok: "book_ok en" "event_ok ev" "set_iter_ok si"
    and acc: "accounted evs tr ev" and tr: "en_trace en = tr @ [(event_timestamp ev, event_name ev)]"
  shows "accounts evs ev en en'"
proof (cases ev)
  case (Market_event snap)
  then show ?thesis using on_market_accounts [of si snap en en' evs tr] assms by simp
next
  case (Funding_event fe)
  then have "en_execution en' = en_execution en" "en_queue en' = en_queue en"
    using d by (auto simp: on_funding_def split: prod.splits sum.splits)
  then show ?thesis unfolding accounts_def by (auto intro: exI [of _ "[]"])
next
  case (Signal_event g)
  let ?c = "Order_creation_event (g_timestamp g + g_calculation_delay g) g"
  have "descends evs g [(g_timestamp g, ''SignalEvent'')] (en_trace en)"
    using acc tr Signal_event descends_next [of evs g "[]" tr] by simp
  moreover have "en_queue en' \<in> {en_queue en, push ?c (en_queue en)}" "en_execution en' = en_execution en"
    using d Signal_event by (auto simp: on_signal_def push_event_def)
  ultimately show ?thesis
    unfolding accounts_def by (auto intro: exI [of _ "[]"] exI [of _ "[?c]"])
next
  case (Order_creation_event t g)
  let ?s = "\<lambda>ord. Order_submission_event (t + g_submission_delay g) ord"
  obtain ord where ord: "order_of_signal (Suc (en_order_sequence en)) t g = Inr ord"
    and en': "en' = push_event (?s ord) (en\<lparr>en_order_sequence := Suc (en_order_sequence en)\<rparr>)"
    using d Order_creation_event by (auto simp: on_order_creation_def Let_def split: sum.splits)
  have t: "t = g_timestamp g + g_calculation_delay g" using ok(2) Order_creation_event by simp
  have "accounted evs (en_trace en) (?s ord)"
    using acc tr Order_creation_event descends_next [of evs g "[(g_timestamp g, ''SignalEvent'')]" tr]
      order_of_signal_origin [OF ord t] order_of_signal_Inr [OF ord] by auto
  then show ?thesis unfolding accounts_def en' push_event_def by (auto intro!: exI [of _ "[?s ord]"])
next
  case (Order_submission_event t ord)
  have en': "en_execution en' = snd (submit ord (en_execution en))" "en_queue en' = en_queue en"
    using d Order_submission_event by (auto simp: on_order_submission_def split_beta Let_def)
  obtain g where g: "from_signal g (order_origin ord)"
    "descends evs g [(g_timestamp g, ''SignalEvent''), (o_created_at ord, ''OrderCreationEvent'')] tr"
    using acc Order_submission_event by auto
  have "order_accounted evs (en_trace en) (order_origin ord)"
    using descends_next [OF g(2), of "(t, ''OrderSubmissionEvent'')"] g(1) tr ok(2) Order_submission_event
    by (auto simp: order_accounted_def submission_path_def from_signal_def order_origin_def)
  then show ?thesis
    using origins_submit [of ord "en_execution en"] origins_submit_keep [of "en_execution en" ord] ok(1)
      submit_rules(2) [of ord "en_execution en"]
    by (auto simp: accounts_def en' book_ok_def intro: exI [of _ "[]"])
qed

lemma causal_step:
  assumes "causal evs en" "engine_inv en" "set_iter_ok si" "run_step si en = (Inr (), en')"
  shows "causal evs en'"
proof -
  obtain ev q where p: "pop (en_queue en) = (Inr ev, q)"
    and d: "dispatch si ev (en\<lparr>en_queue := q, en_trace := en_trace en @ [(event_timestamp ev, event_name ev)]\<rparr>) = (Inr (), en')"
    using assms(4) by (auto simp: run_step_def split: prod.splits sum.splits)
  let ?e = "(event_timestamp ev, event_name ev)"
  let ?en1 = "en\<lparr>en_queue := q, en_trace := en_trace en @ [?e]\<rparr>"
  have q: "queue_ok q" "queue_events (en_queue en) = add_mset ev (queue_events q)"
    using queue_pop_events [OF _ p] assms(2) by (auto simp: engine_inv_def)
  have ok: "event_ok ev" "book_ok ?en1" using assms(2) q by (auto simp: engine_inv_def book_ok_def)
  have tr: "en_trace en' = en_trace en @ [?e]" using dispatch_step [OF d ok(2,1) assms(3)] by simp
  have acc: "accounts evs ev ?en1 en'"
    using assms(1) q(2) by (intro dispatch_accounts [OF d ok(2,1) assms(3), of evs "en_trace en"]) (auto simp: causal_def)
  obtain new where new: "en_queue en' = fold push new q" "\<forall>x \<in> set new. accounted evs (en_trace en') x"
    using acc tr by (auto simp: accounts_def)
  have "\<forall>x \<in># queue_events (en_queue en'). accounted evs (en_trace en') x"
    using queue_push_events [OF q(1), of new] new q(2) assms(1) tr by (auto simp: causal_def intro: accounted_later)
  moreover have "\<forall>k \<in> origins (en_execution en'). order_accounted evs (en_trace en') k"
    using acc assms(1) tr by (auto simp: accounts_def causal_def intro: order_accounted_later)
  moreover have "fill_accounted evs (en_trace en') f \<and> fill_origin f \<in> origins (en_execution en')"
    if f: "f \<in> set (sim_fills (en_execution en'))" for f
  proof (cases "f \<in> set (sim_fills (en_execution en))")
    case True
    then show ?thesis using acc assms(1) tr by (auto simp: accounts_def causal_def intro: fill_accounted_later)
  next
    case False
    then obtain s where s: "fill_origin f \<in> origins (en_execution en)" "ev = Market_event s"
      "s_timestamp s = f_filled_at f" "s_exchange s = f_exchange f" "s_symbol s = f_symbol f"
      using acc f by (fastforce simp: accounts_def)
    obtain g where "from_signal g (fill_origin f)" "descends evs g (submission_path (fill_origin f)) (en_trace en)"
      using assms(1) s(1) by (auto simp: causal_def order_accounted_def)
    moreover have "Market_event s \<in> set evs" using assms(1) q(2) s(2) by (auto simp: causal_def)
    ultimately have "fill_accounted evs (en_trace en') f"
      using s descends_next [of evs g _ "en_trace en"] tr by (auto simp: fill_accounted_def)
    then show ?thesis using s(1) acc by (auto simp: accounts_def)
  qed
  ultimately show ?thesis by (simp add: causal_def)
qed

lemma causal_final:
  assumes "BacktestEngine_init cash rules leverage config rid did = Inr en0" "list_all client_event evs"
    "set_iter_ok si" "run si m (add_events evs en0) = (Inr r, en')"
  shows "causal evs en'"
proof -
  have "accounted evs [] ev" if "ev \<in> set evs" for ev
    by (cases ev) (use that assms(2) in \<open>auto simp: list_all_iff descends_def raised_by_def\<close>)
  then have "causal evs (add_events evs en0) \<and> run_inv (add_events evs en0)"
    using engine_inv_start [OF assms(1,2)] by (simp add: causal_def origins_def dict_values_def run_inv_def)
  moreover have "causal evs y \<and> run_inv y" if "causal evs x \<and> run_inv x" "run_step si x = (Inr (), y)" for x y
  proof -
    have "engine_inv x" using that(1) by (simp add: run_inv_def)
    then show ?thesis using that causal_step [OF _ _ assms(3) that(2)] run_inv_step [OF _ assms(3) that(2)] by blast
  qed
  ultimately show ?thesis
    using run_Inr [OF assms(4)] run_loop_invariant [of "\<lambda>x. causal evs x \<and> run_inv x" si] by blast
qed

text \<open>
  C1. No look-ahead: every fill of a backtest is a fill of an order of the result (same identifier,
  instrument, side and times), the order is made of one signal (identifier, instrument and side are the
  signal's, creation and submission follow it by exactly its two delays), and the signal is one the
  client queued or a reduce-only exit raised at a market event of its time. The fill happens at a
  market event the client queued for its instrument, strictly after submission, and the trace holds
  the cause of the signal, the signal, the creation, the submission and the market event of the
  fill in this order.
\<close>

theorem run_causal:
  assumes "BacktestEngine_init cash rules leverage config rid did = Inr en0" "list_all client_event evs"
    "set_iter_ok si" "run si m (add_events evs en0) = (Inr r, en')"
  shows "\<forall>f \<in> set (br_fills r).
    (\<exists>ord \<in> set (br_orders r). order_origin ord = fill_origin f) \<and>
    (\<exists>g cause. raised_by evs g cause \<and> from_signal g (fill_origin f) \<and>
       subseq (cause @ [(f_signal_at f, ''SignalEvent''), (f_order_created_at f, ''OrderCreationEvent''),
         (f_submitted_at f, ''OrderSubmissionEvent''), (f_filled_at f, ''MarketEvent'')]) (br_event_trace r)) \<and>
    (\<exists>s. Market_event s \<in> set evs \<and> s_timestamp s = f_filled_at f \<and> s_exchange s = f_exchange f \<and>
       s_symbol s = f_symbol f) \<and>
    f_signal_at f \<le> f_order_created_at f \<and> f_order_created_at f \<le> f_submitted_at f \<and>
    f_submitted_at f < f_filled_at f \<and> 0 < f_quantity f \<and> 0 < f_price f"
proof
  fix f assume f: "f \<in> set (br_fills r)"
  have r: "br_event_trace r = en_trace en'" "br_fills r = sim_fills (en_execution en')"
    "br_orders r = dict_values (sim_orders (en_execution en'))"
    using run_Inr [OF assms(4)] by auto
  have "sim_inv (en_execution en')"
    using run_inv_final [OF assms] by (simp add: run_inv_def engine_inv_def book_ok_def)
  then have "fill_ok f" using f r(2) by (simp add: sim_inv_def fill_log_ok_def list_all_iff)
  moreover have fa: "fill_accounted evs (en_trace en') f" and fo: "fill_origin f \<in> origins (en_execution en')"
    using causal_final [OF assms] f r(2) by (simp_all add: causal_def)
  have "\<exists>ord \<in> set (br_orders r). order_origin ord = fill_origin f" using fo r(3) by (auto simp: origins_def)
  moreover have "\<exists>g cause. raised_by evs g cause \<and> from_signal g (fill_origin f) \<and>
       subseq (cause @ [(f_signal_at f, ''SignalEvent''), (f_order_created_at f, ''OrderCreationEvent''),
         (f_submitted_at f, ''OrderSubmissionEvent''), (f_filled_at f, ''MarketEvent'')]) (br_event_trace r)"
    using fa by (auto simp: fill_accounted_def descends_def submission_path_def fill_origin_def r(1))
  moreover have "\<exists>s. Market_event s \<in> set evs \<and> s_timestamp s = f_filled_at f \<and> s_exchange s = f_exchange f \<and>
       s_symbol s = f_symbol f"
    using fa by (simp add: fill_accounted_def)
  ultimately show "(\<exists>ord \<in> set (br_orders r). order_origin ord = fill_origin f) \<and>
    (\<exists>g cause. raised_by evs g cause \<and> from_signal g (fill_origin f) \<and>
       subseq (cause @ [(f_signal_at f, ''SignalEvent''), (f_order_created_at f, ''OrderCreationEvent''),
         (f_submitted_at f, ''OrderSubmissionEvent''), (f_filled_at f, ''MarketEvent'')]) (br_event_trace r)) \<and>
    (\<exists>s. Market_event s \<in> set evs \<and> s_timestamp s = f_filled_at f \<and> s_exchange s = f_exchange f \<and>
       s_symbol s = f_symbol f) \<and>
    f_signal_at f \<le> f_order_created_at f \<and> f_order_created_at f \<le> f_submitted_at f \<and>
    f_submitted_at f < f_filled_at f \<and> 0 < f_quantity f \<and> 0 < f_price f"
    by (simp only: fill_ok_def)
qed

theorem run_causal_witness:
  "\<exists>r en'. run (\<lambda>xs. xs) 40 (add_events demo_events demo_engine) = (Inr r, en') \<and>
     map f_quantity (br_fills r) = [2] \<and> list_all (\<lambda>f. f_submitted_at f < f_filled_at f \<and>
       list_ex (\<lambda>ord. order_origin ord = fill_origin f) (br_orders r)) (br_fills r)"
  using demo_run [of "\<lambda>xs. xs"] run_causal [OF demo_init demo_client demo_set_iter]
  unfolding list_all_iff list_ex_iff by metis

end
