(* ===== verification/Paper_Broker.thy ===== *)
theory Paper_Broker
  imports Execution_Models
begin

text \<open>
  \<open>src/app/services/paper_trading\<close>: the models, the deterministic paper broker, the session
  that drives it and the period report. Two things the code takes from outside are parameters:
  \<open>uuid\<close>, whose n-th value is the n-th \<open>uuid4()\<close> drawn, and \<open>clock\<close>, the value of
  \<open>datetime.now(UTC)\<close> where a call omits its timestamp. Numbers in audit payloads stay numbers.
\<close>

section \<open>Models\<close>

datatype PaperOrderType = Paper_market | Paper_limit

datatype PaperOrderStatus = Paper_open | Paper_partial | Paper_filled | Paper_canceled | Paper_rejected

record PaperOrderRequest =
  q_client_order_id :: string
  q_symbol :: string
  q_side :: Side
  q_quantity :: dec
  q_order_type :: PaperOrderType
  q_limit_price :: "dec option"

definition PaperOrderRequest_validate :: "PaperOrderRequest \<Rightarrow> PaperOrderRequest result" where
  "PaperOrderRequest_validate r =
     bindE (raise_if (\<not> (1 \<le> length (q_client_order_id r) \<and> length (q_client_order_id r) \<le> 100 \<and>
         1 \<le> length (q_symbol r) \<and> length (q_symbol r) \<le> 40 \<and> 0 < q_quantity r \<and>
         \<not> nonpositive (q_limit_price r))) (ValueError ''field constraint'')) (\<lambda>_.
     bindE (raise_if (q_order_type r = Paper_limit \<and> q_limit_price r = None)
       (ValueError ''limit orders require limit_price'')) (\<lambda>_.
     bindE (raise_if (q_order_type r = Paper_market \<and> q_limit_price r \<noteq> None)
       (ValueError ''market orders cannot specify limit_price'')) (\<lambda>_.
     Inr r)))"

record PaperQuote =
  u_symbol :: string
  u_timestamp :: instant
  u_bid :: dec
  u_ask :: dec
  u_bid_size :: dec
  u_ask_size :: dec
  u_data_quality_score :: dec
  u_sequence :: "int option"

definition PaperQuote_validate :: "PaperQuote \<Rightarrow> datetime \<Rightarrow> PaperQuote result" where
  "PaperQuote_validate u timestamp =
     bindE (raise_if (\<not> (0 < u_bid u \<and> 0 < u_ask u \<and> 0 < u_bid_size u \<and> 0 < u_ask_size u \<and>
         0 \<le> u_data_quality_score u \<and> u_data_quality_score u \<le> 1)) (ValueError ''field constraint'')) (\<lambda>_.
     bindE (as_utc ''timestamp must be timezone-aware'' timestamp) (\<lambda>ts.
     bindE (raise_if (u_bid u \<ge> u_ask u) (ValueError ''quote must have a positive spread'')) (\<lambda>_.
     Inr (u\<lparr>u_timestamp := ts\<rparr>))))"

record PaperOrder =
  w_request :: PaperOrderRequest
  w_submitted_at :: instant
  w_status :: PaperOrderStatus
  w_filled_quantity :: dec
  w_rejection_reason :: "string option"

definition paper_remaining :: "PaperOrder \<Rightarrow> dec" where
  "paper_remaining w = dsub (q_quantity (w_request w)) (w_filled_quantity w)"

record PaperFill =
  pf_fill_id :: string
  pf_client_order_id :: string
  pf_symbol :: string
  pf_side :: Side
  pf_timestamp :: instant
  pf_quantity :: dec
  pf_price :: dec
  pf_fee :: dec
  pf_slippage_cost :: dec

definition PaperFill_validate :: "PaperFill \<Rightarrow> PaperFill result" where
  "PaperFill_validate f =
     bindE (raise_if (\<not> (0 < pf_quantity f \<and> 0 < pf_price f \<and> 0 \<le> pf_fee f \<and> 0 \<le> pf_slippage_cost f))
       (ValueError ''field constraint'')) (\<lambda>_. Inr f)"

record PaperPosition =
  pp_symbol :: string
  pp_quantity :: dec
  pp_average_entry :: dec
  pp_realized_pnl :: dec
  pp_funding_pnl :: dec

record PaperAccountSnapshot =
  pa_timestamp :: instant
  pa_cash :: dec
  pa_equity :: dec
  pa_gross_exposure :: dec
  pa_fees_paid :: dec
  pa_funding_pnl :: dec
  pa_open_orders :: nat
  pa_positions :: "(string, dec) dict"

datatype payload_value = P_str string | P_dec dec | P_int int | P_side Side

record PaperAuditEvent =
  ae_event_id :: string
  ae_timestamp :: instant
  ae_event_type :: string
  ae_entity_id :: "string option"
  ae_payload :: "(string \<times> payload_value) list"

section \<open>Broker state\<close>

record PaperBroker =
  pb_initial_cash :: dec
  pb_cash :: dec
  pb_fee_rate :: dec
  pb_slippage_bps :: dec
  pb_max_participation :: dec
  pb_max_gross_leverage :: dec
  pb_minimum_data_quality :: dec
  pb_orders :: "(string, PaperOrder) dict"
  pb_positions :: "(string, PaperPosition) dict"
  pb_fills :: "PaperFill list"
  pb_latest_quotes :: "(string, PaperQuote) dict"
  pb_fees_paid :: dec
  pb_kill_switch_reason :: "string option"
  pb_operational_halt_reason :: "string option"
  pb_last_sequence :: "(string, int) dict"
  pb_audit_events :: "PaperAuditEvent list"
  pb_data_halted_symbols :: "string set"
  pb_uuids :: nat

definition PaperBroker_init ::
  "dec \<Rightarrow> dec \<Rightarrow> dec \<Rightarrow> dec \<Rightarrow> dec \<Rightarrow> dec \<Rightarrow> PaperBroker result" where
  "PaperBroker_init initial_cash fee_rate slip_bps max_participation max_gross_leverage
     minimum_quality =
     bindE (raise_if (initial_cash \<le> 0) (ValueError ''initial_cash must be positive'')) (\<lambda>_.
     bindE (raise_if (\<not> (0 \<le> max_participation \<and> max_participation \<le> 1))
       (ValueError ''max_participation must be in [0, 1]'')) (\<lambda>_.
     bindE (raise_if (max_gross_leverage \<le> 0 \<or> max_gross_leverage > 1)
       (ValueError ''paper leverage must be in (0, 1]'')) (\<lambda>_.
     bindE (raise_if (fee_rate < 0 \<or> slip_bps < 0)
       (ValueError ''paper execution costs cannot be negative'')) (\<lambda>_.
     bindE (raise_if (\<not> (0 \<le> minimum_quality \<and> minimum_quality \<le> 1))
       (ValueError ''minimum_data_quality must be in [0, 1]'')) (\<lambda>_.
     Inr \<lparr>pb_initial_cash = initial_cash, pb_cash = initial_cash, pb_fee_rate = fee_rate,
          pb_slippage_bps = slip_bps, pb_max_participation = max_participation,
          pb_max_gross_leverage = max_gross_leverage, pb_minimum_data_quality = minimum_quality,
          pb_orders = [], pb_positions = [], pb_fills = [], pb_latest_quotes = [], pb_fees_paid = 0,
          pb_kill_switch_reason = None, pb_operational_halt_reason = None, pb_last_sequence = [],
          pb_audit_events = [], pb_data_halted_symbols = {}, pb_uuids = 0\<rparr>)))))"

definition paper_utc :: "datetime \<Rightarrow> instant result" where
  "paper_utc = as_utc ''paper timestamp must be timezone-aware''"

text \<open>A Python string or \<open>None\<close> as a condition: true exactly when it is a non-empty string.\<close>

definition truthy :: "string option \<Rightarrow> bool" where
  "truthy s \<longleftrightarrow> s \<noteq> None \<and> s \<noteq> Some []"

definition audit ::
  "(nat \<Rightarrow> string) \<Rightarrow> instant \<Rightarrow> string \<Rightarrow> string option \<Rightarrow> (string \<times> payload_value) list \<Rightarrow>
   PaperBroker \<Rightarrow> PaperBroker" where
  "audit uuid timestamp event_type entity_id payload b =
     b\<lparr>pb_audit_events := pb_audit_events b @
         [\<lparr>ae_event_id = uuid (pb_uuids b), ae_timestamp = timestamp, ae_event_type = event_type,
           ae_entity_id = entity_id, ae_payload = payload\<rparr>],
       pb_uuids := Suc (pb_uuids b)\<rparr>"

section \<open>Orders\<close>

definition paper_submit ::
  "(nat \<Rightarrow> string) \<Rightarrow> PaperOrderRequest \<Rightarrow> datetime \<Rightarrow> PaperBroker \<Rightarrow> (PaperOrder, PaperBroker) outcome" where
  "paper_submit uuid request submitted_at b =
     (case paper_utc submitted_at of
        Inl e \<Rightarrow> (Inl e, b)
      | Inr t \<Rightarrow>
          if map_of (pb_orders b) (q_client_order_id request) \<noteq> None
          then (Inl (ValueError ''duplicate client_order_id''), b)
          else let
            stopped = truthy (pb_kill_switch_reason b) \<or> truthy (pb_operational_halt_reason b);
            ord = \<lparr>w_request = request, w_submitted_at = t,
                   w_status = (if stopped then Paper_rejected else Paper_open),
                   w_filled_quantity = 0,
                   w_rejection_reason =
                     (if stopped then
                        Some (if truthy (pb_kill_switch_reason b)
                              then ''kill switch: '' @ the (pb_kill_switch_reason b)
                              else ''operational halt: '' @ the (pb_operational_halt_reason b))
                      else None)\<rparr>;
            b1 = b\<lparr>pb_orders := dict_set (q_client_order_id request) ord (pb_orders b)\<rparr>
          in (Inr ord,
              audit uuid t (if w_status ord = Paper_rejected then ''order_rejected'' else ''order_submitted'')
                (Some (q_client_order_id request))
                [(''symbol'', P_str (q_symbol request)), (''side'', P_side (q_side request)),
                 (''quantity'', P_dec (q_quantity request))] b1))"

definition live_status :: "PaperOrderStatus \<Rightarrow> bool" where
  "live_status s \<longleftrightarrow> s = Paper_open \<or> s = Paper_partial"

definition paper_cancel ::
  "(nat \<Rightarrow> string) \<Rightarrow> instant \<Rightarrow> string \<Rightarrow> datetime option \<Rightarrow> PaperBroker \<Rightarrow> (PaperOrder, PaperBroker) outcome" where
  "paper_cancel uuid clock oid timestamp b =
     (case map_of (pb_orders b) oid of
        None \<Rightarrow> (Inl (KeyError oid), b)
      | Some ord \<Rightarrow>
          if live_status (w_status ord) then
            let ord1 = ord\<lparr>w_status := Paper_canceled\<rparr>;
                b1 = b\<lparr>pb_orders := dict_set oid ord1 (pb_orders b)\<rparr>
            in case paper_utc (case timestamp of None \<Rightarrow> Aware clock | Some d \<Rightarrow> d) of
                 Inl e \<Rightarrow> (Inl e, b1)
               | Inr t \<Rightarrow>
                   (Inr ord1, audit uuid t ''order_canceled'' (Some oid)
                      [(''remaining_quantity'', P_dec (paper_remaining ord1))] b1)
          else (Inr ord, b))"

definition paper_cancel_all :: "(nat \<Rightarrow> string) \<Rightarrow> instant \<Rightarrow> PaperBroker \<Rightarrow> PaperBroker" where
  "paper_cancel_all uuid clock b =
     fold (\<lambda>oid b. snd (paper_cancel uuid clock oid None b)) (map fst (pb_orders b)) b"

section \<open>Switches\<close>

text \<open>Each switch changes the broker before the audit entry can refuse a naive timestamp.\<close>

definition audit_at ::
  "(nat \<Rightarrow> string) \<Rightarrow> datetime \<Rightarrow> string \<Rightarrow> string option \<Rightarrow> (string \<times> payload_value) list \<Rightarrow>
   PaperBroker \<Rightarrow> (unit, PaperBroker) outcome" where
  "audit_at uuid d event_type entity_id payload b =
     (case paper_utc d of
        Inl e \<Rightarrow> (Inl e, b)
      | Inr t \<Rightarrow> (Inr (), audit uuid t event_type entity_id payload b))"

definition paper_kill_switch ::
  "(nat \<Rightarrow> string) \<Rightarrow> instant \<Rightarrow> string \<Rightarrow> datetime option \<Rightarrow> PaperBroker \<Rightarrow> (unit, PaperBroker) outcome" where
  "paper_kill_switch uuid clock reason timestamp b =
     audit_at uuid (case timestamp of None \<Rightarrow> Aware clock | Some d \<Rightarrow> d) ''kill_switch'' None
       [(''reason'', P_str reason)]
       (paper_cancel_all uuid clock (b\<lparr>pb_kill_switch_reason := Some reason\<rparr>))"

definition clear_data_halt ::
  "(nat \<Rightarrow> string) \<Rightarrow> string \<Rightarrow> string \<Rightarrow> datetime \<Rightarrow> PaperBroker \<Rightarrow> (unit, PaperBroker) outcome" where
  "clear_data_halt uuid symbol reason timestamp b =
     audit_at uuid timestamp ''data_halt_cleared'' (Some symbol) [(''reason'', P_str reason)]
       (b\<lparr>pb_data_halted_symbols := pb_data_halted_symbols b - {symbol},
          pb_last_sequence := dict_del symbol (pb_last_sequence b)\<rparr>)"

definition paper_halt ::
  "(nat \<Rightarrow> string) \<Rightarrow> string \<Rightarrow> datetime \<Rightarrow> PaperBroker \<Rightarrow> (unit, PaperBroker) outcome" where
  "paper_halt uuid reason timestamp b =
     audit_at uuid timestamp ''operational_halt'' None [(''reason'', P_str reason)]
       (b\<lparr>pb_operational_halt_reason := Some reason\<rparr>)"

definition paper_resume ::
  "(nat \<Rightarrow> string) \<Rightarrow> string \<Rightarrow> datetime \<Rightarrow> PaperBroker \<Rightarrow> (unit, PaperBroker) outcome" where
  "paper_resume uuid reason timestamp b =
     audit_at uuid timestamp ''operational_resume'' None [(''reason'', P_str reason)]
       (b\<lparr>pb_operational_halt_reason := None\<rparr>)"

section \<open>Valuation and fills\<close>

definition quote_mark :: "PaperQuote \<Rightarrow> dec" where
  "quote_mark u = ddiv (dadd (u_bid u) (u_ask u)) 2"

definition paper_equity :: "PaperBroker \<Rightarrow> dec" where
  "paper_equity b =
     dadd (pb_cash b)
       (foldl (\<lambda>acc (symbol, pos). case map_of (pb_latest_quotes b) symbol of
            None \<Rightarrow> acc
          | Some u \<Rightarrow> dadd acc (dmul (dsub (quote_mark u) (pp_average_entry pos)) (pp_quantity pos)))
          0 (pb_positions b))"

definition signed_quantity :: "Side \<Rightarrow> dec \<Rightarrow> dec" where
  "signed_quantity side quantity = (if side = BUY then quantity else dneg quantity)"

definition paper_quantity :: "PaperBroker \<Rightarrow> string \<Rightarrow> dec" where
  "paper_quantity b symbol =
     (case map_of (pb_positions b) symbol of None \<Rightarrow> 0 | Some pos \<Rightarrow> pp_quantity pos)"

definition exposure_allowed :: "string \<Rightarrow> Side \<Rightarrow> dec \<Rightarrow> dec \<Rightarrow> PaperBroker \<Rightarrow> bool" where
  "exposure_allowed symbol side quantity price b =
     (let candidate = dict_set symbol (dadd (paper_quantity b symbol) (signed_quantity side quantity))
            (map (\<lambda>(key, pos). (key, pp_quantity pos)) (pb_positions b));
          gross = foldl (\<lambda>acc (key, q).
            let m = (case map_of (pb_latest_quotes b) key of Some u \<Rightarrow> quote_mark u | None \<Rightarrow> price)
            in dadd acc (dabs (dmul q m))) 0 candidate
      in gross \<le> dmul (paper_equity b) (pb_max_gross_leverage b))"

definition paper_apply_fill :: "PaperFill \<Rightarrow> PaperBroker \<Rightarrow> PaperBroker" where
  "paper_apply_fill f b =
     (let pos = (case map_of (pb_positions b) (pf_symbol f) of
            Some pos \<Rightarrow> pos
          | None \<Rightarrow> \<lparr>pp_symbol = pf_symbol f, pp_quantity = 0, pp_average_entry = 0, pp_realized_pnl = 0,
                    pp_funding_pnl = 0\<rparr>);
          signed = signed_quantity (pf_side f) (pf_quantity f);
          old = pp_quantity pos;
          new = dadd old signed;
          (pos1, cash1) =
            (if old = 0 \<or> dmul old signed > 0 then
               (pos\<lparr>pp_average_entry :=
                  ddiv (dadd (dmul (pp_average_entry pos) (dabs old)) (dmul (pf_price f) (dabs signed)))
                    (dabs new)\<rparr>, pb_cash b)
             else
               let closed = min (dabs old) (dabs signed);
                   direction = (if old > 0 then 1 else - 1);
                   realized = dmul (dmul (dsub (pf_price f) (pp_average_entry pos)) closed) direction
               in (pos\<lparr>pp_realized_pnl := dadd (pp_realized_pnl pos) realized,
                       pp_average_entry := (if new = 0 then 0
                         else if dmul old new < 0 then pf_price f else pp_average_entry pos)\<rparr>,
                   dadd (pb_cash b) realized))
      in b\<lparr>pb_positions := dict_set (pf_symbol f) (pos1\<lparr>pp_quantity := new\<rparr>) (pb_positions b),
           pb_cash := dsub cash1 (pf_fee f),
           pb_fees_paid := dadd (pb_fees_paid b) (pf_fee f)\<rparr>)"

definition set_order :: "PaperOrder \<Rightarrow> PaperBroker \<Rightarrow> PaperBroker" where
  "set_order w b = b\<lparr>pb_orders := dict_set (q_client_order_id (w_request w)) w (pb_orders b)\<rparr>"

definition reject_paper :: "string \<Rightarrow> PaperOrder \<Rightarrow> PaperOrder" where
  "reject_paper reason w = w\<lparr>w_status := Paper_rejected, w_rejection_reason := Some reason\<rparr>"

text \<open>Price and slippage cost, or \<open>None\<close> when a limit order does not cross.\<close>

definition fill_price :: "PaperOrderRequest \<Rightarrow> PaperQuote \<Rightarrow> dec \<Rightarrow> PaperBroker \<Rightarrow> (dec \<times> dec) option" where
  "fill_price request quote quantity b =
     (let touch = (if q_side request = BUY then u_ask quote else u_bid quote) in
      if q_order_type request = Paper_limit then
        (case q_limit_price request of
           None \<Rightarrow> None
         | Some limit \<Rightarrow>
             if (if q_side request = BUY then touch \<le> limit else touch \<ge> limit) then Some (touch, 0) else None)
      else
        let slip = ddiv (pb_slippage_bps b) 10000;
            price = dmul touch (if q_side request = BUY then dadd 1 slip else dsub 1 slip)
        in Some (price, dmul (dabs (dsub price touch)) quantity))"

definition book_fill :: "(nat \<Rightarrow> string) \<Rightarrow> PaperOrder \<Rightarrow> PaperFill \<Rightarrow> PaperBroker \<Rightarrow> PaperBroker" where
  "book_fill uuid w f b =
     (let b1 = paper_apply_fill f b;
          w1 = w\<lparr>w_filled_quantity := dadd (w_filled_quantity w) (pf_quantity f)\<rparr>;
          w2 = w1\<lparr>w_status := (if paper_remaining w1 = 0 then Paper_filled else Paper_partial)\<rparr>;
          b2 = (set_order w2 b1)\<lparr>pb_fills := pb_fills b1 @ [f]\<rparr>
      in audit uuid (pf_timestamp f) ''fill'' (Some (pf_fill_id f))
           [(''order_id'', P_str (pf_client_order_id f)), (''symbol'', P_str (pf_symbol f)),
            (''quantity'', P_dec (pf_quantity f)), (''price'', P_dec (pf_price f)),
            (''fee'', P_dec (pf_fee f)), (''slippage_cost'', P_dec (pf_slippage_cost f))] b2)"

definition try_fill ::
  "(nat \<Rightarrow> string) \<Rightarrow> PaperOrder \<Rightarrow> PaperQuote \<Rightarrow> PaperBroker \<Rightarrow> (PaperFill option, PaperBroker) outcome" where
  "try_fill uuid w quote b =
     (let request = w_request w;
          side_liquidity = (if q_side request = BUY then u_ask_size quote else u_bid_size quote);
          quantity = min (paper_remaining w) (dmul side_liquidity (pb_max_participation b))
      in if quantity \<le> 0 then (Inr None, b)
      else if q_order_type request = Paper_limit \<and> q_limit_price request = None then
        (Inr None, set_order (reject_paper ''limit price missing after validation'' w) b)
      else case fill_price request quote quantity b of
        None \<Rightarrow> (Inr None, b)
      | Some (price, slippage_cost) \<Rightarrow>
          if \<not> exposure_allowed (q_symbol request) (q_side request) quantity price b then
            (Inr None,
             audit uuid (u_timestamp quote) ''order_rejected'' (Some (q_client_order_id request))
               [(''reason'', P_str ''maximum gross exposure exceeded'')]
               (set_order (reject_paper ''maximum gross exposure exceeded'' w) b))
          else
            let b0 = b\<lparr>pb_uuids := Suc (pb_uuids b)\<rparr> in
            case PaperFill_validate \<lparr>pf_fill_id = uuid (pb_uuids b), pf_client_order_id = q_client_order_id request,
                   pf_symbol = q_symbol request, pf_side = q_side request, pf_timestamp = u_timestamp quote,
                   pf_quantity = quantity, pf_price = price,
                   pf_fee = dmul (dmul price quantity) (pb_fee_rate b), pf_slippage_cost = slippage_cost\<rparr> of
              Inl e \<Rightarrow> (Inl e, b0)
            | Inr f \<Rightarrow> (Inr (Some f), book_fill uuid w f b0))"

definition fillable :: "PaperQuote \<Rightarrow> PaperOrder \<Rightarrow> bool" where
  "fillable quote w \<longleftrightarrow> q_symbol (w_request w) = u_symbol quote \<and> w_submitted_at w < u_timestamp quote \<and>
     live_status (w_status w)"

fun fill_loop ::
  "(nat \<Rightarrow> string) \<Rightarrow> PaperQuote \<Rightarrow> PaperOrder list \<Rightarrow> PaperFill list \<Rightarrow> PaperBroker \<Rightarrow>
   (PaperFill list, PaperBroker) outcome" where
  "fill_loop uuid quote [] generated b = (Inr generated, b)"
| "fill_loop uuid quote (w # ws) generated b =
     (if \<not> fillable quote w then fill_loop uuid quote ws generated b
      else case try_fill uuid w quote b of
        (Inl e, b1) \<Rightarrow> (Inl e, b1)
      | (Inr None, b1) \<Rightarrow> fill_loop uuid quote ws generated b1
      | (Inr (Some f), b1) \<Rightarrow> fill_loop uuid quote ws (generated @ [f]) b1)"

definition sequence_stale :: "PaperQuote \<Rightarrow> PaperBroker \<Rightarrow> bool" where
  "sequence_stale quote b =
     (case (u_sequence quote, map_of (pb_last_sequence b) (u_symbol quote)) of
        (Some n, Some previous) \<Rightarrow> n \<le> previous | _ \<Rightarrow> False)"

definition sequence_gap :: "PaperQuote \<Rightarrow> PaperBroker \<Rightarrow> bool" where
  "sequence_gap quote b =
     (case (u_sequence quote, map_of (pb_last_sequence b) (u_symbol quote)) of
        (Some n, Some previous) \<Rightarrow> n > previous + 1 | _ \<Rightarrow> False)"

definition trading_blocked :: "PaperQuote \<Rightarrow> PaperBroker \<Rightarrow> bool" where
  "trading_blocked quote b \<longleftrightarrow> u_data_quality_score quote < pb_minimum_data_quality b \<or>
     truthy (pb_kill_switch_reason b) \<or> truthy (pb_operational_halt_reason b) \<or>
     u_symbol quote \<in> pb_data_halted_symbols b"

definition accept_quote :: "PaperQuote \<Rightarrow> PaperBroker \<Rightarrow> PaperBroker" where
  "accept_quote quote b =
     b\<lparr>pb_last_sequence := (case u_sequence quote of
           None \<Rightarrow> pb_last_sequence b
         | Some n \<Rightarrow> dict_set (u_symbol quote) n (pb_last_sequence b)),
       pb_latest_quotes := dict_set (u_symbol quote) quote (pb_latest_quotes b)\<rparr>"

definition on_quote ::
  "(nat \<Rightarrow> string) \<Rightarrow> PaperQuote \<Rightarrow> PaperBroker \<Rightarrow> (PaperFill list, PaperBroker) outcome" where
  "on_quote uuid quote b =
     (if sequence_stale quote b then (Inr [], b)
      else if sequence_gap quote b then
        (Inr [],
         audit uuid (u_timestamp quote) ''data_sequence_gap'' (Some (u_symbol quote))
           [(''previous'', P_int (the (map_of (pb_last_sequence b) (u_symbol quote)))),
            (''current'', P_int (the (u_sequence quote)))]
           (b\<lparr>pb_data_halted_symbols := insert (u_symbol quote) (pb_data_halted_symbols b)\<rparr>))
      else let b1 = accept_quote quote b in
        if trading_blocked quote b1 then (Inr [], b1)
        else fill_loop uuid quote (dict_values (pb_orders b1)) [] b1)"

section \<open>Funding, snapshots and reports\<close>

definition paper_apply_funding ::
  "(nat \<Rightarrow> string) \<Rightarrow> string \<Rightarrow> dec \<Rightarrow> datetime \<Rightarrow> PaperBroker \<Rightarrow> (dec, PaperBroker) outcome" where
  "paper_apply_funding uuid symbol rate timestamp b =
     (case (map_of (pb_positions b) symbol, map_of (pb_latest_quotes b) symbol) of
        (Some pos, Some u) \<Rightarrow>
          let payment = dneg (dmul (dmul (pp_quantity pos) (quote_mark u)) rate);
              b1 = b\<lparr>pb_positions := dict_set symbol (pos\<lparr>pp_funding_pnl := dadd (pp_funding_pnl pos) payment\<rparr>)
                       (pb_positions b),
                     pb_cash := dadd (pb_cash b) payment\<rparr>
          in (case audit_at uuid timestamp ''funding'' (Some symbol)
                     [(''rate'', P_dec rate), (''payment'', P_dec payment)] b1 of
                (Inl e, b2) \<Rightarrow> (Inl e, b2)
              | (Inr _, b2) \<Rightarrow> (Inr payment, b2))
      | _ \<Rightarrow> (Inr 0, b))"

definition paper_snapshot :: "datetime \<Rightarrow> PaperBroker \<Rightarrow> PaperAccountSnapshot result" where
  "paper_snapshot timestamp b =
     bindE (paper_utc timestamp) (\<lambda>t.
     Inr \<lparr>pa_timestamp = t, pa_cash = pb_cash b, pa_equity = paper_equity b,
          pa_gross_exposure = foldl (\<lambda>acc (symbol, pos). case map_of (pb_latest_quotes b) symbol of
               None \<Rightarrow> acc
             | Some u \<Rightarrow> dadd acc (dabs (dmul (pp_quantity pos) (quote_mark u)))) 0 (pb_positions b),
          pa_fees_paid = pb_fees_paid b,
          pa_funding_pnl = dsum (map pp_funding_pnl (dict_values (pb_positions b))),
          pa_open_orders = length (filter (\<lambda>w. live_status (w_status w)) (dict_values (pb_orders b))),
          pa_positions = map (\<lambda>(symbol, pos). (symbol, pp_quantity pos)) (pb_positions b)\<rparr>)"

record PaperReport =
  rp_period_start :: instant
  rp_period_end :: instant
  rp_fills :: nat
  rp_notional :: dec
  rp_fees :: dec
  rp_slippage :: dec
  rp_equity :: dec
  rp_live_trading :: nat

definition paper_period_report :: "PaperBroker \<Rightarrow> datetime \<Rightarrow> int \<Rightarrow> PaperReport result" where
  "paper_period_report b stop days =
     bindE (as_utc ''report end timestamp must be timezone-aware'' stop) (\<lambda>t.
     let start = t - seconds (days * 86400);
         fills = filter (\<lambda>f. start < pf_timestamp f \<and> pf_timestamp f \<le> t) (pb_fills b)
     in Inr \<lparr>rp_period_start = start, rp_period_end = t, rp_fills = length fills,
             rp_notional = dsum (map (\<lambda>f. dmul (pf_price f) (pf_quantity f)) fills),
             rp_fees = dsum (map pf_fee fills), rp_slippage = dsum (map pf_slippage_cost fills),
             rp_equity = paper_equity b, rp_live_trading = 0\<rparr>)"

definition daily_report :: "PaperBroker \<Rightarrow> datetime \<Rightarrow> PaperReport result" where
  "daily_report b stop = paper_period_report b stop 1"

definition weekly_report :: "PaperBroker \<Rightarrow> datetime \<Rightarrow> PaperReport result" where
  "weekly_report b stop = paper_period_report b stop 7"

section \<open>The session\<close>

text \<open>
  One turn of \<open>run\<close>: the quote goes to the broker, then the requests of the signal callback
  (the parameter \<open>signals\<close>) are submitted at the quote's timestamp. Notifications have no
  effect on the broker and are left out.
\<close>

fun submit_all ::
  "(nat \<Rightarrow> string) \<Rightarrow> PaperOrderRequest list \<Rightarrow> instant \<Rightarrow> PaperBroker \<Rightarrow> (unit, PaperBroker) outcome" where
  "submit_all uuid [] t b = (Inr (), b)"
| "submit_all uuid (r # rs) t b =
     (case paper_submit uuid r (Aware t) b of
        (Inl e, b1) \<Rightarrow> (Inl e, b1)
      | (Inr _, b1) \<Rightarrow> submit_all uuid rs t b1)"

definition session_quote ::
  "(nat \<Rightarrow> string) \<Rightarrow> (PaperQuote \<Rightarrow> PaperOrderRequest list) \<Rightarrow> PaperQuote \<Rightarrow> PaperBroker \<Rightarrow>
   (unit, PaperBroker) outcome" where
  "session_quote uuid signals quote b =
     (case on_quote uuid quote b of
        (Inl e, b1) \<Rightarrow> (Inl e, b1)
      | (Inr fills, b1) \<Rightarrow>
          if u_data_quality_score quote < pb_minimum_data_quality b1 then (Inr (), b1)
          else submit_all uuid (signals quote) (u_timestamp quote) b1)"

fun session_run ::
  "(nat \<Rightarrow> string) \<Rightarrow> (PaperQuote \<Rightarrow> PaperOrderRequest list) \<Rightarrow> PaperQuote list \<Rightarrow> PaperBroker \<Rightarrow>
   (unit, PaperBroker) outcome" where
  "session_run uuid signals [] b = (Inr (), b)"
| "session_run uuid signals (u # us) b =
     (case session_quote uuid signals u b of
        (Inl e, b1) \<Rightarrow> (Inl e, b1)
      | (Inr _, b1) \<Rightarrow> session_run uuid signals us b1)"

definition on_stream_disconnect ::
  "(nat \<Rightarrow> string) \<Rightarrow> datetime \<Rightarrow> string \<Rightarrow> PaperBroker \<Rightarrow> (unit, PaperBroker) outcome" where
  "on_stream_disconnect uuid timestamp reason b =
     paper_halt uuid (''stream disconnected: '' @ reason) timestamp b"

definition on_stream_recovered ::
  "(nat \<Rightarrow> string) \<Rightarrow> datetime \<Rightarrow> string \<Rightarrow> PaperBroker \<Rightarrow> (unit, PaperBroker) outcome" where
  "on_stream_recovered uuid timestamp reason b =
     paper_resume uuid (''stream recovered: '' @ reason) timestamp b"

section \<open>What a fill satisfies\<close>

lemma audit_simps [simp]:
  "pb_cash (audit uuid t ty en pl b) = pb_cash b" "pb_orders (audit uuid t ty en pl b) = pb_orders b"
  "pb_positions (audit uuid t ty en pl b) = pb_positions b" "pb_fills (audit uuid t ty en pl b) = pb_fills b"
  "pb_fees_paid (audit uuid t ty en pl b) = pb_fees_paid b"
  "pb_kill_switch_reason (audit uuid t ty en pl b) = pb_kill_switch_reason b"
  "pb_operational_halt_reason (audit uuid t ty en pl b) = pb_operational_halt_reason b"
  "pb_data_halted_symbols (audit uuid t ty en pl b) = pb_data_halted_symbols b"
  "pb_latest_quotes (audit uuid t ty en pl b) = pb_latest_quotes b"
  "pb_last_sequence (audit uuid t ty en pl b) = pb_last_sequence b"
  "pb_minimum_data_quality (audit uuid t ty en pl b) = pb_minimum_data_quality b"
  "pb_max_participation (audit uuid t ty en pl b) = pb_max_participation b"
  by (simp_all add: audit_def)

lemma set_order_simps [simp]:
  "pb_cash (set_order w b) = pb_cash b" "pb_positions (set_order w b) = pb_positions b"
  "pb_fills (set_order w b) = pb_fills b" "pb_fees_paid (set_order w b) = pb_fees_paid b"
  "pb_max_participation (set_order w b) = pb_max_participation b"
  "pb_orders (set_order w b) = dict_set (q_client_order_id (w_request w)) w (pb_orders b)"
  by (simp_all add: set_order_def)

lemma paper_apply_fill_simps [simp]:
  "pb_fees_paid (paper_apply_fill f b) = dadd (pb_fees_paid b) (pf_fee f)"
  "pb_fills (paper_apply_fill f b) = pb_fills b" "pb_orders (paper_apply_fill f b) = pb_orders b"
  "pb_max_participation (paper_apply_fill f b) = pb_max_participation b"
  "paper_quantity (paper_apply_fill f b) = (paper_quantity b)(pf_symbol f :=
     dadd (paper_quantity b (pf_symbol f)) (signed_quantity (pf_side f) (pf_quantity f)))"
  by (auto simp: paper_apply_fill_def Let_def split_beta paper_quantity_def fun_eq_iff split: option.splits)

text \<open>Symbol, timing, limit and size of a fill of an order against a quote.\<close>

definition paper_fill_ok :: "PaperQuote \<Rightarrow> dec \<Rightarrow> PaperOrder \<Rightarrow> PaperFill \<Rightarrow> bool" where
  "paper_fill_ok quote participation w f \<longleftrightarrow>
     pf_client_order_id f = q_client_order_id (w_request w) \<and> pf_symbol f = u_symbol quote \<and>
     pf_side f = q_side (w_request w) \<and> pf_timestamp f = u_timestamp quote \<and> w_submitted_at w < pf_timestamp f \<and>
     0 < pf_quantity f \<and> pf_quantity f \<le> paper_remaining w \<and>
     pf_quantity f \<le> dmul (if pf_side f = BUY then u_ask_size quote else u_bid_size quote) participation \<and>
     0 < pf_price f \<and> 0 \<le> pf_fee f \<and>
     (\<forall>limit \<in> set_option (q_limit_price (w_request w)). q_order_type (w_request w) = Paper_limit \<longrightarrow>
        (if pf_side f = BUY then pf_price f \<le> limit else limit \<le> pf_price f))"

lemma try_fill_cases:
  assumes "try_fill uuid w quote b = (Inr res, b')"
  obtains (none) "res = None" "pb_fills b' = pb_fills b" "pb_positions b' = pb_positions b" "pb_cash b' = pb_cash b"
      "pb_fees_paid b' = pb_fees_paid b" "pb_max_participation b' = pb_max_participation b"
  | (filled) f b0 where "res = Some f" "b' = book_fill uuid w f b0" "b0 = b\<lparr>pb_uuids := Suc (pb_uuids b)\<rparr>"
      "fillable quote w \<Longrightarrow> paper_fill_ok quote (pb_max_participation b) w f"
proof -
  let ?r = "w_request w"
  let ?q = "min (paper_remaining w) (dmul (if q_side ?r = BUY then u_ask_size quote else u_bid_size quote) (pb_max_participation b))"
  show thesis
  proof (cases "\<exists>price cost. 0 < ?q \<and> fill_price ?r quote ?q b = Some (price, cost) \<and>
      exposure_allowed (q_symbol ?r) (q_side ?r) ?q price b \<and> \<not> (q_order_type ?r = Paper_limit \<and> q_limit_price ?r = None)")
    case False
    show thesis
      by (rule none; insert assms False)
         (auto simp: try_fill_def Let_def not_le split: if_splits option.splits sum.splits)
  next
    case True
    then obtain price cost where g: "0 < ?q" "fill_price ?r quote ?q b = Some (price, cost)"
      "exposure_allowed (q_symbol ?r) (q_side ?r) ?q price b" "\<not> (q_order_type ?r = Paper_limit \<and> q_limit_price ?r = None)"
      by blast
    let ?f = "\<lparr>pf_fill_id = uuid (pb_uuids b), pf_client_order_id = q_client_order_id ?r,
       pf_symbol = q_symbol ?r, pf_side = q_side ?r, pf_timestamp = u_timestamp quote, pf_quantity = ?q,
       pf_price = price, pf_fee = dmul (dmul price ?q) (pb_fee_rate b), pf_slippage_cost = cost\<rparr>"
    have v: "PaperFill_validate ?f = Inr ?f" and res: "res = Some ?f"
      "b' = book_fill uuid w ?f (b\<lparr>pb_uuids := Suc (pb_uuids b)\<rparr>)"
      using assms g
      by (auto simp: try_fill_def Let_def PaperFill_validate_def raise_if_def split: sum.splits if_splits)
    have lim: "q_order_type ?r = Paper_limit \<Longrightarrow> q_limit_price ?r = Some limit \<Longrightarrow>
        if q_side ?r = BUY then price \<le> limit else limit \<le> price" for limit
      using g(2) by (auto simp: fill_price_def Let_def split: if_splits)
    show thesis
    proof (rule filled [of ?f])
      show "paper_fill_ok quote (pb_max_participation b) w ?f" if "fillable quote w"
        using that v g(1) lim by (auto simp: paper_fill_ok_def fillable_def PaperFill_validate_def)
    qed (use res in auto)
  qed
qed

section \<open>Accounts\<close>

text \<open>The position of a symbol and the fees are the running sums over the recorded fills.\<close>

definition paper_inv :: "PaperBroker \<Rightarrow> bool" where
  "paper_inv b \<longleftrightarrow> pb_fees_paid b = dsum (map pf_fee (pb_fills b)) \<and>
     (\<forall>symbol. paper_quantity b symbol = dsum (map (\<lambda>f. signed_quantity (pf_side f) (pf_quantity f))
        (filter (\<lambda>f. pf_symbol f = symbol) (pb_fills b))))"

lemma paper_quantity_cong: "pb_positions b' = pb_positions b \<Longrightarrow> paper_quantity b' = paper_quantity b"
  by (simp add: paper_quantity_def fun_eq_iff)

lemma paper_inv_cong:
  "pb_fees_paid b' = pb_fees_paid b \<Longrightarrow> pb_fills b' = pb_fills b \<Longrightarrow> pb_positions b' = pb_positions b \<Longrightarrow>
   paper_inv b' = paper_inv b"
  using paper_quantity_cong [of b' b] by (simp add: paper_inv_def)

lemma book_fill_simps:
  "pb_fills (book_fill uuid w f b) = pb_fills b @ [f]"
  "pb_fees_paid (book_fill uuid w f b) = dadd (pb_fees_paid b) (pf_fee f)"
  "paper_quantity (book_fill uuid w f b) = (paper_quantity b)(pf_symbol f :=
     dadd (paper_quantity b (pf_symbol f)) (signed_quantity (pf_side f) (pf_quantity f)))"
  "pb_max_participation (book_fill uuid w f b) = pb_max_participation b"
proof -
  have "pb_positions (book_fill uuid w f b) = pb_positions (paper_apply_fill f b)" by (simp add: book_fill_def Let_def)
  from paper_quantity_cong [OF this] show "paper_quantity (book_fill uuid w f b) = (paper_quantity b)(pf_symbol f :=
     dadd (paper_quantity b (pf_symbol f)) (signed_quantity (pf_side f) (pf_quantity f)))" by simp
qed (simp_all add: book_fill_def Let_def)

lemma book_fill_inv: "paper_inv b \<Longrightarrow> paper_inv (book_fill uuid w f b)"
  by (auto simp: paper_inv_def book_fill_simps)

lemma try_fill_inv:
  assumes "paper_inv b" shows "paper_inv (snd (try_fill uuid w quote b))"
proof (cases "try_fill uuid w quote b")
  case (Pair res b')
  show ?thesis
  proof (cases res)
    case (Inl e)
    then have "pb_fills b' = pb_fills b" "pb_positions b' = pb_positions b" "pb_fees_paid b' = pb_fees_paid b"
      using Pair by (auto simp: try_fill_def Let_def split: if_splits option.splits sum.splits)
    then show ?thesis using assms Pair paper_inv_cong [of b' b] by simp
  next
    case (Inr r)
    then have "try_fill uuid w quote b = (Inr r, b')" using Pair by simp
    then show ?thesis
    proof (cases rule: try_fill_cases)
      case none
      then show ?thesis using assms Pair paper_inv_cong [of b' b] by simp
    next
      case (filled f b0)
      then show ?thesis using assms Pair book_fill_inv [of b0] paper_inv_cong [of b0 b] by simp
    qed
  qed
qed

lemma fill_loop_inv: "paper_inv b \<Longrightarrow> paper_inv (snd (fill_loop uuid quote ws g b))"
proof (induction ws arbitrary: g b)
  case (Cons w ws)
  show ?case using Cons try_fill_inv [of b uuid w quote]
    by (auto split: prod.splits sum.splits option.splits)
qed simp

lemma fill_loop_fills:
  assumes "fill_loop uuid quote ws g b = (Inr fs, b')"
  shows "\<exists>new. fs = g @ new \<and> pb_fills b' = pb_fills b @ new \<and>
    (\<forall>f \<in> set new. \<exists>w \<in> set ws. fillable quote w \<and> paper_fill_ok quote (pb_max_participation b) w f)"
  using assms
proof (induction ws arbitrary: g b)
  case (Cons w ws)
  show ?case
  proof (cases "fillable quote w")
    case True
    then obtain res b1 where t: "try_fill uuid w quote b = (Inr res, b1)"
      and rest: "fill_loop uuid quote ws (g @ (case res of None \<Rightarrow> [] | Some f \<Rightarrow> [f])) b1 = (Inr fs, b')"
      using Cons.prems by (auto split: prod.splits sum.splits option.splits)
    from t show ?thesis
    proof (cases rule: try_fill_cases)
      case none
      then show ?thesis using Cons.IH [OF rest] by auto
    next
      case (filled f b0)
      then have "pb_max_participation b1 = pb_max_participation b" "pb_fills b1 = pb_fills b @ [f]"
        by (simp_all add: book_fill_simps)
      then show ?thesis using Cons.IH [OF rest] filled True by fastforce
    qed
  qed (use Cons in auto)
qed simp

lemma accept_quote_simps [simp]:
  "pb_fills (accept_quote quote b) = pb_fills b" "pb_positions (accept_quote quote b) = pb_positions b"
  "pb_fees_paid (accept_quote quote b) = pb_fees_paid b" "pb_orders (accept_quote quote b) = pb_orders b"
  "pb_max_participation (accept_quote quote b) = pb_max_participation b" "pb_cash (accept_quote quote b) = pb_cash b"
  "pb_kill_switch_reason (accept_quote quote b) = pb_kill_switch_reason b"
  by (simp_all add: accept_quote_def)

text \<open>
  C37. The paper broker fills only on a later quote and only what the quote offers: every fill
  that \<open>on_quote\<close> returns is of an open order of the quote's symbol submitted strictly before the
  quote, for at most its remaining quantity and the permitted share of the displayed size, and a
  limit order never fills beyond its limit. The returned fills are exactly those recorded.
\<close>

theorem paper_fills_sound:
  assumes "on_quote uuid quote b = (Inr fs, b')"
  shows "pb_fills b' = pb_fills b @ fs \<and>
    (\<forall>f \<in> set fs. \<exists>w \<in> set (dict_values (pb_orders b)). fillable quote w \<and>
       paper_fill_ok quote (pb_max_participation b) w f) \<and>
    (trading_blocked quote (accept_quote quote b) \<or> sequence_stale quote b \<or> sequence_gap quote b \<longrightarrow>
       fs = [] \<and> pb_positions b' = pb_positions b \<and> pb_cash b' = pb_cash b)"
proof -
  consider "sequence_stale quote b \<or> sequence_gap quote b \<or> trading_blocked quote (accept_quote quote b)"
    | "\<not> sequence_stale quote b" "\<not> sequence_gap quote b" "\<not> trading_blocked quote (accept_quote quote b)"
      "fill_loop uuid quote (dict_values (pb_orders b)) [] (accept_quote quote b) = (Inr fs, b')"
    using assms unfolding on_quote_def Let_def by (auto split: if_splits)
  then show ?thesis
  proof cases
    case 1
    then show ?thesis using assms by (auto simp: on_quote_def Let_def split: if_splits)
  next
    case 2
    then show ?thesis using fill_loop_fills [OF 2(4)] by auto
  qed
qed

section \<open>Sequences of broker operations\<close>

datatype PaperOp =
    Pb_submit PaperOrderRequest datetime
  | Pb_cancel string "datetime option"
  | Pb_kill string "datetime option"
  | Pb_clear_data_halt string string datetime
  | Pb_halt string datetime
  | Pb_resume string datetime
  | Pb_quote PaperQuote
  | Pb_funding string dec datetime

fun paper_step :: "(nat \<Rightarrow> string) \<Rightarrow> instant \<Rightarrow> PaperOp \<Rightarrow> PaperBroker \<Rightarrow> PaperBroker" where
  "paper_step uuid clock (Pb_submit r d) b = snd (paper_submit uuid r d b)"
| "paper_step uuid clock (Pb_cancel oid d) b = snd (paper_cancel uuid clock oid d b)"
| "paper_step uuid clock (Pb_kill reason d) b = snd (paper_kill_switch uuid clock reason d b)"
| "paper_step uuid clock (Pb_clear_data_halt s r d) b = snd (clear_data_halt uuid s r d b)"
| "paper_step uuid clock (Pb_halt r d) b = snd (paper_halt uuid r d b)"
| "paper_step uuid clock (Pb_resume r d) b = snd (paper_resume uuid r d b)"
| "paper_step uuid clock (Pb_quote u) b = snd (on_quote uuid u b)"
| "paper_step uuid clock (Pb_funding s r d) b = snd (paper_apply_funding uuid s r d b)"

lemma audit_at_state: "snd (audit_at uuid d ty en pl b) = b \<or> (\<exists>t. snd (audit_at uuid d ty en pl b) = audit uuid t ty en pl b)"
  by (cases d) (auto simp: audit_at_def paper_utc_def)

lemma audit_at_simps [simp]:
  "pb_cash (snd (audit_at uuid d ty en pl b)) = pb_cash b" "pb_orders (snd (audit_at uuid d ty en pl b)) = pb_orders b"
  "pb_positions (snd (audit_at uuid d ty en pl b)) = pb_positions b" "pb_fills (snd (audit_at uuid d ty en pl b)) = pb_fills b"
  "pb_fees_paid (snd (audit_at uuid d ty en pl b)) = pb_fees_paid b"
  "pb_kill_switch_reason (snd (audit_at uuid d ty en pl b)) = pb_kill_switch_reason b"
  using audit_at_state [of uuid d ty en pl b] by auto

definition same_books :: "PaperBroker \<Rightarrow> PaperBroker \<Rightarrow> bool" where
  "same_books b b' \<longleftrightarrow> pb_fills b' = pb_fills b \<and> pb_positions b' = pb_positions b \<and> pb_fees_paid b' = pb_fees_paid b \<and>
     pb_cash b' = pb_cash b"

lemma cancel_books: "same_books b (snd (paper_cancel uuid clock oid d b))"
  "pb_kill_switch_reason (snd (paper_cancel uuid clock oid d b)) = pb_kill_switch_reason b"
  by (auto simp: paper_cancel_def same_books_def Let_def split: option.splits sum.splits)

lemma cancel_all_books: "same_books b (paper_cancel_all uuid clock b) \<and>
  pb_kill_switch_reason (paper_cancel_all uuid clock b) = pb_kill_switch_reason b"
proof -
  have "same_books b (fold (\<lambda>oid b. snd (paper_cancel uuid clock oid None b)) ks b) \<and>
    pb_kill_switch_reason (fold (\<lambda>oid b. snd (paper_cancel uuid clock oid None b)) ks b) = pb_kill_switch_reason b" for ks
  proof (induction ks arbitrary: b)
    case (Cons k ks)
    show ?case using Cons.IH [of "snd (paper_cancel uuid clock k None b)"] cancel_books [where uuid = uuid and clock = clock and d = None and oid = k and b = b]
      by (auto simp: same_books_def)
  qed (simp add: same_books_def)
  then show ?thesis by (simp add: paper_cancel_all_def)
qed

lemma submit_books: "same_books b (snd (paper_submit uuid r d b))"
  "pb_kill_switch_reason (snd (paper_submit uuid r d b)) = pb_kill_switch_reason b"
  by (cases d; auto simp: paper_submit_def paper_utc_def same_books_def Let_def)+

lemma paper_inv_books: "same_books b b' \<Longrightarrow> paper_inv b \<Longrightarrow> paper_inv b'"
  using paper_inv_cong [of b' b] by (simp add: same_books_def)

lemma on_quote_inv: "paper_inv b \<Longrightarrow> paper_inv (snd (on_quote uuid quote b))"
  using fill_loop_inv [of "accept_quote quote b"] paper_inv_cong [of "accept_quote quote b" b]
  by (auto simp: on_quote_def Let_def intro: paper_inv_books simp: same_books_def)

lemma funding_inv: "paper_inv b \<Longrightarrow> paper_inv (snd (paper_apply_funding uuid s rate d b))"
proof -
  assume inv: "paper_inv b"
  let ?b' = "snd (paper_apply_funding uuid s rate d b)"
  have "pb_fills ?b' = pb_fills b \<and> pb_fees_paid ?b' = pb_fees_paid b \<and> paper_quantity ?b' = paper_quantity b"
  proof (cases "\<exists>pos u. map_of (pb_positions b) s = Some pos \<and> map_of (pb_latest_quotes b) s = Some u")
    case True
    then show ?thesis
      by (cases d) (auto simp: paper_apply_funding_def audit_at_def paper_utc_def Let_def paper_quantity_def fun_eq_iff
          audit_def)
  next
    case False
    then have "?b' = b" by (auto simp: paper_apply_funding_def split: option.splits)
    then show ?thesis by simp
  qed
  then show ?thesis using inv by (simp add: paper_inv_def)
qed

lemma paper_inv_step: "paper_inv b \<Longrightarrow> paper_inv (paper_step uuid clock op b)"
proof (cases op)
  case (Pb_kill r d)
  then show "paper_inv b \<Longrightarrow> ?thesis"
    using cancel_all_books [of "b\<lparr>pb_kill_switch_reason := Some r\<rparr>" uuid clock]
    by (auto simp: paper_kill_switch_def intro!: paper_inv_books [of b] simp: same_books_def)
next
  case (Pb_submit r d)
  then show "paper_inv b \<Longrightarrow> ?thesis" using paper_inv_books [OF submit_books(1)] by simp
next
  case (Pb_cancel oid d)
  then show "paper_inv b \<Longrightarrow> ?thesis" using paper_inv_books [OF cancel_books(1)] by simp
qed (auto simp: on_quote_inv funding_inv clear_data_halt_def paper_halt_def paper_resume_def same_books_def
    intro!: paper_inv_books [of b])

definition timed_step :: "(nat \<Rightarrow> string) \<Rightarrow> instant \<times> PaperOp \<Rightarrow> PaperBroker \<Rightarrow> PaperBroker" where
  "timed_step uuid x b = paper_step uuid (fst x) (snd x) b"

interpretation paper: invariant_machine "timed_step uuid" "\<lambda>_. True" paper_inv for uuid
  by unfold_locales (simp add: timed_step_def paper_inv_step)

lemma paper_inv_init: "PaperBroker_init cash fee slip part lev qual = Inr b \<Longrightarrow> paper_inv b"
  by (auto simp: PaperBroker_init_def paper_inv_def paper_quantity_def)

text \<open>
  The paper accounts are reconstructible: after any sequence of broker calls, failing ones
  included, the quantity held of every symbol is the running sum of the signed quantities of
  its recorded fills, and the fees paid are the sum of their fees.
\<close>

theorem paper_run_reconstructible:
  assumes "PaperBroker_init cash fee slip part lev qual = Inr b0"
  shows "let b = fold (timed_step uuid) ops b0 in
    pb_fees_paid b = dsum (map pf_fee (pb_fills b)) \<and>
    (\<forall>symbol. paper_quantity b symbol = dsum (map (\<lambda>f. signed_quantity (pf_side f) (pf_quantity f))
        (filter (\<lambda>f. pf_symbol f = symbol) (pb_fills b))))"
  using paper.inv_run [of ops b0 uuid] paper_inv_init [OF assms] by (simp add: list_all_iff paper_inv_def Let_def)

section \<open>The kill switch\<close>

definition dead :: "PaperBroker \<Rightarrow> string \<Rightarrow> bool" where
  "dead b k \<longleftrightarrow> (\<forall>w. map_of (pb_orders b) k = Some w \<longrightarrow> \<not> live_status (w_status w))"

definition killed :: "PaperBroker \<Rightarrow> bool" where
  "killed b \<longleftrightarrow> truthy (pb_kill_switch_reason b) \<and> (\<forall>k. dead b k)"

lemma cancel_dead: "dead (snd (paper_cancel uuid clock k d b)) k" "dead b k' \<Longrightarrow> dead (snd (paper_cancel uuid clock k d b)) k'"
  by (auto simp: paper_cancel_def dead_def live_status_def Let_def split: option.splits sum.splits if_splits)

lemma cancel_all_dead: "dead (paper_cancel_all uuid clock b) k"
proof -
  have keep: "dead b k \<Longrightarrow> dead (fold (\<lambda>oid b. snd (paper_cancel uuid clock oid None b)) ks b) k" for ks b
    by (induction ks arbitrary: b) (simp_all add: cancel_dead(2))
  have "k \<in> set ks \<Longrightarrow> dead (fold (\<lambda>oid b. snd (paper_cancel uuid clock oid None b)) ks b) k" for ks b
  proof (induction ks arbitrary: b)
    case (Cons x xs)
    then show ?case using keep [OF cancel_dead(1)] by (cases "k = x") auto
  qed simp
  moreover have "dead b k" if "k \<notin> set (map fst (pb_orders b))"
  proof -
    have "map_of (pb_orders b) k = None" using that by (simp add: map_of_eq_None_iff)
    then show ?thesis by (simp add: dead_def)
  qed
  ultimately show ?thesis using keep unfolding paper_cancel_all_def by metis
qed

definition same_holdings :: "PaperBroker \<Rightarrow> PaperBroker \<Rightarrow> bool" where
  "same_holdings b b' \<longleftrightarrow> pb_fills b' = pb_fills b \<and> paper_quantity b' = paper_quantity b \<and> pb_fees_paid b' = pb_fees_paid b"

lemma same_books_holdings: "same_books b b' \<Longrightarrow> same_holdings b b'"
  using paper_quantity_cong [of b' b] by (simp add: same_books_def same_holdings_def)

lemma kill_switch_kills:
  assumes "reason \<noteq> []"
  shows "killed (snd (paper_kill_switch uuid clock reason d b))"
    "same_holdings b (snd (paper_kill_switch uuid clock reason d b))"
proof -
  let ?b1 = "paper_cancel_all uuid clock (b\<lparr>pb_kill_switch_reason := Some reason\<rparr>)"
  note c = cancel_all_books [of "b\<lparr>pb_kill_switch_reason := Some reason\<rparr>" uuid clock]
  have "pb_kill_switch_reason ?b1 = Some reason" "\<forall>k. dead ?b1 k" using c cancel_all_dead by auto
  then show "killed (snd (paper_kill_switch uuid clock reason d b))"
    using assms by (simp add: paper_kill_switch_def killed_def truthy_def dead_def)
  have "same_books b (snd (paper_kill_switch uuid clock reason d b))"
    using c by (simp add: paper_kill_switch_def same_books_def)
  then show "same_holdings b (snd (paper_kill_switch uuid clock reason d b))" by (rule same_books_holdings)
qed

definition keeps_switch :: "instant \<times> PaperOp \<Rightarrow> bool" where
  "keeps_switch x \<longleftrightarrow> (\<forall>d. snd x \<noteq> Pb_kill [] d)"

lemma killed_frame:
  "killed b \<Longrightarrow> pb_orders b' = pb_orders b \<Longrightarrow> pb_kill_switch_reason b' = pb_kill_switch_reason b \<Longrightarrow> killed b'"
  by (simp add: killed_def dead_def)

lemma killed_quote:
  assumes "killed b" shows "killed (snd (on_quote uuid u b)) \<and> same_holdings b (snd (on_quote uuid u b))"
proof -
  have "trading_blocked u (accept_quote u b)" using assms by (simp add: trading_blocked_def killed_def)
  then have "snd (on_quote uuid u b) = b \<or> (\<exists>t ty en pl b1. b1 = b\<lparr>pb_data_halted_symbols := insert (u_symbol u) (pb_data_halted_symbols b)\<rparr> \<and>
      snd (on_quote uuid u b) = audit uuid t ty en pl b1) \<or> snd (on_quote uuid u b) = accept_quote u b"
    by (auto simp: on_quote_def Let_def)
  then show ?thesis
    using assms by (auto intro: killed_frame same_books_holdings simp: same_books_def)
qed

lemma killed_submit:
  assumes "killed b" shows "killed (snd (paper_submit uuid r d b))"
  using assms by (cases d) (auto simp: paper_submit_def paper_utc_def Let_def killed_def dead_def live_status_def)

lemma killed_cancel:
  assumes "killed b" shows "killed (snd (paper_cancel uuid clock k d b))"
  using assms cancel_dead(2) [of b _ uuid clock k d] cancel_books(2) by (auto simp: killed_def)

lemma funding_frame:
  "pb_orders (snd (paper_apply_funding uuid s rate d b)) = pb_orders b"
  "pb_kill_switch_reason (snd (paper_apply_funding uuid s rate d b)) = pb_kill_switch_reason b"
  by (cases d; auto simp: paper_apply_funding_def Let_def audit_at_def paper_utc_def split: option.splits)+

lemma funding_holdings: "same_holdings b (snd (paper_apply_funding uuid s rate d b))"
  by (cases d) (auto simp: paper_apply_funding_def Let_def audit_at_def paper_utc_def same_holdings_def
      paper_quantity_def fun_eq_iff audit_def split: option.splits)

lemma killed_step:
  assumes "killed b" "keeps_switch x" shows "killed (timed_step uuid x b) \<and> same_holdings b (timed_step uuid x b)"
proof (cases "snd x")
  case (Pb_kill r d)
  then have "r \<noteq> []" using assms(2) by (auto simp: keeps_switch_def)
  then show ?thesis using kill_switch_kills Pb_kill by (simp add: timed_step_def)
next
  case (Pb_submit r d)
  then show ?thesis using killed_submit [OF assms(1)] same_books_holdings [OF submit_books(1)] by (simp add: timed_step_def)
next
  case (Pb_cancel k d)
  then show ?thesis using killed_cancel [OF assms(1)] same_books_holdings [OF cancel_books(1)] by (simp add: timed_step_def)
next
  case (Pb_quote u)
  then show ?thesis using killed_quote [OF assms(1)] by (simp add: timed_step_def)
next
  case (Pb_funding s r d)
  then show ?thesis using killed_frame [OF assms(1)] funding_frame funding_holdings by (simp add: timed_step_def)
qed (use assms(1) in \<open>auto simp: timed_step_def clear_data_halt_def paper_halt_def paper_resume_def same_books_def
    intro: killed_frame same_books_holdings\<close>)


section \<open>A concrete session\<close>

definition demo_request :: PaperOrderRequest where
  "demo_request = \<lparr>q_client_order_id = ''o1'', q_symbol = ''BTC'', q_side = BUY, q_quantity = 3,
     q_order_type = Paper_market, q_limit_price = None\<rparr>"

definition demo_paper_quote :: PaperQuote where
  "demo_paper_quote = \<lparr>u_symbol = ''BTC'', u_timestamp = 5, u_bid = 99, u_ask = 101, u_bid_size = 20,
     u_ask_size = 20, u_data_quality_score = 1, u_sequence = Some 1\<rparr>"

definition demo_broker :: PaperBroker where
  "demo_broker = \<lparr>pb_initial_cash = 1000, pb_cash = 1000, pb_fee_rate = 1 / 1000,
     pb_slippage_bps = 100, pb_max_participation = 1 / 10, pb_max_gross_leverage = 1,
     pb_minimum_data_quality = 9 / 10, pb_orders = [], pb_positions = [], pb_fills = [], pb_latest_quotes = [],
     pb_fees_paid = 0, pb_kill_switch_reason = None, pb_operational_halt_reason = None, pb_last_sequence = [],
     pb_audit_events = [], pb_data_halted_symbols = {}, pb_uuids = 0\<rparr>"

definition demo_fill :: PaperFill where
  "demo_fill = \<lparr>pf_fill_id = ''id'', pf_client_order_id = ''o1'', pf_symbol = ''BTC'', pf_side = BUY,
     pf_timestamp = 5, pf_quantity = 2, pf_price = 10201 / 100, pf_fee = 10201 / 50000,
     pf_slippage_cost = 202 / 100\<rparr>"

lemma demo_broker_init:
  "PaperBroker_init 1000 (1 / 1000) 100 (1 / 10) 1 (9 / 10) = Inr demo_broker"
  by (simp add: PaperBroker_init_def demo_broker_def)

lemmas demo_paper_defs = demo_request_def demo_paper_quote_def demo_broker_def paper_submit_def paper_utc_def
  truthy_def audit_def on_quote_def sequence_stale_def sequence_gap_def accept_quote_def trading_blocked_def
  dict_values_def fillable_def live_status_def try_fill_def paper_remaining_def fill_price_def
  exposure_allowed_def paper_quantity_def signed_quantity_def paper_equity_def quote_mark_def
  PaperFill_validate_def book_fill_def paper_apply_fill_def set_order_def

definition demo_open :: "PaperBroker \<Rightarrow> PaperBroker" where
  "demo_open b = snd (paper_submit (\<lambda>_. ''id'') demo_request (Aware 1) b)"

text \<open>The demonstration trade on a broker whose switches hold reasons that are not true values.\<close>

lemma demo_on_quote:
  assumes "\<not> truthy k" "\<not> truthy h"
  shows "\<exists>b'. on_quote (\<lambda>_. ''id'') demo_paper_quote (demo_open (demo_broker\<lparr>pb_kill_switch_reason := k,
      pb_operational_halt_reason := h, pb_audit_events := es, pb_uuids := n\<rparr>)) = (Inr [demo_fill], b') \<and>
      pb_fills b' = [demo_fill]"
  using assms by (simp add: demo_open_def demo_fill_def demo_paper_defs dec_eval Let_def)

lemma demo_on_quote_plain:
  "\<exists>b'. on_quote (\<lambda>_. ''id'') demo_paper_quote (demo_open demo_broker) = (Inr [demo_fill], b') \<and>
     pb_fills b' = [demo_fill]"
  using demo_on_quote [of None None 0 "[]"] by (simp add: truthy_def demo_broker_def)

theorem paper_fills_sound_witness:
  "\<exists>b'. on_quote (\<lambda>_. ''id'') demo_paper_quote (demo_open demo_broker) = (Inr [demo_fill], b') \<and>
     pb_fills b' = pb_fills (demo_open demo_broker) @ [demo_fill] \<and>
     list_ex (\<lambda>w. paper_fill_ok demo_paper_quote (pb_max_participation (demo_open demo_broker)) w demo_fill)
       (dict_values (pb_orders (demo_open demo_broker)))"
proof -
  obtain b' where b': "on_quote (\<lambda>_. ''id'') demo_paper_quote (demo_open demo_broker) = (Inr [demo_fill], b')"
    using demo_on_quote_plain by blast
  then show ?thesis using paper_fills_sound [OF b'] by (auto simp: list_ex_iff)
qed

definition demo_paper_ops :: "(instant \<times> PaperOp) list" where
  "demo_paper_ops = [(1, Pb_submit demo_request (Aware 1)), (5, Pb_quote demo_paper_quote)]"

lemma demo_paper_run:
  "fold (timed_step (\<lambda>_. ''id'')) demo_paper_ops b = snd (on_quote (\<lambda>_. ''id'') demo_paper_quote (demo_open b))"
  by (simp add: demo_paper_ops_def timed_step_def demo_open_def)

theorem paper_run_reconstructible_witness:
  "let b = fold (timed_step (\<lambda>_. ''id'')) demo_paper_ops demo_broker in
     pb_fills b = [demo_fill] \<and> paper_quantity b ''BTC'' = 2 \<and> pb_fees_paid b = 10201 / 50000"
proof -
  obtain b' where b': "on_quote (\<lambda>_. ''id'') demo_paper_quote (demo_open demo_broker) = (Inr [demo_fill], b')"
      "pb_fills b' = [demo_fill]"
    using demo_on_quote_plain by blast
  then show ?thesis
    using paper_run_reconstructible [OF demo_broker_init, of "\<lambda>_. ''id''" demo_paper_ops]
    by (simp add: Let_def demo_paper_run demo_fill_def signed_quantity_def dsum_def dec_eval)
qed


text \<open>
  A kill switch or operational halt with an empty reason is recorded but stops nothing: the
  broker tests the reason for truth, and the empty string is false. A broker whose kill switch was
  activated and which was halted, both with the empty reason, still accepts an order and fills it on
  the next quote.
\<close>

theorem empty_reason_does_not_stop:
  "\<exists>b0. b0 = snd (paper_halt (\<lambda>_. ''id'') [] (Aware 0) (snd (paper_kill_switch (\<lambda>_. ''id'') 0 [] None demo_broker))) \<and>
     pb_kill_switch_reason b0 = Some [] \<and> pb_operational_halt_reason b0 = Some [] \<and>
     pb_fills (fold (timed_step (\<lambda>_. ''id'')) demo_paper_ops b0) = [demo_fill]"
proof -
  let ?b0 = "snd (paper_halt (\<lambda>_. ''id'') [] (Aware 0) (snd (paper_kill_switch (\<lambda>_. ''id'') 0 [] None demo_broker)))"
  have "\<exists>es n. ?b0 = demo_broker\<lparr>pb_kill_switch_reason := Some [], pb_operational_halt_reason := Some [],
      pb_audit_events := es, pb_uuids := n\<rparr>"
    by (simp add: paper_halt_def paper_kill_switch_def paper_cancel_all_def audit_at_def audit_def paper_utc_def
        demo_broker_def)
  then obtain es n where b0: "?b0 = demo_broker\<lparr>pb_kill_switch_reason := Some [],
      pb_operational_halt_reason := Some [], pb_audit_events := es, pb_uuids := n\<rparr>"
    by blast
  moreover obtain b' where "on_quote (\<lambda>_. ''id'') demo_paper_quote (demo_open ?b0) = (Inr [demo_fill], b')"
      "pb_fills b' = [demo_fill]"
    unfolding b0 using demo_on_quote [of "Some []" "Some []" n es] by (auto simp: truthy_def)
  ultimately show ?thesis by (simp add: demo_paper_run)
qed

end
