(* ===== verification/Validation_Splits.thy ===== *)
theory Validation_Splits
  imports Decimal_Arith
begin

text \<open>
  \<open>src/app/services/validation/splits.py\<close>: chronological, purged k-fold and walk-forward splits
  of ordered observations. An index array is the list of its elements. The functions of numpy that
  the module calls are the fields of a parameter \<open>numpy\<close>; \<open>numpy_ok\<close> states their documented
  behaviour on the arguments used here. Arithmetic on binary floats rounds to 53 significant bits
  (\<open>fl\<close>); the overflow and underflow of the exponent are not modelled. Arguments are taken to have
  their annotated types, so the \<open>isinstance\<close> guards never fire.
\<close>

section \<open>What the module uses of numpy and of floats\<close>

record numpy =
  np_arange :: "int \<Rightarrow> int \<Rightarrow> int list"
  np_array_split :: "int list \<Rightarrow> int \<Rightarrow> int list list"
  np_floor :: "rat \<Rightarrow> rat"
  np_ones :: "int \<Rightarrow> bool list"
  np_assign_slice :: "bool list \<Rightarrow> int \<Rightarrow> int \<Rightarrow> bool \<Rightarrow> bool list"
  np_compress :: "int list \<Rightarrow> bool list \<Rightarrow> int list"

definition numpy_ok :: "numpy \<Rightarrow> bool" where
  "numpy_ok np \<longleftrightarrow>
     (\<forall>a b. np_arange np a b = [a..b - 1]) \<and>
     (\<forall>xs k. 1 \<le> k \<longrightarrow> concat (np_array_split np xs k) = xs \<and>
        length (np_array_split np xs k) = nat k \<and>
        (\<forall>block \<in> set (np_array_split np xs k).
           length block \<in> {length xs div nat k, Suc (length xs div nat k)})) \<and>
     (\<forall>x. np_floor np x = of_int \<lfloor>x\<rfloor>) \<and>
     (\<forall>n. np_ones np n = replicate (nat n) True) \<and>
     (\<forall>mask a b v. 0 \<le> a \<longrightarrow> a \<le> b \<longrightarrow> b \<le> int (length mask) \<longrightarrow>
        np_assign_slice np mask a b v = take (nat a) mask @ replicate (nat (b - a)) v @ drop (nat b) mask) \<and>
     (\<forall>xs mask. length xs = length mask \<longrightarrow>
        np_compress np xs mask = map fst (filter snd (zip xs mask)))"

fun num_bits :: "nat \<Rightarrow> nat" where
  "num_bits n = (if n = 0 then 0 else Suc (num_bits (n div 2)))"

declare num_bits.simps [simp del]

definition fl :: "rat \<Rightarrow> rat" where
  "fl x =
     (if x = 0 then 0 else
      let a = \<bar>x\<bar>;
          e = (if 1 \<le> a then int (num_bits (nat \<lfloor>a\<rfloor>)) - 1 else - int (num_bits (nat (\<lceil>1 / a\<rceil> - 1))));
          u = 2 powi (e - 52)
      in of_int (round_half_even (x / u)) * u)"

section \<open>Splits\<close>

record DatasetSplit =
  ds_train :: "int list"
  ds_validation :: "int list"
  ds_out_of_sample :: "int list"
  ds_purge_size :: int
  ds_embargo_size :: int

record PurgedFold =
  fo_train :: "int list"
  fo_test :: "int list"
  fo_purged :: "int list"
  fo_embargoed :: "int list"

record WalkForwardWindow =
  wf_number :: nat
  wf_train :: "int list"
  wf_validation :: "int list"
  wf_out_of_sample :: "int list"
  wf_anchored :: bool

definition validate_gap :: "int \<Rightarrow> string \<Rightarrow> unit result" where
  "validate_gap val name = raise_if (val < 0) (ValueError (name @ '' must be a non-negative integer''))"

definition chronological_split ::
  "numpy \<Rightarrow> int \<Rightarrow> rat \<Rightarrow> rat \<Rightarrow> int \<Rightarrow> int \<Rightarrow> DatasetSplit result" where
  "chronological_split np n_samples train_fraction validation_fraction purge_size embargo_size =
     bindE (raise_if (n_samples < 3) (ValueError ''n_samples must be an integer of at least three'')) (\<lambda>_.
     bindE (raise_if (\<not> (0 < train_fraction \<and> train_fraction < 1))
       (ValueError ''train_fraction must be between zero and one'')) (\<lambda>_.
     bindE (raise_if (\<not> (0 < validation_fraction \<and> validation_fraction < 1) \<or>
         fl (train_fraction + validation_fraction) \<ge> 1)
       (ValueError ''validation_fraction must leave a non-empty out-of-sample share'')) (\<lambda>_.
     bindE (validate_gap purge_size ''purge_size'') (\<lambda>_.
     bindE (validate_gap embargo_size ''embargo_size'') (\<lambda>_.
     let n = fl (of_int n_samples);
         train_boundary = \<lfloor>np_floor np (fl (n * train_fraction))\<rfloor>;
         validation_boundary = \<lfloor>np_floor np (fl (n * fl (train_fraction + validation_fraction)))\<rfloor>;
         train = np_arange np 0 (train_boundary - purge_size);
         validation = np_arange np (train_boundary + embargo_size) (validation_boundary - purge_size);
         out_of_sample = np_arange np (validation_boundary + embargo_size) n_samples
     in bindE (raise_if (train = [] \<or> validation = [] \<or> out_of_sample = [])
          (ValueError ''purge/embargo settings leave an empty chronological split'')) (\<lambda>_.
        Inr \<lparr>ds_train = train, ds_validation = validation, ds_out_of_sample = out_of_sample,
             ds_purge_size = purge_size, ds_embargo_size = embargo_size\<rparr>))))))"

text \<open>One turn of the loop of \<open>purged_kfold\<close>; \<open>test[0]\<close> of an empty block raises.\<close>

definition purged_fold ::
  "numpy \<Rightarrow> int list \<Rightarrow> int \<Rightarrow> int \<Rightarrow> int \<Rightarrow> int list \<Rightarrow> PurgedFold result" where
  "purged_fold np observations n_samples purge_size embargo_size test =
     bindE (raise_if (test = []) (IndexError ''index 0 is out of bounds'')) (\<lambda>_.
     let test_start = hd test; test_end = last test + 1;
         purge_start = max 0 (test_start - purge_size);
         embargo_end = min n_samples (test_end + embargo_size);
         mask = np_assign_slice np (np_ones np n_samples) purge_start embargo_end False;
         train = np_compress np observations mask
     in bindE (raise_if (train = []) (ValueError ''purge/embargo settings leave an empty training fold'')) (\<lambda>_.
        Inr \<lparr>fo_train = train, fo_test = test, fo_purged = np_arange np purge_start test_start,
             fo_embargoed = np_arange np test_end embargo_end\<rparr>))"

fun fold_loop :: "('a \<Rightarrow> 'b result) \<Rightarrow> 'a list \<Rightarrow> 'b list result" where
  "fold_loop f [] = Inr []"
| "fold_loop f (x # xs) = bindE (f x) (\<lambda>y. bindE (fold_loop f xs) (\<lambda>ys. Inr (y # ys)))"

definition purged_kfold :: "numpy \<Rightarrow> int \<Rightarrow> int \<Rightarrow> int \<Rightarrow> int \<Rightarrow> PurgedFold list result" where
  "purged_kfold np n_samples n_splits purge_size embargo_size =
     bindE (raise_if (n_samples < 2) (ValueError ''n_samples must be an integer of at least two'')) (\<lambda>_.
     bindE (raise_if (\<not> (2 \<le> n_splits \<and> n_splits \<le> n_samples))
       (ValueError ''n_splits must be between two and n_samples'')) (\<lambda>_.
     bindE (validate_gap purge_size ''purge_size'') (\<lambda>_.
     bindE (validate_gap embargo_size ''embargo_size'') (\<lambda>_.
     let observations = np_arange np 0 n_samples
     in fold_loop (purged_fold np observations n_samples purge_size embargo_size)
          (np_array_split np observations n_splits)))))"

section \<open>Walk-forward windows\<close>

record walk_config =
  k_train_size :: int
  k_validation_size :: int
  k_out_of_sample_size :: int
  k_anchored :: bool
  k_purge_size :: int
  k_embargo_size :: int

text \<open>The blocks of the window at an offset, as the loop body computes them.\<close>

definition out_of_sample_start :: "walk_config \<Rightarrow> int \<Rightarrow> int" where
  "out_of_sample_start k offset =
     (let nominal_train_end = k_train_size k + offset in
      if k_validation_size k \<noteq> 0
      then nominal_train_end + k_embargo_size k + k_validation_size k + k_embargo_size k
      else nominal_train_end + k_embargo_size k)"

definition window_at :: "numpy \<Rightarrow> walk_config \<Rightarrow> int \<Rightarrow> nat \<Rightarrow> WalkForwardWindow" where
  "window_at np k offset number =
     (let train_start = (if k_anchored k then 0 else offset);
          nominal_train_end = k_train_size k + offset;
          validation_start = nominal_train_end + k_embargo_size k;
          start = out_of_sample_start k offset
      in \<lparr>wf_number = number,
          wf_train = np_arange np train_start (nominal_train_end - k_purge_size k),
          wf_validation = (if k_validation_size k \<noteq> 0
            then np_arange np validation_start (validation_start + k_validation_size k - k_purge_size k) else []),
          wf_out_of_sample = np_arange np start (start + k_out_of_sample_size k),
          wf_anchored = k_anchored k\<rparr>)"

text \<open>The loop \<open>while True\<close>; \<open>None\<close> would be a loop that never breaks.\<close>

partial_function (option) walk_loop ::
  "numpy \<Rightarrow> walk_config \<Rightarrow> int \<Rightarrow> int \<Rightarrow> int \<Rightarrow> WalkForwardWindow list \<Rightarrow> WalkForwardWindow list option" where
  "walk_loop np k n_samples step offset windows =
     (if out_of_sample_start k offset + k_out_of_sample_size k > n_samples then Some windows
      else walk_loop np k n_samples step (offset + step)
             (windows @ [window_at np k offset (length windows)]))"

definition walk_forward_checks :: "int \<Rightarrow> walk_config \<Rightarrow> int \<Rightarrow> unit result" where
  "walk_forward_checks n_samples k step =
     bindE (raise_if (n_samples < 1) (ValueError ''n_samples must be a positive integer'')) (\<lambda>_.
     bindE (raise_if (k_train_size k < 1) (ValueError ''train_size must be an integer of at least 1'')) (\<lambda>_.
     bindE (raise_if (k_validation_size k < 0) (ValueError ''validation_size must be an integer of at least 0'')) (\<lambda>_.
     bindE (raise_if (k_out_of_sample_size k < 1)
       (ValueError ''out_of_sample_size must be an integer of at least 1'')) (\<lambda>_.
     bindE (validate_gap (k_purge_size k) ''purge_size'') (\<lambda>_.
     bindE (validate_gap (k_embargo_size k) ''embargo_size'') (\<lambda>_.
     bindE (raise_if (step < 1) (ValueError ''step_size must be a positive integer'')) (\<lambda>_.
     raise_if (k_train_size k \<le> k_purge_size k \<or>
         k_validation_size k \<noteq> 0 \<and> k_validation_size k \<le> k_purge_size k)
       (ValueError ''purge_size must leave non-empty train and validation blocks''))))))))"

definition walk_forward_splits ::
  "numpy \<Rightarrow> int \<Rightarrow> walk_config \<Rightarrow> int option \<Rightarrow> WalkForwardWindow list result option" where
  "walk_forward_splits np n_samples k step_size =
     (let step = (case step_size of None \<Rightarrow> k_out_of_sample_size k | Some s \<Rightarrow> s) in
      case walk_forward_checks n_samples k step of
        Inl e \<Rightarrow> Some (Inl e)
      | Inr _ \<Rightarrow>
          (case walk_loop np k n_samples step 0 [] of
             None \<Rightarrow> None
           | Some windows \<Rightarrow> Some (
               if windows = [] then Inl (ValueError ''not enough observations for one walk-forward window'')
               else Inr windows)))"

definition rolling_walk_forward ::
  "numpy \<Rightarrow> int \<Rightarrow> walk_config \<Rightarrow> int option \<Rightarrow> WalkForwardWindow list result option" where
  "rolling_walk_forward np n_samples k step_size = walk_forward_splits np n_samples (k\<lparr>k_anchored := False\<rparr>) step_size"

definition anchored_walk_forward ::
  "numpy \<Rightarrow> int \<Rightarrow> walk_config \<Rightarrow> int option \<Rightarrow> WalkForwardWindow list result option" where
  "anchored_walk_forward np n_samples k step_size = walk_forward_splits np n_samples (k\<lparr>k_anchored := True\<rparr>) step_size"

section \<open>Chronological splits\<close>

lemma np_arangeD [simp]: "numpy_ok np \<Longrightarrow> np_arange np a b = [a..b - 1]"
  by (simp add: numpy_ok_def)

lemma array_split_laws:
  assumes "numpy_ok np" "1 \<le> k"
  shows "concat (np_array_split np xs k) = xs" "length (np_array_split np xs k) = nat k"
    "\<forall>block \<in> set (np_array_split np xs k). length block \<in> {length xs div nat k, Suc (length xs div nat k)}"
  using assms unfolding numpy_ok_def by blast+

text \<open>Every index of \<open>a\<close> comes before every index of \<open>b\<close>, with more than \<open>gap\<close> between them.\<close>

definition precedes :: "int \<Rightarrow> int list \<Rightarrow> int list \<Rightarrow> bool" where
  "precedes gap a b \<longleftrightarrow> (\<forall>i \<in> set a. \<forall>j \<in> set b. i + gap < j)"

lemma precedes_upto: "b + gap < c \<Longrightarrow> precedes gap [a..b] [c..d]"
  by (simp add: precedes_def)

lemma hd_upto: "a \<le> b \<Longrightarrow> hd [a..b] = a"
  by (simp add: upto.simps)

lemma last_upto: "a \<le> b \<Longrightarrow> last [a..b] = b"
  by (simp add: upto_rec2)

text \<open>
  A chronological split never leaks: the three parts are non-empty stretches of the
  observations in time order, and between the last index of one part and the first of the next
  lie at least the purged and the embargoed observations.
\<close>

theorem chronological_split_no_leakage:
  assumes "chronological_split np n train_fraction validation_fraction purge embargo = Inr s" "numpy_ok np"
  shows "precedes (purge + embargo) (ds_train s) (ds_validation s) \<and>
    precedes (purge + embargo) (ds_validation s) (ds_out_of_sample s) \<and>
    ds_train s \<noteq> [] \<and> ds_validation s \<noteq> [] \<and> ds_out_of_sample s \<noteq> [] \<and>
    sorted_wrt (<) (ds_train s @ ds_validation s @ ds_out_of_sample s) \<and>
    set (ds_train s @ ds_validation s @ ds_out_of_sample s) \<subseteq> {0..<n} \<and>
    hd (ds_train s) = 0 \<and> last (ds_out_of_sample s) = n - 1"
proof -
  obtain tb vb where s: "ds_train s = [0..tb - purge - 1]" "ds_validation s = [tb + embargo..vb - purge - 1]"
      "ds_out_of_sample s = [vb + embargo..n - 1]"
    and ne: "0 < tb - purge" "tb + embargo < vb - purge" "vb + embargo < n" and gaps: "0 \<le> purge" "0 \<le> embargo"
    using assms by (auto simp: chronological_split_def validate_gap_def Let_def)
  show ?thesis
    unfolding s using ne gaps by (auto simp: sorted_wrt_append precedes_def hd_upto last_upto)
qed

section \<open>A concrete numpy\<close>

definition list_split :: "int list \<Rightarrow> int \<Rightarrow> int list list" where
  "list_split xs k =
     (let q = length xs div nat k; r = length xs mod nat k in
      map (\<lambda>i. take (Suc q) (drop (i * Suc q) xs)) [0..<r] @
      map (\<lambda>i. take q (drop (i * q) (drop (r * Suc q) xs))) [0..<nat k - r])"

definition list_numpy :: numpy where
  "list_numpy = \<lparr>np_arange = (\<lambda>a b. [a..b - 1]), np_array_split = list_split, np_floor = (\<lambda>x. of_int \<lfloor>x\<rfloor>),
     np_ones = (\<lambda>n. replicate (nat n) True),
     np_assign_slice = (\<lambda>mask a b v. take (nat a) mask @ replicate (nat (b - a)) v @ drop (nat b) mask),
     np_compress = (\<lambda>xs mask. map fst (filter snd (zip xs mask)))\<rparr>"

lemma concat_chunks:
  "m * q \<le> length xs \<Longrightarrow> concat (map (\<lambda>i. take q (drop (i * q) xs)) [0..<m]) = take (m * q) xs"
proof (induction m)
  case (Suc m)
  have "take (Suc m * q) xs = take (m * q) xs @ take q (drop (m * q) xs)"
    using take_add [of "m * q" q xs] by (simp add: add.commute)
  then show ?case using Suc by simp
qed simp

lemma list_numpy_ok: "numpy_ok list_numpy"
proof -
  have "concat (list_split xs k) = xs \<and> length (list_split xs k) = nat k \<and>
      (\<forall>block \<in> set (list_split xs k). length block \<in> {length xs div nat k, Suc (length xs div nat k)})"
    if "1 \<le> k" for xs k
  proof -
    define K where "K = nat k"
    have K: "0 < K" using that by (simp add: K_def)
    let ?q = "length xs div K" and ?r = "length xs mod K"
    have r: "?r < K" using K by simp
    have tot: "?r * Suc ?q + (K - ?r) * ?q = length xs"
    proof -
      have "?r * Suc ?q + (K - ?r) * ?q = ?r + (?r + (K - ?r)) * ?q" by (simp add: algebra_simps)
      also have "\<dots> = length xs" using r by simp
      finally show ?thesis .
    qed
    have "concat (list_split xs k) = take (?r * Suc ?q) xs @ take ((K - ?r) * ?q) (drop (?r * Suc ?q) xs)"
      unfolding list_split_def Let_def K_def [symmetric]
      using concat_chunks [of ?r "Suc ?q" xs] concat_chunks [of "K - ?r" ?q "drop (?r * Suc ?q) xs"] tot by simp
    also have "\<dots> = xs" using tot by simp
    finally have "concat (list_split xs k) = xs" .
    moreover have "length (list_split xs k) = K" using r by (simp add: list_split_def Let_def K_def)
    moreover have "length block \<in> {?q, Suc ?q}" if "block \<in> set (list_split xs k)" for block
    proof -
      consider i where "i < ?r" "block = take (Suc ?q) (drop (i * Suc ?q) xs)"
        | i where "i < K - ?r" "block = take ?q (drop (i * ?q) (drop (?r * Suc ?q) xs))"
        using \<open>block \<in> set (list_split xs k)\<close> by (auto simp: list_split_def Let_def K_def)
      then show ?thesis
      proof cases
        case 1
        have "i * Suc ?q + Suc ?q \<le> ?r * Suc ?q" using 1(1) mult_le_mono1 [of "Suc i" ?r "Suc ?q"] by simp
        then show ?thesis using 1(2) tot by simp
      next
        case 2
        have "i * ?q + ?q \<le> (K - ?r) * ?q" using 2(1) mult_le_mono1 [of "Suc i" "K - ?r" ?q] by simp
        then show ?thesis using 2(2) tot by simp
      qed
    qed
    ultimately show ?thesis by (simp add: K_def)
  qed
  then show ?thesis by (simp add: numpy_ok_def list_numpy_def)
qed

lemma demo_chronological:
  "chronological_split list_numpy 20 (1 / 2) (1 / 4) 1 2 =
     Inr \<lparr>ds_train = [0..8], ds_validation = [12..13], ds_out_of_sample = [17..19], ds_purge_size = 1,
          ds_embargo_size = 2\<rparr>"
  by code_simp

theorem chronological_split_no_leakage_witness:
  "\<exists>s. chronological_split list_numpy 20 (1 / 2) (1 / 4) 1 2 = Inr s \<and> ds_train s = [0..8] \<and>
     precedes 3 (ds_train s) (ds_validation s) \<and> precedes 3 (ds_validation s) (ds_out_of_sample s)"
  using demo_chronological chronological_split_no_leakage [OF demo_chronological list_numpy_ok] by simp

section \<open>Purged k-fold\<close>

lemma fold_loop_Inr: "fold_loop f xs = Inr ys \<Longrightarrow> list_all2 (\<lambda>x y. f x = Inr y) xs ys"
  by (induction xs arbitrary: ys) auto

lemma block_of_upto:
  assumes "concat bs = [a..b]" "block \<in> set bs" "block \<noteq> []"
  shows "block = [hd block..last block] \<and> a \<le> hd block \<and> hd block \<le> last block \<and> last block \<le> b"
proof -
  obtain pre post where "bs = pre @ block # post" using assms(2) by (meson split_list)
  then have cat: "concat pre @ block @ concat post = [a..b]" using assms(1) by simp
  let ?p = "length (concat pre)"
  have len: "?p + length block \<le> nat (b - a + 1)"
    using arg_cong [OF cat, of length] by simp
  have "block = [a + int ?p..a + int ?p + int (length block) - 1]"
  proof (rule nth_equalityI)
    fix i assume i: "i < length block"
    have "block ! i = [a..b] ! (?p + i)" unfolding cat [symmetric] using i by (simp add: nth_append)
    also have "\<dots> = a + int (?p + i)" using i len by (intro nth_upto) simp
    finally show "block ! i = [a + int ?p..a + int ?p + int (length block) - 1] ! i" using i by (simp add: nth_upto)
  qed simp
  moreover define x y where "x = a + int ?p" and "y = a + int ?p + int (length block) - 1"
  ultimately have "block = [x..y]" by simp
  moreover have "1 \<le> length block" using assms(3) by (cases block) simp_all
  then have "a \<le> x" "x \<le> y" "y \<le> b" using len unfolding x_def y_def by linarith+
  ultimately have xy: "block = [x..y]" "a \<le> x" "x \<le> y" "y \<le> b" by blast+
  then show ?thesis by (simp add: hd_upto last_upto)
qed

lemma upto_append: "a \<le> b \<Longrightarrow> b \<le> c \<Longrightarrow> [a..b - 1] @ [b..c - 1] = [a..c - 1]"
  using upto_split1 [of a b "c - 1"] by (cases "b = c") simp_all

lemma compress_const: "map fst (filter snd (zip xs (replicate (length xs) v))) = (if v then xs else [])"
  by (induction xs) auto

lemma mask_select:
  assumes "numpy_ok np" "0 \<le> a" "a \<le> b" "b \<le> n"
  shows "np_compress np [0..n - 1] (np_assign_slice np (np_ones np n) a b False) = [0..a - 1] @ [b..n - 1]"
proof -
  have split: "[0..n - 1] = [0..a - 1] @ [a..b - 1] @ [b..n - 1]"
    using assms(2-) upto_append [of 0 a n] upto_append [of a b n] by simp
  have mask: "np_assign_slice np (np_ones np n) a b False =
      replicate (length [0..a - 1]) True @ replicate (length [a..b - 1]) False @ replicate (length [b..n - 1]) True"
    using assms by (simp add: numpy_ok_def nat_diff_distrib)
  have "np_compress np xs m = map fst (filter snd (zip xs m))" if "length xs = length m" for xs m
    using assms(1) that by (simp add: numpy_ok_def)
  then show ?thesis unfolding mask by (simp add: split zip_append compress_const del: length_upto)
qed

definition fold_ok :: "int \<Rightarrow> int \<Rightarrow> int \<Rightarrow> PurgedFold \<Rightarrow> bool" where
  "fold_ok n purge embargo f \<longleftrightarrow>
     fo_train f \<noteq> [] \<and> fo_test f \<noteq> [] \<and> sorted_wrt (<) (fo_train f) \<and>
     set (fo_train f) = {i \<in> {0..<n}. i < hd (fo_test f) - purge \<or> last (fo_test f) + embargo < i} \<and>
     distinct (fo_train f @ fo_purged f @ fo_test f @ fo_embargoed f) \<and>
     set (fo_train f @ fo_purged f @ fo_test f @ fo_embargoed f) = {0..<n}"

lemma purged_fold_ok:
  assumes "purged_fold np [0..n - 1] n purge embargo test = Inr f" "numpy_ok np" "0 \<le> purge" "0 \<le> embargo"
    "test = [x..y]" "0 \<le> x" "x \<le> y" "y \<le> n - 1"
  shows "fo_test f = test \<and> fold_ok n purge embargo f"
proof -
  let ?a = "max 0 (x - purge)" and ?b = "min n (y + 1 + embargo)"
  have sel: "np_compress np [0..n - 1] (np_assign_slice np (np_ones np n) ?a ?b False) = [0..?a - 1] @ [?b..n - 1]"
    using assms by (intro mask_select) auto
  have f: "f = \<lparr>fo_train = [0..?a - 1] @ [?b..n - 1], fo_test = [x..y], fo_purged = [?a..x - 1],
      fo_embargoed = [y + 1..?b - 1]\<rparr>" and ne: "[0..?a - 1] @ [?b..n - 1] \<noteq> []"
    using assms sel by (auto simp: purged_fold_def Let_def hd_upto last_upto)
  define A B where "A = ?a" and "B = ?b"
  have AB: "0 \<le> A" "A \<le> x" "y < B" "B \<le> n" "\<And>i. 0 \<le> i \<Longrightarrow> i < A \<longleftrightarrow> i < x - purge"
    "\<And>i. i < n \<Longrightarrow> B \<le> i \<longleftrightarrow> y + embargo < i"
    using assms unfolding A_def B_def by linarith+
  have "set ([0..A - 1] @ [B..n - 1]) = {i \<in> {0..<n}. i < x - purge \<or> y + embargo < i}"
    using AB assms by (auto simp flip: AB(5,6))
  moreover have "distinct (([0..A - 1] @ [B..n - 1]) @ [A..x - 1] @ [x..y] @ [y + 1..B - 1])"
    "set (([0..A - 1] @ [B..n - 1]) @ [A..x - 1] @ [x..y] @ [y + 1..B - 1]) = {0..<n}"
    "sorted_wrt (<) ([0..A - 1] @ [B..n - 1])"
    using AB(1-4) assms(6-) by (auto simp: sorted_wrt_append)
  ultimately show ?thesis
    using ne assms(5,7) unfolding f A_def [symmetric] B_def [symmetric] fold_ok_def
    by (simp only: PurgedFold.simps hd_upto last_upto) simp
qed

text \<open>
  Purged k-fold: the test folds, in order, are the whole sample in equal shares (up to one
  observation); each fold splits the sample without overlap into training, purged, tested and
  embargoed observations, and its training set holds exactly the observations more than the purge
  size before or the embargo size after the test block.
\<close>

theorem purged_kfold_partition:
  assumes "purged_kfold np n k purge embargo = Inr folds" "numpy_ok np"
  shows "length folds = nat k \<and> concat (map fo_test folds) = [0..n - 1] \<and>
    list_all (\<lambda>f. fold_ok n purge embargo f \<and> int (length (fo_test f)) \<in> {n div k, n div k + 1}) folds"
proof -
  let ?bs = "np_array_split np [0..n - 1] k"
  have k: "2 \<le> k" "k \<le> n" "0 \<le> purge" "0 \<le> embargo"
    and loop: "list_all2 (\<lambda>t f. purged_fold np [0..n - 1] n purge embargo t = Inr f) ?bs folds"
    using assms by (auto simp: purged_kfold_def validate_gap_def Let_def intro: fold_loop_Inr)
  have bs: "concat ?bs = [0..n - 1]" "length ?bs = nat k"
    "\<forall>t \<in> set ?bs. length t \<in> {nat n div nat k, Suc (nat n div nat k)}"
    using array_split_laws [OF assms(2), of k "[0..n - 1]"] k by simp_all
  have q: "int (nat n div nat k) = n div k" "0 < nat n div nat k"
    using k by (simp_all add: zdiv_int div_greater_zero_iff)
  have each: "fo_test f = t \<and> fold_ok n purge embargo f" if "t \<in> set ?bs" "purged_fold np [0..n - 1] n purge embargo t = Inr f" for t f
  proof -
    have "t \<noteq> []" using bs(3) that(1) q(2) by fastforce
    then show ?thesis
      using block_of_upto [OF bs(1) that(1)] by (intro purged_fold_ok [OF that(2) assms(2) k(3,4)]) auto
  qed
  have pair: "fo_test (folds ! i) = ?bs ! i \<and> fold_ok n purge embargo (folds ! i)" if "i < length folds" for i
    using loop that each [of "?bs ! i" "folds ! i"] by (simp add: list_all2_conv_all_nth)
  have tests: "map fo_test folds = ?bs"
    using pair list_all2_lengthD [OF loop] by (simp add: list_eq_iff_nth_eq)
  have all: "list_all (fold_ok n purge embargo) folds" using pair by (simp add: list_all_length)
  have "int (length (fo_test f)) \<in> {n div k, n div k + 1}" if "f \<in> set folds" for f
  proof -
    have "fo_test f \<in> set ?bs" using that by (simp flip: tests)
    then have "length (fo_test f) \<in> {nat n div nat k, Suc (nat n div nat k)}" using bs(3) by blast
    then show ?thesis using q(1) by auto
  qed
  then show ?thesis using tests bs all by (auto simp: list_all_iff list_all2_lengthD [OF loop, symmetric])
qed

lemma demo_kfold:
  "map_sum id (map fo_train) (purged_kfold list_numpy 7 3 1 1) = Inr [[4, 5, 6], [0, 1, 6], [0, 1, 2, 3]]"
  by code_simp

theorem purged_kfold_partition_witness:
  "\<exists>folds. purged_kfold list_numpy 7 3 1 1 = Inr folds \<and> concat (map fo_test folds) = [0..6] \<and>
     list_all (fold_ok 7 1 1) folds \<and> map fo_train folds = [[4, 5, 6], [0, 1, 6], [0, 1, 2, 3]]"
proof -
  obtain folds where f: "purged_kfold list_numpy 7 3 1 1 = Inr folds"
      "map fo_train folds = [[4, 5, 6], [0, 1, 6], [0, 1, 2, 3]]"
    using demo_kfold by (cases "purged_kfold list_numpy 7 3 1 1") auto
  note part = purged_kfold_partition [OF f(1) list_numpy_ok]
  have "concat (map fo_test folds) = [0..6]" using part by simp
  moreover have "list_all (fold_ok 7 1 1) folds" using part unfolding list_all_iff by blast
  ultimately show ?thesis by (intro exI [of _ folds] conjI f)
qed

section \<open>Walk-forward windows\<close>

lemma out_of_sample_start_add: "out_of_sample_start k (off + d) = out_of_sample_start k off + d"
  by (simp add: out_of_sample_start_def Let_def)

lemma walk_loop_result:
  assumes "1 \<le> step"
  shows "\<exists>m. walk_loop np k n step off ws =
      Some (ws @ map (\<lambda>i. window_at np k (off + int i * step) (length ws + i)) [0..<m]) \<and>
    (\<forall>i. i < m \<longleftrightarrow> out_of_sample_start k (off + int i * step) + k_out_of_sample_size k \<le> n)"
proof (induction "nat (n + 1 - (out_of_sample_start k off + k_out_of_sample_size k))" arbitrary: off ws rule: less_induct)
  case less
  let ?stop = "\<lambda>o'. out_of_sample_start k o' + k_out_of_sample_size k"
  show ?case
  proof (cases "?stop off > n")
    case True
    have "\<not> ?stop (off + int i * step) \<le> n" for i
    proof -
      have "0 \<le> int i * step" using assms by simp
      then show ?thesis using True by (simp add: out_of_sample_start_add)
    qed
    then show ?thesis using True by (intro exI [of _ 0]) (simp add: walk_loop.simps)
  next
    case False
    let ?w = "window_at np k off (length ws)"
    obtain m where m: "walk_loop np k n step (off + step) (ws @ [?w]) =
        Some ((ws @ [?w]) @ map (\<lambda>i. window_at np k (off + step + int i * step) (length (ws @ [?w]) + i)) [0..<m])"
      "\<And>i. i < m \<longleftrightarrow> ?stop (off + step + int i * step) \<le> n"
      using less [of "off + step" "ws @ [?w]"] False assms by (auto simp: out_of_sample_start_add)
    have shift: "off + step + int i * step = off + int (Suc i) * step" for i by (simp add: algebra_simps)
    have "map (\<lambda>i. window_at np k (off + int i * step) (length ws + i)) [0..<Suc m] =
        ?w # map (\<lambda>i. window_at np k (off + step + int i * step) (length (ws @ [?w]) + i)) [0..<m]"
      unfolding upt_conv_Cons [OF zero_less_Suc] map_Suc_upt [symmetric] by (simp add: shift)
    moreover have "i < Suc m \<longleftrightarrow> ?stop (off + int i * step) \<le> n" for i
      using m(2) False by (cases i) (simp_all add: shift del: of_nat_Suc)
    ultimately show ?thesis using m(1) False by (intro exI [of _ "Suc m"]) (simp add: walk_loop.simps)
  qed
qed

text \<open>What the checks establish of a configuration, and what a window then satisfies.\<close>

definition window_ok :: "int \<Rightarrow> walk_config \<Rightarrow> int \<Rightarrow> WalkForwardWindow \<Rightarrow> bool" where
  "window_ok n k offset w \<longleftrightarrow>
     wf_train w = [(if k_anchored k then 0 else offset)..k_train_size k + offset - k_purge_size k - 1] \<and>
     int (length (wf_validation w)) = (if k_validation_size k = 0 then 0 else k_validation_size k - k_purge_size k) \<and>
     int (length (wf_out_of_sample w)) = k_out_of_sample_size k \<and> wf_train w \<noteq> [] \<and>
     precedes (k_purge_size k + k_embargo_size k) (wf_train w) (wf_validation w) \<and>
     precedes (k_purge_size k + k_embargo_size k) (wf_validation w) (wf_out_of_sample w) \<and>
     precedes (k_purge_size k + k_embargo_size k) (wf_train w) (wf_out_of_sample w) \<and>
     set (wf_train w @ wf_validation w @ wf_out_of_sample w) \<subseteq> {0..<n}"

lemma window_at_tags: "wf_number (window_at np k off i) = i" "wf_anchored (window_at np k off i) = k_anchored k"
  by (simp_all add: window_at_def Let_def)

lemma window_at_ok:
  assumes "numpy_ok np" "walk_forward_checks n k step = Inr ()" "0 \<le> off"
    "out_of_sample_start k off + k_out_of_sample_size k \<le> n"
  shows "window_ok n k off (window_at np k off i)"
proof -
  have c: "1 \<le> k_train_size k" "0 \<le> k_validation_size k" "1 \<le> k_out_of_sample_size k" "0 \<le> k_purge_size k"
    "0 \<le> k_embargo_size k" "k_purge_size k < k_train_size k"
    "k_validation_size k \<noteq> 0 \<Longrightarrow> k_purge_size k < k_validation_size k"
    using assms(2) by (auto simp: walk_forward_checks_def validate_gap_def not_less)
  show ?thesis
  proof (cases "k_validation_size k = 0")
    case True
    then show ?thesis
      using assms c by (auto simp: window_ok_def window_at_def out_of_sample_start_def Let_def precedes_def)
  next
    case False
    note v = c(7) [OF False]
    show ?thesis
      using False assms c(1-6) v
      by (auto simp: window_ok_def window_at_def out_of_sample_start_def Let_def precedes_def)
  qed
qed

text \<open>
  C21. Walk-forward splitting ends and is complete: for accepted arguments the loop returns, the
  windows are numbered in order at offsets \<open>0, step, 2 * step, \<dots>\<close>, a window exists for exactly the
  offsets whose out-of-sample block still fits, and every window keeps training, validation and
  out-of-sample observations in time order, apart by at least the purge and the embargo. With no
  window it raises.
\<close>

theorem walk_forward_correct:
  assumes "numpy_ok np" "step = (case step_size of None \<Rightarrow> k_out_of_sample_size k | Some s \<Rightarrow> s)"
    "walk_forward_checks n k step = Inr ()"
  shows "\<exists>ws. walk_forward_splits np n k step_size =
      Some (if ws = [] then Inl (ValueError ''not enough observations for one walk-forward window'') else Inr ws) \<and>
    (\<forall>i. i < length ws \<longleftrightarrow> out_of_sample_start k (int i * step) + k_out_of_sample_size k \<le> n) \<and>
    (\<forall>i < length ws. wf_number (ws ! i) = i \<and> wf_anchored (ws ! i) = k_anchored k \<and>
       window_ok n k (int i * step) (ws ! i))"
proof -
  have step: "1 \<le> step" using assms(3) by (auto simp: walk_forward_checks_def)
  obtain m where m: "walk_loop np k n step 0 [] = Some (map (\<lambda>i. window_at np k (int i * step) i) [0..<m])"
    "\<And>i. i < m \<longleftrightarrow> out_of_sample_start k (int i * step) + k_out_of_sample_size k \<le> n"
    using walk_loop_result [OF step, of np k n 0 "[]"] by auto
  let ?ws = "map (\<lambda>i. window_at np k (int i * step) i) [0..<m]"
  have "walk_forward_splits np n k step_size =
      Some (if ?ws = [] then Inl (ValueError ''not enough observations for one walk-forward window'') else Inr ?ws)"
    using m(1) assms(2,3) by (simp add: walk_forward_splits_def Let_def)
  moreover have "window_ok n k (int i * step) (window_at np k (int i * step) i)" if "i < m" for i
    using that m(2) step by (intro window_at_ok [OF assms(1,3)]) auto
  ultimately show ?thesis using m(2) by (intro exI [of _ ?ws]) (simp add: window_at_tags)
qed

definition demo_walk :: walk_config where
  "demo_walk = \<lparr>k_train_size = 4, k_validation_size = 2, k_out_of_sample_size = 2, k_anchored = True,
     k_purge_size = 1, k_embargo_size = 1\<rparr>"

theorem walk_forward_correct_witness:
  "\<exists>ws. walk_forward_splits list_numpy 14 demo_walk None = Some (Inr ws) \<and> length ws = 3 \<and>
     window_ok 14 demo_walk 4 (ws ! 2)"
proof -
  have chk: "walk_forward_checks 14 demo_walk 2 = Inr ()"
    by (simp add: walk_forward_checks_def validate_gap_def demo_walk_def)
  have st: "2 = (case None of None \<Rightarrow> k_out_of_sample_size demo_walk | Some s \<Rightarrow> s)" by (simp add: demo_walk_def)
  obtain ws where ws: "walk_forward_splits list_numpy 14 demo_walk None =
      Some (if ws = [] then Inl (ValueError ''not enough observations for one walk-forward window'') else Inr ws)"
    "\<And>i. i < length ws \<longleftrightarrow> out_of_sample_start demo_walk (int i * 2) + k_out_of_sample_size demo_walk \<le> 14"
    "\<And>i. i < length ws \<Longrightarrow> window_ok 14 demo_walk (int i * 2) (ws ! i)"
    using walk_forward_correct [OF list_numpy_ok st chk] by blast
  have "length ws = 3"
    using ws(2) [of 2] ws(2) [of 3] by (simp add: out_of_sample_start_def demo_walk_def)
  moreover have "window_ok 14 demo_walk 4 (ws ! 2)" using ws(3) [of 2] \<open>length ws = 3\<close> by simp
  ultimately show ?thesis using ws(1) by auto
qed

end
