(* ===== verification/Venue_Models.thy ===== *)
theory Venue_Models
  imports Decimal_Arith
begin

text \<open>
  \<open>src/app/domain/venues/models.py\<close>: whether a venue may be traded (\<open>VenueEligibility\<close>), the life
  cycle of a venue capability (\<open>VenueCapability\<close>) and the equivalence of instruments across
  venues. A capability transition builds a new value, so the life cycle is the sequence of
  transitions. \<open>VenueCapabilityMatrix\<close> is modelled from its capabilities onwards; the constructor
  that accepts older argument shapes is not.
\<close>

section \<open>Eligibility\<close>

datatype VenueEligibilityStatus = ENABLED | DATA_ONLY | EXIT_ONLY | DISABLED | PENDING_VERIFICATION

fun eligibility_value :: "VenueEligibilityStatus \<Rightarrow> string" where
  "eligibility_value ENABLED = ''enabled''"
| "eligibility_value DATA_ONLY = ''data_only''"
| "eligibility_value EXIT_ONLY = ''exit_only''"
| "eligibility_value DISABLED = ''disabled''"
| "eligibility_value PENDING_VERIFICATION = ''pending_verification''"

record VenueEligibility =
  ve_venue :: string
  ve_status :: VenueEligibilityStatus
  ve_jurisdiction :: string
  ve_terms_checked_at :: instant
  ve_terms_version :: "string option"
  ve_operator_account_verified :: bool
  ve_api_market_data_available :: bool
  ve_api_execution_available :: bool
  ve_deposits_available :: bool
  ve_withdrawals_available :: bool
  ve_execution_smoke_test_passed :: bool
  ve_requires_location_evasion :: bool
  ve_reason :: string

definition venue_utc :: "datetime \<Rightarrow> instant result" where
  "venue_utc = as_utc ''timestamp must be timezone-aware''"

definition VenueEligibility_post_init :: "VenueEligibility \<Rightarrow> datetime \<Rightarrow> VenueEligibility result" where
  "VenueEligibility_post_init v terms_checked_at =
     bindE (as_utc ''terms_checked_at must be timezone-aware'' terms_checked_at) (\<lambda>t.
     Inr (v\<lparr>ve_terms_checked_at := t\<rparr>))"

fun join :: "string \<Rightarrow> string list \<Rightarrow> string" where
  "join sep [] = []"
| "join sep [x] = x"
| "join sep (x # xs) = x @ sep @ join sep xs"

definition days :: "int \<Rightarrow> timedelta" where
  "days n = seconds (n * 86400)"

definition order_failures :: "VenueEligibility \<Rightarrow> instant \<Rightarrow> string list" where
  "order_failures v now =
     (if ve_requires_location_evasion v then [''location evasion would be required''] else []) @
     (if ve_status v \<noteq> ENABLED then [''status is '' @ eligibility_value (ve_status v)] else []) @
     (if \<not> ve_operator_account_verified v then [''operator account is not verified''] else []) @
     (if \<not> ve_api_execution_available v then [''execution API is unavailable or unverified''] else []) @
     (if \<not> ve_withdrawals_available v then [''withdrawals are unavailable or unverified''] else []) @
     (if \<not> ve_execution_smoke_test_passed v then [''minimum execution smoke test has not passed''] else []) @
     (if now - ve_terms_checked_at v \<ge> days 30 \<or> now < ve_terms_checked_at v
      then [''terms verification is stale or future-dated''] else [])"

definition permits_new_orders :: "VenueEligibility \<Rightarrow> datetime \<Rightarrow> (bool \<times> string) result" where
  "permits_new_orders v now =
     bindE (venue_utc now) (\<lambda>t.
     let failures = order_failures v t
     in Inr (failures = [], if failures \<noteq> [] then join ''; '' failures else ''eligible''))"

definition permits_reduction :: "VenueEligibility \<Rightarrow> datetime \<Rightarrow> (bool \<times> string) result" where
  "permits_reduction v now =
     bindE (venue_utc now) (\<lambda>t.
     if ve_requires_location_evasion v then Inr (False, ''location evasion is forbidden even for automated exit'')
     else if t < ve_terms_checked_at v then Inr (False, ''terms verification is future-dated'')
     else if ve_status v = ENABLED \<or> ve_status v = EXIT_ONLY then Inr (True, ''reduction permitted'')
     else Inr (False, ''status '' @ eligibility_value (ve_status v) @ '' does not permit execution''))"

section \<open>Capabilities\<close>

datatype CapabilitySupport = UNAVAILABLE | DOCUMENTED | IMPLEMENTED | LIVE_VERIFIED | DEGRADED

datatype CapabilityUseCase = RESEARCH_COLLECTION | SIGNAL_GENERATION | NEW_EXPOSURE | EMERGENCY_EXIT

record VenueCapability =
  vc_name :: string
  vc_support :: CapabilitySupport
  vc_documented_at :: "instant option"
  vc_implemented_at :: "instant option"
  vc_live_verified_at :: "instant option"
  vc_source_url :: "string option"
  vc_verification_run_id :: "string option"
  vc_failure_reason :: "string option"
  vc_emergency_exit_approved :: bool

text \<open>The timestamps are aware by type; the two consistency checks remain.\<close>

definition VenueCapability_post_init :: "VenueCapability \<Rightarrow> VenueCapability result" where
  "VenueCapability_post_init c =
     bindE (raise_if (vc_support c = DEGRADED \<and> vc_failure_reason c \<in> {None, Some []})
       (ValueError ''degraded capabilities require a failure_reason'')) (\<lambda>_.
     bindE (raise_if (vc_support c = LIVE_VERIFIED \<and> vc_live_verified_at c = None)
       (ValueError ''live-verified capabilities require live_verified_at'')) (\<lambda>_.
     Inr c))"

definition live_is_fresh :: "VenueCapability \<Rightarrow> instant \<Rightarrow> timedelta \<Rightarrow> bool" where
  "live_is_fresh c now maximum_age \<longleftrightarrow> vc_support c = LIVE_VERIFIED \<and>
     (case vc_live_verified_at c of None \<Rightarrow> False | Some t \<Rightarrow> 0 \<le> now - t \<and> now - t \<le> maximum_age)"

text \<open>
  The timestamp is looked at only when the capability is live-verified, so a naive one raises only
  then.
\<close>

definition supports :: "VenueCapability \<Rightarrow> CapabilityUseCase \<Rightarrow> datetime \<Rightarrow> timedelta \<Rightarrow> bool result" where
  "supports c use_case now maximum_age =
     bindE (raise_if (maximum_age < 0) (ValueError ''maximum_age cannot be negative'')) (\<lambda>_.
     bindE (if vc_support c = LIVE_VERIFIED \<and> vc_live_verified_at c \<noteq> None
            then bindE (venue_utc now) (\<lambda>t. Inr (live_is_fresh c t maximum_age)) else Inr False) (\<lambda>fresh.
     Inr (case use_case of
            RESEARCH_COLLECTION \<Rightarrow> vc_support c = IMPLEMENTED \<or> vc_support c = LIVE_VERIFIED
          | SIGNAL_GENERATION \<Rightarrow> fresh
          | NEW_EXPOSURE \<Rightarrow> fresh
          | EMERGENCY_EXIT \<Rightarrow> fresh \<or> (vc_support c = DEGRADED \<and> vc_emergency_exit_approved c))))"

fun allowed_transitions :: "CapabilitySupport \<Rightarrow> CapabilitySupport list" where
  "allowed_transitions UNAVAILABLE = [DOCUMENTED]"
| "allowed_transitions DOCUMENTED = [IMPLEMENTED]"
| "allowed_transitions IMPLEMENTED = [LIVE_VERIFIED, DEGRADED]"
| "allowed_transitions LIVE_VERIFIED = [DEGRADED]"
| "allowed_transitions DEGRADED = [IMPLEMENTED, LIVE_VERIFIED]"

definition or_else :: "'a option \<Rightarrow> 'a option \<Rightarrow> 'a option" where
  "or_else a b = (case a of None \<Rightarrow> b | Some x \<Rightarrow> Some x)"

text \<open>\<open>a or b\<close> on optional texts: an empty text counts as absent.\<close>

definition text_or :: "string option \<Rightarrow> string option \<Rightarrow> string option" where
  "text_or a b = (if a = None \<or> a = Some [] then b else a)"

record transition_args =
  ta_support :: CapabilitySupport
  ta_at :: datetime
  ta_source_url :: "string option"
  ta_verification_run_id :: "string option"
  ta_failure_reason :: "string option"

definition capability_transition :: "transition_args \<Rightarrow> VenueCapability \<Rightarrow> VenueCapability result" where
  "capability_transition a c =
     bindE (raise_if (ta_support a \<notin> set (allowed_transitions (vc_support c)))
       (ValueError ''invalid capability transition'')) (\<lambda>_.
     bindE (venue_utc (ta_at a)) (\<lambda>t.
     VenueCapability_post_init
       \<lparr>vc_name = vc_name c, vc_support = ta_support a,
        vc_documented_at = or_else (vc_documented_at c) (if ta_support a \<noteq> UNAVAILABLE then Some t else None),
        vc_implemented_at = or_else (vc_implemented_at c)
          (if ta_support a \<in> {IMPLEMENTED, LIVE_VERIFIED, DEGRADED} then Some t else None),
        vc_live_verified_at = (if ta_support a = LIVE_VERIFIED then Some t else vc_live_verified_at c),
        vc_source_url = text_or (ta_source_url a) (vc_source_url c),
        vc_verification_run_id = ta_verification_run_id a,
        vc_failure_reason = (if ta_support a = DEGRADED then ta_failure_reason a else None),
        vc_emergency_exit_approved = False\<rparr>))"

record VenueCapabilityMatrix =
  vm_venue :: string
  vm_detected_at :: instant
  vm_source_version :: string
  vm_capabilities :: "(string, VenueCapability) dict"

text \<open>\<open>CapabilityUnavailableError\<close> is a runtime error of the exchange adapters.\<close>

definition capability_require ::
  "VenueCapabilityMatrix \<Rightarrow> string \<Rightarrow> CapabilityUseCase \<Rightarrow> datetime \<Rightarrow> timedelta \<Rightarrow> unit result" where
  "capability_require m capability use_case now maximum_age =
     (case map_of (vm_capabilities m) capability of
        None \<Rightarrow> Inl (ValueError (''unknown capability: '' @ capability))
      | Some c \<Rightarrow>
          bindE (supports c use_case now maximum_age) (\<lambda>ok.
          raise_if (\<not> ok) (RuntimeError (vm_venue m @ '' '' @ capability @ '' does not support the use case''))))"

section \<open>Instruments\<close>

datatype InstrumentKind = SPOT | PERPETUAL | DATED_FUTURE

record CanonicalInstrument =
  ci_instrument_id :: string
  ci_base_asset_id :: string
  ci_quote_asset_id :: string
  ci_settlement_asset_id :: string
  ci_kind :: InstrumentKind
  ci_inverse :: bool
  ci_contract_multiplier :: dec
  ci_index_composition_id :: string
  ci_funding_interval_minutes :: "int option"
  ci_expiry :: "datetime option"

definition CanonicalInstrument_validate :: "CanonicalInstrument \<Rightarrow> CanonicalInstrument result" where
  "CanonicalInstrument_validate i =
     bindE (raise_if (\<not> (0 < ci_contract_multiplier i \<and> (\<forall>m \<in> set_option (ci_funding_interval_minutes i). 0 < m)))
       (ValueError ''field constraint'')) (\<lambda>_.
     bindE (raise_if (ci_kind i = PERPETUAL \<and> ci_funding_interval_minutes i = None)
       (ValueError ''perpetual instruments require a funding interval'')) (\<lambda>_.
     bindE (raise_if (ci_kind i = DATED_FUTURE \<and> ci_expiry i = None)
       (ValueError ''dated futures require expiry'')) (\<lambda>_.
     bindE (case ci_expiry i of None \<Rightarrow> Inr 0 | Some d \<Rightarrow> venue_utc d) (\<lambda>_.
     Inr i))))"

record VenueInstrumentMapping =
  im_venue :: string
  im_venue_symbol :: string
  im_canonical_instrument_id :: string
  im_base :: string
  im_quote :: string
  im_settlement :: string
  im_kind :: InstrumentKind
  im_inverse :: bool
  im_contract_multiplier :: dec
  im_index_composition_id :: string
  im_funding_interval_minutes :: "int option"
  im_verified_at :: instant

definition instrument_matches :: "VenueInstrumentMapping \<Rightarrow> CanonicalInstrument \<Rightarrow> bool" where
  "instrument_matches m i \<longleftrightarrow> im_canonical_instrument_id m = ci_instrument_id i \<and> im_base m = ci_base_asset_id i \<and>
     im_quote m = ci_quote_asset_id i \<and> im_settlement m = ci_settlement_asset_id i \<and> im_kind m = ci_kind i \<and>
     im_inverse m = ci_inverse i \<and> im_contract_multiplier m = ci_contract_multiplier i \<and>
     im_index_composition_id m = ci_index_composition_id i \<and>
     im_funding_interval_minutes m = ci_funding_interval_minutes i"

section \<open>What eligibility guarantees\<close>

text \<open>
  A venue that may open positions may also close them: whenever new orders are permitted,
  reductions are permitted at the same moment; new orders are permitted exactly when the venue is
  enabled, needs no location evasion, and the account, the execution API, withdrawals, the smoke
  test and terms checked less than thirty days ago are all in place; and a venue that would need
  location evasion permits neither.
\<close>

theorem new_orders_imply_reduction:
  assumes "permits_new_orders v now = Inr (ok, why)"
  shows "(ok \<longrightarrow> why = ''eligible'' \<and> (\<exists>r. permits_reduction v now = Inr (True, r))) \<and>
    (ve_requires_location_evasion v \<longrightarrow> \<not> ok \<and> (\<exists>r. permits_reduction v now = Inr (False, r))) \<and>
    (\<exists>t. now = Aware t \<and> (ok \<longleftrightarrow> \<not> ve_requires_location_evasion v \<and> ve_status v = ENABLED \<and>
       ve_operator_account_verified v \<and> ve_api_execution_available v \<and> ve_withdrawals_available v \<and>
       ve_execution_smoke_test_passed v \<and> ve_terms_checked_at v \<le> t \<and> t < ve_terms_checked_at v + days 30))"
proof -
  obtain t where t: "now = Aware t" using assms by (cases now) (auto simp: permits_new_orders_def venue_utc_def)
  have ok: "ok \<longleftrightarrow> order_failures v t = []" and why: "ok \<Longrightarrow> why = ''eligible''"
    using assms by (auto simp: permits_new_orders_def venue_utc_def t Let_def split: if_splits)
  have iff: "order_failures v t = [] \<longleftrightarrow> \<not> ve_requires_location_evasion v \<and> ve_status v = ENABLED \<and>
       ve_operator_account_verified v \<and> ve_api_execution_available v \<and> ve_withdrawals_available v \<and>
       ve_execution_smoke_test_passed v \<and> ve_terms_checked_at v \<le> t \<and> t < ve_terms_checked_at v + days 30"
    by (auto simp: order_failures_def)
  then show ?thesis using ok why by (auto simp: t permits_reduction_def venue_utc_def)
qed

definition demo_eligibility :: VenueEligibility where
  "demo_eligibility = \<lparr>ve_venue = ''bitget'', ve_status = ENABLED, ve_jurisdiction = ''JP'', ve_terms_checked_at = 0,
     ve_terms_version = None, ve_operator_account_verified = True, ve_api_market_data_available = True,
     ve_api_execution_available = True, ve_deposits_available = True, ve_withdrawals_available = True,
     ve_execution_smoke_test_passed = True, ve_requires_location_evasion = False, ve_reason = ''checked''\<rparr>"

theorem new_orders_imply_reduction_witness:
  "\<exists>r. permits_new_orders demo_eligibility (Aware 7) = Inr (True, ''eligible'') \<and>
     permits_reduction demo_eligibility (Aware 7) = Inr (True, r)"
proof -
  have "permits_new_orders demo_eligibility (Aware 7) = Inr (True, ''eligible'')"
    by (simp add: permits_new_orders_def venue_utc_def order_failures_def demo_eligibility_def days_def seconds_def Let_def)
  then show ?thesis using new_orders_imply_reduction by blast
qed

section \<open>The life cycle of a capability\<close>

text \<open>A history of transitions, each of which succeeded.\<close>

fun capability_run :: "transition_args list \<Rightarrow> VenueCapability \<Rightarrow> VenueCapability result" where
  "capability_run [] c = Inr c"
| "capability_run (a # as) c = bindE (capability_transition a c) (capability_run as)"

inductive capability_reach :: "VenueCapability \<Rightarrow> VenueCapability \<Rightarrow> bool" for c where
  start: "capability_reach c c"
| step: "capability_reach c d \<Longrightarrow> capability_transition a d = Inr e \<Longrightarrow> capability_reach c e"

inductive_cases capability_reachE: "capability_reach c e"

definition stage :: "CapabilitySupport \<Rightarrow> nat" where
  "stage s = (case s of UNAVAILABLE \<Rightarrow> 0 | DOCUMENTED \<Rightarrow> 1 | _ \<Rightarrow> 2)"

definition capability_ok :: "VenueCapability \<Rightarrow> bool" where
  "capability_ok c \<longleftrightarrow> (vc_support c = DEGRADED \<longrightarrow> vc_failure_reason c \<noteq> None \<and> vc_failure_reason c \<noteq> Some []) \<and>
     (vc_support c = LIVE_VERIFIED \<longrightarrow> vc_live_verified_at c \<noteq> None)"

text \<open>What one transition keeps and what it establishes.\<close>

lemma capability_transitionD:
  assumes "capability_transition a c = Inr d"
  shows "\<exists>t. ta_at a = Aware t \<and> vc_support d = ta_support a \<and> vc_name d = vc_name c \<and>
    vc_support d \<in> set (allowed_transitions (vc_support c)) \<and> \<not> vc_emergency_exit_approved d \<and> capability_ok d \<and>
    vc_live_verified_at d = (if ta_support a = LIVE_VERIFIED then Some t else vc_live_verified_at c) \<and>
    vc_documented_at d = or_else (vc_documented_at c) (Some t) \<and>
    (vc_implemented_at c \<noteq> None \<longrightarrow> vc_implemented_at d = vc_implemented_at c) \<and>
    (2 \<le> stage (vc_support d) \<longrightarrow> vc_implemented_at d \<noteq> None)"
proof -
  obtain t where t: "ta_at a = Aware t" using assms by (cases "ta_at a") (auto simp: capability_transition_def venue_utc_def)
  have al: "ta_support a \<in> set (allowed_transitions (vc_support c))" "ta_support a \<noteq> UNAVAILABLE"
    using assms by (cases "vc_support c"; auto simp: capability_transition_def)+
  show ?thesis
    using assms al t
    by (intro exI [of _ t]) (auto simp: capability_transition_def VenueCapability_post_init_def venue_utc_def capability_ok_def
        or_else_def stage_def split: option.splits CapabilitySupport.splits)
qed

lemma stage_mono: "s' \<in> set (allowed_transitions s) \<Longrightarrow> stage s \<le> stage s'"
  by (cases s) (auto simp: stage_def)

text \<open>
  A capability only moves forward: whatever transitions succeed, it keeps its name, never
  returns to unavailable or documented once it was implemented, keeps the time at which it was first
  documented or implemented, stays consistent (degraded with a reason, live-verified with a time),
  and never carries an emergency-exit approval over a transition.
\<close>

theorem capability_lifecycle:
  assumes "capability_reach c d"
  shows "vc_name d = vc_name c \<and> stage (vc_support c) \<le> stage (vc_support d) \<and>
    (\<forall>t. vc_documented_at c = Some t \<longrightarrow> vc_documented_at d = Some t) \<and>
    (\<forall>t. vc_implemented_at c = Some t \<longrightarrow> vc_implemented_at d = Some t) \<and>
    (d = c \<or> capability_ok d \<and> \<not> vc_emergency_exit_approved d)"
  using assms
proof (induction rule: capability_reach.induct)
  case (step d a e)
  note t = capability_transitionD [OF step.hyps(2)]
  then have "stage (vc_support d) \<le> stage (vc_support e)" using stage_mono by blast
  then show ?case using step.IH t by (auto simp: or_else_def)
qed simp

definition demo_capability :: VenueCapability where
  "demo_capability = \<lparr>vc_name = ''trades'', vc_support = IMPLEMENTED, vc_documented_at = Some 1, vc_implemented_at = Some 2,
     vc_live_verified_at = None, vc_source_url = None, vc_verification_run_id = None, vc_failure_reason = None,
     vc_emergency_exit_approved = True\<rparr>"

definition verify_args :: "instant \<Rightarrow> transition_args" where
  "verify_args t = \<lparr>ta_support = LIVE_VERIFIED, ta_at = Aware t, ta_source_url = None, ta_verification_run_id = Some ''run'',
     ta_failure_reason = None\<rparr>"

definition demo_verified :: VenueCapability where
  "demo_verified = demo_capability\<lparr>vc_support := LIVE_VERIFIED, vc_live_verified_at := Some 5,
     vc_verification_run_id := Some ''run'', vc_emergency_exit_approved := False\<rparr>"

lemma demo_verified_step: "capability_transition (verify_args 5) demo_capability = Inr demo_verified"
  by (simp add: capability_transition_def verify_args_def demo_capability_def demo_verified_def venue_utc_def or_else_def
      text_or_def VenueCapability_post_init_def)

theorem capability_lifecycle_witness:
  "capability_reach demo_capability demo_verified \<and> stage (vc_support demo_capability) \<le> stage (vc_support demo_verified) \<and>
     \<not> vc_emergency_exit_approved demo_verified"
proof -
  have "capability_reach demo_capability demo_verified"
    by (rule capability_reach.step [OF capability_reach.start demo_verified_step])
  moreover have "demo_verified \<noteq> demo_capability" by (simp add: demo_verified_def demo_capability_def)
  ultimately show ?thesis using capability_lifecycle by blast
qed

lemma capability_run_snoc: "capability_run (as @ [a]) c = bindE (capability_run as c) (capability_transition a)"
proof (induction as arbitrary: c)
  case Nil
  show ?case by (cases "capability_transition a c") simp_all
next
  case (Cons x xs)
  then show ?case by (cases "capability_transition x c") simp_all
qed

text \<open>
  Verification does not outlive a degradation: after any history of transitions, a capability
  may be used for signals, new exposure or an emergency exit only if the last transition was a live
  verification that is no older than the permitted age at the time of use.
\<close>

theorem exposure_needs_fresh_verification:
  assumes "capability_run history c = Inr d" "history \<noteq> []" "supports d use now maximum_age = Inr True"
    "use \<noteq> RESEARCH_COLLECTION"
  shows "\<exists>t u. ta_support (last history) = LIVE_VERIFIED \<and> ta_at (last history) = Aware t \<and> now = Aware u \<and>
    t \<le> u \<and> u \<le> t + maximum_age"
proof -
  obtain as a where h: "history = as @ [a]" using assms(2) by (cases history rule: rev_cases) auto
  obtain b where b: "capability_transition a b = Inr d" using assms(1) by (auto simp: h capability_run_snoc)
  obtain t where t: "ta_at a = Aware t" "vc_support d = ta_support a" "\<not> vc_emergency_exit_approved d"
    "vc_live_verified_at d = (if ta_support a = LIVE_VERIFIED then Some t else vc_live_verified_at b)"
    using capability_transitionD [OF b] by blast
  have "vc_support d = LIVE_VERIFIED \<and> (\<exists>u. now = Aware u \<and> live_is_fresh d u maximum_age)"
    using assms(3,4) t(3)
    by (cases now; cases use) (auto simp: supports_def venue_utc_def split: if_splits)
  then show ?thesis using t by (auto simp: h live_is_fresh_def)
qed

theorem exposure_needs_fresh_verification_witness:
  "\<exists>t. capability_run [verify_args 5] demo_capability = Inr demo_verified \<and>
     supports demo_verified NEW_EXPOSURE (Aware 9) 4 = Inr True \<and> ta_at (last [verify_args 5]) = Aware t \<and> t \<le> 9"
proof -
  have r: "capability_run [verify_args 5] demo_capability = Inr demo_verified" by (simp add: demo_verified_step)
  have u: "supports demo_verified NEW_EXPOSURE (Aware 9) 4 = Inr True"
    by (simp add: supports_def live_is_fresh_def demo_verified_def demo_capability_def venue_utc_def)
  show ?thesis using r u exposure_needs_fresh_verification [OF r _ u] by auto
qed

end
