(* ===== verification/Cross_Venue_Preflight.thy ===== *)
theory Cross_Venue_Preflight
  imports Decimal_Arith
begin

text \<open>
  \<open>src/app/services/live_trading/cross_venue_preflight.py\<close>: preflight bindings with their
  compare-and-set repository, and the service that issues and verifies signed preflights; and
  \<open>src/app/infrastructure/database/preflight_bindings.py\<close>: the PostgreSQL repository.

  The lock of the in-memory repository makes each call atomic, so concurrent clients are an
  interleaving of calls. Three things are parameters: the database session (\<open>database\<close>, with the
  SQL behaviour the repository relies on as \<open>database_ok\<close>), the digest of a payload (\<open>sha\<close>, canonical
  JSON followed by SHA-256) and the keyed digest (\<open>mac\<close>, HMAC-SHA-256). Where the text of a value
  is serialised, it is kept beside the value.
\<close>

section \<open>Bindings\<close>

datatype PreflightBindingState = UNBOUND | RESERVED | FIRST_LEG_ACCEPTED | SECOND_LEG_SUBMITTED
  | HEDGING_REQUIRED | RECONCILIATION_REQUIRED | BINDING_COMPLETED | ABORTED | BINDING_HALTED

fun state_value :: "PreflightBindingState \<Rightarrow> string" where
  "state_value UNBOUND = ''unbound''"
| "state_value RESERVED = ''reserved''"
| "state_value FIRST_LEG_ACCEPTED = ''first_leg_accepted''"
| "state_value SECOND_LEG_SUBMITTED = ''second_leg_submitted''"
| "state_value HEDGING_REQUIRED = ''hedging_required''"
| "state_value RECONCILIATION_REQUIRED = ''reconciliation_required''"
| "state_value BINDING_COMPLETED = ''completed''"
| "state_value ABORTED = ''aborted''"
| "state_value BINDING_HALTED = ''halted''"

definition all_states :: "PreflightBindingState list" where
  "all_states = [UNBOUND, RESERVED, FIRST_LEG_ACCEPTED, SECOND_LEG_SUBMITTED, HEDGING_REQUIRED,
     RECONCILIATION_REQUIRED, BINDING_COMPLETED, ABORTED, BINDING_HALTED]"

text \<open>\<open>PreflightBindingState(value)\<close>\<close>

definition state_of_value :: "string \<Rightarrow> PreflightBindingState result" where
  "state_of_value v = (case filter (\<lambda>s. state_value s = v) all_states of
     [] \<Rightarrow> Inl (ValueError ''not a valid PreflightBindingState'') | s # _ \<Rightarrow> Inr s)"

record PositionReconciliationSnapshot =
  ps_venue :: string
  ps_symbol :: string
  ps_quantity_before :: dec
  ps_captured_at :: instant

definition PositionReconciliationSnapshot_init ::
  "string \<Rightarrow> string \<Rightarrow> dec \<Rightarrow> datetime \<Rightarrow> PositionReconciliationSnapshot result" where
  "PositionReconciliationSnapshot_init venue symbol quantity_before captured_at =
     bindE (raise_if (venue = [] \<or> symbol = []) (ValueError ''position snapshot venue and symbol are required'')) (\<lambda>_.
     bindE (as_utc ''position snapshot timestamp must be timezone-aware'' captured_at) (\<lambda>t.
     Inr \<lparr>ps_venue = venue, ps_symbol = symbol, ps_quantity_before = quantity_before, ps_captured_at = t\<rparr>))"

record PreflightBinding =
  bi_signal_id :: string
  bi_preflight_hash :: "string option"
  bi_state :: PreflightBindingState
  bi_first_leg_role :: "string option"
  bi_first_order_request_id :: "string option"
  bi_first_external_order_id :: "string option"
  bi_second_order_request_id :: "string option"
  bi_second_external_order_id :: "string option"
  bi_version :: int
  bi_created_at :: "datetime option"
  bi_updated_at :: "datetime option"
  bi_failure_reason :: "string option"
  bi_position_snapshot :: "PositionReconciliationSnapshot option"

text \<open>\<open>now.astimezone(UTC)\<close> of a naive value takes it as local time; here it is aware.\<close>

definition new_binding :: "string \<Rightarrow> string \<Rightarrow> PreflightBindingState \<Rightarrow> instant \<Rightarrow> PreflightBinding" where
  "new_binding signal_id preflight_hash state now =
     \<lparr>bi_signal_id = signal_id, bi_preflight_hash = Some preflight_hash, bi_state = state,
      bi_first_leg_role = None, bi_first_order_request_id = None, bi_first_external_order_id = None,
      bi_second_order_request_id = None, bi_second_external_order_id = None, bi_version = 1,
      bi_created_at = Some (Aware now), bi_updated_at = Some (Aware now), bi_failure_reason = None,
      bi_position_snapshot = None\<rparr>"

section \<open>The in-memory repository\<close>

type_synonym repository = "(string, PreflightBinding) dict"

definition mem_get :: "repository \<Rightarrow> string \<Rightarrow> PreflightBinding option" where
  "mem_get bindings signal_id = map_of bindings signal_id"

definition version_of :: "PreflightBinding option \<Rightarrow> int" where
  "version_of current = (case current of None \<Rightarrow> 0 | Some b \<Rightarrow> bi_version b)"

definition mem_compare_and_set :: "string \<Rightarrow> int \<Rightarrow> PreflightBinding \<Rightarrow> repository \<Rightarrow> bool \<times> repository" where
  "mem_compare_and_set signal_id expected_version binding bindings =
     (let actual_version = version_of (map_of bindings signal_id) in
      if bi_signal_id binding \<noteq> signal_id \<or> actual_version \<noteq> expected_version \<or>
         bi_version binding \<noteq> expected_version + 1
      then (False, bindings)
      else (True, dict_set signal_id binding bindings))"

section \<open>The contract of a compare-and-set repository\<close>

text \<open>One attempt of some client: signal, expected version and the binding to store.\<close>

type_synonym attempt = "string \<times> int \<times> PreflightBinding"

text \<open>What a sequence of attempts, from any number of clients, returns call by call and leaves.\<close>

fun cas_outcomes :: "(string \<Rightarrow> int \<Rightarrow> PreflightBinding \<Rightarrow> 's \<Rightarrow> bool \<times> 's) \<Rightarrow> attempt list \<Rightarrow> 's \<Rightarrow> bool list" where
  "cas_outcomes cas [] s = []"
| "cas_outcomes cas ((k, v, b) # as) s = (case cas k v b s of (r, s') \<Rightarrow> r # cas_outcomes cas as s')"

fun cas_final :: "(string \<Rightarrow> int \<Rightarrow> PreflightBinding \<Rightarrow> 's \<Rightarrow> bool \<times> 's) \<Rightarrow> attempt list \<Rightarrow> 's \<Rightarrow> 's" where
  "cas_final cas [] s = s"
| "cas_final cas ((k, v, b) # as) s = cas_final cas as (snd (cas k v b s))"

text \<open>The attempts on a signal that succeeded.\<close>

definition cas_wins ::
  "(string \<Rightarrow> int \<Rightarrow> PreflightBinding \<Rightarrow> 's \<Rightarrow> bool \<times> 's) \<Rightarrow> string \<Rightarrow> attempt list \<Rightarrow> 's \<Rightarrow> attempt list" where
  "cas_wins cas k as s = map fst (filter (\<lambda>(a, r). r \<and> fst a = k) (zip as (cas_outcomes cas as s)))"

locale cas_repository =
  fixes get :: "'s \<Rightarrow> string \<Rightarrow> PreflightBinding option"
    and cas :: "string \<Rightarrow> int \<Rightarrow> PreflightBinding \<Rightarrow> 's \<Rightarrow> bool \<times> 's"
  assumes cas_succeeds_iff: "fst (cas k v b s) \<longleftrightarrow>
      bi_signal_id b = k \<and> version_of (get s k) = v \<and> bi_version b = v + 1"
    and cas_effect: "get (snd (cas k v b s)) = (if fst (cas k v b s) then (get s)(k \<mapsto> b) else get s)"
begin

lemma wins_Cons: "cas_wins cas k ((k', v, b) # as) s =
  (if fst (cas k' v b s) \<and> k' = k then [(k', v, b)] else []) @ cas_wins cas k as (snd (cas k' v b s))"
  by (auto simp: cas_wins_def split: prod.splits)

text \<open>The successful attempts on a signal carry consecutive versions; the last is what is stored.\<close>

lemma wins_versions:
  "map (\<lambda>a. fst (snd a)) (cas_wins cas k as s) =
     map (\<lambda>i. version_of (get s k) + int i) [0..<length (cas_wins cas k as s)] \<and>
   version_of (get (cas_final cas as s) k) = version_of (get s k) + int (length (cas_wins cas k as s)) \<and>
   get (cas_final cas as s) k = (if cas_wins cas k as s = [] then get s k else Some (snd (snd (last (cas_wins cas k as s)))))"
proof (induction as arbitrary: s)
  case (Cons a as)
  obtain k' v b where a: "a = (k', v, b)" by (cases a) auto
  let ?s = "snd (cas k' v b s)"
  show ?case
  proof (cases "fst (cas k' v b s) \<and> k' = k")
    case True
    then have "version_of (get s k) = v" "version_of (get ?s k) = v + 1" "get ?s k = Some b"
      using cas_succeeds_iff [of k' v b s] cas_effect [of k' v b s] by (auto simp: version_of_def)
    moreover have "map (\<lambda>i. v + int i) [0..<Suc n] = v # map (\<lambda>i. v + 1 + int i) [0..<n]" for n
      unfolding upt_conv_Cons [OF zero_less_Suc] map_Suc_upt [symmetric] by simp
    ultimately show ?thesis using Cons.IH [of ?s] True by (auto simp: a wins_Cons simp del: upt_Suc)
  next
    case False
    then have g: "get ?s k = get s k" using cas_effect [of k' v b s] by auto
    have w: "cas_wins cas k (a # as) s = cas_wins cas k as ?s" unfolding a wins_Cons using False by (simp only: if_False append_Nil)
    have f: "cas_final cas (a # as) s = cas_final cas as ?s" by (simp add: a)
    show ?thesis unfolding w f using Cons.IH [of ?s] unfolding g by assumption
  qed
qed (simp add: cas_wins_def)

lemma wins_distinct: "distinct (map (\<lambda>a. fst (snd a)) (cas_wins cas k as s))"
  using wins_versions [of k as s] by (simp add: distinct_map inj_on_def)

end

interpretation mem: cas_repository mem_get mem_compare_and_set
  by unfold_locales (auto simp: mem_get_def mem_compare_and_set_def Let_def fun_eq_iff)

text \<open>
  C10. No lost updates: however the calls of concurrent clients interleave, the successful
  compare-and-sets on a signal carry pairwise different, consecutive expected versions, so for each
  version at most one client wins; the stored version has advanced by exactly the number of
  successes and the stored binding is the last winner's.
\<close>

theorem cas_no_lost_update:
  "map (\<lambda>a. fst (snd a)) (cas_wins mem_compare_and_set k as s) =
     map (\<lambda>i. version_of (mem_get s k) + int i) [0..<length (cas_wins mem_compare_and_set k as s)] \<and>
   version_of (mem_get (cas_final mem_compare_and_set as s) k) = version_of (mem_get s k) + int (length (cas_wins mem_compare_and_set k as s)) \<and>
   mem_get (cas_final mem_compare_and_set as s) k =
     (if cas_wins mem_compare_and_set k as s = [] then mem_get s k else Some (snd (snd (last (cas_wins mem_compare_and_set k as s)))))"
  by (rule mem.wins_versions)

section \<open>The PostgreSQL repository\<close>

text \<open>The columns of \<open>preflight_bindings\<close>.\<close>

record PreflightBindingRow =
  r_signal_id :: string
  r_preflight_hash :: "string option"
  r_state :: string
  r_first_leg_role :: "string option"
  r_first_order_request_id :: "string option"
  r_first_external_order_id :: "string option"
  r_second_order_request_id :: "string option"
  r_second_external_order_id :: "string option"
  r_version :: int
  r_created_at :: "datetime option"
  r_updated_at :: "datetime option"
  r_failure_reason :: "string option"
  r_position_venue :: "string option"
  r_position_symbol :: "string option"
  r_position_quantity_before :: "dec option"
  r_position_captured_at :: "datetime option"

definition binding_values :: "PreflightBinding \<Rightarrow> PreflightBindingRow" where
  "binding_values b =
     \<lparr>r_signal_id = bi_signal_id b, r_preflight_hash = bi_preflight_hash b, r_state = state_value (bi_state b),
      r_first_leg_role = bi_first_leg_role b, r_first_order_request_id = bi_first_order_request_id b,
      r_first_external_order_id = bi_first_external_order_id b,
      r_second_order_request_id = bi_second_order_request_id b,
      r_second_external_order_id = bi_second_external_order_id b, r_version = bi_version b,
      r_created_at = bi_created_at b, r_updated_at = bi_updated_at b, r_failure_reason = bi_failure_reason b,
      r_position_venue = map_option ps_venue (bi_position_snapshot b),
      r_position_symbol = map_option ps_symbol (bi_position_snapshot b),
      r_position_quantity_before = map_option ps_quantity_before (bi_position_snapshot b),
      r_position_captured_at = map_option (\<lambda>p. Aware (ps_captured_at p)) (bi_position_snapshot b)\<rparr>"

definition row_snapshot :: "PreflightBindingRow \<Rightarrow> PositionReconciliationSnapshot option result" where
  "row_snapshot r =
     (case (r_position_venue r, r_position_symbol r, r_position_quantity_before r, r_position_captured_at r) of
        (Some venue, Some symbol, Some quantity, Some captured) \<Rightarrow>
          bindE (PositionReconciliationSnapshot_init venue symbol quantity
              (case captured of Naive t \<Rightarrow> Aware t | Aware t \<Rightarrow> Aware t)) (\<lambda>p. Inr (Some p))
      | _ \<Rightarrow> Inr None)"

definition to_binding :: "PreflightBindingRow \<Rightarrow> PreflightBinding result" where
  "to_binding r =
     bindE (state_of_value (r_state r)) (\<lambda>state.
     bindE (row_snapshot r) (\<lambda>snapshot.
     Inr \<lparr>bi_signal_id = r_signal_id r, bi_preflight_hash = r_preflight_hash r, bi_state = state,
          bi_first_leg_role = r_first_leg_role r, bi_first_order_request_id = r_first_order_request_id r,
          bi_first_external_order_id = r_first_external_order_id r,
          bi_second_order_request_id = r_second_order_request_id r,
          bi_second_external_order_id = r_second_external_order_id r, bi_version = r_version r,
          bi_created_at = r_created_at r, bi_updated_at = r_updated_at r,
          bi_failure_reason = r_failure_reason r, bi_position_snapshot = snapshot\<rparr>))"

text \<open>
  A session of the database: reading a row by its primary key, and the two statements, which give
  the number of rows they touched and the database to commit, or \<open>None\<close> for an \<open>IntegrityError\<close>.
\<close>

record 'db database =
  db_get :: "'db \<Rightarrow> string \<Rightarrow> PreflightBindingRow option"
  db_insert :: "PreflightBindingRow \<Rightarrow> 'db \<Rightarrow> (nat \<times> 'db) option"
  db_update :: "string \<Rightarrow> int \<Rightarrow> PreflightBindingRow \<Rightarrow> 'db \<Rightarrow> (nat \<times> 'db) option"

definition pg_get :: "'db database \<Rightarrow> 'db \<Rightarrow> string \<Rightarrow> PreflightBinding option result" where
  "pg_get db d signal_id =
     (case db_get db d signal_id of
        None \<Rightarrow> Inr None
      | Some row \<Rightarrow> bindE (to_binding row) (\<lambda>b. Inr (Some b)))"

definition pg_compare_and_set ::
  "'db database \<Rightarrow> string \<Rightarrow> int \<Rightarrow> PreflightBinding \<Rightarrow> 'db \<Rightarrow> bool \<times> 'db" where
  "pg_compare_and_set db signal_id expected_version binding d =
     (if bi_signal_id binding \<noteq> signal_id \<or> bi_version binding \<noteq> expected_version + 1 then (False, d)
      else let row = binding_values binding in
        case (if expected_version = 0 then db_insert db row d
              else db_update db signal_id expected_version row d) of
          None \<Rightarrow> (False, d)
        | Some (rowcount, d') \<Rightarrow> if rowcount \<noteq> 1 then (False, d) else (True, d'))"

text \<open>
  The rows the table accepts without loss: the check constraints hold, the texts fit their columns
  and the quantity has at most 26 digits before and 12 after the point. The bound of the \<open>INTEGER\<close>
  column of the version, which counts the successful updates of one signal, is left out.
\<close>

definition fits :: "nat \<Rightarrow> string option \<Rightarrow> bool" where
  "fits n t \<longleftrightarrow> (\<forall>x \<in> set_option t. length x \<le> n)"

definition row_ok :: "PreflightBindingRow \<Rightarrow> bool" where
  "row_ok r \<longleftrightarrow> r_state r \<in> state_value ` set all_states \<and> 1 \<le> r_version r \<and>
     (case (r_created_at r, r_updated_at r) of (Some (Aware c), Some (Aware u)) \<Rightarrow> c \<le> u | _ \<Rightarrow> False) \<and>
     length (r_signal_id r) \<le> 100 \<and> fits 64 (r_preflight_hash r) \<and> fits 20 (r_first_leg_role r) \<and>
     fits 100 (r_first_order_request_id r) \<and> fits 160 (r_first_external_order_id r) \<and>
     fits 100 (r_second_order_request_id r) \<and> fits 160 (r_second_external_order_id r) \<and>
     fits 500 (r_failure_reason r) \<and> fits 40 (r_position_venue r) \<and> fits 40 (r_position_symbol r) \<and>
     (\<forall>q \<in> set_option (r_position_quantity_before r). \<bar>q\<bar> < 10 ^ 26 \<and> q * 10 ^ 12 \<in> \<int>)"

definition database_ok :: "'db database \<Rightarrow> bool" where
  "database_ok db \<longleftrightarrow>
     (\<forall>d k r. db_get db d k = Some r \<longrightarrow> r_signal_id r = k \<and> 1 \<le> r_version r) \<and>
     (\<forall>d r. row_ok r \<longrightarrow>
        (case db_insert db r d of
           None \<Rightarrow> db_get db d (r_signal_id r) \<noteq> None
         | Some (n, d') \<Rightarrow> n = 1 \<and> db_get db d (r_signal_id r) = None \<and>
             db_get db d' = (db_get db d)(r_signal_id r \<mapsto> r))) \<and>
     (\<forall>d k v r. row_ok r \<longrightarrow> r_signal_id r = k \<longrightarrow>
        (case db_update db k v r d of
           None \<Rightarrow> False
         | Some (n, d') \<Rightarrow>
             (if \<exists>old. db_get db d k = Some old \<and> r_version old = v
              then n = 1 \<and> db_get db d' = (db_get db d)(k \<mapsto> r)
              else n = 0 \<and> db_get db d' = db_get db d)))"

definition storable :: "PreflightBinding \<Rightarrow> bool" where
  "storable b \<longleftrightarrow> row_ok (binding_values b) \<and>
     (\<forall>p \<in> set_option (bi_position_snapshot b). ps_venue p \<noteq> [] \<and> ps_symbol p \<noteq> [])"

lemma state_of_value_state [simp]: "state_of_value (state_value s) = Inr s"
  by (cases s) (simp_all add: state_of_value_def all_states_def)

text \<open>
  Nothing of a binding is lost in its row: reading back the columns written for a binding whose
  position snapshot is valid gives the same binding.
\<close>

lemma to_binding_values: "storable b \<Longrightarrow> to_binding (binding_values b) = Inr b"
  by (cases b; cases "bi_position_snapshot b")
    (auto simp: to_binding_def binding_values_def row_snapshot_def storable_def PositionReconciliationSnapshot_init_def)

lemma to_binding_fields: "to_binding r = Inr b \<Longrightarrow> bi_version b = r_version r \<and> bi_signal_id b = r_signal_id r"
  by (auto simp: to_binding_def)

text \<open>The database stands for an in-memory repository when every signal reads the same.\<close>

definition pg_rel :: "'db database \<Rightarrow> 'db \<Rightarrow> repository \<Rightarrow> bool" where
  "pg_rel db d s \<longleftrightarrow> (\<forall>k. pg_get db d k = Inr (mem_get s k))"

lemma pg_rel_cases:
  assumes "pg_rel db d s" "database_ok db"
  shows "version_of (mem_get s k) = (case db_get db d k of None \<Rightarrow> 0 | Some r \<Rightarrow> r_version r)"
    "db_get db d k = Some r \<Longrightarrow> 1 \<le> r_version r"
proof -
  have "pg_get db d k = Inr (mem_get s k)" using assms(1) by (simp add: pg_rel_def)
  then show "version_of (mem_get s k) = (case db_get db d k of None \<Rightarrow> 0 | Some r \<Rightarrow> r_version r)"
    using to_binding_fields by (auto simp: pg_get_def version_of_def split: option.splits)
  show "db_get db d k = Some r \<Longrightarrow> 1 \<le> r_version r" using assms(2) by (auto simp: database_ok_def)
qed

lemma pg_rel_stored:
  assumes "pg_rel db d s" "db_get db d' = (db_get db d)(k \<mapsto> binding_values b)" "storable b"
  shows "pg_rel db d' (dict_set k b s)"
  using assms to_binding_values [OF assms(3)] by (auto simp: pg_rel_def pg_get_def mem_get_def)

lemma pg_cas_step:
  assumes db: "database_ok db" and rel: "pg_rel db d s" and b: "storable b"
  shows "fst (pg_compare_and_set db k v b d) = fst (mem_compare_and_set k v b s) \<and>
    pg_rel db (snd (pg_compare_and_set db k v b d)) (snd (mem_compare_and_set k v b s))"
proof (cases "bi_signal_id b = k \<and> bi_version b = v + 1")
  case False
  then show ?thesis using rel by (auto simp: pg_compare_and_set_def mem_compare_and_set_def Let_def)
next
  case True
  have row: "row_ok (binding_values b)" "r_signal_id (binding_values b) = k"
    using b True by (simp_all add: storable_def binding_values_def)
  note ver = pg_rel_cases [OF rel db, of k]
  show ?thesis
  proof (cases "v = 0")
    case ins: True
    have law: "case db_insert db (binding_values b) d of None \<Rightarrow> db_get db d k \<noteq> None
      | Some (n, d') \<Rightarrow> n = 1 \<and> db_get db d k = None \<and> db_get db d' = (db_get db d)(k \<mapsto> binding_values b)"
      using db row unfolding database_ok_def by blast
    show ?thesis
      using law ver True ins rel pg_rel_stored [OF rel _ b, of _ k]
      by (fastforce simp: pg_compare_and_set_def mem_compare_and_set_def mem_get_def Let_def split: option.splits)
  next
    case upd: False
    have law: "case db_update db k v (binding_values b) d of None \<Rightarrow> False
      | Some (n, d') \<Rightarrow> (if \<exists>old. db_get db d k = Some old \<and> r_version old = v
          then n = 1 \<and> db_get db d' = (db_get db d)(k \<mapsto> binding_values b) else n = 0 \<and> db_get db d' = db_get db d)"
      using db row unfolding database_ok_def by blast
    show ?thesis
      using law ver(1) True upd rel pg_rel_stored [OF rel _ b, of _ k]
      by (auto simp: pg_compare_and_set_def mem_compare_and_set_def mem_get_def Let_def split: option.splits if_splits)
  qed
qed


section \<open>Issuing and verifying preflights\<close>

text \<open>
  A datetime or a decimal with its text, which is what the digest covers.
\<close>

type_synonym stamped = "datetime \<times> string"
type_synonym measured = "dec \<times> string"

record preflight_values =
  v_issued_at :: stamped
  v_snapshot_ids :: "string list"
  v_signal_id :: string
  v_receive_venue :: string
  v_pay_venue :: string
  v_canonical_instrument_id :: string
  v_receive_capability_hash :: string
  v_pay_capability_hash :: string
  v_receive_source_event_hash :: string
  v_pay_source_event_hash :: string
  v_receive_execution_health :: bool
  v_pay_execution_health :: bool
  v_receive_available_collateral :: measured
  v_pay_available_collateral :: measured
  v_receive_fillable_quantity :: measured
  v_pay_fillable_quantity :: measured
  v_receive_expected_vwap :: measured
  v_pay_expected_vwap :: measured
  v_maximum_naked_exposure_duration_ms :: int
  v_created_at :: stamped
  v_expires_at :: stamped

record preflight_payload =
  v_values :: preflight_values
  v_issuer_id :: string
  v_commit_sha :: string

record CrossVenueExecutionPreflight =
  cv_payload :: preflight_payload
  cv_preflight_hash :: string
  cv_signature :: string

record CrossVenuePreflightService =
  sv_issuer_id :: string
  sv_signing_key :: "nat list"
  sv_commit_sha :: string

definition CrossVenuePreflightService_init :: "string \<Rightarrow> nat list \<Rightarrow> string \<Rightarrow> CrossVenuePreflightService result" where
  "CrossVenuePreflightService_init issuer_id signing_key commit_sha =
     bindE (raise_if (issuer_id = [] \<or> length signing_key < 32 \<or> commit_sha = [])
       (ValueError ''preflight issuer, 32-byte signing key, and commit SHA are required'')) (\<lambda>_.
     Inr \<lparr>sv_issuer_id = issuer_id, sv_signing_key = signing_key, sv_commit_sha = commit_sha\<rparr>)"

record digests =
  sha :: "preflight_payload \<Rightarrow> string"
  mac :: "nat list \<Rightarrow> string \<Rightarrow> string"

definition issue ::
  "digests \<Rightarrow> CrossVenuePreflightService \<Rightarrow> preflight_values \<Rightarrow> CrossVenueExecutionPreflight result" where
  "issue h sv values =
     bindE (raise_if (v_snapshot_ids values = [] \<or> \<not> distinct (v_snapshot_ids values))
       (ValueError ''preflight snapshot ids must be non-empty and unique'')) (\<lambda>_.
     let payload = \<lparr>v_values = values, v_issuer_id = sv_issuer_id sv, v_commit_sha = sv_commit_sha sv\<rparr>;
         preflight_hash = sha h payload
     in Inr \<lparr>cv_payload = payload, cv_preflight_hash = preflight_hash,
             cv_signature = mac h (sv_signing_key sv) preflight_hash\<rparr>)"

text \<open>\<open>a <= b\<close> on datetimes raises when exactly one of them is naive.\<close>

definition datetime_le :: "datetime \<Rightarrow> datetime \<Rightarrow> bool result" where
  "datetime_le a b =
     (case (a, b) of
        (Naive x, Naive y) \<Rightarrow> Inr (x \<le> y)
      | (Aware x, Aware y) \<Rightarrow> Inr (x \<le> y)
      | _ \<Rightarrow> Inl (TypeError ''can not compare offset-naive and offset-aware datetimes''))"

definition verify ::
  "digests \<Rightarrow> CrossVenuePreflightService \<Rightarrow> CrossVenueExecutionPreflight \<Rightarrow> datetime \<Rightarrow> unit result" where
  "verify h sv p now =
     (let payload = cv_payload p; ids = v_snapshot_ids (v_values payload) in
      bindE (raise_if (v_issuer_id payload \<noteq> sv_issuer_id sv) (ValueError ''preflight issuer is not trusted'')) (\<lambda>_.
      bindE (raise_if (v_commit_sha payload \<noteq> sv_commit_sha sv)
        (ValueError ''preflight commit SHA does not match deployment'')) (\<lambda>_.
      bindE (raise_if (ids = [] \<or> \<not> distinct ids) (ValueError ''preflight snapshot ids are invalid'')) (\<lambda>_.
      bindE (datetime_le (fst (v_issued_at (v_values payload))) now) (\<lambda>in_time.
      bindE (raise_if (\<not> in_time) (ValueError ''preflight issuance is future-dated'')) (\<lambda>_.
      let actual_hash = sha h payload in
      bindE (raise_if (cv_preflight_hash p \<noteq> actual_hash) (ValueError ''preflight hash is invalid'')) (\<lambda>_.
      raise_if (cv_signature p \<noteq> mac h (sv_signing_key sv) actual_hash)
        (ValueError ''preflight signature is invalid''))))))))"

definition no_collision :: "digests \<Rightarrow> preflight_payload \<Rightarrow> preflight_payload \<Rightarrow> bool" where
  "no_collision h a b \<longleftrightarrow> (sha h a = sha h b \<longrightarrow> a = b)"

text \<open>
  C33. Issued preflights verify, and only they do under the same digest: a preflight that the service
  issued is accepted by it at every later time; conversely whatever verifies carries this service's
  issuer and commit, its own digest and the service's keyed digest of it, and if it has the digest of
  an issued preflight without being a collision of it, it is that preflight, field by field.
\<close>

theorem preflight_signing_sound:
  assumes "issue h sv values = Inr p" "v_issued_at values = (Aware t0, t)" "t0 \<le> t1"
  shows "verify h sv p (Aware t1) = Inr () \<and>
    (\<forall>q now. verify h sv q now = Inr () \<longrightarrow>
       v_issuer_id (cv_payload q) = sv_issuer_id sv \<and> v_commit_sha (cv_payload q) = sv_commit_sha sv \<and>
       cv_preflight_hash q = sha h (cv_payload q) \<and>
       cv_signature q = mac h (sv_signing_key sv) (cv_preflight_hash q) \<and>
       (cv_preflight_hash q = cv_preflight_hash p \<longrightarrow> no_collision h (cv_payload q) (cv_payload p) \<longrightarrow> q = p))"
proof (intro conjI allI impI)
  have p: "cv_payload p = \<lparr>v_values = values, v_issuer_id = sv_issuer_id sv, v_commit_sha = sv_commit_sha sv\<rparr>"
    "cv_preflight_hash p = sha h (cv_payload p)" "cv_signature p = mac h (sv_signing_key sv) (sha h (cv_payload p))"
    "v_snapshot_ids values \<noteq> []" "distinct (v_snapshot_ids values)"
    using assms(1) by (auto simp: issue_def Let_def)
  then show "verify h sv p (Aware t1) = Inr ()"
    using assms(2,3) by (simp add: verify_def datetime_le_def)
  fix q now assume "verify h sv q now = Inr ()"
  then have q: "v_issuer_id (cv_payload q) = sv_issuer_id sv" "v_commit_sha (cv_payload q) = sv_commit_sha sv"
    "cv_preflight_hash q = sha h (cv_payload q)" "cv_signature q = mac h (sv_signing_key sv) (sha h (cv_payload q))"
    by (auto simp: verify_def Let_def)
  then show "v_issuer_id (cv_payload q) = sv_issuer_id sv" "v_commit_sha (cv_payload q) = sv_commit_sha sv"
    "cv_preflight_hash q = sha h (cv_payload q)" "cv_signature q = mac h (sv_signing_key sv) (cv_preflight_hash q)"
    by simp_all
  assume "cv_preflight_hash q = cv_preflight_hash p" "no_collision h (cv_payload q) (cv_payload p)"
  then have "cv_payload q = cv_payload p" using q(3) p(2) by (simp add: no_collision_def)
  then show "q = p" using q p by (intro CrossVenueExecutionPreflight.equality) simp_all
qed

section \<open>Concrete instances\<close>

text \<open>A database as a function from primary keys to rows.\<close>

definition map_database :: "(string \<rightharpoonup> PreflightBindingRow) database" where
  "map_database = \<lparr>
     db_get = (\<lambda>d k. case d k of Some r \<Rightarrow> if r_signal_id r = k \<and> 1 \<le> r_version r then Some r else None | None \<Rightarrow> None),
     db_insert = (\<lambda>r d. case d (r_signal_id r) of
        Some old \<Rightarrow> if r_signal_id old = r_signal_id r \<and> 1 \<le> r_version old then None
                     else Some (1, d(r_signal_id r \<mapsto> r))
      | None \<Rightarrow> Some (1, d(r_signal_id r \<mapsto> r))),
     db_update = (\<lambda>k v r d. case d k of
        Some old \<Rightarrow> if r_signal_id old = k \<and> 1 \<le> r_version old \<and> r_version old = v
                     then Some (1, d(k \<mapsto> r)) else Some (0, d)
      | None \<Rightarrow> Some (0, d))\<rparr>"

lemma map_database_ok: "database_ok map_database"
proof -
  have "1 \<le> r_version r" if "row_ok r" for r using that by (simp add: row_ok_def)
  then show ?thesis
    unfolding database_ok_def map_database_def
    apply (intro conjI allI impI)
      apply (auto simp: fun_eq_iff split: option.splits if_splits)
    subgoal for d r old by (rule exI [of _ "d(r_signal_id r \<mapsto> r)"]) simp
    done
qed

definition demo_binding :: PreflightBinding where
  "demo_binding = new_binding ''sig-1'' ''hash'' RESERVED 5"

definition demo_attempts :: "attempt list" where
  "demo_attempts = [(''sig-1'', 0, demo_binding), (''sig-1'', 0, demo_binding\<lparr>bi_preflight_hash := Some ''other''\<rparr>),
     (''sig-1'', 1, demo_binding\<lparr>bi_version := 2, bi_state := FIRST_LEG_ACCEPTED\<rparr>)]"


definition demo_values :: preflight_values where
  "demo_values = \<lparr>v_issued_at = (Aware 3, ''3''), v_snapshot_ids = [''a'', ''b''], v_signal_id = ''sig-1'',
     v_receive_venue = ''hyperliquid'', v_pay_venue = ''bitget'', v_canonical_instrument_id = ''BTC'',
     v_receive_capability_hash = ''c'', v_pay_capability_hash = ''c'', v_receive_source_event_hash = ''e'',
     v_pay_source_event_hash = ''e'', v_receive_execution_health = True, v_pay_execution_health = True,
     v_receive_available_collateral = (10, ''10''), v_pay_available_collateral = (10, ''10''),
     v_receive_fillable_quantity = (1, ''1''), v_pay_fillable_quantity = (1, ''1''), v_receive_expected_vwap = (100, ''100''),
     v_pay_expected_vwap = (100, ''100''), v_maximum_naked_exposure_duration_ms = 500, v_created_at = (Aware 3, ''3''),
     v_expires_at = (Aware 9, ''9'')\<rparr>"

definition demo_digests :: digests where
  "demo_digests = \<lparr>sha = (\<lambda>p. v_pay_venue (v_values p)), mac = (\<lambda>key m. m @ ''!'')\<rparr>"

definition demo_service :: CrossVenuePreflightService where
  "demo_service = \<lparr>sv_issuer_id = ''desk'', sv_signing_key = replicate 32 7, sv_commit_sha = ''abc''\<rparr>"

theorem preflight_signing_sound_witness:
  "\<exists>p. issue demo_digests demo_service demo_values = Inr p \<and> verify demo_digests demo_service p (Aware 4) = Inr () \<and>
     (let forged = p\<lparr>cv_payload := cv_payload p\<lparr>v_values := demo_values\<lparr>v_pay_venue := ''elsewhere''\<rparr>\<rparr>\<rparr> in
        no_collision demo_digests (cv_payload forged) (cv_payload p) \<and>
        verify demo_digests demo_service forged (Aware 4) \<noteq> Inr ())"
proof -
  obtain p where p: "issue demo_digests demo_service demo_values = Inr p"
    by (simp add: issue_def demo_values_def Let_def)
  have pl: "cv_payload p = \<lparr>v_values = demo_values, v_issuer_id = ''desk'', v_commit_sha = ''abc''\<rparr>"
    using p by (auto simp: issue_def Let_def demo_service_def)
  let ?f = "p\<lparr>cv_payload := cv_payload p\<lparr>v_values := demo_values\<lparr>v_pay_venue := ''elsewhere''\<rparr>\<rparr>\<rparr>"
  have t: "v_issued_at demo_values = (Aware 3, ''3'')" by (simp add: demo_values_def)
  have nc: "no_collision demo_digests (cv_payload ?f) (cv_payload p)"
    by (simp add: no_collision_def demo_digests_def pl demo_values_def)
  have "cv_payload ?f \<noteq> cv_payload p" by (simp add: pl demo_values_def)
  then have "?f \<noteq> p" by metis
  then have "verify demo_digests demo_service ?f (Aware 4) \<noteq> Inr ()"
    using preflight_signing_sound [OF p t, of 4] nc by auto
  then show ?thesis using p nc preflight_signing_sound [OF p t, of 4] by (auto simp: Let_def)
qed

end
