(* ===== verification/Signal_Evidence.thy ===== *)
theory Signal_Evidence
  imports Venue_Models Cross_Venue_Preflight
begin

text \<open>
  The evidence a live order must carry: \<open>src/app/domain/market_data/evidence.py\<close>,
  \<open>src/app/domain/market_data/source_event_repository.py\<close>,
  \<open>src/app/domain/venues/trusted_capabilities.py\<close> (without the loader of its artifact files) and
  \<open>src/app/domain/strategies/capabilities.py\<close>.

  The digests of evidence (canonical JSON followed by SHA-256) are a parameter, \<open>evidence_digests\<close>.
  Evidence converts its datetimes to UTC when it is built, so their texts are functions of the
  instants. Stored events and trusted records do no such conversion and keep their datetimes as they are.
\<close>

section \<open>Evidence\<close>

datatype ReconciliationState = DISCONNECTED | WAITING_FOR_SNAPSHOT | BUFFERING_DELTAS | APPLYING_SNAPSHOT
  | REPLAYING_DELTAS | GAP_DETECTED | SNAPSHOT_LOADING | DELTA_REPLAYING | SYNCHRONIZED | STREAM_DEGRADED

record SourceEventEvidence =
  se_event_id :: string
  se_venue :: string
  se_symbol :: string
  se_event_type :: string
  se_exchange_timestamp :: "instant option"
  se_received_at :: instant
  se_available_at :: instant
  se_payload_sha256 :: string
  se_sequence :: "int option"
  se_connection_id :: "string option"
  se_reconciliation_state :: "ReconciliationState option"
  se_data_quality_score :: dec

text \<open>\<open>__post_init__\<close>: the given datetimes replace the instants of the record.\<close>

definition SourceEventEvidence_post_init ::
  "SourceEventEvidence \<Rightarrow> datetime option \<Rightarrow> datetime \<Rightarrow> datetime \<Rightarrow> SourceEventEvidence result" where
  "SourceEventEvidence_post_init e exchange_timestamp received_at available_at =
     bindE (case exchange_timestamp of
        None \<Rightarrow> Inr None
      | Some d \<Rightarrow> bindE (as_utc ''exchange_timestamp must be timezone-aware'' d) (\<lambda>t. Inr (Some t))) (\<lambda>x.
     bindE (as_utc ''received_at must be timezone-aware'' received_at) (\<lambda>r.
     bindE (as_utc ''available_at must be timezone-aware'' available_at) (\<lambda>a.
     bindE (raise_if (\<not> (0 \<le> se_data_quality_score e \<and> se_data_quality_score e \<le> 1))
       (ValueError ''data quality score must be between zero and one'')) (\<lambda>_.
     Inr (e\<lparr>se_exchange_timestamp := x, se_received_at := r, se_available_at := a\<rparr>)))))"

record CapabilityEvidence =
  ce_venue :: string
  ce_capability :: string
  ce_use_case :: CapabilityUseCase
  ce_support :: CapabilitySupport
  ce_verified_at :: instant
  ce_verification_run_id :: string
  ce_source_events :: "SourceEventEvidence list"
  ce_adapter_version :: string
  ce_source_version :: string
  ce_contract_fixture_sha256 :: string
  ce_audit_run_id :: string

definition CapabilityEvidence_post_init :: "CapabilityEvidence \<Rightarrow> datetime \<Rightarrow> CapabilityEvidence result" where
  "CapabilityEvidence_post_init e verified_at =
     bindE (as_utc ''verified_at must be timezone-aware'' verified_at) (\<lambda>t.
     bindE (raise_if (ce_verification_run_id e = [] \<or> ce_source_events e = [])
       (ValueError ''verification run and source events are required'')) (\<lambda>_.
     Inr (e\<lparr>ce_verified_at := t\<rparr>)))"

record SignalDataEvidence =
  sd_signal_id :: string
  sd_capabilities :: "CapabilityEvidence list"
  sd_evidence_hash :: string

record LegDataEvidence =
  le_role :: string
  le_venue :: string
  le_capabilities :: "CapabilityEvidence list"
  le_evidence_hash :: string

record CrossVenueSignalEvidence =
  xe_signal_id :: string
  xe_receive_leg :: "LegDataEvidence option"
  xe_pay_leg :: "LegDataEvidence option"
  xe_evidence_hash :: string

text \<open>The digests: of a list of capabilities, of a leg, of a whole signal, and of a text.\<close>

record evidence_digests =
  dg_capabilities :: "CapabilityEvidence list \<Rightarrow> string"
  dg_leg :: "string \<Rightarrow> string \<Rightarrow> CapabilityEvidence list \<Rightarrow> string"
  dg_signal :: "string \<Rightarrow> LegDataEvidence option \<Rightarrow> LegDataEvidence option \<Rightarrow> string"
  dg_text :: "string \<Rightarrow> string"

definition signal_build :: "evidence_digests \<Rightarrow> string \<Rightarrow> CapabilityEvidence list \<Rightarrow> SignalDataEvidence" where
  "signal_build h signal_id capabilities =
     \<lparr>sd_signal_id = signal_id, sd_capabilities = capabilities, sd_evidence_hash = dg_capabilities h capabilities\<rparr>"

definition signal_valid_hash :: "evidence_digests \<Rightarrow> SignalDataEvidence \<Rightarrow> bool" where
  "signal_valid_hash h e \<longleftrightarrow> e = signal_build h (sd_signal_id e) (sd_capabilities e)"

definition leg_build :: "evidence_digests \<Rightarrow> string \<Rightarrow> string \<Rightarrow> CapabilityEvidence list \<Rightarrow> LegDataEvidence" where
  "leg_build h role venue capabilities =
     \<lparr>le_role = role, le_venue = venue, le_capabilities = capabilities,
      le_evidence_hash = dg_leg h role venue capabilities\<rparr>"

definition leg_valid_hash :: "evidence_digests \<Rightarrow> LegDataEvidence \<Rightarrow> bool" where
  "leg_valid_hash h e \<longleftrightarrow> e = leg_build h (le_role e) (le_venue e) (le_capabilities e)"

definition cross_build ::
  "evidence_digests \<Rightarrow> string \<Rightarrow> LegDataEvidence option \<Rightarrow> LegDataEvidence option \<Rightarrow> CrossVenueSignalEvidence" where
  "cross_build h signal_id receive_leg pay_leg =
     \<lparr>xe_signal_id = signal_id, xe_receive_leg = receive_leg, xe_pay_leg = pay_leg,
      xe_evidence_hash = dg_signal h signal_id receive_leg pay_leg\<rparr>"

definition cross_valid_hash :: "evidence_digests \<Rightarrow> CrossVenueSignalEvidence \<Rightarrow> bool" where
  "cross_valid_hash h e \<longleftrightarrow> e = cross_build h (xe_signal_id e) (xe_receive_leg e) (xe_pay_leg e)"

definition evidence_leg :: "CrossVenueSignalEvidence \<Rightarrow> string \<Rightarrow> LegDataEvidence option" where
  "evidence_leg e role =
     (if role = ''receive_leg'' then xe_receive_leg e
      else if role = ''pay_leg'' then xe_pay_leg e else None)"

record RejectedEvidence =
  re_signal_id :: string
  re_reason :: string
  re_missing_capabilities :: "string list"

text \<open>
  A dictionary comprehension keeps the last value of a repeated key. \<open>now.astimezone(UTC)\<close> of a
  naive value takes it as local time; here \<open>now\<close> is an instant.
\<close>

definition capability_index :: "CapabilityEvidence list \<Rightarrow> (string \<times> string, CapabilityEvidence) dict" where
  "capability_index cs = fold (\<lambda>c. dict_set (ce_venue c, ce_capability c) c) cs []"

definition capability_usable :: "(string \<times> string, CapabilityEvidence) dict \<Rightarrow> string \<Rightarrow> instant \<Rightarrow> int \<Rightarrow> string \<Rightarrow> bool" where
  "capability_usable available venue now maximum_age_seconds name =
     (case map_of available (venue, name) of
        None \<Rightarrow> False
      | Some c \<Rightarrow> ce_use_case c = SIGNAL_GENERATION \<and> ce_support c = LIVE_VERIFIED \<and>
          0 \<le> now - ce_verified_at c \<and> now - ce_verified_at c \<le> seconds maximum_age_seconds)"

definition require_signal_capabilities ::
  "evidence_digests \<Rightarrow> string \<Rightarrow> SignalDataEvidence \<Rightarrow> string list \<Rightarrow> string \<Rightarrow> instant \<Rightarrow> int \<Rightarrow> RejectedEvidence option" where
  "require_signal_capabilities h signal_id evidence required venue now maximum_age_seconds =
     (let keys = map (\<lambda>c. (ce_venue c, ce_capability c)) (sd_capabilities evidence);
          rejected = (\<lambda>reason missing. Some \<lparr>re_signal_id = signal_id, re_reason = reason, re_missing_capabilities = missing\<rparr>)
      in if \<not> distinct keys then rejected ''duplicate venue and capability evidence'' required
      else let available = capability_index (sd_capabilities evidence);
               missing = filter (\<lambda>n. \<not> capability_usable available venue now maximum_age_seconds n) required
      in if sd_signal_id evidence \<noteq> signal_id \<or> \<not> signal_valid_hash h evidence
         then rejected ''invalid signal evidence identity or hash'' required
      else if missing \<noteq> [] then rejected ''capability evidence is missing or stale'' missing
      else None)"

section \<open>Stored source events\<close>

record StoredSourceEvent =
  so_event_id :: string
  so_venue :: string
  so_symbol :: string
  so_event_type :: string
  so_exchange_timestamp :: "datetime option"
  so_received_at :: datetime
  so_available_at :: datetime
  so_payload_sha256 :: string
  so_sequence :: "int option"
  so_connection_id :: "string option"
  so_reconciliation_state :: "ReconciliationState option"
  so_data_quality_score :: dec

section \<open>Trusted capability records\<close>

record TrustedCapabilityRecord =
  tr_venue :: string
  tr_capability :: string
  tr_support :: CapabilitySupport
  tr_verification_run_id :: string
  tr_verified_at :: datetime
  tr_expires_at :: datetime
  tr_adapter_version :: string
  tr_source_version :: string
  tr_contract_fixture_sha256 :: string
  tr_audit_run_id :: string
  tr_canonical_instrument_id :: string

type_synonym TrustedCapabilityRegistry = "(string \<times> string \<times> string, TrustedCapabilityRecord) dict"

definition TrustedCapabilityRegistry_init :: "TrustedCapabilityRecord list \<Rightarrow> TrustedCapabilityRegistry result" where
  "TrustedCapabilityRegistry_init records =
     (let index = fold (\<lambda>r. dict_set (tr_venue r, tr_capability r, tr_canonical_instrument_id r) r) records [] in
      bindE (raise_if (length index \<noteq> length records) (ValueError ''duplicate trusted capability records'')) (\<lambda>_.
      Inr index))"

definition trusted_record :: "TrustedCapabilityRegistry \<Rightarrow> string \<Rightarrow> string \<Rightarrow> string \<Rightarrow> TrustedCapabilityRecord option" where
  "trusted_record reg venue capability instrument =
     (case map_of reg (venue, capability, instrument) of
        Some exact \<Rightarrow> Some exact
      | None \<Rightarrow> map_of reg (venue, capability, ''*''))"

text \<open>\<open>record.verified_at <= current <= record.expires_at\<close>, evaluated from the left.\<close>

definition record_current :: "TrustedCapabilityRecord \<Rightarrow> instant \<Rightarrow> bool result" where
  "record_current r current =
     bindE (datetime_le (tr_verified_at r) (Aware current)) (\<lambda>started.
     if \<not> started then Inr False else datetime_le (Aware current) (tr_expires_at r))"

definition trusted_require ::
  "TrustedCapabilityRegistry \<Rightarrow> string \<Rightarrow> string \<Rightarrow> string \<Rightarrow> instant \<Rightarrow> CapabilityUseCase \<Rightarrow> instant \<Rightarrow> string \<Rightarrow>
   TrustedCapabilityRecord result" where
  "trusted_require reg venue capability verification_run_id verified_at use_case now instrument =
     (case trusted_record reg venue capability instrument of
        None \<Rightarrow> Inl (ValueError ''trusted capability record is missing'')
      | Some r \<Rightarrow>
          bindE (raise_if (tr_support r \<noteq> LIVE_VERIFIED) (ValueError ''trusted capability is not LIVE_VERIFIED'')) (\<lambda>_.
          bindE (raise_if (tr_verification_run_id r \<noteq> verification_run_id)
            (ValueError ''verification run id is not trusted'')) (\<lambda>_.
          bindE (raise_if (tr_verified_at r \<noteq> Aware verified_at)
            (ValueError ''capability verification timestamp does not match trusted record'')) (\<lambda>_.
          bindE (record_current r now) (\<lambda>current.
          bindE (raise_if (\<not> current) (ValueError ''trusted capability record is expired or future-dated'')) (\<lambda>_.
          bindE (raise_if (use_case \<notin> {NEW_EXPOSURE, EMERGENCY_EXIT})
            (ValueError ''capability use case is not executable'')) (\<lambda>_.
          Inr r)))))))"

definition require_live_verified ::
  "TrustedCapabilityRegistry \<Rightarrow> string \<Rightarrow> string \<Rightarrow> instant \<Rightarrow> string \<Rightarrow> TrustedCapabilityRecord result" where
  "require_live_verified reg venue capability now instrument =
     (case trusted_record reg venue capability instrument of
        None \<Rightarrow> Inl (ValueError ''trusted capability record is missing'')
      | Some r \<Rightarrow>
          bindE (raise_if (tr_support r \<noteq> LIVE_VERIFIED) (ValueError ''trusted capability is not LIVE_VERIFIED'')) (\<lambda>_.
          bindE (record_current r now) (\<lambda>current.
          bindE (raise_if (\<not> current) (ValueError ''trusted capability record is expired or future-dated'')) (\<lambda>_.
          Inr r))))"

section \<open>What a strategy requires\<close>

record RequiredVenueCapability =
  rv_venue_role :: string
  rv_capability :: string

definition FUNDING_CARRY_REQUIRED_CAPABILITIES :: "string list" where
  "FUNDING_CARRY_REQUIRED_CAPABILITIES = [''funding_current'', ''orderbook_snapshot'']"

definition required_for :: "string list \<Rightarrow> string list \<Rightarrow> RequiredVenueCapability list" where
  "required_for roles capabilities =
     concat (map (\<lambda>role. map (\<lambda>c. \<lparr>rv_venue_role = role, rv_capability = c\<rparr>) capabilities) roles)"

definition STRATEGY_CAPABILITY_REGISTRY :: "(string \<times> string, RequiredVenueCapability list) dict" where
  "STRATEGY_CAPABILITY_REGISTRY =
     [((''funding_carry'', ''1''),
         required_for [''receive_leg'', ''pay_leg''] FUNDING_CARRY_REQUIRED_CAPABILITIES),
      ((''cross_venue_basis'', ''1''),
         required_for [''receive_leg'', ''pay_leg''] [''orderbook_snapshot'', ''index_price'']),
      ((''liquidation_exhaustion'', ''1''),
         required_for [''order_leg''] [''market_liquidation_stream'', ''open_interest'', ''trades''])]"

definition FUNDING_CARRY_SHADOW_ALLOWED_INSTRUMENTS :: "string list" where
  "FUNDING_CARRY_SHADOW_ALLOWED_INSTRUMENTS = [''BTC'', ''SOL'']"

definition validate_shadow_instruments :: "string list \<Rightarrow> unit result" where
  "validate_shadow_instruments instruments =
     raise_if (instruments = [] \<or> \<not> distinct instruments \<or>
         \<not> set instruments \<subseteq> set FUNDING_CARRY_SHADOW_ALLOWED_INSTRUMENTS)
       (ValueError ''shadow instruments must be a non-empty unique subset of BTC/SOL'')"

end
