(* ===== verification/Live_Models.thy ===== *)
theory Live_Models
  imports Signal_Evidence Execution_Models
begin

text \<open>
  \<open>src/app/domain/execution/live_models.py\<close>: the order requests, acknowledgements, reconciled orders,
  fills, positions and audit events that pass between the live gateway and an execution adapter, with
  the validators of every class. A class whose field constraints fail raises one \<open>ValidationError\<close>,
  a \<open>ValueError\<close>.
\<close>

datatype LiveOrderState = Live_accepted | Live_rejected | Live_dry_run | Live_canceled

datatype ReconciledOrderStatus = Rec_pending | Rec_open | Rec_partially_filled | Rec_filled | Rec_canceled
  | Rec_rejected | Rec_expired

datatype PreflightRecoveryAction = Recover_alternate_hedge | Recover_partial_hedge | Recover_first_leg_unwind

section \<open>Order requests\<close>

record LiveOrderRequest =
  lo_request_id :: string
  lo_idempotency_key :: string
  lo_signal_id :: string
  lo_strategy_id :: string
  lo_strategy_version :: string
  lo_cross_venue_signal_evidence :: CrossVenueSignalEvidence
  lo_cross_venue_signal_hash :: string
  lo_order_leg_role :: string
  lo_order_leg_evidence :: LegDataEvidence
  lo_cross_venue_preflight :: CrossVenueExecutionPreflight
  lo_preflight_recovery_action :: "PreflightRecoveryAction option"
  lo_required_capabilities :: "string list"
  lo_risk_decision_id :: string
  lo_model_version :: string
  lo_config_version :: string
  lo_exchange :: string
  lo_symbol :: string
  lo_side :: Side
  lo_quantity :: dec
  lo_reference_price :: dec
  lo_maximum_slippage_bps :: dec
  lo_order_type :: OrderType
  lo_limit_price :: "dec option"
  lo_reduce_only :: bool
  lo_created_at :: instant
  lo_expires_at :: instant

definition text_within :: "nat \<Rightarrow> nat \<Rightarrow> string \<Rightarrow> bool" where
  "text_within lo hi t \<longleftrightarrow> lo \<le> length t \<and> length t \<le> hi"

definition request_fields_ok :: "LiveOrderRequest \<Rightarrow> bool" where
  "request_fields_ok r \<longleftrightarrow>
     text_within 8 100 (lo_request_id r) \<and> text_within 16 128 (lo_idempotency_key r) \<and>
     text_within 8 100 (lo_signal_id r) \<and> text_within 1 100 (lo_strategy_id r) \<and>
     text_within 1 40 (lo_strategy_version r) \<and> text_within 64 64 (lo_cross_venue_signal_hash r) \<and>
     lo_order_leg_role r \<in> {''receive_leg'', ''pay_leg''} \<and> lo_required_capabilities r \<noteq> [] \<and>
     text_within 8 100 (lo_risk_decision_id r) \<and> text_within 1 100 (lo_model_version r) \<and>
     text_within 1 100 (lo_config_version r) \<and> text_within 1 40 (lo_exchange r) \<and> text_within 1 40 (lo_symbol r) \<and>
     0 < lo_quantity r \<and> 0 < lo_reference_price r \<and>
     0 < lo_maximum_slippage_bps r \<and> lo_maximum_slippage_bps r \<le> 100 \<and>
     (\<forall>p \<in> set_option (lo_limit_price r). 0 < p)"

text \<open>Construction: field constraints, then the timestamps, then \<open>validate_order\<close>.\<close>

definition LiveOrderRequest_validate :: "LiveOrderRequest \<Rightarrow> datetime \<Rightarrow> datetime \<Rightarrow> LiveOrderRequest result" where
  "LiveOrderRequest_validate r created_at expires_at =
     bindE (raise_if (\<not> request_fields_ok r) (ValueError ''field constraint'')) (\<lambda>_.
     bindE (as_utc ''live order timestamps must be timezone-aware'' created_at) (\<lambda>c.
     bindE (as_utc ''live order timestamps must be timezone-aware'' expires_at) (\<lambda>x.
     bindE (raise_if (x \<le> c) (ValueError ''live order expiry must follow creation'')) (\<lambda>_.
     bindE (raise_if (lo_order_type r = LIMIT \<and> lo_limit_price r = None)
       (ValueError ''limit live orders require limit_price'')) (\<lambda>_.
     bindE (raise_if (lo_order_type r = MARKET \<and> lo_limit_price r \<noteq> None)
       (ValueError ''market live orders cannot specify limit_price'')) (\<lambda>_.
     Inr (r\<lparr>lo_created_at := c, lo_expires_at := x\<rparr>)))))))"

definition reference_notional :: "LiveOrderRequest \<Rightarrow> dec" where
  "reference_notional r = dmul (lo_quantity r) (lo_reference_price r)"

section \<open>Acknowledgements\<close>

record ExecutionOrderAck =
  ak_request_id :: string
  ak_external_order_id :: "string option"
  ak_state :: LiveOrderState
  ak_accepted_at :: instant
  ak_reason :: string
  ak_adapter_called :: bool

definition ExecutionOrderAck_validate :: "ExecutionOrderAck \<Rightarrow> datetime \<Rightarrow> ExecutionOrderAck result" where
  "ExecutionOrderAck_validate a accepted_at =
     bindE (as_utc ''ack timestamp must be timezone-aware'' accepted_at) (\<lambda>t.
     bindE (if ak_state a = Live_accepted
       then raise_if (\<not> ak_adapter_called a \<or> ak_external_order_id a \<in> {None, Some []})
         (ValueError ''accepted live orders require adapter_called and an external_order_id'')
       else raise_if (ak_external_order_id a \<noteq> None \<and> \<not> ak_adapter_called a)
         (ValueError ''an external_order_id requires an adapter call'')) (\<lambda>_.
     Inr (a\<lparr>ak_accepted_at := t\<rparr>)))"

record CancelAck =
  ca_external_order_id :: string
  ca_canceled :: bool
  ca_timestamp :: instant
  ca_reason :: string

definition CancelAck_validate :: "CancelAck \<Rightarrow> datetime \<Rightarrow> CancelAck result" where
  "CancelAck_validate a timestamp =
     bindE (as_utc ''cancel timestamp must be timezone-aware'' timestamp) (\<lambda>t. Inr (a\<lparr>ca_timestamp := t\<rparr>))"

section \<open>What an exchange reports\<close>

record LiveOpenOrder =
  oo_client_order_id :: string
  oo_external_order_id :: string
  oo_exchange :: string
  oo_symbol :: string
  oo_side :: Side
  oo_quantity :: dec
  oo_filled_quantity :: dec
  oo_price :: dec
  oo_reduce_only :: bool
  oo_created_at :: instant

definition LiveOpenOrder_validate :: "LiveOpenOrder \<Rightarrow> datetime \<Rightarrow> LiveOpenOrder result" where
  "LiveOpenOrder_validate q created_at =
     bindE (raise_if (oo_client_order_id q = [] \<or> oo_external_order_id q = [] \<or> oo_exchange q = [] \<or> oo_symbol q = [] \<or>
         oo_quantity q \<le> 0 \<or> oo_filled_quantity q < 0 \<or> oo_price q \<le> 0) (ValueError ''field constraint'')) (\<lambda>_.
     bindE (as_utc ''open-order timestamp must be timezone-aware'' created_at) (\<lambda>t.
     bindE (raise_if (oo_filled_quantity q > oo_quantity q)
       (ValueError ''filled quantity cannot exceed order quantity'')) (\<lambda>_.
     Inr (q\<lparr>oo_created_at := t\<rparr>))))"

record ExecutionFill =
  xf_fill_id :: string
  xf_exchange_order_id :: string
  xf_client_order_id :: string
  xf_exchange :: string
  xf_symbol :: string
  xf_side :: Side
  xf_price :: dec
  xf_quantity :: dec
  xf_signed_fee :: dec
  xf_executed_at :: instant
  xf_liquidity_role :: "string option"

definition ExecutionFill_post_init :: "ExecutionFill \<Rightarrow> datetime \<Rightarrow> ExecutionFill result" where
  "ExecutionFill_post_init f executed_at =
     bindE (raise_if (xf_fill_id f = [] \<or> xf_exchange_order_id f = [] \<or> xf_client_order_id f = [] \<or>
         xf_exchange f = [] \<or> xf_symbol f = []) (ValueError ''fill and order identities are required'')) (\<lambda>_.
     bindE (raise_if (xf_price f \<le> 0 \<or> xf_quantity f \<le> 0) (ValueError ''fill price and quantity are invalid'')) (\<lambda>_.
     bindE (as_utc ''fill timestamp must be timezone-aware'' executed_at) (\<lambda>t.
     Inr (f\<lparr>xf_executed_at := t\<rparr>))))"

record ReconciledOrder =
  ro_client_order_id :: string
  ro_external_order_id :: string
  ro_exchange :: string
  ro_symbol :: string
  ro_side :: Side
  ro_original_quantity :: dec
  ro_filled_quantity :: dec
  ro_average_fill_price :: "dec option"
  ro_reduce_only :: bool
  ro_status :: ReconciledOrderStatus
  ro_created_at :: instant
  ro_updated_at :: instant

definition ReconciledOrder_post_init :: "ReconciledOrder \<Rightarrow> datetime \<Rightarrow> datetime \<Rightarrow> ReconciledOrder result" where
  "ReconciledOrder_post_init q created_at updated_at =
     bindE (raise_if (ro_client_order_id q = [] \<or> ro_external_order_id q = [] \<or> ro_exchange q = [] \<or> ro_symbol q = [])
       (ValueError ''reconciled order identities are required'')) (\<lambda>_.
     bindE (raise_if (ro_original_quantity q \<le> 0 \<or> ro_filled_quantity q < 0 \<or>
         ro_filled_quantity q > ro_original_quantity q) (ValueError ''reconciled order quantities are invalid'')) (\<lambda>_.
     bindE (raise_if (case ro_average_fill_price q of None \<Rightarrow> False | Some p \<Rightarrow> p \<le> 0)
       (ValueError ''average fill price must be positive'')) (\<lambda>_.
     bindE (raise_if (ro_filled_quantity q > 0 \<and> ro_average_fill_price q = None)
       (ValueError ''filled reconciled orders require an average fill price'')) (\<lambda>_.
     bindE (as_utc ''reconciled order timestamps must be timezone-aware'' created_at) (\<lambda>c.
     bindE (as_utc ''reconciled order timestamps must be timezone-aware'' updated_at) (\<lambda>u.
     bindE (raise_if (u < c) (ValueError ''reconciled order update cannot precede creation'')) (\<lambda>_.
     Inr (q\<lparr>ro_created_at := c, ro_updated_at := u\<rparr>))))))))"

record LivePosition =
  lp_exchange :: string
  lp_symbol :: string
  lp_quantity :: dec
  lp_mark_price :: dec
  lp_unrealized_pnl :: dec
  lp_observed_at :: instant

definition LivePosition_validate :: "LivePosition \<Rightarrow> datetime \<Rightarrow> LivePosition result" where
  "LivePosition_validate p observed_at =
     bindE (raise_if (lp_mark_price p \<le> 0) (ValueError ''field constraint'')) (\<lambda>_.
     bindE (as_utc ''position timestamp must be timezone-aware'' observed_at) (\<lambda>t.
     Inr (p\<lparr>lp_observed_at := t\<rparr>)))"

section \<open>Audit events\<close>

text \<open>A detail is a text, or an amount that the code formats with \<open>str\<close>.\<close>

datatype detail = Text_detail string | Amount_detail dec

record ExecutionAuditEvent =
  ea_event_id :: string
  ea_timestamp :: instant
  ea_event_type :: string
  ea_request_id :: "string option"
  ea_allowed :: bool
  ea_reason :: string
  ea_model_version :: string
  ea_config_version :: string
  ea_details :: "(string, detail) dict"

section \<open>Identifiers of risk decisions\<close>

text \<open>
  \<open>isoformat()\<close> of a UTC datetime: the civil date of the days since 1970-01-01 in the proleptic
  Gregorian calendar, the time of day, and six digits of microseconds when they are not zero.
\<close>

definition civil_date :: "int \<Rightarrow> int \<times> int \<times> int" where
  "civil_date z0 =
     (let z = z0 + 719468; era = z div 146097; doe = z mod 146097;
          yoe = (doe - doe div 1460 + doe div 36524 - doe div 146096) div 365;
          doy = doe - (365 * yoe + yoe div 4 - yoe div 100);
          mp = (5 * doy + 2) div 153;
          d = doy - (153 * mp + 2) div 5 + 1;
          m = (if mp < 10 then mp + 3 else mp - 9)
      in (yoe + era * 400 + (if m \<le> 2 then 1 else 0), m, d))"

definition padded :: "nat \<Rightarrow> int \<Rightarrow> string" where
  "padded w n = zfill w (str_nat (nat n))"

definition isoformat :: "instant \<Rightarrow> string" where
  "isoformat t =
     (let (y, m, d) = civil_date (t div 86400000000); u = t mod 86400000000;
          secs = u div 1000000; micro = u mod 1000000
      in padded 4 y @ ''-'' @ padded 2 m @ ''-'' @ padded 2 d @ ''T'' @ padded 2 (secs div 3600) @ '':'' @
         padded 2 (secs div 60 mod 60) @ '':'' @ padded 2 (secs mod 60) @
         (if micro = 0 then [] else ''.'' @ padded 6 micro) @ ''+00:00'')"

text \<open>\<open>f"risk:{signal_id}:{timestamp.isoformat()}"\<close>\<close>

definition decision_id_text :: "string \<times> instant \<Rightarrow> string" where
  "decision_id_text i = ''risk:'' @ fst i @ '':'' @ isoformat (snd i)"

end
