(* ===== verification/Gateway_Bindings.thy ===== *)
theory Gateway_Bindings
  imports Live_Models
begin

text \<open>
  The preflight bindings of \<open>src/app/services/live_trading/gateway.py\<close>: how an order reserves,
  acknowledges, aborts and reconciles the binding of its signal, and how a snapshot of the exchange
  decides what became of a submitted order.

  The world is the binding repository, as the in-memory repository (which the PostgreSQL one refines),
  beside whatever else the exchange adapter acts on. The adapter, which talks to an exchange, is a
  parameter: each call maps a world to an answer or an exception and a new world, so whatever other
  tasks and processes do while the call is awaited is part of its effect. \<open>others\<close> is what other
  processes do to the world around a compare-and-set.
\<close>

section \<open>The world and the adapter\<close>

record 'x world =
  wo_bindings :: repository
  wo_exchange :: 'x

record 'x environment =
  ad_name :: string
  ad_is_concrete :: bool
  ad_callable :: "string \<Rightarrow> bool"
  ad_health_check :: "'x world \<Rightarrow> (bool, 'x world) outcome"
  ad_place_order :: "LiveOrderRequest \<Rightarrow> 'x world \<Rightarrow> (ExecutionOrderAck, 'x world) outcome"
  ad_cancel_order :: "string \<Rightarrow> 'x world \<Rightarrow> (CancelAck, 'x world) outcome"
  ad_cancel_all_orders :: "'x world \<Rightarrow> (CancelAck list, 'x world) outcome"
  ad_fetch_open_orders :: "string option \<Rightarrow> 'x world \<Rightarrow> (LiveOpenOrder list, 'x world) outcome"
  ad_fetch_positions :: "'x world \<Rightarrow> (LivePosition list, 'x world) outcome"
  ad_fetch_recent_fills :: "string \<Rightarrow> instant \<Rightarrow> 'x world \<Rightarrow> (ExecutionFill list, 'x world) outcome"
  ad_lookup_order :: "string \<Rightarrow> 'x world \<Rightarrow> (ReconciledOrder option, 'x world) outcome"
  ad_close_position :: "string \<Rightarrow> 'x world \<Rightarrow> (ExecutionOrderAck, 'x world) outcome"
  others :: "'x world \<Rightarrow> 'x world"
  uuid_text :: "nat \<Rightarrow> string"
  evidence_hashes :: evidence_digests
  preflight_hashes :: digests

section \<open>Reading and replacing a binding\<close>

definition unbound :: "string \<Rightarrow> PreflightBinding" where
  "unbound signal_id =
     \<lparr>bi_signal_id = signal_id, bi_preflight_hash = None, bi_state = UNBOUND, bi_first_leg_role = None,
      bi_first_order_request_id = None, bi_first_external_order_id = None, bi_second_order_request_id = None,
      bi_second_external_order_id = None, bi_version = 0, bi_created_at = None, bi_updated_at = None,
      bi_failure_reason = None, bi_position_snapshot = None\<rparr>"

definition preflight_binding :: "string \<Rightarrow> 'x world \<Rightarrow> PreflightBinding" where
  "preflight_binding signal_id w =
     (case mem_get (wo_bindings w) signal_id of None \<Rightarrow> unbound signal_id | Some b \<Rightarrow> b)"

definition cas_binding ::
  "'x environment \<Rightarrow> PreflightBinding \<Rightarrow> PreflightBinding \<Rightarrow> 'x world \<Rightarrow> bool \<times> 'x world" where
  "cas_binding env current binding w =
     (let w1 = others env w;
          (ok, bindings) = mem_compare_and_set (bi_signal_id binding) (bi_version current) binding (wo_bindings w1)
      in (ok, others env (w1\<lparr>wo_bindings := bindings\<rparr>)))"

text \<open>\<open>_transition\<close>; \<open>updates\<close> stands for its keyword arguments.\<close>

definition bind_transition ::
  "'x environment \<Rightarrow> PreflightBinding \<Rightarrow> PreflightBindingState \<Rightarrow> instant \<Rightarrow> string option \<Rightarrow>
   (PreflightBinding \<Rightarrow> PreflightBinding) \<Rightarrow> 'x world \<Rightarrow> (unit, 'x world) outcome" where
  "bind_transition env current state timestamp failure_reason updates w =
     (let binding = updates (current\<lparr>bi_state := state, bi_version := bi_version current + 1,
            bi_updated_at := Some (Aware timestamp), bi_failure_reason := failure_reason\<rparr>)
      in case cas_binding env current binding w of
           (True, w') \<Rightarrow> (Inr (), w')
         | (False, w') \<Rightarrow> (Inl (ExecutionAdapterError ''preflight binding CAS conflict''), w'))"

section \<open>Reserving a binding for an order\<close>

definition hedging_operation_allowed :: "PreflightBinding \<Rightarrow> LiveOrderRequest \<Rightarrow> bool" where
  "hedging_operation_allowed current request =
     (let opposite_leg = bi_first_leg_role current \<noteq> Some (lo_order_leg_role request) in
      case lo_preflight_recovery_action request of
        None \<Rightarrow> opposite_leg
      | Some Recover_alternate_hedge \<Rightarrow> opposite_leg
      | Some Recover_partial_hedge \<Rightarrow> opposite_leg
      | Some Recover_first_leg_unwind \<Rightarrow> lo_reduce_only request \<and> \<not> opposite_leg)"

definition request_hash :: "LiveOrderRequest \<Rightarrow> string" where
  "request_hash request = cv_preflight_hash (lo_cross_venue_preflight request)"

definition cas_answer :: "bool \<times> 'x world \<Rightarrow> string option \<times> 'x world" where
  "cas_answer r = (if fst r then None else Some ''preflight binding CAS conflict'', snd r)"

definition second_leg_binding :: "PreflightBinding \<Rightarrow> LiveOrderRequest \<Rightarrow> instant \<Rightarrow> PreflightBinding" where
  "second_leg_binding current request timestamp =
     current\<lparr>bi_state := SECOND_LEG_SUBMITTED, bi_second_order_request_id := Some (lo_request_id request),
       bi_version := bi_version current + 1, bi_updated_at := Some (Aware timestamp), bi_failure_reason := None\<rparr>"

definition reserve_preflight ::
  "'x environment \<Rightarrow> LiveOrderRequest \<Rightarrow> instant \<Rightarrow> 'x world \<Rightarrow> string option \<times> 'x world" where
  "reserve_preflight env request timestamp w =
     (let current = preflight_binding (lo_signal_id request) w;
          action = lo_preflight_recovery_action request
      in if bi_state current \<in> {UNBOUND, ABORTED} then
           (if action \<noteq> None then (Some ''recovery action is invalid without unmatched exposure'', w)
            else let fresh = new_binding (lo_signal_id request) (request_hash request) RESERVED timestamp;
                     binding = (if bi_state current = ABORTED
                       then fresh\<lparr>bi_version := bi_version current + 1, bi_created_at := bi_created_at current\<rparr>
                       else fresh)
                 in cas_answer (cas_binding env current binding w))
         else if bi_preflight_hash current \<noteq> Some (request_hash request)
         then (Some ''cross-venue orders use different preflight hashes'', w)
         else case bi_state current of
           FIRST_LEG_ACCEPTED \<Rightarrow>
             if bi_first_leg_role current = Some (lo_order_leg_role request)
             then (Some ''cross-venue second order must use the opposite leg role'', w)
             else if action \<noteq> None then (Some ''recovery action is invalid before a hedge failure'', w)
             else cas_answer (cas_binding env current (second_leg_binding current request timestamp) w)
         | HEDGING_REQUIRED \<Rightarrow>
             if \<not> hedging_operation_allowed current request
             then (Some ''hedging-required binding only permits retry, hedge, unwind, or manual halt'', w)
             else cas_answer (cas_binding env current (second_leg_binding current request timestamp) w)
         | BINDING_COMPLETED \<Rightarrow> (Some ''cross-venue preflight binding is already completed'', w)
         | RECONCILIATION_REQUIRED \<Rightarrow> (Some ''cross-venue preflight binding requires reconciliation'', w)
         | BINDING_HALTED \<Rightarrow> (Some ''cross-venue preflight binding is halted'', w)
         | s \<Rightarrow> (Some (''cross-venue preflight binding is '' @ state_value s), w))"

section \<open>After the reservation\<close>

definition abort_preflight ::
  "'x environment \<Rightarrow> LiveOrderRequest \<Rightarrow> instant \<Rightarrow> string \<Rightarrow> 'x world \<Rightarrow> (unit, 'x world) outcome" where
  "abort_preflight env request timestamp failure_reason w =
     bind_transition env (preflight_binding (lo_signal_id request) w) ABORTED timestamp (Some failure_reason) id w"

definition record_preflight_ack ::
  "'x environment \<Rightarrow> LiveOrderRequest \<Rightarrow> ExecutionOrderAck \<Rightarrow> instant \<Rightarrow> 'x world \<Rightarrow> (unit, 'x world) outcome" where
  "record_preflight_ack env request receipt timestamp w =
     (let current = preflight_binding (lo_signal_id request) w in
      if ak_state receipt \<noteq> Live_accepted then
        bind_transition env current
          (if bi_state current = SECOND_LEG_SUBMITTED then HEDGING_REQUIRED else ABORTED)
          timestamp (Some (ak_reason receipt)) id w
      else if bi_state current = SECOND_LEG_SUBMITTED then
        bind_transition env current BINDING_COMPLETED timestamp None
          (\<lambda>b. b\<lparr>bi_second_external_order_id := ak_external_order_id receipt\<rparr>) w
      else
        bind_transition env current FIRST_LEG_ACCEPTED timestamp None
          (\<lambda>b. b\<lparr>bi_first_leg_role := Some (lo_order_leg_role request),
                bi_first_order_request_id := Some (lo_request_id request),
                bi_first_external_order_id := ak_external_order_id receipt\<rparr>) w)"

definition mark_reconciliation_required ::
  "'x environment \<Rightarrow> LiveOrderRequest \<Rightarrow> instant \<Rightarrow> string \<Rightarrow> 'x world \<Rightarrow> (unit, 'x world) outcome" where
  "mark_reconciliation_required env request timestamp failure_reason w =
     (let current = preflight_binding (lo_signal_id request) w in
      if bi_state current = RESERVED then
        bind_transition env current RECONCILIATION_REQUIRED timestamp (Some failure_reason)
          (\<lambda>b. b\<lparr>bi_first_order_request_id := Some (lo_request_id request)\<rparr>) w
      else if bi_state current = SECOND_LEG_SUBMITTED then
        bind_transition env current RECONCILIATION_REQUIRED timestamp (Some failure_reason)
          (\<lambda>b. b\<lparr>bi_second_order_request_id := Some (lo_request_id request)\<rparr>) w
      else (Inr (), w))"

definition record_position_snapshot ::
  "'x environment \<Rightarrow> LiveOrderRequest \<Rightarrow> instant \<Rightarrow> dec \<Rightarrow> 'x world \<Rightarrow> (unit, 'x world) outcome" where
  "record_position_snapshot env request timestamp quantity_before w =
     (let current = preflight_binding (lo_signal_id request) w in
      case PositionReconciliationSnapshot_init (lo_exchange request) (lo_symbol request) quantity_before (Aware timestamp) of
        Inl e \<Rightarrow> (Inl e, w)
      | Inr p \<Rightarrow> bind_transition env current (bi_state current) timestamp None
          (\<lambda>b. b\<lparr>bi_position_snapshot := Some p\<rparr>) w)"

definition halt_binding ::
  "'x environment \<Rightarrow> string \<Rightarrow> string \<Rightarrow> datetime \<Rightarrow> 'x world \<Rightarrow> (PreflightBinding, 'x world) outcome" where
  "halt_binding env signal_id reason timestamp w =
     (let current = preflight_binding signal_id w in
      if bi_state current \<notin> {HEDGING_REQUIRED, RECONCILIATION_REQUIRED}
      then (Inl (ValueError ''only recovery-required bindings may be halted''), w)
      else case as_utc ''execution timestamp must be timezone-aware'' timestamp of
        Inl e \<Rightarrow> (Inl e, w)
      | Inr t \<Rightarrow> bindS (bind_transition env current BINDING_HALTED t (Some reason) id)
          (\<lambda>_ w'. (Inr (preflight_binding signal_id w'), w')) w)"

section \<open>What a snapshot of the exchange shows\<close>

record ExchangeReconciliationSnapshot =
  rs_binding :: PreflightBinding
  rs_client_order :: "ReconciledOrder option"
  rs_matching_fills :: "ExecutionFill list"
  rs_matching_open_orders :: "LiveOpenOrder list"
  rs_positions :: "LivePosition list"
  rs_captured_at :: instant

definition since_of :: "PreflightBinding \<Rightarrow> LiveOrderRequest \<Rightarrow> instant" where
  "since_of b request = (case bi_position_snapshot b of None \<Rightarrow> lo_created_at request | Some p \<Rightarrow> ps_captured_at p)"

definition fill_matches :: "LiveOrderRequest \<Rightarrow> instant \<Rightarrow> instant \<Rightarrow> ExecutionFill \<Rightarrow> bool" where
  "fill_matches request since captured_at f \<longleftrightarrow>
     xf_client_order_id f = lo_request_id request \<and> xf_exchange f = lo_exchange request \<and>
     xf_symbol f = lo_symbol request \<and> xf_side f = lo_side request \<and>
     since \<le> xf_executed_at f \<and> xf_executed_at f \<le> captured_at"

definition open_order_matches :: "LiveOrderRequest \<Rightarrow> instant \<Rightarrow> instant \<Rightarrow> LiveOpenOrder \<Rightarrow> bool" where
  "open_order_matches request since captured_at q \<longleftrightarrow>
     oo_client_order_id q = lo_request_id request \<and> oo_exchange q = lo_exchange request \<and>
     oo_symbol q = lo_symbol request \<and> oo_side q = lo_side request \<and>
     oo_reduce_only q = lo_reduce_only request \<and> oo_quantity q = lo_quantity request \<and>
     since \<le> oo_created_at q \<and> oo_created_at q \<le> captured_at"

definition refresh_binding_and_exchange_state ::
  "'x environment \<Rightarrow> LiveOrderRequest \<Rightarrow> instant \<Rightarrow> 'x world \<Rightarrow> (ExchangeReconciliationSnapshot, 'x world) outcome" where
  "refresh_binding_and_exchange_state env request captured_at w =
     (let binding = preflight_binding (lo_signal_id request) w; since = since_of binding request in
      bindS (ad_fetch_recent_fills env (lo_symbol request) since) (\<lambda>fills.
      bindS (ad_lookup_order env (lo_request_id request)) (\<lambda>client_order.
      bindS (ad_fetch_open_orders env (Some (lo_symbol request))) (\<lambda>open_orders.
      bindS (ad_fetch_positions env) (\<lambda>positions w'.
        (Inr \<lparr>rs_binding = binding, rs_client_order = client_order,
              rs_matching_fills = filter (fill_matches request since captured_at) fills,
              rs_matching_open_orders = filter (open_order_matches request since captured_at) open_orders,
              rs_positions = positions, rs_captured_at = captured_at\<rparr>, w'))))) w)"

definition client_order_matches :: "LiveOrderRequest \<Rightarrow> ExchangeReconciliationSnapshot \<Rightarrow> bool" where
  "client_order_matches request snapshot =
     (case rs_client_order snapshot of
        None \<Rightarrow> False
      | Some q \<Rightarrow> let since = since_of (rs_binding snapshot) request in
          ro_client_order_id q = lo_request_id request \<and> ro_exchange q = lo_exchange request \<and>
          ro_symbol q = lo_symbol request \<and> ro_side q = lo_side request \<and>
          ro_original_quantity q = lo_quantity request \<and> ro_reduce_only q = lo_reduce_only request \<and>
          since \<le> ro_created_at q \<and> ro_created_at q \<le> rs_captured_at snapshot \<and>
          ro_created_at q \<le> ro_updated_at q \<and> ro_updated_at q \<le> rs_captured_at snapshot)"

definition position_delta :: "LiveOrderRequest \<Rightarrow> ExchangeReconciliationSnapshot \<Rightarrow> dec option" where
  "position_delta request snapshot =
     (case bi_position_snapshot (rs_binding snapshot) of
        None \<Rightarrow> None
      | Some before \<Rightarrow>
          if ps_venue before \<noteq> lo_exchange request \<or> ps_symbol before \<noteq> lo_symbol request then None
          else let matching = filter (\<lambda>p. lp_exchange p = lo_exchange request \<and> lp_symbol p = lo_symbol request)
                 (rs_positions snapshot)
          in if length matching > 1 then None
             else let quantity_after = (case matching of [] \<Rightarrow> 0 | p # _ \<Rightarrow> lp_quantity p)
             in Some (dsub quantity_after (ps_quantity_before before)))"

definition filled_total :: "ExchangeReconciliationSnapshot \<Rightarrow> dec" where
  "filled_total snapshot = dsum (map xf_quantity (rs_matching_fills snapshot))"

definition fills_match_position_delta :: "LiveOrderRequest \<Rightarrow> ExchangeReconciliationSnapshot \<Rightarrow> bool" where
  "fills_match_position_delta request snapshot =
     (if rs_matching_fills snapshot = [] then False
      else case position_delta request snapshot of
        None \<Rightarrow> False
      | Some delta \<Rightarrow>
          let filled = filled_total snapshot;
              expected_delta = (if lo_side request = BUY then filled else dneg filled)
          in filled \<le> lo_quantity request \<and> delta = expected_delta)"

definition snapshot_proves_order_exists :: "LiveOrderRequest \<Rightarrow> ExchangeReconciliationSnapshot \<Rightarrow> bool" where
  "snapshot_proves_order_exists request snapshot =
     (if client_order_matches request snapshot \<and>
         (case rs_client_order snapshot of
            None \<Rightarrow> False
          | Some q \<Rightarrow> ro_status q \<in> {Rec_open, Rec_partially_filled, Rec_filled}) then True
      else if length (rs_matching_open_orders snapshot) = 1 then True
      else fills_match_position_delta request snapshot)"

definition snapshot_proves_order_absent :: "LiveOrderRequest \<Rightarrow> ExchangeReconciliationSnapshot \<Rightarrow> bool" where
  "snapshot_proves_order_absent request snapshot =
     (if rs_client_order snapshot \<noteq> None \<and> \<not> client_order_matches request snapshot then False
      else if rs_matching_fills snapshot \<noteq> [] \<or> rs_matching_open_orders snapshot \<noteq> [] then False
      else position_delta request snapshot = Some 0)"

definition snapshot_is_ambiguous :: "LiveOrderRequest \<Rightarrow> ExchangeReconciliationSnapshot \<Rightarrow> bool" where
  "snapshot_is_ambiguous request snapshot =
     (let fills = rs_matching_fills snapshot in
      if rs_client_order snapshot \<noteq> None \<and> \<not> client_order_matches request snapshot then True
      else if (case rs_client_order snapshot of None \<Rightarrow> False | Some q \<Rightarrow> ro_status q = Rec_pending) then True
      else if length (rs_matching_open_orders snapshot) > 1 then True
      else if fills \<noteq> [] \<and> \<not> distinct (map xf_fill_id fills) then True
      else if fills \<noteq> [] \<and> length (remdups (map xf_exchange_order_id fills)) \<noteq> 1 then True
      else if fills \<noteq> [] \<and> filled_total snapshot > lo_quantity request then True
      else if fills \<noteq> [] \<and> \<not> fills_match_position_delta request snapshot then True
      else position_delta request snapshot \<notin> {None, Some 0} \<and> fills = [])"

definition snapshot_external_order_id :: "LiveOrderRequest \<Rightarrow> ExchangeReconciliationSnapshot \<Rightarrow> string option" where
  "snapshot_external_order_id request snapshot =
     (case rs_client_order snapshot of
        Some q \<Rightarrow>
          if client_order_matches request snapshot then Some (ro_external_order_id q)
          else if length (rs_matching_open_orders snapshot) = 1
          then Some (oo_external_order_id (hd (rs_matching_open_orders snapshot)))
          else (case rs_matching_fills snapshot of [] \<Rightarrow> None | f # _ \<Rightarrow> Some (xf_exchange_order_id f))
      | None \<Rightarrow>
          if length (rs_matching_open_orders snapshot) = 1
          then Some (oo_external_order_id (hd (rs_matching_open_orders snapshot)))
          else (case rs_matching_fills snapshot of [] \<Rightarrow> None | f # _ \<Rightarrow> Some (xf_exchange_order_id f)))"

section \<open>Reconciling\<close>

definition apply_reconciliation_snapshot ::
  "'x environment \<Rightarrow> LiveOrderRequest \<Rightarrow> ExchangeReconciliationSnapshot \<Rightarrow> instant \<Rightarrow> 'x world \<Rightarrow> (unit, 'x world) outcome" where
  "apply_reconciliation_snapshot env request snapshot timestamp w =
     (let current = preflight_binding (lo_signal_id request) w in
      if bi_state current \<noteq> RECONCILIATION_REQUIRED
      then (Inl (ExecutionAdapterError ''binding changed during reconciliation''), w)
      else if snapshot_is_ambiguous request snapshot then
        bind_transition env current BINDING_HALTED timestamp (Some ''exchange reconciliation is ambiguous'') id w
      else let second_leg = (bi_second_order_request_id current = Some (lo_request_id request)) in
        if snapshot_proves_order_exists request snapshot then
          let external_order_id = snapshot_external_order_id request snapshot in
          if second_leg then
            bind_transition env current BINDING_COMPLETED timestamp None
              (\<lambda>b. b\<lparr>bi_second_external_order_id := external_order_id\<rparr>) w
          else
            bind_transition env current FIRST_LEG_ACCEPTED timestamp None
              (\<lambda>b. b\<lparr>bi_first_leg_role := Some (lo_order_leg_role request),
                    bi_first_order_request_id := Some (lo_request_id request),
                    bi_first_external_order_id := external_order_id\<rparr>) w
        else if snapshot_proves_order_absent request snapshot then
          bind_transition env current (if second_leg then HEDGING_REQUIRED else ABORTED) timestamp
            (Some ''exchange reconciliation found no submitted order'') id w
        else
          bind_transition env current BINDING_HALTED timestamp
            (Some ''exchange reconciliation could not determine order state'') id w)"

definition ensure_reconciliation_required ::
  "'x environment \<Rightarrow> LiveOrderRequest \<Rightarrow> PreflightBinding \<Rightarrow> instant \<Rightarrow> string \<Rightarrow> 'x world \<Rightarrow>
   (PreflightBinding, 'x world) outcome" where
  "ensure_reconciliation_required env request current0 timestamp reason w =
     (let latest = preflight_binding (lo_signal_id request) w;
          current = (if bi_version latest \<noteq> bi_version current0 then latest else current0);
          reread = (\<lambda>_ w'. (Inr (preflight_binding (lo_signal_id request) w'), w'))
      in if bi_state current = RECONCILIATION_REQUIRED then (Inr current, w)
      else if bi_state current \<in> {UNBOUND, ABORTED} then
        let binding = (new_binding (lo_signal_id request) (request_hash request) RECONCILIATION_REQUIRED timestamp)
              \<lparr>bi_version := bi_version current + 1,
               bi_created_at := (case bi_created_at current of None \<Rightarrow> Some (Aware timestamp) | Some c \<Rightarrow> Some c),
               bi_first_order_request_id := Some (lo_request_id request),
               bi_failure_reason := Some reason, bi_position_snapshot := bi_position_snapshot current\<rparr>
        in (case cas_binding env current binding w of
              (True, w') \<Rightarrow> (Inr (preflight_binding (lo_signal_id request) w'), w')
            | (False, w') \<Rightarrow> (Inl (ExecutionAdapterError ''preflight binding CAS conflict''), w'))
      else if bi_state current = RESERVED then
        bindS (bind_transition env current RECONCILIATION_REQUIRED timestamp (Some reason)
          (\<lambda>b. b\<lparr>bi_first_order_request_id := Some (lo_request_id request)\<rparr>)) reread w
      else if bi_state current = SECOND_LEG_SUBMITTED then
        bindS (bind_transition env current RECONCILIATION_REQUIRED timestamp (Some reason)
          (\<lambda>b. b\<lparr>bi_second_order_request_id := Some (lo_request_id request)\<rparr>)) reread w
      else (Inr current, w))"

text \<open>\<open>True\<close> only when the snapshot proves that the reservation can be retried.\<close>

definition handle_cas_snapshot ::
  "'x environment \<Rightarrow> LiveOrderRequest \<Rightarrow> ExchangeReconciliationSnapshot \<Rightarrow> instant \<Rightarrow> 'x world \<Rightarrow> (bool, 'x world) outcome" where
  "handle_cas_snapshot env request snapshot timestamp w =
     (if snapshot_proves_order_exists request snapshot then
        bindS (ensure_reconciliation_required env request (rs_binding snapshot) timestamp
            ''CAS conflict found an existing exchange order'') (\<lambda>current.
          if bi_state current = RECONCILIATION_REQUIRED then
            bindS (apply_reconciliation_snapshot env request (snapshot\<lparr>rs_binding := current\<rparr>) timestamp)
              (\<lambda>_ w'. (Inr False, w'))
          else (\<lambda>w'. (Inr False, w'))) w
      else if snapshot_is_ambiguous request snapshot then
        bindS (ensure_reconciliation_required env request (rs_binding snapshot) timestamp
            ''CAS conflict exchange state is ambiguous'') (\<lambda>current.
          if bi_state current = RECONCILIATION_REQUIRED then
            bindS (bind_transition env current BINDING_HALTED timestamp
                (Some ''CAS conflict exchange state is ambiguous'') id) (\<lambda>_ w'. (Inr False, w'))
          else (\<lambda>w'. (Inr False, w'))) w
      else if bi_state (rs_binding snapshot) \<in> {UNBOUND, ABORTED} \<and> snapshot_proves_order_absent request snapshot
      then (Inr True, w)
      else bindS (ensure_reconciliation_required env request (rs_binding snapshot) timestamp
          ''CAS conflict requires exchange reconciliation'') (\<lambda>_ w'. (Inr False, w')) w)"

definition reconcile_binding ::
  "'x environment \<Rightarrow> LiveOrderRequest \<Rightarrow> datetime \<Rightarrow> 'x world \<Rightarrow> (PreflightBinding, 'x world) outcome" where
  "reconcile_binding env request timestamp0 w =
     (case as_utc ''execution timestamp must be timezone-aware'' timestamp0 of
        Inl e \<Rightarrow> (Inl e, w)
      | Inr timestamp \<Rightarrow>
          let current = preflight_binding (lo_signal_id request) w;
              reread = (\<lambda>_ w'. (Inr (preflight_binding (lo_signal_id request) w'), w'))
          in if bi_state current \<noteq> RECONCILIATION_REQUIRED
          then (Inl (ValueError ''preflight binding does not require reconciliation''), w)
          else case refresh_binding_and_exchange_state env request timestamp w of
            (Inl e, w1) \<Rightarrow>
              bindS (bind_transition env current BINDING_HALTED timestamp
                (Some (''reconciliation failed: '' @ error_name e)) id) reread w1
          | (Inr snapshot, w1) \<Rightarrow>
              bindS (apply_reconciliation_snapshot env request snapshot timestamp) reread w1)"

end
