(* ===== verification/Live_Preflight.thy ===== *)
theory Live_Preflight
  imports Venue_Models
begin

text \<open>
  \<open>src/app/services/live_trading/preflight.py\<close>: the report that decides whether real orders may be
  sent, and \<open>Settings.guard_live_mode\<close> of \<open>src/app/config/settings.py\<close>: the validator every
  configuration passes before it exists. \<open>Settings\<close> holds the settings these two functions read; a
  secret is its text. Strings are ASCII, so \<open>isalnum\<close> is letters and digits.
\<close>

section \<open>Settings\<close>

record ExchangeSettings =
  xs_name :: string
  xs_data_enabled :: bool
  xs_execution_enabled :: bool
  xs_rest_url :: "string option"
  xs_ws_url :: "string option"

record VenueSettings =
  vs_data_enabled :: bool
  vs_experimental_recording_enabled :: bool
  vs_execution_enabled :: bool
  vs_eligibility_status :: VenueEligibilityStatus
  vs_jurisdiction :: string
  vs_terms_checked_at :: instant
  vs_terms_version :: "string option"
  vs_operator_account_verified :: bool
  vs_api_market_data_available :: bool
  vs_api_execution_available :: bool
  vs_deposits_available :: bool
  vs_withdrawals_available :: bool
  vs_execution_smoke_test_passed :: bool
  vs_requires_location_evasion :: bool
  vs_reason :: string

definition VenueSettings_validate :: "VenueSettings \<Rightarrow> datetime \<Rightarrow> VenueSettings result" where
  "VenueSettings_validate v terms_checked_at =
     bindE (as_utc ''terms_checked_at must be timezone-aware'' terms_checked_at) (\<lambda>t.
     Inr (v\<lparr>vs_terms_checked_at := t\<rparr>))"

record LiveTradingSettings =
  lv_enabled :: bool
  lv_adapter_name :: string
  lv_allowed_symbols :: "string list"
  lv_maximum_order_notional :: dec
  lv_maximum_open_orders :: int
  lv_maximum_orders_per_minute :: int
  lv_maximum_clock_skew_seconds :: dec
  lv_preflight_ttl_seconds :: int
  lv_capability_verification_max_age_seconds :: int
  lv_source_event_max_age_seconds :: int
  lv_minimum_data_quality :: dec
  lv_withdrawal_permission_confirmed_disabled :: bool

definition LiveTradingSettings_validate :: "LiveTradingSettings \<Rightarrow> LiveTradingSettings result" where
  "LiveTradingSettings_validate l =
     bindE (raise_if (\<not> (0 < lv_maximum_order_notional l \<and> lv_maximum_order_notional l \<le> 10000 \<and>
         1 \<le> lv_maximum_open_orders l \<and> lv_maximum_open_orders l \<le> 20 \<and>
         1 \<le> lv_maximum_orders_per_minute l \<and> lv_maximum_orders_per_minute l \<le> 60 \<and>
         0 \<le> lv_maximum_clock_skew_seconds l \<and> lv_maximum_clock_skew_seconds l \<le> 30 \<and>
         1 \<le> lv_preflight_ttl_seconds l \<and> lv_preflight_ttl_seconds l \<le> 300 \<and>
         1 \<le> lv_capability_verification_max_age_seconds l \<and> lv_capability_verification_max_age_seconds l \<le> 86400 \<and>
         1 \<le> lv_source_event_max_age_seconds l \<and> lv_source_event_max_age_seconds l \<le> 3600 \<and>
         8 / 10 \<le> lv_minimum_data_quality l \<and> lv_minimum_data_quality l \<le> 1))
       (ValueError ''field constraint'')) (\<lambda>_. Inr l)"

record Settings =
  st_environment :: string
  st_symbols :: "string list"
  st_paper_trading :: bool
  st_live_trading :: bool
  st_dry_run :: bool
  st_live_confirmation :: "string option"
  st_exchange_api_key :: "string option"
  st_exchange_api_secret :: "string option"
  st_paper_enabled :: bool
  st_live :: LiveTradingSettings
  st_exchanges :: "ExchangeSettings list"
  st_venues :: "(string, VenueSettings) dict"
  st_stale_data_seconds :: int

definition confirmation_text :: "Settings \<Rightarrow> string" where
  "confirmation_text s = (case st_live_confirmation s of None \<Rightarrow> [] | Some c \<Rightarrow> c)"

definition is_alnum :: "string \<Rightarrow> bool" where
  "is_alnum w \<longleftrightarrow> w \<noteq> [] \<and> list_all (\<lambda>c. CHR ''0'' \<le> c \<and> c \<le> CHR ''9'' \<or>
     CHR ''A'' \<le> c \<and> c \<le> CHR ''Z'' \<or> CHR ''a'' \<le> c \<and> c \<le> CHR ''z'') w"

definition guard_live_trading :: "Settings \<Rightarrow> unit result" where
  "guard_live_trading s =
     (let enabled_execution = filter xs_execution_enabled (st_exchanges s) in
      bindE (raise_if (st_paper_trading s \<or> st_dry_run s \<or>
          confirmation_text s \<noteq> ''I_ACCEPT_LIVE_TRADING_RISK'')
        (ValueError ''live mode requires paper=false, dry_run=false, and exact confirmation'')) (\<lambda>_.
      bindE (raise_if (enabled_execution = [])
        (ValueError ''live mode requires an explicitly execution-enabled exchange'')) (\<lambda>_.
      bindE (raise_if (st_environment s \<noteq> ''production'')
        (ValueError ''live mode requires environment=production'')) (\<lambda>_.
      bindE (raise_if (lv_adapter_name (st_live s) = ''disabled'')
        (ValueError ''live mode requires a concrete execution adapter'')) (\<lambda>_.
      bindE (raise_if (length (filter (\<lambda>x. xs_name x = lv_adapter_name (st_live s)) enabled_execution) \<noteq> 1)
        (ValueError ''live adapter must match exactly one execution-enabled exchange'')) (\<lambda>_.
      bindE (raise_if (st_exchange_api_key s = None \<or> st_exchange_api_secret s = None)
        (ValueError ''live mode requires API credentials from the environment'')) (\<lambda>_.
      raise_if (\<not> lv_withdrawal_permission_confirmed_disabled (st_live s))
        (ValueError ''live mode forbids API keys with withdrawal permission''))))))))"

definition guard_live_mode :: "Settings \<Rightarrow> Settings result" where
  "guard_live_mode s =
     bindE (if st_live_trading s then guard_live_trading s else Inr ()) (\<lambda>_.
     bindE (raise_if (st_symbols s = [] \<or> list_ex (\<lambda>w. \<not> is_alnum w) (st_symbols s))
       (ValueError ''symbols must be non-empty alphanumeric identifiers'')) (\<lambda>_.
     bindE (raise_if (st_paper_enabled s \<noteq> st_paper_trading s)
       (ValueError ''paper.enabled and paper_trading must agree'')) (\<lambda>_.
     bindE (raise_if (lv_enabled (st_live s) \<noteq> st_live_trading s)
       (ValueError ''live.enabled and live_trading must agree'')) (\<lambda>_.
     bindE (raise_if (lv_allowed_symbols (st_live s) = [] \<or>
         list_ex (\<lambda>w. w \<notin> set (st_symbols s)) (lv_allowed_symbols (st_live s)))
       (ValueError ''live allowed symbols must be a non-empty subset of symbols'')) (\<lambda>_.
     bindE (raise_if (list_ex (\<lambda>(name, venue). name \<in> {''bybit'', ''binance_global''} \<and> vs_execution_enabled venue)
         (st_venues s))
       (ValueError ''Bybit and Binance Global execution is forbidden for JP operators'')) (\<lambda>_.
     bindE (raise_if (list_ex (\<lambda>(_, venue). vs_requires_location_evasion venue \<and>
         (vs_data_enabled venue \<or> vs_execution_enabled venue)) (st_venues s))
       (ValueError ''venues requiring location evasion must remain disabled'')) (\<lambda>_.
     Inr s)))))))"

section \<open>The preflight report\<close>

definition RUNTIME_CONFIRMATION :: string where
  "RUNTIME_CONFIRMATION = ''ENABLE_LIVE_EXECUTION_NOW''"

record LivePreflightContext =
  c_timestamp :: instant
  c_operator_confirmation :: string
  c_adapter_name :: string
  c_adapter_is_concrete :: bool
  c_adapter_healthy :: bool
  c_data_quality_score :: dec
  c_websocket_connected :: bool
  c_clock_skew_seconds :: dec
  c_kill_switch_active :: bool
  c_paper_validation_passed :: bool
  c_out_of_sample_validation_passed :: bool

text \<open>A context built from a timestamp alone: every field at its default.\<close>

definition LivePreflightContext_default :: "datetime \<Rightarrow> LivePreflightContext result" where
  "LivePreflightContext_default timestamp =
     bindE (as_utc ''preflight timestamp must be timezone-aware'' timestamp) (\<lambda>t.
     Inr \<lparr>c_timestamp = t, c_operator_confirmation = [], c_adapter_name = ''disabled'',
          c_adapter_is_concrete = False, c_adapter_healthy = False, c_data_quality_score = 0,
          c_websocket_connected = False, c_clock_skew_seconds = 999, c_kill_switch_active = True,
          c_paper_validation_passed = False, c_out_of_sample_validation_passed = False\<rparr>)"

definition LivePreflightContext_validate ::
  "LivePreflightContext \<Rightarrow> datetime \<Rightarrow> LivePreflightContext result" where
  "LivePreflightContext_validate c timestamp =
     bindE (raise_if (\<not> (0 \<le> c_data_quality_score c \<and> c_data_quality_score c \<le> 1 \<and> 0 \<le> c_clock_skew_seconds c))
       (ValueError ''field constraint'')) (\<lambda>_.
     bindE (as_utc ''preflight timestamp must be timezone-aware'' timestamp) (\<lambda>t.
     Inr (c\<lparr>c_timestamp := t\<rparr>)))"

record PreflightCheck =
  ck_name :: string
  ck_passed :: bool
  ck_reason :: string

record LivePreflightReport =
  pr_timestamp :: instant
  pr_approved :: bool
  pr_checks :: "PreflightCheck list"
  pr_warning :: string

abbreviation (input) check :: "string \<Rightarrow> bool \<Rightarrow> string \<Rightarrow> PreflightCheck" where
  "check name passed reason \<equiv> \<lparr>ck_name = name, ck_passed = passed, ck_reason = reason\<rparr>"

definition preflight_checks :: "Settings \<Rightarrow> LivePreflightContext \<Rightarrow> PreflightCheck list" where
  "preflight_checks s c =
     (let configured_execution = map xs_name (filter xs_execution_enabled (st_exchanges s)) in
      [check ''production_environment'' (st_environment s = ''production'') ''environment must be production'',
       check ''live_enabled'' (st_live_trading s \<and> lv_enabled (st_live s))
         ''both live flags must be explicitly enabled'',
       check ''paper_disabled'' (\<not> st_paper_trading s \<and> \<not> st_paper_enabled s)
         ''paper mode must be explicitly disabled'',
       check ''dry_run_disabled'' (\<not> st_dry_run s) ''dry-run must be explicitly disabled'',
       check ''configuration_confirmation'' (confirmation_text s = ''I_ACCEPT_LIVE_TRADING_RISK'')
         ''exact configuration confirmation is required'',
       check ''runtime_confirmation'' (c_operator_confirmation c = RUNTIME_CONFIRMATION)
         ''exact runtime confirmation is required and is never stored'',
       check ''concrete_adapter'' (c_adapter_is_concrete c \<and> c_adapter_name c \<noteq> ''disabled'' \<and>
           lv_adapter_name (st_live s) = c_adapter_name c \<and> c_adapter_name c \<in> set configured_execution)
         ''a matching execution-enabled concrete adapter is required'',
       check ''adapter_health'' (c_adapter_healthy c) ''execution adapter health check must pass'',
       check ''credentials_present'' (st_exchange_api_key s \<noteq> None \<and> st_exchange_api_secret s \<noteq> None)
         ''credentials must come from the environment'',
       check ''withdrawal_permission_disabled'' (lv_withdrawal_permission_confirmed_disabled (st_live s))
         ''withdrawal permission is forbidden'',
       check ''data_quality'' (c_data_quality_score c \<ge> lv_minimum_data_quality (st_live s))
         ''live data quality must meet the stricter live threshold'',
       check ''websocket_connected'' (c_websocket_connected c) ''market-data WebSocket must be connected'',
       check ''clock_synchronized'' (c_clock_skew_seconds c \<le> lv_maximum_clock_skew_seconds (st_live s))
         ''clock skew exceeds the configured maximum'',
       check ''kill_switch_clear'' (\<not> c_kill_switch_active c) ''kill switch must be clear at startup'',
       check ''paper_validation'' (c_paper_validation_passed c) ''paper-trading acceptance must be recorded'',
       check ''out_of_sample_validation'' (c_out_of_sample_validation_passed c)
         ''untouched OOS acceptance must be recorded''])"

definition evaluate_live_preflight :: "Settings \<Rightarrow> LivePreflightContext \<Rightarrow> LivePreflightReport" where
  "evaluate_live_preflight s c =
     (let checks = preflight_checks s c in
      \<lparr>pr_timestamp = c_timestamp c, pr_approved = list_all ck_passed checks, pr_checks = checks,
       pr_warning = (if list_all ck_passed checks
         then ''LIVE EXECUTION APPROVED: real orders may be sent''
         else ''LIVE EXECUTION REFUSED: one or more safety checks failed'')\<rparr>)"

section \<open>What an approval means\<close>

text \<open>The part of the checks that depends on the run and not on the configuration.\<close>

definition runtime_ready :: "Settings \<Rightarrow> LivePreflightContext \<Rightarrow> bool" where
  "runtime_ready s c \<longleftrightarrow> c_operator_confirmation c = RUNTIME_CONFIRMATION \<and> c_adapter_is_concrete c \<and>
     c_adapter_name c = lv_adapter_name (st_live s) \<and> c_adapter_healthy c \<and>
     lv_minimum_data_quality (st_live s) \<le> c_data_quality_score c \<and> c_websocket_connected c \<and>
     c_clock_skew_seconds c \<le> lv_maximum_clock_skew_seconds (st_live s) \<and> \<not> c_kill_switch_active c \<and>
     c_paper_validation_passed c \<and> c_out_of_sample_validation_passed c"

lemma guard_live_tradingD:
  assumes "guard_live_trading s = Inr u"
  shows "\<not> st_paper_trading s" "\<not> st_dry_run s" "confirmation_text s = ''I_ACCEPT_LIVE_TRADING_RISK''"
    "st_environment s = ''production''" "lv_adapter_name (st_live s) \<noteq> ''disabled''"
    "st_exchange_api_key s \<noteq> None" "st_exchange_api_secret s \<noteq> None"
    "lv_withdrawal_permission_confirmed_disabled (st_live s)"
    "lv_adapter_name (st_live s) \<in> xs_name ` set (filter xs_execution_enabled (st_exchanges s))"
proof -
  have "length (filter (\<lambda>x. xs_name x = lv_adapter_name (st_live s)) (filter xs_execution_enabled (st_exchanges s))) = 1"
    using assms by (auto simp: guard_live_trading_def Let_def)
  then obtain x where "x \<in> set (filter xs_execution_enabled (st_exchanges s))" "xs_name x = lv_adapter_name (st_live s)"
    by (metis (mono_tags, lifting) filter_False length_0_conv zero_neq_one)
  then show "lv_adapter_name (st_live s) \<in> xs_name ` set (filter xs_execution_enabled (st_exchanges s))" by force
qed (use assms in \<open>auto simp: guard_live_trading_def Let_def\<close>)

text \<open>
  C7. Real orders are approved exactly when everything agrees: for a configuration that passed its
  validator, the report approves if and only if live trading is on and every run-time condition
  holds (operator confirmation, the configured concrete and healthy adapter, data quality, web
  socket, clock, kill switch, paper and out-of-sample acceptance). The configuration checks of the
  report add nothing to the validator, so neither can be weakened unnoticed; paper and dry-run
  configurations are never approved, and the report says so.
\<close>

theorem live_preflight_approved_iff:
  assumes "guard_live_mode s = Inr s'"
  shows "(pr_approved (evaluate_live_preflight s c) \<longleftrightarrow> st_live_trading s \<and> runtime_ready s c) \<and>
    (st_paper_trading s \<or> st_dry_run s \<longrightarrow> \<not> pr_approved (evaluate_live_preflight s c)) \<and>
    (pr_warning (evaluate_live_preflight s c) = ''LIVE EXECUTION APPROVED: real orders may be sent'' \<longleftrightarrow>
       pr_approved (evaluate_live_preflight s c))"
proof -
  have g: "st_live_trading s \<Longrightarrow> guard_live_trading s = Inr ()" "st_paper_enabled s = st_paper_trading s"
    "lv_enabled (st_live s) = st_live_trading s"
    using assms by (auto simp: guard_live_mode_def split: if_splits)
  have iff: "pr_approved (evaluate_live_preflight s c) \<longleftrightarrow> st_live_trading s \<and> runtime_ready s c"
  proof (cases "st_live_trading s")
    case True
    note d = guard_live_tradingD [OF g(1) [OF True]]
    show ?thesis
      using True d g(2,3)
      by (auto simp: evaluate_live_preflight_def preflight_checks_def runtime_ready_def Let_def)
  qed (simp add: evaluate_live_preflight_def preflight_checks_def Let_def)
  moreover have "\<not> st_live_trading s" if "st_paper_trading s \<or> st_dry_run s"
    using that g(1) guard_live_tradingD(1,2) by blast
  ultimately show ?thesis by (auto simp: evaluate_live_preflight_def Let_def)
qed

definition demo_settings :: Settings where
  "demo_settings = \<lparr>st_environment = ''production'', st_symbols = [''BTC''], st_paper_trading = False,
     st_live_trading = True, st_dry_run = False, st_live_confirmation = Some ''I_ACCEPT_LIVE_TRADING_RISK'',
     st_exchange_api_key = Some ''k'', st_exchange_api_secret = Some ''s'', st_paper_enabled = False,
     st_live = \<lparr>lv_enabled = True, lv_adapter_name = ''bitget'', lv_allowed_symbols = [''BTC''],
       lv_maximum_order_notional = 100, lv_maximum_open_orders = 3, lv_maximum_orders_per_minute = 5,
       lv_maximum_clock_skew_seconds = 2, lv_preflight_ttl_seconds = 30,
       lv_capability_verification_max_age_seconds = 3600, lv_source_event_max_age_seconds = 30,
       lv_minimum_data_quality = 9 / 10,
       lv_withdrawal_permission_confirmed_disabled = True\<rparr>,
     st_exchanges = [\<lparr>xs_name = ''bitget'', xs_data_enabled = True, xs_execution_enabled = True, xs_rest_url = None, xs_ws_url = None\<rparr>], st_venues = [], st_stale_data_seconds = 30\<rparr>"

definition demo_context :: LivePreflightContext where
  "demo_context = \<lparr>c_timestamp = 0, c_operator_confirmation = RUNTIME_CONFIRMATION, c_adapter_name = ''bitget'',
     c_adapter_is_concrete = True, c_adapter_healthy = True, c_data_quality_score = 1,
     c_websocket_connected = True, c_clock_skew_seconds = 1, c_kill_switch_active = False,
     c_paper_validation_passed = True, c_out_of_sample_validation_passed = True\<rparr>"

theorem live_preflight_approved_iff_witness:
  "guard_live_mode demo_settings = Inr demo_settings \<and>
     pr_approved (evaluate_live_preflight demo_settings demo_context) \<and>
     \<not> pr_approved (evaluate_live_preflight demo_settings (demo_context\<lparr>c_kill_switch_active := True\<rparr>))"
proof -
  have g: "guard_live_mode demo_settings = Inr demo_settings" by code_simp
  have "st_live_trading demo_settings" "runtime_ready demo_settings demo_context"
    "\<not> runtime_ready demo_settings (demo_context\<lparr>c_kill_switch_active := True\<rparr>)"
    by (simp_all add: runtime_ready_def demo_settings_def demo_context_def)
  then show ?thesis using g live_preflight_approved_iff [OF g] by blast
qed

text \<open>
  The preflight fails closed: a context that gives only a timestamp is refused under every
  configuration, and a refused report always names a failing check among the sixteen, whose names
  are distinct.
\<close>

theorem live_preflight_fail_closed:
  "(\<forall>c. LivePreflightContext_default d = Inr c \<longrightarrow> \<not> pr_approved (evaluate_live_preflight s c)) \<and>
    (\<forall>c. \<not> pr_approved (evaluate_live_preflight s c) \<longleftrightarrow>
       list_ex (\<lambda>k. \<not> ck_passed k) (pr_checks (evaluate_live_preflight s c))) \<and>
    (\<forall>c. distinct (map ck_name (pr_checks (evaluate_live_preflight s c))) \<and>
       length (pr_checks (evaluate_live_preflight s c)) = 16)"
proof (intro conjI allI impI)
  fix c assume "LivePreflightContext_default d = Inr c"
  then show "\<not> pr_approved (evaluate_live_preflight s c)"
    by (auto simp: LivePreflightContext_default_def evaluate_live_preflight_def preflight_checks_def Let_def)
next
  fix c show "(\<not> pr_approved (evaluate_live_preflight s c)) =
       list_ex (\<lambda>k. \<not> ck_passed k) (pr_checks (evaluate_live_preflight s c))"
    by (auto simp: evaluate_live_preflight_def Let_def list_ex_iff list_all_iff)
qed (simp_all add: evaluate_live_preflight_def preflight_checks_def Let_def)

theorem live_preflight_fail_closed_witness:
  "\<exists>c. LivePreflightContext_default (Aware 7) = Inr c \<and>
     \<not> pr_approved (evaluate_live_preflight demo_settings c)"
proof -
  obtain c where c: "LivePreflightContext_default (Aware 7) = Inr c"
    by (simp add: LivePreflightContext_default_def)
  then show ?thesis using live_preflight_fail_closed [of "Aware 7" demo_settings] by blast
qed

end
