(* ===== verification/Venue_Risk.thy ===== *)
theory Venue_Risk
  imports Live_Preflight
begin

text \<open>
  Venue risk: the observations and score of \<open>src/app/domain/venues/risk.py\<close>, the monitor of
  \<open>src/app/services/venue_monitor.py\<close>, the equity budgets of \<open>src/app/services/venue_risk.py\<close> and the
  eligibility service of \<open>src/app/services/venue_eligibility.py\<close>. Severities are binary floats that
  are only compared. The order in which Python iterates a frozen set of signals is the parameter
  \<open>iter\<close>; \<open>iter_ok\<close> says that it visits each element once.
\<close>

section \<open>Observations and scores\<close>

datatype VenueRiskSignal = SMART_CONTRACT | ORACLE_DIVERGENCE | BRIDGE | CHAIN_HALT | CONSENSUS_DEGRADATION
  | RPC_DISAGREEMENT | STABLECOIN_DEPEG | WALLET_NONCE_FAILURE | GAS_INSUFFICIENCY | FRONTEND_UNAVAILABLE
  | WITHDRAWAL_SUSPENSION | DEPOSIT_SUSPENSION | MAINTENANCE | API_DEGRADATION | MARK_INDEX_DIVERGENCE | ADL
  | INSURANCE_FUND_CHANGE | ACCOUNT_RESTRICTION | KYC_CHANGE | JURISDICTION_CHANGE

fun signal_value :: "VenueRiskSignal \<Rightarrow> string" where
  "signal_value SMART_CONTRACT = ''smart_contract_risk''"
| "signal_value ORACLE_DIVERGENCE = ''oracle_divergence''"
| "signal_value BRIDGE = ''bridge_risk''"
| "signal_value CHAIN_HALT = ''chain_halt''"
| "signal_value CONSENSUS_DEGRADATION = ''sequencer_or_validator_degradation''"
| "signal_value RPC_DISAGREEMENT = ''rpc_disagreement''"
| "signal_value STABLECOIN_DEPEG = ''stablecoin_depeg''"
| "signal_value WALLET_NONCE_FAILURE = ''wallet_nonce_failure''"
| "signal_value GAS_INSUFFICIENCY = ''gas_insufficiency''"
| "signal_value FRONTEND_UNAVAILABLE = ''frontend_unavailable''"
| "signal_value WITHDRAWAL_SUSPENSION = ''withdrawal_suspension''"
| "signal_value DEPOSIT_SUSPENSION = ''deposit_suspension''"
| "signal_value MAINTENANCE = ''maintenance''"
| "signal_value API_DEGRADATION = ''api_degradation''"
| "signal_value MARK_INDEX_DIVERGENCE = ''mark_index_divergence''"
| "signal_value ADL = ''adl_risk''"
| "signal_value INSURANCE_FUND_CHANGE = ''insurance_fund_change''"
| "signal_value ACCOUNT_RESTRICTION = ''account_restriction''"
| "signal_value KYC_CHANGE = ''kyc_status_change''"
| "signal_value JURISDICTION_CHANGE = ''jurisdiction_status_change''"

record VenueRiskObservation =
  ob_venue :: string
  ob_signal :: VenueRiskSignal
  ob_observed_at :: instant
  ob_healthy :: bool
  ob_severity :: dec
  ob_evidence :: string

definition VenueRiskObservation_validate :: "VenueRiskObservation \<Rightarrow> datetime \<Rightarrow> VenueRiskObservation result" where
  "VenueRiskObservation_validate ob observed_at =
     bindE (raise_if (\<not> (0 \<le> ob_severity ob \<and> ob_severity ob \<le> 1)) (ValueError ''field constraint'')) (\<lambda>_.
     bindE (as_utc ''risk observation timestamp must be timezone-aware'' observed_at) (\<lambda>t.
     Inr (ob\<lparr>ob_observed_at := t\<rparr>)))"

definition venue_risk_score :: "VenueRiskObservation list \<Rightarrow> dec" where
  "venue_risk_score observations =
     (if observations = [] then 0
      else min 1 (case map ob_severity (filter (\<lambda>ob. \<not> ob_healthy ob) observations) of
             [] \<Rightarrow> 0 | x # xs \<Rightarrow> fold max xs x))"

definition DEX_SIGNALS :: "VenueRiskSignal set" where
  "DEX_SIGNALS = {SMART_CONTRACT, ORACLE_DIVERGENCE, BRIDGE, CHAIN_HALT, CONSENSUS_DEGRADATION, RPC_DISAGREEMENT,
     STABLECOIN_DEPEG, WALLET_NONCE_FAILURE, GAS_INSUFFICIENCY, FRONTEND_UNAVAILABLE}"

definition CEX_SIGNALS :: "VenueRiskSignal set" where
  "CEX_SIGNALS = {WITHDRAWAL_SUSPENSION, DEPOSIT_SUSPENSION, MAINTENANCE, API_DEGRADATION, MARK_INDEX_DIVERGENCE, ADL,
     INSURANCE_FUND_CHANGE, ACCOUNT_RESTRICTION, KYC_CHANGE, JURISDICTION_CHANGE}"

section \<open>The monitor\<close>

record VenueRiskMonitor =
  mo_maximum_age :: timedelta
  mo_latest :: "(string \<times> VenueRiskSignal, VenueRiskObservation) dict"

definition VenueRiskMonitor_init :: "timedelta \<Rightarrow> VenueRiskMonitor result" where
  "VenueRiskMonitor_init maximum_age =
     bindE (raise_if (maximum_age \<le> 0) (ValueError ''maximum age must be positive'')) (\<lambda>_.
     Inr \<lparr>mo_maximum_age = maximum_age, mo_latest = []\<rparr>)"

definition record_observation :: "VenueRiskObservation \<Rightarrow> VenueRiskMonitor \<Rightarrow> (unit, VenueRiskMonitor) outcome" where
  "record_observation ob m =
     (let key = (ob_venue ob, ob_signal ob) in
      if (case map_of (mo_latest m) key of None \<Rightarrow> False | Some previous \<Rightarrow> ob_observed_at ob < ob_observed_at previous)
      then (Inl (ValueError ''out-of-order venue risk observation''), m)
      else (Inr (), m\<lparr>mo_latest := dict_set key ob (mo_latest m)\<rparr>))"

datatype health_reason = Missing VenueRiskSignal | Stale VenueRiskSignal | Unhealthy VenueRiskSignal string

text \<open>The texts of the reasons.\<close>

fun reason_message :: "health_reason \<Rightarrow> string" where
  "reason_message (Missing s) = ''missing '' @ signal_value s"
| "reason_message (Stale s) = ''stale '' @ signal_value s"
| "reason_message (Unhealthy s evidence) = ''unhealthy '' @ signal_value s @ '': '' @ evidence"

text \<open>One turn of the loop: the observation that counts, if any, and the reason, if any.\<close>

definition signal_health ::
  "VenueRiskMonitor \<Rightarrow> string \<Rightarrow> instant \<Rightarrow> VenueRiskSignal \<Rightarrow> VenueRiskObservation list \<times> health_reason list" where
  "signal_health m venue now signal =
     (case map_of (mo_latest m) (venue, signal) of
        None \<Rightarrow> ([], [Missing signal])
      | Some item \<Rightarrow>
          if now - ob_observed_at item > mo_maximum_age m \<or> now < ob_observed_at item then ([], [Stale signal])
          else ([item], if \<not> ob_healthy item then [Unhealthy signal (ob_evidence item)] else []))"

definition execution_health ::
  "(VenueRiskSignal set \<Rightarrow> VenueRiskSignal list) \<Rightarrow> VenueRiskMonitor \<Rightarrow> string \<Rightarrow> datetime \<Rightarrow> bool \<Rightarrow>
   (bool \<times> dec \<times> string list) result" where
  "execution_health iter m venue now dex =
     bindE (as_utc ''monitor timestamp must be timezone-aware'' now) (\<lambda>t.
     let required = iter (if dex then DEX_SIGNALS else CEX_SIGNALS);
         observations = concat (map (\<lambda>s. fst (signal_health m venue t s)) required);
         reasons = concat (map (\<lambda>s. snd (signal_health m venue t s)) required)
     in Inr (reasons = [], venue_risk_score observations, map reason_message reasons))"

section \<open>Equity budgets\<close>

record VenueAllocationDecision =
  al_allowed :: bool
  al_total_allocated :: dec
  al_reasons :: "string list"

text \<open>The limits are the maximum equity fractions by name.\<close>

definition domestic_names :: "string set" where
  "domestic_names = {''gmo_coin'', ''bitbank'', ''bitflyer''}"

definition venue_reasons :: "(string, dec) dict \<Rightarrow> dec \<Rightarrow> string set \<Rightarrow> string \<times> dec \<Rightarrow> string list" where
  "venue_reasons limits total_equity domestic_venues = (\<lambda>(venue, amount).
     case map_of limits (if venue \<in> domestic_venues then ''domestic_exchanges'' else venue) of
       None \<Rightarrow> [''no venue risk limit configured for '' @ venue]
     | Some fraction \<Rightarrow>
         if amount > dmul total_equity fraction then [venue @ '' exceeds its venue equity fraction''] else [])"

definition budget_evaluate ::
  "(string, dec) dict \<Rightarrow> dec \<Rightarrow> (string, dec) dict \<Rightarrow> string set \<Rightarrow> VenueAllocationDecision result" where
  "budget_evaluate limits total_equity allocations domestic_venues =
     bindE (raise_if (total_equity \<le> 0) (ValueError ''total equity must be positive'')) (\<lambda>_.
     bindE (raise_if (list_ex (\<lambda>(_, amount). amount < 0) allocations)
       (ValueError ''venue allocations cannot be negative'')) (\<lambda>_.
     let total = dsum (dict_values allocations);
         domestic_total = dsum (map snd (filter (\<lambda>(venue, _). venue \<in> domestic_venues) allocations));
         reasons =
           (if total > total_equity then [''combined venue allocation exceeds total equity''] else []) @
           concat (map (venue_reasons limits total_equity domestic_venues) allocations) @
           (case map_of limits ''domestic_exchanges'' of
              None \<Rightarrow> []
            | Some fraction \<Rightarrow>
                if domestic_total > dmul total_equity fraction
                then [''combined domestic allocation exceeds its equity fraction''] else [])
     in Inr \<lparr>al_allowed = (reasons = []), al_total_allocated = total,
             al_reasons = (if reasons \<noteq> [] then reasons else [''within venue risk budgets''])\<rparr>))"

section \<open>Eligibility from the settings\<close>

definition eligibility_from_settings :: "Settings \<Rightarrow> string \<Rightarrow> VenueEligibility result" where
  "eligibility_from_settings s venue =
     (case map_of (st_venues s) venue of
        None \<Rightarrow> Inl (KeyError (''venue eligibility is not configured: '' @ venue))
      | Some v \<Rightarrow> VenueEligibility_post_init
          \<lparr>ve_venue = venue, ve_status = vs_eligibility_status v, ve_jurisdiction = vs_jurisdiction v,
           ve_terms_checked_at = vs_terms_checked_at v, ve_terms_version = vs_terms_version v,
           ve_operator_account_verified = vs_operator_account_verified v,
           ve_api_market_data_available = vs_api_market_data_available v,
           ve_api_execution_available = vs_api_execution_available v,
           ve_deposits_available = vs_deposits_available v, ve_withdrawals_available = vs_withdrawals_available v,
           ve_execution_smoke_test_passed = vs_execution_smoke_test_passed v,
           ve_requires_location_evasion = vs_requires_location_evasion v, ve_reason = vs_reason v\<rparr>
          (Aware (vs_terms_checked_at v)))"

definition execution_eligibility_reason :: "Settings \<Rightarrow> string \<Rightarrow> datetime \<Rightarrow> bool \<Rightarrow> string option result" where
  "execution_eligibility_reason s venue now reduce_only =
     bindE (eligibility_from_settings s venue) (\<lambda>v.
     bindE (if reduce_only then permits_reduction v now else permits_new_orders v now) (\<lambda>(allowed, reason).
     Inr (if allowed then None else Some reason)))"

section \<open>What the monitor reports\<close>

definition iter_ok :: "(VenueRiskSignal set \<Rightarrow> VenueRiskSignal list) \<Rightarrow> bool" where
  "iter_ok iter \<longleftrightarrow> (\<forall>S. finite S \<longrightarrow> distinct (iter S) \<and> set (iter S) = S)"

text \<open>An observation that is neither stale nor in the future, and healthy.\<close>

definition fresh_healthy :: "VenueRiskMonitor \<Rightarrow> string \<Rightarrow> instant \<Rightarrow> VenueRiskSignal \<Rightarrow> bool" where
  "fresh_healthy m venue t s \<longleftrightarrow> (case map_of (mo_latest m) (venue, s) of
     None \<Rightarrow> False
   | Some ob \<Rightarrow> ob_healthy ob \<and> ob_observed_at ob \<le> t \<and> t \<le> ob_observed_at ob + mo_maximum_age m)"

lemma signal_health_empty: "snd (signal_health m venue t s) = [] \<longleftrightarrow> fresh_healthy m venue t s"
  by (auto simp: signal_health_def fresh_healthy_def split: option.splits)

lemma fold_max_ge: "(y::dec) \<le> fold max xs y"
proof (induction xs arbitrary: y)
  case (Cons x xs)
  show ?case using Cons [of "max x y"] by simp
qed simp

lemma venue_risk_score_bounds:
  assumes "\<forall>ob \<in> set obs. 0 \<le> ob_severity ob"
  shows "0 \<le> venue_risk_score obs \<and> venue_risk_score obs \<le> 1"
proof (cases "map ob_severity (filter (\<lambda>ob. \<not> ob_healthy ob) obs)")
  case (Cons x xs)
  then have "set (x # xs) \<subseteq> ob_severity ` set obs" by (metis (no_types, lifting) filter_is_subset image_mono list.set_map)
  then have "0 \<le> x" using assms by auto
  then have "0 \<le> fold max xs x" using fold_max_ge order_trans by blast
  then show ?thesis using Cons by (simp add: venue_risk_score_def)
qed (simp add: venue_risk_score_def)

text \<open>
  A venue is reported healthy exactly when every required signal has a healthy observation that
  is not in the future and no older than the maximum age; then its risk score is zero and no reason
  is given. In every case the score lies between zero and one.
\<close>

theorem execution_health_iff:
  assumes "iter_ok iter" "execution_health iter m venue now dex = Inr (ok, score, why)"
    "list_all (\<lambda>(_, ob). 0 \<le> ob_severity ob) (mo_latest m)"
  shows "\<exists>t. now = Aware t \<and>
    (ok \<longleftrightarrow> (\<forall>s \<in> (if dex then DEX_SIGNALS else CEX_SIGNALS). fresh_healthy m venue t s)) \<and>
    (ok \<longrightarrow> score = 0 \<and> why = []) \<and> (\<not> ok \<longrightarrow> why \<noteq> []) \<and> 0 \<le> score \<and> score \<le> 1"
proof -
  define S where "S = (if dex then DEX_SIGNALS else CEX_SIGNALS)"
  obtain t where t: "now = Aware t" using assms(2) by (cases now) (auto simp: execution_health_def)
  let ?rs = "concat (map (\<lambda>s. snd (signal_health m venue t s)) (iter S))"
  let ?obs = "concat (map (\<lambda>s. fst (signal_health m venue t s)) (iter S))"
  have e: "ok \<longleftrightarrow> ?rs = []" "score = venue_risk_score ?obs" "why = map reason_message ?rs"
    using assms(2) by (auto simp: execution_health_def t Let_def S_def)
  have it: "set (iter S) = S" using assms(1) by (simp add: iter_ok_def DEX_SIGNALS_def CEX_SIGNALS_def S_def)
  have ok: "ok \<longleftrightarrow> (\<forall>s \<in> S. fresh_healthy m venue t s)"
    unfolding e(1) concat_eq_Nil_conv set_map it using signal_health_empty [of m venue t] by blast
  have obs: "\<exists>s \<in> S. map_of (mo_latest m) (venue, s) = Some ob" if mem: "ob \<in> set ?obs" for ob
  proof -
    obtain s where s: "s \<in> S" "ob \<in> set (fst (signal_health m venue t s))"
      using mem unfolding set_concat set_map it by blast
    then show ?thesis by (auto simp: signal_health_def split: option.splits if_splits)
  qed
  have sev: "0 \<le> ob_severity ob" if "ob \<in> set ?obs" for ob
    using obs [OF that] assms(3) by (auto simp: list_all_iff dest!: map_of_SomeD)
  have "filter (\<lambda>ob. \<not> ob_healthy ob) ?obs = []" if "ok"
  proof -
    have "ob_healthy ob" if "ob \<in> set ?obs" for ob
      using obs [OF that] \<open>ok\<close> unfolding ok by (force simp: fresh_healthy_def)
    then show ?thesis by (simp only: filter_empty_conv) blast
  qed
  then have "score = 0" if "ok" using that unfolding e(2) venue_risk_score_def by simp
  moreover have "0 \<le> score" "score \<le> 1" unfolding e(2) using venue_risk_score_bounds sev by blast+
  ultimately show ?thesis using t ok e(1,3) unfolding S_def by blast
qed

definition all_signals :: "VenueRiskSignal list" where
  "all_signals = [SMART_CONTRACT, ORACLE_DIVERGENCE, BRIDGE, CHAIN_HALT, CONSENSUS_DEGRADATION, RPC_DISAGREEMENT,
     STABLECOIN_DEPEG, WALLET_NONCE_FAILURE, GAS_INSUFFICIENCY, FRONTEND_UNAVAILABLE, WITHDRAWAL_SUSPENSION,
     DEPOSIT_SUSPENSION, MAINTENANCE, API_DEGRADATION, MARK_INDEX_DIVERGENCE, ADL, INSURANCE_FUND_CHANGE,
     ACCOUNT_RESTRICTION, KYC_CHANGE, JURISDICTION_CHANGE]"

definition declared_order :: "VenueRiskSignal set \<Rightarrow> VenueRiskSignal list" where
  "declared_order S = filter (\<lambda>s. s \<in> S) all_signals"

lemma declared_order_ok: "iter_ok declared_order"
proof -
  have "s \<in> set all_signals" for s by (cases s) (simp_all add: all_signals_def)
  moreover have "distinct all_signals" by (simp add: all_signals_def)
  ultimately show ?thesis by (auto simp: iter_ok_def declared_order_def)
qed

definition demo_observation :: "VenueRiskSignal \<Rightarrow> VenueRiskObservation" where
  "demo_observation s = \<lparr>ob_venue = ''bitget'', ob_signal = s, ob_observed_at = 10, ob_healthy = True, ob_severity = 1 / 2,
     ob_evidence = ''probe''\<rparr>"

definition demo_monitor :: VenueRiskMonitor where
  "demo_monitor = \<lparr>mo_maximum_age = 5, mo_latest = map (\<lambda>s. ((''bitget'', s), demo_observation s)) all_signals\<rparr>"

lemma demo_lookup: "map_of (mo_latest demo_monitor) (''bitget'', s) = Some (demo_observation s)"
  by (cases s) (simp_all add: demo_monitor_def all_signals_def)

theorem execution_health_iff_witness:
  "\<exists>score why. execution_health declared_order demo_monitor ''bitget'' (Aware 12) False = Inr (True, score, why) \<and> score = 0"
proof -
  have sev: "list_all (\<lambda>(_, ob). 0 \<le> ob_severity ob) (mo_latest demo_monitor)"
    by (simp add: list_all_iff demo_monitor_def demo_observation_def)
  have fresh: "fresh_healthy demo_monitor ''bitget'' 12 s" for s
    by (simp add: fresh_healthy_def demo_lookup) (simp add: demo_monitor_def demo_observation_def)
  obtain ok score why where h: "execution_health declared_order demo_monitor ''bitget'' (Aware 12) False = Inr (ok, score, why)"
    by (simp add: execution_health_def Let_def)
  have "ok" "score = 0" using execution_health_iff [OF declared_order_ok h sev] fresh by auto
  then show ?thesis using h by simp
qed

section \<open>The monitor keeps the newest observation\<close>

definition observe :: "VenueRiskObservation \<Rightarrow> VenueRiskMonitor \<Rightarrow> VenueRiskMonitor" where
  "observe ob m = snd (record_observation ob m)"

definition ob_key :: "VenueRiskObservation \<Rightarrow> string \<times> VenueRiskSignal" where
  "ob_key ob = (ob_venue ob, ob_signal ob)"

text \<open>The stored observation of a key is a newest among those submitted.\<close>

definition newest :: "VenueRiskObservation list \<Rightarrow> VenueRiskMonitor \<Rightarrow> bool" where
  "newest obs m \<longleftrightarrow> (\<forall>k. case map_of (mo_latest m) k of
     None \<Rightarrow> (\<forall>x \<in> set obs. ob_key x \<noteq> k)
   | Some ob \<Rightarrow> ob \<in> set obs \<and> ob_key ob = k \<and>
       (\<forall>x \<in> set obs. ob_key x = k \<longrightarrow> ob_observed_at x \<le> ob_observed_at ob))"

lemma newest_observe:
  assumes "newest obs m" shows "newest (obs @ [ob]) (observe ob m)"
proof (cases "\<exists>previous. map_of (mo_latest m) (ob_key ob) = Some previous \<and> ob_observed_at ob < ob_observed_at previous")
  case True
  then have "observe ob m = m" by (auto simp: observe_def record_observation_def Let_def ob_key_def)
  then show ?thesis using assms True by (force simp: newest_def split: option.splits)
next
  case False
  then have upd: "map_of (mo_latest (observe ob m)) = (map_of (mo_latest m))(ob_key ob \<mapsto> ob)"
    by (auto simp: observe_def record_observation_def Let_def ob_key_def split: option.splits)
  note at_key = assms [unfolded newest_def, THEN spec, of "ob_key ob"]
  have old: "ob_observed_at x \<le> ob_observed_at ob" if x: "x \<in> set obs" "ob_key x = ob_key ob" for x
  proof (cases "map_of (mo_latest m) (ob_key ob)")
    case None
    then show ?thesis using at_key x by auto
  next
    case (Some previous)
    then have "ob_observed_at x \<le> ob_observed_at previous"
      using at_key x by auto
    then show ?thesis using False Some by fastforce
  qed
  show ?thesis unfolding newest_def
  proof
    fix k
    have k: "case map_of (mo_latest m) k of None \<Rightarrow> (\<forall>x \<in> set obs. ob_key x \<noteq> k)
      | Some ob \<Rightarrow> ob \<in> set obs \<and> ob_key ob = k \<and> (\<forall>x \<in> set obs. ob_key x = k \<longrightarrow> ob_observed_at x \<le> ob_observed_at ob)"
      using assms unfolding newest_def by (rule spec)
    show "case map_of (mo_latest (observe ob m)) k of None \<Rightarrow> (\<forall>x \<in> set (obs @ [ob]). ob_key x \<noteq> k)
      | Some y \<Rightarrow> y \<in> set (obs @ [ob]) \<and> ob_key y = k \<and>
          (\<forall>x \<in> set (obs @ [ob]). ob_key x = k \<longrightarrow> ob_observed_at x \<le> ob_observed_at y)"
      using k old by (cases "k = ob_key ob") (auto simp: upd split: option.splits)
  qed
qed

text \<open>
  Whatever observations arrive and in whatever order, those out of order being refused, the
  monitor holds for each venue and signal a newest observation submitted for it, and holds one
  exactly when one was submitted.
\<close>

theorem monitor_keeps_newest:
  assumes "VenueRiskMonitor_init maximum_age = Inr m0"
  shows "newest obs (fold observe obs m0) \<and> mo_maximum_age (fold observe obs m0) = maximum_age"
proof (induction obs rule: rev_induct)
  case Nil
  then show ?case using assms by (auto simp: newest_def VenueRiskMonitor_init_def)
next
  case (snoc ob obs)
  have "mo_maximum_age (observe ob m) = mo_maximum_age m" for m
    by (simp add: observe_def record_observation_def Let_def)
  then show ?case using snoc newest_observe by simp
qed

theorem monitor_keeps_newest_witness:
  "\<exists>m0. VenueRiskMonitor_init 5 = Inr m0 \<and>
     newest [demo_observation ADL, (demo_observation ADL)\<lparr>ob_observed_at := 3, ob_healthy := False\<rparr>]
       (fold observe [demo_observation ADL, (demo_observation ADL)\<lparr>ob_observed_at := 3, ob_healthy := False\<rparr>] m0)"
proof -
  obtain m0 where m0: "VenueRiskMonitor_init 5 = Inr m0" by (simp add: VenueRiskMonitor_init_def)
  then show ?thesis using monitor_keeps_newest [OF m0] by blast
qed

section \<open>Budgets\<close>

lemma dsum_mono: "list_all2 (\<le>) xs ys \<Longrightarrow> dsum xs \<le> dsum ys"
proof -
  have "list_all2 (\<le>) xs ys \<Longrightarrow> a \<le> b \<Longrightarrow> foldl dadd a xs \<le> foldl dadd b ys" for a b
  proof (induction arbitrary: a b rule: list_all2_induct)
    case (Cons x xs y ys)
    have "dadd a x \<le> dadd b y" using Cons dec_mono(1) dec_mono(2) order_trans by blast
    then show ?case using Cons.IH by simp
  qed simp
  then show "list_all2 (\<le>) xs ys \<Longrightarrow> dsum xs \<le> dsum ys" by (simp add: dsum_def)
qed

lemma venue_reasons_empty:
  "venue_reasons limits e home (v, a) = [] \<longleftrightarrow>
     (\<exists>f. map_of limits (if v \<in> home then ''domestic_exchanges'' else v) = Some f \<and> a \<le> dmul e f)"
  by (auto simp: venue_reasons_def not_less split: option.splits)

lemma budget_allowed_iff:
  assumes "budget_evaluate limits e allocs home = Inr d"
  shows "al_allowed d \<longleftrightarrow> dsum (map snd allocs) \<le> e \<and>
    (\<forall>(v, a) \<in> set allocs. \<exists>f. map_of limits (if v \<in> home then ''domestic_exchanges'' else v) = Some f \<and> a \<le> dmul e f) \<and>
    (\<forall>f. map_of limits ''domestic_exchanges'' = Some f \<longrightarrow>
       dsum (map snd (filter (\<lambda>(v, _). v \<in> home) allocs)) \<le> dmul e f)"
proof -
  let ?reasons = "concat (map (venue_reasons limits e home) allocs)"
  have c: "?reasons = [] \<longleftrightarrow>
      (\<forall>(v, a) \<in> set allocs. \<exists>f. map_of limits (if v \<in> home then ''domestic_exchanges'' else v) = Some f \<and> a \<le> dmul e f)"
    unfolding concat_eq_Nil_conv set_map ball_simps using venue_reasons_empty [of limits e home] by fast
  have "al_allowed d \<longleftrightarrow> dsum (map snd allocs) \<le> e \<and> ?reasons = [] \<and>
    (\<forall>f. map_of limits ''domestic_exchanges'' = Some f \<longrightarrow>
       dsum (map snd (filter (\<lambda>(v, _). v \<in> home) allocs)) \<le> dmul e f)"
    using assms unfolding budget_evaluate_def Let_def dict_values_def
    by (auto simp: not_less split: option.splits if_splits simp del: concat_eq_Nil_conv)
  then show ?thesis by (simp only: c)
qed

text \<open>
  Budgets hold and shrinking is always safe: an allowed allocation keeps the combined total
  within the equity, every venue within its configured fraction (none without one) and the domestic
  venues together within theirs; and reducing any of its amounts gives an allocation that is again
  allowed.
\<close>

theorem budget_sound:
  assumes "budget_evaluate limits e allocs home = Inr d" "al_allowed d"
    "list_all2 (\<lambda>(v, a) (v', a'). v = v' \<and> 0 \<le> a \<and> a \<le> a') smaller allocs"
  shows "al_total_allocated d = dsum (map snd allocs) \<and> al_total_allocated d \<le> e \<and>
    (\<forall>(v, a) \<in> set allocs. \<exists>f. map_of limits (if v \<in> home then ''domestic_exchanges'' else v) = Some f \<and> a \<le> dmul e f) \<and>
    (\<exists>d'. budget_evaluate limits e smaller home = Inr d' \<and> al_allowed d')"
proof -
  note al = budget_allowed_iff [OF assms(1)]
  have tot: "al_total_allocated d = dsum (map snd allocs)" and e: "0 < e"
    using assms(1) by (auto simp: budget_evaluate_def Let_def dict_values_def)
  have mono: "dsum (map snd (filter (\<lambda>(v, _). v \<in> D) smaller)) \<le> dsum (map snd (filter (\<lambda>(v, _). v \<in> D) allocs))" for D
  proof (rule dsum_mono)
    show "list_all2 (\<le>) (map snd (filter (\<lambda>(v, _). v \<in> D) smaller)) (map snd (filter (\<lambda>(v, _). v \<in> D) allocs))"
      using assms(3) by (induction rule: list_all2_induct) auto
  qed
  have total: "dsum (map snd smaller) \<le> dsum (map snd allocs)"
    using mono [of UNIV] by (simp add: case_prod_beta')
  have each: "\<exists>a'. (v, a') \<in> set allocs \<and> 0 \<le> a \<and> a \<le> a'" if "(v, a) \<in> set smaller" for v a
    using assms(3) that by (induction rule: list_all2_induct) auto
  have "\<not> list_ex (\<lambda>(_, amount). amount < 0) smaller" using each by (force simp: list_ex_iff)
  then obtain d' where d': "budget_evaluate limits e smaller home = Inr d'"
    using e by (simp add: budget_evaluate_def Let_def)
  have "al_allowed d'"
    unfolding budget_allowed_iff [OF d'] using al assms(2) total mono [of home] each by fastforce
  then show ?thesis using tot al assms(2) d' by simp
qed

definition demo_limits :: "(string, dec) dict" where
  "demo_limits = [(''bitget'', 1 / 2), (''domestic_exchanges'', 1 / 4)]"

theorem budget_sound_witness:
  "\<exists>d d'. budget_evaluate demo_limits 100 [(''bitget'', 50), (''bitbank'', 20)] domestic_names = Inr d \<and>
     al_total_allocated d = 70 \<and>
     budget_evaluate demo_limits 100 [(''bitget'', 10), (''bitbank'', 20)] domestic_names = Inr d' \<and> al_allowed d'"
proof -
  obtain d where d: "budget_evaluate demo_limits 100 [(''bitget'', 50), (''bitbank'', 20)] domestic_names = Inr d"
      "al_allowed d" "al_total_allocated d = 70"
    by (simp add: budget_evaluate_def venue_reasons_def demo_limits_def domestic_names_def dict_values_def dec_eval Let_def)
  then show ?thesis
    using budget_sound [OF d(1,2), of "[(''bitget'', 10), (''bitbank'', 20)]"] by auto
qed

end
