(* ===== verification/Leg_Execution.thy ===== *)
theory Leg_Execution
  imports Decimal_Arith
begin

text \<open>
  \<open>src/app/domain/execution/leg_state.py\<close>: the state machine of a two-leg cross-venue trade,
  and \<open>src/app/services/emergency_hedge.py\<close>: the choice of a hedge venue. A method that
  raises leaves the machine as it was.
\<close>

section \<open>States and snapshots\<close>

datatype LegExecutionState = PLANNED | FIRST_SUBMITTED | FIRST_PARTIAL | FIRST_FILLED
  | SECOND_SUBMITTED | HEDGED | UNWINDING | COMPLETED | HALTED

datatype PreflightChangeAction = CHASE | PARTIAL_HEDGE | ALTERNATE_HEDGE | UNWIND | HALT

record LegRiskPolicy =
  first_leg_timeout :: timedelta
  second_leg_chase_limit_bps :: dec
  maximum_naked_exposure :: dec
  emergency_hedge_venue :: string
  unwind_policy :: string

definition LegRiskPolicy_validate :: "LegRiskPolicy \<Rightarrow> LegRiskPolicy result" where
  "LegRiskPolicy_validate p =
     bindE (raise_if (second_leg_chase_limit_bps p < 0 \<or> maximum_naked_exposure p \<le> 0)
       (ValueError ''field constraint'')) (\<lambda>_. Inr p)"

record LegExecutionSnapshot =
  ls_state :: LegExecutionState
  ls_started_at :: instant
  ls_updated_at :: instant
  ls_target_quantity :: dec
  ls_first_filled_quantity :: dec
  ls_second_filled_quantity :: dec
  ls_reference_price :: dec
  ls_reason :: string

definition naked_exposure :: "LegExecutionSnapshot \<Rightarrow> dec" where
  "naked_exposure s =
     dmul (dabs (dsub (ls_first_filled_quantity s) (ls_second_filled_quantity s))) (ls_reference_price s)"

record LegExecutionMachine =
  lm_policy :: LegRiskPolicy
  lm_snapshot :: LegExecutionSnapshot

definition LegExecutionMachine_init ::
  "LegRiskPolicy \<Rightarrow> datetime \<Rightarrow> dec \<Rightarrow> dec \<Rightarrow> LegExecutionMachine result" where
  "LegExecutionMachine_init policy started_at quantity price =
     bindE (as_utc ''leg timestamps must be timezone-aware'' started_at) (\<lambda>t.
     bindE (raise_if (quantity \<le> 0 \<or> price \<le> 0) (ValueError ''field constraint'')) (\<lambda>_.
     Inr \<lparr>lm_policy = policy,
          lm_snapshot = \<lparr>ls_state = PLANNED, ls_started_at = t, ls_updated_at = t,
            ls_target_quantity = quantity, ls_first_filled_quantity = 0, ls_second_filled_quantity = 0,
            ls_reference_price = price, ls_reason = ''planned''\<rparr>\<rparr>))"

definition leg_utc :: "datetime \<Rightarrow> instant result" where
  "leg_utc = as_utc ''timestamp must be timezone-aware''"

section \<open>Operations\<close>

definition transition ::
  "LegExecutionState \<Rightarrow> datetime \<Rightarrow> string \<Rightarrow> LegExecutionMachine \<Rightarrow>
   (LegExecutionSnapshot, LegExecutionMachine) outcome" where
  "transition state now reason m =
     (case leg_utc now of
        Inl e \<Rightarrow> (Inl e, m)
      | Inr t \<Rightarrow>
          let s = (lm_snapshot m)\<lparr>ls_state := state, ls_updated_at := t, ls_reason := reason\<rparr>
          in (Inr s, m\<lparr>lm_snapshot := s\<rparr>))"

definition submit_first :: "datetime \<Rightarrow> LegExecutionMachine \<Rightarrow> (LegExecutionSnapshot, LegExecutionMachine) outcome" where
  "submit_first now m = transition FIRST_SUBMITTED now ''first leg submitted'' m"

definition deviation_bps :: "dec \<Rightarrow> LegExecutionSnapshot \<Rightarrow> dec" where
  "deviation_bps price s =
     dmul (ddiv (dabs (dsub price (ls_reference_price s))) (ls_reference_price s)) 10000"

definition submit_second ::
  "datetime \<Rightarrow> dec \<Rightarrow> LegExecutionMachine \<Rightarrow> (LegExecutionSnapshot, LegExecutionMachine) outcome" where
  "submit_second now chase_price m =
     (if chase_price \<le> 0 then (Inl (ValueError ''chase price must be positive''), m)
      else if deviation_bps chase_price (lm_snapshot m) > second_leg_chase_limit_bps (lm_policy m)
      then transition UNWINDING now
             (''second-leg chase limit exceeded; '' @ unwind_policy (lm_policy m)) m
      else transition SECOND_SUBMITTED now ''second leg submitted'' m)"

definition reconciled_state ::
  "dec \<Rightarrow> dec \<Rightarrow> LegExecutionSnapshot \<Rightarrow> LegExecutionState \<times> string" where
  "reconciled_state first_filled second_filled s =
     (if first_filled = ls_target_quantity s \<and> second_filled = ls_target_quantity s
      then (COMPLETED, ''both legs filled'')
      else if second_filled > 0 \<and> second_filled = first_filled
      then (HEDGED, ''filled exposure is hedged'')
      else if first_filled = ls_target_quantity s then (FIRST_FILLED, ''partial fills reconciled'')
      else if first_filled > 0 then (FIRST_PARTIAL, ''partial fills reconciled'')
      else (ls_state s, ''partial fills reconciled''))"

definition reconcile ::
  "datetime \<Rightarrow> dec \<Rightarrow> dec \<Rightarrow> LegExecutionMachine \<Rightarrow>
   (LegExecutionSnapshot, LegExecutionMachine) outcome" where
  "reconcile now first_filled second_filled m =
     (let s = lm_snapshot m in
      if first_filled < ls_first_filled_quantity s \<or> second_filled < ls_second_filled_quantity s
      then (Inl (ValueError ''cumulative fills cannot decrease''), m)
      else if first_filled > ls_target_quantity s \<or> second_filled > ls_target_quantity s
      then (Inl (ValueError ''filled quantity exceeds target''), m)
      else case leg_utc now of
        Inl e \<Rightarrow> (Inl e, m)
      | Inr t \<Rightarrow>
          let (state, reason) = reconciled_state first_filled second_filled s;
              updated = s\<lparr>ls_state := state, ls_updated_at := t, ls_first_filled_quantity := first_filled,
                          ls_second_filled_quantity := second_filled, ls_reason := reason\<rparr>;
              final = (if naked_exposure updated > maximum_naked_exposure (lm_policy m)
                       then updated\<lparr>ls_state := HALTED, ls_reason := ''maximum naked exposure exceeded''\<rparr>
                       else updated)
          in (Inr final, m\<lparr>lm_snapshot := final\<rparr>))"

definition check_timeout ::
  "datetime \<Rightarrow> LegExecutionMachine \<Rightarrow> (LegExecutionSnapshot, LegExecutionMachine) outcome" where
  "check_timeout now m =
     (case leg_utc now of
        Inl e \<Rightarrow> (Inl e, m)
      | Inr t \<Rightarrow>
          if ls_state (lm_snapshot m) \<in> {FIRST_SUBMITTED, FIRST_PARTIAL} \<and>
             t - ls_started_at (lm_snapshot m) \<ge> first_leg_timeout (lm_policy m)
          then transition UNWINDING (Aware t) (unwind_policy (lm_policy m)) m
          else (Inr (lm_snapshot m), m))"

definition then_return ::
  "('a, 's) outcome \<Rightarrow> 'b \<Rightarrow> ('b, 's) outcome" where
  "then_return r x = (case r of (Inl e, s) \<Rightarrow> (Inl e, s) | (Inr _, s) \<Rightarrow> (Inr x, s))"

definition handle_preflight_change ::
  "datetime \<Rightarrow> bool \<Rightarrow> bool \<Rightarrow> dec \<Rightarrow> dec \<Rightarrow> dec \<Rightarrow> bool \<Rightarrow> LegExecutionMachine \<Rightarrow>
   (PreflightChangeAction, LegExecutionMachine) outcome" where
  "handle_preflight_change now evidence_valid execution_health available_collateral
     fillable_quantity expected_vwap alternate_hedge_available m =
     (if \<not> evidence_valid then
        then_return (transition HALTED now ''changed evidence is untrusted'' m) HALT
      else if \<not> execution_health \<and> alternate_hedge_available then
        then_return (transition SECOND_SUBMITTED now ''alternate hedge selected'' m) ALTERNATE_HEDGE
      else if \<not> execution_health \<or> available_collateral \<le> 0 \<or> fillable_quantity \<le> 0 then
        then_return (transition UNWINDING now (unwind_policy (lm_policy m)) m) UNWIND
      else if fillable_quantity < ls_target_quantity (lm_snapshot m) then
        then_return (transition SECOND_SUBMITTED now ''partial hedge selected'' m) PARTIAL_HEDGE
      else if deviation_bps expected_vwap (lm_snapshot m) \<le> second_leg_chase_limit_bps (lm_policy m) then
        then_return (transition SECOND_SUBMITTED now ''chase selected'' m) CHASE
      else then_return (transition UNWINDING now (unwind_policy (lm_policy m)) m) UNWIND)"

section \<open>The machine as a whole\<close>

datatype LegOp =
    Submit_first datetime
  | Submit_second datetime dec
  | Reconcile datetime dec dec
  | Check_timeout datetime
  | Preflight_change datetime bool bool dec dec dec bool

fun leg_step :: "LegOp \<Rightarrow> LegExecutionMachine \<Rightarrow> LegExecutionMachine" where
  "leg_step (Submit_first now) m = snd (submit_first now m)"
| "leg_step (Submit_second now price) m = snd (submit_second now price m)"
| "leg_step (Reconcile now a b) m = snd (reconcile now a b m)"
| "leg_step (Check_timeout now) m = snd (check_timeout now m)"
| "leg_step (Preflight_change now ev he co fq vw al) m =
     snd (handle_preflight_change now ev he co fq vw al m)"

definition leg_inv :: "LegExecutionMachine \<Rightarrow> bool" where
  "leg_inv m \<longleftrightarrow> (let s = lm_snapshot m in
     0 < ls_target_quantity s \<and> 0 < ls_reference_price s \<and>
     0 \<le> ls_first_filled_quantity s \<and> ls_first_filled_quantity s \<le> ls_target_quantity s \<and>
     0 \<le> ls_second_filled_quantity s \<and> ls_second_filled_quantity s \<le> ls_target_quantity s)"

lemma leg_inv_init: "LegExecutionMachine_init p d q price = Inr m \<Longrightarrow> leg_inv m"
  by (auto simp: LegExecutionMachine_init_def leg_inv_def)

text \<open>What no operation changes or lowers.\<close>

definition leg_rel :: "LegExecutionMachine \<Rightarrow> LegExecutionMachine \<Rightarrow> bool" where
  "leg_rel m m' \<longleftrightarrow> lm_policy m' = lm_policy m \<and>
     ls_target_quantity (lm_snapshot m') = ls_target_quantity (lm_snapshot m) \<and>
     ls_reference_price (lm_snapshot m') = ls_reference_price (lm_snapshot m) \<and>
     ls_started_at (lm_snapshot m') = ls_started_at (lm_snapshot m) \<and>
     ls_first_filled_quantity (lm_snapshot m) \<le> ls_first_filled_quantity (lm_snapshot m') \<and>
     ls_second_filled_quantity (lm_snapshot m) \<le> ls_second_filled_quantity (lm_snapshot m')"

lemma transition_state:
  "snd (transition state now reason m) = m \<or>
   (\<exists>t. now = Aware t \<and> snd (transition state now reason m) =
      m\<lparr>lm_snapshot := (lm_snapshot m)\<lparr>ls_state := state, ls_updated_at := t, ls_reason := reason\<rparr>\<rparr>)"
  by (cases now) (auto simp: transition_def leg_utc_def Let_def)

lemma transition_keeps: "leg_inv m \<Longrightarrow> leg_inv (snd (transition st now r m)) \<and> leg_rel m (snd (transition st now r m))"
  using transition_state [of st now r m] by (auto simp: leg_inv_def leg_rel_def Let_def)

lemma then_return_snd [simp]: "snd (then_return r x) = snd r"
  by (auto simp: then_return_def split: prod.splits sum.splits)

lemma reconcile_keeps:
  "leg_inv m \<Longrightarrow> leg_inv (snd (reconcile now a b m)) \<and> leg_rel m (snd (reconcile now a b m))"
  by (cases now) (auto simp: reconcile_def leg_utc_def leg_inv_def leg_rel_def Let_def split_beta)

lemma leg_rel_refl [simp]: "leg_rel m m"
  by (simp add: leg_rel_def)

text \<open>Every operation but \<open>reconcile\<close> leaves the machine alone or makes one transition.\<close>

lemma leg_step_transition:
  "(\<exists>now x y. a = Reconcile now x y) \<or> leg_step a m = m \<or> (\<exists>st now r. leg_step a m = snd (transition st now r m))"
proof (cases a)
  case (Check_timeout now)
  then show ?thesis by (cases now) (auto simp: check_timeout_def leg_utc_def)
qed (auto simp: submit_first_def submit_second_def handle_preflight_change_def)

lemma leg_step_keeps: "leg_inv m \<Longrightarrow> leg_inv (leg_step a m) \<and> leg_rel m (leg_step a m)"
  using leg_step_transition [of a m] transition_keeps [of m] reconcile_keeps [of m] by fastforce

interpretation leg: invariant_machine leg_step "\<lambda>_. True" leg_inv
  by unfold_locales (simp add: leg_step_keeps)

text \<open>
  Whatever sequence of submissions, reconciliations, timeouts and preflight changes a
  two-leg trade goes through, rejected calls included, the cumulative fills of both legs never
  decrease and never exceed the target, and target, reference price and policy stay fixed.
\<close>

theorem leg_run_monotone:
  assumes "LegExecutionMachine_init policy started quantity price = Inr m0"
  shows "let m = fold leg_step (ops1 @ ops2) m0; m1 = fold leg_step ops1 m0 in
    lm_policy m = policy \<and> ls_target_quantity (lm_snapshot m) = quantity \<and>
    ls_reference_price (lm_snapshot m) = price \<and>
    ls_first_filled_quantity (lm_snapshot m1) \<le> ls_first_filled_quantity (lm_snapshot m) \<and>
    ls_second_filled_quantity (lm_snapshot m1) \<le> ls_second_filled_quantity (lm_snapshot m) \<and>
    ls_first_filled_quantity (lm_snapshot m) \<le> quantity \<and> ls_second_filled_quantity (lm_snapshot m) \<le> quantity"
proof -
  have run: "leg_inv x \<Longrightarrow> leg_inv (fold leg_step ops x) \<and> leg_rel x (fold leg_step ops x)" for ops x
    using leg.inv_run [of ops x] leg.rel_run [of leg_rel ops x] leg_step_keeps
    by (auto simp: list_all_iff leg_rel_def dest: order_trans)
  have 0: "leg_inv m0" "lm_policy m0 = policy" "ls_target_quantity (lm_snapshot m0) = quantity"
    "ls_reference_price (lm_snapshot m0) = price"
    using assms leg_inv_init [OF assms] by (auto simp: LegExecutionMachine_init_def)
  have "leg_inv (fold leg_step ops1 m0)" "leg_rel m0 (fold leg_step ops1 m0)" using run [OF 0(1)] by blast+
  then show ?thesis using run [of "fold leg_step ops1 m0" ops2] 0
    by (auto simp: Let_def leg_rel_def leg_inv_def)
qed

definition sample_policy :: LegRiskPolicy where
  "sample_policy = \<lparr>first_leg_timeout = seconds 3, second_leg_chase_limit_bps = 15, maximum_naked_exposure = 500,
     emergency_hedge_venue = ''hedge'', unwind_policy = ''cancel_remainder_then_reduce_filled_leg''\<rparr>"

lemma sample_leg_init: "\<exists>m0. LegExecutionMachine_init sample_policy (Aware 0) 10 100 = Inr m0"
  by (simp add: LegExecutionMachine_init_def)

theorem leg_run_monotone_witness:
  "\<exists>m0. LegExecutionMachine_init sample_policy (Aware 0) 10 100 = Inr m0 \<and>
     ls_first_filled_quantity (lm_snapshot (fold leg_step [Submit_first (Aware 1), Reconcile (Aware 2) 4 0, Reconcile (Aware 3) 2 0] m0)) = 4 \<and>
     ls_first_filled_quantity (lm_snapshot (fold leg_step [Submit_first (Aware 1), Reconcile (Aware 2) 4 0, Reconcile (Aware 3) 2 0] m0)) \<le> 10"
proof -
  obtain m0 where m0: "LegExecutionMachine_init sample_policy (Aware 0) 10 100 = Inr m0" using sample_leg_init by blast
  have "ls_first_filled_quantity (lm_snapshot (fold leg_step [Submit_first (Aware 1), Reconcile (Aware 2) 4 0, Reconcile (Aware 3) 2 0] m0)) = 4"
    using m0 by (auto simp: LegExecutionMachine_init_def submit_first_def transition_def leg_utc_def reconcile_def
        reconciled_state_def naked_exposure_def sample_policy_def Let_def dec_eval)
  then show ?thesis
    using m0 leg_run_monotone [OF m0, of "[]" "[Submit_first (Aware 1), Reconcile (Aware 2) 4 0, Reconcile (Aware 3) 2 0]"]
    by (auto simp: Let_def)
qed

text \<open>
  A reconciliation that succeeds records the reported fills and classifies them: the state
  is \<open>HALTED\<close> exactly when the naked exposure exceeds the policy's maximum (or the machine was
  halted before and nothing is filled); otherwise \<open>COMPLETED\<close> when both legs are full, \<open>HEDGED\<close>
  when the filled quantities agree, and no other state hides an exposure over the limit.
\<close>

theorem reconcile_correct:
  assumes "reconcile now a b m = (Inr s, m')"
  shows "lm_snapshot m' = s \<and> ls_first_filled_quantity s = a \<and> ls_second_filled_quantity s = b \<and>
    (maximum_naked_exposure (lm_policy m) < naked_exposure s \<longrightarrow> ls_state s = HALTED) \<and>
    (naked_exposure s \<le> maximum_naked_exposure (lm_policy m) \<longrightarrow>
       (if a = ls_target_quantity s \<and> b = ls_target_quantity s then ls_state s = COMPLETED
        else if 0 < b \<and> a = b then ls_state s = HEDGED
        else if a = ls_target_quantity s then ls_state s = FIRST_FILLED
        else if 0 < a then ls_state s = FIRST_PARTIAL else ls_state s = ls_state (lm_snapshot m)))"
proof -
  obtain t where now: "now = Aware t"
    using assms(1) by (cases now) (auto simp: reconcile_def leg_utc_def Let_def split: if_splits)
  let ?s = "lm_snapshot m" and ?st = "fst (reconciled_state a b (lm_snapshot m))"
  let ?u = "?s\<lparr>ls_state := ?st, ls_updated_at := t, ls_first_filled_quantity := a,
    ls_second_filled_quantity := b, ls_reason := snd (reconciled_state a b ?s)\<rparr>"
  have s: "lm_snapshot m' = s" "s = (if naked_exposure ?u > maximum_naked_exposure (lm_policy m)
      then ?u\<lparr>ls_state := HALTED, ls_reason := ''maximum naked exposure exceeded''\<rparr> else ?u)"
    using assms(1) now by (auto simp: reconcile_def leg_utc_def Let_def split_beta split: if_splits)
  have ne: "naked_exposure s = naked_exposure ?u" unfolding s(2) by (simp add: naked_exposure_def)
  have st: "?st = (if a = ls_target_quantity ?s \<and> b = ls_target_quantity ?s then COMPLETED
      else if 0 < b \<and> a = b then HEDGED else if a = ls_target_quantity ?s then FIRST_FILLED
      else if 0 < a then FIRST_PARTIAL else ls_state ?s)"
    by (simp add: reconciled_state_def)
  show ?thesis
  proof (cases "naked_exposure ?u > maximum_naked_exposure (lm_policy m)")
    case True
    then show ?thesis using s ne by simp
  next
    case False
    then have "s = ?u" using s(2) by simp
    then show ?thesis using False s(1) ne st by simp
  qed
qed

theorem reconcile_correct_witness:
  "\<exists>m0 s m'. LegExecutionMachine_init sample_policy (Aware 0) 10 100 = Inr m0 \<and>
     reconcile (Aware 5) 8 2 m0 = (Inr s, m') \<and> ls_state s = HALTED"
proof -
  obtain m0 where m0: "LegExecutionMachine_init sample_policy (Aware 0) 10 100 = Inr m0" using sample_leg_init by blast
  obtain s m' where r: "reconcile (Aware 5) 8 2 m0 = (Inr s, m')" "maximum_naked_exposure (lm_policy m0) < naked_exposure s"
    using m0 by (auto simp: LegExecutionMachine_init_def reconcile_def reconciled_state_def naked_exposure_def
        leg_utc_def sample_policy_def Let_def dec_eval)
  show ?thesis using m0 r reconcile_correct [OF r(1)] by blast
qed

text \<open>
  A preflight change is handled conservatively: the second leg is (re)submitted only on
  valid evidence; chasing happens only with healthy execution, collateral, full depth and a
  deviation within the limit; invalid evidence halts; the machine's state matches the action.
\<close>

theorem preflight_change_safe:
  assumes "handle_preflight_change now ev he co fq vw al m = (Inr act, m')"
  shows "ls_state (lm_snapshot m') =
      (case act of HALT \<Rightarrow> HALTED | UNWIND \<Rightarrow> UNWINDING | _ \<Rightarrow> SECOND_SUBMITTED) \<and>
    (act = HALT \<longleftrightarrow> \<not> ev) \<and> (act = ALTERNATE_HEDGE \<longleftrightarrow> ev \<and> \<not> he \<and> al) \<and>
    (act \<in> {CHASE, PARTIAL_HEDGE} \<longrightarrow> ev \<and> he \<and> 0 < co \<and> 0 < fq) \<and>
    (act = CHASE \<longleftrightarrow> ev \<and> he \<and> 0 < co \<and> 0 < fq \<and> ls_target_quantity (lm_snapshot m) \<le> fq \<and>
       deviation_bps vw (lm_snapshot m) \<le> second_leg_chase_limit_bps (lm_policy m))"
  using assms
  by (cases now) (auto simp: handle_preflight_change_def then_return_def transition_def leg_utc_def Let_def not_less
      split: if_splits)

theorem preflight_change_safe_witness:
  "\<exists>m0 m'. LegExecutionMachine_init sample_policy (Aware 0) 10 100 = Inr m0 \<and>
     handle_preflight_change (Aware 5) True True 50 10 (1001 / 10) False m0 = (Inr CHASE, m') \<and>
     ls_state (lm_snapshot m') = SECOND_SUBMITTED"
proof -
  obtain m0 where m0: "LegExecutionMachine_init sample_policy (Aware 0) 10 100 = Inr m0" using sample_leg_init by blast
  obtain m' where h: "handle_preflight_change (Aware 5) True True 50 10 (1001 / 10) False m0 = (Inr CHASE, m')"
    using m0 by (auto simp: LegExecutionMachine_init_def handle_preflight_change_def deviation_bps_def then_return_def
        transition_def leg_utc_def sample_policy_def Let_def dec_eval)
  show ?thesis using m0 h preflight_change_safe [OF h] by auto
qed

text \<open>
  A naked-exposure breach does not stop new work: there is a trade that \<open>reconcile\<close> puts
  in \<open>HALTED\<close> because its naked exposure exceeds the maximum, and a later \<open>submit_second\<close> moves
  it to \<open>SECOND_SUBMITTED\<close> with the exposure still above the maximum.
\<close>

theorem halted_leg_can_resume:
  "\<exists>m0 m1 s1 s2 m2. LegExecutionMachine_init sample_policy (Aware 0) 10 100 = Inr m0 \<and>
     reconcile (Aware 5) 8 2 m0 = (Inr s1, m1) \<and> ls_state s1 = HALTED \<and>
     submit_second (Aware 6) 100 m1 = (Inr s2, m2) \<and> ls_state s2 = SECOND_SUBMITTED \<and>
     maximum_naked_exposure (lm_policy m2) < naked_exposure s2"
  by (simp add: LegExecutionMachine_init_def reconcile_def reconciled_state_def naked_exposure_def submit_second_def
      deviation_bps_def transition_def leg_utc_def sample_policy_def Let_def dec_eval)

section \<open>The emergency hedge venue\<close>

text \<open>\<open>h_is_concrete\<close> is the attribute of the candidate's execution adapter.\<close>

record HedgeVenueCandidate =
  h_venue :: string
  h_is_concrete :: bool
  h_eligible :: bool
  h_live_health :: bool
  h_instrument_equivalent :: bool
  h_executable_depth :: dec
  h_estimated_slippage :: dec
  h_latency_ms :: dec
  h_available_collateral :: dec
  h_withdrawals_available :: bool
  h_chain_healthy :: bool
  h_exposure_within_budget :: bool

definition hedge_gates :: "HedgeVenueCandidate \<Rightarrow> bool" where
  "hedge_gates c \<longleftrightarrow> h_eligible c \<and> h_live_health c \<and> h_instrument_equivalent c \<and>
     h_withdrawals_available c \<and> h_chain_healthy c \<and> h_exposure_within_budget c \<and> h_is_concrete c \<and>
     0 < h_available_collateral c \<and> 0 < h_executable_depth c"

definition hedge_key :: "HedgeVenueCandidate \<Rightarrow> dec \<times> dec \<times> dec \<times> dec" where
  "hedge_key c = (h_executable_depth c, dneg (h_estimated_slippage c), dneg (h_latency_ms c),
     h_available_collateral c)"

text \<open>\<open>max(xs, key=k)\<close>: the first element with the greatest key.\<close>

fun max_by :: "('a \<Rightarrow> 'k::linorder) \<Rightarrow> 'a \<Rightarrow> 'a list \<Rightarrow> 'a" where
  "max_by k best [] = best"
| "max_by k best (x # xs) = max_by k (if k x > k best then x else best) xs"

definition select_emergency_hedge :: "HedgeVenueCandidate list \<Rightarrow> HedgeVenueCandidate result" where
  "select_emergency_hedge candidates =
     (case filter hedge_gates candidates of
        [] \<Rightarrow> Inl (RuntimeError ''no concrete execution venue satisfies emergency hedge gates'')
      | c # rest \<Rightarrow> Inr (max_by hedge_key c rest))"

lemma max_by_mem: "max_by k best xs \<in> insert best (set xs)"
  by (induction xs arbitrary: best) auto

lemma max_by_ge: "k best \<le> k (max_by k best xs) \<and> (\<forall>x \<in> set xs. k x \<le> k (max_by k best xs))"
proof (induction xs arbitrary: best)
  case (Cons x xs)
  show ?case using Cons.IH [of "if k x > k best then x else best"]
    by (auto split: if_splits intro: order_trans less_imp_le)
qed simp

text \<open>
  The emergency hedge venue is one of the candidates, passes every gate, and is the best
  of those that do (deepest, then least slippage, least latency, most collateral); the
  selection fails exactly when no candidate passes.
\<close>

theorem emergency_hedge_best:
  "case select_emergency_hedge candidates of
     Inl e \<Rightarrow> (\<forall>c \<in> set candidates. \<not> hedge_gates c)
   | Inr best \<Rightarrow> best \<in> set candidates \<and> hedge_gates best \<and>
       (\<forall>c \<in> set candidates. hedge_gates c \<longrightarrow> hedge_key c \<le> hedge_key best)"
proof (cases "filter hedge_gates candidates")
  case Nil
  then show ?thesis by (auto simp: select_emergency_hedge_def filter_empty_conv)
next
  case (Cons c rest)
  then have set: "set (c # rest) = {x \<in> set candidates. hedge_gates x}" by (metis set_filter)
  show ?thesis
    using Cons set max_by_mem [of hedge_key c rest] max_by_ge [of hedge_key c rest]
    by (auto simp: select_emergency_hedge_def simp del: less_eq_prod_simp)
qed

definition demo_hedge :: "string \<Rightarrow> dec \<Rightarrow> HedgeVenueCandidate" where
  "demo_hedge venue depth = \<lparr>h_venue = venue, h_is_concrete = True, h_eligible = True, h_live_health = True,
     h_instrument_equivalent = True, h_executable_depth = depth, h_estimated_slippage = 1, h_latency_ms = 10,
     h_available_collateral = 100, h_withdrawals_available = True, h_chain_healthy = True,
     h_exposure_within_budget = True\<rparr>"

theorem emergency_hedge_best_witness:
  "select_emergency_hedge [demo_hedge ''a'' 5, demo_hedge ''b'' 7] = Inr (demo_hedge ''b'' 7) \<and>
     hedge_key (demo_hedge ''a'' 5) \<le> hedge_key (demo_hedge ''b'' 7)"
proof -
  have sel: "select_emergency_hedge [demo_hedge ''a'' 5, demo_hedge ''b'' 7] = Inr (demo_hedge ''b'' 7)"
    and gate: "hedge_gates (demo_hedge ''a'' 5)"
    by (simp_all add: select_emergency_hedge_def hedge_gates_def hedge_key_def demo_hedge_def)
  show ?thesis
    using emergency_hedge_best [of "[demo_hedge ''a'' 5, demo_hedge ''b'' 7]"] sel gate by simp
qed

end
