(* ===== verification/Risk_Models.thy ===== *)
theory Risk_Models
  imports Decimal_Arith
begin

text \<open>
  The data of risk management: \<open>Signal\<close> (\<open>src/app/domain/strategies/models.py\<close>), regimes
  (\<open>src/app/domain/regimes/models.py\<close>) and the limits, states and decisions of
  \<open>src/app/domain/risk/models.py\<close>. A pydantic model is a record with a validation function
  for its field constraints and validators. A binary float that is only compared or passed
  through \<open>Decimal(str(x))\<close> is represented by the rational of its shortest decimal form,
  which preserves order and makes the conversion the identity.
\<close>

section \<open>Signals\<close>

datatype Regime = TREND_UP | TREND_DOWN | RANGE | HIGH_VOLATILITY | LOW_VOLATILITY | LONG_SQUEEZE
  | SHORT_SQUEEZE | LIQUIDATION_CASCADE | FLASH_CRASH | FUNDING_EXTREME_POSITIVE
  | FUNDING_EXTREME_NEGATIVE | OI_EXPANSION | OI_CONTRACTION | SPOT_LED_MOVE | PERP_LED_MOVE
  | RISK_OFF | UNKNOWN

datatype SignalSide = Buy_side | Sell_side | Flat_side
datatype SignalIntent = ENTRY | EXIT | REDUCE

record Signal =
  sg_signal_id :: string
  sg_timestamp :: instant
  sg_symbol :: string
  sg_exchange :: "string option"
  sg_side :: SignalSide
  sg_intent :: SignalIntent
  sg_strength :: dec
  sg_confidence :: dec
  sg_suggested_risk_fraction :: dec
  sg_primary_regime :: Regime
  sg_data_quality_score :: dec
  sg_valid_until :: instant

definition in_range :: "dec \<Rightarrow> dec \<Rightarrow> dec \<Rightarrow> bool" where
  "in_range lo hi x \<longleftrightarrow> lo \<le> x \<and> x \<le> hi"

definition above_upto :: "dec \<Rightarrow> dec \<Rightarrow> dec \<Rightarrow> bool" where
  "above_upto lo hi x \<longleftrightarrow> lo < x \<and> x \<le> hi"

definition validate_signal_semantics :: "Signal \<Rightarrow> Signal result" where
  "validate_signal_semantics s =
     bindE (raise_if (sg_valid_until s \<le> sg_timestamp s)
       (ValueError ''valid_until must be later than timestamp'')) (\<lambda>_.
     if sg_side s = Flat_side then
       bindE (raise_if (sg_strength s \<noteq> 0 \<or> sg_intent s = ENTRY)
         (ValueError ''flat signals must be non-entry signals with zero strength'')) (\<lambda>_. Inr s)
     else
       bindE (raise_if (sg_strength s \<le> 0)
         (ValueError ''actionable signals require positive strength'')) (\<lambda>_. Inr s))"

definition Signal_validate :: "Signal \<Rightarrow> Signal result" where
  "Signal_validate s =
     bindE (raise_if (\<not> (16 \<le> length (sg_signal_id s) \<and> length (sg_signal_id s) \<le> 64 \<and>
         sg_symbol s \<noteq> [] \<and> in_range 0 1 (sg_strength s) \<and> in_range 0 1 (sg_confidence s) \<and>
         above_upto 0 (1 / 100) (sg_suggested_risk_fraction s) \<and>
         in_range 0 1 (sg_data_quality_score s)))
       (ValueError ''field constraint'')) (\<lambda>_. validate_signal_semantics s)"

section \<open>Limits and state\<close>

datatype SizingMethod = CONSERVATIVE_MINIMUM | FIXED_FRACTIONAL | VOLATILITY_TARGETING | ATR_BASED
  | MAXIMUM_LOSS

fun sizing_value :: "SizingMethod \<Rightarrow> string" where
  "sizing_value CONSERVATIVE_MINIMUM = ''conservative_minimum''"
| "sizing_value FIXED_FRACTIONAL = ''fixed_fractional''"
| "sizing_value VOLATILITY_TARGETING = ''volatility_targeting''"
| "sizing_value ATR_BASED = ''atr_based''"
| "sizing_value MAXIMUM_LOSS = ''maximum_loss''"

datatype RiskHaltReason = MANUAL_KILL_SWITCH | DAILY_LOSS | WEEKLY_LOSS | MAX_DRAWDOWN
  | CONSECUTIVE_LOSSES | DATA_ANOMALY | API_UNHEALTHY | WEBSOCKET_DISCONNECTED | PRICE_DIVERGENCE
  | SPREAD_ANOMALY | COOLDOWN

fun halt_value :: "RiskHaltReason \<Rightarrow> string" where
  "halt_value MANUAL_KILL_SWITCH = ''manual_kill_switch''"
| "halt_value DAILY_LOSS = ''daily_loss_limit''"
| "halt_value WEEKLY_LOSS = ''weekly_loss_limit''"
| "halt_value MAX_DRAWDOWN = ''maximum_drawdown''"
| "halt_value CONSECUTIVE_LOSSES = ''consecutive_losses''"
| "halt_value DATA_ANOMALY = ''data_anomaly''"
| "halt_value API_UNHEALTHY = ''api_unhealthy''"
| "halt_value WEBSOCKET_DISCONNECTED = ''websocket_disconnected''"
| "halt_value PRICE_DIVERGENCE = ''price_divergence''"
| "halt_value SPREAD_ANOMALY = ''spread_anomaly''"
| "halt_value COOLDOWN = ''cooldown''"

record RiskLimits =
  maximum_leverage :: dec
  maximum_risk_per_trade :: dec
  maximum_daily_loss :: dec
  maximum_weekly_loss :: dec
  maximum_drawdown :: dec
  maximum_gross_exposure :: dec
  maximum_symbol_exposure :: dec
  maximum_exchange_exposure :: dec
  maximum_positions :: nat
  maximum_consecutive_losses :: nat
  minimum_data_quality :: dec
  minimum_signal_confidence :: dec
  maximum_spread_fraction :: dec
  maximum_price_divergence_fraction :: dec
  cooldown_seconds :: nat
  annual_volatility_target :: dec
  atr_multiple :: dec
  maximum_loss_floor_fraction :: dec
  sizing_method :: SizingMethod

definition default_limits :: RiskLimits where
  "default_limits = \<lparr>maximum_leverage = 1, maximum_risk_per_trade = 25 / 10000,
     maximum_daily_loss = 1 / 100, maximum_weekly_loss = 3 / 100, maximum_drawdown = 8 / 100,
     maximum_gross_exposure = 1, maximum_symbol_exposure = 35 / 100,
     maximum_exchange_exposure = 50 / 100, maximum_positions = 3, maximum_consecutive_losses = 5,
     minimum_data_quality = 80 / 100, minimum_signal_confidence = 60 / 100,
     maximum_spread_fraction = 5 / 1000, maximum_price_divergence_fraction = 2 / 100,
     cooldown_seconds = 1800, annual_volatility_target = 10 / 100, atr_multiple = 2,
     maximum_loss_floor_fraction = 1 / 100, sizing_method = CONSERVATIVE_MINIMUM\<rparr>"

definition limit_fields_ok :: "RiskLimits \<Rightarrow> bool" where
  "limit_fields_ok c \<longleftrightarrow> above_upto 0 1 (maximum_leverage c) \<and>
     above_upto 0 (1 / 100) (maximum_risk_per_trade c) \<and> above_upto 0 (5 / 100) (maximum_daily_loss c) \<and>
     above_upto 0 (10 / 100) (maximum_weekly_loss c) \<and> above_upto 0 (20 / 100) (maximum_drawdown c) \<and>
     above_upto 0 1 (maximum_gross_exposure c) \<and> above_upto 0 1 (maximum_symbol_exposure c) \<and>
     above_upto 0 1 (maximum_exchange_exposure c) \<and>
     1 \<le> maximum_positions c \<and> maximum_positions c \<le> 20 \<and>
     1 \<le> maximum_consecutive_losses c \<and> maximum_consecutive_losses c \<le> 20 \<and>
     in_range 0 1 (minimum_data_quality c) \<and> in_range 0 1 (minimum_signal_confidence c) \<and>
     above_upto 0 (5 / 100) (maximum_spread_fraction c) \<and>
     above_upto 0 (20 / 100) (maximum_price_divergence_fraction c) \<and>
     1 \<le> cooldown_seconds c \<and> cooldown_seconds c \<le> 86400 \<and>
     above_upto 0 (50 / 100) (annual_volatility_target c) \<and> in_range 1 10 (atr_multiple c) \<and>
     above_upto 0 (10 / 100) (maximum_loss_floor_fraction c)"

definition RiskLimits_validate :: "RiskLimits \<Rightarrow> RiskLimits result" where
  "RiskLimits_validate c =
     bindE (raise_if (\<not> limit_fields_ok c) (ValueError ''field constraint'')) (\<lambda>_.
     bindE (raise_if (maximum_symbol_exposure c > maximum_gross_exposure c)
       (ValueError ''symbol exposure cannot exceed gross exposure'')) (\<lambda>_.
     bindE (raise_if (maximum_exchange_exposure c > maximum_gross_exposure c)
       (ValueError ''exchange exposure cannot exceed gross exposure'')) (\<lambda>_.
     bindE (raise_if (maximum_weekly_loss c < maximum_daily_loss c)
       (ValueError ''weekly loss limit cannot be below the daily limit'')) (\<lambda>_.
     Inr c))))"

record RiskState =
  r_timestamp :: instant
  r_equity :: dec
  r_peak_equity :: dec
  r_day_start_equity :: dec
  r_week_start_equity :: dec
  r_realized_pnl_today :: dec
  r_realized_pnl_week :: dec
  r_gross_exposure :: dec
  r_symbol_exposures :: "(string, dec) dict"
  r_exchange_exposures :: "(string, dec) dict"
  r_open_positions :: nat
  r_consecutive_losses :: nat
  r_data_quality_score :: dec
  r_data_healthy :: bool
  r_api_healthy :: bool
  r_websocket_connected :: bool
  r_spread_fraction :: dec
  r_price_divergence_fraction :: dec

definition RiskState_validate :: "RiskState \<Rightarrow> datetime \<Rightarrow> RiskState result" where
  "RiskState_validate st timestamp =
     bindE (raise_if (\<not> (0 < r_equity st \<and> 0 < r_peak_equity st \<and> 0 < r_day_start_equity st \<and>
         0 < r_week_start_equity st \<and> 0 \<le> r_gross_exposure st \<and>
         in_range 0 1 (r_data_quality_score st) \<and> 0 \<le> r_spread_fraction st \<and>
         0 \<le> r_price_divergence_fraction st)) (ValueError ''field constraint'')) (\<lambda>_.
     bindE (as_utc ''timestamp must be timezone-aware'' timestamp) (\<lambda>ts.
     bindE (raise_if (list_ex (\<lambda>e. e < 0) (dict_values (r_symbol_exposures st)) \<or>
         list_ex (\<lambda>e. e < 0) (dict_values (r_exchange_exposures st)))
       (ValueError ''exposures must be non-negative absolute notionals'')) (\<lambda>_.
     bindE (raise_if (r_peak_equity st < r_equity st)
       (ValueError ''peak_equity cannot be below current equity'')) (\<lambda>_.
     Inr (st\<lparr>r_timestamp := ts\<rparr>)))))"

definition daily_loss_fraction :: "RiskState \<Rightarrow> dec" where
  "daily_loss_fraction st = max (ddiv (dneg (r_realized_pnl_today st)) (r_day_start_equity st)) 0"

definition weekly_loss_fraction :: "RiskState \<Rightarrow> dec" where
  "weekly_loss_fraction st = max (ddiv (dneg (r_realized_pnl_week st)) (r_week_start_equity st)) 0"

definition drawdown_fraction :: "RiskState \<Rightarrow> dec" where
  "drawdown_fraction st = max (ddiv (dsub (r_peak_equity st) (r_equity st)) (r_peak_equity st)) 0"

section \<open>Results\<close>

text \<open>Formatted numbers in messages stay structured; the rest of a message is its text.\<close>

datatype reason_text =
    Text string
  | Confidence_below dec dec
  | Quality_below dec dec
  | Daily_loss_reached dec
  | Weekly_loss_reached dec
  | Drawdown_reached dec
  | Consecutive_losses_reached nat
  | Spread_abnormal dec
  | Divergence_abnormal dec
  | Notional_below dec dec
  | Breaker_active "RiskHaltReason list"

record PositionSizingResult =
  z_accepted :: bool
  z_quantity :: dec
  z_notional :: dec
  z_risk_amount :: dec
  z_binding_constraint :: string
  z_candidate_notionals :: "(string, dec) dict"
  z_reason :: reason_text

definition PositionSizingResult_validate :: "PositionSizingResult \<Rightarrow> PositionSizingResult result" where
  "PositionSizingResult_validate z =
     bindE (raise_if (\<not> (0 \<le> z_quantity z \<and> 0 \<le> z_notional z \<and> 0 \<le> z_risk_amount z))
       (ValueError ''field constraint'')) (\<lambda>_.
     bindE (raise_if (\<not> z_accepted z \<and> (z_quantity z \<noteq> 0 \<or> z_notional z \<noteq> 0))
       (ValueError ''rejected sizing results must have zero quantity and notional'')) (\<lambda>_.
     Inr z))"

text \<open>The decision identifier \<open>risk:<signal id>:<timestamp>\<close> is kept as its two parts.\<close>

record RiskDecision =
  d_decision_id :: "string \<times> instant"
  d_allowed :: bool
  d_reasons :: "reason_text list"
  d_sizing :: "PositionSizingResult option"
  d_evaluated_at :: instant
  d_breaker_reasons :: "RiskHaltReason list"

definition RiskDecision_validate :: "RiskDecision \<Rightarrow> RiskDecision result" where
  "RiskDecision_validate d =
     bindE (raise_if (d_reasons d = []) (ValueError ''field constraint'')) (\<lambda>_.
     bindE (raise_if (d_allowed d \<and> (case d_sizing d of None \<Rightarrow> False | Some z \<Rightarrow> \<not> z_accepted z))
       (ValueError ''allowed risk decision cannot contain rejected sizing'')) (\<lambda>_.
     Inr d))"

record CircuitBreakerStatus =
  bs_active :: bool
  bs_reasons :: "RiskHaltReason list"
  bs_details :: "(RiskHaltReason, string) dict"
  bs_tripped_at :: "instant option"
  bs_resume_at :: "instant option"
  bs_requires_manual_reset :: bool

section \<open>Well-formedness\<close>

definition limits_ok :: "RiskLimits \<Rightarrow> bool" where
  "limits_ok c \<longleftrightarrow> RiskLimits_validate c = Inr c"

definition state_ok :: "RiskState \<Rightarrow> bool" where
  "state_ok st \<longleftrightarrow> RiskState_validate st (Aware (r_timestamp st)) = Inr st"

lemma default_limits_ok: "limits_ok default_limits"
  by (simp add: limits_ok_def RiskLimits_validate_def limit_fields_ok_def default_limits_def
      above_upto_def in_range_def)

lemma limits_okD:
  assumes "limits_ok c"
  shows "0 < maximum_leverage c" "0 < maximum_risk_per_trade c" "0 < maximum_gross_exposure c"
    "0 < maximum_symbol_exposure c" "0 < maximum_exchange_exposure c" "1 \<le> cooldown_seconds c"
    "0 < annual_volatility_target c" "1 \<le> atr_multiple c" "0 < maximum_loss_floor_fraction c"
    "maximum_leverage c \<le> 1" "maximum_risk_per_trade c \<le> 1 / 100"
  using assms
  by (simp_all add: limits_ok_def RiskLimits_validate_def limit_fields_ok_def above_upto_def in_range_def)

lemma state_okD:
  assumes "state_ok st"
  shows "0 < r_equity st" "0 \<le> r_gross_exposure st" "r_equity st \<le> r_peak_equity st"
    "0 < r_day_start_equity st" "0 < r_week_start_equity st"
  using assms by (simp_all add: state_ok_def RiskState_validate_def not_less)

end
