(* ===== verification/Risk_Sizing.thy ===== *)
theory Risk_Sizing
  imports Risk_Models
begin

text \<open>
  \<open>src/app/domain/risk/sizing.py\<close>: position sizing. Every candidate notional is computed, the
  configured method selects which of them bind, and the smallest one caps the size.
  (\<open>diagonal_risk_parity_weights\<close> computes with binary floats and is not modelled.)
\<close>

section \<open>Sizing\<close>

definition reject_size :: "reason_text \<Rightarrow> (string, dec) dict \<Rightarrow> string \<Rightarrow> dec \<Rightarrow> PositionSizingResult" where
  "reject_size reason candidates binding_constraint risk_amount =
     \<lparr>z_accepted = False, z_quantity = 0, z_notional = 0, z_risk_amount = risk_amount,
      z_binding_constraint = binding_constraint, z_candidate_notionals = candidates,
      z_reason = reason\<rparr>"

abbreviation reject_input :: "string \<Rightarrow> PositionSizingResult" where
  "reject_input msg \<equiv> reject_size (Text msg) [] ''invalid_input'' 0"

definition exposure_names :: "string list" where
  "exposure_names = [''gross_exposure'', ''leverage'', ''symbol_exposure'', ''exchange_exposure'']"

definition select_candidates :: "RiskLimits \<Rightarrow> (string, dec) dict \<Rightarrow> (string, dec) dict result" where
  "select_candidates limits candidates =
     (let always = filter (\<lambda>(name, value). name \<in> set exposure_names) candidates in
      if sizing_method limits = CONSERVATIVE_MINIMUM then Inr candidates
      else case map_of candidates (sizing_value (sizing_method limits)) of
        None \<Rightarrow> Inl (ValueError (sizing_value (sizing_method limits) @
                  '' sizing requires an unavailable input''))
      | Some requested \<Rightarrow> Inr ((sizing_value (sizing_method limits), requested) # always))"

text \<open>\<open>min(items, key=value)\<close>: the first item with the least value.\<close>

fun min_item :: "('k \<times> dec) \<Rightarrow> ('k \<times> dec) list \<Rightarrow> 'k \<times> dec" where
  "min_item best [] = best"
| "min_item best (x # xs) = min_item (if snd x < snd best then x else best) xs"

definition risk_amount_of :: "RiskLimits \<Rightarrow> Signal \<Rightarrow> RiskState \<Rightarrow> dec" where
  "risk_amount_of limits signal st =
     (let risk_fraction = min (sg_suggested_risk_fraction signal) (maximum_risk_per_trade limits);
          evidence_scale = min (sg_strength signal) (sg_confidence signal)
      in dmul (dmul (r_equity st) risk_fraction) evidence_scale)"

definition stop_fraction_of :: "dec \<Rightarrow> dec \<Rightarrow> dec" where
  "stop_fraction_of entry_price stop_price = ddiv (dabs (dsub entry_price stop_price)) entry_price"

definition base_candidates :: "RiskLimits \<Rightarrow> dec \<Rightarrow> dec \<Rightarrow> (string, dec) dict" where
  "base_candidates limits risk_amount stop_fraction =
     [(''fixed_fractional'', ddiv risk_amount stop_fraction),
      (''maximum_loss'', ddiv risk_amount (max stop_fraction (maximum_loss_floor_fraction limits)))]"

definition capacity :: "RiskState \<Rightarrow> dec \<Rightarrow> dec \<Rightarrow> dec" where
  "capacity st limit used = max (dsub (dmul (r_equity st) limit) used) 0"

definition dict_get :: "('k, 'v) dict \<Rightarrow> 'k \<Rightarrow> 'v \<Rightarrow> 'v" where
  "dict_get d k dflt = (case map_of d k of Some v \<Rightarrow> v | None \<Rightarrow> dflt)"

definition exchange_key :: "Signal \<Rightarrow> string" where
  "exchange_key signal = (case sg_exchange signal of Some e \<Rightarrow> e | None \<Rightarrow> [])"

definition exposure_candidates :: "RiskLimits \<Rightarrow> Signal \<Rightarrow> RiskState \<Rightarrow> (string, dec) dict" where
  "exposure_candidates limits signal st =
     [(''gross_exposure'', capacity st (maximum_gross_exposure limits) (r_gross_exposure st)),
      (''leverage'', capacity st (maximum_leverage limits) (r_gross_exposure st)),
      (''symbol_exposure'', capacity st (maximum_symbol_exposure limits)
         (dict_get (r_symbol_exposures st) (sg_symbol signal) 0)),
      (''exchange_exposure'', capacity st (maximum_exchange_exposure limits)
         (dict_get (r_exchange_exposures st) (exchange_key signal) 0))]"

definition atr_candidate ::
  "RiskLimits \<Rightarrow> dec \<Rightarrow> dec \<Rightarrow> dec option \<Rightarrow> PositionSizingResult + (string, dec) dict" where
  "atr_candidate limits entry_price risk_amount atr =
     (case atr of
        None \<Rightarrow> Inr []
      | Some a \<Rightarrow>
          if a \<le> 0 then Inl (reject_input ''ATR must be positive when supplied'')
          else Inr [(''atr_based'', ddiv risk_amount (ddiv (dmul (atr_multiple limits) a) entry_price))])"

definition volatility_candidate ::
  "RiskLimits \<Rightarrow> RiskState \<Rightarrow> dec option \<Rightarrow> PositionSizingResult + (string, dec) dict" where
  "volatility_candidate limits st annualized_volatility =
     (case annualized_volatility of
        None \<Rightarrow> Inr []
      | Some v \<Rightarrow>
          if v \<le> 0 then Inl (reject_input ''annualized volatility must be positive when supplied'')
          else Inr [(''volatility_targeting'',
                 ddiv (dmul (r_equity st) (annual_volatility_target limits)) v)])"

text \<open>The six checks of the inputs, in the order of the code.\<close>

definition input_problem ::
  "Signal \<Rightarrow> dec \<Rightarrow> dec option \<Rightarrow> dec option \<Rightarrow> dec option \<Rightarrow> string option" where
  "input_problem signal entry_price stop_price lot_size minimum_notional =
     (if entry_price \<le> 0 then Some ''entry price must be positive''
      else case stop_price of
        None \<Rightarrow> Some ''a distinct positive stop price is required''
      | Some stop \<Rightarrow>
          if stop \<le> 0 \<or> stop = entry_price then Some ''a distinct positive stop price is required''
          else if sg_side signal = Buy_side \<and> stop \<ge> entry_price
            then Some ''buy entry stop must be below entry price''
          else if sg_side signal = Sell_side \<and> stop \<le> entry_price
            then Some ''sell entry stop must be above entry price''
          else if (case lot_size of None \<Rightarrow> False | Some l \<Rightarrow> l \<le> 0)
            then Some ''lot_size must be positive''
          else if (case minimum_notional of None \<Rightarrow> False | Some n \<Rightarrow> n < 0)
            then Some ''minimum_notional cannot be negative''
          else None)"

definition round_to_lot :: "dec option \<Rightarrow> dec \<Rightarrow> dec" where
  "round_to_lot lot_size quantity =
     (case lot_size of
        None \<Rightarrow> quantity
      | Some l \<Rightarrow> dmul (round_floor (ddiv quantity l)) l)"

text \<open>From the selected candidates on: the cap, the rounding and the two last checks.\<close>

definition finish_size ::
  "dec \<Rightarrow> dec \<Rightarrow> dec option \<Rightarrow> dec option \<Rightarrow> (string, dec) dict \<Rightarrow> (string, dec) dict \<Rightarrow>
   PositionSizingResult" where
  "finish_size entry_price risk_amount lot_size minimum_notional candidates selected =
     (let (binding_constraint, capped_notional) = min_item (hd selected) (tl selected) in
      if capped_notional \<le> 0 \<or> risk_amount \<le> 0 then
        reject_size (Text ''risk or exposure budget is exhausted'') candidates binding_constraint risk_amount
      else
        let quantity = round_to_lot lot_size (ddiv capped_notional entry_price);
            notional = dmul quantity entry_price
        in if quantity \<le> 0 then
             reject_size (Text ''quantity rounds to zero at configured lot size'') candidates
               binding_constraint risk_amount
           else if (case minimum_notional of None \<Rightarrow> False | Some n \<Rightarrow> notional < n) then
             reject_size (Notional_below notional (the minimum_notional)) candidates
               binding_constraint risk_amount
           else \<lparr>z_accepted = True, z_quantity = quantity, z_notional = notional,
                 z_risk_amount = risk_amount, z_binding_constraint = binding_constraint,
                 z_candidate_notionals = candidates,
                 z_reason = Text ''sized to the most conservative active constraint''\<rparr>)"

definition size_position ::
  "RiskLimits \<Rightarrow> Signal \<Rightarrow> dec \<Rightarrow> dec option \<Rightarrow> RiskState \<Rightarrow> dec option \<Rightarrow> dec option \<Rightarrow> dec option \<Rightarrow>
   dec option \<Rightarrow> PositionSizingResult result" where
  "size_position limits signal entry_price stop_price st atr annualized_volatility lot_size
     minimum_notional =
     (case input_problem signal entry_price stop_price lot_size minimum_notional of
        Some msg \<Rightarrow> Inr (reject_input msg)
      | None \<Rightarrow>
          let risk_amount = risk_amount_of limits signal st;
              stop_fraction = stop_fraction_of entry_price (the stop_price)
          in case atr_candidate limits entry_price risk_amount atr of
            Inl z \<Rightarrow> Inr z
          | Inr c1 \<Rightarrow>
              case volatility_candidate limits st annualized_volatility of
                Inl z \<Rightarrow> Inr z
              | Inr c2 \<Rightarrow>
                  let candidates = base_candidates limits risk_amount stop_fraction @ c1 @ c2 @
                        exposure_candidates limits signal st
                  in bindE (select_candidates limits candidates) (\<lambda>selected.
                     Inr (finish_size entry_price risk_amount lot_size minimum_notional candidates selected)))"

section \<open>The cap\<close>

lemma min_item_le: "snd (min_item best xs) \<le> snd best \<and> (\<forall>x \<in> set xs. snd (min_item best xs) \<le> snd x)"
  by (induction xs arbitrary: best) (auto, (meson less_imp_le not_less order_trans)+)

lemma min_item_mem: "min_item best xs \<in> insert best (set xs)"
  by (induction xs arbitrary: best) auto

lemma round_to_lot_upper:
  assumes "0 \<le> q" "\<forall>l \<in> set_option lot. 0 < l"
  shows "round_to_lot lot q \<le> q * (1 + 2 / 10 ^ 27)"
proof (cases lot)
  case None
  then show ?thesis using assms by (simp add: round_to_lot_def mult_le_cancel_left1)
next
  case (Some l)
  then have l: "0 < l" and nn: "0 \<le> ddiv q l" using assms by (simp_all add: dec_sign)
  have "0 \<le> round_floor (ddiv q l)" using nn by (simp add: round_floor_def)
  then show ?thesis
    using ddiv_mul_upper [OF assms(1) l] round_floor_bounds [of "ddiv q l"] Some by (simp add: round_to_lot_def)
qed

lemma finish_size_accepted:
  assumes "finish_size entry risk lot minn cands selected = z" "z_accepted z" "selected \<noteq> []"
    "0 < entry" "\<forall>l \<in> set_option lot. 0 < l"
  shows "\<exists>cap. 0 < cap \<and> (\<forall>(nm, v) \<in> set selected. cap \<le> v) \<and> 0 < risk \<and> 0 < z_quantity z \<and>
    z_notional z = dmul (z_quantity z) entry \<and> z_risk_amount z = risk \<and>
    z_quantity z * entry \<le> cap * (1 + 3 / 10 ^ 27) \<and> (\<forall>n \<in> set_option minn. n \<le> z_notional z)"
proof -
  obtain nm cap where mi: "min_item (hd selected) (tl selected) = (nm, cap)" by fastforce
  have c: "0 < cap" "0 < risk" and q: "z_quantity z = round_to_lot lot (ddiv cap entry)" "0 < z_quantity z"
    "z_notional z = dmul (z_quantity z) entry" "z_risk_amount z = risk" "\<forall>n \<in> set_option minn. n \<le> z_notional z"
    using assms(1,2) mi
    by (auto simp: finish_size_def reject_size_def Let_def split: if_splits option.splits)
  have le: "\<forall>(nm, v) \<in> set selected. cap \<le> v"
    using min_item_le [of "hd selected" "tl selected"] mi assms(3) by (cases selected) auto
  have q0: "0 \<le> ddiv cap entry" using c(1) assms(4) by (simp add: dec_sign)
  have "ddiv cap entry \<le> cap / entry * (1 + 5 / 10 ^ 28)"
    unfolding ddiv_def using c(1) assms(4) by (intro d28.rnd_upper) simp
  then have "ddiv cap entry * entry \<le> cap * (1 + 5 / 10 ^ 28)" using assms(4) by (simp add: field_simps)
  then have "ddiv cap entry * entry * (1 + 2 / 10 ^ 27) \<le> cap * (1 + 5 / 10 ^ 28) * (1 + 2 / 10 ^ 27)"
    by (intro mult_right_mono) simp_all
  moreover have "z_quantity z * entry \<le> ddiv cap entry * (1 + 2 / 10 ^ 27) * entry"
    using round_to_lot_upper [OF q0 assms(5)] assms(4) unfolding q(1) by (intro mult_right_mono) simp_all
  moreover have "cap * (1 + 5 / 10 ^ 28) * (1 + 2 / 10 ^ 27) \<le> cap * (1 + 3 / 10 ^ 27)"
    using c(1) unfolding mult.assoc by (intro mult_left_mono) simp_all
  ultimately have "z_quantity z * entry \<le> cap * (1 + 3 / 10 ^ 27)" by (simp add: mult.commute mult.left_commute)
  then show ?thesis using c q le by blast
qed

lemma input_problem_None:
  assumes "input_problem sig entry stop lot minn = None"
  obtains st where "stop = Some st" "0 < entry" "0 < st" "st \<noteq> entry" "\<forall>l \<in> set_option lot. 0 < l"
    "sg_side sig = Buy_side \<Longrightarrow> st < entry" "sg_side sig = Sell_side \<Longrightarrow> entry < st"
  using assms by (auto simp: input_problem_def not_le split: if_splits option.splits)

lemma size_position_accepted:
  assumes "size_position limits sig entry stop st atr vol lot minn = Inr z" "z_accepted z"
  obtains s c1 c2 selected where "stop = Some s" "0 < entry" "0 < s" "s \<noteq> entry" "\<forall>l \<in> set_option lot. 0 < l"
    "select_candidates limits (base_candidates limits (risk_amount_of limits sig st) (stop_fraction_of entry s) @
        c1 @ c2 @ exposure_candidates limits sig st) = Inr selected"
    "finish_size entry (risk_amount_of limits sig st) lot minn
       (base_candidates limits (risk_amount_of limits sig st) (stop_fraction_of entry s) @ c1 @ c2 @
        exposure_candidates limits sig st) selected = z"
proof -
  have ip: "input_problem sig entry stop lot minn = None"
    using assms by (auto simp: size_position_def reject_size_def split: option.splits)
  obtain s where s: "stop = Some s" "0 < entry" "0 < s" "s \<noteq> entry" "\<forall>l \<in> set_option lot. 0 < l"
    by (rule input_problem_None [OF ip])
  obtain c1 where c1: "atr_candidate limits entry (risk_amount_of limits sig st) atr = Inr c1"
    using assms ip by (cases "atr_candidate limits entry (risk_amount_of limits sig st) atr")
      (auto simp: size_position_def Let_def atr_candidate_def reject_size_def split: option.splits if_splits)
  obtain c2 where c2: "volatility_candidate limits st vol = Inr c2"
    using assms ip c1 by (cases "volatility_candidate limits st vol")
      (auto simp: size_position_def Let_def volatility_candidate_def reject_size_def split: option.splits if_splits)
  show thesis
    using assms(1) ip s c1 c2 that [of s c1 c2] by (auto simp: size_position_def Let_def)
qed

lemma selected_contains:
  assumes "select_candidates limits cands = Inr selected"
  shows "(\<forall>x \<in> set cands. fst x \<in> set exposure_names \<longrightarrow> x \<in> set selected) \<and>
    (if sizing_method limits = CONSERVATIVE_MINIMUM then selected = cands
     else \<exists>v. map_of cands (sizing_value (sizing_method limits)) = Some v \<and>
       (sizing_value (sizing_method limits), v) \<in> set selected)"
  using assms by (auto simp: select_candidates_def Let_def split: if_splits option.splits)

text \<open>
  An accepted size respects every exposure limit: its notional, added to the exposure
  already used, stays within each configured share of equity (gross, leverage, symbol and
  exchange), up to a relative error of a few units in the 27th digit, whatever the sizing
  method, and it is positive and not below the minimum notional.
\<close>

theorem sizing_respects_exposure:
  assumes "size_position limits sig entry stop st atr vol lot minn = Inr z" "z_accepted z"
  shows "0 < z_quantity z \<and> z_notional z = dmul (z_quantity z) entry \<and>
    (\<forall>n \<in> set_option minn. n \<le> z_notional z) \<and>
    (\<forall>(nm, v) \<in> set (exposure_candidates limits sig st). 0 < v \<and> z_quantity z * entry \<le> v * (1 + 3 / 10 ^ 27))"
proof -
  obtain s c1 c2 selected where s: "0 < entry" "\<forall>l \<in> set_option lot. 0 < l"
    and sel: "select_candidates limits (base_candidates limits (risk_amount_of limits sig st) (stop_fraction_of entry s) @
        c1 @ c2 @ exposure_candidates limits sig st) = Inr selected"
    and fin: "finish_size entry (risk_amount_of limits sig st) lot minn
       (base_candidates limits (risk_amount_of limits sig st) (stop_fraction_of entry s) @ c1 @ c2 @
        exposure_candidates limits sig st) selected = z"
    by (rule size_position_accepted [OF assms])
  have exp: "set (exposure_candidates limits sig st) \<subseteq> set selected"
    using selected_contains [OF sel] by (auto simp: exposure_candidates_def exposure_names_def)
  then have "selected \<noteq> []" by (auto simp: exposure_candidates_def)
  then obtain cap where cap: "0 < cap" "\<forall>(nm, v) \<in> set selected. cap \<le> v" "0 < z_quantity z"
      "z_notional z = dmul (z_quantity z) entry" "z_quantity z * entry \<le> cap * (1 + 3 / 10 ^ 27)"
      "\<forall>n \<in> set_option minn. n \<le> z_notional z"
    using finish_size_accepted [OF fin assms(2) _ s] by blast
  have "0 < v \<and> z_quantity z * entry \<le> v * (1 + 3 / 10 ^ 27)"
    if "(nm, v) \<in> set (exposure_candidates limits sig st)" for nm v
  proof -
    have "cap \<le> v" using that exp cap(2) by auto
    then have "cap * (1 + 3 / 10 ^ 27) \<le> v * (1 + 3 / 10 ^ 27)" by (intro mult_right_mono) simp_all
    then show ?thesis using cap(1,5) \<open>cap \<le> v\<close> by linarith
  qed
  then show ?thesis using cap by blast
qed

lemma stop_fraction_lower:
  assumes "0 < entry" "s \<noteq> entry"
  shows "0 < stop_fraction_of entry s \<and>
    \<bar>entry - s\<bar> / entry * (1 - 5 / 10 ^ 28) * (1 - 5 / 10 ^ 28) \<le> stop_fraction_of entry s"
proof -
  have abs: "dabs (dsub entry s) = drnd \<bar>entry - s\<bar>"
    by (simp add: dabs_is_dec dsub_def d28.rnd_abs)
  have lo: "\<bar>entry - s\<bar> * (1 - 5 / 10 ^ 28) \<le> drnd \<bar>entry - s\<bar>" by (rule d28.rnd_lower) simp
  have pos: "0 < drnd \<bar>entry - s\<bar>" using assms(2) by (simp add: d28.rnd_pos_iff)
  have "\<bar>entry - s\<bar> / entry * (1 - 5 / 10 ^ 28) * (1 - 5 / 10 ^ 28) =
      \<bar>entry - s\<bar> * (1 - 5 / 10 ^ 28) / entry * (1 - 5 / 10 ^ 28)" by simp
  also have "\<dots> \<le> drnd \<bar>entry - s\<bar> / entry * (1 - 5 / 10 ^ 28)"
    using lo assms(1) by (intro mult_right_mono divide_right_mono) simp_all
  also have "\<dots> \<le> drnd (drnd \<bar>entry - s\<bar> / entry)"
    using pos assms(1) by (intro d28.rnd_lower) simp
  finally show ?thesis
    using pos assms(1) by (simp add: stop_fraction_of_def abs ddiv_def d28.rnd_pos_iff)
qed

lemma risk_amount_upper:
  assumes "0 < r_equity st" "0 < sg_suggested_risk_fraction sig" "0 < maximum_risk_per_trade limits"
    "0 \<le> sg_strength sig" "0 \<le> sg_confidence sig" "sg_strength sig \<le> 1"
  shows "risk_amount_of limits sig st \<le>
    r_equity st * maximum_risk_per_trade limits * ((1 + 5 / 10 ^ 28) * (1 + 5 / 10 ^ 28))"
proof -
  let ?rf = "min (sg_suggested_risk_fraction sig) (maximum_risk_per_trade limits)"
  let ?ev = "min (sg_strength sig) (sg_confidence sig)"
  have ev: "0 \<le> ?ev" "?ev \<le> 1" using assms by auto
  have x: "0 \<le> dmul (r_equity st) ?rf" using assms by (simp add: dec_sign)
  have "dmul (r_equity st) ?rf * ?ev \<le> dmul (r_equity st) ?rf" using x ev by (intro mult_left_le)
  then have "dmul (dmul (r_equity st) ?rf) ?ev \<le> drnd (dmul (r_equity st) ?rf)"
    unfolding dmul_def [of "dmul (r_equity st) ?rf"] by (intro d28.rnd_mono)
  also have "\<dots> \<le> dmul (r_equity st) ?rf * (1 + 5 / 10 ^ 28)" by (rule d28.rnd_upper [OF x])
  also have "\<dots> \<le> r_equity st * ?rf * (1 + 5 / 10 ^ 28) * (1 + 5 / 10 ^ 28)"
    unfolding dmul_def using assms by (intro mult_right_mono d28.rnd_upper) simp_all
  also have "\<dots> \<le> r_equity st * maximum_risk_per_trade limits * (1 + 5 / 10 ^ 28) * (1 + 5 / 10 ^ 28)"
    using assms(1) by (intro mult_right_mono mult_left_mono) simp_all
  finally show ?thesis by (simp add: risk_amount_of_def Let_def mult.assoc)
qed

lemma risk_bound_arith:
  fixes loss cap risk sf r E :: rat
  assumes "loss * ((1 - 5 / 10 ^ 28) * (1 - 5 / 10 ^ 28)) \<le> cap * (1 + 3 / 10 ^ 27) * sf"
    "cap * sf \<le> risk * (1 + 5 / 10 ^ 28)" "risk \<le> E * ((1 + 5 / 10 ^ 28) * (1 + 5 / 10 ^ 28))" "0 \<le> E"
  shows "loss \<le> E * (1 + 1 / 10 ^ 26)"
proof -
  have "cap * (1 + 3 / 10 ^ 27) * sf = cap * sf * (1 + 3 / 10 ^ 27)" by simp
  also have "\<dots> \<le> risk * (1 + 5 / 10 ^ 28) * (1 + 3 / 10 ^ 27)" using assms(2) by (intro mult_right_mono) simp_all
  also have "\<dots> \<le> E * ((1 + 5 / 10 ^ 28) * (1 + 5 / 10 ^ 28)) * (1 + 5 / 10 ^ 28) * (1 + 3 / 10 ^ 27)"
    using assms(3) by (intro mult_right_mono) simp_all
  also have "\<dots> = E * ((1 + 5 / 10 ^ 28) * (1 + 5 / 10 ^ 28) * (1 + 5 / 10 ^ 28) * (1 + 3 / 10 ^ 27))" by simp
  also have "\<dots> \<le> E * ((1 + 1 / 10 ^ 26) * ((1 - 5 / 10 ^ 28) * (1 - 5 / 10 ^ 28)))"
    using assms(4) by (intro mult_left_mono) simp_all
  finally have "loss * ((1 - 5 / 10 ^ 28) * (1 - 5 / 10 ^ 28)) \<le>
      E * (1 + 1 / 10 ^ 26) * ((1 - 5 / 10 ^ 28) * (1 - 5 / 10 ^ 28))"
    using assms(1) by (simp add: mult.assoc)
  then show ?thesis by (rule mult_right_le_imp_le) simp
qed

text \<open>
  With the methods that size by the stop distance (the conservative minimum, fixed
  fractional and maximum loss), an accepted size loses at most \<open>maximum_risk_per_trade\<close> of the
  equity if the price moves from the entry to the stop, up to a relative error of \<open>10\<^sup>-\<^sup>2\<^sup>6\<close>.
\<close>

theorem sizing_bounds_risk:
  assumes "size_position limits sig entry (Some stop) st atr vol lot minn = Inr z" "z_accepted z"
    "sizing_method limits \<in> {CONSERVATIVE_MINIMUM, FIXED_FRACTIONAL, MAXIMUM_LOSS}"
    "limits_ok limits" "state_ok st" "Signal_validate sig = Inr sig"
  shows "z_quantity z * \<bar>entry - stop\<bar> \<le> r_equity st * maximum_risk_per_trade limits * (1 + 1 / 10 ^ 26)"
proof -
  let ?risk = "risk_amount_of limits sig st" and ?sf = "stop_fraction_of entry stop"
  obtain c1 c2 selected where s: "0 < entry" "stop \<noteq> entry" "\<forall>l \<in> set_option lot. 0 < l"
    and sel: "select_candidates limits (base_candidates limits ?risk ?sf @
        c1 @ c2 @ exposure_candidates limits sig st) = Inr selected"
    and fin: "finish_size entry ?risk lot minn
       (base_candidates limits ?risk ?sf @ c1 @ c2 @ exposure_candidates limits sig st) selected = z"
    using size_position_accepted [OF assms(1,2)] by blast
  note sc = selected_contains [OF sel]
  have mem: "(''fixed_fractional'', ddiv ?risk ?sf) \<in> set selected \<or>
      (''maximum_loss'', ddiv ?risk (max ?sf (maximum_loss_floor_fraction limits))) \<in> set selected"
    using sc assms(3) by (auto simp: base_candidates_def)
  then have "selected \<noteq> []" by auto
  then obtain cap where cap: "0 < cap" "\<forall>(nm, v) \<in> set selected. cap \<le> v" "0 < ?risk" "0 < z_quantity z"
      "z_quantity z * entry \<le> cap * (1 + 3 / 10 ^ 27)"
    using finish_size_accepted [OF fin assms(2) _ s(1,3)] by blast
  have sf: "0 < ?sf" "\<bar>entry - stop\<bar> / entry * (1 - 5 / 10 ^ 28) * (1 - 5 / 10 ^ 28) \<le> ?sf"
    using stop_fraction_lower [OF s(1,2)] by blast+
  have "ddiv ?risk (max ?sf (maximum_loss_floor_fraction limits)) \<le> ddiv ?risk ?sf"
    unfolding ddiv_def using sf(1) cap(3) by (intro d28.rnd_mono divide_left_mono) (simp_all add: max_def)
  then have "cap \<le> ddiv ?risk ?sf" using mem cap(2) by fastforce
  also have "\<dots> \<le> ?risk / ?sf * (1 + 5 / 10 ^ 28)" unfolding ddiv_def using sf(1) cap(3) by (intro d28.rnd_upper) simp
  finally have 2: "cap * ?sf \<le> ?risk * (1 + 5 / 10 ^ 28)" using sf(1) by (simp add: field_simps)
  have sgn: "0 < sg_suggested_risk_fraction sig" "0 \<le> sg_strength sig" "0 \<le> sg_confidence sig" "sg_strength sig \<le> 1"
    using assms(6) by (auto simp: Signal_validate_def above_upto_def in_range_def)
  have 3: "?risk \<le> r_equity st * maximum_risk_per_trade limits * ((1 + 5 / 10 ^ 28) * (1 + 5 / 10 ^ 28))"
    using state_okD(1) [OF assms(5)] limits_okD(2) [OF assms(4)] sgn by (intro risk_amount_upper)
  have "z_quantity z * entry * (\<bar>entry - stop\<bar> / entry * (1 - 5 / 10 ^ 28) * (1 - 5 / 10 ^ 28))
      \<le> cap * (1 + 3 / 10 ^ 27) * ?sf"
    by (rule mult_mono [OF cap(5) sf(2)]) (use cap(1) s(1) in simp_all)
  then have 1: "z_quantity z * \<bar>entry - stop\<bar> * ((1 - 5 / 10 ^ 28) * (1 - 5 / 10 ^ 28)) \<le> cap * (1 + 3 / 10 ^ 27) * ?sf"
    using s(1) by simp
  have "0 \<le> r_equity st * maximum_risk_per_trade limits"
    using state_okD(1) [OF assms(5)] limits_okD(2) [OF assms(4)] by simp
  from risk_bound_arith [OF 1 2 3 this] show ?thesis .
qed

text \<open>A signal with full evidence, and a flat account of 10000.\<close>

definition sample_signal :: Signal where
  "sample_signal = \<lparr>sg_signal_id = ''signal-000000001'', sg_timestamp = 0, sg_symbol = ''BTC'',
     sg_exchange = Some ''x'', sg_side = Buy_side, sg_intent = ENTRY, sg_strength = 1, sg_confidence = 1,
     sg_suggested_risk_fraction = 25 / 10000, sg_primary_regime = TREND_UP, sg_data_quality_score = 1,
     sg_valid_until = 1000\<rparr>"

definition sample_state :: RiskState where
  "sample_state = \<lparr>r_timestamp = 10, r_equity = 10000, r_peak_equity = 10000, r_day_start_equity = 10000,
     r_week_start_equity = 10000, r_realized_pnl_today = 0, r_realized_pnl_week = 0, r_gross_exposure = 0,
     r_symbol_exposures = [], r_exchange_exposures = [], r_open_positions = 0, r_consecutive_losses = 0,
     r_data_quality_score = 1, r_data_healthy = True, r_api_healthy = True, r_websocket_connected = True,
     r_spread_fraction = 0, r_price_divergence_fraction = 0\<rparr>"

lemma sample_risk_ok: "state_ok sample_state" "Signal_validate sample_signal = Inr sample_signal"
  by (simp_all add: state_ok_def RiskState_validate_def sample_state_def in_range_def dict_values_def
      Signal_validate_def validate_signal_semantics_def sample_signal_def above_upto_def)

lemmas sizing_defs = size_position_def input_problem_def risk_amount_of_def stop_fraction_of_def
  atr_candidate_def volatility_candidate_def base_candidates_def exposure_candidates_def capacity_def
  dict_get_def exchange_key_def select_candidates_def exposure_names_def finish_size_def
  round_to_lot_def sample_signal_def sample_state_def default_limits_def

lemma sample_size:
  "\<exists>z. size_position default_limits sample_signal 100 (Some 95) sample_state None None (Some 1) None = Inr z \<and>
     z_accepted z \<and> z_quantity z = 5"
  by (simp add: sizing_defs dec_eval Let_def)

theorem sizing_respects_exposure_witness:
  "\<exists>z. size_position default_limits sample_signal 100 (Some 95) sample_state None None (Some 1) None = Inr z \<and>
     z_quantity z = 5 \<and>
     list_all (\<lambda>(nm, v). z_quantity z * 100 \<le> v * (1 + 3 / 10 ^ 27))
       (exposure_candidates default_limits sample_signal sample_state)"
  using sample_size sizing_respects_exposure [of default_limits sample_signal 100 "Some 95" sample_state None None "Some 1" None]
  unfolding list_all_iff by fastforce

theorem sizing_bounds_risk_witness:
  "\<exists>z. size_position default_limits sample_signal 100 (Some 95) sample_state None None (Some 1) None = Inr z \<and>
     z_quantity z = 5 \<and> z_quantity z * \<bar>100 - 95\<bar> \<le> 10000 * (25 / 10000) * (1 + 1 / 10 ^ 26)"
proof -
  obtain z where z: "size_position default_limits sample_signal 100 (Some 95) sample_state None None (Some 1) None = Inr z"
      "z_accepted z" "z_quantity z = 5"
    using sample_size by blast
  have "sizing_method default_limits \<in> {CONSERVATIVE_MINIMUM, FIXED_FRACTIONAL, MAXIMUM_LOSS}"
    by (simp add: default_limits_def)
  from sizing_bounds_risk [OF z(1,2) this default_limits_ok sample_risk_ok] z show ?thesis
    by (simp add: default_limits_def sample_state_def)
qed

text \<open>
  The bound on the risk per trade is not enforced by volatility targeting: there are valid
  limits, state and signal for which the accepted size loses more than
  \<open>maximum_risk_per_trade\<close> of the equity, here seventy times as much, when the stop is hit.
\<close>

theorem volatility_sizing_ignores_risk_limit:
  "\<exists>limits sig st entry stop vol z. limits_ok limits \<and> state_ok st \<and> Signal_validate sig = Inr sig \<and>
     size_position limits sig entry (Some stop) st None (Some vol) None None = Inr z \<and> z_accepted z \<and>
     z_quantity z * \<bar>entry - stop\<bar> = 70 * (r_equity st * maximum_risk_per_trade limits)"
proof -
  let ?l = "default_limits\<lparr>sizing_method := VOLATILITY_TARGETING\<rparr>"
  have "limits_ok ?l"
    by (simp add: limits_ok_def RiskLimits_validate_def limit_fields_ok_def default_limits_def
        above_upto_def in_range_def)
  moreover have "\<exists>z. size_position ?l sample_signal 100 (Some 50) sample_state None (Some (1 / 10)) None None = Inr z \<and>
      z_accepted z \<and> z_quantity z * \<bar>100 - 50\<bar> = 70 * (r_equity sample_state * maximum_risk_per_trade ?l)"
    by (simp add: sizing_defs dec_eval Let_def)
  ultimately show ?thesis using sample_risk_ok by blast
qed

end
