(* ===== verification/Risk_Manager.thy ===== *)
theory Risk_Manager
  imports Risk_Sizing
begin

text \<open>
  \<open>src/app/domain/risk/manager.py\<close>: the latching circuit breaker and the evaluation of a
  signal against the limits. The breaker's set of reasons is a set; where the code sorts it by
  value, the members are listed in the order of \<open>halts_by_value\<close>.
\<close>

section \<open>The circuit breaker\<close>

record CircuitBreaker =
  cb_default_cooldown_seconds :: nat
  cb_reasons :: "RiskHaltReason set"
  cb_details :: "(RiskHaltReason, string) dict"
  cb_tripped_at :: "instant option"
  cb_resume_at :: "instant option"
  cb_manual_reset_required :: bool
  cb_last_reset_at :: "instant option"

definition CircuitBreaker_init :: "nat \<Rightarrow> CircuitBreaker result" where
  "CircuitBreaker_init cooldown =
     bindE (raise_if (cooldown \<le> 0) (ValueError ''default cooldown must be positive'')) (\<lambda>_.
     Inr \<lparr>cb_default_cooldown_seconds = cooldown, cb_reasons = {}, cb_details = [], cb_tripped_at = None,
          cb_resume_at = None, cb_manual_reset_required = False, cb_last_reset_at = None\<rparr>)"

definition breaker_utc :: "datetime \<Rightarrow> instant result" where
  "breaker_utc = as_utc ''circuit-breaker timestamps must be timezone-aware''"

definition clear_breaker :: "instant \<Rightarrow> CircuitBreaker \<Rightarrow> CircuitBreaker" where
  "clear_breaker t cb = cb\<lparr>cb_reasons := {}, cb_details := [], cb_tripped_at := None,
     cb_resume_at := None, cb_manual_reset_required := False, cb_last_reset_at := Some t\<rparr>"

text \<open>The state change of \<open>trip\<close> once its arguments are accepted.\<close>

definition trip_at ::
  "RiskHaltReason \<Rightarrow> instant \<Rightarrow> bool \<Rightarrow> nat \<Rightarrow> string option \<Rightarrow> CircuitBreaker \<Rightarrow> CircuitBreaker" where
  "trip_at reason t0 requires_manual_reset cooldown detail cb =
     (let cb1 = cb\<lparr>cb_reasons := insert reason (cb_reasons cb),
            cb_details := (case detail of
                None \<Rightarrow> cb_details cb
              | Some msg \<Rightarrow> if msg = [] then cb_details cb else dict_set reason msg (cb_details cb)),
            cb_tripped_at := (case cb_tripped_at cb of
                None \<Rightarrow> Some t0
              | Some t \<Rightarrow> if t0 < t then Some t0 else Some t),
            cb_manual_reset_required := cb_manual_reset_required cb \<or> requires_manual_reset\<rparr>
      in if cb_manual_reset_required cb1 then cb1\<lparr>cb_resume_at := None\<rparr>
      else let candidate_resume = t0 + seconds (int cooldown)
      in case cb_resume_at cb1 of
           None \<Rightarrow> cb1\<lparr>cb_resume_at := Some candidate_resume\<rparr>
         | Some r \<Rightarrow> if candidate_resume > r then cb1\<lparr>cb_resume_at := Some candidate_resume\<rparr> else cb1)"

definition trip ::
  "RiskHaltReason \<Rightarrow> datetime \<Rightarrow> bool \<Rightarrow> nat option \<Rightarrow> string option \<Rightarrow> CircuitBreaker \<Rightarrow>
   (unit, CircuitBreaker) outcome" where
  "trip reason d requires_manual_reset cooldown_s detail cb =
     (case breaker_utc d of
        Inl e \<Rightarrow> (Inl e, cb)
      | Inr t \<Rightarrow>
          let cooldown = (case cooldown_s of None \<Rightarrow> cb_default_cooldown_seconds cb | Some c \<Rightarrow> c)
          in if cooldown \<le> 0 then (Inl (ValueError ''cooldown must be positive''), cb)
             else (Inr (), trip_at reason t requires_manual_reset cooldown detail cb))"

definition halts_by_value :: "RiskHaltReason list" where
  "halts_by_value = [API_UNHEALTHY, CONSECUTIVE_LOSSES, COOLDOWN, DAILY_LOSS, DATA_ANOMALY,
     MANUAL_KILL_SWITCH, MAX_DRAWDOWN, PRICE_DIVERGENCE, SPREAD_ANOMALY, WEBSOCKET_DISCONNECTED,
     WEEKLY_LOSS]"

definition cooled_down :: "instant \<Rightarrow> CircuitBreaker \<Rightarrow> bool" where
  "cooled_down t cb \<longleftrightarrow> cb_reasons cb \<noteq> {} \<and> \<not> cb_manual_reset_required cb \<and>
     (case cb_resume_at cb of None \<Rightarrow> False | Some r \<Rightarrow> t \<ge> r)"

definition breaker_status :: "CircuitBreaker \<Rightarrow> CircuitBreakerStatus" where
  "breaker_status cb =
     \<lparr>bs_active = (cb_reasons cb \<noteq> {}), bs_reasons = filter (\<lambda>r. r \<in> cb_reasons cb) halts_by_value,
      bs_details = cb_details cb, bs_tripped_at = cb_tripped_at cb, bs_resume_at = cb_resume_at cb,
      bs_requires_manual_reset = cb_manual_reset_required cb\<rparr>"

definition status_at :: "instant \<Rightarrow> CircuitBreaker \<Rightarrow> CircuitBreakerStatus \<times> CircuitBreaker" where
  "status_at t cb =
     (let cb1 = (if cooled_down t cb then clear_breaker t cb else cb) in (breaker_status cb1, cb1))"

definition status :: "datetime \<Rightarrow> CircuitBreaker \<Rightarrow> (CircuitBreakerStatus, CircuitBreaker) outcome" where
  "status d cb =
     (case breaker_utc d of
        Inl e \<Rightarrow> (Inl e, cb)
      | Inr t \<Rightarrow> let (s, cb1) = status_at t cb in (Inr s, cb1))"

definition reset :: "string \<Rightarrow> datetime \<Rightarrow> CircuitBreaker \<Rightarrow> (unit, CircuitBreaker) outcome" where
  "reset confirmation d cb =
     (if confirmation \<noteq> ''RESET_KILL_SWITCH''
      then (Inl (ValueError ''exact kill-switch reset confirmation is required''), cb)
      else case breaker_utc d of
        Inl e \<Rightarrow> (Inl e, cb)
      | Inr t \<Rightarrow> (Inr (), clear_breaker t cb))"

section \<open>The risk manager\<close>

record RiskManager =
  rm_limits :: RiskLimits
  rm_breaker :: CircuitBreaker

definition RiskManager_init :: "RiskLimits option \<Rightarrow> RiskManager result" where
  "RiskManager_init limits =
     (let l = (case limits of None \<Rightarrow> default_limits | Some l \<Rightarrow> l)
      in bindE (CircuitBreaker_init (cooldown_seconds l)) (\<lambda>cb. Inr \<lparr>rm_limits = l, rm_breaker = cb\<rparr>))"

text \<open>\<open>str.strip()\<close> on the characters of the model's alphabet.\<close>

definition is_space :: "char \<Rightarrow> bool" where
  "is_space c \<longleftrightarrow> (let n = (of_char c :: nat) in (9 \<le> n \<and> n \<le> 13) \<or> (28 \<le> n \<and> n \<le> 32) \<or> n = 133 \<or> n = 160)"

definition strip :: "string \<Rightarrow> string" where
  "strip s = rev (dropWhile is_space (rev (dropWhile is_space s)))"

definition activate_kill_switch ::
  "datetime \<Rightarrow> string \<Rightarrow> RiskManager \<Rightarrow> (unit, RiskManager) outcome" where
  "activate_kill_switch timestamp reason rm =
     (if strip reason = [] then (Inl (ValueError ''kill-switch reason is required''), rm)
      else let (r, cb) = trip MANUAL_KILL_SWITCH timestamp True None (Some (strip reason)) (rm_breaker rm)
           in (r, rm\<lparr>rm_breaker := cb\<rparr>))"

definition reset_kill_switch ::
  "datetime \<Rightarrow> string \<Rightarrow> RiskManager \<Rightarrow> (unit, RiskManager) outcome" where
  "reset_kill_switch timestamp confirmation rm =
     (let (r, cb) = reset confirmation timestamp (rm_breaker rm) in (r, rm\<lparr>rm_breaker := cb\<rparr>))"

section \<open>Evaluation of a signal\<close>

definition only_if :: "bool \<Rightarrow> 'a \<Rightarrow> 'a list" where
  "only_if c x = (if c then [x] else [])"

definition observed_quality :: "Signal \<Rightarrow> RiskState \<Rightarrow> dec" where
  "observed_quality signal st = min (sg_data_quality_score signal) (r_data_quality_score st)"

text \<open>The appends to \<open>reasons\<close>, in the order of the code, up to the breaker.\<close>

definition health_reasons :: "RiskLimits \<Rightarrow> Signal \<Rightarrow> RiskState \<Rightarrow> reason_text list" where
  "health_reasons limits signal st =
     only_if (sg_valid_until signal < r_timestamp st) (Text ''signal has expired'') @
     only_if (sg_primary_regime signal = UNKNOWN) (Text ''UNKNOWN regime cannot open risk'') @
     only_if (sg_confidence signal < minimum_signal_confidence limits)
       (Confidence_below (sg_confidence signal) (minimum_signal_confidence limits)) @
     only_if (observed_quality signal st < minimum_data_quality limits)
       (Quality_below (observed_quality signal st) (minimum_data_quality limits)) @
     only_if (daily_loss_fraction st \<ge> maximum_daily_loss limits) (Daily_loss_reached (daily_loss_fraction st)) @
     only_if (weekly_loss_fraction st \<ge> maximum_weekly_loss limits) (Weekly_loss_reached (weekly_loss_fraction st)) @
     only_if (drawdown_fraction st \<ge> maximum_drawdown limits) (Drawdown_reached (drawdown_fraction st)) @
     only_if (r_consecutive_losses st \<ge> maximum_consecutive_losses limits)
       (Consecutive_losses_reached (r_consecutive_losses st)) @
     only_if (\<not> r_data_healthy st) (Text ''market data health check failed'') @
     only_if (\<not> r_api_healthy st) (Text ''exchange API health check failed'') @
     only_if (\<not> r_websocket_connected st) (Text ''market-data WebSocket is disconnected'') @
     only_if (r_spread_fraction st > maximum_spread_fraction limits) (Spread_abnormal (r_spread_fraction st)) @
     only_if (r_price_divergence_fraction st > maximum_price_divergence_fraction limits)
       (Divergence_abnormal (r_price_divergence_fraction st))"

definition transient_halts :: "RiskLimits \<Rightarrow> Signal \<Rightarrow> RiskState \<Rightarrow> RiskHaltReason list" where
  "transient_halts limits signal st =
     only_if (observed_quality signal st < minimum_data_quality limits) DATA_ANOMALY @
     only_if (daily_loss_fraction st \<ge> maximum_daily_loss limits) DAILY_LOSS @
     only_if (weekly_loss_fraction st \<ge> maximum_weekly_loss limits) WEEKLY_LOSS @
     only_if (r_consecutive_losses st \<ge> maximum_consecutive_losses limits) CONSECUTIVE_LOSSES @
     only_if (\<not> r_data_healthy st) DATA_ANOMALY @
     only_if (\<not> r_api_healthy st) API_UNHEALTHY @
     only_if (\<not> r_websocket_connected st) WEBSOCKET_DISCONNECTED @
     only_if (r_spread_fraction st > maximum_spread_fraction limits) SPREAD_ANOMALY @
     only_if (r_price_divergence_fraction st > maximum_price_divergence_fraction limits) PRICE_DIVERGENCE"

definition critical_halts :: "RiskLimits \<Rightarrow> RiskState \<Rightarrow> RiskHaltReason list" where
  "critical_halts limits st = only_if (drawdown_fraction st \<ge> maximum_drawdown limits) MAX_DRAWDOWN"

definition exposure_reasons :: "RiskLimits \<Rightarrow> Signal \<Rightarrow> RiskState \<Rightarrow> reason_text list" where
  "exposure_reasons limits signal st =
     (let equity = r_equity st;
          gross_limit = dmul equity (maximum_gross_exposure limits);
          leverage_limit = dmul equity (maximum_leverage limits)
      in only_if (r_gross_exposure st \<ge> min gross_limit leverage_limit)
           (Text ''gross exposure or leverage capacity is exhausted'') @
         only_if (dict_get (r_symbol_exposures st) (sg_symbol signal) 0 \<ge>
               dmul equity (maximum_symbol_exposure limits))
           (Text (sg_symbol signal @ '' exposure capacity is exhausted'')) @
         only_if (dict_get (r_exchange_exposures st) (exchange_key signal) 0 \<ge>
               dmul equity (maximum_exchange_exposure limits))
           (Text ''exchange exposure capacity is exhausted'') @
         only_if (r_open_positions st \<ge> maximum_positions limits)
           (Text ''maximum simultaneous positions reached''))"

text \<open>\<open>tuple(dict.fromkeys(xs))\<close>: duplicates dropped, first occurrences kept.\<close>

definition dedupe :: "'a list \<Rightarrow> 'a list" where
  "dedupe xs = rev (remdups (rev xs))"

fun trip_all :: "RiskHaltReason list \<Rightarrow> datetime \<Rightarrow> bool \<Rightarrow> CircuitBreaker \<Rightarrow> (unit, CircuitBreaker) outcome" where
  "trip_all [] d manual cb = (Inr (), cb)"
| "trip_all (h # hs) d manual cb =
     (case trip h d manual None None cb of
        (Inl e, cb1) \<Rightarrow> (Inl e, cb1)
      | (Inr _, cb1) \<Rightarrow> trip_all hs d manual cb1)"

definition decision ::
  "Signal \<Rightarrow> RiskState \<Rightarrow> bool \<Rightarrow> reason_text list \<Rightarrow> PositionSizingResult option \<Rightarrow> RiskHaltReason list \<Rightarrow>
   RiskDecision" where
  "decision signal st allowed reasons sizing breaker_reasons =
     \<lparr>d_decision_id = (sg_signal_id signal, r_timestamp st), d_allowed = allowed, d_reasons = reasons,
      d_sizing = sizing, d_evaluated_at = r_timestamp st, d_breaker_reasons = breaker_reasons\<rparr>"

definition size_decision ::
  "RiskLimits \<Rightarrow> Signal \<Rightarrow> dec \<Rightarrow> dec option \<Rightarrow> RiskState \<Rightarrow> dec option \<Rightarrow> dec option \<Rightarrow> dec option \<Rightarrow>
   dec option \<Rightarrow> RiskDecision" where
  "size_decision limits signal entry_price stop_price st atr annualized_volatility lot_size minimum_notional =
     (let sizing = (case size_position limits signal entry_price stop_price st atr annualized_volatility
                      lot_size minimum_notional of
              Inr z \<Rightarrow> z
            | Inl e \<Rightarrow> reject_size (Text (error_message e)) [] ''missing_sizing_input'' 0)
      in if \<not> z_accepted sizing
         then decision signal st False [z_reason sizing] (Some sizing) []
         else decision signal st True [Text ''all entry risk checks passed''] (Some sizing) [])"

definition evaluate ::
  "Signal \<Rightarrow> dec \<Rightarrow> dec option \<Rightarrow> RiskState \<Rightarrow> dec option \<Rightarrow> dec option \<Rightarrow> dec option \<Rightarrow> dec option \<Rightarrow>
   RiskManager \<Rightarrow> (RiskDecision, RiskManager) outcome" where
  "evaluate signal entry_price stop_price st atr annualized_volatility lot_size minimum_notional rm =
     (let now = Aware (r_timestamp st); limits = rm_limits rm in
      if sg_intent signal \<in> {EXIT, REDUCE} then
        (case status now (rm_breaker rm) of
           (Inl e, cb) \<Rightarrow> (Inl e, rm\<lparr>rm_breaker := cb\<rparr>)
         | (Inr s, cb) \<Rightarrow>
             (Inr (decision signal st True [Text ''risk-reducing action bypasses entry limits''] None (bs_reasons s)),
              rm\<lparr>rm_breaker := cb\<rparr>))
      else
        case trip_all (transient_halts limits signal st) now False (rm_breaker rm) of
          (Inl e, cb) \<Rightarrow> (Inl e, rm\<lparr>rm_breaker := cb\<rparr>)
        | (Inr _, cb1) \<Rightarrow>
            case trip_all (critical_halts limits st) now True cb1 of
              (Inl e, cb) \<Rightarrow> (Inl e, rm\<lparr>rm_breaker := cb\<rparr>)
            | (Inr _, cb2) \<Rightarrow>
                case status now cb2 of
                  (Inl e, cb) \<Rightarrow> (Inl e, rm\<lparr>rm_breaker := cb\<rparr>)
                | (Inr s, cb3) \<Rightarrow>
                    let reasons = health_reasons limits signal st @ exposure_reasons limits signal st @
                          only_if (bs_active s) (Breaker_active (bs_reasons s));
                        rm' = rm\<lparr>rm_breaker := cb3\<rparr>
                    in (Inr (if reasons \<noteq> []
                             then decision signal st False (dedupe reasons) None (bs_reasons s)
                             else size_decision limits signal entry_price stop_price st atr
                                    annualized_volatility lot_size minimum_notional), rm'))"

section \<open>The breaker latches\<close>

text \<open>
  A breaker with no reason is fully clear. With a reason it knows when it was tripped and
  either needs a manual reset, with no time of resumption, or has one.
\<close>

definition breaker_inv :: "CircuitBreaker \<Rightarrow> bool" where
  "breaker_inv cb \<longleftrightarrow> 0 < cb_default_cooldown_seconds cb \<and>
     (cb_reasons cb = {} \<longleftrightarrow> cb_tripped_at cb = None) \<and>
     (if cb_reasons cb = {} then cb_resume_at cb = None \<and> \<not> cb_manual_reset_required cb
      else cb_manual_reset_required cb = (cb_resume_at cb = None))"

datatype BreakerOp =
    B_trip RiskHaltReason datetime bool "nat option" "string option"
  | B_status datetime
  | B_reset string datetime

fun breaker_step :: "BreakerOp \<Rightarrow> CircuitBreaker \<Rightarrow> CircuitBreaker" where
  "breaker_step (B_trip r d m c msg) cb = snd (trip r d m c msg cb)"
| "breaker_step (B_status d) cb = snd (status d cb)"
| "breaker_step (B_reset conf d) cb = snd (reset conf d cb)"

lemma trip_at_inv: "breaker_inv cb \<Longrightarrow> breaker_inv (trip_at r t m c msg cb)"
  by (cases "cb_tripped_at cb"; cases "cb_resume_at cb"; cases "cb_manual_reset_required cb \<or> m")
     (auto simp: breaker_inv_def trip_at_def Let_def split: if_splits)

lemma clear_breaker_inv: "breaker_inv cb \<Longrightarrow> breaker_inv (clear_breaker t cb)"
  by (simp add: breaker_inv_def clear_breaker_def)

lemma trip_state: "snd (trip r d m c msg cb) = cb \<or> (\<exists>t k. d = Aware t \<and> snd (trip r d m c msg cb) = trip_at r t m k msg cb)"
  by (cases d) (auto simp: trip_def breaker_utc_def Let_def)

lemma status_state:
  "snd (status d cb) = cb \<or> (\<exists>t. d = Aware t \<and> cooled_down t cb \<and> snd (status d cb) = clear_breaker t cb)"
  by (cases d) (auto simp: status_def breaker_utc_def status_at_def Let_def)

lemma reset_state:
  "snd (reset conf d cb) = cb \<or> (\<exists>t. conf = ''RESET_KILL_SWITCH'' \<and> snd (reset conf d cb) = clear_breaker t cb)"
  by (cases d) (auto simp: reset_def breaker_utc_def)

lemma breaker_inv_step: "breaker_inv cb \<Longrightarrow> breaker_inv (breaker_step a cb)"
proof (cases a)
  case (B_trip r d m c msg)
  then show "breaker_inv cb \<Longrightarrow> ?thesis" using trip_state [of r d m c msg cb] trip_at_inv by auto
next
  case (B_status d)
  then show "breaker_inv cb \<Longrightarrow> ?thesis" using status_state [of d cb] clear_breaker_inv by auto
next
  case (B_reset conf d)
  then show "breaker_inv cb \<Longrightarrow> ?thesis" using reset_state [of conf d cb] clear_breaker_inv by auto
qed

text \<open>Operations other than a confirmed reset.\<close>

fun unconfirmed :: "BreakerOp \<Rightarrow> bool" where
  "unconfirmed (B_reset conf d) = (conf \<noteq> ''RESET_KILL_SWITCH'')"
| "unconfirmed _ = True"

interpretation breaker: invariant_machine breaker_step unconfirmed breaker_inv
  by unfold_locales (rule breaker_inv_step)

definition latched_rel :: "CircuitBreaker \<Rightarrow> CircuitBreaker \<Rightarrow> bool" where
  "latched_rel cb cb' \<longleftrightarrow> (cb_manual_reset_required cb \<longrightarrow>
     cb_manual_reset_required cb' \<and> cb_reasons cb \<subseteq> cb_reasons cb')"

lemma trip_at_simps:
  "cb_reasons (trip_at r t m c msg cb) = insert r (cb_reasons cb)"
  "cb_manual_reset_required (trip_at r t m c msg cb) = (cb_manual_reset_required cb \<or> m)"
  by (auto simp: trip_at_def Let_def split: option.splits)

lemma latched_step: "unconfirmed a \<Longrightarrow> latched_rel cb (breaker_step a cb)"
proof (cases a)
  case (B_trip r d m c msg)
  then show ?thesis using trip_state [of r d m c msg cb] by (auto simp: latched_rel_def trip_at_simps)
next
  case (B_status d)
  then show ?thesis using status_state [of d cb] by (auto simp: latched_rel_def cooled_down_def)
next
  case (B_reset conf d)
  then show "unconfirmed a \<Longrightarrow> ?thesis" using reset_state [of conf d cb] by (auto simp: latched_rel_def)
qed

lemma latched_run:
  assumes "breaker_inv cb" "list_all unconfirmed ops" shows "latched_rel cb (fold breaker_step ops cb)"
proof (rule breaker.rel_run [where R = latched_rel, OF _ _ _ assms(2,1)])
  show "latched_rel t (breaker_step a t)" if "unconfirmed a" for a t using that by (rule latched_step)
qed (auto simp: latched_rel_def)

text \<open>
  The kill switch latches. Once a trip required a manual reset, no sequence of trips,
  status queries at any time and resets with a wrong confirmation releases the breaker: it
  still requires the reset, keeps every reason, and reports itself active whenever it is asked.
\<close>

theorem breaker_latches:
  assumes "breaker_inv cb" "cb_manual_reset_required cb" "list_all unconfirmed ops"
  shows "case status (Aware t) (fold breaker_step ops cb) of (res, cb') \<Rightarrow>
    \<exists>s. res = Inr s \<and> bs_active s \<and> bs_requires_manual_reset s \<and> cb_reasons cb \<subseteq> set (bs_reasons s) \<and>
      cb' = fold breaker_step ops cb"
proof -
  let ?cb = "fold breaker_step ops cb"
  have rel: "cb_manual_reset_required ?cb" "cb_reasons cb \<subseteq> cb_reasons ?cb"
    using latched_run [OF assms(1,3)] assms(2) by (auto simp: latched_rel_def)
  have ne: "cb_reasons cb \<noteq> {}" using assms(1,2) by (auto simp: breaker_inv_def)
  have all: "r \<in> set halts_by_value" for r by (cases r) (simp_all add: halts_by_value_def)
  have "\<not> cooled_down t ?cb" using rel by (simp add: cooled_down_def)
  then show ?thesis
    using rel ne all by (auto simp: status_def breaker_utc_def status_at_def Let_def breaker_status_def)
qed

definition sample_breaker :: CircuitBreaker where
  "sample_breaker = \<lparr>cb_default_cooldown_seconds = 1800, cb_reasons = {}, cb_details = [], cb_tripped_at = None,
     cb_resume_at = None, cb_manual_reset_required = False, cb_last_reset_at = None\<rparr>"

theorem breaker_latches_witness:
  "let cb = trip_at MANUAL_KILL_SWITCH 0 True 1800 None sample_breaker;
       ops = [B_status (Aware 99999999999), B_reset ''please'' (Aware 5)]
   in \<exists>s. fst (status (Aware 999999999999) (fold breaker_step ops cb)) = Inr s \<and> bs_active s \<and>
        cb_reasons cb = {MANUAL_KILL_SWITCH}"
proof -
  let ?cb = "trip_at MANUAL_KILL_SWITCH 0 True 1800 None sample_breaker"
  let ?ops = "[B_status (Aware 99999999999), B_reset ''please'' (Aware 5)]"
  have "breaker_inv ?cb" by (intro trip_at_inv) (simp add: breaker_inv_def sample_breaker_def)
  moreover have "cb_manual_reset_required ?cb" "list_all unconfirmed ?ops" by (simp_all add: trip_at_simps)
  ultimately show ?thesis
    using breaker_latches [of ?cb ?ops 999999999999] by (auto simp: Let_def trip_at_simps sample_breaker_def)
qed

section \<open>Cooldown\<close>

definition held_until :: "instant \<Rightarrow> CircuitBreaker \<Rightarrow> bool" where
  "held_until u cb \<longleftrightarrow> cb_reasons cb \<noteq> {} \<and>
     (cb_manual_reset_required cb \<or> (\<exists>r. cb_resume_at cb = Some r \<and> u \<le> r))"

fun before_instant :: "instant \<Rightarrow> BreakerOp \<Rightarrow> bool" where
  "before_instant u (B_status d) = (case d of Naive _ \<Rightarrow> True | Aware t \<Rightarrow> t < u)"
| "before_instant u op = unconfirmed op"

lemma held_until_step:
  assumes "held_until u cb" "before_instant u a" shows "held_until u (breaker_step a cb)"
proof (cases a)
  case (B_trip r d m c msg)
  have "held_until u (trip_at r t m k msg cb)" for t k
    using assms(1) by (auto simp: held_until_def trip_at_def Let_def split: option.splits if_splits)
  then show ?thesis using B_trip trip_state [of r d m c msg cb] assms(1) by auto
next
  case (B_status d)
  then show ?thesis using status_state [of d cb] assms by (auto simp: held_until_def cooled_down_def)
next
  case (B_reset conf d)
  then show ?thesis using reset_state [of conf d cb] assms by auto
qed

text \<open>
  A trip holds for its cooldown: after an accepted trip at \<open>t0\<close>, whatever else trips and
  whatever is asked before \<open>t0\<close> plus the cooldown, the breaker reports itself active at every
  instant before then unless it is reset with the exact confirmation.
\<close>

theorem cooldown_holds:
  assumes "trip r (Aware t0) m c msg cb = (Inr (), cb1)"
    "u = t0 + seconds (int (case c of None \<Rightarrow> cb_default_cooldown_seconds cb | Some k \<Rightarrow> k))"
    "list_all (before_instant u) ops" "t < u"
  shows "\<exists>s. fst (status (Aware t) (fold breaker_step ops cb1)) = Inr s \<and> bs_active s"
proof -
  let ?k = "case c of None \<Rightarrow> cb_default_cooldown_seconds cb | Some k \<Rightarrow> k"
  have cb1: "cb1 = trip_at r t0 m ?k msg cb"
    using assms(1) by (auto simp: trip_def breaker_utc_def Let_def split: if_splits)
  have "held_until u cb1"
    unfolding cb1 assms(2)
    by (auto simp: held_until_def trip_at_def Let_def not_less split: option.splits if_splits)
  then have "held_until u (fold breaker_step ops cb1)"
    using assms(3) by (induction ops arbitrary: cb1) (auto intro: held_until_step)
  then show ?thesis
    using assms(4) by (auto simp: held_until_def status_def breaker_utc_def status_at_def Let_def
        breaker_status_def cooled_down_def clear_breaker_def)
qed

theorem cooldown_holds_witness:
  "\<exists>cb1 s. trip DAILY_LOSS (Aware 0) False None None sample_breaker = (Inr (), cb1) \<and>
     fst (status (Aware 1799999999) (fold breaker_step [B_status (Aware 1000)] cb1)) = Inr s \<and> bs_active s"
proof -
  obtain cb1 where t: "trip DAILY_LOSS (Aware 0) False None None sample_breaker = (Inr (), cb1)"
    by (simp add: trip_def breaker_utc_def sample_breaker_def)
  have "list_all (before_instant 1800000000) [B_status (Aware 1000)]" by simp
  from cooldown_holds [OF t _ this, of 1799999999] t show ?thesis
    by (simp add: seconds_def sample_breaker_def)
qed

section \<open>Evaluation\<close>

definition entry_ok :: "RiskLimits \<Rightarrow> Signal \<Rightarrow> RiskState \<Rightarrow> bool" where
  "entry_ok limits signal st \<longleftrightarrow>
     r_timestamp st \<le> sg_valid_until signal \<and> sg_primary_regime signal \<noteq> UNKNOWN \<and>
     minimum_signal_confidence limits \<le> sg_confidence signal \<and>
     minimum_data_quality limits \<le> sg_data_quality_score signal \<and>
     minimum_data_quality limits \<le> r_data_quality_score st \<and>
     daily_loss_fraction st < maximum_daily_loss limits \<and>
     weekly_loss_fraction st < maximum_weekly_loss limits \<and>
     drawdown_fraction st < maximum_drawdown limits \<and>
     r_consecutive_losses st < maximum_consecutive_losses limits \<and>
     r_data_healthy st \<and> r_api_healthy st \<and> r_websocket_connected st \<and>
     r_spread_fraction st \<le> maximum_spread_fraction limits \<and>
     r_price_divergence_fraction st \<le> maximum_price_divergence_fraction limits \<and>
     r_gross_exposure st < dmul (r_equity st) (maximum_gross_exposure limits) \<and>
     r_gross_exposure st < dmul (r_equity st) (maximum_leverage limits) \<and>
     dict_get (r_symbol_exposures st) (sg_symbol signal) 0 < dmul (r_equity st) (maximum_symbol_exposure limits) \<and>
     dict_get (r_exchange_exposures st) (exchange_key signal) 0 < dmul (r_equity st) (maximum_exchange_exposure limits) \<and>
     r_open_positions st < maximum_positions limits"

lemma only_if_Nil: "only_if c x = [] \<longleftrightarrow> \<not> c"
  by (simp add: only_if_def)

lemma entry_ok_reasons:
  "health_reasons limits signal st = [] \<and> exposure_reasons limits signal st = [] \<longleftrightarrow> entry_ok limits signal st"
  unfolding health_reasons_def exposure_reasons_def entry_ok_def observed_quality_def Let_def append_is_Nil_conv
    only_if_Nil not_le not_less
  by (auto simp: not_le)

lemma entry_ok_no_halts:
  "entry_ok limits signal st \<Longrightarrow> transient_halts limits signal st = [] \<and> critical_halts limits st = []"
  by (simp add: entry_ok_def transient_halts_def critical_halts_def only_if_Nil observed_quality_def not_less not_le)

lemma trip_all_correct:
  assumes "0 < cb_default_cooldown_seconds cb"
  shows "\<exists>cb'. trip_all hs (Aware t) m cb = (Inr (), cb') \<and>
    cb' = fold breaker_step (map (\<lambda>h. B_trip h (Aware t) m None None) hs) cb \<and>
    cb_default_cooldown_seconds cb' = cb_default_cooldown_seconds cb \<and>
    cb_reasons cb' = cb_reasons cb \<union> set hs \<and>
    (m \<and> hs \<noteq> [] \<longrightarrow> cb_manual_reset_required cb')"
  using assms
proof (induction hs arbitrary: cb)
  case (Cons h hs)
  let ?cb1 = "trip_at h t m (cb_default_cooldown_seconds cb) None cb"
  have t: "trip h (Aware t) m None None cb = (Inr (), ?cb1)"
    using Cons.prems by (simp add: trip_def breaker_utc_def)
  have d: "cb_default_cooldown_seconds ?cb1 = cb_default_cooldown_seconds cb"
    by (auto simp: trip_at_def Let_def split: option.splits)
  have keep: "m \<Longrightarrow> cb_manual_reset_required (fold breaker_step (map (\<lambda>h. B_trip h (Aware t) m None None) hs) c)"
    if "cb_manual_reset_required c" for c
  proof -
    have "list_all unconfirmed (map (\<lambda>h. B_trip h (Aware t) m None None) hs)" by (simp add: list_all_iff)
    then show ?thesis using that
    proof (induction hs arbitrary: c)
      case (Cons x xs)
      then show ?case using latched_step [of "B_trip x (Aware t) m None None" c] by (auto simp: latched_rel_def)
    qed simp
  qed
  obtain cb' where IH: "trip_all hs (Aware t) m ?cb1 = (Inr (), cb')"
    "cb' = fold breaker_step (map (\<lambda>h. B_trip h (Aware t) m None None) hs) ?cb1"
    "cb_default_cooldown_seconds cb' = cb_default_cooldown_seconds ?cb1" "cb_reasons cb' = cb_reasons ?cb1 \<union> set hs"
    using Cons.IH [of ?cb1] Cons.prems d by auto
  then show ?case using t d keep [of ?cb1] by (auto simp: trip_at_simps)
qed simp

text \<open>The breaker an entry evaluation sees after its own trips.\<close>

definition trip_ops :: "RiskLimits \<Rightarrow> Signal \<Rightarrow> RiskState \<Rightarrow> BreakerOp list" where
  "trip_ops limits signal st =
     map (\<lambda>h. B_trip h (Aware (r_timestamp st)) False None None) (transient_halts limits signal st) @
     map (\<lambda>h. B_trip h (Aware (r_timestamp st)) True None None) (critical_halts limits st)"

lemma trip_ops_unconfirmed [simp]: "list_all unconfirmed (trip_ops limits signal st)"
  by (auto simp: trip_ops_def list_all_iff)

definition tripped_breaker :: "Signal \<Rightarrow> RiskState \<Rightarrow> RiskManager \<Rightarrow> CircuitBreaker" where
  "tripped_breaker signal st rm = fold breaker_step (trip_ops (rm_limits rm) signal st) (rm_breaker rm)"

lemma evaluate_entry:
  assumes "sg_intent signal = ENTRY" "0 < cb_default_cooldown_seconds (rm_breaker rm)"
  shows "let (s, cb) = status_at (r_timestamp st) (tripped_breaker signal st rm) in
    evaluate signal entry stop st atr vol lot minn rm =
      (Inr (if entry_ok (rm_limits rm) signal st \<and> \<not> bs_active s
            then size_decision (rm_limits rm) signal entry stop st atr vol lot minn
            else decision signal st False
              (dedupe (health_reasons (rm_limits rm) signal st @ exposure_reasons (rm_limits rm) signal st @
                 only_if (bs_active s) (Breaker_active (bs_reasons s)))) None (bs_reasons s)),
       rm\<lparr>rm_breaker := cb\<rparr>)"
proof -
  let ?now = "Aware (r_timestamp st)"
  obtain cb1 where 1: "trip_all (transient_halts (rm_limits rm) signal st) ?now False (rm_breaker rm) = (Inr (), cb1)"
      "cb1 = fold breaker_step (map (\<lambda>h. B_trip h ?now False None None) (transient_halts (rm_limits rm) signal st)) (rm_breaker rm)"
      "0 < cb_default_cooldown_seconds cb1"
    using trip_all_correct [OF assms(2)] assms(2) by metis
  obtain cb2 where 2: "trip_all (critical_halts (rm_limits rm) st) ?now True cb1 = (Inr (), cb2)"
      "cb2 = fold breaker_step (map (\<lambda>h. B_trip h ?now True None None) (critical_halts (rm_limits rm) st)) cb1"
    using trip_all_correct [OF 1(3)] by metis
  have cb2: "cb2 = tripped_breaker signal st rm" using 1 2 by (simp add: tripped_breaker_def trip_ops_def)
  have none: "health_reasons (rm_limits rm) signal st @ exposure_reasons (rm_limits rm) signal st @
      only_if b x = [] \<longleftrightarrow> entry_ok (rm_limits rm) signal st \<and> \<not> b" for b x
    using entry_ok_reasons [of "rm_limits rm" signal st] by (auto simp: only_if_Nil)
  show ?thesis
    using assms(1) 1(1) 2(1) cb2 none
    by (simp add: evaluate_def Let_def status_def breaker_utc_def split_beta)
qed

text \<open>
  C8. An entry is allowed exactly when every limit holds (validity, regime, confidence, data
  quality, daily and weekly loss, drawdown, consecutive losses, health, spread, divergence,
  exposures, number of positions), the breaker is not active after the trips of this very
  evaluation, and the sizer accepts a size, which the decision carries.
\<close>

theorem evaluate_entry_allowed_iff:
  assumes "sg_intent signal = ENTRY" "breaker_inv (rm_breaker rm)"
  shows "\<exists>d rm'. evaluate signal entry stop st atr vol lot minn rm = (Inr d, rm') \<and>
    (d_allowed d \<longleftrightarrow> entry_ok (rm_limits rm) signal st \<and> cb_reasons (rm_breaker rm') = {} \<and>
       (\<exists>z. size_position (rm_limits rm) signal entry stop st atr vol lot minn = Inr z \<and> z_accepted z \<and>
            d_sizing d = Some z)) \<and>
    RiskDecision_validate d = Inr d"
proof -
  obtain s cb where sa: "status_at (r_timestamp st) (tripped_breaker signal st rm) = (s, cb)" by fastforce
  have act: "bs_active s \<longleftrightarrow> cb_reasons cb \<noteq> {}"
    using sa by (auto simp: status_at_def Let_def breaker_status_def)
  have pos: "0 < cb_default_cooldown_seconds (rm_breaker rm)" using assms(2) by (simp add: breaker_inv_def)
  have ne: "dedupe xs = [] \<longleftrightarrow> xs = []" for xs :: "reason_text list" by (simp add: dedupe_def)
  have none: "health_reasons (rm_limits rm) signal st @ exposure_reasons (rm_limits rm) signal st @
      only_if (bs_active s) (Breaker_active (bs_reasons s)) = [] \<longleftrightarrow> entry_ok (rm_limits rm) signal st \<and> \<not> bs_active s"
    using entry_ok_reasons [of "rm_limits rm" signal st] by (auto simp: only_if_Nil)
  note ev = evaluate_entry [OF assms(1) pos, of st entry stop atr vol lot minn, unfolded sa, simplified]
  have sz: "d_allowed (size_decision (rm_limits rm) signal entry stop st atr vol lot minn) \<longleftrightarrow>
      (\<exists>z. size_position (rm_limits rm) signal entry stop st atr vol lot minn = Inr z \<and> z_accepted z \<and>
         d_sizing (size_decision (rm_limits rm) signal entry stop st atr vol lot minn) = Some z)"
    "RiskDecision_validate (size_decision (rm_limits rm) signal entry stop st atr vol lot minn) =
       Inr (size_decision (rm_limits rm) signal entry stop st atr vol lot minn)"
    by (cases "size_position (rm_limits rm) signal entry stop st atr vol lot minn";
        auto simp: size_decision_def Let_def decision_def reject_size_def RiskDecision_validate_def)+
  show ?thesis
  proof (cases "entry_ok (rm_limits rm) signal st \<and> \<not> bs_active s")
    case True
    then show ?thesis using ev sz act by auto
  next
    case False
    then show ?thesis using ev act none ne
      by (auto simp: decision_def RiskDecision_validate_def)
  qed
qed

definition sample_manager :: RiskManager where
  "sample_manager = \<lparr>rm_limits = default_limits, rm_breaker = sample_breaker\<rparr>"

lemma sample_manager_inv: "breaker_inv (rm_breaker sample_manager)"
  by (simp add: sample_manager_def sample_breaker_def breaker_inv_def)

lemma sample_entry_ok: "entry_ok default_limits sample_signal sample_state"
  by (simp add: entry_ok_def default_limits_def sample_signal_def sample_state_def daily_loss_fraction_def
      weekly_loss_fraction_def drawdown_fraction_def dict_get_def dec_eval)

theorem evaluate_entry_allowed_iff_witness:
  "\<exists>d rm'. evaluate sample_signal 100 (Some 95) sample_state None None (Some 1) None sample_manager = (Inr d, rm') \<and>
     d_allowed d \<and> cb_reasons (rm_breaker rm') = {}"
proof -
  have "sg_intent sample_signal = ENTRY" by (simp add: sample_signal_def)
  from evaluate_entry_allowed_iff [OF this sample_manager_inv, of 100 "Some 95" sample_state None None "Some 1" None]
  obtain d rm' where d: "evaluate sample_signal 100 (Some 95) sample_state None None (Some 1) None sample_manager = (Inr d, rm')"
    "d_allowed d \<longleftrightarrow> entry_ok (rm_limits sample_manager) sample_signal sample_state \<and> cb_reasons (rm_breaker rm') = {} \<and>
       (\<exists>z. size_position (rm_limits sample_manager) sample_signal 100 (Some 95) sample_state None None (Some 1) None = Inr z \<and>
          z_accepted z \<and> d_sizing d = Some z)" by blast
  have tb: "tripped_breaker sample_signal sample_state sample_manager = sample_breaker"
    using entry_ok_no_halts [OF sample_entry_ok] by (simp add: tripped_breaker_def trip_ops_def sample_manager_def)
  then have "cb_reasons (rm_breaker rm') = {}" "d_sizing d = d_sizing (size_decision default_limits sample_signal 100 (Some 95)
      sample_state None None (Some 1) None)"
    using d(1) evaluate_entry [of sample_signal sample_manager sample_state 100 "Some 95" None None "Some 1" None]
      sample_entry_ok
    by (auto simp: status_at_def cooled_down_def sample_breaker_def Let_def breaker_status_def sample_manager_def
        sample_signal_def)
  then show ?thesis
    using d sample_entry_ok sample_size by (auto simp: sample_manager_def size_decision_def Let_def decision_def)
qed

section \<open>Sequences of manager operations\<close>

datatype RiskOp =
    R_evaluate Signal dec "dec option" RiskState "dec option" "dec option" "dec option" "dec option"
  | R_activate datetime string
  | R_reset datetime string

fun manager_step :: "RiskOp \<Rightarrow> RiskManager \<Rightarrow> RiskManager" where
  "manager_step (R_evaluate sg entry stop st atr vol lot minn) rm = snd (evaluate sg entry stop st atr vol lot minn rm)"
| "manager_step (R_activate d reason) rm = snd (activate_kill_switch d reason rm)"
| "manager_step (R_reset d conf) rm = snd (reset_kill_switch d conf rm)"

fun unconfirmed_op :: "RiskOp \<Rightarrow> bool" where
  "unconfirmed_op (R_reset d conf) = (conf \<noteq> ''RESET_KILL_SWITCH'')"
| "unconfirmed_op _ = True"

text \<open>Whatever a manager operation does to the breaker is a sequence of breaker operations.\<close>

definition breaker_runs :: "RiskManager \<Rightarrow> RiskManager \<Rightarrow> bool" where
  "breaker_runs rm rm' \<longleftrightarrow> rm_limits rm' = rm_limits rm \<and>
     (\<exists>ops. list_all unconfirmed ops \<and> rm_breaker rm' = fold breaker_step ops (rm_breaker rm))"

lemma evaluate_breaker_runs:
  assumes "breaker_inv (rm_breaker rm)"
  shows "breaker_runs rm (snd (evaluate sg entry stop st atr vol lot minn rm))"
proof (cases "sg_intent sg = ENTRY")
  case True
  let ?trips = "trip_ops (rm_limits rm) sg st"
  have "snd (evaluate sg entry stop st atr vol lot minn rm) =
      rm\<lparr>rm_breaker := snd (status_at (r_timestamp st) (tripped_breaker sg st rm))\<rparr>"
    using evaluate_entry [OF True, of rm st entry stop atr vol lot minn] assms
    by (auto simp: breaker_inv_def split_beta Let_def)
  moreover have "snd (status_at (r_timestamp st) (tripped_breaker sg st rm)) =
      fold breaker_step (?trips @ [B_status (Aware (r_timestamp st))]) (rm_breaker rm)"
    by (simp add: tripped_breaker_def status_def breaker_utc_def split_beta Let_def)
  moreover have "list_all unconfirmed (?trips @ [B_status (Aware (r_timestamp st))])" by simp
  ultimately show ?thesis unfolding breaker_runs_def by (auto intro!: exI [of _ "?trips @ [B_status (Aware (r_timestamp st))]"])
next
  case False
  then have "sg_intent sg \<in> {EXIT, REDUCE}" by (cases "sg_intent sg") simp_all
  then have "snd (evaluate sg entry stop st atr vol lot minn rm) =
      rm\<lparr>rm_breaker := fold breaker_step [B_status (Aware (r_timestamp st))] (rm_breaker rm)\<rparr>"
    by (simp add: evaluate_def Let_def status_def breaker_utc_def split_beta)
  then show ?thesis unfolding breaker_runs_def by (auto intro!: exI [of _ "[B_status (Aware (r_timestamp st))]"])
qed

lemma manager_breaker_runs:
  assumes "unconfirmed_op a" "breaker_inv (rm_breaker rm)" shows "breaker_runs rm (manager_step a rm)"
proof (cases a)
  case (R_evaluate sg entry stop st atr vol lot minn)
  then show ?thesis using evaluate_breaker_runs [OF assms(2)] by simp
next
  case (R_activate d reason)
  then have "manager_step a rm = rm \<or> manager_step a rm =
      rm\<lparr>rm_breaker := fold breaker_step [B_trip MANUAL_KILL_SWITCH d True None (Some (strip reason))] (rm_breaker rm)\<rparr>"
    by (simp add: activate_kill_switch_def split_beta)
  then show ?thesis
  proof
    assume "manager_step a rm = rm"
    then show ?thesis unfolding breaker_runs_def by (auto intro: exI [of _ "[]"])
  next
    assume "manager_step a rm = rm\<lparr>rm_breaker := fold breaker_step
        [B_trip MANUAL_KILL_SWITCH d True None (Some (strip reason))] (rm_breaker rm)\<rparr>"
    then show ?thesis unfolding breaker_runs_def
      by (intro conjI exI [of _ "[B_trip MANUAL_KILL_SWITCH d True None (Some (strip reason))]"]) simp_all
  qed
next
  case (R_reset d conf)
  then have "manager_step a rm = rm" using assms(1) by (simp add: reset_kill_switch_def reset_def)
  then show ?thesis unfolding breaker_runs_def by (auto intro: exI [of _ "[]"])
qed

definition manager_inv :: "RiskManager \<Rightarrow> bool" where
  "manager_inv rm \<longleftrightarrow> breaker_inv (rm_breaker rm)"

lemma breaker_runs_inv: "breaker_runs rm rm' \<Longrightarrow> manager_inv rm \<Longrightarrow> manager_inv rm'"
  by (auto simp: breaker_runs_def manager_inv_def intro: breaker.inv_run)

interpretation manager: invariant_machine manager_step unconfirmed_op manager_inv
proof unfold_locales
  show "manager_inv (manager_step a rm)" if "unconfirmed_op a" "manager_inv rm" for a rm
    using breaker_runs_inv [OF manager_breaker_runs [OF that(1)] that(2)] that(2) by (simp add: manager_inv_def)
qed

lemma breaker_runs_trans: "breaker_runs x y \<Longrightarrow> breaker_runs y z \<Longrightarrow> breaker_runs x z"
  unfolding breaker_runs_def
proof (elim exE conjE, goal_cases)
  case (1 a b)
  then show ?case by (intro conjI exI [of _ "a @ b"]) simp_all
qed

lemma manager_run:
  assumes "manager_inv rm" "list_all unconfirmed_op ops" shows "breaker_runs rm (fold manager_step ops rm)"
proof (rule manager.rel_run [where R = breaker_runs, OF _ _ _ assms(2,1)])
  show "breaker_runs t (manager_step a t)" if "unconfirmed_op a" "manager_inv t" for a t
    using that manager_breaker_runs by (simp add: manager_inv_def)
  show "breaker_runs t t" for t unfolding breaker_runs_def by (auto intro: exI [of _ "[]"])
qed (rule breaker_runs_trans)

text \<open>
  C9. Reaching the maximum drawdown stops all entries until a human resets the breaker: after
  an entry evaluation that sees it, whatever evaluations, kill-switch activations and resets
  without the exact confirmation follow, every later entry evaluation is refused, whatever the
  account then looks like; exits and reductions stay allowed.
\<close>

theorem drawdown_halts_until_reset:
  assumes "manager_inv rm" "sg_intent sg = ENTRY" "maximum_drawdown (rm_limits rm) \<le> drawdown_fraction st"
    "list_all unconfirmed_op ops"
    "rm1 = fold manager_step ops (snd (evaluate sg entry stop st atr vol lot minn rm))"
  shows "\<exists>d. fst (evaluate sg' entry' stop' st' atr' vol' lot' minn' rm1) = Inr d \<and>
    d_allowed d = (sg_intent sg' \<noteq> ENTRY)"
proof -
  let ?rm0 = "snd (evaluate sg entry stop st atr vol lot minn rm)"
  have b: "breaker_inv (rm_breaker rm)" using assms(1) by (simp add: manager_inv_def)
  have pos: "0 < cb_default_cooldown_seconds (rm_breaker rm)" using b by (simp add: breaker_inv_def)
  have crit: "critical_halts (rm_limits rm) st = [MAX_DRAWDOWN]"
    using assms(3) by (simp add: critical_halts_def only_if_def)
  let ?cb1 = "fold breaker_step (map (\<lambda>h. B_trip h (Aware (r_timestamp st)) False None None)
      (transient_halts (rm_limits rm) sg st)) (rm_breaker rm)"
  have p1: "0 < cb_default_cooldown_seconds ?cb1" using trip_all_correct [OF pos] pos by metis
  have "cb_manual_reset_required (tripped_breaker sg st rm)"
    using trip_all_correct [OF p1, of "[MAX_DRAWDOWN]" "r_timestamp st" True] by (auto simp: tripped_breaker_def trip_ops_def crit)
  then have m0: "cb_manual_reset_required (rm_breaker ?rm0)"
    using evaluate_entry [OF assms(2) pos, of st entry stop atr vol lot minn]
    by (auto simp: split_beta Let_def status_at_def cooled_down_def)
  have inv0: "manager_inv ?rm0"
    using breaker_runs_inv [OF evaluate_breaker_runs [OF b] assms(1)] .
  obtain ops' where o: "list_all unconfirmed ops'" "rm_breaker rm1 = fold breaker_step ops' (rm_breaker ?rm0)"
    using manager_run [OF inv0 assms(4)] assms(5) by (auto simp: breaker_runs_def)
  have m1: "cb_manual_reset_required (rm_breaker rm1)" and inv1: "breaker_inv (rm_breaker rm1)"
    using latched_run [OF _ o(1), of "rm_breaker ?rm0"] breaker.inv_run [OF o(1)] inv0 m0 o(2)
    by (auto simp: latched_rel_def manager_inv_def)
  show ?thesis
  proof (cases "sg_intent sg' = ENTRY")
    case True
    let ?trips = "trip_ops (rm_limits rm1) sg' st'"
    have "cb_manual_reset_required (tripped_breaker sg' st' rm1)" "breaker_inv (tripped_breaker sg' st' rm1)"
      using latched_run [OF inv1, of ?trips] breaker.inv_run [OF _ inv1, of ?trips] m1
      by (auto simp: tripped_breaker_def latched_rel_def)
    then have "bs_active (fst (status_at (r_timestamp st') (tripped_breaker sg' st' rm1)))"
      by (auto simp: status_at_def cooled_down_def Let_def breaker_status_def breaker_inv_def)
    then show ?thesis
      using evaluate_entry [OF True, of rm1 st' entry' stop' atr' vol' lot' minn'] inv1 True
      by (auto simp: split_beta Let_def decision_def breaker_inv_def)
  next
    case False
    then have "sg_intent sg' \<in> {EXIT, REDUCE}" by (cases "sg_intent sg'") simp_all
    then show ?thesis using False
      by (simp add: evaluate_def Let_def status_def breaker_utc_def split_beta decision_def)
  qed
qed

theorem drawdown_halts_until_reset_witness:
  "let st = sample_state\<lparr>r_peak_equity := 12500\<rparr>;
       rm1 = fold manager_step [R_reset (Aware 20) ''reset''] (snd (evaluate sample_signal 100 (Some 95) st None None None None sample_manager))
   in \<exists>d. fst (evaluate sample_signal 100 (Some 95) sample_state None None None None rm1) = Inr d \<and> \<not> d_allowed d"
proof -
  let ?st = "sample_state\<lparr>r_peak_equity := 12500\<rparr>"
  have "manager_inv sample_manager" using sample_manager_inv by (simp add: manager_inv_def)
  moreover have e: "sg_intent sample_signal = ENTRY" by (simp add: sample_signal_def)
  moreover have "maximum_drawdown (rm_limits sample_manager) \<le> drawdown_fraction ?st"
    by (simp add: sample_manager_def default_limits_def drawdown_fraction_def sample_state_def dec_eval)
  moreover have "list_all unconfirmed_op [R_reset (Aware 20) ''reset'']" by simp
  ultimately show ?thesis
    using drawdown_halts_until_reset [where rm = sample_manager and sg = sample_signal and st = ?st
        and ops = "[R_reset (Aware 20) ''reset'']" and sg' = sample_signal, OF _ _ _ _ refl] e
    unfolding Let_def by metis
qed

end
