(* ===== verification/Gateway_Validation.thy ===== *)
theory Gateway_Validation
  imports Gateway_Bindings Venue_Risk Leg_Execution Risk_Manager
begin

text \<open>
  The gate of \<open>src/app/services/live_trading/gateway.py\<close>: the state of a gateway, its construction, and
  the chain of checks an order passes before the adapter is called. A check answers \<open>None\<close> or the
  reason of the rejection; the few places where the code raises instead (naive datetimes in stored
  events, trusted records or preflights) are errors. The optional audit sink is absent.
\<close>

section \<open>The gateway\<close>

record LiveExecutionGateway =
  gw_settings :: Settings
  gw_preflight :: LivePreflightReport
  gw_source_event_repository :: "(string \<Rightarrow> StoredSourceEvent option) option"
  gw_trusted_capability_registry :: "TrustedCapabilityRegistry option"
  gw_model_version :: string
  gw_config_version :: string
  gw_kill_switch_reason :: "string option"
  gw_audit_events :: "ExecutionAuditEvent list"
  gw_idempotent_receipts :: "(string, ExecutionOrderAck) dict"
  gw_order_timestamps :: "instant list"
  gw_cross_venue_preflight_service :: "CrossVenuePreflightService option"
  gw_leg_execution_machine :: "LegExecutionMachine option"
  gw_last_preflight_action :: "PreflightChangeAction option"

definition RECONCILIATION_CAPABILITIES :: "(string \<times> string) list" where
  "RECONCILIATION_CAPABILITIES =
     [(''lookup_order_by_client_id'', ''order_lookup_by_client_id''), (''fetch_recent_fills'', ''recent_fills''),
      (''fetch_open_orders'', ''open_orders''), (''fetch_positions'', ''positions'')]"

text \<open>\<open>clock n\<close> is the value of the n-th \<open>datetime.now(UTC)\<close> of the loop.\<close>

fun validate_capability_loop ::
  "'x environment \<Rightarrow> TrustedCapabilityRegistry \<Rightarrow> (nat \<Rightarrow> instant) \<Rightarrow> nat \<Rightarrow> (string \<times> string) list \<Rightarrow> unit result" where
  "validate_capability_loop env reg clock n [] = Inr ()"
| "validate_capability_loop env reg clock n ((method_name, capability) # rest) =
     (if \<not> ad_callable env method_name
      then Inl (ValueError (''concrete execution adapter is missing '' @ method_name))
      else case require_live_verified reg (ad_name env) capability (clock n) ''*'' of
        Inl (ValueError exc) \<Rightarrow> Inl (ValueError
          (''reconciliation capability '' @ capability @ '' is not LIVE_VERIFIED: '' @ exc))
      | Inl e \<Rightarrow> Inl e
      | Inr _ \<Rightarrow> validate_capability_loop env reg clock (Suc n) rest)"

definition validate_reconciliation_startup ::
  "'x environment \<Rightarrow> (nat \<Rightarrow> instant) \<Rightarrow> TrustedCapabilityRegistry option \<Rightarrow> unit result" where
  "validate_reconciliation_startup env clock registry =
     (if \<not> ad_is_concrete env then Inr ()
      else case registry of
        None \<Rightarrow> Inl (ValueError ''live execution requires a trusted capability registry'')
      | Some reg \<Rightarrow> validate_capability_loop env reg clock 0 RECONCILIATION_CAPABILITIES)"

definition required_checks :: "string set" where
  "required_checks = {''production_environment'', ''live_enabled'', ''paper_disabled'', ''dry_run_disabled'',
     ''configuration_confirmation'', ''runtime_confirmation'', ''concrete_adapter'', ''adapter_health'',
     ''credentials_present'', ''withdrawal_permission_disabled'', ''data_quality'', ''websocket_connected'',
     ''clock_synchronized'', ''kill_switch_clear'', ''paper_validation'', ''out_of_sample_validation''}"

definition validate_preflight_integrity :: "'x environment \<Rightarrow> Settings \<Rightarrow> LivePreflightReport \<Rightarrow> unit result" where
  "validate_preflight_integrity env settings report =
     bindE (raise_if (pr_approved report \<noteq> list_all ck_passed (pr_checks report))
       (ValueError ''preflight approval is inconsistent with its checks'')) (\<lambda>_.
     bindE (raise_if (pr_approved report \<and> set (map ck_name (pr_checks report)) \<noteq> required_checks)
       (ValueError ''approved preflight is missing required safety checks'')) (\<lambda>_.
     raise_if (pr_approved report \<and>
         (\<not> ad_is_concrete env \<or> ad_name env \<noteq> lv_adapter_name (st_live settings)))
       (ValueError ''approved preflight does not match the supplied concrete adapter'')))"

text \<open>
  \<open>__init__\<close>. \<open>durable\<close> is the durability of the binding repository, \<open>None\<close> when there is none. The
  optional services are the ones the constructor ends up with, given or taken from the adapter.
\<close>

definition LiveExecutionGateway_init ::
  "'x environment \<Rightarrow> (nat \<Rightarrow> instant) \<Rightarrow> Settings \<Rightarrow> LivePreflightReport \<Rightarrow> (string \<Rightarrow> StoredSourceEvent option) option \<Rightarrow>
   TrustedCapabilityRegistry option \<Rightarrow> string \<Rightarrow> string \<Rightarrow> LegExecutionMachine option \<Rightarrow>
   CrossVenuePreflightService option \<Rightarrow> bool option \<Rightarrow> LiveExecutionGateway result" where
  "LiveExecutionGateway_init env clock settings report source_events registry model_version config_version
     machine service durable =
     bindE (if lv_enabled (st_live settings)
       then bindE (raise_if (durable \<noteq> Some True)
           (ValueError ''live execution requires a durable preflight binding repository'')) (\<lambda>_.
         validate_reconciliation_startup env clock registry)
       else Inr ()) (\<lambda>_.
     bindE (validate_preflight_integrity env settings report) (\<lambda>_.
     Inr \<lparr>gw_settings = settings, gw_preflight = report, gw_source_event_repository = source_events,
          gw_trusted_capability_registry = registry, gw_model_version = model_version,
          gw_config_version = config_version, gw_kill_switch_reason = None, gw_audit_events = [],
          gw_idempotent_receipts = [], gw_order_timestamps = [], gw_cross_venue_preflight_service = service,
          gw_leg_execution_machine = machine, gw_last_preflight_action = None\<rparr>))"

section \<open>Source events\<close>

definition stored_event_mismatch :: "SourceEventEvidence \<Rightarrow> StoredSourceEvent \<Rightarrow> string option" where
  "stored_event_mismatch e s =
     (let differs = (\<lambda>field. Some (''source event '' @ field @ '' does not match repository'')) in
      if se_venue e \<noteq> so_venue s then differs ''venue''
      else if se_symbol e \<noteq> so_symbol s then differs ''symbol''
      else if se_event_type e \<noteq> so_event_type s then differs ''event_type''
      else if map_option Aware (se_exchange_timestamp e) \<noteq> so_exchange_timestamp s then differs ''exchange_timestamp''
      else if Aware (se_received_at e) \<noteq> so_received_at s then differs ''received_at''
      else if Aware (se_available_at e) \<noteq> so_available_at s then differs ''available_at''
      else if se_payload_sha256 e \<noteq> so_payload_sha256 s then differs ''payload_sha256''
      else if se_sequence e \<noteq> so_sequence s then differs ''sequence''
      else if se_connection_id e \<noteq> so_connection_id s then differs ''connection_id''
      else if se_reconciliation_state e \<noteq> so_reconciliation_state s then differs ''reconciliation_state''
      else if se_data_quality_score e \<noteq> so_data_quality_score s then differs ''data_quality_score''
      else None)"

definition event_types :: "(string, string list) dict" where
  "event_types =
     [(''funding_current'', [''funding_current'', ''funding'']), (''funding_history'', [''funding_history'']),
      (''orderbook_snapshot'', [''orderbook_snapshot'', ''orderbook_delta'']), (''index_price'', [''index_price'']),
      (''market_liquidation_stream'', [''market_liquidation'', ''liquidation'']),
      (''open_interest'', [''open_interest'']), (''trades'', [''trade'', ''trades''])]"

text \<open>\<open>re.fullmatch(r"[0-9a-f]{64}", text)\<close>\<close>

definition is_sha256_hex :: "string \<Rightarrow> bool" where
  "is_sha256_hex t \<longleftrightarrow> length t = 64 \<and>
     list_all (\<lambda>c. CHR ''0'' \<le> c \<and> c \<le> CHR ''9'' \<or> CHR ''a'' \<le> c \<and> c \<le> CHR ''f'') t"

definition stored_event_failure ::
  "LiveExecutionGateway \<Rightarrow> LiveOrderRequest \<Rightarrow> string \<Rightarrow> instant \<Rightarrow> string \<Rightarrow> StoredSourceEvent \<Rightarrow> string option result" where
  "stored_event_failure gw request capability timestamp expected_venue s =
     (if so_venue s \<noteq> expected_venue then Inr (Some ''stored source event venue does not match order venue'')
      else if so_symbol s \<noteq> lo_symbol request then Inr (Some ''stored source event symbol does not match order symbol'')
      else if so_event_type s \<notin> set (case map_of event_types capability of None \<Rightarrow> [] | Some ts \<Rightarrow> ts)
      then Inr (Some ''source event type does not match capability'')
      else case so_available_at s of
        Naive _ \<Rightarrow> Inl (TypeError ''can not subtract offset-naive and offset-aware datetimes'')
      | Aware a \<Rightarrow>
          let age = timestamp - a in
          Inr (if age < 0 \<or> age > seconds (lv_source_event_max_age_seconds (st_live (gw_settings gw)))
            then Some ''source event is stale or future-dated''
            else if \<not> is_sha256_hex (so_payload_sha256 s) then Some ''source event payload hash is invalid''
            else if so_data_quality_score s < lv_minimum_data_quality (st_live (gw_settings gw))
            then Some ''source event data quality is below threshold''
            else if so_event_type s \<in> {''orderbook_snapshot'', ''orderbook_delta''} \<and>
                so_reconciliation_state s \<noteq> Some SYNCHRONIZED
            then Some ''source event is not synchronized'' else None))"

definition source_event_failure ::
  "LiveExecutionGateway \<Rightarrow> LiveOrderRequest \<Rightarrow> string \<Rightarrow> instant \<Rightarrow> string \<Rightarrow> SourceEventEvidence \<Rightarrow> string option result" where
  "source_event_failure gw request capability timestamp expected_venue event =
     (if se_event_id event = [] then Inr (Some ''source event id is empty'')
      else case gw_source_event_repository gw of
        None \<Rightarrow> Inr (Some ''source event repository is unavailable'')
      | Some repository_get \<Rightarrow>
          (case repository_get (se_event_id event) of
             None \<Rightarrow> Inr (Some ''source event does not exist in repository'')
           | Some stored \<Rightarrow>
               (case stored_event_mismatch event stored of
                  Some mismatch \<Rightarrow> Inr (Some mismatch)
                | None \<Rightarrow> stored_event_failure gw request capability timestamp expected_venue stored)))"

text \<open>A loop of checks: the first rejection or exception ends it.\<close>

fun first_rejection :: "('a \<Rightarrow> string option result) \<Rightarrow> 'a list \<Rightarrow> string option result" where
  "first_rejection f [] = Inr None"
| "first_rejection f (x # xs) =
     (case f x of Inl e \<Rightarrow> Inl e | Inr (Some r) \<Rightarrow> Inr (Some r) | Inr None \<Rightarrow> first_rejection f xs)"

definition validate_source_events ::
  "LiveExecutionGateway \<Rightarrow> LiveOrderRequest \<Rightarrow> CapabilityEvidence \<Rightarrow> instant \<Rightarrow> string \<Rightarrow> string option result" where
  "validate_source_events gw request capability timestamp expected_venue =
     first_rejection (source_event_failure gw request (ce_capability capability) timestamp expected_venue)
       (ce_source_events capability)"

section \<open>Capabilities\<close>

definition trusted_mismatch :: "CapabilityEvidence \<Rightarrow> TrustedCapabilityRecord \<Rightarrow> string option" where
  "trusted_mismatch item trusted =
     (if ce_support item \<noteq> tr_support trusted then Some ''capability support does not match trusted record''
      else if ce_adapter_version item \<noteq> tr_adapter_version trusted then Some ''adapter version does not match trusted record''
      else if ce_source_version item \<noteq> tr_source_version trusted then Some ''source version does not match trusted record''
      else if ce_contract_fixture_sha256 item \<noteq> tr_contract_fixture_sha256 trusted
      then Some ''fixture sha256 does not match trusted record''
      else if ce_audit_run_id item \<noteq> tr_audit_run_id trusted then Some ''capability audit run does not match trusted record''
      else None)"

definition validate_capability ::
  "LiveExecutionGateway \<Rightarrow> LiveOrderRequest \<Rightarrow> string \<Rightarrow> CapabilityUseCase \<Rightarrow> instant \<Rightarrow> CapabilityEvidence \<Rightarrow>
   string option result" where
  "validate_capability gw request expected_venue expected_use_case timestamp item =
     (let age = timestamp - ce_verified_at item in
      if ce_venue item \<noteq> expected_venue then Inr (Some ''capability evidence venue does not match order venue'')
      else if ce_use_case item \<noteq> expected_use_case
      then Inr (Some ''capability evidence use case does not match order intent'')
      else if age < 0 \<or> age > seconds (lv_capability_verification_max_age_seconds (st_live (gw_settings gw)))
      then Inr (Some ''capability evidence is stale or future-dated'')
      else case gw_trusted_capability_registry gw of
        None \<Rightarrow> Inr (Some ''trusted capability registry is unavailable'')
      | Some reg \<Rightarrow>
          (case trusted_require reg (ce_venue item) (ce_capability item) (ce_verification_run_id item)
                  (ce_verified_at item) (ce_use_case item) timestamp ''*'' of
             Inl (ValueError exc) \<Rightarrow> Inr (Some (''trusted capability rejected evidence: '' @ exc))
           | Inl e \<Rightarrow> Inl e
           | Inr trusted \<Rightarrow>
               (case trusted_mismatch item trusted of
                  Some mismatch \<Rightarrow> Inr (Some mismatch)
                | None \<Rightarrow> validate_source_events gw request item timestamp expected_venue)))"

definition validate_leg ::
  "LiveExecutionGateway \<Rightarrow> LiveOrderRequest \<Rightarrow> instant \<Rightarrow> LegDataEvidence \<Rightarrow> string option result" where
  "validate_leg gw request timestamp leg =
     first_rejection (validate_capability gw request (le_venue leg)
         (if lo_reduce_only request then EMERGENCY_EXIT else NEW_EXPOSURE) timestamp) (le_capabilities leg)"

section \<open>The checks of an order\<close>

text \<open>Checks in sequence, each with the reason it gives when its condition holds.\<close>

fun first_failure :: "(bool \<times> string) list \<Rightarrow> string option" where
  "first_failure [] = None"
| "first_failure ((failed, reason) # rest) = (if failed then Some reason else first_failure rest)"

text \<open>What \<open>_validate_request\<close> gets of the risk decision; \<open>preview\<close> is its flag.\<close>

record risk_view =
  rk_allowed :: bool
  rk_evaluated_at :: instant
  rk_preview :: bool
  rk_decision_id :: "string option"
  rk_maximum_quantity :: "dec option"

definition freshness_failure :: "LiveExecutionGateway \<Rightarrow> LiveOrderRequest \<Rightarrow> instant \<Rightarrow> bool \<Rightarrow> string option" where
  "freshness_failure gw request timestamp preview =
     (let preflight_age = timestamp - pr_timestamp (gw_preflight gw);
          request_age = timestamp - lo_created_at request
      in first_failure
        [(\<not> preview \<and> \<not> pr_approved (gw_preflight gw), ''live preflight is not approved''),
         (\<not> preview \<and> (preflight_age < 0 \<or>
            preflight_age > seconds (lv_preflight_ttl_seconds (st_live (gw_settings gw)))),
          ''live preflight is stale or future-dated''),
         (request_age < 0, ''order request is future-dated''),
         (request_age > seconds (st_stale_data_seconds (gw_settings gw)), ''order request is stale''),
         (lo_expires_at request \<le> timestamp, ''order request has expired'')])"

definition capability_keys :: "LegDataEvidence \<Rightarrow> LegDataEvidence \<Rightarrow> (string \<times> string) list" where
  "capability_keys receive pay =
     map (\<lambda>c. (ce_venue c, ce_capability c)) (le_capabilities receive @ le_capabilities pay)"

definition role_venue :: "LegDataEvidence \<Rightarrow> LegDataEvidence \<Rightarrow> string \<Rightarrow> string" where
  "role_venue receive pay role =
     (if role = ''receive_leg'' then le_venue receive else if role = ''pay_leg'' then le_venue pay else [])"

definition requirement_failure ::
  "LiveOrderRequest \<Rightarrow> LegDataEvidence \<Rightarrow> LegDataEvidence \<Rightarrow> RequiredVenueCapability list \<Rightarrow> string option" where
  "requirement_failure request receive pay registered =
     (let role_capabilities = map rv_capability
            (filter (\<lambda>r. rv_venue_role r = lo_order_leg_role request) registered);
          keys = capability_keys receive pay
      in first_failure
        [(lo_required_capabilities request \<noteq> role_capabilities,
          ''required capabilities do not exactly match strategy registry''),
         (\<not> distinct keys, ''duplicate venue and capability evidence''),
         (list_ex (\<lambda>r. (role_venue receive pay (rv_venue_role r), rv_capability r) \<notin> set keys) registered,
          ''required cross-venue capability evidence is missing'')])"

text \<open>Identity and hashes of the evidence, the order's own leg, and the strategy's requirements.\<close>

definition evidence_failure :: "'x environment \<Rightarrow> LiveOrderRequest \<Rightarrow> string option" where
  "evidence_failure env request =
     (let h = evidence_hashes env; evidence = lo_cross_venue_signal_evidence request in
      if xe_signal_id evidence \<noteq> lo_signal_id request \<or> \<not> cross_valid_hash h evidence \<or>
         lo_cross_venue_signal_hash request \<noteq> xe_evidence_hash evidence
      then Some ''cross-venue signal evidence identity or hash is invalid''
      else case (xe_receive_leg evidence, xe_pay_leg evidence) of
        (None, _) \<Rightarrow> Some ''receive leg evidence is missing''
      | (_, None) \<Rightarrow> Some ''pay leg evidence is missing''
      | (Some receive, Some pay) \<Rightarrow>
          if le_venue receive = le_venue pay then Some ''receive and pay venues must differ''
          else if \<not> leg_valid_hash h receive \<or> \<not> leg_valid_hash h pay
          then Some ''cross-venue leg evidence hash is invalid''
          else case evidence_leg evidence (lo_order_leg_role request) of
            None \<Rightarrow> Some ''order leg evidence does not match full signal''
          | Some order_leg \<Rightarrow>
              if order_leg \<noteq> lo_order_leg_evidence request
              then Some ''order leg evidence does not match full signal''
              else if le_venue order_leg \<noteq> lo_exchange request then Some ''order venue does not match leg role''
              else case map_of STRATEGY_CAPABILITY_REGISTRY (lo_strategy_id request, lo_strategy_version request) of
                None \<Rightarrow> Some ''unknown strategy id or version''
              | Some registered \<Rightarrow> requirement_failure request receive pay registered)"

text \<open>The legs whose capabilities are validated: the order's own leg, or both for new exposure.\<close>

definition checked_legs :: "LiveOrderRequest \<Rightarrow> LegDataEvidence list" where
  "checked_legs request =
     (let evidence = lo_cross_venue_signal_evidence request in
      if lo_reduce_only request
      then (case evidence_leg evidence (lo_order_leg_role request) of None \<Rightarrow> [] | Some leg \<Rightarrow> [leg])
      else (case (xe_receive_leg evidence, xe_pay_leg evidence) of
              (Some receive, Some pay) \<Rightarrow> [receive, pay] | _ \<Rightarrow> []))"

subsection \<open>The cross-venue preflight\<close>

definition source_event_hash :: "'x environment \<Rightarrow> LegDataEvidence \<Rightarrow> string" where
  "source_event_hash env leg =
     dg_text (evidence_hashes env) (join ''|'' (sort (concat (map
       (\<lambda>c. map (\<lambda>e. se_event_id e @ '':'' @ se_payload_sha256 e) (ce_source_events c)) (le_capabilities leg)))))"

definition datetime_lt :: "datetime \<Rightarrow> datetime \<Rightarrow> bool result" where
  "datetime_lt a b = bindE (datetime_le b a) (\<lambda>le. Inr (\<not> le))"

text \<open>\<open>created_at <= timestamp < expires_at\<close>\<close>

definition preflight_in_force :: "preflight_values \<Rightarrow> instant \<Rightarrow> bool result" where
  "preflight_in_force v timestamp =
     bindE (datetime_le (fst (v_created_at v)) (Aware timestamp)) (\<lambda>started.
     if \<not> started then Inr False else datetime_lt (Aware timestamp) (fst (v_expires_at v)))"

definition preflight_limits_failure :: "LiveOrderRequest \<Rightarrow> preflight_values \<Rightarrow> string option" where
  "preflight_limits_failure request v = first_failure
     [(\<not> v_receive_execution_health v \<or> \<not> v_pay_execution_health v,
       ''cross-venue execution preflight health check failed''),
      (min (fst (v_receive_available_collateral v)) (fst (v_pay_available_collateral v)) \<le> 0,
       ''cross-venue execution preflight collateral is insufficient''),
      (min (fst (v_receive_fillable_quantity v)) (fst (v_pay_fillable_quantity v)) < lo_quantity request,
       ''cross-venue execution preflight fillable quantity is insufficient'')]"

definition preflight_hash_failure ::
  "'x environment \<Rightarrow> LegDataEvidence \<Rightarrow> LegDataEvidence \<Rightarrow> preflight_values \<Rightarrow> string option" where
  "preflight_hash_failure env receive pay v = first_failure
     [(v_receive_capability_hash v \<noteq> le_evidence_hash receive \<or> v_pay_capability_hash v \<noteq> le_evidence_hash pay,
       ''cross-venue preflight capability hashes do not match evidence''),
      (v_receive_source_event_hash v \<noteq> source_event_hash env receive \<or>
       v_pay_source_event_hash v \<noteq> source_event_hash env pay,
       ''cross-venue preflight source event hashes do not match evidence'')]"

text \<open>A binding in use under another preflight hash; the leg machine is told about the change.\<close>

definition binding_conflict :: "LiveOrderRequest \<Rightarrow> 'x world \<Rightarrow> bool" where
  "binding_conflict request w =
     (case mem_get (wo_bindings w) (lo_signal_id request) of
        None \<Rightarrow> False
      | Some b \<Rightarrow> bi_state b \<notin> {UNBOUND, ABORTED} \<and> bi_preflight_hash b \<noteq> Some (request_hash request))"

definition report_preflight_change ::
  "preflight_values \<Rightarrow> instant \<Rightarrow> LiveExecutionGateway \<Rightarrow> (unit, LiveExecutionGateway) outcome" where
  "report_preflight_change v timestamp gw =
     (case gw_leg_execution_machine gw of
        None \<Rightarrow> (Inr (), gw)
      | Some m \<Rightarrow>
          (case handle_preflight_change (Aware timestamp) True (v_pay_execution_health v)
                  (fst (v_pay_available_collateral v)) (fst (v_pay_fillable_quantity v))
                  (fst (v_pay_expected_vwap v)) True m of
             (Inl e, m') \<Rightarrow> (Inl e, gw\<lparr>gw_leg_execution_machine := Some m'\<rparr>)
           | (Inr action, m') \<Rightarrow>
               (Inr (), gw\<lparr>gw_leg_execution_machine := Some m', gw_last_preflight_action := Some action\<rparr>)))"

definition validate_cross_venue_preflight ::
  "'x environment \<Rightarrow> LiveOrderRequest \<Rightarrow> instant \<Rightarrow> 'x world \<Rightarrow> LiveExecutionGateway \<Rightarrow>
   (string option, LiveExecutionGateway) outcome" where
  "validate_cross_venue_preflight env request timestamp w gw =
     (let evidence = lo_cross_venue_signal_evidence request; p = lo_cross_venue_preflight request;
          v = v_values (cv_payload p)
      in case (xe_receive_leg evidence, xe_pay_leg evidence) of
        (Some receive, Some pay) \<Rightarrow>
          (case gw_cross_venue_preflight_service gw of
             None \<Rightarrow> (Inr (Some ''trusted cross-venue preflight service is unavailable''), gw)
           | Some service \<Rightarrow>
               (case verify (preflight_hashes env) service p (Aware timestamp) of
                  Inl (ValueError exc) \<Rightarrow>
                    (Inr (Some (''trusted cross-venue preflight rejected snapshot: '' @ exc)), gw)
                | Inl e \<Rightarrow> (Inl e, gw)
                | Inr _ \<Rightarrow>
                    if v_signal_id v \<noteq> lo_signal_id request
                    then (Inr (Some ''cross-venue execution preflight hash or signal is invalid''), gw)
                    else if v_receive_venue v \<noteq> le_venue receive \<or> v_pay_venue v \<noteq> le_venue pay
                    then (Inr (Some ''cross-venue execution preflight venues do not match evidence''), gw)
                    else case preflight_in_force v timestamp of
                      Inl e \<Rightarrow> (Inl e, gw)
                    | Inr False \<Rightarrow> (Inr (Some ''cross-venue execution preflight is stale or future-dated''), gw)
                    | Inr True \<Rightarrow>
                        (case preflight_limits_failure request v of
                           Some reason \<Rightarrow> (Inr (Some reason), gw)
                         | None \<Rightarrow>
                             if binding_conflict request w then
                               bindS (report_preflight_change v timestamp)
                                 (\<lambda>_ gw'. (Inr (Some ''cross-venue orders use different preflight hashes''), gw')) gw
                             else (Inr (preflight_hash_failure env receive pay v), gw))))
      | _ \<Rightarrow> (Inr (Some ''cross-venue execution preflight leg evidence is missing''), gw))"

subsection \<open>Venue, size, risk and rate\<close>

definition eligibility_failure :: "LiveExecutionGateway \<Rightarrow> LiveOrderRequest \<Rightarrow> instant \<Rightarrow> string option result" where
  "eligibility_failure gw request timestamp =
     (if lo_exchange request \<notin> set (map xs_name (filter xs_execution_enabled (st_exchanges (gw_settings gw))))
      then Inr (Some ''exchange is not execution-enabled'')
      else case execution_eligibility_reason (gw_settings gw) (lo_exchange request) (Aware timestamp)
             (lo_reduce_only request) of
        Inl (KeyError _) \<Rightarrow> Inr (Some ''venue eligibility is not configured'')
      | Inl e \<Rightarrow> Inl e
      | Inr (Some reason) \<Rightarrow> Inr (Some (''venue eligibility rejected execution: '' @ reason))
      | Inr None \<Rightarrow> Inr None)"

definition risk_failure :: "LiveExecutionGateway \<Rightarrow> LiveOrderRequest \<Rightarrow> instant \<Rightarrow> risk_view \<Rightarrow> string option" where
  "risk_failure gw request timestamp rk =
     (let risk_age = timestamp - rk_evaluated_at rk; entry = (\<not> rk_preview rk \<and> \<not> lo_reduce_only request) in
      first_failure
        [(lo_symbol request \<notin> set (lv_allowed_symbols (st_live (gw_settings gw))), ''symbol is not live-allowed''),
         (reference_notional request > lv_maximum_order_notional (st_live (gw_settings gw)),
          ''order reference notional exceeds live maximum''),
         (\<not> rk_allowed rk, ''risk manager rejected the order''),
         (\<not> rk_preview rk \<and> rk_decision_id rk \<noteq> Some (lo_risk_decision_id request),
          ''risk decision identity does not match the order request''),
         (entry \<and> rk_maximum_quantity rk = None, ''entry risk decision has no approved position size''),
         (entry \<and> (case rk_maximum_quantity rk of None \<Rightarrow> False | Some q \<Rightarrow> lo_quantity request > q),
          ''order quantity exceeds the risk-approved position size''),
         (entry \<and> (risk_age < 0 \<or> risk_age > seconds (st_stale_data_seconds (gw_settings gw))),
          ''risk decision is stale or future-dated''),
         (gw_kill_switch_reason gw \<notin> {None, Some []} \<and> \<not> lo_reduce_only request,
          ''kill switch blocks new exposure'')])"

text \<open>The sliding window of one minute: expired timestamps leave on the left.\<close>

definition trim_order_timestamps :: "instant \<Rightarrow> LiveExecutionGateway \<Rightarrow> LiveExecutionGateway" where
  "trim_order_timestamps timestamp gw =
     gw\<lparr>gw_order_timestamps := dropWhile (\<lambda>t. t \<le> timestamp - seconds 60) (gw_order_timestamps gw)\<rparr>"

definition rate_failure :: "LiveExecutionGateway \<Rightarrow> string option" where
  "rate_failure gw =
     (if int (length (gw_order_timestamps gw)) \<ge> lv_maximum_orders_per_minute (st_live (gw_settings gw))
      then Some ''live order rate limit reached'' else None)"

definition late_failure ::
  "LiveOrderRequest \<Rightarrow> instant \<Rightarrow> risk_view \<Rightarrow> LiveExecutionGateway \<Rightarrow> (string option, LiveExecutionGateway) outcome" where
  "late_failure request timestamp rk gw =
     (case eligibility_failure gw request timestamp of
        Inl e \<Rightarrow> (Inl e, gw)
      | Inr (Some reason) \<Rightarrow> (Inr (Some reason), gw)
      | Inr None \<Rightarrow>
          (case risk_failure gw request timestamp rk of
             Some reason \<Rightarrow> (Inr (Some reason), gw)
           | None \<Rightarrow> let gw1 = trim_order_timestamps timestamp gw in (Inr (rate_failure gw1), gw1)))"

definition validate_request ::
  "'x environment \<Rightarrow> LiveOrderRequest \<Rightarrow> instant \<Rightarrow> risk_view \<Rightarrow> 'x world \<Rightarrow> LiveExecutionGateway \<Rightarrow>
   (string option, LiveExecutionGateway) outcome" where
  "validate_request env request timestamp rk w gw =
     (case freshness_failure gw request timestamp (rk_preview rk) of
        Some reason \<Rightarrow> (Inr (Some reason), gw)
      | None \<Rightarrow>
     (case evidence_failure env request of
        Some reason \<Rightarrow> (Inr (Some reason), gw)
      | None \<Rightarrow>
     (case first_rejection (validate_leg gw request timestamp) (checked_legs request) of
        Inl e \<Rightarrow> (Inl e, gw)
      | Inr (Some reason) \<Rightarrow> (Inr (Some reason), gw)
      | Inr None \<Rightarrow>
     (case validate_cross_venue_preflight env request timestamp w gw of
        (Inl e, gw1) \<Rightarrow> (Inl e, gw1)
      | (Inr (Some reason), gw1) \<Rightarrow> (Inr (Some reason), gw1)
      | (Inr None, gw1) \<Rightarrow> late_failure request timestamp rk gw1))))"

end
