(* ===== verification/Live_Gateway.thy ===== *)
theory Live_Gateway
  imports Gateway_Validation
begin

text \<open>
  \<open>LiveExecutionGateway\<close> of \<open>src/app/services/live_trading/gateway.py\<close>: previewing, placing and
  cancelling orders, closing positions and the kill switch, on the gateway state and the world. The
  placement lock makes one \<open>place_order\<close> of a gateway at a time; what other tasks and processes do
  meanwhile is part of the adapter calls and of \<open>others\<close>.
\<close>

type_synonym 'x live = "LiveExecutionGateway \<times> 'x world"

section \<open>Auditing and rejecting\<close>

definition live_audit ::
  "'x environment \<Rightarrow> instant \<Rightarrow> string \<Rightarrow> string option \<Rightarrow> bool \<Rightarrow> string \<Rightarrow> (string, detail) dict \<Rightarrow>
   LiveExecutionGateway \<Rightarrow> LiveExecutionGateway" where
  "live_audit env timestamp event_type request_id allowed reason details gw =
     gw\<lparr>gw_audit_events := gw_audit_events gw @
       [\<lparr>ea_event_id = uuid_text env (length (gw_audit_events gw)), ea_timestamp = timestamp,
         ea_event_type = event_type, ea_request_id = request_id, ea_allowed = allowed, ea_reason = reason,
         ea_model_version = gw_model_version gw, ea_config_version = gw_config_version gw, ea_details = details\<rparr>]\<rparr>"

definition request_details :: "LiveOrderRequest \<Rightarrow> (string, detail) dict" where
  "request_details request =
     [(''signal_id'', Text_detail (lo_signal_id request)),
      (''risk_decision_id'', Text_detail (lo_risk_decision_id request)),
      (''symbol'', Text_detail (lo_symbol request)),
      (''reference_notional'', Amount_detail (reference_notional request))]"

definition rejection :: "LiveOrderRequest \<Rightarrow> instant \<Rightarrow> string \<Rightarrow> ExecutionOrderAck" where
  "rejection request timestamp reason =
     \<lparr>ak_request_id = lo_request_id request, ak_external_order_id = None, ak_state = Live_rejected,
      ak_accepted_at = timestamp, ak_reason = reason, ak_adapter_called = False\<rparr>"

definition remember :: "LiveOrderRequest \<Rightarrow> ExecutionOrderAck \<Rightarrow> LiveExecutionGateway \<Rightarrow> LiveExecutionGateway" where
  "remember request receipt gw =
     gw\<lparr>gw_idempotent_receipts := dict_set (lo_idempotency_key request) receipt (gw_idempotent_receipts gw)\<rparr>"

definition reject_and_remember ::
  "'x environment \<Rightarrow> LiveOrderRequest \<Rightarrow> instant \<Rightarrow> string \<Rightarrow> LiveExecutionGateway \<Rightarrow>
   ExecutionOrderAck \<times> LiveExecutionGateway" where
  "reject_and_remember env request timestamp reason gw =
     (let receipt = rejection request timestamp reason in
      (receipt, live_audit env timestamp ''order_rejected'' (Some (lo_request_id request)) False reason
         (request_details request) (remember request receipt gw)))"

section \<open>Previewing\<close>

definition preview_order ::
  "'x environment \<Rightarrow> LiveOrderRequest \<Rightarrow> datetime \<Rightarrow> 'x live \<Rightarrow> (ExecutionOrderAck, 'x live) outcome" where
  "preview_order env request timestamp0 s =
     (let (gw, w) = s in
      case as_utc ''execution timestamp must be timezone-aware'' timestamp0 of
        Inl e \<Rightarrow> (Inl e, s)
      | Inr timestamp \<Rightarrow>
          (case validate_request env request timestamp
                  \<lparr>rk_allowed = True, rk_evaluated_at = timestamp, rk_preview = True, rk_decision_id = None,
                   rk_maximum_quantity = None\<rparr> w gw of
             (Inl e, gw1) \<Rightarrow> (Inl e, (gw1, w))
           | (Inr failure, gw1) \<Rightarrow>
               let receipt = (case failure of
                     None \<Rightarrow> (rejection request timestamp ''dry-run preview accepted; adapter not called'')
                       \<lparr>ak_state := Live_dry_run\<rparr>
                   | Some reason \<Rightarrow> rejection request timestamp reason)
               in (Inr receipt, (live_audit env timestamp ''order_preview'' (Some (lo_request_id request))
                     (failure = None) (ak_reason receipt) [] gw1, w))))"

section \<open>Placing\<close>

text \<open>
  How far the \<open>try\<close> block has come when an exception reaches its handler: before the reservation,
  after it, or after the submission has started.
\<close>

datatype progress = Unreserved | Holding | Submitting

definition except_adapter ::
  "'x environment \<Rightarrow> LiveOrderRequest \<Rightarrow> instant \<Rightarrow> progress \<Rightarrow> error \<Rightarrow> 'x live \<Rightarrow> ('a, 'x live) outcome" where
  "except_adapter env request timestamp progress e s =
     (let (gw, w) = s in
      case (case progress of
              Unreserved \<Rightarrow> (Inr (), w)
            | Holding \<Rightarrow> abort_preflight env request timestamp (error_name e) w
            | Submitting \<Rightarrow> mark_reconciliation_required env request timestamp (error_name e) w) of
        (Inl e', w') \<Rightarrow> (Inl e', (gw, w'))
      | (Inr _, w') \<Rightarrow>
          (Inl (ExecutionAdapterError ''execution adapter failed; details retained internally''),
           (live_audit env timestamp ''adapter_error'' (Some (lo_request_id request)) False (error_name e) [] gw, w')))"

text \<open>What the \<open>try\<close> block ends with: a receipt it returns, or one the adapter gave.\<close>

datatype submission = Returned ExecutionOrderAck | Receipt ExecutionOrderAck

definition return_rejection ::
  "'x environment \<Rightarrow> LiveOrderRequest \<Rightarrow> instant \<Rightarrow> string \<Rightarrow> 'x live \<Rightarrow> (submission, 'x live) outcome" where
  "return_rejection env request timestamp reason s =
     (let (receipt, gw') = reject_and_remember env request timestamp reason (fst s)
      in (Inr (Returned receipt), (gw', snd s)))"

definition abort_and_reject ::
  "'x environment \<Rightarrow> LiveOrderRequest \<Rightarrow> instant \<Rightarrow> string \<Rightarrow> string \<Rightarrow> 'x live \<Rightarrow> (submission, 'x live) outcome" where
  "abort_and_reject env request timestamp why reason s =
     (let (gw, w) = s in
      case abort_preflight env request timestamp why w of
        (Inl e, w') \<Rightarrow> except_adapter env request timestamp Holding e (gw, w')
      | (Inr _, w') \<Rightarrow> return_rejection env request timestamp reason (gw, w'))"

text \<open>The reduce-only checks: the reason of the abort and the reason of the rejection.\<close>

definition reduce_only_failure :: "LiveOrderRequest \<Rightarrow> LivePosition option \<Rightarrow> (string \<times> string) option" where
  "reduce_only_failure request position =
     (if \<not> lo_reduce_only request then None
      else let quantity = (case position of None \<Rightarrow> 0 | Some p \<Rightarrow> lp_quantity p) in
        if quantity = 0
        then Some (''reduce-only position is absent'', ''reduce-only order has no open position'')
        else if \<not> (quantity > 0 \<and> lo_side request = SELL \<or> quantity < 0 \<and> lo_side request = BUY)
        then Some (''reduce-only side increases exposure'', ''reduce-only side would increase exposure'')
        else if lo_quantity request > dabs quantity
        then Some (''reduce-only quantity is excessive'', ''reduce-only quantity exceeds open position'')
        else None)"

definition find_position :: "LiveOrderRequest \<Rightarrow> LivePosition list \<Rightarrow> LivePosition option" where
  "find_position request positions =
     find (\<lambda>p. lp_exchange p = lo_exchange request \<and> lp_symbol p = lo_symbol request) positions"

definition submit_checked ::
  "'x environment \<Rightarrow> LiveOrderRequest \<Rightarrow> instant \<Rightarrow> LivePosition option \<Rightarrow> 'x live \<Rightarrow> (submission, 'x live) outcome" where
  "submit_checked env request timestamp position s =
     (let (gw, w) = s in
      case record_position_snapshot env request timestamp
             (case position of None \<Rightarrow> 0 | Some p \<Rightarrow> lp_quantity p) w of
        (Inl e, w1) \<Rightarrow> except_adapter env request timestamp Holding e (gw, w1)
      | (Inr _, w1) \<Rightarrow>
          (case reduce_only_failure request position of
             Some (why, reason) \<Rightarrow> abort_and_reject env request timestamp why reason (gw, w1)
           | None \<Rightarrow>
               (case ad_place_order env request w1 of
                  (Inl e, w2) \<Rightarrow> except_adapter env request timestamp Submitting e (gw, w2)
                | (Inr receipt, w2) \<Rightarrow> (Inr (Receipt receipt), (gw, w2)))))"

definition submit_reserved ::
  "'x environment \<Rightarrow> LiveOrderRequest \<Rightarrow> instant \<Rightarrow> 'x live \<Rightarrow> (submission, 'x live) outcome" where
  "submit_reserved env request timestamp s =
     (let (gw, w) = s in
      case ad_fetch_open_orders env None w of
        (Inl e, w1) \<Rightarrow> except_adapter env request timestamp Holding e (gw, w1)
      | (Inr open_orders, w1) \<Rightarrow>
          if int (length open_orders) \<ge> lv_maximum_open_orders (st_live (gw_settings gw))
          then abort_and_reject env request timestamp ''maximum open order count reached''
                 ''maximum open order count reached'' (gw, w1)
          else case ad_fetch_positions env w1 of
            (Inl e, w2) \<Rightarrow> except_adapter env request timestamp Holding e (gw, w2)
          | (Inr positions, w2) \<Rightarrow>
              submit_checked env request timestamp (find_position request positions) (gw, w2))"

definition acknowledged :: "'x environment \<Rightarrow> LiveOrderRequest \<Rightarrow> ExecutionOrderAck \<Rightarrow> instant \<Rightarrow>
  LiveExecutionGateway \<Rightarrow> LiveExecutionGateway" where
  "acknowledged env request receipt timestamp gw =
     (let gw1 = remember request receipt gw;
          gw2 = gw1\<lparr>gw_order_timestamps := gw_order_timestamps gw1 @ [timestamp]\<rparr>
      in live_audit env timestamp ''order_acknowledged'' (Some (lo_request_id request))
           (ak_state receipt = Live_accepted) (ak_reason receipt)
           ((''external_order_id'', Text_detail (case ak_external_order_id receipt of None \<Rightarrow> [] | Some i \<Rightarrow> i)) #
            request_details request) gw2)"

text \<open>After the \<open>try\<close> block: the adapter's receipt is checked, recorded on the binding and remembered.\<close>

definition acknowledge ::
  "'x environment \<Rightarrow> LiveOrderRequest \<Rightarrow> ExecutionOrderAck \<Rightarrow> instant \<Rightarrow> 'x live \<Rightarrow> (ExecutionOrderAck, 'x live) outcome" where
  "acknowledge env request receipt timestamp s =
     (let (gw, w) = s in
      if ak_request_id receipt \<noteq> lo_request_id request then
        (case mark_reconciliation_required env request timestamp ''adapter request id mismatch'' w of
           (Inl e, w1) \<Rightarrow> (Inl e, (gw, w1))
         | (Inr _, w1) \<Rightarrow>
             (Inl (ExecutionAdapterError ''execution adapter returned a mismatched request id''),
              (live_audit env timestamp ''adapter_protocol_error'' (Some (lo_request_id request)) False
                 ''request mismatch'' [] gw, w1)))
      else case record_preflight_ack env request receipt timestamp w of
        (Inr _, w1) \<Rightarrow> (Inr receipt, (acknowledged env request receipt timestamp gw, w1))
      | (Inl e, w1) \<Rightarrow>
          (case refresh_binding_and_exchange_state env request timestamp w1 of
             (Inl e', w2) \<Rightarrow> (Inl e', (gw, w2))
           | (Inr snapshot, w2) \<Rightarrow>
               (case handle_cas_snapshot env request snapshot timestamp w2 of
                  (Inl e', w3) \<Rightarrow> (Inl e', (gw, w3))
                | (Inr _, w3) \<Rightarrow>
                    if bi_state (preflight_binding (lo_signal_id request) w3) \<notin> {FIRST_LEG_ACCEPTED, BINDING_COMPLETED}
                    then (Inl e, (gw, w3))
                    else (Inr receipt, (acknowledged env request receipt timestamp gw, w3)))))"

definition view_of :: "LiveOrderRequest \<Rightarrow> RiskDecision \<Rightarrow> risk_view" where
  "view_of request d =
     \<lparr>rk_allowed = d_allowed d \<or> lo_reduce_only request, rk_evaluated_at = d_evaluated_at d, rk_preview = False,
      rk_decision_id = Some (decision_id_text (d_decision_id d)),
      rk_maximum_quantity = map_option z_quantity (d_sizing d)\<rparr>"

text \<open>
  The \<open>try\<close> block of \<open>_place_order_locked\<close>. The recursive call, after a resolved conflict, happens
  inside it: what it raises reaches the handler, what it returns is returned. It sets \<open>cas_retry\<close>, so
  it is not repeated: \<open>retry\<close> is that call, and \<open>None\<close> in the call itself.
\<close>

definition try_block ::
  "'x environment \<Rightarrow> ('x live \<Rightarrow> (ExecutionOrderAck, 'x live) outcome) option \<Rightarrow> LiveOrderRequest \<Rightarrow> instant \<Rightarrow>
   'x live \<Rightarrow> (submission, 'x live) outcome" where
  "try_block env retry request timestamp s =
     (let (gw, w) = s in
      case ad_health_check env w of
        (Inl e, w1) \<Rightarrow> except_adapter env request timestamp Unreserved e (gw, w1)
      | (Inr False, w1) \<Rightarrow> return_rejection env request timestamp ''adapter health check failed'' (gw, w1)
      | (Inr True, w1) \<Rightarrow>
          (case reserve_preflight env request timestamp w1 of
             (None, w2) \<Rightarrow> submit_reserved env request timestamp (gw, w2)
           | (Some failure, w2) \<Rightarrow>
               (case (if failure = ''preflight binding CAS conflict'' then retry else None) of
                  None \<Rightarrow> return_rejection env request timestamp failure (gw, w2)
                | Some again \<Rightarrow>
                    (case refresh_binding_and_exchange_state env request timestamp w2 of
                       (Inl _, w3) \<Rightarrow> return_rejection env request timestamp
                         ''preflight binding CAS conflict and exchange refresh failed'' (gw, w3)
                     | (Inr snapshot, w3) \<Rightarrow>
                         (case handle_cas_snapshot env request snapshot timestamp w3 of
                            (Inl e, w4) \<Rightarrow> except_adapter env request timestamp Unreserved e (gw, w4)
                          | (Inr False, w4) \<Rightarrow> return_rejection env request timestamp
                              ''preflight binding CAS conflict requires reconciliation'' (gw, w4)
                          | (Inr True, w4) \<Rightarrow>
                              (case again (gw, w4) of
                                 (Inl e, s') \<Rightarrow> except_adapter env request timestamp Unreserved e s'
                               | (Inr receipt, s') \<Rightarrow> (Inr (Returned receipt), s')))))))"

definition finish_submission ::
  "'x environment \<Rightarrow> LiveOrderRequest \<Rightarrow> instant \<Rightarrow> submission \<Rightarrow> 'x live \<Rightarrow> (ExecutionOrderAck, 'x live) outcome" where
  "finish_submission env request timestamp r s =
     (case r of
        Returned receipt \<Rightarrow> (Inr receipt, s)
      | Receipt receipt \<Rightarrow> acknowledge env request receipt timestamp s)"

definition place_with ::
  "'x environment \<Rightarrow> ('x live \<Rightarrow> (ExecutionOrderAck, 'x live) outcome) option \<Rightarrow> LiveOrderRequest \<Rightarrow> RiskDecision \<Rightarrow>
   instant \<Rightarrow> 'x live \<Rightarrow> (ExecutionOrderAck, 'x live) outcome" where
  "place_with env retry request d timestamp s =
     (let (gw, w) = s in
      case map_of (gw_idempotent_receipts gw) (lo_idempotency_key request) of
        Some previous \<Rightarrow>
          (Inr previous, (live_audit env timestamp ''idempotent_replay'' (Some (lo_request_id request))
             (ak_state previous = Live_accepted) ''returned prior receipt without calling adapter'' [] gw, w))
      | None \<Rightarrow>
          (case validate_request env request timestamp (view_of request d) w gw of
             (Inl e, gw1) \<Rightarrow> (Inl e, (gw1, w))
           | (Inr (Some reason), gw1) \<Rightarrow>
               (let (receipt, gw2) = reject_and_remember env request timestamp reason gw1 in (Inr receipt, (gw2, w)))
           | (Inr None, gw1) \<Rightarrow>
               bindS (try_block env retry request timestamp) (finish_submission env request timestamp) (gw1, w)))"

definition place_order_locked ::
  "'x environment \<Rightarrow> bool \<Rightarrow> LiveOrderRequest \<Rightarrow> RiskDecision \<Rightarrow> instant \<Rightarrow> 'x live \<Rightarrow>
   (ExecutionOrderAck, 'x live) outcome" where
  "place_order_locked env cas_retry request d timestamp =
     (if cas_retry then place_with env None request d timestamp
      else place_with env (Some (place_with env None request d timestamp)) request d timestamp)"

definition place_order ::
  "'x environment \<Rightarrow> LiveOrderRequest \<Rightarrow> RiskDecision \<Rightarrow> datetime \<Rightarrow> 'x live \<Rightarrow> (ExecutionOrderAck, 'x live) outcome" where
  "place_order env request d timestamp0 s =
     (case as_utc ''execution timestamp must be timezone-aware'' timestamp0 of
        Inl e \<Rightarrow> (Inl e, s)
      | Inr timestamp \<Rightarrow> place_order_locked env False request d timestamp s)"

section \<open>Cancelling, closing and the kill switch\<close>

definition require_approved :: "LiveExecutionGateway \<Rightarrow> unit result" where
  "require_approved gw = raise_if (\<not> pr_approved (gw_preflight gw)) (RuntimeError ''live preflight is not approved'')"

definition live_cancel_order ::
  "'x environment \<Rightarrow> string \<Rightarrow> datetime \<Rightarrow> 'x live \<Rightarrow> (CancelAck, 'x live) outcome" where
  "live_cancel_order env external_order_id timestamp0 s =
     (let (gw, w) = s in
      case bindE (as_utc ''execution timestamp must be timezone-aware'' timestamp0)
             (\<lambda>t. bindE (require_approved gw) (\<lambda>_. Inr t)) of
        Inl e \<Rightarrow> (Inl e, s)
      | Inr timestamp \<Rightarrow>
          (case ad_cancel_order env external_order_id w of
             (Inl e, w') \<Rightarrow> (Inl (ExecutionAdapterError ''cancel failed; details retained internally''),
               (live_audit env timestamp ''cancel_error'' (Some external_order_id) False (error_name e) [] gw, w'))
           | (Inr result, w') \<Rightarrow> (Inr result,
               (live_audit env timestamp ''order_canceled'' (Some external_order_id) (ca_canceled result)
                  (ca_reason result) [] gw, w'))))"

definition live_kill_switch ::
  "'x environment \<Rightarrow> string \<Rightarrow> datetime \<Rightarrow> 'x live \<Rightarrow> (CancelAck list, 'x live) outcome" where
  "live_kill_switch env reason timestamp0 s =
     (let (gw, w) = s in
      case bindE (as_utc ''execution timestamp must be timezone-aware'' timestamp0) (\<lambda>t.
             bindE (raise_if (strip reason = []) (ValueError ''kill-switch reason is required'')) (\<lambda>_. Inr t)) of
        Inl e \<Rightarrow> (Inl e, s)
      | Inr timestamp \<Rightarrow>
          let gw1 = live_audit env timestamp ''kill_switch'' None False reason [] (gw\<lparr>gw_kill_switch_reason := Some reason\<rparr>)
          in if \<not> pr_approved (gw_preflight gw1) then (Inr [], (gw1, w))
          else case ad_cancel_all_orders env w of
            (Inl e, w') \<Rightarrow> (Inl (ExecutionAdapterError ''cancel-all failed; manual intervention required''),
              (live_audit env timestamp ''cancel_all_error'' None False (error_name e) [] gw1, w'))
          | (Inr canceled, w') \<Rightarrow> (Inr canceled, (gw1, w')))"

definition live_close_position ::
  "'x environment \<Rightarrow> string \<Rightarrow> datetime \<Rightarrow> 'x live \<Rightarrow> (ExecutionOrderAck, 'x live) outcome" where
  "live_close_position env symbol timestamp0 s =
     (let (gw, w) = s in
      case bindE (as_utc ''execution timestamp must be timezone-aware'' timestamp0) (\<lambda>t.
             bindE (require_approved gw) (\<lambda>_.
             bindE (raise_if (symbol \<notin> set (lv_allowed_symbols (st_live (gw_settings gw))))
               (ValueError ''position symbol is not live-allowed'')) (\<lambda>_. Inr t))) of
        Inl e \<Rightarrow> (Inl e, s)
      | Inr timestamp \<Rightarrow>
          (case ad_close_position env symbol w of
             (Inl e, w') \<Rightarrow> (Inl (ExecutionAdapterError ''close-position failed; manual intervention required''),
               (live_audit env timestamp ''close_error'' (Some symbol) False (error_name e) [] gw, w'))
           | (Inr result, w') \<Rightarrow> (Inr result,
               (live_audit env timestamp ''position_close'' (Some (ak_request_id result)) True (ak_reason result) [] gw, w'))))"

section \<open>The disabled adapter\<close>

text \<open>
  \<open>DisabledExecutionAdapter\<close>: every call raises \<open>LiveTradingDisabledError\<close>, the health check answers
  \<open>False\<close>. The arguments are what an environment holds beside the adapter.
\<close>

definition DisabledExecutionAdapter ::
  "('x world \<Rightarrow> 'x world) \<Rightarrow> (nat \<Rightarrow> string) \<Rightarrow> evidence_digests \<Rightarrow> digests \<Rightarrow> 'x environment" where
  "DisabledExecutionAdapter other_processes uuids evidence_digests preflight_digests =
     \<lparr>ad_name = ''disabled'', ad_is_concrete = False, ad_callable = (\<lambda>_. True),
      ad_health_check = (\<lambda>w. (Inr False, w)),
      ad_place_order = (\<lambda>_ w. (Inl (ExternalError ''LiveTradingDisabledError''), w)),
      ad_cancel_order = (\<lambda>_ w. (Inl (ExternalError ''LiveTradingDisabledError''), w)),
      ad_cancel_all_orders = (\<lambda>w. (Inl (ExternalError ''LiveTradingDisabledError''), w)),
      ad_fetch_open_orders = (\<lambda>_ w. (Inl (ExternalError ''LiveTradingDisabledError''), w)),
      ad_fetch_positions = (\<lambda>w. (Inl (ExternalError ''LiveTradingDisabledError''), w)),
      ad_fetch_recent_fills = (\<lambda>_ _ w. (Inl (ExternalError ''LiveTradingDisabledError''), w)),
      ad_lookup_order = (\<lambda>_ w. (Inl (ExternalError ''LiveTradingDisabledError''), w)),
      ad_close_position = (\<lambda>_ w. (Inl (ExternalError ''LiveTradingDisabledError''), w)),
      others = other_processes, uuid_text = uuids, evidence_hashes = evidence_digests,
      preflight_hashes = preflight_digests\<rparr>"

end
