(* ===== verification/Gateway_Placement.thy ===== *)
theory Gateway_Placement
  imports Live_Gateway
begin

text \<open>
  What the live gateway guarantees about placing orders: receipts are replayed and never replaced,
  the adapter is asked for an order only behind every gate and at most once, the kill switch stops new
  exposure for good, and the acknowledged orders respect the rate limit.
\<close>

section \<open>What a call changes of the gateway\<close>

definition ack_times :: "LiveExecutionGateway \<Rightarrow> instant list" where
  "ack_times gw = map ea_timestamp (filter (\<lambda>e. ea_event_type e = ''order_acknowledged'') (gw_audit_events gw))"

definition same_desk :: "LiveExecutionGateway \<Rightarrow> LiveExecutionGateway \<Rightarrow> bool" where
  "same_desk gw gw' \<longleftrightarrow> gw_settings gw' = gw_settings gw \<and> gw_preflight gw' = gw_preflight gw \<and>
     gw_kill_switch_reason gw' = gw_kill_switch_reason gw"

text \<open>Nothing but audit events of other types and the leg machine; or also a receipt.\<close>

definition quiet :: "LiveExecutionGateway \<Rightarrow> LiveExecutionGateway \<Rightarrow> bool" where
  "quiet gw gw' \<longleftrightarrow> same_desk gw gw' \<and> gw_idempotent_receipts gw' = gw_idempotent_receipts gw \<and>
     gw_order_timestamps gw' = gw_order_timestamps gw \<and> ack_times gw' = ack_times gw"

definition books :: "LiveOrderRequest \<Rightarrow> ExecutionOrderAck \<Rightarrow> LiveExecutionGateway \<Rightarrow> LiveExecutionGateway \<Rightarrow> bool" where
  "books request receipt gw gw' \<longleftrightarrow> same_desk gw gw' \<and>
     gw_idempotent_receipts gw' = dict_set (lo_idempotency_key request) receipt (gw_idempotent_receipts gw) \<and>
     gw_order_timestamps gw' = gw_order_timestamps gw \<and> ack_times gw' = ack_times gw"

text \<open>An acknowledged order: a receipt, a timestamp in the window and an audit event.\<close>

definition sends :: "LiveOrderRequest \<Rightarrow> ExecutionOrderAck \<Rightarrow> instant \<Rightarrow> LiveExecutionGateway \<Rightarrow> LiveExecutionGateway \<Rightarrow> bool" where
  "sends request receipt t gw gw' \<longleftrightarrow> same_desk gw gw' \<and>
     gw_idempotent_receipts gw' = dict_set (lo_idempotency_key request) receipt (gw_idempotent_receipts gw) \<and>
     gw_order_timestamps gw' = gw_order_timestamps gw @ [t] \<and> ack_times gw' = ack_times gw @ [t]"

lemma same_desk_refl [simp, intro]: "same_desk gw gw"
  by (simp add: same_desk_def)

lemma same_desk_trans: "same_desk a b \<Longrightarrow> same_desk b c \<Longrightarrow> same_desk a c"
  by (simp add: same_desk_def)

lemma quiet_refl [simp, intro]: "quiet gw gw"
  by (simp add: quiet_def)

lemma quiet_trans:
  "quiet a b \<Longrightarrow> quiet b c \<Longrightarrow> quiet a c"
  "books q r a b \<Longrightarrow> quiet b c \<Longrightarrow> books q r a c"
  "quiet a b \<Longrightarrow> books q r b c \<Longrightarrow> books q r a c"
  "quiet a b \<Longrightarrow> sends q r t b c \<Longrightarrow> sends q r t a c"
  by (auto simp: quiet_def books_def sends_def same_desk_def)

lemma live_audit_quiet [intro]:
  "ty \<noteq> ''order_acknowledged'' \<Longrightarrow> quiet gw (live_audit env t ty i a r d gw)"
  by (simp add: quiet_def same_desk_def live_audit_def ack_times_def)

lemma reject_books: "reject_and_remember env q t reason gw = (rec, gw') \<Longrightarrow> books q rec gw gw'"
  by (auto simp: reject_and_remember_def Let_def books_def same_desk_def live_audit_def remember_def ack_times_def)

lemma acknowledged_sends: "sends q rec t gw (acknowledged env q rec t gw)"
  by (simp add: sends_def acknowledged_def Let_def same_desk_def live_audit_def remember_def ack_times_def)

section \<open>The parts of placing an order\<close>

lemma except_adapter_quiet:
  assumes "except_adapter env q t p e (gw, w) = (r, (gw', w'))"
  shows "(\<exists>e'. r = Inl e') \<and> quiet gw gw'"
  using assms by (auto simp: except_adapter_def split: sum.splits prod.splits intro!: live_audit_quiet)

lemma return_rejection_books:
  assumes "return_rejection env q t reason (gw, w) = (r, (gw', w'))"
  shows "\<exists>rec. r = Inr (Returned rec) \<and> books q rec gw gw' \<and> w' = w"
  using assms by (auto simp: return_rejection_def split: prod.splits intro: reject_books)

text \<open>The three ways the \<open>try\<close> block may end.\<close>

definition block_ends :: "LiveOrderRequest \<Rightarrow> LiveExecutionGateway \<Rightarrow> submission result \<Rightarrow> LiveExecutionGateway \<Rightarrow> bool" where
  "block_ends q gw r gw' =
     (case r of Inl _ \<Rightarrow> quiet gw gw' | Inr (Returned rec) \<Rightarrow> books q rec gw gw' | Inr (Receipt _) \<Rightarrow> quiet gw gw')"

lemma block_ends_except: "except_adapter env q t p e (gw, w) = (r, (gw', w')) \<Longrightarrow> block_ends q gw r gw'"
  using except_adapter_quiet [of env q t p e gw w r gw' w'] by (auto simp: block_ends_def)

lemma block_ends_reject: "return_rejection env q t reason (gw, w) = (r, (gw', w')) \<Longrightarrow> block_ends q gw r gw'"
  using return_rejection_books [of env q t reason gw w r gw' w'] by (auto simp: block_ends_def)

lemma block_ends_abort: "abort_and_reject env q t why reason (gw, w) = (r, (gw', w')) \<Longrightarrow> block_ends q gw r gw'"
  by (auto simp: abort_and_reject_def split: prod.splits sum.splits intro: block_ends_except block_ends_reject)

lemma block_ends_Receipt [simp]: "block_ends q gw (Inr (Receipt rec)) gw' \<longleftrightarrow> quiet gw gw'"
  by (simp add: block_ends_def)

lemma submit_checked_ends: "submit_checked env q t pos (gw, w) = (r, (gw', w')) \<Longrightarrow> block_ends q gw r gw'"
  by (auto simp: submit_checked_def split: prod.splits sum.splits option.splits
      intro: block_ends_except block_ends_abort)

lemma submit_reserved_ends: "submit_reserved env q t (gw, w) = (r, (gw', w')) \<Longrightarrow> block_ends q gw r gw'"
  by (auto simp: submit_reserved_def split: prod.splits sum.splits if_splits
      intro: block_ends_except block_ends_abort submit_checked_ends)

lemma acknowledge_cases:
  assumes "acknowledge env q rec t (gw, w) = (r, (gw', w'))"
  shows "(\<exists>e. r = Inl e \<and> quiet gw gw') \<or> (r = Inr rec \<and> sends q rec t gw gw')"
  using assms by (auto simp: acknowledge_def Let_def intro: acknowledged_sends live_audit_quiet
      split: if_splits prod.splits sum.splits)

text \<open>
  A whole call: an error leaves the receipts; an answer is a remembered receipt, or it is booked now,
  as a rejection or as an acknowledged order within the limit of the trimmed window.
\<close>

definition window :: "instant \<Rightarrow> LiveExecutionGateway \<Rightarrow> instant list" where
  "window t gw = dropWhile (\<lambda>u. u \<le> t - seconds 60) (gw_order_timestamps gw)"

definition call_ends :: "LiveOrderRequest \<Rightarrow> instant \<Rightarrow> LiveExecutionGateway \<Rightarrow> ExecutionOrderAck result \<Rightarrow>
  LiveExecutionGateway \<Rightarrow> bool" where
  "call_ends q t gw r gw' \<longleftrightarrow> same_desk gw gw' \<and>
     (let key = lo_idempotency_key q; old = gw_idempotent_receipts gw; new = gw_idempotent_receipts gw' in
      case r of
        Inl _ \<Rightarrow> map_of old key = None \<and> new = old
      | Inr rec \<Rightarrow> if map_of old key = Some rec then new = old else map_of old key = None \<and> new = dict_set key rec old) \<and>
     (ack_times gw' = ack_times gw \<and> gw_order_timestamps gw' \<in> {gw_order_timestamps gw, window t gw} \<or>
      ack_times gw' = ack_times gw @ [t] \<and> gw_order_timestamps gw' = window t gw @ [t] \<and>
      int (length (window t gw)) < lv_maximum_orders_per_minute (st_live (gw_settings gw)))"

text \<open>Validation: the window may be trimmed; passing it means the window has room.\<close>

definition trimmed :: "instant \<Rightarrow> LiveExecutionGateway \<Rightarrow> LiveExecutionGateway \<Rightarrow> bool" where
  "trimmed t gw gw' \<longleftrightarrow> same_desk gw gw' \<and> gw_idempotent_receipts gw' = gw_idempotent_receipts gw \<and>
     ack_times gw' = ack_times gw \<and> gw_order_timestamps gw' \<in> {gw_order_timestamps gw, window t gw}"

lemma trimmed_refl [simp, intro]: "trimmed t gw gw"
  by (simp add: trimmed_def)

lemma report_preflight_change_quiet: "quiet gw (snd (report_preflight_change v t gw))"
  by (auto simp: report_preflight_change_def quiet_def same_desk_def ack_times_def split: option.splits prod.splits sum.splits)

lemma validate_preflight_quiet:
  "validate_cross_venue_preflight env q t w gw = (r, gw') \<Longrightarrow> quiet gw gw' \<and> (r = Inr None \<longrightarrow> gw' = gw)"
  using report_preflight_change_quiet [of gw "v_values (cv_payload (lo_cross_venue_preflight q))" t]
  by (auto simp: validate_cross_venue_preflight_def Let_def bindS_def
      split: option.splits prod.splits sum.splits error.splits bool.splits if_splits)

lemma late_failure_trimmed:
  assumes "late_failure q t rk gw = (r, gw')"
  shows "trimmed t gw gw'"
    "r = Inr None \<Longrightarrow> gw_order_timestamps gw' = window t gw \<and>
       int (length (window t gw)) < lv_maximum_orders_per_minute (st_live (gw_settings gw))"
  using assms
  by (auto simp: late_failure_def trimmed_def same_desk_def trim_order_timestamps_def window_def ack_times_def
      rate_failure_def Let_def split: sum.splits option.splits if_splits)

lemma validate_request_trimmed:
  assumes "validate_request env q t rk w gw = (r, gw')"
  shows "trimmed t gw gw'"
    "r = Inr None \<Longrightarrow> gw_order_timestamps gw' = window t gw \<and>
       int (length (window t gw)) < lv_maximum_orders_per_minute (st_live (gw_settings gw))"
proof -
  have q: "quiet gw g \<Longrightarrow> trimmed t gw g" for g by (auto simp: quiet_def trimmed_def)
  show "trimmed t gw gw'"
    using assms late_failure_trimmed(1) [of q t rk gw]
    by (auto simp: validate_request_def intro: q split: option.splits sum.splits prod.splits
        dest!: validate_preflight_quiet)
  show "r = Inr None \<Longrightarrow> gw_order_timestamps gw' = window t gw \<and>
       int (length (window t gw)) < lv_maximum_orders_per_minute (st_live (gw_settings gw))"
    using assms late_failure_trimmed(2) [of q t rk gw]
    by (auto simp: validate_request_def split: option.splits sum.splits prod.splits dest!: validate_preflight_quiet)
qed

text \<open>The whole call, whatever the retry is, as long as the retry itself ends like a call.\<close>

definition retried :: "LiveOrderRequest \<Rightarrow> instant \<Rightarrow> LiveExecutionGateway \<Rightarrow> submission result \<Rightarrow> LiveExecutionGateway \<Rightarrow> bool" where
  "retried q t gw r gw' \<longleftrightarrow>
     (\<exists>r' g'. call_ends q t gw r' g' \<and>
       (case r' of Inl _ \<Rightarrow> (\<exists>e. r = Inl e) \<and> quiet g' gw' | Inr rec \<Rightarrow> r = Inr (Returned rec) \<and> gw' = g'))"

lemma retriedI:
  "call_ends q t gw (Inl e) g' \<Longrightarrow> except_adapter env q t p e' (g', v) = (r, (gw', w')) \<Longrightarrow> retried q t gw r gw'"
  "call_ends q t gw (Inr rec) gw' \<Longrightarrow> retried q t gw (Inr (Returned rec)) gw'"
   apply (unfold retried_def)
   apply (rule exI [of _ "Inl e"], rule exI [of _ g'], drule except_adapter_quiet, simp)
  apply (rule exI [of _ "Inr rec"], rule exI [of _ gw'], simp)
  done

lemma call_ends_quiet: "call_ends q t gw (Inl e) g \<Longrightarrow> quiet g gw' \<Longrightarrow> call_ends q t gw (Inl e') gw'"
  by (auto simp: call_ends_def quiet_def same_desk_def Let_def)

lemma retried_cases:
  assumes "retried q t gw r gw'"
  shows "(\<exists>e. r = Inl e \<and> call_ends q t gw (Inl e) gw') \<or> (\<exists>rec. r = Inr (Returned rec) \<and> call_ends q t gw (Inr rec) gw')"
proof -
  obtain r' g' where "call_ends q t gw r' g'"
    "case r' of Inl _ \<Rightarrow> (\<exists>e. r = Inl e) \<and> quiet g' gw' | Inr rec \<Rightarrow> r = Inr (Returned rec) \<and> gw' = g'"
    using assms by (auto simp only: retried_def)
  then show ?thesis by (cases r') (auto intro: call_ends_quiet)
qed

lemma try_block_ends:
  assumes "try_block env retry q t (gw, w) = (r, (gw', w'))"
    and retry: "\<And>f g v r' g' v'. retry = Some f \<Longrightarrow> f (g, v) = (r', (g', v')) \<Longrightarrow> call_ends q t g r' g'"
  shows "block_ends q gw r gw' \<or> retried q t gw r gw'"
  using assms(1)
  by (auto simp: try_block_def split: prod.splits sum.splits option.splits bool.splits if_splits
      intro: block_ends_except block_ends_reject submit_reserved_ends retriedI(2) [OF retry]
        retriedI(1) [OF retry])

lemma window_idem: "trimmed t gw g \<Longrightarrow> window t g = window t gw"
  by (auto simp: trimmed_def window_def dropWhile_idem)

text \<open>A call that ends well after a passed validation ends well from the start.\<close>

lemma call_ends_validated:
  assumes "trimmed t gw g" "gw_order_timestamps g = window t gw" "map_of (gw_idempotent_receipts gw) (lo_idempotency_key q) = None"
    "int (length (window t gw)) < lv_maximum_orders_per_minute (st_live (gw_settings gw))"
  shows "quiet g gw' \<Longrightarrow> call_ends q t gw (Inl e) gw'"
    "books q rec g gw' \<Longrightarrow> call_ends q t gw (Inr rec) gw'"
    "sends q rec t g gw' \<Longrightarrow> call_ends q t gw (Inr rec) gw'"
    "call_ends q t g r gw' \<Longrightarrow> call_ends q t gw r gw'"
  using assms window_idem [OF assms(1)]
  by (auto simp: call_ends_def quiet_def books_def sends_def trimmed_def same_desk_def Let_def split: sum.splits if_splits)

lemma place_with_ends:
  assumes "place_with env retry q d t (gw, w) = (r, (gw', w'))"
    and retry: "\<And>f g v r' g' v'. retry = Some f \<Longrightarrow> f (g, v) = (r', (g', v')) \<Longrightarrow> call_ends q t g r' g'"
  shows "call_ends q t gw r gw'"
proof (cases "map_of (gw_idempotent_receipts gw) (lo_idempotency_key q)")
  case (Some previous)
  then show ?thesis using assms(1)
    by (auto simp: place_with_def call_ends_def live_audit_def same_desk_def ack_times_def)
next
  case None
  obtain v g where v: "validate_request env q t (view_of q d) w gw = (v, g)" by fastforce
  note tr = validate_request_trimmed [OF v]
  show ?thesis
  proof (cases "v = Inr None")
    case False
    then show ?thesis using assms(1) None v tr(1)
      by (auto simp: place_with_def call_ends_def trimmed_def books_def same_desk_def
          split: sum.splits option.splits prod.splits dest!: reject_books)
  next
    case True
    note ok = call_ends_validated [OF tr(1) _ None]
    obtain b g2 w2 where b: "try_block env retry q t (g, w) = (b, (g2, w2))" by (metis prod_cases3)
    have fin: "bindS (try_block env retry q t) (finish_submission env q t) (g, w) = (r, (gw', w'))"
      using assms(1) None v True by (simp add: place_with_def)
    from try_block_ends [OF b retry]
    show ?thesis
    proof
      assume "block_ends q g b g2"
      then show ?thesis using fin tr(2) [OF True] ok
        by (auto simp: b bindS_def finish_submission_def block_ends_def split: sum.splits submission.splits
            dest!: acknowledge_cases dest: quiet_trans(1) quiet_trans(4))
    next
      assume "retried q t g b g2"
      then show ?thesis using fin tr(2) [OF True] ok(4)
        by (auto simp: b bindS_def finish_submission_def dest!: retried_cases)
    qed
  qed
qed

lemma place_order_ends:
  assumes "place_order env q d (Aware t) (gw, w) = (r, (gw', w'))"
  shows "call_ends q t gw r gw'"
  using assms place_with_ends [of env "Some (place_with env None q d t)" q d t gw w r gw' w']
    place_with_ends [of env None q d t]
  by (auto simp: place_order_def place_order_locked_def)

section \<open>Sequences of calls\<close>

datatype live_op = Op_preview LiveOrderRequest datetime | Op_place LiveOrderRequest RiskDecision datetime
  | Op_cancel string datetime | Op_kill string datetime | Op_close string datetime
  | Op_reconcile LiveOrderRequest datetime | Op_halt string string datetime

fun live_step :: "'x environment \<Rightarrow> live_op \<Rightarrow> 'x live \<Rightarrow> 'x live" where
  "live_step env (Op_preview q t) s = snd (preview_order env q t s)"
| "live_step env (Op_place q d t) s = snd (place_order env q d t s)"
| "live_step env (Op_cancel i t) s = snd (live_cancel_order env i t s)"
| "live_step env (Op_kill reason t) s = snd (live_kill_switch env reason t s)"
| "live_step env (Op_close symbol t) s = snd (live_close_position env symbol t s)"
| "live_step env (Op_reconcile q t) (gw, w) = (gw, snd (reconcile_binding env q t w))"
| "live_step env (Op_halt i reason t) (gw, w) = (gw, snd (halt_binding env i reason t w))"

definition killed :: "LiveExecutionGateway \<Rightarrow> bool" where
  "killed gw \<longleftrightarrow> gw_kill_switch_reason gw \<notin> {None, Some []}"

text \<open>What no call undoes: configuration, preflight, an active kill switch and remembered receipts.\<close>

definition desk_step :: "LiveExecutionGateway \<Rightarrow> LiveExecutionGateway \<Rightarrow> bool" where
  "desk_step gw gw' \<longleftrightarrow> gw_settings gw' = gw_settings gw \<and> gw_preflight gw' = gw_preflight gw \<and>
     (killed gw \<longrightarrow> killed gw') \<and> map_of (gw_idempotent_receipts gw) \<subseteq>\<^sub>m map_of (gw_idempotent_receipts gw')"

text \<open>The window and the acknowledged times of a call at time \<open>t\<close>.\<close>

definition rate_step :: "instant \<Rightarrow> LiveExecutionGateway \<Rightarrow> LiveExecutionGateway \<Rightarrow> bool" where
  "rate_step t gw gw' \<longleftrightarrow>
     (ack_times gw' = ack_times gw \<and> gw_order_timestamps gw' \<in> {gw_order_timestamps gw, window t gw} \<or>
      ack_times gw' = ack_times gw @ [t] \<and> gw_order_timestamps gw' = window t gw @ [t] \<and>
      int (length (window t gw)) < lv_maximum_orders_per_minute (st_live (gw_settings gw)))"

definition rate_same :: "LiveExecutionGateway \<Rightarrow> LiveExecutionGateway \<Rightarrow> bool" where
  "rate_same gw gw' \<longleftrightarrow> ack_times gw' = ack_times gw \<and> gw_order_timestamps gw' = gw_order_timestamps gw"

lemma quiet_steps: "quiet gw gw' \<Longrightarrow> desk_step gw gw' \<and> rate_same gw gw'"
  by (auto simp: quiet_def desk_step_def rate_same_def same_desk_def killed_def)

lemma call_ends_steps: "call_ends q t gw r gw' \<Longrightarrow> desk_step gw gw' \<and> rate_step t gw gw'"
  by (auto simp: call_ends_def desk_step_def rate_step_def same_desk_def killed_def map_le_def Let_def
      split: sum.splits if_splits)

lemma trimmed_steps: "trimmed t gw g \<Longrightarrow> quiet g gw' \<Longrightarrow> desk_step gw gw' \<and> rate_step t gw gw'"
  by (auto simp: trimmed_def quiet_def desk_step_def rate_step_def same_desk_def killed_def)

lemmas step_intros = quiet_steps [THEN conjunct1] quiet_steps [THEN conjunct2] call_ends_steps [THEN conjunct1]
  call_ends_steps [THEN conjunct2] trimmed_steps [THEN conjunct1] trimmed_steps [THEN conjunct2]

lemma preview_trimmed:
  assumes "preview_order env q (Aware t) (gw, w) = (r, (gw', w'))"
  shows "\<exists>g. trimmed t gw g \<and> quiet g gw'"
proof -
  let ?rk = "\<lparr>rk_allowed = True, rk_evaluated_at = t, rk_preview = True, rk_decision_id = None, rk_maximum_quantity = None\<rparr>"
  obtain v g where v: "validate_request env q t ?rk w gw = (v, g)" by fastforce
  have "quiet g gw'" using assms by (auto simp: preview_order_def Let_def v split: sum.splits intro!: live_audit_quiet)
  then show ?thesis using validate_request_trimmed(1) [OF v] by blast
qed

fun op_time :: "live_op \<Rightarrow> instant list" where
  "op_time (Op_preview q (Aware t)) = [t]"
| "op_time (Op_place q d (Aware t)) = [t]"
| "op_time _ = []"

lemma strip_Nil: "strip [] = []"
  by (simp add: strip_def)

lemma kill_desk: "live_kill_switch env reason t0 (gw, w) = (r, (gw', w')) \<Longrightarrow>
  desk_step gw gw' \<and> rate_same gw gw' \<and> (t0 = Aware u \<longrightarrow> strip reason \<noteq> [] \<longrightarrow> killed gw')"
  using strip_Nil by (cases "strip reason = []"; cases t0)
    (auto simp: live_kill_switch_def Let_def desk_step_def rate_same_def killed_def live_audit_def ack_times_def
      split: sum.splits prod.splits if_splits)

lemma cancel_quiet: "live_cancel_order env i t0 (gw, w) = (r, (gw', w')) \<Longrightarrow> quiet gw gw'"
  by (auto simp: live_cancel_order_def split: sum.splits prod.splits intro!: live_audit_quiet)

lemma close_quiet: "live_close_position env i t0 (gw, w) = (r, (gw', w')) \<Longrightarrow> quiet gw gw'"
  by (auto simp: live_close_position_def split: sum.splits prod.splits intro!: live_audit_quiet)

lemma naive_same: "place_order env q d (Naive t) s = (r, s') \<Longrightarrow> s' = s" "preview_order env q (Naive t) s = (r, s') \<Longrightarrow> s' = s"
  by (auto simp: place_order_def preview_order_def split: prod.splits)

lemma live_step_steps:
  assumes "live_step env a (gw, w) = (gw', w')"
  shows "desk_step gw gw' \<and> (case op_time a of [] \<Rightarrow> rate_same gw gw' | u # _ \<Rightarrow> rate_step u gw gw')"
proof (cases a)
  case (Op_preview q d)
  then show ?thesis using assms
    by (cases d; cases "preview_order env q d (gw, w)")
      (auto dest!: naive_same preview_trimmed intro: step_intros)
next
  case (Op_place q dec d)
  then show ?thesis using assms
    by (cases d; cases "place_order env q dec d (gw, w)")
      (auto dest!: naive_same place_order_ends intro: step_intros)
next
  case (Op_cancel i d)
  then show ?thesis using assms cancel_quiet [of env i d gw w]
    by (cases "live_cancel_order env i d (gw, w)") (auto intro: step_intros)
next
  case (Op_kill i d)
  then show ?thesis using assms kill_desk [of env i d gw w]
    by (cases "live_kill_switch env i d (gw, w)") auto
next
  case (Op_close i d)
  then show ?thesis using assms close_quiet [of env i d gw w]
    by (cases "live_close_position env i d (gw, w)") (auto intro: step_intros)
qed (use assms quiet_steps [of gw gw] in auto)

lemma desk_step_trans: "desk_step a b \<Longrightarrow> desk_step b c \<Longrightarrow> desk_step a c"
  by (auto simp: desk_step_def intro: map_le_trans)

lemma live_run_desk: "fold (live_step env) ops (gw, w) = (gw', w') \<Longrightarrow> desk_step gw gw'"
proof (induction ops arbitrary: gw w)
  case (Cons a ops)
  obtain g v where a: "live_step env a (gw, w) = (g, v)" by fastforce
  show ?case using Cons live_step_steps [OF a] by (auto simp: a intro: desk_step_trans)
qed (simp add: desk_step_def)

section \<open>Idempotency\<close>

text \<open>
  C28. Orders are idempotent: once a call has answered, every later call with the same
  idempotency key, after any calls in between and whatever else it asks for, answers with the same
  receipt and does not touch the world, so the adapter is not called again.
\<close>

theorem receipts_idempotent:
  assumes "place_order env q d t0 s = (Inr receipt, s1)" "lo_idempotency_key q' = lo_idempotency_key q"
    "fold (live_step env) ops s1 = (gw2, w2)"
  shows "\<exists>gw3. place_order env q' d' (Aware t) (gw2, w2) = (Inr receipt, (gw3, w2)) \<and>
    gw_idempotent_receipts gw3 = gw_idempotent_receipts gw2 \<and> ack_times gw3 = ack_times gw2"
proof -
  obtain gw w gw1 w1 where s: "s = (gw, w)" "s1 = (gw1, w1)" by (cases s; cases s1)
  obtain t1 where t1: "t0 = Aware t1" using assms(1) by (cases t0) (auto simp: place_order_def)
  have "map_of (gw_idempotent_receipts gw1) (lo_idempotency_key q) = Some receipt"
    using place_order_ends [of env q d t1 gw w] assms(1) by (auto simp: s t1 call_ends_def Let_def split: if_splits)
  then have "map_of (gw_idempotent_receipts gw2) (lo_idempotency_key q) = Some receipt"
    using live_run_desk [of env ops gw1 w1 gw2 w2] assms(3) by (auto simp: s desk_step_def map_le_def dom_def)
  then show ?thesis
    by (auto simp: place_order_def place_order_locked_def place_with_def assms(2) live_audit_def ack_times_def)
qed

section \<open>The kill switch\<close>

lemma killed_not_validated:
  assumes "validate_request env q t rk w gw = (Inr None, gw')" "killed gw"
  shows "lo_reduce_only q"
proof -
  obtain g where g: "validate_cross_venue_preflight env q t w gw = (Inr None, g)" "late_failure q t rk g = (Inr None, gw')"
    using assms(1) by (auto simp: validate_request_def split: option.splits sum.splits prod.splits)
  then have "g = gw" using validate_preflight_quiet by blast
  then have "risk_failure gw q t rk = None" using g(2) by (auto simp: late_failure_def split: sum.splits option.splits)
  then show ?thesis using assms(2) by (simp add: risk_failure_def Let_def killed_def split: if_splits)
qed

text \<open>
  C29. The kill switch is final: after it has been activated with a reason, whatever is called
  afterwards, no new exposure is ever placed again; every order with a new key that is not reduce-only
  leaves the world untouched, so the adapter is not asked, and is never answered with an acceptance.
\<close>

theorem kill_switch_blocks_exposure:
  assumes "live_kill_switch env reason (Aware t0) s = (r, s1)" "strip reason \<noteq> []"
    "fold (live_step env) ops s1 = (gw, w)" "place_order env q d (Aware t) (gw, w) = (answer, (gw', w'))"
    "\<not> lo_reduce_only q" "map_of (gw_idempotent_receipts gw) (lo_idempotency_key q) = None"
  shows "w' = w \<and> (\<forall>receipt. answer = Inr receipt \<longrightarrow>
    ak_state receipt = Live_rejected \<and> \<not> ak_adapter_called receipt)"
proof -
  obtain gw0 w0 gw1 w1 where s: "s = (gw0, w0)" "s1 = (gw1, w1)" by (cases s; cases s1)
  have "killed gw1" using kill_desk [of env reason "Aware t0" gw0 w0 r gw1 w1 t0] assms(1,2) by (simp add: s)
  then have k: "killed gw" using live_run_desk [of env ops gw1 w1 gw w] assms(3) by (simp add: s desk_step_def)
  obtain v g where v: "validate_request env q t (view_of q d) w gw = (v, g)" by fastforce
  have "v \<noteq> Inr None" using killed_not_validated [of env q t "view_of q d" w gw g] v k assms(5) by auto
  then show ?thesis using assms(4,6)
    by (auto simp: place_order_def place_order_locked_def place_with_def v reject_and_remember_def rejection_def Let_def
        split: sum.splits option.splits)
qed

section \<open>The rate limit\<close>

definition minute :: "instant \<Rightarrow> instant list \<Rightarrow> instant list" where
  "minute t us = filter (\<lambda>u. t - seconds 60 < u \<and> u \<le> t) us"

definition rate_inv :: "instant option \<Rightarrow> LiveExecutionGateway \<Rightarrow> bool" where
  "rate_inv now gw \<longleftrightarrow>
     (\<exists>old. ack_times gw = old @ gw_order_timestamps gw \<and>
        (\<forall>u \<in> set old. \<exists>n. now = Some n \<and> u \<le> n - seconds 60)) \<and>
     (\<forall>t. int (length (minute t (ack_times gw))) \<le> max 0 (lv_maximum_orders_per_minute (st_live (gw_settings gw))))"

lemma rate_inv_step:
  assumes "rate_inv now gw" "rate_step t gw gw'" "\<forall>n. now = Some n \<longrightarrow> n \<le> t" "gw_settings gw' = gw_settings gw"
  shows "rate_inv (Some t) gw'"
proof -
  let ?max = "lv_maximum_orders_per_minute (st_live (gw_settings gw))"
  obtain old where old: "ack_times gw = old @ gw_order_timestamps gw" "\<forall>u \<in> set old. u \<le> t - seconds 60"
    using assms(1,3) unfolding rate_inv_def by fastforce
  obtain gone where gone: "gw_order_timestamps gw = gone @ window t gw" "\<forall>u \<in> set gone. u \<le> t - seconds 60"
    unfolding window_def by (metis set_takeWhileD takeWhile_dropWhile_id)
  have lim: "int (length (minute u (ack_times gw))) \<le> max 0 ?max" for u using assms(1) by (simp add: rate_inv_def)
  have new: "int (length (minute u (ack_times gw @ [t]))) \<le> max 0 ?max" if "int (length (window t gw)) < ?max" for u
  proof (cases "u - seconds 60 < t \<and> t \<le> u")
    case True
    then have "minute u old = []" "minute u gone = []" using old(2) gone(2)
      by (auto simp: minute_def filter_empty_conv)
    then have "length (minute u (ack_times gw @ [t])) \<le> Suc (length (window t gw))"
      by (auto simp: minute_def old(1) gone(1) intro: length_filter_le le_SucI)
    then show ?thesis using that by simp
  next
    case False
    then show ?thesis using lim [of u] by (auto simp: minute_def)
  qed
  show ?thesis
  proof (cases "ack_times gw' = ack_times gw")
    case True
    then have "gw_order_timestamps gw' \<in> {gw_order_timestamps gw, window t gw}" using assms(2) by (auto simp: rate_step_def)
    then show ?thesis using old gone lim True
      by (fastforce simp: rate_inv_def assms(4) intro: exI [of _ old] exI [of _ "old @ gone"])
  next
    case False
    then have "ack_times gw' = (old @ gone) @ gw_order_timestamps gw'" "ack_times gw' = ack_times gw @ [t]"
      "int (length (window t gw)) < ?max"
      using assms(2) old(1) gone(1) by (auto simp: rate_step_def)
    then show ?thesis using old(2) gone(2) new by (auto simp: rate_inv_def assms(4) intro!: exI [of _ "old @ gone"])
  qed
qed

definition op_times :: "live_op list \<Rightarrow> instant list" where
  "op_times ops = concat (map op_time ops)"

lemma rate_inv_run:
  assumes "rate_inv now gw" "sorted (op_times ops)" "\<forall>n. now = Some n \<longrightarrow> (\<forall>t \<in> set (op_times ops). n \<le> t)"
    "fold (live_step env) ops (gw, w) = (gw', w')"
  shows "(\<exists>n. rate_inv n gw') \<and> gw_settings gw' = gw_settings gw"
  using assms
proof (induction ops arbitrary: now gw w)
  case (Cons a ops)
  obtain g v where a: "live_step env a (gw, w) = (g, v)" by fastforce
  note st = live_step_steps [OF a]
  have set: "gw_settings g = gw_settings gw" using st by (simp add: desk_step_def)
  have run: "fold (live_step env) ops (g, v) = (gw', w')" using Cons.prems(4) by (simp add: a)
  show ?case
  proof (cases "op_time a")
    case Nil
    then have "rate_inv now g" using Cons.prems(1) st set by (simp add: rate_inv_def rate_same_def)
    then show ?thesis using Cons.IH [OF _ _ _ run, of now] Cons.prems(2,3) Nil set by (simp add: op_times_def)
  next
    case (Cons t ts)
    then have ts: "op_time a = [t]" by (cases a rule: op_time.cases) auto
    then have "rate_inv (Some t) g"
      using rate_inv_step [OF Cons.prems(1) _ _ set, of t] st Cons.prems(3) by (simp add: op_times_def)
    then show ?thesis using Cons.IH [OF _ _ _ run, of "Some t"] Cons.prems(2) ts set by (simp add: op_times_def)
  qed
qed auto

text \<open>
  C31. The rate limit holds over every minute: in any run of a new gateway whose placements and
  previews come in order of time, the acknowledged orders of any sixty seconds number at most the
  configured maximum.
\<close>

theorem rate_limit_holds:
  assumes "LiveExecutionGateway_init env clock settings report events reg mv cv machine service durable = Inr gw"
    "sorted (op_times ops)" "fold (live_step env) ops (gw, w) = (gw', w')"
    "0 \<le> lv_maximum_orders_per_minute (st_live settings)"
  shows "int (length (minute t (ack_times gw'))) \<le> lv_maximum_orders_per_minute (st_live settings)"
proof -
  have gw: "gw_settings gw = settings" "ack_times gw = []" "gw_order_timestamps gw = []"
    using assms(1) by (auto simp: LiveExecutionGateway_init_def ack_times_def)
  then have "rate_inv None gw" by (simp add: rate_inv_def minute_def)
  then show ?thesis using rate_inv_run [OF _ assms(2) _ assms(3), of None] assms(4) by (auto simp: rate_inv_def gw)
qed

end
