(* ===== verification/Gateway_Protocol.thy ===== *)
theory Gateway_Protocol
  imports Gateway_Placement
begin

text \<open>
  The life of a preflight binding: the states it may move between, the reliance of a gateway on what
  happens around it while it waits, and the proof that every call of a gateway moves bindings along
  that protocol only, one edge for every new version. Completed and halted bindings are final.
\<close>

section \<open>The protocol\<close>

inductive binding_edge :: "PreflightBindingState \<Rightarrow> PreflightBindingState \<Rightarrow> bool" where
  reserve: "s \<in> {UNBOUND, ABORTED} \<Longrightarrow> binding_edge s RESERVED"
| found: "s \<in> {UNBOUND, ABORTED} \<Longrightarrow> binding_edge s RECONCILIATION_REQUIRED"
| first: "s \<in> {RESERVED, RECONCILIATION_REQUIRED} \<Longrightarrow> binding_edge s FIRST_LEG_ACCEPTED"
| second: "s \<in> {FIRST_LEG_ACCEPTED, HEDGING_REQUIRED} \<Longrightarrow> binding_edge s SECOND_LEG_SUBMITTED"
| snapshot: "s \<in> {RESERVED, SECOND_LEG_SUBMITTED} \<Longrightarrow> binding_edge s s"
| lost: "s \<in> {RESERVED, SECOND_LEG_SUBMITTED} \<Longrightarrow> binding_edge s RECONCILIATION_REQUIRED"
| abort: "s \<in> {RESERVED, SECOND_LEG_SUBMITTED, RECONCILIATION_REQUIRED} \<Longrightarrow> binding_edge s ABORTED"
| hedge: "s \<in> {SECOND_LEG_SUBMITTED, RECONCILIATION_REQUIRED} \<Longrightarrow> binding_edge s HEDGING_REQUIRED"
| complete: "s \<in> {SECOND_LEG_SUBMITTED, RECONCILIATION_REQUIRED} \<Longrightarrow> binding_edge s BINDING_COMPLETED"
| halt: "s \<in> {HEDGING_REQUIRED, RECONCILIATION_REQUIRED} \<Longrightarrow> binding_edge s BINDING_HALTED"

inductive_simps binding_edge_simps [simp]: "binding_edge s s'"
inductive_cases binding_edgeE: "binding_edge s s'"

text \<open>
  A later version of a binding, reached along the protocol: every new version is one edge, so the states
  in between form a path whose length is the difference of the versions.
\<close>

definition advance :: "PreflightBinding \<Rightarrow> PreflightBinding \<Rightarrow> bool" where
  "advance b b' \<longleftrightarrow> b' = b \<or>
     bi_version b < bi_version b' \<and> bi_signal_id b' = bi_signal_id b \<and>
     (binding_edge ^^ nat (bi_version b' - bi_version b)) (bi_state b) (bi_state b')"

definition along :: "'x world \<Rightarrow> 'x world \<Rightarrow> bool" where
  "along w w' \<longleftrightarrow> (\<forall>k. advance (preflight_binding k w) (preflight_binding k w'))"

text \<open>A binding whose order is on its way belongs to the call that submitted it.\<close>

definition in_flight :: "PreflightBinding \<Rightarrow> bool" where
  "in_flight b \<longleftrightarrow> bi_state b \<in> {RESERVED, SECOND_LEG_SUBMITTED}"

definition untouched :: "'x world \<Rightarrow> 'x world \<Rightarrow> bool" where
  "untouched w w' \<longleftrightarrow> (\<forall>k. in_flight (preflight_binding k w) \<longrightarrow> preflight_binding k w' = preflight_binding k w)"

text \<open>
  What a gateway relies on: around its calls bindings only move along the protocol and nobody else
  touches a binding in flight. This is so for a single gateway process, whose placement lock admits one
  submission at a time and whose other tasks keep it (\<open>recovery_keeps_flight\<close> below).
\<close>

inductive surrounding :: "'x environment \<Rightarrow> 'x world \<Rightarrow> 'x world \<Rightarrow> bool" for env where
  others: "surrounding env w (others env w)"
| health: "surrounding env w (snd (ad_health_check env w))"
| place: "surrounding env w (snd (ad_place_order env q w))"
| cancel: "surrounding env w (snd (ad_cancel_order env i w))"
| cancel_all: "surrounding env w (snd (ad_cancel_all_orders env w))"
| open_orders: "surrounding env w (snd (ad_fetch_open_orders env j w))"
| positions: "surrounding env w (snd (ad_fetch_positions env w))"
| fills: "surrounding env w (snd (ad_fetch_recent_fills env i t w))"
| lookup: "surrounding env w (snd (ad_lookup_order env i w))"
| close: "surrounding env w (snd (ad_close_position env l w))"

definition rely :: "'x environment \<Rightarrow> bool" where
  "rely env \<longleftrightarrow> (\<forall>w w'. surrounding env w w' \<longrightarrow> along w w' \<and> untouched w w')"

text \<open>
  One step of the stored bindings: a move of the surroundings, or the gateway replaces the binding of one
  signal, as it is stored at that moment, by its next version along one edge. \<open>evolves\<close> is a run of
  such steps; a run that also leaves the bindings in flight alone \<open>spares\<close> them.
\<close>

inductive protocol_step :: "'x environment \<Rightarrow> 'x world \<Rightarrow> 'x world \<Rightarrow> bool" for env where
  around: "surrounding env w w' \<Longrightarrow> protocol_step env w w'"
| edge: "bi_signal_id b = k \<Longrightarrow> bi_version b = bi_version (preflight_binding k w) + 1 \<Longrightarrow>
    binding_edge (bi_state (preflight_binding k w)) (bi_state b) \<Longrightarrow>
    protocol_step env w (w\<lparr>wo_bindings := dict_set k b (wo_bindings w)\<rparr>)"

definition evolves :: "'x environment \<Rightarrow> 'x world \<Rightarrow> 'x world \<Rightarrow> bool" where
  "evolves env w w' \<longleftrightarrow> along w w' \<and> (protocol_step env)\<^sup>*\<^sup>* w w'"

definition spares :: "'x environment \<Rightarrow> 'x world \<Rightarrow> 'x world \<Rightarrow> bool" where
  "spares env w w' \<longleftrightarrow> evolves env w w' \<and> untouched w w'"

definition bindings_wf :: "'x world \<Rightarrow> bool" where
  "bindings_wf w \<longleftrightarrow> (\<forall>k. bi_signal_id (preflight_binding k w) = k \<and>
     (bi_state (preflight_binding k w) = UNBOUND \<longrightarrow> bi_version (preflight_binding k w) = 0))"

lemma advance_refl [simp, intro]: "advance b b"
  by (simp add: advance_def)

lemma advance_trans:
  assumes "advance a b" "advance b c" shows "advance a c"
proof (cases "b = a \<or> c = b")
  case False
  then have "nat (bi_version c - bi_version a) = nat (bi_version b - bi_version a) + nat (bi_version c - bi_version b)"
    using assms by (auto simp: advance_def)
  then show ?thesis using assms False by (auto simp: advance_def relpowp_add)
qed (use assms in auto)

lemma advance_version: "advance a b \<Longrightarrow> bi_version b = bi_version a \<Longrightarrow> b = a"
  by (auto simp: advance_def)

lemma advance_edge:
  "bi_signal_id b' = bi_signal_id b \<Longrightarrow> bi_version b' = bi_version b + 1 \<Longrightarrow> binding_edge (bi_state b) (bi_state b') \<Longrightarrow>
     advance b b'"
  by (simp add: advance_def eq_OO del: binding_edge_simps)

lemma along_refl [simp, intro]: "along w w"
  by (simp add: along_def)

lemma along_trans: "along u v \<Longrightarrow> along v w \<Longrightarrow> along u w"
  by (auto simp: along_def intro: advance_trans)

lemma evolves_advance: "evolves env w w' \<Longrightarrow> advance (preflight_binding k w) (preflight_binding k w')"
  by (simp add: evolves_def along_def)

lemma evolves_refl [simp, intro]: "evolves env w w"
  by (simp add: evolves_def)

lemma evolves_trans: "evolves env u v \<Longrightarrow> evolves env v w \<Longrightarrow> evolves env u w"
  by (auto simp: evolves_def intro: along_trans)

lemma spares_evolves: "spares env w w' \<Longrightarrow> evolves env w w'"
  by (simp add: spares_def)

lemma spares_refl [simp, intro]: "spares env w w"
  by (simp add: spares_def untouched_def)

lemma spares_trans: "spares env u v \<Longrightarrow> spares env v w \<Longrightarrow> spares env u w"
  by (auto simp: spares_def untouched_def intro: evolves_trans)

lemma surrounding_spares: "rely env \<Longrightarrow> surrounding env w w' \<Longrightarrow> spares env w w'"
  by (auto simp: rely_def spares_def evolves_def intro: protocol_step.around)

lemmas rely_spares = surrounding_spares [OF _ surrounding.others] surrounding_spares [OF _ surrounding.health]
  surrounding_spares [OF _ surrounding.place] surrounding_spares [OF _ surrounding.cancel]
  surrounding_spares [OF _ surrounding.cancel_all] surrounding_spares [OF _ surrounding.open_orders]
  surrounding_spares [OF _ surrounding.positions] surrounding_spares [OF _ surrounding.fills]
  surrounding_spares [OF _ surrounding.lookup] surrounding_spares [OF _ surrounding.close]

lemma edges_bound: "(binding_edge ^^ n) s s' \<Longrightarrow> 0 < n \<Longrightarrow> s' \<noteq> UNBOUND"
  by (cases n) (auto elim!: relpowp_Suc_E)

lemma advance_unbound: "advance b b' \<Longrightarrow> bi_state b' = UNBOUND \<Longrightarrow> b' = b"
  by (auto simp: advance_def dest: edges_bound)

lemma evolves_wf: "evolves env w w' \<Longrightarrow> bindings_wf w \<Longrightarrow> bindings_wf w'"
  unfolding evolves_def along_def bindings_wf_def by (metis advance_def advance_unbound)

lemma final_advance:
  assumes "advance b b'" "bi_state b \<in> {BINDING_COMPLETED, BINDING_HALTED}" shows "b' = b"
proof (rule ccontr)
  assume "b' \<noteq> b"
  then have v: "bi_version b < bi_version b'"
    and p: "(binding_edge ^^ nat (bi_version b' - bi_version b)) (bi_state b) (bi_state b')"
    using assms(1) by (simp_all add: advance_def)
  have "nat (bi_version b' - bi_version b) = Suc (nat (bi_version b' - bi_version b - 1))" using v by simp
  then obtain n where "(binding_edge ^^ Suc n) (bi_state b) (bi_state b')" using p by metis
  from relpowp_Suc_D2 [OF this] obtain y where "binding_edge (bi_state b) y" by blast
  then show False using assms(2) by auto
qed

section \<open>Compare-and-set keeps the protocol\<close>

lemma version_of_binding: "version_of (mem_get (wo_bindings w) k) = bi_version (preflight_binding k w)"
  by (auto simp: version_of_def preflight_binding_def unbound_def split: option.splits)

lemma preflight_binding_set:
  "preflight_binding k (w\<lparr>wo_bindings := dict_set i b (wo_bindings w)\<rparr>) = (if k = i then b else preflight_binding k w)"
  by (simp add: preflight_binding_def mem_get_def)

text \<open>
  A replacement of a binding read before, along an edge: it succeeds only on that binding; the new
  binding, if in flight, is still there afterwards; a failure changes nothing of a binding in flight.
\<close>

lemma cas_keeps:
  assumes "rely env" "bindings_wf w" "cas_binding env cur b w = (ok, w')" "advance cur (preflight_binding k w)"
    "bi_signal_id b = k" "bi_version b = bi_version cur + 1" "binding_edge (bi_state cur) (bi_state b)"
  shows "evolves env w w'" "\<not> in_flight cur \<Longrightarrow> spares env w w'" "\<not> ok \<Longrightarrow> spares env w w'"
    "ok \<Longrightarrow> in_flight b \<Longrightarrow> preflight_binding k w' = b"
proof -
  define w1 where "w1 = others env w"
  have r1: "spares env w w1" using assms(1) by (simp add: rely_spares w1_def)
  obtain bs where c: "mem_compare_and_set (bi_signal_id b) (bi_version cur) b (wo_bindings w1) = (ok, bs)"
    and w': "w' = others env (w1\<lparr>wo_bindings := bs\<rparr>)"
    using assms(3) by (auto simp: cas_binding_def w1_def Let_def split: prod.splits)
  let ?w2 = "w1\<lparr>wo_bindings := bs\<rparr>"
  have r3: "spares env ?w2 w'" using assms(1) by (simp add: rely_spares w')
  have ok: "ok \<longleftrightarrow> bi_version (preflight_binding k w1) = bi_version cur"
    using mem.cas_succeeds_iff [of "bi_signal_id b" "bi_version cur" b "wo_bindings w1"] c assms(5,6)
    by (simp add: version_of_binding)
  have bs: "bs = (if ok then dict_set k b (wo_bindings w1) else wo_bindings w1)"
    using c assms(5) by (auto simp: mem_compare_and_set_def Let_def split: if_splits)
  have cur: "preflight_binding k w1 = cur" if ok
  proof -
    have "advance cur (preflight_binding k w1)" using r1 assms(4) by (auto simp: spares_def intro: advance_trans evolves_advance)
    then show ?thesis using that ok advance_version by blast
  qed
  have sig: "bi_signal_id cur = k" using assms(2,4) by (auto simp: bindings_wf_def advance_def)
  have adv: "advance cur b" using assms(5-7) sig by (auto intro: advance_edge)
  have "protocol_step env w1 (w1\<lparr>wo_bindings := dict_set k b (wo_bindings w1)\<rparr>)" if ok
    using protocol_step.edge [OF assms(5), of w1 env] assms(6,7) cur [OF that] by simp
  then have e2: "evolves env w1 ?w2"
    using cur adv by (cases ok) (auto simp: evolves_def along_def bs preflight_binding_set)
  have r2: "spares env w1 ?w2" if "ok \<Longrightarrow> \<not> in_flight cur"
    using e2 cur that by (auto simp: spares_def untouched_def bs preflight_binding_set)
  show "evolves env w w'" using r1 e2 r3 spares_evolves evolves_trans by blast
  show "\<not> in_flight cur \<Longrightarrow> spares env w w'" using r1 r2 r3 spares_trans by blast
  show "\<not> ok \<Longrightarrow> spares env w w'" using r1 r2 r3 spares_trans by blast
  show "ok \<Longrightarrow> in_flight b \<Longrightarrow> preflight_binding k w' = b"
    using r3 by (auto simp: spares_def untouched_def bs preflight_binding_set)
qed

lemma bind_transition_keeps:
  assumes "rely env" "bindings_wf w" "bind_transition env cur st t f up w = (r, w')" "advance cur (preflight_binding k w)"
    "binding_edge (bi_state cur) st" "\<And>b. bi_signal_id (up b) = bi_signal_id b \<and> bi_version (up b) = bi_version b \<and> bi_state (up b) = bi_state b"
  shows "evolves env w w'" "\<not> in_flight cur \<Longrightarrow> spares env w w'" "r = Inl e \<Longrightarrow> spares env w w'"
    "r = Inr () \<Longrightarrow> st \<in> {RESERVED, SECOND_LEG_SUBMITTED} \<Longrightarrow> in_flight (preflight_binding k w')"
proof -
  let ?b = "up (cur\<lparr>bi_state := st, bi_version := bi_version cur + 1, bi_updated_at := Some (Aware t), bi_failure_reason := f\<rparr>)"
  obtain ok where c: "cas_binding env cur ?b w = (ok, w')" and r: "ok \<longleftrightarrow> r = Inr ()"
    using assms(3) by (auto simp: bind_transition_def Let_def split: prod.splits bool.splits)
  have "bi_signal_id cur = k" using assms(2,4) by (auto simp: bindings_wf_def advance_def)
  then have b: "bi_signal_id ?b = k" "bi_version ?b = bi_version cur + 1" "bi_state ?b = st" using assms(6) by simp_all
  note k = cas_keeps [OF assms(1,2) c assms(4) b(1,2)] b(3) assms(5) r
  show "evolves env w w'" "\<not> in_flight cur \<Longrightarrow> spares env w w'" "r = Inl e \<Longrightarrow> spares env w w'" using k by auto
  show "in_flight (preflight_binding k w')" if "r = Inr ()" "st \<in> {RESERVED, SECOND_LEG_SUBMITTED}"
    using k that by (auto simp: in_flight_def)
qed

section \<open>The steps of a submission\<close>

lemma reserve_step:
  assumes "rely env" "bindings_wf w" "cas_answer (cas_binding env cur b w) = (f, w')" "cur = preflight_binding k w"
    "bi_signal_id b = k" "bi_version b = bi_version cur + 1" "binding_edge (bi_state cur) (bi_state b)" "in_flight b"
  shows "evolves env w w' \<and> (f = None \<longrightarrow> in_flight (preflight_binding k w'))"
proof -
  obtain ok where c: "cas_binding env cur b w = (ok, w')" "ok \<longleftrightarrow> f = None"
    using assms(3) by (cases "cas_binding env cur b w"; cases "fst (cas_binding env cur b w)") (auto simp: cas_answer_def)
  from cas_keeps [OF assms(1,2) c(1) _ assms(5-7)] assms(4) show ?thesis using c(2) assms(8) by auto
qed

lemma reserve_keeps:
  assumes "rely env" "bindings_wf w" "reserve_preflight env q t w = (f, w')"
  shows "evolves env w w' \<and> (f = None \<longrightarrow> in_flight (preflight_binding (lo_signal_id q) w'))"
proof -
  define cur where "cur = preflight_binding (lo_signal_id q) w"
  have wf: "bi_signal_id cur = lo_signal_id q" "bi_state cur = UNBOUND \<Longrightarrow> bi_version cur = 0"
    using assms(2) by (simp_all add: bindings_wf_def cur_def)
  note step = reserve_step [OF assms(1,2) _ cur_def]
  consider (fresh) "bi_state cur \<in> {UNBOUND, ABORTED}" | (second) "bi_state cur \<in> {FIRST_LEG_ACCEPTED, HEDGING_REQUIRED}"
    | (other) "bi_state cur \<notin> {UNBOUND, ABORTED, FIRST_LEG_ACCEPTED, HEDGING_REQUIRED}" by blast
  then show ?thesis
  proof cases
    case fresh
    let ?n = "new_binding (lo_signal_id q) (request_hash q) RESERVED t"
    let ?b = "if bi_state cur = ABORTED then ?n\<lparr>bi_version := bi_version cur + 1, bi_created_at := bi_created_at cur\<rparr> else ?n"
    have "f \<noteq> None \<and> w' = w \<or> cas_answer (cas_binding env cur ?b w) = (f, w')"
      using assms(3) fresh by (auto simp: reserve_preflight_def Let_def cur_def [symmetric] split: if_splits)
    moreover have "bi_signal_id ?b = lo_signal_id q" "bi_version ?b = bi_version cur + 1"
      "binding_edge (bi_state cur) (bi_state ?b)" "in_flight ?b"
      using fresh wf by (auto simp: new_binding_def in_flight_def)
    ultimately show ?thesis using step [of ?b f w'] by blast
  next
    case second
    let ?b = "second_leg_binding cur q t"
    have "f \<noteq> None \<and> w' = w \<or> cas_answer (cas_binding env cur ?b w) = (f, w')"
      using assms(3) second by (auto simp: reserve_preflight_def Let_def cur_def [symmetric] split: if_splits)
    moreover have "bi_signal_id ?b = lo_signal_id q" "bi_version ?b = bi_version cur + 1"
      "binding_edge (bi_state cur) (bi_state ?b)" "in_flight ?b"
      using second wf by (auto simp: second_leg_binding_def in_flight_def)
    ultimately show ?thesis using step [of ?b f w'] by blast
  next
    case other
    then show ?thesis using assms(3)
      by (auto simp: reserve_preflight_def Let_def cur_def [symmetric] split: PreflightBindingState.splits if_splits)
  qed
qed

text \<open>Whatever happens, a binding in flight stays in flight until the call itself ends it.\<close>

definition holds :: "'x environment \<Rightarrow> string \<Rightarrow> 'x world \<Rightarrow> bool" where
  "holds env k w \<longleftrightarrow> rely env \<and> bindings_wf w \<and> in_flight (preflight_binding k w)"

lemma holds_spares: "holds env k w \<Longrightarrow> spares env w w' \<Longrightarrow> holds env k w' \<and> evolves env w w'"
  by (auto simp: holds_def spares_def untouched_def intro: evolves_wf)

lemma flight_transition:
  assumes "holds env k w" "bind_transition env (preflight_binding k w) st t f up w = (r, w')"
    "binding_edge (bi_state (preflight_binding k w)) st"
    "\<And>b. bi_signal_id (up b) = bi_signal_id b \<and> bi_version (up b) = bi_version b \<and> bi_state (up b) = bi_state b"
  shows "evolves env w w' \<and> (r = Inl e \<longrightarrow> holds env k w')"
  using bind_transition_keeps [OF _ _ assms(2) advance_refl assms(3,4)] assms(1) holds_spares [OF assms(1)]
  by (auto simp: holds_def)

lemma abort_keeps:
  assumes "holds env (lo_signal_id q) w" "abort_preflight env q t why w = (r, w')"
  shows "evolves env w w' \<and> (r = Inl e \<longrightarrow> holds env (lo_signal_id q) w')"
  using flight_transition [OF assms(1) assms(2) [unfolded abort_preflight_def]] assms(1)
  by (auto simp: holds_def in_flight_def)

lemma mark_keeps:
  assumes "holds env (lo_signal_id q) w" "mark_reconciliation_required env q t why w = (r, w')"
  shows "evolves env w w'"
  using assms flight_transition [OF assms(1), of RECONCILIATION_REQUIRED]
  by (auto simp: mark_reconciliation_required_def Let_def holds_def in_flight_def split: if_splits)

lemma snapshot_keeps:
  assumes "holds env (lo_signal_id q) w" "record_position_snapshot env q t x w = (r, w')"
  shows "evolves env w w' \<and> holds env (lo_signal_id q) w'"
proof (cases "PositionReconciliationSnapshot_init (lo_exchange q) (lo_symbol q) x (Aware t)")
  case (Inr p)
  let ?c = "preflight_binding (lo_signal_id q) w"
  have b: "bind_transition env ?c (bi_state ?c) t None (\<lambda>b. b\<lparr>bi_position_snapshot := Some p\<rparr>) w = (r, w')"
    using assms(2) Inr by (simp add: record_position_snapshot_def Let_def)
  have h: "rely env" "bindings_wf w" "bi_state ?c \<in> {RESERVED, SECOND_LEG_SUBMITTED}"
    using assms(1) by (simp_all add: holds_def in_flight_def)
  then have e: "binding_edge (bi_state ?c) (bi_state ?c)" by auto
  note k = bind_transition_keeps [OF h(1,2) b advance_refl e]
  show ?thesis
  proof (cases r)
    case (Inl e)
    then show ?thesis using k(3) holds_spares [OF assms(1)] by simp
  next
    case (Inr u)
    then show ?thesis using k(1,4) h evolves_wf by (simp add: holds_def)
  qed
qed (use assms in \<open>auto simp: record_position_snapshot_def Let_def\<close>)

lemma ack_keeps:
  assumes "holds env (lo_signal_id q) w" "record_preflight_ack env q rec t w = (r, w')"
  shows "evolves env w w' \<and> (r = Inl e \<longrightarrow> holds env (lo_signal_id q) w')"
  using assms flight_transition [OF assms(1)]
  by (auto simp: record_preflight_ack_def Let_def holds_def in_flight_def split: if_splits)

section \<open>Reconciliation keeps bindings in flight\<close>

text \<open>A transition of a binding read before that needs reconciliation or hedging.\<close>

lemma recovery_transition:
  assumes "rely env" "bindings_wf w" "bind_transition env cur st t f up w = (r, w')" "advance cur (preflight_binding k w)"
    "binding_edge (bi_state cur) st" "bi_state cur \<in> {HEDGING_REQUIRED, RECONCILIATION_REQUIRED}"
    "\<And>b. bi_signal_id (up b) = bi_signal_id b \<and> bi_version (up b) = bi_version b \<and> bi_state (up b) = bi_state b"
  shows "spares env w w'"
  using bind_transition_keeps(2) [OF assms(1-5,7)] assms(6) by (auto simp: in_flight_def)

lemma apply_keeps:
  assumes "rely env" "bindings_wf w" "apply_reconciliation_snapshot env q sn t w = (r, w')"
  shows "spares env w w'"
  using assms(3)
  by (auto simp: apply_reconciliation_snapshot_def Let_def split: if_splits
      intro: recovery_transition [OF assms(1,2) _ advance_refl])

lemma refresh_keeps:
  assumes "rely env" "refresh_binding_and_exchange_state env q t w = (r, w')"
  shows "spares env w w'" "r = Inr sn \<Longrightarrow> rs_binding sn = preflight_binding (lo_signal_id q) w"
proof -
  have "spares env v (snd (ad_fetch_recent_fills env i u v))" "spares env v (snd (ad_lookup_order env i v))"
    "spares env v (snd (ad_fetch_open_orders env j v))" "spares env v (snd (ad_fetch_positions env v))" for v i j u
    using assms(1) by (simp_all add: rely_spares)
  then have a: "ad_fetch_recent_fills env i u v = (x, v') \<Longrightarrow> spares env v v'" "ad_lookup_order env i v = (y, v') \<Longrightarrow> spares env v v'"
    "ad_fetch_open_orders env j v = (z, v') \<Longrightarrow> spares env v v'" "ad_fetch_positions env v = (p, v') \<Longrightarrow> spares env v v'"
    for v v' i j u x y z p by (metis snd_conv)+
  show "spares env w w'"
    using assms(2) by (auto simp: refresh_binding_and_exchange_state_def Let_def bindS_def split: sum.splits prod.splits
        dest!: a intro: spares_trans)
  show "r = Inr sn \<Longrightarrow> rs_binding sn = preflight_binding (lo_signal_id q) w"
    using assms(2) by (auto simp: refresh_binding_and_exchange_state_def Let_def bindS_def split: sum.splits prod.splits)
qed

lemma reconcile_binding_keeps:
  assumes "rely env" "bindings_wf w" "reconcile_binding env q t w = (r, w')"
  shows "spares env w w'"
proof (cases t)
  case (Aware u)
  let ?c = "preflight_binding (lo_signal_id q) w"
  obtain rr w1 where rr: "refresh_binding_and_exchange_state env q u w = (rr, w1)" by fastforce
  note r1 = refresh_keeps(1) [OF assms(1) rr]
  have wf: "bindings_wf w1" using r1 assms(2) evolves_wf spares_evolves by blast
  have adv: "advance ?c (preflight_binding (lo_signal_id q) w1)" using r1 by (auto simp: spares_def intro: evolves_advance)
  show ?thesis
  proof (cases "bi_state ?c = RECONCILIATION_REQUIRED")
    case True
    have "spares env w1 w'"
    proof (cases rr)
      case (Inl e)
      have "bind_transition env ?c BINDING_HALTED u (Some (''reconciliation failed: '' @ error_name e)) id w1 =
        (case r of Inl x \<Rightarrow> Inl x | Inr _ \<Rightarrow> Inr (), w')"
        using assms(3) True Aware Inl
        by (auto simp: reconcile_binding_def Let_def rr bindS_def split: sum.splits prod.splits)
      from recovery_transition [OF assms(1) wf this adv] show ?thesis using True by simp
    next
      case (Inr sn)
      obtain x where "apply_reconciliation_snapshot env q sn u w1 = (x, w')"
        using assms(3) True Aware Inr
        by (auto simp: reconcile_binding_def Let_def rr bindS_def split: sum.splits prod.splits)
      then show ?thesis by (rule apply_keeps [OF assms(1) wf])
    qed
    then show ?thesis using r1 spares_trans by blast
  qed (use assms(3) Aware in \<open>simp add: reconcile_binding_def Let_def\<close>)
qed (use assms(3) in \<open>simp add: reconcile_binding_def\<close>)

lemma halt_keeps:
  assumes "rely env" "bindings_wf w" "halt_binding env k reason t w = (r, w')"
  shows "spares env w w'"
proof (cases "bi_state (preflight_binding k w) \<in> {HEDGING_REQUIRED, RECONCILIATION_REQUIRED} \<and> (\<exists>u. t = Aware u)")
  case True
  then obtain u where u: "t = Aware u" by blast
  obtain x where "bind_transition env (preflight_binding k w) BINDING_HALTED u (Some reason) id w = (x, w')"
    using assms(3) True by (auto simp: halt_binding_def Let_def u bindS_def split: sum.splits prod.splits)
  from recovery_transition [OF assms(1,2) this advance_refl] show ?thesis using True by auto
next
  case False
  then show ?thesis using assms(3) by (cases t) (auto simp: halt_binding_def Let_def split: if_splits)
qed

text \<open>
  Recovery leaves orders in flight alone: whatever the world does along the protocol while it
  waits, reconciling or halting a binding moves bindings along the protocol only and changes none whose
  order is on its way; so these tasks keep what a concurrent placement relies on.
\<close>

theorem recovery_keeps_flight:
  assumes "rely env" "bindings_wf w" "a = Op_reconcile q t \<or> a = Op_halt k reason t"
    "live_step env a (gw, w) = (gw', w')"
  shows "gw' = gw \<and> spares env w w' \<and> bindings_wf w'"
proof -
  have "gw' = gw \<and> spares env w w'"
    using assms(3,4) reconcile_binding_keeps [OF assms(1,2), of q t] halt_keeps [OF assms(1,2), of k reason t]
    by (metis live_step.simps(6,7) prod.collapse prod.inject)
  then show ?thesis using assms(2) evolves_wf spares_evolves by blast
qed

section \<open>A conflict is resolved along the protocol\<close>

lemma ensure_keeps:
  assumes "rely env" "bindings_wf w" "ensure_reconciliation_required env q c0 t why w = (r, w')"
    "advance c0 (preflight_binding (lo_signal_id q) w)"
  shows "evolves env w w' \<and> (r = Inr c \<longrightarrow> c = preflight_binding (lo_signal_id q) w')"
proof -
  define cur where "cur = preflight_binding (lo_signal_id q) w"
  have same: "(if bi_version cur \<noteq> bi_version c0 then cur else c0) = cur"
    using advance_version [OF assms(4)] by (auto simp: cur_def)
  have wf: "bi_signal_id cur = lo_signal_id q" using assms(2) by (simp add: bindings_wf_def cur_def)
  have adv: "advance cur (preflight_binding (lo_signal_id q) w)" by (simp add: cur_def)
  let ?b = "(new_binding (lo_signal_id q) (request_hash q) RECONCILIATION_REQUIRED t)
              \<lparr>bi_version := bi_version cur + 1,
               bi_created_at := (case bi_created_at cur of None \<Rightarrow> Some (Aware t) | Some c \<Rightarrow> Some c),
               bi_first_order_request_id := Some (lo_request_id q),
               bi_failure_reason := Some why, bi_position_snapshot := bi_position_snapshot cur\<rparr>"
  note def = assms(3) [unfolded ensure_reconciliation_required_def Let_def cur_def [symmetric] same]
  consider (fresh) "bi_state cur \<in> {UNBOUND, ABORTED}" | (flight) "bi_state cur \<in> {RESERVED, SECOND_LEG_SUBMITTED}"
    | (other) "bi_state cur \<notin> {UNBOUND, ABORTED, RESERVED, SECOND_LEG_SUBMITTED}" by blast
  then show ?thesis
  proof cases
    case fresh
    obtain ok where ok: "cas_binding env cur ?b w = (ok, w')" using def fresh by (auto split: prod.splits bool.splits)
    have "evolves env w w'"
      by (rule cas_keeps(1) [OF assms(1,2) ok adv]) (use fresh in \<open>auto simp: new_binding_def\<close>)
    then show ?thesis using def fresh ok by (auto split: bool.splits)
  next
    case flight
    obtain x up where x: "bind_transition env cur RECONCILIATION_REQUIRED t (Some why) up w = (x, w')"
      "\<And>b. bi_signal_id (up b) = bi_signal_id b \<and> bi_version (up b) = bi_version b \<and> bi_state (up b) = bi_state b"
      using def flight by (auto simp: bindS_def split: sum.splits prod.splits)
    have "evolves env w w'" by (rule bind_transition_keeps(1) [OF assms(1,2) x(1) adv _ x(2)]) (use flight in auto)
    moreover have "r = Inr c \<longrightarrow> c = preflight_binding (lo_signal_id q) w'"
      using def flight by (auto simp: bindS_def split: sum.splits prod.splits)
    ultimately show ?thesis by simp
  next
    case other
    then show ?thesis using def by (auto simp: cur_def split: if_splits)
  qed
qed

lemma handle_keeps:
  assumes "rely env" "bindings_wf w" "handle_cas_snapshot env q sn t w = (r, w')"
    "advance (rs_binding sn) (preflight_binding (lo_signal_id q) w)"
  shows "evolves env w w'"
proof -
  have en: "evolves env w v \<and> bindings_wf v \<and> (x = Inr c \<longrightarrow> c = preflight_binding (lo_signal_id q) v)"
    if "ensure_reconciliation_required env q (rs_binding sn) t why w = (x, v)" for why x v c
    using ensure_keeps [OF assms(1,2) that assms(4), of c] assms(2) evolves_wf by blast
  have later: "spares env v v' \<Longrightarrow> evolves env w v \<Longrightarrow> evolves env w v'" for v v'
    using spares_evolves evolves_trans by blast
  consider (exists) "snapshot_proves_order_exists q sn" | (ambiguous) "\<not> snapshot_proves_order_exists q sn" "snapshot_is_ambiguous q sn"
    | (rest) "\<not> snapshot_proves_order_exists q sn" "\<not> snapshot_is_ambiguous q sn" by blast
  then show ?thesis
  proof cases
    case exists
    obtain x v where e: "ensure_reconciliation_required env q (rs_binding sn) t
        ''CAS conflict found an existing exchange order'' w = (x, v)" by fastforce
    then show ?thesis using assms(3) exists en [OF e]
      by (auto simp: handle_cas_snapshot_def bindS_def split: sum.splits if_splits prod.splits
          intro: later dest: apply_keeps [OF assms(1), rotated])
  next
    case ambiguous
    obtain x v where e: "ensure_reconciliation_required env q (rs_binding sn) t
        ''CAS conflict exchange state is ambiguous'' w = (x, v)" by fastforce
    have "spares env v w'" if c: "x = Inr c" "bi_state c = RECONCILIATION_REQUIRED" for c
    proof -
      obtain y where y: "bind_transition env c BINDING_HALTED t (Some ''CAS conflict exchange state is ambiguous'') id v = (y, w')"
        using assms(3) ambiguous c by (auto simp: handle_cas_snapshot_def bindS_def e split: sum.splits prod.splits)
      have "advance c (preflight_binding (lo_signal_id q) v)" using en [OF e, of c] c(1) by auto
      then show ?thesis using recovery_transition [OF assms(1) _ y] en [OF e, of c] c(2) by auto
    qed
    moreover have "w' = v" if "\<And>c. x = Inr c \<Longrightarrow> bi_state c \<noteq> RECONCILIATION_REQUIRED"
      using assms(3) ambiguous that by (auto simp: handle_cas_snapshot_def bindS_def e split: sum.splits)
    ultimately show ?thesis using en [OF e] later by blast
  next
    case rest
    then show ?thesis using assms(3) en
      by (auto simp: handle_cas_snapshot_def bindS_def split: sum.splits if_splits prod.splits)
  qed
qed

section \<open>Placing moves bindings along the protocol\<close>

lemma except_keeps:
  assumes "holds env (lo_signal_id q) w \<or> p = Unreserved" "except_adapter env q t p e (gw, w) = (r, (gw', w'))"
  shows "evolves env w w'"
  using assms by (cases p) (auto simp: except_adapter_def split: sum.splits prod.splits dest: abort_keeps mark_keeps)

lemma abort_and_reject_keeps:
  assumes "holds env (lo_signal_id q) w" "abort_and_reject env q t why reason (gw, w) = (r, (gw', w'))"
  shows "evolves env w w'"
proof -
  obtain x v where x: "abort_preflight env q t why w = (x, v)" by fastforce
  show ?thesis
  proof (cases x)
    case (Inl e)
    then have "evolves env w v" "holds env (lo_signal_id q) v" using abort_keeps [OF assms(1) x] by auto
    then show ?thesis using assms(2) Inl except_keeps [of env q v Holding t e gw r gw' w'] evolves_trans
      by (auto simp: abort_and_reject_def x)
  next
    case (Inr u)
    then show ?thesis using assms(2) abort_keeps [OF assms(1) x]
      by (auto simp: abort_and_reject_def x dest: return_rejection_books)
  qed
qed

text \<open>After a step that keeps the binding in flight.\<close>

lemma holds_call: "holds env k w \<Longrightarrow> rely env \<Longrightarrow> spares env w v \<Longrightarrow> (holds env k v \<Longrightarrow> evolves env v w') \<Longrightarrow> evolves env w w'"
  using holds_spares evolves_trans by blast

definition submits :: "'x environment \<Rightarrow> string \<Rightarrow> submission result \<Rightarrow> 'x world \<Rightarrow> bool" where
  "submits env k r w \<longleftrightarrow> (\<forall>rec. r = Inr (Receipt rec) \<longrightarrow> holds env k w)"

lemma submits_simps [simp]: "submits env k (Inl e) w" "submits env k (Inr (Returned rec)) w"
  "submits env k (Inr (Receipt rec)) w \<longleftrightarrow> holds env k w"
  by (simp_all add: submits_def)

lemma submits_except: "except_adapter env q t p e s = (r, s') \<Longrightarrow> submits env' k r w"
  by (cases s; cases s') (auto dest: except_adapter_quiet)

lemma submits_abort: "abort_and_reject env q t why reason s = (r, s') \<Longrightarrow> submits env' k r w"
  by (cases s; cases s')
    (auto simp: abort_and_reject_def split: sum.splits prod.splits dest: submits_except dest!: return_rejection_books)

lemma submit_checked_keeps:
  assumes "holds env (lo_signal_id q) w" "submit_checked env q t pos (gw, w) = (r, (gw', w'))"
  shows "evolves env w w' \<and> submits env (lo_signal_id q) r w'"
proof -
  obtain x v where x: "record_position_snapshot env q t (case pos of None \<Rightarrow> 0 | Some p \<Rightarrow> lp_quantity p) w = (x, v)" by fastforce
  have v: "evolves env w v" "holds env (lo_signal_id q) v" using snapshot_keeps [OF assms(1) x] by auto
  obtain y u where y: "ad_place_order env q v = (y, u)" by fastforce
  have "spares env v u" using v(2) y unfolding holds_def by (metis rely_spares snd_conv)
  then have u: "evolves env v u" "holds env (lo_signal_id q) u" using holds_spares [OF v(2)] by auto
  have "evolves env v w' \<and> submits env (lo_signal_id q) r w'"
    using assms(2) v u
    by (auto simp: submit_checked_def x y split: sum.splits option.splits
        intro: except_keeps abort_and_reject_keeps submits_except submits_abort evolves_trans [OF u(1)])
  then show ?thesis using v(1) evolves_trans by blast
qed

lemma submit_reserved_keeps:
  assumes "holds env (lo_signal_id q) w" "submit_reserved env q t (gw, w) = (r, (gw', w'))"
  shows "evolves env w w' \<and> submits env (lo_signal_id q) r w'"
proof -
  obtain x v where x: "ad_fetch_open_orders env None w = (x, v)" by fastforce
  have "spares env w v" using assms(1) x unfolding holds_def by (metis rely_spares snd_conv)
  then have v: "evolves env w v" "holds env (lo_signal_id q) v" using holds_spares [OF assms(1)] by auto
  obtain y u where y: "ad_fetch_positions env v = (y, u)" by fastforce
  have "spares env v u" using v(2) y unfolding holds_def by (metis rely_spares snd_conv)
  then have u: "evolves env v u" "holds env (lo_signal_id q) u" using holds_spares [OF v(2)] by auto
  have "evolves env v w' \<and> submits env (lo_signal_id q) r w'"
    using assms(2) v u submit_checked_keeps [OF u(2)]
    by (auto simp: submit_reserved_def x y split: sum.splits if_splits
        intro: except_keeps abort_and_reject_keeps submits_except submits_abort evolves_trans [OF u(1)])
  then show ?thesis using v(1) evolves_trans by blast
qed

lemma conflict_keeps:
  assumes "rely env" "bindings_wf w" "refresh_binding_and_exchange_state env q t w = (Inr sn, v)"
    "handle_cas_snapshot env q sn t v = (r, w')"
  shows "evolves env w w'"
proof -
  note r = refresh_keeps [OF assms(1,3)]
  have "bindings_wf v" using r(1) assms(2) evolves_wf spares_evolves by blast
  moreover have "advance (rs_binding sn) (preflight_binding (lo_signal_id q) v)"
    using r by (auto simp: spares_def intro: evolves_advance)
  ultimately show ?thesis using handle_keeps [OF assms(1) _ assms(4)] r(1) spares_evolves evolves_trans by blast
qed

lemma acknowledge_keeps:
  assumes "holds env (lo_signal_id q) w" "acknowledge env q rec t (gw, w) = (r, (gw', w'))"
  shows "evolves env w w'"
proof (cases "ak_request_id rec = lo_request_id q")
  case False
  then show ?thesis using assms by (auto simp: acknowledge_def split: sum.splits prod.splits dest: mark_keeps)
next
  case True
  obtain x v where x: "record_preflight_ack env q rec t w = (x, v)" by fastforce
  note a = ack_keeps [OF assms(1) x]
  show ?thesis
  proof (cases x)
    case (Inr u)
    then show ?thesis using assms(2) True a by (simp add: acknowledge_def x)
  next
    case (Inl e)
    then have h: "holds env (lo_signal_id q) v" and ev: "evolves env w v" using a by auto
    then have hv: "rely env" "bindings_wf v" by (simp_all add: holds_def)
    obtain y u where y: "refresh_binding_and_exchange_state env q t v = (y, u)" by fastforce
    have "evolves env v w'"
    proof (cases y)
      case (Inl e')
      then show ?thesis using assms(2) True \<open>x = Inl e\<close> refresh_keeps(1) [OF hv(1) y] spares_evolves
        by (auto simp: acknowledge_def x y)
    next
      case (Inr sn)
      obtain z where "handle_cas_snapshot env q sn t u = (z, w')"
        using assms(2) True \<open>x = Inl e\<close> Inr by (auto simp: acknowledge_def x y Let_def split: sum.splits prod.splits if_splits)
      then show ?thesis using conflict_keeps [OF hv y [unfolded Inr]] by blast
    qed
    then show ?thesis using ev evolves_trans by blast
  qed
qed

lemma try_block_keeps:
  assumes "rely env" "bindings_wf w" "try_block env retry q t (gw, w) = (r, (gw', w'))"
    and retry: "\<And>f g v r' g' v'. retry = Some f \<Longrightarrow> bindings_wf v \<Longrightarrow> f (g, v) = (r', (g', v')) \<Longrightarrow> evolves env v v'"
  shows "evolves env w w' \<and> submits env (lo_signal_id q) r w'"
proof -
  obtain h v where h: "ad_health_check env w = (h, v)" by fastforce
  have "spares env w v" using assms(1) h by (metis rely_spares(2) snd_conv)
  then have v: "evolves env w v" "bindings_wf v" using spares_evolves evolves_wf assms(2) by blast+
  obtain f u where f: "reserve_preflight env q t v = (f, u)" by fastforce
  have u: "evolves env v u" "bindings_wf u" and fl: "f = None \<Longrightarrow> holds env (lo_signal_id q) u"
    using reserve_keeps [OF assms(1) v(2) f] evolves_wf v(2) assms(1) by (auto simp: holds_def)
  have "evolves env v w' \<and> submits env (lo_signal_id q) r w'"
  proof (cases "h = Inr True \<and> f \<noteq> None")
    case False
    then show ?thesis using assms(3) u fl submit_reserved_keeps [OF fl]
      by (auto simp: try_block_def h f split: sum.splits bool.splits option.splits
          intro: except_keeps submits_except evolves_trans [OF u(1)] dest!: return_rejection_books)
  next
    case True
    then obtain m where m: "h = Inr True" "f = Some m" by auto
    show ?thesis
    proof (cases "if m = ''preflight binding CAS conflict'' then retry else None")
      case None
      then have "return_rejection env q t m (gw, u) = (r, (gw', w'))" using assms(3) by (simp add: try_block_def h f m)
      then show ?thesis using u by (auto dest!: return_rejection_books)
    next
      case (Some again)
      then have again: "retry = Some again" by (auto split: if_splits)
      obtain rf x where rf: "refresh_binding_and_exchange_state env q t u = (rf, x)" by fastforce
      have ux: "evolves env u x" using refresh_keeps(1) [OF assms(1) rf] spares_evolves by blast
      show ?thesis
      proof (cases rf)
        case (Inl e)
        then show ?thesis using assms(3) Some u(1) ux evolves_trans
          by (auto simp: try_block_def h f m rf dest!: return_rejection_books)
      next
        case (Inr sn)
        obtain b y where b: "handle_cas_snapshot env q sn t x = (b, y)" by fastforce
        have uy: "evolves env u y" by (rule conflict_keeps [OF assms(1) u(2) rf [unfolded Inr] b])
        obtain r' g' z where ag: "again (gw, y) = (r', (g', z))" by (metis prod_cases3)
        have yz: "evolves env y z" using retry [OF again evolves_wf [OF uy u(2)] ag] .
        have "(w' = y \<or> w' = z) \<and> submits env (lo_signal_id q) r w'"
          using assms(3) Some Inr
          by (cases b; cases r')
            (auto simp: try_block_def h f m rf b ag except_adapter_def split: bool.splits dest!: return_rejection_books)
        then show ?thesis using u(1) uy yz evolves_trans by blast
      qed
    qed
  qed
  then show ?thesis using v(1) evolves_trans by blast
qed

lemma place_with_keeps:
  assumes "rely env" "bindings_wf w" "place_with env retry q d t (gw, w) = (r, (gw', w'))"
    and retry: "\<And>f g v r' g' v'. retry = Some f \<Longrightarrow> bindings_wf v \<Longrightarrow> f (g, v) = (r', (g', v')) \<Longrightarrow> evolves env v v'"
  shows "evolves env w w'"
proof -
  obtain x g where x: "validate_request env q t (view_of q d) w gw = (x, g)" by fastforce
  obtain b g2 v where b: "try_block env retry q t (g, w) = (b, (g2, v))" by (metis prod_cases3)
  note k = try_block_keeps [OF assms(1,2) b retry]
  have "w' = w \<or> w' = v \<or> (\<exists>rec. b = Inr (Receipt rec) \<and> acknowledge env q rec t (g2, v) = (r, (gw', w')))"
    using assms(3)
    by (auto simp: place_with_def x bindS_def b finish_submission_def Let_def
        split: option.splits sum.splits prod.splits submission.splits)
  then show ?thesis using k acknowledge_keeps evolves_trans by (fastforce simp: submits_def)
qed

lemma place_keeps:
  assumes "rely env" "bindings_wf w" "place_order env q d t (gw, w) = (r, (gw', w'))"
  shows "evolves env w w'"
proof (cases t)
  case (Aware u)
  then have "place_with env (Some (place_with env None q d u)) q d u (gw, w) = (r, (gw', w'))"
    using assms(3) by (simp add: place_order_def place_order_locked_def)
  moreover have "evolves env v v'" if "bindings_wf v" "place_with env None q d u (g, v) = (r', (g', v'))" for g v r' g' v'
    using place_with_keeps [OF assms(1) that] by simp
  ultimately show ?thesis by (rule place_with_keeps [OF assms(1,2)]) auto
qed (use assms(3) in \<open>simp add: place_order_def\<close>)

lemma step_keeps:
  assumes "rely env" "bindings_wf w" "live_step env a (gw, w) = (gw', w')"
  shows "evolves env w w'"
proof -
  have calls: "ad_cancel_order env i w = (x, v) \<Longrightarrow> evolves env w v" "ad_cancel_all_orders env w = (y, v) \<Longrightarrow> evolves env w v"
    "ad_close_position env i w = (z, v) \<Longrightarrow> evolves env w v" for i x y z v
    using assms(1) spares_evolves by (metis rely_spares snd_conv)+
  show ?thesis
  proof (cases a)
    case (Op_place q d t)
    then show ?thesis using assms(3) place_keeps [OF assms(1,2), of q d t gw]
      by (cases "place_order env q d t (gw, w)") auto
  next
    case (Op_reconcile q t)
    then show ?thesis using assms(3) reconcile_binding_keeps [OF assms(1,2), of q t] spares_evolves
      by (cases "reconcile_binding env q t w") auto
  next
    case (Op_halt k reason t)
    then show ?thesis using assms(3) halt_keeps [OF assms(1,2), of k reason t] spares_evolves
      by (cases "halt_binding env k reason t w") auto
  qed (use assms(3) in \<open>auto simp: preview_order_def live_cancel_order_def live_kill_switch_def live_close_position_def Let_def
      split: sum.splits prod.splits if_splits dest: calls\<close>)
qed

text \<open>
  C11. Bindings live by the protocol. Through any calls of one gateway, failing ones and resolved
  conflicts included, the stored bindings change only by moves of the surroundings and by steps of the
  gateway, each of which replaces the binding of one signal, as stored at that moment, by its next version
  along one edge of the protocol. So a signal's binding is untouched or has advanced by exactly one
  edge per version, and a completed or halted binding never changes again.

  Hypothesis: the surroundings (the adapter's calls and what others do while the gateway waits) move bindings
  along the protocol only and touch none in flight (\<open>rely\<close>). That is so for a single gateway process;
  with a second process on the same repository it fails, and then a late acknowledgement can revive a
  halted binding (\<open>late_acknowledgement_revives_halted\<close>).
\<close>

theorem bindings_follow_protocol:
  assumes "rely env" "bindings_wf w" "fold (live_step env) ops (gw, w) = (gw', w')"
  shows "(protocol_step env)\<^sup>*\<^sup>* w w' \<and> advance (preflight_binding k w) (preflight_binding k w') \<and> bindings_wf w' \<and>
    (bi_state (preflight_binding k w) \<in> {BINDING_COMPLETED, BINDING_HALTED} \<longrightarrow>
       preflight_binding k w' = preflight_binding k w)"
proof -
  have "evolves env w w'" using assms(2,3)
  proof (induction ops arbitrary: gw w)
    case (Cons a ops)
    obtain g v where a: "live_step env a (gw, w) = (g, v)" by fastforce
    have "evolves env w v" by (rule step_keeps [OF assms(1) Cons.prems(1) a])
    moreover have "evolves env v w'" using Cons.IH [of v g] Cons.prems evolves_wf [OF calculation] by (simp add: a)
    ultimately show ?case by (rule evolves_trans)
  qed simp
  then show ?thesis using evolves_wf assms(2) final_advance evolves_advance unfolding evolves_def by blast
qed

end
