(* ===== verification/Gateway_Admission.thy ===== *)
theory Gateway_Admission
  imports Gateway_Placement
begin

text \<open>
  What it takes for an order to pass \<open>_validate_request\<close> of \<open>services/live_trading/gateway.py\<close>, written
  down condition by condition and without the order of the checks: the live preflight and the request are
  fresh, the evidence is complete, trusted and recent, the cross-venue preflight is genuine and in force,
  and venue, size, risk decision, kill switch and order rate allow it. An order is valid exactly
  under these conditions (\<open>validated_iff_cleared\<close>): no check of the code is left out.
\<close>

section \<open>Evidence\<close>

text \<open>Not from the future, and at most so many seconds old.\<close>

definition recent :: "instant \<Rightarrow> instant \<Rightarrow> int \<Rightarrow> bool" where
  "recent t since limit \<longleftrightarrow> since \<le> t \<and> t - since \<le> seconds limit"

definition stored_as :: "SourceEventEvidence \<Rightarrow> StoredSourceEvent \<Rightarrow> bool" where
  "stored_as e s \<longleftrightarrow>
     so_venue s = se_venue e \<and> so_symbol s = se_symbol e \<and> so_event_type s = se_event_type e \<and>
     so_exchange_timestamp s = map_option Aware (se_exchange_timestamp e) \<and> so_received_at s = Aware (se_received_at e) \<and>
     so_available_at s = Aware (se_available_at e) \<and> so_payload_sha256 s = se_payload_sha256 e \<and>
     so_sequence s = se_sequence e \<and> so_connection_id s = se_connection_id e \<and>
     so_reconciliation_state s = se_reconciliation_state e \<and> so_data_quality_score s = se_data_quality_score e"

definition event_admitted ::
  "LiveExecutionGateway \<Rightarrow> LiveOrderRequest \<Rightarrow> string \<Rightarrow> instant \<Rightarrow> string \<Rightarrow> SourceEventEvidence \<Rightarrow> bool" where
  "event_admitted gw q capability t venue e \<longleftrightarrow>
     se_event_id e \<noteq> [] \<and>
     (\<exists>repository stored. gw_source_event_repository gw = Some repository \<and>
        repository (se_event_id e) = Some stored \<and> stored_as e stored) \<and>
     se_venue e = venue \<and> se_symbol e = lo_symbol q \<and>
     (\<exists>types. map_of event_types capability = Some types \<and> se_event_type e \<in> set types) \<and>
     recent t (se_available_at e) (lv_source_event_max_age_seconds (st_live (gw_settings gw))) \<and>
     is_sha256_hex (se_payload_sha256 e) \<and>
     lv_minimum_data_quality (st_live (gw_settings gw)) \<le> se_data_quality_score e \<and>
     (se_event_type e \<in> {''orderbook_snapshot'', ''orderbook_delta''} \<longrightarrow> se_reconciliation_state e = Some SYNCHRONIZED)"

definition trusted_by :: "CapabilityEvidence \<Rightarrow> instant \<Rightarrow> TrustedCapabilityRecord \<Rightarrow> bool" where
  "trusted_by c t r \<longleftrightarrow>
     tr_support r = LIVE_VERIFIED \<and> ce_support c = LIVE_VERIFIED \<and>
     tr_verification_run_id r = ce_verification_run_id c \<and> tr_verified_at r = Aware (ce_verified_at c) \<and>
     ce_verified_at c \<le> t \<and> (\<exists>until. tr_expires_at r = Aware until \<and> t \<le> until) \<and>
     tr_adapter_version r = ce_adapter_version c \<and> tr_source_version r = ce_source_version c \<and>
     tr_contract_fixture_sha256 r = ce_contract_fixture_sha256 c \<and> tr_audit_run_id r = ce_audit_run_id c"

definition capability_admitted ::
  "LiveExecutionGateway \<Rightarrow> LiveOrderRequest \<Rightarrow> string \<Rightarrow> instant \<Rightarrow> CapabilityEvidence \<Rightarrow> bool" where
  "capability_admitted gw q venue t c \<longleftrightarrow>
     ce_venue c = venue \<and> ce_use_case c = (if lo_reduce_only q then EMERGENCY_EXIT else NEW_EXPOSURE) \<and>
     recent t (ce_verified_at c) (lv_capability_verification_max_age_seconds (st_live (gw_settings gw))) \<and>
     (\<exists>reg r. gw_trusted_capability_registry gw = Some reg \<and>
        trusted_record reg venue (ce_capability c) ''*'' = Some r \<and> trusted_by c t r) \<and>
     (\<forall>e \<in> set (ce_source_events c). event_admitted gw q (ce_capability c) t venue e)"

definition evidence_sound :: "'x environment \<Rightarrow> LiveOrderRequest \<Rightarrow> LegDataEvidence \<Rightarrow> LegDataEvidence \<Rightarrow> bool" where
  "evidence_sound env q receive pay \<longleftrightarrow>
     (let h = evidence_hashes env; evidence = lo_cross_venue_signal_evidence q; own = lo_order_leg_evidence q;
          keys = map (\<lambda>c. (ce_venue c, ce_capability c)) (le_capabilities receive @ le_capabilities pay) in
      xe_signal_id evidence = lo_signal_id q \<and> cross_valid_hash h evidence \<and>
      lo_cross_venue_signal_hash q = xe_evidence_hash evidence \<and>
      le_venue receive \<noteq> le_venue pay \<and> leg_valid_hash h receive \<and> leg_valid_hash h pay \<and>
      (lo_order_leg_role q = ''receive_leg'' \<and> own = receive \<or> lo_order_leg_role q = ''pay_leg'' \<and> own = pay) \<and>
      le_venue own = lo_exchange q \<and>
      (\<exists>registered. map_of STRATEGY_CAPABILITY_REGISTRY (lo_strategy_id q, lo_strategy_version q) = Some registered \<and>
         lo_required_capabilities q =
           map rv_capability (filter (\<lambda>r. rv_venue_role r = lo_order_leg_role q) registered) \<and>
         (\<forall>r \<in> set registered. (role_venue receive pay (rv_venue_role r), rv_capability r) \<in> set keys)) \<and>
      distinct keys)"

section \<open>The cross-venue preflight\<close>

definition preflight_admitted ::
  "'x environment \<Rightarrow> 'x world \<Rightarrow> LiveExecutionGateway \<Rightarrow> LiveOrderRequest \<Rightarrow> instant \<Rightarrow> LegDataEvidence \<Rightarrow> LegDataEvidence \<Rightarrow> bool" where
  "preflight_admitted env w gw q t receive pay \<longleftrightarrow>
     (let p = lo_cross_venue_preflight q; v = v_values (cv_payload p) in
      (\<exists>service. gw_cross_venue_preflight_service gw = Some service \<and>
         verify (preflight_hashes env) service p (Aware t) = Inr ()) \<and>
      v_signal_id v = lo_signal_id q \<and> v_receive_venue v = le_venue receive \<and> v_pay_venue v = le_venue pay \<and>
      (\<exists>from until. fst (v_created_at v) = Aware from \<and> fst (v_expires_at v) = Aware until \<and> from \<le> t \<and> t < until) \<and>
      v_receive_execution_health v \<and> v_pay_execution_health v \<and>
      0 < fst (v_receive_available_collateral v) \<and> 0 < fst (v_pay_available_collateral v) \<and>
      lo_quantity q \<le> fst (v_receive_fillable_quantity v) \<and> lo_quantity q \<le> fst (v_pay_fillable_quantity v) \<and>
      (\<forall>b. mem_get (wo_bindings w) (lo_signal_id q) = Some b \<longrightarrow>
         bi_state b \<in> {UNBOUND, ABORTED} \<or> bi_preflight_hash b = Some (cv_preflight_hash p)) \<and>
      v_receive_capability_hash v = le_evidence_hash receive \<and> v_pay_capability_hash v = le_evidence_hash pay \<and>
      v_receive_source_event_hash v = source_event_hash env receive \<and>
      v_pay_source_event_hash v = source_event_hash env pay)"

section \<open>Venue, size, risk and rate\<close>

definition risk_admitted :: "LiveExecutionGateway \<Rightarrow> LiveOrderRequest \<Rightarrow> RiskDecision \<Rightarrow> instant \<Rightarrow> bool" where
  "risk_admitted gw q d t \<longleftrightarrow>
     lo_exchange q \<in> xs_name ` set (filter xs_execution_enabled (st_exchanges (gw_settings gw))) \<and>
     execution_eligibility_reason (gw_settings gw) (lo_exchange q) (Aware t) (lo_reduce_only q) = Inr None \<and>
     lo_symbol q \<in> set (lv_allowed_symbols (st_live (gw_settings gw))) \<and>
     reference_notional q \<le> lv_maximum_order_notional (st_live (gw_settings gw)) \<and>
     lo_risk_decision_id q = decision_id_text (d_decision_id d) \<and>
     (lo_reduce_only q \<or> d_allowed d \<and> \<not> killed gw \<and>
        recent t (d_evaluated_at d) (st_stale_data_seconds (gw_settings gw)) \<and>
        (\<exists>z. d_sizing d = Some z \<and> lo_quantity q \<le> z_quantity z))"

definition cleared :: "'x environment \<Rightarrow> 'x world \<Rightarrow> LiveExecutionGateway \<Rightarrow> LiveOrderRequest \<Rightarrow> RiskDecision \<Rightarrow> instant \<Rightarrow> bool" where
  "cleared env w gw q d t \<longleftrightarrow>
     pr_approved (gw_preflight gw) \<and>
     recent t (pr_timestamp (gw_preflight gw)) (lv_preflight_ttl_seconds (st_live (gw_settings gw))) \<and>
     recent t (lo_created_at q) (st_stale_data_seconds (gw_settings gw)) \<and> t < lo_expires_at q \<and>
     (\<exists>receive pay. xe_receive_leg (lo_cross_venue_signal_evidence q) = Some receive \<and>
        xe_pay_leg (lo_cross_venue_signal_evidence q) = Some pay \<and> evidence_sound env q receive pay \<and>
        (\<forall>leg \<in> (if lo_reduce_only q then {lo_order_leg_evidence q} else {receive, pay}).
           \<forall>c \<in> set (le_capabilities leg). capability_admitted gw q (le_venue leg) t c) \<and>
        preflight_admitted env w gw q t receive pay) \<and>
     risk_admitted gw q d t \<and>
     int (length (dropWhile (\<lambda>u. u \<le> t - seconds 60) (gw_order_timestamps gw)))
       < lv_maximum_orders_per_minute (st_live (gw_settings gw))"

section \<open>Each check is its condition\<close>

lemma first_rejection_None: "first_rejection f xs = Inr None \<longleftrightarrow> (\<forall>x \<in> set xs. f x = Inr None)"
  by (induction xs) (auto split: sum.splits option.splits)

lemma stored_match_iff: "stored_event_mismatch e s = None \<longleftrightarrow> stored_as e s"
  by (auto simp: stored_event_mismatch_def stored_as_def Let_def)

lemma event_admitted_iff: "source_event_failure gw q capability t venue e = Inr None \<longleftrightarrow> event_admitted gw q capability t venue e"
proof -
  have "stored_event_failure gw q capability t venue s = Inr None \<longleftrightarrow>
      se_venue e = venue \<and> se_symbol e = lo_symbol q \<and>
      (\<exists>types. map_of event_types capability = Some types \<and> se_event_type e \<in> set types) \<and>
      recent t (se_available_at e) (lv_source_event_max_age_seconds (st_live (gw_settings gw))) \<and>
      is_sha256_hex (se_payload_sha256 e) \<and>
      lv_minimum_data_quality (st_live (gw_settings gw)) \<le> se_data_quality_score e \<and>
      (se_event_type e \<in> {''orderbook_snapshot'', ''orderbook_delta''} \<longrightarrow> se_reconciliation_state e = Some SYNCHRONIZED)"
    if "stored_as e s" for s
    using that unfolding stored_event_failure_def stored_as_def recent_def
    by (cases "map_of event_types capability") (auto simp: Let_def not_less)
  then show ?thesis
    by (auto simp: source_event_failure_def event_admitted_def stored_match_iff split: option.splits)
       (auto simp: stored_match_iff [symmetric])
qed

lemma trusted_iff:
  assumes "use \<in> {NEW_EXPOSURE, EMERGENCY_EXIT}"
  shows "(\<exists>r. trusted_require reg venue (ce_capability c) (ce_verification_run_id c) (ce_verified_at c) use t ''*'' = Inr r \<and>
      trusted_mismatch c r = None) \<longleftrightarrow>
    (\<exists>r. trusted_record reg venue (ce_capability c) ''*'' = Some r \<and> trusted_by c t r)"
proof (cases "trusted_record reg venue (ce_capability c) ''*''")
  case (Some r)
  have "record_current r t = Inr True \<longleftrightarrow>
      (\<exists>from until. tr_verified_at r = Aware from \<and> from \<le> t \<and> tr_expires_at r = Aware until \<and> t \<le> until)"
    by (cases "tr_verified_at r"; cases "tr_expires_at r") (auto simp: record_current_def datetime_le_def)
  moreover have "trusted_require reg venue (ce_capability c) (ce_verification_run_id c) (ce_verified_at c) use t ''*'' = Inr r' \<longleftrightarrow>
      r' = r \<and> tr_support r = LIVE_VERIFIED \<and> tr_verification_run_id r = ce_verification_run_id c \<and>
      tr_verified_at r = Aware (ce_verified_at c) \<and> record_current r t = Inr True" for r'
    using assms by (auto simp: trusted_require_def Some bindE_Inr_iff)
  ultimately show ?thesis using Some
    by (auto simp: trusted_by_def trusted_mismatch_def)
qed (simp add: trusted_require_def)

lemma capability_admitted_iff:
  "validate_capability gw q venue (if lo_reduce_only q then EMERGENCY_EXIT else NEW_EXPOSURE) t c = Inr None \<longleftrightarrow>
     capability_admitted gw q venue t c"
proof (cases "\<exists>reg. gw_trusted_capability_registry gw = Some reg \<and> ce_venue c = venue \<and>
    ce_use_case c = (if lo_reduce_only q then EMERGENCY_EXIT else NEW_EXPOSURE) \<and>
    recent t (ce_verified_at c) (lv_capability_verification_max_age_seconds (st_live (gw_settings gw)))")
  case False
  then show ?thesis
    by (auto simp: validate_capability_def capability_admitted_def recent_def Let_def split: option.splits if_splits)
next
  case True
  then obtain reg where reg: "gw_trusted_capability_registry gw = Some reg" "ce_venue c = venue"
    "ce_use_case c = (if lo_reduce_only q then EMERGENCY_EXIT else NEW_EXPOSURE)"
    "recent t (ce_verified_at c) (lv_capability_verification_max_age_seconds (st_live (gw_settings gw)))" by blast
  let ?require = "trusted_require reg venue (ce_capability c) (ce_verification_run_id c) (ce_verified_at c) (ce_use_case c) t ''*''"
  have "validate_capability gw q venue (ce_use_case c) t c = Inr None \<longleftrightarrow>
      (\<exists>r. ?require = Inr r \<and> trusted_mismatch c r = None) \<and> validate_source_events gw q c t venue = Inr None"
    using reg by (auto simp: validate_capability_def recent_def Let_def not_less split: sum.splits option.splits error.splits)
  also have "(\<exists>r. ?require = Inr r \<and> trusted_mismatch c r = None) \<longleftrightarrow>
      (\<exists>r. trusted_record reg venue (ce_capability c) ''*'' = Some r \<and> trusted_by c t r)"
    by (rule trusted_iff) (simp add: reg(3))
  finally show ?thesis using reg
    by (simp add: capability_admitted_def validate_source_events_def first_rejection_None event_admitted_iff)
qed

lemma legs_admitted_iff:
  "first_rejection (validate_leg gw q t) legs = Inr None \<longleftrightarrow>
     (\<forall>leg \<in> set legs. \<forall>c \<in> set (le_capabilities leg). capability_admitted gw q (le_venue leg) t c)"
  by (simp add: first_rejection_None validate_leg_def capability_admitted_iff)

lemma evidence_sound_iff:
  "evidence_failure env q = None \<longleftrightarrow>
     (\<exists>receive pay. xe_receive_leg (lo_cross_venue_signal_evidence q) = Some receive \<and>
        xe_pay_leg (lo_cross_venue_signal_evidence q) = Some pay \<and> evidence_sound env q receive pay)"
proof (cases "xe_receive_leg (lo_cross_venue_signal_evidence q)"; cases "xe_pay_leg (lo_cross_venue_signal_evidence q)")
  fix receive pay
  assume legs: "xe_receive_leg (lo_cross_venue_signal_evidence q) = Some receive"
    "xe_pay_leg (lo_cross_venue_signal_evidence q) = Some pay"
  show ?thesis
    by (auto simp: evidence_failure_def evidence_sound_def requirement_failure_def capability_keys_def evidence_leg_def
        legs Let_def list_ex_iff split: option.splits)
qed (auto simp: evidence_failure_def Let_def)

lemma preflight_in_force_iff:
  "preflight_in_force v t = Inr True \<longleftrightarrow>
     (\<exists>from until. fst (v_created_at v) = Aware from \<and> fst (v_expires_at v) = Aware until \<and> from \<le> t \<and> t < until)"
  by (cases "fst (v_created_at v)"; cases "fst (v_expires_at v)")
    (auto simp: preflight_in_force_def datetime_lt_def datetime_le_def)

lemma preflight_admitted_iff:
  assumes "xe_receive_leg (lo_cross_venue_signal_evidence q) = Some receive"
    "xe_pay_leg (lo_cross_venue_signal_evidence q) = Some pay"
  shows "(\<exists>gw'. validate_cross_venue_preflight env q t w gw = (Inr None, gw')) \<longleftrightarrow>
    preflight_admitted env w gw q t receive pay"
proof (cases "(\<exists>service. gw_cross_venue_preflight_service gw = Some service \<and>
    verify (preflight_hashes env) service (lo_cross_venue_preflight q) (Aware t) = Inr ()) \<and>
    preflight_in_force (v_values (cv_payload (lo_cross_venue_preflight q))) t = Inr True")
  case False
  then have "\<not> preflight_admitted env w gw q t receive pay"
    unfolding preflight_admitted_def Let_def preflight_in_force_iff by blast
  moreover have "validate_cross_venue_preflight env q t w gw \<noteq> (Inr None, gw')" for gw'
    using False assms by (auto simp: validate_cross_venue_preflight_def Let_def bindS_def
        split: option.splits sum.splits prod.splits error.splits if_splits bool.splits)
  ultimately show ?thesis by blast
next
  case True
  then obtain service where s: "gw_cross_venue_preflight_service gw = Some service"
    "verify (preflight_hashes env) service (lo_cross_venue_preflight q) (Aware t) = Inr ()"
    "preflight_in_force (v_values (cv_payload (lo_cross_venue_preflight q))) t = Inr True" by blast
  have free: "\<not> binding_conflict q w \<longleftrightarrow> (\<forall>b. mem_get (wo_bindings w) (lo_signal_id q) = Some b \<longrightarrow>
      bi_state b \<in> {UNBOUND, ABORTED} \<or> bi_preflight_hash b = Some (cv_preflight_hash (lo_cross_venue_preflight q)))"
    by (auto simp: binding_conflict_def request_hash_def split: option.splits)
  show ?thesis
    unfolding preflight_admitted_def Let_def preflight_in_force_iff [symmetric] free [symmetric] using assms s
    by (auto simp: validate_cross_venue_preflight_def preflight_limits_failure_def preflight_hash_failure_def
        report_preflight_change_def bindS_def Let_def min_def not_le split: option.splits sum.splits prod.splits if_splits)
qed

lemma risk_admitted_iff:
  "eligibility_failure gw q t = Inr None \<and> risk_failure gw q t (view_of q d) = None \<longleftrightarrow> risk_admitted gw q d t"
proof -
  have "eligibility_failure gw q t = Inr None \<longleftrightarrow>
      lo_exchange q \<in> xs_name ` set (filter xs_execution_enabled (st_exchanges (gw_settings gw))) \<and>
      execution_eligibility_reason (gw_settings gw) (lo_exchange q) (Aware t) (lo_reduce_only q) = Inr None"
    by (auto simp: eligibility_failure_def split: sum.splits error.splits option.splits)
  moreover have "risk_failure gw q t (view_of q d) = None \<longleftrightarrow>
      lo_symbol q \<in> set (lv_allowed_symbols (st_live (gw_settings gw))) \<and>
      reference_notional q \<le> lv_maximum_order_notional (st_live (gw_settings gw)) \<and>
      lo_risk_decision_id q = decision_id_text (d_decision_id d) \<and>
      (lo_reduce_only q \<or> d_allowed d \<and> \<not> killed gw \<and>
        recent t (d_evaluated_at d) (st_stale_data_seconds (gw_settings gw)) \<and>
        (\<exists>z. d_sizing d = Some z \<and> lo_quantity q \<le> z_quantity z))"
    by (cases "d_sizing d") (auto simp: risk_failure_def view_of_def killed_def recent_def Let_def not_less)
  ultimately show ?thesis by (simp add: risk_admitted_def)
qed

theorem validated_iff_cleared:
  "(\<exists>gw'. validate_request env q t (view_of q d) w gw = (Inr None, gw')) \<longleftrightarrow> cleared env w gw q d t"
proof -
  have fresh: "freshness_failure gw q t False = None \<longleftrightarrow> pr_approved (gw_preflight gw) \<and>
      recent t (pr_timestamp (gw_preflight gw)) (lv_preflight_ttl_seconds (st_live (gw_settings gw))) \<and>
      recent t (lo_created_at q) (st_stale_data_seconds (gw_settings gw)) \<and> t < lo_expires_at q"
    by (auto simp: freshness_failure_def recent_def Let_def)
  have late: "(\<exists>gw'. late_failure q t (view_of q d) gw = (Inr None, gw')) \<longleftrightarrow> risk_admitted gw q d t \<and>
      int (length (dropWhile (\<lambda>u. u \<le> t - seconds 60) (gw_order_timestamps gw)))
        < lv_maximum_orders_per_minute (st_live (gw_settings gw))"
    unfolding risk_admitted_iff [symmetric]
    by (auto simp: late_failure_def rate_failure_def trim_order_timestamps_def Let_def split: sum.splits option.splits)
  have legs: "set (checked_legs q) = (if lo_reduce_only q then {lo_order_leg_evidence q} else {receive, pay})"
    if "xe_receive_leg (lo_cross_venue_signal_evidence q) = Some receive"
      "xe_pay_leg (lo_cross_venue_signal_evidence q) = Some pay" "evidence_sound env q receive pay" for receive pay
    using that by (auto simp: checked_legs_def evidence_sound_def evidence_leg_def Let_def)
  have "(\<exists>gw'. validate_request env q t (view_of q d) w gw = (Inr None, gw')) \<longleftrightarrow>
      freshness_failure gw q t False = None \<and> evidence_failure env q = None \<and>
      first_rejection (validate_leg gw q t) (checked_legs q) = Inr None \<and>
      (\<exists>g. validate_cross_venue_preflight env q t w gw = (Inr None, g)) \<and>
      (\<exists>gw'. late_failure q t (view_of q d) gw = (Inr None, gw'))"
    using validate_preflight_quiet [of env q t w gw]
    by (auto simp: validate_request_def view_of_def split: option.splits sum.splits prod.splits)
  also have "\<dots> \<longleftrightarrow> cleared env w gw q d t"
  proof (cases "evidence_failure env q = None")
    case True
    then obtain receive pay where e: "xe_receive_leg (lo_cross_venue_signal_evidence q) = Some receive"
        "xe_pay_leg (lo_cross_venue_signal_evidence q) = Some pay" "evidence_sound env q receive pay"
      unfolding evidence_sound_iff by blast
    show ?thesis unfolding cleared_def fresh late legs_admitted_iff legs [OF e] preflight_admitted_iff [OF e(1,2)]
      using True e by simp
  qed (auto simp: cleared_def evidence_sound_iff)
  finally show ?thesis .
qed

end
