(* ===== verification/Gateway_Trace.thy ===== *)
theory Gateway_Trace
  imports Gateway_Admission
begin

text \<open>
  Which calls the live gateway makes: an adapter that also keeps a log of the calls it gets, and the
  theorem that an order reaches the adapter at most once per call and only behind every gate.
\<close>

section \<open>An adapter with a log\<close>

datatype call = Health bool | Open_orders "LiveOpenOrder list" | Positions "LivePosition list"
  | Place LiveOrderRequest | Other_call

type_synonym 'x logged_world = "('x \<times> call list) world"

definition plain :: "'x logged_world \<Rightarrow> 'x world" where
  "plain w = \<lparr>wo_bindings = wo_bindings w, wo_exchange = fst (wo_exchange w)\<rparr>"

definition logged :: "'x logged_world \<Rightarrow> call list" where
  "logged w = snd (wo_exchange w)"

definition relog :: "'x world \<Rightarrow> call list \<Rightarrow> 'x logged_world" where
  "relog w cs = \<lparr>wo_bindings = wo_bindings w, wo_exchange = (wo_exchange w, cs)\<rparr>"

definition trace_call ::
  "('a result \<Rightarrow> call) \<Rightarrow> ('x world \<Rightarrow> ('a, 'x world) outcome) \<Rightarrow> 'x logged_world \<Rightarrow> ('a, 'x logged_world) outcome" where
  "trace_call entry f w = (case f (plain w) of (r, w') \<Rightarrow> (r, relog w' (logged w @ [entry r])))"

definition traced :: "'x environment \<Rightarrow> ('x \<times> call list) environment" where
  "traced env =
     \<lparr>ad_name = ad_name env, ad_is_concrete = ad_is_concrete env, ad_callable = ad_callable env,
      ad_health_check = trace_call (\<lambda>r. Health (r = Inr True)) (ad_health_check env),
      ad_place_order = (\<lambda>q. trace_call (\<lambda>_. Place q) (ad_place_order env q)),
      ad_cancel_order = (\<lambda>i. trace_call (\<lambda>_. Other_call) (ad_cancel_order env i)),
      ad_cancel_all_orders = trace_call (\<lambda>_. Other_call) (ad_cancel_all_orders env),
      ad_fetch_open_orders = (\<lambda>i. trace_call (\<lambda>r. case r of Inl _ \<Rightarrow> Other_call | Inr os \<Rightarrow> Open_orders os)
        (ad_fetch_open_orders env i)),
      ad_fetch_positions = trace_call (\<lambda>r. case r of Inl _ \<Rightarrow> Other_call | Inr ps \<Rightarrow> Positions ps)
        (ad_fetch_positions env),
      ad_fetch_recent_fills = (\<lambda>i t. trace_call (\<lambda>_. Other_call) (ad_fetch_recent_fills env i t)),
      ad_lookup_order = (\<lambda>i. trace_call (\<lambda>_. Other_call) (ad_lookup_order env i)),
      ad_close_position = (\<lambda>i. trace_call (\<lambda>_. Other_call) (ad_close_position env i)),
      others = (\<lambda>w. relog (others env (plain w)) (logged w)),
      uuid_text = uuid_text env, evidence_hashes = evidence_hashes env, preflight_hashes = preflight_hashes env\<rparr>"

fun placed_by :: "call \<Rightarrow> LiveOrderRequest list" where
  "placed_by (Place q) = [q]"
| "placed_by _ = []"

definition placements :: "call list \<Rightarrow> LiveOrderRequest list" where
  "placements cs = concat (map placed_by cs)"

lemma placements_simps [simp]:
  "placements [] = []" "placements (c # cs) = placed_by c @ placements cs" "placements (cs @ ds) = placements cs @ placements ds"
  by (simp_all add: placements_def)

lemma logged_relog [simp]: "logged (relog w cs) = cs" "logged (v\<lparr>wo_bindings := b\<rparr>) = logged v"
  by (simp_all add: logged_def relog_def)

lemma trace_callD: "trace_call entry f w = (r, w') \<Longrightarrow> logged w' = logged w @ [entry r]"
  by (auto simp: trace_call_def split: prod.splits)

section \<open>Steps that make no call\<close>

definition silent :: "('a \<times> 'x logged_world) \<Rightarrow> 'x logged_world \<Rightarrow> bool" where
  "silent out w \<longleftrightarrow> logged (snd out) = logged w"

lemma cas_silent: "silent (cas_binding (traced env) c b w) w"
  by (auto simp: silent_def cas_binding_def traced_def Let_def split: prod.splits)

lemma transition_silent: "silent (bind_transition (traced env) c st t f up w) w"
  using cas_silent [of env c _ w] by (auto simp: silent_def bind_transition_def Let_def split: prod.splits bool.splits) (metis snd_conv)+

lemma reserve_silent: "silent (reserve_preflight (traced env) q t w) w"
  using cas_silent [of env]
  by (auto simp: silent_def reserve_preflight_def Let_def cas_answer_def split: PreflightBindingState.splits)

lemma bindings_silent:
  "silent (abort_preflight (traced env) q t why w) w"
  "silent (record_preflight_ack (traced env) q rec t w) w"
  "silent (mark_reconciliation_required (traced env) q t why w) w"
  "silent (record_position_snapshot (traced env) q t x w) w"
  "silent (apply_reconciliation_snapshot (traced env) q sn t w) w"
  using transition_silent [of env]
  by (auto simp: abort_preflight_def record_preflight_ack_def mark_reconciliation_required_def
      record_position_snapshot_def apply_reconciliation_snapshot_def Let_def silent_def split: sum.splits)

lemma bindS_silent:
  "silent (m w) w \<Longrightarrow> (\<And>x v. silent (f x v) v) \<Longrightarrow> silent (bindS m f w) w"
  by (auto simp: bindS_def silent_def split: sum.splits prod.splits)

lemma silent_case:
  "silent m w \<Longrightarrow> (\<And>v. logged v = logged w \<Longrightarrow> silent (f v) w) \<Longrightarrow> (\<And>v. logged v = logged w \<Longrightarrow> silent (g v) w) \<Longrightarrow>
    silent (case m of (True, v) \<Rightarrow> f v | (False, v) \<Rightarrow> g v) w"
  by (cases m; cases "fst m") (auto simp: silent_def)

lemma ensure_silent: "silent (ensure_reconciliation_required (traced env) q c t why w) w"
  unfolding ensure_reconciliation_required_def Let_def
  by (auto intro!: bindS_silent transition_silent silent_case cas_silent) (auto simp: silent_def)

lemma handle_silent: "silent (handle_cas_snapshot (traced env) q sn t w) w"
  unfolding handle_cas_snapshot_def
  by (auto intro!: bindS_silent ensure_silent bindings_silent transition_silent) (auto simp: silent_def)

section \<open>What each part of placing an order asks\<close>

text \<open>The log grows by calls that satisfy a condition.\<close>

definition grows :: "(call list \<Rightarrow> bool) \<Rightarrow> 'x logged_world \<Rightarrow> 'x logged_world \<Rightarrow> bool" where
  "grows P w w' \<longleftrightarrow> (\<exists>cs. logged w' = logged w @ cs \<and> P cs)"

abbreviation unplaced :: "call list \<Rightarrow> bool" where
  "unplaced cs \<equiv> placements cs = []"

lemma growsI: "logged w' = logged w @ cs \<Longrightarrow> P cs \<Longrightarrow> grows P w w'"
  by (auto simp: grows_def)

lemma grows_silent: "logged w' = logged w \<Longrightarrow> P [] \<Longrightarrow> grows P w w'"
  by (auto simp: grows_def)

lemma grows_trans: "grows P u v \<Longrightarrow> grows Q v w \<Longrightarrow> (\<And>as bs. P as \<Longrightarrow> Q bs \<Longrightarrow> R (as @ bs)) \<Longrightarrow> grows R u w"
  unfolding grows_def by fastforce

lemma silent_eq: "f w = (r, w') \<Longrightarrow> silent (f w) w \<Longrightarrow> logged w' = logged w"
  by (simp add: silent_def)

lemmas silent_dests = silent_eq [OF _ bindings_silent(1)] silent_eq [OF _ bindings_silent(2)]
  silent_eq [OF _ bindings_silent(3)] silent_eq [OF _ bindings_silent(4)] silent_eq [OF _ bindings_silent(5)]
  silent_eq [OF _ handle_silent] silent_eq [OF _ reserve_silent]

lemma except_silent: "except_adapter (traced env) q t p e (gw, w) = (r, (gw', w')) \<Longrightarrow> logged w' = logged w"
  by (auto simp: except_adapter_def split: progress.splits sum.splits prod.splits dest!: silent_dests)

lemma reject_silent: "return_rejection env q t why (gw, w) = (r, (gw', w')) \<Longrightarrow> logged w' = logged w"
  by (auto dest!: return_rejection_books)

lemma abort_silent: "abort_and_reject (traced env) q t why reason (gw, w) = (r, (gw', w')) \<Longrightarrow> logged w' = logged w"
  by (auto simp: abort_and_reject_def split: sum.splits prod.splits dest!: silent_dests except_silent reject_silent)

lemma refresh_unplaced:
  "refresh_binding_and_exchange_state (traced env) q t w = (r, w') \<Longrightarrow> grows unplaced w w'"
  by (auto simp: refresh_binding_and_exchange_state_def Let_def bindS_def traced_def grows_def
      split: sum.splits prod.splits dest!: trace_callD)

text \<open>The order passes the checks on what the exchange just reported.\<close>

definition room :: "LiveExecutionGateway \<Rightarrow> LiveOrderRequest \<Rightarrow> LiveOpenOrder list \<Rightarrow> LivePosition list \<Rightarrow> bool" where
  "room gw q os ps \<longleftrightarrow> int (length os) < lv_maximum_open_orders (st_live (gw_settings gw)) \<and>
     reduce_only_failure q (find_position q ps) = None"

definition gates :: "LiveExecutionGateway \<Rightarrow> LiveOrderRequest \<Rightarrow> call list \<Rightarrow> bool" where
  "gates gw q cs \<longleftrightarrow> unplaced cs \<or>
     (\<exists>pre os ps post. cs = pre @ [Health True, Open_orders os, Positions ps, Place q] @ post \<and>
        unplaced pre \<and> unplaced post \<and> room gw q os ps)"

lemma gates_append: "gates gw q cs \<Longrightarrow> unplaced ds \<Longrightarrow> gates gw q (cs @ ds)"
  unfolding gates_def by (metis append.assoc append_is_Nil_conv placements_simps(3))

lemma gates_prepend: "gates gw q cs \<Longrightarrow> unplaced ds \<Longrightarrow> gates gw q (ds @ cs)"
  unfolding gates_def by (metis append.assoc append_is_Nil_conv placements_simps(3))

lemma submit_checked_log:
  assumes "submit_checked (traced env) q t pos (gw, w) = (r, (gw', w'))"
  shows "logged w' = logged w \<or> logged w' = logged w @ [Place q] \<and> reduce_only_failure q pos = None"
  using assms
  by (auto simp: submit_checked_def split: sum.splits prod.splits option.splits
      dest!: silent_dests except_silent abort_silent) (auto simp: traced_def dest!: trace_callD)

lemma submit_reserved_log:
  assumes "submit_reserved (traced env) q t (gw, w) = (r, (gw', w'))"
  shows "grows (\<lambda>cs. unplaced cs \<or> (\<exists>os ps. cs = [Open_orders os, Positions ps, Place q] \<and> room gw q os ps)) w w'"
proof -
  obtain ro w1 where o: "ad_fetch_open_orders (traced env) None w = (ro, w1)" by fastforce
  obtain rp w2 where p: "ad_fetch_positions (traced env) w1 = (rp, w2)" by fastforce
  have l1: "logged w1 = logged w @ [case ro of Inl _ \<Rightarrow> Other_call | Inr os \<Rightarrow> Open_orders os]"
    using o by (auto simp: traced_def dest!: trace_callD)
  have l2: "logged w2 = logged w1 @ [case rp of Inl _ \<Rightarrow> Other_call | Inr ps \<Rightarrow> Positions ps]"
    using p by (auto simp: traced_def dest!: trace_callD)
  show ?thesis using assms l1 l2
    by (auto simp: submit_reserved_def o p grows_def room_def split: sum.splits if_splits
        dest!: except_silent abort_silent submit_checked_log)
qed

lemma acknowledge_log:
  assumes "acknowledge (traced env) q rec t (gw, w) = (r, (gw', w'))"
  shows "grows unplaced w w'"
  using assms
  by (auto simp: acknowledge_def Let_def split: if_splits sum.splits prod.splits
      dest!: silent_dests refresh_unplaced intro: grows_silent) (auto simp: grows_def)

lemma gates_unplaced: "grows unplaced w w' \<Longrightarrow> grows (gates gw q) w w'"
  by (auto simp: grows_def gates_def)

lemma grows_gates_same: "logged w' = logged w \<Longrightarrow> grows (gates gw q) w w'"
  by (auto simp: grows_def gates_def)

lemma grows_cong: "grows P w v \<Longrightarrow> logged w' = logged v \<Longrightarrow> grows P w w'"
  by (simp add: grows_def)

lemma conflict_log:
  assumes "refresh_binding_and_exchange_state (traced env) q t v = (Inr sn, v1)"
    "handle_cas_snapshot (traced env) q sn t v1 = (b, v2)" "grows (gates gw q) v2 w'"
  shows "grows (gates gw q) v w'"
  using grows_trans [OF refresh_unplaced [OF assms(1)], of "gates gw q" w' "gates gw q"] assms(3) silent_dests(6) [OF assms(2)]
    gates_prepend by (auto simp: grows_def)

lemma try_block_log:
  assumes "try_block (traced env) retry q t (gw, w) = (r, (gw', w'))"
    and retry: "\<And>f v r' g' v'. retry = Some f \<Longrightarrow> f (gw, v) = (r', (g', v')) \<Longrightarrow> grows (gates gw q) v v'"
  shows "grows (gates gw q) w w'"
proof -
  obtain h w1 where h: "ad_health_check (traced env) w = (h, w1)" by fastforce
  have l1: "logged w1 = logged w @ [Health (h = Inr True)]" using h by (auto simp: traced_def dest!: trace_callD)
  obtain f w2 where f: "reserve_preflight (traced env) q t w1 = (f, w2)" by fastforce
  have l2: "logged w2 = logged w1" by (rule silent_dests(7) [OF f])
  have same: "logged w' = logged w1 \<Longrightarrow> ?thesis" by (auto simp: l1 grows_def gates_def)
  have later: "grows (gates gw q) w2 w' \<Longrightarrow> ?thesis"
    using gates_prepend [of gw q _ "[Health (h = Inr True)]"] by (auto simp: l1 l2 grows_def)
  have sub: ?thesis if sr: "submit_reserved (traced env) q t (gw, w2) = (r, gw', w')" and "h = Inr True"
  proof -
    obtain cs where cs: "logged w' = logged w2 @ cs"
      "unplaced cs \<or> (\<exists>os ps. cs = [Open_orders os, Positions ps, Place q] \<and> room gw q os ps)"
      using submit_reserved_log [OF sr] by (auto simp only: grows_def)
    have "gates gw q ([Health True] @ cs)"
      using cs(2) unfolding gates_def by (elim disjE exE conjE) (simp, rule disjI2, rule exI [of _ "[]"], fastforce)
    then show ?thesis using cs(1) that(2) by (intro growsI [of _ _ "[Health True] @ cs"]) (simp_all add: l1 l2)
  qed
  show ?thesis
  proof (cases "h = Inr True \<and> (\<exists>m. f = Some m)")
    case False
    then show ?thesis using assms(1) sub same
      by (auto simp: try_block_def h f split: sum.splits bool.splits option.splits dest!: except_silent reject_silent)
  next
    case True
    then obtain m where m: "h = Inr True" "f = Some m" by blast
    show ?thesis
    proof (cases "if m = ''preflight binding CAS conflict'' then retry else None")
      case None
      then show ?thesis using assms(1) same l2 reject_silent [of "traced env" q t m gw w2] by (simp add: try_block_def h f m)
    next
      case (Some again)
      then have again: "retry = Some again" by (auto split: if_splits)
      obtain rf w3 where rf: "refresh_binding_and_exchange_state (traced env) q t w2 = (rf, w3)" by fastforce
      note g3 = gates_unplaced [OF refresh_unplaced [OF rf], of gw q]
      show ?thesis
      proof (cases rf)
        case (Inl e)
        then show ?thesis using assms(1) later g3 Some
          by (simp add: try_block_def h f m rf) (blast dest: reject_silent intro: grows_cong)
      next
        case (Inr sn)
        obtain b w4 where b: "handle_cas_snapshot (traced env) q sn t w3 = (b, w4)" by fastforce
        note after = later [OF conflict_log [OF rf [unfolded Inr] b]]
        obtain r' g' v' where ag: "again (gw, w4) = (r', (g', v'))" by (metis prod_cases3)
        have "logged w' = logged w4 \<or> logged w' = logged v'"
          using assms(1) Some Inr
          by (cases b; cases r')
            (auto simp: try_block_def h f m rf b ag split: bool.splits dest!: except_silent reject_silent)
        then show ?thesis using after grows_gates_same grows_cong [OF retry [OF again ag]] by blast
      qed
    qed
  qed
qed

section \<open>Every gate stands before the adapter\<close>

lemma place_with_log:
  assumes "place_with (traced env) retry q d t (gw, w) = (r, (gw', w'))"
    and retry: "\<And>f g v r' g' v'. retry = Some f \<Longrightarrow> f (g, v) = (r', (g', v')) \<Longrightarrow> grows (gates g q) v v'"
  shows "grows (\<lambda>cs. gates gw q cs \<and>
    (unplaced cs \<or> map_of (gw_idempotent_receipts gw) (lo_idempotency_key q) = None \<and> cleared (traced env) w gw q d t)) w w'"
proof -
  obtain v g where v: "validate_request (traced env) q t (view_of q d) w gw = (v, g)" by fastforce
  show ?thesis
  proof (cases "map_of (gw_idempotent_receipts gw) (lo_idempotency_key q) = None \<and> v = Inr None")
    case False
    then have "w' = w" using assms(1) by (auto simp: place_with_def v Let_def split: option.splits sum.splits prod.splits)
    then show ?thesis by (auto simp: gates_def intro: grows_silent)
  next
    case True
    then have c: "cleared (traced env) w gw q d t" using validated_iff_cleared v by blast
    have "gw_settings g = gw_settings gw"
      using validate_request_trimmed(1) [OF v] by (simp add: trimmed_def same_desk_def)
    then have gg: "gates g = gates gw" by (auto simp: gates_def room_def fun_eq_iff)
    obtain b g2 w2 where b: "try_block (traced env) retry q t (g, w) = (b, (g2, w2))" by (metis prod_cases3)
    have "grows (gates gw q) w w2" using try_block_log [OF b retry] by (simp add: gg)
    moreover have "w' = w2 \<or> grows unplaced w2 w'"
      using assms(1) True by (auto simp: place_with_def v bindS_def b finish_submission_def
          split: sum.splits submission.splits dest!: acknowledge_log)
    ultimately have "grows (gates gw q) w w'"
      using grows_trans [of "gates gw q" w w2 unplaced w' "gates gw q"] gates_append by blast
    then show ?thesis using c True by (auto simp: grows_def)
  qed
qed

text \<open>
  C5. An order reaches the exchange only behind every gate, and at most once per call. In the log
  of what a placement asks of the adapter there is at most one order, the requested one; then no
  receipt was remembered under its key, and the order was cleared: the live preflight is approved and within
  its time to live, the request is fresh and unexpired, its evidence is that of its signal and complete for its
  strategy, with trusted capabilities and stored source events none of which is too old, the signed
  cross-venue preflight is in force, healthy, funded and deep enough and agrees with the evidence and the
  binding of the signal, venue and symbol are enabled and eligible, the notional is within its limit, the
  risk decision is the named one and, for new exposure, allows the order and its size, is not stale, and the
  kill switch is clear; and fewer orders than the maximum were acknowledged within the last minute.
  Just before the order the adapter answered a health check with success, reported fewer open orders than the
  maximum, and reported positions that a reduce-only order strictly reduces.
\<close>

theorem placement_gated:
  assumes "place_order (traced env) q d (Aware t) (gw, w) = (r, (gw', w'))"
  shows "\<exists>calls. logged w' = logged w @ calls \<and> (placements calls = [] \<or>
    map_of (gw_idempotent_receipts gw) (lo_idempotency_key q) = None \<and> cleared (traced env) w gw q d t \<and>
    (\<exists>pre os ps post. calls = pre @ [Health True, Open_orders os, Positions ps, Place q] @ post \<and>
       placements pre = [] \<and> placements post = [] \<and>
       int (length os) < lv_maximum_open_orders (st_live (gw_settings gw)) \<and>
       reduce_only_failure q (find_position q ps) = None))"
proof -
  have inner: "grows (gates g q) v v'" if "place_with (traced env) None q d t (g, v) = (r', (g', v'))" for g v r' g' v'
    using place_with_log [OF that] by (auto simp: grows_def)
  have "place_with (traced env) (Some (place_with (traced env) None q d t)) q d t (gw, w) = (r, (gw', w'))"
    using assms by (simp add: place_order_def place_order_locked_def)
  from place_with_log [OF this] inner
  obtain cs where "logged w' = logged w @ cs" "gates gw q cs"
    "unplaced cs \<or> map_of (gw_idempotent_receipts gw) (lo_idempotency_key q) = None \<and> cleared (traced env) w gw q d t"
    unfolding grows_def by blast
  then show ?thesis unfolding gates_def room_def by blast
qed

end
