(* ===== verification/Gateway_Examples.thy ===== *)
theory Gateway_Examples
  imports Gateway_Trace
begin

text \<open>
  A desk with one venue pair and an exchange that accepts every order, on which the theorems about the
  live gateway apply.
\<close>

section \<open>A funding-carry order\<close>

definition hash64 :: string where
  "hash64 = replicate 64 CHR ''a''"

definition demo_source :: "string \<Rightarrow> string \<Rightarrow> SourceEventEvidence" where
  "demo_source venue kind =
     \<lparr>se_event_id = venue @ kind, se_venue = venue, se_symbol = ''BTC'', se_event_type = kind,
      se_exchange_timestamp = None, se_received_at = 90, se_available_at = 95, se_payload_sha256 = hash64,
      se_sequence = None, se_connection_id = None, se_reconciliation_state = Some SYNCHRONIZED,
      se_data_quality_score = 1\<rparr>"

definition demo_stored :: "SourceEventEvidence \<Rightarrow> StoredSourceEvent" where
  "demo_stored e =
     \<lparr>so_event_id = se_event_id e, so_venue = se_venue e, so_symbol = se_symbol e, so_event_type = se_event_type e,
      so_exchange_timestamp = map_option Aware (se_exchange_timestamp e), so_received_at = Aware (se_received_at e),
      so_available_at = Aware (se_available_at e), so_payload_sha256 = se_payload_sha256 e,
      so_sequence = se_sequence e, so_connection_id = se_connection_id e,
      so_reconciliation_state = se_reconciliation_state e, so_data_quality_score = se_data_quality_score e\<rparr>"

definition demo_kinds :: "string list" where
  "demo_kinds = [''funding_current'', ''orderbook_snapshot'']"

definition demo_events :: "string \<Rightarrow> StoredSourceEvent option" where
  "demo_events i = map_of (concat (map (\<lambda>v. map (\<lambda>k. (v @ k, demo_stored (demo_source v k))) demo_kinds)
     [''hyperliquid'', ''bitget''])) i"

definition demo_capability_evidence :: "string \<Rightarrow> string \<Rightarrow> CapabilityEvidence" where
  "demo_capability_evidence venue kind =
     \<lparr>ce_venue = venue, ce_capability = kind, ce_use_case = NEW_EXPOSURE, ce_support = LIVE_VERIFIED,
      ce_verified_at = 80, ce_verification_run_id = ''run'', ce_source_events = [demo_source venue kind],
      ce_adapter_version = ''1'', ce_source_version = ''1'', ce_contract_fixture_sha256 = hash64,
      ce_audit_run_id = ''audit''\<rparr>"

definition demo_trusted :: "string \<Rightarrow> string \<Rightarrow> TrustedCapabilityRecord" where
  "demo_trusted venue kind =
     \<lparr>tr_venue = venue, tr_capability = kind, tr_support = LIVE_VERIFIED, tr_verification_run_id = ''run'',
      tr_verified_at = Aware 80, tr_expires_at = Aware 1000, tr_adapter_version = ''1'', tr_source_version = ''1'',
      tr_contract_fixture_sha256 = hash64, tr_audit_run_id = ''audit'', tr_canonical_instrument_id = ''*''\<rparr>"

definition demo_registry :: TrustedCapabilityRegistry where
  "demo_registry = concat (map (\<lambda>v. map (\<lambda>k. ((v, k, ''*''), demo_trusted v k)) demo_kinds) [''hyperliquid'', ''bitget'']) @
     map (\<lambda>(_, k). ((''bitget'', k, ''*''), demo_trusted ''bitget'' k)) RECONCILIATION_CAPABILITIES"

definition demo_leg :: "string \<Rightarrow> string \<Rightarrow> LegDataEvidence" where
  "demo_leg role venue =
     \<lparr>le_role = role, le_venue = venue, le_capabilities = map (demo_capability_evidence venue) demo_kinds,
      le_evidence_hash = hash64\<rparr>"

definition demo_evidence :: CrossVenueSignalEvidence where
  "demo_evidence =
     \<lparr>xe_signal_id = ''signal-1'', xe_receive_leg = Some (demo_leg ''receive_leg'' ''hyperliquid''),
      xe_pay_leg = Some (demo_leg ''pay_leg'' ''bitget''), xe_evidence_hash = hash64\<rparr>"

definition demo_evidence_hashes :: evidence_digests where
  "demo_evidence_hashes = \<lparr>dg_capabilities = (\<lambda>_. hash64), dg_leg = (\<lambda>_ _ _. hash64), dg_signal = (\<lambda>_ _ _. hash64),
     dg_text = (\<lambda>_. hash64)\<rparr>"

definition demo_live_values :: preflight_values where
  "demo_live_values = demo_values\<lparr>v_issued_at := (Aware 90, ''t''), v_signal_id := ''signal-1'',
     v_receive_capability_hash := hash64, v_pay_capability_hash := hash64, v_receive_source_event_hash := hash64,
     v_pay_source_event_hash := hash64, v_receive_fillable_quantity := (5, ''5''),
     v_pay_fillable_quantity := (5, ''5''), v_created_at := (Aware 90, ''t''), v_expires_at := (Aware 200, ''u'')\<rparr>"

definition demo_live_preflight :: CrossVenueExecutionPreflight where
  "demo_live_preflight =
     (let payload = \<lparr>v_values = demo_live_values, v_issuer_id = ''desk'', v_commit_sha = ''abc''\<rparr> in
      \<lparr>cv_payload = payload, cv_preflight_hash = ''bitget'', cv_signature = ''bitget!''\<rparr>)"

definition demo_live_request :: LiveOrderRequest where
  "demo_live_request =
     \<lparr>lo_request_id = ''request-1'', lo_idempotency_key = ''idempotency-key-1'', lo_signal_id = ''signal-1'',
      lo_strategy_id = ''funding_carry'', lo_strategy_version = ''1'', lo_cross_venue_signal_evidence = demo_evidence,
      lo_cross_venue_signal_hash = hash64, lo_order_leg_role = ''pay_leg'',
      lo_order_leg_evidence = demo_leg ''pay_leg'' ''bitget'', lo_cross_venue_preflight = demo_live_preflight,
      lo_preflight_recovery_action = None, lo_required_capabilities = demo_kinds,
      lo_risk_decision_id = decision_id_text (''signal-1'', 96), lo_model_version = ''m'', lo_config_version = ''c'',
      lo_exchange = ''bitget'', lo_symbol = ''BTC'', lo_side = BUY, lo_quantity = 1, lo_reference_price = 50,
      lo_maximum_slippage_bps = 10, lo_order_type = MARKET, lo_limit_price = None, lo_reduce_only = False,
      lo_created_at = 97, lo_expires_at = 150\<rparr>"

section \<open>The desk and its exchange\<close>

definition demo_venue :: VenueSettings where
  "demo_venue = \<lparr>vs_data_enabled = True, vs_experimental_recording_enabled = False, vs_execution_enabled = True,
     vs_eligibility_status = ENABLED, vs_jurisdiction = ''JP'', vs_terms_checked_at = 0, vs_terms_version = None,
     vs_operator_account_verified = True, vs_api_market_data_available = True, vs_api_execution_available = True,
     vs_deposits_available = True, vs_withdrawals_available = True, vs_execution_smoke_test_passed = True,
     vs_requires_location_evasion = False, vs_reason = []\<rparr>"

definition demo_live_settings :: Settings where
  "demo_live_settings = demo_settings\<lparr>st_venues := [(''bitget'', demo_venue)]\<rparr>"

definition demo_report :: LivePreflightReport where
  "demo_report = evaluate_live_preflight demo_live_settings demo_context"

text \<open>The exchange keeps the orders it accepted.\<close>

definition demo_ack :: "LiveOrderRequest \<Rightarrow> ExecutionOrderAck" where
  "demo_ack q = \<lparr>ak_request_id = lo_request_id q, ak_external_order_id = Some ''x-1'', ak_state = Live_accepted,
     ak_accepted_at = 100, ak_reason = ''accepted'', ak_adapter_called = True\<rparr>"

definition demo_env :: "LiveOrderRequest list environment" where
  "demo_env =
     \<lparr>ad_name = ''bitget'', ad_is_concrete = True, ad_callable = (\<lambda>_. True),
      ad_health_check = (\<lambda>w. (Inr True, w)),
      ad_place_order = (\<lambda>q w. (Inr (demo_ack q), w\<lparr>wo_exchange := wo_exchange w @ [q]\<rparr>)),
      ad_cancel_order = (\<lambda>i w. (Inl (ExternalError ''NotFound''), w)), ad_cancel_all_orders = (\<lambda>w. (Inr [], w)),
      ad_fetch_open_orders = (\<lambda>_ w. (Inr [], w)), ad_fetch_positions = (\<lambda>w. (Inr [], w)),
      ad_fetch_recent_fills = (\<lambda>_ _ w. (Inr [], w)), ad_lookup_order = (\<lambda>_ w. (Inr None, w)),
      ad_close_position = (\<lambda>_ w. (Inl (ExternalError ''NotFound''), w)), others = (\<lambda>w. w), uuid_text = (\<lambda>_. ''id''),
      evidence_hashes = demo_evidence_hashes, preflight_hashes = demo_digests\<rparr>"

definition demo_gateway :: LiveExecutionGateway where
  "demo_gateway =
     \<lparr>gw_settings = demo_live_settings, gw_preflight = demo_report, gw_source_event_repository = Some demo_events,
      gw_trusted_capability_registry = Some demo_registry, gw_model_version = ''m'', gw_config_version = ''c'',
      gw_kill_switch_reason = None, gw_audit_events = [], gw_idempotent_receipts = [], gw_order_timestamps = [],
      gw_cross_venue_preflight_service = Some demo_service, gw_leg_execution_machine = None,
      gw_last_preflight_action = None\<rparr>"

lemma demo_report_ok: "pr_approved demo_report" "list_all ck_passed (pr_checks demo_report)"
  "set (map ck_name (pr_checks demo_report)) = required_checks" "pr_timestamp demo_report = 0"
  by code_simp+

lemma demo_gateway_init: "LiveExecutionGateway_init demo_env (\<lambda>_. 90) demo_live_settings demo_report (Some demo_events)
   (Some demo_registry) ''m'' ''c'' None (Some demo_service) (Some True) = Inr demo_gateway"
proof -
  have "validate_capability_loop demo_env demo_registry (\<lambda>_. 90) 0 RECONCILIATION_CAPABILITIES = Inr ()"
    by code_simp
  then show ?thesis
    using demo_report_ok
    by (simp add: LiveExecutionGateway_init_def demo_gateway_def validate_reconciliation_startup_def
        validate_preflight_integrity_def demo_env_def demo_live_settings_def demo_settings_def)
qed

definition demo_decision :: RiskDecision where
  "demo_decision = \<lparr>d_decision_id = (''signal-1'', 96), d_allowed = True, d_reasons = [], d_sizing =
     Some \<lparr>z_accepted = True, z_quantity = 2, z_notional = 100, z_risk_amount = 1, z_binding_constraint = ''risk'',
       z_candidate_notionals = [], z_reason = Text ''accepted''\<rparr>, d_evaluated_at = 96, d_breaker_reasons = []\<rparr>"

lemma demo_fresh: "freshness_failure demo_gateway demo_live_request 100 False = None"
  using demo_report_ok(1,4)
  by (simp add: freshness_failure_def Let_def demo_gateway_def demo_live_request_def demo_live_settings_def demo_settings_def seconds_def)

lemma demo_evidence_ok:
  assumes "evidence_hashes env = demo_evidence_hashes"
  shows "evidence_failure env demo_live_request = None"
proof -
  have "evidence_failure demo_env demo_live_request = None" by code_simp
  then show ?thesis unfolding evidence_failure_def using assms by (simp add: demo_env_def)
qed

lemma demo_legs: "first_rejection (validate_leg demo_gateway demo_live_request 100) (checked_legs demo_live_request) = Inr None"
  by code_simp

lemma demo_late: "late_failure demo_live_request 100 (view_of demo_live_request demo_decision) demo_gateway = (Inr None, demo_gateway)"
proof -
  have "eligibility_failure demo_gateway demo_live_request 100 = Inr None"
    "risk_failure demo_gateway demo_live_request 100 (view_of demo_live_request demo_decision) = None"
    "rate_failure demo_gateway = None" by code_simp+
  moreover have "trim_order_timestamps 100 demo_gateway = demo_gateway"
    by (simp add: trim_order_timestamps_def demo_gateway_def)
  ultimately show ?thesis by (simp add: late_failure_def Let_def)
qed

lemma demo_lo: "lo_cross_venue_signal_evidence demo_live_request = demo_evidence"
  "lo_cross_venue_preflight demo_live_request = demo_live_preflight"
  by (simp_all add: demo_live_request_def)

lemma demo_preflight_ok:
  assumes "evidence_hashes env = demo_evidence_hashes" "preflight_hashes env = demo_digests" "\<not> binding_conflict demo_live_request w"
  shows "validate_cross_venue_preflight env demo_live_request 100 w demo_gateway = (Inr None, demo_gateway)"
proof -
  let ?v = "v_values (cv_payload demo_live_preflight)"
  let ?r = "demo_leg ''receive_leg'' ''hyperliquid''" and ?p = "demo_leg ''pay_leg'' ''bitget''"
  have e: "verify demo_digests demo_service demo_live_preflight (Aware 100) = Inr ()"
    "preflight_in_force ?v 100 = Inr True" "preflight_limits_failure demo_live_request ?v = None"
    "v_signal_id ?v = lo_signal_id demo_live_request" "v_receive_venue ?v = le_venue ?r" "v_pay_venue ?v = le_venue ?p"
    by code_simp+
  have "preflight_hash_failure env ?r ?p ?v = None"
    using assms(1) by (simp add: preflight_hash_failure_def source_event_hash_def demo_evidence_hashes_def
        demo_live_preflight_def demo_live_values_def demo_leg_def Let_def)
  then show ?thesis
    using e assms(2,3)
    by (simp add: validate_cross_venue_preflight_def Let_def demo_gateway_def demo_evidence_def
        demo_lo)
qed

section \<open>The order is placed\<close>

definition demo_world :: "LiveOrderRequest list world" where
  "demo_world = \<lparr>wo_bindings = [], wo_exchange = []\<rparr>"

lemma demo_valid:
  assumes "evidence_hashes env = demo_evidence_hashes" "preflight_hashes env = demo_digests" "\<not> binding_conflict demo_live_request w"
  shows "validate_request env demo_live_request 100 (view_of demo_live_request demo_decision) w demo_gateway = (Inr None, demo_gateway)"
  using demo_fresh demo_evidence_ok [OF assms(1)] demo_legs demo_preflight_ok [OF assms] demo_late
  by (simp add: validate_request_def view_of_def)

lemma demo_fields: "lo_signal_id demo_live_request = ''signal-1''" "lo_request_id demo_live_request = ''request-1''"
  "lo_exchange demo_live_request = ''bitget''" "lo_symbol demo_live_request = ''BTC''" "\<not> lo_reduce_only demo_live_request"
  "lo_order_leg_role demo_live_request = ''pay_leg''" "lo_preflight_recovery_action demo_live_request = None"
  "lo_idempotency_key demo_live_request = ''idempotency-key-1''" "request_hash demo_live_request = ''bitget''"
  by (simp_all add: demo_live_request_def request_hash_def demo_live_preflight_def Let_def)

lemma demo_gateway_fields: "gw_idempotent_receipts demo_gateway = []"
  "lv_maximum_open_orders (st_live (gw_settings demo_gateway)) = 3" "gw_order_timestamps demo_gateway = []"
  "ack_times demo_gateway = []" "gw_audit_events demo_gateway = []"
  by (simp_all add: demo_gateway_def demo_live_settings_def demo_settings_def ack_times_def)

lemmas demo_place_simps = place_order_def place_order_locked_def place_with_def try_block_def finish_submission_def
  bindS_def reserve_preflight_def preflight_binding_def mem_get_def unbound_def new_binding_def cas_answer_def
  cas_binding_def mem_compare_and_set_def version_of_def submit_reserved_def submit_checked_def find_position_def
  record_position_snapshot_def PositionReconciliationSnapshot_init_def bind_transition_def reduce_only_failure_def
  acknowledge_def record_preflight_ack_def Let_def

lemma demo_env_fields: "ad_health_check demo_env w = (Inr True, w)"
  "ad_place_order demo_env q w = (Inr (demo_ack q), w\<lparr>wo_exchange := wo_exchange w @ [q]\<rparr>)"
  "ad_fetch_open_orders demo_env i w = (Inr [], w)" "ad_fetch_positions demo_env w = (Inr [], w)" "others demo_env w = w"
  "evidence_hashes demo_env = demo_evidence_hashes" "preflight_hashes demo_env = demo_digests"
  "ad_fetch_recent_fills demo_env sy t w = (Inr [], w)" "ad_lookup_order demo_env i' w = (Inr None, w)"
  by (simp_all add: demo_env_def)

lemma demo_world_fields: "wo_bindings demo_world = []" "wo_exchange demo_world = []"
  by (simp_all add: demo_world_def)

lemma demo_ack_fields: "ak_request_id (demo_ack q) = lo_request_id q" "ak_external_order_id (demo_ack q) = Some ''x-1''"
  "ak_state (demo_ack q) = Live_accepted"
  by (simp_all add: demo_ack_def)

lemma demo_placed:
  "\<exists>w1. place_order demo_env demo_live_request demo_decision (Aware 100) (demo_gateway, demo_world) =
     (Inr (demo_ack demo_live_request),
      (acknowledged demo_env demo_live_request (demo_ack demo_live_request) 100 demo_gateway, w1)) \<and>
   bi_state (preflight_binding ''signal-1'' w1) = FIRST_LEG_ACCEPTED \<and> wo_exchange w1 = [demo_live_request]"
proof -
  have "\<not> binding_conflict demo_live_request demo_world" by (simp add: binding_conflict_def demo_world_def mem_get_def)
  then have v: "validate_request demo_env demo_live_request 100 (view_of demo_live_request demo_decision) demo_world demo_gateway =
    (Inr None, demo_gateway)" by (intro demo_valid) (simp_all add: demo_env_fields)
  show ?thesis
    by (simp add: demo_place_simps v demo_gateway_fields demo_fields demo_world_fields demo_env_fields demo_ack_fields)
qed

lemma traced_env_fields: "ad_health_check (traced demo_env) w = (Inr True, relog (plain w) (logged w @ [Health True]))"
  "ad_place_order (traced demo_env) q w =
     (Inr (demo_ack q), relog ((plain w)\<lparr>wo_exchange := wo_exchange (plain w) @ [q]\<rparr>) (logged w @ [Place q]))"
  "ad_fetch_open_orders (traced demo_env) i w = (Inr [], relog (plain w) (logged w @ [Open_orders []]))"
  "ad_fetch_positions (traced demo_env) w = (Inr [], relog (plain w) (logged w @ [Positions []]))"
  "others (traced demo_env) w = relog (plain w) (logged w)"
  "evidence_hashes (traced demo_env) = demo_evidence_hashes" "preflight_hashes (traced demo_env) = demo_digests"
  by (simp_all add: traced_def demo_env_def trace_call_def)

lemma relog_fields: "wo_bindings (relog w cs) = wo_bindings w" "wo_bindings (plain v) = wo_bindings v"
  by (simp_all add: relog_def plain_def)

lemma demo_traced:
  "\<exists>g w'. place_order (traced demo_env) demo_live_request demo_decision (Aware 100) (demo_gateway, relog demo_world []) =
     (Inr (demo_ack demo_live_request), (g, w')) \<and>
   logged w' = [Health True, Open_orders [], Positions [], Place demo_live_request]"
proof -
  have "\<not> binding_conflict demo_live_request (relog demo_world [])"
    by (simp add: binding_conflict_def relog_fields demo_world_fields mem_get_def)
  then have v: "validate_request (traced demo_env) demo_live_request 100 (view_of demo_live_request demo_decision)
      (relog demo_world []) demo_gateway = (Inr None, demo_gateway)"
    by (intro demo_valid) (simp_all add: traced_env_fields)
  show ?thesis
    by (simp add: demo_place_simps v demo_gateway_fields demo_fields demo_world_fields traced_env_fields demo_ack_fields relog_fields)
qed

theorem placement_gated_witness:
  "\<exists>g w'. place_order (traced demo_env) demo_live_request demo_decision (Aware 100) (demo_gateway, relog demo_world []) =
     (Inr (demo_ack demo_live_request), (g, w')) \<and> placements (logged w') = [demo_live_request] \<and>
   cleared (traced demo_env) (relog demo_world []) demo_gateway demo_live_request demo_decision 100"
proof -
  obtain g w' where p: "place_order (traced demo_env) demo_live_request demo_decision (Aware 100) (demo_gateway, relog demo_world []) =
     (Inr (demo_ack demo_live_request), (g, w'))"
    and l: "logged w' = [Health True, Open_orders [], Positions [], Place demo_live_request]" using demo_traced by blast
  from placement_gated [OF p] have "cleared (traced demo_env) (relog demo_world []) demo_gateway demo_live_request demo_decision 100" by (auto simp: l)
  then show ?thesis using p l by auto
qed

definition demo_after :: "live_op list \<Rightarrow> LiveOrderRequest list live" where
  "demo_after ops = fold (live_step demo_env) ops (demo_gateway, demo_world)"

definition demo_place :: live_op where
  "demo_place = Op_place demo_live_request demo_decision (Aware 100)"

theorem receipts_idempotent_witness:
  "\<exists>g. place_order demo_env demo_live_request demo_decision (Aware 103) (demo_after [demo_place, Op_kill ''stop'' (Aware 101)]) =
     (Inr (demo_ack demo_live_request), (g, snd (demo_after [demo_place, Op_kill ''stop'' (Aware 101)])))"
proof -
  obtain s1 where p: "place_order demo_env demo_live_request demo_decision (Aware 100) (demo_gateway, demo_world) =
     (Inr (demo_ack demo_live_request), s1)" using demo_placed by blast
  have f: "fold (live_step demo_env) [Op_kill ''stop'' (Aware 101)] s1 = demo_after [demo_place, Op_kill ''stop'' (Aware 101)]"
    by (simp add: demo_after_def demo_place_def p)
  obtain g v where gv: "demo_after [demo_place, Op_kill ''stop'' (Aware 101)] = (g, v)" by fastforce
  from receipts_idempotent [OF p refl f [unfolded gv], of demo_decision 103] show ?thesis by (auto simp: gv)
qed

theorem kill_switch_blocks_exposure_witness:
  "let s = demo_after [Op_kill ''stop'' (Aware 99)]; (answer, s') = place_order demo_env demo_live_request demo_decision (Aware 100) s in
     snd s' = snd s \<and> answer \<noteq> Inr (demo_ack demo_live_request) \<and> wo_exchange (snd s') = []"
proof -
  obtain r s1 where k: "live_kill_switch demo_env ''stop'' (Aware 99) (demo_gateway, demo_world) = (r, s1)" by (metis surj_pair)
  obtain g v where s1: "s1 = (g, v)" by fastforce
  have v: "v = demo_world" "gw_idempotent_receipts g = []"
    using k by (auto simp: s1 live_kill_switch_def Let_def demo_env_def strip_def is_space_def live_audit_def
        demo_gateway_fields split: if_splits)
  have after: "demo_after [Op_kill ''stop'' (Aware 99)] = (g, v)" by (simp add: demo_after_def k s1)
  obtain answer g' v' where p: "place_order demo_env demo_live_request demo_decision (Aware 100) (g, v) = (answer, (g', v'))"
    by (metis prod_cases3)
  have "v' = v \<and> (\<forall>receipt. answer = Inr receipt \<longrightarrow> ak_state receipt = Live_rejected \<and> \<not> ak_adapter_called receipt)"
  proof (rule kill_switch_blocks_exposure [OF k [unfolded s1] _ _ p])
    show "strip ''stop'' \<noteq> []" by code_simp
    show "fold (live_step demo_env) [] (g, v) = (g, v)" by simp
    show "\<not> lo_reduce_only demo_live_request" by (rule demo_fields)
    show "map_of (gw_idempotent_receipts g) (lo_idempotency_key demo_live_request) = None" by (simp add: v)
  qed
  then show ?thesis using p by (auto simp: after v(1) Let_def demo_ack_def demo_world_fields)
qed

theorem rate_limit_holds_witness:
  "ack_times (fst (demo_after [demo_place])) = [100] \<and>
   int (length (minute 110 (ack_times (fst (demo_after [demo_place]))))) \<le> 5"
proof -
  obtain w1 where p: "place_order demo_env demo_live_request demo_decision (Aware 100) (demo_gateway, demo_world) =
     (Inr (demo_ack demo_live_request),
      (acknowledged demo_env demo_live_request (demo_ack demo_live_request) 100 demo_gateway, w1))" using demo_placed by blast
  let ?g = "acknowledged demo_env demo_live_request (demo_ack demo_live_request) 100 demo_gateway"
  have f: "fold (live_step demo_env) [demo_place] (demo_gateway, demo_world) = (?g, w1)" by (simp add: demo_place_def p)
  have "sorted (op_times [demo_place])" by (simp add: op_times_def demo_place_def)
  moreover have m: "lv_maximum_orders_per_minute (st_live demo_live_settings) = 5"
    by (simp add: demo_live_settings_def demo_settings_def)
  ultimately have "int (length (minute 110 (ack_times ?g))) \<le> 5"
    using rate_limit_holds [OF demo_gateway_init _ f, of 110] by simp
  moreover have "ack_times ?g = [100]" using acknowledged_sends [of demo_live_request "demo_ack demo_live_request" 100 demo_gateway demo_env]
    by (simp add: sends_def demo_gateway_fields)
  ultimately show ?thesis by (simp add: demo_after_def f [simplified])
qed

end
