(* ===== verification/Gateway_Safety.thy ===== *)
theory Gateway_Safety
  imports Gateway_Protocol Gateway_Examples
begin

text \<open>
  What reconciliation decides from a snapshot of the exchange, a gateway that was not approved, and
  \<open>DisabledExecutionAdapter\<close> of \<open>src/app/adapters/exchanges/disabled.py\<close>; the two ways in which a
  binding can lose track of an order; and the concrete instances of the protocol theorems.
\<close>

section \<open>The verdict of a reconciliation\<close>

lemma transition_alone:
  assumes "others env = id" "bindings_wf w" "cur = preflight_binding k w"
    "\<And>b. bi_signal_id (up b) = bi_signal_id b \<and> bi_version (up b) = bi_version b \<and> bi_state (up b) = bi_state b"
  shows "\<exists>w'. bind_transition env cur st t f up w = (Inr (), w') \<and> bi_state (preflight_binding k w') = st \<and>
    bi_version (preflight_binding k w') = bi_version cur + 1"
proof -
  let ?b = "up (cur\<lparr>bi_state := st, bi_version := bi_version cur + 1, bi_updated_at := Some (Aware t), bi_failure_reason := f\<rparr>)"
  have b: "bi_signal_id ?b = k" "bi_version ?b = bi_version cur + 1" "bi_state ?b = st"
    using assms(2-4) by (simp_all add: bindings_wf_def)
  then have "cas_binding env cur ?b w = (True, w\<lparr>wo_bindings := dict_set k ?b (wo_bindings w)\<rparr>)"
    using assms(1,3) version_of_binding [of w k]
    by (simp add: cas_binding_def mem_compare_and_set_def mem_get_def Let_def)
  then show ?thesis using b by (simp add: bind_transition_def Let_def preflight_binding_set)
qed

text \<open>
  C30. Reconciliation is decisive and careful: on a binding that requires it, with no other
  process around, it always ends, one version later, in one of five states. The leg is released for a
  new submission (aborted, or hedging for a second leg) only if the exchange shows no fill, no open
  order and an unchanged position, and knows the order at most as canceled, rejected or expired; it is
  taken as placed (first leg accepted, or completed) only on positive evidence whose fills are distinct,
  within the quantity and equal to the change of position; everything else is halted.
\<close>

theorem reconciliation_verdict:
  assumes "others env = id" "bindings_wf w" "bi_state (preflight_binding (lo_signal_id q) w) = RECONCILIATION_REQUIRED"
  shows "\<exists>w'. apply_reconciliation_snapshot env q sn t w = (Inr (), w') \<and>
    (let b = preflight_binding (lo_signal_id q) w; b' = preflight_binding (lo_signal_id q) w';
         second = (bi_second_order_request_id b = Some (lo_request_id q)) in
     bi_version b' = bi_version b + 1 \<and>
     bi_state b' \<in> {if second then BINDING_COMPLETED else FIRST_LEG_ACCEPTED, if second then HEDGING_REQUIRED else ABORTED,
       BINDING_HALTED} \<and>
     (bi_state b' \<in> {HEDGING_REQUIRED, ABORTED} \<longrightarrow>
        rs_matching_fills sn = [] \<and> rs_matching_open_orders sn = [] \<and> position_delta q sn = Some 0 \<and>
        (\<forall>x. rs_client_order sn = Some x \<longrightarrow> client_order_matches q sn \<and> ro_status x \<in> {Rec_canceled, Rec_rejected, Rec_expired})) \<and>
     (bi_state b' \<in> {BINDING_COMPLETED, FIRST_LEG_ACCEPTED} \<longrightarrow>
        snapshot_proves_order_exists q sn \<and> length (rs_matching_open_orders sn) \<le> 1 \<and>
        (rs_matching_fills sn \<noteq> [] \<longrightarrow> distinct (map xf_fill_id (rs_matching_fills sn)) \<and>
           filled_total sn \<le> lo_quantity q \<and> fills_match_position_delta q sn) \<and>
        (rs_matching_fills sn = [] \<longrightarrow> position_delta q sn \<in> {None, Some 0})))"
proof -
  let ?c = "preflight_binding (lo_signal_id q) w"
  let ?second = "bi_second_order_request_id ?c = Some (lo_request_id q)"
  note tr = transition_alone [OF assms(1,2) refl, where k = "lo_signal_id q"]
  consider (ambiguous) "snapshot_is_ambiguous q sn"
    | (exists) "\<not> snapshot_is_ambiguous q sn" "snapshot_proves_order_exists q sn"
    | (absent) "\<not> snapshot_is_ambiguous q sn" "\<not> snapshot_proves_order_exists q sn" "snapshot_proves_order_absent q sn"
    | (unknown) "\<not> snapshot_is_ambiguous q sn" "\<not> snapshot_proves_order_exists q sn" "\<not> snapshot_proves_order_absent q sn"
    by blast
  then show ?thesis
  proof cases
    case ambiguous
    then show ?thesis using tr [where up = id and st = BINDING_HALTED and t = t] assms(3)
      by (fastforce simp: apply_reconciliation_snapshot_def Let_def)
  next
    case exists
    have ev: "length (rs_matching_open_orders sn) \<le> 1" "rs_matching_fills sn \<noteq> [] \<Longrightarrow> distinct (map xf_fill_id (rs_matching_fills sn)) \<and>
           filled_total sn \<le> lo_quantity q \<and> fills_match_position_delta q sn"
      "rs_matching_fills sn = [] \<Longrightarrow> position_delta q sn \<in> {None, Some 0}"
      using exists(1) by (auto simp: snapshot_is_ambiguous_def Let_def split: if_splits)
    show ?thesis
    proof (cases ?second)
      case True
      then show ?thesis using tr [where up = "\<lambda>b. b\<lparr>bi_second_external_order_id := snapshot_external_order_id q sn\<rparr>" and st = BINDING_COMPLETED and t = t]
          exists assms(3) ev by (fastforce simp: apply_reconciliation_snapshot_def Let_def)
    next
      case False
      then show ?thesis
        using tr [where up = "\<lambda>b. b\<lparr>bi_first_leg_role := Some (lo_order_leg_role q),
            bi_first_order_request_id := Some (lo_request_id q),
            bi_first_external_order_id := snapshot_external_order_id q sn\<rparr>" and st = FIRST_LEG_ACCEPTED and t = t]
          exists assms(3) ev by (fastforce simp: apply_reconciliation_snapshot_def Let_def)
    qed
  next
    case absent
    have "rs_matching_fills sn = [] \<and> rs_matching_open_orders sn = [] \<and> position_delta q sn = Some 0"
      "\<And>x. rs_client_order sn = Some x \<Longrightarrow> client_order_matches q sn \<and> ro_status x \<in> {Rec_canceled, Rec_rejected, Rec_expired}"
      using absent
      by (auto simp: snapshot_proves_order_absent_def snapshot_proves_order_exists_def snapshot_is_ambiguous_def Let_def
          split: if_splits option.splits intro: ReconciledOrderStatus.exhaust)
    then show ?thesis using tr [where up = id and st = "if ?second then HEDGING_REQUIRED else ABORTED" and t = t] absent assms(3)
      by (cases ?second) (fastforce simp: apply_reconciliation_snapshot_def Let_def)+
  next
    case unknown
    then show ?thesis using tr [where up = id and st = BINDING_HALTED and t = t] assms(3)
      by (fastforce simp: apply_reconciliation_snapshot_def Let_def)
  qed
qed

section \<open>A gateway that was not approved\<close>

fun order_op :: "live_op \<Rightarrow> bool" where
  "order_op (Op_reconcile q t) = False"
| "order_op (Op_halt k reason t) = False"
| "order_op _ = True"

definition refused :: "LiveExecutionGateway \<Rightarrow> bool" where
  "refused gw \<longleftrightarrow> (\<forall>key receipt. map_of (gw_idempotent_receipts gw) key = Some receipt \<longrightarrow>
     ak_state receipt = Live_rejected \<and> \<not> ak_adapter_called receipt)"

lemma unapproved_place:
  assumes "\<not> pr_approved (gw_preflight gw)" "place_order env q d t (gw, w) = (r, (gw', w'))" "refused gw"
  shows "w' = w \<and> refused gw'"
proof (cases t)
  case (Aware u)
  have "freshness_failure gw q u False = Some ''live preflight is not approved''"
    using assms(1) by (simp add: freshness_failure_def Let_def)
  then have v: "validate_request env q u (view_of q d) w gw = (Inr (Some ''live preflight is not approved''), gw)"
    by (simp add: validate_request_def view_of_def)
  show ?thesis using assms(2,3)
    by (auto simp: Aware place_order_def place_order_locked_def place_with_def v refused_def reject_and_remember_def Let_def
        rejection_def remember_def live_audit_def split: option.splits if_splits)
qed (use assms in \<open>auto simp: place_order_def\<close>)

lemma preview_receipts:
  assumes "preview_order env q t (gw, w) = (r, (gw', w'))"
  shows "w' = w \<and> gw_idempotent_receipts gw' = gw_idempotent_receipts gw"
proof (cases t)
  case (Aware u)
  have "w' = w" using assms by (auto simp: preview_order_def Let_def split: sum.splits prod.splits)
  moreover have "gw_idempotent_receipts gw' = gw_idempotent_receipts gw"
    using preview_trimmed [OF assms [unfolded Aware]] by (auto simp: trimmed_def quiet_def)
  ultimately show ?thesis by simp
qed (use assms in \<open>simp add: preview_order_def\<close>)

lemma unapproved_step:
  assumes "\<not> pr_approved (gw_preflight gw)" "refused gw" "order_op a" "live_step env a (gw, w) = (gw', w')"
  shows "w' = w \<and> refused gw'"
proof (cases a)
  case (Op_place q d t)
  then show ?thesis using assms unapproved_place [OF assms(1) _ assms(2), of env q d t w]
    by (cases "place_order env q d t (gw, w)") auto
next
  case (Op_preview q t)
  then show ?thesis using assms(2,4)
    by (cases "preview_order env q t (gw, w)") (auto simp: refused_def dest!: preview_receipts)
qed (use assms in \<open>auto simp: live_cancel_order_def live_kill_switch_def live_close_position_def require_approved_def Let_def
    refused_def live_audit_def bindE_def raise_if_def split: sum.splits prod.splits if_splits\<close>)

lemma unapproved_run:
  assumes "\<not> pr_approved (gw_preflight gw)" "refused gw" "list_all order_op ops" "fold (live_step env) ops (gw, w) = (gw', w')"
  shows "w' = w \<and> refused gw'"
  using assms
proof (induction ops arbitrary: gw)
  case (Cons a ops)
  obtain g v where a: "live_step env a (gw, w) = (g, v)" by fastforce
  have "v = w" "refused g" using unapproved_step [OF Cons.prems(1,2) _ a] Cons.prems(3) by auto
  moreover have "\<not> pr_approved (gw_preflight g)"
    using live_step_steps [OF a] Cons.prems(1) by (simp add: desk_step_def)
  ultimately show ?case using Cons.IH [of g] Cons.prems(3,4) by (simp add: a)
qed simp

section \<open>How a binding can lose track of an order\<close>

text \<open>
  An order of the second leg that is turned away after its reservation, for instance because too many
  orders are open, leaves the binding aborted although the first leg stands: the next order of the
  first leg reserves it afresh, and nothing of the accepted leg is left on it.
\<close>

definition demo_bound :: "PreflightBinding \<Rightarrow> LiveOrderRequest list world" where
  "demo_bound b = \<lparr>wo_bindings = [(''signal-1'', b)], wo_exchange = [demo_live_request]\<rparr>"

definition demo_first :: PreflightBinding where
  "demo_first = (new_binding ''signal-1'' ''bitget'' FIRST_LEG_ACCEPTED 100)
     \<lparr>bi_first_leg_role := Some ''pay_leg'', bi_first_order_request_id := Some ''request-1'',
      bi_first_external_order_id := Some ''x-1'', bi_version := 3\<rparr>"

definition demo_second_request :: LiveOrderRequest where
  "demo_second_request = demo_live_request\<lparr>lo_request_id := ''request-2'', lo_order_leg_role := ''receive_leg''\<rparr>"

lemma demo_second_fields: "lo_signal_id demo_second_request = ''signal-1''" "lo_request_id demo_second_request = ''request-2''"
  "lo_order_leg_role demo_second_request = ''receive_leg''" "lo_preflight_recovery_action demo_second_request = None"
  "request_hash demo_second_request = ''bitget''"
  by (simp_all add: demo_second_request_def demo_live_request_def request_hash_def demo_live_preflight_def Let_def)

theorem second_leg_abort_forgets_first_leg:
  "let (reserved, w1) = reserve_preflight demo_env demo_second_request 101 (demo_bound demo_first);
       (aborted, w2) = abort_preflight demo_env demo_second_request 101 ''maximum open order count reached'' w1;
       (again, w3) = reserve_preflight demo_env demo_live_request 102 w2;
       b = preflight_binding ''signal-1'' w3
   in reserved = None \<and> aborted = Inr () \<and> again = None \<and>
      bi_state b = RESERVED \<and> bi_first_leg_role b = None \<and> bi_first_external_order_id b = None"
  by (simp add: demo_place_simps abort_preflight_def second_leg_binding_def demo_bound_def demo_first_def demo_fields demo_second_fields demo_env_fields)

text \<open>
  With two gateway processes on one repository, a halt does not hold: while the first process waits for
  the acknowledgement of its order, the second finds the binding reserved, marks it for reconciliation,
  and an operator halts it; the late acknowledgement then moves the halted binding to an accepted first
  leg, because it is recorded whatever the state of the binding is.
\<close>

theorem late_acknowledgement_revives_halted:
  "let (reserved, w1) = reserve_preflight demo_env demo_live_request 100 demo_world;
       (marked, w2) = ensure_reconciliation_required demo_env demo_second_request (unbound ''signal-1'') 101 ''CAS conflict'' w1;
       (halted, w3) = halt_binding demo_env ''signal-1'' ''operator'' (Aware 102) w2;
       (recorded, w4) = record_preflight_ack demo_env demo_live_request (demo_ack demo_live_request) 103 w3
   in reserved = None \<and> bi_state (preflight_binding ''signal-1'' w3) = BINDING_HALTED \<and>
      recorded = Inr () \<and> bi_state (preflight_binding ''signal-1'' w4) = FIRST_LEG_ACCEPTED"
  by (simp add: demo_place_simps ensure_reconciliation_required_def halt_binding_def demo_fields demo_second_fields
      demo_env_fields demo_world_fields demo_ack_fields)

section \<open>Concrete instances\<close>

lemma same_bindings_spares: "wo_bindings w' = wo_bindings w \<Longrightarrow> along w w' \<and> untouched w w'"
  by (simp add: along_def untouched_def preflight_binding_def)

lemma demo_rely: "rely demo_env"
  unfolding rely_def
  by (intro allI impI, rule same_bindings_spares, erule surrounding.cases) (simp_all add: demo_env_def)

definition demo_pending :: "LiveOrderRequest list world" where
  "demo_pending = demo_bound ((new_binding ''signal-1'' ''bitget'' RECONCILIATION_REQUIRED 100)
     \<lparr>bi_first_order_request_id := Some ''request-1'',
      bi_position_snapshot := Some \<lparr>ps_venue = ''bitget'', ps_symbol = ''BTC'', ps_quantity_before = 0, ps_captured_at = 99\<rparr>\<rparr>)"

lemma demo_wf: "bindings_wf demo_pending" "bindings_wf demo_world"
  by (simp_all add: bindings_wf_def demo_pending_def demo_bound_def demo_world_def preflight_binding_def mem_get_def
      new_binding_def unbound_def)

theorem recovery_keeps_flight_witness:
  "let (g, w) = live_step demo_env (Op_halt ''signal-1'' ''operator'' (Aware 102)) (demo_gateway, demo_pending) in
     g = demo_gateway \<and> spares demo_env demo_pending w \<and> bi_state (preflight_binding ''signal-1'' w) = BINDING_HALTED"
proof -
  obtain g w where s: "live_step demo_env (Op_halt ''signal-1'' ''operator'' (Aware 102)) (demo_gateway, demo_pending) = (g, w)"
    by (metis surj_pair)
  have "g = demo_gateway \<and> spares demo_env demo_pending w \<and> bindings_wf w"
    by (rule recovery_keeps_flight [OF demo_rely demo_wf(1) disjI2 s]) (rule refl)
  moreover have "bi_state (preflight_binding ''signal-1'' w) = BINDING_HALTED"
    using s by (auto simp: halt_binding_def demo_place_simps demo_pending_def demo_bound_def demo_env_fields)
  ultimately show ?thesis by (simp only: s split_conv Let_def)
qed

theorem bindings_follow_protocol_witness:
  "advance (unbound ''signal-1'') (preflight_binding ''signal-1'' (snd (demo_after [demo_place]))) \<and>
   bi_state (preflight_binding ''signal-1'' (snd (demo_after [demo_place]))) = FIRST_LEG_ACCEPTED"
proof -
  obtain g w where w: "fold (live_step demo_env) [demo_place] (demo_gateway, demo_world) = (g, w)"
    "bi_state (preflight_binding ''signal-1'' w) = FIRST_LEG_ACCEPTED"
    using demo_placed by (auto simp: demo_place_def)
  have "preflight_binding ''signal-1'' demo_world = unbound ''signal-1''"
    by (simp add: preflight_binding_def mem_get_def demo_world_fields)
  then show ?thesis using bindings_follow_protocol [OF demo_rely demo_wf(2) w(1), of "''signal-1''"] w
    by (simp add: demo_after_def)
qed

definition demo_snapshot :: ExchangeReconciliationSnapshot where
  "demo_snapshot = \<lparr>rs_binding = preflight_binding ''signal-1'' demo_pending, rs_client_order = None, rs_matching_fills = [],
     rs_matching_open_orders = [], rs_positions = [], rs_captured_at = 110\<rparr>"

theorem reconciliation_verdict_witness:
  "\<exists>w'. apply_reconciliation_snapshot demo_env demo_live_request demo_snapshot 110 demo_pending = (Inr (), w') \<and>
     bi_state (preflight_binding ''signal-1'' w') \<in> {FIRST_LEG_ACCEPTED, ABORTED, BINDING_HALTED} \<and>
     bi_version (preflight_binding ''signal-1'' w') = 2"
proof -
  have o: "others demo_env = id" by (simp add: demo_env_def id_def)
  have b: "preflight_binding ''signal-1'' demo_pending = snd (hd (wo_bindings demo_pending))"
    by (simp add: demo_pending_def demo_bound_def preflight_binding_def mem_get_def)
  have st: "bi_state (preflight_binding (lo_signal_id demo_live_request) demo_pending) = RECONCILIATION_REQUIRED"
    "bi_second_order_request_id (preflight_binding ''signal-1'' demo_pending) = None"
    "bi_version (preflight_binding ''signal-1'' demo_pending) = 1"
    by (simp_all add: demo_fields b) (simp_all add: demo_pending_def demo_bound_def new_binding_def)
  from reconciliation_verdict [OF o demo_wf(1) st(1), of demo_snapshot 110] show ?thesis
    by (auto simp: demo_fields st Let_def)
qed

end
