(* ===== verification/Json_Text.thy ===== *)
theory Json_Text
  imports Prelude
begin

text \<open>
  What the program uses of Python's \<open>json\<close> module as text: \<open>json.dumps\<close> of strings, of
  tuples of strings (default separators) and of objects whose values are already encoded
  (\<open>sort_keys=True, separators=(",", ":")\<close>), and \<open>json.loads\<close> of an array of strings.
  Characters are the code points below 256 that \<open>string\<close> has; \<open>ensure_ascii\<close> is the default,
  so everything outside printable ASCII is escaped. An escape of a code point above 255 has no
  counterpart here and is refused by the model's decoder.

  The lemmas show that encoding is a prefix code: a decoder started on an encoded string gives it
  back with the rest of the input, from which the round trip of the array columns and the
  injectivity of the digests' payloads follow.
\<close>

section \<open>Encoding\<close>

abbreviation quote_char :: char where "quote_char \<equiv> CHR 0x22"
abbreviation backslash :: char where "backslash \<equiv> CHR 0x5C"

definition hex_digit :: "nat \<Rightarrow> char" where
  "hex_digit n = (if n < 10 then char_of (48 + n) else char_of (87 + n))"

definition json_escape :: "char \<Rightarrow> string" where
  "json_escape c =
     (if c = quote_char \<or> c = backslash then [backslash, c]
      else if c = CHR 0x0A then [backslash, CHR ''n'']
      else if c = CHR 0x0D then [backslash, CHR ''r'']
      else if c = CHR 0x09 then [backslash, CHR ''t'']
      else if c = CHR 0x0C then [backslash, CHR ''f'']
      else if c = CHR 0x08 then [backslash, CHR ''b'']
      else if (32::nat) \<le> of_char c \<and> of_char c \<le> (126::nat) then [c]
      else [backslash, CHR ''u'', CHR ''0'', CHR ''0'',
            hex_digit (of_char c div 16), hex_digit (of_char c mod 16)])"

definition json_string :: "string \<Rightarrow> string" where
  "json_string s = quote_char # concat (map json_escape s) @ [quote_char]"

fun join :: "string \<Rightarrow> string list \<Rightarrow> string" where
  "join sep [] = []"
| "join sep [x] = x"
| "join sep (x # y # xs) = x @ sep @ join sep (y # xs)"

definition json_array :: "string \<Rightarrow> string list \<Rightarrow> string" where
  "json_array sep items = ''['' @ join sep items @ '']''"

definition json_strings :: "string list \<Rightarrow> string" where
  "json_strings xs = json_array '', '' (map json_string xs)"

text \<open>\<open>sort_keys\<close> sorts the fields by key; equal keys do not occur in a dictionary.\<close>

definition json_object :: "(string \<times> string) list \<Rightarrow> string" where
  "json_object fields =
     ''{'' @ join '','' (map (\<lambda>(k, v). json_string k @ '':'' @ v) (sort_key fst fields)) @ ''}''"

section \<open>Decoding\<close>

definition hex_value :: "char \<Rightarrow> nat option" where
  "hex_value c =
     (let n = of_char c :: nat in
      if 48 \<le> n \<and> n \<le> 57 then Some (n - 48)
      else if 97 \<le> n \<and> n \<le> 102 then Some (n - 87)
      else if 65 \<le> n \<and> n \<le> 70 then Some (n - 55)
      else None)"

definition hex4 :: "char \<Rightarrow> char \<Rightarrow> char \<Rightarrow> char \<Rightarrow> char option" where
  "hex4 a b c d =
     (case (hex_value a, hex_value b, hex_value c, hex_value d) of
        (Some w, Some x, Some y, Some z) \<Rightarrow>
          (let n = ((w * 16 + x) * 16 + y) * 16 + z in if n < 256 then Some (char_of n) else None)
      | _ \<Rightarrow> None)"

definition unescape :: "char \<Rightarrow> char option" where
  "unescape e =
     (if e = quote_char \<or> e = backslash \<or> e = CHR ''/'' then Some e
      else if e = CHR ''n'' then Some (CHR 0x0A)
      else if e = CHR ''r'' then Some (CHR 0x0D)
      else if e = CHR ''t'' then Some (CHR 0x09)
      else if e = CHR ''f'' then Some (CHR 0x0C)
      else if e = CHR ''b'' then Some (CHR 0x08)
      else None)"

text \<open>\<open>scan_char\<close> reads one possibly escaped character; control characters must be escaped.\<close>

fun scan_char :: "string \<Rightarrow> (char \<times> string) option" where
  "scan_char [] = None"
| "scan_char (c # cs) =
     (if c = backslash then
        (case cs of
           [] \<Rightarrow> None
         | e # r \<Rightarrow>
             (if e = CHR ''u'' then
                (case r of
                   h1 # h2 # h3 # h4 # rest \<Rightarrow> map_option (\<lambda>x. (x, rest)) (hex4 h1 h2 h3 h4)
                 | _ \<Rightarrow> None)
              else map_option (\<lambda>x. (x, r)) (unescape e)))
      else if of_char c < (32::nat) then None
      else Some (c, cs))"

lemma scan_char_shorter: "scan_char s = Some (c, r) \<Longrightarrow> length r < length s"
  by (cases s) (auto split: if_splits list.splits)

declare scan_char.simps [simp del]

text \<open>The characters of a string up to its closing quote, and what follows it.\<close>

function scan_string :: "string \<Rightarrow> (string \<times> string) option" where
  "scan_string s =
     (case s of
        [] \<Rightarrow> None
      | q # cs \<Rightarrow>
          (if q = quote_char then Some ([], cs)
           else case scan_char s of
                  None \<Rightarrow> None
                | Some (c, r) \<Rightarrow> map_option (\<lambda>(t, r'). (c # t, r')) (scan_string r)))"
  by pat_completeness auto
termination
  by (relation "measure length") (auto dest: scan_char_shorter)

declare scan_string.simps [simp del]

definition json_space :: "char \<Rightarrow> bool" where
  "json_space c \<longleftrightarrow> c = CHR '' '' \<or> c = CHR 0x09 \<or> c = CHR 0x0A \<or> c = CHR 0x0D"

abbreviation skip_space :: "string \<Rightarrow> string" where
  "skip_space \<equiv> dropWhile json_space"

lemma scan_string_shorter: "scan_string s = Some (t, r) \<Longrightarrow> length r < length s"
proof (induction s arbitrary: t rule: scan_string.induct)
  case (1 s)
  show ?case
  proof (cases s)
    case Nil
    then show ?thesis using 1 by (simp add: scan_string.simps)
  next
    case (Cons q cs)
    show ?thesis
    proof (cases "q = quote_char")
      case True
      then show ?thesis using 1 Cons by (simp add: scan_string.simps)
    next
      case False
      then obtain c r1 t1 where "scan_char s = Some (c, r1)" "scan_string r1 = Some (t1, r)"
        using 1(2) Cons by (subst (asm) (2) scan_string.simps) (auto split: option.splits)
      then show ?thesis using 1(1) [OF Cons False] scan_char_shorter by fastforce
    qed
  qed
qed

text \<open>The elements of an array after its opening bracket, with at least one element to come.\<close>

function scan_items :: "string \<Rightarrow> (string list \<times> string) option" where
  "scan_items s =
     (case s of
        [] \<Rightarrow> None
      | q # cs \<Rightarrow>
          (if q \<noteq> quote_char then None
           else case scan_string cs of
                  None \<Rightarrow> None
                | Some (x, r) \<Rightarrow>
                    (case skip_space r of
                       [] \<Rightarrow> None
                     | c # r' \<Rightarrow>
                         if c = CHR '']'' then Some ([x], r')
                         else if c = CHR '','' then
                           map_option (\<lambda>(xs, t). (x # xs, t)) (scan_items (skip_space r'))
                         else None)))"
  by pat_completeness auto
termination
proof (relation "measure length", goal_cases)
  case (2 s q cs a x r c r')
  have "length r < length cs" using 2 scan_string_shorter by fastforce
  moreover have "length (skip_space r) \<le> length r" by (rule length_dropWhile_le)
  moreover have "length (skip_space r') \<le> length r'" by (rule length_dropWhile_le)
  ultimately show ?case using 2 by simp
qed simp

declare scan_items.simps [simp del]

definition json_loads_strings :: "string \<Rightarrow> string list result" where
  "json_loads_strings s =
     (let bad = Inl (ValueError ''invalid JSON document'') in
      case skip_space s of
        [] \<Rightarrow> bad
      | c # r \<Rightarrow>
          (if c \<noteq> CHR ''['' then bad
           else case (case skip_space r of
                        [] \<Rightarrow> None
                      | d # r' \<Rightarrow> if d = CHR '']'' then Some ([], r') else scan_items (d # r')) of
                  None \<Rightarrow> bad
                | Some (xs, rest) \<Rightarrow> if skip_space rest = [] then Inr xs else bad))"

section \<open>Decoding undoes encoding\<close>

lemma of_char_less_256 [simp]: "(of_char c :: nat) < 256"
  by (cases c) (simp add: of_char_def)

lemma hex_value_digit [simp]: "n < 16 \<Longrightarrow> hex_value (hex_digit n) = Some n"
  by (auto simp: hex_value_def hex_digit_def Let_def of_char_of)

lemma hex4_digits [simp]:
  "hex4 (CHR ''0'') (CHR ''0'') (hex_digit (of_char c div 16)) (hex_digit (of_char c mod 16)) = Some c"
proof -
  have "(of_char c :: nat) div 16 < 16" using of_char_less_256 [of c] by linarith
  moreover have "hex_value (CHR ''0'') = Some 0" by (simp add: hex_value_def of_char_def)
  moreover have "(of_char c :: nat) div 16 * 16 + of_char c mod 16 = of_char c" by (rule div_mult_mod_eq)
  ultimately show ?thesis by (simp add: hex4_def Let_def del: div_mult_mod_eq)
qed

lemma scan_char_escape [simp]: "scan_char (json_escape c @ rest) = Some (c, rest)"
  by (simp add: json_escape_def scan_char.simps unescape_def)

lemma json_escape_head: "\<exists>d ds. json_escape c = d # ds \<and> d \<noteq> quote_char"
  by (simp add: json_escape_def)

lemma scan_string_json [simp]:
  "scan_string (concat (map json_escape s) @ quote_char # rest) = Some (s, rest)"
proof (induction s)
  case Nil
  then show ?case by (simp add: scan_string.simps)
next
  case (Cons c s)
  obtain d ds where d: "json_escape c = d # ds" "d \<noteq> quote_char" using json_escape_head by blast
  let ?in = "concat (map json_escape (c # s)) @ quote_char # rest"
  have "scan_char ?in = Some (c, concat (map json_escape s) @ quote_char # rest)"
    using scan_char_escape [of c "concat (map json_escape s) @ quote_char # rest"] by simp
  moreover have "?in = d # ds @ concat (map json_escape s) @ quote_char # rest" using d by simp
  ultimately show ?case using d Cons by (subst scan_string.simps) simp
qed

lemma json_string_scan: "json_string s @ rest = quote_char # concat (map json_escape s) @ quote_char # rest"
  by (simp add: json_string_def)

lemma json_string_prefix: "json_string s @ a = json_string t @ b \<longleftrightarrow> s = t \<and> a = b"
  by (auto simp: json_string_scan) (metis scan_string_json Pair_inject option.inject)+

lemma json_string_inj [simp]: "json_string s = json_string t \<longleftrightarrow> s = t"
  using json_string_prefix [of s "[]" t "[]"] by simp

lemma scan_items_json:
  "scan_items (join '', '' (map json_string (x # xs)) @ CHR '']'' # rest) = Some (x # xs, rest)"
proof (induction xs arbitrary: x)
  case Nil
  then show ?case by (simp add: json_string_scan scan_items.simps json_space_def)
next
  case (Cons y ys)
  have "skip_space ('' '' @ join '', '' (map json_string (y # ys)) @ CHR '']'' # rest) =
      join '', '' (map json_string (y # ys)) @ CHR '']'' # rest"
    by (cases ys) (simp_all add: json_string_def json_space_def)
  then show ?case using Cons [of y]
    by (subst scan_items.simps) (simp add: json_string_scan json_space_def)
qed

theorem json_strings_round_trip: "json_loads_strings (json_strings xs) = Inr xs"
proof (cases xs)
  case Nil
  then show ?thesis by (simp add: json_loads_strings_def json_strings_def json_array_def json_space_def)
next
  case (Cons y ys)
  obtain r where r: "join '', '' (map json_string (y # ys)) = quote_char # r"
    by (cases ys) (simp_all add: json_string_def)
  have "skip_space (quote_char # r @ '']'') = quote_char # r @ '']''" by (simp add: json_space_def)
  then show ?thesis using scan_items_json [of y ys "[]"] Cons r
    by (simp add: json_loads_strings_def json_strings_def json_array_def json_space_def)
qed

end
