(* ===== verification/Collector_Leases.thy ===== *)
theory Collector_Leases
  imports Json_Text "HOL-Library.Multiset"
begin

text \<open>
  \<open>services/research/collector_runs.py\<close>: the leases that keep two collectors from writing the
  same stream, and the records of collector runs, in both repositories of the module.
  \<open>InMemoryCollectorLeaseRepository\<close> is a pair of dictionaries behind a lock;
  \<open>SQLCollectorLeaseRepository\<close> is a pair of tables read with \<open>SELECT ... FOR UPDATE\<close>.

  Two things belong to the database and are parameters. \<open>column\<close> is what a \<open>DateTime\<close> column
  gives back for a stored value (PostgreSQL the same aware value, SQLite the same UTC value
  without its zone); \<open>stale\<close> says that the row lock of an acquisition was taken on an empty
  result before another transaction inserted the row, so that the insert meets the primary key
  (\<open>IntegrityError\<close>). A row that exists is locked, so nothing intervenes in that case
  (as on PostgreSQL; SQLite ignores \<open>FOR UPDATE\<close> and relies on its one writer). Every
  operation reads the clock once; the reading is an argument. The length limits of the string
  columns are not modelled.

  The locale \<open>lease_store\<close> is the contract of a lease repository; exclusivity is proved once in it
  and both repositories interpret it, the SQL one through the locale \<open>faithful_column\<close>.
\<close>

section \<open>Records\<close>

datatype CollectorRunStatus =
  COLLECTOR_RUNNING | COLLECTOR_STOP_REQUESTED | COLLECTOR_COMPLETED | COLLECTOR_FAILED
  | CANCELED_DUE_TO_OVERLAP

fun run_status_value :: "CollectorRunStatus \<Rightarrow> string" where
  "run_status_value COLLECTOR_RUNNING = ''RUNNING''"
| "run_status_value COLLECTOR_STOP_REQUESTED = ''STOP_REQUESTED''"
| "run_status_value COLLECTOR_COMPLETED = ''COMPLETED''"
| "run_status_value COLLECTOR_FAILED = ''FAILED''"
| "run_status_value CANCELED_DUE_TO_OVERLAP = ''CANCELED_DUE_TO_OVERLAP''"

definition run_status_of :: "string \<Rightarrow> CollectorRunStatus result" where
  "run_status_of v =
     (case find (\<lambda>st. run_status_value st = v)
        [COLLECTOR_RUNNING, COLLECTOR_STOP_REQUESTED, COLLECTOR_COMPLETED, COLLECTOR_FAILED,
         CANCELED_DUE_TO_OVERLAP] of
        Some st \<Rightarrow> Inr st
      | None \<Rightarrow> Inl (ValueError ([CHR 0x27] @ v @ [CHR 0x27] @ '' is not a valid CollectorRunStatus'')))"

record CollectorLease =
  cl_collector_group :: string
  cl_run_id :: string
  cl_owner_id :: string
  cl_expires_at :: datetime
  cl_acquired_at :: datetime
  cl_renewed_at :: datetime

record CollectorRunRecord =
  cr_run_id :: string
  cr_collector_group :: string
  cr_owner_id :: string
  cr_commit_sha :: string
  cr_config_path :: string
  cr_database_identity :: string
  cr_schema_name :: string
  cr_checkpoint_namespace :: string
  cr_artifact_namespace :: string
  cr_venues :: "string list"
  cr_instruments :: "string list"
  cr_event_types :: "string list"
  cr_duration_seconds :: "rat option"
  cr_pid :: int
  cr_process_started_at :: datetime
  cr_hostname :: string
  cr_command_sha256 :: string
  cr_run_token_sha256 :: string
  cr_status :: CollectorRunStatus
  cr_started_at :: datetime
  cr_heartbeat_at :: datetime
  cr_stop_requested_at :: "datetime option"
  cr_stopped_at :: "datetime option"
  cr_artifact_directory :: "string option"
  cr_failure_reason :: "string option"

definition collector_group_payload ::
  "string \<Rightarrow> string \<Rightarrow> string \<Rightarrow> string \<Rightarrow> string \<Rightarrow> string \<Rightarrow> string" where
  "collector_group_payload database_identity schema_name venue instrument event_type channel =
     json_object
       [(''channel'', json_string channel),
        (''database_identity'', json_string database_identity),
        (''event_type'', json_string event_type),
        (''instrument'', json_string instrument),
        (''schema'', json_string schema_name),
        (''venue'', json_string venue)]"

definition collector_group_key ::
  "(string \<Rightarrow> string) \<Rightarrow> string \<Rightarrow> string \<Rightarrow> string \<Rightarrow> string \<Rightarrow> string \<Rightarrow> string \<Rightarrow> string" where
  "collector_group_key sha256 database_identity schema_name venue instrument event_type channel =
     ''collector-'' @ sha256 (collector_group_payload database_identity schema_name venue instrument event_type channel)"

section \<open>The in-memory repository\<close>

record InMemoryCollectorLeaseRepository =
  leases :: "(string, CollectorLease) dict"
  runs :: "(string, CollectorRunRecord) dict"

text \<open>Comparing a naive expiry with the aware clock raises.\<close>

definition after_now :: "datetime \<Rightarrow> instant \<Rightarrow> bool result" where
  "after_now d now =
     (case d of
        Naive _ \<Rightarrow> Inl (TypeError ''can not compare offset-naive and offset-aware datetimes'')
      | Aware t \<Rightarrow> Inr (now < t))"

definition held_by_other :: "string \<Rightarrow> string \<Rightarrow> string \<Rightarrow> string \<Rightarrow> bool" where
  "held_by_other cur_run cur_owner run_id owner_id \<longleftrightarrow> cur_run \<noteq> run_id \<or> cur_owner \<noteq> owner_id"

definition mem_acquire ::
  "string \<Rightarrow> string \<Rightarrow> string \<Rightarrow> datetime \<Rightarrow> instant \<Rightarrow> InMemoryCollectorLeaseRepository \<Rightarrow>
   (CollectorLease, InMemoryCollectorLeaseRepository) outcome" where
  "mem_acquire collector_group run_id owner_id expires_at now s =
     (let refused = (case map_of (leases s) collector_group of
                       None \<Rightarrow> Inr ()
                     | Some current \<Rightarrow>
                         bindE (after_now (cl_expires_at current) now) (\<lambda>live.
                         raise_if (live \<and> held_by_other (cl_run_id current) (cl_owner_id current) run_id owner_id)
                           (CollectorLeaseConflict (''collector lease is held by '' @ cl_run_id current))))
      in case refused of
           Inl e \<Rightarrow> (Inl e, s)
         | Inr _ \<Rightarrow>
             let lease = \<lparr>cl_collector_group = collector_group, cl_run_id = run_id, cl_owner_id = owner_id,
                          cl_expires_at = expires_at, cl_acquired_at = Aware now, cl_renewed_at = Aware now\<rparr>
             in (Inr lease, s\<lparr>leases := dict_set collector_group lease (leases s)\<rparr>))"

definition mem_renew ::
  "string \<Rightarrow> string \<Rightarrow> string \<Rightarrow> datetime \<Rightarrow> instant \<Rightarrow> InMemoryCollectorLeaseRepository \<Rightarrow>
   (CollectorLease, InMemoryCollectorLeaseRepository) outcome" where
  "mem_renew collector_group run_id owner_id expires_at now s =
     (case map_of (leases s) collector_group of
        None \<Rightarrow> (Inl (CollectorLeaseConflict ''collector lease ownership changed''), s)
      | Some current \<Rightarrow>
          if held_by_other (cl_run_id current) (cl_owner_id current) run_id owner_id
          then (Inl (CollectorLeaseConflict ''collector lease ownership changed''), s)
          else case after_now (cl_expires_at current) now of
                 Inl e \<Rightarrow> (Inl e, s)
               | Inr live \<Rightarrow>
                   if \<not> live then (Inl (CollectorLeaseConflict ''collector lease expired before renewal''), s)
                   else let lease = current\<lparr>cl_expires_at := expires_at, cl_renewed_at := Aware now\<rparr>
                        in (Inr lease, s\<lparr>leases := dict_set collector_group lease (leases s)\<rparr>))"

definition mem_release ::
  "string \<Rightarrow> string \<Rightarrow> string \<Rightarrow> InMemoryCollectorLeaseRepository \<Rightarrow> InMemoryCollectorLeaseRepository" where
  "mem_release collector_group run_id owner_id s =
     (case map_of (leases s) collector_group of
        None \<Rightarrow> s
      | Some current \<Rightarrow>
          if held_by_other (cl_run_id current) (cl_owner_id current) run_id owner_id then s
          else s\<lparr>leases := dict_del collector_group (leases s)\<rparr>)"

definition mem_save_run ::
  "CollectorRunRecord \<Rightarrow> InMemoryCollectorLeaseRepository \<Rightarrow> InMemoryCollectorLeaseRepository" where
  "mem_save_run run s = s\<lparr>runs := dict_set (cr_run_id run) run (runs s)\<rparr>"

definition mem_get_run :: "string \<Rightarrow> InMemoryCollectorLeaseRepository \<Rightarrow> CollectorRunRecord option" where
  "mem_get_run run_id s = map_of (runs s) run_id"

text \<open>Sorting compares the start times; a mixture of naive and aware ones can not be sorted.\<close>

fun is_aware :: "datetime \<Rightarrow> bool" where
  "is_aware (Naive _) = False"
| "is_aware (Aware _) = True"

fun clock_value :: "datetime \<Rightarrow> int" where
  "clock_value (Naive t) = t"
| "clock_value (Aware t) = t"

definition mem_list_runs :: "InMemoryCollectorLeaseRepository \<Rightarrow> CollectorRunRecord list result" where
  "mem_list_runs s =
     (let rs = dict_values (runs s) in
      if list_all (is_aware \<circ> cr_started_at) rs \<or> list_all (Not \<circ> is_aware \<circ> cr_started_at) rs
      then Inr (sort_key (clock_value \<circ> cr_started_at) rs)
      else Inl (TypeError ''can not compare offset-naive and offset-aware datetimes''))"

section \<open>The SQL repository\<close>

record CollectorLeaseRow =
  lr_run_id :: string
  lr_owner_id :: string
  lr_acquired_at :: datetime
  lr_renewed_at :: datetime
  lr_expires_at :: datetime

record CollectorRunRow =
  rr_collector_group :: string
  rr_owner_id :: string
  rr_commit_sha :: string
  rr_config_path :: string
  rr_database_identity :: string
  rr_schema_name :: string
  rr_checkpoint_namespace :: string
  rr_artifact_namespace :: string
  rr_venues_json :: string
  rr_instruments_json :: string
  rr_event_types_json :: string
  rr_duration_seconds :: "rat option"
  rr_pid :: int
  rr_process_started_at :: datetime
  rr_hostname :: string
  rr_command_sha256 :: string
  rr_run_token_sha256 :: string
  rr_status :: string
  rr_started_at :: datetime
  rr_heartbeat_at :: datetime
  rr_stop_requested_at :: "datetime option"
  rr_stopped_at :: "datetime option"
  rr_artifact_directory :: "string option"
  rr_failure_reason :: "string option"

record collector_tables =
  lease_rows :: "(string, CollectorLeaseRow) dict"
  run_rows :: "(string, CollectorRunRow) dict"

text \<open>\<open>_aware\<close>: a naive value is taken as UTC.\<close>

definition aware :: "datetime \<Rightarrow> datetime" where
  "aware d = Aware (clock_value d)"

definition sql_acquire ::
  "(datetime \<Rightarrow> datetime) \<Rightarrow> bool \<Rightarrow> string \<Rightarrow> string \<Rightarrow> string \<Rightarrow> datetime \<Rightarrow> instant \<Rightarrow> collector_tables \<Rightarrow>
   (CollectorLease, collector_tables) outcome" where
  "sql_acquire column stale collector_group run_id owner_id expires_at now db =
     (let row = (if stale then None else map_of (lease_rows db) collector_group);
          refused = (case row of
                       None \<Rightarrow> Inr ()
                     | Some r \<Rightarrow>
                         bindE (after_now (aware (column (lr_expires_at r))) now) (\<lambda>live.
                         raise_if (live \<and> held_by_other (lr_run_id r) (lr_owner_id r) run_id owner_id)
                           (CollectorLeaseConflict (''collector lease is held by '' @ lr_run_id r))))
      in case refused of
           Inl e \<Rightarrow> (Inl e, db)
         | Inr _ \<Rightarrow>
             if row = None \<and> map_of (lease_rows db) collector_group \<noteq> None
             then (Inl (CollectorLeaseConflict ''collector lease acquisition raced''), db)
             else (Inr \<lparr>cl_collector_group = collector_group, cl_run_id = run_id, cl_owner_id = owner_id,
                        cl_expires_at = expires_at, cl_acquired_at = Aware now, cl_renewed_at = Aware now\<rparr>,
                   db\<lparr>lease_rows := dict_set collector_group
                        \<lparr>lr_run_id = run_id, lr_owner_id = owner_id, lr_acquired_at = Aware now,
                         lr_renewed_at = Aware now, lr_expires_at = expires_at\<rparr> (lease_rows db)\<rparr>))"

definition sql_renew ::
  "(datetime \<Rightarrow> datetime) \<Rightarrow> string \<Rightarrow> string \<Rightarrow> string \<Rightarrow> datetime \<Rightarrow> instant \<Rightarrow> collector_tables \<Rightarrow>
   (CollectorLease, collector_tables) outcome" where
  "sql_renew column collector_group run_id owner_id expires_at now db =
     (case map_of (lease_rows db) collector_group of
        None \<Rightarrow> (Inl (CollectorLeaseConflict ''collector lease ownership changed''), db)
      | Some r \<Rightarrow>
          if held_by_other (lr_run_id r) (lr_owner_id r) run_id owner_id
          then (Inl (CollectorLeaseConflict ''collector lease ownership changed''), db)
          else case after_now (aware (column (lr_expires_at r))) now of
                 Inl e \<Rightarrow> (Inl e, db)
               | Inr live \<Rightarrow>
                   if \<not> live then (Inl (CollectorLeaseConflict ''collector lease expired before renewal''), db)
                   else (Inr \<lparr>cl_collector_group = collector_group, cl_run_id = run_id, cl_owner_id = owner_id,
                              cl_expires_at = expires_at, cl_acquired_at = aware (column (lr_acquired_at r)),
                              cl_renewed_at = Aware now\<rparr>,
                         db\<lparr>lease_rows := dict_set collector_group
                              (r\<lparr>lr_renewed_at := Aware now, lr_expires_at := expires_at\<rparr>) (lease_rows db)\<rparr>))"

definition sql_release :: "string \<Rightarrow> string \<Rightarrow> string \<Rightarrow> collector_tables \<Rightarrow> collector_tables" where
  "sql_release collector_group run_id owner_id db =
     (case map_of (lease_rows db) collector_group of
        None \<Rightarrow> db
      | Some r \<Rightarrow>
          if held_by_other (lr_run_id r) (lr_owner_id r) run_id owner_id then db
          else db\<lparr>lease_rows := dict_del collector_group (lease_rows db)\<rparr>)"

definition run_values :: "CollectorRunRecord \<Rightarrow> CollectorRunRow" where
  "run_values run =
     \<lparr>rr_collector_group = cr_collector_group run, rr_owner_id = cr_owner_id run,
      rr_commit_sha = cr_commit_sha run, rr_config_path = cr_config_path run,
      rr_database_identity = cr_database_identity run, rr_schema_name = cr_schema_name run,
      rr_checkpoint_namespace = cr_checkpoint_namespace run, rr_artifact_namespace = cr_artifact_namespace run,
      rr_venues_json = json_strings (cr_venues run), rr_instruments_json = json_strings (cr_instruments run),
      rr_event_types_json = json_strings (cr_event_types run), rr_duration_seconds = cr_duration_seconds run,
      rr_pid = cr_pid run, rr_process_started_at = cr_process_started_at run, rr_hostname = cr_hostname run,
      rr_command_sha256 = cr_command_sha256 run, rr_run_token_sha256 = cr_run_token_sha256 run,
      rr_status = run_status_value (cr_status run), rr_started_at = cr_started_at run,
      rr_heartbeat_at = cr_heartbeat_at run, rr_stop_requested_at = cr_stop_requested_at run,
      rr_stopped_at = cr_stopped_at run, rr_artifact_directory = cr_artifact_directory run,
      rr_failure_reason = cr_failure_reason run\<rparr>"

definition sql_run :: "(datetime \<Rightarrow> datetime) \<Rightarrow> string \<Rightarrow> CollectorRunRow \<Rightarrow> CollectorRunRecord result" where
  "sql_run column run_id row =
     bindE (json_loads_strings (rr_venues_json row)) (\<lambda>venues.
     bindE (json_loads_strings (rr_instruments_json row)) (\<lambda>instruments.
     bindE (json_loads_strings (rr_event_types_json row)) (\<lambda>event_types.
     bindE (run_status_of (rr_status row)) (\<lambda>status.
     Inr \<lparr>cr_run_id = run_id, cr_collector_group = rr_collector_group row, cr_owner_id = rr_owner_id row,
          cr_commit_sha = rr_commit_sha row, cr_config_path = rr_config_path row,
          cr_database_identity = rr_database_identity row, cr_schema_name = rr_schema_name row,
          cr_checkpoint_namespace = rr_checkpoint_namespace row, cr_artifact_namespace = rr_artifact_namespace row,
          cr_venues = venues, cr_instruments = instruments, cr_event_types = event_types,
          cr_duration_seconds = rr_duration_seconds row, cr_pid = rr_pid row,
          cr_process_started_at = aware (column (rr_process_started_at row)), cr_hostname = rr_hostname row,
          cr_command_sha256 = rr_command_sha256 row, cr_run_token_sha256 = rr_run_token_sha256 row,
          cr_status = status, cr_started_at = aware (column (rr_started_at row)),
          cr_heartbeat_at = aware (column (rr_heartbeat_at row)),
          cr_stop_requested_at = map_option (aware \<circ> column) (rr_stop_requested_at row),
          cr_stopped_at = map_option (aware \<circ> column) (rr_stopped_at row),
          cr_artifact_directory = rr_artifact_directory row, cr_failure_reason = rr_failure_reason row\<rparr>))))"

definition sql_save_run :: "CollectorRunRecord \<Rightarrow> collector_tables \<Rightarrow> collector_tables" where
  "sql_save_run run db = db\<lparr>run_rows := dict_set (cr_run_id run) (run_values run) (run_rows db)\<rparr>"

definition sql_get_run ::
  "(datetime \<Rightarrow> datetime) \<Rightarrow> string \<Rightarrow> collector_tables \<Rightarrow> CollectorRunRecord option result" where
  "sql_get_run column run_id db =
     (case map_of (run_rows db) run_id of
        None \<Rightarrow> Inr None
      | Some row \<Rightarrow> bindE (sql_run column run_id row) (\<lambda>run. Inr (Some run)))"

fun all_results :: "'a result list \<Rightarrow> 'a list result" where
  "all_results [] = Inr []"
| "all_results (r # rs) = bindE r (\<lambda>x. bindE (all_results rs) (\<lambda>xs. Inr (x # xs)))"

text \<open>\<open>ORDER BY started_at\<close> leaves the order of equal start times to the database: a parameter.\<close>

definition sql_list_runs ::
  "(datetime \<Rightarrow> datetime) \<Rightarrow> ((string \<times> CollectorRunRow) list \<Rightarrow> (string \<times> CollectorRunRow) list) \<Rightarrow>
   collector_tables \<Rightarrow> CollectorRunRecord list result" where
  "sql_list_runs column order_by db =
     all_results (map (\<lambda>(run_id, row). sql_run column run_id row) (order_by (run_rows db)))"

definition has_leases :: "string \<Rightarrow> collector_tables \<Rightarrow> bool" where
  "has_leases run_id db \<longleftrightarrow> length (filter (\<lambda>(_, r). lr_run_id r = run_id) (lease_rows db)) \<noteq> 0"

section \<open>Sequences of calls\<close>

text \<open>
  What several collectors do to one repository, in the order in which it serves them. The first
  argument of an acquisition is what the repository leaves open of it (whether an SQL select
  was stale). Expiries are aware, as the callers compute them.
\<close>

datatype 'x lease_call =
    Acquire 'x string string string instant instant
  | Renew string string string instant instant
  | Release string string string

type_synonym ('x, 's) acquire_op =
  "'x \<Rightarrow> string \<Rightarrow> string \<Rightarrow> string \<Rightarrow> datetime \<Rightarrow> instant \<Rightarrow> 's \<Rightarrow> (CollectorLease, 's) outcome"
type_synonym 's renew_op =
  "string \<Rightarrow> string \<Rightarrow> string \<Rightarrow> datetime \<Rightarrow> instant \<Rightarrow> 's \<Rightarrow> (CollectorLease, 's) outcome"
type_synonym 's release_op = "string \<Rightarrow> string \<Rightarrow> string \<Rightarrow> 's \<Rightarrow> 's"

fun lease_step ::
  "('x, 's) acquire_op \<Rightarrow> 's renew_op \<Rightarrow> 's release_op \<Rightarrow> 'x lease_call \<Rightarrow> 's \<Rightarrow>
   CollectorLease result option \<times> 's" where
  "lease_step acq ren rel (Acquire x g r w e t) s = apfst Some (acq x g r w (Aware e) t s)"
| "lease_step acq ren rel (Renew g r w e t) s = apfst Some (ren g r w (Aware e) t s)"
| "lease_step acq ren rel (Release g r w) s = (None, rel g r w s)"

fun lease_run ::
  "('x, 's) acquire_op \<Rightarrow> 's renew_op \<Rightarrow> 's release_op \<Rightarrow> 'x lease_call list \<Rightarrow> 's \<Rightarrow>
   CollectorLease result option list \<times> 's" where
  "lease_run acq ren rel [] s = ([], s)"
| "lease_run acq ren rel (c # cs) s =
     (let (out, s1) = lease_step acq ren rel c s in apfst ((#) out) (lease_run acq ren rel cs s1))"

text \<open>
  \<open>keeps_lease g r w T\<close>: the tenant \<open>(r, w)\<close> of the group \<open>g\<close> neither releases it nor asks for an
  expiry before \<open>T\<close>, and the others ask before \<open>T\<close> only.
\<close>

fun keeps_lease :: "string \<Rightarrow> string \<Rightarrow> string \<Rightarrow> instant \<Rightarrow> 'x lease_call \<Rightarrow> bool" where
  "keeps_lease g r w T (Acquire x g' r' w' e t) \<longleftrightarrow>
     g' = g \<longrightarrow> (if (r', w') = (r, w) then T \<le> e else t < T)"
| "keeps_lease g r w T (Renew g' r' w' e t) \<longleftrightarrow> g' = g \<longrightarrow> (r', w') = (r, w) \<longrightarrow> T \<le> e"
| "keeps_lease g r w T (Release g' r' w') \<longleftrightarrow> (g', r', w') \<noteq> (g, r, w)"

fun foreign_claim :: "string \<Rightarrow> string \<Rightarrow> string \<Rightarrow> 'x lease_call \<Rightarrow> bool" where
  "foreign_claim g r w (Acquire x g' r' w' e t) \<longleftrightarrow> g' = g \<and> (r', w') \<noteq> (r, w)"
| "foreign_claim g r w (Renew g' r' w' e t) \<longleftrightarrow> g' = g \<and> (r', w') \<noteq> (r, w)"
| "foreign_claim g r w (Release g' r' w') \<longleftrightarrow> False"

definition refused_claim :: "CollectorLease result option \<Rightarrow> bool" where
  "refused_claim out \<longleftrightarrow> (case out of Some (Inl (CollectorLeaseConflict _)) \<Rightarrow> True | _ \<Rightarrow> False)"

section \<open>The contract of a lease repository\<close>

text \<open>
  \<open>holder s g\<close> is who holds the group and until when. An acquisition or a renewal either changes
  nothing and reports a conflict, or it was admissible and the caller is the holder afterwards.
\<close>

locale lease_store =
  fixes acquire :: "('x, 's) acquire_op" and renew :: "'s renew_op" and release :: "'s release_op"
    and holder :: "'s \<Rightarrow> string \<Rightarrow> (string \<times> string \<times> instant) option" and ok :: "'s \<Rightarrow> bool"
  assumes acquire_law: "ok s \<Longrightarrow> acquire x g r w (Aware e) t s = (res, s') \<Longrightarrow>
      (\<exists>m. res = Inl (CollectorLeaseConflict m)) \<and> s' = s \<or>
      (\<exists>l. res = Inr l) \<and> ok s' \<and> holder s' = (holder s)(g \<mapsto> (r, w, e)) \<and>
        (\<forall>r0 w0 e0. holder s g = Some (r0, w0, e0) \<longrightarrow> (r0, w0) = (r, w) \<or> e0 \<le> t)"
    and renew_law: "ok s \<Longrightarrow> renew g r w (Aware e) t s = (res, s') \<Longrightarrow>
      (\<exists>m. res = Inl (CollectorLeaseConflict m)) \<and> s' = s \<or>
      (\<exists>l. res = Inr l) \<and> ok s' \<and> holder s' = (holder s)(g \<mapsto> (r, w, e)) \<and>
        (\<exists>e0. holder s g = Some (r, w, e0) \<and> t < e0)"
    and release_law: "ok s \<Longrightarrow> ok (release g r w s) \<and>
      holder (release g r w s) =
        (if \<exists>e0. holder s g = Some (r, w, e0) then (holder s)(g := None) else holder s)"
begin

lemma step_exclusive:
  assumes "ok s" "holder s g = Some (r, w, e)" "T \<le> e" "keeps_lease g r w T c"
    and "lease_step acquire renew release c s = (out, s')"
  shows "ok s' \<and> (\<exists>e'\<ge>T. holder s' g = Some (r, w, e')) \<and> (foreign_claim g r w c \<longrightarrow> refused_claim out)"
proof (cases c)
  case (Acquire x g' r' w' e' t)
  obtain res where res: "acquire x g' r' w' (Aware e') t s = (res, s')" "out = Some res"
    using assms(5) Acquire by (cases "acquire x g' r' w' (Aware e') t s") auto
  show ?thesis using acquire_law [OF assms(1) res(1)] assms Acquire res(2)
    by (fastforce simp: refused_claim_def split: if_splits)
next
  case (Renew g' r' w' e' t)
  obtain res where res: "renew g' r' w' (Aware e') t s = (res, s')" "out = Some res"
    using assms(5) Renew by (cases "renew g' r' w' (Aware e') t s") auto
  show ?thesis using renew_law [OF assms(1) res(1)] assms Renew res(2)
    by (fastforce simp: refused_claim_def)
next
  case (Release g' r' w')
  then show ?thesis using release_law [OF assms(1)] assms by auto
qed

lemma exclusive:
  assumes "ok s" "holder s g = Some (r, w, e)" "T \<le> e" "list_all (keeps_lease g r w T) calls"
    and "lease_run acquire renew release calls s = (outs, s')"
  shows "(\<exists>e'\<ge>T. holder s' g = Some (r, w, e')) \<and>
    list_all2 (\<lambda>c out. foreign_claim g r w c \<longrightarrow> refused_claim out) calls outs"
  using assms
proof (induction calls arbitrary: s e outs)
  case (Cons c cs)
  obtain out s1 where s1: "lease_step acquire renew release c s = (out, s1)" by fastforce
  obtain outs1 where outs: "outs = out # outs1" and run: "lease_run acquire renew release cs s1 = (outs1, s')"
    using Cons.prems s1 by (cases "lease_run acquire renew release cs s1") auto
  have step: "ok s1 \<and> (\<exists>e'\<ge>T. holder s1 g = Some (r, w, e')) \<and> (foreign_claim g r w c \<longrightarrow> refused_claim out)"
    using step_exclusive [OF Cons.prems(1-3) _ s1] Cons.prems by simp
  then obtain e1 where "ok s1" "holder s1 g = Some (r, w, e1)" "T \<le> e1" by blast
  then show ?case using Cons.IH [of s1 e1 outs1] Cons.prems(4) run outs step by simp
qed auto

end

section \<open>Both repositories keep the contract\<close>

definition mem_holder :: "InMemoryCollectorLeaseRepository \<Rightarrow> string \<Rightarrow> (string \<times> string \<times> instant) option" where
  "mem_holder s g = map_option (\<lambda>l. (cl_run_id l, cl_owner_id l, clock_value (cl_expires_at l))) (map_of (leases s) g)"

definition mem_ok :: "InMemoryCollectorLeaseRepository \<Rightarrow> bool" where
  "mem_ok s \<longleftrightarrow> (\<forall>g l. map_of (leases s) g = Some l \<longrightarrow> is_aware (cl_expires_at l))"

definition sql_holder ::
  "(datetime \<Rightarrow> datetime) \<Rightarrow> collector_tables \<Rightarrow> string \<Rightarrow> (string \<times> string \<times> instant) option" where
  "sql_holder column db g =
     map_option (\<lambda>l. (lr_run_id l, lr_owner_id l, clock_value (column (lr_expires_at l)))) (map_of (lease_rows db) g)"

lemma is_aware_iff: "is_aware d \<longleftrightarrow> (\<exists>t. d = Aware t)"
  by (cases d) auto

lemma after_now_simps [simp]:
  "after_now (Aware t) now = Inr (now < t)" "after_now (aware d) now = Inr (now < clock_value d)"
  by (simp_all add: after_now_def aware_def)

lemma map_of_dict_del: "map_of (dict_del k d) = (map_of d)(k := None)"
  by (rule delete_conv')

lemma mem_set_lease [simp]:
  "mem_holder (s\<lparr>leases := dict_set g l (leases s)\<rparr>) =
     (mem_holder s)(g \<mapsto> (cl_run_id l, cl_owner_id l, clock_value (cl_expires_at l)))"
  "mem_ok s \<Longrightarrow> is_aware (cl_expires_at l) \<Longrightarrow> mem_ok (s\<lparr>leases := dict_set g l (leases s)\<rparr>)"
  by (auto simp: mem_holder_def mem_ok_def fun_eq_iff split: if_splits)

lemma mem_lookup:
  assumes "mem_ok s"
  obtains "map_of (leases s) g = None" "mem_holder s g = None"
  | l e0 where "map_of (leases s) g = Some l" "cl_expires_at l = Aware e0"
      "mem_holder s g = Some (cl_run_id l, cl_owner_id l, e0)"
proof (cases "map_of (leases s) g")
  case None
  then show thesis using that(1) by (simp add: mem_holder_def)
next
  case (Some l)
  moreover from this obtain e0 where "cl_expires_at l = Aware e0"
    using assms by (auto simp: mem_ok_def is_aware_iff)
  ultimately show thesis using that(2) by (simp add: mem_holder_def)
qed

interpretation memory_leases: lease_store "\<lambda>_ :: unit. mem_acquire" mem_renew mem_release mem_holder mem_ok
proof (unfold_locales, goal_cases)
  case (1 s x g r w e t res s')
  from 1(1) show ?case
    by (rule mem_lookup [of s g])
      (use 1 in \<open>auto simp: mem_acquire_def Let_def held_by_other_def split: sum.splits\<close>)
next
  case (2 s g r w e t res s')
  from 2(1) show ?case
    by (rule mem_lookup [of s g])
      (use 2 in \<open>auto simp: mem_renew_def Let_def held_by_other_def split: if_splits\<close>)
next
  case (3 s g r w)
  then show ?case
    by (cases "map_of (leases s) g")
      (auto simp: mem_release_def mem_holder_def mem_ok_def held_by_other_def map_of_dict_del fun_eq_iff)
qed

definition faithful :: "(datetime \<Rightarrow> datetime) \<Rightarrow> bool" where
  "faithful column \<longleftrightarrow> (\<forall>t. clock_value (column (Aware t)) = t)"

locale faithful_column =
  fixes column :: "datetime \<Rightarrow> datetime"
  assumes faithful: "faithful column"
begin

lemma column_aware [simp]: "clock_value (column (Aware t)) = t" "aware (column (Aware t)) = Aware t"
  using faithful by (simp_all add: faithful_def aware_def)

end

sublocale faithful_column \<subseteq> sql_leases: lease_store "sql_acquire column" "sql_renew column" sql_release
  "sql_holder column" "\<lambda>_. True"
proof (unfold_locales, goal_cases)
  case (1 s x g r w e t res s')
  then show ?case
    by (auto simp: sql_acquire_def sql_holder_def Let_def fun_eq_iff held_by_other_def
        split: option.splits sum.splits if_splits)
next
  case (2 s g r w e t res s')
  then show ?case
    by (auto simp: sql_renew_def sql_holder_def Let_def fun_eq_iff held_by_other_def
        split: option.splits if_splits)
next
  case (3 s g r w)
  then show ?case
    by (cases "map_of (lease_rows s) g")
      (auto simp: sql_release_def sql_holder_def held_by_other_def map_of_dict_del fun_eq_iff)
qed

text \<open>PostgreSQL gives back the aware value, SQLite the UTC value without its zone.\<close>

definition postgresql_column :: "datetime \<Rightarrow> datetime" where
  "postgresql_column d = d"

definition sqlite_column :: "datetime \<Rightarrow> datetime" where
  "sqlite_column d = Naive (clock_value d)"

interpretation postgresql: faithful_column postgresql_column
  by unfold_locales (simp add: faithful_def postgresql_column_def)

interpretation sqlite: faithful_column sqlite_column
  by unfold_locales (simp add: faithful_def sqlite_column_def)

section \<open>The SQL repository refines the in-memory one\<close>

definition lease_of_row :: "(datetime \<Rightarrow> datetime) \<Rightarrow> string \<Rightarrow> CollectorLeaseRow \<Rightarrow> CollectorLease" where
  "lease_of_row column g r =
     \<lparr>cl_collector_group = g, cl_run_id = lr_run_id r, cl_owner_id = lr_owner_id r,
      cl_expires_at = aware (column (lr_expires_at r)), cl_acquired_at = aware (column (lr_acquired_at r)),
      cl_renewed_at = aware (column (lr_renewed_at r))\<rparr>"

definition abs_leases :: "(datetime \<Rightarrow> datetime) \<Rightarrow> collector_tables \<Rightarrow> InMemoryCollectorLeaseRepository" where
  "abs_leases column db = \<lparr>leases = map (\<lambda>(g, r). (g, lease_of_row column g r)) (lease_rows db), runs = []\<rparr>"

abbreviation mem_lease_run ::
  "unit lease_call list \<Rightarrow> InMemoryCollectorLeaseRepository \<Rightarrow>
   CollectorLease result option list \<times> InMemoryCollectorLeaseRepository" where
  "mem_lease_run \<equiv> lease_run (\<lambda>_. mem_acquire) mem_renew mem_release"

abbreviation sql_lease_run ::
  "(datetime \<Rightarrow> datetime) \<Rightarrow> bool lease_call list \<Rightarrow> collector_tables \<Rightarrow>
   CollectorLease result option list \<times> collector_tables" where
  "sql_lease_run column \<equiv> lease_run (sql_acquire column) (sql_renew column) sql_release"

fun undisturbed :: "bool lease_call \<Rightarrow> bool" where
  "undisturbed (Acquire stale g r w e t) \<longleftrightarrow> \<not> stale"
| "undisturbed (Renew g r w e t) \<longleftrightarrow> True"
| "undisturbed (Release g r w) \<longleftrightarrow> True"

lemma map_of_map_entries: "map_of (map (\<lambda>(k, v). (k, f k v)) d) k = map_option (f k) (map_of d k)"
  by (induction d) auto

lemma map_entries_set:
  "map (\<lambda>(k, v). (k, f k v)) (dict_set k v d) = dict_set k (f k v) (map (\<lambda>(k, v). (k, f k v)) d)"
  by (induction d) auto

lemma map_entries_del:
  "map (\<lambda>(k, v). (k, f k v)) (dict_del k d) = dict_del k (map (\<lambda>(k, v). (k, f k v)) d)"
  by (induction d) auto

lemma lookup_abs [simp]:
  "map_of (leases (abs_leases column db)) g = map_option (lease_of_row column g) (map_of (lease_rows db) g)"
  by (simp add: abs_leases_def map_of_map_entries)

lemma abs_set [simp]:
  "abs_leases column (db\<lparr>lease_rows := dict_set g r (lease_rows db)\<rparr>) =
     (abs_leases column db)\<lparr>leases := dict_set g (lease_of_row column g r) (leases (abs_leases column db))\<rparr>"
  by (simp add: abs_leases_def map_entries_set)

lemma abs_del [simp]:
  "abs_leases column (db\<lparr>lease_rows := dict_del g (lease_rows db)\<rparr>) =
     (abs_leases column db)\<lparr>leases := dict_del g (leases (abs_leases column db))\<rparr>"
  by (simp add: abs_leases_def map_entries_del)

text \<open>The timestamps of a run are aware, as the collector takes them from the UTC clock.\<close>

definition run_times_aware :: "CollectorRunRecord \<Rightarrow> bool" where
  "run_times_aware run \<longleftrightarrow>
     is_aware (cr_process_started_at run) \<and> is_aware (cr_started_at run) \<and> is_aware (cr_heartbeat_at run) \<and>
     (case cr_stop_requested_at run of None \<Rightarrow> True | Some d \<Rightarrow> is_aware d) \<and>
     (case cr_stopped_at run of None \<Rightarrow> True | Some d \<Rightarrow> is_aware d)"

lemma run_status_of_value [simp]: "run_status_of (run_status_value st) = Inr st"
  by (cases st) (simp_all add: run_status_of_def)

context faithful_column
begin

lemma step_refines:
  "undisturbed c \<Longrightarrow>
   lease_step (\<lambda>_ :: unit. mem_acquire) mem_renew mem_release (map_lease_call (\<lambda>_. ()) c) (abs_leases column db) =
     map_prod id (abs_leases column) (lease_step (sql_acquire column) (sql_renew column) sql_release c db)"
proof (cases c)
  case (Acquire x g r w e t)
  then show "undisturbed c \<Longrightarrow> ?thesis"
    by (cases "map_of (lease_rows db) g")
      (auto simp: mem_acquire_def sql_acquire_def Let_def lease_of_row_def raise_if_def)
next
  case (Renew g r w e t)
  then show ?thesis
    by (cases "map_of (lease_rows db) g")
      (auto simp: mem_renew_def sql_renew_def Let_def lease_of_row_def held_by_other_def)
next
  case (Release g r w)
  then show ?thesis
    by (cases "map_of (lease_rows db) g")
      (auto simp: mem_release_def sql_release_def lease_of_row_def)
qed

lemma run_refines:
  "list_all undisturbed calls \<Longrightarrow>
   mem_lease_run (map (map_lease_call (\<lambda>_. ())) calls) (abs_leases column db) =
     map_prod id (abs_leases column) (sql_lease_run column calls db)"
  by (induction calls arbitrary: db) (auto simp: step_refines apfst_def prod.map_comp comp_def split: prod.split)

lemmas sql_exclusive = sql_leases.exclusive [OF TrueI]

lemma aware_column: "is_aware d \<Longrightarrow> aware (column d) = d"
  by (auto simp: is_aware_iff)

lemma aware_column_option:
  "(case d of None \<Rightarrow> True | Some t \<Rightarrow> is_aware t) \<Longrightarrow> map_option (aware \<circ> column) d = d"
  by (cases d) (auto simp: aware_column)

lemma run_round_trip:
  assumes "run_times_aware run"
  shows "sql_run column (cr_run_id run) (run_values run) = Inr run"
  using assms unfolding run_times_aware_def
  by (simp add: sql_run_def run_values_def json_strings_round_trip aware_column aware_column_option)

end

section \<open>Properties\<close>

text \<open>
  C15. A collector that holds a group keeps it until \<open>T\<close>: as long as it does not release the group and
  asks for no expiry before \<open>T\<close>, every acquisition by another collector before \<open>T\<close> and every
  renewal by another collector is refused with \<open>CollectorLeaseConflict\<close>, whatever calls for this
  and other groups are interleaved and whichever of the selects were stale; at the end it still
  holds the group until \<open>T\<close> at least. Stated of the SQL repository on any faithful column.
\<close>
theorem sql_lease_exclusive:
  assumes "faithful column" "sql_holder column db g = Some (r, w, e)" "T \<le> e"
    and "list_all (keeps_lease g r w T) calls" "sql_lease_run column calls db = (outs, db')"
  shows "(\<exists>e'\<ge>T. sql_holder column db' g = Some (r, w, e')) \<and>
    list_all2 (\<lambda>c out. foreign_claim g r w c \<longrightarrow> refused_claim out) calls outs"
  using faithful_column.sql_exclusive [OF faithful_column.intro [OF assms(1)]] assms(2-) by blast

lemma sql_lease_exclusive_witness:
  "let column = sqlite_column;
       db = snd (sql_acquire column False ''g'' ''run-1'' ''host-1'' (Aware 100) 0 \<lparr>lease_rows = [], run_rows = []\<rparr>);
       (outs, db') = sql_lease_run column
         [Acquire False ''g'' ''run-2'' ''host-2'' 200 40, Renew ''g'' ''run-1'' ''host-1'' 150 50,
          Acquire True ''g'' ''run-3'' ''host-3'' 300 60, Release ''g'' ''run-2'' ''host-2''] db
   in sql_holder column db' ''g'' = Some (''run-1'', ''host-1'', 150) \<and>
      refused_claim (outs ! 0) \<and> refused_claim (outs ! 2)"
proof -
  define column where "column = sqlite_column"
  define db where
    "db = snd (sql_acquire column False ''g'' ''run-1'' ''host-1'' (Aware 100) 0 \<lparr>lease_rows = [], run_rows = []\<rparr>)"
  define calls where "calls =
    [Acquire False ''g'' ''run-2'' ''host-2'' 200 40, Renew ''g'' ''run-1'' ''host-1'' 150 50,
     Acquire True ''g'' ''run-3'' ''host-3'' 300 60, Release ''g'' ''run-2'' ''host-2'']"
  obtain outs db' where run: "sql_lease_run column calls db = (outs, db')" by fastforce
  have h: "sql_holder column db ''g'' = Some (''run-1'', ''host-1'', 100)"
    by (simp add: db_def sql_acquire_def sql_holder_def column_def sqlite_column_def)
  have k: "list_all (keeps_lease ''g'' ''run-1'' ''host-1'' 100) calls" by (simp add: calls_def)
  have f: "faithful column" by (simp add: column_def sqlite.faithful)
  from sql_lease_exclusive [OF f h order_refl k run]
  have "list_all2 (\<lambda>c out. foreign_claim ''g'' ''run-1'' ''host-1'' c \<longrightarrow> refused_claim out) calls outs" by blast
  then have "refused_claim (outs ! 0)" "refused_claim (outs ! 2)"
    by (auto simp: calls_def list_all2_Cons1)
  moreover have "sql_holder column db' ''g'' = Some (''run-1'', ''host-1'', 150)"
    using run by (auto simp: calls_def db_def sql_acquire_def sql_renew_def sql_release_def sql_holder_def column_def
        sqlite_column_def held_by_other_def aware_def after_now_def apfst_def map_prod_def split: prod.splits)
  ultimately show ?thesis using run by (simp add: column_def db_def calls_def Let_def)
qed

text \<open>
  C34. The SQL repository refines the in-memory one. On any sequence of calls none of whose selects was
  stale, both give every caller the same lease or the same conflict and end in corresponding
  states; a stale acquisition of a group that another transaction has just inserted is refused
  and changes nothing.
\<close>
theorem sql_leases_refine_memory:
  assumes "faithful column"
  shows "(list_all undisturbed calls \<longrightarrow>
      mem_lease_run (map (map_lease_call (\<lambda>_. ())) calls) (abs_leases column db) =
        map_prod id (abs_leases column) (sql_lease_run column calls db)) \<and>
    (map_of (lease_rows db) g \<noteq> None \<longrightarrow>
      sql_acquire column True g r w d t db =
        (Inl (CollectorLeaseConflict ''collector lease acquisition raced''), db))"
  using faithful_column.run_refines [OF faithful_column.intro [OF assms]] by (auto simp: sql_acquire_def)

lemma sql_leases_refine_memory_witness:
  "let column = sqlite_column; empty = \<lparr>lease_rows = [], run_rows = []\<rparr>;
       calls = [Acquire False ''g'' ''run-1'' ''host-1'' 100 0, Acquire False ''g'' ''run-2'' ''host-2'' 200 40,
                Acquire False ''g'' ''run-2'' ''host-2'' 250 120]
   in fst (mem_lease_run (map (map_lease_call (\<lambda>_. ())) calls) (abs_leases column empty)) =
        fst (sql_lease_run column calls empty) \<and>
      refused_claim (fst (sql_lease_run column calls empty) ! 1) \<and>
      sql_holder column (snd (sql_lease_run column calls empty)) ''g'' = Some (''run-2'', ''host-2'', 250)"
proof -
  have f: "faithful sqlite_column" by (rule sqlite.faithful)
  show ?thesis
    using sql_leases_refine_memory [OF f, of "[Acquire False ''g'' ''run-1'' ''host-1'' 100 0,
        Acquire False ''g'' ''run-2'' ''host-2'' 200 40, Acquire False ''g'' ''run-2'' ''host-2'' 250 120]"
        "\<lparr>lease_rows = [], run_rows = []\<rparr>"]
    by (simp add: refused_claim_def sql_acquire_def sql_holder_def sqlite_column_def held_by_other_def
        aware_def after_now_def)
qed

text \<open>
  C35. A run record saved in the SQL repository is read back unchanged, its tuples through their JSON
  columns and its timestamps through any faithful column, exactly as the in-memory repository
  gives it back; the records of other runs are not affected.
\<close>
theorem collector_run_round_trip:
  assumes "faithful column" "run_times_aware run"
  shows "sql_get_run column (cr_run_id run) (sql_save_run run db) = Inr (Some run) \<and>
    mem_get_run (cr_run_id run) (mem_save_run run s) = Some run \<and>
    (\<forall>run_id. run_id \<noteq> cr_run_id run \<longrightarrow>
      sql_get_run column run_id (sql_save_run run db) = sql_get_run column run_id db)"
  using faithful_column.run_round_trip [OF faithful_column.intro [OF assms(1)] assms(2)]
  by (simp add: sql_get_run_def sql_save_run_def mem_get_run_def mem_save_run_def)

definition demo_collector_run :: CollectorRunRecord where
  "demo_collector_run =
     \<lparr>cr_run_id = ''run-1'', cr_collector_group = ''g'', cr_owner_id = ''host-1'', cr_commit_sha = ''abc'',
      cr_config_path = ''config.yaml'', cr_database_identity = ''db'', cr_schema_name = ''public'',
      cr_checkpoint_namespace = ''c'', cr_artifact_namespace = ''a'',
      cr_venues = [''bitget'', [CHR 0x22, CHR 0x5C, CHR 0x0A, CHR 0xE9]], cr_instruments = [''BTC''], cr_event_types = [],
      cr_duration_seconds = Some (1 / 2), cr_pid = 7, cr_process_started_at = Aware 1, cr_hostname = ''h'',
      cr_command_sha256 = ''00'', cr_run_token_sha256 = ''11'', cr_status = COLLECTOR_RUNNING,
      cr_started_at = Aware 2, cr_heartbeat_at = Aware 3, cr_stop_requested_at = None, cr_stopped_at = Some (Aware 4),
      cr_artifact_directory = None, cr_failure_reason = None\<rparr>"

lemma collector_run_round_trip_witness:
  "sql_get_run sqlite_column ''run-1'' (sql_save_run demo_collector_run \<lparr>lease_rows = [], run_rows = []\<rparr>) =
     Inr (Some demo_collector_run)"
proof -
  have f: "faithful sqlite_column" by (rule sqlite.faithful)
  have "run_times_aware demo_collector_run" by (simp add: run_times_aware_def demo_collector_run_def)
  from collector_run_round_trip [OF f this, of "\<lparr>lease_rows = [], run_rows = []\<rparr>"] show ?thesis
    by (simp add: demo_collector_run_def)
qed

text \<open>
  The digest that names a collector group is taken of a text that determines the database, schema,
  venue, instrument, event type and channel: two streams share a group exactly if they agree in
  all six or their texts collide.
\<close>
theorem collector_group_key_identifies:
  "collector_group_key sha256 a b c d e f = collector_group_key sha256 a' b' c' d' e' f' \<longleftrightarrow>
     (a, b, c, d, e, f) = (a', b', c', d', e', f') \<or>
     (let p = collector_group_payload a b c d e f; q = collector_group_payload a' b' c' d' e' f'
      in p \<noteq> q \<and> sha256 p = sha256 q)"
proof -
  have sorted: "sort_key fst [(''channel'', x1), (''database_identity'', x2), (''event_type'', x3),
      (''instrument'', x4), (''schema'', x5), (''venue'', x6)] =
    [(''channel'', x1), (''database_identity'', x2), (''event_type'', x3), (''instrument'', x4),
      (''schema'', x5), (''venue'', x6)]" for x1 x2 x3 x4 x5 x6 :: string
    by (rule sort_key_id_if_sorted) (simp add: less_eq_char_def list_le_def)
  have "collector_group_payload a b c d e f = collector_group_payload a' b' c' d' e' f' \<longleftrightarrow>
      (a, b, c, d, e, f) = (a', b', c', d', e', f')"
    unfolding collector_group_payload_def json_object_def sorted
    by (simp add: json_string_prefix) blast
  then show ?thesis by (auto simp: collector_group_key_def Let_def)
qed

end
