(* ===== verification/Stream_Reconciliation.thy ===== *)
theory Stream_Reconciliation
  imports Signal_Evidence
begin

text \<open>
  \<open>adapters/exchanges/websocket.py\<close>: a public market-data stream that is reconciled message by
  message and fails closed. The session is the constructor's arguments; a connection is a
  \<open>ConnectionReconciliationContext\<close> beside the session's own state; its states are the
  \<open>ReconciliationState\<close> that signal evidence records.

  The socket and the callbacks are the world. A message arrives as its text with the instant at
  which it is processed, and with the answer the REST snapshot would give if it were requested while
  this message is processed. \<open>json.loads\<close> and \<open>sha256\<close> are fields of the session. The two appliers
  are stateful callbacks of the adapters: \<open>ws_applied\<close> lists the calls made to them, and the answer
  of an applier is a function of its argument and of the calls made before. The other callbacks do
  not raise. Not modelled: the reader and heartbeat tasks, the optional sinks, the lifecycle record,
  and the waiting times between attempts.
\<close>

section \<open>Sessions, contexts and messages\<close>

datatype StreamClassification = SNAPSHOT_DELTA | LIMITED_DEPTH_SNAPSHOT_STREAM | EVENTS

datatype OrderBookStreamSemantics = SNAPSHOT_ONLY | SNAPSHOT_AND_DELTA | LIMITED_DEPTH_SNAPSHOT

datatype ConnectionState = CONNECTING | CONNECTED | RECOVERING | CONN_DEGRADED | CONN_CLOSED

text \<open>A decoded message: the heartbeat texts stay text, everything else is parsed.\<close>

datatype 'j decoded = Plain string | Document 'j

datatype 'j applied = SnapshotApplied "'j decoded" | DeltaApplied "'j decoded"

record ConnectionStateEvent =
  cse_venue :: string
  cse_state :: ConnectionState
  cse_occurred_at :: instant
  cse_reason :: "string option"

record 'j ConnectionReconciliationContext =
  cx_connection_id :: string
  cx_state :: ReconciliationState
  cx_previous_sequence :: "int option"
  cx_snapshot_sequence :: "int option"
  cx_buffered_deltas :: "(int \<times> 'j decoded) list"
  cx_payload_hashes :: "string set"
  cx_payload_hash_order :: "string list"
  cx_connection_epoch :: int
  cx_bootstrap_completed :: bool
  cx_recovery_started_at :: "instant option"
  cx_recovery_completed_at :: "instant option"
  cx_last_recovery_failure :: "string option"

record ('j, 'n) ResilientWebSocketSession =
  ws_venue :: string
  ws_subscription_id :: string
  ws_sequence :: "'j decoded \<Rightarrow> int option"
  ws_exchange_timestamp :: "'j decoded \<Rightarrow> instant option"
  ws_snapshot :: "'j decoded \<Rightarrow> bool"
  ws_delta :: "'j decoded \<Rightarrow> bool"
  ws_heartbeat :: "'j decoded \<Rightarrow> bool"
  ws_normalize :: "'j decoded \<Rightarrow> 'n"
  ws_has_rest_snapshot :: bool
  ws_snapshot_applier :: "('j decoded \<Rightarrow> 'j applied list \<Rightarrow> int option result) option"
  ws_delta_applier :: "('j decoded \<Rightarrow> 'j applied list \<Rightarrow> unit result) option"
  ws_sequence_predecessor :: "'j decoded \<Rightarrow> int option"
  ws_validate_snapshot :: "'j decoded \<Rightarrow> bool"
  ws_maximum_buffered_deltas :: int
  ws_duplicate_cache_size :: int
  ws_classification :: StreamClassification
  ws_order_book_semantics :: "OrderBookStreamSemantics option"
  ws_maximum_reconnects_per_minute :: int
  ws_loads :: "string \<Rightarrow> 'j result"
  ws_sha256 :: "string \<Rightarrow> string"

text \<open>The state the session mutates: its own attributes, the context of the connection, the calls made to the appliers.\<close>

record 'j stream_state =
  ss_state :: ConnectionState
  ss_state_events :: "ConnectionStateEvent list"
  ss_closing :: bool
  ss_reconnects :: "rat list"
  ss_local_sequence :: int
  ss_reconciliation_state :: ReconciliationState
  ss_epoch :: int
  ss_context :: "'j ConnectionReconciliationContext"
  ss_applied :: "'j applied list"

record ('j, 'n) RawVenueMessage =
  rm_venue :: string
  rm_connection_id :: string
  rm_subscription_id :: string
  rm_exchange_timestamp :: "instant option"
  rm_received_at :: instant
  rm_available_at :: instant
  rm_monotonic_received_ns :: int
  rm_venue_sequence :: "int option"
  rm_local_sequence :: int
  rm_is_snapshot :: bool
  rm_is_delta :: bool
  rm_payload :: string
  rm_payload_sha256 :: string
  rm_previous_venue_sequence :: "int option"
  rm_normalized_payload :: 'n
  rm_reconciliation_state :: ReconciliationState
  rm_snapshot_sequence :: "int option"
  rm_connection_epoch :: int
  rm_stream_semantics :: "OrderBookStreamSemantics option"
  rm_bootstrap_completed :: bool
  rm_recovery_started_at :: "instant option"
  rm_recovery_completed_at :: "instant option"
  rm_last_recovery_failure :: "string option"

record 'j arrival =
  ar_raw :: string
  ar_now :: instant
  ar_monotonic_ns :: int
  ar_rest :: "'j decoded result"

text \<open>
  The constructor checks the appliers of snapshot/delta streams and derives the semantics of the
  order book from the classification when none is given.
\<close>

definition session_init :: "('j, 'n) ResilientWebSocketSession \<Rightarrow> ('j, 'n) ResilientWebSocketSession result" where
  "session_init cfg =
     (if ws_classification cfg = SNAPSHOT_DELTA \<and> (ws_snapshot_applier cfg = None \<or> ws_delta_applier cfg = None)
      then Inl (ValueError ''snapshot/delta streams require loader and snapshot/delta appliers'')
      else Inr (case ws_order_book_semantics cfg of
                  Some _ \<Rightarrow> cfg
                | None \<Rightarrow> cfg\<lparr>ws_order_book_semantics :=
                    (case ws_classification cfg of
                       SNAPSHOT_DELTA \<Rightarrow> Some SNAPSHOT_AND_DELTA
                     | LIMITED_DEPTH_SNAPSHOT_STREAM \<Rightarrow> Some LIMITED_DEPTH_SNAPSHOT
                     | EVENTS \<Rightarrow> None)\<rparr>))"

section \<open>The helpers\<close>

type_synonym ('a, 'j) stream_op = "'j stream_state \<Rightarrow> ('a, 'j stream_state) outcome"

abbreviation raiseS :: "error \<Rightarrow> ('a, 'j) stream_op" where
  "raiseS e \<equiv> \<lambda>s. (Inl e, s)"

abbreviation returnS :: "'a \<Rightarrow> ('a, 'j) stream_op" where
  "returnS x \<equiv> \<lambda>s. (Inr x, s)"

abbreviation updateS :: "('j stream_state \<Rightarrow> 'j stream_state) \<Rightarrow> (unit, 'j) stream_op" where
  "updateS f \<equiv> \<lambda>s. (Inr (), f s)"

definition set_state ::
  "('j, 'n) ResilientWebSocketSession \<Rightarrow> instant \<Rightarrow> ConnectionState \<Rightarrow> string option \<Rightarrow> 'j stream_state \<Rightarrow> 'j stream_state" where
  "set_state cfg now st reason s =
     s\<lparr>ss_state := st,
       ss_state_events := ss_state_events s @
         [\<lparr>cse_venue = ws_venue cfg, cse_state = st, cse_occurred_at = now, cse_reason = reason\<rparr>]\<rparr>"

definition on_context ::
  "('j ConnectionReconciliationContext \<Rightarrow> 'j ConnectionReconciliationContext) \<Rightarrow> 'j stream_state \<Rightarrow> 'j stream_state" where
  "on_context f s = s\<lparr>ss_context := f (ss_context s)\<rparr>"

definition set_reconciliation :: "ReconciliationState \<Rightarrow> 'j stream_state \<Rightarrow> 'j stream_state" where
  "set_reconciliation st s = on_context (\<lambda>c. c\<lparr>cx_state := st\<rparr>) (s\<lparr>ss_reconciliation_state := st\<rparr>)"

definition decode :: "('j, 'n) ResilientWebSocketSession \<Rightarrow> string \<Rightarrow> 'j decoded result" where
  "decode cfg raw =
     (if raw = ''pong'' \<or> raw = ''ping'' then Inr (Plain raw)
      else bindE (ws_loads cfg raw) (\<lambda>j. Inr (Document j)))"

definition seen_payload :: "('j, 'n) ResilientWebSocketSession \<Rightarrow> string \<Rightarrow> (bool, 'j) stream_op" where
  "seen_payload cfg digest s =
     (let c = ss_context s;
          remember = (\<lambda>hashes order. (Inr False, on_context (\<lambda>c. c\<lparr>cx_payload_hashes := insert digest hashes,
                        cx_payload_hash_order := order @ [digest]\<rparr>) s))
      in if digest \<in> cx_payload_hashes c then (Inr True, s)
         else if ws_duplicate_cache_size cfg \<le> int (length (cx_payload_hash_order c)) then
           (case cx_payload_hash_order c of
              [] \<Rightarrow> (Inl (IndexError ''pop from an empty deque''), s)
            | expired # order \<Rightarrow>
                if expired \<in> cx_payload_hashes c
                then remember (cx_payload_hashes c - {expired}) order
                else (Inl (KeyError expired), on_context (\<lambda>c. c\<lparr>cx_payload_hash_order := order\<rparr>) s))
         else remember (cx_payload_hashes c) (cx_payload_hash_order c))"

definition buffer_delta ::
  "('j, 'n) ResilientWebSocketSession \<Rightarrow> int option \<Rightarrow> 'j decoded \<Rightarrow> (unit, 'j) stream_op" where
  "buffer_delta cfg sequence d s =
     (case sequence of
        None \<Rightarrow> (Inl (RuntimeError ''delta sequence is required''), s)
      | Some n \<Rightarrow>
          if ws_maximum_buffered_deltas cfg \<le> int (length (cx_buffered_deltas (ss_context s)))
          then (Inl (RuntimeError ''delta recovery buffer overflow''), set_reconciliation STREAM_DEGRADED s)
          else (Inr (), on_context (\<lambda>c. c\<lparr>cx_buffered_deltas := cx_buffered_deltas c @ [(n, d)]\<rparr>)
                  (set_reconciliation BUFFERING_DELTAS s)))"

definition is_contiguous ::
  "('j, 'n) ResilientWebSocketSession \<Rightarrow> int option \<Rightarrow> int option \<Rightarrow> 'j decoded \<Rightarrow> bool" where
  "is_contiguous cfg previous current d =
     (case (current, previous) of
        (Some n, Some p) \<Rightarrow>
          (case ws_sequence_predecessor cfg d of
             Some q \<Rightarrow> p < n \<and> q = p
           | None \<Rightarrow> n = p + 1)
      | _ \<Rightarrow> False)"

definition apply_delta :: "('j, 'n) ResilientWebSocketSession \<Rightarrow> 'j decoded \<Rightarrow> (unit, 'j) stream_op" where
  "apply_delta cfg d s =
     (case ws_delta_applier cfg of
        None \<Rightarrow> (Inl (RuntimeError ''delta applier unavailable''), s)
      | Some f \<Rightarrow> (f d (ss_applied s), s\<lparr>ss_applied := ss_applied s @ [DeltaApplied d]\<rparr>))"

definition set_previous :: "int option \<Rightarrow> 'j stream_state \<Rightarrow> 'j stream_state" where
  "set_previous n = on_context (\<lambda>c. c\<lparr>cx_previous_sequence := n\<rparr>)"

definition recovered :: "instant \<Rightarrow> 'j stream_state \<Rightarrow> 'j stream_state" where
  "recovered now s =
     set_reconciliation SYNCHRONIZED
       (on_context (\<lambda>c. c\<lparr>cx_buffered_deltas := [], cx_bootstrap_completed := True,
          cx_recovery_completed_at := Some now, cx_last_recovery_failure := None\<rparr>) s)"

section \<open>Snapshots of the stream\<close>

text \<open>\<open>context.previous_sequence or current - 1\<close>: the sequence zero counts as absent.\<close>

definition already_applied :: "int option \<Rightarrow> int \<Rightarrow> bool" where
  "already_applied previous current \<longleftrightarrow>
     current \<le> (case previous of None \<Rightarrow> current - 1 | Some p \<Rightarrow> if p = 0 then current - 1 else p)"

fun replay_stream :: "('j, 'n) ResilientWebSocketSession \<Rightarrow> (int \<times> 'j decoded) list \<Rightarrow> (unit, 'j) stream_op" where
  "replay_stream cfg [] s = (Inr (), s)"
| "replay_stream cfg ((current, d) # rest) s =
     (let previous = cx_previous_sequence (ss_context s) in
      if already_applied previous current then replay_stream cfg rest s
      else if \<not> is_contiguous cfg previous (Some current) d
      then (Inl (RuntimeError ''replayed delta predecessor is not continuous''), set_reconciliation STREAM_DEGRADED s)
      else case apply_delta cfg d s of
             (Inl e, s') \<Rightarrow> (Inl e, s')
           | (Inr _, s') \<Rightarrow> replay_stream cfg rest (set_previous (Some current) s'))"

definition apply_snapshot ::
  "('j, 'n) ResilientWebSocketSession \<Rightarrow> 'j decoded \<Rightarrow> int option \<Rightarrow> (int option, 'j) stream_op" where
  "apply_snapshot cfg d sequence s =
     (case ws_snapshot_applier cfg of
        None \<Rightarrow> (Inr sequence, s)
      | Some f \<Rightarrow> (f d (ss_applied s), s\<lparr>ss_applied := ss_applied s @ [SnapshotApplied d]\<rparr>))"

definition apply_stream_snapshot ::
  "('j, 'n) ResilientWebSocketSession \<Rightarrow> instant \<Rightarrow> 'j decoded \<Rightarrow> int option \<Rightarrow> (unit, 'j) stream_op" where
  "apply_stream_snapshot cfg now d sequence s =
     (if \<not> ws_validate_snapshot cfg d
      then (Inl (RuntimeError ''order-book snapshot contract validation failed''), set_reconciliation STREAM_DEGRADED s)
      else bindS (apply_snapshot cfg d sequence) (\<lambda>applied_sequence s.
        if ws_order_book_semantics cfg = Some SNAPSHOT_AND_DELTA \<and> applied_sequence = None
        then (Inl (RuntimeError ''snapshot/delta stream snapshot sequence is required''), set_reconciliation STREAM_DEGRADED s)
        else
          bindS (updateS (on_context (\<lambda>c. c\<lparr>cx_snapshot_sequence := applied_sequence, cx_previous_sequence := applied_sequence\<rparr>))) (\<lambda>_.
          bindS (\<lambda>s. if ws_order_book_semantics cfg = Some SNAPSHOT_AND_DELTA
                     then replay_stream cfg (sort_key fst (cx_buffered_deltas (ss_context s))) (set_reconciliation REPLAYING_DELTAS s)
                     else (Inr (), s)) (\<lambda>_.
          updateS (recovered now))) s)
        (set_reconciliation APPLYING_SNAPSHOT s))"

section \<open>REST snapshots\<close>

fun replay_rest :: "('j, 'n) ResilientWebSocketSession \<Rightarrow> int \<Rightarrow> (int \<times> 'j decoded) list \<Rightarrow> (int, 'j) stream_op" where
  "replay_rest cfg expected [] s = (Inr expected, s)"
| "replay_rest cfg expected ((current, d) # rest) s =
     (if current \<noteq> expected
      then (Inl (RuntimeError ''replayed delta sequence is not continuous''), set_reconciliation STREAM_DEGRADED s)
      else case apply_delta cfg d s of
             (Inl e, s') \<Rightarrow> (Inl e, s')
           | (Inr _, s') \<Rightarrow> replay_rest cfg (expected + 1) rest s')"

definition apply_snapshot_and_replay ::
  "('j, 'n) ResilientWebSocketSession \<Rightarrow> instant \<Rightarrow> 'j decoded \<Rightarrow> (unit, 'j) stream_op" where
  "apply_snapshot_and_replay cfg now snapshot s =
     (if ws_snapshot_applier cfg = None \<or> ws_delta_applier cfg = None
      then (Inl (RuntimeError ''REST snapshot recovery unavailable''), s)
      else bindS (apply_snapshot cfg snapshot None) (\<lambda>snapshot_sequence.
        case snapshot_sequence of
          None \<Rightarrow> raiseS (RuntimeError ''REST snapshot sequence is required'')
        | Some n \<Rightarrow>
            bindS (updateS (on_context (\<lambda>c. c\<lparr>cx_snapshot_sequence := Some n\<rparr>))) (\<lambda>_.
            bindS (\<lambda>s. replay_rest cfg (n + 1)
                     (sort_key fst (filter (\<lambda>item. n < fst item) (cx_buffered_deltas (ss_context s))))
                     (set_reconciliation DELTA_REPLAYING s)) (\<lambda>expected.
            bindS (updateS (set_previous (Some (expected - 1)))) (\<lambda>_.
            updateS (recovered now)))))
        (set_reconciliation SNAPSHOT_LOADING s))"

definition recover ::
  "('j, 'n) ResilientWebSocketSession \<Rightarrow> 'j arrival \<Rightarrow> int \<Rightarrow> 'j decoded \<Rightarrow> (unit, 'j) stream_op" where
  "recover cfg ar sequence d s =
     bindS (buffer_delta cfg (Some sequence) d) (\<lambda>_ s.
       if \<not> ws_has_rest_snapshot cfg \<or> ws_snapshot_applier cfg = None \<or> ws_delta_applier cfg = None
       then (Inl (RuntimeError ''REST snapshot recovery unavailable''),
             set_state cfg (ar_now ar) CONN_DEGRADED (Some ''sequence gap without snapshot semantics'') s)
       else let s1 = set_reconciliation SNAPSHOT_LOADING s in
            case ar_rest ar of
              Inl e \<Rightarrow> (Inl e, s1)
            | Inr snapshot \<Rightarrow>
                bindS (apply_snapshot_and_replay cfg (ar_now ar) snapshot) (\<lambda>_.
                updateS (\<lambda>s. set_state cfg (ar_now ar) CONNECTED
                  (Some (''REST snapshot recovered for '' @ cx_connection_id (ss_context s))) s)) s1)
     (set_reconciliation GAP_DETECTED (set_state cfg (ar_now ar) RECOVERING (Some ''sequence gap'') s))"

text \<open>What the reader task put on the queue while the REST snapshot was loading: texts, or the exception that ended it.\<close>

fun drain_queue :: "('j, 'n) ResilientWebSocketSession \<Rightarrow> string result list \<Rightarrow> (unit, 'j) stream_op" where
  "drain_queue cfg [] s = (Inr (), s)"
| "drain_queue cfg (Inl e # rest) s = (Inl e, s)"
| "drain_queue cfg (Inr raw # rest) s =
     (case decode cfg raw of
        Inl e \<Rightarrow> (Inl e, s)
      | Inr d \<Rightarrow>
          if ws_heartbeat cfg d then drain_queue cfg rest s
          else if \<not> ws_delta cfg d
          then (Inl (RuntimeError ''non-delta message received during REST bootstrap''), s)
          else bindS (seen_payload cfg (ws_sha256 cfg raw)) (\<lambda>seen.
               bindS (if seen then returnS () else buffer_delta cfg (ws_sequence cfg d) d) (\<lambda>_.
               drain_queue cfg rest)) s)"

definition bootstrap ::
  "('j, 'n) ResilientWebSocketSession \<Rightarrow> instant \<Rightarrow> 'j decoded result \<Rightarrow> string result list \<Rightarrow> (unit, 'j) stream_op" where
  "bootstrap cfg now rest queued s =
     (if \<not> ws_has_rest_snapshot cfg then (Inl (RuntimeError ''REST snapshot recovery unavailable''), s)
      else let s1 = set_reconciliation SNAPSHOT_LOADING (set_reconciliation BUFFERING_DELTAS s) in
           case rest of
             Inl e \<Rightarrow> (Inl e, s1)
           | Inr snapshot \<Rightarrow> bindS (drain_queue cfg queued) (\<lambda>_. apply_snapshot_and_replay cfg now snapshot) s1)"

section \<open>One message of the stream\<close>

text \<open>
  What the message does to the order book or the sequence of events; the answer says whether it is
  published, a \<open>continue\<close> of the loop being \<open>False\<close>.
\<close>

definition route_message ::
  "('j, 'n) ResilientWebSocketSession \<Rightarrow> 'j arrival \<Rightarrow> 'j decoded \<Rightarrow> int option \<Rightarrow> (bool, 'j) stream_op" where
  "route_message cfg ar d current s =
     (let previous = cx_previous_sequence (ss_context s) in
      if ws_order_book_semantics cfg \<noteq> None then
        if ws_snapshot cfg d
        then bindS (apply_stream_snapshot cfg (ar_now ar) d current) (\<lambda>_. returnS True) s
        else if ws_delta cfg d then
          if cx_state (ss_context s) \<noteq> SYNCHRONIZED
          then bindS (buffer_delta cfg current d) (\<lambda>_. returnS False) s
          else if \<not> is_contiguous cfg previous current d then
            (case current of
               None \<Rightarrow> (Inl (RuntimeError ''delta sequence is required''), s)
             | Some n \<Rightarrow> bindS (recover cfg ar n d) (\<lambda>_. returnS False) s)
          else bindS (apply_delta cfg d) (\<lambda>_. bindS (updateS (set_previous current)) (\<lambda>_. returnS True)) s
        else (Inl (RuntimeError ''order-book payload is neither snapshot nor delta''), s)
      else case (current, previous) of
             (Some n, Some p) \<Rightarrow>
               if n \<le> p then (Inr False, set_state cfg (ar_now ar) CONN_DEGRADED (Some ''out-of-order sequence'') s)
               else if n \<noteq> p + 1 then bindS (recover cfg ar n d) (\<lambda>_. returnS False) s
               else (Inr True, s)
           | _ \<Rightarrow> (Inr True, s))"

definition publish ::
  "('j, 'n) ResilientWebSocketSession \<Rightarrow> 'j arrival \<Rightarrow> 'j decoded \<Rightarrow> int option \<Rightarrow> 'j stream_state \<Rightarrow>
   ('j, 'n) RawVenueMessage \<times> 'j stream_state" where
  "publish cfg ar d current s =
     (let s1 = set_previous current s; s2 = s1\<lparr>ss_local_sequence := ss_local_sequence s1 + 1\<rparr>; c = ss_context s2 in
      (\<lparr>rm_venue = ws_venue cfg, rm_connection_id = cx_connection_id c, rm_subscription_id = ws_subscription_id cfg,
        rm_exchange_timestamp = ws_exchange_timestamp cfg d, rm_received_at = ar_now ar, rm_available_at = ar_now ar,
        rm_monotonic_received_ns = ar_monotonic_ns ar, rm_venue_sequence = current,
        rm_local_sequence = ss_local_sequence s2, rm_is_snapshot = ws_snapshot cfg d,
        rm_is_delta = (ws_delta cfg d \<and> ws_classification cfg = SNAPSHOT_DELTA),
        rm_payload = ar_raw ar, rm_payload_sha256 = ws_sha256 cfg (ar_raw ar),
        rm_previous_venue_sequence = ws_sequence_predecessor cfg d, rm_normalized_payload = ws_normalize cfg d,
        rm_reconciliation_state = cx_state c, rm_snapshot_sequence = cx_snapshot_sequence c,
        rm_connection_epoch = cx_connection_epoch c, rm_stream_semantics = ws_order_book_semantics cfg,
        rm_bootstrap_completed = cx_bootstrap_completed c, rm_recovery_started_at = cx_recovery_started_at c,
        rm_recovery_completed_at = cx_recovery_completed_at c, rm_last_recovery_failure = cx_last_recovery_failure c\<rparr>,
       s2))"

definition process_message ::
  "('j, 'n) ResilientWebSocketSession \<Rightarrow> 'j arrival \<Rightarrow> (('j, 'n) RawVenueMessage option, 'j) stream_op" where
  "process_message cfg ar s =
     (case decode cfg (ar_raw ar) of
        Inl e \<Rightarrow> (Inl e, s)
      | Inr d \<Rightarrow>
          if ws_heartbeat cfg d then (Inr None, s)
          else bindS (seen_payload cfg (ws_sha256 cfg (ar_raw ar))) (\<lambda>seen.
               if seen then returnS None
               else bindS (route_message cfg ar d (ws_sequence cfg d)) (\<lambda>published s.
                    if published then apfst (\<lambda>m. Inr (Some m)) (publish cfg ar d (ws_sequence cfg d) s)
                    else (Inr None, s))) s)"

section \<open>Connections\<close>

text \<open>The messages of one connection until it ends: with an exception, or when the session is closed.\<close>

fun consume ::
  "('j, 'n) ResilientWebSocketSession \<Rightarrow> 'j arrival result list \<Rightarrow> 'j stream_state \<Rightarrow>
   ('j, 'n) RawVenueMessage list \<times> error option \<times> 'j stream_state" where
  "consume cfg [] s = ([], None, s)"
| "consume cfg (item # rest) s =
     (if ss_closing s then ([], None, s)
      else case item of
             Inl e \<Rightarrow> ([], Some e, s)
           | Inr ar \<Rightarrow>
               (case process_message cfg ar s of
                  (Inl e, s') \<Rightarrow> ([], Some e, s')
                | (Inr None, s') \<Rightarrow> consume cfg rest s'
                | (Inr (Some m), s') \<Rightarrow> apfst ((#) m) (consume cfg rest s')))"

definition fresh_context :: "instant \<Rightarrow> string \<Rightarrow> int \<Rightarrow> 'j ConnectionReconciliationContext" where
  "fresh_context now connection_id epoch =
     \<lparr>cx_connection_id = connection_id, cx_state = DISCONNECTED, cx_previous_sequence = None,
      cx_snapshot_sequence = None, cx_buffered_deltas = [], cx_payload_hashes = {}, cx_payload_hash_order = [],
      cx_connection_epoch = epoch, cx_bootstrap_completed = False, cx_recovery_started_at = Some now,
      cx_recovery_completed_at = None, cx_last_recovery_failure = None\<rparr>"

text \<open>
  An attempt of the reconnect loop. \<open>monotonic\<close> is in seconds; an attempt beyond the limit of the
  last minute only marks the session degraded.
\<close>

definition begin_connection ::
  "('j, 'n) ResilientWebSocketSession \<Rightarrow> rat \<Rightarrow> instant \<Rightarrow> string \<Rightarrow> 'j stream_state \<Rightarrow> bool \<times> 'j stream_state" where
  "begin_connection cfg clock now connection_id s =
     (let s1 = s\<lparr>ss_reconnects := dropWhile (\<lambda>r. 60 \<le> clock - r) (ss_reconnects s)\<rparr> in
      if ws_maximum_reconnects_per_minute cfg \<le> int (length (ss_reconnects s1))
      then (False, set_state cfg now CONN_DEGRADED (Some ''maximum reconnect rate exceeded'') s1)
      else let s2 = set_state cfg now CONNECTING None (s1\<lparr>ss_reconnects := ss_reconnects s1 @ [clock]\<rparr>);
               s3 = s2\<lparr>ss_epoch := ss_epoch s2 + 1,
                       ss_context := fresh_context now connection_id (ss_epoch s2 + 1)\<rparr>
           in (True, set_reconciliation WAITING_FOR_SNAPSHOT s3))"

record 'j link =
  li_monotonic :: rat
  li_now :: instant
  li_connection_id :: string
  li_connect :: "bool result"
  li_rest :: "'j decoded result"
  li_queued :: "string result list"
  li_items :: "'j arrival result list"

text \<open>
  \<open>li_connect\<close> is the outcome of connecting and subscribing: an exception, or whether the
  acknowledgement was valid (also when there is nothing to subscribe to).
\<close>

definition establish :: "('j, 'n) ResilientWebSocketSession \<Rightarrow> 'j link \<Rightarrow> (unit, 'j) stream_op" where
  "establish cfg link s =
     (case li_connect link of
        Inl e \<Rightarrow> (Inl e, s)
      | Inr acknowledged \<Rightarrow>
          if \<not> acknowledged then (Inl (RuntimeError ''subscription acknowledgement validation failed''), s)
          else let s1 = set_state cfg (li_now link) CONNECTED None s in
               if ws_classification cfg = SNAPSHOT_DELTA \<and> ws_has_rest_snapshot cfg
               then bootstrap cfg (li_now link) (li_rest link) (li_queued link) s1
               else if ws_order_book_semantics cfg = None then (Inr (), set_reconciliation SYNCHRONIZED s1)
               else (Inr (), s1))"

text \<open>The exceptions the reconnect loop handles; the rest leave the generator.\<close>

fun reconnects_after :: "error \<Rightarrow> bool" where
  "reconnects_after (RuntimeError _) = True"
| "reconnects_after (ValueError _) = True"
| "reconnects_after (ExternalError name) \<longleftrightarrow> name = ''OSError'' \<or> name = ''TimeoutError'' \<or> name = ''WebSocketException''"
| "reconnects_after (ExecutionAdapterError _) = True"
| "reconnects_after (CollectorLeaseConflict _) = True"
| "reconnects_after _ = False"

definition disconnect :: "('j, 'n) ResilientWebSocketSession \<Rightarrow> instant \<Rightarrow> error \<Rightarrow> 'j stream_state \<Rightarrow> 'j stream_state" where
  "disconnect cfg now e s =
     set_state cfg now CONN_DEGRADED (Some (error_message e))
       (on_context (\<lambda>c. c\<lparr>cx_last_recovery_failure := Some (error_message e)\<rparr>) s)"

text \<open>One round of the reconnect loop: whether a connection was attempted, its messages, and an exception that leaves the generator.\<close>

definition run_link ::
  "('j, 'n) ResilientWebSocketSession \<Rightarrow> 'j link \<Rightarrow> 'j stream_state \<Rightarrow>
   (bool \<times> ('j, 'n) RawVenueMessage list \<times> error option) \<times> 'j stream_state" where
  "run_link cfg link s =
     (case begin_connection cfg (li_monotonic link) (li_now link) (li_connection_id link) s of
        (False, s1) \<Rightarrow> ((False, [], None), s1)
      | (True, s1) \<Rightarrow>
          let (ms, failure, s2) =
            (case establish cfg link s1 of
               (Inl e, s2) \<Rightarrow> ([], Some e, s2)
             | (Inr _, s2) \<Rightarrow> consume cfg (li_items link) s2)
          in case failure of
               None \<Rightarrow> ((True, ms, None), s2)
             | Some e \<Rightarrow>
                 if reconnects_after e then ((True, ms, None), disconnect cfg (li_now link) e s2)
                 else ((True, ms, Some e), s2))"

fun run_session ::
  "('j, 'n) ResilientWebSocketSession \<Rightarrow> 'j link list \<Rightarrow> 'j stream_state \<Rightarrow>
   rat list \<times> ('j, 'n) RawVenueMessage list \<times> 'j stream_state" where
  "run_session cfg [] s = ([], [], s)"
| "run_session cfg (link # links) s =
     (if ss_closing s then ([], [], set_state cfg (li_now link) CONN_CLOSED None s)
      else let ((attempted, ms, raised), s1) = run_link cfg link s;
               tried = (if attempted then [li_monotonic link] else [])
           in case raised of
                Some e \<Rightarrow> (tried, ms, s1)
              | None \<Rightarrow> let (ts, ms', s2) = run_session cfg links s1 in (tried @ ts, ms @ ms', s2))"

definition initial_state :: "'j stream_state" where
  "initial_state =
     \<lparr>ss_state = CONN_CLOSED, ss_state_events = [], ss_closing = False, ss_reconnects = [], ss_local_sequence = 0,
      ss_reconciliation_state = DISCONNECTED, ss_epoch = 0, ss_context = fresh_context 0 [] 0, ss_applied = []\<rparr>"

definition close_session :: "('j, 'n) ResilientWebSocketSession \<Rightarrow> instant \<Rightarrow> 'j stream_state \<Rightarrow> 'j stream_state" where
  "close_session cfg now s = set_state cfg now CONN_CLOSED (Some ''graceful shutdown'') (s\<lparr>ss_closing := True\<rparr>)"

end
