(* ===== verification/Stream_Safety.thy ===== *)
theory Stream_Safety
  imports Stream_Reconciliation
begin

text \<open>
  What the reconciled streams guarantee: the calls to the two appliers never skip or repeat an update
  of the order book, only synchronized messages are published, and reconnecting is rate limited.
\<close>

section \<open>Gapless order books\<close>

text \<open>
  \<open>applied_sequence\<close> is the sequence number the order book has after a call to an applier: the answer
  of the snapshot applier, or the number of the delta. A delta continues the book if its number is
  the next one or if it names the book's number as its predecessor.
\<close>

fun applied_sequence :: "('j, 'n) ResilientWebSocketSession \<Rightarrow> 'j applied list \<Rightarrow> 'j applied \<Rightarrow> int option" where
  "applied_sequence cfg past (SnapshotApplied d) =
     (case ws_snapshot_applier cfg of
        None \<Rightarrow> None
      | Some f \<Rightarrow> (case f d past of Inl _ \<Rightarrow> None | Inr n \<Rightarrow> n))"
| "applied_sequence cfg past (DeltaApplied d) = ws_sequence cfg d"

definition continues :: "('j, 'n) ResilientWebSocketSession \<Rightarrow> int option \<Rightarrow> 'j decoded \<Rightarrow> bool" where
  "continues cfg book d \<longleftrightarrow>
     (case (book, ws_sequence cfg d) of
        (Some p, Some n) \<Rightarrow> p < n \<and> (n = p + 1 \<or> ws_sequence_predecessor cfg d = Some p)
      | _ \<Rightarrow> False)"

fun book_sequence ::
  "('j, 'n) ResilientWebSocketSession \<Rightarrow> 'j applied list \<Rightarrow> int option \<Rightarrow> 'j applied list \<Rightarrow> int option" where
  "book_sequence cfg past book [] = book"
| "book_sequence cfg past book (a # calls) = book_sequence cfg (past @ [a]) (applied_sequence cfg past a) calls"

fun gapless ::
  "('j, 'n) ResilientWebSocketSession \<Rightarrow> 'j applied list \<Rightarrow> int option \<Rightarrow> 'j applied list \<Rightarrow> bool" where
  "gapless cfg past book [] \<longleftrightarrow> True"
| "gapless cfg past book (a # calls) \<longleftrightarrow>
     (case a of SnapshotApplied _ \<Rightarrow> True | DeltaApplied d \<Rightarrow> continues cfg book d) \<and>
     gapless cfg (past @ [a]) (applied_sequence cfg past a) calls"

lemma book_sequence_snoc [simp]:
  "book_sequence cfg past book (calls @ [a]) = applied_sequence cfg (past @ calls) a"
  by (induction calls arbitrary: past book) auto

lemma gapless_snoc [simp]:
  "gapless cfg past book (calls @ [a]) \<longleftrightarrow>
     gapless cfg past book calls \<and>
     (case a of SnapshotApplied _ \<Rightarrow> True | DeltaApplied d \<Rightarrow> continues cfg (book_sequence cfg past book calls) d)"
  by (induction calls arbitrary: past book) (auto split: applied.splits)

abbreviation book_at :: "('j, 'n) ResilientWebSocketSession \<Rightarrow> 'j stream_state \<Rightarrow> int option" where
  "book_at cfg s \<equiv> book_sequence cfg [] None (ss_applied s)"

abbreviation gapless_at :: "('j, 'n) ResilientWebSocketSession \<Rightarrow> 'j stream_state \<Rightarrow> bool" where
  "gapless_at cfg s \<equiv> gapless cfg [] None (ss_applied s)"

lemma contiguous_continues:
  "is_contiguous cfg book (ws_sequence cfg d) d \<Longrightarrow> continues cfg book d"
  by (auto simp: is_contiguous_def continues_def split: option.splits)

subsection \<open>What the helpers leave alone\<close>

lemmas context_defs = on_context_def set_reconciliation_def set_previous_def recovered_def set_state_def

lemma context_simps [simp]:
  "ss_applied (on_context f s) = ss_applied s" "ss_context (on_context f s) = f (ss_context s)"
  "ss_applied (set_reconciliation st s) = ss_applied s"
  "ss_context (set_reconciliation st s) = (ss_context s)\<lparr>cx_state := st\<rparr>"
  "ss_applied (set_previous n s) = ss_applied s"
  "ss_context (set_previous n s) = (ss_context s)\<lparr>cx_previous_sequence := n\<rparr>"
  "ss_applied (set_state cfg now cst reason s) = ss_applied s"
  "ss_context (set_state cfg now cst reason s) = ss_context s"
  "ss_applied (recovered now s) = ss_applied s"
  "cx_state (ss_context (recovered now s)) = SYNCHRONIZED"
  "cx_buffered_deltas (ss_context (recovered now s)) = []"
  "cx_bootstrap_completed (ss_context (recovered now s))"
  "cx_previous_sequence (ss_context (recovered now s)) = cx_previous_sequence (ss_context s)"
  "ss_local_sequence (on_context f s) = ss_local_sequence s"
  "ss_local_sequence (set_reconciliation st s) = ss_local_sequence s"
  "ss_local_sequence (set_previous n s) = ss_local_sequence s"
  "ss_local_sequence (set_state cfg now cst reason s) = ss_local_sequence s"
  "ss_local_sequence (recovered now s) = ss_local_sequence s"
  "ss_closing (set_previous n s) = ss_closing s" "ss_reconnects (set_previous n s) = ss_reconnects s"
  by (simp_all add: context_defs)

lemma bindS_cases:
  assumes "bindS m f s = (r, s')"
  obtains e s1 where "m s = (Inl e, s')" "r = Inl e"
  | x s1 where "m s = (Inr x, s1)" "f x s1 = (r, s')"
  using assms by (auto simp: bindS_def split: prod.splits sum.splits)

lemma apply_delta_cases:
  assumes "apply_delta cfg d s = (r, s')"
  obtains "s' = s" "r = Inl (RuntimeError ''delta applier unavailable'')"
  | "s' = s\<lparr>ss_applied := ss_applied s @ [DeltaApplied d]\<rparr>"
  using assms by (auto simp: apply_delta_def split: option.splits)

subsection \<open>Replaying\<close>

definition numbered :: "('j, 'n) ResilientWebSocketSession \<Rightarrow> (int \<times> 'j decoded) list \<Rightarrow> bool" where
  "numbered cfg items \<longleftrightarrow> (\<forall>(n, d) \<in> set items. ws_sequence cfg d = Some n)"

lemma replay_rest_gapless:
  assumes "replay_rest cfg expected items s = (r, s')" "numbered cfg items" "gapless_at cfg s"
    "book_at cfg s = Some (expected - 1)"
  shows "gapless_at cfg s' \<and> (\<forall>n. r = Inr n \<longrightarrow> book_at cfg s' = Some (n - 1))"
  using assms
proof (induction cfg expected items s rule: replay_rest.induct)
  case (2 cfg expected current d rest s)
  have seq: "ws_sequence cfg d = Some current" using 2 by (simp add: numbered_def)
  show ?case
  proof (cases "current = expected")
    case False
    then show ?thesis using 2 by auto
  next
    case True
    obtain r1 s1 where a: "apply_delta cfg d s = (r1, s1)" by fastforce
    from a show ?thesis
    proof (cases rule: apply_delta_cases)
      case 1
      then show ?thesis using 2 a True by auto
    next
      case s1: 2
      have c: "continues cfg (book_at cfg s) d" using 2 True seq by (simp add: continues_def)
      show ?thesis
      proof (cases r1)
        case (Inl e)
        then show ?thesis using 2 a True s1 c by auto
      next
        case (Inr u)
        then show ?thesis using "2.IH" [OF _ a [symmetric] Inr] "2.prems" True s1 c seq a by (simp add: numbered_def)
      qed
    qed
  qed
qed auto

text \<open>A replay after a stream snapshot leaves the book at its number or at that of a replayed delta beyond it.\<close>

definition moved_to :: "int option \<Rightarrow> int set \<Rightarrow> int option \<Rightarrow> bool" where
  "moved_to start numbers book \<longleftrightarrow>
     book = start \<or> (\<exists>n m. start = Some n \<and> book = Some m \<and> n < m \<and> m \<in> numbers)"

lemma moved_to_simps [simp]: "moved_to start numbers start" "moved_to start {} book \<longleftrightarrow> book = start"
  by (auto simp: moved_to_def)

lemma moved_to_mono: "moved_to start A book \<Longrightarrow> A \<subseteq> B \<Longrightarrow> moved_to start B book"
  by (auto simp: moved_to_def)

lemma moved_to_step: "moved_to (Some m) A book \<Longrightarrow> n < m \<Longrightarrow> moved_to (Some n) (insert m A) book"
  by (auto simp: moved_to_def)

lemma replay_stream_gapless:
  assumes "replay_stream cfg items s = (r, s')" "numbered cfg items" "gapless_at cfg s"
    "book_at cfg s = cx_previous_sequence (ss_context s)"
  shows "gapless_at cfg s' \<and>
    (\<forall>u. r = Inr u \<longrightarrow> moved_to (book_at cfg s) (fst ` set items) (book_at cfg s'))"
  using assms
proof (induction cfg items s rule: replay_stream.induct)
  case (2 cfg current d rest s)
  let ?prev = "cx_previous_sequence (ss_context s)"
  have seq: "ws_sequence cfg d = Some current" using 2 by (simp add: numbered_def)
  have num: "numbered cfg rest" using 2 by (simp add: numbered_def)
  show ?case
  proof (cases "already_applied ?prev current")
    case True
    then have "replay_stream cfg rest s = (r, s')" using "2.prems"(1) by (simp add: Let_def)
    from "2.IH"(1) [OF refl True this num "2.prems"(3,4)] show ?thesis
      by (auto elim: moved_to_mono)
  next
    case ahead: False
    show ?thesis
    proof (cases "is_contiguous cfg ?prev (Some current) d")
      case False
      then show ?thesis using 2 ahead by (auto simp: Let_def)
    next
      case True
      obtain r1 s1 where a: "apply_delta cfg d s = (r1, s1)" by fastforce
      have c: "continues cfg (book_at cfg s) d" using True contiguous_continues [of cfg ?prev d] 2 seq by simp
      from a show ?thesis
      proof (cases rule: apply_delta_cases)
        case 1
        then show ?thesis using 2 a True ahead by (auto simp: Let_def)
      next
        case s1: 2
        show ?thesis
        proof (cases r1)
          case (Inl e)
          then show ?thesis using 2 a True ahead s1 c by (auto simp: Let_def)
        next
          case (Inr u)
          let ?s2 = "set_previous (Some current) s1"
          have rep: "replay_stream cfg rest ?s2 = (r, s')"
            using "2.prems"(1) a True ahead Inr by (simp add: Let_def)
          have at: "gapless_at cfg ?s2" "book_at cfg ?s2 = Some current"
            using s1 c seq "2.prems"(3) by simp_all
          note ih = "2.IH"(2) [OF refl ahead _ a [symmetric] Inr rep num at(1)]
          obtain p where p: "book_at cfg s = Some p" "p < current"
            using c seq by (auto simp: continues_def split: option.splits)
          show ?thesis using ih True at p by (auto intro: moved_to_step)
        qed
      qed
    qed
  qed
qed auto

subsection \<open>Snapshots and recovery\<close>

text \<open>A book that is in step with the connection, and what a connection that is not may hold.\<close>

definition settled :: "('j, 'n) ResilientWebSocketSession \<Rightarrow> 'j stream_state \<Rightarrow> bool" where
  "settled cfg s \<longleftrightarrow>
     gapless_at cfg s \<and> cx_state (ss_context s) = SYNCHRONIZED \<and> cx_buffered_deltas (ss_context s) = [] \<and>
     cx_previous_sequence (ss_context s) = book_at cfg s"

definition pending :: "('j, 'n) ResilientWebSocketSession \<Rightarrow> 'j stream_state \<Rightarrow> bool" where
  "pending cfg s \<longleftrightarrow> gapless_at cfg s \<and> numbered cfg (cx_buffered_deltas (ss_context s))"

lemma settled_pending: "settled cfg s \<Longrightarrow> pending cfg s"
  by (simp add: settled_def pending_def numbered_def)

lemma pending_context [simp]:
  "pending cfg (set_reconciliation st s) = pending cfg s" "pending cfg (set_state cfg' now cst reason s) = pending cfg s"
  "pending cfg (set_previous n s) = pending cfg s"
  by (simp_all add: pending_def)

lemma numbered_simps [simp]:
  "numbered cfg []" "numbered cfg ((n, d) # items) \<longleftrightarrow> ws_sequence cfg d = Some n \<and> numbered cfg items"
  "numbered cfg (sort_key f items) \<longleftrightarrow> numbered cfg items"
  "numbered cfg items \<Longrightarrow> numbered cfg (filter P items)"
  "numbered cfg (items @ [(n, d)]) \<longleftrightarrow> numbered cfg items \<and> ws_sequence cfg d = Some n"
  by (auto simp: numbered_def)

lemma rest_snapshot_settles:
  assumes "apply_snapshot_and_replay cfg now d s = (r, s')" "pending cfg s"
  shows "gapless_at cfg s' \<and> (\<forall>u. r = Inr u \<longrightarrow> settled cfg s')"
proof (cases "ws_snapshot_applier cfg = None \<or> ws_delta_applier cfg = None")
  case True
  then show ?thesis using assms by (auto simp: apply_snapshot_and_replay_def pending_def)
next
  case False
  then obtain f where f: "ws_snapshot_applier cfg = Some f" by auto
  define s1 where "s1 = (set_reconciliation SNAPSHOT_LOADING s)\<lparr>ss_applied := ss_applied s @ [SnapshotApplied d]\<rparr>"
  have a: "apply_snapshot cfg d None (set_reconciliation SNAPSHOT_LOADING s) = (f d (ss_applied s), s1)"
    by (simp add: apply_snapshot_def f s1_def)
  show ?thesis
  proof (cases "\<exists>n. f d (ss_applied s) = Inr (Some n)")
    case False
    then have "s' = s1 \<and> (\<exists>e. r = Inl e)"
      using assms(1) \<open>\<not> (_ \<or> _)\<close> a
      by (auto simp: apply_snapshot_and_replay_def bindS_def split: sum.splits option.splits)
    then show ?thesis using assms by (auto simp: s1_def pending_def)
  next
    case True
    then obtain n where n: "f d (ss_applied s) = Inr (Some n)" by blast
    define s2 where "s2 = set_reconciliation DELTA_REPLAYING (on_context (\<lambda>c. c\<lparr>cx_snapshot_sequence := Some n\<rparr>) s1)"
    define items where "items = sort_key fst (filter (\<lambda>item. n < fst item) (cx_buffered_deltas (ss_context s)))"
    obtain r3 s3 where rep: "replay_rest cfg (n + 1) items s2 = (r3, s3)" by fastforce
    have "gapless_at cfg s3 \<and> (\<forall>m. r3 = Inr m \<longrightarrow> book_at cfg s3 = Some (m - 1))"
      using replay_rest_gapless [OF rep] assms(2) f n by (simp add: items_def s2_def s1_def pending_def)
    moreover have "case r3 of Inl e \<Rightarrow> r = Inl e \<and> s' = s3
        | Inr m \<Rightarrow> r = Inr () \<and> s' = recovered now (set_previous (Some (m - 1)) s3)"
      using assms(1) False a rep n unfolding items_def s2_def
      by (auto simp: apply_snapshot_and_replay_def bindS_def s1_def split: sum.splits)
    ultimately show ?thesis by (cases r3) (auto simp: settled_def)
  qed
qed

definition agreeing_snapshots :: "('j, 'n) ResilientWebSocketSession \<Rightarrow> bool" where
  "agreeing_snapshots cfg \<longleftrightarrow>
     (\<exists>f. ws_snapshot_applier cfg = Some f \<and>
       (\<forall>d past. ws_snapshot cfg d \<longrightarrow> (case f d past of Inl _ \<Rightarrow> True | Inr n \<Rightarrow> n = ws_sequence cfg d)))"

lemma agreeing_snapshot:
  "agreeing_snapshots cfg \<Longrightarrow> ws_snapshot_applier cfg = Some f \<Longrightarrow> ws_snapshot cfg d \<Longrightarrow> f d past = Inr n \<Longrightarrow>
     n = ws_sequence cfg d"
  by (auto simp: agreeing_snapshots_def split: sum.splits)

text \<open>A snapshot of the stream puts the book at its own number, or at that of a buffered delta it replayed.\<close>

lemma stream_snapshot_synchronizes:
  "apply_stream_snapshot cfg now d q s = (Inr u, s') \<Longrightarrow>
     cx_state (ss_context s') = SYNCHRONIZED \<and> cx_buffered_deltas (ss_context s') = []"
  by (auto simp: apply_stream_snapshot_def bindS_def split: if_splits prod.splits sum.splits)

lemma stream_snapshot_moves:
  assumes "apply_stream_snapshot cfg now d sequence s = (r, s')" "pending cfg s" "agreeing_snapshots cfg" "ws_snapshot cfg d"
  shows "gapless_at cfg s' \<and> (\<forall>u. r = Inr u \<longrightarrow>
    moved_to (ws_sequence cfg d) (fst ` set (cx_buffered_deltas (ss_context s))) (book_at cfg s'))"
proof (cases "ws_validate_snapshot cfg d")
  case False
  then show ?thesis using assms by (auto simp: apply_stream_snapshot_def pending_def)
next
  case True
  obtain f where f: "ws_snapshot_applier cfg = Some f" using assms(3) by (auto simp: agreeing_snapshots_def)
  define s1 where "s1 = (set_reconciliation APPLYING_SNAPSHOT s)\<lparr>ss_applied := ss_applied s @ [SnapshotApplied d]\<rparr>"
  have a: "apply_snapshot cfg d sequence (set_reconciliation APPLYING_SNAPSHOT s) = (f d (ss_applied s), s1)"
    by (simp add: apply_snapshot_def f s1_def)
  have g1: "gapless_at cfg s1" using assms(2) by (simp add: s1_def pending_def)
  show ?thesis
  proof (cases "f d (ss_applied s)")
    case (Inl e)
    then show ?thesis using assms(1) True a g1 by (auto simp: apply_stream_snapshot_def bindS_def)
  next
    case (Inr n)
    then have n: "n = ws_sequence cfg d" using agreeing_snapshot [OF assms(3) f assms(4)] by blast
    have b1: "book_at cfg s1 = n" using Inr f by (simp add: s1_def)
    define s2 where "s2 = on_context (\<lambda>c. c\<lparr>cx_snapshot_sequence := n, cx_previous_sequence := n\<rparr>) s1"
    define items where "items = sort_key fst (cx_buffered_deltas (ss_context s))"
    obtain r3 s3 where rep: "replay_stream cfg items (set_reconciliation REPLAYING_DELTAS s2) = (r3, s3)" by fastforce
    have "gapless_at cfg s3 \<and> (\<forall>u. r3 = Inr u \<longrightarrow> moved_to n (fst ` set items) (book_at cfg s3))"
      using replay_stream_gapless [OF rep] assms(2) g1 b1 by (simp add: items_def s2_def pending_def)
    moreover have "s' = s1 \<or> s' = set_reconciliation STREAM_DEGRADED s1 \<or> s' = s3 \<and> r \<noteq> Inr () \<or>
        s' = recovered now s3 \<and> r3 = Inr () \<or> s' = recovered now s2"
      using assms(1) True a Inr rep unfolding items_def s2_def s1_def
      by (auto simp: apply_stream_snapshot_def bindS_def split: if_splits sum.splits prod.splits)
    ultimately show ?thesis using g1 b1 n by (auto simp: items_def s2_def)
  qed
qed

lemma recover_settles:
  assumes "recover cfg ar n d s = (r, s')" "pending cfg s" "ws_sequence cfg d = Some n"
  shows "gapless_at cfg s' \<and> (\<forall>u. r = Inr u \<longrightarrow> settled cfg s')"
proof -
  define s0 where "s0 = set_reconciliation GAP_DETECTED (set_state cfg (ar_now ar) RECOVERING (Some ''sequence gap'') s)"
  obtain r1 s1 where b: "buffer_delta cfg (Some n) d s0 = (r1, s1)" by fastforce
  have s1: "pending cfg s1"
    using b assms(2,3) by (auto simp: buffer_delta_def s0_def pending_def split: if_splits)
  show ?thesis
  proof (cases "\<exists>snapshot. ar_rest ar = Inr snapshot \<and> r1 = Inr () \<and>
      ws_has_rest_snapshot cfg \<and> ws_snapshot_applier cfg \<noteq> None \<and> ws_delta_applier cfg \<noteq> None")
    case False
    then show ?thesis using assms(1) b s1 unfolding recover_def s0_def [symmetric]
      by (auto simp: bindS_def pending_def Let_def split: sum.splits if_splits)
  next
    case True
    then obtain snapshot where t: "ar_rest ar = Inr snapshot" "r1 = Inr ()"
      "ws_has_rest_snapshot cfg" "ws_snapshot_applier cfg \<noteq> None" "ws_delta_applier cfg \<noteq> None" by blast
    obtain r2 s2 where rep: "apply_snapshot_and_replay cfg (ar_now ar) snapshot (set_reconciliation SNAPSHOT_LOADING s1) = (r2, s2)"
      by fastforce
    have "gapless_at cfg s2 \<and> (\<forall>u. r2 = Inr u \<longrightarrow> settled cfg s2)"
      using rest_snapshot_settles [OF rep] s1 by simp
    then show ?thesis using assms(1) b t rep unfolding recover_def s0_def [symmetric]
      by (auto simp: bindS_def settled_def Let_def split: sum.splits)
  qed
qed

subsection \<open>Messages\<close>

text \<open>
  After a stream snapshot that replayed buffered deltas the connection is behind the book: it resumes
  at the number of the snapshot. \<open>old\<close> are the deltas received before the last snapshot of the stream,
  \<open>recent\<close> those received since; a delta is ahead of an earlier one if its number is larger and it does
  not name a predecessor before the earlier one.
\<close>

definition ahead_of :: "('j, 'n) ResilientWebSocketSession \<Rightarrow> 'j decoded \<Rightarrow> 'j decoded \<Rightarrow> bool" where
  "ahead_of cfg x d \<longleftrightarrow>
     (case (ws_sequence cfg x, ws_sequence cfg d) of
        (Some m, Some n) \<Rightarrow> m < n \<and> (case ws_sequence_predecessor cfg d of None \<Rightarrow> True | Some q \<Rightarrow> m \<le> q)
      | _ \<Rightarrow> True)"

definition book_inv ::
  "('j, 'n) ResilientWebSocketSession \<Rightarrow> 'j decoded list \<Rightarrow> 'j decoded list \<Rightarrow> 'j stream_state \<Rightarrow> bool" where
  "book_inv cfg old recent s \<longleftrightarrow>
     pending cfg s \<and> snd ` set (cx_buffered_deltas (ss_context s)) \<subseteq> set (old @ recent) \<and>
     (cx_state (ss_context s) = SYNCHRONIZED \<longrightarrow>
        cx_buffered_deltas (ss_context s) = [] \<and>
        moved_to (cx_previous_sequence (ss_context s)) {m. Some m \<in> ws_sequence cfg ` set old} (book_at cfg s))"

lemma book_inv_settled: "settled cfg s \<Longrightarrow> book_inv cfg old recent s"
  by (simp add: book_inv_def settled_pending) (simp add: settled_def)

lemma book_inv_gapless: "book_inv cfg old recent s \<Longrightarrow> gapless_at cfg s"
  by (simp add: book_inv_def pending_def)

lemma book_inv_mono:
  "book_inv cfg old recent s \<Longrightarrow> set old \<subseteq> set old' \<Longrightarrow> set (old @ recent) \<subseteq> set (old' @ recent') \<Longrightarrow>
     book_inv cfg old' recent' s"
  unfolding book_inv_def by (auto elim!: moved_to_mono)

lemma ahead_continues:
  assumes "is_contiguous cfg previous (ws_sequence cfg d) d" "list_all (\<lambda>x. ahead_of cfg x d) old"
    and "moved_to previous {m. Some m \<in> ws_sequence cfg ` set old} book"
  shows "continues cfg book d"
proof -
  have "book = previous"
  proof (rule ccontr)
    assume "book \<noteq> previous"
    then obtain n m x where x: "previous = Some n" "n < m" "x \<in> set old" "ws_sequence cfg x = Some m"
      using assms(3) by (auto simp: moved_to_def dest: sym)
    then have "ahead_of cfg x d" using assms(2) by (simp add: list_all_iff)
    then show False using assms(1) x by (auto simp: is_contiguous_def ahead_of_def split: option.splits)
  qed
  then show ?thesis using contiguous_continues [OF assms(1)] by simp
qed

lemma seen_payload_frame:
  assumes "seen_payload cfg h s = (r, s')"
  shows "ss_applied s' = ss_applied s" "cx_state (ss_context s') = cx_state (ss_context s)"
    "cx_buffered_deltas (ss_context s') = cx_buffered_deltas (ss_context s)"
    "cx_previous_sequence (ss_context s') = cx_previous_sequence (ss_context s)"
  using assms by (auto simp: seen_payload_def Let_def split: if_splits list.splits)

lemma seen_payload_inv:
  "seen_payload cfg h s = (r, s') \<Longrightarrow> book_inv cfg old recent s' \<longleftrightarrow> book_inv cfg old recent s"
  "seen_payload cfg h s = (r, s') \<Longrightarrow> pending cfg s' \<longleftrightarrow> pending cfg s"
  using seen_payload_frame [of cfg h s r s'] by (simp_all add: book_inv_def pending_def)

text \<open>A published message sets the previous sequence to its own number.\<close>

definition routed ::
  "('j, 'n) ResilientWebSocketSession \<Rightarrow> 'j decoded list \<Rightarrow> 'j decoded list \<Rightarrow> 'j decoded \<Rightarrow> bool result \<Rightarrow>
   'j stream_state \<Rightarrow> bool" where
  "routed cfg old recent d r s \<longleftrightarrow>
     gapless_at cfg s \<and> (case r of Inl _ \<Rightarrow> True
       | Inr b \<Rightarrow> book_inv cfg old recent (if b then set_previous (ws_sequence cfg d) s else s))"

lemma route_snapshot:
  assumes "route_message cfg ar d (ws_sequence cfg d) s = (r, s')" "book_inv cfg old recent s"
    and "ws_order_book_semantics cfg \<noteq> None" "agreeing_snapshots cfg" "ws_snapshot cfg d"
  shows "routed cfg (old @ recent) [] d r s'"
proof -
  obtain r1 s1 where a: "apply_stream_snapshot cfg (ar_now ar) d (ws_sequence cfg d) s = (r1, s1)" by fastforce
  have pend: "pending cfg s" using assms(2) by (simp add: book_inv_def)
  have "fst ` set (cx_buffered_deltas (ss_context s)) \<subseteq> {m. Some m \<in> ws_sequence cfg ` set (old @ recent)}"
    using assms(2) pend by (force simp: book_inv_def pending_def numbered_def image_iff)
  then have moves: "gapless_at cfg s1 \<and> (\<forall>u. r1 = Inr u \<longrightarrow>
      moved_to (ws_sequence cfg d) {m. Some m \<in> ws_sequence cfg ` set (old @ recent)} (book_at cfg s1))"
    using stream_snapshot_moves [OF a pend assms(4,5)] by (auto elim: moved_to_mono)
  moreover have "case r1 of Inl e \<Rightarrow> r = Inl e \<and> s' = s1 | Inr u \<Rightarrow> r = Inr True \<and> s' = s1"
    using assms(1,3,5) a by (auto simp: route_message_def bindS_def Let_def split: sum.splits)
  ultimately show ?thesis using stream_snapshot_synchronizes [of cfg "ar_now ar" d "ws_sequence cfg d" s] a
    by (cases r1) (auto simp: routed_def book_inv_def pending_def)
qed

lemma route_delta:
  assumes "route_message cfg ar d (ws_sequence cfg d) s = (r, s')" "book_inv cfg old recent s"
    and "ws_order_book_semantics cfg \<noteq> None" "\<not> ws_snapshot cfg d" "list_all (\<lambda>x. ahead_of cfg x d) old"
  shows "routed cfg old (recent @ [d]) d r s'"
proof -
  let ?prev = "cx_previous_sequence (ss_context s)"
  have inv: "book_inv cfg old (recent @ [d]) s" using assms(2) by (rule book_inv_mono) auto
  have pend: "pending cfg s" and gap: "gapless_at cfg s" using assms(2) by (simp_all add: book_inv_def pending_def)
  consider "\<not> ws_delta cfg d" | "ws_delta cfg d" "cx_state (ss_context s) \<noteq> SYNCHRONIZED"
    | "ws_delta cfg d" "cx_state (ss_context s) = SYNCHRONIZED" "is_contiguous cfg ?prev (ws_sequence cfg d) d"
    | "ws_delta cfg d" "cx_state (ss_context s) = SYNCHRONIZED" "\<not> is_contiguous cfg ?prev (ws_sequence cfg d) d" "ws_sequence cfg d = None"
    | n where "ws_delta cfg d" "cx_state (ss_context s) = SYNCHRONIZED" "\<not> is_contiguous cfg ?prev (ws_sequence cfg d) d" "ws_sequence cfg d = Some n"
    by (cases "ws_sequence cfg d") auto
  then show ?thesis
  proof cases
    case 2
    obtain r1 s1 where b: "buffer_delta cfg (ws_sequence cfg d) d s = (r1, s1)" by fastforce
    then have "gapless_at cfg s1" "r1 = Inr () \<Longrightarrow> book_inv cfg old (recent @ [d]) s1"
      using inv gap by (auto simp: buffer_delta_def book_inv_def pending_def image_subset_iff split: option.splits if_splits)
    moreover have "case r1 of Inl e \<Rightarrow> r = Inl e \<and> s' = s1 | Inr u \<Rightarrow> r = Inr False \<and> s' = s1"
      using assms(1,3,4) 2 b by (auto simp: route_message_def bindS_def Let_def split: sum.splits)
    ultimately show ?thesis by (cases r1) (auto simp: routed_def)
  next
    case 3
    have "moved_to ?prev {m. Some m \<in> ws_sequence cfg ` set old} (book_at cfg s)" and empty: "cx_buffered_deltas (ss_context s) = []"
      using assms(2) 3(2) by (simp_all add: book_inv_def)
    from ahead_continues [OF 3(3) assms(5) this(1)] have c: "continues cfg (book_at cfg s) d" .
    obtain r1 s1 where a: "apply_delta cfg d s = (r1, s1)" by fastforce
    have "case r1 of Inl e \<Rightarrow> r = Inl e \<and> s' = s1 | Inr u \<Rightarrow> r = Inr True \<and> s' = set_previous (ws_sequence cfg d) s1"
      using assms(1,3,4) 3 a by (auto simp: route_message_def bindS_def Let_def split: sum.splits)
    with a show ?thesis
      by (cases rule: apply_delta_cases; cases r1) (use gap c empty in \<open>auto simp: routed_def book_inv_def pending_def\<close>)
  next
    case (5 n)
    obtain r1 s1 where a: "recover cfg ar n d s = (r1, s1)" by fastforce
    have "case r1 of Inl e \<Rightarrow> r = Inl e \<and> s' = s1 | Inr u \<Rightarrow> r = Inr False \<and> s' = s1"
      using assms(1,3,4) 5 a by (auto simp: route_message_def bindS_def Let_def split: sum.splits)
    then show ?thesis using recover_settles [OF a pend 5(4)] book_inv_settled
      by (cases r1) (auto simp: routed_def)
  qed (use assms(1,3,4) gap in \<open>auto simp: route_message_def routed_def\<close>)
qed

text \<open>The deltas before and after the last snapshot of the stream, once a message has arrived.\<close>

fun arrived ::
  "('j, 'n) ResilientWebSocketSession \<Rightarrow> 'j decoded \<Rightarrow> 'j decoded list \<times> 'j decoded list \<Rightarrow>
   'j decoded list \<times> 'j decoded list" where
  "arrived cfg d (old, recent) = (if ws_snapshot cfg d then (old @ recent, []) else (old, recent @ [d]))"

lemma process_inv:
  assumes "process_message cfg ar s = (r, s')" "book_inv cfg old recent s" "decode cfg (ar_raw ar) = Inr d" "\<not> ws_heartbeat cfg d"
    and "ws_order_book_semantics cfg \<noteq> None" "agreeing_snapshots cfg"
    and "ws_snapshot cfg d \<or> list_all (\<lambda>x. ahead_of cfg x d) old" "arrived cfg d (old, recent) = (old', recent')"
  shows "gapless_at cfg s' \<and> (\<forall>m. r = Inr m \<longrightarrow> book_inv cfg old' recent' s')"
proof -
  obtain r1 s1 where seen: "seen_payload cfg (ws_sha256 cfg (ar_raw ar)) s = (r1, s1)" by fastforce
  have inv1: "book_inv cfg old recent s1" using seen_payload_inv [OF seen] assms(2) by simp
  have later: "book_inv cfg old' recent' s1"
    using assms(8) by (intro book_inv_mono [OF inv1]) (auto split: if_splits)
  show ?thesis
  proof (cases "r1 = Inr False")
    case False
    then show ?thesis using assms(1,3,4) seen later book_inv_gapless [OF later]
      by (cases r1) (auto simp: process_message_def bindS_def)
  next
    case r1: True
    obtain r2 s2 where route: "route_message cfg ar d (ws_sequence cfg d) s1 = (r2, s2)" by fastforce
    have "routed cfg old' recent' d r2 s2"
      using route_snapshot [OF route inv1 assms(5,6)] route_delta [OF route inv1 assms(5)] assms(7,8)
      by (auto split: if_splits)
    moreover have "case r2 of Inl e \<Rightarrow> r = Inl e \<and> s' = s2 | Inr b \<Rightarrow> (if b
        then \<exists>n. s' = (set_previous (ws_sequence cfg d) s2)\<lparr>ss_local_sequence := n\<rparr> else s' = s2)"
      using assms(1,3,4) seen r1 route
      by (auto simp: process_message_def bindS_def publish_def Let_def split: sum.splits)
    moreover have "book_inv cfg old' recent' (x\<lparr>ss_local_sequence := n\<rparr>) = book_inv cfg old' recent' x" for x n
      by (simp add: book_inv_def pending_def)
    ultimately show ?thesis by (cases r2) (auto simp: routed_def split: if_splits)
  qed
qed

subsection \<open>Connections and sessions\<close>

text \<open>
  The order in which a venue delivers: on one connection, a delta that arrives after a snapshot of the
  stream is ahead of every delta that arrived before that snapshot. Nothing is asked of the order of
  the deltas between two snapshots, of repetitions there, or of other connections.
\<close>

fun delivered_in_order ::
  "('j, 'n) ResilientWebSocketSession \<Rightarrow> 'j decoded list \<times> 'j decoded list \<Rightarrow> 'j arrival result list \<Rightarrow> bool" where
  "delivered_in_order cfg received [] \<longleftrightarrow> True"
| "delivered_in_order cfg received (Inl e # rest) \<longleftrightarrow> True"
| "delivered_in_order cfg received (Inr ar # rest) \<longleftrightarrow>
     (case decode cfg (ar_raw ar) of
        Inl _ \<Rightarrow> True
      | Inr d \<Rightarrow>
          if ws_heartbeat cfg d then delivered_in_order cfg received rest
          else (ws_snapshot cfg d \<or> list_all (\<lambda>x. ahead_of cfg x d) (fst received)) \<and>
               delivered_in_order cfg (arrived cfg d received) rest)"

definition orderly_link :: "('j, 'n) ResilientWebSocketSession \<Rightarrow> 'j link \<Rightarrow> bool" where
  "orderly_link cfg link \<longleftrightarrow> delivered_in_order cfg ([], []) (li_items link)"

lemma consume_inv:
  assumes "consume cfg items s = (ms, failure, s')" "book_inv cfg old recent s"
    and "ws_order_book_semantics cfg \<noteq> None" "agreeing_snapshots cfg" "delivered_in_order cfg (old, recent) items"
  shows "gapless_at cfg s'"
  using assms
proof (induction items arbitrary: s ms old recent)
  case Nil
  then show ?case by (simp add: book_inv_gapless)
next
  case (Cons item items)
  note gap = book_inv_gapless [OF Cons.prems(2)]
  consider "ss_closing s" | e where "\<not> ss_closing s" "item = Inl e" | ar where "\<not> ss_closing s" "item = Inr ar"
    by (cases item) auto
  then show ?case
  proof cases
    case (3 ar)
    obtain r s1 where p: "process_message cfg ar s = (r, s1)" by fastforce
    have "gapless_at cfg s1 \<and> (\<forall>m. r = Inr m \<longrightarrow>
        (\<exists>old' recent'. book_inv cfg old' recent' s1 \<and> delivered_in_order cfg (old', recent') items))"
    proof (cases "\<exists>d. decode cfg (ar_raw ar) = Inr d \<and> \<not> ws_heartbeat cfg d")
      case False
      then show ?thesis using p gap Cons.prems(2,5) 3
        by (cases "decode cfg (ar_raw ar)") (auto simp: process_message_def)
    next
      case True
      then obtain d where d: "decode cfg (ar_raw ar) = Inr d" "\<not> ws_heartbeat cfg d" by blast
      obtain old' recent' where n: "arrived cfg d (old, recent) = (old', recent')" by fastforce
      have "ws_snapshot cfg d \<or> list_all (\<lambda>x. ahead_of cfg x d) old" "delivered_in_order cfg (old', recent') items"
        using Cons.prems(5) 3 d n by auto
      then show ?thesis using process_inv [OF p Cons.prems(2) d Cons.prems(3,4) _ n] by blast
    qed
    moreover have "case r of Inl e \<Rightarrow> s' = s1 | Inr m \<Rightarrow> (\<exists>ms2. consume cfg items s1 = (ms2, failure, s'))"
      using Cons.prems(1) 3 p by (cases r; cases "consume cfg items s1") (auto split: option.splits)
    ultimately show ?thesis using Cons.IH Cons.prems(3,4) by (cases r) auto
  qed (use Cons.prems gap in auto)
qed

lemma drain_pending:
  assumes "drain_queue cfg queued s = (r, s')" "pending cfg s"
  shows "pending cfg s'"
  using assms
proof (induction cfg queued s rule: drain_queue.induct)
  case (3 cfg raw rest s)
  show ?case
  proof (cases "\<exists>d. decode cfg raw = Inr d \<and> \<not> ws_heartbeat cfg d \<and> ws_delta cfg d")
    case False
    then show ?thesis using 3 by (auto split: sum.splits if_splits)
  next
    case True
    then obtain d where d: "decode cfg raw = Inr d" "\<not> ws_heartbeat cfg d" "ws_delta cfg d" by blast
    obtain r1 s1 where seen: "seen_payload cfg (ws_sha256 cfg raw) s = (r1, s1)" by fastforce
    have i1: "pending cfg s1" using seen_payload_inv(2) [OF seen] 3 by auto
    show ?thesis
    proof (cases r1)
      case (Inl e)
      then show ?thesis using 3 d seen i1 by (auto simp: bindS_def)
    next
      case (Inr b)
      obtain r2 s2 where step: "(if b then returnS () else buffer_delta cfg (ws_sequence cfg d) d) s1 = (r2, s2)" by fastforce
      then have i2: "pending cfg s2"
        using i1 by (auto simp: buffer_delta_def pending_def split: if_splits option.splits)
      show ?thesis
      proof (cases r2)
        case (Inl e)
        then show ?thesis using 3 d seen step Inr i2 by (auto simp: bindS_def)
      next
        case r2: (Inr u)
        have "drain_queue cfg rest s2 = (r, s')"
          using "3.prems"(1) d seen step Inr r2 by (simp add: bindS_def)
        then show ?thesis using "3.IH"(2) d i2 by blast
      qed
    qed
  qed
qed auto

lemma establish_inv:
  assumes "establish cfg link s = (r, s')" "gapless_at cfg s" "cx_state (ss_context s) \<noteq> SYNCHRONIZED"
    and "cx_buffered_deltas (ss_context s) = []" "ws_order_book_semantics cfg \<noteq> None"
  shows "gapless_at cfg s' \<and> (\<forall>u. r = Inr u \<longrightarrow> book_inv cfg [] [] s')"
proof (cases "li_connect link = Inr True \<and> ws_classification cfg = SNAPSHOT_DELTA \<and> ws_has_rest_snapshot cfg \<and>
    (\<exists>snapshot. li_rest link = Inr snapshot)")
  case False
  then show ?thesis using assms
    by (auto simp: establish_def bootstrap_def Let_def book_inv_def pending_def split: sum.splits if_splits)
next
  case True
  then obtain snapshot where t: "li_connect link = Inr True" "ws_classification cfg = SNAPSHOT_DELTA"
    "ws_has_rest_snapshot cfg" "li_rest link = Inr snapshot" by blast
  define s0 where "s0 = set_reconciliation SNAPSHOT_LOADING (set_reconciliation BUFFERING_DELTAS
    (set_state cfg (li_now link) CONNECTED None s))"
  obtain r1 s1 where d: "drain_queue cfg (li_queued link) s0 = (r1, s1)" by fastforce
  have i1: "pending cfg s1"
    using drain_pending [OF d] assms(2,4) by (simp add: s0_def pending_def)
  obtain r2 s2 where a: "apply_snapshot_and_replay cfg (li_now link) snapshot s1 = (r2, s2)" by fastforce
  have "gapless_at cfg s2 \<and> (\<forall>u. r2 = Inr u \<longrightarrow> book_inv cfg [] [] s2)"
    using rest_snapshot_settles [OF a i1] book_inv_settled by blast
  moreover have "if r1 = Inr () then r = r2 \<and> s' = s2 else (\<exists>e. r = Inl e) \<and> s' = s1"
    using assms(1) t d a
    by (auto simp: establish_def bootstrap_def Let_def bindS_def s0_def split: sum.splits)
  ultimately show ?thesis using i1 by (auto simp: pending_def split: if_splits)
qed

lemma run_link_gapless:
  assumes "run_link cfg link s = (out, s')" "gapless_at cfg s" "orderly_link cfg link"
    and "ws_order_book_semantics cfg \<noteq> None" "agreeing_snapshots cfg"
  shows "gapless_at cfg s'"
proof -
  obtain go s1 where b: "begin_connection cfg (li_monotonic link) (li_now link) (li_connection_id link) s = (go, s1)"
    by fastforce
  have g1: "gapless_at cfg s1" using b assms(2) by (auto simp: begin_connection_def Let_def split: if_splits)
  show ?thesis
  proof (cases go)
    case False
    then show ?thesis using assms(1) b g1 by (simp add: run_link_def)
  next
    case True
    then have c1: "cx_state (ss_context s1) \<noteq> SYNCHRONIZED" "cx_buffered_deltas (ss_context s1) = []"
      using b by (auto simp: begin_connection_def Let_def fresh_context_def split: if_splits)
    obtain r2 s2 where e: "establish cfg link s1 = (r2, s2)" by fastforce
    note inv2 = establish_inv [OF e g1 c1 assms(4)]
    obtain ms f s3 where c: "consume cfg (li_items link) s2 = (ms, f, s3)" using prod_cases3 by blast
    have "gapless_at cfg s3" if "r2 = Inr u" for u
      using consume_inv [OF c _ assms(4,5)] inv2 that assms(3) by (auto simp: orderly_link_def)
    then show ?thesis using assms(1) b True e c inv2
      by (auto simp: run_link_def disconnect_def split: sum.splits option.splits if_splits)
  qed
qed

lemma run_session_gapless:
  assumes "run_session cfg links s = (ts, ms, s')" "gapless_at cfg s" "list_all (orderly_link cfg) links"
    and "ws_order_book_semantics cfg \<noteq> None" "agreeing_snapshots cfg"
  shows "gapless_at cfg s'"
  using assms
proof (induction links arbitrary: s ts ms s')
  case (Cons link links)
  obtain att ms1 raised s1 where r: "run_link cfg link s = ((att, ms1, raised), s1)" by (metis surj_pair)
  have g: "gapless_at cfg s1" using run_link_gapless [OF r] Cons.prems by simp
  obtain ts2 ms2 s2 where rest: "run_session cfg links s1 = (ts2, ms2, s2)" using prod_cases3 by blast
  show ?case using Cons.IH [OF rest g] Cons.prems r rest g by (auto simp: Let_def split: if_splits option.splits)
qed auto

section \<open>Published messages\<close>

text \<open>
  What the reconciliation of a message leaves alone, whether it returns or raises, with the promise that
  a synchronized context has completed its bootstrap where the stream is one of an order book (\<open>book\<close>).
\<close>

definition frame :: "bool \<Rightarrow> int \<times> rat list \<times> bool \<Rightarrow> 'j stream_state \<Rightarrow> bool" where
  "frame book fr s \<longleftrightarrow> (ss_local_sequence s, ss_reconnects s, ss_closing s) = fr \<and>
     (book \<longrightarrow> cx_state (ss_context s) = SYNCHRONIZED \<longrightarrow> cx_bootstrap_completed (ss_context s))"

lemma frame_updates [simp, intro]:
  "st \<noteq> SYNCHRONIZED \<Longrightarrow> frame book fr s \<Longrightarrow> frame book fr (set_reconciliation st s)"
  "frame book fr s \<Longrightarrow> frame book fr (set_previous n s)"
  "frame book fr s \<Longrightarrow> frame book fr (recovered now s)"
  "frame book fr s \<Longrightarrow> frame book fr (set_state cfg now cst reason s)"
  "frame book fr s \<Longrightarrow> frame book fr (s\<lparr>ss_applied := a\<rparr>)"
  "frame book fr s \<Longrightarrow> frame book fr (on_context (\<lambda>c. c\<lparr>cx_snapshot_sequence := n\<rparr>) s)"
  "frame book fr s \<Longrightarrow> frame book fr (on_context (\<lambda>c. c\<lparr>cx_snapshot_sequence := n, cx_previous_sequence := n'\<rparr>) s)"
  "frame book fr s \<Longrightarrow> frame book fr (on_context (\<lambda>c. c\<lparr>cx_buffered_deltas := b c\<rparr>) s)"
  "frame book fr s \<Longrightarrow> frame book fr (on_context (\<lambda>c. c\<lparr>cx_payload_hash_order := o1\<rparr>) s)"
  "frame book fr s \<Longrightarrow> frame book fr (on_context (\<lambda>c. c\<lparr>cx_payload_hashes := h, cx_payload_hash_order := o1\<rparr>) s)"
  "frame book fr s \<Longrightarrow> frame book fr (on_context (\<lambda>c. c\<lparr>cx_last_recovery_failure := z\<rparr>) s)"
  by (simp_all add: frame_def context_defs)

lemma frame_events [simp, intro]: "frame False fr s \<Longrightarrow> frame False fr (set_reconciliation st s)"
  by (simp add: frame_def context_defs)

lemma frame_bindS:
  "frame book fr (snd (m s)) \<Longrightarrow> (\<And>x s1. frame book fr s1 \<Longrightarrow> frame book fr (snd (f x s1))) \<Longrightarrow> frame book fr (snd (bindS m f s))"
  by (auto simp: bindS_def split: prod.splits sum.splits)

lemma frame_basic [simp, intro]:
  "frame book fr s \<Longrightarrow> frame book fr (snd (apply_delta cfg d s))"
  "frame book fr s \<Longrightarrow> frame book fr (snd (apply_snapshot cfg d q s))"
  "frame book fr s \<Longrightarrow> frame book fr (snd (buffer_delta cfg q d s))"
  "frame book fr s \<Longrightarrow> frame book fr (snd (seen_payload cfg h s))"
  by (auto simp: apply_delta_def apply_snapshot_def buffer_delta_def seen_payload_def Let_def
      split: option.splits list.splits)

lemma frame_replay_rest [simp, intro]: "frame book fr s \<Longrightarrow> frame book fr (snd (replay_rest cfg expected items s))"
proof (induction cfg expected items s rule: replay_rest.induct)
  case (2 cfg expected current d rest s)
  obtain r1 s1 where a: "apply_delta cfg d s = (r1, s1)" by fastforce
  then have "frame book fr s1" using frame_basic(1) [OF "2.prems", of cfg d] by simp
  then show ?case using 2 a by (auto split: sum.split)
qed simp

lemma frame_replay_stream [simp, intro]: "frame book fr s \<Longrightarrow> frame book fr (snd (replay_stream cfg items s))"
proof (induction cfg items s rule: replay_stream.induct)
  case (2 cfg current d rest s)
  obtain r1 s1 where a: "apply_delta cfg d s = (r1, s1)" by fastforce
  then have "frame book fr s1" using frame_basic(1) [OF "2.prems", of cfg d] by simp
  then show ?case using 2 a by (auto simp: Let_def split: sum.split)
qed simp

lemma frame_rest_snapshot [simp, intro]: "frame book fr s \<Longrightarrow> frame book fr (snd (apply_snapshot_and_replay cfg now d s))"
  by (auto simp: apply_snapshot_and_replay_def intro!: frame_bindS split: option.split)

lemma frame_stream_snapshot [simp, intro]: "frame book fr s \<Longrightarrow> frame book fr (snd (apply_stream_snapshot cfg now d q s))"
  by (auto simp: apply_stream_snapshot_def intro!: frame_bindS)

lemma frame_recover [simp, intro]: "frame book fr s \<Longrightarrow> frame book fr (snd (recover cfg ar n d s))"
  by (auto simp: recover_def Let_def intro!: frame_bindS split: sum.split)

lemma frame_route [simp, intro]: "frame book fr s \<Longrightarrow> frame book fr (snd (route_message cfg ar d q s))"
  by (auto simp: route_message_def Let_def intro!: frame_bindS split: option.split)

lemma frame_drain [simp, intro]: "frame book fr s \<Longrightarrow> frame book fr (snd (drain_queue cfg queued s))"
proof (induction cfg queued s rule: drain_queue.induct)
  case (3 cfg raw rest s)
  show ?case
  proof (cases "\<exists>d. decode cfg raw = Inr d \<and> \<not> ws_heartbeat cfg d \<and> ws_delta cfg d")
    case True
    then obtain d where "decode cfg raw = Inr d" "\<not> ws_heartbeat cfg d" "ws_delta cfg d" by blast
    then show ?thesis using 3 by (auto intro!: frame_bindS)
  qed (use 3 in \<open>auto split: sum.split\<close>)
qed auto

lemma frame_establish:
  "book \<longrightarrow> ws_order_book_semantics cfg \<noteq> None \<Longrightarrow> frame book fr s \<Longrightarrow> frame book fr (snd (establish cfg link s))"
  by (auto simp: establish_def bootstrap_def Let_def intro!: frame_bindS split: sum.split)

lemma route_published:
  assumes "route_message cfg ar d q s = (Inr True, s')" "ws_order_book_semantics cfg \<noteq> None"
  shows "cx_state (ss_context s') = SYNCHRONIZED"
proof (cases "ws_snapshot cfg d")
  case True
  obtain r1 s1 where "apply_stream_snapshot cfg (ar_now ar) d q s = (r1, s1)" by fastforce
  then show ?thesis using assms True stream_snapshot_synchronizes [THEN conjunct1]
    by (auto simp: route_message_def bindS_def Let_def split: sum.splits)
next
  case False
  obtain r1 s1 where a: "apply_delta cfg d s = (r1, s1)" by fastforce
  have "ss_context s1 = ss_context s" using a by (cases rule: apply_delta_cases) auto
  then show ?thesis using assms False a
    by (auto simp: route_message_def bindS_def Let_def split: if_splits sum.splits option.splits prod.splits)
qed

definition sound_message :: "('j, 'n) ResilientWebSocketSession \<Rightarrow> ('j, 'n) RawVenueMessage \<Rightarrow> bool" where
  "sound_message cfg m \<longleftrightarrow>
     rm_reconciliation_state m = SYNCHRONIZED \<and> rm_bootstrap_completed m \<and>
     rm_stream_semantics m = ws_order_book_semantics cfg"

lemma process_published:
  assumes "process_message cfg ar s = (r, s')" "frame book (l, rs, c) s" "book \<longrightarrow> ws_order_book_semantics cfg \<noteq> None"
  shows "case r of Inr (Some m) \<Rightarrow> frame book (l + 1, rs, c) s' \<and> rm_local_sequence m = l + 1 \<and> (book \<longrightarrow> sound_message cfg m)
    | _ \<Rightarrow> frame book (l, rs, c) s'"
proof (cases "\<exists>d s1 s2. decode cfg (ar_raw ar) = Inr d \<and> \<not> ws_heartbeat cfg d \<and>
    seen_payload cfg (ws_sha256 cfg (ar_raw ar)) s = (Inr False, s1) \<and>
    route_message cfg ar d (ws_sequence cfg d) s1 = (Inr True, s2)")
  case True
  then obtain d s1 s2 where d: "decode cfg (ar_raw ar) = Inr d" "\<not> ws_heartbeat cfg d"
    and seen: "seen_payload cfg (ws_sha256 cfg (ar_raw ar)) s = (Inr False, s1)"
    and route: "route_message cfg ar d (ws_sequence cfg d) s1 = (Inr True, s2)" by blast
  have "frame book (l, rs, c) s1" using frame_basic(4) [OF assms(2)] seen by (metis snd_conv)
  then have f2: "frame book (l, rs, c) s2" using frame_route route by (metis snd_conv)
  have "book \<Longrightarrow> cx_state (ss_context s2) = SYNCHRONIZED" using route_published [OF route] assms(3) by blast
  then show ?thesis using assms(1) d seen route f2
    by (auto simp: process_message_def bindS_def publish_def Let_def frame_def sound_message_def)
next
  case False
  have "frame book (l, rs, c) (snd (process_message cfg ar s))"
  proof (cases "decode cfg (ar_raw ar)")
    case (Inr d)
    obtain r1 s1 where seen: "seen_payload cfg (ws_sha256 cfg (ar_raw ar)) s = (r1, s1)" by fastforce
    then have f1: "frame book (l, rs, c) s1" using frame_basic(4) [OF assms(2)] by (metis snd_conv)
    obtain r2 s2 where route: "route_message cfg ar d (ws_sequence cfg d) s1 = (r2, s2)" by fastforce
    then have "frame book (l, rs, c) s2" using frame_route [OF f1] by (metis snd_conv)
    then show ?thesis using Inr assms(2) False seen route f1
      by (auto simp: process_message_def bindS_def split: sum.splits)
  qed (use assms(2) in \<open>simp add: process_message_def\<close>)
  moreover have "\<nexists>m. r = Inr (Some m)"
    using assms(1) False by (auto simp: process_message_def bindS_def split: prod.splits sum.splits if_splits)
  ultimately show ?thesis using assms(1) by (auto split: sum.splits option.splits)
qed

lemma consume_published:
  assumes "consume cfg items s = (ms, f, s')" "frame book (l, rs, c) s" "book \<longrightarrow> ws_order_book_semantics cfg \<noteq> None"
  shows "(book \<longrightarrow> list_all (sound_message cfg) ms) \<and> map rm_local_sequence ms = [l + 1..l + int (length ms)] \<and>
    frame book (l + int (length ms), rs, c) s'"
  using assms
proof (induction items arbitrary: s l ms)
  case (Cons item items)
  consider "ss_closing s" | e where "\<not> ss_closing s" "item = Inl e" | ar where "\<not> ss_closing s" "item = Inr ar"
    by (cases item) auto
  then show ?case
  proof cases
    case (3 ar)
    obtain r s1 where p: "process_message cfg ar s = (r, s1)" by fastforce
    note pub = process_published [OF p Cons.prems(2,3)]
    consider e where "r = Inl e" | "r = Inr None" | m where "r = Inr (Some m)" by (metis obj_sumE option.exhaust)
    then show ?thesis
    proof cases
      case (3 m)
      obtain ms2 where ms2: "consume cfg items s1 = (ms2, f, s')" "ms = m # ms2"
        using Cons.prems(1) \<open>item = Inr ar\<close> \<open>\<not> ss_closing s\<close> p 3 by (cases "consume cfg items s1") auto
      have "[l + 1..l + int (length ms)] = (l + 1) # [l + 1 + 1..l + 1 + int (length ms2)]"
        using upto_rec1 [of "l + 1" "l + int (length ms)"] ms2(2) by (simp add: add.assoc)
      then show ?thesis using Cons.IH [OF ms2(1), of "l + 1"] pub 3 Cons.prems(3) ms2(2)
        by (simp add: add.assoc)
    qed (use Cons p pub 3 in auto)
  qed (use Cons.prems in auto)
qed auto

lemma run_link_published:
  assumes "run_link cfg link s = ((att, ms, raised), s')" "frame book (l, rs, c) s" "book \<longrightarrow> ws_order_book_semantics cfg \<noteq> None"
  defines "kept \<equiv> dropWhile (\<lambda>r. 60 \<le> li_monotonic link - r) rs"
  shows "(book \<longrightarrow> list_all (sound_message cfg) ms) \<and> map rm_local_sequence ms = [l + 1..l + int (length ms)] \<and>
    frame book (l + int (length ms), if att then kept @ [li_monotonic link] else kept, c) s' \<and>
    (att \<longrightarrow> int (length kept) < ws_maximum_reconnects_per_minute cfg)"
proof -
  obtain go s1 where b: "begin_connection cfg (li_monotonic link) (li_now link) (li_connection_id link) s = (go, s1)"
    by fastforce
  have f1: "frame book (l, if go then kept @ [li_monotonic link] else kept, c) s1"
    "go \<Longrightarrow> int (length kept) < ws_maximum_reconnects_per_minute cfg"
    using b assms(2) unfolding kept_def
    by (auto simp: begin_connection_def Let_def frame_def fresh_context_def context_defs split: if_splits)
  show ?thesis
  proof (cases go)
    case False
    then show ?thesis using assms(1) b f1 by (simp add: run_link_def)
  next
    case True
    obtain r2 s2 where e: "establish cfg link s1 = (r2, s2)" by fastforce
    have f2: "frame book (l, kept @ [li_monotonic link], c) s2"
      using frame_establish [OF assms(3)] f1 e True by (metis snd_conv)
    obtain ms3 f s3 where co: "consume cfg (li_items link) s2 = (ms3, f, s3)" using prod_cases3 by blast
    note pub = consume_published [OF co f2 assms(3)]
    show ?thesis using assms(1) b True e co pub f2 f1(2)
      by (cases r2; cases f) (auto simp: run_link_def disconnect_def split: if_splits)
  qed
qed

definition attempts_in_minute :: "rat list \<Rightarrow> rat \<Rightarrow> nat" where
  "attempts_in_minute ts t = length (filter (\<lambda>x. t - 60 < x \<and> x \<le> t) ts)"

lemma run_session_published:
  assumes "run_session cfg links s = (ts, ms, s')" "frame book (l, rs, c) s" "book \<longrightarrow> ws_order_book_semantics cfg \<noteq> None"
  shows "(book \<longrightarrow> list_all (sound_message cfg) ms) \<and> map rm_local_sequence ms = [l + 1..l + int (length ms)]"
  using assms
proof (induction links arbitrary: s l rs ts ms s')
  case (Cons link links)
  obtain att ms1 raised s1 where r: "run_link cfg link s = ((att, ms1, raised), s1)" by (metis surj_pair)
  note pub = run_link_published [OF r Cons.prems(2,3)]
  obtain ts2 ms2 s2 where rest: "run_session cfg links s1 = (ts2, ms2, s2)" using prod_cases3 by blast
  obtain rs1 where "frame book (l + int (length ms1), rs1, c) s1" using pub by blast
  note tail = Cons.IH [OF rest this Cons.prems(3)]
  have "[l + 1..l + int (length ms1) + int (length ms2)] =
      [l + 1..l + int (length ms1)] @ [l + int (length ms1) + 1..l + int (length ms1) + int (length ms2)]"
    by (cases "ms1 = []") (auto intro!: upto_split2 simp: Suc_leI)
  then show ?case using Cons.prems(1) r rest pub tail
    by (auto simp: Let_def algebra_simps split: if_splits option.splits)
qed auto

lemma run_session_rate:
  assumes "run_session cfg links s = (ts, ms, s')" "frame book (l, rs, c) s" "book \<longrightarrow> ws_order_book_semantics cfg \<noteq> None"
    and "sorted (map li_monotonic links)"
    and "\<And>x link. x \<in> set old \<Longrightarrow> link \<in> set links \<Longrightarrow> x + 60 \<le> li_monotonic link"
    and "\<And>t. attempts_in_minute (old @ rs) t \<le> nat (ws_maximum_reconnects_per_minute cfg)"
  shows "attempts_in_minute (old @ rs @ ts) t \<le> nat (ws_maximum_reconnects_per_minute cfg)"
  using assms
proof (induction links arbitrary: s l rs old ts ms s')
  case (Cons link links)
  obtain att ms1 raised s1 where r: "run_link cfg link s = ((att, ms1, raised), s1)" by (metis surj_pair)
  obtain ts2 ms2 s2 where rest: "run_session cfg links s1 = (ts2, ms2, s2)" using prod_cases3 by blast
  define now where "now = li_monotonic link"
  define gone where "gone = takeWhile (\<lambda>r. 60 \<le> now - r) rs"
  define kept where "kept = dropWhile (\<lambda>r. 60 \<le> now - r) rs"
  define rs1 where "rs1 = (if att then kept @ [now] else kept)"
  have rs: "rs = gone @ kept" by (simp add: gone_def kept_def)
  note pub = run_link_published [OF r Cons.prems(2,3), folded now_def, folded kept_def]
  have f1: "frame book (l + int (length ms1), rs1, c) s1"
    and room: "att \<Longrightarrow> int (length kept) < ws_maximum_reconnects_per_minute cfg"
    using pub by (auto simp: rs1_def)
  have gone: "x + 60 \<le> now" if "x \<in> set (old @ gone)" for x
    using that Cons.prems(5) [of x link] by (auto simp: gone_def now_def dest!: set_takeWhileD)
  have later: "x + 60 \<le> li_monotonic k" if "x \<in> set (old @ gone)" "k \<in> set links" for x k
    using gone [OF that(1)] that(2) Cons.prems(4) by (force simp: now_def)
  have count1: "attempts_in_minute ((old @ gone) @ rs1) u \<le> nat (ws_maximum_reconnects_per_minute cfg)" for u
  proof (cases "att \<and> u - 60 < now \<and> now \<le> u")
    case False
    then have "attempts_in_minute ((old @ gone) @ rs1) u = attempts_in_minute (old @ rs) u"
      by (auto simp: attempts_in_minute_def rs1_def rs)
    then show ?thesis using Cons.prems(6) by simp
  next
    case True
    have "filter (\<lambda>x. u - 60 < x \<and> x \<le> u) (old @ gone) = []"
      using gone True by (force simp: filter_empty_conv)
    then have "attempts_in_minute ((old @ gone) @ rs1) u \<le> length rs1"
      unfolding attempts_in_minute_def filter_append length_append by simp
    then show ?thesis using room True by (simp add: rs1_def)
  qed
  have tail: "attempts_in_minute ((old @ gone) @ rs1 @ ts2) t \<le> nat (ws_maximum_reconnects_per_minute cfg)"
    using Cons.IH [OF rest f1 Cons.prems(3) _ later count1] Cons.prems(4) by simp
  show ?case using Cons.prems(1) r rest tail count1 [of t] Cons.prems(6) [of t]
    by (auto simp: Let_def rs rs1_def now_def split: if_splits option.splits)
qed auto

section \<open>Properties\<close>

text \<open>
  C12. The order book never skips or repeats an update. Over any number of connections of an order-book
  stream, with any messages, failures, gaps, deltas buffered before a snapshot and REST recoveries, every
  delta handed to the delta applier continues the book as the appliers left it: its number is larger,
  and it is the next one or names the book's number as its predecessor.

  Hypotheses: the session is one of an order book; its snapshot applier answers with the sequence number of
  the snapshot it was given, as that of \<open>BitgetMarketDataAdapter\<close> does, the one adapter with appliers;
  and on each connection a delta that arrives after a snapshot of the stream is newer than the deltas that
  arrived before that snapshot: it has a larger number, and no predecessor before them. The last one is
  needed, as \<open>replayed_deltas_forgotten\<close> shows: after replaying buffered deltas the connection resumes
  at the number of the snapshot, and would accept a replayed delta a second time.
\<close>
theorem book_stream_gapless:
  assumes "ws_order_book_semantics cfg \<noteq> None" "agreeing_snapshots cfg"
    and "list_all (orderly_link cfg) links" "run_session cfg links initial_state = (ts, ms, s)"
  shows "gapless cfg [] None (ss_applied s)"
  using run_session_gapless [OF assms(4) _ assms(3,1,2)] by (simp add: initial_state_def)

text \<open>
  The stream fails closed: whatever arrives, every message published of an order-book stream was
  published in the state \<open>SYNCHRONIZED\<close> of a connection that completed its bootstrap, and the local
  sequence numbers of the published messages are \<open>1, 2, 3, ...\<close> across all reconnects.
\<close>
theorem published_only_synchronized:
  assumes "ws_order_book_semantics cfg \<noteq> None" "run_session cfg links initial_state = (ts, ms, s)"
  shows "(\<forall>m\<in>set ms. rm_reconciliation_state m = SYNCHRONIZED \<and> rm_bootstrap_completed m) \<and>
    map rm_local_sequence ms = [1..int (length ms)]"
proof -
  have "frame True (0, [], False) (initial_state :: 'a stream_state)"
    by (simp add: frame_def initial_state_def fresh_context_def)
  from run_session_published [OF assms(2) this] assms(1) show ?thesis
    by (auto simp: list_all_iff sound_message_def)
qed

text \<open>
  C36. Reconnecting is rate limited: whatever the stream, of an order book or of events, on a monotonic clock
  the connections attempted within any sixty seconds number at most \<open>maximum_reconnects_per_minute\<close>.
\<close>
theorem reconnect_rate_bounded:
  assumes "sorted (map li_monotonic links)" "run_session cfg links initial_state = (ts, ms, s)"
  shows "length (filter (\<lambda>x. t - 60 < x \<and> x \<le> t) ts) \<le> nat (ws_maximum_reconnects_per_minute cfg)"
proof -
  have "frame False (0, [], False) (initial_state :: 'a stream_state)"
    by (simp add: frame_def initial_state_def fresh_context_def)
  from run_session_rate [OF assms(2) this _ assms(1), of "[]" t] show ?thesis
    by (simp add: attempts_in_minute_def)
qed

section \<open>A concrete stream\<close>

text \<open>Documents are pairs: whether it is a snapshot, and the sequence number.\<close>

definition demo_documents :: "(string \<times> (bool \<times> int)) list" where
  "demo_documents =
     [(''s10'', (True, 10)), (''d11'', (False, 11)), (''d11b'', (False, 11)), (''d12'', (False, 12)),
      (''d13'', (False, 13)), (''d14'', (False, 14)), (''s20'', (True, 20)), (''d21'', (False, 21))]"

fun demo_number :: "(bool \<times> int) decoded \<Rightarrow> int option" where
  "demo_number (Plain _) = None"
| "demo_number (Document (_, n)) = Some n"

fun demo_is_snapshot :: "(bool \<times> int) decoded \<Rightarrow> bool" where
  "demo_is_snapshot (Plain _) = False"
| "demo_is_snapshot (Document (b, _)) = b"

fun demo_is_delta :: "(bool \<times> int) decoded \<Rightarrow> bool" where
  "demo_is_delta (Plain _) = False"
| "demo_is_delta (Document (b, _)) = (\<not> b)"

fun demo_is_heartbeat :: "(bool \<times> int) decoded \<Rightarrow> bool" where
  "demo_is_heartbeat (Plain _) = True"
| "demo_is_heartbeat (Document _) = False"

definition demo_stream :: "(bool \<times> int, unit) ResilientWebSocketSession" where
  "demo_stream =
     \<lparr>ws_venue = ''bitget'', ws_subscription_id = ''books'', ws_sequence = demo_number,
      ws_exchange_timestamp = (\<lambda>_. None), ws_snapshot = demo_is_snapshot, ws_delta = demo_is_delta,
      ws_heartbeat = demo_is_heartbeat, ws_normalize = (\<lambda>_. ()), ws_has_rest_snapshot = False,
      ws_snapshot_applier = Some (\<lambda>d _. Inr (demo_number d)), ws_delta_applier = Some (\<lambda>_ _. Inr ()),
      ws_sequence_predecessor = (\<lambda>_. None), ws_validate_snapshot = (\<lambda>_. True),
      ws_maximum_buffered_deltas = 10, ws_duplicate_cache_size = 16, ws_classification = SNAPSHOT_DELTA,
      ws_order_book_semantics = Some SNAPSHOT_AND_DELTA, ws_maximum_reconnects_per_minute = 2,
      ws_loads = (\<lambda>raw. case map_of demo_documents raw of None \<Rightarrow> Inl (ValueError ''no JSON'') | Some j \<Rightarrow> Inr j),
      ws_sha256 = (\<lambda>raw. raw)\<rparr>"

definition demo_arrival :: "string \<Rightarrow> (bool \<times> int) arrival result" where
  "demo_arrival raw = Inr \<lparr>ar_raw = raw, ar_now = 5, ar_monotonic_ns = 0, ar_rest = Inl (RuntimeError ''no REST'')\<rparr>"

definition demo_link :: "rat \<Rightarrow> string list \<Rightarrow> (bool \<times> int) link" where
  "demo_link clock raws =
     \<lparr>li_monotonic = clock, li_now = 5, li_connection_id = ''c'', li_connect = Inr True,
      li_rest = Inl (RuntimeError ''no REST''), li_queued = [], li_items = map demo_arrival raws\<rparr>"

definition demo_links :: "(bool \<times> int) link list" where
  "demo_links =
     [demo_link 0 [''pong'', ''s10'', ''d11'', ''d11'', ''d13''], demo_link 1 [''s20'', ''d21''], demo_link 2 [''s10'']]"

text \<open>Two deltas arrive before the snapshot that they continue and are replayed; the next one is taken for a gap.\<close>

definition replay_links :: "(bool \<times> int) link list" where
  "replay_links = [demo_link 0 [''d12'', ''d11'', ''s10'', ''d13''], demo_link 1 [''s20'', ''d21'']]"

lemma demo_stream_run:
  "run_session demo_stream demo_links initial_state = (ts, ms, s) \<Longrightarrow>
     ts = [0, 1] \<and> length ms = 4 \<and>
     ss_applied s = [SnapshotApplied (Document (True, 10)), DeltaApplied (Document (False, 11)),
       SnapshotApplied (Document (True, 20)), DeltaApplied (Document (False, 21))]"
  by (auto simp: demo_links_def demo_link_def demo_arrival_def demo_stream_def demo_documents_def initial_state_def
      run_link_def begin_connection_def establish_def process_message_def decode_def seen_payload_def route_message_def
      apply_stream_snapshot_def apply_snapshot_def apply_delta_def is_contiguous_def recover_def buffer_delta_def
      publish_def disconnect_def fresh_context_def context_defs bindS_def Let_def)

lemma replay_stream_run:
  "run_session demo_stream replay_links initial_state = (ts, ms, s) \<Longrightarrow>
     ss_applied s = [SnapshotApplied (Document (True, 10)), DeltaApplied (Document (False, 11)), DeltaApplied (Document (False, 12)),
       SnapshotApplied (Document (True, 20)), DeltaApplied (Document (False, 21))]"
  by (auto simp: replay_links_def demo_link_def demo_arrival_def demo_stream_def demo_documents_def initial_state_def
      run_link_def begin_connection_def establish_def process_message_def decode_def seen_payload_def route_message_def
      apply_stream_snapshot_def apply_snapshot_def apply_delta_def is_contiguous_def recover_def buffer_delta_def
      already_applied_def publish_def disconnect_def fresh_context_def context_defs bindS_def Let_def)

lemma replay_links_ok: "list_all (orderly_link demo_stream) replay_links"
  by (simp add: replay_links_def orderly_link_def demo_link_def demo_arrival_def demo_stream_def decode_def demo_documents_def
      ahead_of_def)

lemma demo_stream_ok: "ws_order_book_semantics demo_stream \<noteq> None" "agreeing_snapshots demo_stream"
  "list_all (orderly_link demo_stream) demo_links" "sorted (map li_monotonic demo_links)"
  by (simp_all add: demo_stream_def agreeing_snapshots_def demo_links_def demo_link_def demo_arrival_def
      orderly_link_def decode_def demo_documents_def)

lemma book_stream_gapless_witness:
  "case run_session demo_stream replay_links initial_state of
     (ts, ms, s) \<Rightarrow> gapless demo_stream [] None (ss_applied s) \<and> length (ss_applied s) = 5"
proof -
  obtain ts ms s where r: "run_session demo_stream replay_links initial_state = (ts, ms, s)" using prod_cases3 by blast
  from book_stream_gapless [OF demo_stream_ok(1,2) replay_links_ok r] replay_stream_run [OF r] show ?thesis by (simp add: r)
qed

lemma published_only_synchronized_witness:
  "case run_session demo_stream demo_links initial_state of
     (ts, ms, s) \<Rightarrow> map rm_local_sequence ms = [1, 2, 3, 4] \<and> rm_reconciliation_state (ms ! 3) = SYNCHRONIZED"
proof -
  obtain ts ms s where r: "run_session demo_stream demo_links initial_state = (ts, ms, s)" using prod_cases3 by blast
  have "[1..(4::int)] = [1, 2, 3, 4]" by (simp add: upto.simps)
  then show ?thesis using published_only_synchronized [OF demo_stream_ok(1) r] demo_stream_run [OF r]
    by (simp add: r)
qed

lemma reconnect_rate_bounded_witness:
  "case run_session demo_stream demo_links initial_state of
     (ts, ms, s) \<Rightarrow> ts = [0, 1] \<and> length (filter (\<lambda>x. 2 - 60 < x \<and> x \<le> 2) ts) \<le> 2"
proof -
  obtain ts ms s where r: "run_session demo_stream demo_links initial_state = (ts, ms, s)" using prod_cases3 by blast
  have "nat (ws_maximum_reconnects_per_minute demo_stream) = 2" by (simp add: demo_stream_def)
  then show ?thesis using reconnect_rate_bounded [OF demo_stream_ok(4) r, of 2] demo_stream_run [OF r]
    by (simp add: r)
qed

text \<open>
  The assumption on the order of delivery is needed. A snapshot that finds buffered deltas replays
  them, but the loop then sets \<open>previous_sequence\<close> back to the number of the snapshot: the
  delta that continues the book is taken for a gap and ends the connection, and a second delta
  with a replayed number is applied again.
\<close>
theorem replayed_deltas_forgotten:
  "case run_session demo_stream [demo_link 0 [''d11'', ''d12'', ''s10'', ''d13'']] initial_state of
     (ts, ms, s) \<Rightarrow>
       book_sequence demo_stream [] None (ss_applied s) = Some 12 \<and>
       cse_reason (last (ss_state_events s)) = Some ''REST snapshot recovery unavailable''"
  "case run_session demo_stream [demo_link 0 [''d11'', ''d12'', ''s10'', ''d11b'']] initial_state of
     (ts, ms, s) \<Rightarrow> \<not> gapless demo_stream [] None (ss_applied s)"
  by (simp_all add: demo_link_def demo_arrival_def demo_stream_def demo_documents_def initial_state_def
      run_link_def begin_connection_def establish_def process_message_def decode_def seen_payload_def route_message_def
      apply_stream_snapshot_def apply_snapshot_def apply_delta_def is_contiguous_def recover_def buffer_delta_def
      already_applied_def publish_def disconnect_def fresh_context_def context_defs bindS_def Let_def continues_def error_message_def)

end
