(* ===== verification/Funding_Carry.thy ===== *)
theory Funding_Carry
  imports Signal_Evidence Json_Text
begin

text \<open>
  \<open>domain/strategies/funding_carry.py\<close>: the shadow evaluation of a funding carry trade between two
  venues. Observed numbers may be NaN or infinite (\<open>NonFinite\<close>); \<open>_finite\<close> also refuses what
  overflows a binary double. The numbers of the configuration are finite decimals. An exception of the
  evaluation is a value of \<open>carry_error\<close>: a reject code, an arithmetic error, or an exception that
  \<open>evaluate\<close> does not catch. The digest of the identity is a parameter. The exponent limits of decimals and
  the ranges of \<open>timedelta\<close> and \<open>datetime\<close> are not modelled; in the code exceeding them raises an
  \<open>ArithmeticError\<close>, which \<open>evaluate\<close> turns into the reject code \<open>EDGE_CALCULATION_FAILURE\<close>.
\<close>

section \<open>Observations, configuration, candidates\<close>

datatype ShadowDisposition = SHADOW_CANDIDATE | SHADOW_REJECTED

datatype FundingCarryEvaluationStage =
  INPUT_VALIDATION | FUNDING_NORMALIZATION | BOOK_PRICING | ECONOMICS_CALCULATED | THRESHOLD_EVALUATED

datatype FundingCarryRejectCode =
  MISSING_RECEIVE_LEG | MISSING_PAY_LEG | MISSING_FUNDING_CURRENT | MISSING_ORDERBOOK_SNAPSHOT | STALE_DATA
  | FUTURE_TIMESTAMP | INSTRUMENT_MISMATCH | VENUE_MISMATCH | UNKNOWN_FUNDING_UNIT | UNKNOWN_FUNDING_INTERVAL
  | INVALID_BID_ASK | CROSSED_ORDERBOOK | EMPTY_USABLE_DEPTH | UNSYNCHRONIZED_VENUE_TIMESTAMPS
  | DUPLICATE_SOURCE_EVENT | NON_FINITE_NUMERIC_VALUE | EDGE_CALCULATION_FAILURE | INSUFFICIENT_ORDERBOOK_DEPTH
  | UNKNOWN_FEE | EDGE_BELOW_THRESHOLD | MISSING_HYPERLIQUID_FUNDING_CURRENT | MISSING_BITGET_FUNDING_CURRENT
  | MISSING_HYPERLIQUID_ORDERBOOK_SNAPSHOT | MISSING_BITGET_ORDERBOOK_SNAPSHOT
  | BITGET_ORDERBOOK_STATE_NOT_INITIALIZED | BITGET_ORDERBOOK_SEQUENCE_GAP | BITGET_ORDERBOOK_STATE_INVALID
  | HYPERLIQUID_FUNDING_STALE | BITGET_FUNDING_STALE | FUNDING_OBSERVATION_UNSYNCHRONIZED
  | HYPERLIQUID_ORDERBOOK_STALE | BITGET_ORDERBOOK_STALE | ORDERBOOK_VENUES_UNSYNCHRONIZED

datatype number = Finite dec | NonFinite

record FundingObservation =
  fo_event_id :: string
  fo_venue :: string
  fo_instrument :: string
  fo_raw_funding_rate :: number
  fo_funding_unit :: string
  fo_funding_interval_seconds :: "int option"
  fo_next_funding_at :: "datetime option"
  fo_source_timestamp :: datetime
  fo_received_at :: datetime
  fo_experimental :: bool

record OrderBookObservation =
  bo_event_id :: string
  bo_venue :: string
  bo_instrument :: string
  bo_bids :: "(number \<times> number) list"
  bo_asks :: "(number \<times> number) list"
  bo_source_timestamp :: datetime
  bo_received_at :: datetime
  bo_experimental :: bool
  bo_source_event_ids :: "string list"

record CanonicalFunding =
  cf_raw_funding_rate :: dec
  cf_canonical_funding_rate :: dec
  cf_funding_interval_seconds :: int
  cf_funding_rate_per_hour :: dec
  cf_next_funding_at :: "datetime option"
  cf_source_timestamp :: datetime
  cf_received_at :: datetime

record FundingCarryShadowConfig =
  sc_instrument :: string
  sc_venues :: "string list"
  sc_shadow_notional :: dec
  sc_minimum_net_edge :: dec
  sc_maximum_age_seconds :: int
  sc_maximum_future_seconds :: int
  sc_funding_max_age_seconds :: int
  sc_funding_max_observation_skew_seconds :: int
  sc_maximum_orderbook_venue_skew_seconds :: int
  sc_maximum_venue_timestamp_skew_seconds :: int
  sc_economics_currency :: string
  sc_evaluation_horizon_seconds :: int
  sc_venue_taker_fee_rates :: "(string \<times> dec) list"

definition FUNDING_CARRY_STRATEGY_ID :: string where
  "FUNDING_CARRY_STRATEGY_ID = ''funding_carry''"

definition FUNDING_CARRY_REQUIRED_VENUES :: "string list" where
  "FUNDING_CARRY_REQUIRED_VENUES = [''hyperliquid'', ''bitget'']"

definition FUNDING_CARRY_DEFAULT_SHADOW_INSTRUMENT :: string where
  "FUNDING_CARRY_DEFAULT_SHADOW_INSTRUMENT = ''BTC''"

definition default_shadow_config :: FundingCarryShadowConfig where
  "default_shadow_config =
     \<lparr>sc_instrument = FUNDING_CARRY_DEFAULT_SHADOW_INSTRUMENT, sc_venues = [''hyperliquid'', ''bitget''],
      sc_shadow_notional = 10, sc_minimum_net_edge = 0, sc_maximum_age_seconds = 30,
      sc_maximum_future_seconds = 1, sc_funding_max_age_seconds = 40,
      sc_funding_max_observation_skew_seconds = 30, sc_maximum_orderbook_venue_skew_seconds = 5,
      sc_maximum_venue_timestamp_skew_seconds = 5, sc_economics_currency = ''USD'',
      sc_evaluation_horizon_seconds = 3600,
      sc_venue_taker_fee_rates = [(''hyperliquid'', 6 / 10000), (''bitget'', 6 / 10000)]\<rparr>"

text \<open>\<open>dict(...)\<close> of the pairs: the last rate of a venue counts.\<close>

definition fee_rate :: "FundingCarryShadowConfig \<Rightarrow> string \<Rightarrow> dec option" where
  "fee_rate cfg venue = map_of (rev (sc_venue_taker_fee_rates cfg)) venue"

record FundingCarryEconomics =
  ec_long_venue :: string
  ec_short_venue :: string
  ec_receive_leg :: string
  ec_pay_leg :: string
  ec_funding_timestamps :: "(string \<times> datetime) list"
  ec_orderbook_timestamps :: "(string \<times> datetime) list"
  ec_raw_funding_rates :: "(string \<times> dec) list"
  ec_canonical_funding_rates :: "(string \<times> dec) list"
  ec_funding_intervals :: "(string \<times> int) list"
  ec_funding_rates_per_hour :: "(string \<times> dec) list"
  ec_long_entry_vwap :: dec
  ec_short_entry_vwap :: dec
  ec_long_available_quantity :: dec
  ec_short_available_quantity :: dec
  ec_long_slippage_bps :: dec
  ec_short_slippage_bps :: dec
  ec_gross_funding_edge_per_hour :: dec
  ec_gross_funding_cashflow_per_hour :: dec
  ec_expected_funding_income :: dec
  ec_long_entry_fee :: dec
  ec_short_entry_fee :: dec
  ec_entry_fee_total :: dec
  ec_estimated_exit_fee :: dec
  ec_long_entry_slippage :: dec
  ec_short_entry_slippage :: dec
  ec_entry_slippage_total :: dec
  ec_estimated_exit_slippage :: dec
  ec_basis_cost :: dec
  ec_round_trip_cost :: dec
  ec_expected_net_income :: dec
  ec_expected_net_edge :: dec
  ec_break_even_holding_hours :: "dec option"
  ec_economics_currency :: string
  ec_notional :: dec
  ec_evaluation_horizon_seconds :: int
  ec_funding_income_horizon :: string

text \<open>
  What the runtime adds to a candidate; the evaluator leaves the defaults. The nine ages, skews and
  flags of the timing are set together or not at all.
\<close>

record ShadowTimingMetrics =
  tm_hyperliquid_funding_age_seconds :: dec
  tm_bitget_funding_age_seconds :: dec
  tm_funding_observation_skew_seconds :: dec
  tm_hyperliquid_orderbook_age_seconds :: dec
  tm_bitget_orderbook_age_seconds :: dec
  tm_orderbook_venue_skew_seconds :: dec
  tm_funding_freshness_pass :: bool
  tm_orderbook_freshness_pass :: bool
  tm_orderbook_synchronization_pass :: bool

record runtime_fields =
  rf_missing_venue :: "string option"
  rf_missing_capability :: "string option"
  rf_last_seen_event_at :: "instant option"
  rf_last_valid_event_at :: "instant option"
  rf_source_event_count :: int
  rf_venue_timestamp_skew_seconds :: "dec option"
  rf_timing :: "ShadowTimingMetrics option"

definition no_runtime_fields :: runtime_fields where
  "no_runtime_fields =
     \<lparr>rf_missing_venue = None, rf_missing_capability = None, rf_last_seen_event_at = None, rf_last_valid_event_at = None,
      rf_source_event_count = 0, rf_venue_timestamp_skew_seconds = None, rf_timing = None\<rparr>"

record FundingCarryShadowCandidate =
  ca_candidate_id :: string
  ca_run_id :: string
  ca_strategy_id :: string
  ca_instrument :: string
  ca_long_venue :: "string option"
  ca_short_venue :: "string option"
  ca_receive_leg :: "string option"
  ca_pay_leg :: "string option"
  ca_source_event_ids :: "string list"
  ca_funding_timestamps :: "(string \<times> datetime) list"
  ca_orderbook_timestamps :: "(string \<times> datetime) list"
  ca_raw_funding_rates :: "(string \<times> dec) list"
  ca_canonical_funding_rates :: "(string \<times> dec) list"
  ca_funding_intervals :: "(string \<times> int) list"
  ca_funding_rates_per_hour :: "(string \<times> dec) list"
  ca_long_entry_vwap :: "dec option"
  ca_short_entry_vwap :: "dec option"
  ca_long_available_quantity :: "dec option"
  ca_short_available_quantity :: "dec option"
  ca_long_slippage_bps :: "dec option"
  ca_short_slippage_bps :: "dec option"
  ca_gross_funding_edge :: "dec option"
  ca_expected_funding_income :: "dec option"
  ca_long_entry_fee :: "dec option"
  ca_short_entry_fee :: "dec option"
  ca_estimated_exit_fee :: "dec option"
  ca_long_entry_slippage :: "dec option"
  ca_short_entry_slippage :: "dec option"
  ca_estimated_exit_slippage :: "dec option"
  ca_entry_basis_cost :: "dec option"
  ca_expected_net_edge :: "dec option"
  ca_disposition :: ShadowDisposition
  ca_rejection_reason :: "FundingCarryRejectCode option"
  ca_created_at :: datetime
  ca_code_commit_sha :: string
  ca_config_sha :: string
  ca_runtime :: runtime_fields
  ca_evaluation_stage :: FundingCarryEvaluationStage
  ca_economics_calculated :: bool
  ca_economics_currency :: string
  ca_economics_notional :: "dec option"
  ca_evaluation_horizon_seconds :: "int option"
  ca_funding_income_horizon :: "string option"
  ca_gross_funding_edge_per_hour :: "dec option"
  ca_gross_funding_cashflow_per_hour :: "dec option"
  ca_entry_fee_total :: "dec option"
  ca_entry_slippage_total :: "dec option"
  ca_round_trip_cost :: "dec option"
  ca_expected_net_income :: "dec option"
  ca_break_even_holding_hours :: "dec option"

definition identity_payload :: "string \<Rightarrow> string \<Rightarrow> string list \<Rightarrow> string" where
  "identity_payload strategy_id instrument source_event_ids =
     json_object
       [(''strategy_id'', json_string strategy_id), (''instrument'', json_string instrument),
        (''source_event_ids'', json_array '','' (map json_string (sort source_event_ids)))]"

definition identity :: "(string \<Rightarrow> string) \<Rightarrow> string \<Rightarrow> string \<Rightarrow> string list \<Rightarrow> string" where
  "identity sha256 strategy_id instrument source_event_ids =
     sha256 (identity_payload strategy_id instrument source_event_ids)"

section \<open>Errors of the evaluation\<close>

datatype carry_error = Rejected FundingCarryRejectCode | Arithmetic | Escaping error

type_synonym 'a carry = "carry_error + 'a"

definition bindC :: "'a carry \<Rightarrow> ('a \<Rightarrow> 'b carry) \<Rightarrow> 'b carry" where
  "bindC m f = (case m of Inl e \<Rightarrow> Inl e | Inr x \<Rightarrow> f x)"

definition reject_if :: "bool \<Rightarrow> FundingCarryRejectCode \<Rightarrow> unit carry" where
  "reject_if c code = (if c then Inl (Rejected code) else Inr ())"

definition divC :: "dec \<Rightarrow> dec \<Rightarrow> dec carry" where
  "divC a b = (if b = 0 then Inl Arithmetic else Inr (ddiv a b))"

lemma bindC_simps [simp]: "bindC (Inl e) f = Inl e" "bindC (Inr x) f = f x"
  by (simp_all add: bindC_def)

lemma bindC_Inr_iff [simp]: "bindC m f = Inr y \<longleftrightarrow> (\<exists>x. m = Inr x \<and> f x = Inr y)"
  by (cases m) auto

lemma bindC_Inl_iff: "bindC m f = Inl e \<longleftrightarrow> m = Inl e \<or> (\<exists>x. m = Inr x \<and> f x = Inl e)"
  by (cases m) auto

lemma reject_if_iff [simp]:
  "reject_if c code = Inr u \<longleftrightarrow> \<not> c" "reject_if c code = Inl e \<longleftrightarrow> c \<and> e = Rejected code"
  by (auto simp: reject_if_def)

section \<open>Normalisation and pricing\<close>

text \<open>\<open>float(value)\<close> overflows from half an ulp above the largest double on.\<close>

definition double_limit :: dec where
  "double_limit = 2 ^ 1024 - 2 ^ 970"

lemma double_limit_code [code]: "double_limit = 179769313486231580793728971405303415079934132710037826936173778980444968292764750946649017977587207096330286416692887910946555547851940402630657488671505820681908902000708383676273854845817711531764475730270069855571366959622842914819860834936475292719074168444365510704342711559699508093042880177904174497792"
  by (simp add: double_limit_def)

definition dec_finite :: "dec \<Rightarrow> bool" where
  "dec_finite x \<longleftrightarrow> \<bar>x\<bar> < double_limit"

fun finite_number :: "number \<Rightarrow> bool" where
  "finite_number NonFinite = False"
| "finite_number (Finite x) = dec_finite x"

fun dec_of :: "number \<Rightarrow> dec" where
  "dec_of (Finite x) = x"
| "dec_of NonFinite = 0"

definition normalize_funding :: "FundingObservation \<Rightarrow> CanonicalFunding carry" where
  "normalize_funding item =
     bindC (reject_if (fo_funding_unit item \<noteq> ''fraction_per_interval'') UNKNOWN_FUNDING_UNIT) (\<lambda>_.
     case fo_funding_interval_seconds item of
       None \<Rightarrow> Inl (Rejected UNKNOWN_FUNDING_INTERVAL)
     | Some interval \<Rightarrow>
         bindC (reject_if (interval \<le> 0) UNKNOWN_FUNDING_INTERVAL) (\<lambda>_.
         bindC (reject_if (fo_venue item \<notin> set FUNDING_CARRY_REQUIRED_VENUES) VENUE_MISMATCH) (\<lambda>_.
         bindC (reject_if (\<not> finite_number (fo_raw_funding_rate item)) NON_FINITE_NUMERIC_VALUE) (\<lambda>_.
         let rate = dec_of (fo_raw_funding_rate item); canonical = dmul rate 1 in
         Inr \<lparr>cf_raw_funding_rate = rate, cf_canonical_funding_rate = canonical,
              cf_funding_interval_seconds = interval,
              cf_funding_rate_per_hour = ddiv (dmul canonical 3600) (of_int interval),
              cf_next_funding_at = fo_next_funding_at item, cf_source_timestamp = fo_source_timestamp item,
              cf_received_at = fo_received_at item\<rparr>))))"

fun fill_levels :: "(dec \<times> dec) list \<Rightarrow> dec \<Rightarrow> dec \<Rightarrow> dec \<Rightarrow> dec \<times> dec \<times> dec" where
  "fill_levels [] remaining cost filled = (remaining, cost, filled)"
| "fill_levels ((price, qty) # levels) remaining cost filled =
     (let part = min qty (ddiv remaining price);
          cost' = dadd cost (dmul part price);
          filled' = dadd filled part;
          remaining' = dsub remaining (dmul part price)
      in if remaining' \<le> 1 / 10 ^ 12 then (remaining', cost', filled')
         else fill_levels levels remaining' cost' filled')"

definition usable_levels :: "(number \<times> number) list \<Rightarrow> (dec \<times> dec) list" where
  "usable_levels levels = filter (\<lambda>(price, qty). 0 < price \<and> 0 < qty) (map (map_prod dec_of dec_of) levels)"

definition vwap :: "(number \<times> number) list \<Rightarrow> dec \<Rightarrow> bool \<Rightarrow> (dec \<times> dec \<times> dec \<times> dec) carry" where
  "vwap levels notional buying =
     bindC (reject_if (levels = []) EMPTY_USABLE_DEPTH) (\<lambda>_.
     bindC (reject_if (\<not> list_all (\<lambda>(p, q). finite_number p \<and> finite_number q) levels) NON_FINITE_NUMERIC_VALUE) (\<lambda>_.
     let usable = usable_levels levels in
     bindC (reject_if (usable = []) EMPTY_USABLE_DEPTH) (\<lambda>_.
     let (remaining, cost, filled) = fill_levels usable notional 0 0 in
     bindC (reject_if (1 / 10 ^ 12 < remaining \<or> filled \<le> 0) INSUFFICIENT_ORDERBOOK_DEPTH) (\<lambda>_.
     bindC (divC cost filled) (\<lambda>price.
     let best = fst (hd usable) in
     bindC (if buying then divC price best else divC best price) (\<lambda>ratio.
     Inr (price, filled, dsum (map snd usable), dmul (dsub ratio 1) 10000)))))))"

section \<open>Validation of the inputs\<close>

text \<open>The clock of the evaluation must be aware once an observation is compared with it.\<close>

definition clock_instant :: "datetime \<Rightarrow> instant carry" where
  "clock_instant now =
     (case now of
        Naive _ \<Rightarrow> Inl (Escaping (TypeError ''can not compare offset-naive and offset-aware datetimes''))
      | Aware t \<Rightarrow> Inr t)"

fun check_future :: "datetime \<Rightarrow> timedelta \<Rightarrow> (datetime \<times> datetime) list \<Rightarrow> unit carry" where
  "check_future now margin [] = Inr ()"
| "check_future now margin ((source, received) # rest) =
     (case (source, received) of
        (Aware t, Aware _) \<Rightarrow>
          bindC (clock_instant now) (\<lambda>n.
          bindC (reject_if (n + margin < t) FUTURE_TIMESTAMP) (\<lambda>_. check_future now margin rest))
      | _ \<Rightarrow> Inl (Rejected FUTURE_TIMESTAMP))"

text \<open>\<open>now - d\<close> and \<open>abs(d - e)\<close> of aware datetimes.\<close>

fun instant_of :: "datetime \<Rightarrow> instant" where
  "instant_of (Aware t) = t"
| "instant_of (Naive t) = t"

fun check_books :: "OrderBookObservation list \<Rightarrow> unit carry" where
  "check_books [] = Inr ()"
| "check_books (book # rest) =
     bindC (reject_if (bo_bids book = [] \<or> bo_asks book = []) EMPTY_USABLE_DEPTH) (\<lambda>_.
     let bid = fst (hd (bo_bids book)); ask = fst (hd (bo_asks book)) in
     bindC (reject_if (\<not> finite_number bid \<or> \<not> finite_number ask) NON_FINITE_NUMERIC_VALUE) (\<lambda>_.
     bindC (reject_if (dec_of bid \<le> 0 \<or> dec_of ask \<le> 0) INVALID_BID_ASK) (\<lambda>_.
     bindC (reject_if (dec_of ask \<le> dec_of bid) CROSSED_ORDERBOOK) (\<lambda>_.
     check_books rest))))"

definition by_venue :: "('a \<Rightarrow> string) \<Rightarrow> 'a list \<Rightarrow> (string, 'a) dict" where
  "by_venue venue items = foldl (\<lambda>d item. dict_set (venue item) item d) [] items"

definition lookup :: "(string, 'a) dict \<Rightarrow> string \<Rightarrow> 'a carry" where
  "lookup d k = (case map_of d k of None \<Rightarrow> Inl (Escaping (KeyError k)) | Some x \<Rightarrow> Inr x)"

definition check_freshness ::
  "FundingCarryShadowConfig \<Rightarrow> FundingObservation list \<Rightarrow> OrderBookObservation list \<Rightarrow> instant \<Rightarrow> unit carry" where
  "check_freshness cfg funding orderbooks now =
     (let fd = by_venue fo_venue funding; bd = by_venue bo_venue orderbooks;
          age = (\<lambda>d. now - instant_of d) in
      bindC (lookup fd ''hyperliquid'') (\<lambda>fh.
      bindC (reject_if (seconds (sc_funding_max_age_seconds cfg) < age (fo_source_timestamp fh)) HYPERLIQUID_FUNDING_STALE) (\<lambda>_.
      bindC (lookup fd ''bitget'') (\<lambda>fb.
      bindC (reject_if (seconds (sc_funding_max_age_seconds cfg) < age (fo_source_timestamp fb)) BITGET_FUNDING_STALE) (\<lambda>_.
      bindC (reject_if (seconds (sc_funding_max_observation_skew_seconds cfg) <
               \<bar>instant_of (fo_source_timestamp fh) - instant_of (fo_source_timestamp fb)\<bar>)
             FUNDING_OBSERVATION_UNSYNCHRONIZED) (\<lambda>_.
      bindC (lookup bd ''hyperliquid'') (\<lambda>bh.
      bindC (reject_if (seconds (sc_maximum_age_seconds cfg) < age (bo_source_timestamp bh)) HYPERLIQUID_ORDERBOOK_STALE) (\<lambda>_.
      bindC (lookup bd ''bitget'') (\<lambda>bb.
      bindC (reject_if (seconds (sc_maximum_age_seconds cfg) < age (bo_source_timestamp bb)) BITGET_ORDERBOOK_STALE) (\<lambda>_.
      reject_if (seconds (sc_maximum_orderbook_venue_skew_seconds cfg) <
               \<bar>instant_of (bo_source_timestamp bh) - instant_of (bo_source_timestamp bb)\<bar>)
             ORDERBOOK_VENUES_UNSYNCHRONIZED))))))))))"

definition validate_inputs ::
  "FundingCarryShadowConfig \<Rightarrow> FundingObservation list \<Rightarrow> OrderBookObservation list \<Rightarrow> datetime \<Rightarrow> unit carry" where
  "validate_inputs cfg funding orderbooks now =
     (let event_ids = map fo_event_id funding @ map bo_event_id orderbooks;
          instruments = map fo_instrument funding @ map bo_instrument orderbooks;
          venues = map fo_venue funding @ map bo_venue orderbooks;
          first_venue = sc_venues cfg ! 0; second_venue = sc_venues cfg ! 1;
          stamps = map (\<lambda>f. (fo_source_timestamp f, fo_received_at f)) funding @
                   map (\<lambda>b. (bo_source_timestamp b, bo_received_at b)) orderbooks in
      bindC (reject_if (sc_instrument cfg \<notin> set FUNDING_CARRY_SHADOW_ALLOWED_INSTRUMENTS) INSTRUMENT_MISMATCH) (\<lambda>_.
      bindC (reject_if (sc_venues cfg \<noteq> FUNDING_CARRY_REQUIRED_VENUES) VENUE_MISMATCH) (\<lambda>_.
      bindC (reject_if (\<not> distinct event_ids) DUPLICATE_SOURCE_EVENT) (\<lambda>_.
      bindC (reject_if (\<not> list_all (\<lambda>i. i = sc_instrument cfg) instruments) INSTRUMENT_MISMATCH) (\<lambda>_.
      bindC (reject_if (\<not> list_all (\<lambda>v. v \<in> set (sc_venues cfg)) venues) VENUE_MISMATCH) (\<lambda>_.
      bindC (reject_if (funding = []) MISSING_FUNDING_CURRENT) (\<lambda>_.
      bindC (reject_if (orderbooks = []) MISSING_ORDERBOOK_SNAPSHOT) (\<lambda>_.
      bindC (reject_if (first_venue \<notin> fo_venue ` set funding \<or> first_venue \<notin> bo_venue ` set orderbooks) MISSING_RECEIVE_LEG) (\<lambda>_.
      bindC (reject_if (second_venue \<notin> fo_venue ` set funding \<or> second_venue \<notin> bo_venue ` set orderbooks) MISSING_PAY_LEG) (\<lambda>_.
      bindC (reject_if (length funding \<noteq> 2) MISSING_FUNDING_CURRENT) (\<lambda>_.
      bindC (reject_if (length orderbooks \<noteq> 2) MISSING_ORDERBOOK_SNAPSHOT) (\<lambda>_.
      bindC (check_future now (seconds (sc_maximum_future_seconds cfg)) stamps) (\<lambda>_.
      bindC (clock_instant now) (\<lambda>n.
      bindC (check_freshness cfg funding orderbooks n) (\<lambda>_.
      check_books orderbooks)))))))))))))))"

section \<open>Economics\<close>

definition order_pair :: "('a \<Rightarrow> 'b) \<Rightarrow> (string, 'a) dict \<Rightarrow> (string \<times> 'b) list" where
  "order_pair f d = sort_key fst (map (\<lambda>(venue, x). (venue, f x)) d)"

definition economics_of ::
  "FundingCarryShadowConfig \<Rightarrow> (string, CanonicalFunding) dict \<Rightarrow> (string, OrderBookObservation) dict \<Rightarrow>
   string \<Rightarrow> string \<Rightarrow> CanonicalFunding \<Rightarrow> CanonicalFunding \<Rightarrow> OrderBookObservation \<Rightarrow> OrderBookObservation \<Rightarrow>
   FundingCarryEconomics carry" where
  "economics_of cfg normalized books long_venue short_venue long_rate short_rate long_book short_book =
     (let notional = sc_shadow_notional cfg in
      bindC (vwap (bo_asks long_book) notional True) (\<lambda>(long_vwap, long_qty, long_available, long_bps).
      bindC (vwap (bo_bids short_book) notional False) (\<lambda>(short_vwap, short_qty, short_available, short_bps).
      case (fee_rate cfg long_venue, fee_rate cfg short_venue) of
        (Some long_fee_rate, Some short_fee_rate) \<Rightarrow>
          (let gross_edge = dsub (cf_funding_rate_per_hour short_rate) (cf_funding_rate_per_hour long_rate);
               gross_cashflow_per_hour = dmul gross_edge notional;
               funding_income = ddiv (dmul gross_cashflow_per_hour (of_int (sc_evaluation_horizon_seconds cfg))) 3600;
               long_fee = dmul notional long_fee_rate;
               short_fee = dmul notional short_fee_rate;
               entry_fee_total = dadd long_fee short_fee;
               exit_fee = dadd long_fee short_fee;
               long_slippage = dmul long_qty (dsub long_vwap (dec_of (fst (hd (bo_asks long_book)))));
               short_slippage = dmul short_qty (dsub (dec_of (fst (hd (bo_bids short_book)))) short_vwap);
               entry_slippage_total = dadd long_slippage short_slippage;
               exit_slippage = dadd long_slippage short_slippage;
               midpoint = ddiv (dadd long_vwap short_vwap) 2 in
           bindC (divC (dsub long_vwap short_vwap) midpoint) (\<lambda>basis_ratio.
           let basis_cost = dmul basis_ratio notional;
               round_trip_cost =
                 dadd (dadd (dadd (dadd entry_fee_total exit_fee) entry_slippage_total) exit_slippage) basis_cost;
               net_income = dsub funding_income round_trip_cost in
           bindC (divC net_income notional) (\<lambda>net_edge.
           let break_even = (if 0 < gross_cashflow_per_hour
                             then Some (ddiv (max round_trip_cost 0) gross_cashflow_per_hour) else None) in
           bindC (reject_if (\<not> list_all dec_finite
                    ([gross_edge, gross_cashflow_per_hour, funding_income, long_fee, short_fee, entry_fee_total, exit_fee,
                      long_slippage, short_slippage, entry_slippage_total, exit_slippage, basis_cost, round_trip_cost,
                      net_income, net_edge] @ (case break_even of None \<Rightarrow> [] | Some b \<Rightarrow> [b])))
                  NON_FINITE_NUMERIC_VALUE) (\<lambda>_.
           Inr \<lparr>ec_long_venue = long_venue, ec_short_venue = short_venue, ec_receive_leg = short_venue, ec_pay_leg = long_venue,
                ec_funding_timestamps = order_pair cf_source_timestamp normalized,
                ec_orderbook_timestamps = order_pair bo_source_timestamp books,
                ec_raw_funding_rates = order_pair cf_raw_funding_rate normalized,
                ec_canonical_funding_rates = order_pair cf_canonical_funding_rate normalized,
                ec_funding_intervals = order_pair cf_funding_interval_seconds normalized,
                ec_funding_rates_per_hour = order_pair cf_funding_rate_per_hour normalized,
                ec_long_entry_vwap = long_vwap, ec_short_entry_vwap = short_vwap,
                ec_long_available_quantity = long_available, ec_short_available_quantity = short_available,
                ec_long_slippage_bps = long_bps, ec_short_slippage_bps = short_bps,
                ec_gross_funding_edge_per_hour = gross_edge, ec_gross_funding_cashflow_per_hour = gross_cashflow_per_hour,
                ec_expected_funding_income = funding_income, ec_long_entry_fee = long_fee, ec_short_entry_fee = short_fee,
                ec_entry_fee_total = entry_fee_total, ec_estimated_exit_fee = exit_fee,
                ec_long_entry_slippage = long_slippage, ec_short_entry_slippage = short_slippage,
                ec_entry_slippage_total = entry_slippage_total, ec_estimated_exit_slippage = exit_slippage,
                ec_basis_cost = basis_cost, ec_round_trip_cost = round_trip_cost, ec_expected_net_income = net_income,
                ec_expected_net_edge = net_edge, ec_break_even_holding_hours = break_even,
                ec_economics_currency = sc_economics_currency cfg, ec_notional = notional,
                ec_evaluation_horizon_seconds = sc_evaluation_horizon_seconds cfg,
                ec_funding_income_horizon = ''configured_evaluation_horizon''\<rparr>))))
      | _ \<Rightarrow> Inl (Rejected UNKNOWN_FEE))))"

text \<open>\<open>{item.venue: normalize_funding(item) for item in funding}\<close>\<close>

fun normalize_all :: "FundingObservation list \<Rightarrow> (string, CanonicalFunding) dict \<Rightarrow> (string, CanonicalFunding) dict carry" where
  "normalize_all [] d = Inr d"
| "normalize_all (item # items) d =
     bindC (normalize_funding item) (\<lambda>c. normalize_all items (dict_set (fo_venue item) c d))"

text \<open>The venue with the lowest hourly rate is bought, the one with the highest sold; sorting is stable.\<close>

definition choose_legs ::
  "(string, CanonicalFunding) dict \<Rightarrow> (string, OrderBookObservation) dict \<Rightarrow>
   (string \<times> string \<times> CanonicalFunding \<times> CanonicalFunding \<times> OrderBookObservation \<times> OrderBookObservation) carry" where
  "choose_legs normalized books =
     (let ordered = sort_key (\<lambda>(_, c). cf_funding_rate_per_hour c) normalized in
      if ordered = [] then Inl (Escaping (IndexError ''list index out of range''))
      else let (long_venue, long_rate) = hd ordered; (short_venue, short_rate) = last ordered in
           bindC (lookup books long_venue) (\<lambda>long_book.
           bindC (lookup books short_venue) (\<lambda>short_book.
           Inr (long_venue, short_venue, long_rate, short_rate, long_book, short_book))))"

section \<open>The evaluator\<close>

record evaluation_request =
  er_run_id :: string
  er_now :: datetime
  er_code_commit_sha :: string
  er_config_sha :: string

definition candidate_from_economics ::
  "FundingCarryShadowConfig \<Rightarrow> evaluation_request \<Rightarrow> string \<Rightarrow> string list \<Rightarrow> FundingCarryEconomics \<Rightarrow>
   ShadowDisposition \<Rightarrow> FundingCarryRejectCode option \<Rightarrow> FundingCarryShadowCandidate" where
  "candidate_from_economics cfg req candidate_id source_ids ec disposition rejection_reason =
     \<lparr>ca_candidate_id = candidate_id, ca_run_id = er_run_id req, ca_strategy_id = FUNDING_CARRY_STRATEGY_ID,
      ca_instrument = sc_instrument cfg, ca_long_venue = Some (ec_long_venue ec), ca_short_venue = Some (ec_short_venue ec),
      ca_receive_leg = Some (ec_receive_leg ec), ca_pay_leg = Some (ec_pay_leg ec), ca_source_event_ids = sort source_ids,
      ca_funding_timestamps = ec_funding_timestamps ec, ca_orderbook_timestamps = ec_orderbook_timestamps ec,
      ca_raw_funding_rates = ec_raw_funding_rates ec, ca_canonical_funding_rates = ec_canonical_funding_rates ec,
      ca_funding_intervals = ec_funding_intervals ec, ca_funding_rates_per_hour = ec_funding_rates_per_hour ec,
      ca_long_entry_vwap = Some (ec_long_entry_vwap ec), ca_short_entry_vwap = Some (ec_short_entry_vwap ec),
      ca_long_available_quantity = Some (ec_long_available_quantity ec),
      ca_short_available_quantity = Some (ec_short_available_quantity ec),
      ca_long_slippage_bps = Some (ec_long_slippage_bps ec), ca_short_slippage_bps = Some (ec_short_slippage_bps ec),
      ca_gross_funding_edge = Some (ec_gross_funding_edge_per_hour ec),
      ca_expected_funding_income = Some (ec_expected_funding_income ec), ca_long_entry_fee = Some (ec_long_entry_fee ec),
      ca_short_entry_fee = Some (ec_short_entry_fee ec), ca_estimated_exit_fee = Some (ec_estimated_exit_fee ec),
      ca_long_entry_slippage = Some (ec_long_entry_slippage ec), ca_short_entry_slippage = Some (ec_short_entry_slippage ec),
      ca_estimated_exit_slippage = Some (ec_estimated_exit_slippage ec), ca_entry_basis_cost = Some (ec_basis_cost ec),
      ca_expected_net_edge = Some (ec_expected_net_edge ec), ca_disposition = disposition,
      ca_rejection_reason = rejection_reason, ca_created_at = er_now req, ca_code_commit_sha = er_code_commit_sha req,
      ca_config_sha = er_config_sha req, ca_runtime = no_runtime_fields, ca_evaluation_stage = THRESHOLD_EVALUATED, ca_economics_calculated = True,
      ca_economics_currency = ec_economics_currency ec, ca_economics_notional = Some (ec_notional ec),
      ca_evaluation_horizon_seconds = Some (ec_evaluation_horizon_seconds ec),
      ca_funding_income_horizon = Some (ec_funding_income_horizon ec),
      ca_gross_funding_edge_per_hour = Some (ec_gross_funding_edge_per_hour ec),
      ca_gross_funding_cashflow_per_hour = Some (ec_gross_funding_cashflow_per_hour ec),
      ca_entry_fee_total = Some (ec_entry_fee_total ec), ca_entry_slippage_total = Some (ec_entry_slippage_total ec),
      ca_round_trip_cost = Some (ec_round_trip_cost ec), ca_expected_net_income = Some (ec_expected_net_income ec),
      ca_break_even_holding_hours = ec_break_even_holding_hours ec\<rparr>"

definition pre_economics_rejection ::
  "FundingCarryShadowConfig \<Rightarrow> evaluation_request \<Rightarrow> string \<Rightarrow> string list \<Rightarrow> FundingCarryEvaluationStage \<Rightarrow>
   FundingCarryRejectCode \<Rightarrow> FundingCarryShadowCandidate" where
  "pre_economics_rejection cfg req candidate_id source_ids reached rejection_reason =
     \<lparr>ca_candidate_id = candidate_id, ca_run_id = er_run_id req, ca_strategy_id = FUNDING_CARRY_STRATEGY_ID,
      ca_instrument = sc_instrument cfg, ca_long_venue = None, ca_short_venue = None, ca_receive_leg = None,
      ca_pay_leg = None, ca_source_event_ids = sort source_ids, ca_funding_timestamps = [],
      ca_orderbook_timestamps = [], ca_raw_funding_rates = [], ca_canonical_funding_rates = [],
      ca_funding_intervals = [], ca_funding_rates_per_hour = [], ca_long_entry_vwap = None, ca_short_entry_vwap = None,
      ca_long_available_quantity = None, ca_short_available_quantity = None, ca_long_slippage_bps = None,
      ca_short_slippage_bps = None, ca_gross_funding_edge = None, ca_expected_funding_income = None,
      ca_long_entry_fee = None, ca_short_entry_fee = None, ca_estimated_exit_fee = None, ca_long_entry_slippage = None,
      ca_short_entry_slippage = None, ca_estimated_exit_slippage = None, ca_entry_basis_cost = None,
      ca_expected_net_edge = None, ca_disposition = SHADOW_REJECTED, ca_rejection_reason = Some rejection_reason,
      ca_created_at = er_now req, ca_code_commit_sha = er_code_commit_sha req, ca_config_sha = er_config_sha req, ca_runtime = no_runtime_fields,
      ca_evaluation_stage = reached, ca_economics_calculated = False, ca_economics_currency = sc_economics_currency cfg,
      ca_economics_notional = Some (sc_shadow_notional cfg),
      ca_evaluation_horizon_seconds = Some (sc_evaluation_horizon_seconds cfg),
      ca_funding_income_horizon = Some ''configured_evaluation_horizon'', ca_gross_funding_edge_per_hour = None,
      ca_gross_funding_cashflow_per_hour = None, ca_entry_fee_total = None, ca_entry_slippage_total = None,
      ca_round_trip_cost = None, ca_expected_net_income = None, ca_break_even_holding_hours = None\<rparr>"

definition source_ids_of :: "FundingObservation list \<Rightarrow> OrderBookObservation list \<Rightarrow> string list" where
  "source_ids_of funding orderbooks =
     map fo_event_id funding @
     concat (map (\<lambda>b. if bo_source_event_ids b \<noteq> [] then bo_source_event_ids b else [bo_event_id b]) orderbooks)"

text \<open>The stages of the \<open>try\<close> block: each reports an exception with the stage it was raised in.\<close>

definition at_stage :: "FundingCarryEvaluationStage \<Rightarrow> 'a carry \<Rightarrow> (FundingCarryEvaluationStage \<times> carry_error) + 'a" where
  "at_stage reached m = (case m of Inl e \<Rightarrow> Inl (reached, e) | Inr x \<Rightarrow> Inr x)"

definition evaluate_economics ::
  "FundingCarryShadowConfig \<Rightarrow> FundingObservation list \<Rightarrow> OrderBookObservation list \<Rightarrow> datetime \<Rightarrow>
   (FundingCarryEvaluationStage \<times> carry_error) + FundingCarryEconomics" where
  "evaluate_economics cfg funding orderbooks now =
     (case at_stage INPUT_VALIDATION (validate_inputs cfg funding orderbooks now) of
        Inl e \<Rightarrow> Inl e
      | Inr _ \<Rightarrow>
          let books = by_venue bo_venue orderbooks in
          case at_stage FUNDING_NORMALIZATION
                 (bindC (normalize_all funding []) (\<lambda>normalized.
                  bindC (choose_legs normalized books) (\<lambda>legs. Inr (normalized, legs)))) of
            Inl e \<Rightarrow> Inl e
          | Inr (normalized, long_venue, short_venue, long_rate, short_rate, long_book, short_book) \<Rightarrow>
              at_stage BOOK_PRICING
                (economics_of cfg normalized books long_venue short_venue long_rate short_rate long_book short_book))"

definition carry_evaluate ::
  "(string \<Rightarrow> string) \<Rightarrow> FundingCarryShadowConfig \<Rightarrow> evaluation_request \<Rightarrow> FundingObservation list \<Rightarrow>
   OrderBookObservation list \<Rightarrow> FundingCarryShadowCandidate result" where
  "carry_evaluate sha256 cfg req funding orderbooks =
     (let source_ids = source_ids_of funding orderbooks;
          candidate_id = identity sha256 FUNDING_CARRY_STRATEGY_ID (sc_instrument cfg) source_ids in
      case evaluate_economics cfg funding orderbooks (er_now req) of
        Inr ec \<Rightarrow>
          Inr (if ec_expected_net_edge ec < sc_minimum_net_edge cfg
               then candidate_from_economics cfg req candidate_id source_ids ec SHADOW_REJECTED (Some EDGE_BELOW_THRESHOLD)
               else candidate_from_economics cfg req candidate_id source_ids ec SHADOW_CANDIDATE None)
      | Inl (reached, e) \<Rightarrow>
          (case e of
             Escaping exc \<Rightarrow> Inl exc
           | Rejected code \<Rightarrow> Inr (pre_economics_rejection cfg req candidate_id source_ids reached code)
           | Arithmetic \<Rightarrow> Inr (pre_economics_rejection cfg req candidate_id source_ids reached EDGE_CALCULATION_FAILURE)))"

end
