(* ===== verification/Carry_Safety.thy ===== *)
theory Carry_Safety
  imports Funding_Carry "HOL-Library.Multiset"
begin

text \<open>
  What the shadow evaluation of funding carry guarantees: book pricing is sound, the evaluation never
  fails on an aware clock, a candidate rests on fresh, synchronized and uncrossed data with the legs on
  the right venues, and the identity of a candidate does not depend on the order of its sources.
\<close>

section \<open>Dictionaries by venue\<close>

lemma by_venue_step: "map_of (foldl (\<lambda>d item. dict_set (venue item) item d) d items) k = Some x \<Longrightarrow>
    map_of d k = Some x \<or> x \<in> set items \<and> venue x = k"
proof (induction items arbitrary: d)
  case (Cons item items)
  then show ?case using Cons.IH [of "dict_set (venue item) item d"] by (auto split: if_splits)
qed simp

lemma by_venue_SomeD: "map_of (by_venue venue items) k = Some x \<Longrightarrow> x \<in> set items \<and> venue x = k"
  using by_venue_step [of venue "[]" items k x] by (simp add: by_venue_def)

lemma by_venue_dom: "map_of (by_venue venue items) k \<noteq> None \<longleftrightarrow> k \<in> venue ` set items"
proof -
  have "map_of (foldl (\<lambda>d item. dict_set (venue item) item d) d items) k \<noteq> None \<longleftrightarrow>
      k \<in> venue ` set items \<or> map_of d k \<noteq> None" for d
    by (induction items arbitrary: d) auto
  then show ?thesis by (simp add: by_venue_def)
qed

lemma by_venue_memD: "k \<in> venue ` set items \<Longrightarrow> \<exists>x. map_of (by_venue venue items) k = Some x"
  using by_venue_dom [of venue items k] by (simp only: not_None_eq)

lemma lookup_iff:
  "lookup d k = Inr x \<longleftrightarrow> map_of d k = Some x"
  "lookup d k = Inl e \<longleftrightarrow> map_of d k = None \<and> e = Escaping (KeyError k)"
  by (auto simp: lookup_def split: option.splits)

section \<open>Pricing\<close>

lemma fill_levels_pos:
  assumes "fill_levels levels remaining cost filled = (r, c, f)" "levels \<noteq> []" "0 < remaining" "0 \<le> cost" "0 \<le> filled"
    and "list_all (\<lambda>(p, q). 0 < p \<and> 0 < q) levels"
  shows "0 < c \<and> 0 < f"
  using assms
proof (induction levels remaining cost filled rule: fill_levels.induct)
  case (2 price qty levels remaining cost filled)
  define part where "part = min qty (ddiv remaining price)"
  have p: "0 < part" "0 < price" using 2 by (simp_all add: part_def dec_sign)
  then have c: "0 < dadd cost (dmul part price)" "0 < dadd filled part"
    using 2(5,6) dmul_sign(1) [of part price] by (simp_all add: dec_sign add_nonneg_pos)
  define rem where "rem = dsub remaining (dmul part price)"
  show ?case
  proof (cases "rem \<le> 1 / 10 ^ 12 \<or> levels = []")
    case True
    then show ?thesis using "2.prems"(1) c by (auto simp: Let_def part_def rem_def split: if_splits)
  next
    case False
    then have "0 < rem" by (simp add: not_le less_trans [of 0 "1 / 10 ^ 12"])
    then show ?thesis using "2.IH" [OF part_def refl refl rem_def] 2 c False
      by (simp add: Let_def part_def rem_def)
  qed
qed auto

lemma fill_levels_within:
  assumes "fill_levels levels remaining cost filled = (r, c, f)" "filled \<le> acc" "is_dec acc"
    and "list_all (\<lambda>(p, q). 0 < p \<and> 0 < q) levels"
  shows "f \<le> foldl dadd acc (map snd levels)"
  using assms
proof (induction levels remaining cost filled arbitrary: acc rule: fill_levels.induct)
  case (2 price qty levels remaining cost filled)
  define part where "part = min qty (ddiv remaining price)"
  define rem where "rem = dsub remaining (dmul part price)"
  have "part \<le> qty" by (simp add: part_def)
  then have le: "dadd filled part \<le> dadd acc qty" using dec_mono(1,2) 2(3) order_trans by meson
  show ?case
  proof (cases "rem \<le> 1 / 10 ^ 12")
    case True
    then have "f = dadd filled part" using "2.prems"(1) by (simp add: Let_def part_def rem_def)
    moreover have "dadd acc qty \<le> foldl dadd (dadd acc qty) (map snd levels)"
      using 2(5) by (intro foldl_dadd_ge) (auto simp: list_all_iff less_imp_le split: prod.splits)
    ultimately show ?thesis using le by simp
  next
    case False
    then show ?thesis using "2.IH" [OF part_def refl refl rem_def _ _ le] 2 by (simp add: Let_def part_def rem_def)
  qed
qed simp

lemma usable_levels_pos: "list_all (\<lambda>(p, q). 0 < p \<and> 0 < q) (usable_levels levels)"
  by (auto simp: usable_levels_def list_all_iff)

lemma vwap_sound:
  assumes "0 < notional" "vwap levels notional buying = Inr (price, filled, available, bps)"
  shows "0 < price" "0 < filled" "filled \<le> available"
proof -
  obtain r c f where fl: "fill_levels (usable_levels levels) notional 0 0 = (r, c, f)" using prod_cases3 by blast
  have ne: "usable_levels levels \<noteq> []" and eq: "price = ddiv c f" "filled = f" "available = dsum (map snd (usable_levels levels))"
    using assms(2) fl by (auto simp: vwap_def divC_def Let_def split: if_splits)
  show "0 < price" "0 < filled" using fill_levels_pos [OF fl ne assms(1)] usable_levels_pos eq by (simp_all add: dec_sign)
  show "filled \<le> available"
    using fill_levels_within [OF fl, of 0] usable_levels_pos eq by (simp add: dsum_def)
qed

text \<open>
  What it means that an amount is priced within a side of a book: from the leading usable levels
  parts are taken, each positive and within the size displayed there, whose costs use the amount up
  to a remainder of at most one part in ten to the twelve; the quantity is the sum of the parts and
  the price the cost of all of them per unit. (Sums, products and the quotient are those of the
  decimal context.)
\<close>

definition priced_within :: "(number \<times> number) list \<Rightarrow> dec \<Rightarrow> dec \<Rightarrow> dec \<Rightarrow> bool" where
  "priced_within levels notional price quantity \<longleftrightarrow>
     (\<exists>parts. let taken = take (length parts) (usable_levels levels);
                  costs = map2 (\<lambda>part level. dmul part (fst level)) parts taken in
        list_all2 (\<lambda>part level. 0 < part \<and> part \<le> snd level) parts taken \<and>
        foldl dsub notional costs \<le> 1 / 10 ^ 12 \<and>
        quantity = foldl dadd 0 parts \<and> price = ddiv (foldl dadd 0 costs) quantity)"

lemma fill_levels_parts:
  assumes "fill_levels levels remaining cost filled = (r, c, f)" "0 < remaining"
    and "list_all (\<lambda>(p, q). 0 < p \<and> 0 < q) levels"
  shows "\<exists>parts. let taken = take (length parts) levels;
                     costs = map2 (\<lambda>part level. dmul part (fst level)) parts taken in
    list_all2 (\<lambda>part level. 0 < part \<and> part \<le> snd level) parts taken \<and>
    r = foldl dsub remaining costs \<and> c = foldl dadd cost costs \<and> f = foldl dadd filled parts"
  using assms
proof (induction levels remaining cost filled rule: fill_levels.induct)
  case (1 remaining cost filled)
  then show ?case by (intro exI [of _ "[]"]) simp
next
  case (2 price qty levels remaining cost filled)
  define part where "part = min qty (ddiv remaining price)"
  define rem where "rem = dsub remaining (dmul part price)"
  have p: "0 < part" "part \<le> qty" using 2 by (simp_all add: part_def dec_sign)
  show ?case
  proof (cases "rem \<le> 1 / 10 ^ 12")
    case True
    then show ?thesis using "2.prems"(1) p
      by (intro exI [of _ "[part]"]) (simp add: Let_def part_def rem_def)
  next
    case False
    then have "0 < rem" by (simp add: not_le less_trans [of 0 "1 / 10 ^ 12"])
    with False obtain parts where "let taken = take (length parts) levels;
          costs = map2 (\<lambda>part level. dmul part (fst level)) parts taken in
        list_all2 (\<lambda>part level. 0 < part \<and> part \<le> snd level) parts taken \<and>
        r = foldl dsub rem costs \<and> c = foldl dadd (dadd cost (dmul part price)) costs \<and>
        f = foldl dadd (dadd filled part) parts"
      using "2.IH" [OF part_def refl refl rem_def] 2 by (auto simp: Let_def part_def rem_def)
    then show ?thesis using p by (intro exI [of _ "part # parts"]) (simp add: Let_def rem_def)
  qed
qed

lemma vwap_priced:
  assumes "0 < notional" "vwap levels notional buying = Inr (price, filled, available, bps)"
  shows "priced_within levels notional price filled"
proof -
  obtain r c f where fl: "fill_levels (usable_levels levels) notional 0 0 = (r, c, f)" using prod_cases3 by blast
  have eq: "price = ddiv c f" "filled = f" "r \<le> 1 / 10 ^ 12"
    using assms(2) fl by (auto simp: vwap_def divC_def Let_def split: if_splits)
  then show ?thesis using fill_levels_parts [OF fl assms(1) usable_levels_pos]
    unfolding priced_within_def Let_def by blast
qed

section \<open>Validated inputs\<close>

definition uncrossed :: "OrderBookObservation \<Rightarrow> bool" where
  "uncrossed book \<longleftrightarrow>
     (\<exists>bid bid_size bids ask ask_size asks. bo_bids book = (Finite bid, bid_size) # bids \<and>
        bo_asks book = (Finite ask, ask_size) # asks \<and> 0 < bid \<and> bid < ask)"

definition timely :: "instant \<Rightarrow> timedelta \<Rightarrow> timedelta \<Rightarrow> datetime \<Rightarrow> bool" where
  "timely now max_age max_future d \<longleftrightarrow> (\<exists>t. d = Aware t \<and> now - t \<le> max_age \<and> t - now \<le> max_future)"

text \<open>One funding rate and one order book of each venue, on the configured instrument, fresh and synchronized.\<close>

definition sound_inputs ::
  "FundingCarryShadowConfig \<Rightarrow> instant \<Rightarrow> FundingObservation list \<Rightarrow> OrderBookObservation list \<Rightarrow> bool" where
  "sound_inputs cfg now funding orderbooks \<longleftrightarrow>
     (\<exists>fh fb bh bb.
        (funding = [fh, fb] \<or> funding = [fb, fh]) \<and> (orderbooks = [bh, bb] \<or> orderbooks = [bb, bh]) \<and>
        fo_venue fh = ''hyperliquid'' \<and> fo_venue fb = ''bitget'' \<and> bo_venue bh = ''hyperliquid'' \<and> bo_venue bb = ''bitget'' \<and>
        (\<forall>f\<in>{fh, fb}. fo_instrument f = sc_instrument cfg \<and>
           timely now (seconds (sc_funding_max_age_seconds cfg)) (seconds (sc_maximum_future_seconds cfg)) (fo_source_timestamp f)) \<and>
        (\<forall>b\<in>{bh, bb}. bo_instrument b = sc_instrument cfg \<and> uncrossed b \<and>
           timely now (seconds (sc_maximum_age_seconds cfg)) (seconds (sc_maximum_future_seconds cfg)) (bo_source_timestamp b)) \<and>
        \<bar>instant_of (fo_source_timestamp fh) - instant_of (fo_source_timestamp fb)\<bar> \<le> seconds (sc_funding_max_observation_skew_seconds cfg) \<and>
        \<bar>instant_of (bo_source_timestamp bh) - instant_of (bo_source_timestamp bb)\<bar> \<le> seconds (sc_maximum_orderbook_venue_skew_seconds cfg))"

lemma check_future_ok:
  "check_future (Aware now) margin stamps = Inr u \<Longrightarrow> (d, r) \<in> set stamps \<Longrightarrow> \<exists>t. d = Aware t \<and> t - now \<le> margin"
  by (induction "Aware now" margin stamps rule: check_future.induct)
    (auto simp: clock_instant_def split: datetime.splits)

lemma check_future_errors: "check_future (Aware now) margin stamps = Inl e \<Longrightarrow> e = Rejected FUTURE_TIMESTAMP"
  by (induction "Aware now" margin stamps rule: check_future.induct)
    (auto simp: clock_instant_def bindC_Inl_iff split: datetime.splits)

lemma finite_number_iff: "finite_number x \<longleftrightarrow> (\<exists>v. x = Finite v \<and> dec_finite v)"
  by (cases x) auto

lemma check_books_ok: "check_books books = Inr u \<Longrightarrow> b \<in> set books \<Longrightarrow> uncrossed b"
  by (induction books rule: check_books.induct)
    (auto simp: Let_def uncrossed_def finite_number_iff neq_Nil_conv)

lemma check_books_errors: "check_books books = Inl e \<Longrightarrow> \<exists>code. e = Rejected code \<and> code \<noteq> EDGE_BELOW_THRESHOLD"
  by (induction books rule: check_books.induct) (auto simp: Let_def bindC_Inl_iff)

lemma two_venues:
  assumes "length xs = 2" "a \<in> venue ` set xs" "b \<in> venue ` set xs" "a \<noteq> b"
  obtains x y where "xs = [x, y] \<or> xs = [y, x]" "venue x = a" "venue y = b"
proof -
  obtain p q where xs: "xs = [p, q]" using assms(1) by (auto simp: numeral_2_eq_2 length_Suc_conv)
  show thesis using that [of p q] that [of q p] assms xs by auto
qed

lemma by_venue_two:
  assumes "xs = [x, y] \<or> xs = [y, x]" "venue x = a" "venue y = b" "a \<noteq> b"
  shows "map_of (by_venue venue xs) a = Some x" "map_of (by_venue venue xs) b = Some y"
  using assms by (auto simp: by_venue_def)

lemma validate_sound:
  assumes "validate_inputs cfg funding orderbooks (Aware now) = Inr u"
  shows "sound_inputs cfg now funding orderbooks"
proof -
  note facts = assms [unfolded validate_inputs_def Let_def bindC_Inr_iff reject_if_iff, simplified]
  have cfg: "sc_venues cfg = [''hyperliquid'', ''bitget'']"
    using facts by (simp add: FUNDING_CARRY_REQUIRED_VENUES_def)
  have lens: "length funding = 2" "length orderbooks = 2"
    and venues: "''hyperliquid'' \<in> fo_venue ` set funding" "''hyperliquid'' \<in> bo_venue ` set orderbooks"
      "''bitget'' \<in> fo_venue ` set funding" "''bitget'' \<in> bo_venue ` set orderbooks"
    using facts cfg by auto
  obtain fh fb where f: "funding = [fh, fb] \<or> funding = [fb, fh]" "fo_venue fh = ''hyperliquid''" "fo_venue fb = ''bitget''"
    using two_venues [OF lens(1) venues(1,3)] by auto
  obtain bh bb where b: "orderbooks = [bh, bb] \<or> orderbooks = [bb, bh]" "bo_venue bh = ''hyperliquid''" "bo_venue bb = ''bitget''"
    using two_venues [OF lens(2) venues(2,4)] by auto
  have instruments: "fo_instrument fh = sc_instrument cfg" "fo_instrument fb = sc_instrument cfg"
      "bo_instrument bh = sc_instrument cfg" "bo_instrument bb = sc_instrument cfg"
    using facts f(1) b(1) by (auto simp: list_all_iff)
  have fresh: "check_freshness cfg funding orderbooks now = Inr ()"
    using facts by (auto simp: clock_instant_def)
  have future: "check_future (Aware now) (seconds (sc_maximum_future_seconds cfg))
      (map (\<lambda>f. (fo_source_timestamp f, fo_received_at f)) funding @
       map (\<lambda>b. (bo_source_timestamp b, bo_received_at b)) orderbooks) = Inr ()"
    using facts by auto
  have ts: "\<exists>t. fo_source_timestamp x = Aware t \<and> t - now \<le> seconds (sc_maximum_future_seconds cfg)" if "x \<in> set funding" for x
    using check_future_ok [OF future] that by (metis (no_types, lifting) UnI1 image_eqI set_append set_map)
  have tb: "\<exists>t. bo_source_timestamp x = Aware t \<and> t - now \<le> seconds (sc_maximum_future_seconds cfg)" if "x \<in> set orderbooks" for x
    using check_future_ok [OF future] that by (metis (no_types, lifting) UnI2 image_eqI set_append set_map)
  have books: "uncrossed x" if "x \<in> set orderbooks" for x
    using check_books_ok [OF _ that] facts by blast
  have members: "fh \<in> set funding" "fb \<in> set funding" "bh \<in> set orderbooks" "bb \<in> set orderbooks" using f(1) b(1) by auto
  have ages: "now - instant_of (fo_source_timestamp fh) \<le> seconds (sc_funding_max_age_seconds cfg)"
      "now - instant_of (fo_source_timestamp fb) \<le> seconds (sc_funding_max_age_seconds cfg)"
      "now - instant_of (bo_source_timestamp bh) \<le> seconds (sc_maximum_age_seconds cfg)"
      "now - instant_of (bo_source_timestamp bb) \<le> seconds (sc_maximum_age_seconds cfg)"
      "\<bar>instant_of (fo_source_timestamp fh) - instant_of (fo_source_timestamp fb)\<bar> \<le> seconds (sc_funding_max_observation_skew_seconds cfg)"
      "\<bar>instant_of (bo_source_timestamp bh) - instant_of (bo_source_timestamp bb)\<bar> \<le> seconds (sc_maximum_orderbook_venue_skew_seconds cfg)"
    using fresh by_venue_two [OF f] by_venue_two [OF b]
    by (auto simp: check_freshness_def Let_def lookup_iff)
  have "timely now (seconds (sc_funding_max_age_seconds cfg)) (seconds (sc_maximum_future_seconds cfg)) (fo_source_timestamp f)"
    if "f \<in> {fh, fb}" for f using that ts members ages by (fastforce simp: timely_def)
  moreover have "timely now (seconds (sc_maximum_age_seconds cfg)) (seconds (sc_maximum_future_seconds cfg)) (bo_source_timestamp b)"
    if "b \<in> {bh, bb}" for b using that tb members ages by (fastforce simp: timely_def)
  ultimately show ?thesis unfolding sound_inputs_def using f b instruments books members ages by blast
qed

section \<open>Which errors can occur\<close>

definition plain_rejection :: "carry_error \<Rightarrow> bool" where
  "plain_rejection e \<longleftrightarrow> e = Arithmetic \<or> (\<exists>code. e = Rejected code \<and> code \<noteq> EDGE_BELOW_THRESHOLD)"

lemma plain_rejection_simps [simp]:
  "plain_rejection (Rejected code) \<longleftrightarrow> code \<noteq> EDGE_BELOW_THRESHOLD"
  "plain_rejection Arithmetic" "\<not> plain_rejection (Escaping e)"
  by (auto simp: plain_rejection_def)

text \<open>
  A computation whose only failures are handled: arithmetic ones, and rejections other than that of
  the threshold. No exception escapes from it.
\<close>

definition plainly :: "'a carry \<Rightarrow> bool" where
  "plainly m \<longleftrightarrow> (\<forall>e. m = Inl e \<longrightarrow> plain_rejection e)"

lemma plainlyD: "plainly m \<Longrightarrow> m = Inl e \<Longrightarrow> plain_rejection e"
  by (simp add: plainly_def)

lemma plainly_Inr [simp]: "plainly (Inr x)"
  by (simp add: plainly_def)

lemma plainly_bind: "plainly m \<Longrightarrow> (\<And>x. m = Inr x \<Longrightarrow> plainly (f x)) \<Longrightarrow> plainly (bindC m f)"
  by (cases m) (auto simp: plainly_def)

lemma plainly_reject [simp]: "code \<noteq> EDGE_BELOW_THRESHOLD \<Longrightarrow> plainly (reject_if c code)"
  by (simp add: plainly_def)

lemma plainly_future: "plainly (check_future (Aware now) margin stamps)"
  using check_future_errors by (fastforce simp: plainly_def)

lemma plainly_books: "plainly (check_books books)"
  using check_books_errors by (fastforce simp: plainly_def)

lemma plainly_lookup: "k \<in> venue ` set items \<Longrightarrow> plainly (lookup (by_venue venue items) k)"
  using by_venue_memD [of k venue items] by (auto simp: plainly_def lookup_iff)

lemma plainly_freshness:
  assumes "''hyperliquid'' \<in> fo_venue ` set funding" "''bitget'' \<in> fo_venue ` set funding"
    "''hyperliquid'' \<in> bo_venue ` set orderbooks" "''bitget'' \<in> bo_venue ` set orderbooks"
  shows "plainly (check_freshness cfg funding orderbooks now)"
  unfolding check_freshness_def Let_def
  by (intro plainly_bind plainly_lookup assms plainly_reject) simp_all

lemma validate_errors: "plainly (validate_inputs cfg funding orderbooks (Aware now))"
  unfolding validate_inputs_def Let_def
  by (intro plainly_bind plainly_reject plainly_future plainly_books plainly_freshness)
    (simp_all add: clock_instant_def FUNDING_CARRY_REQUIRED_VENUES_def)

lemma normalize_errors: "normalize_funding item = Inl e \<Longrightarrow> plain_rejection e"
  by (auto simp: normalize_funding_def bindC_Inl_iff Let_def split: option.splits)

lemma normalize_all_errors: "normalize_all items d = Inl e \<Longrightarrow> plain_rejection e"
  by (induction items d rule: normalize_all.induct) (auto simp: bindC_Inl_iff normalize_errors)

text \<open>The normalised rates of two venues, in the order of the observations.\<close>

lemma normalize_two:
  assumes "normalize_all [f, g] [] = Inr normalized" "fo_venue f \<noteq> fo_venue g"
  obtains cf cg where "normalize_funding f = Inr cf" "normalize_funding g = Inr cg"
    "normalized = [(fo_venue f, cf), (fo_venue g, cg)]"
  using assms by auto

lemma sort_two:
  "sort_key k [a, b] = (if k a \<le> k b then [a, b] else [b, a])"
  by (auto simp: sort_key_def)

lemma choose_two:
  assumes "normalized = [(v, cv), (w, cw)]" "map_of books v = Some bv" "map_of books w = Some bw"
  shows "choose_legs normalized books =
    Inr (if cf_funding_rate_per_hour cv \<le> cf_funding_rate_per_hour cw then (v, w, cv, cw, bv, bw) else (w, v, cw, cv, bw, bv))"
  using assms by (auto simp: choose_legs_def sort_two Let_def lookup_iff lookup_def)

lemma vwap_errors: "vwap levels notional buying = Inl e \<Longrightarrow> plain_rejection e"
  by (auto simp: vwap_def divC_def bindC_Inl_iff Let_def split: if_splits prod.splits)

lemma plainly_pricing: "plainly (vwap levels notional buying)" "plainly (divC a b)"
  by (auto simp: plainly_def vwap_errors divC_def)

lemma economics_errors: "plainly (economics_of cfg normalized books lv sv lr sr lb sb)"
  unfolding economics_of_def Let_def
  by (auto intro!: plainly_bind plainly_pricing plainly_reject split: prod.splits option.splits)
    (simp_all add: plainly_def)

section \<open>The stages of the evaluation\<close>

lemma at_stage_iff [simp]:
  "at_stage reached m = Inr x \<longleftrightarrow> m = Inr x" "at_stage reached m = Inl p \<longleftrightarrow> (\<exists>e. m = Inl e \<and> p = (reached, e))"
  by (auto simp: at_stage_def split: sum.splits)

text \<open>The legs: the cheaper venue is bought, the other one sold.\<close>

definition legs_of ::
  "FundingObservation list \<Rightarrow> OrderBookObservation list \<Rightarrow> string \<Rightarrow> string \<Rightarrow> CanonicalFunding \<Rightarrow> CanonicalFunding \<Rightarrow>
   OrderBookObservation \<Rightarrow> OrderBookObservation \<Rightarrow> bool" where
  "legs_of funding orderbooks long_venue short_venue long_rate short_rate long_book short_book \<longleftrightarrow>
     {long_venue, short_venue} = {''hyperliquid'', ''bitget''} \<and>
     cf_funding_rate_per_hour long_rate \<le> cf_funding_rate_per_hour short_rate \<and>
     (\<exists>f\<in>set funding. fo_venue f = long_venue \<and> normalize_funding f = Inr long_rate) \<and>
     (\<exists>f\<in>set funding. fo_venue f = short_venue \<and> normalize_funding f = Inr short_rate) \<and>
     long_book \<in> set orderbooks \<and> bo_venue long_book = long_venue \<and>
     short_book \<in> set orderbooks \<and> bo_venue short_book = short_venue"

lemma legs_total:
  assumes "sound_inputs cfg now funding orderbooks" "normalize_all funding [] = Inr normalized"
  obtains lv sv lr sr lb sb where
    "choose_legs normalized (by_venue bo_venue orderbooks) = Inr (lv, sv, lr, sr, lb, sb)"
    "legs_of funding orderbooks lv sv lr sr lb sb"
proof -
  from assms(1) obtain fh fb bh bb where f: "funding = [fh, fb] \<or> funding = [fb, fh]"
    and b: "orderbooks = [bh, bb] \<or> orderbooks = [bb, bh]"
    and v: "fo_venue fh = ''hyperliquid''" "fo_venue fb = ''bitget''" "bo_venue bh = ''hyperliquid''" "bo_venue bb = ''bitget''"
    unfolding sound_inputs_def by blast
  note books = by_venue_two [OF b v(3,4), simplified]
  obtain x y where xy: "funding = [x, y]" "{fo_venue x, fo_venue y} = {''hyperliquid'', ''bitget''}" "fo_venue x \<noteq> fo_venue y"
    using f v by (auto simp: insert_commute)
  obtain cx cy where c: "normalize_funding x = Inr cx" "normalize_funding y = Inr cy"
      "normalized = [(fo_venue x, cx), (fo_venue y, cy)]"
    using normalize_two [of x y normalized] assms(2) xy(1,3) by auto
  obtain bx b2 where bs: "map_of (by_venue bo_venue orderbooks) (fo_venue x) = Some bx"
      "map_of (by_venue bo_venue orderbooks) (fo_venue y) = Some b2"
    using xy(2) books by (auto simp: doubleton_eq_iff)
  show thesis
  proof (cases "cf_funding_rate_per_hour cx \<le> cf_funding_rate_per_hour cy")
    case True
    then show thesis using choose_two [OF c(3) bs] c xy by_venue_SomeD [OF bs(1)] by_venue_SomeD [OF bs(2)]
      by (intro that [of "fo_venue x" "fo_venue y" cx cy bx b2]) (auto simp: legs_of_def)
  next
    case False
    then show thesis using choose_two [OF c(3) bs] c xy by_venue_SomeD [OF bs(1)] by_venue_SomeD [OF bs(2)]
      by (intro that [of "fo_venue y" "fo_venue x" cy cx b2 bx]) (auto simp: legs_of_def)
  qed
qed

lemma evaluate_economics_errors:
  assumes "evaluate_economics cfg funding orderbooks (Aware now) = Inl (reached, e)"
  shows "plain_rejection e" "reached \<noteq> THRESHOLD_EVALUATED"
proof -
  consider "validate_inputs cfg funding orderbooks (Aware now) = Inl e" "reached = INPUT_VALIDATION"
    | "normalize_all funding [] = Inl e" "reached = FUNDING_NORMALIZATION"
    | normalized lv sv lr sr lb sb where "reached = BOOK_PRICING"
      "economics_of cfg normalized (by_venue bo_venue orderbooks) lv sv lr sr lb sb = Inl e"
  proof (cases "validate_inputs cfg funding orderbooks (Aware now)")
    case (Inl e')
    then show thesis using assms that(1) by (auto simp: evaluate_economics_def at_stage_def)
  next
    case (Inr u)
    note sound = validate_sound [OF Inr]
    show thesis
    proof (cases "normalize_all funding []")
      case (Inl e')
      then show thesis using assms that(2) Inr by (auto simp: evaluate_economics_def at_stage_def)
    next
      case norm: (Inr normalized)
      from legs_total [OF sound norm] obtain lv sv lr sr lb sb where
        "choose_legs normalized (by_venue bo_venue orderbooks) = Inr (lv, sv, lr, sr, lb, sb)" .
      then show thesis using assms that(3) [of normalized lv sv lr sr lb sb] Inr norm
        by (auto simp: evaluate_economics_def at_stage_def split: sum.splits)
    qed
  qed
  then have "plain_rejection e \<and> reached \<noteq> THRESHOLD_EVALUATED"
    using validate_errors [THEN plainlyD] normalize_all_errors economics_errors [THEN plainlyD] by cases auto
  then show "plain_rejection e" "reached \<noteq> THRESHOLD_EVALUATED" by simp_all
qed

lemma evaluate_economics_sound:
  assumes "evaluate_economics cfg funding orderbooks (Aware now) = Inr ec"
  obtains normalized lv sv lr sr lb sb where
    "sound_inputs cfg now funding orderbooks" "legs_of funding orderbooks lv sv lr sr lb sb"
    "economics_of cfg normalized (by_venue bo_venue orderbooks) lv sv lr sr lb sb = Inr ec"
proof -
  from assms obtain normalized legs u where
      v: "validate_inputs cfg funding orderbooks (Aware now) = Inr u" and n: "normalize_all funding [] = Inr normalized"
    by (auto simp: evaluate_economics_def Let_def split: sum.splits prod.splits)
  note sound = validate_sound [OF v]
  from legs_total [OF sound n] obtain lv sv lr sr lb sb where
      l: "choose_legs normalized (by_venue bo_venue orderbooks) = Inr (lv, sv, lr, sr, lb, sb)" "legs_of funding orderbooks lv sv lr sr lb sb" .
  have "economics_of cfg normalized (by_venue bo_venue orderbooks) lv sv lr sr lb sb = Inr ec"
    using assms v n l by (simp add: evaluate_economics_def at_stage_def split: sum.splits)
  then show thesis using that sound l by blast
qed

lemma validate_aware: "validate_inputs cfg funding orderbooks now = Inr u \<Longrightarrow> \<exists>t. now = Aware t"
  by (cases now) (auto simp: validate_inputs_def Let_def clock_instant_def)

lemma evaluate_aware: "evaluate_economics cfg funding orderbooks now = Inr ec \<Longrightarrow> \<exists>t. now = Aware t"
  using validate_aware by (fastforce simp: evaluate_economics_def at_stage_def split: sum.splits)

text \<open>The fields of the economics that the safety of a candidate rests on.\<close>

lemma economics_fields:
  assumes "economics_of cfg normalized books lv sv lr sr lb sb = Inr ec"
  obtains lq lbps sq sbps where
    "ec_long_venue ec = lv" "ec_short_venue ec = sv" "ec_receive_leg ec = sv" "ec_pay_leg ec = lv"
    "ec_gross_funding_edge_per_hour ec = dsub (cf_funding_rate_per_hour sr) (cf_funding_rate_per_hour lr)"
    "vwap (bo_asks lb) (sc_shadow_notional cfg) True = Inr (ec_long_entry_vwap ec, lq, ec_long_available_quantity ec, lbps)"
    "vwap (bo_bids sb) (sc_shadow_notional cfg) False = Inr (ec_short_entry_vwap ec, sq, ec_short_available_quantity ec, sbps)"
    "ec_expected_net_edge ec = ddiv (dsub (ec_expected_funding_income ec) (ec_round_trip_cost ec)) (sc_shadow_notional cfg)"
    "dec_finite (ec_expected_net_edge ec)"
proof -
  from assms obtain p q a b p' q' a' b' where v: "vwap (bo_asks lb) (sc_shadow_notional cfg) True = Inr (p, q, a, b)"
      "vwap (bo_bids sb) (sc_shadow_notional cfg) False = Inr (p', q', a', b')"
    unfolding economics_of_def Let_def bindC_Inr_iff by (auto split: prod.splits)
  obtain fl fs where f: "fee_rate cfg lv = Some fl" "fee_rate cfg sv = Some fs"
    using assms v by (auto simp: economics_of_def Let_def split: option.splits)
  show thesis using assms v by (intro that [of q b q' b'])
    (auto simp: economics_of_def Let_def f divC_def split: if_splits)
qed

section \<open>Guarantees\<close>

text \<open>
  C17. On an aware clock the shadow evaluation always returns a candidate, whatever the observations
  and the configuration: no exception escapes, missing venues and timestamps without a zone included.
  The verdict is exact: the result is a shadow candidate exactly if it carries no rejection reason, and
  exactly if a net edge was computed and reaches the minimum; the reason is the threshold exactly
  if a net edge was computed and stays below it; the economics are reported exactly when the
  threshold stage was reached; and its source ids are those of the observations, sorted.
  (Failures that the decimal context or the range of dates would add are \<open>ArithmeticError\<close>s too
  and would take the branch of \<open>EDGE_CALCULATION_FAILURE\<close>, which the statement allows.)
\<close>

theorem carry_total:
  assumes "er_now req = Aware now"
  shows "\<exists>c. carry_evaluate sha256 cfg req funding orderbooks = Inr c \<and>
    (ca_disposition c = SHADOW_CANDIDATE \<longleftrightarrow> ca_rejection_reason c = None) \<and>
    (ca_disposition c = SHADOW_CANDIDATE \<longleftrightarrow>
       (\<exists>edge. ca_expected_net_edge c = Some edge \<and> sc_minimum_net_edge cfg \<le> edge)) \<and>
    (ca_rejection_reason c = Some EDGE_BELOW_THRESHOLD \<longleftrightarrow>
       (\<exists>edge. ca_expected_net_edge c = Some edge \<and> edge < sc_minimum_net_edge cfg)) \<and>
    (ca_economics_calculated c \<longleftrightarrow> ca_evaluation_stage c = THRESHOLD_EVALUATED) \<and>
    (ca_economics_calculated c \<longleftrightarrow> ca_expected_net_edge c \<noteq> None) \<and>
    mset (ca_source_event_ids c) = mset (source_ids_of funding orderbooks) \<and> sorted (ca_source_event_ids c)"
proof (cases "evaluate_economics cfg funding orderbooks (er_now req)")
  case (Inl p)
  obtain reached e where p: "p = (reached, e)" by (cases p)
  from evaluate_economics_errors [of cfg funding orderbooks now reached e] Inl p assms
  have "plain_rejection e" "reached \<noteq> THRESHOLD_EVALUATED" by simp_all
  then show ?thesis using Inl p
    by (auto simp: carry_evaluate_def Let_def plain_rejection_def pre_economics_rejection_def)
next
  case (Inr ec)
  then show ?thesis by (auto simp: carry_evaluate_def Let_def candidate_from_economics_def)
qed

text \<open>A carry between two venues whose hourly rates differ by one percent.\<close>

definition demo_rate :: "string \<Rightarrow> string \<Rightarrow> dec \<Rightarrow> FundingObservation" where
  "demo_rate ident venue rate =
     \<lparr>fo_event_id = ident, fo_venue = venue, fo_instrument = ''BTC'', fo_raw_funding_rate = Finite rate,
      fo_funding_unit = ''fraction_per_interval'', fo_funding_interval_seconds = Some 3600, fo_next_funding_at = None,
      fo_source_timestamp = Aware 0, fo_received_at = Aware 0, fo_experimental = False\<rparr>"

definition demo_book :: "string \<Rightarrow> string \<Rightarrow> dec \<Rightarrow> OrderBookObservation" where
  "demo_book ident venue bid =
     \<lparr>bo_event_id = ident, bo_venue = venue, bo_instrument = ''BTC'', bo_bids = [(Finite bid, Finite 5)],
      bo_asks = [(Finite (bid + 1), Finite 5)], bo_source_timestamp = Aware 0, bo_received_at = Aware 0,
      bo_experimental = False, bo_source_event_ids = []\<rparr>"

abbreviation demo_rates :: "FundingObservation list" where
  "demo_rates \<equiv> [demo_rate ''f1'' ''hyperliquid'' (1 / 100), demo_rate ''f2'' ''bitget'' (1 / 50)]"

abbreviation demo_books :: "OrderBookObservation list" where
  "demo_books \<equiv> [demo_book ''b1'' ''hyperliquid'' 99, demo_book ''b2'' ''bitget'' 100]"

definition demo_evaluation :: evaluation_request where
  "demo_evaluation = \<lparr>er_run_id = ''run'', er_now = Aware 1000000, er_code_commit_sha = ''c'', er_config_sha = ''d''\<rparr>"

definition demo_candidate :: "FundingCarryShadowCandidate result" where
  "demo_candidate = carry_evaluate (\<lambda>s. s) default_shadow_config demo_evaluation demo_rates demo_books"

abbreviation demo_canonical :: "dec \<Rightarrow> CanonicalFunding" where
  "demo_canonical rate \<equiv> \<lparr>cf_raw_funding_rate = rate, cf_canonical_funding_rate = rate, cf_funding_interval_seconds = 3600,
     cf_funding_rate_per_hour = rate, cf_next_funding_at = None, cf_source_timestamp = Aware 0, cf_received_at = Aware 0\<rparr>"

lemma demo_normalized:
  "normalize_all demo_rates [] =
     Inr [(''hyperliquid'', demo_canonical (1 / 100)), (''bitget'', demo_canonical (1 / 50))]"
proof -
  have r: "dmul (1 / 100) 1 = 1 / 100" "ddiv (dmul (1 / 100) 3600) 3600 = 1 / 100"
    "dmul (1 / 50) 1 = 1 / 50" "ddiv (dmul (1 / 50) 3600) 3600 = 1 / 50"
    "dec_finite (1 / 100)" "dec_finite (1 / 50)" by code_simp+
  have "normalize_funding (demo_rate ''f1'' ''hyperliquid'' (1 / 100)) = Inr (demo_canonical (1 / 100))"
    "normalize_funding (demo_rate ''f2'' ''bitget'' (1 / 50)) = Inr (demo_canonical (1 / 50))"
    by (simp_all add: normalize_funding_def demo_rate_def FUNDING_CARRY_REQUIRED_VENUES_def r Let_def reject_if_def)
  then show ?thesis by (simp add: demo_rate_def)
qed

lemma demo_economics:
  "\<exists>ec. evaluate_economics default_shadow_config demo_rates demo_books (Aware 1000000) = Inr ec \<and>
     ec_long_venue ec = ''hyperliquid'' \<and> 0 \<le> ec_expected_net_edge ec"
proof -
  have v: "validate_inputs default_shadow_config demo_rates demo_books (Aware 1000000) = Inr ()" by code_simp
  have books: "by_venue bo_venue demo_books = [(''hyperliquid'', demo_book ''b1'' ''hyperliquid'' 99), (''bitget'', demo_book ''b2'' ''bitget'' 100)]"
    by (simp add: by_venue_def demo_book_def)
  have w: "vwap [(Finite 100, Finite 5)] 10 True = Inr (100, 1 / 10, 5, 0)" "vwap [(Finite 100, Finite 5)] 10 False = Inr (100, 1 / 10, 5, 0)"
    by code_simp+
  have arith: "dsub (1 / 50) (1 / 100) = 1 / 100" "dmul (1 / 100) 10 = 1 / 10" "dmul (1 / 10) 3600 = 360" "ddiv 360 3600 = 1 / 10"
    "dmul 10 (3 / 5000) = 3 / 500" "dadd (3 / 500) (3 / 500) = 3 / 250" "dsub 100 100 = 0" "dmul (1 / 10) 0 = 0" "dadd 0 0 = 0"
    "dadd 100 100 = 200" "ddiv 200 2 = 100" "divC 0 100 = Inr 0" "dmul 0 10 = 0"
    "dadd (3 / 250) (3 / 250) = 3 / 125" "dadd (3 / 125) 0 = 3 / 125" "dsub (1 / 10) (3 / 125) = 19 / 250"
    "divC (19 / 250) 10 = Inr (19 / 2500)" "ddiv (3 / 125) (1 / 10) = 6 / 25"
    by code_simp+
  have fin: "list_all dec_finite [1 / 100, 1 / 10, 3 / 500, 3 / 250, 0, 3 / 125, 19 / 250, 19 / 2500, 6 / 25]" by code_simp
  have norm: "normalize_all demo_rates [] = Inr [(''hyperliquid'', demo_canonical (1 / 100)), (''bitget'', demo_canonical (1 / 50))]"
    by (rule demo_normalized)
  have "choose_legs [(''hyperliquid'', demo_canonical (1 / 100)), (''bitget'', demo_canonical (1 / 50))] (by_venue bo_venue demo_books) =
     Inr (''hyperliquid'', ''bitget'', demo_canonical (1 / 100), demo_canonical (1 / 50),
       demo_book ''b1'' ''hyperliquid'' 99, demo_book ''b2'' ''bitget'' 100)"
    unfolding books by (simp add: choose_legs_def sort_two lookup_def)
  moreover have econ: "\<exists>ec. economics_of default_shadow_config normalized bks ''hyperliquid'' ''bitget''
     (demo_canonical (1 / 100)) (demo_canonical (1 / 50)) (demo_book ''b1'' ''hyperliquid'' 99) (demo_book ''b2'' ''bitget'' 100) = Inr ec \<and>
     ec_long_venue ec = ''hyperliquid'' \<and> 0 \<le> ec_expected_net_edge ec" for normalized bks
    by (simp add: economics_of_def Let_def default_shadow_config_def fee_rate_def demo_book_def reject_if_def
        w arith fin [simplified])
  moreover obtain ec where "economics_of default_shadow_config
      [(''hyperliquid'', demo_canonical (1 / 100)), (''bitget'', demo_canonical (1 / 50))] (by_venue bo_venue demo_books)
      ''hyperliquid'' ''bitget'' (demo_canonical (1 / 100)) (demo_canonical (1 / 50))
      (demo_book ''b1'' ''hyperliquid'' 99) (demo_book ''b2'' ''bitget'' 100) = Inr ec"
      "ec_long_venue ec = ''hyperliquid''" "0 \<le> ec_expected_net_edge ec" using econ by blast
  ultimately show ?thesis unfolding evaluate_economics_def v norm at_stage_def by (simp add: Let_def)
qed

lemma demo_candidate_fields:
  "\<exists>c. demo_candidate = Inr c \<and> ca_disposition c = SHADOW_CANDIDATE \<and> ca_long_venue c = Some ''hyperliquid'' \<and>
     ca_economics_calculated c"
proof -
  have now: "er_now demo_evaluation = Aware 1000000" and least: "sc_minimum_net_edge default_shadow_config = 0"
    by (simp_all add: demo_evaluation_def default_shadow_config_def)
  from demo_economics obtain ec where
    ec: "evaluate_economics default_shadow_config demo_rates demo_books (er_now demo_evaluation) = Inr ec"
      "ec_long_venue ec = ''hyperliquid''" "\<not> ec_expected_net_edge ec < sc_minimum_net_edge default_shadow_config"
    unfolding now least not_less by blast
  show ?thesis unfolding demo_candidate_def carry_evaluate_def Let_def ec(1)
    by (simp add: ec(2,3) candidate_from_economics_def)
qed

theorem carry_total_witness:
  "\<exists>c. demo_candidate = Inr c \<and> ca_disposition c = SHADOW_CANDIDATE \<and> ca_rejection_reason c = None \<and>
     ca_economics_calculated c"
proof -
  have "er_now demo_evaluation = Aware 1000000" by (simp add: demo_evaluation_def)
  note total = carry_total [OF this, of "\<lambda>s. s" default_shadow_config demo_rates demo_books, folded demo_candidate_def]
  from demo_candidate_fields obtain c where c: "demo_candidate = Inr c" "ca_disposition c = SHADOW_CANDIDATE" "ca_economics_calculated c"
    by blast
  from total [unfolded c(1)] c(2) have "ca_rejection_reason c = None" by auto
  then show ?thesis using c by blast
qed

text \<open>
  C16. A shadow candidate is sound: the clock is aware; there is one fresh, synchronized funding rate
  and one fresh, uncrossed order book per venue on the configured instrument; the bought venue is the
  one with the lower hourly funding rate, which pays, and the sold one receives; the notional was
  priced completely within the depth of both books, the asks of the bought venue and the bids of the
  sold one: parts of the leading levels, each within its displayed size, use it up to at most
  one part in ten to the twelve, and the entry prices are their costs per unit; and the net edge
  after all costs reaches the minimum.
\<close>

theorem carry_candidate_sound:
  assumes "carry_evaluate sha256 cfg req funding orderbooks = Inr c" "ca_disposition c = SHADOW_CANDIDATE"
    and "0 < sc_shadow_notional cfg"
  shows "\<exists>now lv sv lr sr lb sb lp lq la lbps sp sq sa sbps edge.
    er_now req = Aware now \<and> sound_inputs cfg now funding orderbooks \<and>
    legs_of funding orderbooks lv sv lr sr lb sb \<and>
    ca_long_venue c = Some lv \<and> ca_short_venue c = Some sv \<and> ca_pay_leg c = Some lv \<and> ca_receive_leg c = Some sv \<and>
    vwap (bo_asks lb) (sc_shadow_notional cfg) True = Inr (lp, lq, la, lbps) \<and> 0 < lp \<and> 0 < lq \<and> lq \<le> la \<and>
    priced_within (bo_asks lb) (sc_shadow_notional cfg) lp lq \<and>
    vwap (bo_bids sb) (sc_shadow_notional cfg) False = Inr (sp, sq, sa, sbps) \<and> 0 < sp \<and> 0 < sq \<and> sq \<le> sa \<and>
    priced_within (bo_bids sb) (sc_shadow_notional cfg) sp sq \<and>
    ca_long_entry_vwap c = Some lp \<and> ca_short_entry_vwap c = Some sp \<and>
    ca_expected_net_edge c = Some edge \<and> dec_finite edge \<and> sc_minimum_net_edge cfg \<le> edge"
proof -
  obtain ec where ec: "evaluate_economics cfg funding orderbooks (er_now req) = Inr ec"
      "sc_minimum_net_edge cfg \<le> ec_expected_net_edge ec"
      "c = candidate_from_economics cfg req
             (identity sha256 FUNDING_CARRY_STRATEGY_ID (sc_instrument cfg) (source_ids_of funding orderbooks))
             (source_ids_of funding orderbooks) ec SHADOW_CANDIDATE None"
    using assms(1,2) by (auto simp: carry_evaluate_def Let_def pre_economics_rejection_def candidate_from_economics_def
        split: sum.splits if_splits carry_error.splits)
  obtain now where now: "er_now req = Aware now" using evaluate_aware [OF ec(1)] by blast
  from evaluate_economics_sound [OF ec(1) [unfolded now]] obtain normalized lv sv lr sr lb sb where
      s: "sound_inputs cfg now funding orderbooks" "legs_of funding orderbooks lv sv lr sr lb sb"
      and e: "economics_of cfg normalized (by_venue bo_venue orderbooks) lv sv lr sr lb sb = Inr ec" .
  from economics_fields [OF e] obtain lq lbps sq sbps where
      v: "vwap (bo_asks lb) (sc_shadow_notional cfg) True = Inr (ec_long_entry_vwap ec, lq, ec_long_available_quantity ec, lbps)"
        "vwap (bo_bids sb) (sc_shadow_notional cfg) False = Inr (ec_short_entry_vwap ec, sq, ec_short_available_quantity ec, sbps)"
      and ids: "ec_long_venue ec = lv" "ec_short_venue ec = sv" "ec_receive_leg ec = sv" "ec_pay_leg ec = lv"
      and fin: "dec_finite (ec_expected_net_edge ec)" .
  note price = vwap_sound [OF assms(3) v(1)] vwap_sound [OF assms(3) v(2)] vwap_priced [OF assms(3) v(1)] vwap_priced [OF assms(3) v(2)]
  show ?thesis
    by (rule exI [of _ now], rule exI [of _ lv], rule exI [of _ sv], rule exI [of _ lr], rule exI [of _ sr],
        rule exI [of _ lb], rule exI [of _ sb], rule exI [of _ "ec_long_entry_vwap ec"], rule exI [of _ lq], rule exI [of _ "ec_long_available_quantity ec"],
        rule exI [of _ lbps], rule exI [of _ "ec_short_entry_vwap ec"], rule exI [of _ sq], rule exI [of _ "ec_short_available_quantity ec"], rule exI [of _ sbps],
        rule exI [of _ "ec_expected_net_edge ec"])
      (simp add: now s v price ids fin ec(2,3) candidate_from_economics_def)
qed

theorem carry_candidate_sound_witness:
  "\<exists>c lv sv lr sr lb sb. demo_candidate = Inr c \<and> sound_inputs default_shadow_config 1000000 demo_rates demo_books \<and>
     legs_of demo_rates demo_books lv sv lr sr lb sb \<and> ca_long_venue c = Some lv \<and> lv = ''hyperliquid''"
proof -
  obtain c where c: "demo_candidate = Inr c" "ca_disposition c = SHADOW_CANDIDATE" "ca_long_venue c = Some ''hyperliquid''"
    using demo_candidate_fields by blast
  have "0 < sc_shadow_notional default_shadow_config" by (simp add: default_shadow_config_def)
  from carry_candidate_sound [OF c(1) [unfolded demo_candidate_def] c(2) this] obtain now lv sv lr sr lb sb where
    s: "er_now demo_evaluation = Aware now" "sound_inputs default_shadow_config now demo_rates demo_books"
      "legs_of demo_rates demo_books lv sv lr sr lb sb" "ca_long_venue c = Some lv" by blast
  then have "now = 1000000" "lv = ''hyperliquid''" using c(3) by (simp_all add: demo_evaluation_def)
  then show ?thesis using c(1) s(2-4) by blast
qed

section \<open>Identity of a candidate\<close>

lemma join_strings_prefix:
  "join '','' (map json_string xs) @ CHR '']'' # a = join '','' (map json_string ys) @ CHR '']'' # b \<longleftrightarrow> xs = ys \<and> a = b"
proof (induction xs arbitrary: ys)
  case Nil
  then show ?case by (cases ys rule: remdups_adj.cases) (auto simp: json_string_def)
next
  case (Cons x xs)
  show ?case
  proof (cases ys)
    case Nil
    then show ?thesis by (cases xs) (auto simp: json_string_def)
  next
    case ys: (Cons y zs)
    show ?thesis using Cons.IH [of zs] ys by (cases xs; cases zs) (auto simp: json_string_prefix)
  qed
qed

lemma identity_payload_eq:
  "identity_payload s i ids = identity_payload s' i' ids' \<longleftrightarrow> s = s' \<and> i = i' \<and> sort ids = sort ids'"
proof -
  have sorted: "sort_key fst [(''strategy_id'', x1), (''instrument'', x2), (''source_event_ids'', x3)] =
      [(''instrument'', x2), (''source_event_ids'', x3), (''strategy_id'', x1)]" for x1 x2 x3 :: string
    by (simp add: sort_key_def less_eq_char_def list_le_def)
  show ?thesis unfolding identity_payload_def json_object_def sorted
    by (auto simp: json_string_prefix json_array_def join_strings_prefix)
qed

text \<open>
  The identity of a candidate is taken of a text that determines the strategy, the instrument and
  the collection of source events, and nothing of their order: two evaluations share an identity
  exactly if they agree in all three or the digests of different texts collide.
\<close>

theorem carry_identity_identifies:
  "identity sha256 s i ids = identity sha256 s' i' ids' \<longleftrightarrow>
     s = s' \<and> i = i' \<and> mset ids = mset ids' \<or>
     identity_payload s i ids \<noteq> identity_payload s' i' ids' \<and>
       sha256 (identity_payload s i ids) = sha256 (identity_payload s' i' ids')"
proof -
  have "sort ids = sort ids' \<longleftrightarrow> mset ids = mset ids'"
    by (metis mset_sort properties_for_sort sorted_sort)
  then show ?thesis using identity_payload_eq [of s i ids s' i' ids'] by (metis identity_def)
qed

end
