(* ===== verification/Operation_Models.thy ===== *)
theory Operation_Models
  imports Funding_Carry Execution_Models
begin

text \<open>
  \<open>services/operations/models.py\<close> and the in-memory repository of
  \<open>services/operations/repository.py\<close>: what the continuous paper operation records. Timestamps are
  instants; only where the code tests a timestamp for its zone is it a \<open>datetime\<close>. A \<open>date\<close> is a day
  number. The digest \<open>full_signal_hash\<close> of a signal is a parameter of its constructor.
\<close>

section \<open>Enumerations\<close>

datatype OperationMode = OBSERVATION_ONLY | STRICT_PAPER

datatype OperationalRunStatus = RUN_STARTING | RUN_RUNNING | RUN_STOP_REQUESTED | RUN_STOPPED | RUN_FAILED

datatype StrategyEligibilityStatus =
  STRATEGY_ELIGIBLE | INSUFFICIENT_EVIDENCE | DATA_QUALITY_FAILED | RESEARCH_FAILED | CAPITAL_INFEASIBLE | SUSPENDED

fun strategy_status_value :: "StrategyEligibilityStatus \<Rightarrow> string" where
  "strategy_status_value STRATEGY_ELIGIBLE = ''eligible''"
| "strategy_status_value INSUFFICIENT_EVIDENCE = ''insufficient_evidence''"
| "strategy_status_value DATA_QUALITY_FAILED = ''data_quality_failed''"
| "strategy_status_value RESEARCH_FAILED = ''research_failed''"
| "strategy_status_value CAPITAL_INFEASIBLE = ''capital_infeasible''"
| "strategy_status_value SUSPENDED = ''suspended''"

datatype PaperPromotionVerdict = NOT_READY | CONTINUE_OBSERVATION | ELIGIBLE_FOR_MICRO_LIVE_REVIEW

datatype CollectorHealthStatus = COLLECTOR_HEALTHY | COLLECTOR_DEGRADED | COLLECTOR_UNHEALTHY | COLLECTOR_INSUFFICIENT_EVIDENCE

fun collector_status_value :: "CollectorHealthStatus \<Rightarrow> string" where
  "collector_status_value COLLECTOR_HEALTHY = ''healthy''"
| "collector_status_value COLLECTOR_DEGRADED = ''degraded''"
| "collector_status_value COLLECTOR_UNHEALTHY = ''unhealthy''"
| "collector_status_value COLLECTOR_INSUFFICIENT_EVIDENCE = ''insufficient_evidence''"

datatype SignalDisposition =
  SIGNAL_CANDIDATE | REJECTED_CAPABILITY | REJECTED_DATA_QUALITY | REJECTED_RESEARCH | REJECTED_CAPITAL | REJECTED_RISK
  | SIGNAL_ELIGIBLE

datatype ResearchExecutionStatus = NOT_SCHEDULED | SKIPPED_SNAPSHOT_INELIGIBLE | RESEARCH_RUN_FAILED | RESEARCH_COMPLETED

datatype CapitalFeasibilityStatus = CAPITAL_NOT_EVALUATED | CAPITAL_INSUFFICIENT_EVIDENCE | CAPITAL_FEASIBLE | CAPITAL_NOT_FEASIBLE

section \<open>Records\<close>

record CollectorHealthSummary =
  hs_status :: CollectorHealthStatus
  hs_total_failures :: int
  hs_fatal_failures :: int
  hs_degraded_failures :: int
  hs_expected_skips :: int
  hs_failures_by_venue :: "(string, int) dict"
  hs_failures_by_instrument :: "(string, int) dict"
  hs_failures_by_event_type :: "(string, int) dict"
  hs_failures_by_error_type :: "(string, int) dict"
  hs_permanently_degraded_streams :: int
  hs_recovery_required_streams :: int
  hs_checkpoint_lag_max_seconds :: "dec option"
  hs_last_healthy_at :: "instant option"
  hs_reasons :: "string list"
  hs_production_market_event_count :: int
  hs_production_control_event_count :: int
  hs_experimental_market_event_count :: int

record OperationalIdentity =
  oid_run_id :: string
  oid_strategy_id :: string
  oid_strategy_version :: string
  oid_data_snapshot_id :: string
  oid_research_run_id :: string
  oid_created_at :: instant
  oid_commit_sha :: string
  oid_config_sha256 :: string

definition OperationalIdentity_init ::
  "string \<Rightarrow> string \<Rightarrow> string \<Rightarrow> string \<Rightarrow> string \<Rightarrow> datetime \<Rightarrow> string \<Rightarrow> string \<Rightarrow> OperationalIdentity result" where
  "OperationalIdentity_init run_id strategy_id strategy_version data_snapshot_id research_run_id created_at commit_sha config_sha256 =
     bindE (as_utc ''operational timestamps must be timezone-aware'' created_at) (\<lambda>t.
     bindE (raise_if ([] \<in> set [run_id, strategy_id, strategy_version, data_snapshot_id, research_run_id, commit_sha, config_sha256])
       (ValueError ''operational identity fields cannot be empty'')) (\<lambda>_.
     Inr \<lparr>oid_run_id = run_id, oid_strategy_id = strategy_id, oid_strategy_version = strategy_version,
          oid_data_snapshot_id = data_snapshot_id, oid_research_run_id = research_run_id, oid_created_at = t,
          oid_commit_sha = commit_sha, oid_config_sha256 = config_sha256\<rparr>))"

record OperationalRun =
  orn_run_id :: string
  orn_commit_sha :: string
  orn_config_sha256 :: string
  orn_mode :: OperationMode
  orn_status :: OperationalRunStatus
  orn_started_at :: instant
  orn_updated_at :: instant
  orn_last_snapshot_id :: "string option"
  orn_last_research_run_ids :: "string list"
  orn_collector_healthy :: bool
  orn_signals_paused_reason :: "string option"
  orn_failure_reason :: "string option"
  orn_research_status :: ResearchExecutionStatus
  orn_research_skip_reason :: "string option"

record StrategyEligibilityRecord =
  elg_strategy_id :: string
  elg_strategy_version :: string
  elg_status :: StrategyEligibilityStatus
  elg_research_run_id :: string
  elg_data_snapshot_id :: string
  elg_evaluated_at :: instant
  elg_expires_at :: instant
  elg_reasons :: "string list"
  elg_capital_feasibility_status :: CapitalFeasibilityStatus

text \<open>A naive time cannot be compared with the aware bounds.\<close>

definition valid_at :: "StrategyEligibilityRecord \<Rightarrow> datetime \<Rightarrow> bool result" where
  "valid_at r now =
     (if elg_status r \<noteq> STRATEGY_ELIGIBLE then Inr False
      else case now of
        Naive _ \<Rightarrow> Inl (TypeError ''can not compare offset-naive and offset-aware datetimes'')
      | Aware t \<Rightarrow> Inr (elg_evaluated_at r \<le> t \<and> t \<le> elg_expires_at r))"

record LiveSignalInput =
  lsi_event_id :: string
  lsi_venue :: string
  lsi_instrument :: string
  lsi_event_type :: string
  lsi_available_at :: instant
  lsi_data_quality_score :: rat
  lsi_capability_support :: string
  lsi_reconciliation_state :: "string option"
  lsi_bid :: "dec option"
  lsi_ask :: "dec option"
  lsi_bid_size :: "dec option"
  lsi_ask_size :: "dec option"
  lsi_funding_rate :: "number option"
  lsi_bids :: "(number \<times> number) list"
  lsi_asks :: "(number \<times> number) list"
  lsi_funding_unit :: "string option"
  lsi_funding_interval_seconds :: "int option"
  lsi_next_funding_at :: "instant option"
  lsi_source_timestamp :: "instant option"
  lsi_received_at :: "instant option"
  lsi_source_event_id :: "string option"
  lsi_applied_source_event_ids :: "string list"
  lsi_source_table :: string
  lsi_normalizer_version :: string
  lsi_connection_epoch :: "int option"
  lsi_sequence :: "int option"
  lsi_state_hash :: "string option"
  lsi_timestamp_semantic :: "string option"
  lsi_exchange_timestamp :: "instant option"
  lsi_freshness_age_seconds :: "dec option"

record ShadowRuntimeMetrics =
  srm_run_id :: string
  srm_candidate_generation_attempt_count :: int
  srm_candidate_inserted_count :: int
  srm_candidate_rejected_count :: int
  srm_candidate_duplicate_suppressed_count :: int
  srm_source_pair_duplicate_count :: int
  srm_matched_source_pair_count :: int

definition no_metrics :: "string \<Rightarrow> ShadowRuntimeMetrics" where
  "no_metrics run_id =
     \<lparr>srm_run_id = run_id, srm_candidate_generation_attempt_count = 0, srm_candidate_inserted_count = 0,
      srm_candidate_rejected_count = 0, srm_candidate_duplicate_suppressed_count = 0,
      srm_source_pair_duplicate_count = 0, srm_matched_source_pair_count = 0\<rparr>"

record MissingShadowInput =
  mi_reason :: FundingCarryRejectCode
  mi_venue :: string
  mi_capability :: string
  mi_last_seen_event_at :: "instant option"
  mi_last_valid_event_at :: "instant option"
  mi_source_event_count :: int

record ShadowInputBatch =
  bt_events :: "LiveSignalInput list"
  bt_matched :: bool
  bt_pair_identity :: "string option"
  bt_source_pair_duplicate :: bool
  bt_missing :: "MissingShadowInput option"
  bt_timing :: "ShadowTimingMetrics option"
  bt_venue_timestamp_skew_seconds :: "dec option"
  bt_instrument :: string

record PaperSignal =
  sig_identity :: OperationalIdentity
  sig_signal_id :: string
  sig_decision_time :: instant
  sig_venue_legs :: "string list"
  sig_instrument :: string
  sig_side :: Side
  sig_quantity :: dec
  sig_expected_gross_edge :: dec
  sig_expected_net_edge :: dec
  sig_expected_fee :: dec
  sig_expected_rebate :: dec
  sig_expected_funding :: dec
  sig_expected_slippage :: dec
  sig_expected_impact :: dec
  sig_required_capabilities :: "string list"
  sig_source_event_ids :: "string list"
  sig_disposition :: SignalDisposition
  sig_rejection_reason :: "string option"
  sig_full_signal_hash :: string

definition PaperSignal_post_init :: "(PaperSignal \<Rightarrow> string) \<Rightarrow> PaperSignal \<Rightarrow> PaperSignal result" where
  "PaperSignal_post_init signal_hash s =
     bindE (raise_if (sig_quantity s \<le> 0) (ValueError ''signal quantity must be positive'')) (\<lambda>_.
     Inr (s\<lparr>sig_full_signal_hash := signal_hash s\<rparr>))"

record PaperOrderRecord =
  por_identity :: OperationalIdentity
  por_order_id :: string
  por_signal_id :: string
  por_portfolio_id :: string
  por_venue :: string
  por_instrument :: string
  por_side :: Side
  por_requested_quantity :: dec
  por_filled_quantity :: dec
  por_status :: string
  por_submitted_at :: instant
  por_updated_at :: instant
  por_leg_role :: "string option"
  por_rejection_reason :: "string option"

record PaperFillRecord =
  pfi_identity :: OperationalIdentity
  pfi_fill_id :: string
  pfi_order_id :: string
  pfi_portfolio_id :: string
  pfi_venue :: string
  pfi_instrument :: string
  pfi_side :: Side
  pfi_quantity :: dec
  pfi_price :: dec
  pfi_fee_paid :: dec
  pfi_rebate_received :: dec
  pfi_slippage_cost :: dec
  pfi_impact_cost :: dec
  pfi_executed_at :: instant
  pfi_latency_ms :: int
  pfi_leg_role :: "string option"

record PaperPositionRecord =
  ppo_identity :: OperationalIdentity
  ppo_portfolio_id :: string
  ppo_venue :: string
  ppo_instrument :: string
  ppo_quantity :: dec
  ppo_average_entry :: dec
  ppo_realized_pnl :: dec
  ppo_unrealized_pnl :: dec
  ppo_funding_pnl :: dec
  ppo_updated_at :: instant

record PaperCashLedgerEntry =
  pca_identity :: OperationalIdentity
  pca_entry_id :: string
  pca_portfolio_id :: string
  pca_amount :: dec
  pca_balance_after :: dec
  pca_entry_type :: string
  pca_occurred_at :: instant
  pca_reference_id :: "string option"

record PaperFundingLedgerEntry =
  pfu_identity :: OperationalIdentity
  pfu_entry_id :: string
  pfu_portfolio_id :: string
  pfu_venue :: string
  pfu_instrument :: string
  pfu_rate :: dec
  pfu_amount :: dec
  pfu_occurred_at :: instant

record PaperRiskEvent =
  pre_identity :: OperationalIdentity
  pre_event_id :: string
  pre_portfolio_id :: string
  pre_event_type :: string
  pre_reason :: string
  pre_occurred_at :: instant
  pre_blocks_new_signals :: bool

record PaperDailyMetric =
  pdm_identity :: OperationalIdentity
  pdm_portfolio_id :: string
  pdm_metric_date :: int
  pdm_starting_equity :: dec
  pdm_ending_equity :: dec
  pdm_gross_pnl :: dec
  pdm_net_pnl :: dec
  pdm_fees :: dec
  pdm_rebates :: dec
  pdm_funding :: dec
  pdm_slippage :: dec
  pdm_impact :: dec
  pdm_failed_leg_cost :: dec
  pdm_maximum_drawdown :: dec
  pdm_capital_usage :: dec

record PaperAttribution =
  pat_identity :: OperationalIdentity
  pat_portfolio_id :: string
  pat_attribution_date :: int
  pat_expected_gross_pnl :: dec
  pat_actual_paper_gross_pnl :: dec
  pat_expected_net_pnl :: dec
  pat_actual_paper_net_pnl :: dec
  pat_fee_difference :: dec
  pat_rebate_difference :: dec
  pat_funding_difference :: dec
  pat_slippage_difference :: dec
  pat_impact_difference :: dec
  pat_fill_rate_difference :: dec
  pat_latency_difference :: dec
  pat_failed_leg_difference :: dec
  pat_outage_difference :: dec
  pat_implementation_shortfall :: dec
  pat_edge_decay :: dec
  pat_signal_to_fill_latency_ms :: dec
  pat_fill_ratio :: dec
  pat_paper_backtest_pnl_ratio :: "dec option"
  pat_paper_backtest_sharpe_ratio :: "dec option"

record PortfolioState =
  pfs_portfolio_id :: string
  pfs_initial_capital :: dec
  pfs_cash :: dec
  pfs_peak_equity :: dec
  pfs_current_equity :: dec
  pfs_daily_start_equity :: dec
  pfs_halted :: bool
  pfs_halt_reason :: "string option"

record DailyOperationReport =
  dr_run_id :: string
  dr_report_date :: int
  dr_snapshot_id :: string
  dr_research_run_ids :: "string list"
  dr_eligibility :: "StrategyEligibilityRecord list"
  dr_signal_count :: int
  dr_rejected_signal_count :: int
  dr_paper_order_count :: int
  dr_paper_fill_count :: int
  dr_metrics :: "PaperDailyMetric list"
  dr_attribution :: "PaperAttribution list"
  dr_risk_events :: "PaperRiskEvent list"
  dr_promotion_verdict :: PaperPromotionVerdict
  dr_collector_health :: CollectorHealthSummary
  dr_research_status :: ResearchExecutionStatus
  dr_research_skip_reason :: "string option"
  dr_capital_feasibility :: "(string, CapitalFeasibilityStatus) dict"

section \<open>The in-memory repository\<close>

record InMemoryOperationalRepository =
  rp_runs :: "(string, OperationalRun) dict"
  rp_eligibility :: "(string \<times> string \<times> string, StrategyEligibilityRecord) dict"
  rp_signals :: "(string, PaperSignal) dict"
  rp_shadow_candidates :: "(string, FundingCarryShadowCandidate) dict"
  rp_shadow_metrics :: "(string \<times> string, ShadowRuntimeMetrics) dict"
  rp_orders :: "(string, PaperOrderRecord) dict"
  rp_fills :: "(string, PaperFillRecord) dict"
  rp_positions :: "(string \<times> string \<times> string \<times> string, PaperPositionRecord) dict"
  rp_cash :: "(string, PaperCashLedgerEntry) dict"
  rp_funding :: "(string, PaperFundingLedgerEntry) dict"
  rp_risk :: "(string, PaperRiskEvent) dict"
  rp_metrics :: "(string \<times> string \<times> int, PaperDailyMetric) dict"
  rp_attribution :: "(string \<times> string \<times> int, PaperAttribution) dict"

definition empty_repository :: InMemoryOperationalRepository where
  "empty_repository =
     \<lparr>rp_runs = [], rp_eligibility = [], rp_signals = [], rp_shadow_candidates = [], rp_shadow_metrics = [],
      rp_orders = [], rp_fills = [], rp_positions = [], rp_cash = [], rp_funding = [], rp_risk = [],
      rp_metrics = [], rp_attribution = []\<rparr>"

text \<open>\<open>dict.setdefault\<close>, and the values whose run is the given one.\<close>

definition dict_setdefault :: "'k \<Rightarrow> 'v \<Rightarrow> ('k, 'v) dict \<Rightarrow> ('k, 'v) dict" where
  "dict_setdefault k v d = (if map_of d k = None then dict_set k v d else d)"

definition values_of :: "('v \<Rightarrow> OperationalIdentity) \<Rightarrow> string \<Rightarrow> ('k, 'v) dict \<Rightarrow> 'v list" where
  "values_of ident run_id d = filter (\<lambda>v. oid_run_id (ident v) = run_id) (dict_values d)"

definition op_save_run :: "OperationalRun \<Rightarrow> InMemoryOperationalRepository \<Rightarrow> InMemoryOperationalRepository" where
  "op_save_run run r = r\<lparr>rp_runs := dict_set (orn_run_id run) run (rp_runs r)\<rparr>"

definition op_get_run :: "InMemoryOperationalRepository \<Rightarrow> string \<Rightarrow> OperationalRun option" where
  "op_get_run r run_id = map_of (rp_runs r) run_id"

definition op_list_runs :: "InMemoryOperationalRepository \<Rightarrow> OperationalRun list" where
  "op_list_runs r = sort_key orn_started_at (dict_values (rp_runs r))"

definition save_eligibility ::
  "string \<Rightarrow> StrategyEligibilityRecord \<Rightarrow> InMemoryOperationalRepository \<Rightarrow> InMemoryOperationalRepository" where
  "save_eligibility run_id e r =
     r\<lparr>rp_eligibility := dict_set (run_id, elg_strategy_id e, elg_strategy_version e) e (rp_eligibility r)\<rparr>"

definition eligibility :: "InMemoryOperationalRepository \<Rightarrow> string \<Rightarrow> StrategyEligibilityRecord list" where
  "eligibility r run_id = map snd (filter (\<lambda>((saved_run_id, _, _), _). saved_run_id = run_id) (rp_eligibility r))"

definition add_signal :: "PaperSignal \<Rightarrow> InMemoryOperationalRepository \<Rightarrow> bool \<times> InMemoryOperationalRepository" where
  "add_signal s r =
     (if map_of (rp_signals r) (sig_signal_id s) \<noteq> None then (False, r)
      else (True, r\<lparr>rp_signals := dict_set (sig_signal_id s) s (rp_signals r)\<rparr>))"

definition signals_of :: "InMemoryOperationalRepository \<Rightarrow> string \<Rightarrow> PaperSignal list" where
  "signals_of r run_id = values_of sig_identity run_id (rp_signals r)"

definition add_shadow_candidate ::
  "FundingCarryShadowCandidate \<Rightarrow> InMemoryOperationalRepository \<Rightarrow> bool \<times> InMemoryOperationalRepository" where
  "add_shadow_candidate c r =
     (if map_of (rp_shadow_candidates r) (ca_candidate_id c) \<noteq> None then (False, r)
      else (True, r\<lparr>rp_shadow_candidates := dict_set (ca_candidate_id c) c (rp_shadow_candidates r)\<rparr>))"

definition shadow_candidates :: "InMemoryOperationalRepository \<Rightarrow> string \<Rightarrow> FundingCarryShadowCandidate list" where
  "shadow_candidates r run_id = filter (\<lambda>c. ca_run_id c = run_id) (dict_values (rp_shadow_candidates r))"

definition shadow_metrics :: "InMemoryOperationalRepository \<Rightarrow> string \<Rightarrow> string \<Rightarrow> ShadowRuntimeMetrics" where
  "shadow_metrics r run_id instrument =
     (case map_of (rp_shadow_metrics r) (run_id, instrument) of None \<Rightarrow> no_metrics run_id | Some m \<Rightarrow> m)"

definition count_candidate ::
  "FundingCarryShadowCandidate \<Rightarrow> bool \<Rightarrow> bool \<Rightarrow> bool \<Rightarrow> string \<Rightarrow> InMemoryOperationalRepository \<Rightarrow>
   InMemoryOperationalRepository" where
  "count_candidate c matched_source_pair source_pair_duplicate inserted instrument r =
     (let current = shadow_metrics r (ca_run_id c) instrument in
      r\<lparr>rp_shadow_metrics := dict_set (ca_run_id c, instrument)
          \<lparr>srm_run_id = ca_run_id c,
           srm_candidate_generation_attempt_count = srm_candidate_generation_attempt_count current + 1,
           srm_candidate_inserted_count = srm_candidate_inserted_count current + of_bool inserted,
           srm_candidate_rejected_count =
             srm_candidate_rejected_count current + of_bool (ca_disposition c = SHADOW_REJECTED),
           srm_candidate_duplicate_suppressed_count =
             srm_candidate_duplicate_suppressed_count current + of_bool (\<not> inserted),
           srm_source_pair_duplicate_count = srm_source_pair_duplicate_count current + of_bool source_pair_duplicate,
           srm_matched_source_pair_count = srm_matched_source_pair_count current + of_bool matched_source_pair\<rparr>
          (rp_shadow_metrics r)\<rparr>)"

definition record_shadow_candidate ::
  "FundingCarryShadowCandidate \<Rightarrow> bool \<Rightarrow> bool \<Rightarrow> InMemoryOperationalRepository \<Rightarrow> bool \<times> InMemoryOperationalRepository" where
  "record_shadow_candidate c matched_source_pair source_pair_duplicate r =
     (let (inserted, r1) = add_shadow_candidate c r in
      (inserted, foldl (\<lambda>r i. count_candidate c matched_source_pair source_pair_duplicate inserted i r) r1 [[], ca_instrument c]))"

definition save_order :: "PaperOrderRecord \<Rightarrow> InMemoryOperationalRepository \<Rightarrow> InMemoryOperationalRepository" where
  "save_order x r = r\<lparr>rp_orders := dict_set (por_order_id x) x (rp_orders r)\<rparr>"

definition orders_of :: "InMemoryOperationalRepository \<Rightarrow> string \<Rightarrow> PaperOrderRecord list" where
  "orders_of r run_id = values_of por_identity run_id (rp_orders r)"

definition save_fill :: "PaperFillRecord \<Rightarrow> InMemoryOperationalRepository \<Rightarrow> InMemoryOperationalRepository" where
  "save_fill x r = r\<lparr>rp_fills := dict_set (pfi_fill_id x) x (rp_fills r)\<rparr>"

definition paper_fills_of :: "InMemoryOperationalRepository \<Rightarrow> string \<Rightarrow> PaperFillRecord list" where
  "paper_fills_of r run_id = values_of pfi_identity run_id (rp_fills r)"

definition save_position :: "PaperPositionRecord \<Rightarrow> InMemoryOperationalRepository \<Rightarrow> InMemoryOperationalRepository" where
  "save_position x r =
     r\<lparr>rp_positions := dict_set (oid_run_id (ppo_identity x), ppo_portfolio_id x, ppo_venue x, ppo_instrument x) x (rp_positions r)\<rparr>"

definition positions_of :: "InMemoryOperationalRepository \<Rightarrow> string \<Rightarrow> PaperPositionRecord list" where
  "positions_of r run_id = map snd (filter (\<lambda>(key, _). fst key = run_id) (rp_positions r))"

definition add_cash_entry :: "PaperCashLedgerEntry \<Rightarrow> InMemoryOperationalRepository \<Rightarrow> InMemoryOperationalRepository" where
  "add_cash_entry x r = r\<lparr>rp_cash := dict_setdefault (pca_entry_id x) x (rp_cash r)\<rparr>"

definition cash_entries :: "InMemoryOperationalRepository \<Rightarrow> string \<Rightarrow> PaperCashLedgerEntry list" where
  "cash_entries r run_id = values_of pca_identity run_id (rp_cash r)"

definition add_funding_entry :: "PaperFundingLedgerEntry \<Rightarrow> InMemoryOperationalRepository \<Rightarrow> InMemoryOperationalRepository" where
  "add_funding_entry x r = r\<lparr>rp_funding := dict_setdefault (pfu_entry_id x) x (rp_funding r)\<rparr>"

definition funding_entries :: "InMemoryOperationalRepository \<Rightarrow> string \<Rightarrow> PaperFundingLedgerEntry list" where
  "funding_entries r run_id = values_of pfu_identity run_id (rp_funding r)"

definition add_risk_event :: "PaperRiskEvent \<Rightarrow> InMemoryOperationalRepository \<Rightarrow> InMemoryOperationalRepository" where
  "add_risk_event x r = r\<lparr>rp_risk := dict_setdefault (pre_event_id x) x (rp_risk r)\<rparr>"

definition risk_events :: "InMemoryOperationalRepository \<Rightarrow> string \<Rightarrow> PaperRiskEvent list" where
  "risk_events r run_id = values_of pre_identity run_id (rp_risk r)"

definition save_daily_metric :: "PaperDailyMetric \<Rightarrow> InMemoryOperationalRepository \<Rightarrow> InMemoryOperationalRepository" where
  "save_daily_metric x r =
     r\<lparr>rp_metrics := dict_set (oid_run_id (pdm_identity x), pdm_portfolio_id x, pdm_metric_date x) x (rp_metrics r)\<rparr>"

definition daily_metrics :: "InMemoryOperationalRepository \<Rightarrow> string \<Rightarrow> PaperDailyMetric list" where
  "daily_metrics r run_id = map snd (filter (\<lambda>(key, _). fst key = run_id) (rp_metrics r))"

definition save_attribution :: "PaperAttribution \<Rightarrow> InMemoryOperationalRepository \<Rightarrow> InMemoryOperationalRepository" where
  "save_attribution x r =
     r\<lparr>rp_attribution := dict_set (oid_run_id (pat_identity x), pat_portfolio_id x, pat_attribution_date x) x (rp_attribution r)\<rparr>"

definition attributions :: "InMemoryOperationalRepository \<Rightarrow> string \<Rightarrow> PaperAttribution list" where
  "attributions r run_id = map snd (filter (\<lambda>(key, _). fst key = run_id) (rp_attribution r))"

end
