(* ===== verification/Paper_Operations.thy ===== *)
theory Paper_Operations
  imports Operation_Models Live_Preflight "HOL-Library.Sublist"
begin

text \<open>
  \<open>services/operations/service.py\<close>: the continuous paper operation on the in-memory repository. A call
  is a function on the state of the service that may raise; what it changed before the exception
  stays changed. Every reading of the clock takes the next value of \<open>en_clock\<close>. The texts of decimals
  and timestamps and the digests are parameters. Portfolios are simulated independently; within one
  portfolio the code hands the same \<open>PortfolioState\<close> to every leg, and so does the model.
\<close>

section \<open>Settings, surroundings, state\<close>

record ContinuousPaperSettings =
  cp_observation_only :: bool
  cp_mode :: string
  cp_venues :: "string list"
  cp_instruments :: "string list"
  cp_strategies :: "string list"
  cp_daily_report_hour_utc :: int
  cp_daily_report_minute_utc :: int
  cp_eligibility_ttl_seconds :: int
  cp_source_event_max_age_seconds :: int
  cp_funding_max_age_seconds :: "int option"
  cp_funding_max_observation_skew_seconds :: "int option"
  cp_maximum_orderbook_venue_skew_seconds :: int
  cp_maximum_venue_timestamp_skew_seconds :: int
  cp_minimum_data_quality :: rat
  cp_shadow_notional :: dec
  cp_minimum_shadow_net_edge :: dec
  cp_shadow_venue_taker_fee_rates :: "(string, dec) dict"
  cp_initial_capitals :: "dec list"
  cp_maximum_single_trade_risk :: dec
  cp_maximum_venue_exposure :: dec
  cp_maximum_instrument_exposure :: dec
  cp_maximum_daily_loss :: dec
  cp_maximum_drawdown :: dec

record service_env =
  en_clock :: "nat \<Rightarrow> instant"
  en_dec_text :: "dec \<Rightarrow> string"
  en_isoformat :: "instant \<Rightarrow> string"
  en_signal_digest :: "string \<times> string \<times> string \<times> string \<times> string \<times> string list \<Rightarrow> string"
  en_signal_hash :: "PaperSignal \<Rightarrow> string"
  en_sha256 :: "string \<Rightarrow> string"

record ContinuousResearchPaperService =
  sv_repository :: InMemoryOperationalRepository
  sv_operation_settings :: ContinuousPaperSettings
  sv_run_id :: string
  sv_commit_sha :: string
  sv_config_sha256 :: string
  sv_mode :: OperationMode
  sv_has_collector_health_action :: bool
  sv_collector_health :: CollectorHealthSummary
  sv_latest_events :: "(string \<times> string \<times> string, LiveSignalInput) dict"
  sv_shadow_input_batches :: "(string, ShadowInputBatch) dict"
  sv_portfolio_states :: "(string, PortfolioState) dict"
  sv_shadow_evaluators :: "(string, FundingCarryShadowConfig) dict"
  sv_stop_event :: bool
  sv_readings :: nat

type_synonym 'a op = "ContinuousResearchPaperService \<Rightarrow> ('a, ContinuousResearchPaperService) outcome"

definition returnO :: "'a \<Rightarrow> 'a op" where
  "returnO x s = (Inr x, s)"

definition liftO :: "'a result \<Rightarrow> 'a op" where
  "liftO r s = (r, s)"

definition readO :: "(ContinuousResearchPaperService \<Rightarrow> 'a) \<Rightarrow> 'a op" where
  "readO f s = (Inr (f s), s)"

definition modify_repository :: "(InMemoryOperationalRepository \<Rightarrow> InMemoryOperationalRepository) \<Rightarrow> unit op" where
  "modify_repository f s = (Inr (), s\<lparr>sv_repository := f (sv_repository s)\<rparr>)"

definition set_portfolio :: "PortfolioState \<Rightarrow> unit op" where
  "set_portfolio p s = (Inr (), s\<lparr>sv_portfolio_states := dict_set (pfs_portfolio_id p) p (sv_portfolio_states s)\<rparr>)"

definition read_clock :: "service_env \<Rightarrow> instant op" where
  "read_clock env s = (Inr (en_clock env (sv_readings s)), s\<lparr>sv_readings := Suc (sv_readings s)\<rparr>)"

fun forO :: "('a \<Rightarrow> unit op) \<Rightarrow> 'a list \<Rightarrow> unit op" where
  "forO f [] s = (Inr (), s)"
| "forO f (x # xs) s = bindS (f x) (\<lambda>_. forO f xs) s"

text \<open>\<open>x or y\<close> on optional strings, and division of decimals.\<close>

definition or_text :: "string option \<Rightarrow> string \<Rightarrow> string" where
  "or_text x y = (case x of None \<Rightarrow> y | Some t \<Rightarrow> if t = [] then y else t)"

definition div_dec :: "dec \<Rightarrow> dec \<Rightarrow> dec result" where
  "div_dec a b =
     (if b = 0 then Inl (ExternalError (if a = 0 then ''InvalidOperation'' else ''DivisionByZero'')) else Inr (ddiv a b))"

section \<open>The operational run\<close>

definition require_run :: "OperationalRun op" where
  "require_run s =
     (case op_get_run (sv_repository s) (sv_run_id s) of
        None \<Rightarrow> (Inl (RuntimeError ''operational run is missing''), s)
      | Some run \<Rightarrow> (Inr run, s))"

definition op_identity :: "string \<Rightarrow> string \<Rightarrow> string \<Rightarrow> string \<Rightarrow> datetime \<Rightarrow> OperationalIdentity op" where
  "op_identity strategy_id strategy_version snapshot_id research_run_id t s =
     (OperationalIdentity_init (sv_run_id s) strategy_id strategy_version snapshot_id research_run_id t
        (sv_commit_sha s) (sv_config_sha256 s), s)"

text \<open>\<open>save_run(replace(run, ..., updated_at=self.now()))\<close>\<close>

definition update_run :: "service_env \<Rightarrow> (OperationalRun \<Rightarrow> OperationalRun) \<Rightarrow> unit op" where
  "update_run env f =
     bindS require_run (\<lambda>run.
     bindS (read_clock env) (\<lambda>t.
     modify_repository (op_save_run ((f run)\<lparr>orn_updated_at := t\<rparr>))))"

definition request_stop :: "service_env \<Rightarrow> unit op" where
  "request_stop env =
     bindS (update_run env (\<lambda>run. run\<lparr>orn_status := RUN_STOP_REQUESTED\<rparr>)) (\<lambda>_ s.
     (Inr (), s\<lparr>sv_stop_event := True\<rparr>))"

definition set_collector_health :: "service_env \<Rightarrow> bool \<Rightarrow> string option \<Rightarrow> unit op" where
  "set_collector_health env healthy reason =
     (let pause = (if healthy then None else Some (or_text reason ''collector_unhealthy'')) in
      bindS (update_run env (\<lambda>run. run\<lparr>orn_collector_healthy := healthy, orn_signals_paused_reason := pause\<rparr>)) (\<lambda>_ s.
      (Inr (),
       if sv_has_collector_health_action s then s
       else s\<lparr>sv_collector_health := (sv_collector_health s)
              \<lparr>hs_status := (if healthy then COLLECTOR_HEALTHY else COLLECTOR_UNHEALTHY),
               hs_reasons := (if healthy then [] else [or_text pause ''collector_unhealthy''])\<rparr>\<rparr>)))"

definition bind_snapshot :: "service_env \<Rightarrow> string \<Rightarrow> string list \<Rightarrow> unit op" where
  "bind_snapshot env snapshot_id research_run_ids =
     bindS (liftO (raise_if (snapshot_id = []) (ValueError ''snapshot_id cannot be empty''))) (\<lambda>_.
     update_run env (\<lambda>run. run\<lparr>orn_last_snapshot_id := Some snapshot_id, orn_last_research_run_ids := research_run_ids,
       orn_research_status := NOT_SCHEDULED, orn_research_skip_reason := None,
       orn_signals_paused_reason := (if orn_collector_healthy run then None else orn_signals_paused_reason run)\<rparr>))"

definition snapshot_failed :: "service_env \<Rightarrow> string \<Rightarrow> unit op" where
  "snapshot_failed env reason =
     update_run env (\<lambda>run. run\<lparr>orn_signals_paused_reason := Some (''snapshot_failed:'' @ reason)\<rparr>)"

definition eligibility_outcome ::
  "string \<Rightarrow> bool \<Rightarrow> bool \<Rightarrow> bool \<Rightarrow> StrategyEligibilityStatus \<times> CapitalFeasibilityStatus \<times> string list" where
  "eligibility_outcome research_verdict data_quality_passed capital_feasible evidence_complete =
     (if \<not> evidence_complete then
        (INSUFFICIENT_EVIDENCE, CAPITAL_INSUFFICIENT_EVIDENCE, [''research evidence is incomplete''])
      else if \<not> data_quality_passed then
        (DATA_QUALITY_FAILED, CAPITAL_INSUFFICIENT_EVIDENCE, [''data quality gate failed''])
      else if research_verdict \<noteq> ''PASS'' then
        (RESEARCH_FAILED, CAPITAL_INSUFFICIENT_EVIDENCE, [''research verdict='' @ research_verdict])
      else if \<not> capital_feasible then
        (CAPITAL_INFEASIBLE, CAPITAL_NOT_FEASIBLE, [''capital feasibility gate failed''])
      else (STRATEGY_ELIGIBLE, CAPITAL_FEASIBLE, []))"

record ScheduledResearchOutcome =
  sro_strategy_id :: string
  sro_strategy_version :: string
  sro_research_run_id :: string
  sro_research_verdict :: string
  sro_data_quality_passed :: bool
  sro_capital_feasible :: bool
  sro_evidence_complete :: bool

definition refresh_eligibility :: "service_env \<Rightarrow> ScheduledResearchOutcome \<Rightarrow> string \<Rightarrow> StrategyEligibilityRecord op" where
  "refresh_eligibility env oc data_snapshot_id =
     bindS (read_clock env) (\<lambda>t s.
     let (status, capital_status, reasons) = eligibility_outcome (sro_research_verdict oc) (sro_data_quality_passed oc)
           (sro_capital_feasible oc) (sro_evidence_complete oc);
         e = \<lparr>elg_strategy_id = sro_strategy_id oc, elg_strategy_version = sro_strategy_version oc, elg_status = status,
              elg_research_run_id = sro_research_run_id oc, elg_data_snapshot_id = data_snapshot_id,
              elg_evaluated_at = t,
              elg_expires_at = t + seconds (cp_eligibility_ttl_seconds (sv_operation_settings s)),
              elg_reasons = reasons, elg_capital_feasibility_status = capital_status\<rparr> in
     (Inr e, s\<lparr>sv_repository := save_eligibility (sv_run_id s) e (sv_repository s)\<rparr>))"

definition record_market_event :: "LiveSignalInput \<Rightarrow> ContinuousResearchPaperService \<Rightarrow> ContinuousResearchPaperService" where
  "record_market_event event s =
     s\<lparr>sv_latest_events := dict_set (lsi_venue event, lsi_instrument event, lsi_event_type event) event (sv_latest_events s)\<rparr>"

section \<open>Signals\<close>

definition event_rejection :: "ContinuousPaperSettings \<Rightarrow> string \<Rightarrow> instant \<Rightarrow> LiveSignalInput \<Rightarrow> string option" where
  "event_rejection cfg instrument decision_time event =
     (let age = decision_time - lsi_available_at event in
      if lsi_instrument event \<noteq> instrument then Some ''wrong_instrument_source_event''
      else if \<not> (0 \<le> age \<and> age \<le> seconds (cp_source_event_max_age_seconds cfg)) then Some ''stale_or_future_source_event''
      else if lsi_capability_support event \<noteq> ''live_verified'' then Some ''capability_not_live_verified''
      else if lsi_data_quality_score event < cp_minimum_data_quality cfg then Some ''source_event_data_quality_failed''
      else if prefix ''orderbook'' (lsi_event_type event) \<and> lsi_reconciliation_state event \<noteq> Some ''synchronized''
           then Some ''orderbook_unsynchronized''
      else None)"

fun first_event_rejection :: "ContinuousPaperSettings \<Rightarrow> string \<Rightarrow> instant \<Rightarrow> LiveSignalInput list \<Rightarrow> string option" where
  "first_event_rejection cfg instrument t [] = None"
| "first_event_rejection cfg instrument t (e # es) =
     (case event_rejection cfg instrument t e of
        Some r \<Rightarrow> Some r
      | None \<Rightarrow> first_event_rejection cfg instrument t es)"

definition signal_rejection ::
  "ContinuousPaperSettings \<Rightarrow> OperationalRun \<Rightarrow> StrategyEligibilityRecord option \<Rightarrow> LiveSignalInput list \<Rightarrow> string \<Rightarrow>
   datetime \<Rightarrow> string option result" where
  "signal_rejection cfg run elg events instrument decision_time =
     (if \<not> orn_collector_healthy run then Inr (Some (or_text (orn_signals_paused_reason run) ''collector_unhealthy''))
      else if or_text (orn_signals_paused_reason run) [] \<noteq> [] then Inr (orn_signals_paused_reason run)
      else case orn_last_snapshot_id run of
        None \<Rightarrow> Inr (Some ''no_current_snapshot'')
      | Some snapshot_id \<Rightarrow>
          (case elg of
             None \<Rightarrow> Inr (Some ''missing_strategy_eligibility'')
           | Some e \<Rightarrow>
               if elg_data_snapshot_id e \<noteq> snapshot_id then Inr (Some ''eligibility_snapshot_mismatch'')
               else bindE (valid_at e decision_time) (\<lambda>valid.
                 if \<not> valid then Inr (Some (''eligibility_'' @ strategy_status_value (elg_status e) @ ''_or_expired''))
                 else if events = [] then Inr (Some ''missing_source_events'')
                 else if card (lsi_venue ` set events) < 2 then Inr (Some ''missing_cross_venue_leg'')
                 else if \<not> distinct (map lsi_event_id events) then Inr (Some ''duplicate_source_event'')
                 else bindE (as_utc [] decision_time) (\<lambda>t. Inr (first_event_rejection cfg instrument t events)))))"

definition signal_disposition :: "string option \<Rightarrow> StrategyEligibilityRecord option \<Rightarrow> SignalDisposition" where
  "signal_disposition rejection elg =
     (case rejection of
        None \<Rightarrow> SIGNAL_ELIGIBLE
      | Some r \<Rightarrow>
          if r \<in> {''missing_source_events'', ''missing_cross_venue_leg''} then SIGNAL_CANDIDATE
          else if sublist ''capability'' r then REJECTED_CAPABILITY
          else if r = ''eligibility_capital_infeasible_or_expired'' \<or>
              (case elg of None \<Rightarrow> False | Some e \<Rightarrow> elg_status e = CAPITAL_INFEASIBLE) then REJECTED_CAPITAL
          else if prefix ''eligibility_'' r \<or>
              r \<in> {''missing_strategy_eligibility'', ''eligibility_snapshot_mismatch'', ''no_current_snapshot''} then REJECTED_RESEARCH
          else REJECTED_DATA_QUALITY)"

record signal_request =
  rq_strategy_id :: string
  rq_strategy_version :: string
  rq_instrument :: string
  rq_side :: Side
  rq_quantity :: dec
  rq_events :: "LiveSignalInput list"
  rq_expected_gross_edge :: dec
  rq_expected_fee :: dec
  rq_expected_rebate :: dec
  rq_expected_funding :: dec
  rq_expected_slippage :: dec
  rq_expected_impact :: dec
  rq_required_capabilities :: "string list"
  rq_decision_time :: "datetime option"

text \<open>\<open>tuple(dict.fromkeys(xs))\<close>: the first occurrences, in order.\<close>

definition from_keys :: "string list \<Rightarrow> string list" where
  "from_keys xs = rev (remdups (rev xs))"

definition find_eligibility :: "InMemoryOperationalRepository \<Rightarrow> string \<Rightarrow> string \<Rightarrow> string \<Rightarrow> StrategyEligibilityRecord option" where
  "find_eligibility r run_id strategy_id strategy_version =
     List.find (\<lambda>e. elg_strategy_id e = strategy_id \<and> elg_strategy_version e = strategy_version) (eligibility r run_id)"

definition decision_instant :: "service_env \<Rightarrow> datetime option \<Rightarrow> datetime op" where
  "decision_instant env given = (case given of Some d \<Rightarrow> returnO d | None \<Rightarrow> bindS (read_clock env) (\<lambda>t. returnO (Aware t)))"

definition build_signal ::
  "service_env \<Rightarrow> signal_request \<Rightarrow> StrategyEligibilityRecord option \<Rightarrow> string option \<Rightarrow> OperationalIdentity \<Rightarrow> string \<Rightarrow> instant \<Rightarrow>
   PaperSignal result" where
  "build_signal env rq elg rejection ident run_id t =
     PaperSignal_post_init (en_signal_hash env)
       \<lparr>sig_identity = ident,
        sig_signal_id = en_signal_digest env (run_id, rq_strategy_id rq, rq_strategy_version rq, rq_instrument rq,
          en_isoformat env t, sort (map lsi_event_id (rq_events rq))),
        sig_decision_time = t, sig_venue_legs = from_keys (map lsi_venue (rq_events rq)), sig_instrument = rq_instrument rq,
        sig_side = rq_side rq, sig_quantity = rq_quantity rq, sig_expected_gross_edge = rq_expected_gross_edge rq,
        sig_expected_net_edge = dsub (dsub (dadd (dadd (dsub (rq_expected_gross_edge rq) (rq_expected_fee rq))
          (rq_expected_rebate rq)) (rq_expected_funding rq)) (rq_expected_slippage rq)) (rq_expected_impact rq),
        sig_expected_fee = rq_expected_fee rq, sig_expected_rebate = rq_expected_rebate rq,
        sig_expected_funding = rq_expected_funding rq, sig_expected_slippage = rq_expected_slippage rq,
        sig_expected_impact = rq_expected_impact rq, sig_required_capabilities = rq_required_capabilities rq,
        sig_source_event_ids = map lsi_event_id (rq_events rq), sig_disposition = signal_disposition rejection elg,
        sig_rejection_reason = rejection, sig_full_signal_hash = []\<rparr>"

definition generate_signal :: "service_env \<Rightarrow> signal_request \<Rightarrow> PaperSignal op" where
  "generate_signal env rq =
     bindS (decision_instant env (rq_decision_time rq)) (\<lambda>decision_time.
     bindS require_run (\<lambda>run s.
     let elg = find_eligibility (sv_repository s) (sv_run_id s) (rq_strategy_id rq) (rq_strategy_version rq) in
     bindS (liftO (signal_rejection (sv_operation_settings s) run elg (rq_events rq) (rq_instrument rq) decision_time)) (\<lambda>rejection.
     bindS (op_identity (rq_strategy_id rq) (rq_strategy_version rq)
       (case elg of Some e \<Rightarrow> elg_data_snapshot_id e | None \<Rightarrow> or_text (orn_last_snapshot_id run) ''UNASSIGNED'')
       (case elg of Some e \<Rightarrow> elg_research_run_id e | None \<Rightarrow> ''UNASSIGNED'') decision_time) (\<lambda>ident.
     bindS (liftO (build_signal env rq elg rejection ident (sv_run_id s) (oid_created_at ident))) (\<lambda>signal.
     bindS (modify_repository (\<lambda>r. snd (add_signal signal r))) (\<lambda>_. returnO signal)))) s))"

section \<open>Simulated execution\<close>

record execution_params =
  xp_maker :: bool
  xp_maker_fee_rate :: dec
  xp_taker_fee_rate :: dec
  xp_maker_rebate_rate :: dec
  xp_maximum_participation :: dec
  xp_impact_bps :: dec
  xp_latency_ms :: int
  xp_minimum_quantity :: dec
  xp_minimum_notional :: dec
  xp_fail_leg_role :: "string option"

definition default_execution_params :: execution_params where
  "default_execution_params =
     \<lparr>xp_maker = False, xp_maker_fee_rate = 2 / 10000, xp_taker_fee_rate = 6 / 10000, xp_maker_rebate_rate = 0,
      xp_maximum_participation = 1 / 10, xp_impact_bps = 1, xp_latency_ms = 200, xp_minimum_quantity = 0,
      xp_minimum_notional = 5, xp_fail_leg_role = None\<rparr>"

text \<open>The reasons to refuse a leg, in the order of the code.\<close>

definition leg_refusal ::
  "ContinuousPaperSettings \<Rightarrow> execution_params \<Rightarrow> PaperSignal \<Rightarrow> nat \<Rightarrow> PortfolioState \<Rightarrow> dec \<Rightarrow> string option" where
  "leg_refusal cfg xp signal leg_count state price =
     (let notional = dmul (sig_quantity signal) price;
          projected_notional = dmul notional (of_nat leg_count);
          estimated_trade_risk = dadd (dadd (sig_expected_fee signal) (sig_expected_slippage signal)) (sig_expected_impact signal);
          equity = pfs_current_equity state in
      if sig_quantity signal < xp_minimum_quantity xp \<or> notional < xp_minimum_notional xp then Some ''instrument_minimum_not_met''
      else if estimated_trade_risk > dmul equity (cp_maximum_single_trade_risk cfg) then Some ''single_trade_risk_exceeded''
      else if projected_notional > equity then Some ''maximum_leverage_exceeded''
      else if notional > dmul equity (cp_maximum_venue_exposure cfg) \<or> notional > dmul equity (cp_maximum_instrument_exposure cfg)
           then Some ''capital_or_venue_exposure_infeasible''
      else None)"

definition order_status :: "string option \<Rightarrow> dec \<Rightarrow> dec \<Rightarrow> string" where
  "order_status refusal filled quantity =
     (if refusal \<noteq> None then ''rejected''
      else if filled = quantity then ''filled'' else if filled = 0 then ''open'' else ''partially_filled'')"

definition leg_order ::
  "PaperSignal \<Rightarrow> PortfolioState \<Rightarrow> string \<Rightarrow> string \<Rightarrow> dec \<Rightarrow> string \<Rightarrow> instant \<Rightarrow> instant \<Rightarrow> string option \<Rightarrow> PaperOrderRecord" where
  "leg_order signal state leg_role venue filled status submitted_at updated_at refusal =
     \<lparr>por_identity = sig_identity signal,
      por_order_id = sig_signal_id signal @ '':'' @ pfs_portfolio_id state @ '':'' @ leg_role,
      por_signal_id = sig_signal_id signal, por_portfolio_id = pfs_portfolio_id state, por_venue = venue,
      por_instrument = sig_instrument signal, por_side = sig_side signal, por_requested_quantity = sig_quantity signal,
      por_filled_quantity = filled, por_status = status, por_submitted_at = submitted_at, por_updated_at = updated_at,
      por_leg_role = Some leg_role, por_rejection_reason = refusal\<rparr>"

definition leg_fill :: "execution_params \<Rightarrow> PaperSignal \<Rightarrow> PaperOrderRecord \<Rightarrow> dec \<Rightarrow> PaperFillRecord" where
  "leg_fill xp signal order touch =
     (let impact = ddiv (dmul touch (xp_impact_bps xp)) 10000;
          fill_price = (if sig_side signal = BUY then dadd touch impact else dsub touch impact);
          filled = por_filled_quantity order in
      \<lparr>pfi_identity = sig_identity signal, pfi_fill_id = ''fill:'' @ por_order_id order, pfi_order_id = por_order_id order,
       pfi_portfolio_id = por_portfolio_id order, pfi_venue = por_venue order, pfi_instrument = sig_instrument signal,
       pfi_side = sig_side signal, pfi_quantity = filled, pfi_price = fill_price,
       pfi_fee_paid = dmul (dmul fill_price filled) (if xp_maker xp then xp_maker_fee_rate xp else xp_taker_fee_rate xp),
       pfi_rebate_received = (if xp_maker xp then dmul (dmul fill_price filled) (xp_maker_rebate_rate xp) else 0),
       pfi_slippage_cost = dmul (dabs (dsub fill_price touch)) filled, pfi_impact_cost = dmul (dabs impact) filled,
       pfi_executed_at = por_updated_at order, pfi_latency_ms = xp_latency_ms xp, pfi_leg_role = por_leg_role order\<rparr>)"

definition find_paper_position ::
  "InMemoryOperationalRepository \<Rightarrow> string \<Rightarrow> string \<Rightarrow> string \<Rightarrow> string \<Rightarrow> PaperPositionRecord option" where
  "find_paper_position r run_id portfolio_id venue instrument =
     List.find (\<lambda>p. ppo_portfolio_id p = portfolio_id \<and> ppo_venue p = venue \<and> ppo_instrument p = instrument) (positions_of r run_id)"

definition risk_halt :: "service_env \<Rightarrow> ContinuousPaperSettings \<Rightarrow> PortfolioState \<Rightarrow> (string \<times> string) option result" where
  "risk_halt env cfg state =
     bindE (div_dec (dsub (pfs_daily_start_equity state) (pfs_current_equity state)) (pfs_daily_start_equity state)) (\<lambda>daily_loss.
     bindE (div_dec (dsub (pfs_peak_equity state) (pfs_current_equity state)) (pfs_peak_equity state)) (\<lambda>drawdown.
     Inr (if daily_loss \<ge> cp_maximum_daily_loss cfg then Some (''daily_loss_halt'', ''daily_loss='' @ en_dec_text env daily_loss)
          else if drawdown \<ge> cp_maximum_drawdown cfg then Some (''maximum_drawdown_halt'', ''drawdown='' @ en_dec_text env drawdown)
          else None)))"

definition evaluate_portfolio_risk :: "service_env \<Rightarrow> OperationalIdentity \<Rightarrow> PortfolioState \<Rightarrow> unit op" where
  "evaluate_portfolio_risk env ident state s =
     bindS (liftO (risk_halt env (sv_operation_settings s) state)) (\<lambda>halt.
     case halt of
       None \<Rightarrow> returnO ()
     | Some (event_type, reason) \<Rightarrow>
         bindS (set_portfolio (state\<lparr>pfs_halted := True, pfs_halt_reason := Some reason\<rparr>)) (\<lambda>_.
         bindS (read_clock env) (\<lambda>t.
         modify_repository (add_risk_event
           \<lparr>pre_identity = ident,
            pre_event_id = ''risk:'' @ sv_run_id s @ '':'' @ pfs_portfolio_id state @ '':'' @ event_type,
            pre_portfolio_id = pfs_portfolio_id state, pre_event_type = event_type, pre_reason = reason,
            pre_occurred_at = t, pre_blocks_new_signals = True\<rparr>)))) s"

definition filled_position ::
  "PaperSignal \<Rightarrow> PortfolioState \<Rightarrow> PaperFillRecord \<Rightarrow> PaperPositionRecord option \<Rightarrow> PaperPositionRecord" where
  "filled_position signal state fill existing =
     (let signed = (if pfi_side fill = BUY then pfi_quantity fill else dneg (pfi_quantity fill));
          quantity = dadd (case existing of None \<Rightarrow> 0 | Some p \<Rightarrow> ppo_quantity p) signed in
      \<lparr>ppo_identity = sig_identity signal, ppo_portfolio_id = pfs_portfolio_id state, ppo_venue = pfi_venue fill,
       ppo_instrument = pfi_instrument fill, ppo_quantity = quantity,
       ppo_average_entry = (if quantity \<noteq> 0 then pfi_price fill else 0),
       ppo_realized_pnl = (case existing of None \<Rightarrow> 0 | Some p \<Rightarrow> ppo_realized_pnl p), ppo_unrealized_pnl = 0,
       ppo_funding_pnl = (case existing of None \<Rightarrow> 0 | Some p \<Rightarrow> ppo_funding_pnl p), ppo_updated_at = pfi_executed_at fill\<rparr>)"

definition fill_cash_entry :: "PaperSignal \<Rightarrow> PortfolioState \<Rightarrow> PaperFillRecord \<Rightarrow> PaperCashLedgerEntry" where
  "fill_cash_entry signal state fill =
     (let cash_delta = dsub (pfi_rebate_received fill) (pfi_fee_paid fill) in
      \<lparr>pca_identity = sig_identity signal, pca_entry_id = ''cash:'' @ pfi_fill_id fill, pca_portfolio_id = pfs_portfolio_id state,
       pca_amount = cash_delta, pca_balance_after = dadd (pfs_cash state) cash_delta, pca_entry_type = ''paper_fill_cost'',
       pca_occurred_at = pfi_executed_at fill, pca_reference_id = Some (pfi_fill_id fill)\<rparr>)"

definition op_apply_fill :: "service_env \<Rightarrow> PaperSignal \<Rightarrow> PortfolioState \<Rightarrow> PaperFillRecord \<Rightarrow> unit op" where
  "op_apply_fill env signal state fill s =
     (let existing = find_paper_position (sv_repository s) (sv_run_id s) (pfs_portfolio_id state) (pfi_venue fill) (pfi_instrument fill);
          entry = fill_cash_entry signal state fill;
          new_cash = pca_balance_after entry;
          updated = state\<lparr>pfs_cash := new_cash, pfs_current_equity := new_cash,
                          pfs_peak_equity := max (pfs_peak_equity state) new_cash\<rparr> in
      bindS (modify_repository (save_position (filled_position signal state fill existing))) (\<lambda>_.
      bindS (modify_repository (add_cash_entry entry)) (\<lambda>_.
      bindS (set_portfolio updated) (\<lambda>_.
      evaluate_portfolio_risk env (sig_identity signal) updated))) s)"

definition unwind_failed_leg ::
  "service_env \<Rightarrow> PaperSignal \<Rightarrow> PortfolioState \<Rightarrow> PaperFillRecord \<Rightarrow> LiveSignalInput \<Rightarrow> unit op" where
  "unwind_failed_leg env signal state first_fill quote =
     (let price = (if pfi_side first_fill = BUY then lsi_bid quote else lsi_ask quote);
          cost = (case price of
                    None \<Rightarrow> dmul (pfi_price first_fill) (pfi_quantity first_fill)
                  | Some p \<Rightarrow> dmul (dabs (dsub (pfi_price first_fill) p)) (pfi_quantity first_fill)) in
      bindS (read_clock env) (\<lambda>t.
      modify_repository (add_risk_event
        \<lparr>pre_identity = sig_identity signal, pre_event_id = ''risk:'' @ pfi_fill_id first_fill @ '':one-leg'',
         pre_portfolio_id = pfs_portfolio_id state, pre_event_type = ''one_leg_failure_unwind'',
         pre_reason = ''failed_leg_cost='' @ en_dec_text env cost, pre_occurred_at = t, pre_blocks_new_signals = True\<rparr>)))"

definition refuse_leg ::
  "service_env \<Rightarrow> execution_params \<Rightarrow> PaperSignal \<Rightarrow> LiveSignalInput list \<Rightarrow> PortfolioState \<Rightarrow> string \<Rightarrow> string \<Rightarrow> instant \<Rightarrow>
   LiveSignalInput option \<Rightarrow> PaperFillRecord option \<Rightarrow> PaperOrderRecord list op" where
  "refuse_leg env xp signal quotes state leg_role venue submitted_at quote first_fill =
     (let order = leg_order signal state leg_role venue 0 ''rejected'' submitted_at submitted_at
            (Some (if Some leg_role = xp_fail_leg_role xp then ''injected_one_leg_failure'' else ''quote_unavailable'')) in
      bindS (modify_repository (save_order order)) (\<lambda>_.
      bindS (case first_fill of
               None \<Rightarrow> returnO ()
             | Some fill \<Rightarrow>
                 (case (quote, quotes) of
                    (Some q, _) \<Rightarrow> unwind_failed_leg env signal state fill q
                  | (None, q # _) \<Rightarrow> unwind_failed_leg env signal state fill q
                  | (None, []) \<Rightarrow> liftO (Inl (IndexError ''tuple index out of range''))))
        (\<lambda>_. returnO [order])))"

text \<open>A leg with a price: the order, its fill where it fills, and the fill if there is one.\<close>

definition fill_leg ::
  "service_env \<Rightarrow> execution_params \<Rightarrow> PaperSignal \<Rightarrow> nat \<Rightarrow> PortfolioState \<Rightarrow> string \<Rightarrow> string \<Rightarrow> instant \<Rightarrow> dec \<Rightarrow> dec \<Rightarrow>
   (PaperOrderRecord \<times> PaperFillRecord option) op" where
  "fill_leg env xp signal leg_count state leg_role venue submitted_at price depth s =
     (let refusal = leg_refusal (sv_operation_settings s) xp signal leg_count state price;
          filled = (if refusal \<noteq> None then 0 else min (sig_quantity signal) (dmul depth (xp_maximum_participation xp)));
          order = leg_order signal state leg_role venue filled (order_status refusal filled (sig_quantity signal))
            submitted_at (submitted_at + xp_latency_ms xp * 1000) refusal;
          fill = leg_fill xp signal order price in
      bindS (modify_repository (save_order order)) (\<lambda>_.
      if filled \<le> 0 then returnO (order, None)
      else bindS (modify_repository (save_fill fill)) (\<lambda>_.
           bindS (op_apply_fill env signal state fill) (\<lambda>_. returnO (order, Some fill)))) s)"

fun execute_legs ::
  "service_env \<Rightarrow> execution_params \<Rightarrow> PaperSignal \<Rightarrow> LiveSignalInput list \<Rightarrow> nat \<Rightarrow> PortfolioState \<Rightarrow> (nat \<times> string) list \<Rightarrow>
   PaperFillRecord option \<Rightarrow> PaperOrderRecord list op" where
  "execute_legs env xp signal quotes leg_count state [] first_fill s = (Inr [], s)"
| "execute_legs env xp signal quotes leg_count state ((index, venue) # legs) first_fill s =
     (let quote = map_of (by_venue lsi_venue quotes) venue;
          leg_role = (if index = 0 then ''receive_leg'' else ''pay_leg'') in
      bindS (read_clock env) (\<lambda>submitted_at.
      if quote = None \<or> Some leg_role = xp_fail_leg_role xp then
        refuse_leg env xp signal quotes state leg_role venue submitted_at quote first_fill
      else
        case (if sig_side signal = BUY then (lsi_ask (the quote), lsi_ask_size (the quote))
              else (lsi_bid (the quote), lsi_bid_size (the quote))) of
          (Some price, Some depth) \<Rightarrow>
            bindS (fill_leg env xp signal leg_count state leg_role venue submitted_at price depth) (\<lambda>(order, fill).
            bindS (execute_legs env xp signal quotes leg_count state legs
                     (if index = 0 \<and> fill \<noteq> None then fill else first_fill)) (\<lambda>orders.
            returnO (order # orders)))
        | _ \<Rightarrow> execute_legs env xp signal quotes leg_count state legs first_fill) s)"

fun execute_portfolios ::
  "service_env \<Rightarrow> execution_params \<Rightarrow> PaperSignal \<Rightarrow> LiveSignalInput list \<Rightarrow> string list \<Rightarrow> PortfolioState list \<Rightarrow>
   PaperOrderRecord list op" where
  "execute_portfolios env xp signal quotes legs [] s = (Inr [], s)"
| "execute_portfolios env xp signal quotes legs (state # states) s =
     (if pfs_halted state then execute_portfolios env xp signal quotes legs states s
      else bindS (execute_legs env xp signal quotes (length legs) state (enumerate 0 legs) None) (\<lambda>orders.
           bindS (execute_portfolios env xp signal quotes legs states) (\<lambda>more. returnO (orders @ more))) s)"

definition execute_signal ::
  "service_env \<Rightarrow> execution_params \<Rightarrow> PaperSignal \<Rightarrow> LiveSignalInput list \<Rightarrow> PaperOrderRecord list op" where
  "execute_signal env xp signal quotes s =
     (if sv_mode s = OBSERVATION_ONLY \<or> sig_rejection_reason signal \<noteq> None then (Inr [], s)
      else case List.find (\<lambda>e. elg_strategy_id e = oid_strategy_id (sig_identity signal)) (eligibility (sv_repository s) (sv_run_id s)) of
        None \<Rightarrow> (Inr [], s)
      | Some e \<Rightarrow>
          bindS (read_clock env) (\<lambda>t.
          bindS (liftO (valid_at e (Aware t))) (\<lambda>valid s1.
          if \<not> valid then (Inr [], s1)
          else execute_portfolios env xp signal quotes
                 (if sig_venue_legs signal \<noteq> [] then sig_venue_legs signal else map fst (by_venue lsi_venue quotes))
                 (dict_values (sv_portfolio_states s1)) s1)) s)"

section \<open>Funding and forced equity\<close>

definition settle_funding :: "service_env \<Rightarrow> string \<Rightarrow> string \<Rightarrow> string \<Rightarrow> dec \<Rightarrow> dec \<Rightarrow> instant option \<Rightarrow> dec op" where
  "settle_funding env portfolio_id venue instrument rate mark_price given =
     bindS (case given of Some t \<Rightarrow> returnO t | None \<Rightarrow> read_clock env) (\<lambda>t s.
     case find_paper_position (sv_repository s) (sv_run_id s) portfolio_id venue instrument of
       None \<Rightarrow> (Inr 0, s)
     | Some p \<Rightarrow>
         (case map_of (sv_portfolio_states s) portfolio_id of
            None \<Rightarrow> (Inl (KeyError portfolio_id), s)
          | Some state \<Rightarrow>
              let amount = dneg (dmul (dmul (ppo_quantity p) mark_price) rate);
                  key = portfolio_id @ '':'' @ venue @ '':'' @ instrument @ '':'' @ en_isoformat env t in
              bindS (modify_repository (add_funding_entry
                \<lparr>pfu_identity = ppo_identity p, pfu_entry_id = ''funding:'' @ key, pfu_portfolio_id = portfolio_id,
                 pfu_venue = venue, pfu_instrument = instrument, pfu_rate = rate, pfu_amount = amount, pfu_occurred_at = t\<rparr>)) (\<lambda>_.
              bindS (modify_repository (add_cash_entry
                \<lparr>pca_identity = ppo_identity p, pca_entry_id = ''cash:funding:'' @ key, pca_portfolio_id = portfolio_id,
                 pca_amount = amount, pca_balance_after = dadd (pfs_cash state) amount, pca_entry_type = ''funding'',
                 pca_occurred_at = t, pca_reference_id = None\<rparr>)) (\<lambda>_ s1.
              bindS (modify_repository (save_position (p\<lparr>ppo_funding_pnl := dadd (ppo_funding_pnl p) amount, ppo_updated_at := t\<rparr>)))
                (\<lambda>_. returnO amount)
                (s1\<lparr>sv_portfolio_states := dict_set portfolio_id
                      (state\<lparr>pfs_cash := dadd (pfs_cash state) amount,
                             pfs_current_equity := dadd (pfs_current_equity state) amount\<rparr>) (sv_portfolio_states s1)\<rparr>))) s))"

definition force_portfolio_equity :: "service_env \<Rightarrow> string \<Rightarrow> dec \<Rightarrow> OperationalIdentity \<Rightarrow> unit op" where
  "force_portfolio_equity env portfolio_id equity ident s =
     (case map_of (sv_portfolio_states s) portfolio_id of
        None \<Rightarrow> (Inl (KeyError portfolio_id), s)
      | Some state \<Rightarrow>
          let updated = state\<lparr>pfs_current_equity := equity\<rparr> in
          evaluate_portfolio_risk env ident updated
            (s\<lparr>sv_portfolio_states := dict_set portfolio_id updated (sv_portfolio_states s)\<rparr>))"

section \<open>Start\<close>

record service_request =
  sq_run_id :: string
  sq_commit_sha :: string
  sq_config_sha256 :: string
  sq_mode :: "OperationMode option"
  sq_local_smoke :: bool
  sq_database_url :: string
  sq_durable :: bool
  sq_poll_interval_seconds :: rat
  sq_has_collector_health_action :: bool

definition allowed_strategies :: "string list" where
  "allowed_strategies = [''funding_carry'', ''cross_venue_basis'', ''btc_sol_relative_strength'']"

definition validate_desk :: "Settings \<Rightarrow> ContinuousPaperSettings \<Rightarrow> OperationMode \<Rightarrow> unit result" where
  "validate_desk st cfg mode =
     bindE (raise_if (st_live_trading st \<or> lv_enabled (st_live st))
       (ValueError ''continuous paper operation fails closed when live execution is enabled'')) (\<lambda>_.
     bindE (raise_if (\<not> st_paper_trading st \<or> \<not> st_paper_enabled st)
       (ValueError ''continuous paper operation requires paper trading enabled'')) (\<lambda>_.
     bindE (raise_if (mode = OBSERVATION_ONLY \<and> \<not> cp_observation_only cfg)
       (ValueError ''observation_only mode must be explicitly configured'')) (\<lambda>_.
     raise_if (mode = STRICT_PAPER \<and> cp_observation_only cfg)
       (ValueError ''strict_paper cannot start while observation_only is configured''))))"

definition validate_shadow_mode :: "Settings \<Rightarrow> ContinuousPaperSettings \<Rightarrow> OperationMode \<Rightarrow> unit result" where
  "validate_shadow_mode st cfg mode =
     bindE (raise_if (mode \<noteq> OBSERVATION_ONLY) (ValueError ''shadow mode requires observation_only'')) (\<lambda>_.
     bindE (raise_if (cp_strategies cfg \<noteq> [FUNDING_CARRY_STRATEGY_ID]) (ValueError ''shadow mode only starts funding_carry'')) (\<lambda>_.
     bindE (validate_shadow_instruments (cp_instruments cfg)) (\<lambda>_.
     bindE (raise_if (cp_venues cfg \<noteq> FUNDING_CARRY_REQUIRED_VENUES) (ValueError ''shadow mode requires hyperliquid and bitget'')) (\<lambda>_.
     raise_if (lv_adapter_name (st_live st) \<noteq> ''disabled'') (ValueError ''shadow mode requires execution adapter disabled'')))))"

definition validate_startup ::
  "Settings \<Rightarrow> ContinuousPaperSettings \<Rightarrow> service_request \<Rightarrow> OperationMode \<Rightarrow> unit result" where
  "validate_startup st cfg sq mode =
     bindE (validate_desk st cfg mode) (\<lambda>_.
     bindE (if cp_mode cfg = ''shadow'' then validate_shadow_mode st cfg mode else Inr ()) (\<lambda>_.
     bindE (raise_if (\<not> sq_local_smoke sq \<and> \<not> sq_durable sq)
       (ValueError ''continuous paper operation requires a durable PostgreSQL repository'')) (\<lambda>_.
     bindE (raise_if (\<not> sq_local_smoke sq \<and> prefix ''sqlite'' (sq_database_url sq))
       (ValueError ''SQLite is limited to tests and local smoke'')) (\<lambda>_.
     bindE (raise_if (set (cp_venues cfg) \<noteq> {''hyperliquid'', ''bitget''}) (ValueError ''R3 supports only Hyperliquid and Bitget'')) (\<lambda>_.
     raise_if (\<not> set (cp_strategies cfg) \<subseteq> set allowed_strategies)
       (ValueError ''R3 cannot enable deferred or new strategies''))))))"

definition SHADOW_INPUT_REFRESH_INTERVAL_SECONDS :: int where
  "SHADOW_INPUT_REFRESH_INTERVAL_SECONDS = 10"

definition service_shadow_config :: "ContinuousPaperSettings \<Rightarrow> rat \<Rightarrow> string \<Rightarrow> FundingCarryShadowConfig" where
  "service_shadow_config cfg poll_interval_seconds instrument =
     default_shadow_config\<lparr>sc_instrument := instrument, sc_venues := FUNDING_CARRY_REQUIRED_VENUES,
       sc_shadow_notional := cp_shadow_notional cfg, sc_minimum_net_edge := cp_minimum_shadow_net_edge cfg,
       sc_maximum_age_seconds := cp_source_event_max_age_seconds cfg,
       sc_funding_max_age_seconds := (case cp_funding_max_age_seconds cfg of Some n \<Rightarrow> n
         | None \<Rightarrow> \<lceil>poll_interval_seconds\<rceil> + SHADOW_INPUT_REFRESH_INTERVAL_SECONDS),
       sc_funding_max_observation_skew_seconds := (case cp_funding_max_observation_skew_seconds cfg of Some n \<Rightarrow> n
         | None \<Rightarrow> \<lceil>poll_interval_seconds\<rceil>),
       sc_maximum_orderbook_venue_skew_seconds := cp_maximum_orderbook_venue_skew_seconds cfg,
       sc_maximum_venue_timestamp_skew_seconds := cp_maximum_venue_timestamp_skew_seconds cfg,
       sc_venue_taker_fee_rates := sort_key fst (cp_shadow_venue_taker_fee_rates cfg)\<rparr>"

definition initial_portfolio :: "service_env \<Rightarrow> PaperCashLedgerEntry list \<Rightarrow> dec \<Rightarrow> PortfolioState" where
  "initial_portfolio env entries capital =
     (let cash = (if entries = [] then capital else pca_balance_after (last entries)) in
      \<lparr>pfs_portfolio_id = ''usd-'' @ en_dec_text env capital, pfs_initial_capital = capital, pfs_cash = cash,
       pfs_peak_equity = max capital cash, pfs_current_equity = cash, pfs_daily_start_equity = capital,
       pfs_halted = False, pfs_halt_reason = None\<rparr>)"

definition open_portfolio :: "service_env \<Rightarrow> PaperCashLedgerEntry list \<Rightarrow> instant \<Rightarrow> dec \<Rightarrow> unit op" where
  "open_portfolio env entries t capital s =
     (let portfolio_id = ''usd-'' @ en_dec_text env capital;
          portfolio_entries = filter (\<lambda>e. pca_portfolio_id e = portfolio_id) entries in
      bindS (set_portfolio (initial_portfolio env portfolio_entries capital)) (\<lambda>_.
      if portfolio_entries \<noteq> [] then returnO ()
      else bindS (op_identity ''SYSTEM'' ''0'' ''UNASSIGNED'' ''UNASSIGNED'' (Aware t)) (\<lambda>ident.
           modify_repository (add_cash_entry
             \<lparr>pca_identity = ident, pca_entry_id = sv_run_id s @ '':'' @ portfolio_id @ '':initial'', pca_portfolio_id = portfolio_id,
              pca_amount = capital, pca_balance_after = capital, pca_entry_type = ''initial_capital'', pca_occurred_at = t,
              pca_reference_id = None\<rparr>))) s)"

definition restore_position :: "PaperPositionRecord \<Rightarrow> unit op" where
  "restore_position p s =
     (case map_of (sv_portfolio_states s) (ppo_portfolio_id p) of
        None \<Rightarrow> (Inl (KeyError (ppo_portfolio_id p)), s)
      | Some state \<Rightarrow>
          let equity = dadd (pfs_cash state) (ppo_unrealized_pnl p) in
          (Inr (), s\<lparr>sv_portfolio_states := dict_set (ppo_portfolio_id p)
             (state\<lparr>pfs_current_equity := equity, pfs_peak_equity := max (pfs_peak_equity state) equity\<rparr>) (sv_portfolio_states s)\<rparr>))"

definition restore_or_initialize :: "service_env \<Rightarrow> unit op" where
  "restore_or_initialize env s =
     (let existing = op_get_run (sv_repository s) (sv_run_id s) in
      bindS (read_clock env) (\<lambda>t.
      bindS (case existing of
               None \<Rightarrow> modify_repository (op_save_run
                 \<lparr>orn_run_id = sv_run_id s, orn_commit_sha = sv_commit_sha s, orn_config_sha256 = sv_config_sha256 s,
                  orn_mode = sv_mode s, orn_status = RUN_STARTING, orn_started_at = t, orn_updated_at = t,
                  orn_last_snapshot_id = None, orn_last_research_run_ids = [], orn_collector_healthy = False,
                  orn_signals_paused_reason = None, orn_failure_reason = None, orn_research_status = NOT_SCHEDULED,
                  orn_research_skip_reason = None\<rparr>)
             | Some run \<Rightarrow> liftO (raise_if (orn_commit_sha run \<noteq> sv_commit_sha s \<or> orn_config_sha256 run \<noteq> sv_config_sha256 s)
                 (ValueError ''restart identity does not match persisted operational run''))) (\<lambda>_ s1.
      let entries = cash_entries (sv_repository s1) (sv_run_id s1); positions = positions_of (sv_repository s1) (sv_run_id s1) in
      bindS (forO (open_portfolio env entries t) (cp_initial_capitals (sv_operation_settings s1))) (\<lambda>_.
      forO restore_position positions) s1)) s)"

definition unevaluated_health :: CollectorHealthSummary where
  "unevaluated_health =
     \<lparr>hs_status = COLLECTOR_INSUFFICIENT_EVIDENCE, hs_total_failures = 0, hs_fatal_failures = 0, hs_degraded_failures = 0,
      hs_expected_skips = 0, hs_failures_by_venue = [], hs_failures_by_instrument = [], hs_failures_by_event_type = [],
      hs_failures_by_error_type = [], hs_permanently_degraded_streams = 0, hs_recovery_required_streams = 0,
      hs_checkpoint_lag_max_seconds = None, hs_last_healthy_at = None, hs_reasons = [''health summary not yet evaluated''],
      hs_production_market_event_count = 0, hs_production_control_event_count = 0, hs_experimental_market_event_count = 0\<rparr>"

definition new_service ::
  "ContinuousPaperSettings \<Rightarrow> service_request \<Rightarrow> OperationMode \<Rightarrow> InMemoryOperationalRepository \<Rightarrow> ContinuousResearchPaperService" where
  "new_service cfg sq mode repository =
     \<lparr>sv_repository = repository, sv_operation_settings = cfg, sv_run_id = sq_run_id sq,
      sv_commit_sha = sq_commit_sha sq, sv_config_sha256 = sq_config_sha256 sq, sv_mode = mode,
      sv_has_collector_health_action = sq_has_collector_health_action sq,
      sv_collector_health = unevaluated_health,
      sv_latest_events = [], sv_shadow_input_batches = [], sv_portfolio_states = [],
      sv_shadow_evaluators = foldl (\<lambda>d i. dict_set i (service_shadow_config cfg (sq_poll_interval_seconds sq) i) d) []
        (cp_instruments cfg),
      sv_stop_event = False, sv_readings = 0\<rparr>"

definition operation_mode :: "ContinuousPaperSettings \<Rightarrow> service_request \<Rightarrow> OperationMode" where
  "operation_mode cfg sq =
     (case sq_mode sq of Some m \<Rightarrow> m | None \<Rightarrow> if cp_observation_only cfg then OBSERVATION_ONLY else STRICT_PAPER)"

definition ContinuousResearchPaperService_init ::
  "service_env \<Rightarrow> Settings \<Rightarrow> ContinuousPaperSettings \<Rightarrow> service_request \<Rightarrow> InMemoryOperationalRepository \<Rightarrow>
   (unit, ContinuousResearchPaperService) outcome" where
  "ContinuousResearchPaperService_init env st cfg sq repository =
     bindS (liftO (validate_startup st cfg sq (operation_mode cfg sq))) (\<lambda>_. restore_or_initialize env)
       (new_service cfg sq (operation_mode cfg sq) repository)"

section \<open>Shadow candidates\<close>

definition funding_observation :: "LiveSignalInput \<Rightarrow> FundingObservation" where
  "funding_observation e =
     \<lparr>fo_event_id = lsi_event_id e, fo_venue = lsi_venue e, fo_instrument = lsi_instrument e,
      fo_raw_funding_rate = (case lsi_funding_rate e of Some r \<Rightarrow> r | None \<Rightarrow> NonFinite),
      fo_funding_unit = or_text (lsi_funding_unit e) [], fo_funding_interval_seconds = lsi_funding_interval_seconds e,
      fo_next_funding_at = map_option Aware (lsi_next_funding_at e),
      fo_source_timestamp = Aware (case lsi_source_timestamp e of Some t \<Rightarrow> t | None \<Rightarrow> lsi_available_at e),
      fo_received_at = Aware (case lsi_received_at e of Some t \<Rightarrow> t | None \<Rightarrow> lsi_available_at e),
      fo_experimental = (lsi_capability_support e \<noteq> ''live_verified'')\<rparr>"

definition side_levels :: "(number \<times> number) list \<Rightarrow> dec option \<Rightarrow> dec option \<Rightarrow> (number \<times> number) list" where
  "side_levels levels price qty =
     (if levels \<noteq> [] then levels
      else case (price, qty) of (Some p, Some q) \<Rightarrow> [(Finite p, Finite q)] | _ \<Rightarrow> [])"

definition book_observation :: "LiveSignalInput \<Rightarrow> OrderBookObservation" where
  "book_observation e =
     \<lparr>bo_event_id = lsi_event_id e, bo_venue = lsi_venue e, bo_instrument = lsi_instrument e,
      bo_bids = side_levels (lsi_bids e) (lsi_bid e) (lsi_bid_size e),
      bo_asks = side_levels (lsi_asks e) (lsi_ask e) (lsi_ask_size e),
      bo_source_timestamp = Aware (case lsi_source_timestamp e of Some t \<Rightarrow> t | None \<Rightarrow> lsi_available_at e),
      bo_received_at = Aware (case lsi_received_at e of Some t \<Rightarrow> t | None \<Rightarrow> lsi_available_at e),
      bo_experimental = (lsi_capability_support e \<noteq> ''live_verified''),
      bo_source_event_ids = from_keys (or_text (lsi_source_event_id e) (lsi_event_id e) # lsi_applied_source_event_ids e)\<rparr>"

definition with_batch :: "ShadowInputBatch \<Rightarrow> LiveSignalInput list \<Rightarrow> FundingCarryShadowCandidate \<Rightarrow> FundingCarryShadowCandidate" where
  "with_batch b events c =
     c\<lparr>ca_rejection_reason := (case bt_missing b of Some m \<Rightarrow> Some (mi_reason m) | None \<Rightarrow> ca_rejection_reason c),
       ca_runtime := \<lparr>rf_missing_venue = map_option mi_venue (bt_missing b), rf_missing_capability = map_option mi_capability (bt_missing b),
         rf_last_seen_event_at = Option.bind (bt_missing b) mi_last_seen_event_at,
         rf_last_valid_event_at = Option.bind (bt_missing b) mi_last_valid_event_at,
         rf_source_event_count = (case bt_missing b of Some m \<Rightarrow> mi_source_event_count m | None \<Rightarrow> int (length events)),
         rf_venue_timestamp_skew_seconds = bt_venue_timestamp_skew_seconds b, rf_timing = bt_timing b\<rparr>\<rparr>"

definition shadow_instrument ::
  "ContinuousPaperSettings \<Rightarrow> string option \<Rightarrow> ShadowInputBatch option \<Rightarrow> LiveSignalInput list \<Rightarrow> string result" where
  "shadow_instrument cfg given batch events =
     (let named = or_text given (or_text (map_option bt_instrument batch) []) in
      if named \<noteq> [] then Inr named
      else case (events, cp_instruments cfg) of
        (e # _, _) \<Rightarrow> Inr (lsi_instrument e)
      | ([], i # _) \<Rightarrow> Inr i
      | ([], []) \<Rightarrow> Inl (IndexError ''tuple index out of range''))"

definition generate_funding_carry_shadow_candidate ::
  "service_env \<Rightarrow> LiveSignalInput list \<Rightarrow> ShadowInputBatch option \<Rightarrow> string option \<Rightarrow> datetime option \<Rightarrow>
   FundingCarryShadowCandidate op" where
  "generate_funding_carry_shadow_candidate env events batch given decision_time =
     bindS (decision_instant env decision_time) (\<lambda>d s.
     bindS (liftO (shadow_instrument (sv_operation_settings s) given batch events)) (\<lambda>instrument.
     bindS (liftO (case map_of (sv_shadow_evaluators s) instrument of None \<Rightarrow> Inl (KeyError instrument) | Some cfg \<Rightarrow> Inr cfg)) (\<lambda>cfg.
     bindS (liftO (carry_evaluate (en_sha256 env) cfg
         \<lparr>er_run_id = sv_run_id s, er_now = d, er_code_commit_sha = sv_commit_sha s, er_config_sha = sv_config_sha256 s\<rparr>
         (map funding_observation (filter (\<lambda>e. lsi_event_type e = ''funding_current'') events))
         (map book_observation (filter (\<lambda>e. prefix ''orderbook'' (lsi_event_type e) \<or>
            lsi_event_type e = ''canonical_orderbook_snapshot'') events)))) (\<lambda>c.
     let candidate = (case batch of None \<Rightarrow> c | Some b \<Rightarrow> with_batch b events c) in
     bindS (modify_repository (\<lambda>r. snd (record_shadow_candidate candidate
         (case batch of None \<Rightarrow> False | Some b \<Rightarrow> bt_matched b)
         (case batch of None \<Rightarrow> False | Some b \<Rightarrow> bt_source_pair_duplicate b) r))) (\<lambda>_.
     returnO candidate)))) s)"

section \<open>The ticks of the workers\<close>

text \<open>
  What the actions of a tick answer is an argument: the health summary, the
  market events, the finalized snapshot, the research outcomes, each possibly an exception.
\<close>

datatype market_events = Plain_events "LiveSignalInput list" | One_batch ShadowInputBatch | Batches "ShadowInputBatch list"

definition record_events :: "market_events \<Rightarrow> ContinuousResearchPaperService \<Rightarrow> ContinuousResearchPaperService" where
  "record_events m s =
     (case m of
        Batches bs \<Rightarrow> fold record_market_event (concat (map bt_events bs))
          (s\<lparr>sv_shadow_input_batches := foldl (\<lambda>d b. dict_set (bt_instrument b) b d) [] bs\<rparr>)
      | One_batch b \<Rightarrow> fold record_market_event (bt_events b) (s\<lparr>sv_shadow_input_batches := [(bt_instrument b, b)]\<rparr>)
      | Plain_events es \<Rightarrow> fold record_market_event es s)"

definition take_health :: "service_env \<Rightarrow> CollectorHealthSummary result option \<Rightarrow> unit op" where
  "take_health env health =
     (case health of
        None \<Rightarrow> returnO ()
      | Some r \<Rightarrow>
          bindS (liftO r) (\<lambda>summary s.
          let healthy = (hs_status summary = COLLECTOR_HEALTHY) in
          set_collector_health env healthy
            (if healthy then None else Some (''collector_health_'' @ collector_status_value (hs_status summary)))
            (s\<lparr>sv_collector_health := summary\<rparr>)))"

definition collector_tick ::
  "service_env \<Rightarrow> CollectorHealthSummary result option \<Rightarrow> market_events result option \<Rightarrow> unit op" where
  "collector_tick env health market =
     bindS require_run (\<lambda>run.
     if orn_status run = RUN_STOP_REQUESTED then (\<lambda>s. (Inr (), s\<lparr>sv_stop_event := True\<rparr>))
     else
       bindS (take_health env health) (\<lambda>_.
       bindS require_run (\<lambda>run s.
       if \<not> orn_collector_healthy run \<and>
          \<not> (cp_mode (sv_operation_settings s) = ''shadow'' \<and> ''shadow_input_cursor_stalled'' \<in> set (hs_reasons (sv_collector_health s))) then (Inr (), s)
       else case market of
         None \<Rightarrow> (Inr (), s)
       | Some r \<Rightarrow> bindS (liftO r) (\<lambda>m s. (Inr (), record_events m s)) s)))"

datatype snapshot_outcome = Snapshot_id string | Snapshot_outcome string bool "string list"

definition bind_outcome :: "service_env \<Rightarrow> snapshot_outcome \<Rightarrow> unit op" where
  "bind_outcome env oc =
     (case oc of
        Snapshot_id i \<Rightarrow> bind_snapshot env i []
      | Snapshot_outcome i eligible reasons \<Rightarrow>
          bindS (bind_snapshot env i []) (\<lambda>_.
          if eligible then returnO ()
          else update_run env (\<lambda>run. run\<lparr>orn_research_status := SKIPPED_SNAPSHOT_INELIGIBLE,
                 orn_research_skip_reason := Some (join ''; '' reasons)\<rparr>)))"

definition error_text :: "error \<Rightarrow> string" where
  "error_text e = error_name e @ '': '' @ error_message e"

definition snapshot_tick :: "service_env \<Rightarrow> (instant \<Rightarrow> snapshot_outcome result) option \<Rightarrow> unit op" where
  "snapshot_tick env action =
     (case action of
        Some act \<Rightarrow>
          bindS (read_clock env) (\<lambda>t s.
          case bindS (liftO (act t)) (bind_outcome env) s of
            (Inr u, s1) \<Rightarrow> (Inr u, s1)
          | (Inl e, s1) \<Rightarrow> snapshot_failed env (error_text e) s1)
      | None \<Rightarrow>
          bindS require_run (\<lambda>run.
          if orn_last_snapshot_id run = None then snapshot_failed env ''no_finalized_snapshot'' else returnO ()))"

definition unavailable_outcome :: "string \<Rightarrow> ScheduledResearchOutcome" where
  "unavailable_outcome strategy_id =
     \<lparr>sro_strategy_id = strategy_id, sro_strategy_version = ''1'', sro_research_run_id = ''UNAVAILABLE'',
      sro_research_verdict = ''INSUFFICIENT_EVIDENCE'', sro_data_quality_passed = False, sro_capital_feasible = False,
      sro_evidence_complete = False\<rparr>"

definition fill_missing_eligibility :: "service_env \<Rightarrow> string \<Rightarrow> unit op" where
  "fill_missing_eligibility env snapshot_id s =
     (let existing = map elg_strategy_id (eligibility (sv_repository s) (sv_run_id s)) in
      forO (\<lambda>strategy_id. if strategy_id \<in> set existing then returnO ()
              else bindS (refresh_eligibility env (unavailable_outcome strategy_id) snapshot_id) (\<lambda>_. returnO ()))
        (cp_strategies (sv_operation_settings s)) s)"

definition record_research :: "service_env \<Rightarrow> string \<Rightarrow> ScheduledResearchOutcome list result \<Rightarrow> unit op" where
  "record_research env snapshot_id answer s =
     (case bindS (liftO answer) (\<lambda>outcomes.
         bindS (forO (\<lambda>oc. bindS (refresh_eligibility env oc snapshot_id) (\<lambda>_. returnO ())) outcomes) (\<lambda>_. returnO outcomes)) s of
        (Inr outcomes, s1) \<Rightarrow>
          if outcomes \<noteq> [] then
            update_run env (\<lambda>run. run\<lparr>orn_last_research_run_ids := map sro_research_run_id outcomes,
              orn_research_status := RESEARCH_COMPLETED, orn_research_skip_reason := None\<rparr>) s1
          else
            bindS require_run (\<lambda>run.
            bindS (if orn_research_status run \<noteq> RESEARCH_RUN_FAILED
                   then update_run env (\<lambda>run. run\<lparr>orn_research_status := RESEARCH_RUN_FAILED,
                     orn_research_skip_reason := Some ''research pipeline returned no outcomes''\<rparr>)
                   else returnO ()) (\<lambda>_. fill_missing_eligibility env snapshot_id)) s1
      | (Inl e, s1) \<Rightarrow>
          bindS (update_run env (\<lambda>run. run\<lparr>orn_research_status := RESEARCH_RUN_FAILED,
            orn_research_skip_reason := Some (error_text e)\<rparr>)) (\<lambda>_. fill_missing_eligibility env snapshot_id) s1)"

definition research_tick :: "service_env \<Rightarrow> (string \<Rightarrow> ScheduledResearchOutcome list result) option \<Rightarrow> unit op" where
  "research_tick env action =
     bindS require_run (\<lambda>run s.
     case orn_last_snapshot_id run of
       None \<Rightarrow> (Inr (), s)
     | Some snapshot_id \<Rightarrow>
         if orn_research_status run = SKIPPED_SNAPSHOT_INELIGIBLE then (Inr (), s)
         else case action of
           None \<Rightarrow> fill_missing_eligibility env snapshot_id s
         | Some act \<Rightarrow>
             if list_all (\<lambda>strategy_id. (strategy_id, snapshot_id) \<in>
                   set (map (\<lambda>e. (elg_strategy_id e, elg_data_snapshot_id e)) (eligibility (sv_repository s) (sv_run_id s))))
                 (cp_strategies (sv_operation_settings s)) then (Inr (), s)
             else record_research env snapshot_id (act snapshot_id) s)"

definition tick_request :: "string \<Rightarrow> string \<Rightarrow> LiveSignalInput list \<Rightarrow> instant \<Rightarrow> signal_request" where
  "tick_request strategy_id instrument events t =
     \<lparr>rq_strategy_id = strategy_id, rq_strategy_version = ''1'', rq_instrument = instrument, rq_side = BUY,
      rq_quantity = 1 / 1000, rq_events = events, rq_expected_gross_edge = 0, rq_expected_fee = 0, rq_expected_rebate = 0,
      rq_expected_funding = 0, rq_expected_slippage = 0, rq_expected_impact = 0,
      rq_required_capabilities = [''orderbook_snapshot''], rq_decision_time = Some (Aware t)\<rparr>"

definition book_events :: "(string \<times> string \<times> string, LiveSignalInput) dict \<Rightarrow> string list \<Rightarrow> string \<Rightarrow> LiveSignalInput list" where
  "book_events latest venues instrument =
     map snd (filter (\<lambda>((venue, saved_instrument, event_type), _).
       venue \<in> set venues \<and> saved_instrument = instrument \<and> prefix ''orderbook'' event_type) latest)"

definition instrument_signals :: "service_env \<Rightarrow> instant \<Rightarrow> string \<Rightarrow> unit op" where
  "instrument_signals env t instrument s =
     (let cfg = sv_operation_settings s in
      if cp_mode cfg = ''shadow'' \<and> FUNDING_CARRY_STRATEGY_ID \<in> set (cp_strategies cfg) then
        (case map_of (sv_shadow_input_batches s) instrument of
           None \<Rightarrow> (Inr (), s)
         | Some b \<Rightarrow> bindS (generate_funding_carry_shadow_candidate env (bt_events b) (Some b) (Some instrument) (Some (Aware t)))
             (\<lambda>_. returnO ()) s)
      else
        let books = book_events (sv_latest_events s) (cp_venues cfg) instrument in
        forO (\<lambda>strategy_id. if strategy_id \<notin> set (cp_strategies cfg) then returnO ()
                else bindS (generate_signal env (tick_request strategy_id instrument books t)) (\<lambda>_. returnO ()))
          [''funding_carry'', ''cross_venue_basis''] s)"

definition relative_events :: "(string \<times> string \<times> string, LiveSignalInput) dict \<Rightarrow> LiveSignalInput list" where
  "relative_events latest =
     (let es = map snd (filter (\<lambda>((_, instrument, event_type), _).
                 instrument \<in> {''BTC'', ''SOL''} \<and> prefix ''orderbook'' event_type) latest) in
      if set (map lsi_instrument es) \<noteq> {''BTC'', ''SOL''} then [] else es)"

definition signal_tick :: "service_env \<Rightarrow> unit op" where
  "signal_tick env =
     bindS (read_clock env) (\<lambda>t s.
     bindS (forO (instrument_signals env t) (cp_instruments (sv_operation_settings s))) (\<lambda>_ s1.
     if ''btc_sol_relative_strength'' \<in> set (cp_strategies (sv_operation_settings s1)) then
       bindS (generate_signal env (tick_request ''btc_sol_relative_strength'' ''BTC'' (relative_events (sv_latest_events s1)) t))
         (\<lambda>_. returnO ()) s1
     else (Inr (), s1)) s)"

definition execute_pending :: "service_env \<Rightarrow> string set \<Rightarrow> PaperSignal \<Rightarrow> unit op" where
  "execute_pending env submitted signal s =
     (if sig_rejection_reason signal \<noteq> None \<or> sig_signal_id signal \<in> submitted then (Inr (), s)
      else
        let quotes = filter (\<lambda>e. lsi_instrument e = sig_instrument signal \<and> lsi_venue e \<in> set (sig_venue_legs signal))
              (dict_values (sv_latest_events s)) in
        bindS (execute_signal env default_execution_params signal quotes) (\<lambda>_. returnO ()) s)"

definition paper_execution_tick :: "service_env \<Rightarrow> unit op" where
  "paper_execution_tick env s =
     (if sv_mode s = OBSERVATION_ONLY then (Inr (), s)
      else forO (execute_pending env (set (map por_signal_id (orders_of (sv_repository s) (sv_run_id s)))))
             (signals_of (sv_repository s) (sv_run_id s)) s)"

definition day_start :: "int \<Rightarrow> datetime" where
  "day_start day = Aware (day * seconds 86400)"

definition report_identity :: "int \<Rightarrow> OperationalIdentity op" where
  "report_identity report_date =
     bindS require_run (\<lambda>run.
     op_identity ''SYSTEM'' ''0'' (or_text (orn_last_snapshot_id run) ''UNASSIGNED'')
       (case orn_last_research_run_ids run of [] \<Rightarrow> ''UNASSIGNED'' | i # _ \<Rightarrow> i) (day_start report_date))"

definition risk_tick :: "service_env \<Rightarrow> unit op" where
  "risk_tick env =
     bindS (read_clock env) (\<lambda>t.
     bindS (report_identity (t div seconds 86400)) (\<lambda>ident s.
     forO (evaluate_portfolio_risk env ident) (dict_values (sv_portfolio_states s)) s))"

end
