(* ===== verification/Operation_Reports.thy ===== *)
theory Operation_Reports
  imports Paper_Operations
begin

text \<open>
  The reports of the continuous paper operation (\<open>services/operations/service.py\<close>): attribution, daily
  metrics, capital feasibility, the verdict on promotion and the reporting tick. Writing the report to
  files is left out.
\<close>

section \<open>Sums over the books of a portfolio\<close>

definition dec_sum :: "dec list \<Rightarrow> dec" where
  "dec_sum = foldl dadd 0"

fun mapO :: "('a \<Rightarrow> 'b op) \<Rightarrow> 'a list \<Rightarrow> 'b list op" where
  "mapO f [] s = (Inr [], s)"
| "mapO f (x # xs) s = bindS (f x) (\<lambda>y. bindS (mapO f xs) (\<lambda>ys. returnO (y # ys))) s"

record portfolio_costs =
  pc_fees :: dec
  pc_rebates :: dec
  pc_slippage :: dec
  pc_impact :: dec

definition portfolio_fills :: "PortfolioState \<Rightarrow> PaperFillRecord list \<Rightarrow> PaperFillRecord list" where
  "portfolio_fills state fills = filter (\<lambda>f. pfi_portfolio_id f = pfs_portfolio_id state) fills"

definition costs_of :: "PaperFillRecord list \<Rightarrow> portfolio_costs" where
  "costs_of fills =
     \<lparr>pc_fees = dec_sum (map pfi_fee_paid fills), pc_rebates = dec_sum (map pfi_rebate_received fills),
      pc_slippage = dec_sum (map pfi_slippage_cost fills), pc_impact = dec_sum (map pfi_impact_cost fills)\<rparr>"

definition gross_of :: "dec \<Rightarrow> portfolio_costs \<Rightarrow> dec" where
  "gross_of net c = dadd (dadd (dsub (dadd net (pc_fees c)) (pc_rebates c)) (pc_slippage c)) (pc_impact c)"

definition funding_total :: "InMemoryOperationalRepository \<Rightarrow> string \<Rightarrow> PortfolioState \<Rightarrow> dec" where
  "funding_total r run_id state =
     dec_sum (map pfu_amount (filter (\<lambda>e. pfu_portfolio_id e = pfs_portfolio_id state) (funding_entries r run_id)))"

definition failed_legs :: "InMemoryOperationalRepository \<Rightarrow> string \<Rightarrow> PortfolioState \<Rightarrow> dec" where
  "failed_legs r run_id state =
     of_nat (length (filter (\<lambda>e. pre_portfolio_id e = pfs_portfolio_id state \<and> pre_event_type e = ''one_leg_failure_unwind'')
       (risk_events r run_id)))"

section \<open>Attribution\<close>

record attribution_expectation =
  ax_net_pnl :: dec
  ax_gross_pnl :: dec
  ax_fill_ratio :: dec
  ax_latency_ms :: dec

definition default_expectation :: attribution_expectation where
  "default_expectation = \<lparr>ax_net_pnl = 0, ax_gross_pnl = 0, ax_fill_ratio = 1, ax_latency_ms = 0\<rparr>"

definition attribution_of ::
  "attribution_expectation \<Rightarrow> InMemoryOperationalRepository \<Rightarrow> string \<Rightarrow> int \<Rightarrow> PaperSignal list \<Rightarrow> PaperFillRecord list \<Rightarrow>
   PortfolioState \<Rightarrow> OperationalIdentity \<Rightarrow> PaperAttribution" where
  "attribution_of ax r run_id report_date signals fills state ident =
     (let own = portfolio_fills state fills;
          c = costs_of own;
          actual_net = dsub (pfs_current_equity state) (pfs_initial_capital state);
          actual_gross = gross_of actual_net c;
          fill_ratio = (if signals \<noteq> [] then ddiv (of_nat (length own)) (of_nat (length signals)) else 0);
          latency = (if own \<noteq> [] then ddiv (dec_sum (map (\<lambda>f. of_int (pfi_latency_ms f)) own)) (of_nat (length own)) else 0) in
      \<lparr>pat_identity = ident, pat_portfolio_id = pfs_portfolio_id state, pat_attribution_date = report_date,
       pat_expected_gross_pnl = ax_gross_pnl ax, pat_actual_paper_gross_pnl = actual_gross,
       pat_expected_net_pnl = ax_net_pnl ax, pat_actual_paper_net_pnl = actual_net, pat_fee_difference = pc_fees c,
       pat_rebate_difference = pc_rebates c, pat_funding_difference = funding_total r run_id state,
       pat_slippage_difference = pc_slippage c, pat_impact_difference = pc_impact c,
       pat_fill_rate_difference = dsub fill_ratio (ax_fill_ratio ax), pat_latency_difference = dsub latency (ax_latency_ms ax),
       pat_failed_leg_difference = failed_legs r run_id state, pat_outage_difference = 0,
       pat_implementation_shortfall = dsub (ax_net_pnl ax) actual_net, pat_edge_decay = dsub (ax_gross_pnl ax) actual_gross,
       pat_signal_to_fill_latency_ms = latency, pat_fill_ratio = fill_ratio,
       pat_paper_backtest_pnl_ratio = (if ax_net_pnl ax \<noteq> 0 then Some (ddiv actual_net (ax_net_pnl ax)) else None),
       pat_paper_backtest_sharpe_ratio = None\<rparr>)"

definition attribute_portfolio ::
  "attribution_expectation \<Rightarrow> int \<Rightarrow> PaperSignal list \<Rightarrow> PaperFillRecord list \<Rightarrow> PortfolioState \<Rightarrow> PaperAttribution op" where
  "attribute_portfolio ax report_date signals fills state =
     bindS (report_identity report_date) (\<lambda>ident s.
     let item = attribution_of ax (sv_repository s) (sv_run_id s) report_date signals fills state ident in
     (Inr item, s\<lparr>sv_repository := save_attribution item (sv_repository s)\<rparr>))"

definition compute_attribution :: "attribution_expectation \<Rightarrow> int \<Rightarrow> PaperAttribution list op" where
  "compute_attribution ax report_date s =
     mapO (attribute_portfolio ax report_date (signals_of (sv_repository s) (sv_run_id s)) (paper_fills_of (sv_repository s) (sv_run_id s)))
       (dict_values (sv_portfolio_states s)) s"

section \<open>The verdict on promotion\<close>

definition promotion_verdict :: "nat \<Rightarrow> ContinuousResearchPaperService \<Rightarrow> PaperPromotionVerdict" where
  "promotion_verdict minimum_signals s =
     (let r = sv_repository s; run_id = sv_run_id s in
      if length (filter (\<lambda>g. sig_rejection_reason g = None) (signals_of r run_id)) < minimum_signals then NOT_READY
      else if sv_mode s = OBSERVATION_ONLY \<or> paper_fills_of r run_id = [] then CONTINUE_OBSERVATION
      else if daily_metrics r run_id = [] \<or>
              list_ex (\<lambda>m. pdm_net_pnl m \<le> 0 \<or> cp_maximum_drawdown (sv_operation_settings s) < pdm_maximum_drawdown m) (daily_metrics r run_id)
           then CONTINUE_OBSERVATION
      else ELIGIBLE_FOR_MICRO_LIVE_REVIEW)"

definition capital_feasibility_status :: "StrategyEligibilityRecord list \<Rightarrow> PaperSignal list \<Rightarrow> CapitalFeasibilityStatus" where
  "capital_feasibility_status elgs signals =
     (if elgs = [] then CAPITAL_NOT_EVALUATED
      else if list_ex (\<lambda>e. elg_capital_feasibility_status e = CAPITAL_NOT_FEASIBLE) elgs then CAPITAL_NOT_FEASIBLE
      else if signals = [] then CAPITAL_INSUFFICIENT_EVIDENCE
      else if list_ex (\<lambda>g. sig_disposition g = SIGNAL_ELIGIBLE) signals \<and>
              list_ex (\<lambda>e. elg_capital_feasibility_status e = CAPITAL_FEASIBLE) elgs then CAPITAL_FEASIBLE
      else CAPITAL_INSUFFICIENT_EVIDENCE)"

section \<open>The daily report\<close>

definition metric_of ::
  "InMemoryOperationalRepository \<Rightarrow> string \<Rightarrow> int \<Rightarrow> PaperFillRecord list \<Rightarrow> PortfolioState \<Rightarrow> dec \<Rightarrow> OperationalIdentity \<Rightarrow> PaperDailyMetric" where
  "metric_of r run_id report_date fills state drawdown ident =
     (let c = costs_of (portfolio_fills state fills);
          net = dsub (pfs_current_equity state) (pfs_initial_capital state) in
      \<lparr>pdm_identity = ident, pdm_portfolio_id = pfs_portfolio_id state, pdm_metric_date = report_date,
       pdm_starting_equity = pfs_initial_capital state, pdm_ending_equity = pfs_current_equity state,
       pdm_gross_pnl = gross_of net c, pdm_net_pnl = net, pdm_fees = pc_fees c, pdm_rebates = pc_rebates c,
       pdm_funding = funding_total r run_id state, pdm_slippage = pc_slippage c, pdm_impact = pc_impact c,
       pdm_failed_leg_cost = failed_legs r run_id state, pdm_maximum_drawdown = max 0 drawdown, pdm_capital_usage = 0\<rparr>)"

definition measure_portfolio :: "int \<Rightarrow> PaperFillRecord list \<Rightarrow> PortfolioState \<Rightarrow> PaperDailyMetric op" where
  "measure_portfolio report_date fills state =
     bindS (liftO (div_dec (dsub (pfs_peak_equity state) (pfs_current_equity state)) (pfs_peak_equity state))) (\<lambda>drawdown.
     bindS (report_identity report_date) (\<lambda>ident s.
     let m = metric_of (sv_repository s) (sv_run_id s) report_date fills state drawdown ident in
     (Inr m, s\<lparr>sv_repository := save_daily_metric m (sv_repository s)\<rparr>)))"

definition report_of ::
  "OperationalRun \<Rightarrow> string \<Rightarrow> int \<Rightarrow> PaperSignal list \<Rightarrow> PaperFillRecord list \<Rightarrow> PaperDailyMetric list \<Rightarrow> PaperAttribution list \<Rightarrow>
   ContinuousResearchPaperService \<Rightarrow> DailyOperationReport" where
  "report_of run snapshot_id report_date signals fills metrics attribution s =
     (let r = sv_repository s; run_id = sv_run_id s; elgs = eligibility r run_id;
          capital_status = capital_feasibility_status elgs signals in
      \<lparr>dr_run_id = run_id, dr_report_date = report_date, dr_snapshot_id = snapshot_id,
       dr_research_run_ids = orn_last_research_run_ids run, dr_eligibility = elgs, dr_signal_count = int (length signals),
       dr_rejected_signal_count = int (length (filter (\<lambda>g. sig_rejection_reason g \<noteq> None) signals)),
       dr_paper_order_count = int (length (orders_of r run_id)), dr_paper_fill_count = int (length fills), dr_metrics = metrics,
       dr_attribution = attribution, dr_risk_events = risk_events r run_id, dr_promotion_verdict = promotion_verdict 30 s,
       dr_collector_health = sv_collector_health s, dr_research_status = orn_research_status run,
       dr_research_skip_reason = orn_research_skip_reason run,
       dr_capital_feasibility = foldl (\<lambda>d p. dict_set (pfs_portfolio_id p) capital_status d) [] (dict_values (sv_portfolio_states s))\<rparr>)"

definition generate_daily_report :: "int \<Rightarrow> DailyOperationReport op" where
  "generate_daily_report report_date =
     bindS require_run (\<lambda>run s.
     case orn_last_snapshot_id run of
       None \<Rightarrow> (Inl (ValueError ''daily report requires a finalized snapshot''), s)
     | Some snapshot_id \<Rightarrow>
         let fills = paper_fills_of (sv_repository s) (sv_run_id s); signals = signals_of (sv_repository s) (sv_run_id s) in
         bindS (mapO (measure_portfolio report_date fills) (dict_values (sv_portfolio_states s))) (\<lambda>metrics.
         bindS (compute_attribution default_expectation report_date) (\<lambda>attribution s1.
         (Inr (report_of run snapshot_id report_date signals fills metrics attribution s1), s1))) s)"

text \<open>\<open>now.hour\<close>, \<open>now.minute\<close> and \<open>now.date()\<close> of an instant.\<close>

definition hour_of :: "instant \<Rightarrow> int" where
  "hour_of t = t mod seconds 86400 div seconds 3600"

definition minute_of :: "instant \<Rightarrow> int" where
  "minute_of t = t mod seconds 3600 div seconds 60"

definition reporting_tick :: "service_env \<Rightarrow> unit op" where
  "reporting_tick env =
     bindS (read_clock env) (\<lambda>t s.
     if hour_of t = cp_daily_report_hour_utc (sv_operation_settings s) \<and> minute_of t = cp_daily_report_minute_utc (sv_operation_settings s) then
       bindS require_run (\<lambda>run.
       if orn_last_snapshot_id run \<noteq> None
       then bindS (generate_daily_report (t div seconds 86400)) (\<lambda>_. returnO ())
       else returnO ()) s
     else (Inr (), s))"

end
