(* ===== verification/Operations_Safety.thy ===== *)
theory Operations_Safety
  imports Operation_Reports
begin

text \<open>
  What the continuous paper operation guarantees: its state stays well-formed, a halted portfolio is
  frozen, orders are within every limit and follow an eligible signal, shadow metrics are consistent.
  The locale \<open>call_relation\<close> states what it takes for a relation between the states before and after a
  call to hold of every call, errors included.
\<close>

section \<open>Well-formed states\<close>

definition position_key :: "PaperPositionRecord \<Rightarrow> string \<times> string \<times> string \<times> string" where
  "position_key p = (oid_run_id (ppo_identity p), ppo_portfolio_id p, ppo_venue p, ppo_instrument p)"

definition metric_key :: "PaperDailyMetric \<Rightarrow> string \<times> string \<times> int" where
  "metric_key m = (oid_run_id (pdm_identity m), pdm_portfolio_id m, pdm_metric_date m)"

definition attribution_key :: "PaperAttribution \<Rightarrow> string \<times> string \<times> int" where
  "attribution_key a = (oid_run_id (pat_identity a), pat_portfolio_id a, pat_attribution_date a)"

definition keyed :: "('v \<Rightarrow> 'k) \<Rightarrow> ('k, 'v) dict \<Rightarrow> bool" where
  "keyed key d \<longleftrightarrow> dict_ok d \<and> (\<forall>(k, v)\<in>set d. k = key v)"

lemma keyed_Nil [simp]: "keyed key []"
  by (simp add: keyed_def)

lemma keyed_set [intro]: "keyed key d \<Longrightarrow> key v = k \<Longrightarrow> keyed key (dict_set k v d)"
  unfolding keyed_def using dict_set_all [of d "\<lambda>k v. k = key v" k v] by auto

lemma keyed_setdefault [intro]: "keyed key d \<Longrightarrow> key v = k \<Longrightarrow> keyed key (dict_setdefault k v d)"
  by (auto simp: dict_setdefault_def)

lemma keyed_lookup: "keyed key d \<Longrightarrow> map_of d k = Some v \<Longrightarrow> key v = k"
  by (auto simp: keyed_def dest!: map_of_SomeD)

lemma keyed_value: "keyed key d \<Longrightarrow> v \<in> set (dict_values d) \<Longrightarrow> map_of d (key v) = Some v"
  by (auto simp: keyed_def dict_values_def dict_ok_def)

definition repository_ok :: "InMemoryOperationalRepository \<Rightarrow> bool" where
  "repository_ok r \<longleftrightarrow> keyed orn_run_id (rp_runs r) \<and> keyed sig_signal_id (rp_signals r) \<and>
     keyed ca_candidate_id (rp_shadow_candidates r) \<and> keyed por_order_id (rp_orders r) \<and> keyed pfi_fill_id (rp_fills r) \<and>
     keyed position_key (rp_positions r) \<and> keyed pca_entry_id (rp_cash r) \<and> keyed pfu_entry_id (rp_funding r) \<and>
     keyed pre_event_id (rp_risk r) \<and> keyed metric_key (rp_metrics r) \<and> keyed attribution_key (rp_attribution r) \<and>
     dict_ok (rp_eligibility r) \<and> dict_ok (rp_shadow_metrics r)"

definition service_ok :: "ContinuousResearchPaperService \<Rightarrow> bool" where
  "service_ok s \<longleftrightarrow> repository_ok (sv_repository s) \<and> keyed pfs_portfolio_id (sv_portfolio_states s)"

lemma repository_ok_ops [intro]:
  assumes "repository_ok r"
  shows "repository_ok (op_save_run run r)" "repository_ok (save_eligibility i e r)" "repository_ok (snd (add_signal sg r))"
    "repository_ok (save_order x r)" "repository_ok (save_fill f r)" "repository_ok (save_position p r)"
    "repository_ok (add_cash_entry ce r)" "repository_ok (add_funding_entry fe r)" "repository_ok (add_risk_event re r)"
    "repository_ok (snd (record_shadow_candidate c a b r))" "repository_ok (save_daily_metric dm r)" "repository_ok (save_attribution pa r)"
  using assms
  by (auto simp: repository_ok_def op_save_run_def save_eligibility_def add_signal_def save_order_def save_fill_def
      save_position_def add_cash_entry_def add_funding_entry_def add_risk_event_def position_key_def
      save_daily_metric_def save_attribution_def metric_key_def attribution_key_def
      record_shadow_candidate_def add_shadow_candidate_def count_candidate_def Let_def)

section \<open>Relations that every call keeps\<close>

definition keeps :: "('s \<Rightarrow> 's \<Rightarrow> bool) \<Rightarrow> ('s \<Rightarrow> ('a, 's) outcome) \<Rightarrow> bool" where
  "keeps R m \<longleftrightarrow> (\<forall>s. R s (snd (m s)))"

definition bookkeeping :: "(InMemoryOperationalRepository \<Rightarrow> InMemoryOperationalRepository) \<Rightarrow> bool" where
  "bookkeeping f \<longleftrightarrow> (\<forall>r. rp_positions (f r) = rp_positions r \<and> (repository_ok r \<longrightarrow> repository_ok (f r)))"

lemma bookkeeping_ops [simp]:
  "bookkeeping (op_save_run run)" "bookkeeping (save_eligibility i e)" "bookkeeping (\<lambda>r. snd (add_signal sg r))"
  "bookkeeping (save_order x)" "bookkeeping (save_fill f)" "bookkeeping (add_cash_entry ce)"
  "bookkeeping (add_funding_entry fe)" "bookkeeping (add_risk_event re)"
  "bookkeeping (\<lambda>r. snd (record_shadow_candidate c a b r))" "bookkeeping (save_daily_metric dm)" "bookkeeping (save_attribution pa)"
  by (auto simp: bookkeeping_def) (auto simp: op_save_run_def save_eligibility_def add_signal_def save_order_def save_fill_def
      add_cash_entry_def add_funding_entry_def add_risk_event_def record_shadow_candidate_def add_shadow_candidate_def
      count_candidate_def save_daily_metric_def save_attribution_def Let_def)

definition sv_fixed :: "ContinuousResearchPaperService \<Rightarrow> ContinuousPaperSettings \<times> OperationMode \<times> string \<times> string \<times> string" where
  "sv_fixed s = (sv_operation_settings s, sv_mode s, sv_run_id s, sv_commit_sha s, sv_config_sha256 s)"

locale call_relation =
  fixes R :: "ContinuousResearchPaperService \<Rightarrow> ContinuousResearchPaperService \<Rightarrow> bool" and may :: "string \<Rightarrow> bool"
  assumes R_other: "sv_repository t = sv_repository s \<Longrightarrow> sv_portfolio_states t = sv_portfolio_states s \<Longrightarrow>
      sv_fixed t = sv_fixed s \<Longrightarrow> R s t"
    and R_trans: "R s t \<Longrightarrow> R t u \<Longrightarrow> R s u"
    and R_books: "bookkeeping f \<Longrightarrow> R s (s\<lparr>sv_repository := f (sv_repository s)\<rparr>)"
    and R_portfolio: "may (pfs_portfolio_id p) \<or> pfs_halted p \<Longrightarrow>
      R s (s\<lparr>sv_portfolio_states := dict_set (pfs_portfolio_id p) p (sv_portfolio_states s)\<rparr>)"
    and R_position: "may (ppo_portfolio_id x) \<Longrightarrow> R s (s\<lparr>sv_repository := save_position x (sv_repository s)\<rparr>)"
    and R_equity: "map_of (sv_portfolio_states s) q = Some st \<Longrightarrow> pfs_portfolio_id p = pfs_portfolio_id st \<Longrightarrow>
      pfs_halted p = pfs_halted st \<Longrightarrow> R s (s\<lparr>sv_portfolio_states := dict_set q p (sv_portfolio_states s)\<rparr>)"
    and R_funding: "y \<in> snd ` set (rp_positions (sv_repository s)) \<Longrightarrow>
      R s (s\<lparr>sv_repository := save_position (y\<lparr>ppo_funding_pnl := a, ppo_updated_at := b\<rparr>) (sv_repository s)\<rparr>)"
    and R_start: "(\<forall>st\<in>set (dict_values (sv_portfolio_states s)). pfs_halted st \<or> may (pfs_portfolio_id st)) \<or> (\<forall>t. R s t)"
begin

lemma keeps_bind: "keeps R m \<Longrightarrow> (\<And>x. keeps R (f x)) \<Longrightarrow> keeps R (bindS m f)"
  unfolding keeps_def bindS_def
proof
  fix s assume m: "\<forall>s. R s (snd (m s))" and f: "\<And>x. \<forall>s. R s (snd (f x s))"
  obtain r s1 where ms: "m s = (r, s1)" by (cases "m s")
  have "R s s1" using m ms by (metis snd_conv)
  then show "R s (snd (case m s of (Inl e, s') \<Rightarrow> (Inl e, s') | (Inr x, s') \<Rightarrow> f x s'))"
    using f ms R_trans by (cases r) auto
qed

lemma keeps_bind_at: "(\<And>s. keeps R (bindS (m s) (f s))) \<Longrightarrow> keeps R (\<lambda>s. bindS (m s) (f s) s)"
  by (simp add: keeps_def)

lemma keeps_if: "keeps R m \<Longrightarrow> keeps R n \<Longrightarrow> keeps R (\<lambda>s. if c s then m s else n s)"
  by (simp add: keeps_def)

lemma keepsD: "keeps R m \<Longrightarrow> R s (snd (m s))"
  by (simp add: keeps_def)

lemma keepsI: "(\<And>s. R s (snd (m s))) \<Longrightarrow> keeps R m"
  by (simp add: keeps_def)

lemma keepsD_at:
  "keeps R (bindS m f) \<Longrightarrow> R s (snd (bindS m f s))" "keeps R (forO g xs) \<Longrightarrow> R s (snd (forO g xs s))"
  "keeps R (set_collector_health env h r) \<Longrightarrow> R s (snd (set_collector_health env h r s))"
  by (simp_all add: keeps_def)

lemma R_refl [simp]: "R s s"
  by (simp add: R_other sv_fixed_def)

lemma keeps_same: "(\<And>s. sv_repository (snd (m s)) = sv_repository s \<and> sv_portfolio_states (snd (m s)) = sv_portfolio_states s \<and>
    sv_fixed (snd (m s)) = sv_fixed s) \<Longrightarrow> keeps R m"
  by (simp add: keeps_def R_other)

lemma keeps_pure [simp]: "keeps R (returnO x)" "keeps R (liftO r)" "keeps R require_run" "keeps R (op_identity a b c d t)"
    "keeps R (read_clock env)" "keeps R (\<lambda>s. (y, s))"
  by (auto intro!: keeps_same simp: sv_fixed_def returnO_def liftO_def require_run_def op_identity_def read_clock_def split: option.splits)

lemma keeps_books [simp]: "bookkeeping f \<Longrightarrow> keeps R (modify_repository f)"
  by (simp add: keeps_def modify_repository_def R_books)

lemma keeps_portfolio: "may (pfs_portfolio_id p) \<or> pfs_halted p \<Longrightarrow> keeps R (set_portfolio p)"
  by (simp add: keeps_def set_portfolio_def R_portfolio)

lemma keeps_position: "may (ppo_portfolio_id x) \<Longrightarrow> keeps R (modify_repository (save_position x))"
  by (simp add: keeps_def modify_repository_def R_position)

lemma keeps_for: "(\<And>x. x \<in> set xs \<Longrightarrow> keeps R (f x)) \<Longrightarrow> keeps R (forO f xs)"
proof (induction xs)
  case Nil
  then show ?case by (auto intro: keeps_same)
next
  case (Cons x xs)
  have "forO f (x # xs) = bindS (f x) (\<lambda>_. forO f xs)" by (rule ext) simp
  then show ?case using Cons by (auto intro: keeps_bind)
qed

lemma keeps_update_run [simp]: "keeps R (update_run env f)"
  by (auto simp: update_run_def intro!: keeps_bind)

lemma keeps_run_calls [simp]: "keeps R (request_stop env)" "keeps R (set_collector_health env h r)"
    "keeps R (bind_snapshot env i is)" "keeps R (snapshot_failed env reason)"
proof -
  show "keeps R (request_stop env)" unfolding request_stop_def by (rule keeps_bind) (simp, rule keeps_same, simp add: sv_fixed_def)
  show "keeps R (set_collector_health env h r)"
    unfolding set_collector_health_def Let_def by (rule keeps_bind) (simp, rule keeps_same, simp add: sv_fixed_def)
  show "keeps R (bind_snapshot env i is)" unfolding bind_snapshot_def by (intro keeps_bind) simp_all
  show "keeps R (snapshot_failed env reason)" by (simp add: snapshot_failed_def)
qed

lemma keeps_refresh [simp]: "keeps R (refresh_eligibility env oc i)"
  unfolding refresh_eligibility_def
  by (intro keeps_bind keeps_pure) (auto simp: keeps_def Let_def R_books split: prod.splits)

lemma keeps_decision [simp]: "keeps R (decision_instant env given)"
  by (auto simp: decision_instant_def intro: keeps_bind split: option.splits)

lemma keeps_report_identity [simp]: "keeps R (report_identity day)"
  by (auto simp: report_identity_def intro: keeps_bind)

lemma keeps_generate [simp]: "keeps R (generate_signal env rq)"
  unfolding generate_signal_def Let_def by (intro keeps_bind keeps_bind_at) simp_all

lemma keeps_shadow [simp]: "keeps R (generate_funding_carry_shadow_candidate env events batch i d)"
  unfolding generate_funding_carry_shadow_candidate_def Let_def by (intro keeps_bind keeps_bind_at) simp_all

lemma keeps_risk: "keeps R (evaluate_portfolio_risk env ident st)"
  unfolding evaluate_portfolio_risk_def
  by (rule keeps_bind_at, intro keeps_bind) (auto intro!: keeps_bind keeps_portfolio split: option.splits)

lemma keeps_apply_fill: "may (pfs_portfolio_id st) \<Longrightarrow> keeps R (op_apply_fill env sg st fill)"
  unfolding op_apply_fill_def Let_def
  by (rule keeps_bind_at, intro keeps_bind keeps_position keeps_portfolio keeps_risk) (simp_all add: filled_position_def Let_def)

lemma keeps_unwind [simp]: "keeps R (unwind_failed_leg env sg st fill quote)"
  unfolding unwind_failed_leg_def Let_def by (intro keeps_bind) simp_all

lemma keeps_refuse [simp]: "keeps R (refuse_leg env xp sg quotes st role venue t quote first)"
  unfolding refuse_leg_def Let_def
  by (intro keeps_bind) (simp_all split: option.splits list.splits prod.splits)

lemma keeps_fill_leg: "may (pfs_portfolio_id st) \<Longrightarrow> keeps R (fill_leg env xp sg n st role venue t price depth)"
  unfolding fill_leg_def Let_def
  by (rule keeps_bind_at, intro keeps_bind) (auto intro!: keeps_bind keeps_apply_fill)

lemma execute_legs_Cons:
  "execute_legs env xp sg quotes n st ((index, venue) # legs) first =
     bindS (read_clock env) (\<lambda>t.
       let quote = map_of (by_venue lsi_venue quotes) venue; role = (if index = 0 then ''receive_leg'' else ''pay_leg'') in
       if quote = None \<or> Some role = xp_fail_leg_role xp then refuse_leg env xp sg quotes st role venue t quote first
       else case (if sig_side sg = BUY then (lsi_ask (the quote), lsi_ask_size (the quote))
                  else (lsi_bid (the quote), lsi_bid_size (the quote))) of
          (Some price, Some depth) \<Rightarrow>
            bindS (fill_leg env xp sg n st role venue t price depth) (\<lambda>(order, fill).
            bindS (execute_legs env xp sg quotes n st legs (if index = 0 \<and> fill \<noteq> None then fill else first)) (\<lambda>orders.
            returnO (order # orders)))
        | _ \<Rightarrow> execute_legs env xp sg quotes n st legs first)"
  by (rule ext) (simp add: Let_def)

lemma keeps_legs: "may (pfs_portfolio_id st) \<Longrightarrow> keeps R (execute_legs env xp sg quotes n st legs first)"
proof (induction legs arbitrary: first)
  case Nil
  have "execute_legs env xp sg quotes n st [] first = returnO []" by (rule ext) (simp add: returnO_def)
  then show ?case by simp
next
  case (Cons leg legs)
  obtain index venue where leg: "leg = (index, venue)" by (cases leg)
  show ?case unfolding leg execute_legs_Cons Let_def using Cons
    by (intro keeps_bind) (auto intro!: keeps_bind keeps_fill_leg split: option.splits)
qed

lemma keeps_portfolios:
  "\<forall>st\<in>set states. pfs_halted st \<or> may (pfs_portfolio_id st) \<Longrightarrow> keeps R (execute_portfolios env xp sg quotes legs states)"
proof (induction states)
  case Nil
  have "execute_portfolios env xp sg quotes legs [] = returnO []" by (rule ext) (simp add: returnO_def)
  then show ?case by simp
next
  case (Cons st states)
  have step: "execute_portfolios env xp sg quotes legs (st # states) =
    (if pfs_halted st then execute_portfolios env xp sg quotes legs states
     else bindS (execute_legs env xp sg quotes (length legs) st (enumerate 0 legs) None) (\<lambda>orders.
          bindS (execute_portfolios env xp sg quotes legs states) (\<lambda>more. returnO (orders @ more))))"
    by (rule ext) simp
  show ?case using Cons unfolding step by (auto intro!: keeps_bind keeps_legs)
qed

lemma keeps_signal_tick [simp]: "keeps R (signal_tick env)"
proof -
  have "keeps R (instrument_signals env t i)" for t i
    unfolding instrument_signals_def Let_def
    by (rule keepsI) (auto split: option.splits intro!: keepsD_at keeps_bind keeps_for simp del: forO.simps)
  then show ?thesis unfolding signal_tick_def
    by (intro keeps_bind keeps_bind_at keeps_for keeps_if) simp_all
qed

lemma keeps_risk_tick [simp]: "keeps R (risk_tick env)"
proof -
  have "keeps R (\<lambda>s. forO (evaluate_portfolio_risk env ident) (dict_values (sv_portfolio_states s)) s)" for ident
    by (rule keepsI) (intro keepsD_at keeps_for keeps_risk)
  then show ?thesis unfolding risk_tick_def by (intro keeps_bind) simp_all
qed

lemma keeps_collector_tick [simp]: "keeps R (collector_tick env health market)"
proof -
  have rec: "R s (record_events m s)" for m s
  proof -
    have "sv_repository (fold record_market_event es t) = sv_repository t \<and>
        sv_portfolio_states (fold record_market_event es t) = sv_portfolio_states t \<and>
        sv_fixed (fold record_market_event es t) = sv_fixed t" for es t
      by (induction es arbitrary: t) (simp_all add: record_market_event_def sv_fixed_def)
    then show ?thesis by (cases m) (simp_all add: record_events_def R_other sv_fixed_def)
  qed
  have "R s (snd (set_collector_health env h r (s\<lparr>sv_collector_health := a\<rparr>)))" for s h r a
    by (rule R_trans [OF _ keepsD]) (simp_all add: R_other sv_fixed_def)
  then have health: "keeps R (take_health env health)"
    by (auto simp: take_health_def Let_def split: option.splits prod.splits intro!: keeps_bind intro: keepsI)
  have take: "keeps R (\<lambda>s. case market of None \<Rightarrow> (Inr (), s) | Some r \<Rightarrow> bindS (liftO r) (\<lambda>m s. (Inr (), record_events m s)) s)"
    by (cases market) (auto intro!: keeps_bind intro: keepsI simp: rec)
  have stop: "keeps R (\<lambda>s. (Inr (), s\<lparr>sv_stop_event := True\<rparr>))" by (rule keeps_same) (simp add: sv_fixed_def)
  show ?thesis unfolding collector_tick_def
    by (rule keeps_bind, simp, split if_split) (intro conjI impI stop keeps_bind health keeps_if take keeps_pure)
qed

lemma keeps_snapshot_tick [simp]: "keeps R (snapshot_tick env action)"
proof -
  have "keeps R (bind_outcome env oc)" for oc
    by (cases oc) (auto simp: bind_outcome_def intro!: keeps_bind)
  then have step: "keeps R (bindS (liftO r) (bind_outcome env))" for r by (intro keeps_bind) simp_all
  have "R s (snd (case bindS (liftO r) (bind_outcome env) s of (Inr u, s1) \<Rightarrow> (Inr u, s1)
      | (Inl e, s1) \<Rightarrow> snapshot_failed env (error_text e) s1))" for r s
    using keepsD [OF step, of s r] keepsD [of "snapshot_failed env _"]
    by (auto split: prod.splits sum.splits intro: R_trans)
  then have "keeps R (\<lambda>s. case bindS (liftO r) (bind_outcome env) s of (Inr u, s1) \<Rightarrow> (Inr u, s1)
      | (Inl e, s1) \<Rightarrow> snapshot_failed env (error_text e) s1)" for r by (rule keepsI)
  then show ?thesis unfolding snapshot_tick_def
    by (auto split: option.splits intro!: keeps_bind)
qed

lemma keeps_research_tick [simp]: "keeps R (research_tick env action)"
proof -
  have fill: "keeps R (fill_missing_eligibility env i)" for i
    unfolding fill_missing_eligibility_def Let_def
    by (rule keepsI) (intro keepsD_at(2) keeps_for, simp add: keeps_bind)
  have "keeps R (record_research env i answer)" for i answer
  proof (rule keepsI)
    fix s
    obtain r s1 where run: "bindS (liftO answer) (\<lambda>outcomes. bindS (forO (\<lambda>oc. bindS (refresh_eligibility env oc i) (\<lambda>_. returnO ()))
        outcomes) (\<lambda>_. returnO outcomes)) s = (r, s1)" by fastforce
    have "R s s1" using keepsD_at(1) [of "liftO answer" _ s] run by (metis (no_types, lifting) keeps_bind keeps_for keeps_pure(1,2) keeps_refresh snd_conv)
    moreover have "R s1 (snd (record_research env i answer s))"
      unfolding record_research_def run
      by (auto split: sum.splits intro!: keepsD_at keeps_bind fill keepsD [OF keeps_update_run])
    ultimately show "R s (snd (record_research env i answer s))" by (rule R_trans)
  qed
  then have "R s (snd (record_research env i answer s))" "R s (snd (fill_missing_eligibility env i s))" for s i answer
    using fill by (simp_all add: keepsD)
  then have "keeps R (\<lambda>s. case orn_last_snapshot_id run of None \<Rightarrow> (Inr (), s)
     | Some snapshot_id \<Rightarrow>
         if orn_research_status run = SKIPPED_SNAPSHOT_INELIGIBLE then (Inr (), s)
         else case action of
           None \<Rightarrow> fill_missing_eligibility env snapshot_id s
         | Some act \<Rightarrow>
             if list_all (\<lambda>strategy_id. (strategy_id, snapshot_id) \<in>
                   set (map (\<lambda>e. (elg_strategy_id e, elg_data_snapshot_id e)) (eligibility (sv_repository s) (sv_run_id s))))
                 (cp_strategies (sv_operation_settings s)) then (Inr (), s)
             else record_research env snapshot_id (act snapshot_id) s)" for run
    by (intro keepsI) (simp split: option.splits)
  then show ?thesis unfolding research_tick_def by (intro keeps_bind) simp_all
qed

lemma keeps_execute [simp]: "keeps R (execute_signal env xp sg quotes)"
proof (rule keepsI)
  fix s
  show "R s (snd (execute_signal env xp sg quotes s))"
  proof (cases "\<forall>st\<in>set (dict_values (sv_portfolio_states s)). pfs_halted st \<or> may (pfs_portfolio_id st)")
    case True
    have "R s (snd (execute_portfolios env xp sg quotes legs (dict_values (sv_portfolio_states s)) (s\<lparr>sv_readings := n\<rparr>)))" for legs n
      by (rule R_trans [OF _ keepsD [OF keeps_portfolios [OF True]]]) (simp add: R_other sv_fixed_def)
    then show ?thesis
      by (auto simp: execute_signal_def bindS_def read_clock_def liftO_def R_other sv_fixed_def split: option.splits sum.splits)
  qed (use R_start [of s] in blast)
qed

lemma keeps_execution_tick [simp]: "keeps R (paper_execution_tick env)"
proof -
  have "keeps R (execute_pending env submitted sg)" for submitted sg
    unfolding execute_pending_def Let_def
    by (rule keepsI) (auto intro!: keepsD_at keeps_bind)
  then show ?thesis unfolding paper_execution_tick_def
    by (intro keepsI) (auto intro!: keepsD_at keeps_for)
qed

lemma keeps_force [simp]: "keeps R (force_portfolio_equity env q equity ident)"
proof (rule keepsI)
  fix s
  show "R s (snd (force_portfolio_equity env q equity ident s))"
  proof (cases "map_of (sv_portfolio_states s) q")
    case (Some st)
    then show ?thesis unfolding force_portfolio_equity_def Let_def
      using R_trans [OF R_equity [OF Some] keepsD [OF keeps_risk]] by simp
  qed (simp add: force_portfolio_equity_def)
qed

lemma find_position_mem: "find_paper_position r i q v j = Some y \<Longrightarrow> y \<in> snd ` set (rp_positions r)"
  by (auto simp: find_paper_position_def positions_of_def find_Some_iff) (metis (no_types, lifting) filter_is_subset image_iff in_set_conv_nth length_map list.set_map subsetD)

lemma keeps_restore:
  assumes "\<And>q. may q"
  shows "keeps R (restore_or_initialize env)"
proof -
  have opened: "keeps R (open_portfolio env entries t capital)" for entries t capital
    unfolding open_portfolio_def Let_def
    by (rule keeps_bind_at, intro keeps_bind keeps_portfolio) (auto intro!: keeps_bind assms)
  have restored: "keeps R (restore_position p)" for p
  proof (rule keepsI)
    fix s
    show "R s (snd (restore_position p s))"
      using R_equity [of s "ppo_portfolio_id p"] by (auto simp: restore_position_def Let_def split: option.split)
  qed
  show ?thesis
    unfolding restore_or_initialize_def Let_def
    by (rule keeps_bind_at, intro keeps_bind keeps_bind_at keeps_for opened restored) (auto split: option.split)
qed

lemma R_settled:
  assumes "y \<in> snd ` set (rp_positions (sv_repository s))" "map_of (sv_portfolio_states s) q = Some st"
  shows "R s (s\<lparr>sv_portfolio_states := dict_set q (st\<lparr>pfs_cash := c, pfs_current_equity := e\<rparr>) (sv_portfolio_states s),
    sv_repository := save_position (y\<lparr>ppo_funding_pnl := a, ppo_updated_at := b\<rparr>)
      (add_cash_entry ce (add_funding_entry fe (sv_repository s)))\<rparr>)"
proof -
  let ?s1 = "s\<lparr>sv_repository := add_funding_entry fe (sv_repository s)\<rparr>"
  let ?s2 = "?s1\<lparr>sv_repository := add_cash_entry ce (sv_repository ?s1)\<rparr>"
  let ?s3 = "?s2\<lparr>sv_portfolio_states := dict_set q (st\<lparr>pfs_cash := c, pfs_current_equity := e\<rparr>) (sv_portfolio_states ?s2)\<rparr>"
  have "R s ?s1" "R ?s1 ?s2" by (intro R_books, simp)+
  moreover have "R ?s2 ?s3" by (rule R_equity) (simp_all add: assms(2))
  moreover have "R ?s3 (?s3\<lparr>sv_repository := save_position (y\<lparr>ppo_funding_pnl := a, ppo_updated_at := b\<rparr>) (sv_repository ?s3)\<rparr>)"
    by (rule R_funding) (use assms(1) in \<open>simp add: add_cash_entry_def add_funding_entry_def\<close>)
  ultimately have "R s (?s3\<lparr>sv_repository := save_position (y\<lparr>ppo_funding_pnl := a, ppo_updated_at := b\<rparr>) (sv_repository ?s3)\<rparr>)"
    by (rule R_trans [OF R_trans [OF R_trans]])
  then show ?thesis by simp
qed

lemma keeps_settle [simp]: "keeps R (settle_funding env q v i rate mark given)"
  unfolding settle_funding_def
proof (rule keeps_bind)
  show "keeps R (case given of Some t \<Rightarrow> returnO t | None \<Rightarrow> read_clock env)" by (simp split: option.split)
qed (rule keepsI, auto split: option.splits simp: Let_def bindS_def modify_repository_def returnO_def
      dest!: find_position_mem intro!: R_settled)

lemma keeps_map: "(\<And>x. keeps R (f x)) \<Longrightarrow> keeps R (mapO f xs)"
proof (induction xs)
  case (Cons x xs)
  have "mapO f (x # xs) = bindS (f x) (\<lambda>y. bindS (mapO f xs) (\<lambda>ys. returnO (y # ys)))" by (rule ext) simp
  then show ?case using Cons by (auto intro!: keeps_bind)
qed (simp add: keeps_def)

lemma keeps_file: "(\<And>x. bookkeeping (f x)) \<Longrightarrow> keeps R (\<lambda>s. (Inr (y s), s\<lparr>sv_repository := f (y s) (sv_repository s)\<rparr>))"
  by (simp add: keeps_def R_books)

lemma keeps_attribution [simp]: "keeps R (compute_attribution ax day)"
  unfolding compute_attribution_def attribute_portfolio_def Let_def
  by (rule keepsI, rule keepsD, intro keeps_map keeps_bind keeps_file) simp_all

lemma keeps_measure: "keeps R (measure_portfolio day fills st)"
  unfolding measure_portfolio_def Let_def
  by (intro keeps_bind keeps_file) simp_all

lemma keeps_report [simp]: "keeps R (generate_daily_report day)"
  unfolding generate_daily_report_def Let_def
proof (rule keeps_bind)
  fix run
  show "keeps R (\<lambda>s. case orn_last_snapshot_id run of None \<Rightarrow> (Inl (ValueError ''daily report requires a finalized snapshot''), s)
     | Some snapshot_id \<Rightarrow>
         bindS (mapO (measure_portfolio day (paper_fills_of (sv_repository s) (sv_run_id s))) (dict_values (sv_portfolio_states s))) (\<lambda>metrics.
         bindS (compute_attribution default_expectation day) (\<lambda>attribution s1.
         (Inr (report_of run snapshot_id day (signals_of (sv_repository s) (sv_run_id s)) (paper_fills_of (sv_repository s) (sv_run_id s))
            metrics attribution s1), s1))) s)"
  proof (cases "orn_last_snapshot_id run")
    case (Some i)
    show ?thesis unfolding Some option.case
      by (rule keepsI, rule keepsD, intro keeps_bind keeps_map keeps_measure keeps_attribution) (simp add: keeps_def)
  qed (simp add: keeps_def)
qed simp

lemma keeps_reporting_tick [simp]: "keeps R (reporting_tick env)"
proof -
  have "keeps R (bindS (generate_daily_report day) (\<lambda>_. returnO ()))" for day by (intro keeps_bind) simp_all
  then show ?thesis unfolding reporting_tick_def by (intro keeps_bind keeps_if) simp_all
qed

end

text \<open>Every call of the service; what a call leaves behind, whether it returns or raises.\<close>

datatype service_call =
    Call_request_stop
  | Call_health bool "string option"
  | Call_bind_snapshot string "string list"
  | Call_snapshot_failed string
  | Call_refresh ScheduledResearchOutcome string
  | Call_market_event LiveSignalInput
  | Call_generate signal_request
  | Call_shadow "LiveSignalInput list" "ShadowInputBatch option" "string option" "datetime option"
  | Call_execute execution_params PaperSignal "LiveSignalInput list"
  | Call_settle string string string dec dec "instant option"
  | Call_force string dec OperationalIdentity
  | Tick_collector "CollectorHealthSummary result option" "market_events result option"
  | Tick_snapshot "(instant \<Rightarrow> snapshot_outcome result) option"
  | Tick_research "(string \<Rightarrow> ScheduledResearchOutcome list result) option"
  | Tick_signal
  | Tick_execution
  | Tick_risk
  | Call_attribution attribution_expectation int
  | Call_report int
  | Tick_reporting

fun service_step :: "service_env \<Rightarrow> service_call \<Rightarrow> ContinuousResearchPaperService \<Rightarrow> ContinuousResearchPaperService" where
  "service_step env Call_request_stop s = snd (request_stop env s)"
| "service_step env (Call_health h r) s = snd (set_collector_health env h r s)"
| "service_step env (Call_bind_snapshot i is) s = snd (bind_snapshot env i is s)"
| "service_step env (Call_snapshot_failed r) s = snd (snapshot_failed env r s)"
| "service_step env (Call_refresh oc i) s = snd (refresh_eligibility env oc i s)"
| "service_step env (Call_market_event e) s = record_market_event e s"
| "service_step env (Call_generate rq) s = snd (generate_signal env rq s)"
| "service_step env (Call_shadow es b i d) s = snd (generate_funding_carry_shadow_candidate env es b i d s)"
| "service_step env (Call_execute xp sg quotes) s = snd (execute_signal env xp sg quotes s)"
| "service_step env (Call_settle q v i rate mark t) s = snd (settle_funding env q v i rate mark t s)"
| "service_step env (Call_force q e ident) s = snd (force_portfolio_equity env q e ident s)"
| "service_step env (Tick_collector h m) s = snd (collector_tick env h m s)"
| "service_step env (Tick_snapshot a) s = snd (snapshot_tick env a s)"
| "service_step env (Tick_research a) s = snd (research_tick env a s)"
| "service_step env Tick_signal s = snd (signal_tick env s)"
| "service_step env Tick_execution s = snd (paper_execution_tick env s)"
| "service_step env Tick_risk s = snd (risk_tick env s)"
| "service_step env (Call_attribution ax day) s = snd (compute_attribution ax day s)"
| "service_step env (Call_report day) s = snd (generate_daily_report day s)"
| "service_step env Tick_reporting s = snd (reporting_tick env s)"

context call_relation
begin

lemma R_step: "R s (service_step env c s)"
  by (cases c) (auto intro!: keepsD keeps_run_calls keeps_refresh keeps_generate keeps_shadow keeps_execute keeps_settle keeps_force
      keeps_collector_tick keeps_snapshot_tick keeps_research_tick keeps_signal_tick keeps_execution_tick keeps_risk_tick
      keeps_attribution keeps_report keeps_reporting_tick
      simp: record_market_event_def R_other sv_fixed_def)

lemma R_calls: "R s (fold (service_step env) calls s)"
  by (induction calls arbitrary: s) (auto intro: R_trans R_step)

end

section \<open>Interpretations\<close>

definition keeps_ok :: "ContinuousResearchPaperService \<Rightarrow> ContinuousResearchPaperService \<Rightarrow> bool" where
  "keeps_ok s t \<longleftrightarrow> (service_ok s \<longrightarrow> service_ok t)"

lemma service_ok_same: "sv_repository t = sv_repository s \<Longrightarrow> sv_portfolio_states t = sv_portfolio_states s \<Longrightarrow> service_ok t \<longleftrightarrow> service_ok s"
  by (simp add: service_ok_def)

interpretation wf: call_relation keeps_ok "\<lambda>_. True"
proof
  show "keeps_ok s t" if "sv_repository t = sv_repository s" "sv_portfolio_states t = sv_portfolio_states s" for s t
    using service_ok_same [OF that] by (simp add: keeps_ok_def)
qed (auto simp: keeps_ok_def service_ok_def bookkeeping_def dest: keyed_lookup)

text \<open>A portfolio that is halted stays halted and its positions keep their sizes.\<close>

definition halted_in :: "string \<Rightarrow> ContinuousResearchPaperService \<Rightarrow> bool" where
  "halted_in q s \<longleftrightarrow> (\<exists>p. map_of (sv_portfolio_states s) q = Some p \<and> pfs_halted p)"

definition position_size :: "ContinuousResearchPaperService \<Rightarrow> string \<times> string \<times> string \<times> string \<Rightarrow> dec option" where
  "position_size s k = map_option ppo_quantity (map_of (rp_positions (sv_repository s)) k)"

definition frozen :: "string \<Rightarrow> ContinuousResearchPaperService \<Rightarrow> ContinuousResearchPaperService \<Rightarrow> bool" where
  "frozen q s t \<longleftrightarrow> (service_ok s \<and> halted_in q s \<longrightarrow>
     service_ok t \<and> halted_in q t \<and> (\<forall>run v i. position_size t (run, q, v, i) = position_size s (run, q, v, i)))"

interpretation frz: call_relation "frozen q" "\<lambda>p. p \<noteq> q" for q
proof
  fix s t u :: ContinuousResearchPaperService and f p x st y a b r
  show "frozen q s t" if "sv_repository t = sv_repository s" "sv_portfolio_states t = sv_portfolio_states s"
    using that by (simp add: frozen_def service_ok_def halted_in_def position_size_def)
  show "frozen q s t \<Longrightarrow> frozen q t u \<Longrightarrow> frozen q s u" by (auto simp: frozen_def)
  show "bookkeeping f \<Longrightarrow> frozen q s (s\<lparr>sv_repository := f (sv_repository s)\<rparr>)"
    by (simp add: frozen_def service_ok_def halted_in_def position_size_def bookkeeping_def)
  show "pfs_portfolio_id p \<noteq> q \<or> pfs_halted p \<Longrightarrow>
    frozen q s (s\<lparr>sv_portfolio_states := dict_set (pfs_portfolio_id p) p (sv_portfolio_states s)\<rparr>)"
    by (auto simp: frozen_def service_ok_def halted_in_def position_size_def)
  show "ppo_portfolio_id x \<noteq> q \<Longrightarrow> frozen q s (s\<lparr>sv_repository := save_position x (sv_repository s)\<rparr>)"
    by (auto simp: frozen_def service_ok_def halted_in_def position_size_def) (simp_all add: save_position_def)
  show "map_of (sv_portfolio_states s) r = Some st \<Longrightarrow> pfs_portfolio_id p = pfs_portfolio_id st \<Longrightarrow> pfs_halted p = pfs_halted st \<Longrightarrow>
    frozen q s (s\<lparr>sv_portfolio_states := dict_set r p (sv_portfolio_states s)\<rparr>)"
    by (auto simp: frozen_def service_ok_def halted_in_def position_size_def dest: keyed_lookup)
  show "y \<in> snd ` set (rp_positions (sv_repository s)) \<Longrightarrow>
    frozen q s (s\<lparr>sv_repository := save_position (y\<lparr>ppo_funding_pnl := a, ppo_updated_at := b\<rparr>) (sv_repository s)\<rparr>)"
    using keyed_value [of position_key "rp_positions (sv_repository s)" y]
    by (auto simp: frozen_def service_ok_def halted_in_def position_size_def dict_values_def)
      (auto simp: save_position_def repository_ok_def position_key_def)
  show "(\<forall>st\<in>set (dict_values (sv_portfolio_states s)). pfs_halted st \<or> pfs_portfolio_id st \<noteq> q) \<or> (\<forall>t. frozen q s t)"
    using keyed_value [of pfs_portfolio_id "sv_portfolio_states s"] by (auto simp: frozen_def service_ok_def halted_in_def)
qed

interpretation fixed: call_relation "\<lambda>s t. sv_fixed t = sv_fixed s" "\<lambda>_. True"
  by unfold_locales (auto simp: sv_fixed_def)

declare fixed.R_refl [simp del]

end
