(* ===== verification/Operations_Guarantees.thy ===== *)
theory Operations_Guarantees
  imports Operations_Safety Carry_Safety
begin

text \<open>
  The guarantees of the continuous paper operation, from its start through any sequence of calls, and
  three places where its books and its portfolios part ways.
\<close>

section \<open>Start\<close>

lemma started_ok:
  assumes "repository_ok repository" "ContinuousResearchPaperService_init env st cfg sq repository = (answer, s)"
  shows "service_ok s"
proof -
  have new: "service_ok (new_service cfg sq mode repository)" for mode using assms(1) by (simp add: service_ok_def new_service_def)
  have "keeps keeps_ok (restore_or_initialize env)" by (rule wf.keeps_restore) simp
  then have "keeps keeps_ok (bindS (liftO (validate_startup st cfg sq mode)) (\<lambda>_. restore_or_initialize env))" for mode
    by (intro wf.keeps_bind) simp_all
  from wf.keepsD [OF this] show ?thesis using assms(2) new
    unfolding ContinuousResearchPaperService_init_def keeps_ok_def by (metis snd_conv)
qed

text \<open>
  The state of a paper operation is well-formed: started on a well-formed repository, and through
  any calls and ticks, each store is keyed by the identity of its records without repetition and each
  portfolio is filed under its own name, also where a call raised.
\<close>

theorem service_state_well_formed:
  assumes "repository_ok repository" "ContinuousResearchPaperService_init env st cfg sq repository = (answer, s)"
  shows "service_ok (fold (service_step env) calls s)"
  using wf.R_calls [of s env calls] started_ok [OF assms] by (simp add: keeps_ok_def)

text \<open>
  C19. A halted portfolio is frozen: through any calls and ticks it stays halted and the size of every
  position it holds, on every venue and instrument, stays what it was; only funding is still booked.
\<close>

theorem halted_portfolio_frozen:
  assumes "service_ok s" "halted_in q s" "t = fold (service_step env) calls s"
  shows "halted_in q t \<and> (\<forall>run v i. position_size t (run, q, v, i) = position_size s (run, q, v, i))"
  using frz.R_calls [of q s env calls] assms by (simp add: frozen_def)

section \<open>Orders\<close>

text \<open>What the code checks of an order that fills.\<close>

definition admissible ::
  "ContinuousPaperSettings \<Rightarrow> execution_params \<Rightarrow> PaperSignal \<Rightarrow> LiveSignalInput list \<Rightarrow> nat \<Rightarrow> PortfolioState \<Rightarrow> PaperOrderRecord \<Rightarrow> bool" where
  "admissible cfg xp sg quotes n st ord \<longleftrightarrow>
     por_portfolio_id ord = pfs_portfolio_id st \<and> por_signal_id ord = sig_signal_id sg \<and>
     (0 < por_filled_quantity ord \<longrightarrow>
       (\<exists>quote price depth. quote \<in> set quotes \<and> lsi_venue quote = por_venue ord \<and>
          (if sig_side sg = BUY then lsi_ask quote = Some price \<and> lsi_ask_size quote = Some depth
           else lsi_bid quote = Some price \<and> lsi_bid_size quote = Some depth) \<and>
          por_filled_quantity ord \<le> sig_quantity sg \<and> por_filled_quantity ord \<le> dmul depth (xp_maximum_participation xp) \<and>
          xp_minimum_quantity xp \<le> sig_quantity sg \<and> xp_minimum_notional xp \<le> dmul (sig_quantity sg) price \<and>
          dmul (dmul (sig_quantity sg) price) (of_nat n) \<le> pfs_current_equity st \<and>
          dmul (sig_quantity sg) price \<le> dmul (pfs_current_equity st) (cp_maximum_venue_exposure cfg) \<and>
          dmul (sig_quantity sg) price \<le> dmul (pfs_current_equity st) (cp_maximum_instrument_exposure cfg) \<and>
          dadd (dadd (sig_expected_fee sg) (sig_expected_slippage sg)) (sig_expected_impact sg)
            \<le> dmul (pfs_current_equity st) (cp_maximum_single_trade_risk cfg)))"

lemma bindS_Inr_iff: "bindS m f s = (Inr y, t) \<longleftrightarrow> (\<exists>x s1. m s = (Inr x, s1) \<and> f x s1 = (Inr y, t))"
  by (auto simp: bindS_def split: prod.splits sum.splits)

lemma opE [simp]:
  "returnO x s = (Inr y, t) \<longleftrightarrow> y = x \<and> t = s" "liftO r s = (Inr y, t) \<longleftrightarrow> r = Inr y \<and> t = s"
  "modify_repository f s = (Inr u, t) \<longleftrightarrow> t = s\<lparr>sv_repository := f (sv_repository s)\<rparr>"
  "read_clock env s = (Inr i, t) \<longleftrightarrow> i = en_clock env (sv_readings s) \<and> t = s\<lparr>sv_readings := Suc (sv_readings s)\<rparr>"
  by (auto simp: returnO_def liftO_def modify_repository_def read_clock_def)

lemma leg_refusal_None:
  "leg_refusal cfg xp sg n st price = None \<longleftrightarrow>
     xp_minimum_quantity xp \<le> sig_quantity sg \<and> xp_minimum_notional xp \<le> dmul (sig_quantity sg) price \<and>
     dadd (dadd (sig_expected_fee sg) (sig_expected_slippage sg)) (sig_expected_impact sg)
       \<le> dmul (pfs_current_equity st) (cp_maximum_single_trade_risk cfg) \<and>
     dmul (dmul (sig_quantity sg) price) (of_nat n) \<le> pfs_current_equity st \<and>
     dmul (sig_quantity sg) price \<le> dmul (pfs_current_equity st) (cp_maximum_venue_exposure cfg) \<and>
     dmul (sig_quantity sg) price \<le> dmul (pfs_current_equity st) (cp_maximum_instrument_exposure cfg)"
  by (auto simp: leg_refusal_def Let_def not_less)

lemma fill_leg_admissible:
  assumes "fill_leg env xp sg n st role venue t price depth s = (Inr (ord, fill), s')" "quote \<in> set quotes" "lsi_venue quote = venue"
    and "if sig_side sg = BUY then lsi_ask quote = Some price \<and> lsi_ask_size quote = Some depth
         else lsi_bid quote = Some price \<and> lsi_bid_size quote = Some depth"
  shows "admissible (sv_operation_settings s) xp sg quotes n st ord"
proof -
  let ?refusal = "leg_refusal (sv_operation_settings s) xp sg n st price"
  let ?filled = "if ?refusal \<noteq> None then 0 else min (sig_quantity sg) (dmul depth (xp_maximum_participation xp))"
  have ord: "ord = leg_order sg st role venue ?filled (order_status ?refusal ?filled (sig_quantity sg)) t (t + xp_latency_ms xp * 1000) ?refusal"
    using assms(1) unfolding fill_leg_def Let_def by (auto simp: bindS_Inr_iff split: if_splits)
  show ?thesis
  proof (cases "?refusal = None")
    case True
    then show ?thesis unfolding admissible_def ord using assms(2-4) leg_refusal_None [of "sv_operation_settings s" xp sg n st price]
      by (intro conjI impI exI [of _ quote] exI [of _ price] exI [of _ depth]) (simp_all add: leg_order_def)
  next
    case False
    then show ?thesis unfolding ord by (simp add: admissible_def leg_order_def)
  qed
qed

lemma refuse_leg_admissible:
  assumes "refuse_leg env xp sg quotes st role venue t quote first s = (Inr orders, s')" "ord \<in> set orders"
  shows "admissible cfg xp sg quotes n st ord"
  using assms by (auto simp: refuse_leg_def Let_def bindS_Inr_iff admissible_def leg_order_def)

lemma same_settings: "keeps (\<lambda>s t. sv_fixed t = sv_fixed s) m \<Longrightarrow> m s = (r, t) \<Longrightarrow> sv_operation_settings t = sv_operation_settings s"
  by (metis fixed.keepsD sv_fixed_def Pair_inject snd_conv)

lemma legs_admissible:
  assumes "execute_legs env xp sg quotes n st legs first s = (Inr orders, s')" "ord \<in> set orders"
  shows "admissible (sv_operation_settings s) xp sg quotes n st ord"
  using assms
proof (induction legs arbitrary: first s orders)
  case (Cons leg legs)
  obtain index venue where leg: "leg = (index, venue)" by (cases leg)
  define role where "role = (if index = 0 then ''receive_leg'' else ''pay_leg'')"
  let ?t = "en_clock env (sv_readings s)" and ?s1 = "s\<lparr>sv_readings := Suc (sv_readings s)\<rparr>"
  let ?quote = "map_of (by_venue lsi_venue quotes) venue"
  note run = Cons.prems(1) [unfolded leg fixed.execute_legs_Cons bindS_Inr_iff opE Let_def, folded role_def, simplified]
  show ?case
  proof (cases "?quote = None \<or> Some role = xp_fail_leg_role xp")
    case True
    then show ?thesis using run Cons.prems(2) refuse_leg_admissible by fastforce
  next
    case False
    then obtain quote where q: "?quote = Some quote" by auto
    note mem = by_venue_SomeD [OF q]
    define pd where "pd = (if sig_side sg = BUY then (lsi_ask quote, lsi_ask_size quote) else (lsi_bid quote, lsi_bid_size quote))"
    show ?thesis
    proof (cases "\<exists>price depth. pd = (Some price, Some depth)")
      case False
      then have "execute_legs env xp sg quotes n st legs first ?s1 = (Inr orders, s')"
        using run \<open>\<not> (?quote = None \<or> _)\<close> q unfolding pd_def by (auto split: option.splits if_splits)
      from Cons.IH [OF this Cons.prems(2)] show ?thesis by simp
    next
      case True
      then obtain price depth where pd: "pd = (Some price, Some depth)" by blast
      then obtain o1 fill s2 more first' where f: "fill_leg env xp sg n st role venue ?t price depth ?s1 = (Inr (o1, fill), s2)"
          and more: "execute_legs env xp sg quotes n st legs first' s2 = (Inr more, s')"
          and orders: "orders = o1 # more"
        using run \<open>\<not> (?quote = None \<or> _)\<close> q unfolding pd_def by (auto simp: bindS_Inr_iff split: if_splits)
      have "admissible (sv_operation_settings ?s1) xp sg quotes n st o1"
        using fill_leg_admissible [OF f, of quote quotes] mem pd unfolding pd_def by (auto split: if_splits)
      moreover have "sv_operation_settings s2 = sv_operation_settings ?s1"
        by (rule same_settings [OF fixed.keeps_fill_leg f]) simp
      ultimately show ?thesis using Cons.IH [OF more] Cons.prems(2) orders by auto
    qed
  qed
qed simp

lemma portfolios_admissible:
  assumes "execute_portfolios env xp sg quotes legs states s = (Inr orders, s')" "ord \<in> set orders"
  shows "\<exists>st\<in>set states. \<not> pfs_halted st \<and> admissible (sv_operation_settings s) xp sg quotes (length legs) st ord"
  using assms
proof (induction states arbitrary: s orders)
  case (Cons st states)
  show ?case
  proof (cases "pfs_halted st")
    case True
    then show ?thesis using Cons by auto
  next
    case False
    then obtain os1 s1 more where l: "execute_legs env xp sg quotes (length legs) st (enumerate 0 legs) None s = (Inr os1, s1)"
        and m: "execute_portfolios env xp sg quotes legs states s1 = (Inr more, s')" and o: "orders = os1 @ more"
      using Cons.prems(1) by (auto simp: bindS_Inr_iff)
    have "sv_operation_settings s1 = sv_operation_settings s" by (rule same_settings [OF fixed.keeps_legs l]) simp
    then show ?thesis using legs_admissible [OF l] Cons.IH [OF m] Cons.prems(2) o False by auto
  qed
qed simp

text \<open>The legs of a signal: the venues it names, or every venue that is quoted.\<close>

definition leg_total :: "PaperSignal \<Rightarrow> LiveSignalInput list \<Rightarrow> nat" where
  "leg_total sg quotes =
     (if sig_venue_legs sg = [] then card (lsi_venue ` set quotes) else length (sig_venue_legs sg))"

lemma by_venue_length: "length (by_venue venue items) = card (venue ` set items)"
proof -
  let ?step = "\<lambda>d item. dict_set (venue item) item d"
  have "dict_ok (foldl ?step d items) \<and> fst ` set (foldl ?step d items) = fst ` set d \<union> venue ` set items"
    if "dict_ok d" for d
    using that by (induction items arbitrary: d) (auto simp: dict_keys_set)
  from this [of "[]"] have "distinct (map fst (by_venue venue items))"
      "set (map fst (by_venue venue items)) = venue ` set items"
    by (simp_all add: by_venue_def dict_ok_def)
  then show ?thesis using distinct_card [of "map fst (by_venue venue items)"] by simp
qed

text \<open>
  C18. Every order of an executed signal is gated: the operation is in strict paper mode, the signal was
  not rejected, its strategy is eligible and its eligibility in force at the time of execution; the
  order belongs to a portfolio that was not halted; and where it fills, it fills at the quoted price
  side within the requested quantity and the allowed share of the displayed size, above the minimum
  quantity and notional, within the trade risk and the venue and instrument exposure of that
  portfolio, and without leverage: the notional of all the legs together is within its equity.
\<close>

theorem paper_orders_gated:
  assumes "execute_signal env xp sg quotes s = (Inr orders, s')" "ord \<in> set orders"
  shows "sv_mode s = STRICT_PAPER \<and> sig_rejection_reason sg = None \<and>
    (\<exists>e. e \<in> set (eligibility (sv_repository s) (sv_run_id s)) \<and> elg_strategy_id e = oid_strategy_id (sig_identity sg) \<and>
       elg_status e = STRATEGY_ELIGIBLE \<and> elg_evaluated_at e \<le> en_clock env (sv_readings s) \<and>
       en_clock env (sv_readings s) \<le> elg_expires_at e) \<and>
    (\<exists>st. st \<in> set (dict_values (sv_portfolio_states s)) \<and> \<not> pfs_halted st \<and>
       admissible (sv_operation_settings s) xp sg quotes (leg_total sg quotes) st ord)"
proof -
  have mode: "sv_mode s = STRICT_PAPER" "sig_rejection_reason sg = None"
    using assms by (cases "sv_mode s"; auto simp: execute_signal_def split: if_splits)+
  obtain e where e: "List.find (\<lambda>e. elg_strategy_id e = oid_strategy_id (sig_identity sg)) (eligibility (sv_repository s) (sv_run_id s)) = Some e"
    using assms mode by (auto simp: execute_signal_def split: option.splits)
  let ?legs = "if sig_venue_legs sg \<noteq> [] then sig_venue_legs sg else map fst (by_venue lsi_venue quotes)"
  have legs: "length ?legs = leg_total sg quotes" by (simp add: leg_total_def by_venue_length)
  obtain s1 where valid: "valid_at e (Aware (en_clock env (sv_readings s))) = Inr True"
      and run: "execute_portfolios env xp sg quotes ?legs (dict_values (sv_portfolio_states s)) s1 = (Inr orders, s')"
      and s1: "sv_operation_settings s1 = sv_operation_settings s"
    using assms mode e by (auto simp: execute_signal_def bindS_Inr_iff split: if_splits)
  have "e \<in> set (eligibility (sv_repository s) (sv_run_id s))" "elg_strategy_id e = oid_strategy_id (sig_identity sg)"
    using e by (auto simp: find_Some_iff)
  then show ?thesis using mode valid portfolios_admissible [OF run assms(2), unfolded legs] s1
    by (auto simp: valid_at_def split: if_splits)
qed

section \<open>Signals\<close>

definition clean_event :: "ContinuousPaperSettings \<Rightarrow> string \<Rightarrow> instant \<Rightarrow> LiveSignalInput \<Rightarrow> bool" where
  "clean_event cfg instrument t e \<longleftrightarrow>
     lsi_instrument e = instrument \<and> lsi_available_at e \<le> t \<and> t - lsi_available_at e \<le> seconds (cp_source_event_max_age_seconds cfg) \<and>
     lsi_capability_support e = ''live_verified'' \<and> cp_minimum_data_quality cfg \<le> lsi_data_quality_score e \<and>
     (prefix ''orderbook'' (lsi_event_type e) \<longrightarrow> lsi_reconciliation_state e = Some ''synchronized'')"

lemma first_event_rejection_None: "first_event_rejection cfg i t es = None \<longleftrightarrow> (\<forall>e\<in>set es. clean_event cfg i t e)"
  by (induction es) (auto simp: event_rejection_def clean_event_def Let_def split: option.splits if_splits)

lemma signal_rejection_None:
  assumes "signal_rejection cfg run elg events instrument (Aware t) = Inr rejection"
  shows "rejection = None \<longleftrightarrow> orn_collector_healthy run \<and> or_text (orn_signals_paused_reason run) [] = [] \<and>
    (\<exists>e. elg = Some e \<and> orn_last_snapshot_id run = Some (elg_data_snapshot_id e) \<and> elg_status e = STRATEGY_ELIGIBLE \<and>
       elg_evaluated_at e \<le> t \<and> t \<le> elg_expires_at e) \<and>
    2 \<le> card (lsi_venue ` set events) \<and> distinct (map lsi_event_id events) \<and> list_all (clean_event cfg instrument t) events"
proof (cases "orn_collector_healthy run \<and> or_text (orn_signals_paused_reason run) [] = []")
  case False
  then show ?thesis using assms by (cases "orn_signals_paused_reason run") (auto simp: signal_rejection_def or_text_def split: if_splits dest!: sym [of "Some _"])
next
  case True
  have "events = [] \<Longrightarrow> card (lsi_venue ` set events) = 0" by simp
  then show ?thesis using assms True
    by (auto simp: signal_rejection_def valid_at_def first_event_rejection_None list_all_iff split: option.splits if_splits)
qed

text \<open>
  C20. A generated signal is eligible, and without a reason for rejection, exactly when the collector is
  healthy and signals are not paused, the strategy is eligible in force on the current snapshot, and
  the source events come from at least two venues, are distinct, on the instrument, fresh, not from
  the future, live verified, of sufficient quality and, for order books, synchronized. It is filed
  under its identity unless one with that identity is already there.
\<close>

theorem signal_eligible_iff:
  assumes "generate_signal env rq s = (Inr sg, s')" "rq_decision_time rq = Some (Aware t)"
    and "op_get_run (sv_repository s) (sv_run_id s) = Some run"
  shows "(sig_disposition sg = SIGNAL_ELIGIBLE \<longleftrightarrow> sig_rejection_reason sg = None) \<and>
    (sig_rejection_reason sg = None \<longleftrightarrow>
       orn_collector_healthy run \<and> or_text (orn_signals_paused_reason run) [] = [] \<and>
       (\<exists>e. find_eligibility (sv_repository s) (sv_run_id s) (rq_strategy_id rq) (rq_strategy_version rq) = Some e \<and>
          orn_last_snapshot_id run = Some (elg_data_snapshot_id e) \<and> elg_status e = STRATEGY_ELIGIBLE \<and>
          elg_evaluated_at e \<le> t \<and> t \<le> elg_expires_at e) \<and>
       2 \<le> card (lsi_venue ` set (rq_events rq)) \<and> distinct (map lsi_event_id (rq_events rq)) \<and>
       list_all (clean_event (sv_operation_settings s) (rq_instrument rq) t) (rq_events rq)) \<and>
    0 < sig_quantity sg \<and>
    map_of (rp_signals (sv_repository s')) (sig_signal_id sg) =
      (case map_of (rp_signals (sv_repository s)) (sig_signal_id sg) of None \<Rightarrow> Some sg | Some old \<Rightarrow> Some old)"
proof -
  let ?elg = "find_eligibility (sv_repository s) (sv_run_id s) (rq_strategy_id rq) (rq_strategy_version rq)"
  have start: "decision_instant env (rq_decision_time rq) s = (Inr (Aware t), s)" "require_run s = (Inr run, s)"
    using assms(2,3) by (simp_all add: decision_instant_def returnO_def require_run_def)
  obtain rejection ident i where r: "signal_rejection (sv_operation_settings s) run ?elg (rq_events rq) (rq_instrument rq) (Aware t) = Inr rejection"
      and b: "build_signal env rq ?elg rejection ident (sv_run_id s) i = Inr sg"
      and s': "s' = s\<lparr>sv_repository := snd (add_signal sg (sv_repository s))\<rparr>"
    using assms(1) start by (auto simp: generate_signal_def Let_def bindS_Inr_iff op_identity_def)
  have sg: "sig_rejection_reason sg = rejection" "sig_disposition sg = signal_disposition rejection ?elg" "0 < sig_quantity sg"
    using b by (auto simp: build_signal_def PaperSignal_post_init_def not_le)
  have "signal_disposition rejection ?elg = SIGNAL_ELIGIBLE \<longleftrightarrow> rejection = None"
    by (simp add: signal_disposition_def split: option.splits)
  moreover have "rejection = None \<longleftrightarrow> orn_collector_healthy run \<and> or_text (orn_signals_paused_reason run) [] = [] \<and>
      (\<exists>e. ?elg = Some e \<and> orn_last_snapshot_id run = Some (elg_data_snapshot_id e) \<and> elg_status e = STRATEGY_ELIGIBLE \<and>
          elg_evaluated_at e \<le> t \<and> t \<le> elg_expires_at e) \<and>
      2 \<le> card (lsi_venue ` set (rq_events rq)) \<and> distinct (map lsi_event_id (rq_events rq)) \<and>
      list_all (clean_event (sv_operation_settings s) (rq_instrument rq) t) (rq_events rq)"
    by (rule signal_rejection_None [OF r])
  moreover have "map_of (rp_signals (sv_repository s')) (sig_signal_id sg) =
      (case map_of (rp_signals (sv_repository s)) (sig_signal_id sg) of None \<Rightarrow> Some sg | Some old \<Rightarrow> Some old)"
    by (simp add: s' add_signal_def split: option.splits)
  ultimately show ?thesis using sg by simp
qed

section \<open>Shadow candidates\<close>

definition record_all :: "(FundingCarryShadowCandidate \<times> bool \<times> bool) list \<Rightarrow> InMemoryOperationalRepository \<Rightarrow> InMemoryOperationalRepository" where
  "record_all records = fold (\<lambda>(c, matched, duplicate) r. snd (record_shadow_candidate c matched duplicate r)) records"

lemma metrics_count:
  "shadow_metrics (count_candidate c m d inserted j r) run i =
     (if run = ca_run_id c \<and> i = j then
        let current = shadow_metrics r run i in
        \<lparr>srm_run_id = ca_run_id c,
         srm_candidate_generation_attempt_count = srm_candidate_generation_attempt_count current + 1,
         srm_candidate_inserted_count = srm_candidate_inserted_count current + of_bool inserted,
         srm_candidate_rejected_count = srm_candidate_rejected_count current + of_bool (ca_disposition c = SHADOW_REJECTED),
         srm_candidate_duplicate_suppressed_count = srm_candidate_duplicate_suppressed_count current + of_bool (\<not> inserted),
         srm_source_pair_duplicate_count = srm_source_pair_duplicate_count current + of_bool d,
         srm_matched_source_pair_count = srm_matched_source_pair_count current + of_bool m\<rparr>
      else shadow_metrics r run i)"
  by (auto simp: count_candidate_def shadow_metrics_def Let_def)

lemma metrics_added: "shadow_metrics (snd (add_shadow_candidate c r)) run i = shadow_metrics r run i"
  by (simp add: add_shadow_candidate_def shadow_metrics_def)

lemma candidates_count [simp]: "rp_shadow_candidates (count_candidate c m d ins i r) = rp_shadow_candidates r"
  by (simp add: count_candidate_def Let_def)

lemma stored_step:
  "shadow_candidates (snd (record_shadow_candidate c m d r)) run =
     shadow_candidates r run @ (if fst (record_shadow_candidate c m d r) \<and> ca_run_id c = run then [c] else [])"
  by (auto simp: record_shadow_candidate_def add_shadow_candidate_def shadow_candidates_def dict_values_def dict_set_new
      map_of_eq_None_iff split: prod.splits)

lemma metrics_step:
  assumes "ca_instrument c \<noteq> []"
  shows "shadow_metrics (snd (record_shadow_candidate c m d r)) run i =
     (if run = ca_run_id c \<and> (i = [] \<or> i = ca_instrument c)
      then shadow_metrics (count_candidate c m d (fst (record_shadow_candidate c m d r)) i r) run i else shadow_metrics r run i)"
  using assms metrics_added [of c r run i]
  by (auto simp: record_shadow_candidate_def metrics_count Let_def split: prod.splits)

text \<open>
  C27. The metrics of the shadow evaluation agree with what was recorded: after any candidates, of a
  run there were as many attempts as candidates recorded for it, each either stored or counted as a
  suppressed duplicate; as many insertions as candidates are stored; as many rejections as were
  rejected; and the attempts per instrument are those of its candidates.
\<close>

theorem shadow_metrics_consistent:
  assumes "list_all (\<lambda>(c, _). ca_instrument c \<noteq> []) records" "r = record_all records empty_repository" "i \<noteq> []"
  shows "srm_candidate_generation_attempt_count (shadow_metrics r run []) = int (length (filter (\<lambda>(c, _). ca_run_id c = run) records)) \<and>
    srm_candidate_inserted_count (shadow_metrics r run []) + srm_candidate_duplicate_suppressed_count (shadow_metrics r run []) =
      srm_candidate_generation_attempt_count (shadow_metrics r run []) \<and>
    srm_candidate_inserted_count (shadow_metrics r run []) = int (length (shadow_candidates r run)) \<and>
    srm_candidate_rejected_count (shadow_metrics r run []) =
      int (length (filter (\<lambda>(c, _). ca_run_id c = run \<and> ca_disposition c = SHADOW_REJECTED) records)) \<and>
    srm_candidate_generation_attempt_count (shadow_metrics r run i) =
      int (length (filter (\<lambda>(c, _). ca_run_id c = run \<and> ca_instrument c = i) records))"
  using assms(1,2)
proof (induction records arbitrary: r rule: rev_induct)
  case Nil
  then show ?case by (simp add: record_all_def empty_repository_def shadow_metrics_def no_metrics_def shadow_candidates_def dict_values_def)
next
  case (snoc x records)
  obtain c m d where x: "x = (c, m, d)" using prod_cases3 by blast
  let ?r = "record_all records empty_repository"
  have r: "r = snd (record_shadow_candidate c m d ?r)" and c: "ca_instrument c \<noteq> []"
    using snoc.prems x by (simp_all add: record_all_def)
  have "list_all (\<lambda>(c, _). ca_instrument c \<noteq> []) records" using snoc.prems(1) by simp
  note IH = snoc.IH [OF this refl]
  show ?case using IH c assms(3) unfolding r x
    by (cases "run = ca_run_id c"; cases "i = ca_instrument c") (simp_all add: metrics_step metrics_count stored_step Let_def)
qed

section \<open>Disarmed\<close>

lemma validate_desk_iff:
  "validate_desk st cfg mode = Inr u \<longleftrightarrow> \<not> st_live_trading st \<and> \<not> lv_enabled (st_live st) \<and> st_paper_trading st \<and> st_paper_enabled st \<and>
     \<not> (mode = OBSERVATION_ONLY \<and> \<not> cp_observation_only cfg) \<and> \<not> (mode = STRICT_PAPER \<and> cp_observation_only cfg)"
  by (simp add: validate_desk_def)

text \<open>
  C23. A paper operation that starts is disarmed: its settings have live trading off, so the live
  preflight refuses every context; and unless it is observing only it runs in strict paper mode
  with the same configuration a restarted run was recorded with.
\<close>

theorem paper_operation_disarmed:
  assumes "ContinuousResearchPaperService_init env st cfg sq repository = (Inr (), s)"
  shows "\<not> pr_approved (evaluate_live_preflight st context) \<and> \<not> lv_enabled (st_live st) \<and>
    (sv_mode s = OBSERVATION_ONLY \<longleftrightarrow> cp_observation_only cfg) \<and>
    (case op_get_run repository (sq_run_id sq) of
       None \<Rightarrow> True
     | Some run \<Rightarrow> orn_commit_sha run = sq_commit_sha sq \<and> orn_config_sha256 run = sq_config_sha256 sq)"
proof -
  let ?mode = "operation_mode cfg sq" and ?s0 = "new_service cfg sq (operation_mode cfg sq) repository"
  obtain u where valid: "validate_startup st cfg sq ?mode = Inr u" and run: "restore_or_initialize env ?s0 = (Inr (), s)"
    using assms unfolding ContinuousResearchPaperService_init_def by (auto simp: bindS_Inr_iff)
  have s0: "sv_repository ?s0 = repository" "sv_run_id ?s0 = sq_run_id sq" "sv_commit_sha ?s0 = sq_commit_sha sq"
      "sv_config_sha256 ?s0 = sq_config_sha256 sq" "sv_mode ?s0 = ?mode" by (simp_all add: new_service_def)
  obtain v where "validate_desk st cfg ?mode = Inr v" using valid by (auto simp only: validate_startup_def bindE_Inr_iff)
  then have live: "\<not> st_live_trading st" "\<not> lv_enabled (st_live st)"
    and modes: "\<not> (?mode = OBSERVATION_ONLY \<and> \<not> cp_observation_only cfg)" "\<not> (?mode = STRICT_PAPER \<and> cp_observation_only cfg)"
    unfolding validate_desk_iff by simp_all
  have "?mode = OBSERVATION_ONLY \<longleftrightarrow> cp_observation_only cfg" using modes by (cases ?mode) auto
  moreover have "\<not> pr_approved (evaluate_live_preflight st context)"
    using live(1) by (simp add: evaluate_live_preflight_def preflight_checks_def Let_def)
  moreover have "keeps (\<lambda>s t. sv_fixed t = sv_fixed s) (restore_or_initialize env)" by (rule fixed.keeps_restore) simp
  then have "sv_fixed (snd (restore_or_initialize env ?s0)) = sv_fixed ?s0" unfolding keeps_def by (rule spec)
  then have "sv_fixed s = sv_fixed ?s0" unfolding run snd_conv .
  then have "sv_mode s = sv_mode ?s0" unfolding sv_fixed_def by (elim Pair_inject)
  then have "sv_mode s = ?mode" unfolding s0 .
  moreover have "case op_get_run repository (sq_run_id sq) of None \<Rightarrow> True
     | Some run \<Rightarrow> orn_commit_sha run = sq_commit_sha sq \<and> orn_config_sha256 run = sq_config_sha256 sq"
    using run by (auto simp: restore_or_initialize_def Let_def bindS_Inr_iff s0 split: option.splits)
  ultimately show ?thesis using live by simp
qed

section \<open>Promotion\<close>

lemma measured:
  assumes "measure_portfolio day fills p s = (Inr m, t)"
  shows "\<exists>d. pdm_net_pnl m = dsub (pfs_current_equity p) (pfs_initial_capital p) \<and> pdm_maximum_drawdown m = max 0 d \<and>
    div_dec (dsub (pfs_peak_equity p) (pfs_current_equity p)) (pfs_peak_equity p) = Inr d \<and>
    sv_run_id t = sv_run_id s \<and>
    rp_metrics (sv_repository t) = dict_set (sv_run_id s, pfs_portfolio_id p, day) m (rp_metrics (sv_repository s))"
  using assms
  by (auto simp: measure_portfolio_def bindS_Inr_iff report_identity_def op_identity_def require_run_def metric_of_def Let_def
      save_daily_metric_def OperationalIdentity_init_def split: option.splits)

lemma all_measured:
  assumes "mapO (measure_portfolio day fills) ps s = (Inr ms, t)" "distinct (map pfs_portfolio_id ps)" "p \<in> set ps"
  shows "\<exists>m d. map_of (rp_metrics (sv_repository t)) (sv_run_id s, pfs_portfolio_id p, day) = Some m \<and>
    pdm_net_pnl m = dsub (pfs_current_equity p) (pfs_initial_capital p) \<and> pdm_maximum_drawdown m = max 0 d \<and>
    div_dec (dsub (pfs_peak_equity p) (pfs_current_equity p)) (pfs_peak_equity p) = Inr d"
proof -
  have other: "map_of (rp_metrics (sv_repository t)) (run, q, day) = map_of (rp_metrics (sv_repository s)) (run, q, day)"
    if "mapO (measure_portfolio day fills) qs s = (Inr ms, t)" "q \<notin> set (map pfs_portfolio_id qs)" for qs s ms run q
    using that
  proof (induction qs arbitrary: s ms)
    case (Cons x qs)
    from Cons.prems obtain m s1 ns where "measure_portfolio day fills x s = (Inr m, s1)" "mapO (measure_portfolio day fills) qs s1 = (Inr ns, t)"
      by (auto simp: bindS_Inr_iff)
    then show ?case using Cons.IH [of s1 ns] Cons.prems(2) measured [of day fills x s m s1] by auto
  qed simp
  show ?thesis using assms
  proof (induction ps arbitrary: s ms)
    case (Cons x ps)
    from Cons.prems(1) obtain m s1 ns where x: "measure_portfolio day fills x s = (Inr m, s1)"
        and xs: "mapO (measure_portfolio day fills) ps s1 = (Inr ns, t)"
      by (auto simp: bindS_Inr_iff)
    from measured [OF x] obtain d where m: "pdm_net_pnl m = dsub (pfs_current_equity x) (pfs_initial_capital x)" "pdm_maximum_drawdown m = max 0 d"
        "div_dec (dsub (pfs_peak_equity x) (pfs_current_equity x)) (pfs_peak_equity x) = Inr d" "sv_run_id s1 = sv_run_id s"
        "rp_metrics (sv_repository s1) = dict_set (sv_run_id s, pfs_portfolio_id x, day) m (rp_metrics (sv_repository s))"
      by blast
    show ?case
    proof (cases "p = x")
      case True
      have "map_of (rp_metrics (sv_repository t)) (sv_run_id s, pfs_portfolio_id x, day) = Some m"
        using other [OF xs, of "pfs_portfolio_id x"] Cons.prems(2) m(5) by simp
      then show ?thesis using m True by blast
    next
      case False
      then show ?thesis using Cons.IH [OF xs] Cons.prems(2,3) m(4) by simp
    qed
  qed simp
qed

lemma identified: "report_identity day s = (Inr ident, t) \<Longrightarrow> t = s"
  by (auto simp: report_identity_def bindS_Inr_iff require_run_def op_identity_def split: option.splits)

lemma attributed:
  assumes "attribute_portfolio ax day signals fills p s = (Inr a, t)"
  shows "rp_metrics (sv_repository t) = rp_metrics (sv_repository s) \<and> sv_fixed t = sv_fixed s"
proof -
  obtain ident where "t = s\<lparr>sv_repository := save_attribution a (sv_repository s)\<rparr>"
    using assms unfolding attribute_portfolio_def bindS_Inr_iff Let_def by (auto dest!: identified)
  then show ?thesis by (simp add: save_attribution_def sv_fixed_def)
qed

lemma attribution_keeps:
  assumes "compute_attribution ax day s = (Inr as, t)"
  shows "rp_metrics (sv_repository t) = rp_metrics (sv_repository s) \<and> sv_fixed t = sv_fixed s"
proof -
  have "rp_metrics (sv_repository t) = rp_metrics (sv_repository s) \<and> sv_fixed t = sv_fixed s"
    if "mapO (attribute_portfolio ax day signals fills) ps s = (Inr as, t)" for signals fills ps s as
    using that
  proof (induction ps arbitrary: s as)
    case (Cons p ps)
    from Cons.prems obtain a s1 bs where "attribute_portfolio ax day signals fills p s = (Inr a, s1)"
        "mapO (attribute_portfolio ax day signals fills) ps s1 = (Inr bs, t)"
      unfolding mapO.simps bindS_Inr_iff opE by blast
    then show ?case using Cons.IH [of s1 bs] attributed [of ax day signals fills p s a s1] by simp
  qed simp
  from this [OF assms [unfolded compute_attribution_def]] show ?thesis .
qed

text \<open>
  C22. Promotion is earned: a daily report that calls the operation eligible for a review of micro-live
  trading is one of a strict paper operation with at least thirty accepted signals, in which every
  portfolio stands in profit and its drawdown is within the limit.
\<close>

theorem promotion_earned:
  assumes "service_ok s" "generate_daily_report day s = (Inr report, t)"
    and "dr_promotion_verdict report = ELIGIBLE_FOR_MICRO_LIVE_REVIEW" "p \<in> set (dict_values (sv_portfolio_states s))"
  shows "sv_mode s = STRICT_PAPER \<and> 30 \<le> length (filter (\<lambda>g. sig_rejection_reason g = None) (signals_of (sv_repository t) (sv_run_id s))) \<and>
    pfs_initial_capital p < pfs_current_equity p \<and>
    ddiv (dsub (pfs_peak_equity p) (pfs_current_equity p)) (pfs_peak_equity p) \<le> cp_maximum_drawdown (sv_operation_settings s)"
proof -
  obtain run i ms s1 as fills signals where ms: "mapO (measure_portfolio day fills) (dict_values (sv_portfolio_states s)) s = (Inr ms, s1)"
      and as: "compute_attribution default_expectation day s1 = (Inr as, t)"
      and report: "report = report_of run i day signals fills ms as t"
    using assms(2) unfolding generate_daily_report_def
    by (auto simp: bindS_Inr_iff require_run_def Let_def split: option.splits)
  have "keeps (\<lambda>s t. sv_fixed t = sv_fixed s) (mapO (measure_portfolio day fills) (dict_values (sv_portfolio_states s)))"
    by (intro fixed.keeps_map fixed.keeps_measure)
  from fixed.keepsD [OF this, of s] have s1: "sv_fixed s1 = sv_fixed s" unfolding ms snd_conv .
  note at = attribution_keeps [OF as]
  have "sv_fixed t = sv_fixed s" using s1 at by simp
  then have t: "sv_run_id t = sv_run_id s" "sv_mode t = sv_mode s" "sv_operation_settings t = sv_operation_settings s"
    by (simp_all add: sv_fixed_def)
  have verdict: "promotion_verdict 30 t = ELIGIBLE_FOR_MICRO_LIVE_REVIEW" using assms(3) unfolding report by (simp add: report_of_def Let_def)
  have keyed: "keyed pfs_portfolio_id (sv_portfolio_states s)" using assms(1) by (simp add: service_ok_def)
  have "map pfs_portfolio_id (dict_values d) = map fst d" if "keyed pfs_portfolio_id d" for d
    using that by (auto simp: keyed_def dict_values_def)
  from this [OF keyed] have "distinct (map pfs_portfolio_id (dict_values (sv_portfolio_states s)))" using keyed by (simp add: keyed_def dict_ok_def)
  from all_measured [OF ms this assms(4)] obtain m d where m: "map_of (rp_metrics (sv_repository t)) (sv_run_id s, pfs_portfolio_id p, day) = Some m"
      "pdm_net_pnl m = dsub (pfs_current_equity p) (pfs_initial_capital p)" "pdm_maximum_drawdown m = max 0 d"
      "div_dec (dsub (pfs_peak_equity p) (pfs_current_equity p)) (pfs_peak_equity p) = Inr d"
    using at by auto
  have "((sv_run_id s, pfs_portfolio_id p, day), m) \<in> set (rp_metrics (sv_repository t))" by (rule map_of_SomeD [OF m(1)])
  then have "m \<in> set (daily_metrics (sv_repository t) (sv_run_id t))" unfolding daily_metrics_def t by force
  then have "0 < pdm_net_pnl m" "pdm_maximum_drawdown m \<le> cp_maximum_drawdown (sv_operation_settings s)"
    using verdict t by (auto simp: promotion_verdict_def Let_def list_ex_iff not_le split: if_splits)
  moreover have "sv_mode s = STRICT_PAPER" using verdict t by (cases "sv_mode s") (auto simp: promotion_verdict_def Let_def split: if_splits)
  moreover have "30 \<le> length (filter (\<lambda>g. sig_rejection_reason g = None) (signals_of (sv_repository t) (sv_run_id s)))"
    using verdict t by (auto simp: promotion_verdict_def Let_def split: if_splits)
  ultimately show ?thesis using m(2-4) by (auto simp: div_dec_def dec_sign split: if_splits)
qed

section \<open>Where the books and the portfolios part ways\<close>

lemma bindS_run: "m s = (Inr x, s1) \<Longrightarrow> bindS m f s = f x s1"
  by (simp add: bindS_def)

lemma risk_portfolio:
  assumes "evaluate_portfolio_risk env ident st s = (Inr u, t)"
  shows "(risk_halt env (sv_operation_settings s) st = Inr None \<and> sv_portfolio_states t = sv_portfolio_states s) \<or>
    (\<exists>h reason. risk_halt env (sv_operation_settings s) st = Inr (Some (h, reason)) \<and>
       sv_portfolio_states t = dict_set (pfs_portfolio_id st) (st\<lparr>pfs_halted := True, pfs_halt_reason := Some reason\<rparr>) (sv_portfolio_states s))"
proof -
  obtain h where h: "risk_halt env (sv_operation_settings s) st = Inr h"
    using assms by (auto simp: evaluate_portfolio_risk_def bindS_Inr_iff)
  show ?thesis using assms h
    by (cases h) (auto simp: evaluate_portfolio_risk_def bindS_Inr_iff set_portfolio_def)
qed

lemma applied_portfolio:
  assumes "op_apply_fill env sg st fill s = (Inr u, t)"
  shows "\<exists>p. map_of (sv_portfolio_states t) (pfs_portfolio_id st) = Some p \<and>
    pfs_cash p = dadd (pfs_cash st) (dsub (pfi_rebate_received fill) (pfi_fee_paid fill)) \<and>
    (pfs_halted p \<longleftrightarrow> pfs_halted st \<or> risk_halt env (sv_operation_settings s)
       (st\<lparr>pfs_cash := pfs_cash p, pfs_current_equity := pfs_cash p, pfs_peak_equity := max (pfs_peak_equity st) (pfs_cash p)\<rparr>) \<noteq> Inr None)"
  using assms unfolding op_apply_fill_def Let_def
  by (auto simp: bindS_Inr_iff set_portfolio_def fill_cash_entry_def Let_def dest!: risk_portfolio)

text \<open>
  \<open>execute_signal\<close> hands the same \<open>PortfolioState\<close> to both legs of a portfolio. The fill of the second
  leg therefore starts from the cash before the first: the cost of the first leg is forgotten, and
  so is a halt that the first leg caused, unless the second alone causes one again.
\<close>

theorem second_leg_forgets_first:
  assumes "op_apply_fill env sg st fill1 s = (Inr (), s1)" "op_apply_fill env sg st fill2 s1 = (Inr (), s2)"
  shows "\<exists>p. map_of (sv_portfolio_states s2) (pfs_portfolio_id st) = Some p \<and>
    pfs_cash p = dadd (pfs_cash st) (dsub (pfi_rebate_received fill2) (pfi_fee_paid fill2)) \<and>
    (pfs_halted p \<longleftrightarrow> pfs_halted st \<or> risk_halt env (sv_operation_settings s1)
       (st\<lparr>pfs_cash := pfs_cash p, pfs_current_equity := pfs_cash p, pfs_peak_equity := max (pfs_peak_equity st) (pfs_cash p)\<rparr>) \<noteq> Inr None)"
  by (rule applied_portfolio [OF assms(2)])

text \<open>
  Funding settled twice for the same time is written to the ledgers once but charged to the
  portfolio twice.
\<close>

theorem funding_settled_twice:
  assumes "settle_funding env q v i rate mark (Some t) s = (Inr a, s1)" "settle_funding env q v i rate mark (Some t) s1 = (Inr b, s2)"
    and "find_paper_position (sv_repository s) (sv_run_id s) q v i = Some y" "map_of (sv_portfolio_states s1) q = Some p1"
  shows "rp_cash (sv_repository s2) = rp_cash (sv_repository s1) \<and> rp_funding (sv_repository s2) = rp_funding (sv_repository s1) \<and>
    (find_paper_position (sv_repository s1) (sv_run_id s1) q v i \<noteq> None \<longrightarrow>
      (\<exists>p2. map_of (sv_portfolio_states s2) q = Some p2 \<and> pfs_cash p2 = dadd (pfs_cash p1) b))"
  using assms
  by (auto simp: settle_funding_def bindS_Inr_iff Let_def add_cash_entry_def add_funding_entry_def save_position_def
      dict_setdefault_def split: option.splits)

text \<open>
  The signal tick asks for the relative-strength signal on \<open>BTC\<close> with the order books of \<open>BTC\<close> and \<open>SOL\<close>,
  or with none; the rejection rules want every source event on the instrument of the signal. So the
  strategy never gets an eligible signal.
\<close>

theorem relative_strength_never_eligible:
  assumes "generate_signal env (tick_request ''btc_sol_relative_strength'' ''BTC'' (relative_events latest) t) s = (Inr sg, s')"
  shows "sig_rejection_reason sg \<noteq> None"
proof
  assume none: "sig_rejection_reason sg = None"
  let ?rq = "tick_request ''btc_sol_relative_strength'' ''BTC'' (relative_events latest) t" and ?es = "relative_events latest"
  have rq: "rq_events ?rq = ?es" "rq_instrument ?rq = ''BTC''" "rq_decision_time ?rq = Some (Aware t)" by (simp_all add: tick_request_def)
  obtain run elg rejection ident i where r: "signal_rejection (sv_operation_settings s) run elg ?es ''BTC'' (Aware t) = Inr rejection"
      and b: "build_signal env ?rq elg rejection ident (sv_run_id s) i = Inr sg"
    using assms unfolding generate_signal_def rq
    by (auto simp: Let_def bindS_Inr_iff op_identity_def decision_instant_def require_run_def split: option.splits)
  have "rejection = None" using b none by (auto simp: build_signal_def PaperSignal_post_init_def)
  then have e: "2 \<le> card (lsi_venue ` set ?es)" "list_all (clean_event (sv_operation_settings s) ''BTC'' t) ?es"
    using signal_rejection_None [OF r] by simp_all
  have "?es \<noteq> []" using e(1) by auto
  then have "set (map lsi_instrument ?es) = {''BTC'', ''SOL''}" by (auto simp: relative_events_def Let_def split: if_splits)
  then have "''SOL'' \<in> lsi_instrument ` set ?es" unfolding set_map by (elim ssubst) simp
  then obtain x where "x \<in> set ?es" "lsi_instrument x = ''SOL''" by (elim imageE) simp
  then show False using e(2) by (auto simp: list_all_iff clean_event_def)
qed

text \<open>
  A trade that closes a position realizes nothing: whatever the prices, the realized profit of the
  position stays and the equity of the portfolio changes by the fee and the rebate alone, so the limits
  on the daily loss and the drawdown never see a loss of the market.
\<close>

theorem closing_trade_realizes_nothing:
  assumes "op_apply_fill env sg st fill s = (Inr (), t)" "run = oid_run_id (sig_identity sg)"
    and "find_paper_position (sv_repository s) (sv_run_id s) (pfs_portfolio_id st) (pfi_venue fill) (pfi_instrument fill) = Some old"
  shows "\<exists>x p. map_of (rp_positions (sv_repository t)) (run, pfs_portfolio_id st, pfi_venue fill, pfi_instrument fill) = Some x \<and>
    ppo_realized_pnl x = ppo_realized_pnl old \<and> ppo_unrealized_pnl x = 0 \<and>
    map_of (sv_portfolio_states t) (pfs_portfolio_id st) = Some p \<and>
    pfs_current_equity p = dadd (pfs_cash st) (dsub (pfi_rebate_received fill) (pfi_fee_paid fill))"
proof -
  let ?x = "filled_position sg st fill (Some old)" and ?cash = "dadd (pfs_cash st) (dsub (pfi_rebate_received fill) (pfi_fee_paid fill))"
  let ?u = "st\<lparr>pfs_cash := ?cash, pfs_current_equity := ?cash, pfs_peak_equity := max (pfs_peak_equity st) ?cash\<rparr>"
  let ?ce = "fill_cash_entry sg st fill"
  let ?r = "add_cash_entry ?ce (save_position ?x (sv_repository s))"
  define s1 where "s1 = s\<lparr>sv_repository := ?r, sv_portfolio_states := dict_set (pfs_portfolio_id st) ?u (sv_portfolio_states s)\<rparr>"
  have "pca_balance_after ?ce = ?cash" by (simp add: fill_cash_entry_def Let_def)
  then have risk: "evaluate_portfolio_risk env (sig_identity sg) ?u s1 = (Inr (), t)"
    using assms(1) unfolding op_apply_fill_def Let_def assms(3) s1_def by (simp add: bindS_def modify_repository_def set_portfolio_def)
  have "rp_positions ?r = dict_set (run, pfs_portfolio_id st, pfi_venue fill, pfi_instrument fill) ?x (rp_positions (sv_repository s))"
    by (simp add: add_cash_entry_def save_position_def filled_position_def Let_def assms(2))
  then have s1: "map_of (rp_positions (sv_repository s1)) (run, pfs_portfolio_id st, pfi_venue fill, pfi_instrument fill) = Some ?x"
      "map_of (sv_portfolio_states s1) (pfs_portfolio_id st) = Some ?u"
    by (simp_all add: s1_def)
  have "rp_positions (sv_repository t) = rp_positions (sv_repository s1)"
    using risk by (auto simp: evaluate_portfolio_risk_def bindS_Inr_iff set_portfolio_def add_risk_event_def split: option.splits prod.splits)
  then have "map_of (rp_positions (sv_repository t)) (run, pfs_portfolio_id st, pfi_venue fill, pfi_instrument fill) = Some ?x" using s1 by simp
  moreover have "\<exists>p. map_of (sv_portfolio_states t) (pfs_portfolio_id st) = Some p \<and> pfs_current_equity p = ?cash"
    using risk_portfolio [OF risk] s1 by auto
  ultimately show ?thesis by (auto simp: filled_position_def Let_def)
qed

text \<open>A restart lifts every halt: whatever risk events are on record, no portfolio starts halted.\<close>

definition unhalted :: "ContinuousResearchPaperService \<Rightarrow> bool" where
  "unhalted s \<longleftrightarrow> (\<forall>(k, p)\<in>set (sv_portfolio_states s). \<not> pfs_halted p)"

lemma bind_inv: "(\<And>s. I s \<Longrightarrow> I (snd (m s))) \<Longrightarrow> (\<And>x s. I s \<Longrightarrow> I (snd (f x s))) \<Longrightarrow> I s \<Longrightarrow> I (snd (bindS m f s))"
proof -
  assume m: "\<And>s. I s \<Longrightarrow> I (snd (m s))" and f: "\<And>x s. I s \<Longrightarrow> I (snd (f x s))" and s: "I s"
  obtain r s1 where ms: "m s = (r, s1)" by (cases "m s")
  have "I s1" using m [OF s] ms by simp
  then show ?thesis using f ms by (cases r) (simp_all add: bindS_def)
qed

lemma for_inv: "(\<And>x s. I s \<Longrightarrow> I (snd (f x s))) \<Longrightarrow> I s \<Longrightarrow> I (snd (forO f xs s))"
proof (induction xs arbitrary: s)
  case (Cons x xs)
  then show ?case by (auto intro!: bind_inv [of I])
qed simp

lemma unhalted_set: "unhalted s \<Longrightarrow> \<not> pfs_halted p \<Longrightarrow> unhalted (s\<lparr>sv_portfolio_states := dict_set k p (sv_portfolio_states s)\<rparr>)"
  unfolding unhalted_def using dict_set_all [of "sv_portfolio_states s" "\<lambda>k p. \<not> pfs_halted p" k p] by simp

lemma unhalted_other: "sv_portfolio_states t = sv_portfolio_states s \<Longrightarrow> unhalted s \<Longrightarrow> unhalted t"
  by (simp add: unhalted_def)

lemma unhalted_lookup: "unhalted s \<Longrightarrow> map_of (sv_portfolio_states s) k = Some p \<Longrightarrow> \<not> pfs_halted p"
  by (auto simp: unhalted_def dest: map_of_SomeD)

lemma open_unhalted: "unhalted s \<Longrightarrow> unhalted (snd (open_portfolio env entries t capital s))"
proof -
  assume s: "unhalted s"
  obtain es where es: "unhalted (s\<lparr>sv_portfolio_states := dict_set (pfs_portfolio_id (initial_portfolio env es capital))
      (initial_portfolio env es capital) (sv_portfolio_states s)\<rparr>)" "es = filter (\<lambda>e. pca_portfolio_id e = ''usd-'' @ en_dec_text env capital) entries"
    using unhalted_set [OF s] by (simp add: initial_portfolio_def Let_def)
  then show ?thesis unfolding open_portfolio_def Let_def
    by (auto simp: bindS_def set_portfolio_def returnO_def op_identity_def modify_repository_def split: sum.splits
        intro: unhalted_other [rotated])
qed

lemma restore_unhalted: "unhalted s \<Longrightarrow> unhalted (snd (restore_position p s))"
  by (auto simp: restore_position_def Let_def dest: unhalted_lookup intro!: unhalted_set split: option.split)

theorem restart_lifts_halts:
  assumes "ContinuousResearchPaperService_init env st cfg sq repository = (answer, s)"
  shows "\<not> halted_in q s"
proof -
  let ?s0 = "new_service cfg sq (operation_mode cfg sq) repository"
  have s0: "unhalted ?s0" by (simp add: unhalted_def new_service_def)
  have "unhalted (snd (restore_or_initialize env ?s0))"
    unfolding restore_or_initialize_def Let_def using s0
    by (intro bind_inv [of unhalted] for_inv [of unhalted] open_unhalted restore_unhalted)
      (auto simp: read_clock_def modify_repository_def liftO_def intro: unhalted_other split: option.splits)
  then have "unhalted s" using assms s0
    by (auto simp: ContinuousResearchPaperService_init_def bindS_def liftO_def split: sum.splits)
  then show ?thesis using unhalted_lookup by (auto simp: halted_in_def)
qed

end
