(* ===== verification/Operations_Examples.thy ===== *)
theory Operations_Examples
  imports Operations_Guarantees
begin

text \<open>
  A small paper operation, run on concrete inputs: it starts, takes a signal, fills it, halts. It
  shows that the guarantees apply.
\<close>

definition demo_service_env :: service_env where
  "demo_service_env =
     \<lparr>en_clock = (\<lambda>n. int n * 1000), en_dec_text = (\<lambda>_. ''100''), en_isoformat = (\<lambda>_. ''t''), en_signal_digest = (\<lambda>_. ''sig''),
      en_signal_hash = (\<lambda>_. ''h''), en_sha256 = (\<lambda>t. t)\<rparr>"

definition demo_paper_config :: ContinuousPaperSettings where
  "demo_paper_config =
     \<lparr>cp_observation_only = False, cp_mode = ''paper'', cp_venues = [''hyperliquid'', ''bitget''], cp_instruments = [''BTC''],
      cp_strategies = [''funding_carry''], cp_daily_report_hour_utc = 0, cp_daily_report_minute_utc = 0,
      cp_eligibility_ttl_seconds = 3600, cp_source_event_max_age_seconds = 30, cp_funding_max_age_seconds = None,
      cp_funding_max_observation_skew_seconds = None, cp_maximum_orderbook_venue_skew_seconds = 5,
      cp_maximum_venue_timestamp_skew_seconds = 5, cp_minimum_data_quality = 9 / 10, cp_shadow_notional = 100,
      cp_minimum_shadow_net_edge = 0, cp_shadow_venue_taker_fee_rates = [], cp_initial_capitals = [100],
      cp_maximum_single_trade_risk = 1 / 100, cp_maximum_venue_exposure = 1 / 2, cp_maximum_instrument_exposure = 1 / 2,
      cp_maximum_daily_loss = 1 / 50, cp_maximum_drawdown = 1 / 10\<rparr>"

definition demo_service_request :: service_request where
  "demo_service_request =
     \<lparr>sq_run_id = ''run'', sq_commit_sha = ''c'', sq_config_sha256 = ''d'', sq_mode = None, sq_local_smoke = True,
      sq_database_url = ''sqlite://'', sq_durable = False, sq_poll_interval_seconds = 10, sq_has_collector_health_action = False\<rparr>"

definition demo_desk :: Settings where
  "demo_desk = demo_settings\<lparr>st_paper_trading := True, st_live_trading := False, st_paper_enabled := True,
     st_live := (st_live demo_settings)\<lparr>lv_enabled := False\<rparr>\<rparr>"

definition demo_start :: "(unit, ContinuousResearchPaperService) outcome" where
  "demo_start = ContinuousResearchPaperService_init demo_service_env demo_desk demo_paper_config demo_service_request empty_repository"

definition desk_service :: ContinuousResearchPaperService where
  "desk_service = snd demo_start"

lemma demo_starts: "fst demo_start = Inr ()"
  unfolding demo_start_def by code_simp

lemma demo_started: "ContinuousResearchPaperService_init demo_service_env demo_desk demo_paper_config demo_service_request empty_repository =
    (Inr (), desk_service)"
  using demo_starts by (metis desk_service_def demo_start_def prod.collapse)

lemma empty_repository_ok: "repository_ok empty_repository"
  by (simp add: repository_ok_def empty_repository_def dict_ok_def)

definition demo_days :: "service_call list" where
  "demo_days = [Call_health True None, Call_bind_snapshot ''snap'' [], Tick_signal, Tick_execution, Tick_risk]"

theorem service_state_well_formed_witness:
  "service_ok (fold (service_step demo_service_env) demo_days desk_service)"
  by (rule service_state_well_formed [OF empty_repository_ok demo_started])

theorem paper_operation_disarmed_witness:
  "\<not> pr_approved (evaluate_live_preflight demo_desk demo_context) \<and> sv_mode desk_service = STRICT_PAPER"
  using paper_operation_disarmed [OF demo_started, of demo_context] by (cases "sv_mode desk_service") (simp_all add: demo_paper_config_def)

section \<open>A halt\<close>

definition demo_system :: OperationalIdentity where
  "demo_system =
     \<lparr>oid_run_id = ''run'', oid_strategy_id = ''SYSTEM'', oid_strategy_version = ''0'', oid_data_snapshot_id = ''UNASSIGNED'',
      oid_research_run_id = ''UNASSIGNED'', oid_created_at = 0, oid_commit_sha = ''c'', oid_config_sha256 = ''d''\<rparr>"

text \<open>The portfolio loses a tenth.\<close>

definition demo_halted :: ContinuousResearchPaperService where
  "demo_halted = service_step demo_service_env (Call_force ''usd-100'' 90 demo_system) desk_service"

lemma demo_halt: "halted_in ''usd-100'' demo_halted"
proof -
  have "map_option pfs_halted (map_of (sv_portfolio_states demo_halted) ''usd-100'') = Some True"
    unfolding demo_halted_def by code_simp
  then show ?thesis by (auto simp: halted_in_def)
qed

theorem halted_portfolio_frozen_witness:
  "halted_in ''usd-100'' demo_halted \<and> halted_in ''usd-100'' (fold (service_step demo_service_env) demo_days demo_halted)"
proof -
  have "service_ok desk_service" by (rule started_ok [OF empty_repository_ok demo_started])
  then have "service_ok demo_halted"
    using wf.R_step [of desk_service demo_service_env "Call_force ''usd-100'' 90 demo_system"] by (simp add: keeps_ok_def demo_halted_def)
  from halted_portfolio_frozen [OF this demo_halt refl] show ?thesis using demo_halt by blast
qed

section \<open>A signal and its orders\<close>

definition demo_event :: "string \<Rightarrow> string \<Rightarrow> LiveSignalInput" where
  "demo_event ident venue =
     \<lparr>lsi_event_id = ident, lsi_venue = venue, lsi_instrument = ''BTC'', lsi_event_type = ''orderbook_snapshot'',
      lsi_available_at = 2000, lsi_data_quality_score = 1, lsi_capability_support = ''live_verified'',
      lsi_reconciliation_state = Some ''synchronized'', lsi_bid = Some 9, lsi_ask = Some 10, lsi_bid_size = Some 100,
      lsi_ask_size = Some 100, lsi_funding_rate = None, lsi_bids = [], lsi_asks = [], lsi_funding_unit = None,
      lsi_funding_interval_seconds = None, lsi_next_funding_at = None, lsi_source_timestamp = None, lsi_received_at = None,
      lsi_source_event_id = None, lsi_applied_source_event_ids = [], lsi_source_table = ''raw_market_events'', lsi_normalizer_version = ''1'',
      lsi_connection_epoch = None, lsi_sequence = None, lsi_state_hash = None, lsi_timestamp_semantic = None,
      lsi_exchange_timestamp = None, lsi_freshness_age_seconds = None\<rparr>"

abbreviation desk_events :: "LiveSignalInput list" where
  "desk_events \<equiv> [demo_event ''e1'' ''hyperliquid'', demo_event ''e2'' ''bitget'']"

definition demo_research :: ScheduledResearchOutcome where
  "demo_research =
     \<lparr>sro_strategy_id = ''funding_carry'', sro_strategy_version = ''1'', sro_research_run_id = ''res'', sro_research_verdict = ''PASS'',
      sro_data_quality_passed = True, sro_capital_feasible = True, sro_evidence_complete = True\<rparr>"

definition demo_ready :: ContinuousResearchPaperService where
  "demo_ready = fold (service_step demo_service_env)
     [Call_health True None, Call_bind_snapshot ''snap'' [], Call_refresh demo_research ''snap''] desk_service"

definition demo_signal_request :: signal_request where
  "demo_signal_request = (tick_request ''funding_carry'' ''BTC'' desk_events 5000)\<lparr>rq_quantity := 1\<rparr>"

definition desk_signal :: PaperSignal where
  "desk_signal = (case fst (generate_signal demo_service_env demo_signal_request demo_ready) of Inr sg \<Rightarrow> sg)"

definition desk_run :: OperationalRun where
  "desk_run = the (op_get_run (sv_repository demo_ready) (sv_run_id demo_ready))"

lemma demo_generated: "\<exists>s'. generate_signal demo_service_env demo_signal_request demo_ready = (Inr desk_signal, s')"
proof -
  have "(case fst (generate_signal demo_service_env demo_signal_request demo_ready) of Inr _ \<Rightarrow> True | Inl _ \<Rightarrow> False)" by code_simp
  then show ?thesis unfolding desk_signal_def
    by (cases "generate_signal demo_service_env demo_signal_request demo_ready") (auto split: sum.splits)
qed

theorem signal_eligible_iff_witness:
  "sig_disposition desk_signal = SIGNAL_ELIGIBLE \<and> 0 < sig_quantity desk_signal \<and> orn_collector_healthy desk_run"
proof -
  from demo_generated obtain s' where g: "generate_signal demo_service_env demo_signal_request demo_ready = (Inr desk_signal, s')" by blast
  have t: "rq_decision_time demo_signal_request = Some (Aware 5000)" by (simp add: demo_signal_request_def tick_request_def)
  have "op_get_run (sv_repository demo_ready) (sv_run_id demo_ready) \<noteq> None" by code_simp
  then have r: "op_get_run (sv_repository demo_ready) (sv_run_id demo_ready) = Some desk_run" unfolding desk_run_def by simp
  have "sig_disposition desk_signal = SIGNAL_ELIGIBLE" by code_simp
  then show ?thesis using signal_eligible_iff [OF g t r] by blast
qed

text \<open>A desk with one portfolio and an eligible strategy; one leg of a signal fills.\<close>

definition small_identity :: OperationalIdentity where
  "small_identity =
     \<lparr>oid_run_id = ''r'', oid_strategy_id = ''f'', oid_strategy_version = ''1'', oid_data_snapshot_id = ''s'',
      oid_research_run_id = ''x'', oid_created_at = 0, oid_commit_sha = ''c'', oid_config_sha256 = ''d''\<rparr>"

definition small_signal :: PaperSignal where
  "small_signal =
     \<lparr>sig_identity = small_identity, sig_signal_id = ''g'', sig_decision_time = 0, sig_venue_legs = [''v''], sig_instrument = ''B'',
      sig_side = BUY, sig_quantity = 1, sig_expected_gross_edge = 0, sig_expected_net_edge = 0, sig_expected_fee = 0,
      sig_expected_rebate = 0, sig_expected_funding = 0, sig_expected_slippage = 0, sig_expected_impact = 0,
      sig_required_capabilities = [], sig_source_event_ids = [], sig_disposition = SIGNAL_ELIGIBLE, sig_rejection_reason = None,
      sig_full_signal_hash = []\<rparr>"

definition small_eligibility :: StrategyEligibilityRecord where
  "small_eligibility =
     \<lparr>elg_strategy_id = ''f'', elg_strategy_version = ''1'', elg_status = STRATEGY_ELIGIBLE, elg_research_run_id = ''x'',
      elg_data_snapshot_id = ''s'', elg_evaluated_at = 0, elg_expires_at = 100, elg_reasons = [],
      elg_capital_feasibility_status = CAPITAL_FEASIBLE\<rparr>"

definition small_portfolio :: PortfolioState where
  "small_portfolio =
     \<lparr>pfs_portfolio_id = ''p'', pfs_initial_capital = 100, pfs_cash = 100, pfs_peak_equity = 100, pfs_current_equity = 100,
      pfs_daily_start_equity = 100, pfs_halted = False, pfs_halt_reason = None\<rparr>"

definition small_service :: ContinuousResearchPaperService where
  "small_service =
     \<lparr>sv_repository = save_eligibility ''r'' small_eligibility empty_repository, sv_operation_settings = demo_paper_config,
      sv_run_id = ''r'', sv_commit_sha = ''c'', sv_config_sha256 = ''d'', sv_mode = STRICT_PAPER,
      sv_has_collector_health_action = False, sv_collector_health = unevaluated_health,
      sv_latest_events = [], sv_shadow_input_batches = [], sv_portfolio_states = [(''p'', small_portfolio)],
      sv_shadow_evaluators = [], sv_stop_event = False, sv_readings = 0\<rparr>"

definition small_execution :: execution_params where
  "small_execution = default_execution_params\<lparr>xp_taker_fee_rate := 0, xp_impact_bps := 0\<rparr>"

definition small_quotes :: "LiveSignalInput list" where
  "small_quotes = [demo_event ''e'' ''v'']"

definition small_order :: PaperOrderRecord where
  "small_order = leg_order small_signal small_portfolio ''receive_leg'' ''v'' 1 ''filled'' 1000 201000 None"

lemma small_leg:
  "leg_refusal demo_paper_config small_execution small_signal 1 small_portfolio 10 = None"
  "min (sig_quantity small_signal) (dmul 100 (xp_maximum_participation small_execution)) = 1"
  "order_status None 1 (sig_quantity small_signal) = ''filled''" "xp_latency_ms small_execution = 200"
  by code_simp+

lemma small_applied:
  assumes "sv_operation_settings s = demo_paper_config"
  shows "\<exists>t. op_apply_fill demo_service_env small_signal small_portfolio (leg_fill small_execution small_signal small_order 10) s = (Inr (), t)"
proof -
  have cash: "pca_balance_after (fill_cash_entry small_signal small_portfolio (leg_fill small_execution small_signal small_order 10)) = 100"
    by code_simp
  have risk: "risk_halt demo_service_env demo_paper_config
      (small_portfolio\<lparr>pfs_cash := 100, pfs_current_equity := 100, pfs_peak_equity := max (pfs_peak_equity small_portfolio) 100\<rparr>) = Inr None"
    by code_simp
  show ?thesis unfolding op_apply_fill_def Let_def cash
    by (simp add: bindS_def modify_repository_def set_portfolio_def evaluate_portfolio_risk_def assms risk liftO_def returnO_def)
qed

lemma small_executed:
  "\<exists>t. execute_signal demo_service_env small_execution small_signal small_quotes small_service = (Inr [small_order], t)"
proof -
  have mode: "sv_mode small_service = STRICT_PAPER" "sig_rejection_reason small_signal = None" "sig_venue_legs small_signal = [''v'']"
    "sv_operation_settings small_service = demo_paper_config" "dict_values (sv_portfolio_states small_service) = [small_portfolio]"
    "sv_readings small_service = 0" "pfs_halted small_portfolio = False" "sig_side small_signal = BUY" "xp_fail_leg_role small_execution = None"
    by (simp_all add: small_service_def small_signal_def dict_values_def small_portfolio_def small_execution_def default_execution_params_def)
  have e: "List.find (\<lambda>e. elg_strategy_id e = oid_strategy_id (sig_identity small_signal)) (eligibility (sv_repository small_service) (sv_run_id small_service)) =
      Some small_eligibility" "valid_at small_eligibility (Aware 0) = Inr True"
    by code_simp+
  have q: "map_of (by_venue lsi_venue small_quotes) ''v'' = Some (demo_event ''e'' ''v'')"
      "lsi_ask (demo_event ''e'' ''v'') = Some 10" "lsi_ask_size (demo_event ''e'' ''v'') = Some 100"
    by (simp_all add: small_quotes_def by_venue_def demo_event_def)
  have clock: "en_clock demo_service_env n = int n * 1000" for n by (simp add: demo_service_env_def)
  let ?s = "small_service\<lparr>sv_readings := 2, sv_repository := save_fill (leg_fill small_execution small_signal small_order 10)
      (save_order small_order (sv_repository small_service))\<rparr>"
  obtain t where t: "op_apply_fill demo_service_env small_signal small_portfolio (leg_fill small_execution small_signal small_order 10) ?s = (Inr (), t)"
    using small_applied [of ?s] mode by auto
  have fill: "fill_leg demo_service_env small_execution small_signal 1 small_portfolio ''receive_leg'' ''v'' 1000 10 100
      (small_service\<lparr>sv_readings := 2\<rparr>) = (Inr (small_order, Some (leg_fill small_execution small_signal small_order 10)), t)"
    using t by (simp add: fill_leg_def Let_def mode small_leg small_leg(1) [unfolded One_nat_def] small_order_def [symmetric] bindS_def modify_repository_def returnO_def)
  have "execute_legs demo_service_env small_execution small_signal small_quotes 1 small_portfolio [(0, ''v'')] None
      (small_service\<lparr>sv_readings := 1\<rparr>) = (Inr [small_order], t)"
    by (simp add: Let_def read_clock_def bindS_def q mode clock fill fill [unfolded One_nat_def] returnO_def numeral_2_eq_2 [symmetric])
  then have "execute_portfolios demo_service_env small_execution small_signal small_quotes [''v''] [small_portfolio]
      (small_service\<lparr>sv_readings := 1\<rparr>) = (Inr [small_order], t)"
    by (simp add: mode enumerate_eq_zip bindS_def returnO_def)
  then show ?thesis
    by (simp add: execute_signal_def mode e bindS_def read_clock_def clock liftO_def)
qed

theorem paper_orders_gated_witness:
  "por_filled_quantity small_order = 1 \<and>
   leg_total small_signal small_quotes = 1 \<and>
   admissible demo_paper_config small_execution small_signal small_quotes 1 small_portfolio small_order"
proof -
  obtain t where x: "execute_signal demo_service_env small_execution small_signal small_quotes small_service = (Inr [small_order], t)"
    using small_executed by blast
  have s: "sv_operation_settings small_service = demo_paper_config" "dict_values (sv_portfolio_states small_service) = [small_portfolio]"
    "por_filled_quantity small_order = 1" "leg_total small_signal small_quotes = 1"
    by (simp_all add: small_service_def dict_values_def small_order_def leg_order_def leg_total_def small_signal_def)
  from paper_orders_gated [OF x, of small_order] show ?thesis unfolding s by auto
qed

section \<open>A promotion\<close>

text \<open>Thirty signals, a fill and a portfolio in profit.\<close>

definition promo_signals :: "(string, PaperSignal) dict" where
  "promo_signals = map (\<lambda>n. (replicate n CHR ''g'', small_signal\<lparr>sig_signal_id := replicate n CHR ''g''\<rparr>)) [0..<30]"

definition promo_portfolio :: PortfolioState where
  "promo_portfolio = small_portfolio\<lparr>pfs_current_equity := 101, pfs_peak_equity := 101\<rparr>"

definition promo_run :: OperationalRun where
  "promo_run =
     \<lparr>orn_run_id = ''r'', orn_commit_sha = ''c'', orn_config_sha256 = ''d'', orn_mode = STRICT_PAPER, orn_status = RUN_RUNNING,
      orn_started_at = 0, orn_updated_at = 0, orn_last_snapshot_id = Some ''s'', orn_last_research_run_ids = [''x''],
      orn_collector_healthy = True, orn_signals_paused_reason = None, orn_failure_reason = None,
      orn_research_status = RESEARCH_COMPLETED, orn_research_skip_reason = None\<rparr>"

definition promo_fill :: PaperFillRecord where
  "promo_fill = leg_fill small_execution small_signal small_order 10"

definition promo_repository :: InMemoryOperationalRepository where
  "promo_repository = empty_repository\<lparr>rp_runs := [(''r'', promo_run)], rp_signals := promo_signals,
     rp_fills := [(pfi_fill_id promo_fill, promo_fill)]\<rparr>"

definition promo_service :: ContinuousResearchPaperService where
  "promo_service = small_service\<lparr>sv_repository := promo_repository, sv_portfolio_states := [(''p'', promo_portfolio)]\<rparr>"

lemma promo_ok: "service_ok promo_service"
proof -
  have "distinct (map (\<lambda>n. replicate n CHR ''g'') [0..<30])"
    by (subst distinct_map) (auto simp: inj_on_def dest: arg_cong [of _ _ length])
  then have "keyed sig_signal_id promo_signals" by (auto simp: keyed_def dict_ok_def promo_signals_def comp_def)
  then show ?thesis
    by (simp add: service_ok_def promo_service_def repository_ok_def promo_repository_def empty_repository_def keyed_def dict_ok_def
        promo_run_def promo_portfolio_def small_portfolio_def)
qed

lemma promo_signals_of: "values_of sig_identity ''r'' promo_signals = map snd promo_signals"
  "filter (\<lambda>g. sig_rejection_reason g = None) (map snd promo_signals) = map snd promo_signals"
  by (auto simp: values_of_def dict_values_def promo_signals_def comp_def small_signal_def small_identity_def filter_id_conv)

lemma promo_report: "\<exists>report t. generate_daily_report 0 promo_service = (Inr report, t) \<and> dr_promotion_verdict report = ELIGIBLE_FOR_MICRO_LIVE_REVIEW"
proof -
  have d: "div_dec (dsub 101 101) 101 = Inr 0" "dsub 101 100 = 1" by code_simp+
  have fills: "values_of pfi_identity ''r'' [(pfi_fill_id promo_fill, promo_fill)] = [promo_fill]"
    by (simp add: values_of_def dict_values_def promo_fill_def leg_fill_def Let_def small_signal_def small_identity_def)
  show ?thesis
    by (simp add: generate_daily_report_def bindS_def require_run_def op_get_run_def promo_service_def promo_repository_def small_service_def
        promo_run_def promo_portfolio_def small_portfolio_def dict_values_def measure_portfolio_def d liftO_def report_identity_def or_text_def
        op_identity_def OperationalIdentity_init_def day_start_def metric_of_def Let_def save_daily_metric_def compute_attribution_def
        attribute_portfolio_def save_attribution_def returnO_def report_of_def promotion_verdict_def paper_fills_of_def fills signals_of_def
        promo_signals_of daily_metrics_def demo_paper_config_def empty_repository_def attribution_of_def)
      (simp add: promo_signals_def)
qed

theorem promotion_earned_witness:
  "\<exists>report t. generate_daily_report 0 promo_service = (Inr report, t) \<and>
     30 \<le> length (filter (\<lambda>g. sig_rejection_reason g = None) (signals_of (sv_repository t) (sv_run_id promo_service))) \<and>
     pfs_initial_capital promo_portfolio < pfs_current_equity promo_portfolio"
proof -
  from promo_report obtain report t where r: "generate_daily_report 0 promo_service = (Inr report, t)"
      "dr_promotion_verdict report = ELIGIBLE_FOR_MICRO_LIVE_REVIEW" by blast
  have p: "promo_portfolio \<in> set (dict_values (sv_portfolio_states promo_service))" by (simp add: promo_service_def dict_values_def)
  from promotion_earned [OF promo_ok r p] r(1) show ?thesis by blast
qed

section \<open>Shadow candidates\<close>

definition demo_refused :: "string \<Rightarrow> FundingCarryShadowCandidate" where
  "demo_refused ident = pre_economics_rejection default_shadow_config demo_evaluation ident [] INPUT_VALIDATION STALE_DATA"

abbreviation demo_records :: "(FundingCarryShadowCandidate \<times> bool \<times> bool) list" where
  "demo_records \<equiv> [(demo_refused ''c1'', True, False), (demo_refused ''c2'', True, False), (demo_refused ''c1'', True, True)]"

theorem shadow_metrics_consistent_witness:
  "srm_candidate_generation_attempt_count (shadow_metrics (record_all demo_records empty_repository) ''run'' []) = 3 \<and>
   srm_candidate_inserted_count (shadow_metrics (record_all demo_records empty_repository) ''run'' []) = 2 \<and>
   srm_candidate_duplicate_suppressed_count (shadow_metrics (record_all demo_records empty_repository) ''run'' []) = 1"
proof -
  have c: "ca_instrument (demo_refused i) = ''BTC''" "ca_run_id (demo_refused i) = ''run''" for i
    by (simp_all add: demo_refused_def pre_economics_rejection_def default_shadow_config_def demo_evaluation_def FUNDING_CARRY_DEFAULT_SHADOW_INSTRUMENT_def)
  have all: "list_all (\<lambda>(c, _). ca_instrument c \<noteq> []) demo_records" by (simp add: c)
  have "length (shadow_candidates (record_all demo_records empty_repository) ''run'') = 2" by code_simp
  then show ?thesis using shadow_metrics_consistent [OF all refl, of "''BTC''" "''run''"] by (simp add: c)
qed

end
