(* ===== verification/Python_Values.thy ===== *)
theory Python_Values
  imports Funding_Carry "HOL-Library.Word"
begin

text \<open>
  What the shadow input runtime uses of Python's values: parsed JSON documents, \<open>Decimal\<close> with its sign,
  coefficient and exponent and its conversions from and to text, \<open>int(text)\<close> and \<open>zlib.crc32\<close>.
\<close>

unbundle bit_operations_syntax

section \<open>Decimals and their text\<close>

record pydec =
  pd_neg :: bool
  pd_coeff :: nat
  pd_exp :: int

definition pd_value :: "pydec \<Rightarrow> dec" where
  "pd_value d =
     (if pd_neg d then - 1 else 1) * of_nat (pd_coeff d) *
     (if 0 \<le> pd_exp d then 10 ^ nat (pd_exp d) else 1 / 10 ^ nat (- pd_exp d))"

definition is_digit :: "char \<Rightarrow> bool" where
  "is_digit c \<longleftrightarrow> CHR ''0'' \<le> c \<and> c \<le> CHR ''9''"

definition py_space :: "char \<Rightarrow> bool" where
  "py_space c \<longleftrightarrow> (of_char c :: nat) \<in> {9, 10, 11, 12, 13, 28, 29, 30, 31, 32}"

definition py_strip :: "string \<Rightarrow> string" where
  "py_strip s = rev (dropWhile py_space (rev (dropWhile py_space s)))"

text \<open>\<open>str(Decimal)\<close>: scientific notation for positive and very small exponents.\<close>

definition signed_text :: "int \<Rightarrow> string" where
  "signed_text n = (if n < 0 then ''-'' @ str_nat (nat (- n)) else ''+'' @ str_nat (nat n))"

definition pd_str :: "pydec \<Rightarrow> string" where
  "pd_str d =
     (let digits = str_nat (pd_coeff d);
          leftdigits = pd_exp d + int (length digits);
          dotplace = (if pd_exp d \<le> 0 \<and> - 6 < leftdigits then leftdigits else 1) in
      (if pd_neg d then ''-'' else []) @
      (if dotplace \<le> 0 then ''0.'' @ replicate (nat (- dotplace)) CHR ''0'' @ digits
       else if int (length digits) \<le> dotplace then digits @ replicate (nat dotplace - length digits) CHR ''0''
       else take (nat dotplace) digits @ ''.'' @ drop (nat dotplace) digits) @
      (if leftdigits = dotplace then [] else ''E'' @ signed_text (leftdigits - dotplace)))"

text \<open>\<open>Decimal(text)\<close>: \<open>None\<close> is \<open>InvalidOperation\<close>, \<open>Special\<close> an infinity or not a number.\<close>

datatype parsed = Parsed pydec | Special

definition lower :: "char \<Rightarrow> char" where
  "lower c = (if CHR ''A'' \<le> c \<and> c \<le> CHR ''Z'' then char_of ((of_char c :: nat) + 32) else c)"

definition split_sign :: "string \<Rightarrow> bool \<times> string" where
  "split_sign s = (case s of [] \<Rightarrow> (False, []) | c # t \<Rightarrow> if c = CHR ''-'' then (True, t) else if c = CHR ''+'' then (False, t) else (False, s))"

definition parse_special :: "string \<Rightarrow> parsed option" where
  "parse_special s =
     (let t = map lower s; u = (if t \<noteq> [] \<and> hd t = CHR ''s'' then tl t else t) in
      if t = ''inf'' \<or> t = ''infinity'' \<or> (take 3 u = ''nan'' \<and> list_all is_digit (drop 3 u)) then Some Special else None)"

definition parse_exponent :: "string \<Rightarrow> int option" where
  "parse_exponent s =
     (if s = [] then Some 0
      else if hd s = CHR ''E'' \<or> hd s = CHR ''e'' then
        (let (neg, t) = split_sign (tl s) in
         if t \<noteq> [] \<and> list_all is_digit t then Some ((if neg then - 1 else 1) * int (nat_of_digits t)) else None)
      else None)"

definition parse_decimal :: "string \<Rightarrow> parsed option" where
  "parse_decimal s =
     (let (neg, t) = split_sign (filter (\<lambda>c. c \<noteq> CHR ''_'') (py_strip s));
          ipart = takeWhile is_digit t;
          r = dropWhile is_digit t;
          fpart = (if r \<noteq> [] \<and> hd r = CHR ''.'' then takeWhile is_digit (tl r) else []);
          e = (if r \<noteq> [] \<and> hd r = CHR ''.'' then dropWhile is_digit (tl r) else r) in
      if ipart = [] \<and> fpart = [] then parse_special t
      else case parse_exponent e of
        None \<Rightarrow> None
      | Some x \<Rightarrow> Some (Parsed \<lparr>pd_neg = neg, pd_coeff = nat_of_digits (ipart @ fpart), pd_exp = x - int (length fpart)\<rparr>))"

text \<open>\<open>int(text)\<close>: digits, with single underscores between them.\<close>

fun int_digits :: "string \<Rightarrow> string option" where
  "int_digits [] = None"
| "int_digits [c] = (if is_digit c then Some [c] else None)"
| "int_digits (c # d # s) =
     (if \<not> is_digit c then None
      else if d = CHR ''_'' then map_option ((#) c) (int_digits s) else map_option ((#) c) (int_digits (d # s)))"

definition py_int :: "string \<Rightarrow> int option" where
  "py_int s =
     (let (neg, t) = split_sign (py_strip s) in
      map_option (\<lambda>ds. (if neg then - 1 else 1) * int (nat_of_digits ds)) (int_digits t))"

section \<open>JSON documents\<close>

text \<open>A number is kept as the text that \<open>str\<close> gives of it.\<close>

datatype json = JNull | JBool bool | JNum string | JStr string | JArr "json list" | JObj "(string \<times> json) list"

text \<open>\<open>str(value)\<close>; of an array or object only that it starts with a bracket, which no number does.\<close>

fun py_str :: "json \<Rightarrow> string" where
  "py_str JNull = ''None''"
| "py_str (JBool b) = (if b then ''True'' else ''False'')"
| "py_str (JNum t) = t"
| "py_str (JStr t) = t"
| "py_str (JArr _) = ''[''"
| "py_str (JObj _) = ''{''"

fun json_true :: "json \<Rightarrow> bool" where
  "json_true JNull = False"
| "json_true (JBool b) = b"
| "json_true (JNum t) = (case parse_decimal t of Some (Parsed d) \<Rightarrow> pd_coeff d \<noteq> 0 | _ \<Rightarrow> True)"
| "json_true (JStr t) = (t \<noteq> [])"
| "json_true (JArr xs) = (xs \<noteq> [])"
| "json_true (JObj kvs) = (kvs \<noteq> [])"

definition py_get :: "(string \<times> json) list \<Rightarrow> string \<Rightarrow> json" where
  "py_get d k = (case map_of d k of None \<Rightarrow> JNull | Some v \<Rightarrow> v)"

definition py_or :: "json \<Rightarrow> json \<Rightarrow> json" where
  "py_or a b = (if json_true a then a else b)"

section \<open>Checksums\<close>

definition crc_step :: "32 word \<Rightarrow> 32 word" where
  "crc_step c = (if bit c 0 then drop_bit 1 c XOR 0xEDB88320 else drop_bit 1 c)"

definition crc_byte :: "32 word \<Rightarrow> char \<Rightarrow> 32 word" where
  "crc_byte c b = (crc_step ^^ 8) (c XOR of_nat (of_char b))"

definition crc32 :: "string \<Rightarrow> int" where
  "crc32 s = uint (NOT (foldl crc_byte (NOT 0) s))"

section \<open>Printing and parsing\<close>

lemma str_nat_digits: "list_all is_digit (str_nat n)" "str_nat n \<noteq> []"
proof -
  have d: "is_digit (digit_char k)" if "k < 10" for k
    using that by (simp add: is_digit_def less_eq_char_def of_char_digit)
  show "list_all is_digit (str_nat n)"
  proof (induction n rule: str_nat.induct)
    case (1 n)
    then show ?case by (cases "n < 10") (simp_all add: str_nat.simps [of n] d)
  qed
  show "str_nat n \<noteq> []" by (simp add: str_nat.simps [of n])
qed

lemma nat_of_zeros: "nat_of_digits (replicate k CHR ''0'' @ ds) = nat_of_digits ds"
proof -
  have "foldl (\<lambda>a c. 10 * a + (of_char c - 48)) 0 (replicate k CHR ''0'') = (0 :: nat)"
    by (induction k) simp_all
  then show ?thesis by (simp add: nat_of_digits_def)
qed

lemma exponent_text: "parse_exponent (''E'' @ signed_text n) = Some n" "parse_exponent [] = Some 0"
  using str_nat_digits [of "nat n"] str_nat_digits [of "nat (- n)"]
  by (auto simp: parse_exponent_def signed_text_def split_sign_def Let_def nat_of_digits_str_nat)

lemma takeWhile_digits: "list_all is_digit ds \<Longrightarrow> r = [] \<or> \<not> is_digit (hd r) \<Longrightarrow>
    takeWhile is_digit (ds @ r) = ds \<and> dropWhile is_digit (ds @ r) = r"
  by (cases r) (auto simp: list_all_iff takeWhile_append2 takeWhile_tail dropWhile_append2)

lemma parse_parts:
  assumes "list_all is_digit i" "list_all is_digit f" "i \<noteq> []" "e = [] \<or> hd e = CHR ''E''"
    and "parse_exponent e = Some x"
    and "split_sign (filter (\<lambda>c. c \<noteq> CHR ''_'') (py_strip s)) = (neg, i @ (if point then CHR ''.'' # f else []) @ e)" "point \<or> f = []"
  shows "parse_decimal s = Some (Parsed \<lparr>pd_neg = neg, pd_coeff = nat_of_digits (i @ f), pd_exp = x - int (length f)\<rparr>)"
proof -
  have nd: "\<not> is_digit (CHR ''E'')" "\<not> is_digit (CHR ''.'')" by (simp_all add: is_digit_def less_eq_char_def)
  have e: "e = [] \<or> \<not> is_digit (hd e)" using assms(4) nd by auto
  have t1: "takeWhile is_digit (i @ (if point then CHR ''.'' # f else []) @ e) = i"
      "dropWhile is_digit (i @ (if point then CHR ''.'' # f else []) @ e) = (if point then CHR ''.'' # f else []) @ e"
    using takeWhile_digits [OF assms(1), of "(if point then CHR ''.'' # f else []) @ e"] e nd by auto
  have t2: "takeWhile is_digit (f @ e) = f" "dropWhile is_digit (f @ e) = e" using takeWhile_digits [OF assms(2) e] by auto
  have dot: "(if point then CHR ''.'' # f else []) @ e \<noteq> [] \<and> hd ((if point then CHR ''.'' # f else []) @ e) = CHR ''.'' \<longleftrightarrow> point"
    using assms(4) by (cases point) auto
  show ?thesis unfolding parse_decimal_def assms(6) prod.case Let_def t1 dot using assms(3,5,7) t2 by (cases point) simp_all
qed

lemma py_strip_plain:
  assumes "s \<noteq> []" "\<not> py_space (hd s)" "\<not> py_space (last s)"
  shows "py_strip s = s"
proof -
  have "dropWhile py_space s = s" using assms by (cases s) auto
  moreover have "dropWhile py_space (rev s) = rev s" using assms by (cases "rev s") (auto simp: hd_rev [symmetric])
  ultimately show ?thesis by (simp add: py_strip_def)
qed

lemma number_chars: "is_digit c \<Longrightarrow> \<not> py_space c \<and> c \<noteq> CHR ''_'' \<and> c \<noteq> CHR ''-'' \<and> c \<noteq> CHR ''+''"
  by (auto simp: is_digit_def py_space_def less_eq_char_def)

lemma pd_str_parts:
  "\<exists>i f e point x. pd_str d = (if pd_neg d then ''-'' else []) @ i @ (if point then CHR ''.'' # f else []) @ e \<and>
     list_all is_digit i \<and> list_all is_digit f \<and> i \<noteq> [] \<and> (e = [] \<or> (\<exists>n. e = ''E'' @ signed_text n)) \<and>
     parse_exponent e = Some x \<and> (point \<or> f = []) \<and> nat_of_digits (i @ f) = pd_coeff d \<and> x - int (length f) = pd_exp d"
proof -
  let ?ds = "str_nat (pd_coeff d)"
  define left where "left = pd_exp d + int (length ?ds)"
  define dot where "dot = (if pd_exp d \<le> 0 \<and> - 6 < left then left else 1)"
  define e where "e = (if left = dot then [] else ''E'' @ signed_text (left - dot))"
  have ds: "list_all is_digit ?ds" "?ds \<noteq> []" "nat_of_digits ?ds = pd_coeff d"
    using str_nat_digits nat_of_digits_str_nat by auto
  have len: "1 \<le> int (length ?ds)" using ds(2) by (cases ?ds) auto
  have e: "parse_exponent e = Some (left - dot)" "e = [] \<or> (\<exists>n. e = ''E'' @ signed_text n)"
    by (auto simp: e_def exponent_text(2) exponent_text(1) [unfolded append.simps])
  have zero: "is_digit (CHR ''0'')" by (simp add: is_digit_def)
  have str: "pd_str d = (if pd_neg d then ''-'' else []) @
      (if dot \<le> 0 then ''0.'' @ replicate (nat (- dot)) CHR ''0'' @ ?ds
       else if int (length ?ds) \<le> dot then ?ds @ replicate (nat dot - length ?ds) CHR ''0''
       else take (nat dot) ?ds @ ''.'' @ drop (nat dot) ?ds) @ e"
    unfolding pd_str_def Let_def e_def dot_def left_def by simp
  consider (zeros) "dot \<le> 0" | (whole) "int (length ?ds) \<le> dot" "0 < dot" | (split) "0 < dot" "dot < int (length ?ds)" by linarith
  then show ?thesis
  proof cases
    case zeros
    then have "left = dot" by (auto simp: dot_def split: if_splits)
    moreover have "nat_of_digits (''0'' @ replicate (nat (- dot)) CHR ''0'' @ ?ds) = pd_coeff d"
      using nat_of_zeros [of "Suc (nat (- dot))" ?ds] ds by (simp add: replicate_app_Cons_same)
    moreover have "list_all is_digit (replicate (nat (- dot)) CHR ''0'' @ ?ds)" using ds zero by (auto simp: list_all_iff)
    ultimately show ?thesis using zeros e str ds left_def zero
      by (intro exI [of _ "''0''"] exI [of _ "replicate (nat (- dot)) CHR ''0'' @ ?ds"] exI [of _ e] exI [of _ True] exI [of _ "left - dot"])
        (auto simp: list_all_iff)
  next
    case whole
    then have "dot = int (length ?ds)" using len by (auto simp: dot_def left_def split: if_splits)
    then show ?thesis using whole e str ds left_def
      by (intro exI [of _ ?ds] exI [of _ "[]"] exI [of _ e] exI [of _ False] exI [of _ "left - dot"]) auto
  next
    case split
    have "take (nat dot) ?ds \<noteq> []" using split ds(2) by auto
    moreover have "list_all is_digit (take (nat dot) ?ds)" "list_all is_digit (drop (nat dot) ?ds)"
      using ds(1) set_take_subset set_drop_subset by (fastforce simp: list_all_iff)+
    moreover have "int (length (drop (nat dot) ?ds)) = int (length ?ds) - dot" using split by (simp add: of_nat_diff)
    ultimately show ?thesis using split e str ds left_def
      by (intro exI [of _ "take (nat dot) ?ds"] exI [of _ "drop (nat dot) ?ds"] exI [of _ e] exI [of _ True] exI [of _ "left - dot"]) auto
  qed
qed

text \<open>A decimal is what parsing its text gives: sign, coefficient and exponent.\<close>

theorem decimal_text_round_trip: "parse_decimal (pd_str d) = Some (Parsed d)"
proof -
  obtain i f e point x where p: "pd_str d = (if pd_neg d then ''-'' else []) @ i @ (if point then CHR ''.'' # f else []) @ e"
      "list_all is_digit i" "list_all is_digit f" "i \<noteq> []" "e = [] \<or> (\<exists>n. e = ''E'' @ signed_text n)"
      "parse_exponent e = Some x" "point \<or> f = []" "nat_of_digits (i @ f) = pd_coeff d" "x - int (length f) = pd_exp d"
    using pd_str_parts [of d] by blast
  let ?b = "i @ (if point then CHR ''.'' # f else []) @ e"
  have sg: "c \<in> set (signed_text n) \<Longrightarrow> is_digit c \<or> c = CHR ''-'' \<or> c = CHR ''+''" for c n
    using str_nat_digits(1) by (auto simp: signed_text_def list_all_iff split: if_splits)
  have chars: "c \<in> set ?b \<Longrightarrow> is_digit c \<or> c \<in> set ''.E-+''" for c
    using p(2,3,5) sg [of c] by (auto simp: list_all_iff split: if_splits)
  have plain: "\<not> py_space c \<and> c \<noteq> CHR ''_''" if "c \<in> set (pd_str d)" for c
  proof -
    have "is_digit c \<or> c \<in> set ''.E-+''" using that chars unfolding p(1) by (auto split: if_splits)
    then show ?thesis using number_chars by (auto simp: py_space_def)
  qed
  have ne: "pd_str d \<noteq> []" using p(1,4) by simp
  then have "py_strip (pd_str d) = pd_str d" using plain by (intro py_strip_plain) auto
  moreover have "filter (\<lambda>c. c \<noteq> CHR ''_'') (pd_str d) = pd_str d" using plain by (simp add: filter_id_conv)
  moreover have "split_sign (pd_str d) = (pd_neg d, ?b)"
  proof -
    have "is_digit (hd ?b)" "?b \<noteq> []" using p(2,4) by (auto simp: list_all_iff)
    then show ?thesis unfolding p(1) using number_chars by (cases ?b) (auto simp: split_sign_def)
  qed
  ultimately have s: "split_sign (filter (\<lambda>c. c \<noteq> CHR ''_'') (py_strip (pd_str d))) = (pd_neg d, ?b)" by simp
  have "e = [] \<or> hd e = CHR ''E''" using p(5) by auto
  from parse_parts [OF p(2,3,4) this p(6) s p(7)] show ?thesis using p(8,9) by simp
qed

end
