(* ===== verification/Collector_Health.thy ===== *)
theory Collector_Health
  imports Operation_Models Python_Values "HOL-Library.Sublist"
begin

text \<open>
  \<open>services/operations/collector_health.py\<close>: the health of the collectors from their failures and
  checkpoints.
\<close>

record CollectionFailureEvent =
  cfe_venue :: string
  cfe_stream_key :: string
  cfe_instrument :: string
  cfe_event_type :: string
  cfe_endpoint :: string
  cfe_error_type :: string
  cfe_error_message :: string
  cfe_occurred_at :: instant
  cfe_retry_count :: int

text \<open>Of a checkpoint, what the summary reads.\<close>

record CollectionCheckpoint =
  ckp_venue :: string
  ckp_stream_key :: string
  ckp_reconciliation_state :: ReconciliationState
  ckp_checkpointed_at :: instant
  ckp_recovery_required :: bool
  ckp_last_recovery_failure :: "string option"

definition EXPECTED_SKIP_ERROR_TYPES :: "string list" where
  "EXPECTED_SKIP_ERROR_TYPES =
     [''CapabilityNotVerified'', ''ExpectedSkip'', ''InstrumentUnavailable'', ''NotImplementedError'', ''UnsupportedCapability'']"

definition FATAL_ERROR_TYPES :: "string list" where
  "FATAL_ERROR_TYPES = [''AuthenticationError'', ''DataCorruptionError'', ''PermissionError'', ''SchemaViolation'']"

definition skip_tokens :: "string list" where
  "skip_tokens = [''capability not verified'', ''instrument is not listed'', ''not supported by venue'', ''unsupported capability'']"

definition is_expected_skip :: "CollectionFailureEvent \<Rightarrow> bool" where
  "is_expected_skip f \<longleftrightarrow> cfe_error_type f \<in> set EXPECTED_SKIP_ERROR_TYPES \<or>
     list_ex (\<lambda>token. sublist token (map lower (cfe_error_message f))) skip_tokens"

definition increment :: "string \<Rightarrow> (string, int) dict \<Rightarrow> (string, int) dict" where
  "increment key d = dict_set key ((case map_of d key of None \<Rightarrow> 0 | Some n \<Rightarrow> n) + 1) d"

definition tally :: "string list \<Rightarrow> (string, int) dict" where
  "tally keys = foldl (\<lambda>d k. increment k d) [] keys"

definition is_fatal :: "CollectionFailureEvent \<Rightarrow> bool" where
  "is_fatal f \<longleftrightarrow> \<not> is_expected_skip f \<and> cfe_error_type f \<in> set FATAL_ERROR_TYPES"

definition permanently_degraded :: "CollectionCheckpoint \<Rightarrow> bool" where
  "permanently_degraded c \<longleftrightarrow> ckp_reconciliation_state c = STREAM_DEGRADED \<and>
     (case ckp_last_recovery_failure c of None \<Rightarrow> False | Some t \<Rightarrow> t \<noteq> [])"

definition health_verdict :: "nat \<Rightarrow> nat \<Rightarrow> nat \<Rightarrow> nat \<Rightarrow> nat \<Rightarrow> bool \<Rightarrow> CollectorHealthStatus \<times> string list" where
  "health_verdict fatal degraded_failures skips degraded_streams recovering observed =
     (if fatal \<noteq> 0 then (COLLECTOR_UNHEALTHY, [''fatal collection failures='' @ str_nat fatal])
      else if degraded_streams \<noteq> 0 \<or> recovering \<noteq> 0 then
        (COLLECTOR_DEGRADED,
         (if degraded_streams \<noteq> 0 then [''permanently degraded streams='' @ str_nat degraded_streams] else []) @
         (if recovering \<noteq> 0 then [''recovery required streams='' @ str_nat recovering] else []))
      else if \<not> observed then (COLLECTOR_INSUFFICIENT_EVIDENCE, [''no collector checkpoints''])
      else
        (COLLECTOR_HEALTHY,
         (if degraded_failures \<noteq> 0 then [''recovered/transient failures='' @ str_nat degraded_failures] else []) @
         (if skips \<noteq> 0 then [''expected skips='' @ str_nat skips] else [])))"

definition summarize_collector_health ::
  "CollectionFailureEvent list \<Rightarrow> CollectionCheckpoint list \<Rightarrow> datetime \<Rightarrow> int \<times> int \<times> int \<Rightarrow> CollectorHealthSummary result" where
  "summarize_collector_health failures checkpoints now event_counts =
     bindE (as_utc ''collector health time must be timezone-aware'' now) (\<lambda>t.
     let skips = length (filter is_expected_skip failures);
         fatal = length (filter is_fatal failures);
         degraded_failures = length failures - skips - fatal;
         degraded_streams = length (filter permanently_degraded checkpoints);
         recovering = length (filter ckp_recovery_required checkpoints);
         synchronized = filter (\<lambda>c. ckp_reconciliation_state c = SYNCHRONIZED \<and> \<not> ckp_recovery_required c) checkpoints;
         (status, reasons) = health_verdict fatal degraded_failures skips degraded_streams recovering (checkpoints \<noteq> []);
         (market, control, experimental) = event_counts in
     Inr \<lparr>hs_status = status, hs_total_failures = int (length failures), hs_fatal_failures = int fatal,
          hs_degraded_failures = int degraded_failures, hs_expected_skips = int skips,
          hs_failures_by_venue = tally (map cfe_venue failures), hs_failures_by_instrument = tally (map cfe_instrument failures),
          hs_failures_by_event_type = tally (map cfe_event_type failures),
          hs_failures_by_error_type = tally (map cfe_error_type failures),
          hs_permanently_degraded_streams = int degraded_streams, hs_recovery_required_streams = int recovering,
          hs_checkpoint_lag_max_seconds =
            (if checkpoints = [] then None
             else Some (Max (set (map (\<lambda>c. of_int (max 0 (t - ckp_checkpointed_at c)) / 1000000) checkpoints)))),
          hs_last_healthy_at = (if synchronized = [] then None else Some (Max (set (map ckp_checkpointed_at synchronized)))),
          hs_reasons = reasons, hs_production_market_event_count = market, hs_production_control_event_count = control,
          hs_experimental_market_event_count = experimental\<rparr>)"

section \<open>What the summary says\<close>

lemma tally_append: "tally (keys @ [k]) = increment k (tally keys)"
  by (simp add: tally_def)

lemma tally_count:
  "(case map_of (tally keys) k of None \<Rightarrow> 0 | Some n \<Rightarrow> n) = int (count_list keys k)"
  by (induction keys rule: rev_induct) (auto simp: tally_append increment_def, simp add: tally_def)

lemma skip_not_fatal: "length (filter is_expected_skip fs) + length (filter is_fatal fs) \<le> length fs"
  by (induction fs) (auto simp: is_fatal_def)

lemma summarized:
  assumes "summarize_collector_health failures checkpoints (Aware t) counts = Inr h"
  shows "hs_total_failures h = int (length failures)" "hs_fatal_failures h = int (length (filter is_fatal failures))"
    "hs_expected_skips h = int (length (filter is_expected_skip failures))"
    "hs_degraded_failures h = int (length failures - length (filter is_expected_skip failures) - length (filter is_fatal failures))"
    "hs_failures_by_venue h = tally (map cfe_venue failures)"
    "hs_status h = fst (health_verdict (length (filter is_fatal failures))
       (length failures - length (filter is_expected_skip failures) - length (filter is_fatal failures))
       (length (filter is_expected_skip failures)) (length (filter permanently_degraded checkpoints))
       (length (filter ckp_recovery_required checkpoints)) (checkpoints \<noteq> []))"
  using assms by (simp_all add: summarize_collector_health_def Let_def case_prod_beta, (elim sym [THEN ssubst], simp)+)

lemma verdict_iff:
  "fst (health_verdict fatal df skips ds rec obs) = COLLECTOR_HEALTHY \<longleftrightarrow> fatal = 0 \<and> ds = 0 \<and> rec = 0 \<and> obs"
  "fst (health_verdict fatal df skips ds rec obs) = COLLECTOR_UNHEALTHY \<longleftrightarrow> fatal \<noteq> 0"
  by (simp_all add: health_verdict_def)

text \<open>
  C26. The health summary is a sound classification: it is made for an aware time, its three classes
  partition the failures, the tally of a venue counts its failures, and the collectors are healthy
  exactly when there are checkpoints, none of them needs recovery or is degraded after a failed
  recovery, and no failure is fatal; a fatal failure always makes them unhealthy.
\<close>

theorem collector_health_sound:
  assumes "summarize_collector_health failures checkpoints (Aware t) counts = Inr h"
  shows "hs_fatal_failures h + hs_degraded_failures h + hs_expected_skips h = hs_total_failures h \<and> 0 \<le> hs_degraded_failures h \<and>
    (case map_of (hs_failures_by_venue h) venue of None \<Rightarrow> 0 | Some n \<Rightarrow> n) = int (length (filter (\<lambda>f. cfe_venue f = venue) failures)) \<and>
    (hs_status h = COLLECTOR_HEALTHY \<longleftrightarrow>
       checkpoints \<noteq> [] \<and> \<not> list_ex is_fatal failures \<and> \<not> list_ex ckp_recovery_required checkpoints \<and>
       \<not> list_ex permanently_degraded checkpoints) \<and>
    (hs_status h = COLLECTOR_UNHEALTHY \<longleftrightarrow> list_ex is_fatal failures)"
proof -
  have len: "length (filter P xs) = 0 \<longleftrightarrow> \<not> list_ex P xs" for P and xs :: "'z list"
    by (simp add: filter_empty_conv list_ex_iff)
  have count: "count_list (map cfe_venue failures) venue = length (filter (\<lambda>f. cfe_venue f = venue) failures)"
    by (induction failures) auto
  show ?thesis unfolding summarized [OF assms] verdict_iff len tally_count count
    using skip_not_fatal [of failures] by (simp add: conj_ac)
qed

theorem collector_health_sound_witness:
  "\<exists>h. summarize_collector_health [\<lparr>cfe_venue = ''v'', cfe_stream_key = ''k'', cfe_instrument = ''BTC'', cfe_event_type = ''e'', cfe_endpoint = ''x'',
      cfe_error_type = ''PermissionError'', cfe_error_message = ''denied'', cfe_occurred_at = 0, cfe_retry_count = 0\<rparr>] [] (Aware 5) (0, 0, 0) = Inr h \<and>
    hs_status h = COLLECTOR_UNHEALTHY"
proof -
  let ?f = "\<lparr>cfe_venue = ''v'', cfe_stream_key = ''k'', cfe_instrument = ''BTC'', cfe_event_type = ''e'', cfe_endpoint = ''x'',
      cfe_error_type = ''PermissionError'', cfe_error_message = ''denied'', cfe_occurred_at = 0, cfe_retry_count = 0\<rparr>"
  have fatal: "list_ex is_fatal [?f]" by code_simp
  obtain h where h: "summarize_collector_health [?f] [] (Aware 5) (0, 0, 0) = Inr h"
    unfolding summarize_collector_health_def as_utc_simps bindE_simps Let_def case_prod_beta by blast
  from collector_health_sound [OF h] fatal have "hs_status h = COLLECTOR_UNHEALTHY" by simp
  then show ?thesis using h by blast
qed

end
