(* ===== verification/Shadow_Books.thy ===== *)
theory Shadow_Books
  imports Operation_Models Python_Values "HOL-Library.Sublist"
begin

text \<open>
  The canonical order books of \<open>services/operations/shadow_runtime.py\<close>: stored market events become
  validated books, for Hyperliquid from each snapshot alone, for Bitget from a snapshot and its deltas.
  A book is a dictionary from prices to quantities; Python compares decimals by value and keeps the first
  key, so an entry holds the price as first written. The parser of JSON texts and the digest of a book are
  parameters; instants are aware.
\<close>

section \<open>Events and levels\<close>

record RawMarketEvent =
  rme_event_id :: string
  rme_venue :: string
  rme_canonical_instrument_id :: string
  rme_event_type :: string
  rme_exchange_timestamp :: "instant option"
  rme_received_at :: instant
  rme_available_at :: instant
  rme_sequence :: "int option"
  rme_raw_payload :: string
  rme_normalizer_version :: string
  rme_channel :: string
  rme_connection_epoch :: "int option"

type_synonym document = "(string \<times> json) list"
type_synonym level = "pydec \<times> pydec"
type_synonym book = "(dec, level) dict"

record shadow_env =
  she_loads :: "string \<Rightarrow> json result"
  she_book_hash :: "string \<times> string \<times> level list \<times> level list \<times> int \<times> int option \<Rightarrow> string"
  she_pair_hash :: "string \<times> string list \<Rightarrow> string"
  she_fromisoformat :: "string \<Rightarrow> instant result"

definition event_payload :: "shadow_env \<Rightarrow> RawMarketEvent \<Rightarrow> document result" where
  "event_payload env e =
     bindE (she_loads env (rme_raw_payload e)) (\<lambda>value.
     case value of JObj kvs \<Rightarrow> Inr kvs | _ \<Rightarrow> Inl (ValueError ''raw payload must be a JSON object''))"

definition parse_level :: "json \<Rightarrow> level result" where
  "parse_level item =
     bindE (case item of
              JObj d \<Rightarrow> Inr (py_or (py_get d ''px'') (py_get d ''price''),
                           py_or (py_or (py_get d ''sz'') (py_get d ''quantity'')) (py_get d ''size''))
            | JArr (a # b # _) \<Rightarrow> Inr (a, b)
            | _ \<Rightarrow> Inl (ValueError ''invalid order-book level'')) (\<lambda>(price, quantity).
     case (parse_decimal (py_str price), parse_decimal (py_str quantity)) of
       (Some p, Some q) \<Rightarrow>
         (case (p, q) of
            (Parsed a, Parsed b) \<Rightarrow>
              if dec_finite (pd_value a) \<and> dec_finite (pd_value b) then Inr (a, b)
              else Inl (ValueError ''non-finite order-book level'')
          | _ \<Rightarrow> Inl (ValueError ''non-finite order-book level''))
     | _ \<Rightarrow> Inl (ValueError ''non-decimal order-book level''))"

fun parse_levels :: "json list \<Rightarrow> level list result" where
  "parse_levels [] = Inr []"
| "parse_levels (x # xs) = bindE (parse_level x) (\<lambda>l. bindE (parse_levels xs) (\<lambda>ls. Inr (l # ls)))"

definition raw_levels :: "document \<Rightarrow> string \<Rightarrow> json" where
  "raw_levels payload side =
     (case (py_get payload side, py_get payload ''levels'') of
        (JNull, JArr levels) \<Rightarrow> if 2 \<le> length levels then levels ! (if side = ''bids'' then 0 else 1) else JNull
      | (raw, _) \<Rightarrow> raw)"

definition levels_of :: "document \<Rightarrow> string \<Rightarrow> level list result" where
  "levels_of payload side = (case raw_levels payload side of JArr items \<Rightarrow> parse_levels items | _ \<Rightarrow> Inr [])"

section \<open>Books\<close>

definition book_set :: "level \<Rightarrow> book \<Rightarrow> book" where
  "book_set l d =
     dict_set (pd_value (fst l)) (case map_of d (pd_value (fst l)) of None \<Rightarrow> l | Some (p, _) \<Rightarrow> (p, snd l)) d"

definition book_of :: "level list \<Rightarrow> book" where
  "book_of ls = foldl (\<lambda>d l. book_set l d) [] ls"

fun update_side :: "level list \<Rightarrow> book \<Rightarrow> (unit, book) outcome" where
  "update_side [] d = (Inr (), d)"
| "update_side ((p, q) # ls) d =
     (if pd_value p \<le> 0 \<or> pd_value q < 0 then (Inl (ValueError ''invalid order-book delta''), d)
      else update_side ls (if pd_value q = 0 then dict_del (pd_value p) d else book_set (p, q) d))"

definition level_key :: "level \<Rightarrow> dec \<times> dec" where
  "level_key l = (pd_value (fst l), pd_value (snd l))"

definition sorted_asks :: "level list \<Rightarrow> level list" where
  "sorted_asks = sort_key level_key"

definition sorted_bids :: "level list \<Rightarrow> level list" where
  "sorted_bids ls = rev (sort_key level_key (rev ls))"

datatype BookStateStatus = BOOK_UNINITIALIZED | BOOK_VALID | BOOK_INVALID

record CanonicalOrderBookSnapshot =
  cob_venue :: string
  cob_instrument :: string
  cob_bids :: "level list"
  cob_asks :: "level list"
  cob_best_bid :: pydec
  cob_best_ask :: pydec
  cob_depth_level_count :: int
  cob_source_snapshot_event_id :: string
  cob_applied_delta_event_ids :: "string list"
  cob_last_sequence :: "int option"
  cob_connection_epoch :: int
  cob_exchange_timestamp :: instant
  cob_received_at :: instant
  cob_available_at :: instant
  cob_state_status :: BookStateStatus
  cob_state_hash :: string
  cob_normalizer_version :: string

record OrderBookStateMetrics =
  obm_snapshot_count :: int
  obm_delta_count :: int
  obm_valid_snapshot_count :: int
  obm_invalid_count :: int
  obm_sequence_gap_count :: int
  obm_out_of_order_count :: int
  obm_reconnect_reset_count :: int
  obm_checksum_failure_count :: int

record BookState =
  bks_venue :: string
  bks_instrument :: string
  bks_channel :: string
  bks_connection_epoch :: int
  bks_bids :: book
  bks_asks :: book
  bks_source_snapshot_event_id :: string
  bks_source_snapshot_available_at :: instant
  bks_applied_delta_event_ids :: "string list"
  bks_last_sequence :: "int option"
  bks_exchange_timestamp :: instant
  bks_received_at :: instant
  bks_available_at :: instant
  bks_normalizer_version :: string
  bks_status :: BookStateStatus

type_synonym book_key = "string \<times> string \<times> string"

record CanonicalOrderBookStateBuilder =
  cb_maximum_age :: timedelta
  cb_maximum_future :: timedelta
  cb_states :: "(book_key, BookState) dict"
  cb_metrics :: OrderBookStateMetrics
  cb_last_invalid_reason :: "(string \<times> string, FundingCarryRejectCode) dict"

definition no_book_metrics :: OrderBookStateMetrics where
  "no_book_metrics =
     \<lparr>obm_snapshot_count = 0, obm_delta_count = 0, obm_valid_snapshot_count = 0, obm_invalid_count = 0,
      obm_sequence_gap_count = 0, obm_out_of_order_count = 0, obm_reconnect_reset_count = 0, obm_checksum_failure_count = 0\<rparr>"

definition CanonicalOrderBookStateBuilder_init :: "int \<Rightarrow> int \<Rightarrow> CanonicalOrderBookStateBuilder" where
  "CanonicalOrderBookStateBuilder_init maximum_age_seconds maximum_future_seconds =
     \<lparr>cb_maximum_age = seconds maximum_age_seconds, cb_maximum_future = seconds maximum_future_seconds, cb_states = [],
      cb_metrics = no_book_metrics, cb_last_invalid_reason = []\<rparr>"

type_synonym 'a builds = "CanonicalOrderBookStateBuilder \<Rightarrow> ('a, CanonicalOrderBookStateBuilder) outcome"

definition bump :: "(OrderBookStateMetrics \<Rightarrow> OrderBookStateMetrics) \<Rightarrow> CanonicalOrderBookStateBuilder \<Rightarrow> CanonicalOrderBookStateBuilder" where
  "bump f cb = cb\<lparr>cb_metrics := f (cb_metrics cb)\<rparr>"

definition set_reason ::
  "string \<times> string \<Rightarrow> FundingCarryRejectCode \<Rightarrow> CanonicalOrderBookStateBuilder \<Rightarrow> CanonicalOrderBookStateBuilder" where
  "set_reason key code cb = cb\<lparr>cb_last_invalid_reason := dict_set key code (cb_last_invalid_reason cb)\<rparr>"

definition set_book :: "book_key \<Rightarrow> BookState \<Rightarrow> CanonicalOrderBookStateBuilder \<Rightarrow> CanonicalOrderBookStateBuilder" where
  "set_book key st cb = cb\<lparr>cb_states := dict_set key st (cb_states cb)\<rparr>"

text \<open>\<open>current.status = INVALID\<close>, where \<open>current\<close> is the state under the key if there is one.\<close>

definition mark_invalid :: "book_key \<Rightarrow> CanonicalOrderBookStateBuilder \<Rightarrow> CanonicalOrderBookStateBuilder" where
  "mark_invalid key cb =
     (case map_of (cb_states cb) key of None \<Rightarrow> cb | Some st \<Rightarrow> set_book key (st\<lparr>bks_status := BOOK_INVALID\<rparr>) cb)"

section \<open>Validation\<close>

definition canonical ::
  "shadow_env \<Rightarrow> instant \<Rightarrow> BookState \<Rightarrow> level list \<Rightarrow> level list \<Rightarrow> CanonicalOrderBookSnapshot builds" where
  "canonical env now st bids asks cb =
     (let levels = bids @ asks; bs = sorted_bids bids; as = sorted_asks asks in
      if bids = [] \<or> asks = [] then (Inl (ValueError ''empty order book''), cb)
      else if list_ex (\<lambda>(p, q). pd_value p \<le> 0 \<or> pd_value q \<le> 0) levels then (Inl (ValueError ''non-positive order-book level''), cb)
      else if list_ex (\<lambda>(p, q). \<not> dec_finite (pd_value p) \<or> \<not> dec_finite (pd_value q)) levels
           then (Inl (ValueError ''non-finite order-book level''), cb)
      else if pd_value (fst (hd as)) \<le> pd_value (fst (hd bs)) then (Inl (ValueError ''crossed order book''), cb)
      else if now + cb_maximum_future cb < bks_exchange_timestamp st then (Inl (ValueError ''future order book''), cb)
      else if cb_maximum_age cb < now - bks_exchange_timestamp st then (Inl (ValueError ''stale order book''), cb)
      else
        (Inr \<lparr>cob_venue = bks_venue st, cob_instrument = bks_instrument st, cob_bids = bs, cob_asks = as,
              cob_best_bid = fst (hd bs), cob_best_ask = fst (hd as), cob_depth_level_count = int (length bs + length as),
              cob_source_snapshot_event_id = bks_source_snapshot_event_id st,
              cob_applied_delta_event_ids = bks_applied_delta_event_ids st, cob_last_sequence = bks_last_sequence st,
              cob_connection_epoch = bks_connection_epoch st, cob_exchange_timestamp = bks_exchange_timestamp st,
              cob_received_at = bks_received_at st, cob_available_at = bks_available_at st, cob_state_status = BOOK_VALID,
              cob_state_hash = she_book_hash env (bks_venue st, bks_instrument st, bs, as, bks_connection_epoch st, bks_last_sequence st),
              cob_normalizer_version = (if bks_normalizer_version st = [] then ''unknown'' else bks_normalizer_version st)\<rparr>,
         bump (\<lambda>m. m\<lparr>obm_valid_snapshot_count := obm_valid_snapshot_count m + 1\<rparr>) cb))"

definition from_state :: "shadow_env \<Rightarrow> instant \<Rightarrow> BookState \<Rightarrow> CanonicalOrderBookSnapshot builds" where
  "from_state env now st =
     canonical env now st (sorted_bids (dict_values (bks_bids st))) (sorted_asks (dict_values (bks_asks st)))"

fun interleave :: "level list \<Rightarrow> level list \<Rightarrow> string list" where
  "interleave (b # bs) (a # as) = [pd_str (fst b), pd_str (snd b), pd_str (fst a), pd_str (snd a)] @ interleave bs as"
| "interleave (b # bs) [] = [pd_str (fst b), pd_str (snd b)] @ interleave bs []"
| "interleave [] (a # as) = [pd_str (fst a), pd_str (snd a)] @ interleave [] as"
| "interleave [] [] = []"

definition book_checksum :: "CanonicalOrderBookSnapshot \<Rightarrow> int" where
  "book_checksum snap = crc32 (join '':'' (interleave (take 25 (cob_bids snap)) (take 25 (cob_asks snap))))"

definition validate_checksum :: "document \<Rightarrow> CanonicalOrderBookSnapshot \<Rightarrow> unit builds" where
  "validate_checksum payload snap cb =
     (let provided = py_get payload ''checksum'' in
      if provided = JNull then (Inr (), cb)
      else
        let computed = book_checksum snap; signed = (if computed < 2 ^ 31 then computed else computed - 2 ^ 32) in
        case py_int (py_str provided) of
          None \<Rightarrow> (Inl (ValueError (''invalid literal for int() with base 10: '' @ [CHR 0x27] @ py_str provided @ [CHR 0x27])), cb)
        | Some n \<Rightarrow>
            if n \<noteq> computed \<and> n \<noteq> signed then
              (Inl (ValueError ''order-book checksum mismatch''),
               bump (\<lambda>m. m\<lparr>obm_checksum_failure_count := obm_checksum_failure_count m + 1\<rparr>) cb)
            else (Inr (), cb))"

definition validation_reason :: "string \<Rightarrow> FundingCarryRejectCode" where
  "validation_reason message =
     (if sublist ''future'' message then FUTURE_TIMESTAMP
      else if sublist ''stale'' message then STALE_DATA
      else if sublist ''crossed'' message then CROSSED_ORDERBOOK
      else BITGET_ORDERBOOK_STATE_INVALID)"

section \<open>Applying events\<close>

text \<open>\<open>except ValueError\<close>\<close>

definition catch_value_error :: "'a builds \<Rightarrow> (string \<Rightarrow> 'a builds) \<Rightarrow> 'a builds" where
  "catch_value_error m h cb = (case m cb of (Inl (ValueError msg), cb1) \<Rightarrow> h msg cb1 | answer \<Rightarrow> answer)"

definition event_epoch :: "RawMarketEvent \<Rightarrow> int" where
  "event_epoch e = (case rme_connection_epoch e of None \<Rightarrow> 0 | Some n \<Rightarrow> n)"

definition event_instant :: "RawMarketEvent \<Rightarrow> instant" where
  "event_instant e = (case rme_exchange_timestamp e of None \<Rightarrow> rme_available_at e | Some t \<Rightarrow> t)"

definition fresh_book :: "RawMarketEvent \<Rightarrow> string \<Rightarrow> book \<Rightarrow> book \<Rightarrow> BookState" where
  "fresh_book e channel bids asks =
     \<lparr>bks_venue = rme_venue e, bks_instrument = rme_canonical_instrument_id e, bks_channel = channel,
      bks_connection_epoch = event_epoch e, bks_bids = bids, bks_asks = asks, bks_source_snapshot_event_id = rme_event_id e,
      bks_source_snapshot_available_at = rme_available_at e, bks_applied_delta_event_ids = [], bks_last_sequence = rme_sequence e,
      bks_exchange_timestamp = event_instant e, bks_received_at = rme_received_at e, bks_available_at = rme_available_at e,
      bks_normalizer_version = rme_normalizer_version e, bks_status = BOOK_VALID\<rparr>"

definition standalone_snapshot :: "shadow_env \<Rightarrow> instant \<Rightarrow> RawMarketEvent \<Rightarrow> CanonicalOrderBookSnapshot builds" where
  "standalone_snapshot env now e cb =
     (case bindE (event_payload env e) (\<lambda>payload.
           bindE (levels_of payload ''bids'') (\<lambda>bids.
           bindE (levels_of payload ''asks'') (\<lambda>asks. Inr (bids, asks)))) of
        Inl err \<Rightarrow> (Inl err, cb)
      | Inr (bids, asks) \<Rightarrow> canonical env now (fresh_book e [] [] []) bids asks cb)"

definition invalid_book ::
  "RawMarketEvent \<Rightarrow> book_key \<Rightarrow> FundingCarryRejectCode \<Rightarrow> CanonicalOrderBookStateBuilder \<Rightarrow> CanonicalOrderBookStateBuilder" where
  "invalid_book e key code cb =
     mark_invalid key (set_reason (''bitget'', rme_canonical_instrument_id e) code
       (bump (\<lambda>m. m\<lparr>obm_invalid_count := obm_invalid_count m + 1\<rparr>) cb))"

definition mark_gap :: "RawMarketEvent \<Rightarrow> book_key \<Rightarrow> CanonicalOrderBookStateBuilder \<Rightarrow> CanonicalOrderBookStateBuilder" where
  "mark_gap e key cb =
     invalid_book e key BITGET_ORDERBOOK_SEQUENCE_GAP (bump (\<lambda>m. m\<lparr>obm_sequence_gap_count := obm_sequence_gap_count m + 1\<rparr>) cb)"

definition book_channel :: "RawMarketEvent \<Rightarrow> string" where
  "book_channel e = (if rme_channel e = [] then ''orderbook'' else rme_channel e)"

definition book_key_of :: "RawMarketEvent \<Rightarrow> book_key" where
  "book_key_of e = (rme_venue e, rme_canonical_instrument_id e, book_channel e)"

definition book_update :: "document \<Rightarrow> document" where
  "book_update payload = (case py_get payload ''_book_update'' of JObj u \<Rightarrow> u | _ \<Rightarrow> payload)"

definition is_book_snapshot :: "RawMarketEvent \<Rightarrow> document \<Rightarrow> bool" where
  "is_book_snapshot e update \<longleftrightarrow> rme_event_type e = ''orderbook_snapshot'' \<or> py_get update ''action'' = JStr ''snapshot''"

text \<open>A validated book with a matching checksum.\<close>

definition validated :: "shadow_env \<Rightarrow> instant \<Rightarrow> document \<Rightarrow> BookState \<Rightarrow> CanonicalOrderBookSnapshot option builds" where
  "validated env now update st =
     bindS (from_state env now st) (\<lambda>snap. bindS (validate_checksum update snap) (\<lambda>_ cb. (Inr (Some snap), cb)))"

definition take_snapshot ::
  "shadow_env \<Rightarrow> instant \<Rightarrow> RawMarketEvent \<Rightarrow> document \<Rightarrow> CanonicalOrderBookSnapshot option builds" where
  "take_snapshot env now e update cb =
     (case bindE (levels_of update ''bids'') (\<lambda>bids. bindE (levels_of update ''asks'') (\<lambda>asks. Inr (book_of bids, book_of asks))) of
        Inl err \<Rightarrow> (Inl err, cb)
      | Inr (bids, asks) \<Rightarrow>
          let st = fresh_book e (book_channel e) bids asks in validated env now update st (set_book (book_key_of e) st cb))"

definition apply_sides :: "document \<Rightarrow> BookState \<Rightarrow> (unit, BookState) outcome" where
  "apply_sides update st =
     (case levels_of update ''bids'' of
        Inl err \<Rightarrow> (Inl err, st)
      | Inr bids \<Rightarrow>
          (case update_side bids (bks_bids st) of
             (Inl err, b) \<Rightarrow> (Inl err, st\<lparr>bks_bids := b\<rparr>)
           | (Inr _, b) \<Rightarrow>
               (case levels_of update ''asks'' of
                  Inl err \<Rightarrow> (Inl err, st\<lparr>bks_bids := b\<rparr>)
                | Inr asks \<Rightarrow>
                    (case update_side asks (bks_asks st) of
                       (r, a) \<Rightarrow> (r, st\<lparr>bks_bids := b, bks_asks := a\<rparr>)))))"

definition take_delta ::
  "shadow_env \<Rightarrow> instant \<Rightarrow> RawMarketEvent \<Rightarrow> document \<Rightarrow> BookState \<Rightarrow> CanonicalOrderBookSnapshot option builds" where
  "take_delta env now e update current cb =
     (case apply_sides update current of
        (Inl err, st) \<Rightarrow> (Inl err, set_book (book_key_of e) st cb)
      | (Inr _, st) \<Rightarrow>
          let st1 = st\<lparr>bks_applied_delta_event_ids := bks_applied_delta_event_ids st @ [rme_event_id e],
                      bks_last_sequence := (case rme_sequence e of Some n \<Rightarrow> Some n | None \<Rightarrow> bks_last_sequence st),
                      bks_exchange_timestamp := event_instant e, bks_received_at := rme_received_at e,
                      bks_available_at := rme_available_at e\<rparr> in
          validated env now update st1 (set_book (book_key_of e) st1 cb))"

datatype delta_fate = Delta_gap | Delta_old | Delta_next

definition delta_fate_of :: "RawMarketEvent \<Rightarrow> document \<Rightarrow> BookState \<Rightarrow> delta_fate" where
  "delta_fate_of e update current =
     (let given = py_get update ''previous_sequence''; previous = (if given = JNull then None else py_int (py_str given)) in
      if given \<noteq> JNull \<and> previous = None then Delta_gap
      else case (rme_sequence e, bks_last_sequence current) of
        (Some n, Some latest) \<Rightarrow>
          if n \<le> latest then Delta_old
          else if (case previous of Some p \<Rightarrow> p \<noteq> latest | None \<Rightarrow> n \<noteq> latest + 1) then Delta_gap
          else Delta_next
      | _ \<Rightarrow> Delta_next)"

definition apply_book_delta ::
  "shadow_env \<Rightarrow> instant \<Rightarrow> RawMarketEvent \<Rightarrow> document \<Rightarrow> CanonicalOrderBookSnapshot option builds" where
  "apply_book_delta env now e update cb0 =
     (let key = book_key_of e; cb = bump (\<lambda>m. m\<lparr>obm_delta_count := obm_delta_count m + 1\<rparr>) cb0 in
      case map_of (cb_states cb) key of
        None \<Rightarrow> (Inr None, set_reason (''bitget'', rme_canonical_instrument_id e) BITGET_ORDERBOOK_STATE_NOT_INITIALIZED cb)
      | Some current \<Rightarrow>
          if bks_status current = BOOK_INVALID then (Inr None, cb)
          else case delta_fate_of e update current of
            Delta_gap \<Rightarrow> (Inr None, mark_gap e key cb)
          | Delta_old \<Rightarrow> (Inr None, bump (\<lambda>m. m\<lparr>obm_out_of_order_count := obm_out_of_order_count m + 1\<rparr>) cb)
          | Delta_next \<Rightarrow>
              catch_value_error (take_delta env now e update current)
                (\<lambda>msg cb1. (Inr None, invalid_book e key (validation_reason msg) cb1)) cb)"

definition reset_on_reconnect :: "RawMarketEvent \<Rightarrow> CanonicalOrderBookStateBuilder \<Rightarrow> CanonicalOrderBookStateBuilder" where
  "reset_on_reconnect e cb =
     (case map_of (cb_states cb) (book_key_of e) of
        None \<Rightarrow> cb
      | Some current \<Rightarrow>
          if bks_connection_epoch current \<noteq> event_epoch e then
            (bump (\<lambda>m. m\<lparr>obm_reconnect_reset_count := obm_reconnect_reset_count m + 1\<rparr>) cb)
              \<lparr>cb_states := dict_del (book_key_of e) (cb_states cb)\<rparr>
          else cb)"

definition apply_bitget :: "shadow_env \<Rightarrow> instant \<Rightarrow> RawMarketEvent \<Rightarrow> CanonicalOrderBookSnapshot option builds" where
  "apply_bitget env now e cb0 =
     (let cb = reset_on_reconnect e cb0 in
      case event_payload env e of
        Inl err \<Rightarrow> (Inl err, cb)
      | Inr payload \<Rightarrow>
          let update = book_update payload in
          if is_book_snapshot e update then
            catch_value_error (take_snapshot env now e update)
              (\<lambda>msg cb1. (Inr None, invalid_book e (book_key_of e) (validation_reason msg) cb1))
              (bump (\<lambda>m. m\<lparr>obm_snapshot_count := obm_snapshot_count m + 1\<rparr>) cb)
          else apply_book_delta env now e update cb)"

definition apply_event :: "shadow_env \<Rightarrow> instant \<Rightarrow> RawMarketEvent \<Rightarrow> CanonicalOrderBookSnapshot option builds" where
  "apply_event env now e cb =
     (if rme_venue e \<notin> {''hyperliquid'', ''bitget''} \<or>
         rme_canonical_instrument_id e \<notin> set FUNDING_CARRY_SHADOW_ALLOWED_INSTRUMENTS then (Inr None, cb)
      else if rme_event_type e \<notin> {''orderbook_snapshot'', ''orderbook_delta''} then (Inr None, cb)
      else if rme_venue e = ''hyperliquid'' then
        if rme_event_type e \<noteq> ''orderbook_snapshot'' then (Inr None, cb)
        else
          catch_value_error (\<lambda>cb. bindS (standalone_snapshot env now e) (\<lambda>snap cb1. (Inr (Some snap), cb1)) cb)
            (\<lambda>msg cb1. (Inr None, set_reason (rme_venue e, rme_canonical_instrument_id e) (validation_reason msg)
               (bump (\<lambda>m. m\<lparr>obm_invalid_count := obm_invalid_count m + 1\<rparr>) cb1)))
            (bump (\<lambda>m. m\<lparr>obm_snapshot_count := obm_snapshot_count m + 1\<rparr>) cb)
      else apply_bitget env now e cb)"

end
