(* ===== verification/Shadow_Book_Safety.thy ===== *)
theory Shadow_Book_Safety
  imports Shadow_Books
begin

text \<open>
  What the canonical order books guarantee: every published book is well-formed, uncrossed and fresh, and
  a Bitget book is the replay of one snapshot and of every later delta of its connection, in order.
\<close>

section \<open>Published books\<close>

definition sound_book :: "CanonicalOrderBookStateBuilder \<Rightarrow> instant \<Rightarrow> CanonicalOrderBookSnapshot \<Rightarrow> bool" where
  "sound_book cb now snap \<longleftrightarrow>
     cob_bids snap \<noteq> [] \<and> cob_asks snap \<noteq> [] \<and>
     list_all (\<lambda>(p, q). 0 < pd_value p \<and> 0 < pd_value q) (cob_bids snap @ cob_asks snap) \<and>
     sorted (map (pd_value \<circ> fst) (rev (cob_bids snap))) \<and> sorted (map (pd_value \<circ> fst) (cob_asks snap)) \<and>
     cob_best_bid snap = fst (hd (cob_bids snap)) \<and> cob_best_ask snap = fst (hd (cob_asks snap)) \<and>
     pd_value (cob_best_bid snap) < pd_value (cob_best_ask snap) \<and>
     cob_exchange_timestamp snap \<le> now + cb_maximum_future cb \<and> now - cob_exchange_timestamp snap \<le> cb_maximum_age cb"

lemma sorted_prices: "sorted (map level_key ls) \<Longrightarrow> sorted (map (pd_value \<circ> fst) ls)"
  by (induction ls) (auto simp: level_key_def less_eq_prod_def)

lemma sorted_sides:
  "set (sorted_bids ls) = set ls" "set (sorted_asks ls) = set ls"
  "sorted (map (pd_value \<circ> fst) (rev (sorted_bids ls)))" "sorted (map (pd_value \<circ> fst) (sorted_asks ls))"
  "sorted_bids ls = [] \<longleftrightarrow> ls = []" "sorted_asks ls = [] \<longleftrightarrow> ls = []"
proof -
  have "sort_key level_key xs = [] \<longleftrightarrow> xs = []" for xs by (metis length_0_conv length_sort)
  then show "sorted_bids ls = [] \<longleftrightarrow> ls = []" "sorted_asks ls = [] \<longleftrightarrow> ls = []" by (simp_all add: sorted_bids_def sorted_asks_def)
qed (simp_all add: sorted_bids_def sorted_asks_def sorted_prices)

lemma canonical_sound:
  assumes "canonical env now st bids asks cb = (Inr snap, cb')"
  shows "sound_book cb now snap \<and> cob_venue snap = bks_venue st \<and> cob_instrument snap = bks_instrument st \<and>
    cob_connection_epoch snap = bks_connection_epoch st \<and> cob_bids snap = sorted_bids bids \<and> cob_asks snap = sorted_asks asks"
proof -
  have pos: "list_all (\<lambda>(p, q). 0 < pd_value p \<and> 0 < pd_value q) ls \<longleftrightarrow> \<not> list_ex (\<lambda>(p, q). pd_value p \<le> 0 \<or> pd_value q \<le> 0) ls" for ls
    by (induction ls) (auto simp: not_le)
  have perm: "list_ex P (sorted_bids bids @ sorted_asks asks) \<longleftrightarrow> list_ex P (bids @ asks)" for P
    by (auto simp: list_ex_iff sorted_sides)
  show ?thesis using assms unfolding canonical_def Let_def
    by (auto simp: sound_book_def sorted_sides pos perm not_le simp del: list_ex_append list_all_append split: if_splits)
qed

text \<open>What no operation of the builder but the states, counters and reasons changes.\<close>

lemma limits_kept [simp]:
  "cb_maximum_age (bump f cb) = cb_maximum_age cb" "cb_maximum_future (bump f cb) = cb_maximum_future cb" "cb_states (bump f cb) = cb_states cb"
  "cb_maximum_age (set_reason r c cb) = cb_maximum_age cb" "cb_maximum_future (set_reason r c cb) = cb_maximum_future cb"
  "cb_states (set_reason r c cb) = cb_states cb" "cb_maximum_age (set_book k st cb) = cb_maximum_age cb"
  "cb_maximum_future (set_book k st cb) = cb_maximum_future cb" "cb_states (set_book k st cb) = dict_set k st (cb_states cb)"
  "cb_maximum_age (mark_invalid k cb) = cb_maximum_age cb" "cb_maximum_future (mark_invalid k cb) = cb_maximum_future cb"
  "cb_maximum_age (reset_on_reconnect e cb) = cb_maximum_age cb" "cb_maximum_future (reset_on_reconnect e cb) = cb_maximum_future cb"
  by (simp_all add: bump_def set_reason_def set_book_def mark_invalid_def reset_on_reconnect_def split: option.splits)

lemma sound_book_cong:
  "cb_maximum_age cb = cb_maximum_age cb1 \<Longrightarrow> cb_maximum_future cb = cb_maximum_future cb1 \<Longrightarrow> sound_book cb now snap \<longleftrightarrow> sound_book cb1 now snap"
  by (simp add: sound_book_def)

text \<open>The checksum that came with an update, if any.\<close>

definition checksum_ok :: "document \<Rightarrow> CanonicalOrderBookSnapshot \<Rightarrow> bool" where
  "checksum_ok payload snap \<longleftrightarrow> (case py_get payload ''checksum'' of
     JNull \<Rightarrow> True
   | provided \<Rightarrow> py_int (py_str provided) \<in> {Some (book_checksum snap), Some (book_checksum snap - 2 ^ 32)})"

lemma validated_Some:
  assumes "validated env now payload st cb = (Inr r, cb')"
  obtains snap cb1 where "r = Some snap" "from_state env now st cb = (Inr snap, cb1)" "cb_states cb' = cb_states cb" "checksum_ok payload snap"
proof -
  obtain snap cb1 cb2 where a: "from_state env now st cb = (Inr snap, cb1)" "validate_checksum payload snap cb1 = (Inr (), cb2)"
      "r = Some snap" "cb' = cb2"
    using assms by (auto simp: validated_def bindS_def split: prod.splits sum.splits)
  have "cb_states cb1 = cb_states cb" using a(1) by (auto simp: from_state_def canonical_def Let_def split: if_splits)
  moreover have "cb2 = cb1 \<and> checksum_ok payload snap"
    using a(2) by (auto simp: validate_checksum_def checksum_ok_def Let_def split: if_splits option.splits json.splits)
  ultimately show ?thesis using that a by auto
qed

lemma validated_error:
  assumes "validated env now payload st cb = (Inl e, cb')"
  shows "(\<exists>m. e = ValueError m) \<and> cb_states cb' = cb_states cb"
  using assms
  by (auto simp: validated_def bindS_def from_state_def canonical_def validate_checksum_def Let_def split: prod.splits sum.splits if_splits option.splits)

definition shows_book :: "CanonicalOrderBookSnapshot \<Rightarrow> BookState \<Rightarrow> bool" where
  "shows_book snap st \<longleftrightarrow> set (cob_bids snap) = set (dict_values (bks_bids st)) \<and> set (cob_asks snap) = set (dict_values (bks_asks st)) \<and>
     cob_source_snapshot_event_id snap = bks_source_snapshot_event_id st \<and>
     cob_applied_delta_event_ids snap = bks_applied_delta_event_ids st \<and> cob_last_sequence snap = bks_last_sequence st"

lemma from_state_sound:
  assumes "from_state env now st cb = (Inr snap, cb1)"
  shows "sound_book cb now snap \<and> cob_venue snap = bks_venue st \<and> cob_instrument snap = bks_instrument st \<and>
    cob_connection_epoch snap = bks_connection_epoch st \<and> shows_book snap st"
proof -
  have "shows_book snap st"
    using assms by (auto simp: from_state_def canonical_def Let_def shows_book_def sorted_sides split: if_splits)
  then show ?thesis using canonical_sound [of env now st _ _ cb snap cb1] assms by (auto simp: from_state_def)
qed

lemma parse_errors: "parse_level j = Inl e \<Longrightarrow> \<exists>m. e = ValueError m" "parse_levels js = Inl e \<Longrightarrow> \<exists>m. e = ValueError m"
    "levels_of d s = Inl e \<Longrightarrow> \<exists>m. e = ValueError m" "update_side ls b = (Inl e, b') \<Longrightarrow> \<exists>m. e = ValueError m"
proof -
  show level: "\<exists>m. e = ValueError m" if "parse_level j = Inl e" for j e
    using that by (auto simp: parse_level_def bindE_Inl_iff split: json.splits list.splits option.splits parsed.splits if_splits)
  then show levels: "parse_levels js = Inl e \<Longrightarrow> \<exists>m. e = ValueError m" for js e by (induction js) (auto simp: bindE_Inl_iff)
  show "levels_of d s = Inl e \<Longrightarrow> \<exists>m. e = ValueError m" using levels by (auto simp: levels_of_def split: json.splits)
  show "update_side ls b = (Inl e, b') \<Longrightarrow> \<exists>m. e = ValueError m" by (induction ls b rule: update_side.induct) (auto split: if_splits)
qed

section \<open>What one event does to the state of its book\<close>

lemma caught:
  "catch_value_error m h cb = (Inr r, cb') \<longleftrightarrow>
     m cb = (Inr r, cb') \<or> (\<exists>msg cb1. m cb = (Inl (ValueError msg), cb1) \<and> h msg cb1 = (Inr r, cb'))"
  by (auto simp: catch_value_error_def split: prod.splits sum.splits error.splits)

lemma invalid_states:
  "cb_states (invalid_book e k c cb) = (case map_of (cb_states cb) k of None \<Rightarrow> cb_states cb
     | Some st \<Rightarrow> dict_set k (st\<lparr>bks_status := BOOK_INVALID\<rparr>) (cb_states cb))"
  by (simp add: invalid_book_def mark_invalid_def split: option.splits)

text \<open>The events that can reach the book under a key, and how a delta must follow.\<close>

definition reaches :: "book_key \<Rightarrow> RawMarketEvent \<Rightarrow> bool" where
  "reaches key e \<longleftrightarrow> book_key_of e = key \<and> rme_venue e = ''bitget'' \<and>
     rme_canonical_instrument_id e \<in> set FUNDING_CARRY_SHADOW_ALLOWED_INSTRUMENTS \<and>
     rme_event_type e \<in> {''orderbook_snapshot'', ''orderbook_delta''}"

definition update_of :: "shadow_env \<Rightarrow> RawMarketEvent \<Rightarrow> document" where
  "update_of env e = (case event_payload env e of Inr payload \<Rightarrow> book_update payload | Inl _ \<Rightarrow> [])"

definition side_of :: "shadow_env \<Rightarrow> string \<Rightarrow> RawMarketEvent \<Rightarrow> level list" where
  "side_of env side e = (case levels_of (update_of env e) side of Inr ls \<Rightarrow> ls | Inl _ \<Rightarrow> [])"

definition follows :: "shadow_env \<Rightarrow> int option \<Rightarrow> RawMarketEvent \<Rightarrow> bool" where
  "follows env latest e \<longleftrightarrow> (case (rme_sequence e, latest) of
     (Some n, Some m) \<Rightarrow> m < n \<and>
       (let given = py_get (update_of env e) ''previous_sequence'' in
        if given = JNull then n = m + 1 else py_int (py_str given) = Some m)
   | _ \<Rightarrow> True)"

definition next_sequence :: "RawMarketEvent \<Rightarrow> int option \<Rightarrow> int option" where
  "next_sequence e latest = (case rme_sequence e of Some n \<Rightarrow> Some n | None \<Rightarrow> latest)"

fun chained :: "shadow_env \<Rightarrow> int option \<Rightarrow> RawMarketEvent list \<Rightarrow> bool" where
  "chained env latest [] = True"
| "chained env latest (e # es) = (follows env latest e \<and> chained env (next_sequence e latest) es)"

definition replay :: "shadow_env \<Rightarrow> string \<Rightarrow> RawMarketEvent \<Rightarrow> RawMarketEvent list \<Rightarrow> book" where
  "replay env side s ds = fold (\<lambda>e b. snd (update_side (side_of env side e) b)) ds (book_of (side_of env side s))"

lemma fate_next: "delta_fate_of e (update_of env e) st = Delta_next \<Longrightarrow> follows env (bks_last_sequence st) e"
  by (auto simp: delta_fate_of_def follows_def Let_def split: if_splits option.splits)

lemma fate_old:
  "delta_fate_of e u st = Delta_old \<Longrightarrow> \<exists>n m. rme_sequence e = Some n \<and> bks_last_sequence st = Some m \<and> n \<le> m"
  by (auto simp: delta_fate_of_def Let_def split: if_splits option.splits)

lemma chained_append: "chained env l (ds @ [e]) \<longleftrightarrow> chained env l ds \<and> follows env (fold next_sequence ds l) e"
  by (induction ds arbitrary: l) auto

section \<open>Steps of a book\<close>

definition book_identity :: "book_key \<Rightarrow> BookState \<Rightarrow> bool" where
  "book_identity key st \<longleftrightarrow> (bks_venue st, bks_instrument st, bks_channel st) = key"

definition extended_book :: "RawMarketEvent \<Rightarrow> book \<Rightarrow> book \<Rightarrow> BookState \<Rightarrow> BookState" where
  "extended_book e bids asks st =
     st\<lparr>bks_bids := bids, bks_asks := asks, bks_applied_delta_event_ids := bks_applied_delta_event_ids st @ [rme_event_id e],
        bks_last_sequence := next_sequence e (bks_last_sequence st), bks_exchange_timestamp := event_instant e,
        bks_received_at := rme_received_at e, bks_available_at := rme_available_at e\<rparr>"

inductive book_step :: "shadow_env \<Rightarrow> RawMarketEvent \<Rightarrow> BookState option \<Rightarrow> CanonicalOrderBookSnapshot option \<Rightarrow> BookState option \<Rightarrow> bool"
  for env e where
  gone: "old = None \<or> (\<exists>st. old = Some st \<and> bks_connection_epoch st \<noteq> event_epoch e) \<Longrightarrow> book_step env e old None None"
| invalid: "bks_status st = BOOK_INVALID \<Longrightarrow> book_identity (book_key_of e) st0 \<longrightarrow> book_identity (book_key_of e) st \<Longrightarrow>
    old = Some st0 \<or> st0 = fresh_book e (book_channel e) [] [] \<Longrightarrow> bks_connection_epoch st = event_epoch e \<Longrightarrow>
    book_step env e old None (Some st)"
| snapshot: "is_book_snapshot e (update_of env e) \<Longrightarrow>
    cob_venue snap = rme_venue e \<Longrightarrow> cob_instrument snap = rme_canonical_instrument_id e \<Longrightarrow> cob_connection_epoch snap = event_epoch e \<Longrightarrow>
    new = fresh_book e (book_channel e) (book_of (side_of env ''bids'' e)) (book_of (side_of env ''asks'' e)) \<Longrightarrow> shows_book snap new \<Longrightarrow>
    book_step env e old (Some snap) (Some new)"
| old: "bks_connection_epoch st = event_epoch e \<Longrightarrow> rme_sequence e = Some n \<Longrightarrow> bks_last_sequence st = Some m \<Longrightarrow> n \<le> m \<Longrightarrow>
    book_step env e (Some st) None (Some st)"
| delta: "bks_connection_epoch st = event_epoch e \<Longrightarrow> bks_status st \<noteq> BOOK_INVALID \<Longrightarrow> follows env (bks_last_sequence st) e \<Longrightarrow>
    cob_venue snap = bks_venue st \<Longrightarrow> cob_instrument snap = bks_instrument st \<Longrightarrow> cob_connection_epoch snap = event_epoch e \<Longrightarrow>
    new = extended_book e (snd (update_side (side_of env ''bids'' e) (bks_bids st))) (snd (update_side (side_of env ''asks'' e) (bks_asks st))) st \<Longrightarrow>
    shows_book snap new \<Longrightarrow> book_step env e (Some st) (Some snap) (Some new)"

lemma fresh_identity [simp]: "book_identity (book_key_of e) (fresh_book e (book_channel e) b a)" "bks_connection_epoch (fresh_book e c b a) = event_epoch e"
  by (simp_all add: book_identity_def fresh_book_def book_key_of_def)

lemma mark_identity [simp]:
  "book_identity k (st\<lparr>bks_status := x\<rparr>) = book_identity k st" "book_identity k (extended_book e b a st) = book_identity k st"
  "book_identity k (st\<lparr>bks_bids := b\<rparr>) = book_identity k st" "book_identity k (st\<lparr>bks_bids := b, bks_asks := a\<rparr>) = book_identity k st"
  by (simp_all add: book_identity_def extended_book_def)

lemma marked: "map_of (cb_states (invalid_book e k c cb)) k = map_option (\<lambda>st. st\<lparr>bks_status := BOOK_INVALID\<rparr>) (map_of (cb_states cb) k)"
    "j \<noteq> k \<Longrightarrow> map_of (cb_states (invalid_book e k c cb)) j = map_of (cb_states cb) j"
  by (simp_all add: invalid_states split: option.splits)

lemma snapshot_step:
  assumes "take_snapshot env now e (update_of env e) cb = (r, cb1)" "is_book_snapshot e (update_of env e)"
  shows "(\<forall>j. j \<noteq> book_key_of e \<longrightarrow> map_of (cb_states cb1) j = map_of (cb_states cb) j) \<and>
    (case r of
       Inl err \<Rightarrow> (\<exists>m. err = ValueError m) \<and> (map_of (cb_states cb1) (book_key_of e) = map_of (cb_states cb) (book_key_of e) \<or>
         (\<exists>b a. map_of (cb_states cb1) (book_key_of e) = Some (fresh_book e (book_channel e) b a)))
     | Inr x \<Rightarrow> book_step env e old x (map_of (cb_states cb1) (book_key_of e)) \<and>
         (\<forall>snap. x = Some snap \<longrightarrow> sound_book cb now snap \<and> checksum_ok (update_of env e) snap) \<and> x \<noteq> None)"
proof (cases "bindE (levels_of (update_of env e) ''bids'') (\<lambda>bids. bindE (levels_of (update_of env e) ''asks'') (\<lambda>asks. Inr (book_of bids, book_of asks)))")
  case (Inl err)
  then have "\<exists>m. err = ValueError m" by (auto simp: bindE_Inl_iff dest: parse_errors)
  then show ?thesis using assms Inl by (auto simp: take_snapshot_def)
next
  case (Inr ba)
  then obtain bids asks where ls: "levels_of (update_of env e) ''bids'' = Inr bids" "levels_of (update_of env e) ''asks'' = Inr asks"
      "ba = (book_of bids, book_of asks)" by auto
  let ?st = "fresh_book e (book_channel e) (book_of bids) (book_of asks)"
  have v: "validated env now (update_of env e) ?st (set_book (book_key_of e) ?st cb) = (r, cb1)"
    using assms(1) Inr ls by (simp add: take_snapshot_def Let_def)
  have sides: "side_of env ''bids'' e = bids" "side_of env ''asks'' e = asks" using ls by (simp_all add: side_of_def)
  show ?thesis
  proof (cases r)
    case (Inl err)
    then show ?thesis using validated_error [of env now _ ?st _ err cb1] v by auto
  next
    case (Inr x)
    obtain snap cb2 where s: "x = Some snap" "from_state env now ?st (set_book (book_key_of e) ?st cb) = (Inr snap, cb2)"
        "cb_states cb1 = cb_states (set_book (book_key_of e) ?st cb)" "checksum_ok (update_of env e) snap"
      using validated_Some v Inr by metis
    note f = from_state_sound [OF s(2)]
    have "book_step env e old (Some snap) (Some ?st)"
      using f by (intro book_step.snapshot [OF assms(2)]) (simp_all add: fresh_book_def sides)
    moreover have "sound_book cb now snap" using f sound_book_cong [of cb "set_book (book_key_of e) ?st cb" now snap] by simp
    ultimately show ?thesis using s Inr by simp
  qed
qed

lemma sides_step:
  assumes "apply_sides u st = (r, st1)"
  shows "(\<exists>b a. st1 = st\<lparr>bks_bids := b, bks_asks := a\<rparr>) \<and> (\<forall>err. r = Inl err \<longrightarrow> (\<exists>m. err = ValueError m)) \<and>
    (\<forall>x. r = Inr x \<longrightarrow> (\<exists>bids asks. levels_of u ''bids'' = Inr bids \<and> levels_of u ''asks'' = Inr asks \<and>
       st1 = st\<lparr>bks_bids := snd (update_side bids (bks_bids st)), bks_asks := snd (update_side asks (bks_asks st))\<rparr>))"
proof -
  have same: "st = st\<lparr>bks_bids := bks_bids st, bks_asks := bks_asks st\<rparr>" "st\<lparr>bks_bids := b\<rparr> = st\<lparr>bks_bids := b, bks_asks := bks_asks st\<rparr>" for b
    by simp_all
  show ?thesis using assms unfolding apply_sides_def
    by (auto split: sum.splits prod.splits dest: parse_errors) (metis same)+
qed

lemma delta_step:
  assumes "take_delta env now e (update_of env e) st cb = (r, cb1)" "bks_connection_epoch st = event_epoch e"
    "bks_status st \<noteq> BOOK_INVALID" "follows env (bks_last_sequence st) e"
  shows "(\<forall>j. j \<noteq> book_key_of e \<longrightarrow> map_of (cb_states cb1) j = map_of (cb_states cb) j) \<and>
    (case r of
       Inl err \<Rightarrow> (\<exists>m. err = ValueError m) \<and> (\<exists>st1. map_of (cb_states cb1) (book_key_of e) = Some st1 \<and>
         bks_connection_epoch st1 = event_epoch e \<and> (book_identity (book_key_of e) st \<longrightarrow> book_identity (book_key_of e) st1))
     | Inr x \<Rightarrow> book_step env e (Some st) x (map_of (cb_states cb1) (book_key_of e)) \<and>
         (\<forall>snap. x = Some snap \<longrightarrow> sound_book cb now snap \<and> checksum_ok (update_of env e) snap) \<and> x \<noteq> None)"
proof -
  obtain r1 st1 where sides: "apply_sides (update_of env e) st = (r1, st1)" by fastforce
  note sd = sides_step [OF sides]
  show ?thesis
  proof (cases r1)
    case (Inl err)
    then have "r = Inl err" "cb1 = set_book (book_key_of e) st1 cb" using assms(1) sides by (auto simp: take_delta_def)
    then show ?thesis using sd assms(2) Inl by auto
  next
    case (Inr u)
    then obtain bids asks where ls: "levels_of (update_of env e) ''bids'' = Inr bids" "levels_of (update_of env e) ''asks'' = Inr asks"
        "st1 = st\<lparr>bks_bids := snd (update_side bids (bks_bids st)), bks_asks := snd (update_side asks (bks_asks st))\<rparr>"
      using sd by blast
    let ?st = "extended_book e (snd (update_side bids (bks_bids st))) (snd (update_side asks (bks_asks st))) st"
    have v: "validated env now (update_of env e) ?st (set_book (book_key_of e) ?st cb) = (r, cb1)"
      using assms(1) sides Inr unfolding take_delta_def ls(3)
      by (cases "rme_sequence e") (simp_all add: extended_book_def next_sequence_def Let_def)
    have lv: "side_of env ''bids'' e = bids" "side_of env ''asks'' e = asks" using ls by (simp_all add: side_of_def)
    have st: "bks_connection_epoch ?st = event_epoch e" "bks_venue ?st = bks_venue st" "bks_instrument ?st = bks_instrument st"
      using assms(2) by (simp_all add: extended_book_def)
    show ?thesis
    proof (cases r)
      case (Inl err)
      then show ?thesis using validated_error [of env now _ ?st _ err cb1] v st by auto
    next
      case (Inr x)
      obtain snap cb2 where s: "x = Some snap" "from_state env now ?st (set_book (book_key_of e) ?st cb) = (Inr snap, cb2)"
          "cb_states cb1 = cb_states (set_book (book_key_of e) ?st cb)" "checksum_ok (update_of env e) snap"
        using validated_Some v Inr by metis
      note f = from_state_sound [OF s(2)]
      have "book_step env e (Some st) (Some snap) (Some ?st)"
        using f st by (intro book_step.delta [OF assms(2-4)]) (simp_all add: lv)
      moreover have "sound_book cb now snap" using f sound_book_cong [of cb "set_book (book_key_of e) ?st cb" now snap] by simp
      ultimately show ?thesis using s Inr by simp
    qed
  qed
qed

lemma reset_states:
  "j \<noteq> book_key_of e \<Longrightarrow> map_of (cb_states (reset_on_reconnect e cb)) j = map_of (cb_states cb) j"
  "map_of (cb_states (reset_on_reconnect e cb)) (book_key_of e) = None \<Longrightarrow>
     map_of (cb_states cb) (book_key_of e) = None \<or> (\<exists>st. map_of (cb_states cb) (book_key_of e) = Some st \<and> bks_connection_epoch st \<noteq> event_epoch e)"
  "map_of (cb_states (reset_on_reconnect e cb)) (book_key_of e) = Some st \<Longrightarrow>
     map_of (cb_states cb) (book_key_of e) = Some st \<and> bks_connection_epoch st = event_epoch e"
  by (auto simp: reset_on_reconnect_def delete_conv split: option.splits if_splits)

definition book_stepped ::
  "shadow_env \<Rightarrow> instant \<Rightarrow> RawMarketEvent \<Rightarrow> CanonicalOrderBookStateBuilder \<Rightarrow> CanonicalOrderBookSnapshot option \<Rightarrow>
   CanonicalOrderBookStateBuilder \<Rightarrow> bool" where
  "book_stepped env now e cb r cb' \<longleftrightarrow>
     (\<forall>j. j \<noteq> book_key_of e \<longrightarrow> map_of (cb_states cb') j = map_of (cb_states cb) j) \<and>
     book_step env e (map_of (cb_states cb) (book_key_of e)) r (map_of (cb_states cb') (book_key_of e)) \<and>
     (\<forall>snap. r = Some snap \<longrightarrow> sound_book cb now snap \<and> checksum_ok (update_of env e) snap)"

lemma marked_step:
  assumes "\<And>j. j \<noteq> book_key_of e \<Longrightarrow> map_of (cb_states cb1) j = map_of (cb_states cb) j"
    "map_of (cb_states cb1) (book_key_of e) = None \<Longrightarrow>
       map_of (cb_states cb) (book_key_of e) = None \<or> (\<exists>st. map_of (cb_states cb) (book_key_of e) = Some st \<and> bks_connection_epoch st \<noteq> event_epoch e)"
    "\<And>st. map_of (cb_states cb1) (book_key_of e) = Some st \<Longrightarrow> bks_connection_epoch st = event_epoch e \<and>
       (\<exists>st0. (book_identity (book_key_of e) st0 \<longrightarrow> book_identity (book_key_of e) st) \<and>
         (map_of (cb_states cb) (book_key_of e) = Some st0 \<or> st0 = fresh_book e (book_channel e) [] []))"
  shows "book_stepped env now e cb None (invalid_book e (book_key_of e) c cb1)"
proof (cases "map_of (cb_states cb1) (book_key_of e)")
  case None
  then show ?thesis using assms(1,2) by (auto simp: book_stepped_def marked intro: book_step.gone)
next
  case (Some st)
  then have st: "bks_connection_epoch (st\<lparr>bks_status := BOOK_INVALID\<rparr>) = event_epoch e" using assms(3) by simp
  obtain st0 where st0: "book_identity (book_key_of e) st0 \<longrightarrow> book_identity (book_key_of e) st"
      "map_of (cb_states cb) (book_key_of e) = Some st0 \<or> st0 = fresh_book e (book_channel e) [] []"
    using assms(3) [OF Some] by blast
  have "book_step env e (map_of (cb_states cb) (book_key_of e)) None (Some (st\<lparr>bks_status := BOOK_INVALID\<rparr>))"
    by (rule book_step.invalid [OF _ _ st0(2) st]) (use st0(1) in simp_all)
  then show ?thesis using assms(1) Some by (auto simp: book_stepped_def marked)
qed

lemma bitget_delta_step:
  assumes "apply_book_delta env now e (update_of env e) cb1 = (Inr r, cb')"
    and "\<And>j. j \<noteq> book_key_of e \<Longrightarrow> map_of (cb_states cb1) j = map_of (cb_states cb) j"
    and "map_of (cb_states cb1) (book_key_of e) = None \<Longrightarrow>
       map_of (cb_states cb) (book_key_of e) = None \<or> (\<exists>st. map_of (cb_states cb) (book_key_of e) = Some st \<and> bks_connection_epoch st \<noteq> event_epoch e)"
    and "\<And>st. map_of (cb_states cb1) (book_key_of e) = Some st \<Longrightarrow>
       map_of (cb_states cb) (book_key_of e) = Some st \<and> bks_connection_epoch st = event_epoch e"
    and "cb_maximum_age cb1 = cb_maximum_age cb" "cb_maximum_future cb1 = cb_maximum_future cb"
  shows "book_stepped env now e cb r cb'"
proof (cases "map_of (cb_states cb1) (book_key_of e)")
  case None
  then have "book_step env e (map_of (cb_states cb) (book_key_of e)) None None" by (intro book_step.gone assms(3))
  then show ?thesis using assms(1,2) None by (auto simp: apply_book_delta_def Let_def book_stepped_def)
next
  case (Some st)
  note st = assms(4) [OF Some]
  let ?cb = "bump (\<lambda>m. m\<lparr>obm_delta_count := obm_delta_count m + 1\<rparr>) cb1"
  show ?thesis
  proof (cases "bks_status st = BOOK_INVALID")
    case True
    then have "book_step env e (Some st) None (Some st)" using st by (intro book_step.invalid) auto
    then show ?thesis using assms(1,2) Some True st by (auto simp: apply_book_delta_def Let_def book_stepped_def)
  next
    case valid: False
    show ?thesis
    proof (cases "delta_fate_of e (update_of env e) st")
      case Delta_gap
      then have "r = None" "cb' = mark_gap e (book_key_of e) ?cb" using assms(1) Some valid by (auto simp: apply_book_delta_def Let_def)
      moreover have "book_stepped env now e cb None (mark_gap e (book_key_of e) ?cb)"
        unfolding mark_gap_def by (rule marked_step) (use assms(2) Some st in auto)
      ultimately show ?thesis by simp
    next
      case Delta_old
      then obtain n m where "rme_sequence e = Some n" "bks_last_sequence st = Some m" "n \<le> m" using fate_old by blast
      then have "book_step env e (Some st) None (Some st)" using st by (intro book_step.old) auto
      then show ?thesis using assms(1,2) Some valid Delta_old st by (auto simp: apply_book_delta_def Let_def book_stepped_def)
    next
      case Delta_next
      note step = delta_step [OF _ conjunct2 [OF st] valid fate_next [OF Delta_next]]
      have "catch_value_error (take_delta env now e (update_of env e) st) (\<lambda>msg cb1. (Inr None, invalid_book e (book_key_of e) (validation_reason msg) cb1)) ?cb = (Inr r, cb')"
        using assms(1) Some valid Delta_next by (auto simp: apply_book_delta_def Let_def)
      then consider (ok) "take_delta env now e (update_of env e) st ?cb = (Inr r, cb')"
        | (err) msg cb2 where "take_delta env now e (update_of env e) st ?cb = (Inl (ValueError msg), cb2)" "r = None"
            "cb' = invalid_book e (book_key_of e) (validation_reason msg) cb2"
        unfolding caught by auto
      then show ?thesis
      proof cases
        case ok
        have "sound_book ?cb now snap \<longleftrightarrow> sound_book cb now snap" for snap by (rule sound_book_cong) (simp_all add: assms(5,6))
        then show ?thesis using step [OF ok] assms(2) st by (simp add: book_stepped_def)
      next
        case err
        then show ?thesis using step [OF err(1)] assms(2) st by (auto intro!: marked_step)
      qed
    qed
  qed
qed

lemma bitget_step:
  assumes "apply_bitget env now e cb = (Inr r, cb')"
  shows "book_stepped env now e cb r cb'"
proof -
  let ?cb = "reset_on_reconnect e cb"
  obtain payload where p: "event_payload env e = Inr payload" using assms by (auto simp: apply_bitget_def Let_def split: sum.splits)
  then have u: "book_update payload = update_of env e" by (simp add: update_of_def)
  show ?thesis
  proof (cases "is_book_snapshot e (update_of env e)")
    case False
    then have "apply_book_delta env now e (update_of env e) ?cb = (Inr r, cb')" using assms p u by (simp add: apply_bitget_def Let_def)
    from bitget_delta_step [OF this reset_states(1) reset_states(2) reset_states(3)] show ?thesis by simp
  next
    case True
    let ?cb1 = "bump (\<lambda>m. m\<lparr>obm_snapshot_count := obm_snapshot_count m + 1\<rparr>) ?cb"
    have "catch_value_error (take_snapshot env now e (update_of env e)) (\<lambda>msg cb1. (Inr None, invalid_book e (book_key_of e) (validation_reason msg) cb1)) ?cb1 = (Inr r, cb')"
      using assms p u True by (simp add: apply_bitget_def Let_def)
    then consider (ok) "take_snapshot env now e (update_of env e) ?cb1 = (Inr r, cb')"
      | (err) msg cb2 where "take_snapshot env now e (update_of env e) ?cb1 = (Inl (ValueError msg), cb2)" "r = None"
          "cb' = invalid_book e (book_key_of e) (validation_reason msg) cb2"
      unfolding caught by auto
    then show ?thesis
    proof cases
      case ok
      have "sound_book ?cb1 now snap \<longleftrightarrow> sound_book cb now snap" for snap by (rule sound_book_cong) simp_all
      then show ?thesis using snapshot_step [OF ok True, of "map_of (cb_states cb) (book_key_of e)"]
        by (simp add: book_stepped_def reset_states(1))
    next
      case err
      have s: "\<And>j. j \<noteq> book_key_of e \<Longrightarrow> map_of (cb_states cb2) j = map_of (cb_states cb) j"
          "map_of (cb_states cb2) (book_key_of e) = map_of (cb_states ?cb) (book_key_of e) \<or>
           (\<exists>b a. map_of (cb_states cb2) (book_key_of e) = Some (fresh_book e (book_channel e) b a))"
        using snapshot_step [OF err(1) True] reset_states(1) by auto
      show ?thesis unfolding err(2,3)
      proof (rule marked_step)
        fix st assume st: "map_of (cb_states cb2) (book_key_of e) = Some st"
        then show "bks_connection_epoch st = event_epoch e \<and> (\<exists>st0. (book_identity (book_key_of e) st0 \<longrightarrow> book_identity (book_key_of e) st) \<and>
            (map_of (cb_states cb) (book_key_of e) = Some st0 \<or> st0 = fresh_book e (book_channel e) [] []))"
          using s(2) reset_states(3) [of e cb st] by auto
      qed (use s reset_states(2) [of e cb] in auto)
    qed
  qed
qed

section \<open>Runs\<close>

fun apply_events :: "shadow_env \<Rightarrow> (instant \<times> RawMarketEvent) list \<Rightarrow> CanonicalOrderBookSnapshot option list builds" where
  "apply_events env [] cb = (Inr [], cb)"
| "apply_events env ((now, e) # es) cb =
     bindS (apply_event env now e) (\<lambda>r. bindS (apply_events env es) (\<lambda>rs cb1. (Inr (r # rs), cb1))) cb"

definition explained :: "shadow_env \<Rightarrow> RawMarketEvent list \<Rightarrow> book_key \<Rightarrow> BookState \<Rightarrow> bool" where
  "explained env es key st \<longleftrightarrow> (\<exists>pre s post ds. es = pre @ s # post \<and> subseq ds post \<and> is_book_snapshot s (update_of env s) \<and>
     list_all (\<lambda>e. reaches key e \<and> event_epoch e = bks_connection_epoch st) (s # ds) \<and>
     bks_source_snapshot_event_id st = rme_event_id s \<and> bks_applied_delta_event_ids st = map rme_event_id ds \<and>
     bks_bids st = replay env ''bids'' s ds \<and> bks_asks st = replay env ''asks'' s ds \<and>
     chained env (rme_sequence s) ds \<and> bks_last_sequence st = fold next_sequence ds (rme_sequence s) \<and>
     list_all (\<lambda>e. reaches key e \<longrightarrow> e \<in> set ds \<or>
       (\<exists>n m. rme_sequence e = Some n \<and> bks_last_sequence st = Some m \<and> n \<le> m)) post)"

definition books_explained :: "shadow_env \<Rightarrow> RawMarketEvent list \<Rightarrow> CanonicalOrderBookStateBuilder \<Rightarrow> bool" where
  "books_explained env es cb \<longleftrightarrow> (\<forall>key st. map_of (cb_states cb) key = Some st \<longrightarrow>
     book_identity key st \<and> (bks_status st \<noteq> BOOK_INVALID \<longrightarrow> explained env es key st))"

lemma explained_skip:
  assumes "explained env es key st"
    and "reaches key e \<Longrightarrow> \<exists>n m. rme_sequence e = Some n \<and> bks_last_sequence st = Some m \<and> n \<le> m"
  shows "explained env (es @ [e]) key st"
proof -
  obtain pre s post ds where x: "es = pre @ s # post" "subseq ds post" "is_book_snapshot s (update_of env s)"
      "list_all (\<lambda>e. reaches key e \<and> event_epoch e = bks_connection_epoch st) (s # ds)"
      "bks_source_snapshot_event_id st = rme_event_id s" "bks_applied_delta_event_ids st = map rme_event_id ds"
      "bks_bids st = replay env ''bids'' s ds" "bks_asks st = replay env ''asks'' s ds"
      "chained env (rme_sequence s) ds" "bks_last_sequence st = fold next_sequence ds (rme_sequence s)"
      "list_all (\<lambda>e. reaches key e \<longrightarrow> e \<in> set ds \<or> (\<exists>n m. rme_sequence e = Some n \<and> bks_last_sequence st = Some m \<and> n \<le> m)) post"
    using assms(1) unfolding explained_def by blast
  have "subseq ds (post @ [e])" using x(2) by (rule list_emb_prefix)
  moreover have "list_all (\<lambda>e. reaches key e \<longrightarrow> e \<in> set ds \<or>
      (\<exists>n m. rme_sequence e = Some n \<and> bks_last_sequence st = Some m \<and> n \<le> m)) (post @ [e])"
    using x(11) assms(2) unfolding list_all_append by simp
  ultimately show ?thesis unfolding explained_def using x
    by (intro exI [of _ pre] exI [of _ s] exI [of _ "post @ [e]"] exI [of _ ds] conjI) simp_all
qed

lemma explained_other: "\<not> reaches key e \<Longrightarrow> explained env es key st \<Longrightarrow> explained env (es @ [e]) key st"
  by (rule explained_skip) simp_all

lemma explained_old:
  assumes "explained env es key st" "rme_sequence e = Some n" "bks_last_sequence st = Some m" "n \<le> m"
  shows "explained env (es @ [e]) key st"
  by (rule explained_skip [OF assms(1)]) (simp add: assms(2-4))

lemma explained_fresh:
  assumes "reaches key e" "is_book_snapshot e (update_of env e)"
  shows "explained env (es @ [e]) key (fresh_book e c (book_of (side_of env ''bids'' e)) (book_of (side_of env ''asks'' e)))"
  unfolding explained_def using assms
  by (intro exI [of _ es] exI [of _ e] exI [of _ "[]"]) (simp add: fresh_book_def replay_def)

lemma explained_delta:
  assumes "explained env es key st" "reaches key e" "event_epoch e = bks_connection_epoch st" "follows env (bks_last_sequence st) e"
  shows "explained env (es @ [e]) key (extended_book e (snd (update_side (side_of env ''bids'' e) (bks_bids st)))
    (snd (update_side (side_of env ''asks'' e) (bks_asks st))) st)"
proof -
  obtain pre s post ds where x: "es = pre @ s # post" "subseq ds post" "is_book_snapshot s (update_of env s)"
      "list_all (\<lambda>e. reaches key e \<and> event_epoch e = bks_connection_epoch st) (s # ds)"
      "bks_source_snapshot_event_id st = rme_event_id s" "bks_applied_delta_event_ids st = map rme_event_id ds"
      "bks_bids st = replay env ''bids'' s ds" "bks_asks st = replay env ''asks'' s ds"
      "chained env (rme_sequence s) ds" "bks_last_sequence st = fold next_sequence ds (rme_sequence s)"
      "list_all (\<lambda>e. reaches key e \<longrightarrow> e \<in> set ds \<or> (\<exists>n m. rme_sequence e = Some n \<and> bks_last_sequence st = Some m \<and> n \<le> m)) post"
    using assms(1) unfolding explained_def by blast
  have "\<exists>m'. next_sequence e (bks_last_sequence st) = Some m' \<and> m \<le> m'" if "bks_last_sequence st = Some m" for m
    using that assms(4) by (auto simp: next_sequence_def follows_def Let_def split: option.splits)
  then have "list_all (\<lambda>x. reaches key x \<longrightarrow> x \<in> set (ds @ [e]) \<or>
      (\<exists>n m. rme_sequence x = Some n \<and> next_sequence e (bks_last_sequence st) = Some m \<and> n \<le> m)) (post @ [e])"
    using x(11) order_trans unfolding list_all_iff set_append by fastforce
  moreover have "chained env (rme_sequence s) (ds @ [e])" using x(9,10) assms(4) by (simp add: chained_append)
  moreover have "subseq (ds @ [e]) (post @ [e])" using x(2) by simp
  ultimately show ?thesis unfolding explained_def using x assms(2,3)
    by (intro exI [of _ pre] exI [of _ s] exI [of _ "post @ [e]"] exI [of _ "ds @ [e]"]) (simp add: extended_book_def replay_def)
qed

text \<open>What an event publishes.\<close>

definition published_well :: "shadow_env \<Rightarrow> instant \<Rightarrow> RawMarketEvent \<Rightarrow> CanonicalOrderBookStateBuilder \<Rightarrow> CanonicalOrderBookSnapshot \<Rightarrow> bool" where
  "published_well env now e cb snap \<longleftrightarrow> sound_book cb now snap \<and> cob_venue snap = rme_venue e \<and>
     cob_instrument snap = rme_canonical_instrument_id e \<and> cob_connection_epoch snap = event_epoch e \<and>
     (rme_venue e = ''bitget'' \<longrightarrow> checksum_ok (update_of env e) snap)"

lemma event_cases:
  assumes "apply_event env now e cb = (Inr r, cb')"
  obtains (none) "r = None" "cb_states cb' = cb_states cb" "\<And>key. \<not> reaches key e"
  | (hyperliquid) cb1 snap where "rme_venue e = ''hyperliquid''" "r = Some snap" "standalone_snapshot env now e cb1 = (Inr snap, cb')"
      "cb_maximum_age cb1 = cb_maximum_age cb" "cb_maximum_future cb1 = cb_maximum_future cb" "cb_states cb' = cb_states cb"
      "\<And>key. \<not> reaches key e"
  | (bitget) "apply_bitget env now e cb = (Inr r, cb')" "reaches (book_key_of e) e"
proof (cases "rme_venue e \<in> {''hyperliquid'', ''bitget''} \<and> rme_canonical_instrument_id e \<in> set FUNDING_CARRY_SHADOW_ALLOWED_INSTRUMENTS \<and>
    rme_event_type e \<in> {''orderbook_snapshot'', ''orderbook_delta''}")
  case False
  have "apply_event env now e cb = (Inr None, cb)"
  proof (cases "rme_venue e \<notin> {''hyperliquid'', ''bitget''} \<or> rme_canonical_instrument_id e \<notin> set FUNDING_CARRY_SHADOW_ALLOWED_INSTRUMENTS")
    case True
    then show ?thesis unfolding apply_event_def by (rule if_P)
  next
    case known: False
    with False have "rme_event_type e \<notin> {''orderbook_snapshot'', ''orderbook_delta''}" by blast
    then show ?thesis unfolding apply_event_def if_not_P [OF known] by (rule if_P)
  qed
  moreover have "\<not> reaches key e" for key using False unfolding reaches_def by blast
  ultimately show ?thesis using assms none by simp
next
  case True
  show ?thesis
  proof (cases "rme_venue e = ''hyperliquid''")
    case False
    then have "reaches (book_key_of e) e" "apply_bitget env now e cb = (Inr r, cb')" using True assms by (auto simp: reaches_def apply_event_def)
    then show ?thesis by (intro bitget)
  next
    case hl: True
    then have nr: "\<not> reaches key e" for key by (simp add: reaches_def)
    show ?thesis
    proof (cases "rme_event_type e = ''orderbook_snapshot''")
      case False
      then show ?thesis using assms True hl nr none by (simp add: apply_event_def)
    next
      case snap: True
      let ?cb = "bump (\<lambda>m. m\<lparr>obm_snapshot_count := obm_snapshot_count m + 1\<rparr>) cb"
      have states: "cb_states cb2 = cb_states ?cb" if "standalone_snapshot env now e ?cb = (x, cb2)" for x cb2
        using that by (auto simp: standalone_snapshot_def canonical_def Let_def split: sum.splits if_splits)
      from assms True hl snap consider
          (ok) s where "standalone_snapshot env now e ?cb = (Inr s, cb')" "r = Some s"
        | (err) msg cb2 where "standalone_snapshot env now e ?cb = (Inl (ValueError msg), cb2)" "r = None" "cb_states cb' = cb_states cb2"
        by (auto simp: apply_event_def caught bindS_def split: prod.splits sum.splits)
      then show ?thesis
      proof cases
        case ok
        then show ?thesis using hyperliquid [OF hl ok(2,1)] states nr by simp
      next
        case err
        then show ?thesis using none states [OF err(1)] nr by simp
      qed
    qed
  qed
qed

lemma event_step:
  assumes "apply_event env now e cb = (Inr r, cb')" "books_explained env es cb"
  shows "books_explained env (es @ [e]) cb' \<and> (\<forall>snap. r = Some snap \<longrightarrow> published_well env now e cb snap) \<and>
    (reaches (book_key_of e) e \<longrightarrow> book_step env e (map_of (cb_states cb) (book_key_of e)) r (map_of (cb_states cb') (book_key_of e)))"
  using assms(1)
proof (cases rule: event_cases)
  case none
  then show ?thesis using assms(2) explained_other by (auto simp: books_explained_def)
next
  case (hyperliquid cb1 snap)
  then obtain bids asks where "canonical env now (fresh_book e [] [] []) bids asks cb1 = (Inr snap, cb')"
    by (auto simp: standalone_snapshot_def split: sum.splits)
  from canonical_sound [OF this] have "published_well env now e cb snap"
    using hyperliquid(1,4,5) sound_book_cong [of cb cb1 now snap] by (simp add: published_well_def fresh_book_def)
  then show ?thesis using assms(2) hyperliquid(2,6,7) explained_other by (auto simp: books_explained_def)
next
  case bitget
  let ?k = "book_key_of e"
  have st: "book_stepped env now e cb r cb'" by (rule bitget_step [OF bitget(1)])
  then have step: "book_step env e (map_of (cb_states cb) ?k) r (map_of (cb_states cb') ?k)"
      and pub: "\<And>snap. r = Some snap \<Longrightarrow> sound_book cb now snap \<and> checksum_ok (update_of env e) snap"
    unfolding book_stepped_def by blast+
  have other: "\<And>j. j \<noteq> ?k \<Longrightarrow> map_of (cb_states cb') j = map_of (cb_states cb) j" using st unfolding book_stepped_def by blast
  have id: "map_of (cb_states cb) ?k = Some x \<Longrightarrow> book_identity ?k x" for x using assms(2) unfolding books_explained_def by blast
  have ex: "map_of (cb_states cb) ?k = Some x \<Longrightarrow> bks_status x \<noteq> BOOK_INVALID \<Longrightarrow> explained env es ?k x" for x
    using assms(2) unfolding books_explained_def by blast
  have here: "book_identity ?k new \<and> (bks_status new \<noteq> BOOK_INVALID \<longrightarrow> explained env (es @ [e]) ?k new)"
    if "map_of (cb_states cb') ?k = Some new" for new
    using step that
  proof (cases rule: book_step.cases)
    case (invalid st st0)
    then show ?thesis using that id fresh_identity by auto
  next
    case (snapshot snap new')
    then show ?thesis using that explained_fresh [OF bitget(2)] by simp
  next
    case (old st n m)
    then show ?thesis using that id [of st] ex [of st] explained_old [of env es ?k st e n m] by simp
  next
    case (delta st snap new')
    then have "explained env es ?k st" using ex [of st] by simp
    then show ?thesis using delta that id [of st] explained_delta [OF _ bitget(2)] by simp
  qed simp
  have "books_explained env (es @ [e]) cb'"
    unfolding books_explained_def
  proof (intro allI impI)
    fix key x assume x: "map_of (cb_states cb') key = Some x"
    show "book_identity key x \<and> (bks_status x \<noteq> BOOK_INVALID \<longrightarrow> explained env (es @ [e]) key x)"
    proof (cases "key = ?k")
      case True
      then show ?thesis using here x by simp
    next
      case False
      then have "\<not> reaches key e" by (auto simp: reaches_def)
      then show ?thesis using assms(2) [unfolded books_explained_def, rule_format, of key x] x other [OF False] explained_other [of key e env es x] by simp
    qed
  qed
  moreover have "published_well env now e cb snap" if "r = Some snap" for snap
  proof -
    have "cob_venue snap = rme_venue e \<and> cob_instrument snap = rme_canonical_instrument_id e \<and> cob_connection_epoch snap = event_epoch e"
      using step that
    proof (cases rule: book_step.cases)
      case (delta st snap' new')
      then show ?thesis using that id [of st] by (auto simp: book_identity_def book_key_of_def)
    qed (use that in auto)
    then show ?thesis using pub [OF that] by (simp add: published_well_def)
  qed
  ultimately show ?thesis using step by blast
qed

end
