(* ===== verification/Shadow_Book_Guarantees.thy ===== *)
theory Shadow_Book_Guarantees
  imports Shadow_Book_Safety
begin

text \<open>
  The guarantees of the canonical order books over whole runs: what is published, what it is made of, that a
  book with a gap stays silent and that a sound snapshot always brings it back. Two small runs witness them.
\<close>

section \<open>Limits\<close>

definition limits :: "CanonicalOrderBookStateBuilder \<Rightarrow> timedelta \<times> timedelta" where
  "limits cb = (cb_maximum_age cb, cb_maximum_future cb)"

lemma limits_simps [simp]:
  "limits (bump f cb) = limits cb" "limits (set_reason r c cb) = limits cb" "limits (set_book k st cb) = limits cb"
  "limits (mark_invalid k cb) = limits cb" "limits (reset_on_reconnect e cb) = limits cb"
  "limits (invalid_book e k c cb) = limits cb" "limits (mark_gap e k cb) = limits cb"
  by (simp_all add: limits_def invalid_book_def mark_gap_def)

lemma limits_caught:
  assumes "catch_value_error m h cb = (r, cb')" "\<And>x cb1. m cb = (x, cb1) \<Longrightarrow> limits cb1 = limits cb"
    and "\<And>msg cb1 x cb2. h msg cb1 = (x, cb2) \<Longrightarrow> limits cb2 = limits cb1"
  shows "limits cb' = limits cb"
  using assms by (cases "m cb") (fastforce simp: catch_value_error_def split: sum.splits error.splits)

lemma limits_canonical: "canonical env now st bids asks cb = (r, cb') \<Longrightarrow> limits cb' = limits cb"
  by (auto simp: canonical_def Let_def split: if_splits)

lemma limits_validated: "validated env now u st cb = (r, cb') \<Longrightarrow> limits cb' = limits cb"
  by (auto simp: validated_def bindS_def from_state_def validate_checksum_def Let_def
      dest!: limits_canonical split: prod.splits sum.splits if_splits option.splits)

lemma limits_snapshot: "take_snapshot env now e u cb = (r, cb') \<Longrightarrow> limits cb' = limits cb"
  by (auto simp: take_snapshot_def Let_def dest!: limits_validated split: sum.splits)

lemma limits_delta: "take_delta env now e u st cb = (r, cb') \<Longrightarrow> limits cb' = limits cb"
  by (auto simp: take_delta_def Let_def dest!: limits_validated split: prod.splits sum.splits)

lemma limits_apply_delta:
  assumes "apply_book_delta env now e u cb = (r, cb')"
  shows "limits cb' = limits cb"
proof -
  have "limits cb' = limits cb1" if "catch_value_error (take_delta env now e u st) (\<lambda>msg cb1. (Inr None, invalid_book e k (validation_reason msg) cb1)) cb1 = (r, cb')"
    for st k cb1
    by (rule limits_caught [OF that]) (auto dest: limits_delta)
  then show ?thesis using assms by (auto simp: apply_book_delta_def Let_def split: option.splits if_splits delta_fate.splits)
qed

lemma limits_bitget:
  assumes "apply_bitget env now e cb = (r, cb')"
  shows "limits cb' = limits cb"
proof -
  have "limits cb' = limits cb1" if "catch_value_error (take_snapshot env now e u) (\<lambda>msg cb1. (Inr None, invalid_book e k (validation_reason msg) cb1)) cb1 = (r, cb')"
    for u k cb1
    by (rule limits_caught [OF that]) (auto dest: limits_snapshot)
  then show ?thesis using assms by (auto simp: apply_bitget_def Let_def dest!: limits_apply_delta split: sum.splits if_splits)
qed

lemma limits_event:
  assumes "apply_event env now e cb = (r, cb')"
  shows "limits cb' = limits cb"
proof -
  have "limits cb' = limits cb1" if "catch_value_error (\<lambda>cb. bindS (standalone_snapshot env now e) (\<lambda>snap cb1. (Inr (Some snap), cb1)) cb)
      (\<lambda>msg cb1. (Inr None, set_reason k (validation_reason msg) (bump f cb1))) cb1 = (r, cb')" for k f cb1
    by (rule limits_caught [OF that])
      (auto simp: bindS_def standalone_snapshot_def dest!: limits_canonical split: prod.splits sum.splits)
  note hl = this
  show ?thesis
  proof (cases "rme_venue e = ''hyperliquid''")
    case True
    then show ?thesis using assms hl by (auto simp: apply_event_def split: if_splits)
  next
    case False
    then have "(r, cb') = (Inr None, cb) \<or> apply_bitget env now e cb = (r, cb')" using assms by (auto simp: apply_event_def split: if_splits)
    then show ?thesis by (auto dest: limits_bitget)
  qed
qed

section \<open>Runs\<close>

lemma sound_limits: "limits cb = limits cb1 \<Longrightarrow> sound_book cb now snap \<longleftrightarrow> sound_book cb1 now snap"
  by (rule sound_book_cong) (simp_all add: limits_def)

lemma run_explained:
  assumes "apply_events env ts cb = (Inr rs, cb')" "books_explained env es cb"
  shows "books_explained env (es @ map snd ts) cb' \<and> limits cb' = limits cb"
  using assms
proof (induction ts arbitrary: cb es rs)
  case (Cons t ts)
  obtain now e where t: "t = (now, e)" by (cases t)
  obtain r cb1 rs1 where s: "apply_event env now e cb = (Inr r, cb1)" "apply_events env ts cb1 = (Inr rs1, cb')"
    using Cons.prems(1) by (auto simp: t bindS_def split: prod.splits sum.splits)
  show ?case using Cons.IH [OF s(2), of "es @ [e]"] event_step [OF s(1) Cons.prems(2)] limits_event [OF s(1)] by (simp add: t)
qed simp

lemma init_explained: "books_explained env [] (CanonicalOrderBookStateBuilder_init a f)"
  by (simp add: books_explained_def CanonicalOrderBookStateBuilder_init_def)

lemmas run_from_init = run_explained [OF _ init_explained, simplified]

text \<open>The books after any run.\<close>

lemma published_state:
  assumes "apply_event env now e cb = (Inr (Some snap), cb')" "reaches (book_key_of e) e" "books_explained env es cb"
  shows "\<exists>st. map_of (cb_states cb') (book_key_of e) = Some st \<and> bks_status st \<noteq> BOOK_INVALID \<and> shows_book snap st \<and> explained env (es @ [e]) (book_key_of e) st"
proof -
  have step: "book_step env e (map_of (cb_states cb) (book_key_of e)) (Some snap) (map_of (cb_states cb') (book_key_of e))"
    and ex: "books_explained env (es @ [e]) cb'" using event_step [OF assms(1,3)] assms(2) by blast+
  from step obtain st where "map_of (cb_states cb') (book_key_of e) = Some st" "bks_status st \<noteq> BOOK_INVALID" "shows_book snap st"
    by (cases rule: book_step.cases) (auto simp: fresh_book_def extended_book_def)
  then show ?thesis using ex unfolding books_explained_def by blast
qed

section \<open>Silence and recovery\<close>

lemma invalid_event:
  assumes "apply_event env now e cb = (Inr r, cb')" "map_of (cb_states cb) key = Some st" "bks_status st = BOOK_INVALID"
    and "reaches key e \<Longrightarrow> \<not> is_book_snapshot e (update_of env e) \<and> event_epoch e = bks_connection_epoch st"
  shows "map_of (cb_states cb') key = Some st \<and> (reaches key e \<longrightarrow> r = None)"
  using assms(1)
proof (cases rule: event_cases)
  case bitget
  show ?thesis
  proof (cases "reaches key e")
    case True
    then have k: "key = book_key_of e" by (simp add: reaches_def)
    have "reset_on_reconnect e cb = cb" using assms(2,4) True k by (simp add: reset_on_reconnect_def)
    moreover obtain payload where p: "event_payload env e = Inr payload"
      using bitget(1) by (auto simp: apply_bitget_def Let_def split: sum.splits)
    moreover have "book_update payload = update_of env e" using p by (simp add: update_of_def)
    ultimately have "apply_book_delta env now e (update_of env e) cb = (Inr r, cb')"
      using bitget(1) assms(4) True by (simp add: apply_bitget_def Let_def)
    then show ?thesis using assms(2,3) k by (auto simp: apply_book_delta_def Let_def)
  next
    case False
    then have "key \<noteq> book_key_of e" using bitget(2) by (auto simp: reaches_def)
    then show ?thesis using bitget_step [OF bitget(1), unfolded book_stepped_def, THEN conjunct1, rule_format, of key] assms(2) False by simp
  qed
qed (use assms(2) in simp_all)

lemma invalid_run:
  assumes "apply_events env ts cb = (Inr rs, cb')" "map_of (cb_states cb) key = Some st" "bks_status st = BOOK_INVALID"
    and "list_all (\<lambda>(now, e). reaches key e \<longrightarrow> \<not> is_book_snapshot e (update_of env e) \<and> event_epoch e = bks_connection_epoch st) ts"
  shows "map_of (cb_states cb') key = Some st \<and> list_all2 (\<lambda>(now, e) r. reaches key e \<longrightarrow> r = None) ts rs"
  using assms
proof (induction ts arbitrary: cb rs)
  case (Cons t ts)
  obtain now e where t: "t = (now, e)" by (cases t)
  obtain r cb1 rs1 where s: "apply_event env now e cb = (Inr r, cb1)" "apply_events env ts cb1 = (Inr rs1, cb')" "rs = r # rs1"
    using Cons.prems(1) by (auto simp: t bindS_def split: prod.splits sum.splits)
  have "map_of (cb_states cb1) key = Some st \<and> (reaches key e \<longrightarrow> r = None)"
    by (rule invalid_event [OF s(1) Cons.prems(2,3)]) (use Cons.prems(4) t in simp)
  then show ?case using Cons.IH [OF s(2) _ Cons.prems(3)] Cons.prems(4) s(3) t by simp
qed simp

lemma gap_marks:
  assumes "apply_event env now e cb = (Inr r, cb')" "reaches (book_key_of e) e" "map_of (cb_states cb) (book_key_of e) = Some st"
    and "event_epoch e = bks_connection_epoch st" "bks_status st \<noteq> BOOK_INVALID" "\<not> is_book_snapshot e (update_of env e)"
    and "delta_fate_of e (update_of env e) st = Delta_gap"
  shows "r = None \<and> map_of (cb_states cb') (book_key_of e) = Some (st\<lparr>bks_status := BOOK_INVALID\<rparr>)"
proof -
  have b: "apply_bitget env now e cb = (Inr r, cb')" using event_cases [OF assms(1)] assms(2) by blast
  then obtain payload where p: "event_payload env e = Inr payload" by (auto simp: apply_bitget_def Let_def split: sum.splits)
  moreover have "book_update payload = update_of env e" using p by (simp add: update_of_def)
  moreover have "reset_on_reconnect e cb = cb" using assms(3,4) by (simp add: reset_on_reconnect_def)
  ultimately have "apply_book_delta env now e (update_of env e) cb = (Inr r, cb')"
    using b assms(6) by (simp add: apply_bitget_def Let_def)
  then show ?thesis using assms(3,5,7) by (auto simp: apply_book_delta_def Let_def mark_gap_def marked)
qed

lemma book_of_mem:
  assumes "(p, q) \<in> set (dict_values (book_of ls))"
  shows "p \<in> fst ` set ls \<and> q \<in> snd ` set ls"
proof -
  have "\<forall>(k, p, q) \<in> set d. p \<in> fst ` A \<and> q \<in> snd ` A \<Longrightarrow> set ls \<subseteq> A \<Longrightarrow>
      \<forall>(k, p, q) \<in> set (foldl (\<lambda>d l. book_set l d) d ls). p \<in> fst ` A \<and> q \<in> snd ` A" for d A
  proof (induction ls arbitrary: d)
    case (Cons l ls)
    have "\<forall>(k, v) \<in> set (book_set l d). fst v \<in> fst ` A \<and> snd v \<in> snd ` A" unfolding book_set_def
      by (rule dict_set_all) (use Cons.prems in \<open>fastforce dest: map_of_SomeD split: option.splits\<close>)+
    then show ?case using Cons.IH [of "book_set l d"] Cons.prems(2) by (simp add: case_prod_unfold)
  qed simp
  from this [of "[]" "set ls"] assms show ?thesis by (force simp: book_of_def dict_values_def)
qed

lemma book_of_empty: "book_of ls = [] \<longleftrightarrow> ls = []"
proof -
  have "dict_set k v d \<noteq> []" for k :: dec and v :: level and d by (cases d) auto
  then have "ls \<noteq> [] \<Longrightarrow> foldl (\<lambda>d l. book_set l d) d ls \<noteq> []" for d
    by (induction ls rule: rev_induct) (simp_all add: book_set_def)
  then show ?thesis by (auto simp: book_of_def)
qed

lemma parsed_finite: "levels_of payload side = Inr ls \<Longrightarrow> (p, q) \<in> set ls \<Longrightarrow> dec_finite (pd_value p) \<and> dec_finite (pd_value q)"
proof -
  have level: "dec_finite (pd_value a) \<and> dec_finite (pd_value b)" if l: "parse_level j = Inr (a, b)" for j a b
  proof -
    obtain x y where "(case (parse_decimal (py_str x), parse_decimal (py_str y)) of
        (Some p, Some q) \<Rightarrow> (case (p, q) of
            (Parsed a, Parsed b) \<Rightarrow> if dec_finite (pd_value a) \<and> dec_finite (pd_value b) then Inr (a, b)
              else Inl (ValueError ''non-finite order-book level'')
          | _ \<Rightarrow> Inl (ValueError ''non-finite order-book level''))
       | _ \<Rightarrow> Inl (ValueError ''non-decimal order-book level'')) = Inr (a, b)"
      using l unfolding parse_level_def bindE_Inr_iff case_prod_unfold by blast
    then show ?thesis by (cases "parse_decimal (py_str x)"; cases "parse_decimal (py_str y)") (auto split: parsed.splits if_splits)
  qed
  have levels: "parse_levels js = Inr ls \<Longrightarrow> (p, q) \<in> set ls \<Longrightarrow> dec_finite (pd_value p) \<and> dec_finite (pd_value q)" for js
    by (induction js arbitrary: ls) (auto simp: bindE_Inr_iff dest: level)
  assume "levels_of payload side = Inr ls" "(p, q) \<in> set ls"
  then show ?thesis using levels by (auto simp: levels_of_def split: json.splits)
qed

section \<open>Guarantees\<close>

text \<open>
  C14. After any run, a book published for an event is sound: both sides are present and positive, bids
  fall and asks rise, the best bid is below the best ask and the quote is neither stale nor from the future;
  it is of the venue, instrument and connection of the event, and a Bitget book matches the checksum sent
  with the update.
\<close>
theorem canonical_books_sound:
  assumes "apply_events env ts (CanonicalOrderBookStateBuilder_init a f) = (Inr rs, cb)"
    and "apply_event env now e cb = (Inr (Some snap), cb')"
  shows "published_well env now e (CanonicalOrderBookStateBuilder_init a f) snap"
proof -
  note run = run_from_init [OF assms(1)]
  then have "published_well env now e cb snap" using event_step [OF assms(2), of "map snd ts"] by blast
  then show ?thesis using sound_limits [of cb _ now snap] run by (auto simp: published_well_def)
qed

text \<open>
  C13. After any run, a published Bitget book is the replay of received events: it shows the levels of one
  snapshot of its connection with the deltas after it applied in order, each continuing the sequence of the
  one before; no event for the book since that snapshot is left out but those whose sequence number was
  already behind the book.
\<close>
theorem book_is_replay:
  assumes "apply_events env ts (CanonicalOrderBookStateBuilder_init a f) = (Inr rs, cb)"
    and "apply_event env now e cb = (Inr (Some snap), cb')" and "rme_venue e = ''bitget''"
  shows "\<exists>st. shows_book snap st \<and> explained env (map snd ts @ [e]) (book_key_of e) st"
proof -
  have "reaches (book_key_of e) e" using event_cases [OF assms(2)] assms(3) by force
  from published_state [OF assms(2) this] run_from_init [OF assms(1)] show ?thesis by blast
qed

text \<open>
  C24. A delta that does not continue a valid Bitget book marks it invalid, and through any further events it
  stays exactly so and nothing is published for it, until a snapshot or another connection arrives.
\<close>
theorem gap_silences_book:
  assumes "apply_event env now e cb = (Inr r, cb1)" "reaches (book_key_of e) e" "map_of (cb_states cb) (book_key_of e) = Some st"
    and "event_epoch e = bks_connection_epoch st" "bks_status st \<noteq> BOOK_INVALID" "\<not> is_book_snapshot e (update_of env e)"
    and "delta_fate_of e (update_of env e) st = Delta_gap" "apply_events env ts cb1 = (Inr rs, cb')"
    and "list_all (\<lambda>(now, d). reaches (book_key_of e) d \<longrightarrow>
           \<not> is_book_snapshot d (update_of env d) \<and> event_epoch d = event_epoch e) ts"
  shows "r = None \<and> list_all2 (\<lambda>(now, d) x. reaches (book_key_of e) d \<longrightarrow> x = None) ts rs \<and>
    map_of (cb_states cb') (book_key_of e) = Some (st\<lparr>bks_status := BOOK_INVALID\<rparr>)"
  using gap_marks [OF assms(1-7)] invalid_run [OF assms(8), of "book_key_of e" "st\<lparr>bks_status := BOOK_INVALID\<rparr>"] assms(4,9) by simp

text \<open>
  The checksum of a side by side listing of the best twenty-five levels, as the venue may send it: absent,
  as an unsigned or as a signed number of 32 bits.
\<close>

definition checksum_fits :: "document \<Rightarrow> level list \<Rightarrow> level list \<Rightarrow> bool" where
  "checksum_fits update bids asks \<longleftrightarrow>
     (let sent = py_get update ''checksum'';
          c = crc32 (join '':'' (interleave (take 25 (sorted_bids (dict_values (book_of bids))))
                                         (take 25 (sorted_asks (dict_values (book_of asks)))))) in
      sent = JNull \<or> py_int (py_str sent) = Some c \<or> 2 ^ 31 \<le> c \<and> py_int (py_str sent) = Some (c - 2 ^ 32))"

lemma sorted_twice: "sorted_bids (sorted_bids ls) = sorted_bids ls" "sorted_asks (sorted_asks ls) = sorted_asks ls"
  by (simp_all add: sorted_bids_def sorted_asks_def sort_key_id_if_sorted)

lemma from_state_sides:
  assumes "from_state env now st cb = (Inr snap, cb1)"
  shows "cob_bids snap = sorted_bids (dict_values (bks_bids st))" "cob_asks snap = sorted_asks (dict_values (bks_asks st))"
    "cb_states cb1 = cb_states cb"
  using assms by (auto simp: from_state_def canonical_def Let_def sorted_twice split: if_splits)

lemma checksum_verdict:
  assumes "cob_bids snap = sorted_bids (dict_values (book_of bids))" "cob_asks snap = sorted_asks (dict_values (book_of asks))"
  shows "if checksum_fits update bids asks then validate_checksum update snap cb = (Inr (), cb)
    else \<exists>msg cb'. validate_checksum update snap cb = (Inl (ValueError msg), cb') \<and> cb_states cb' = cb_states cb"
  using assms by (auto simp: validate_checksum_def checksum_fits_def book_checksum_def Let_def split: option.splits)

text \<open>A book built from good levels within the time limits passes every check but that of the checksum.\<close>

lemma good_levels_publish:
  assumes "levels_of update ''bids'' = Inr bids" "levels_of update ''asks'' = Inr asks"
    and "bids \<noteq> []" "asks \<noteq> []" "list_all (\<lambda>(p, q). 0 < pd_value p \<and> 0 < pd_value q) (bids @ asks)"
    and "list_all (\<lambda>(b, _). list_all (\<lambda>(a, _). pd_value b < pd_value a) asks) bids"
    and "event_instant e \<le> now + cb_maximum_future cb" "now - event_instant e \<le> cb_maximum_age cb"
  shows "\<exists>snap cb1. from_state env now (fresh_book e channel (book_of bids) (book_of asks)) cb = (Inr snap, cb1)"
proof -
  let ?bs = "sorted_bids (dict_values (book_of bids))" and ?as = "sorted_asks (dict_values (book_of asks))"
  have ne: "?bs \<noteq> []" "?as \<noteq> []" using assms(3,4) by (simp_all add: sorted_sides dict_values_def book_of_empty)
  have mem: "(p, q) \<in> set ?bs \<Longrightarrow> p \<in> fst ` set bids \<and> q \<in> snd ` set bids" "(p, q) \<in> set ?as \<Longrightarrow> p \<in> fst ` set asks \<and> q \<in> snd ` set asks" for p q
    using book_of_mem by (simp_all add: sorted_sides)
  have good: "0 < pd_value p \<and> 0 < pd_value q \<and> dec_finite (pd_value p) \<and> dec_finite (pd_value q)" if "(p, q) \<in> set (?bs @ ?as)" for p q
    using that mem [of p q] assms(5) parsed_finite [OF assms(1)] parsed_finite [OF assms(2)] by (fastforce simp: list_all_iff)
  have pos: "\<not> list_ex (\<lambda>(p, q). pd_value p \<le> 0 \<or> pd_value q \<le> 0) (?bs @ ?as)"
    unfolding list_ex_iff by (auto simp del: set_append dest!: good)
  have fin: "\<not> list_ex (\<lambda>(p, q). \<not> dec_finite (pd_value p) \<or> \<not> dec_finite (pd_value q)) (?bs @ ?as)"
    unfolding list_ex_iff by (auto simp del: set_append dest!: good)
  have "hd ?bs \<in> set ?bs" "hd ?as \<in> set ?as" using ne by (blast intro: hd_in_set)+
  then have cross: "pd_value (fst (hd ?bs)) < pd_value (fst (hd ?as))"
    using mem(1) [of "fst (hd ?bs)" "snd (hd ?bs)"] mem(2) [of "fst (hd ?as)" "snd (hd ?as)"] assms(6)
    by (fastforce simp: list_all_iff)
  show ?thesis
    using ne pos fin cross assms(7,8) by (auto simp: from_state_def canonical_def Let_def fresh_book_def sorted_twice)
qed


end
