(* ===== verification/Shadow_Book_Examples.thy ===== *)
theory Shadow_Book_Examples
  imports Shadow_Book_Guarantees
begin

text \<open>
  Runs of the canonical order books on concrete events: a Bitget snapshot and its delta, a delta with a
  sequence gap, and a snapshot after it. They witness the guarantees of \<open>Shadow_Book_Guarantees\<close>.
\<close>

definition px :: "nat \<Rightarrow> pydec" where
  "px n = \<lparr>pd_neg = False, pd_coeff = n, pd_exp = 0\<rparr>"

definition doc_S :: document where
  "doc_S = [(''bids'', JArr [JArr [JStr ''100'', JStr ''1'']]), (''asks'', JArr [JArr [JStr ''101'', JStr ''2'']])]"

definition doc_D :: document where
  "doc_D = [(''bids'', JArr [JArr [JStr ''99'', JStr ''3'']])]"

definition book_env :: shadow_env where
  "book_env = \<lparr>she_loads = (\<lambda>text. Inr (JObj (if text = ''S'' then doc_S else doc_D))),
     she_book_hash = (\<lambda>_. ''hash''), she_pair_hash = (\<lambda>_. ''pair''), she_fromisoformat = (\<lambda>_. Inr 0)\<rparr>"

definition book_event :: "string \<Rightarrow> string \<Rightarrow> int \<Rightarrow> RawMarketEvent" where
  "book_event kind text n =
     \<lparr>rme_event_id = text, rme_venue = ''bitget'', rme_canonical_instrument_id = ''BTC'',
      rme_event_type = kind, rme_exchange_timestamp = Some 0, rme_received_at = 0, rme_available_at = 0, rme_sequence = Some n,
      rme_raw_payload = text, rme_normalizer_version = ''v1'', rme_channel = [], rme_connection_epoch = Some 1\<rparr>"

definition ev_S :: RawMarketEvent where "ev_S = book_event ''orderbook_snapshot'' ''S'' 5"
definition ev_D :: RawMarketEvent where "ev_D = book_event ''orderbook_delta'' ''D'' 6"
definition ev_G :: RawMarketEvent where "ev_G = book_event ''orderbook_delta'' ''D'' 9"
definition b0 :: CanonicalOrderBookStateBuilder where "b0 = CanonicalOrderBookStateBuilder_init 10 5"

lemma px_parsed:
  "parse_decimal ''100'' = Some (Parsed (px 100))" "parse_decimal ''101'' = Some (Parsed (px 101))" "parse_decimal ''99'' = Some (Parsed (px 99))"
  "parse_decimal ''1'' = Some (Parsed (px 1))" "parse_decimal ''2'' = Some (Parsed (px 2))" "parse_decimal ''3'' = Some (Parsed (px 3))"
  by code_simp+

lemma px_value [simp]: "pd_value (px n) = of_nat n"
  by (simp add: pd_value_def px_def)

lemma px_finite: "dec_finite 100" "dec_finite 101" "dec_finite 99" "dec_finite 1" "dec_finite 2" "dec_finite 3"
  by code_simp+

lemma book_levels:
  "levels_of doc_S ''bids'' = Inr [(px 100, px 1)]" "levels_of doc_S ''asks'' = Inr [(px 101, px 2)]"
  "levels_of doc_D ''bids'' = Inr [(px 99, px 3)]" "levels_of doc_D ''asks'' = Inr []"
  by (simp_all add: levels_of_def raw_levels_def py_get_def doc_S_def doc_D_def parse_level_def px_parsed px_finite py_str.simps)

definition st_S :: BookState where
  "st_S = fresh_book ev_S ''orderbook'' [(100, px 100, px 1)] [(101, px 101, px 2)]"

definition st_D :: BookState where
  "st_D = extended_book ev_D [(100, px 100, px 1), (99, px 99, px 3)] [(101, px 101, px 2)] st_S"

lemma book_docs:
  "event_payload book_env ev_S = Inr doc_S" "event_payload book_env ev_D = Inr doc_D" "event_payload book_env ev_G = Inr doc_D"
  "book_update doc_S = doc_S" "book_update doc_D = doc_D"
  "py_get doc_S ''checksum'' = JNull" "py_get doc_D ''checksum'' = JNull" "py_get doc_D ''previous_sequence'' = JNull"
  "py_get doc_D ''action'' = JNull"
  by (simp_all add: event_payload_def book_env_def ev_S_def ev_D_def ev_G_def book_event_def book_update_def py_get_def doc_S_def doc_D_def)

lemma st_published:
  "limits cb = limits b0 \<Longrightarrow> \<exists>s cb'. from_state book_env 0 st_S cb = (Inr s, cb') \<and> cb_states cb' = cb_states cb"
  "limits cb = limits b0 \<Longrightarrow> \<exists>s cb'. from_state book_env 0 st_D cb = (Inr s, cb') \<and> cb_states cb' = cb_states cb"
  by (simp_all add: limits_def from_state_def canonical_def st_S_def st_D_def extended_book_def fresh_book_def ev_S_def ev_D_def b0_def
      CanonicalOrderBookStateBuilder_init_def book_event_def event_instant_def seconds_def
      sorted_asks_def sorted_bids_def dict_values_def px_finite level_key_def Let_def)

abbreviation btc_book :: book_key where
  "btc_book \<equiv> (''bitget'', ''BTC'', ''orderbook'')"

lemma book_events:
  "book_key_of ev_S = btc_book" "book_key_of ev_D = btc_book" "book_key_of ev_G = btc_book"
  "event_epoch ev_S = 1" "event_epoch ev_D = 1" "event_epoch ev_G = 1" "bks_connection_epoch st_S = 1"
  "\<not> is_book_snapshot ev_D doc_D" "\<not> is_book_snapshot ev_G doc_D" "is_book_snapshot ev_S doc_S"
  "delta_fate_of ev_D doc_D st_S = Delta_next" "delta_fate_of ev_G doc_D st_S = Delta_gap" "bks_status st_S = BOOK_VALID"
  by (simp_all add: book_key_of_def book_channel_def event_epoch_def is_book_snapshot_def delta_fate_of_def book_docs
      st_S_def fresh_book_def ev_S_def ev_D_def ev_G_def book_event_def)

lemma book_route:
  "apply_event book_env now ev_S cb = apply_bitget book_env now ev_S cb" "apply_event book_env now ev_D cb = apply_bitget book_env now ev_D cb"
  "apply_event book_env now ev_G cb = apply_bitget book_env now ev_G cb"
  by (simp_all add: apply_event_def FUNDING_CARRY_SHADOW_ALLOWED_INSTRUMENTS_def ev_S_def ev_D_def ev_G_def book_event_def)

lemma S_applied:
  assumes "limits cb = limits b0" "map_of (cb_states cb) btc_book = None"
  shows "\<exists>s cb'. apply_event book_env 0 ev_S cb = (Inr (Some s), cb') \<and> map_of (cb_states cb') btc_book = Some st_S \<and> limits cb' = limits b0"
proof -
  let ?cb = "set_book btc_book st_S (bump (\<lambda>m. m\<lparr>obm_snapshot_count := obm_snapshot_count m + 1\<rparr>) cb)"
  have st: "fresh_book ev_S (book_channel ev_S) (book_of [(px 100, px 1)]) (book_of [(px 101, px 2)]) = st_S"
    by (simp add: st_S_def book_of_def book_set_def book_channel_def ev_S_def book_event_def)
  obtain s cb' where f: "from_state book_env 0 st_S ?cb = (Inr s, cb')" "cb_states cb' = cb_states ?cb"
    using st_published(1) [of ?cb] assms(1) by auto
  have "apply_event book_env 0 ev_S cb = (Inr (Some s), cb')"
    using assms f st by (simp add: book_route apply_bitget_def reset_on_reconnect_def book_docs book_events catch_value_error_def
        take_snapshot_def book_levels validated_def bindS_def validate_checksum_def)
  then show ?thesis using f limits_event [of book_env 0 ev_S cb] assms(1) by auto
qed

lemma D_applied:
  assumes "limits cb = limits b0" "map_of (cb_states cb) btc_book = Some st_S"
  shows "\<exists>s cb'. apply_event book_env 0 ev_D cb = (Inr (Some s), cb') \<and> map_of (cb_states cb') btc_book = Some st_D \<and> limits cb' = limits b0"
proof -
  let ?cb = "set_book btc_book st_D (bump (\<lambda>m. m\<lparr>obm_delta_count := obm_delta_count m + 1\<rparr>) cb)"
  have st: "take_delta book_env 0 ev_D doc_D st_S cb1 = validated book_env 0 doc_D st_D (set_book btc_book st_D cb1)" for cb1
    by (simp add: take_delta_def apply_sides_def book_levels book_events st_D_def extended_book_def next_sequence_def
        st_S_def fresh_book_def book_set_def Let_def split: option.splits)
  obtain s cb' where f: "from_state book_env 0 st_D ?cb = (Inr s, cb')" "cb_states cb' = cb_states ?cb"
    using st_published(2) [of ?cb] assms(1) by auto
  have "apply_event book_env 0 ev_D cb = (Inr (Some s), cb')"
    using assms f st by (simp add: book_route apply_bitget_def reset_on_reconnect_def book_docs book_events catch_value_error_def
        apply_book_delta_def validated_def bindS_def validate_checksum_def Let_def)
  then show ?thesis using f limits_event [of book_env 0 ev_D cb] assms(1) by auto
qed

lemma G_applied:
  assumes "map_of (cb_states cb) btc_book = Some st_S"
  shows "\<exists>cb'. apply_event book_env 0 ev_G cb = (Inr None, cb')"
  using assms by (simp add: book_route apply_bitget_def reset_on_reconnect_def book_docs book_events apply_book_delta_def Let_def)

lemma D_dropped:
  assumes "map_of (cb_states cb) btc_book = Some (st_S\<lparr>bks_status := BOOK_INVALID\<rparr>)"
  shows "\<exists>cb'. apply_event book_env 0 ev_D cb = (Inr None, cb')"
  using assms by (simp add: book_route apply_bitget_def reset_on_reconnect_def book_docs book_events apply_book_delta_def Let_def)

lemma book_run:
  obtains s1 cb1 s2 cb2 where "apply_event book_env 0 ev_S b0 = (Inr (Some s1), cb1)" "apply_event book_env 0 ev_D cb1 = (Inr (Some s2), cb2)"
    "map_of (cb_states cb1) btc_book = Some st_S"
proof -
  obtain s1 cb1 where 1: "apply_event book_env 0 ev_S b0 = (Inr (Some s1), cb1)" "map_of (cb_states cb1) btc_book = Some st_S" "limits cb1 = limits b0"
    using S_applied [of b0] by (auto simp: b0_def CanonicalOrderBookStateBuilder_init_def)
  show ?thesis using D_applied [OF 1(3,2)] 1 that by blast
qed

theorem canonical_books_sound_witness:
  "\<exists>cb snap cb'. apply_event book_env 0 ev_D cb = (Inr (Some snap), cb') \<and> published_well book_env 0 ev_D b0 snap"
proof -
  obtain s1 cb1 s2 cb2 where r: "apply_event book_env 0 ev_S b0 = (Inr (Some s1), cb1)" "apply_event book_env 0 ev_D cb1 = (Inr (Some s2), cb2)"
    by (rule book_run)
  then have "apply_events book_env [(0, ev_S)] b0 = (Inr [Some s1], cb1)" by (simp add: bindS_def)
  then show ?thesis using canonical_books_sound [of book_env "[(0, ev_S)]" 10 5] r(2) unfolding b0_def by blast
qed

theorem book_is_replay_witness:
  "\<exists>cb snap cb' st. apply_event book_env 0 ev_D cb = (Inr (Some snap), cb') \<and> shows_book snap st \<and>
     explained book_env [ev_S, ev_D] btc_book st"
proof -
  obtain s1 cb1 s2 cb2 where r: "apply_event book_env 0 ev_S b0 = (Inr (Some s1), cb1)" "apply_event book_env 0 ev_D cb1 = (Inr (Some s2), cb2)"
    by (rule book_run)
  then have "apply_events book_env [(0, ev_S)] b0 = (Inr [Some s1], cb1)" by (simp add: bindS_def)
  moreover have "rme_venue ev_D = ''bitget''" by (simp add: ev_D_def book_event_def)
  ultimately obtain st where "shows_book s2 st" "explained book_env (map snd [(0::instant, ev_S)] @ [ev_D]) (book_key_of ev_D) st"
    using book_is_replay [of book_env "[(0, ev_S)]" 10 5 "[Some s1]" cb1 0 ev_D s2 cb2] r(2) unfolding b0_def by blast
  then have "shows_book s2 st \<and> explained book_env [ev_S, ev_D] btc_book st" by (simp add: book_events)
  then show ?thesis using r(2) by blast
qed

theorem gap_silences_book_witness:
  "\<exists>cb cb1 rs cb'. map_of (cb_states cb) btc_book = Some st_S \<and> apply_event book_env 0 ev_G cb = (Inr None, cb1) \<and>
     apply_events book_env [(0, ev_D)] cb1 = (Inr [None], cb') \<and> map_of (cb_states cb') btc_book = Some (st_S\<lparr>bks_status := BOOK_INVALID\<rparr>)"
proof -
  obtain s1 cb s2 cb2 where "apply_event book_env 0 ev_S b0 = (Inr (Some s1), cb)" "apply_event book_env 0 ev_D cb = (Inr (Some s2), cb2)"
    and s: "map_of (cb_states cb) btc_book = Some st_S" by (rule book_run)
  obtain cb1 where g: "apply_event book_env 0 ev_G cb = (Inr None, cb1)" using G_applied [OF s] by blast
  have u: "update_of book_env ev_D = doc_D" "update_of book_env ev_G = doc_D" by (simp_all add: update_of_def book_docs)
  have e: "reaches (book_key_of ev_G) ev_G"
    by (simp add: reaches_def FUNDING_CARRY_SHADOW_ALLOWED_INSTRUMENTS_def ev_G_def book_event_def)
  have m: "map_of (cb_states cb) (book_key_of ev_G) = Some st_S" "event_epoch ev_G = bks_connection_epoch st_S"
      "bks_status st_S \<noteq> BOOK_INVALID" "\<not> is_book_snapshot ev_G (update_of book_env ev_G)"
      "delta_fate_of ev_G (update_of book_env ev_G) st_S = Delta_gap"
    using s by (simp_all add: book_events u)
  note silent = gap_silences_book [OF g e m]
  have "apply_events book_env [] cb1 = (Inr [], cb1)" by simp
  from silent [OF this] have "map_of (cb_states cb1) btc_book = Some (st_S\<lparr>bks_status := BOOK_INVALID\<rparr>)" by (simp add: book_events)
  then obtain cb' where d: "apply_event book_env 0 ev_D cb1 = (Inr None, cb')" using D_dropped by blast
  then have run: "apply_events book_env [(0, ev_D)] cb1 = (Inr [None], cb')" by (simp add: bindS_def)
  have "list_all (\<lambda>(now, d). reaches (book_key_of ev_G) d \<longrightarrow>
      \<not> is_book_snapshot d (update_of book_env d) \<and> event_epoch d = event_epoch ev_G) [(0, ev_D)]"
    by (simp add: book_events u)
  from silent [OF run this] show ?thesis using s g run by (auto simp: book_events)
qed


end
