(* ===== verification/Spec2Isabelle.thy ===== *)
theory Spec2Isabelle
  imports Backtest_Causality Paper_Broker Validation_Splits Gateway_Safety Collector_Leases Stream_Safety Carry_Safety Operations_Examples
    Collector_Health Shadow_Book_Examples
begin

text \<open>
  A verification of the trading core of CryptTool (\<open>src/app\<close>), a research and trading system for
  crypto-currency perpetuals. Its core has four desks that share one vocabulary of instruments, orders,
  fills and limits: a deterministic event-driven backtester, a paper broker driven by live quotes, a
  continuous paper operation that schedules research, signals and simulated execution, and a live
  gateway that submits the two legs of a cross-venue trade to an exchange adapter. A risk manager
  sizes and admits entries. Strategies, features, data collection and reports lie around
  this core and feed it signals and quotes.

  \<^bold>\<open>Theories and code.\<close> Every definition keeps the name of the function or class it translates, with a
  prefix where the name is taken; a class is a record, its constructor \<open><Class>_init\<close>, its validators
  \<open><Class>_validate\<close> or \<open><Class>_post_init\<close>, its methods functions on the record.

  \<^item> \<open>Prelude\<close>: exceptions as values (\<open>error\<close>, \<open>result\<close>, and \<open>outcome\<close> where an object is changed before
    the exception), naive and aware datetimes, insertion-ordered dictionaries, and the locales of a
    machine with an invariant and of a latched machine, whose run lemmas the components inherit.
  \<^item> \<open>Decimal_Arith\<close>: Python's \<open>Decimal\<close> with the default context: every operation rounds half-even to 28
    significant digits. Its sign, order and error lemmas carry the accounting proofs.
  \<^item> \<open>Execution_Models\<close>, \<open>Execution_Simulator\<close>: \<open>domain/execution/models.py\<close>, \<open>simulator.py\<close>. The life
    of an order, quantisation, and matching against a snapshot with caps, costs and a fill consumer.
  \<^item> \<open>Portfolio_Models\<close>, \<open>Portfolio_Ledger\<close>: \<open>domain/portfolio/models.py\<close>, \<open>ledger.py\<close>. Positions, cash,
    funding, margin and liquidation; cash and holdings are the replay of the
    recorded fills and funding by reference rules.
  \<^item> \<open>Backtest_Events\<close>, \<open>Backtest_Engine\<close>, \<open>Backtest_Causality\<close>: \<open>services/backtest/events.py\<close>,
    \<open>engine.py\<close>. The event queue as a stable sort, every handler, the event loop: agreement of simulator
    and ledger, order and termination, and every fill traced through its order to one signal.
  \<^item> \<open>Risk_Models\<close>, \<open>Risk_Sizing\<close>, \<open>Risk_Manager\<close>: \<open>domain/risk/models.py\<close>, \<open>sizing.py\<close>, \<open>manager.py\<close>,
    \<open>domain/strategies/models.py\<close>. Position sizing within exposure and loss limits, the circuit breaker,
    the kill switch and the entry decision.
  \<^item> \<open>Leg_Execution\<close>: \<open>domain/execution/leg_state.py\<close>, \<open>services/emergency_hedge.py\<close>. The two-leg state
    machine and the choice of an emergency hedge venue.
  \<^item> \<open>Paper_Broker\<close>: \<open>services/paper_trading\<close> (models, broker, session, reports).
  \<^item> \<open>Validation_Splits\<close>: \<open>services/validation/splits.py\<close>. Chronological, purged k-fold and walk-forward
    splits without leakage.
  \<^item> \<open>Venue_Models\<close>, \<open>Venue_Risk\<close>: \<open>domain/venues/models.py\<close>, \<open>risk.py\<close>, \<open>services/venue_monitor.py\<close>,
    \<open>venue_risk.py\<close>, \<open>venue_eligibility.py\<close>. Eligibility, the capability life cycle, risk signals and
    allocation budgets.
  \<^item> \<open>Live_Preflight\<close>: \<open>services/live_trading/preflight.py\<close> and the validators of
    \<open>config/settings.py\<close> it relies on.
  \<^item> \<open>Cross_Venue_Preflight\<close>: \<open>services/live_trading/cross_venue_preflight.py\<close>,
    \<open>infrastructure/database/preflight_bindings.py\<close>. Signed preflights, and bindings behind a
    compare-and-set repository: the locale \<open>cas_repository\<close> states its contract, the in-memory repository
    is its interpretation, and the PostgreSQL repository refines it.
  \<^item> \<open>Signal_Evidence\<close>, \<open>Live_Models\<close>: \<open>domain/market_data/evidence.py\<close>, \<open>source_event_repository.py\<close>,
    \<open>domain/venues/trusted_capabilities.py\<close>, \<open>domain/strategies/capabilities.py\<close>,
    \<open>domain/execution/live_models.py\<close>. What a live order carries and what an exchange answers.
  \<^item> \<open>Gateway_Bindings\<close>, \<open>Gateway_Validation\<close>, \<open>Live_Gateway\<close>: \<open>services/live_trading/gateway.py\<close> and
    \<open>adapters/exchanges/disabled.py\<close>. Reserving, acknowledging and reconciling bindings; the chain of
    checks; placing, previewing, cancelling, closing and the kill switch.
  \<^item> \<open>Gateway_Placement\<close>, \<open>Gateway_Admission\<close>, \<open>Gateway_Trace\<close>, \<open>Gateway_Protocol\<close>, \<open>Gateway_Safety\<close>, with
    \<open>Gateway_Examples\<close>: receipts are idempotent, the kill switch is final, the rate limit holds, the chain
    of checks holds exactly under the conditions written out in \<open>cleared\<close> and an order reaches the
    adapter only behind them, bindings move one protocol edge per version under a stated reliance on the
    surroundings, reconciliation is decisive, and an unapproved gateway is inert.
  \<^item> \<open>Json_Text\<close>, \<open>Collector_Leases\<close>: what the program uses of \<open>json\<close> as text, with its round trip, and
    \<open>services/research/collector_runs.py\<close>: leases that keep collectors apart and the records of their
    runs. The locale \<open>lease_store\<close> is the contract of a repository, with exclusivity proved once; the
    in-memory repository interprets it, the SQL repository does on every \<open>faithful_column\<close>, and it
    refines the in-memory one.
  \<^item> \<open>Stream_Reconciliation\<close>, \<open>Stream_Safety\<close>: \<open>adapters/exchanges/websocket.py\<close>. Reconciling an
    order-book stream message by message, REST bootstrap and recovery, the reconnect loop: books without
    gaps as long as a connection delivers in order, synchronized messages only, a bounded rate of
    reconnects.
  \<^item> \<open>Funding_Carry\<close>, \<open>Carry_Safety\<close>: \<open>domain/strategies/funding_carry.py\<close>. The shadow evaluation of a
    funding carry between two venues: it always answers with an exact verdict, candidates rest on fresh,
    synchronized and uncrossed data and are priced within the displayed depth, and their identity is
    that of their sources.
  \<^item> \<open>Operation_Models\<close>, \<open>Paper_Operations\<close>, \<open>Operation_Reports\<close>: \<open>services/operations/models.py\<close>,
    \<open>repository.py\<close> (in memory), \<open>service.py\<close>. The continuous paper operation: its start and restart,
    eligibility of strategies, signals, shadow candidates, simulated two-leg execution, funding, risk
    halts, attribution, the promotion verdict, daily reports, and the ticks of its workers. A call is a
    function on the state of the service that may raise and keeps what it changed.
  \<^item> \<open>Operations_Safety\<close>, \<open>Operations_Guarantees\<close>, with \<open>Operations_Examples\<close>: the locale \<open>call_relation\<close> says
    what it takes for a relation to hold between the states before and after every call; its
    interpretations give well-formed stores, frozen halted portfolios and fixed settings. Orders are
    gated, signals eligible exactly under the stated conditions, shadow metrics consistent, promotion is
    earned and the operation is disarmed; seven theorems show where its books and portfolios part ways.
  \<^item> \<open>Collector_Health\<close>: \<open>services/operations/collector_health.py\<close>. The health of the collectors from their
    failures and checkpoints.
  \<^item> \<open>Python_Values\<close>: what the program uses of Python's \<open>str\<close>, \<open>int\<close> and \<open>Decimal\<close> on JSON values, decimals
    with their exponents and their round trip through text, and \<open>zlib.crc32\<close>.
  \<^item> \<open>Shadow_Books\<close>, \<open>Shadow_Book_Safety\<close>, \<open>Shadow_Book_Guarantees\<close>, with \<open>Shadow_Book_Examples\<close>:
    \<open>services/operations/shadow_runtime.py\<close>, the canonical order books. What one event does to a book is an
    inductive step relation; over any run a published book is sound and the replay of what was received,
    a gap silences it and a snapshot with a fitting checksum brings it back.

  \<^bold>\<open>How components interact.\<close> The engine drives the simulator with a quantity cap read from the ledger and
  a fill consumer that books into it, so matching is parametric in both. The live gateway reads the
  preflight report, the settings, the eligibility of the venue, the risk decision, the trusted
  capabilities and the signed preflight, tells the leg machine of a changed preflight, and keeps its
  bindings in the repository. The paper operation calls the shadow evaluator and shares the settings
  of the live preflight. The property below joins configuration, preflight report, adapter and gateway.

  \<^bold>\<open>Parameters.\<close> What is not in the repository is an argument: the numpy functions of the splits
  (\<open>numpy_ok\<close>), the database session (\<open>database_ok\<close>), the digests of payloads and evidence, uuids, the
  clock, what a timestamp column gives back (\<open>faithful\<close>), the socket, the REST answers and the
  callbacks of a stream, the texts of decimals and timestamps and what the actions of the paper
  operation answer, the iteration order of Python sets (\<open>set_iter_ok\<close>, \<open>iter_ok\<close>), the exchange adapter and what
  other processes do around it (\<open>environment\<close>, with \<open>rely\<close> where a theorem needs it). Each hypothesis has
  a concrete instance in a witness.

  \<^bold>\<open>Numbers, time, loops.\<close> Binary floating-point values that the code only compares, or converts with
  \<open>Decimal(str(x))\<close>, are rationals; the ratio arithmetic of the splits keeps a rounding function.
  Instants are integer microseconds. The event loop has the code's own event budget, proved sufficient;
  the walk-forward loop is a partial function, proved to return; the one recursive call of the gateway
  nests at most once; all other loops are structural.

  \<^bold>\<open>Not modelled.\<close> Feature, regime and strategy computations and the overfitting statistics (binary
  floating point over pandas and numpy); the parsers of the public market-data adapters, notifications,
  certification, collection jobs and the command line (I/O and wiring around the core); the reader and
  heartbeat tasks of a stream and its sinks; the PostgreSQL repository, the report
  files and the worker scheduling of the paper operation; its shadow input runtime beyond the order books; the loader of the trusted-capability
  artifacts (file parsing); the optional audit sink of the gateway; database failures other than an integrity
  error; the exponent limits of decimals, the ranges of dates and durations and the bounds of integer
  columns; concurrent tasks of one gateway that change its own fields while a placement waits.
\<close>

section \<open>A simulated desk never trades\<close>

text \<open>
  C6. Paper trading, dry runs and the disabled adapter cannot reach an exchange: for a
  configuration in which live trading is off, or with the disabled adapter, a gateway built on the
  evaluated preflight report answers any sequence of previews, placements, cancellations, closings and
  kill switches without changing the world, and every receipt it remembers is a rejection that called
  no adapter.
\<close>

theorem simulated_desk_never_trades:
  assumes "\<not> st_live_trading s \<or> env = DisabledExecutionAdapter other_processes uuids evidence_digests preflight_digests"
    "LiveExecutionGateway_init env clock s (evaluate_live_preflight s c) events registry model_version config_version
       machine service durable = Inr gw"
    "list_all order_op ops" "fold (live_step env) ops (gw, w) = (gw', w')"
  shows "w' = w \<and> refused gw'"
proof -
  let ?r = "evaluate_live_preflight s c"
  have gw: "gw_preflight gw = ?r" "gw_idempotent_receipts gw = []" "validate_preflight_integrity env s ?r = Inr ()"
    using assms(2) by (auto simp: LiveExecutionGateway_init_def)
  have "\<not> pr_approved ?r" if "\<not> st_live_trading s"
    using that by (simp add: evaluate_live_preflight_def preflight_checks_def Let_def)
  moreover have "\<not> pr_approved ?r" if "\<not> ad_is_concrete env"
    using that gw(3) unfolding validate_preflight_integrity_def by auto
  ultimately have "\<not> pr_approved ?r" using assms(1) by (auto simp: DisabledExecutionAdapter_def)
  then show ?thesis using unapproved_run [OF _ _ assms(3,4)] gw by (simp add: refused_def)
qed

definition demo_paper_settings :: Settings where
  "demo_paper_settings = demo_settings\<lparr>st_live_trading := False, st_paper_trading := True, st_paper_enabled := True,
     st_live := (st_live demo_settings)\<lparr>lv_enabled := False\<rparr>\<rparr>"

theorem simulated_desk_never_trades_witness:
  "\<exists>gw. LiveExecutionGateway_init demo_env (\<lambda>_. 90) demo_paper_settings (evaluate_live_preflight demo_paper_settings demo_context)
      (Some demo_events) (Some demo_registry) ''m'' ''c'' None (Some demo_service) None = Inr gw \<and>
    snd (fold (live_step demo_env) [demo_place, Op_kill ''stop'' (Aware 101)] (gw, demo_world)) = demo_world"
proof -
  let ?r = "evaluate_live_preflight demo_paper_settings demo_context"
  have g: "\<not> st_live_trading demo_paper_settings" by code_simp
  have "validate_preflight_integrity demo_env demo_paper_settings ?r = Inr ()" by code_simp
  then obtain gw where gw: "LiveExecutionGateway_init demo_env (\<lambda>_. 90) demo_paper_settings ?r
      (Some demo_events) (Some demo_registry) ''m'' ''c'' None (Some demo_service) None = Inr gw"
    by (simp add: LiveExecutionGateway_init_def demo_paper_settings_def)
  obtain g' w' where f: "fold (live_step demo_env) [demo_place, Op_kill ''stop'' (Aware 101)] (gw, demo_world) = (g', w')"
    by (metis surj_pair)
  have "list_all order_op [demo_place, Op_kill ''stop'' (Aware 101)]" by (simp add: demo_place_def)
  from simulated_desk_never_trades [OF disjI1 [OF g] gw this f] have "w' = demo_world" by simp
  then show ?thesis using gw f by auto
qed

end
